(* ===== verification/Fzz_Prelude.thy ===== *)
theory Fzz_Prelude
  imports Main "HOL-Library.Word" "HOL-Library.List_Lexorder" "HOL-Library.Char_ord"
begin

text \<open>
  Shared material of the funzzy development: the names of the model's basic types, the Rust
  string operations the sources call, the \<open>u64\<close> arithmetic they use, the generic contracts
  (a bounded history, an observer of an event stream) that several components implement, and
  the list lemmas their proofs share.

  A Rust \<open>String\<close> is a sequence of UTF-8 bytes, and an Isabelle \<^typ>\<open>char\<close> is one byte, so
  \<open>str::len\<close> is \<^const>\<open>length\<close> and \<open>str::as_bytes\<close> reads the characters one by one.
\<close>

section \<open>Types\<close>

type_synonym u64 = "64 word"
type_synonym bytes = "8 word list"

text \<open>\<open>Result<'a, String>\<close>: \<^const>\<open>Inl\<close> carries the error text.\<close>

type_synonym 'a result = "string + 'a"

named_theorems fzz_simps \<open>rewrite rules of the model's operations\<close>
named_theorems fzz_inv \<open>operations keep the invariant of their component\<close>

section \<open>Lists\<close>

text \<open>\<open>VecDeque\<close> with a capacity: push at the back, drop from the front beyond the bound.\<close>

definition push_bounded :: "nat \<Rightarrow> 'a \<Rightarrow> 'a list \<Rightarrow> 'a list" where
  "push_bounded bound x xs = (let ys = xs @ [x] in drop (length ys - bound) ys)"

lemma length_push_bounded: "length (push_bounded b x xs) = min b (Suc (length xs))"
  by (simp add: push_bounded_def)

lemma push_bounded_noevict [simp]: "length xs < b \<Longrightarrow> push_bounded b x xs = xs @ [x]"
  by (simp add: push_bounded_def)

lemma last_push_bounded: "0 < b \<Longrightarrow> push_bounded b x xs \<noteq> [] \<and> last (push_bounded b x xs) = x"
  by (simp add: push_bounded_def last_drop)

lemma set_push_bounded: "set (push_bounded b x xs) \<subseteq> insert x (set xs)"
  by (auto simp: push_bounded_def Let_def dest!: in_set_dropD)

lemma sorted_wrt_push_bounded:
  "sorted_wrt P xs \<Longrightarrow> (\<And>y. y \<in> set xs \<Longrightarrow> P y x) \<Longrightarrow> sorted_wrt P (push_bounded b x xs)"
  by (auto simp: push_bounded_def sorted_wrt_append sorted_wrt_drop Let_def dest!: in_set_dropD)

text \<open>
  The three bounded histories of the program (terminal records, lifecycle transitions, duration
  samples) keep their bound by the loop "push, then pop the front while too long".
\<close>

fun pop_while_over :: "nat \<Rightarrow> 'a list \<Rightarrow> 'a list" where
  "pop_while_over bound [] = []"
| "pop_while_over bound (x # xs) =
     (if length (x # xs) > bound then pop_while_over bound xs else x # xs)"

lemma pop_while_over_eq_drop: "pop_while_over b xs = drop (length xs - b) xs"
proof (induction xs)
  case Nil
  then show ?case by simp
next
  case (Cons x xs)
  then show ?case
    by (cases "length xs - b") (auto simp: Suc_diff_le not_less_eq_eq)
qed

lemma pop_while_over_push: "pop_while_over b (xs @ [x]) = push_bounded b x xs"
  by (simp add: pop_while_over_eq_drop push_bounded_def)

lemma push_bounded_drop:
  "push_bounded b x (drop (length ys - b) ys) = drop (Suc (length ys) - b) (ys @ [x])"
proof (cases "length ys < b")
  case False
  then have "Suc (length ys) - b = 1 + (length ys - b)" by simp
  with False show ?thesis by (simp add: push_bounded_def drop_append)
qed simp

lemma find_rev_Some:
  assumes "find P (rev xs) = Some x"
  shows "\<exists>ys zs. xs = ys @ x # zs \<and> P x \<and> (\<forall>z\<in>set zs. \<not> P z)"
  using assms
proof (induction xs rule: rev_induct)
  case Nil
  then show ?case by simp
next
  case (snoc a xs)
  show ?case
  proof (cases "P a")
    case True
    with snoc.prems have "x = a" by simp
    with True show ?thesis by force
  next
    case False
    with snoc.prems have "find P (rev xs) = Some x" by simp
    from snoc.IH [OF this] obtain ys zs
      where "xs = ys @ x # zs" "P x" "\<forall>z\<in>set zs. \<not> P z" by blast
    with False have "xs @ [a] = ys @ x # (zs @ [a])" "P x" "\<forall>z\<in>set (zs @ [a]). \<not> P z"
      by auto
    then show ?thesis by blast
  qed
qed

lemma find_rev_None: "find P (rev xs) = None \<longleftrightarrow> (\<forall>x\<in>set xs. \<not> P x)"
  by (auto simp: find_None_iff)

section \<open>Contracts shared by several components\<close>

text \<open>
  An observer folds an event stream into its state, one event at a time. What one event keeps,
  a whole stream keeps.
\<close>

locale event_observer =
  fixes step :: "'e \<Rightarrow> 's \<Rightarrow> 's"
    and inv :: "'s \<Rightarrow> bool"
  assumes step_inv: "inv s \<Longrightarrow> inv (step e s)"
begin

lemma fold_inv: "inv s \<Longrightarrow> inv (fold step es s)"
  by (induction es arbitrary: s) (auto intro: step_inv)

end

text \<open>
  A bounded history: a projection of the state is a list that every recording extends at the
  back and cuts at the front to at most \<open>bound\<close> entries.
\<close>

locale bounded_history =
  fixes record_entry :: "'a \<Rightarrow> 's \<Rightarrow> 's"
    and entries :: "'s \<Rightarrow> 'a list"
    and ok :: "'s \<Rightarrow> bool"
    and bound :: nat
  assumes entries_record: "ok s \<Longrightarrow> entries (record_entry x s) = push_bounded bound x (entries s)"
    and ok_record: "ok s \<Longrightarrow> ok (record_entry x s)"
    and bound_pos: "0 < bound"
begin

lemma length_bound: "ok s \<Longrightarrow> length (entries (record_entry x s)) \<le> bound"
  by (simp add: entries_record length_push_bounded)

lemma newest_last:
  assumes "ok s"
  shows "entries (record_entry x s) \<noteq> []" "last (entries (record_entry x s)) = x"
  using last_push_bounded [OF bound_pos, of x "entries s"] by (simp_all add: entries_record assms)

lemma keeps_sorted:
  assumes "ok s" and "sorted_wrt P (entries s)" and "\<And>y. y \<in> set (entries s) \<Longrightarrow> P y x"
  shows "sorted_wrt P (entries (record_entry x s))"
  using assms by (simp add: entries_record sorted_wrt_push_bounded)

text \<open>After any number of recordings the history is the end of everything recorded.\<close>

lemma entries_fold:
  assumes "ok s" and "entries s = drop (length ys - bound) ys"
  shows "entries (fold record_entry xs s) = drop (length (ys @ xs) - bound) (ys @ xs)"
  using assms
proof (induction xs arbitrary: s ys)
  case (Cons x xs)
  have "entries (record_entry x s) = drop (length (ys @ [x]) - bound) (ys @ [x])"
    using Cons.prems by (simp add: entries_record push_bounded_drop)
  from Cons.IH [OF ok_record [OF Cons.prems(1)] this] show ?case by simp
qed simp

end

section \<open>Strings\<close>

text \<open>\<open>str::starts_with\<close>, \<open>slice.join\<close>, \<open>str::split\<close> and \<open>str::replace\<close> with a non-empty pattern.\<close>

definition starts_with :: "string \<Rightarrow> string \<Rightarrow> bool" where
  "starts_with s p \<longleftrightarrow> take (length p) s = p"

lemma starts_with_iff: "starts_with s p \<longleftrightarrow> (\<exists>r. s = p @ r)"
  unfolding starts_with_def by (metis append_eq_conv_conj append_take_drop_id)

lemma starts_with_append [simp]: "starts_with (p @ r) p"
  by (simp add: starts_with_def)

lemma starts_with_refl [simp]: "starts_with s s"
  by (simp add: starts_with_def)

fun join_with :: "string \<Rightarrow> string list \<Rightarrow> string" where
  "join_with sep [] = []"
| "join_with sep [x] = x"
| "join_with sep (x # y # ys) = x @ sep @ join_with sep (y # ys)"

lemma join_with_Nil_sep: "join_with [] xs = concat xs"
  by (induction xs rule: induct_list012) auto

lemma join_with_Cons: "xs \<noteq> [] \<Longrightarrow> join_with sep (x # xs) = x @ sep @ join_with sep xs"
  by (cases xs) auto

function split_str :: "string \<Rightarrow> string \<Rightarrow> string \<Rightarrow> string list" where
  "split_str p acc s =
     (if p = [] \<or> s = [] then [rev acc @ s]
      else if starts_with s p then rev acc # split_str p [] (drop (length p) s)
      else split_str p (hd s # acc) (tl s))"
  by pat_completeness auto
termination
  by (relation "measure (\<lambda>(p, acc, s). length s)") auto

declare split_str.simps [simp del]

lemma split_str_end: "p = [] \<or> s = [] \<Longrightarrow> split_str p acc s = [rev acc @ s]"
  by (subst split_str.simps) simp

lemma split_str_match: "p \<noteq> [] \<Longrightarrow> split_str p acc (p @ r) = rev acc # split_str p [] r"
  by (subst split_str.simps) (simp add: starts_with_def)

lemma split_str_skip:
  "p \<noteq> [] \<Longrightarrow> \<not> starts_with (c # cs) p \<Longrightarrow> split_str p acc (c # cs) = split_str p (c # acc) cs"
  by (subst split_str.simps) simp

definition str_split :: "string \<Rightarrow> string \<Rightarrow> string list" where
  "str_split p s = split_str p [] s"

definition str_replace :: "string \<Rightarrow> string \<Rightarrow> string \<Rightarrow> string" where
  "str_replace p to s = join_with to (str_split p s)"

definition str_contains :: "string \<Rightarrow> string \<Rightarrow> bool" where
  "str_contains p s \<longleftrightarrow> (\<exists>i\<in>set [0..<Suc (length s)]. starts_with (drop i s) p)"

lemma str_contains_iff: "str_contains p s \<longleftrightarrow> (\<exists>a b. s = a @ p @ b)"
proof
  assume "str_contains p s"
  then obtain i where "i \<le> length s" "starts_with (drop i s) p"
    unfolding str_contains_def by (metis atLeastLessThan_iff atLeastLessThan_upt less_Suc_eq_le)
  then obtain r where "drop i s = p @ r" by (auto simp: starts_with_iff)
  then have "s = take i s @ p @ r" by (metis append_take_drop_id)
  then show "\<exists>a b. s = a @ p @ b" by blast
next
  assume "\<exists>a b. s = a @ p @ b"
  then obtain a b where s: "s = a @ p @ b" by blast
  then have "starts_with (drop (length a) s) p" "length a \<le> length s" by simp_all
  then show "str_contains p s"
    unfolding str_contains_def by (intro bexI [of _ "length a"]) (auto simp: less_Suc_eq_le)
qed

lemma str_contains_Cons: "str_contains p s \<Longrightarrow> str_contains p (c # s)"
  unfolding str_contains_iff by (metis append_Cons)

lemma split_str_nonempty [simp]: "split_str p acc s \<noteq> []"
proof (induction p acc s rule: split_str.induct)
  case (1 p acc s)
  then show ?case by (subst split_str.simps) auto
qed

lemma split_str_no_match:
  "\<not> str_contains p s \<Longrightarrow> split_str p acc s = [rev acc @ s]"
proof (induction p acc s rule: split_str.induct)
  case (1 p acc s)
  show ?case
  proof (cases "p = [] \<or> s = []")
    case True
    then show ?thesis by (simp add: split_str_end)
  next
    case False
    then obtain c cs where s: "s = c # cs" by (cases s) auto
    have "\<not> starts_with s p"
      using "1.prems" unfolding str_contains_iff starts_with_iff by (metis append_Nil)
    moreover have "\<not> str_contains p cs"
      using "1.prems" s str_contains_Cons by blast
    ultimately show ?thesis
      using "1.IH"(2) False s by (simp add: split_str_skip)
  qed
qed

lemma join_split_str:
  "join_with p (split_str p acc s) = rev acc @ s"
proof (induction p acc s rule: split_str.induct)
  case (1 p acc s)
  show ?case
  proof (cases "p = [] \<or> s = []")
    case True
    then show ?thesis by (simp add: split_str_end)
  next
    case False
    then obtain c cs where s: "s = c # cs" by (cases s) auto
    show ?thesis
    proof (cases "starts_with s p")
      case True
      then obtain r where r: "s = p @ r" by (auto simp: starts_with_iff)
      with "1.IH"(1) False True have "join_with p (split_str p [] r) = r" by simp
      with False r show ?thesis by (simp add: split_str_match join_with_Cons)
    next
      case no: False
      with "1.IH"(2) False s have "join_with p (split_str p (c # acc) cs) = rev acc @ s" by simp
      with False no s show ?thesis by (simp add: split_str_skip)
    qed
  qed
qed

lemma join_str_split: "join_with p (str_split p s) = s"
  by (simp add: str_split_def join_split_str)

lemma str_replace_same: "str_replace p p s = s"
  by (simp add: str_replace_def join_str_split)

lemma str_replace_no_match: "\<not> str_contains p s \<Longrightarrow> str_replace p to s = s"
  by (simp add: str_replace_def str_split_def split_str_no_match)

text \<open>
  \<open>str::trim\<close> removes characters with the Unicode property \<open>White_Space\<close>, written here with
  their UTF-8 encodings.
\<close>

definition white_space :: "string list" where
  "white_space =
     [[CHR 0x09], [CHR 0x0A], [CHR 0x0B], [CHR 0x0C], [CHR 0x0D], [CHR 0x20],
      [CHR 0xC2, CHR 0x85], [CHR 0xC2, CHR 0xA0], [CHR 0xE1, CHR 0x9A, CHR 0x80],
      [CHR 0xE2, CHR 0x80, CHR 0x80], [CHR 0xE2, CHR 0x80, CHR 0x81],
      [CHR 0xE2, CHR 0x80, CHR 0x82], [CHR 0xE2, CHR 0x80, CHR 0x83],
      [CHR 0xE2, CHR 0x80, CHR 0x84], [CHR 0xE2, CHR 0x80, CHR 0x85],
      [CHR 0xE2, CHR 0x80, CHR 0x86], [CHR 0xE2, CHR 0x80, CHR 0x87],
      [CHR 0xE2, CHR 0x80, CHR 0x88], [CHR 0xE2, CHR 0x80, CHR 0x89],
      [CHR 0xE2, CHR 0x80, CHR 0x8A], [CHR 0xE2, CHR 0x80, CHR 0xA8],
      [CHR 0xE2, CHR 0x80, CHR 0xA9], [CHR 0xE2, CHR 0x80, CHR 0xAF],
      [CHR 0xE2, CHR 0x81, CHR 0x9F], [CHR 0xE3, CHR 0x80, CHR 0x80]]"

function trim_front :: "string list \<Rightarrow> string \<Rightarrow> string" where
  "trim_front ws s =
     (case find (\<lambda>w. w \<noteq> [] \<and> starts_with s w) ws of
        None \<Rightarrow> s
      | Some w \<Rightarrow> trim_front ws (drop (length w) s))"
  by pat_completeness auto
termination
proof (relation "measure (\<lambda>(ws, s). length s)", simp)
  fix ws :: "string list" and s w
  assume "find (\<lambda>w. w \<noteq> [] \<and> starts_with s w) ws = Some w"
  then have "w \<noteq> []" "starts_with s w" by (auto simp: find_Some_iff)
  then show "((ws, drop (length w) s), ws, s) \<in> measure (\<lambda>(ws, s). length s)"
    by (cases s) (auto simp: starts_with_iff)
qed

declare trim_front.simps [simp del]

definition str_trim :: "string \<Rightarrow> string" where
  "str_trim s = rev (trim_front (map rev white_space) (rev (trim_front white_space s)))"

lemma trim_front_suffix: "\<exists>r. s = r @ trim_front ws s"
proof (induction ws s rule: trim_front.induct)
  case (1 ws s)
  show ?case
  proof (cases "find (\<lambda>w. w \<noteq> [] \<and> starts_with s w) ws")
    case None
    then show ?thesis by (simp add: trim_front.simps [of ws s])
  next
    case (Some w)
    then have "starts_with s w" by (auto simp: find_Some_iff)
    then obtain t where t: "s = w @ t" by (auto simp: starts_with_iff)
    from "1" [OF Some] obtain r where "t = r @ trim_front ws t" using t by auto
    moreover have "trim_front ws s = trim_front ws t"
      using Some t by (subst trim_front.simps) simp
    ultimately show ?thesis using t by (metis append_assoc)
  qed
qed

lemma str_trim_sublist: "\<exists>a b. s = a @ str_trim s @ b"
proof -
  obtain a where a: "s = a @ trim_front white_space s" using trim_front_suffix by blast
  obtain b where "rev (trim_front white_space s) = b @ trim_front (map rev white_space) (rev (trim_front white_space s))"
    using trim_front_suffix by blast
  then have "trim_front white_space s = str_trim s @ rev b"
    unfolding str_trim_def by (metis rev_append rev_rev_ident)
  with a show ?thesis by metis
qed

text \<open>Decimal rendering of an unsigned integer, as \<open>format!("{}")\<close> prints it.\<close>

fun show_nat :: "nat \<Rightarrow> string" where
  "show_nat n =
     (if n < 10 then [char_of (48 + n)] else show_nat (n div 10) @ [char_of (48 + n mod 10)])"

declare show_nat.simps [simp del]

lemma show_nat_nonempty [simp]: "show_nat n \<noteq> []"
  by (subst show_nat.simps) simp

lemma show_nat_digits: "c \<in> set (show_nat n) \<Longrightarrow> of_char c \<in> {48..57::nat}"
proof (induction n rule: show_nat.induct)
  case (1 n)
  show ?case
  proof (cases "n < 10")
    case True
    with "1.prems" show ?thesis by (auto simp: show_nat.simps [of n])
  next
    case False
    with "1.prems" consider "c \<in> set (show_nat (n div 10))" | "c = char_of (48 + n mod 10)"
      by (auto simp: show_nat.simps [of n])
    then show ?thesis
    proof cases
      case 1
      with "1.IH" False show ?thesis by simp
    next
      case 2
      have "n mod 10 < 10" by simp
      with 2 show ?thesis by simp
    qed
  qed
qed

fun read_nat :: "string \<Rightarrow> nat" where
  "read_nat s = foldl (\<lambda>a c. 10 * a + (of_char c - 48)) 0 s"

lemma read_show_nat: "read_nat (show_nat n) = n"
proof (induction n rule: show_nat.induct)
  case (1 n)
  show ?case
  proof (cases "n < 10")
    case True
    then show ?thesis by (simp add: show_nat.simps [of n])
  next
    case False
    have "n mod 10 < 10" by simp
    with False "1" show ?thesis by (simp add: show_nat.simps [of n])
  qed
qed

lemma show_nat_inject [simp]: "show_nat m = show_nat n \<longleftrightarrow> m = n"
  by (metis read_show_nat)

text \<open>\<open>str::parse\<close> for an unsigned integer of 64 bits: an optional plus sign, digits, no overflow.\<close>

definition is_digit :: "char \<Rightarrow> bool" where
  "is_digit c \<longleftrightarrow> 48 \<le> (of_char c :: nat) \<and> (of_char c :: nat) \<le> 57"

definition parse_unsigned :: "string \<Rightarrow> nat option" where
  "parse_unsigned s =
     (let digits = (if s \<noteq> [] \<and> hd s = CHR ''+'' then tl s else s) in
      if digits \<noteq> [] \<and> (\<forall>c\<in>set digits. is_digit c) \<and> read_nat digits < 2 ^ 64
      then Some (read_nat digits) else None)"

lemma show_nat_no_bar: "CHR ''|'' \<notin> set (show_nat n)" "CHR ''+'' \<notin> set (show_nat n)"
  using show_nat_digits by force+

lemma parse_show_nat: "n < 2 ^ 64 \<Longrightarrow> parse_unsigned (show_nat n) = Some n"
proof -
  assume n: "n < 2 ^ 64"
  have "hd (show_nat n) \<noteq> CHR ''+''" using show_nat_no_bar(2) [of n] by (metis hd_in_set show_nat_nonempty)
  moreover have "\<forall>c\<in>set (show_nat n). is_digit c" using show_nat_digits by (auto simp: is_digit_def)
  ultimately show ?thesis using n unfolding parse_unsigned_def Let_def by (simp add: read_show_nat del: read_nat.simps)
qed

text \<open>\<open>str::to_ascii_uppercase\<close> and \<open>str::to_ascii_lowercase\<close>, one character.\<close>

definition ascii_upper :: "char \<Rightarrow> char" where
  "ascii_upper c = (if 97 \<le> (of_char c :: nat) \<and> (of_char c :: nat) \<le> 122 then char_of (of_char c - 32 :: nat) else c)"

definition ascii_lower :: "char \<Rightarrow> char" where
  "ascii_lower c = (if 65 \<le> (of_char c :: nat) \<and> (of_char c :: nat) \<le> 90 then char_of (of_char c + 32 :: nat) else c)"

section \<open>Unsigned 64-bit arithmetic\<close>

definition saturating_add :: "u64 \<Rightarrow> u64 \<Rightarrow> u64" where
  "saturating_add a b = (if unat a + unat b < 2 ^ 64 then a + b else 18446744073709551615)"

lemma unat_saturating_add:
  "unat (saturating_add a b) = min (unat a + unat b) (2 ^ 64 - 1)"
proof (cases "unat a + unat b < 2 ^ 64")
  case True
  then show ?thesis by (simp add: saturating_add_def unat_word_ariths)
next
  case False
  then show ?thesis by (simp add: saturating_add_def)
qed

lemma unat_u64_less: "unat (x :: u64) < 2 ^ 64"
  using unsigned_less [of x] by simp

end
