(* ===== verification/Rules_Model.thy ===== *)
theory Rules_Model
  imports Fzz_Prelude
begin

text \<open>
  The user-facing task model, \<open>src/src/rules.rs\<close>: the \<open>Rules\<close> value of one configured job, its
  builders, its matching of changed paths against \<open>change\<close> and \<open>ignore\<close> patterns, and its
  validation.

  The \<open>glob\<close> crate is not part of the repository. It enters as a record of two functions: what
  \<open>Pattern::new\<close> rejects and what \<open>Pattern::matches\<close> answers. A pattern the crate rejects makes
  \<open>create_pattern\<close> panic; the panic is the error value of the matchers' result type, so that
  "matching never panics" is a statement of the model.
\<close>

section \<open>Data\<close>

datatype output_policy = Inherit | Quiet | Capture | ShowOnFailure

datatype command_line = Shell string | Argv "string list"

text \<open>The environment overlay is a \<open>BTreeMap\<close>: an association list in key order.\<close>

record rules =
  rule_name :: string
  rule_commands :: "string list"
  rule_recovery :: "string list option"
  rule_argv :: "string list option"
  rule_watch_patterns :: "string list"
  rule_ignore_patterns :: "string list"
  rule_run_on_init :: bool
  rule_parallel :: "string option"
  rule_cwd :: "string option"
  rule_environment :: "(string \<times> string) list"
  rule_inherited :: "string list"
  rule_output :: output_policy
  rule_service :: bool

record glob_lib =
  glob_error :: "string \<Rightarrow> string option"
  glob_matches :: "string \<Rightarrow> string \<Rightarrow> bool"

section \<open>Construction\<close>

definition rules_new ::
  "string \<Rightarrow> string list \<Rightarrow> string list \<Rightarrow> string list \<Rightarrow> bool \<Rightarrow> rules" where
  "rules_new name commands watches ignores run_on_init =
     \<lparr>rule_name = name, rule_commands = commands, rule_recovery = None, rule_argv = None,
      rule_watch_patterns = watches, rule_ignore_patterns = ignores,
      rule_run_on_init = run_on_init, rule_parallel = None, rule_cwd = None,
      rule_environment = [], rule_inherited = [], rule_output = Inherit, rule_service = False\<rparr>"

definition from_argv ::
  "string \<Rightarrow> string list \<Rightarrow> string list \<Rightarrow> string list \<Rightarrow> bool \<Rightarrow> rules" where
  "from_argv name argv watches ignores run_on_init =
     \<lparr>rule_name = name, rule_commands = [], rule_recovery = None, rule_argv = Some argv,
      rule_watch_patterns = watches, rule_ignore_patterns = ignores,
      rule_run_on_init = run_on_init, rule_parallel = None, rule_cwd = None,
      rule_environment = [], rule_inherited = [], rule_output = Inherit, rule_service = False\<rparr>"

definition with_recovery :: "string list \<Rightarrow> rules \<Rightarrow> rules" where
  "with_recovery commands r = r\<lparr>rule_recovery := Some commands\<rparr>"

definition with_execution_context ::
  "string option \<Rightarrow> (string \<times> string) list \<Rightarrow> rules \<Rightarrow> rules" where
  "with_execution_context cwd environment r =
     r\<lparr>rule_cwd := cwd, rule_environment := environment\<rparr>"

definition with_inherited_patterns :: "string list \<Rightarrow> rules \<Rightarrow> rules" where
  "with_inherited_patterns inherited r = r\<lparr>rule_inherited := inherited\<rparr>"

definition with_output :: "output_policy \<Rightarrow> rules \<Rightarrow> rules" where
  "with_output output r = r\<lparr>rule_output := output\<rparr>"

definition with_service :: "bool \<Rightarrow> rules \<Rightarrow> rules" where
  "with_service service r = r\<lparr>rule_service := service\<rparr>"

definition with_parallel :: "string \<Rightarrow> rules \<Rightarrow> rules" where
  "with_parallel grp r = r\<lparr>rule_parallel := Some grp\<rparr>"

section \<open>Commands\<close>

text \<open>\<open>argv.join(" ")\<close> is the display form; execution keeps the argument vector.\<close>

definition commands_of :: "rules \<Rightarrow> string list" where
  "commands_of r = (case rule_argv r of
     Some argv \<Rightarrow> [join_with '' '' argv]
   | None \<Rightarrow> rule_commands r)"

definition command_lines :: "rules \<Rightarrow> command_line list" where
  "command_lines r = (case rule_argv r of
     Some argv \<Rightarrow> [Argv argv]
   | None \<Rightarrow> map Shell (rule_commands r))"

definition recovery_command_lines :: "rules \<Rightarrow> command_line list option" where
  "recovery_command_lines r = map_option (map Shell) (rule_recovery r)"

fun display :: "command_line \<Rightarrow> string" where
  "display (Shell command) = command"
| "display (Argv argv) = join_with '' '' argv"

definition all_commands :: "rules list \<Rightarrow> string list" where
  "all_commands rs = concat (map commands_of rs)"

definition all_command_lines :: "rules list \<Rightarrow> command_line list" where
  "all_command_lines rs = concat (map command_lines rs)"

lemma map_display_command_lines: "map display (command_lines r) = commands_of r"
  by (simp add: command_lines_def commands_of_def comp_def split: option.split)

section \<open>Matching\<close>

text \<open>\<open>create_pattern\<close> panics on a pattern the crate rejects; only the first line of the panic
  text depends on the input, the rest is a fixed list of examples.\<close>

definition create_pattern :: "glob_lib \<Rightarrow> string \<Rightarrow> bool \<Rightarrow> string result" where
  "create_pattern g pattern anchored =
     (let compiled = (if anchored then pattern else ''**'' @ pattern) in
      case glob_error g compiled of
        None \<Rightarrow> Inr compiled
      | Some _ \<Rightarrow> Inl (''Invalid glob pattern '' @ pattern))"

definition anchored_pattern :: "glob_lib \<Rightarrow> string \<Rightarrow> string result" where
  "anchored_pattern g pattern = create_pattern g pattern True"

definition anchored_matches :: "glob_lib \<Rightarrow> string \<Rightarrow> string \<Rightarrow> bool result" where
  "anchored_matches g pattern path =
     (case anchored_pattern g pattern of
        Inl panic \<Rightarrow> Inl panic
      | Inr compiled \<Rightarrow> Inr (glob_matches g compiled path))"

text \<open>\<open>iter().filter(p)\<close> where the predicate may panic.\<close>

fun filter_result :: "('a \<Rightarrow> bool result) \<Rightarrow> 'a list \<Rightarrow> 'a list result" where
  "filter_result p [] = Inr []"
| "filter_result p (x # xs) =
     (case p x of
        Inl e \<Rightarrow> Inl e
      | Inr keep \<Rightarrow>
          (case filter_result p xs of
             Inl e \<Rightarrow> Inl e
           | Inr ys \<Rightarrow> Inr (if keep then x # ys else ys)))"

lemma filter_result_total:
  "(\<And>x. x \<in> set xs \<Longrightarrow> p x = Inr (q x)) \<Longrightarrow> filter_result p xs = Inr (filter q xs)"
  by (induction xs) auto

definition absolute_like :: "string \<Rightarrow> bool" where
  "absolute_like s = starts_with s ''/''"

definition normalize_path :: "string \<Rightarrow> string" where
  "normalize_path path = (if absolute_like path then path else ''/'' @ path)"

text \<open>\<open>str::trim_start_matches("./")\<close> removes every leading \<open>./\<close>.\<close>

fun trim_dot_slash :: "string \<Rightarrow> string" where
  "trim_dot_slash (a # b # s) =
     (if a = CHR ''.'' \<and> b = CHR ''/'' then trim_dot_slash s else a # b # s)"
| "trim_dot_slash s = s"

definition relative_key :: "string \<Rightarrow> string" where
  "relative_key pattern = ''/'' @ trim_dot_slash pattern"

definition watch_absolute_paths :: "rules \<Rightarrow> string list" where
  "watch_absolute_paths r = filter absolute_like (rule_watch_patterns r)"

definition watch_relative_paths :: "rules \<Rightarrow> string list" where
  "watch_relative_paths r = filter (\<lambda>c. \<not> absolute_like c) (rule_watch_patterns r)"

definition watch_relative_patterns :: "glob_lib \<Rightarrow> rules \<Rightarrow> string \<Rightarrow> string list result" where
  "watch_relative_patterns g r path =
     (let normalized_path = normalize_path path in
      filter_result (\<lambda>watch. anchored_matches g (relative_key watch) normalized_path)
        (watch_relative_paths r))"

definition watch_absolute_patterns :: "glob_lib \<Rightarrow> rules \<Rightarrow> string \<Rightarrow> string list result" where
  "watch_absolute_patterns g r path =
     filter_result (\<lambda>watch. anchored_matches g watch path) (watch_absolute_paths r)"

definition nonempty_result :: "'a list result \<Rightarrow> bool result" where
  "nonempty_result x = map_sum id (\<lambda>ys. ys \<noteq> []) x"

text \<open>\<open>a || b\<close> does not evaluate \<open>b\<close> when \<open>a\<close> holds.\<close>

definition or_result :: "bool result \<Rightarrow> bool result \<Rightarrow> bool result" where
  "or_result a b = (case a of Inl e \<Rightarrow> Inl e | Inr True \<Rightarrow> Inr True | Inr False \<Rightarrow> b)"

definition watch_relative :: "glob_lib \<Rightarrow> rules \<Rightarrow> string \<Rightarrow> bool result" where
  "watch_relative g r path = nonempty_result (watch_relative_patterns g r path)"

definition watch_absolute :: "glob_lib \<Rightarrow> rules \<Rightarrow> string \<Rightarrow> bool result" where
  "watch_absolute g r path = nonempty_result (watch_absolute_patterns g r path)"

definition watch :: "glob_lib \<Rightarrow> rules \<Rightarrow> string \<Rightarrow> bool result" where
  "watch g r path = or_result (watch_relative g r path) (watch_absolute g r path)"

definition append_result :: "'a list result \<Rightarrow> 'a list result \<Rightarrow> 'a list result" where
  "append_result a b =
     (case a of Inl e \<Rightarrow> Inl e | Inr xs \<Rightarrow> map_sum id (\<lambda>ys. xs @ ys) b)"

definition watch_patterns_matching :: "glob_lib \<Rightarrow> rules \<Rightarrow> string \<Rightarrow> string list result" where
  "watch_patterns_matching g r path =
     append_result (watch_relative_patterns g r path) (watch_absolute_patterns g r path)"

definition ignore_relative_patterns :: "glob_lib \<Rightarrow> rules \<Rightarrow> string \<Rightarrow> string list result" where
  "ignore_relative_patterns g r path =
     (let normalized_path = normalize_path path in
      filter_result (\<lambda>ignore. anchored_matches g (relative_key ignore) normalized_path)
        (filter (\<lambda>pattern. \<not> absolute_like pattern) (rule_ignore_patterns r)))"

definition ignore_absolute_patterns :: "glob_lib \<Rightarrow> rules \<Rightarrow> string \<Rightarrow> string list result" where
  "ignore_absolute_patterns g r path =
     filter_result (\<lambda>ignore. anchored_matches g ignore path)
       (filter absolute_like (rule_ignore_patterns r))"

definition ignore_relative :: "glob_lib \<Rightarrow> rules \<Rightarrow> string \<Rightarrow> bool result" where
  "ignore_relative g r path = nonempty_result (ignore_relative_patterns g r path)"

definition ignore_absolute :: "glob_lib \<Rightarrow> rules \<Rightarrow> string \<Rightarrow> bool result" where
  "ignore_absolute g r path = nonempty_result (ignore_absolute_patterns g r path)"

definition ignore :: "glob_lib \<Rightarrow> rules \<Rightarrow> string \<Rightarrow> bool result" where
  "ignore g r path = or_result (ignore_relative g r path) (ignore_absolute g r path)"

definition ignore_patterns_matching :: "glob_lib \<Rightarrow> rules \<Rightarrow> string \<Rightarrow> string list result" where
  "ignore_patterns_matching g r path =
     append_result (ignore_relative_patterns g r path) (ignore_absolute_patterns g r path)"

section \<open>Validation\<close>

definition glob_help :: string where
  "glob_help = ''  Read more: https://en.wikipedia.org/wiki/Glob_(programming)''"

fun validate_patterns :: "glob_lib \<Rightarrow> string \<Rightarrow> string \<Rightarrow> string list \<Rightarrow> unit result" where
  "validate_patterns g name kind [] = Inr ()"
| "validate_patterns g name kind (p # ps) =
     (case glob_error g p of
        None \<Rightarrow> validate_patterns g name kind ps
      | Some err \<Rightarrow>
          Inl (join_with [CHR 0x0A]
            [''job '' @ [CHR 0x27] @ name @ [CHR 0x27] @ '' contains an invalid `'' @ kind
               @ ''` glob pattern '' @ [CHR 0x27] @ p @ [CHR 0x27] @ ''.'',
             ''  '' @ err, glob_help]))"

definition validate :: "glob_lib \<Rightarrow> rules \<Rightarrow> unit result" where
  "validate g r =
     (let name = (if rule_name r = [] then ''_unnamed_'' else rule_name r);
          job = ''job '' @ [CHR 0x27] @ name @ [CHR 0x27]
      in
        if command_lines r = [] then
          Inl (job @ '' contains no command to run. Empty '' @ [CHR 0x27] @ ''run'' @ [CHR 0x27]
               @ '' property.'')
        else if rule_service r \<and> rule_recovery r \<noteq> None then
          Inl (job @ '' cannot declare recovery when service is true'')
        else if rule_watch_patterns r = [] \<and> \<not> rule_run_on_init r then
          Inl (job @ '' must contain a `change` and/or `run_on_init` property.'')
        else
          (case validate_patterns g name ''change'' (rule_watch_patterns r) of
             Inl e \<Rightarrow> Inl e
           | Inr _ \<Rightarrow> validate_patterns g name ''ignore'' (rule_ignore_patterns r)))"

fun validate_rules :: "glob_lib \<Rightarrow> rules list \<Rightarrow> unit result" where
  "validate_rules g [] = Inr ()"
| "validate_rules g (r # rs) =
     (case validate g r of Inl e \<Rightarrow> Inl e | Inr _ \<Rightarrow> validate_rules g rs)"

definition target_lines :: "rules \<Rightarrow> string" where
  "target_lines r =
     ''  - '' @ rule_name r @ [CHR 0x0A]
     @ (if rule_watch_patterns r = [] then []
        else ''    change: '' @ join_with '', '' (rule_watch_patterns r) @ [CHR 0x0A])
     @ (if rule_run_on_init r then ''    run_on_init: true'' @ [CHR 0x0A] else [])
     @ (if rule_recovery r \<noteq> None
        then ''    recovery: configured (approval required)'' @ [CHR 0x0A] else [])"

definition available_targets :: "rules list \<Rightarrow> string" where
  "available_targets rs =
     ''Available jobs'' @ [CHR 0x0A]
     @ (if rs = [] then ''  (none)'' @ [CHR 0x0A] else concat (map target_lines rs))"

section \<open>Lemmas\<close>

lemma validate_patterns_ok:
  "validate_patterns g n k ps = Inr () \<longleftrightarrow> (\<forall>p\<in>set ps. glob_error g p = None)"
  by (induction ps) (auto split: option.splits)

lemma validate_ok_iff:
  "validate g r = Inr () \<longleftrightarrow>
     command_lines r \<noteq> [] \<and> \<not> (rule_service r \<and> rule_recovery r \<noteq> None) \<and>
     (rule_watch_patterns r \<noteq> [] \<or> rule_run_on_init r) \<and>
     (\<forall>p\<in>set (rule_watch_patterns r) \<union> set (rule_ignore_patterns r). glob_error g p = None)"
proof -
  have "(case validate_patterns g n k ps of Inl e \<Rightarrow> Inl e | Inr _ \<Rightarrow> validate_patterns g n k' qs)
          = Inr () \<longleftrightarrow> (\<forall>p\<in>set ps \<union> set qs. glob_error g p = None)" for n k k' ps qs
    using validate_patterns_ok [of g n k ps] validate_patterns_ok [of g n k' qs]
    by (cases "validate_patterns g n k ps") auto
  then show ?thesis by (simp add: validate_def Let_def)
qed

lemma validate_rules_ok: "validate_rules g rs = Inr () \<longleftrightarrow> (\<forall>r\<in>set rs. validate g r = Inr ())"
  by (induction rs) (auto split: sum.splits)

lemma anchored_matches_ok:
  "glob_error g p = None \<Longrightarrow> anchored_matches g p path = Inr (glob_matches g p path)"
  by (simp add: anchored_matches_def anchored_pattern_def create_pattern_def)

text \<open>
  What the model relies on of the \<open>glob\<close> crate for relative patterns: \<open>Pattern::new\<close> looks at
  \<open>**\<close> components and at character classes, so neither removing a leading \<open>./\<close> nor putting a
  separator in front of an accepted pattern makes it invalid.
\<close>

definition glob_relative_ok :: "glob_lib \<Rightarrow> bool" where
  "glob_relative_ok g \<longleftrightarrow>
     (\<forall>p. glob_error g p = None \<longrightarrow> \<not> absolute_like p \<longrightarrow> glob_error g (relative_key p) = None)"

abbreviation patterns_ok :: "glob_lib \<Rightarrow> rules \<Rightarrow> bool" where
  "patterns_ok g r \<equiv>
     (\<forall>p\<in>set (rule_watch_patterns r) \<union> set (rule_ignore_patterns r). glob_error g p = None)"

lemma watch_relative_patterns_ok:
  assumes "glob_relative_ok g" and "patterns_ok g r"
  shows "watch_relative_patterns g r path =
    Inr (filter (\<lambda>p. glob_matches g (relative_key p) (normalize_path path)) (watch_relative_paths r))"
proof -
  have "anchored_matches g (relative_key p) q = Inr (glob_matches g (relative_key p) q)"
    if "p \<in> set (watch_relative_paths r)" for p q
    using that assms by (auto simp: glob_relative_ok_def watch_relative_paths_def intro!: anchored_matches_ok)
  then show ?thesis
    unfolding watch_relative_patterns_def Let_def
    by (intro filter_result_total) auto
qed

lemma watch_absolute_patterns_ok:
  assumes "patterns_ok g r"
  shows "watch_absolute_patterns g r path =
    Inr (filter (\<lambda>p. glob_matches g p path) (watch_absolute_paths r))"
  using assms unfolding watch_absolute_patterns_def
  by (intro filter_result_total) (auto simp: watch_absolute_paths_def intro!: anchored_matches_ok)

lemma ignore_relative_patterns_ok:
  assumes "glob_relative_ok g" and "patterns_ok g r"
  shows "ignore_relative_patterns g r path =
    Inr (filter (\<lambda>p. glob_matches g (relative_key p) (normalize_path path))
      (filter (\<lambda>p. \<not> absolute_like p) (rule_ignore_patterns r)))"
  using assms unfolding ignore_relative_patterns_def Let_def
  by (intro filter_result_total) (auto simp: glob_relative_ok_def intro!: anchored_matches_ok)

lemma ignore_absolute_patterns_ok:
  assumes "patterns_ok g r"
  shows "ignore_absolute_patterns g r path =
    Inr (filter (\<lambda>p. glob_matches g p path) (filter absolute_like (rule_ignore_patterns r)))"
  using assms unfolding ignore_absolute_patterns_def
  by (intro filter_result_total) (auto intro!: anchored_matches_ok)

lemmas patterns_total =
  watch_relative_patterns_ok watch_absolute_patterns_ok
  ignore_relative_patterns_ok ignore_absolute_patterns_ok

text \<open>The abstract answer of a matcher: some configured pattern accepts the path.\<close>

definition pattern_accepts :: "glob_lib \<Rightarrow> string \<Rightarrow> string \<Rightarrow> bool" where
  "pattern_accepts g path p \<longleftrightarrow>
     (if absolute_like p then glob_matches g p path
      else glob_matches g (relative_key p) (normalize_path path))"

lemma filter_nonempty_iff: "filter P xs \<noteq> [] \<longleftrightarrow> (\<exists>x\<in>set xs. P x)"
  by (simp add: filter_empty_conv)

lemma watch_decides:
  assumes "glob_relative_ok g" and "patterns_ok g r"
  shows "watch g r path = Inr (\<exists>p\<in>set (rule_watch_patterns r). pattern_accepts g path p)"
  unfolding watch_def watch_relative_def watch_absolute_def nonempty_result_def
  using assms
  by (simp add: patterns_total or_result_def watch_relative_paths_def watch_absolute_paths_def
      filter_nonempty_iff pattern_accepts_def filter_empty_conv split: bool.split) blast

lemma ignore_decides:
  assumes "glob_relative_ok g" and "patterns_ok g r"
  shows "ignore g r path = Inr (\<exists>p\<in>set (rule_ignore_patterns r). pattern_accepts g path p)"
  unfolding ignore_def ignore_relative_def ignore_absolute_def nonempty_result_def
  using assms
  by (simp add: patterns_total or_result_def filter_nonempty_iff pattern_accepts_def
      filter_empty_conv split: bool.split) blast

section \<open>Properties\<close>

text \<open>
  A job that passed validation never panics when a changed path is matched: \<open>watch\<close> and
  \<open>ignore\<close> both return, and they return exactly whether one of the configured patterns (taken
  absolutely or relative to the root) accepts the path. The hypothesis on the glob library says
  that anchoring an accepted relative pattern at \<open>/\<close> keeps it acceptable.
\<close>

theorem validated_matching_total:
  assumes "glob_relative_ok g" and "validate g r = Inr ()"
  shows "watch g r path = Inr (\<exists>p\<in>set (rule_watch_patterns r). pattern_accepts g path p) \<and>
         ignore g r path = Inr (\<exists>p\<in>set (rule_ignore_patterns r). pattern_accepts g path p)"
  using assms by (auto simp: validate_ok_iff intro: watch_decides ignore_decides)

definition demo_glob :: glob_lib where
  "demo_glob = \<lparr>glob_error = (\<lambda>p. if CHR ''['' \<in> set p then Some ''unclosed range'' else None),
                glob_matches = (\<lambda>p s. p = s)\<rparr>"

lemma demo_glob_relative_ok: "glob_relative_ok demo_glob"
proof -
  have "set (trim_dot_slash p) \<subseteq> set p" for p
    by (induction p rule: trim_dot_slash.induct) auto
  then show ?thesis by (auto simp: glob_relative_ok_def demo_glob_def relative_key_def)
qed

theorem validated_matching_total_witness:
  "watch demo_glob (rules_new ''t'' [''make''] [''./src/a''] [''/x''] False) ''src/a'' = Inr True \<and>
   ignore demo_glob (rules_new ''t'' [''make''] [''./src/a''] [''/x''] False) ''src/a'' = Inr False"
proof -
  let ?r = "rules_new ''t'' [''make''] [''./src/a''] [''/x''] False"
  have v: "validate demo_glob ?r = Inr ()"
    by (simp add: validate_ok_iff rules_new_def command_lines_def demo_glob_def)
  show ?thesis
    using validated_matching_total [OF demo_glob_relative_ok v, of "''src/a''"]
    by (simp add: rules_new_def pattern_accepts_def demo_glob_def absolute_like_def
        starts_with_def relative_key_def normalize_path_def)
qed

text \<open>
  Validation accepts a job exactly when it has a command, is not a service with a recovery,
  has a \<open>change\<close> pattern or runs on init, and every pattern is a glob; a list of jobs is accepted
  exactly when each of them is.
\<close>

theorem validate_rules_characterisation:
  "validate_rules g rs = Inr () \<longleftrightarrow>
     (\<forall>r\<in>set rs. command_lines r \<noteq> [] \<and> \<not> (rule_service r \<and> rule_recovery r \<noteq> None) \<and>
        (rule_watch_patterns r \<noteq> [] \<or> rule_run_on_init r) \<and> patterns_ok g r)"
  by (simp add: validate_rules_ok validate_ok_iff)

theorem validate_rules_characterisation_witness:
  "validate_rules demo_glob [rules_new ''t'' [''make''] [''src''] [] False] = Inr () \<and>
   validate_rules demo_glob [rules_new ''t'' [] [''src''] [] False] \<noteq> Inr ()"
  unfolding validate_rules_characterisation
  by (simp add: rules_new_def command_lines_def demo_glob_def)

end
