(* ===== verification/Template_Model.thy ===== *)
theory Template_Model
  imports Rules_Model
begin

text \<open>
  Command template expansion, \<open>src/src/template.rs\<close>: the placeholders \<open>{{filepath}}\<close>,
  \<open>{{absolute_path}}\<close>, \<open>{{relative_filepath}}\<close>, \<open>{{relative_path}}\<close> and \<open>{{paths}}\<close>, the
  quoting of changed paths for a shell, and the collection of unknown variables.

  The \<open>unknown_variables\<close> vector that the code threads through its closures is the second
  component of the result here; it grows in the order of expansion.
\<close>

section \<open>Definitions\<close>

record template_options =
  opt_filepath :: "string option"
  opt_paths :: "string list"
  opt_current_dir :: string

definition open_tag :: string where "open_tag = ''{{''"
definition close_tag :: string where "close_tag = ''}}''"

abbreviation quote_char :: char where "quote_char \<equiv> CHR 0x27"
abbreviation backslash :: char where "backslash \<equiv> CHR 0x5C"

definition escaped_quote :: string where
  "escaped_quote = [quote_char, backslash, quote_char, quote_char]"

definition shell_escape :: "string \<Rightarrow> string" where
  "shell_escape path = [quote_char] @ str_replace [quote_char] escaped_quote path @ [quote_char]"

definition render_paths :: "string list \<Rightarrow> string" where
  "render_paths paths = join_with '' '' (map shell_escape paths)"

text \<open>One part of \<open>command.split("{{")\<close>.\<close>

definition expand_part ::
  "string \<Rightarrow> string \<Rightarrow> string \<Rightarrow> string \<Rightarrow> string \<times> string list" where
  "expand_part filepath paths current_dir part =
     (if str_contains close_tag part then
        (let parts = str_split close_tag part;
             tpl = str_trim (parts ! 0);
             rest = parts ! 1
         in
           if tpl = ''filepath'' \<or> tpl = ''absolute_path'' then (filepath @ rest, [])
           else if tpl = ''relative_filepath'' \<or> tpl = ''relative_path'' then
             (str_replace (current_dir @ ''/'') [] filepath @ rest, [])
           else if tpl = ''paths'' then (paths @ rest, [])
           else (open_tag @ parts ! 0 @ close_tag @ parts ! 1, [tpl]))
      else (part, []))"

definition expand_command ::
  "string \<Rightarrow> string \<Rightarrow> string \<Rightarrow> string \<Rightarrow> string \<times> string list" where
  "expand_command command filepath paths current_dir =
     (if str_contains open_tag command then
        (let expanded = map (expand_part filepath paths current_dir) (str_split open_tag command)
         in (join_with [] (map fst expanded), concat (map snd expanded)))
      else (command, []))"

definition effective_filepath :: "template_options \<Rightarrow> string" where
  "effective_filepath opts = (case opt_filepath opts of Some val \<Rightarrow> val | None \<Rightarrow> [])"

definition template :: "string list \<Rightarrow> template_options \<Rightarrow> string list \<times> string list" where
  "template commands opts =
     (let filepath = effective_filepath opts;
          paths = render_paths (opt_paths opts);
          expanded = map (\<lambda>c. expand_command c filepath paths (opt_current_dir opts)) commands
      in (map fst expanded, concat (map snd expanded)))"

fun template_line :: "command_line \<Rightarrow> template_options \<Rightarrow> command_line \<times> string list" where
  "template_line (Shell command) opts =
     (let (expanded, unknown) =
        expand_command command (effective_filepath opts) (render_paths (opt_paths opts))
          (opt_current_dir opts)
      in (Shell expanded, unknown))"
| "template_line (Argv argv) opts =
     (let expanded = map (\<lambda>arg. expand_command arg (effective_filepath opts)
            (render_paths (opt_paths opts)) (opt_current_dir opts)) argv
      in (Argv (map fst expanded), concat (map snd expanded)))"

section \<open>Quoting: what a POSIX shell reads back\<close>

text \<open>
  The specification of shell quoting: word splitting on spaces, single quotes keep everything up
  to the next single quote, a backslash outside quotes keeps the next character. The accumulator
  is the word being read, \<^const>\<open>None\<close> between words; the result is \<^const>\<open>None\<close> for an unclosed
  quote or a trailing backslash.
\<close>

fun sh_words :: "string \<Rightarrow> string option \<Rightarrow> string list option"
  and sh_quoted :: "string \<Rightarrow> string \<Rightarrow> string list option" where
  "sh_words [] None = Some []"
| "sh_words [] (Some w) = Some [w]"
| "sh_words (c # cs) acc =
     (let w = (case acc of None \<Rightarrow> [] | Some w \<Rightarrow> w) in
      if c = CHR '' '' then
        (case acc of None \<Rightarrow> sh_words cs None | Some w \<Rightarrow> map_option (Cons w) (sh_words cs None))
      else if c = quote_char then sh_quoted cs w
      else if c = backslash then
        (case cs of [] \<Rightarrow> None | d # ds \<Rightarrow> sh_words ds (Some (w @ [d])))
      else sh_words cs (Some (w @ [c])))"
| "sh_quoted [] w = None"
| "sh_quoted (c # cs) w =
     (if c = quote_char then sh_words cs (Some w) else sh_quoted cs (w @ [c]))"

definition shell_words :: "string \<Rightarrow> string list option" where
  "shell_words s = sh_words s None"

lemma str_split_quote_Cons:
  "split_str [q] acc (c # cs) =
     (if c = q then rev acc # split_str [q] [] cs else split_str [q] (c # acc) cs)"
proof (cases "c = q")
  case True
  then show ?thesis using split_str_match [of "[q]" acc cs] by simp
next
  case False
  then have "\<not> starts_with (c # cs) [q]" by (auto simp: starts_with_def)
  with False show ?thesis by (simp add: split_str_skip)
qed

lemma join_split_quote_acc:
  "join_with e (split_str [q] acc s) = rev acc @ join_with e (split_str [q] [] s)"
proof (induction s arbitrary: acc)
  case Nil
  then show ?case by (simp add: split_str_end)
next
  case (Cons c cs)
  show ?case
    using Cons.IH [of "c # acc"] Cons.IH [of "[c]"]
    by (auto simp: str_split_quote_Cons join_with_Cons)
qed

lemma replace_quote_Cons:
  "str_replace [q] e (c # cs) = (if c = q then e else [c]) @ str_replace [q] e cs"
  using join_split_quote_acc [of e q "[c]" cs]
  by (auto simp: str_replace_def str_split_def str_split_quote_Cons join_with_Cons)

lemma replace_quote_Nil [simp]: "p \<noteq> [] \<Longrightarrow> str_replace p e [] = []"
  by (simp add: str_replace_def str_split_def split_str_end)

lemma sh_quoted_escape:
  "sh_quoted (str_replace [quote_char] escaped_quote path @ quote_char # rest) w =
     sh_words rest (Some (w @ path))"
proof (induction path arbitrary: w)
  case Nil
  then show ?case by simp
next
  case (Cons c cs)
  then show ?case by (simp add: replace_quote_Cons escaped_quote_def)
qed

lemma sh_words_escape: "sh_words (shell_escape p @ rest) None = sh_words rest (Some p)"
  by (simp add: shell_escape_def sh_quoted_escape)

lemma sh_words_render: "sh_words (render_paths ps) None = Some ps"
proof (induction ps)
  case Nil
  then show ?case by (simp add: render_paths_def)
next
  case (Cons p ps)
  show ?case
  proof (cases ps)
    case Nil
    then show ?thesis using sh_words_escape [of p "[]"] by (simp add: render_paths_def)
  next
    case (Cons q qs)
    then have "render_paths (p # ps) = shell_escape p @ '' '' @ render_paths ps"
      by (simp add: render_paths_def)
    then have "sh_words (render_paths (p # ps)) None = sh_words ('' '' @ render_paths ps) (Some p)"
      by (simp add: sh_words_escape)
    with Cons.IH show ?thesis by simp
  qed
qed


section \<open>Expansion of a well-formed command\<close>

text \<open>
  A well-formed command is literal text with no brace in it and placeholders with no brace in
  their names, in any order. Its expansion substitutes every known placeholder and keeps every
  unknown one as written.
\<close>

datatype segment = Literal string | Placeholder string

definition plain_text :: "string \<Rightarrow> bool" where
  "plain_text s \<longleftrightarrow> CHR ''{'' \<notin> set s \<and> CHR ''}'' \<notin> set s"

lemma plain_text_simps [simp]:
  "plain_text []" "plain_text (a @ b) \<longleftrightarrow> plain_text a \<and> plain_text b"
  by (auto simp: plain_text_def)

lemma tag_simps [simp]:
  "open_tag \<noteq> []" "close_tag \<noteq> []" "hd open_tag = CHR ''{''" "hd close_tag = CHR ''}''"
  "CHR ''{'' \<notin> set close_tag" "CHR ''}'' \<notin> set open_tag"
  by (simp_all add: open_tag_def close_tag_def)

fun seg_text :: "segment \<Rightarrow> string" where
  "seg_text (Literal s) = s"
| "seg_text (Placeholder v) = open_tag @ v @ close_tag"

fun seg_ok :: "segment \<Rightarrow> bool" where
  "seg_ok (Literal s) = plain_text s"
| "seg_ok (Placeholder v) = plain_text v"

definition placeholder_value :: "string \<Rightarrow> string \<Rightarrow> string \<Rightarrow> string \<Rightarrow> string \<times> string list" where
  "placeholder_value filepath paths current_dir v =
     (let t = str_trim v in
      if t = ''filepath'' \<or> t = ''absolute_path'' then (filepath, [])
      else if t = ''relative_filepath'' \<or> t = ''relative_path'' then
        (str_replace (current_dir @ ''/'') [] filepath, [])
      else if t = ''paths'' then (paths, [])
      else (open_tag @ v @ close_tag, [t]))"

fun seg_value :: "string \<Rightarrow> string \<Rightarrow> string \<Rightarrow> segment \<Rightarrow> string \<times> string list" where
  "seg_value filepath paths current_dir (Literal s) = (s, [])"
| "seg_value filepath paths current_dir (Placeholder v) =
     placeholder_value filepath paths current_dir v"

lemma split_str_plain_prefix:
  assumes "hd p \<notin> set a" and "p \<noteq> []"
  shows "split_str p acc (a @ s) = split_str p (rev a @ acc) s"
  using assms
proof (induction a arbitrary: acc)
  case Nil
  then show ?case by simp
next
  case (Cons c cs)
  have "\<not> starts_with (c # cs @ s) p"
    using Cons.prems by (cases p) (auto simp: starts_with_def)
  with Cons show ?case by (simp add: split_str_skip)
qed

lemma str_split_plain:
  "hd p \<notin> set a \<Longrightarrow> p \<noteq> [] \<Longrightarrow> str_split p (a @ p @ s) = a # str_split p s"
  by (simp add: str_split_def split_str_plain_prefix split_str_match)

lemma str_split_plain_end: "hd p \<notin> set a \<Longrightarrow> p \<noteq> [] \<Longrightarrow> str_split p a = [a]"
  using split_str_plain_prefix [of p a "[]" "[]"] by (simp add: str_split_def split_str_end)

lemma str_contains_plain: "p \<noteq> [] \<Longrightarrow> hd p \<notin> set s \<Longrightarrow> \<not> str_contains p s"
  by (cases p) (auto simp: str_contains_iff)

lemma expand_part_plain: "plain_text s \<Longrightarrow> expand_part f p d s = (s, [])"
  by (simp add: expand_part_def str_contains_plain plain_text_def)

lemma expand_part_placeholder:
  assumes "plain_text v" and "plain_text s"
  shows "expand_part f p d (v @ close_tag @ s) =
    (let (x, u) = placeholder_value f p d v in (x @ s, u))"
proof -
  have "str_contains close_tag (v @ close_tag @ s)" unfolding str_contains_iff by blast
  moreover have "str_split close_tag (v @ close_tag @ s) = [v, s]"
    using assms by (simp add: plain_text_def str_split_plain str_split_plain_end)
  ultimately show ?thesis
    unfolding expand_part_def placeholder_value_def Let_def by simp
qed

text \<open>The parts of a well-formed command: a literal head and one part per placeholder.\<close>

fun seg_parts :: "string \<Rightarrow> segment list \<Rightarrow> string list" where
  "seg_parts pre [] = [pre]"
| "seg_parts pre (Literal s # segs) = seg_parts (pre @ s) segs"
| "seg_parts pre (Placeholder v # segs) = pre # seg_parts (v @ close_tag) segs"

lemma str_split_segments:
  assumes "\<forall>g\<in>set segs. seg_ok g" and "CHR ''{'' \<notin> set pre"
  shows "str_split open_tag (pre @ concat (map seg_text segs)) = seg_parts pre segs"
  using assms
proof (induction pre segs rule: seg_parts.induct)
  case (1 pre)
  then show ?case by (simp add: str_split_plain_end)
next
  case (2 pre s segs)
  then show ?case by (auto simp: plain_text_def)
next
  case (3 pre v segs)
  have "str_split open_tag (pre @ open_tag @ (v @ close_tag) @ concat (map seg_text segs)) =
    pre # str_split open_tag ((v @ close_tag) @ concat (map seg_text segs))"
    using "3.prems" by (intro str_split_plain) auto
  moreover have "CHR ''{'' \<notin> set (v @ close_tag)"
    using "3.prems" by (auto simp: plain_text_def)
  ultimately show ?case using "3" by simp
qed

definition expand_parts :: "string \<Rightarrow> string \<Rightarrow> string \<Rightarrow> string list \<Rightarrow> string \<times> string list" where
  "expand_parts f p d parts =
     (concat (map (fst \<circ> expand_part f p d) parts), concat (map (snd \<circ> expand_part f p d) parts))"

lemma expand_parts_Cons:
  "expand_parts f p d (x # xs) =
     (fst (expand_part f p d x) @ fst (expand_parts f p d xs),
      snd (expand_part f p d x) @ snd (expand_parts f p d xs))"
  by (simp add: expand_parts_def)

definition seg_values :: "string \<Rightarrow> string \<Rightarrow> string \<Rightarrow> segment list \<Rightarrow> string \<times> string list" where
  "seg_values f p d segs =
     (concat (map (fst \<circ> seg_value f p d) segs), concat (map (snd \<circ> seg_value f p d) segs))"

lemma expand_parts_segments:
  assumes "\<forall>g\<in>set segs. seg_ok g"
  shows "plain_text s \<Longrightarrow> expand_parts f p d (seg_parts s segs) =
           (s @ fst (seg_values f p d segs), snd (seg_values f p d segs))"
    and "plain_text v \<Longrightarrow> plain_text s \<Longrightarrow> expand_parts f p d (seg_parts (v @ close_tag @ s) segs) =
           (fst (placeholder_value f p d v) @ s @ fst (seg_values f p d segs),
            snd (placeholder_value f p d v) @ snd (seg_values f p d segs))"
  using assms
proof (induction segs arbitrary: s v)
  case Nil
  {
    case 1
    then show ?case by (simp add: expand_parts_def expand_part_plain seg_values_def)
  next
    case 2
    then show ?case
      by (simp add: expand_parts_def expand_part_placeholder seg_values_def split: prod.split)
  }
next
  case (Cons g segs)
  {
    case 1
    show ?case
    proof (cases g)
      case (Literal t)
      with 1 Cons.IH(1) [of "s @ t"] show ?thesis by (auto simp: seg_values_def)
    next
      case (Placeholder w)
      with 1 Cons.IH(2) [of w "[]"] show ?thesis
        by (auto simp: seg_values_def expand_parts_Cons expand_part_plain)
    qed
  next
    case 2
    show ?case
    proof (cases g)
      case (Literal t)
      with 2 Cons.IH(2) [of v "s @ t"] show ?thesis by (auto simp: seg_values_def)
    next
      case (Placeholder w)
      with 2 Cons.IH(2) [of w "[]"] show ?thesis
        by (auto simp: seg_values_def expand_parts_Cons expand_part_placeholder
            split: prod.split)
    qed
  }
qed

lemma expand_command_parts:
  assumes "str_split open_tag c = parts" and "str_contains open_tag c"
  shows "expand_command c f p d = expand_parts f p d parts"
  using assms by (simp add: expand_command_def expand_parts_def join_with_Nil_sep comp_def)

text \<open>
  The expansion of a well-formed command is the substitution of its placeholders: known ones
  by their value (the trigger path, the trigger path with the working directory removed, the
  quoted path list), unknown ones kept as written and reported in order, literal text untouched.
\<close>

theorem expand_command_wellformed:
  assumes "\<forall>g\<in>set segs. seg_ok g"
  shows "expand_command (concat (map seg_text segs)) f p d = seg_values f p d segs"
proof (cases "str_contains open_tag (concat (map seg_text segs))")
  case True
  have "str_split open_tag (concat (map seg_text segs)) = seg_parts [] segs"
    using str_split_segments [OF assms, of "[]"] by simp
  from expand_command_parts [OF this True] show ?thesis
    using expand_parts_segments(1) [OF assms, of "[]"] by simp
next
  case False
  have lit: "\<exists>s. g = Literal s" if "g \<in> set segs" for g
  proof (cases g)
    case (Placeholder v)
    from that obtain a b where "segs = a @ g # b" by (meson split_list)
    with Placeholder have "concat (map seg_text segs) =
      concat (map seg_text a) @ open_tag @ (v @ close_tag @ concat (map seg_text b))" by simp
    with False show ?thesis unfolding str_contains_iff by blast
  qed simp
  then have "seg_text g = (fst \<circ> seg_value f p d) g \<and> (snd \<circ> seg_value f p d) g = []"
    if "g \<in> set segs" for g using that by force
  then have vals: "map seg_text segs = map (fst \<circ> seg_value f p d) segs"
    "concat (map (snd \<circ> seg_value f p d) segs) = []"
    by (simp_all cong: map_cong)
  show ?thesis
    unfolding expand_command_def seg_values_def if_not_P [OF False] by (simp only: vals)
qed

theorem expand_command_wellformed_witness:
  "expand_command ''vim {{ filepath }} {{x}}'' ''/w/a'' ''p'' ''/w'' = (''vim /w/a {{x}}'', [''x''])"
proof -
  have ok: "\<forall>g\<in>set [Literal ''vim '', Placeholder '' filepath '', Literal '' '', Placeholder ''x''].
      seg_ok g" by (simp add: plain_text_def)
  have t: "str_trim '' filepath '' = ''filepath''" "str_trim ''x'' = ''x''" by code_simp+
  show ?thesis
    using expand_command_wellformed [OF ok, of "''/w/a''" "''p''" "''/w''"]
    by (simp add: seg_values_def placeholder_value_def t open_tag_def close_tag_def)
qed

text \<open>
  Outside that shape the expansion loses text: everything after a second \<open>}}\<close> of one part is
  dropped, because only the first two pieces of \<open>part.split("}}")\<close> are used. The code's comment
  on unknown variables and the documentation promise substitution only.
\<close>

theorem expand_command_drops_after_second_close:
  assumes "plain_text pre" and "plain_text k" and "plain_text mid" and "CHR ''{'' \<notin> set rest"
  shows "expand_command (pre @ open_tag @ k @ close_tag @ mid @ close_tag @ rest) f p d =
    (pre @ fst (placeholder_value f p d k) @ mid, snd (placeholder_value f p d k))"
proof -
  let ?tail = "k @ close_tag @ mid @ close_tag @ rest"
  have split: "str_split open_tag (pre @ open_tag @ ?tail) = [pre, ?tail]"
    using assms by (simp add: plain_text_def str_split_plain str_split_plain_end)
  have "str_split close_tag ?tail = k # mid # str_split close_tag rest"
    using assms by (simp add: plain_text_def str_split_plain)
  moreover have "str_contains close_tag ?tail" unfolding str_contains_iff by blast
  ultimately have "expand_part f p d ?tail =
      (fst (placeholder_value f p d k) @ mid, snd (placeholder_value f p d k))"
    unfolding expand_part_def placeholder_value_def Let_def by simp
  moreover have "str_contains open_tag (pre @ open_tag @ ?tail)"
    unfolding str_contains_iff by blast
  ultimately show ?thesis
    using expand_command_parts [OF split] expand_part_plain [OF assms(1)]
    by (simp add: expand_parts_def)
qed

theorem expand_command_drops_after_second_close_witness:
  "expand_command (''echo '' @ open_tag @ ''filepath'' @ close_tag @ '' a'' @ close_tag @ '' b'')
     ''f'' [] [] = (''echo f a'', [])"
proof -
  have "str_trim ''filepath'' = ''filepath''" by code_simp
  then show ?thesis
    using expand_command_drops_after_second_close
      [of "''echo ''" "''filepath''" "'' a''" "'' b''" "''f''" "[]" "[]"]
    by (simp add: plain_text_def placeholder_value_def)
qed

end
