(* ===== verification/Canonical_Encoding.thy ===== *)
theory Canonical_Encoding
  imports Rules_Model
begin

text \<open>
  The canonical byte encoder of \<open>plan.rs\<close> and \<open>config_revision.rs\<close> (both files have the same
  private \<open>CanonicalEncoder\<close>): fixed-width little-endian integers, tag bytes, length-prefixed
  strings. The encoder appends to a byte vector; here every operation is the list of bytes it
  appends, and a sequence of appends is a concatenation.

  The contract of the encoder is the locale \<open>canonical_encoding\<close>: what was encoded is determined
  by any byte string that starts with the encoding, up to the part of the value that the code
  encodes (its \<open>key\<close>). It is interpreted for every type the two files encode.
\<close>

section \<open>Encoder operations\<close>

text \<open>\<open>u64::to_le_bytes\<close> (8 bytes); a \<open>usize\<close> length is cast with \<open>as u64\<close>.\<close>

fun to_le_bytes :: "nat \<Rightarrow> nat \<Rightarrow> bytes" where
  "to_le_bytes 0 n = []"
| "to_le_bytes (Suc k) n = word_of_nat n # to_le_bytes k (n div 256)"

definition enc_u64 :: "nat \<Rightarrow> bytes" where
  "enc_u64 n = to_le_bytes 8 n"

definition enc_byte :: "nat \<Rightarrow> bytes" where
  "enc_byte b = [word_of_nat b]"

definition enc_bool :: "bool \<Rightarrow> bytes" where
  "enc_bool b = [if b then 1 else 0]"

definition as_bytes :: "string \<Rightarrow> bytes" where
  "as_bytes s = map of_char s"

definition enc_string :: "string \<Rightarrow> bytes" where
  "enc_string s = enc_u64 (length s) @ as_bytes s"

definition enc_optional_string :: "string option \<Rightarrow> bytes" where
  "enc_optional_string v = (case v of Some s \<Rightarrow> enc_byte 1 @ enc_string s | None \<Rightarrow> enc_byte 0)"

text \<open>The idiom \<open>u64(xs.len()); for x in xs \<open>{\<close> encode x \<open>}\<close>\<close>.\<close>

definition enc_seq :: "('a \<Rightarrow> bytes) \<Rightarrow> 'a list \<Rightarrow> bytes" where
  "enc_seq enc xs = enc_u64 (length xs) @ concat (map enc xs)"

text \<open>Lowercase hex of a digest.\<close>

definition hex_digit :: "nat \<Rightarrow> char" where
  "hex_digit n = (''0123456789abcdef'' ! n)"

definition hex :: "bytes \<Rightarrow> string" where
  "hex bs = concat (map (\<lambda>b. [hex_digit (unat b div 16), hex_digit (unat b mod 16)]) bs)"

section \<open>The contract\<close>

text \<open>Every \<open>u64\<close> and \<open>usize\<close> of the source is below $2^{64}$.\<close>

definition fits :: "nat \<Rightarrow> bool" where "fits n \<longleftrightarrow> n < 2 ^ 64"

locale canonical_encoding =
  fixes enc :: "'a \<Rightarrow> bytes"
    and ok :: "'a \<Rightarrow> bool"
    and key :: "'a \<Rightarrow> 'k"
  assumes unique: "ok x \<Longrightarrow> ok y \<Longrightarrow> enc x @ r = enc y @ s \<Longrightarrow> key x = key y \<and> r = s"
begin

lemma injective: "ok x \<Longrightarrow> ok y \<Longrightarrow> enc x = enc y \<Longrightarrow> key x = key y"
  using unique [of x y "[]" "[]"] by simp

lemma concat_unique:
  assumes "length xs = length ys" and "list_all ok xs" and "list_all ok ys"
    and "concat (map enc xs) @ r = concat (map enc ys) @ s"
  shows "map key xs = map key ys \<and> r = s"
  using assms
proof (induction xs ys rule: list_induct2)
  case Nil
  then show ?case by simp
next
  case (Cons x xs y ys)
  then have "enc x @ (concat (map enc xs) @ r) = enc y @ (concat (map enc ys) @ s)" by simp
  with Cons.prems have "key x = key y \<and> concat (map enc xs) @ r = concat (map enc ys) @ s"
    by (intro unique) auto
  with Cons show ?case by simp
qed

end

lemma canonical_encodingI:
  "(\<And>x y r s. ok x \<Longrightarrow> ok y \<Longrightarrow> enc x @ r = enc y @ s \<Longrightarrow> key x = key y \<and> r = s)
   \<Longrightarrow> canonical_encoding enc ok key"
  by unfold_locales

section \<open>Integers, strings and options\<close>

lemma length_to_le_bytes [simp]: "length (to_le_bytes k n) = k"
  by (induction k n rule: to_le_bytes.induct) auto

lemma word8_of_nat_eq_iff: "(word_of_nat m :: 8 word) = word_of_nat n \<longleftrightarrow> m mod 256 = n mod 256"
  by (simp add: word_of_nat_eq_iff take_bit_eq_mod)

lemma to_le_bytes_inject:
  "m < 256 ^ k \<Longrightarrow> n < 256 ^ k \<Longrightarrow> to_le_bytes k m = to_le_bytes k n \<Longrightarrow> m = n"
proof (induction k arbitrary: m n)
  case 0
  then show ?case by simp
next
  case (Suc k)
  then have "m div 256 = n div 256" and "m mod 256 = n mod 256"
    by (auto simp: word8_of_nat_eq_iff less_mult_imp_div_less mult.commute)
  then show ?case by (metis div_mult_mod_eq)
qed

lemma enc_u64_unique:
  assumes "fits m" and "fits n" and "enc_u64 m @ r = enc_u64 n @ s"
  shows "m = n \<and> r = s"
proof -
  have "to_le_bytes 8 m = to_le_bytes 8 n" and rs: "r = s"
    using assms(3) by (simp_all add: enc_u64_def)
  then have "m = n" using assms(1,2) by (intro to_le_bytes_inject [of m 8 n]) (auto simp: fits_def)
  with rs show ?thesis by simp
qed

interpretation u64_enc: canonical_encoding enc_u64 fits id
  by unfold_locales (metis enc_u64_unique id_apply)

lemma of_char_word_inject [simp]: "(of_char c :: 8 word) = of_char d \<longleftrightarrow> c = d"
proof
  assume "(of_char c :: 8 word) = of_char d"
  then have "(word_of_nat (of_char c) :: 8 word) = word_of_nat (of_char d)"
    by (simp only: of_nat_of_char)
  then have "(of_char c :: nat) mod 256 = of_char d mod 256" by (simp only: word8_of_nat_eq_iff)
  then show "c = d" by (simp add: of_char_mod_256)
qed simp

lemma as_bytes_inject: "as_bytes s = as_bytes t \<longleftrightarrow> s = t"
  unfolding as_bytes_def by (intro inj_map_eq_map) (auto simp: inj_def)

lemma length_as_bytes [simp]: "length (as_bytes s) = length s"
  by (simp add: as_bytes_def)

lemma enc_string_unique:
  assumes "fits (length s)" and "fits (length t)" and "enc_string s @ r = enc_string t @ q"
  shows "s = t \<and> r = q"
proof -
  have "length s = length t" and "as_bytes s @ r = as_bytes t @ q"
    using assms enc_u64_unique [of "length s" "length t" "as_bytes s @ r" "as_bytes t @ q"]
    by (auto simp: enc_string_def)
  then show ?thesis by (simp add: append_eq_append_conv as_bytes_inject)
qed

interpretation string_enc: canonical_encoding enc_string "\<lambda>s. fits (length s)" id
  by unfold_locales (metis enc_string_unique id_apply)

interpretation bool_enc: canonical_encoding enc_bool "\<lambda>_. True" id
  by unfold_locales (auto simp: enc_bool_def split: if_splits)

lemma enc_byte_distinct [simp]: "enc_byte 0 @ r \<noteq> enc_byte 1 @ s" "enc_byte 1 @ r \<noteq> enc_byte 0 @ s"
  "enc_byte 0 @ r \<noteq> enc_byte (Suc 0) @ s" "enc_byte (Suc 0) @ r \<noteq> enc_byte 0 @ s"
  by (simp_all add: enc_byte_def)

lemma enc_byte_cancel [simp]: "enc_byte b @ r = enc_byte b @ s \<longleftrightarrow> r = s"
  by (simp add: enc_byte_def)

text \<open>
  Combinators: a tagged option, a counted sequence, two fields in a row. Each preserves the
  contract, so an encoding is canonical because of the way it is put together.
\<close>

definition enc_option :: "('a \<Rightarrow> bytes) \<Rightarrow> 'a option \<Rightarrow> bytes" where
  "enc_option enc v = (case v of Some x \<Rightarrow> enc_byte 1 @ enc x | None \<Rightarrow> enc_byte 0)"

lemma enc_optional_string_eq: "enc_optional_string = enc_option enc_string"
  by (auto simp: enc_optional_string_def enc_option_def fun_eq_iff split: option.split)

definition enc_both :: "('a \<Rightarrow> bytes) \<Rightarrow> ('b \<Rightarrow> bytes) \<Rightarrow> 'a \<times> 'b \<Rightarrow> bytes" where
  "enc_both e f p = e (fst p) @ f (snd p)"

lemma canonical_option:
  assumes "canonical_encoding enc ok key"
  shows "canonical_encoding (enc_option enc) (pred_option ok) (map_option key)"
proof (rule canonical_encodingI)
  fix x y r s
  assume ok: "pred_option ok x" "pred_option ok y"
    and eq: "enc_option enc x @ r = enc_option enc y @ s"
  show "map_option key x = map_option key y \<and> r = s"
  proof (cases x)
    case None
    with eq show ?thesis by (cases y) (simp_all add: enc_option_def)
  next
    case (Some a)
    with eq obtain b where y: "y = Some b" by (cases y) (simp_all add: enc_option_def)
    with Some eq have "enc a @ r = enc b @ s" by (simp add: enc_option_def)
    with Some y ok canonical_encoding.unique [OF assms, of a b r s] show ?thesis by simp
  qed
qed

lemma canonical_seq:
  assumes "canonical_encoding enc ok key"
  shows "canonical_encoding (enc_seq enc) (\<lambda>xs. fits (length xs) \<and> list_all ok xs) (map key)"
proof (rule canonical_encodingI)
  fix xs ys r s
  assume ok: "fits (length xs) \<and> list_all ok xs" "fits (length ys) \<and> list_all ok ys"
    and eq: "enc_seq enc xs @ r = enc_seq enc ys @ s"
  then have "length xs = length ys \<and> concat (map enc xs) @ r = concat (map enc ys) @ s"
    by (intro enc_u64_unique) (auto simp: enc_seq_def)
  with ok show "map key xs = map key ys \<and> r = s"
    using canonical_encoding.concat_unique [OF assms] by blast
qed

lemma canonical_both:
  assumes "canonical_encoding e ok key" and "canonical_encoding f ok' key'"
  shows "canonical_encoding (enc_both e f) (\<lambda>p. ok (fst p) \<and> ok' (snd p))
           (\<lambda>p. (key (fst p), key' (snd p)))"
proof (rule canonical_encodingI)
  fix x y r s
  assume ok: "ok (fst x) \<and> ok' (snd x)" "ok (fst y) \<and> ok' (snd y)"
    and "enc_both e f x @ r = enc_both e f y @ s"
  then have "e (fst x) @ (f (snd x) @ r) = e (fst y) @ (f (snd y) @ s)"
    by (simp add: enc_both_def)
  with ok have "key (fst x) = key (fst y)" "f (snd x) @ r = f (snd y) @ s"
    using canonical_encoding.unique [OF assms(1)] by blast+
  with ok show "(key (fst x), key' (snd x)) = (key (fst y), key' (snd y)) \<and> r = s"
    using canonical_encoding.unique [OF assms(2)] by blast
qed

lemma canonical_map:
  assumes "canonical_encoding enc ok key"
  shows "canonical_encoding (\<lambda>x. enc (f x)) (\<lambda>x. ok (f x)) (\<lambda>x. key (f x))"
  using canonical_encoding.unique [OF assms] by (intro canonical_encodingI) blast

lemmas canonical_intros = canonical_map canonical_both canonical_seq canonical_option

interpretation optional_string_enc:
  canonical_encoding enc_optional_string "pred_option (\<lambda>s. fits (length s))" "map_option id"
  unfolding enc_optional_string_eq
  by (rule canonical_option) (rule string_enc.canonical_encoding_axioms)

section \<open>Command lines\<close>

fun enc_command :: "command_line \<Rightarrow> bytes" where
  "enc_command (Shell command) = enc_byte 0 @ enc_string command"
| "enc_command (Argv argv) = enc_byte 1 @ enc_seq enc_string argv"

fun command_fits :: "command_line \<Rightarrow> bool" where
  "command_fits (Shell command) = fits (length command)"
| "command_fits (Argv argv) = (fits (length argv) \<and> list_all (\<lambda>s. fits (length s)) argv)"

lemma enc_command_unique:
  assumes "command_fits c" and "command_fits d" and "enc_command c @ r = enc_command d @ s"
  shows "c = d \<and> r = s"
proof -
  have sh: "a = b \<and> r = s"
    if "fits (length a)" "fits (length b)" "enc_string a @ r = enc_string b @ s" for a b
    using enc_string_unique that by blast
  have av: "a = b \<and> r = s"
    if "fits (length a) \<and> list_all (\<lambda>s. fits (length s)) a"
      "fits (length b) \<and> list_all (\<lambda>s. fits (length s)) b"
      "enc_seq enc_string a @ r = enc_seq enc_string b @ s" for a b
    using canonical_encoding.unique [OF canonical_seq [OF string_enc.canonical_encoding_axioms] that]
    by simp
  show ?thesis
  proof (cases c)
    case (Shell a)
    with assms(3) obtain b where d: "d = Shell b" by (cases d) simp_all
    with Shell assms sh [of a b] show ?thesis by simp
  next
    case (Argv a)
    with assms(3) obtain b where d: "d = Argv b" by (cases d) simp_all
    with Argv assms av [of a b] show ?thesis by simp
  qed
qed

interpretation command_enc: canonical_encoding enc_command command_fits id
  by unfold_locales (metis enc_command_unique id_apply)

section \<open>Hexadecimal digests\<close>

lemma hex_digit_inject: "m < 16 \<Longrightarrow> n < 16 \<Longrightarrow> hex_digit m = hex_digit n \<longleftrightarrow> m = n"
proof -
  have "distinct ''0123456789abcdef''" by simp
  moreover have "length ''0123456789abcdef'' = 16" by simp
  ultimately show "m < 16 \<Longrightarrow> n < 16 \<Longrightarrow> hex_digit m = hex_digit n \<longleftrightarrow> m = n"
    unfolding hex_digit_def by (metis nth_eq_iff_index_eq)
qed

lemma hex_byte_inject:
  fixes a b :: "8 word"
  assumes "hex_digit (unat a div 16) = hex_digit (unat b div 16)"
    and "hex_digit (unat a mod 16) = hex_digit (unat b mod 16)"
  shows "a = b"
proof -
  have "unat a < 256" "unat b < 256" using unsigned_less [of a] unsigned_less [of b] by simp_all
  then have "unat a div 16 < 16" "unat b div 16 < 16" by simp_all
  with assms have "unat a div 16 = unat b div 16" "unat a mod 16 = unat b mod 16"
    by (simp_all add: hex_digit_inject)
  then have "unat a = unat b" by (metis div_mult_mod_eq)
  then show ?thesis by (simp add: word_unat_eq_iff)
qed

lemma hex_inject: "hex x = hex y \<Longrightarrow> x = y"
proof (induction x arbitrary: y)
  case Nil
  then show ?case by (cases y) (auto simp: hex_def)
next
  case (Cons a x)
  then obtain b z where y: "y = b # z" by (cases y) (auto simp: hex_def)
  with Cons show ?case by (auto simp: hex_def intro: hex_byte_inject)
qed

end
