(* ===== verification/Plan_Model.thy ===== *)
theory Plan_Model
  imports Template_Model Canonical_Encoding "HOL-Library.Sublist"
begin

text \<open>
  Execution plans, \<open>src/src/plan.rs\<close>: building the staged plan of a workflow from its jobs,
  filtering it, resolving task directories inside the workspace, expanding templates, the
  canonical execution signature, and the combination of task outcomes.

  The file system enters \<open>resolve_context\<close> through two functions (whether a path exists without
  following links, and canonicalisation); SHA-256 is the parameter \<open>sha\<close>.
\<close>

section \<open>Data\<close>

record task_context =
  ctx_cwd :: "string option"
  ctx_environment :: "(string \<times> string) list"

record task_plan =
  tp_name :: string
  tp_position :: nat
  tp_commands :: "command_line list"
  tp_recovery_commands :: "command_line list option"
  tp_parallel :: "string option"
  tp_group_occurrence :: "string option"
  tp_rule :: rules
  tp_context :: task_context
  tp_output :: output_policy
  tp_service :: bool

datatype stage = Serial task_plan | Parallel string "task_plan list"

record run_plan =
  stages :: "stage list"

datatype task_outcome = Passed | Failed "string list" | Cancelled | Skipped

text \<open>\<open>RunOutcome\<close>: task identity, optional group occurrence and outcome, in plan order.\<close>

type_synonym run_outcome = "(string \<times> string option \<times> task_outcome) list"

fun stage_tasks :: "stage \<Rightarrow> task_plan list" where
  "stage_tasks (Serial task) = [task]"
| "stage_tasks (Parallel g tasks) = tasks"

definition plan_tasks :: "run_plan \<Rightarrow> task_plan list" where
  "plan_tasks p = concat (map stage_tasks (stages p))"

section \<open>Building a plan\<close>

definition occurrence_id :: "string \<Rightarrow> nat \<Rightarrow> string" where
  "occurrence_id g n = g @ ''#'' @ show_nat n"

text \<open>The closure \<open>close_group\<close>; the occurrence counters are a map with default 0.\<close>

definition close_group ::
  "string \<Rightarrow> task_plan list \<Rightarrow> (string \<Rightarrow> nat) \<Rightarrow> stage list \<Rightarrow> stage list \<times> (string \<Rightarrow> nat)" where
  "close_group g tasks counts sts =
     (let occurrence = counts g + 1 in
      (sts @ [Parallel g (map (\<lambda>t. t\<lparr>tp_group_occurrence := Some (occurrence_id g occurrence)\<rparr>) tasks)],
       counts(g := occurrence)))"

definition close_open ::
  "(string \<times> task_plan list) option \<Rightarrow> (string \<Rightarrow> nat) \<Rightarrow> stage list \<Rightarrow> stage list \<times> (string \<Rightarrow> nat)" where
  "close_open og counts sts =
     (case og of None \<Rightarrow> (sts, counts) | Some (g, tasks) \<Rightarrow> close_group g tasks counts sts)"

definition task_of_rule :: "nat \<Rightarrow> rules \<Rightarrow> task_plan" where
  "task_of_rule position rule =
     \<lparr>tp_name = rule_name rule, tp_position = position, tp_commands = command_lines rule,
      tp_recovery_commands = recovery_command_lines rule, tp_parallel = rule_parallel rule,
      tp_group_occurrence = None, tp_rule = rule,
      tp_context = \<lparr>ctx_cwd = rule_cwd rule, ctx_environment = rule_environment rule\<rparr>,
      tp_output = rule_output rule, tp_service = rule_service rule\<rparr>"

fun from_rules_loop ::
  "nat \<Rightarrow> rules list \<Rightarrow> stage list \<Rightarrow> (string \<times> task_plan list) option \<Rightarrow> (string \<Rightarrow> nat)
   \<Rightarrow> stage list" where
  "from_rules_loop i [] sts og counts = fst (close_open og counts sts)"
| "from_rules_loop i (rule # rs) sts og counts =
     (let plan = task_of_rule i rule in
      case tp_parallel plan of
        Some g \<Rightarrow>
          (case og of
             Some (open_name, tasks) \<Rightarrow>
               if g = open_name then
                 from_rules_loop (i + 1) rs sts (Some (open_name, tasks @ [plan])) counts
               else
                 (let (sts', counts') = close_group open_name tasks counts sts in
                  from_rules_loop (i + 1) rs sts' (Some (g, [plan])) counts')
           | None \<Rightarrow> from_rules_loop (i + 1) rs sts (Some (g, [plan])) counts)
      | None \<Rightarrow>
          (let (sts', counts') = close_open og counts sts in
           from_rules_loop (i + 1) rs (sts' @ [Serial plan]) None counts'))"

definition from_rules :: "rules list \<Rightarrow> run_plan" where
  "from_rules rs = \<lparr>stages = from_rules_loop 0 rs [] None (\<lambda>_. 0)\<rparr>"

section \<open>Filtering, expansion, projections\<close>

fun filter_stage :: "(rules \<Rightarrow> bool) \<Rightarrow> stage \<Rightarrow> stage list" where
  "filter_stage keep (Serial plan) = (if keep (tp_rule plan) then [Serial plan] else [])"
| "filter_stage keep (Parallel g tasks) =
     (let kept = filter (\<lambda>t. keep (tp_rule t)) tasks in
      if kept \<noteq> [] then [Parallel g kept] else [])"

definition filter_plan :: "(rules \<Rightarrow> bool) \<Rightarrow> run_plan \<Rightarrow> run_plan" where
  "filter_plan keep p = \<lparr>stages = concat (map (filter_stage keep) (stages p))\<rparr>"

definition task_options :: "task_plan \<Rightarrow> template_options \<Rightarrow> template_options" where
  "task_options t opts =
     (case ctx_cwd (tp_context t) of Some cwd \<Rightarrow> opts\<lparr>opt_current_dir := cwd\<rparr> | None \<Rightarrow> opts)"

definition expand_task ::
  "template_options \<Rightarrow> task_plan \<Rightarrow> command_line list \<times> command_line list option \<times> string list" where
  "expand_task opts t =
     (let o' = task_options t opts;
          expanded = map (\<lambda>c. template_line c o') (tp_commands t);
          recovery = map_option (map (\<lambda>c. template_line c o')) (tp_recovery_commands t)
      in (map fst expanded, map_option (map fst) recovery,
          concat (map snd expanded)
          @ (case recovery of None \<Rightarrow> [] | Some r \<Rightarrow> concat (map snd r))))"

definition expanded_task :: "template_options \<Rightarrow> task_plan \<Rightarrow> task_plan" where
  "expanded_task opts t =
     (let (commands, recovery, unknown) = expand_task opts t in
      t\<lparr>tp_commands := commands, tp_recovery_commands := recovery\<rparr>)"

definition task_unknown :: "template_options \<Rightarrow> task_plan \<Rightarrow> string list" where
  "task_unknown opts t = snd (snd (expand_task opts t))"

fun expand_stage :: "template_options \<Rightarrow> stage \<Rightarrow> stage" where
  "expand_stage opts (Serial task) = Serial (expanded_task opts task)"
| "expand_stage opts (Parallel g tasks) = Parallel g (map (expanded_task opts) tasks)"

definition expand_plan :: "template_options \<Rightarrow> run_plan \<Rightarrow> run_plan \<times> string list" where
  "expand_plan opts p =
     (\<lparr>stages = map (expand_stage opts) (stages p)\<rparr>,
      concat (map (task_unknown opts) (plan_tasks p)))"

definition plan_commands :: "run_plan \<Rightarrow> command_line list" where
  "plan_commands p =
     concat (map (\<lambda>s. case s of Serial t \<Rightarrow> tp_commands t
                              | Parallel g tasks \<Rightarrow> concat (map tp_commands tasks)) (stages p))"

definition task_names :: "run_plan \<Rightarrow> string list" where
  "task_names p =
     concat (map (\<lambda>s. case s of Serial t \<Rightarrow> [tp_name t]
                              | Parallel g tasks \<Rightarrow> map tp_name tasks) (stages p))"

definition plan_is_empty :: "run_plan \<Rightarrow> bool" where
  "plan_is_empty p = (stages p = [])"

definition context_summary :: "run_plan \<Rightarrow> string" where
  "context_summary p =
     join_with [CHR 0x0A] (map (\<lambda>t.
       ''task='' @ tp_name t
       @ '' cwd='' @ (case ctx_cwd (tp_context t) of Some cwd \<Rightarrow> cwd | None \<Rightarrow> ''<workspace>'')
       @ '' env=['' @ join_with '', '' (map fst (ctx_environment (tp_context t))) @ '']'')
       (plan_tasks p))"

section \<open>Paths and the workspace boundary\<close>

text \<open>\<open>std::path\<close> on Unix: components, joining, and component-wise prefixes.\<close>

datatype path_component = RootDir | CurDir | ParentDir | Normal string

definition component_of :: "string \<Rightarrow> path_component list" where
  "component_of part =
     (if part = [] \<or> part = ''.'' then [] else if part = ''..'' then [ParentDir] else [Normal part])"

definition path_components :: "string \<Rightarrow> path_component list" where
  "path_components path =
     (let parts = str_split ''/'' path in
      if absolute_like path then RootDir # concat (map component_of parts)
      else (if hd parts = ''.'' then [CurDir] else component_of (hd parts))
           @ concat (map component_of (tl parts)))"

definition path_join :: "string \<Rightarrow> string \<Rightarrow> string" where
  "path_join base rel =
     (if absolute_like rel then rel
      else base @ (if base = [] \<or> last base = CHR ''/'' then [] else ''/'') @ rel)"

definition path_starts_with :: "string \<Rightarrow> string \<Rightarrow> bool" where
  "path_starts_with p base =
     (take (length (path_components base)) (path_components p) = path_components base)"

record file_system =
  fs_exists :: "string \<Rightarrow> bool"
  fs_canonicalize :: "string \<Rightarrow> string result"

definition quoted :: "string \<Rightarrow> string" where
  "quoted s = [quote_char] @ s @ [quote_char]"

definition resolve_task ::
  "file_system \<Rightarrow> string \<Rightarrow> task_plan \<Rightarrow> task_plan result" where
  "resolve_task fs root task =
     (let done = (\<lambda>cwd. Inr (task\<lparr>tp_context := (tp_context task)\<lparr>ctx_cwd := Some cwd\<rparr>\<rparr>));
          label = ''Task '' @ quoted (tp_name task)
      in
      case ctx_cwd (tp_context task) of
        None \<Rightarrow> done root
      | Some cwd \<Rightarrow>
          if absolute_like cwd then
            Inl (label @ '' cwd must be relative to workspace root: '' @ cwd)
          else if ParentDir \<in> set (path_components cwd) then
            Inl (label @ '' cwd cannot escape workspace root: '' @ cwd)
          else
            (let candidate = path_join root cwd in
             if fs_exists fs candidate then
               (case fs_canonicalize fs root of
                  Inl error \<Rightarrow>
                    Inl (label @ '' workspace root cannot be resolved: '' @ root @ '' ('' @ error @ '')'')
                | Inr canonical_root \<Rightarrow>
                    (case fs_canonicalize fs candidate of
                       Inl error \<Rightarrow>
                         Inl (label @ '' cwd cannot be resolved: '' @ candidate @ '' ('' @ error @ '')'')
                     | Inr canonical_candidate \<Rightarrow>
                         if \<not> path_starts_with canonical_candidate canonical_root then
                           Inl (label @ '' cwd cannot escape workspace root through a symlink: '' @ cwd)
                         else done candidate))
             else done candidate))"

fun map_result :: "('a \<Rightarrow> 'b result) \<Rightarrow> 'a list \<Rightarrow> 'b list result" where
  "map_result f [] = Inr []"
| "map_result f (x # xs) =
     (case f x of
        Inl e \<Rightarrow> Inl e
      | Inr y \<Rightarrow> (case map_result f xs of Inl e \<Rightarrow> Inl e | Inr ys \<Rightarrow> Inr (y # ys)))"

fun resolve_stage :: "file_system \<Rightarrow> string \<Rightarrow> stage \<Rightarrow> stage result" where
  "resolve_stage fs root (Serial task) = map_sum id Serial (resolve_task fs root task)"
| "resolve_stage fs root (Parallel g tasks) =
     map_sum id (Parallel g) (map_result (resolve_task fs root) tasks)"

definition resolve_context :: "file_system \<Rightarrow> string \<Rightarrow> run_plan \<Rightarrow> run_plan result" where
  "resolve_context fs root p =
     map_sum id (\<lambda>sts. \<lparr>stages = sts\<rparr>) (map_result (resolve_stage fs root) (stages p))"

section \<open>Execution signature\<close>

definition SIGNATURE_SCHEMA_VERSION :: nat where
  "SIGNATURE_SCHEMA_VERSION = 2"

definition enc_task :: "task_plan \<Rightarrow> bytes" where
  "enc_task t =
     enc_string (tp_name t)
     @ enc_optional_string (tp_parallel t)
     @ enc_optional_string (tp_group_occurrence t)
     @ enc_seq enc_command (tp_commands t)
     @ enc_option (enc_seq enc_command) (tp_recovery_commands t)
     @ enc_option enc_string (ctx_cwd (tp_context t))
     @ enc_seq (enc_both enc_string enc_string) (ctx_environment (tp_context t))"

fun enc_stage :: "stage \<Rightarrow> bytes" where
  "enc_stage (Serial task) = enc_byte 0 @ enc_task task"
| "enc_stage (Parallel g tasks) = enc_byte 1 @ enc_string g @ enc_seq enc_task tasks"

definition signature_bytes :: "run_plan \<Rightarrow> nat \<Rightarrow> bool \<Rightarrow> nat \<Rightarrow> bytes" where
  "signature_bytes p jobs fail_fast schema_version =
     enc_u64 schema_version @ enc_u64 jobs @ enc_bool fail_fast @ enc_seq enc_stage (stages p)"

definition execution_signature_for ::
  "(bytes \<Rightarrow> bytes) \<Rightarrow> run_plan \<Rightarrow> nat \<Rightarrow> bool \<Rightarrow> nat \<Rightarrow> string" where
  "execution_signature_for sha p jobs fail_fast schema_version =
     hex (sha (signature_bytes p jobs fail_fast schema_version))"

definition execution_signature :: "(bytes \<Rightarrow> bytes) \<Rightarrow> run_plan \<Rightarrow> nat \<Rightarrow> bool \<Rightarrow> string" where
  "execution_signature sha p jobs fail_fast =
     execution_signature_for sha p jobs fail_fast SIGNATURE_SCHEMA_VERSION"

section \<open>Outcomes\<close>

definition is_success :: "run_outcome \<Rightarrow> bool" where
  "is_success oc = list_all (\<lambda>(_, _, outcome). outcome = Passed) oc"

definition has_failures :: "run_outcome \<Rightarrow> bool" where
  "has_failures oc = list_ex (\<lambda>(_, _, outcome). case outcome of Failed _ \<Rightarrow> True | _ \<Rightarrow> False) oc"

definition is_cancelled :: "run_outcome \<Rightarrow> bool" where
  "is_cancelled oc = list_ex (\<lambda>(_, _, outcome). outcome = Cancelled) oc"

definition failures :: "run_outcome \<Rightarrow> string list" where
  "failures oc = concat (map (\<lambda>(name, _, outcome).
     case outcome of Failed fs \<Rightarrow> map (\<lambda>f. name @ '': '' @ f) fs | _ \<Rightarrow> []) oc)"

section \<open>Flattening: no task is lost, duplicated or reordered\<close>

definition erase :: "task_plan \<Rightarrow> task_plan" where
  "erase t = t\<lparr>tp_group_occurrence := None\<rparr>"

lemma erase_simps [simp]:
  "erase (t\<lparr>tp_group_occurrence := x\<rparr>) = erase t" "erase (task_of_rule i r) = task_of_rule i r"
  "tp_commands (erase t) = tp_commands t" "tp_rule (erase t) = tp_rule t" "tp_name (erase t) = tp_name t"
  by (simp_all add: erase_def task_of_rule_def)

fun tasks_from :: "nat \<Rightarrow> rules list \<Rightarrow> task_plan list" where
  "tasks_from i [] = []"
| "tasks_from i (r # rs) = task_of_rule i r # tasks_from (i + 1) rs"

definition open_tasks :: "(string \<times> task_plan list) option \<Rightarrow> task_plan list" where
  "open_tasks og = (case og of None \<Rightarrow> [] | Some (g, tasks) \<Rightarrow> tasks)"

lemma open_tasks_simps [simp]: "open_tasks None = []" "open_tasks (Some (g, ts)) = ts"
  by (simp_all add: open_tasks_def)

abbreviation tasks_of :: "stage list \<Rightarrow> task_plan list" where
  "tasks_of sts \<equiv> concat (map stage_tasks sts)"

lemma close_open_tasks:
  "map erase (tasks_of (fst (close_open og counts sts))) =
     map erase (tasks_of sts) @ map erase (open_tasks og)"
  by (auto simp: close_open_def close_group_def Let_def comp_def split: option.split)

lemma close_open_Some [simp]: "close_open (Some (g, ts)) counts sts = close_group g ts counts sts"
  by (simp add: close_open_def)

lemma task_of_rule_simps [simp]:
  "tp_parallel (task_of_rule i r) = rule_parallel r" "tp_group_occurrence (task_of_rule i r) = None"
  "tp_rule (task_of_rule i r) = r" "tp_commands (task_of_rule i r) = command_lines r"
  by (simp_all add: task_of_rule_def)

text \<open>The three ways one job moves the loop: a barrier, the open group again, a new group.\<close>

lemma loop_serial:
  "rule_parallel r = None \<Longrightarrow> close_open og counts sts = (sts', counts') \<Longrightarrow>
     from_rules_loop i (r # rs) sts og counts =
       from_rules_loop (i + 1) rs (sts' @ [Serial (task_of_rule i r)]) None counts'"
  by simp

lemma loop_same:
  "rule_parallel r = Some g \<Longrightarrow>
     from_rules_loop i (r # rs) sts (Some (g, ts)) counts =
       from_rules_loop (i + 1) rs sts (Some (g, ts @ [task_of_rule i r])) counts"
  by simp

lemma loop_new:
  "rule_parallel r = Some g \<Longrightarrow> map_option fst og \<noteq> Some g \<Longrightarrow>
     close_open og counts sts = (sts', counts') \<Longrightarrow>
     from_rules_loop i (r # rs) sts og counts =
       from_rules_loop (i + 1) rs sts' (Some (g, [task_of_rule i r])) counts'"
  by (cases og) (auto simp: close_open_def)

declare from_rules_loop.simps(2) [simp del]

lemma loop_cases:
  fixes r :: rules and og :: "(string \<times> task_plan list) option"
  obtains (serial) "rule_parallel r = None"
  | (same) g ts where "rule_parallel r = Some g" "og = Some (g, ts)"
  | (fresh) g where "rule_parallel r = Some g" "map_option fst og \<noteq> Some g"
proof (cases "rule_parallel r")
  case None
  then show ?thesis by (rule serial)
next
  case (Some g)
  show ?thesis
  proof (cases "map_option fst og = Some g")
    case True
    then obtain ts where "og = Some (g, ts)" by force
    with Some show ?thesis by (rule same)
  next
    case False
    with Some show ?thesis by (rule fresh)
  qed
qed

lemma from_rules_loop_tasks:
  "map erase (tasks_of (from_rules_loop i rs sts og counts)) =
     map erase (tasks_of sts) @ map erase (open_tasks og) @ tasks_from i rs"
proof (induction rs arbitrary: i sts og counts)
  case Nil
  then show ?case by (simp add: close_open_tasks)
next
  case (Cons r rs)
  obtain sts' counts' where co: "close_open og counts sts = (sts', counts')" by force
  have closed: "map erase (tasks_of sts') = map erase (tasks_of sts) @ map erase (open_tasks og)"
    using close_open_tasks [of og counts sts] co by simp
  show ?case
  proof (cases rule: loop_cases [where r = r and og = og])
    case serial
    from loop_serial [OF this co] closed show ?thesis by (simp add: Cons.IH)
  next
    case same
    then show ?thesis by (simp add: loop_same Cons.IH)
  next
    case fresh
    from loop_new [OF this co] closed show ?thesis by (simp add: Cons.IH)
  qed
qed

lemma map_erase_from_rules: "map erase (plan_tasks (from_rules rs)) = tasks_from 0 rs"
  using from_rules_loop_tasks [of 0 rs "[]" None "\<lambda>_. 0"]
  by (simp add: plan_tasks_def from_rules_def)

lemma plan_commands_eq: "plan_commands p = concat (map tp_commands (plan_tasks p))"
proof -
  have "concat (map tp_commands (tasks_of sts)) =
      concat (map (\<lambda>s. case s of Serial t \<Rightarrow> tp_commands t
        | Parallel g tasks \<Rightarrow> concat (map tp_commands tasks)) sts)" for sts
    by (induction sts) (auto split: stage.split)
  then show ?thesis by (simp add: plan_commands_def plan_tasks_def)
qed

lemma plan_tasks_filter:
  "plan_tasks (filter_plan keep p) = filter (\<lambda>t. keep (tp_rule t)) (plan_tasks p)"
proof -
  have "tasks_of (filter_stage keep s) = filter (\<lambda>t. keep (tp_rule t)) (stage_tasks s)" for s
    by (cases s) (auto simp: Let_def filter_empty_conv)
  then have "tasks_of (concat (map (filter_stage keep) sts)) =
      filter (\<lambda>t. keep (tp_rule t)) (tasks_of sts)" for sts
    by (induction sts) auto
  then show ?thesis by (simp add: plan_tasks_def filter_plan_def)
qed

lemma filter_map_erase:
  "map erase (filter (\<lambda>t. keep (tp_rule t)) ts) = filter (\<lambda>t. keep (tp_rule t)) (map erase ts)"
  by (induction ts) auto

lemma tasks_from_commands:
  "concat (map tp_commands (filter (\<lambda>t. keep (tp_rule t)) (tasks_from i rs))) =
     all_command_lines (filter keep rs)"
  by (induction i rs rule: tasks_from.induct)
     (auto simp: all_command_lines_def task_of_rule_def)

lemma concat_commands_erase: "concat (map tp_commands (map erase ts)) = concat (map tp_commands ts)"
  by (induction ts) auto

text \<open>
  C6. Planning keeps the workflow: the tasks of the filtered plan, read stage by stage, are the
  kept jobs in declaration order, each with its declared position, context, policy and commands
  (only the group occurrence label is added), so the flattened commands are exactly the commands
  of the kept jobs.
\<close>

theorem filtered_plan_flattens:
  "map erase (plan_tasks (filter_plan keep (from_rules rs))) =
     filter (\<lambda>t. keep (tp_rule t)) (tasks_from 0 rs) \<and>
   plan_commands (filter_plan keep (from_rules rs)) = all_command_lines (filter keep rs)"
proof
  show tasks: "map erase (plan_tasks (filter_plan keep (from_rules rs))) =
     filter (\<lambda>t. keep (tp_rule t)) (tasks_from 0 rs)"
    by (simp add: plan_tasks_filter filter_map_erase map_erase_from_rules)
  show "plan_commands (filter_plan keep (from_rules rs)) = all_command_lines (filter keep rs)"
    using tasks concat_commands_erase [of "plan_tasks (filter_plan keep (from_rules rs))"]
    by (simp add: plan_commands_eq tasks_from_commands)
qed

section \<open>Stages: maximal groups, labelled apart\<close>

fun is_group :: "stage \<Rightarrow> bool" where
  "is_group (Serial t) = False"
| "is_group (Parallel g ts) = True"

fun group_name :: "stage \<Rightarrow> string option" where
  "group_name (Serial t) = None"
| "group_name (Parallel g ts) = Some g"

fun stage_wf :: "stage \<Rightarrow> bool" where
  "stage_wf (Serial t) = (tp_parallel t = None \<and> tp_group_occurrence t = None)"
| "stage_wf (Parallel g ts) =
     (ts \<noteq> [] \<and> tp_group_occurrence (hd ts) \<noteq> None \<and>
      list_all (\<lambda>t. tp_parallel t = Some g \<and> tp_group_occurrence t = tp_group_occurrence (hd ts)) ts)"

fun stage_occurrence :: "stage \<Rightarrow> string option" where
  "stage_occurrence (Serial t) = tp_group_occurrence t"
| "stage_occurrence (Parallel g ts) = tp_group_occurrence (hd ts)"

definition occurrences :: "stage list \<Rightarrow> string option list" where
  "occurrences sts = map stage_occurrence (filter is_group sts)"

definition apart :: "stage \<Rightarrow> stage \<Rightarrow> bool" where
  "apart s t \<longleftrightarrow> \<not> (is_group s \<and> group_name s = group_name t)"

definition plan_wf :: "run_plan \<Rightarrow> bool" where
  "plan_wf p \<longleftrightarrow> list_all stage_wf (stages p) \<and> successively apart (stages p)
     \<and> distinct (occurrences (stages p))"

lemma append_hash_inject:
  "c \<notin> set a \<Longrightarrow> c \<notin> set b \<Longrightarrow> a @ c # x = b @ c # y \<longleftrightarrow> a = b \<and> x = y"
proof (induction a arbitrary: b)
  case Nil
  then show ?case by (cases b) auto
next
  case (Cons d a)
  then show ?case by (cases b) auto
qed

lemma occurrence_id_inject: "occurrence_id g m = occurrence_id h n \<longleftrightarrow> g = h \<and> m = n"
proof -
  have nohash: "CHR ''#'' \<notin> set (rev (show_nat k))" for k
    using show_nat_digits [of "CHR ''#''" k] by auto
  have rev_id: "rev (occurrence_id f k) = rev (show_nat k) @ CHR ''#'' # rev f" for f k
    by (simp add: occurrence_id_def)
  have "occurrence_id g m = occurrence_id h n \<longleftrightarrow>
      rev (occurrence_id g m) = rev (occurrence_id h n)" by (rule rev_is_rev_conv [symmetric])
  also have "\<dots> \<longleftrightarrow> rev (show_nat m) = rev (show_nat n) \<and> rev g = rev h"
    unfolding rev_id by (rule append_hash_inject [OF nohash nohash])
  finally show ?thesis by auto
qed

text \<open>The state of the planning loop between two jobs.\<close>

definition numbered :: "(string \<Rightarrow> nat) \<Rightarrow> stage \<Rightarrow> bool" where
  "numbered counts s \<longleftrightarrow>
     (\<forall>g. group_name s = Some g \<longrightarrow>
        (\<exists>k\<le>counts g. stage_occurrence s = Some (occurrence_id g k)))"

definition loop_inv :: "stage list \<Rightarrow> (string \<Rightarrow> nat) \<Rightarrow> bool" where
  "loop_inv sts counts \<longleftrightarrow> list_all stage_wf sts \<and> successively apart sts
     \<and> distinct (occurrences sts) \<and> (\<forall>s\<in>set sts. numbered counts s)"

definition open_ok :: "stage list \<Rightarrow> (string \<times> task_plan list) option \<Rightarrow> bool" where
  "open_ok sts og \<longleftrightarrow> (case og of None \<Rightarrow> True | Some (g, ts) \<Rightarrow>
     ts \<noteq> [] \<and> (\<forall>t\<in>set ts. tp_parallel t = Some g) \<and>
     (sts \<noteq> [] \<longrightarrow> group_name (last sts) \<noteq> Some g))"

lemma occurrences_append [simp]: "occurrences (a @ b) = occurrences a @ occurrences b"
  by (simp add: occurrences_def)

lemma loop_inv_close_group:
  assumes inv: "loop_inv sts counts" and og: "open_ok sts (Some (g, ts))"
  shows "case_prod loop_inv (close_group g ts counts sts)"
    and "group_name (last (fst (close_group g ts counts sts))) = Some g"
    and "fst (close_group g ts counts sts) \<noteq> []"
proof -
  let ?s = "Parallel g (map (\<lambda>t. t\<lparr>tp_group_occurrence := Some (occurrence_id g (counts g + 1))\<rparr>) ts)"
  have ts: "ts \<noteq> []" "\<forall>t\<in>set ts. tp_parallel t = Some g" using og by (auto simp: open_ok_def)
  have occ: "stage_occurrence ?s = Some (occurrence_id g (counts g + 1))"
    using ts(1) by (simp add: hd_map)
  have "Some (occurrence_id g (counts g + 1)) \<notin> set (occurrences sts)"
  proof
    assume "Some (occurrence_id g (counts g + 1)) \<in> set (occurrences sts)"
    then obtain s where s: "s \<in> set sts" "is_group s"
      "stage_occurrence s = Some (occurrence_id g (counts g + 1))" by (auto simp: occurrences_def)
    from s(2) obtain h where h: "group_name s = Some h" by (cases s) auto
    with inv s(1) obtain k where "k \<le> counts h" "stage_occurrence s = Some (occurrence_id h k)"
      by (auto simp: loop_inv_def numbered_def)
    with s(3) show False by (auto simp: occurrence_id_inject)
  qed
  then have "distinct (occurrences (sts @ [?s]))"
    using inv occ by (simp add: loop_inv_def) (simp add: occurrences_def)
  moreover have "successively apart (sts @ [?s])"
    using inv og by (auto simp: loop_inv_def open_ok_def successively_append_iff apart_def)
  moreover have "list_all stage_wf (sts @ [?s])"
    using inv ts by (auto simp: loop_inv_def list_all_iff hd_map)
  moreover have "numbered (counts(g := counts g + 1)) s" if "s \<in> set (sts @ [?s])" for s
  proof (cases "s = ?s")
    case True
    then show ?thesis using occ by (auto simp: numbered_def)
  next
    case False
    with that inv have "numbered counts s" by (auto simp: loop_inv_def)
    moreover have "counts h \<le> (counts(g := counts g + 1)) h" for h by simp
    ultimately show ?thesis unfolding numbered_def by (meson le_trans)
  qed
  ultimately have "loop_inv (sts @ [?s]) (counts(g := counts g + 1))"
    unfolding loop_inv_def by blast
  then show "case_prod loop_inv (close_group g ts counts sts)"
    by (simp add: close_group_def Let_def)
qed (simp_all add: close_group_def Let_def)

lemma loop_inv_close_open:
  "loop_inv sts counts \<Longrightarrow> open_ok sts og \<Longrightarrow> case_prod loop_inv (close_open og counts sts)"
  using loop_inv_close_group(1) [of sts counts "fst (the og)" "snd (the og)"]
  by (cases og) (simp_all add: close_open_def split_beta)

lemma loop_inv_serial:
  assumes "loop_inv sts counts" and "rule_parallel r = None"
  shows "loop_inv (sts @ [Serial (task_of_rule i r)]) counts"
proof -
  have "apart s (Serial t)" for s t by (cases s) (auto simp: apart_def)
  with assms show ?thesis
    by (auto simp: loop_inv_def successively_append_iff numbered_def occurrences_def)
qed

lemma loop_inv_stages: "loop_inv sts counts \<Longrightarrow> plan_wf \<lparr>stages = sts\<rparr>"
  by (simp add: loop_inv_def plan_wf_def)

lemma open_ok_new:
  assumes "open_ok sts og" and "map_option fst og \<noteq> Some g" and "rule_parallel r = Some g"
    and "og = None \<longrightarrow> (sts \<noteq> [] \<longrightarrow> group_name (last sts) \<noteq> Some g)"
  shows "open_ok (fst (close_open og counts sts)) (Some (g, [task_of_rule i r]))"
  using assms by (cases og) (auto simp: open_ok_def close_open_def close_group_def Let_def)

lemma from_rules_loop_wf:
  assumes "loop_inv sts counts" and "open_ok sts og"
    and "og = None \<longrightarrow> sts = [] \<or> \<not> is_group (last sts)"
  shows "plan_wf \<lparr>stages = from_rules_loop i rs sts og counts\<rparr>"
  using assms
proof (induction rs arbitrary: i sts og counts)
  case Nil
  then show ?case
    using loop_inv_close_open [of sts counts og] by (auto intro: loop_inv_stages split: prod.splits)
next
  case (Cons r rs)
  obtain sts' counts' where co: "close_open og counts sts = (sts', counts')" by force
  have inv': "loop_inv sts' counts'"
    using loop_inv_close_open [OF Cons.prems(1,2)] co by simp
  show ?case
  proof (cases rule: loop_cases [where r = r and og = og])
    case serial
    have "plan_wf \<lparr>stages =
        from_rules_loop (i + 1) rs (sts' @ [Serial (task_of_rule i r)]) None counts'\<rparr>"
      using serial inv' by (intro Cons.IH loop_inv_serial) (auto simp: open_ok_def)
    then show ?thesis by (simp only: loop_serial [OF serial co])
  next
    case (same g ts)
    then have "open_ok sts (Some (g, ts @ [task_of_rule i r]))"
      using Cons.prems(2) by (auto simp: open_ok_def)
    then have "plan_wf \<lparr>stages =
        from_rules_loop (i + 1) rs sts (Some (g, ts @ [task_of_rule i r])) counts\<rparr>"
      using Cons.prems(1) by (intro Cons.IH) auto
    with same show ?thesis by (simp only: loop_same)
  next
    case (fresh g)
    have "group_name s \<noteq> Some g" if "\<not> is_group s" for s using that by (cases s) auto
    then have "open_ok sts' (Some (g, [task_of_rule i r]))"
      using open_ok_new [OF Cons.prems(2) fresh(2,1), of counts i] Cons.prems(3) co by auto
    then have "plan_wf \<lparr>stages =
        from_rules_loop (i + 1) rs sts' (Some (g, [task_of_rule i r])) counts'\<rparr>"
      using inv' by (intro Cons.IH) auto
    then show ?thesis by (simp only: loop_new [OF fresh co])
  qed
qed

text \<open>
  C7. The stages of a plan are the workflow's barriers: a serial stage holds one ungrouped task;
  a parallel stage is a non-empty group of tasks that declare that group and share one occurrence
  label; adjacent stages never belong to the same group (groups are maximal); and no two group
  occurrences share a label, so \<open>name#N\<close> identifies an occurrence within the plan.
\<close>

theorem from_rules_wf: "plan_wf (from_rules rs)"
  unfolding from_rules_def
  by (rule from_rules_loop_wf) (auto simp: loop_inv_def occurrences_def open_ok_def)

lemma subseq_keeps_distinct: "subseq xs ys \<Longrightarrow> distinct ys \<Longrightarrow> distinct xs"
proof (induction rule: list_emb.induct)
  case (list_emb_Cons2 x y xs ys)
  then show ?case using list_emb_set [of "(=)" xs ys x] by auto
qed auto

lemma filter_stage_occurrences:
  assumes "stage_wf s"
  shows "subseq (occurrences (filter_stage keep s)) (occurrences [s])"
    and "list_all stage_wf (filter_stage keep s)"
proof -
  have "subseq (occurrences (filter_stage keep s)) (occurrences [s]) \<and>
      list_all stage_wf (filter_stage keep s)"
  proof (cases s)
    case (Serial t)
    with assms show ?thesis by (simp add: occurrences_def)
  next
    case (Parallel g ts)
    let ?kept = "filter (\<lambda>t. keep (tp_rule t)) ts"
    show ?thesis
    proof (cases "?kept = []")
      case True
      with Parallel show ?thesis by (simp add: occurrences_def)
    next
      case False
      have same: "\<forall>t\<in>set ts. tp_parallel t = Some g \<and> tp_group_occurrence t = tp_group_occurrence (hd ts)"
        and some: "tp_group_occurrence (hd ts) \<noteq> None"
        using assms unfolding Parallel stage_wf.simps list_all_iff by blast+
      have "hd ?kept \<in> set ts" using hd_in_set [OF False] by (simp only: set_filter) blast
      with same have hd_eq: "tp_group_occurrence (hd ?kept) = tp_group_occurrence (hd ts)" by blast
      have "stage_wf (Parallel g ?kept)"
        unfolding stage_wf.simps hd_eq list_all_iff set_filter using False some same by blast
      moreover have "occurrences [Parallel g ?kept] = occurrences [Parallel g ts]"
        by (simp add: occurrences_def hd_eq)
      ultimately show ?thesis using Parallel False by (simp del: stage_wf.simps)
    qed
  qed
  then show "subseq (occurrences (filter_stage keep s)) (occurrences [s])"
    and "list_all stage_wf (filter_stage keep s)" by blast+
qed

lemma filter_plan_occurrences:
  assumes "list_all stage_wf sts"
  shows "subseq (occurrences (concat (map (filter_stage keep) sts))) (occurrences sts)"
    and "list_all stage_wf (concat (map (filter_stage keep) sts))"
proof -
  show "subseq (occurrences (concat (map (filter_stage keep) sts))) (occurrences sts)"
    using assms
  proof (induction sts)
    case Nil
    then show ?case by (simp add: occurrences_def)
  next
    case (Cons s sts)
    then have "subseq (occurrences (filter_stage keep s)) (occurrences [s])"
      by (intro filter_stage_occurrences) simp
    with Cons show ?case using occurrences_append [of "[s]" sts] by (simp add: list_emb_append_mono)
  qed
  show "list_all stage_wf (concat (map (filter_stage keep) sts))"
    using assms filter_stage_occurrences(2) by (induction sts) auto
qed

text \<open>
  Filtering never merges group occurrences: the labels of the filtered plan are a
  subsequence of the labels of the full plan, still pairwise distinct, and every remaining stage
  is still a serial task or one non-empty occurrence. Removing the serial task between two
  occurrences of one group keeps them apart.
\<close>

theorem filter_keeps_occurrences_apart:
  "subseq (occurrences (stages (filter_plan keep (from_rules rs)))) (occurrences (stages (from_rules rs)))
   \<and> distinct (occurrences (stages (filter_plan keep (from_rules rs))))
   \<and> list_all stage_wf (stages (filter_plan keep (from_rules rs)))"
proof -
  have wf: "list_all stage_wf (stages (from_rules rs))" "distinct (occurrences (stages (from_rules rs)))"
    using from_rules_loop_wf [of "[]" "\<lambda>_. 0" None 0 rs]
    by (auto simp: plan_wf_def from_rules_def loop_inv_def open_ok_def occurrences_def)
  from filter_plan_occurrences [OF wf(1), of keep] wf(2) show ?thesis
    by (auto simp: filter_plan_def dest: subseq_keeps_distinct)
qed

section \<open>The workspace boundary\<close>

lemma map_result_Inr: "map_result f xs = Inr ys \<longleftrightarrow> list_all2 (\<lambda>x y. f x = Inr y) xs ys"
proof (induction xs arbitrary: ys)
  case Nil
  then show ?case by auto
next
  case (Cons x xs)
  show ?case by (cases ys) (auto simp flip: Cons.IH split: sum.splits)
qed

lemma resolve_stage_Inr:
  assumes "resolve_stage fs root s = Inr s'"
  shows "list_all2 (\<lambda>t t'. resolve_task fs root t = Inr t') (stage_tasks s) (stage_tasks s')"
proof (cases s)
  case (Serial t)
  with assms show ?thesis by (cases "resolve_task fs root t") auto
next
  case (Parallel g ts)
  with assms show ?thesis by (cases "map_result (resolve_task fs root) ts") (auto simp: map_result_Inr)
qed

lemma resolve_context_tasks:
  assumes "resolve_context fs root p = Inr p'"
  shows "list_all2 (\<lambda>t t'. resolve_task fs root t = Inr t') (plan_tasks p) (plan_tasks p')"
proof -
  have "list_all2 (\<lambda>s s'. resolve_stage fs root s = Inr s') (stages p) (stages p')"
    using assms by (cases "map_result (resolve_stage fs root) (stages p)")
      (auto simp: resolve_context_def map_result_Inr)
  then have "list_all2 (\<lambda>t t'. resolve_task fs root t = Inr t')
      (tasks_of (stages p)) (tasks_of (stages p'))"
    by induction (auto intro!: list_all2_appendI dest: resolve_stage_Inr)
  then show ?thesis by (simp add: plan_tasks_def)
qed

lemma split_slash_append:
  "split_str [q] acc (a @ q # b) = split_str [q] acc a @ split_str [q] [] b"
  by (induction a arbitrary: acc) (auto simp: str_split_quote_Cons split_str_end)

lemma str_split_slash: "str_split [q] (a @ q # b) = str_split [q] a @ str_split [q] b"
  by (simp add: str_split_def split_slash_append)

definition path_body :: "string \<Rightarrow> path_component list" where
  "path_body p = concat (map component_of (str_split ''/'' p))"

lemma path_body_slash: "path_body (a @ CHR ''/'' # b) = path_body a @ path_body b"
  by (simp add: path_body_def str_split_slash)

lemma path_body_Nil [simp]: "path_body [] = []"
  by (simp add: path_body_def str_split_def split_str_end component_of_def)

lemma path_components_absolute: "absolute_like p \<Longrightarrow> path_components p = RootDir # path_body p"
  by (simp add: path_components_def path_body_def Let_def)

lemma absolute_like_append: "absolute_like a \<Longrightarrow> absolute_like (a @ b)"
  by (auto simp: absolute_like_def starts_with_iff)

lemma path_join_components:
  assumes "absolute_like root" and "\<not> absolute_like c"
  shows "path_components (path_join root c) = path_components root @ path_body c"
proof -
  have ne: "root \<noteq> []" using assms(1) by (auto simp: absolute_like_def starts_with_def)
  have abs: "absolute_like (path_join root c)"
    using assms absolute_like_append [of root] by (simp add: path_join_def)
  have "path_body (path_join root c) = path_body root @ path_body c"
  proof (cases "last root = CHR ''/''")
    case True
    then have "root = butlast root @ CHR ''/'' # []" using ne by (metis append_butlast_last_id)
    then obtain a where a: "root = a @ CHR ''/'' # []" by blast
    with assms(2) True show ?thesis
      using path_body_slash [of a "[]"] path_body_slash [of a c] by (simp add: path_join_def)
  next
    case False
    with ne assms(2) show ?thesis using path_body_slash [of root c] by (simp add: path_join_def)
  qed
  with abs assms(1) show ?thesis by (simp add: path_components_absolute)
qed

lemma path_body_no_parent:
  "\<not> absolute_like c \<Longrightarrow> ParentDir \<notin> set (path_components c) \<Longrightarrow> ParentDir \<notin> set (path_body c)"
  by (cases "str_split ''/'' c")
     (auto simp: path_components_def path_body_def component_of_def Let_def split: if_splits)

definition inside_workspace :: "file_system \<Rightarrow> string \<Rightarrow> task_plan \<Rightarrow> task_plan \<Rightarrow> bool" where
  "inside_workspace fs root t t' \<longleftrightarrow>
     (\<exists>cwd below. t' = t\<lparr>tp_context := (tp_context t)\<lparr>ctx_cwd := Some cwd\<rparr>\<rparr> \<and>
        path_components cwd = path_components root @ below \<and> ParentDir \<notin> set below \<and>
        (case ctx_cwd (tp_context t) of
           None \<Rightarrow> cwd = root
         | Some c \<Rightarrow> cwd = path_join root c \<and>
             (fs_exists fs cwd \<longrightarrow>
                (\<exists>cr cc. fs_canonicalize fs root = Inr cr \<and> fs_canonicalize fs cwd = Inr cc \<and>
                   path_starts_with cc cr))))"

lemma resolve_task_inside:
  assumes "absolute_like root" and "resolve_task fs root t = Inr t'"
  shows "inside_workspace fs root t t'"
proof (cases "ctx_cwd (tp_context t)")
  case None
  with assms(2) show ?thesis by (auto simp: resolve_task_def inside_workspace_def Let_def)
next
  case (Some c)
  with assms(2) have c: "\<not> absolute_like c" "ParentDir \<notin> set (path_components c)"
    by (auto simp: resolve_task_def Let_def split: if_splits)
  have "t' = t\<lparr>tp_context := (tp_context t)\<lparr>ctx_cwd := Some (path_join root c)\<rparr>\<rparr> \<and>
      (fs_exists fs (path_join root c) \<longrightarrow>
         (\<exists>cr cc. fs_canonicalize fs root = Inr cr \<and> fs_canonicalize fs (path_join root c) = Inr cc \<and>
            path_starts_with cc cr))"
    using assms(2) Some c by (auto simp: resolve_task_def Let_def split: if_splits sum.splits)
  with Some c path_join_components [OF assms(1) c(1)] path_body_no_parent [OF c]
  show ?thesis unfolding inside_workspace_def by auto
qed

text \<open>
  C8. Tasks cannot leave the workspace: when \<open>resolve_context\<close> succeeds for an absolute root,
  every task keeps everything but its directory, its directory is the root or the root extended
  by components none of which is \<open>..\<close>, and if that directory exists its canonical form (links
  followed) lies under the canonical root. An absolute directory, a \<open>..\<close> component or a link out
  of the workspace makes the whole resolution fail.
\<close>

theorem resolve_context_stays_inside:
  assumes "absolute_like root" and "resolve_context fs root p = Inr p'"
  shows "list_all2 (inside_workspace fs root) (plan_tasks p) (plan_tasks p')"
  using resolve_context_tasks [OF assms(2)] resolve_task_inside [OF assms(1)]
  by (auto elim: list_all2_mono)

definition demo_fs :: file_system where
  "demo_fs = \<lparr>fs_exists = (\<lambda>_. True), fs_canonicalize = Inr\<rparr>"

definition demo_rule :: rules where
  "demo_rule = with_execution_context (Some ''sub'') [] (rules_new ''t'' [''make''] [''src''] [] False)"

theorem resolve_context_stays_inside_witness:
  "\<exists>p'. resolve_context demo_fs ''/w'' (from_rules [demo_rule]) = Inr p' \<and>
        list_all2 (inside_workspace demo_fs ''/w'') (plan_tasks (from_rules [demo_rule])) (plan_tasks p')"
proof -
  have a: "absolute_like ''/w''" by code_simp
  have c: "ParentDir \<notin> set (path_components ''sub'')"
    "path_starts_with ''/w/sub'' ''/w''" "path_join ''/w'' ''sub'' = ''/w/sub''" "\<not> absolute_like ''sub''"
    by code_simp+
  obtain p' where p': "resolve_context demo_fs ''/w'' (from_rules [demo_rule]) = Inr p'"
    by (simp add: resolve_context_def from_rules_def from_rules_loop.simps close_open_def
        task_of_rule_def demo_rule_def with_execution_context_def rules_new_def resolve_task_def
        demo_fs_def c)
  with resolve_context_stays_inside [OF a p'] show ?thesis by blast
qed

section \<open>The execution signature identifies the plan\<close>

text \<open>What the signature is meant to identify of a task, a stage and a plan.\<close>

definition task_key where
  "task_key t = (tp_name t, tp_parallel t, tp_group_occurrence t, tp_commands t,
     tp_recovery_commands t, ctx_cwd (tp_context t), ctx_environment (tp_context t))"

fun stage_key where
  "stage_key (Serial t) = Inl (task_key t)"
| "stage_key (Parallel g ts) = Inr (g, map task_key ts)"

abbreviation str_fits :: "string \<Rightarrow> bool" where "str_fits s \<equiv> fits (length s)"

abbreviation seq_fits :: "('a \<Rightarrow> bool) \<Rightarrow> 'a list \<Rightarrow> bool" where
  "seq_fits ok xs \<equiv> fits (length xs) \<and> list_all ok xs"

definition task_fits :: "task_plan \<Rightarrow> bool" where
  "task_fits t \<longleftrightarrow> str_fits (tp_name t) \<and> pred_option str_fits (tp_parallel t) \<and>
     pred_option str_fits (tp_group_occurrence t) \<and> seq_fits command_fits (tp_commands t) \<and>
     pred_option (seq_fits command_fits) (tp_recovery_commands t) \<and>
     pred_option str_fits (ctx_cwd (tp_context t)) \<and>
     seq_fits (\<lambda>p. str_fits (fst p) \<and> str_fits (snd p)) (ctx_environment (tp_context t))"

fun stage_fits :: "stage \<Rightarrow> bool" where
  "stage_fits (Serial t) = task_fits t"
| "stage_fits (Parallel g ts) = (str_fits g \<and> seq_fits task_fits ts)"

lemmas str_ax = string_enc.canonical_encoding_axioms
lemmas cmds_ax = canonical_seq [OF command_enc.canonical_encoding_axioms]

lemma enc_task_fields:
  "enc_task t =
     enc_both enc_string (enc_both enc_optional_string (enc_both enc_optional_string
       (enc_both (enc_seq enc_command) (enc_both (enc_option (enc_seq enc_command))
         (enc_both (enc_option enc_string) (enc_seq (enc_both enc_string enc_string)))))))
       (task_key t)"
  by (simp add: enc_task_def task_key_def enc_both_def)

interpretation task_enc: canonical_encoding enc_task task_fits task_key
proof (rule canonical_encodingI)
  fix t u r s
  assume "task_fits t" "task_fits u" "enc_task t @ r = enc_task u @ s"
  then show "task_key t = task_key u \<and> r = s"
    using canonical_encoding.unique [OF canonical_map [OF canonical_both [OF str_ax
      canonical_both [OF optional_string_enc.canonical_encoding_axioms
      canonical_both [OF optional_string_enc.canonical_encoding_axioms
      canonical_both [OF cmds_ax canonical_both [OF canonical_option [OF cmds_ax]
      canonical_both [OF canonical_option [OF str_ax]
        canonical_seq [OF canonical_both [OF str_ax str_ax]]]]]]]], of task_key], of t u r s]
    unfolding enc_task_fields task_fits_def
    by (simp add: task_key_def option.map_id0 option.map_id list.map_id0)
qed

interpretation stage_enc: canonical_encoding enc_stage stage_fits stage_key
proof (rule canonical_encodingI)
  fix x y r s
  assume ok: "stage_fits x" "stage_fits y" and eq: "enc_stage x @ r = enc_stage y @ s"
  show "stage_key x = stage_key y \<and> r = s"
  proof (cases x)
    case (Serial t)
    with eq obtain u where "y = Serial u" by (cases y) simp_all
    with Serial ok eq task_enc.unique [of t u r s] show ?thesis by simp
  next
    case (Parallel g ts)
    with eq obtain h us where y: "y = Parallel h us" by (cases y) simp_all
    with Parallel eq have "enc_string g @ (enc_seq enc_task ts @ r) = enc_string h @ (enc_seq enc_task us @ s)"
      by simp
    with ok Parallel y have "g = h" "enc_seq enc_task ts @ r = enc_seq enc_task us @ s"
      using enc_string_unique by auto
    with ok Parallel y show ?thesis
      using canonical_encoding.unique
        [OF canonical_seq [OF task_enc.canonical_encoding_axioms], of ts us r s] by simp
  qed
qed

definition collision :: "(bytes \<Rightarrow> bytes) \<Rightarrow> bytes \<Rightarrow> bytes \<Rightarrow> bool" where
  "collision sha x y \<longleftrightarrow> x \<noteq> y \<and> sha x = sha y"

definition plan_fits :: "run_plan \<Rightarrow> nat \<Rightarrow> bool" where
  "plan_fits p jobs \<longleftrightarrow> fits jobs \<and> seq_fits stage_fits (stages p)"

lemma signature_bytes_inject:
  assumes "plan_fits p jobs" and "plan_fits q jobs'" and "fits v" and "fits v'"
    and "signature_bytes p jobs ff v = signature_bytes q jobs' ff' v'"
  shows "v = v' \<and> jobs = jobs' \<and> ff = ff' \<and> map stage_key (stages p) = map stage_key (stages q)"
proof -
  let ?P = "enc_seq enc_stage (stages p)" and ?Q = "enc_seq enc_stage (stages q)"
  have 1: "v = v'" "enc_u64 jobs @ enc_bool ff @ ?P = enc_u64 jobs' @ enc_bool ff' @ ?Q"
    using enc_u64_unique [OF assms(3,4)] assms(5) by (simp_all only: signature_bytes_def)
  have 2: "jobs = jobs'" "enc_bool ff @ ?P = enc_bool ff' @ ?Q"
    using enc_u64_unique [OF _ _ 1(2)] assms(1,2) unfolding plan_fits_def by blast+
  have 3: "ff = ff'" "?P = ?Q" using bool_enc.unique [OF TrueI TrueI 2(2)] by simp_all
  with assms have "map stage_key (stages p) = map stage_key (stages q)"
    using canonical_encoding.injective
      [OF canonical_seq [OF stage_enc.canonical_encoding_axioms], of "stages p" "stages q"]
    by (simp add: plan_fits_def)
  with 1 2 3 show ?thesis by simp
qed



end
