(* ===== verification/Config_Revision.thy ===== *)
theory Config_Revision
  imports Plan_Model "HOL-Library.Multiset"
begin

text \<open>
  Immutable runtime configurations and their revisions, \<open>src/src/config_revision.rs\<close>: the frozen
  effective configuration, its semantic hash, the signature of a managed service, and the
  tracker that numbers revisions.

  SHA-256 is the parameter \<open>sha\<close>. The derived \<open>Debug\<close> renderings of the two hook structures,
  which the compiler generates, are the parameters \<open>hooks_debug\<close> and \<open>session_debug\<close>; they are
  bundled with \<open>sha\<close> in the record \<open>hash_env\<close>. A \<open>Duration\<close> is a number of nanoseconds.
\<close>

section \<open>Data\<close>

type_synonym duration = nat

definition as_millis :: "duration \<Rightarrow> nat" where
  "as_millis d = d div 1000000"

datatype watch_backend = Native | Poll duration | Auto

datatype recovery_policy = Prompt | Skip

record generation_hooks =
  hook_success :: "string option"
  hook_failure :: "string option"

record session_hooks =
  hook_close :: "string option"

record config_revision =
  rev_number :: nat
  rev_hash :: string

record runtime_config =
  rc_root :: string
  rc_rules :: "rules list"
  rc_concurrency :: nat
  rc_debounce :: duration
  rc_backend :: watch_backend
  rc_respect_gitignore :: bool
  rc_recovery_policy :: recovery_policy
  rc_hooks :: generation_hooks
  rc_session_hooks :: session_hooks
  rc_control_socket :: "string option"

record hash_env =
  sha :: "bytes \<Rightarrow> bytes"
  hooks_debug :: "generation_hooks \<Rightarrow> string"
  session_debug :: "session_hooks \<Rightarrow> string"

section \<open>Operations\<close>

definition capture ::
  "string \<Rightarrow> rules list \<Rightarrow> nat \<Rightarrow> duration \<Rightarrow> watch_backend \<Rightarrow> bool \<Rightarrow> recovery_policy
   \<Rightarrow> generation_hooks \<Rightarrow> session_hooks \<Rightarrow> string option \<Rightarrow> runtime_config" where
  "capture root rs concurrency debounce backend respect_gitignore policy hooks session_hooks socket =
     \<lparr>rc_root = root, rc_rules = rs, rc_concurrency = concurrency, rc_debounce = debounce,
      rc_backend = backend, rc_respect_gitignore = respect_gitignore, rc_recovery_policy = policy,
      rc_hooks = hooks, rc_session_hooks = session_hooks, rc_control_socket = socket\<rparr>"

definition runtime_plan :: "runtime_config \<Rightarrow> run_plan" where
  "runtime_plan c = from_rules (rc_rules c)"

definition REVISION_SCHEMA_VERSION :: nat where
  "REVISION_SCHEMA_VERSION = 2"

fun output_policy_tag :: "output_policy \<Rightarrow> string" where
  "output_policy_tag Inherit = ''inherit''"
| "output_policy_tag Quiet = ''quiet''"
| "output_policy_tag Capture = ''capture''"
| "output_policy_tag ShowOnFailure = ''show_on_failure''"

fun backend_tag :: "watch_backend \<Rightarrow> string" where
  "backend_tag Native = ''native''"
| "backend_tag (Poll interval) = ''poll:'' @ show_nat (as_millis interval)"
| "backend_tag Auto = ''auto''"

fun recovery_tag :: "recovery_policy \<Rightarrow> string" where
  "recovery_tag Prompt = ''prompt''"
| "recovery_tag Skip = ''skip''"

definition hooks_tag :: "hash_env \<Rightarrow> generation_hooks \<Rightarrow> string" where
  "hooks_tag h hooks = hooks_debug h hooks"

text \<open>\<open>encode_rule\<close>: the patterns and the commands are sorted before they are encoded; of the
  environment only the keys are encoded.\<close>

definition encode_rule :: "rules \<Rightarrow> bytes" where
  "encode_rule r =
     enc_string (rule_name r)
     @ enc_bool (rule_run_on_init r)
     @ enc_optional_string (rule_parallel r)
     @ enc_bool (rule_service r)
     @ enc_string (output_policy_tag (rule_output r))
     @ enc_optional_string (rule_cwd r)
     @ enc_seq enc_string (sort (rule_watch_patterns r))
     @ enc_seq enc_string (sort (rule_ignore_patterns r))
     @ enc_seq enc_string (sort (commands_of r))
     @ enc_option (enc_seq enc_string) (rule_recovery r)
     @ enc_seq enc_string (map fst (rule_environment r))"

definition semantic_bytes :: "hash_env \<Rightarrow> runtime_config \<Rightarrow> bytes" where
  "semantic_bytes h c =
     enc_u64 REVISION_SCHEMA_VERSION
     @ enc_string (rc_root c)
     @ enc_u64 (rc_concurrency c)
     @ enc_u64 (as_millis (rc_debounce c))
     @ enc_string (backend_tag (rc_backend c))
     @ enc_bool (rc_respect_gitignore c)
     @ enc_string (recovery_tag (rc_recovery_policy c))
     @ enc_string (hooks_tag h (rc_hooks c))
     @ enc_string (session_debug h (rc_session_hooks c))
     @ enc_optional_string (rc_control_socket c)
     @ enc_seq encode_rule (rc_rules c)"

definition semantic_hash :: "hash_env \<Rightarrow> runtime_config \<Rightarrow> string" where
  "semantic_hash h c = hex (sha h (semantic_bytes h c))"

definition service_signature :: "hash_env \<Rightarrow> rules \<Rightarrow> string" where
  "service_signature h r =
     hex (sha h
       (enc_u64 REVISION_SCHEMA_VERSION
        @ enc_bool True
        @ enc_string (rule_name r)
        @ enc_bool (rule_service r)
        @ enc_string (output_policy_tag (rule_output r))
        @ enc_optional_string (rule_cwd r)
        @ enc_seq enc_string (sort (commands_of r))
        @ enc_seq enc_string (sort (map fst (rule_environment r)))))"

definition services :: "hash_env \<Rightarrow> runtime_config \<Rightarrow> (string \<times> string) list" where
  "services h c =
     map (\<lambda>r. (rule_name r, service_signature h r)) (filter rule_service (rc_rules c))"

text \<open>The tracker is its current revision.\<close>

type_synonym revision_tracker = "config_revision option"

datatype revision_decision = New config_revision | RevNoOp

definition tracker_new :: revision_tracker where
  "tracker_new = None"

definition tracker_seed :: "config_revision \<Rightarrow> revision_tracker \<Rightarrow> revision_tracker" where
  "tracker_seed revision t = Some revision"

definition tracker_observe ::
  "hash_env \<Rightarrow> revision_tracker \<Rightarrow> runtime_config \<Rightarrow> revision_decision \<times> revision_tracker" where
  "tracker_observe h t c =
     (let hash = semantic_hash h c in
      if (case t of Some current \<Rightarrow> rev_hash current = hash | None \<Rightarrow> False) then (RevNoOp, t)
      else
        (let number = (case t of Some current \<Rightarrow> rev_number current | None \<Rightarrow> 0) + 1;
             revision = \<lparr>rev_number = number, rev_hash = hash\<rparr>
         in (New revision, Some revision)))"

section \<open>Revision numbers count semantic changes\<close>

definition observe_all :: "hash_env \<Rightarrow> runtime_config list \<Rightarrow> revision_tracker" where
  "observe_all h cs = fold (\<lambda>c t. snd (tracker_observe h t c)) cs tracker_new"

lemma observe_all_snoc: "observe_all h (cs @ [c]) = snd (tracker_observe h (observe_all h cs) c)"
  by (simp add: observe_all_def)

lemma observe_all_revision:
  "observe_all h (cs @ [c]) =
     Some \<lparr>rev_number = length (remdups_adj (map (semantic_hash h) (cs @ [c]))),
           rev_hash = semantic_hash h c\<rparr>"
proof (induction cs arbitrary: c rule: rev_induct)
  case Nil
  show ?case by (simp add: observe_all_def tracker_observe_def tracker_new_def Let_def)
next
  case (snoc d cs)
  have "remdups_adj (map (semantic_hash h) (cs @ [d, c])) =
      remdups_adj (map (semantic_hash h) (cs @ [d])) @
      (if semantic_hash h d = semantic_hash h c then [] else [semantic_hash h c])"
    by (simp add: remdups_adj_append_two)
  with snoc [of d] show ?case
    using observe_all_snoc [of h "cs @ [d]" c] by (simp add: tracker_observe_def Let_def)
qed

text \<open>
  Revisions number the semantic changes: after any sequence of observed configurations the
  live revision carries the hash of the last one, and its number is the number of maximal runs of
  equal hashes in the sequence. So the first configuration is revision 1, an identical one never
  advances the number, a different one advances it by exactly one, and numbers are never reused.
\<close>

theorem revision_numbers_count_changes:
  assumes "cs \<noteq> []"
  shows "observe_all h cs =
    Some \<lparr>rev_number = length (remdups_adj (map (semantic_hash h) cs)),
          rev_hash = semantic_hash h (last cs)\<rparr>"
  using observe_all_revision [of h "butlast cs" "last cs"] assms by simp

definition demo_env :: hash_env where
  "demo_env = \<lparr>sha = id, hooks_debug = (\<lambda>k. case hook_success k of None \<Rightarrow> [] | Some s \<Rightarrow> s),
               session_debug = (\<lambda>_. [])\<rparr>"

definition demo_config :: "string list \<Rightarrow> runtime_config" where
  "demo_config commands =
     capture ''/w'' [rules_new ''t'' commands [''src''] [] False] 1 0 Native False Prompt
       \<lparr>hook_success = None, hook_failure = None\<rparr> \<lparr>hook_close = None\<rparr> None"

theorem revision_numbers_count_changes_witness:
  "map_option rev_number (observe_all demo_env [demo_config [''a''], demo_config [''a'']]) = Some 1"
proof -
  have "[demo_config [''a''], demo_config [''a'']] \<noteq> []" by simp
  from revision_numbers_count_changes [OF this, of demo_env] show ?thesis by simp
qed

section \<open>What the hash distinguishes, and what it does not\<close>

definition rule_key where
  "rule_key r = (rule_name r, rule_run_on_init r, rule_parallel r, rule_service r,
     output_policy_tag (rule_output r), rule_cwd r, sort (rule_watch_patterns r),
     sort (rule_ignore_patterns r), sort (commands_of r), rule_recovery r,
     map fst (rule_environment r))"

lemma encode_rule_key_only: "rule_key r = rule_key r' \<Longrightarrow> encode_rule r = encode_rule r'"
  by (simp add: rule_key_def encode_rule_def)

text \<open>
  The hash is free of secrets: two configurations that differ only in the values of declared
  environment variables have the same hash, whatever the hash function is.
\<close>

definition same_but_env_values :: "rules \<Rightarrow> rules \<Rightarrow> bool" where
  "same_but_env_values r r' \<longleftrightarrow>
     (\<exists>env. r' = r\<lparr>rule_environment := env\<rparr> \<and> map fst env = map fst (rule_environment r))"

theorem semantic_hash_ignores_env_values:
  assumes "list_all2 same_but_env_values (rc_rules c) rs'"
  shows "semantic_hash h (c\<lparr>rc_rules := rs'\<rparr>) = semantic_hash h c"
proof -
  have "encode_rule r = encode_rule r'" if "same_but_env_values r r'" for r r'
    using that by (auto simp: same_but_env_values_def encode_rule_def commands_of_def split: option.split)
  with assms have "map encode_rule (rc_rules c) = map encode_rule rs'"
    by (auto simp: list_all2_conv_all_nth intro!: nth_equalityI)
  moreover have "length rs' = length (rc_rules c)" using assms by (auto dest: list_all2_lengthD)
  ultimately show ?thesis by (simp add: semantic_hash_def semantic_bytes_def enc_seq_def)
qed

definition secret_config :: "string \<Rightarrow> runtime_config" where
  "secret_config v = (demo_config [''a''])\<lparr>rc_rules :=
     [with_execution_context None [(''TOKEN'', v)] (rules_new ''t'' [''a''] [''src''] [] False)]\<rparr>"

theorem semantic_hash_ignores_env_values_witness:
  "semantic_hash demo_env (secret_config ''hunter2'') = semantic_hash demo_env (secret_config ''x'')"
proof -
  have rel: "list_all2 same_but_env_values (rc_rules (secret_config ''x'')) (rc_rules (secret_config ''hunter2''))"
    by (auto simp: secret_config_def same_but_env_values_def with_execution_context_def rules_new_def)
  have "(secret_config ''x'')\<lparr>rc_rules := rc_rules (secret_config ''hunter2'')\<rparr> = secret_config ''hunter2''"
    by (simp add: secret_config_def)
  with semantic_hash_ignores_env_values [OF rel, of demo_env] show ?thesis by simp
qed

text \<open>
  A reordering of a job's commands is not seen as a change: the commands of a rule are sorted
  before they are hashed, so a tracker that has just accepted a configuration answers "no-op" for
  the configuration in which one job runs the same commands in another order, although the
  execution plan differs.
\<close>

theorem reordered_commands_are_noop:
  assumes rs: "rc_rules c = pre @ r # post" and argv: "rule_argv r = None"
    and perm: "mset cs = mset (rule_commands r)"
  shows "fst (tracker_observe h (snd (tracker_observe h t c))
           (c\<lparr>rc_rules := pre @ r\<lparr>rule_commands := cs\<rparr> # post\<rparr>)) = RevNoOp"
proof -
  have "sort cs = sort (rule_commands r)"
    using perm by (metis mset_sort sorted_sort sorted_list_of_multiset_mset)
  then have "encode_rule (r\<lparr>rule_commands := cs\<rparr>) = encode_rule r"
    using argv by (simp add: encode_rule_def commands_of_def)
  then have "semantic_hash h (c\<lparr>rc_rules := pre @ r\<lparr>rule_commands := cs\<rparr> # post\<rparr>) = semantic_hash h c"
    using rs by (simp add: semantic_hash_def semantic_bytes_def enc_seq_def)
  then show ?thesis
    by (simp add: tracker_observe_def Let_def split: if_splits option.splits)
qed

theorem reordered_commands_are_noop_witness:
  "fst (tracker_observe demo_env (snd (tracker_observe demo_env None (demo_config [''rm x'', ''cp y x''])))
     ((demo_config [''rm x'', ''cp y x''])\<lparr>rc_rules :=
        [rules_new ''t'' [''cp y x'', ''rm x''] [''src''] [] False]\<rparr>)) = RevNoOp \<and>
   runtime_plan (demo_config [''rm x'', ''cp y x'']) \<noteq>
   runtime_plan ((demo_config [''rm x'', ''cp y x''])\<lparr>rc_rules :=
        [rules_new ''t'' [''cp y x'', ''rm x''] [''src''] [] False]\<rparr>)"
proof
  let ?r = "rules_new ''t'' [''rm x'', ''cp y x''] [''src''] [] False"
  have "rc_rules (demo_config [''rm x'', ''cp y x'']) = [] @ ?r # []"
    "rule_argv ?r = None" "mset [''cp y x'', ''rm x''] = mset (rule_commands ?r)"
    by (simp_all add: demo_config_def capture_def rules_new_def)
  from reordered_commands_are_noop [OF this, of demo_env None]
  show "fst (tracker_observe demo_env (snd (tracker_observe demo_env None (demo_config [''rm x'', ''cp y x''])))
     ((demo_config [''rm x'', ''cp y x''])\<lparr>rc_rules :=
        [rules_new ''t'' [''cp y x'', ''rm x''] [''src''] [] False]\<rparr>)) = RevNoOp"
    by (simp add: rules_new_def)
  show "runtime_plan (demo_config [''rm x'', ''cp y x'']) \<noteq>
   runtime_plan ((demo_config [''rm x'', ''cp y x''])\<lparr>rc_rules :=
        [rules_new ''t'' [''cp y x'', ''rm x''] [''src''] [] False]\<rparr>)"
    by (simp add: runtime_plan_def from_rules_def from_rules_loop.simps demo_config_def capture_def
        rules_new_def close_open_def task_of_rule_def command_lines_def)
qed

text \<open>Everything else the rules declare does enter the hash.\<close>

definition config_key where
  "config_key h c = (rc_root c, rc_concurrency c, as_millis (rc_debounce c),
     backend_tag (rc_backend c), rc_respect_gitignore c, recovery_tag (rc_recovery_policy c),
     hooks_tag h (rc_hooks c), session_debug h (rc_session_hooks c), rc_control_socket c,
     map rule_key (rc_rules c))"

definition rule_fits :: "rules \<Rightarrow> bool" where
  "rule_fits r \<longleftrightarrow> str_fits (rule_name r) \<and> pred_option str_fits (rule_parallel r) \<and>
     pred_option str_fits (rule_cwd r) \<and> seq_fits str_fits (rule_watch_patterns r) \<and>
     seq_fits str_fits (rule_ignore_patterns r) \<and> seq_fits str_fits (commands_of r) \<and>
     pred_option (seq_fits str_fits) (rule_recovery r) \<and>
     seq_fits str_fits (map fst (rule_environment r))"

definition config_fits :: "hash_env \<Rightarrow> runtime_config \<Rightarrow> bool" where
  "config_fits h c \<longleftrightarrow> str_fits (rc_root c) \<and> fits (rc_concurrency c) \<and>
     fits (as_millis (rc_debounce c)) \<and> str_fits (backend_tag (rc_backend c)) \<and>
     str_fits (hooks_tag h (rc_hooks c)) \<and> str_fits (session_debug h (rc_session_hooks c)) \<and>
     pred_option str_fits (rc_control_socket c) \<and> seq_fits rule_fits (rc_rules c)"

lemmas bool_ax = bool_enc.canonical_encoding_axioms
lemmas opt_ax = optional_string_enc.canonical_encoding_axioms
lemmas u64_ax = u64_enc.canonical_encoding_axioms
lemmas strs_ax = canonical_seq [OF str_ax]

lemma encode_rule_fields:
  "encode_rule r =
     enc_both enc_string (enc_both enc_bool (enc_both enc_optional_string (enc_both enc_bool
       (enc_both enc_string (enc_both enc_optional_string (enc_both (enc_seq enc_string)
         (enc_both (enc_seq enc_string) (enc_both (enc_seq enc_string)
           (enc_both (enc_option (enc_seq enc_string)) (enc_seq enc_string))))))))))
       (rule_key r)"
  by (simp add: encode_rule_def rule_key_def enc_both_def)

lemma list_all_sort [simp]: "list_all P (sort xs) \<longleftrightarrow> list_all P xs"
  by (simp add: list_all_iff)

lemma tag_fits [simp]:
  "str_fits (output_policy_tag p)" "str_fits (recovery_tag q)"
  by (cases p; simp add: fits_def) (cases q; simp add: fits_def)

interpretation rule_enc: canonical_encoding encode_rule rule_fits rule_key
proof (rule canonical_encodingI)
  fix a b r s
  assume "rule_fits a" "rule_fits b" "encode_rule a @ r = encode_rule b @ s"
  then show "rule_key a = rule_key b \<and> r = s"
    using canonical_encoding.unique [OF canonical_map [OF canonical_both [OF str_ax
      canonical_both [OF bool_ax canonical_both [OF opt_ax canonical_both [OF bool_ax
      canonical_both [OF str_ax canonical_both [OF opt_ax canonical_both [OF strs_ax
      canonical_both [OF strs_ax canonical_both [OF strs_ax
      canonical_both [OF canonical_option [OF strs_ax] strs_ax]]]]]]]]]], of rule_key], of a b r s]
    unfolding encode_rule_fields rule_fits_def
    by (simp add: rule_key_def option.map_id0 option.map_id list.map_id0)
qed

lemma semantic_bytes_fields:
  "semantic_bytes h c =
     enc_both enc_u64 (enc_both enc_string (enc_both enc_u64 (enc_both enc_u64 (enc_both enc_string
       (enc_both enc_bool (enc_both enc_string (enc_both enc_string (enc_both enc_string
         (enc_both enc_optional_string (enc_seq encode_rule))))))))))
       (REVISION_SCHEMA_VERSION, rc_root c, rc_concurrency c, as_millis (rc_debounce c),
        backend_tag (rc_backend c), rc_respect_gitignore c, recovery_tag (rc_recovery_policy c),
        hooks_tag h (rc_hooks c), session_debug h (rc_session_hooks c), rc_control_socket c, rc_rules c)"
  by (simp add: semantic_bytes_def enc_both_def)

lemma semantic_bytes_inject:
  assumes "config_fits h c" and "config_fits h d" and "semantic_bytes h c = semantic_bytes h d"
  shows "config_key h c = config_key h d"
proof -
  have "fits REVISION_SCHEMA_VERSION" by (simp add: fits_def REVISION_SCHEMA_VERSION_def)
  with assms show ?thesis
    using canonical_encoding.injective [OF canonical_both [OF u64_ax
      canonical_both [OF str_ax canonical_both [OF u64_ax canonical_both [OF u64_ax
      canonical_both [OF str_ax canonical_both [OF bool_ax canonical_both [OF str_ax
      canonical_both [OF str_ax canonical_both [OF str_ax canonical_both [OF opt_ax
      canonical_seq [OF rule_enc.canonical_encoding_axioms]]]]]]]]]]],
      of "(REVISION_SCHEMA_VERSION, rc_root c, rc_concurrency c, as_millis (rc_debounce c),
        backend_tag (rc_backend c), rc_respect_gitignore c, recovery_tag (rc_recovery_policy c),
        hooks_tag h (rc_hooks c), session_debug h (rc_session_hooks c), rc_control_socket c, rc_rules c)"
        "(REVISION_SCHEMA_VERSION, rc_root d, rc_concurrency d, as_millis (rc_debounce d),
        backend_tag (rc_backend d), rc_respect_gitignore d, recovery_tag (rc_recovery_policy d),
        hooks_tag h (rc_hooks d), session_debug h (rc_session_hooks d), rc_control_socket d, rc_rules d)"]
    unfolding semantic_bytes_fields config_fits_def
    by (simp add: config_key_def option.map_id)
qed

lemma equal_hash_or_collision:
  assumes "config_fits h c" and "config_fits h d" and "semantic_hash h c = semantic_hash h d"
  shows "config_key h c = config_key h d \<or> collision (sha h) (semantic_bytes h c) (semantic_bytes h d)"
proof -
  have "sha h (semantic_bytes h c) = sha h (semantic_bytes h d)"
    using assms(3) by (auto simp: semantic_hash_def dest: hex_inject)
  with semantic_bytes_inject [OF assms(1,2)] show ?thesis by (auto simp: collision_def)
qed

text \<open>
  Apart from environment values and the order of patterns and commands, the hash sees
  everything: two configurations with the same hash agree on root, concurrency, debounce and
  polling interval in milliseconds, backend, gitignore and recovery policy, hooks, control socket
  and, rule by rule, on name, init flag, group, service flag, output policy, directory, the
  multisets of patterns and commands, the recovery commands in order and the environment keys;
  otherwise their encodings are a SHA-256 collision.
\<close>

theorem semantic_hash_identifies_config:
  assumes "config_fits h c" and "config_fits h d" and "semantic_hash h c = semantic_hash h d"
  shows "config_key h c = config_key h d \<or> collision (sha h) (semantic_bytes h c) (semantic_bytes h d)"
  using assms by (rule equal_hash_or_collision)

theorem semantic_hash_identifies_config_witness:
  "\<forall>k. semantic_hash demo_env (demo_config [''a'']) =
       semantic_hash demo_env ((demo_config [''a''])\<lparr>rc_respect_gitignore := k\<rparr>) = (\<not> k)"
proof
  fix k
  have small: "fits n" if "n < 10" for n using that by (simp add: fits_def)
  have fits: "config_fits demo_env ((demo_config [''a''])\<lparr>rc_respect_gitignore := b\<rparr>)" for b
    by (simp add: config_fits_def demo_config_def capture_def demo_env_def hooks_tag_def rules_new_def
        rule_fits_def commands_of_def as_millis_def small)
  let ?d = "(demo_config [''a''])\<lparr>rc_respect_gitignore := k\<rparr>"
  have same: "(demo_config [''a''])\<lparr>rc_respect_gitignore := False\<rparr> = demo_config [''a'']"
    by (simp add: demo_config_def capture_def)
  have "\<not> k" if "semantic_hash demo_env (demo_config [''a'']) = semantic_hash demo_env ?d"
    using semantic_hash_identifies_config [OF _ fits that] fits [of False] that
    by (auto simp: same collision_def config_key_def demo_env_def demo_config_def capture_def)
  then show "(semantic_hash demo_env (demo_config [''a'']) = semantic_hash demo_env ?d) = (\<not> k)"
    using same by (cases k) auto
qed

end
