(* ===== verification/Execution_Events.thy ===== *)
theory Execution_Events
  imports Config_Revision
begin

text \<open>
  The vocabulary the executor, the scheduler and the observers share, from the first part of
  \<open>src/src/executor.rs\<close>: task snapshots, run metadata, recovery requests and decisions, and the
  lifecycle events of a generation.

  A generation identity (\<open>run_id\<close>) is a natural number: the source allocates it from a 64 bit
  counter that starts at zero and only grows by one per generation.
\<close>

section \<open>Task snapshots\<close>

datatype task_state = TS_Passed | TS_Failed | TS_Cancelled

record task_snapshot =
  ts_position :: nat
  ts_id :: string
  ts_name :: string
  ts_state :: task_state
  ts_duration_ms :: "nat option"

text \<open>\<open>as_millis() as u64\<close>: the milliseconds of a duration, cut to 64 bits.\<close>

definition millis_u64 :: "duration \<Rightarrow> nat" where
  "millis_u64 d = as_millis d mod 2 ^ 64"

section \<open>Recovery vocabulary\<close>

record recovery_request =
  rr_generation :: nat
  rr_revision :: "nat option"
  rr_job_position :: nat
  rr_job :: string
  rr_commands :: "string list"

datatype approval_decision = Approved | Declined | NoTty | Eof | InvalidAnswer | ApprovalCancelled

section \<open>Lifecycle events\<close>

record started_event =
  st_run_id :: nat
  st_trigger :: string
  st_batch :: "nat option"
  st_predecessor :: "nat option"
  st_changed :: "string list"
  st_commands :: "string list"
  st_target :: "string option"
  st_execution_signature :: "string option"
  st_effective_concurrency :: "nat option"
  st_concurrency_source :: "string option"
  st_revision :: "nat option"
  st_revision_hash :: "string option"

text \<open>
  \<open>EvFinished run_id superseded_by elapsed failures\<close>, \<open>EvCancelled run_id superseded_by\<close>,
  \<open>EvTick task group_occurrence\<close>, \<open>EvTaskTerminal run_id task\<close>,
  \<open>EvRecoveryPhase run_id job phase outcome\<close>.
\<close>

datatype event =
    EvStarted started_event
  | EvFinished nat "nat option" duration "string list"
  | EvCancelled nat "nat option"
  | EvTick string "string option"
  | EvTaskTerminal nat task_snapshot
  | EvRecoveryPhase nat string string "string option"

text \<open>The generations an event names.\<close>

fun event_generations :: "event \<Rightarrow> nat list" where
  "event_generations (EvStarted st) = [st_run_id st]"
| "event_generations (EvFinished r s d fs) = r # (case s of None \<Rightarrow> [] | Some g \<Rightarrow> [g])"
| "event_generations (EvCancelled r s) = r # (case s of None \<Rightarrow> [] | Some g \<Rightarrow> [g])"
| "event_generations _ = []"

fun is_started :: "event \<Rightarrow> bool" where
  "is_started (EvStarted st) = True"
| "is_started _ = False"

section \<open>Run metadata\<close>

record run_metadata =
  md_run_id :: nat
  md_trigger :: string
  md_batch :: "nat option"
  md_predecessor :: "nat option"
  md_superseded_by :: "nat option"
  md_changed :: "string list"
  md_target :: "string option"
  md_execution_signature :: "string option"
  md_effective_concurrency :: "nat option"
  md_concurrency_source :: "string option"
  md_hooks :: generation_hooks
  md_recovery_policy :: recovery_policy
  md_revision :: "nat option"
  md_revision_hash :: "string option"

definition no_hooks :: generation_hooks where
  "no_hooks = \<lparr>hook_success = None, hook_failure = None\<rparr>"

definition metadata_new :: "nat \<Rightarrow> string \<Rightarrow> run_metadata" where
  "metadata_new run_id trigger =
     \<lparr>md_run_id = run_id, md_trigger = trigger, md_batch = None, md_predecessor = None,
      md_superseded_by = None, md_changed = [], md_target = None, md_execution_signature = None,
      md_effective_concurrency = None, md_concurrency_source = None, md_hooks = no_hooks,
      md_recovery_policy = Prompt, md_revision = None, md_revision_hash = None\<rparr>"

definition correlated ::
  "nat \<Rightarrow> string \<Rightarrow> nat option \<Rightarrow> nat option \<Rightarrow> string list \<Rightarrow> run_metadata" where
  "correlated run_id trigger batch predecessor changed =
     \<lparr>md_run_id = run_id, md_trigger = trigger, md_batch = batch, md_predecessor = predecessor,
      md_superseded_by = None, md_changed = changed, md_target = None,
      md_execution_signature = None, md_effective_concurrency = None,
      md_concurrency_source = None, md_hooks = no_hooks, md_recovery_policy = Prompt,
      md_revision = None, md_revision_hash = None\<rparr>"

definition with_duration_profile ::
  "string option \<Rightarrow> string option \<Rightarrow> run_metadata \<Rightarrow> run_metadata" where
  "with_duration_profile target signature m =
     m\<lparr>md_target := target, md_execution_signature := signature\<rparr>"

definition with_effective_concurrency :: "nat option \<Rightarrow> run_metadata \<Rightarrow> run_metadata" where
  "with_effective_concurrency n m = m\<lparr>md_effective_concurrency := n\<rparr>"

definition with_concurrency_source :: "string option \<Rightarrow> run_metadata \<Rightarrow> run_metadata" where
  "with_concurrency_source s m = m\<lparr>md_concurrency_source := s\<rparr>"

definition with_hooks :: "generation_hooks \<Rightarrow> run_metadata \<Rightarrow> run_metadata" where
  "with_hooks hooks m = m\<lparr>md_hooks := hooks\<rparr>"

definition with_recovery_policy :: "recovery_policy \<Rightarrow> run_metadata \<Rightarrow> run_metadata" where
  "with_recovery_policy policy m = m\<lparr>md_recovery_policy := policy\<rparr>"

definition with_revision :: "nat \<Rightarrow> string \<Rightarrow> run_metadata \<Rightarrow> run_metadata" where
  "with_revision revision hash m =
     m\<lparr>md_revision := Some revision, md_revision_hash := Some hash\<rparr>"

text \<open>A concrete start event for witnesses.\<close>

definition demo_started :: "nat \<Rightarrow> event" where
  "demo_started g =
     EvStarted \<lparr>st_run_id = g, st_trigger = ''src/main.rs'', st_batch = Some 7,
       st_predecessor = None, st_changed = [''src/main.rs''], st_commands = [''make''],
       st_target = None, st_execution_signature = None, st_effective_concurrency = None,
       st_concurrency_source = None, st_revision = Some 1, st_revision_hash = Some ''abc''\<rparr>"

definition demo_task :: "nat \<Rightarrow> string \<Rightarrow> task_state \<Rightarrow> task_snapshot" where
  "demo_task p name s =
     \<lparr>ts_position = p, ts_id = name, ts_name = name, ts_state = s, ts_duration_ms = Some 5\<rparr>"

lemmas metadata_defs =
  metadata_new_def correlated_def with_duration_profile_def with_effective_concurrency_def
  with_concurrency_source_def with_hooks_def with_recovery_policy_def with_revision_def

end
