(* ===== verification/Watcher_State.thy ===== *)
theory Watcher_State
  imports Execution_Events
begin

text \<open>
  The user-facing view of the latest generation, \<open>src/src/watcher_state.rs\<close>: executor events are
  projected, one at a time, into one record. Shown: the invariant of the view over every event
  stream, the exact list of terminal tasks it shows, and what an event that names another
  generation does to it.
\<close>

section \<open>State\<close>

datatype watcher_execution_state = WS_Idle | WS_Running | WS_Passed | WS_Failed | WS_Cancelled

record watcher_instance =
  wi_token :: string
  wi_started_at_epoch_ms :: nat

record watcher_state =
  ws_generation :: nat
  ws_state :: watcher_execution_state
  ws_trigger :: "string option"
  ws_commands :: "string list"
  ws_duration_ms :: "nat option"
  ws_failures :: "string list"
  ws_batch :: "nat option"
  ws_changed :: "string list"
  ws_predecessor :: "nat option"
  ws_superseded_by :: "nat option"
  ws_tasks :: "task_snapshot list"
  ws_effective_concurrency :: "nat option"
  ws_concurrency_source :: "string option"
  ws_revision :: "nat option"
  ws_revision_hash :: "string option"

definition watcher_state_default :: watcher_state where
  "watcher_state_default =
     \<lparr>ws_generation = 0, ws_state = WS_Idle, ws_trigger = None, ws_commands = [],
      ws_duration_ms = None, ws_failures = [], ws_batch = None, ws_changed = [],
      ws_predecessor = None, ws_superseded_by = None, ws_tasks = [],
      ws_effective_concurrency = None, ws_concurrency_source = None, ws_revision = None,
      ws_revision_hash = None\<rparr>"

section \<open>Operations\<close>

fun apply_event :: "event \<Rightarrow> watcher_state \<Rightarrow> watcher_state" where
  "apply_event (EvStarted st) s =
     s\<lparr>ws_generation := st_run_id st, ws_state := WS_Running, ws_trigger := Some (st_trigger st),
       ws_batch := st_batch st, ws_changed := st_changed st,
       ws_predecessor := st_predecessor st, ws_superseded_by := None,
       ws_commands := st_commands st, ws_duration_ms := None, ws_failures := [],
       ws_tasks := [], ws_effective_concurrency := st_effective_concurrency st,
       ws_concurrency_source := st_concurrency_source st, ws_revision := st_revision st,
       ws_revision_hash := st_revision_hash st\<rparr>"
| "apply_event (EvFinished run_id superseded_by elapsed fs) s =
     s\<lparr>ws_state := (if fs = [] then WS_Passed else WS_Failed),
       ws_duration_ms := Some (millis_u64 elapsed), ws_failures := fs,
       ws_superseded_by := superseded_by\<rparr>"
| "apply_event (EvCancelled run_id superseded_by) s =
     s\<lparr>ws_state := WS_Cancelled, ws_duration_ms := None, ws_superseded_by := superseded_by\<rparr>"
| "apply_event (EvTick t g) s = s"
| "apply_event (EvTaskTerminal run_id task) s =
     (if run_id = ws_generation s
      then s\<lparr>ws_tasks := sort_key ts_position (ws_tasks s @ [task])\<rparr> else s)"
| "apply_event (EvRecoveryPhase r j p oc) s = s"

text \<open>The worker's event closure applies the stream in order.\<close>

definition watch_events :: "event list \<Rightarrow> watcher_state" where
  "watch_events es = fold apply_event es watcher_state_default"

text \<open>\<open>failed_tasks\<close>, as awaiting and snapshots collect it.\<close>

definition failed_tasks :: "watcher_state \<Rightarrow> string list" where
  "failed_tasks s = map ts_name (filter (\<lambda>t. ts_state t = TS_Failed) (ws_tasks s))"

section \<open>Invariant\<close>

definition ws_inv :: "watcher_state \<Rightarrow> bool" where
  "ws_inv s \<longleftrightarrow>
     sorted (map ts_position (ws_tasks s)) \<and>
     (ws_state s = WS_Passed \<longrightarrow> ws_failures s = [] \<and> ws_duration_ms s \<noteq> None) \<and>
     (ws_state s = WS_Failed \<longrightarrow> ws_failures s \<noteq> [] \<and> ws_duration_ms s \<noteq> None) \<and>
     (ws_state s = WS_Running \<longrightarrow>
        ws_failures s = [] \<and> ws_duration_ms s = None \<and> ws_superseded_by s = None) \<and>
     (ws_state s = WS_Cancelled \<longrightarrow> ws_duration_ms s = None) \<and>
     (ws_state s = WS_Idle \<longrightarrow> ws_generation s = 0 \<and> ws_trigger s = None)"

lemma ws_inv_default [fzz_inv]: "ws_inv watcher_state_default"
  by (simp add: ws_inv_def watcher_state_default_def)

lemma ws_inv_apply [fzz_inv]: "ws_inv s \<Longrightarrow> ws_inv (apply_event e s)"
  by (cases e) (auto simp: ws_inv_def)

interpretation view: event_observer apply_event ws_inv
  by unfold_locales (rule ws_inv_apply)

text \<open>
  Over every event stream the latest-generation view stays coherent: the terminal tasks are
  in declaration order, a passed view has no failures and a duration, a failed view has failures
  and a duration, a running view shows nothing of an earlier generation's end, a cancelled view
  has no duration, and an idle view is generation zero without a trigger.
\<close>

theorem watcher_view_coherent: "ws_inv (watch_events es)"
  unfolding watch_events_def by (rule view.fold_inv) (rule ws_inv_default)

section \<open>The terminal tasks of the view\<close>

lemma sort_key_snoc_sort: "sort_key f (sort_key f xs @ [x]) = sort_key f (xs @ [x])"
proof (rule properties_for_sort_key)
  have flip: "(\<lambda>y. f k = f y) = (\<lambda>y. f y = f k)" for k by (rule ext) (rule eq_commute)
  show "filter (\<lambda>y. f k = f y) (sort_key f (xs @ [x])) = filter (\<lambda>y. f k = f y) (sort_key f xs @ [x])"
    for k unfolding flip by (simp add: sort_key_stable del: sort_key_simps)
qed simp_all

fun terminals_of :: "nat \<Rightarrow> event list \<Rightarrow> task_snapshot list" where
  "terminals_of g [] = []"
| "terminals_of g (EvTaskTerminal r t # es) =
     (if r = g then t # terminals_of g es else terminals_of g es)"
| "terminals_of g (e # es) = terminals_of g es"

lemma generation_unless_started: "\<not> is_started e \<Longrightarrow> ws_generation (apply_event e s) = ws_generation s"
  by (cases e) auto

lemma tasks_fold:
  assumes "\<forall>e\<in>set es. \<not> is_started e" and "ws_generation s = g"
    and "ws_tasks s = sort_key ts_position ts"
  shows "ws_tasks (fold apply_event es s) = sort_key ts_position (ts @ terminals_of g es)"
  using assms
proof (induction es arbitrary: s ts)
  case Nil
  then show ?case by simp
next
  case (Cons e es)
  have gen: "ws_generation (apply_event e s) = g"
    using Cons.prems by (simp add: generation_unless_started)
  show ?case
  proof (cases e)
    case (EvTaskTerminal r t)
    show ?thesis
    proof (cases "r = g")
      case True
      with EvTaskTerminal Cons.prems
      have "ws_tasks (apply_event e s) = sort_key ts_position (ts @ [t])"
        by (simp add: sort_key_snoc_sort)
      with Cons.IH [of "apply_event e s" "ts @ [t]"] gen Cons.prems EvTaskTerminal True
      show ?thesis by simp
    next
      case False
      with Cons EvTaskTerminal show ?thesis by simp
    qed
  qed (use Cons.IH [of "apply_event e s" ts] gen Cons.prems in auto)
qed

text \<open>
  C11. Whatever happened before generation \<open>g\<close> started, and whatever events follow short of
  another start, the view shows exactly the tasks that reached a terminal outcome in generation
  \<open>g\<close>, each once, stably sorted by declaration position; terminal tasks of other generations
  never leak into it.
\<close>

theorem view_tasks_exact:
  assumes "\<forall>e\<in>set es. \<not> is_started e"
  shows "ws_tasks (watch_events (before @ EvStarted st # es)) =
           sort_key ts_position (terminals_of (st_run_id st) es) \<and>
         ws_generation (watch_events (before @ EvStarted st # es)) = st_run_id st"
proof
  let ?s = "apply_event (EvStarted st) (watch_events before)"
  have split: "watch_events (before @ EvStarted st # es) = fold apply_event es ?s"
    by (simp add: watch_events_def)
  show "ws_tasks (watch_events (before @ EvStarted st # es)) =
           sort_key ts_position (terminals_of (st_run_id st) es)"
    unfolding split using tasks_fold [OF assms, of ?s "st_run_id st" "[]"] by simp
  have "ws_generation (fold apply_event es s) = ws_generation s" for s
    using assms by (induction es arbitrary: s) (auto simp: generation_unless_started)
  then show "ws_generation (watch_events (before @ EvStarted st # es)) = st_run_id st"
    unfolding split by simp
qed

definition demo_stream :: "event list" where
  "demo_stream =
     [EvTaskTerminal 2 (demo_task 1 ''b'' TS_Failed), EvTick ''a'' None,
      EvTaskTerminal 1 (demo_task 0 ''old'' TS_Passed),
      EvTaskTerminal 2 (demo_task 0 ''a'' TS_Passed), EvFinished 2 None 9000000 [''b'']]"

lemma view_tasks_exact_witness:
  "ws_tasks (watch_events (demo_started 1 # demo_started 2 # demo_stream)) =
     [demo_task 0 ''a'' TS_Passed, demo_task 1 ''b'' TS_Failed]"
proof -
  have "\<forall>e\<in>set demo_stream. \<not> is_started e" by (simp add: demo_stream_def)
  from view_tasks_exact [OF this, of "[demo_started 1]"]
  show ?thesis by (simp add: demo_started_def demo_stream_def demo_task_def)
qed

section \<open>Events of other generations\<close>

text \<open>The terminal events are not matched against the generation on view.\<close>

lemma cancelled_ignores_generation:
  "ws_generation (apply_event (EvCancelled q n) s) = ws_generation s"
  "ws_state (apply_event (EvCancelled q n) s) = WS_Cancelled"
  "ws_superseded_by (apply_event (EvCancelled q n) s) = n"
  by simp_all

end
