(* ===== verification/Utf8_Text.thy ===== *)
theory Utf8_Text
  imports Fzz_Prelude
begin

text \<open>
  The part of the Rust standard library that captured output is rendered with: lossy UTF-8
  decoding (\<open>String::from_utf8_lossy\<close>), line splitting that keeps the terminator
  (\<open>str::split_inclusive\<close>) and character boundaries (\<open>str::char_indices\<close>). A byte is a
  \<^typ>\<open>char\<close>; a text is the list of its bytes.
\<close>

section \<open>Lossy decoding\<close>

definition byte_of :: "char \<Rightarrow> nat" where
  "byte_of c = of_char c"

definition is_cont :: "char \<Rightarrow> bool" where
  "is_cont c \<longleftrightarrow> 128 \<le> byte_of c \<and> byte_of c \<le> 191"

text \<open>The width a leading byte announces; zero for a byte that cannot lead.\<close>

definition utf8_width :: "nat \<Rightarrow> nat" where
  "utf8_width b =
     (if b < 128 then 1 else if 194 \<le> b \<and> b \<le> 223 then 2
      else if 224 \<le> b \<and> b \<le> 239 then 3 else if 240 \<le> b \<and> b \<le> 244 then 4 else 0)"

text \<open>The second byte of a sequence excludes overlong forms, surrogates and values past U+10FFFF.\<close>

definition second_ok :: "nat \<Rightarrow> nat \<Rightarrow> bool" where
  "second_ok b c \<longleftrightarrow>
     (if b = 224 then 160 \<le> c \<and> c \<le> 191
      else if b = 237 then 128 \<le> c \<and> c \<le> 159
      else if b = 240 then 144 \<le> c \<and> c \<le> 191
      else if b = 244 then 128 \<le> c \<and> c \<le> 143
      else 128 \<le> c \<and> c \<le> 191)"

text \<open>How many of the first bytes of \<open>cs\<close>, at most \<open>n\<close>, are continuation bytes.\<close>

fun cont_run :: "nat \<Rightarrow> string \<Rightarrow> nat" where
  "cont_run 0 cs = 0"
| "cont_run (Suc n) [] = 0"
| "cont_run (Suc n) (c # cs) = (if is_cont c then Suc (cont_run n cs) else 0)"

text \<open>The bytes one decoding step consumes, and whether they are a character.\<close>

definition utf8_step :: "char \<Rightarrow> string \<Rightarrow> nat \<times> bool" where
  "utf8_step c cs =
     (let b = byte_of c; w = utf8_width b in
      if w = 0 then (1, False)
      else if w = 1 then (1, True)
      else case cs of
        [] \<Rightarrow> (1, False)
      | d # ds \<Rightarrow>
          if \<not> second_ok b (byte_of d) then (1, False)
          else let k = cont_run (w - 2) ds in (2 + k, k = w - 2))"

lemma utf8_step_pos: "utf8_step c cs = (n, ok) \<Longrightarrow> 0 < n"
  by (auto simp: utf8_step_def Let_def split: if_splits list.splits)

definition replacement_char :: string where
  "replacement_char = [char_of (239::nat), char_of (191::nat), char_of (189::nat)]"

function from_utf8_lossy :: "string \<Rightarrow> string" where
  "from_utf8_lossy [] = []"
| "from_utf8_lossy (c # cs) =
     (case utf8_step c cs of (n, ok) \<Rightarrow>
        (if ok then take n (c # cs) else replacement_char)
        @ from_utf8_lossy (drop n (c # cs)))"
  by pat_completeness auto
termination
proof (relation "measure length", goal_cases)
  case 1
  then show ?case by simp
next
  case (2 c cs n ok)
  then have "0 < n" by (metis utf8_step_pos)
  then show ?case by simp
qed

declare from_utf8_lossy.simps(2) [simp del]

text \<open>A text is valid when decoding never meets an invalid sequence.\<close>

function valid_utf8 :: "string \<Rightarrow> bool" where
  "valid_utf8 [] = True"
| "valid_utf8 (c # cs) =
     (case utf8_step c cs of (n, ok) \<Rightarrow> ok \<and> valid_utf8 (drop n (c # cs)))"
  by pat_completeness auto
termination
proof (relation "measure length", goal_cases)
  case 1
  then show ?case by simp
next
  case (2 c cs n ok)
  then have "0 < n" by (metis utf8_step_pos)
  then show ?case by simp
qed

declare valid_utf8.simps(2) [simp del]

lemma from_utf8_lossy_valid: "valid_utf8 s \<Longrightarrow> from_utf8_lossy s = s"
proof (induction s rule: valid_utf8.induct)
  case 1
  then show ?case by simp
next
  case (2 c cs)
  obtain n ok where step: "utf8_step c cs = (n, ok)" by fastforce
  with "2.prems" have "ok" "valid_utf8 (drop n (c # cs))" by (auto simp: valid_utf8.simps(2))
  with "2.IH" [OF step [symmetric]] step show ?case
    by (simp add: from_utf8_lossy.simps(2))
qed

text \<open>ASCII bytes decode to themselves.\<close>

lemma utf8_step_ascii: "byte_of c < 128 \<Longrightarrow> utf8_step c cs = (1, True)"
  by (simp add: utf8_step_def utf8_width_def)

lemma valid_utf8_ascii: "\<forall>c\<in>set s. byte_of c < 128 \<Longrightarrow> valid_utf8 s"
  by (induction s) (auto simp: valid_utf8.simps(2) utf8_step_ascii)

section \<open>Lines\<close>

fun split_inclusive :: "char \<Rightarrow> string \<Rightarrow> string list" where
  "split_inclusive nl [] = []"
| "split_inclusive nl (c # cs) =
     (if c = nl then [c] # split_inclusive nl cs
      else case split_inclusive nl cs of
             [] \<Rightarrow> [[c]]
           | l # ls \<Rightarrow> (c # l) # ls)"

lemma concat_split_inclusive [simp]: "concat (split_inclusive nl s) = s"
  by (induction s) (auto split: list.splits)

lemma split_inclusive_nonempty: "l \<in> set (split_inclusive nl s) \<Longrightarrow> l \<noteq> []"
  by (induction s arbitrary: l) (auto split: list.splits if_splits)

definition newline :: char where
  "newline = char_of (10::nat)"

definition lines_of :: "string \<Rightarrow> string list" where
  "lines_of s = split_inclusive newline s"

lemma concat_lines_of [simp]: "concat (lines_of s) = s"
  by (simp add: lines_of_def)

text \<open>\<open>str::lines\<close>: the line endings are cut off, and a final line ending starts no further line.\<close>

definition strip_line :: "string \<Rightarrow> string" where
  "strip_line l =
     (if l \<noteq> [] \<and> last l = newline then
        (let l = butlast l in if l \<noteq> [] \<and> last l = CHR 0x0D then butlast l else l)
      else l)"

definition str_lines :: "string \<Rightarrow> string list" where
  "str_lines s = map strip_line (lines_of s)"

text \<open>\<open>iter().rev().take(n).rev()\<close> keeps the last \<open>n\<close> elements.\<close>

definition take_last :: "nat \<Rightarrow> 'a list \<Rightarrow> 'a list" where
  "take_last n xs = rev (take n (rev xs))"

lemma take_last_drop: "take_last n xs = drop (length xs - n) xs"
  by (simp add: take_last_def take_rev)

section \<open>Character boundaries\<close>

text \<open>The offsets of \<open>char_indices\<close>: in valid UTF-8 the bytes that are no continuation.\<close>

definition char_starts :: "string \<Rightarrow> nat list" where
  "char_starts s = filter (\<lambda>i. \<not> is_cont (s ! i)) [0..<length s]"

lemma char_starts_less: "i \<in> set (char_starts s) \<Longrightarrow> i < length s"
  by (simp add: char_starts_def)

lemma sorted_char_starts: "sorted (char_starts s)" "distinct (char_starts s)"
  by (simp_all add: char_starts_def sorted_wrt_filter)

end
