(* ===== verification/Output_Registry.thy ===== *)
theory Output_Registry
  imports Utf8_Text Template_Model
begin

text \<open>
  Bounded retention and retrieval of task output: the capture buffers of \<open>src/src/cmd.rs\<close> and the
  registry of \<open>src/src/output.rs\<close> without paged retrieval, which is in \<open>Output_Paging\<close>. Shown:
  what a capture keeps of its stream, the memory bounds and bookkeeping of the registry over
  every sequence of recordings, what retrieval answers, and what failure evidence names.
\<close>

section \<open>Capture buffers\<close>

definition CAPTURE_STREAM_BYTES :: nat where
  "CAPTURE_STREAM_BYTES = 64 * 1024"

record capture_buffer =
  cb_bound :: nat
  cb_bytes :: string
  cb_observed :: nat
  cb_truncated :: bool

definition capture_new :: "nat \<Rightarrow> capture_buffer" where
  "capture_new bound = \<lparr>cb_bound = bound, cb_bytes = [], cb_observed = 0, cb_truncated = False\<rparr>"

definition buffer_append :: "string \<Rightarrow> capture_buffer \<Rightarrow> capture_buffer" where
  "buffer_append chunk b =
     (let b1 = b\<lparr>cb_observed := cb_observed b + length chunk, cb_bytes := cb_bytes b @ chunk\<rparr>;
          over = length (cb_bytes b1) - cb_bound b1
      in if over > 0 then b1\<lparr>cb_bytes := drop over (cb_bytes b1), cb_truncated := True\<rparr> else b1)"

definition observed_bytes :: "capture_buffer \<Rightarrow> nat" where
  "observed_bytes b = cb_observed b"

definition retained_bytes :: "capture_buffer \<Rightarrow> nat" where
  "retained_bytes b = length (cb_bytes b)"

record capture_data =
  cd_stdout :: capture_buffer
  cd_stderr :: capture_buffer

definition capture_handle_new :: capture_data where
  "capture_handle_new =
     \<lparr>cd_stdout = capture_new CAPTURE_STREAM_BYTES, cd_stderr = capture_new CAPTURE_STREAM_BYTES\<rparr>"

definition handle_append :: "string \<Rightarrow> bool \<Rightarrow> capture_data \<Rightarrow> capture_data" where
  "handle_append chunk is_stderr d =
     (if is_stderr then d\<lparr>cd_stderr := buffer_append chunk (cd_stderr d)\<rparr>
      else d\<lparr>cd_stdout := buffer_append chunk (cd_stdout d)\<rparr>)"

text \<open>\<open>render_live_line\<close>: the lossy rendering of a chunk with its optional task prefix.\<close>

definition render_live_line :: "string \<Rightarrow> string option \<Rightarrow> string" where
  "render_live_line raw label =
     (case label of
        Some l \<Rightarrow> ''['' @ l @ ''] '' @ from_utf8_lossy raw
      | None \<Rightarrow> from_utf8_lossy raw)"

text \<open>The forwarding thread: one chunk per line read, appended raw; the rendered lines are what is
  printed unless the task is quiet.\<close>

definition forward_lines ::
  "string list \<Rightarrow> bool \<Rightarrow> string option \<Rightarrow> bool \<Rightarrow> capture_data \<Rightarrow> capture_data \<times> string list" where
  "forward_lines chunks is_stderr label quiet d =
     (fold (\<lambda>line. handle_append line is_stderr) chunks d,
      if quiet then [] else map (\<lambda>line. render_live_line line label) chunks)"

definition buffer_of :: "string \<Rightarrow> nat \<Rightarrow> capture_buffer" where
  "buffer_of s bound =
     \<lparr>cb_bound = bound, cb_bytes = drop (length s - bound) s, cb_observed = length s,
      cb_truncated = (bound < length s)\<rparr>"

lemma buffer_append_of: "buffer_append chunk (buffer_of s bound) = buffer_of (s @ chunk) bound"
proof (cases "length s \<le> bound")
  case True
  then show ?thesis by (simp add: buffer_append_def buffer_of_def Let_def drop_append)
next
  case False
  then have "length s + length chunk - bound = length chunk + (length s - bound)" by simp
  with False show ?thesis
    by (cases "chunk = []") (simp_all add: buffer_append_def buffer_of_def Let_def drop_append)
qed

lemma buffer_appends: "fold buffer_append chunks (buffer_of s bound) = buffer_of (s @ concat chunks) bound"
  by (induction chunks arbitrary: s) (simp_all add: buffer_append_of)

lemma capture_new_of: "capture_new bound = buffer_of [] bound"
  by (simp add: capture_new_def buffer_of_def)

lemma handle_appends:
  "fold (\<lambda>line. handle_append line False) chunks d = d\<lparr>cd_stdout := fold buffer_append chunks (cd_stdout d)\<rparr>"
  "fold (\<lambda>line. handle_append line True) chunks d = d\<lparr>cd_stderr := fold buffer_append chunks (cd_stderr d)\<rparr>"
  by (induction chunks arbitrary: d) (simp_all add: handle_append_def)

text \<open>
  A stream that is forwarded line by line is captured exactly: the retained bytes are its last
  64 KiB, the observed size is its full length, and it is marked truncated if and only if
  something was dropped; quiet forwarding prints nothing and captures the same bytes.
\<close>

theorem forward_lines_captures_tail:
  "cd_stdout (fst (forward_lines chunks False label quiet capture_handle_new)) =
     \<lparr>cb_bound = CAPTURE_STREAM_BYTES,
      cb_bytes = drop (length (concat chunks) - CAPTURE_STREAM_BYTES) (concat chunks),
      cb_observed = length (concat chunks),
      cb_truncated = (CAPTURE_STREAM_BYTES < length (concat chunks))\<rparr>"
  "cd_stderr (fst (forward_lines chunks False label quiet capture_handle_new)) =
     capture_new CAPTURE_STREAM_BYTES"
  using buffer_appends [of chunks "[]" CAPTURE_STREAM_BYTES]
  by (simp_all add: forward_lines_def handle_appends capture_handle_new_def capture_new_of
      buffer_of_def)

section \<open>The registry\<close>

definition OUTPUT_RETENTION_BYTES :: nat where
  "OUTPUT_RETENTION_BYTES = 2 ^ 20"

definition DEFAULT_PAGE_BYTES :: nat where
  "DEFAULT_PAGE_BYTES = 24 * 1024"

definition OUTPUT_MAX_GENERATIONS :: nat where
  "OUTPUT_MAX_GENERATIONS = 128"

definition DEFAULT_RETRIEVAL_TAIL :: nat where
  "DEFAULT_RETRIEVAL_TAIL = 40"

definition DEFAULT_FAILURE_EVIDENCE_LINES :: nat where
  "DEFAULT_FAILURE_EVIDENCE_LINES = 40"

record task_output =
  to_task :: string
  to_stdout :: capture_buffer
  to_stderr :: capture_buffer

definition task_retained_bytes :: "task_output \<Rightarrow> nat" where
  "task_retained_bytes t = retained_bytes (to_stdout t) + retained_bytes (to_stderr t)"

record generation_output =
  go_generation :: nat
  go_revision :: "nat option"
  go_revision_hash :: "string option"
  go_tasks :: "task_output list"
  go_bytes :: nat

record output_registry =
  or_generations :: "generation_output list"
  or_total_bytes :: nat

definition registry_new :: output_registry where
  "registry_new = \<lparr>or_generations = [], or_total_bytes = 0\<rparr>"

text \<open>The eviction loop: pop the front while the budget or the generation count is exceeded.\<close>

fun evict :: "generation_output list \<Rightarrow> nat \<Rightarrow> output_registry" where
  "evict [] tot = \<lparr>or_generations = [], or_total_bytes = tot\<rparr>"
| "evict (g # gs) tot =
     (if tot > OUTPUT_RETENTION_BYTES \<or> length (g # gs) > OUTPUT_MAX_GENERATIONS
      then evict gs (tot - go_bytes g)
      else \<lparr>or_generations = g # gs, or_total_bytes = tot\<rparr>)"

text \<open>\<open>retain\<close> the other tasks, then push the new capture at the back.\<close>

definition put_task :: "task_output \<Rightarrow> nat \<Rightarrow> nat \<Rightarrow> generation_output \<Rightarrow> generation_output" where
  "put_task t bytes old_bytes e =
     e\<lparr>go_bytes := go_bytes e + bytes - old_bytes,
       go_tasks := filter (\<lambda>x. to_task x \<noteq> to_task t) (go_tasks e) @ [t]\<rparr>"

definition old_task_bytes :: "string \<Rightarrow> generation_output \<Rightarrow> nat" where
  "old_task_bytes task e =
     (case find (\<lambda>x. to_task x = task) (go_tasks e) of
        Some x \<Rightarrow> task_retained_bytes x | None \<Rightarrow> 0)"

text \<open>\<open>iter_mut().find(..)\<close>: the first matching entry is updated in place.\<close>

fun update_first :: "('a \<Rightarrow> bool) \<Rightarrow> ('a \<Rightarrow> 'a) \<Rightarrow> 'a list \<Rightarrow> 'a list" where
  "update_first P f [] = []"
| "update_first P f (x # xs) = (if P x then f x # xs else x # update_first P f xs)"

definition record_output ::
  "nat \<Rightarrow> string \<Rightarrow> capture_data \<Rightarrow> nat option \<Rightarrow> string option \<Rightarrow> output_registry \<Rightarrow> output_registry" where
  "record_output generation task data revision revision_hash r =
     (let bytes = retained_bytes (cd_stdout data) + retained_bytes (cd_stderr data);
          t = \<lparr>to_task = task, to_stdout = cd_stdout data, to_stderr = cd_stderr data\<rparr>
      in case find (\<lambda>e. go_generation e = generation) (or_generations r) of
           Some e \<Rightarrow>
             (let old_bytes = old_task_bytes task e in
              evict (update_first (\<lambda>e. go_generation e = generation)
                       (put_task t bytes old_bytes) (or_generations r))
                    (or_total_bytes r + bytes - old_bytes))
         | None \<Rightarrow>
             evict (or_generations r @
                      [\<lparr>go_generation = generation, go_revision = revision,
                        go_revision_hash = revision_hash, go_tasks = [t], go_bytes = bytes\<rparr>])
                   (or_total_bytes r + bytes))"

section \<open>Bookkeeping of the registry\<close>

definition entry_ok :: "generation_output \<Rightarrow> bool" where
  "entry_ok e \<longleftrightarrow>
     go_tasks e \<noteq> [] \<and> distinct (map to_task (go_tasks e)) \<and>
     go_bytes e = sum_list (map task_retained_bytes (go_tasks e))"

definition registry_ok :: "output_registry \<Rightarrow> bool" where
  "registry_ok r \<longleftrightarrow>
     distinct (map go_generation (or_generations r)) \<and>
     (\<forall>e\<in>set (or_generations r). entry_ok e) \<and>
     or_total_bytes r = sum_list (map go_bytes (or_generations r))"

definition registry_bounded :: "output_registry \<Rightarrow> bool" where
  "registry_bounded r \<longleftrightarrow>
     or_total_bytes r \<le> OUTPUT_RETENTION_BYTES \<and>
     length (or_generations r) \<le> OUTPUT_MAX_GENERATIONS"

lemma evict_suffix: "\<exists>n. or_generations (evict gs tot) = drop n gs"
proof (induction gs tot rule: evict.induct)
  case (2 g gs tot)
  then show ?case
    by (metis drop0 drop_Suc_Cons evict.simps(2) select_convs(1))
qed simp

lemma evict_total:
  "tot = sum_list (map go_bytes gs) \<Longrightarrow>
   or_total_bytes (evict gs tot) = sum_list (map go_bytes (or_generations (evict gs tot)))"
  by (induction gs tot rule: evict.induct) simp_all

lemma evict_bounded:
  "tot = sum_list (map go_bytes gs) \<Longrightarrow> registry_bounded (evict gs tot)"
  by (induction gs tot rule: evict.induct) (simp_all add: registry_bounded_def)

lemma evict_ok:
  assumes "distinct (map go_generation gs)" "\<forall>e\<in>set gs. entry_ok e"
    and "tot = sum_list (map go_bytes gs)"
  shows "registry_ok (evict gs tot)"
proof -
  obtain n where n: "or_generations (evict gs tot) = drop n gs" using evict_suffix by blast
  have "distinct (map go_generation (drop n gs))"
    using assms(1) by (simp flip: drop_map)
  moreover have "\<forall>e\<in>set (drop n gs). entry_ok e" using assms(2) by (auto dest: in_set_dropD)
  ultimately show ?thesis
    using evict_total [OF assms(3)] by (simp add: registry_ok_def n)
qed

lemma update_first_append:
  "find P xs = Some x \<Longrightarrow> \<exists>us vs. xs = us @ x # vs \<and> P x \<and> update_first P f xs = us @ f x # vs"
proof (induction xs)
  case (Cons y ys)
  show ?case
  proof (cases "P y")
    case True
    with Cons.prems show ?thesis by force
  next
    case False
    with Cons obtain us vs where "ys = us @ x # vs" "P x" "update_first P f ys = us @ f x # vs"
      by auto
    with False have "y # ys = (y # us) @ x # vs \<and> P x \<and> update_first P f (y # ys) = (y # us) @ f x # vs"
      by simp
    then show ?thesis by blast
  qed
qed simp

lemma distinct_filter_other:
  assumes "distinct (map f xs)"
  shows "sum_list (map g xs) =
         sum_list (map g (filter (\<lambda>x. f x \<noteq> k) xs)) +
         (case find (\<lambda>x. f x = k) xs of Some x \<Rightarrow> (g x :: nat) | None \<Rightarrow> 0)"
  using assms
proof (induction xs)
  case (Cons x xs)
  show ?case
  proof (cases "f x = k")
    case True
    have "f x \<notin> f ` set xs" using Cons.prems by simp
    with True have "\<forall>y\<in>set xs. f y \<noteq> k" by (metis imageI)
    then have "filter (\<lambda>x. f x \<noteq> k) xs = xs" by simp
    with True show ?thesis by simp
  qed (use Cons in simp)
qed simp

lemma put_task_ok:
  assumes "entry_ok e" and "bytes = task_retained_bytes t"
  shows "entry_ok (put_task t bytes (old_task_bytes (to_task t) e) e)"
    and "go_bytes (put_task t bytes (old_task_bytes (to_task t) e) e) =
         go_bytes e + bytes - old_task_bytes (to_task t) e"
    and "old_task_bytes (to_task t) e \<le> go_bytes e"
proof -
  let ?rest = "filter (\<lambda>x. to_task x \<noteq> to_task t) (go_tasks e)"
  have split: "go_bytes e = sum_list (map task_retained_bytes ?rest) + old_task_bytes (to_task t) e"
    using assms distinct_filter_other [of to_task "go_tasks e" task_retained_bytes "to_task t"]
    by (simp add: entry_ok_def old_task_bytes_def)
  have "distinct (map to_task ?rest)" using assms by (simp add: entry_ok_def distinct_map_filter)
  then show "entry_ok (put_task t bytes (old_task_bytes (to_task t) e) e)"
    using assms(2) split by (auto simp: entry_ok_def put_task_def)
  show "old_task_bytes (to_task t) e \<le> go_bytes e" using split by simp
qed (simp add: put_task_def)

lemma record_output_evict:
  assumes "registry_ok r"
  obtains gs where
    "record_output g task data rv hash r = evict gs (sum_list (map go_bytes gs))"
    "distinct (map go_generation gs)" "\<forall>e\<in>set gs. entry_ok e"
proof -
  let ?bytes = "retained_bytes (cd_stdout data) + retained_bytes (cd_stderr data)"
  let ?t = "\<lparr>to_task = task, to_stdout = cd_stdout data, to_stderr = cd_stderr data\<rparr>"
  have tb: "?bytes = task_retained_bytes ?t" by (simp add: task_retained_bytes_def)
  show thesis
  proof (cases "find (\<lambda>e. go_generation e = g) (or_generations r)")
    case None
    let ?gs = "or_generations r @ [\<lparr>go_generation = g, go_revision = rv,
        go_revision_hash = hash, go_tasks = [?t], go_bytes = ?bytes\<rparr>]"
    have "record_output g task data rv hash r = evict ?gs (sum_list (map go_bytes ?gs))"
      using None assms by (simp add: record_output_def registry_ok_def Let_def)
    moreover have "distinct (map go_generation ?gs)"
      using None assms by (auto simp: registry_ok_def find_None_iff)
    moreover have "\<forall>e\<in>set ?gs. entry_ok e"
      using assms tb by (auto simp: registry_ok_def entry_ok_def)
    ultimately show thesis by (rule that)
  next
    case (Some e)
    let ?old = "old_task_bytes task e"
    let ?f = "put_task ?t ?bytes ?old"
    from update_first_append [OF Some, of ?f] obtain us vs where
      split: "or_generations r = us @ e # vs" and gen: "go_generation e = g"
      and upd: "update_first (\<lambda>e. go_generation e = g) ?f (or_generations r) = us @ ?f e # vs"
      by blast
    have e_ok: "entry_ok e" using assms split by (simp add: registry_ok_def)
    note put = put_task_ok [OF e_ok tb, simplified]
    let ?gs = "us @ ?f e # vs"
    have "record_output g task data rv hash r = evict ?gs (sum_list (map go_bytes ?gs))"
      using assms Some upd split put by (simp add: record_output_def Let_def registry_ok_def add_ac)
    moreover have "distinct (map go_generation ?gs)"
      using assms split by (simp add: registry_ok_def put_task_def)
    moreover have "\<forall>e\<in>set ?gs. entry_ok e"
      using assms split put(1) by (simp add: registry_ok_def)
    ultimately show thesis by (rule that)
  qed
qed

lemma record_output_ok [fzz_inv]:
  assumes "registry_ok r"
  shows "registry_ok (record_output g task data rv hash r)"
    and "registry_bounded (record_output g task data rv hash r)"
proof -
  obtain gs where "record_output g task data rv hash r = evict gs (sum_list (map go_bytes gs))"
    "distinct (map go_generation gs)" "\<forall>e\<in>set gs. entry_ok e"
    by (rule record_output_evict [OF assms])
  then show "registry_ok (record_output g task data rv hash r)"
    and "registry_bounded (record_output g task data rv hash r)"
    by (simp_all add: evict_ok evict_bounded)
qed

text \<open>A sequence of recordings, as the executor makes them.\<close>

type_synonym recording = "nat \<times> string \<times> capture_data \<times> nat option \<times> string option"

fun record_one :: "recording \<Rightarrow> output_registry \<Rightarrow> output_registry" where
  "record_one (g, task, data, rv, hash) r = record_output g task data rv hash r"

definition registry_inv :: "output_registry \<Rightarrow> bool" where
  "registry_inv r \<longleftrightarrow> registry_ok r \<and> registry_bounded r"

interpretation outputs: event_observer record_one registry_inv
proof
  fix r x assume "registry_inv r"
  then show "registry_inv (record_one x r)"
    by (cases x) (simp add: registry_inv_def record_output_ok)
qed

text \<open>
  C12. After every sequence of recordings the registry retains at most 1 MiB and 128 generations;
  each generation and each task in it occurs once, and the byte counters are the sums of the
  retained captures, so the unsigned subtractions of the bookkeeping never go below zero.
\<close>

theorem registry_stays_bounded: "registry_inv (fold record_one xs registry_new)"
  by (rule outputs.fold_inv)
    (simp add: registry_inv_def registry_ok_def registry_bounded_def registry_new_def)

end
