(* ===== verification/Output_Retrieval.thy ===== *)
theory Output_Retrieval
  imports Output_Registry
begin

text \<open>
  Tail retrieval and failure evidence of \<open>src/src/output.rs\<close>: \<open>retrieve\<close>, \<open>render_stream\<close>,
  \<open>failure_evidence\<close> and the retrieval command it prints. Shown: what was recorded last is
  retrievable byte for byte, task names are resolved without guessing, and the evidence of a
  failure names a retained task whose printed command a shell reads back exactly.
\<close>

section \<open>Retrieval\<close>

record stream_output =
  so_content :: string
  so_lines :: nat
  so_retained_bytes :: nat
  so_observed_bytes :: nat
  so_truncated :: bool

record retrieved_task =
  rt_id :: string
  rt_stdout :: "stream_output option"
  rt_stderr :: "stream_output option"

record retrieved_output =
  ro_generation :: nat
  ro_revision :: "nat option"
  ro_revision_hash :: "string option"
  ro_resolved_task :: "string option"
  ro_tasks :: "retrieved_task list"
  ro_next_cursor :: "string option"
  ro_returned_bytes :: "nat option"
  ro_truncated :: "bool option"

text \<open>
  \<open>TaskNotFound task candidates ambiguous\<close>. The reason text of an invalid cursor is a fixed
  sentence per check with the values it prints; the model keeps the check and the values.
\<close>

datatype cursor_fault =
    CursorShape string
  | CursorNotNumeric string
  | CursorGeneration nat nat
  | CursorPlanIndex nat nat
  | CursorStream nat nat
  | CursorOffset nat nat

datatype retrieval_error =
    GenerationNotFound "nat list"
  | TaskNotFound string "string list" bool
  | InvalidCursor cursor_fault

definition render_stream ::
  "capture_buffer \<Rightarrow> string option \<Rightarrow> nat option \<Rightarrow> bool \<Rightarrow> bool \<Rightarrow> stream_output option" where
  "render_stream buffer stream tail full is_stderr =
     (if stream = Some ''stdout'' \<and> is_stderr then None
      else if stream = Some ''stderr'' \<and> \<not> is_stderr then None
      else if stream \<noteq> None \<and> stream \<noteq> Some ''stdout'' \<and> stream \<noteq> Some ''stderr'' then None
      else
        (let text = from_utf8_lossy (cb_bytes buffer);
             content = (if full then text
                        else concat (take_last
                               (case tail of Some n \<Rightarrow> n | None \<Rightarrow> DEFAULT_RETRIEVAL_TAIL)
                               (lines_of text)))
         in Some \<lparr>so_content = content, so_lines = length (lines_of text),
                  so_retained_bytes = retained_bytes buffer,
                  so_observed_bytes = observed_bytes buffer,
                  so_truncated = cb_truncated buffer\<rparr>))"

definition retrieved_task_of ::
  "task_output \<Rightarrow> string option \<Rightarrow> nat option \<Rightarrow> bool \<Rightarrow> retrieved_task" where
  "retrieved_task_of t stream tail full =
     \<lparr>rt_id = to_task t,
      rt_stdout = render_stream (to_stdout t) stream tail full False,
      rt_stderr = render_stream (to_stderr t) stream tail full True\<rparr>"

text \<open>The unpaged answer for some of the tasks of an entry.\<close>

definition tail_answer ::
  "nat \<Rightarrow> generation_output \<Rightarrow> string option \<Rightarrow> retrieved_task list \<Rightarrow> retrieved_output" where
  "tail_answer generation e resolved tasks =
     \<lparr>ro_generation = generation, ro_revision = go_revision e,
      ro_revision_hash = go_revision_hash e, ro_resolved_task = resolved, ro_tasks = tasks,
      ro_next_cursor = None, ro_returned_bytes = None, ro_truncated = None\<rparr>"

definition wanted_task :: "string option \<Rightarrow> string option" where
  "wanted_task task =
     (case task of
        None \<Rightarrow> None
      | Some t \<Rightarrow> (if str_trim t = [] then None else Some (str_trim t)))"

definition find_generation :: "nat \<Rightarrow> output_registry \<Rightarrow> generation_output option" where
  "find_generation generation r = find (\<lambda>e. go_generation e = generation) (or_generations r)"

definition find_task :: "string \<Rightarrow> generation_output \<Rightarrow> task_output option" where
  "find_task task e = find (\<lambda>t. to_task t = task) (go_tasks e)"

definition canonical_candidates :: "string \<Rightarrow> string list \<Rightarrow> string list" where
  "canonical_candidates wanted ids = filter (\<lambda>i. starts_with i wanted) ids"

text \<open>The lookup by a canonical candidate cannot fail; the source \<open>expect\<close>s it, the model answers
  with the error it would panic with.\<close>

definition retrieve ::
  "output_registry \<Rightarrow> nat \<Rightarrow> string option \<Rightarrow> string option \<Rightarrow> nat option \<Rightarrow> bool
   \<Rightarrow> retrieval_error + retrieved_output" where
  "retrieve r generation task stream tail full =
     (case find_generation generation r of
        None \<Rightarrow> Inl (GenerationNotFound (map go_generation (or_generations r)))
      | Some e \<Rightarrow>
         (case wanted_task task of
            None \<Rightarrow>
              Inr (tail_answer generation e None
                     (map (\<lambda>t. retrieved_task_of t stream tail full) (go_tasks e)))
          | Some wanted \<Rightarrow>
             (case find_task wanted e of
                Some t \<Rightarrow> Inr (tail_answer generation e None [retrieved_task_of t stream tail full])
              | None \<Rightarrow>
                 (case canonical_candidates wanted (map to_task (go_tasks e)) of
                    [single] \<Rightarrow>
                      (case find_task single e of
                         Some t \<Rightarrow> Inr (tail_answer generation e (Some single)
                                       [retrieved_task_of t stream tail full])
                       | None \<Rightarrow> Inl (TaskNotFound single [] False))
                  | [] \<Rightarrow> Inl (TaskNotFound wanted (map to_task (go_tasks e)) False)
                  | c # d # cs \<Rightarrow> Inl (TaskNotFound wanted (c # d # cs) True)))))"

section \<open>Failure evidence\<close>

record output_ref =
  ref_instance_token :: string
  ref_generation :: nat
  ref_task :: string
  ref_mode :: string
  ref_tail :: nat
  ref_max_bytes :: nat
  ref_retrieve :: string

record evidence =
  fe_excerpt :: string
  fe_lines :: nat
  fe_truncated :: bool
  fe_total_observed_bytes :: nat
  fe_retained_bytes :: nat
  fe_retrieve :: string
  fe_output_ref :: "output_ref option"
  fe_additional_failed_tasks :: nat

definition shell_quote :: "string \<Rightarrow> string" where
  "shell_quote task =
     [quote_char] @ str_replace [quote_char] [quote_char, backslash, quote_char, quote_char] task
     @ [quote_char]"

definition legacy_retrieve_command :: "nat \<Rightarrow> string \<Rightarrow> string" where
  "legacy_retrieve_command generation task =
     ''fzz control output --generation '' @ show_nat generation @ '' --task ''
     @ shell_quote task @ '' --tail 80''"

definition output_ref_of :: "string \<Rightarrow> nat \<Rightarrow> string \<Rightarrow> output_ref" where
  "output_ref_of token generation task =
     \<lparr>ref_instance_token = token, ref_generation = generation, ref_task = task,
      ref_mode = ''tail'', ref_tail = 80, ref_max_bytes = DEFAULT_PAGE_BYTES,
      ref_retrieve =
        ''fzz control output --instance '' @ shell_quote token @ '' --generation ''
        @ show_nat generation @ '' --task '' @ shell_quote task @ '' --tail 80''\<rparr>"

text \<open>The line loop over one stream: lines are copied until \<open>max_lines\<close> are in the excerpt.\<close>

fun excerpt_lines :: "nat \<Rightarrow> string list \<Rightarrow> string \<times> nat \<times> bool \<Rightarrow> string \<times> nat \<times> bool" where
  "excerpt_lines max_lines [] (excerpt, n, trunc) = (excerpt, n, trunc)"
| "excerpt_lines max_lines (l # ls) (excerpt, n, trunc) =
     (if n \<ge> max_lines then (excerpt, n, True)
      else excerpt_lines max_lines ls (excerpt @ l, n + 1, trunc))"

text \<open>The counters of the loop over the retained tasks.\<close>

record evidence_acc =
  ea_excerpt :: string
  ea_lines :: nat
  ea_truncated :: bool
  ea_observed :: nat
  ea_retained :: nat
  ea_additional :: nat

definition evidence_step :: "nat \<Rightarrow> string \<Rightarrow> task_output \<Rightarrow> evidence_acc \<Rightarrow> evidence_acc" where
  "evidence_step max_lines primary t a =
     (if to_task t \<noteq> primary then a\<lparr>ea_additional := ea_additional a + 1\<rparr>
      else
        (let trunc = (ea_truncated a \<or> cb_truncated (to_stdout t) \<or> cb_truncated (to_stderr t));
             (x1, n1, c1) = excerpt_lines max_lines (lines_of (from_utf8_lossy (cb_bytes (to_stdout t))))
                              (ea_excerpt a, ea_lines a, trunc);
             (x2, n2, c2) = excerpt_lines max_lines (lines_of (from_utf8_lossy (cb_bytes (to_stderr t))))
                              (x1, n1, c1)
         in a\<lparr>ea_excerpt := x2, ea_lines := n2, ea_truncated := c2,
              ea_observed := ea_observed a + (observed_bytes (to_stdout t) + observed_bytes (to_stderr t)),
              ea_retained := ea_retained a + (retained_bytes (to_stdout t) + retained_bytes (to_stderr t))\<rparr>))"

definition primary_task :: "string list \<Rightarrow> task_output list \<Rightarrow> string option" where
  "primary_task failed ts =
     (case find (\<lambda>i. i \<in> set failed) (map to_task ts) of
        Some i \<Rightarrow> Some i
      | None \<Rightarrow> (case ts of [] \<Rightarrow> None | t # _ \<Rightarrow> Some (to_task t)))"

definition failure_evidence ::
  "output_registry \<Rightarrow> nat \<Rightarrow> nat \<Rightarrow> string \<Rightarrow> string list \<Rightarrow> evidence option" where
  "failure_evidence r generation max_lines token failed =
     (case find_generation generation r of
        None \<Rightarrow> None
      | Some e \<Rightarrow>
         (case primary_task failed (go_tasks e) of
            None \<Rightarrow> None
          | Some primary \<Rightarrow>
             (let a = fold (evidence_step max_lines primary) (go_tasks e)
                        \<lparr>ea_excerpt = [], ea_lines = 0, ea_truncated = False, ea_observed = 0,
                         ea_retained = 0, ea_additional = 0\<rparr>
              in Some
                \<lparr>fe_excerpt = ea_excerpt a, fe_lines = ea_lines a, fe_truncated = ea_truncated a,
                 fe_total_observed_bytes = ea_observed a, fe_retained_bytes = ea_retained a,
                 fe_retrieve = legacy_retrieve_command generation primary,
                 fe_output_ref =
                   (if ea_retained a > 0 \<and> primary \<noteq> []
                    then Some (output_ref_of token generation primary) else None),
                 fe_additional_failed_tasks = ea_additional a\<rparr>)))"

section \<open>What was recorded is retrievable\<close>

lemma evict_keeps_last:
  assumes "tot = sum_list (map go_bytes (us @ [e]))" and "go_bytes e \<le> OUTPUT_RETENTION_BYTES"
  shows "\<exists>n. or_generations (evict (us @ [e]) tot) = drop n us @ [e]"
  using assms
proof (induction us arbitrary: tot)
  case Nil
  then have "evict [e] tot = \<lparr>or_generations = [e], or_total_bytes = tot\<rparr>"
    by (simp add: OUTPUT_MAX_GENERATIONS_def)
  then show ?case by simp
next
  case (Cons u us)
  show ?case
  proof (cases "tot > OUTPUT_RETENTION_BYTES \<or> length (u # us @ [e]) > OUTPUT_MAX_GENERATIONS")
    case True
    have "tot - go_bytes u = sum_list (map go_bytes (us @ [e]))" using Cons.prems by simp
    from Cons.IH [OF this Cons.prems(2)] obtain n
      where "or_generations (evict (us @ [e]) (tot - go_bytes u)) = drop (Suc n) (u # us) @ [e]"
      by auto
    with True show ?thesis by (metis append_Cons evict.simps(2))
  next
    case False
    then have "or_generations (evict ((u # us) @ [e]) tot) = drop 0 (u # us) @ [e]" by simp
    then show ?thesis by blast
  qed
qed

text \<open>The bytes the other tasks of a generation retain.\<close>

definition other_bytes :: "nat \<Rightarrow> string \<Rightarrow> output_registry \<Rightarrow> nat" where
  "other_bytes g task r =
     (case find_generation g r of
        None \<Rightarrow> 0
      | Some e \<Rightarrow> sum_list (map task_retained_bytes (filter (\<lambda>t. to_task t \<noteq> task) (go_tasks e))))"

text \<open>A generation that is new to the registry, or the one recorded to last.\<close>

definition newest_generation :: "nat \<Rightarrow> output_registry \<Rightarrow> bool" where
  "newest_generation g r \<longleftrightarrow>
     find_generation g r = None \<or>
     or_generations r \<noteq> [] \<and> go_generation (last (or_generations r)) = g"

lemma find_snoc_last:
  "find P (xs @ [x]) = Some x" if "\<forall>y\<in>set xs. \<not> P y" "P x"
  using that by (induction xs) auto

definition recorded_task :: "string \<Rightarrow> capture_data \<Rightarrow> task_output" where
  "recorded_task task data =
     \<lparr>to_task = task, to_stdout = cd_stdout data, to_stderr = cd_stderr data\<rparr>"

lemma recorded_task_simps [simp]:
  "to_task (recorded_task task data) = task"
  "task_retained_bytes (recorded_task task data) =
     retained_bytes (cd_stdout data) + retained_bytes (cd_stderr data)"
  by (simp_all add: recorded_task_def task_retained_bytes_def)

text \<open>Recording to the newest generation leaves it at the back, with the capture in it.\<close>

definition records_last :: "nat \<Rightarrow> task_output \<Rightarrow> output_registry \<Rightarrow> nat \<Rightarrow> bool" where
  "records_last g t r' bytes \<longleftrightarrow>
     (\<exists>us e. r' = evict (us @ [e]) (sum_list (map go_bytes (us @ [e]))) \<and>
        (\<forall>y\<in>set us. go_generation y \<noteq> g) \<and> go_generation e = g \<and>
        go_bytes e = bytes \<and> find_task (to_task t) e = Some t)"

lemma record_output_new:
  assumes "registry_ok r" and "find_generation g r = None"
  shows "records_last g (recorded_task task data) (record_output g task data rv hash r)
           (retained_bytes (cd_stdout data) + retained_bytes (cd_stderr data))"
proof -
  let ?bytes = "retained_bytes (cd_stdout data) + retained_bytes (cd_stderr data)"
  let ?e = "\<lparr>go_generation = g, go_revision = rv, go_revision_hash = hash,
      go_tasks = [recorded_task task data], go_bytes = ?bytes\<rparr>"
  have "record_output g task data rv hash r =
      evict (or_generations r @ [?e]) (sum_list (map go_bytes (or_generations r @ [?e])))"
    using assms
    by (simp add: record_output_def registry_ok_def Let_def find_generation_def recorded_task_def)
  moreover have "\<forall>y\<in>set (or_generations r). go_generation y \<noteq> g"
    using assms(2) by (auto simp: find_generation_def find_None_iff)
  ultimately show ?thesis
    unfolding records_last_def
    by (intro exI [of _ "or_generations r"] exI [of _ ?e]) (simp add: find_task_def)
qed

lemma registry_last_entry:
  assumes "registry_ok r" and "find_generation g r = Some e" and "newest_generation g r"
  obtains us where "or_generations r = us @ [e]" "go_generation e = g" "entry_ok e"
    "\<forall>y\<in>set us. go_generation y \<noteq> g"
proof -
  from assms(2) have e_in: "e \<in> set (or_generations r)" and gen: "go_generation e = g"
    by (auto simp: find_generation_def find_Some_iff)
  from assms(2,3) have ne: "or_generations r \<noteq> []"
    and last_gen: "go_generation (last (or_generations r)) = g"
    by (auto simp: newest_generation_def)
  have "inj_on go_generation (set (or_generations r))"
    using assms(1) by (simp add: registry_ok_def distinct_map)
  with e_in ne gen last_gen have "e = last (or_generations r)"
    by (metis inj_onD last_in_set)
  with ne obtain us where us: "or_generations r = us @ [e]"
    using append_butlast_last_id by metis
  moreover have "entry_ok e" using assms(1) e_in by (simp add: registry_ok_def)
  moreover have "go_generation e \<notin> go_generation ` set us"
    using assms(1) us by (simp add: registry_ok_def)
  then have "\<forall>y\<in>set us. go_generation y \<noteq> g" using gen by (metis imageI)
  ultimately show thesis using gen that by blast
qed

lemma record_output_existing:
  assumes ok: "registry_ok r" and found: "find_generation g r = Some e" and "newest_generation g r"
  shows "records_last g (recorded_task task data) (record_output g task data rv hash r)
           (retained_bytes (cd_stdout data) + retained_bytes (cd_stderr data) + other_bytes g task r)"
proof -
  let ?bytes = "retained_bytes (cd_stdout data) + retained_bytes (cd_stderr data)"
  let ?t = "recorded_task task data"
  let ?e = "put_task ?t ?bytes (old_task_bytes task e) e"
  obtain us where split: "or_generations r = us @ [e]" and gen: "go_generation e = g"
    and e_ok: "entry_ok e" and others: "\<forall>y\<in>set us. go_generation y \<noteq> g"
    using registry_last_entry [OF assms] by blast
  have upd: "update_first (\<lambda>e. go_generation e = g) f (us @ [e]) = us @ [f e]" for f
    using gen others by (induction us) auto
  have "?bytes = task_retained_bytes ?t" by simp
  note put = put_task_ok [OF e_ok this, simplified]
  have "record_output g task data rv hash r =
      evict (us @ [?e]) (sum_list (map go_bytes (us @ [?e])))"
    using ok found split upd put
    by (simp add: record_output_def Let_def registry_ok_def find_generation_def recorded_task_def add_ac)
  moreover have "go_bytes ?e = ?bytes + other_bytes g task r"
    using found e_ok distinct_filter_other [of to_task "go_tasks e" task_retained_bytes task]
    by (simp add: put_task_def other_bytes_def entry_ok_def old_task_bytes_def)
  moreover have "find_task task ?e = Some ?t"
    by (simp add: find_task_def put_task_def find_snoc_last)
  ultimately show ?thesis
    unfolding records_last_def using others gen
    by (intro exI [of _ us] exI [of _ ?e]) (simp add: put_task_def)
qed

lemma record_output_finds:
  assumes ok: "registry_ok r" and newest: "newest_generation g r"
    and fits: "retained_bytes (cd_stdout data) + retained_bytes (cd_stderr data)
                 + other_bytes g task r \<le> OUTPUT_RETENTION_BYTES"
  shows "\<exists>e. find_generation g (record_output g task data rv hash r) = Some e \<and>
             find_task task e = Some (recorded_task task data)"
proof -
  have "records_last g (recorded_task task data) (record_output g task data rv hash r)
      (retained_bytes (cd_stdout data) + retained_bytes (cd_stderr data) + other_bytes g task r)"
  proof (cases "find_generation g r")
    case None
    then show ?thesis
      using record_output_new [OF ok None] by (simp add: other_bytes_def)
  qed (use record_output_existing ok newest in blast)
  then obtain us e where rec: "record_output g task data rv hash r =
        evict (us @ [e]) (sum_list (map go_bytes (us @ [e])))"
    and others: "\<forall>y\<in>set us. go_generation y \<noteq> g" and gen: "go_generation e = g"
    and small: "go_bytes e \<le> OUTPUT_RETENTION_BYTES"
    and found: "find_task task e = Some (recorded_task task data)"
    using fits unfolding records_last_def recorded_task_simps by metis
  obtain n where n: "or_generations (evict (us @ [e]) (sum_list (map go_bytes (us @ [e])))) = drop n us @ [e]"
    using evict_keeps_last [OF refl small] by blast
  have "\<forall>y\<in>set (drop n us). go_generation y \<noteq> g" using others by (auto dest: in_set_dropD)
  then have "find_generation g (record_output g task data rv hash r) = Some e"
    unfolding find_generation_def rec n using gen by (rule find_snoc_last)
  with found show ?thesis by blast
qed

text \<open>
  The capture recorded last for a task of the newest generation is retrieved in full by its
  name, unless that generation alone exceeds the 1 MiB budget: the answer has exactly this task,
  the lossy text of both captured streams, and no continuation.
\<close>

theorem recorded_output_retrievable:
  assumes "registry_inv r" and "newest_generation g r"
    and "retained_bytes (cd_stdout data) + retained_bytes (cd_stderr data)
           + other_bytes g task r \<le> OUTPUT_RETENTION_BYTES"
    and "task \<noteq> []" and "str_trim task = task"
  shows "\<exists>out so se. retrieve (record_output g task data rv hash r) g (Some task) None None True = Inr out \<and>
           ro_generation out = g \<and> ro_resolved_task out = None \<and> ro_next_cursor out = None \<and>
           ro_tasks out = [\<lparr>rt_id = task, rt_stdout = Some so, rt_stderr = Some se\<rparr>] \<and>
           so_content so = from_utf8_lossy (cb_bytes (cd_stdout data)) \<and>
           so_content se = from_utf8_lossy (cb_bytes (cd_stderr data))"
proof -
  have "registry_ok r" using assms(1) by (simp add: registry_inv_def)
  from record_output_finds [OF this assms(2,3), of rv hash] obtain e
    where "find_generation g (record_output g task data rv hash r) = Some e"
      "find_task task e = Some (recorded_task task data)" by blast
  moreover have "wanted_task (Some task) = Some task" using assms(4,5) by (simp add: wanted_task_def)
  ultimately show ?thesis
    by (simp add: retrieve_def tail_answer_def retrieved_task_of_def render_stream_def Let_def
        recorded_task_def)
qed

definition demo_capture :: capture_data where
  "demo_capture = handle_append ''ok'' False \<lparr>cd_stdout = capture_new 8, cd_stderr = capture_new 8\<rparr>"

lemma demo_capture_bytes:
  "cb_bytes (cd_stdout demo_capture) = ''ok''" "cb_bytes (cd_stderr demo_capture) = []"
  by (simp_all add: demo_capture_def handle_append_def capture_handle_new_def capture_new_def
      buffer_append_def CAPTURE_STREAM_BYTES_def)

lemma recorded_output_retrievable_witness:
  "\<exists>out so se. retrieve (record_output 1 ''build'' demo_capture None None registry_new) 1
       (Some ''build'') None None True = Inr out \<and>
     ro_tasks out = [\<lparr>rt_id = ''build'', rt_stdout = Some so, rt_stderr = Some se\<rparr>] \<and>
     so_content so = from_utf8_lossy ''ok''"
proof -
  have inv: "registry_inv registry_new"
    by (simp add: registry_inv_def registry_ok_def registry_bounded_def registry_new_def)
  have new: "newest_generation 1 registry_new"
    by (simp add: newest_generation_def find_generation_def registry_new_def)
  have none: "other_bytes 1 ''build'' registry_new = 0"
    by (simp add: other_bytes_def find_generation_def registry_new_def)
  have trim: "str_trim ''build'' = ''build''" by code_simp
  have "retained_bytes (cd_stdout demo_capture) + retained_bytes (cd_stderr demo_capture)
      + other_bytes 1 ''build'' registry_new \<le> OUTPUT_RETENTION_BYTES"
    unfolding none by (simp add: demo_capture_bytes retained_bytes_def OUTPUT_RETENTION_BYTES_def)
  from recorded_output_retrievable [OF inv new this _ trim, of None None] show ?thesis
    by (auto simp: demo_capture_bytes)
qed

section \<open>Task names are resolved without guessing\<close>

lemma find_task_None: "find_task w e = None \<longleftrightarrow> w \<notin> to_task ` set (go_tasks e)"
  by (auto simp: find_task_def find_None_iff)

lemma find_task_SomeD: "find_task w e = Some t \<Longrightarrow> t \<in> set (go_tasks e) \<and> to_task t = w"
  by (auto simp: find_task_def find_Some_iff)

lemma single_candidate:
  assumes "canonical_candidates w (map to_task (go_tasks e)) = [i]"
  obtains t where "find_task i e = Some t"
proof -
  have "i \<in> set (canonical_candidates w (map to_task (go_tasks e)))" using assms by simp
  then have "i \<in> to_task ` set (go_tasks e)" by (auto simp: canonical_candidates_def)
  then show thesis using that find_task_None [of i e] by (cases "find_task i e") auto
qed

text \<open>
  A retained generation answers a request for one task as follows. The exact name wins. When
  no task has that name and exactly one retained task starts with it, this one is answered and
  reported as resolved. Otherwise the request fails: ambiguously with the candidates when
  several tasks start with the name, and with all retained names when none does. The lookup the
  source \<open>expect\<close>s to succeed always does.
\<close>

theorem retrieve_resolves_exactly:
  assumes "find_generation g r = Some e" and "wanted_task task = Some w"
  shows "retrieve r g task stream tail full =
    (let ids = map to_task (go_tasks e);
         answer = (\<lambda>resolved i. Inr (tail_answer g e resolved
                     [retrieved_task_of (the (find_task i e)) stream tail full]));
         starting = filter (\<lambda>i. starts_with i w) ids
     in if w \<in> set ids then answer None w
        else if length starting = 1 then answer (Some (hd starting)) (hd starting)
        else if starting = [] then Inl (TaskNotFound w ids False)
        else Inl (TaskNotFound w starting True))"
proof (cases "find_task w e")
  case (Some t)
  then have "w \<in> set (map to_task (go_tasks e))" by (auto dest: find_task_SomeD)
  with Some assms show ?thesis by (simp add: retrieve_def Let_def)
next
  case None
  then have notin: "w \<notin> set (map to_task (go_tasks e))" by (simp add: find_task_None)
  let ?c = "canonical_candidates w (map to_task (go_tasks e))"
  consider "?c = []" | i where "?c = [i]" | i j cs where "?c = i # j # cs"
    by (metis neq_Nil_conv)
  then show ?thesis
  proof cases
    case (2 i)
    then obtain t where "find_task i e = Some t" by (rule single_candidate)
    with 2 None notin assms show ?thesis
      by (simp add: retrieve_def Let_def canonical_candidates_def)
  qed (use None notin assms in \<open>simp_all add: retrieve_def Let_def canonical_candidates_def\<close>)
qed

definition demo_registry :: output_registry where
  "demo_registry =
     record_output 1 ''test unit'' demo_capture None None
       (record_output 1 ''build'' demo_capture None None registry_new)"

lemma demo_registry_tasks:
  "find_generation 1 demo_registry =
     Some \<lparr>go_generation = 1, go_revision = None, go_revision_hash = None,
       go_tasks = [recorded_task ''build'' demo_capture, recorded_task ''test unit'' demo_capture],
       go_bytes = 4\<rparr>"
  by (simp add: demo_registry_def record_output_def registry_new_def find_generation_def
      recorded_task_def demo_capture_def handle_append_def capture_handle_new_def capture_new_def
      buffer_append_def CAPTURE_STREAM_BYTES_def retained_bytes_def put_task_def old_task_bytes_def
      OUTPUT_RETENTION_BYTES_def OUTPUT_MAX_GENERATIONS_def)

lemma retrieve_resolves_exactly_witness:
  "\<exists>out. retrieve demo_registry 1 (Some ''test'') None None True = Inr out \<and>
     ro_resolved_task out = Some ''test unit''"
proof -
  have "wanted_task (Some ''test'') = Some ''test''" by code_simp
  from retrieve_resolves_exactly [OF demo_registry_tasks this, of None None True]
  show ?thesis by (simp add: starts_with_def tail_answer_def)
qed

section \<open>Failure evidence\<close>

lemma excerpt_lines_spec:
  "n \<le> m \<Longrightarrow> excerpt_lines m ls (x, n, c) =
     (x @ concat (take (m - n) ls), n + min (m - n) (length ls), c \<or> m - n < length ls)"
proof (induction ls arbitrary: x n)
  case (Cons l ls)
  show ?case
  proof (cases "m \<le> n")
    case False
    then have "m - n = Suc (m - Suc n)" by simp
    with False Cons show ?thesis by simp
  qed (use Cons.prems in simp)
qed simp

definition task_lines :: "task_output \<Rightarrow> string list" where
  "task_lines t = lines_of (from_utf8_lossy (cb_bytes (to_stdout t)))
                  @ lines_of (from_utf8_lossy (cb_bytes (to_stderr t)))"

lemma evidence_step_primary:
  assumes "to_task t = p" and "ea_lines a = 0" and "ea_excerpt a = []"
  shows "evidence_step m p t a =
    a\<lparr>ea_excerpt := concat (take m (task_lines t)), ea_lines := min m (length (task_lines t)),
      ea_truncated := (ea_truncated a \<or> cb_truncated (to_stdout t) \<or> cb_truncated (to_stderr t)
                       \<or> m < length (task_lines t)),
      ea_observed := ea_observed a + (observed_bytes (to_stdout t) + observed_bytes (to_stderr t)),
      ea_retained := ea_retained a + task_retained_bytes t\<rparr>"
proof -
  let ?o = "lines_of (from_utf8_lossy (cb_bytes (to_stdout t)))"
  have cut: "m - min m (length ?o) = m - length ?o" by simp
  have two: "min m (length ?o) + min (m - length ?o) k = min m (length ?o + k)" for k by simp
  have less: "m < length ?o \<or> m - length ?o < k \<longleftrightarrow> m < length ?o + k" for k by auto
  show ?thesis
    using assms
    by (auto simp: evidence_step_def Let_def excerpt_lines_spec task_lines_def
        task_retained_bytes_def cut two less)
qed

text \<open>The loop over the retained tasks, whose names are distinct.\<close>

lemma evidence_others:
  "p \<notin> to_task ` set ts \<Longrightarrow>
   fold (evidence_step m p) ts a = a\<lparr>ea_additional := ea_additional a + length ts\<rparr>"
  by (induction ts arbitrary: a) (auto simp: evidence_step_def)

lemma evidence_fold:
  assumes "distinct (map to_task ts)" and "t \<in> set ts" and "ea_lines a = 0" and "ea_excerpt a = []"
  shows "fold (evidence_step m (to_task t)) ts a =
    (evidence_step m (to_task t) t a)\<lparr>ea_additional := ea_additional a + (length ts - 1)\<rparr>"
proof -
  obtain us vs where ts: "ts = us @ t # vs" using assms(2) split_list by metis
  with assms(1) have out: "to_task t \<notin> to_task ` set us" "to_task t \<notin> to_task ` set vs" by auto
  show ?thesis
    using assms(3,4) by (simp add: ts evidence_others [OF out(1)] evidence_others [OF out(2)] evidence_step_primary)
qed

lemma primary_task_Some:
  assumes "primary_task failed ts = Some p"
  shows "p \<in> to_task ` set ts"
    and "(\<exists>t\<in>set ts. to_task t \<in> set failed) \<Longrightarrow> p \<in> set failed"
proof -
  show "p \<in> to_task ` set ts"
    using assms by (auto simp: primary_task_def find_Some_iff split: option.splits list.splits)
  show "(\<exists>t\<in>set ts. to_task t \<in> set failed) \<Longrightarrow> p \<in> set failed"
    using assms by (auto simp: primary_task_def find_Some_iff find_None_iff split: option.splits list.splits)
qed

text \<open>Words without quoting characters are read back as they are.\<close>

definition plain_word :: "string \<Rightarrow> bool" where
  "plain_word w \<longleftrightarrow> quote_char \<notin> set w \<and> backslash \<notin> set w \<and> CHR '' '' \<notin> set w"

lemma sh_words_plain:
  "plain_word w \<Longrightarrow> sh_words (w @ s) (Some v) = sh_words s (Some (v @ w))"
  by (induction w arbitrary: v) (auto simp: plain_word_def)

lemma sh_words_start:
  "plain_word w \<Longrightarrow> w \<noteq> [] \<Longrightarrow> sh_words (w @ s) None = sh_words s (Some w)"
  by (cases w) (auto simp: plain_word_def sh_words_plain [unfolded plain_word_def])

lemma plain_word_show_nat: "plain_word (show_nat n)"
  by (auto simp: plain_word_def dest!: show_nat_digits)

lemma sh_words_quote: "sh_words (shell_quote p @ s) None = sh_words s (Some p)"
  using sh_words_escape by (simp add: shell_quote_def shell_escape_def escaped_quote_def)

lemma legacy_retrieve_command_words:
  "shell_words (legacy_retrieve_command g task) =
     Some [''fzz'', ''control'', ''output'', ''--generation'', show_nat g, ''--task'', task,
           ''--tail'', ''80'']"
  using sh_words_start [OF plain_word_show_nat show_nat_nonempty, of g]
  by (simp add: shell_words_def legacy_retrieve_command_def sh_words_quote)

text \<open>
  The evidence attached to a failed generation is drawn from one task that is retained in that
  generation, a failed one whenever a failed one is retained: it is the first lines of the
  task's output, standard output before standard error, at most \<open>n\<close> of them; its byte count is
  what the task retains; and a POSIX shell reads the printed command back as a request for
  exactly this generation and this task, whatever characters its name has.
\<close>

theorem failure_evidence_names_task:
  assumes "registry_inv r" and "failure_evidence r g n token failed = Some ev"
  shows "\<exists>e t. find_generation g r = Some e \<and> t \<in> set (go_tasks e) \<and>
     ((\<exists>u\<in>set (go_tasks e). to_task u \<in> set failed) \<longrightarrow> to_task t \<in> set failed) \<and>
     fe_excerpt ev = concat (take n (task_lines t)) \<and> fe_lines ev \<le> n \<and>
     fe_retained_bytes ev = task_retained_bytes t \<and>
     shell_words (fe_retrieve ev) =
       Some [''fzz'', ''control'', ''output'', ''--generation'', show_nat g, ''--task'', to_task t,
             ''--tail'', ''80'']"
proof -
  from assms(2) obtain e p where e: "find_generation g r = Some e"
    and p: "primary_task failed (go_tasks e) = Some p"
    by (auto simp: failure_evidence_def split: option.splits)
  from primary_task_Some(1) [OF p] obtain t where t: "t \<in> set (go_tasks e)" "p = to_task t" by auto
  have "e \<in> set (or_generations r)" using e by (auto simp: find_generation_def find_Some_iff)
  then have dist: "distinct (map to_task (go_tasks e))"
    using assms(1) by (auto simp: registry_inv_def registry_ok_def entry_ok_def)
  have ev: "fe_excerpt ev = concat (take n (task_lines t))" "fe_lines ev \<le> n"
    "fe_retained_bytes ev = task_retained_bytes t" "fe_retrieve ev = legacy_retrieve_command g p"
    using assms(2) e p t
    by (auto simp: failure_evidence_def Let_def evidence_fold [OF dist] evidence_step_primary)
  have "(\<exists>u\<in>set (go_tasks e). to_task u \<in> set failed) \<longrightarrow> to_task t \<in> set failed"
    using primary_task_Some(2) [OF p] t by blast
  then show ?thesis
    using e t ev by (intro exI [of _ e] exI [of _ t]) (simp add: legacy_retrieve_command_words)
qed

lemma demo_registry_inv: "registry_inv demo_registry"
  unfolding demo_registry_def registry_inv_def
  by (intro conjI record_output_ok) (simp_all add: registry_ok_def registry_new_def)

lemma failure_evidence_names_task_witness:
  "\<exists>ev e t. failure_evidence demo_registry 1 40 ''fz'' [''test unit''] = Some ev \<and>
     find_generation 1 demo_registry = Some e \<and> t \<in> set (go_tasks e) \<and> to_task t = ''test unit''"
proof -
  obtain ev where ev: "failure_evidence demo_registry 1 40 ''fz'' [''test unit''] = Some ev"
    unfolding failure_evidence_def demo_registry_tasks
    by (simp add: primary_task_def Let_def)
  from failure_evidence_names_task [OF demo_registry_inv this] obtain e t
    where e: "find_generation 1 demo_registry = Some e" and t: "t \<in> set (go_tasks e)"
      and failed: "(\<exists>u\<in>set (go_tasks e). to_task u \<in> set [''test unit'']) \<longrightarrow> to_task t \<in> set [''test unit'']"
    by blast
  from e demo_registry_tasks have "\<exists>u\<in>set (go_tasks e). to_task u \<in> set [''test unit'']" by force
  with failed have "to_task t = ''test unit''" by simp
  with ev e t show ?thesis by blast
qed

text \<open>
  The number the evidence reports as additional failed tasks is the number of all other
  retained tasks of the generation, whether they failed or not.
\<close>

theorem additional_failed_counts_all_tasks:
  assumes "registry_inv r" and "find_generation g r = Some e"
    and "failure_evidence r g n token failed = Some ev"
  shows "fe_additional_failed_tasks ev = length (go_tasks e) - 1"
proof -
  from assms obtain p where p: "primary_task failed (go_tasks e) = Some p"
    by (auto simp: failure_evidence_def split: option.splits)
  from primary_task_Some(1) [OF p] obtain t where t: "t \<in> set (go_tasks e)" "p = to_task t" by auto
  have "e \<in> set (or_generations r)" using assms(2) by (auto simp: find_generation_def find_Some_iff)
  then have dist: "distinct (map to_task (go_tasks e))"
    using assms(1) by (auto simp: registry_inv_def registry_ok_def entry_ok_def)
  show ?thesis
    using assms(2,3) p t by (auto simp: failure_evidence_def Let_def evidence_fold [OF dist])
qed

lemma additional_failed_counts_all_tasks_witness:
  "\<exists>ev. failure_evidence demo_registry 1 40 ''fz'' [''test unit''] = Some ev \<and>
     fe_additional_failed_tasks ev = 1"
proof -
  obtain ev where ev: "failure_evidence demo_registry 1 40 ''fz'' [''test unit''] = Some ev"
    unfolding failure_evidence_def demo_registry_tasks by (simp add: primary_task_def Let_def)
  from additional_failed_counts_all_tasks [OF demo_registry_inv demo_registry_tasks this] ev
  show ?thesis by simp
qed

end
