(* ===== verification/Config_Lifecycle.thy ===== *)
theory Config_Lifecycle
  imports Config_Revision
begin

text \<open>
  The configuration lifecycle source, \<open>src/src/config_lifecycle.rs\<close>: transitions with monotonic
  ordinals, the bounded history and the watchers called after each transition. The wall clock is
  an argument; a watcher is represented by a value of an arbitrary type, and a transition answers
  the watchers it calls.
\<close>

definition LIFECYCLE_HISTORY_BOUND :: nat where "LIFECYCLE_HISTORY_BOUND = 32"

datatype config_phase = PhaseIdle | ConfigReloading | ConfigReloaded | ConfigInvalid

record config_transition =
  ct_phase :: config_phase
  ct_revision :: "nat option"
  ct_revision_hash :: "string option"
  ct_reason :: "string option"
  ct_ordinal :: nat
  ct_at_epoch_ms :: nat

record 'w config_lifecycle =
  lc_current :: config_transition
  lc_history :: "config_transition list"
  lc_ordinal :: nat
  lc_watchers :: "'w list"

definition transition_new ::
  "nat \<Rightarrow> config_phase \<Rightarrow> nat option \<Rightarrow> string option \<Rightarrow> string option \<Rightarrow> nat \<Rightarrow> config_transition" where
  "transition_new now phase revision revision_hash reason ordinal =
     \<lparr>ct_phase = phase, ct_revision = revision, ct_revision_hash = revision_hash,
      ct_reason = reason, ct_ordinal = ordinal, ct_at_epoch_ms = now\<rparr>"

definition lifecycle_new :: "nat \<Rightarrow> 'w config_lifecycle" where
  "lifecycle_new now =
     \<lparr>lc_current = transition_new now PhaseIdle None None None 0, lc_history = [], lc_ordinal = 0,
      lc_watchers = []\<rparr>"

text \<open>The update under the lock: the new current transition, pushed to the history, whose front is
  popped while it is too long.\<close>

definition lifecycle_push :: "config_transition \<Rightarrow> 'w config_lifecycle \<Rightarrow> 'w config_lifecycle" where
  "lifecycle_push t l =
     l\<lparr>lc_ordinal := ct_ordinal t, lc_current := t,
       lc_history := pop_while_over LIFECYCLE_HISTORY_BOUND (lc_history l @ [t])\<rparr>"

definition lifecycle_transition ::
  "nat \<Rightarrow> config_phase \<Rightarrow> config_revision option \<Rightarrow> string option \<Rightarrow> 'w config_lifecycle
   \<Rightarrow> config_transition \<times> 'w list \<times> 'w config_lifecycle" where
  "lifecycle_transition now phase revision reason l =
     (let t = transition_new now phase (map_option rev_number revision)
                (map_option rev_hash revision) reason (lc_ordinal l + 1)
      in (t, lc_watchers l, lifecycle_push t l))"

definition reloading ::
  "nat \<Rightarrow> config_revision option \<Rightarrow> 'w config_lifecycle \<Rightarrow> config_transition \<times> 'w list \<times> 'w config_lifecycle" where
  "reloading now revision l = lifecycle_transition now ConfigReloading revision None l"

definition reloaded ::
  "nat \<Rightarrow> config_revision \<Rightarrow> 'w config_lifecycle \<Rightarrow> config_transition \<times> 'w list \<times> 'w config_lifecycle" where
  "reloaded now revision l = lifecycle_transition now ConfigReloaded (Some revision) None l"

definition lifecycle_invalid ::
  "nat \<Rightarrow> config_revision option \<Rightarrow> string \<Rightarrow> 'w config_lifecycle
   \<Rightarrow> config_transition \<times> 'w list \<times> 'w config_lifecycle" where
  "lifecycle_invalid now live_revision reason l =
     lifecycle_transition now ConfigInvalid live_revision (Some reason) l"

definition lifecycle_watch :: "'w \<Rightarrow> 'w config_lifecycle \<Rightarrow> 'w config_lifecycle" where
  "lifecycle_watch w l = l\<lparr>lc_watchers := lc_watchers l @ [w]\<rparr>"

section \<open>The bounded history\<close>

interpretation transitions: bounded_history lifecycle_push lc_history "\<lambda>_. True" LIFECYCLE_HISTORY_BOUND
  by unfold_locales
    (simp_all add: lifecycle_push_def pop_while_over_push LIFECYCLE_HISTORY_BOUND_def)

datatype lifecycle_request =
    ReqReloading "config_revision option"
  | ReqReloaded config_revision
  | ReqInvalid "config_revision option" string

fun lifecycle_step :: "nat \<times> lifecycle_request \<Rightarrow> 'w config_lifecycle \<Rightarrow> 'w config_lifecycle" where
  "lifecycle_step (now, ReqReloading r) l = snd (snd (reloading now r l))"
| "lifecycle_step (now, ReqReloaded r) l = snd (snd (reloaded now r l))"
| "lifecycle_step (now, ReqInvalid r reason) l = snd (snd (lifecycle_invalid now r reason l))"

text \<open>The history holds the transitions of the last ordinals, in order, without a gap, and ends
  with the current one.\<close>

definition lifecycle_inv :: "'w config_lifecycle \<Rightarrow> bool" where
  "lifecycle_inv l \<longleftrightarrow>
     length (lc_history l) \<le> LIFECYCLE_HISTORY_BOUND \<and>
     length (lc_history l) \<le> lc_ordinal l \<and>
     map ct_ordinal (lc_history l) = [Suc (lc_ordinal l - length (lc_history l))..<Suc (lc_ordinal l)] \<and>
     (lc_history l \<noteq> [] \<longrightarrow> last (lc_history l) = lc_current l) \<and>
     (lc_history l = [] \<longrightarrow> lc_ordinal l = 0) \<and> ct_ordinal (lc_current l) = lc_ordinal l"

lemma lifecycle_push_inv:
  assumes inv: "lifecycle_inv l" and t: "ct_ordinal t = Suc (lc_ordinal l)"
  shows "lifecycle_inv (lifecycle_push t l)"
proof -
  let ?h = "lc_history l" and ?b = LIFECYCLE_HISTORY_BOUND
  define k where "k = Suc (length ?h) - ?b"
  have h': "lc_history (lifecycle_push t l) = drop k (?h @ [t])"
    using transitions.entries_record [where s = l and x = t] by (simp add: push_bounded_def k_def)
  have k: "k \<le> length ?h" using transitions.bound_pos by (simp add: k_def)
  have "map ct_ordinal (drop k (?h @ [t])) = drop k (map ct_ordinal ?h @ [Suc (lc_ordinal l)])"
    using k by (simp add: drop_map t)
  also have "map ct_ordinal ?h @ [Suc (lc_ordinal l)] = [Suc (lc_ordinal l - length ?h)..<Suc (Suc (lc_ordinal l))]"
    using inv by (auto simp: lifecycle_inv_def)
  finally have ords: "map ct_ordinal (drop k (?h @ [t])) = [Suc (lc_ordinal l - length ?h) + k..<Suc (Suc (lc_ordinal l))]"
    by (simp only: drop_upt)
  have len: "length (drop k (?h @ [t])) = Suc (length ?h) - k" by simp
  show ?thesis
    using inv k ords transitions.length_bound [where s = l and x = t]
      transitions.newest_last [where s = l and x = t]
    unfolding lifecycle_inv_def h' by (auto simp: lifecycle_push_def t Suc_diff_le)
qed

lemma lifecycle_inv_step [fzz_inv]: "lifecycle_inv l \<Longrightarrow> lifecycle_inv (lifecycle_step x l)"
  by (cases "(x, l)" rule: lifecycle_step.cases)
    (auto simp: reloading_def reloaded_def lifecycle_invalid_def lifecycle_transition_def
      transition_new_def Let_def intro!: lifecycle_push_inv)

interpretation lifecycle: event_observer lifecycle_step lifecycle_inv
  by unfold_locales (rule lifecycle_inv_step)

text \<open>
  After every sequence of reload transitions the retained history is the last at most 32
  transitions, in order and without a gap in their ordinals; the newest of them is the current
  transition.
\<close>

theorem lifecycle_history_gapless: "lifecycle_inv (fold lifecycle_step xs (lifecycle_new now))"
  by (rule lifecycle.fold_inv) (simp add: lifecycle_inv_def lifecycle_new_def transition_new_def)

end
