(* ===== verification/Awaiting.thy ===== *)
theory Awaiting
  imports Watcher_State Output_Retrieval Config_Lifecycle
begin

text \<open>
  Atomic await and freshness, \<open>src/src/awaiting.rs\<close>: the observation the coordinator keeps of the
  event stream, the freshness classification, and the await loop.

  The loop waits on a condition variable. What it can observe is a list of rounds: the
  observation and the snapshot it reads under the lock, the time, and, after the wait, the
  observation, the snapshot and the answer of the disconnect probe. The loop consumes one round
  per iteration; \<^const>\<open>None\<close> means that it is still waiting when the rounds end.

  Shown: the coordinator is the bounded log of terminal outcomes, an exact await answers the last
  outcome of its generation, the loop answers at the first round at which it can, and a result
  classified as current is about the latest generation any event named.
\<close>

section \<open>Data\<close>

definition TERMINAL_HISTORY_BOUND :: nat where "TERMINAL_HISTORY_BOUND = 256"

datatype terminal_reason =
  TR_Passed | TR_Failed | TR_Cancelled | TR_Superseded | TR_Timeout | TR_Disconnected | TR_Restarted

datatype freshness = Current | Stale | Unknown

record pending_work =
  pw_debounce_active :: bool
  pw_queued_batches :: nat

definition pending_is_empty :: "pending_work \<Rightarrow> bool" where
  "pending_is_empty p \<longleftrightarrow> \<not> pw_debounce_active p \<and> pw_queued_batches p = 0"

datatype await_mode = After nat | Exact nat

record terminal_record =
  tr_generation :: nat
  tr_reason :: terminal_reason
  tr_superseded_by :: "nat option"

record await_inner =
  aw_latest_generation :: nat
  aw_latest_batch :: "nat option"
  aw_terminal :: "terminal_record list"
  aw_pending :: pending_work

definition await_inner_default :: await_inner where
  "await_inner_default =
     \<lparr>aw_latest_generation = 0, aw_latest_batch = None, aw_terminal = [],
      aw_pending = \<lparr>pw_debounce_active = False, pw_queued_batches = 0\<rparr>\<rparr>"

record await_result =
  ar_snapshot :: watcher_state
  ar_terminal_reason :: terminal_reason
  ar_latest_generation :: nat
  ar_latest_batch :: "nat option"
  ar_pending_work :: pending_work
  ar_freshness :: freshness
  ar_failure_evidence :: "evidence option"
  ar_config_lifecycle :: "config_transition option"

section \<open>Observation\<close>

definition record_outcome :: "terminal_record \<Rightarrow> await_inner \<Rightarrow> await_inner" where
  "record_outcome rec i =
     i\<lparr>aw_terminal := pop_while_over TERMINAL_HISTORY_BOUND (aw_terminal i @ [rec])\<rparr>"

definition finished_reason :: "string list \<Rightarrow> terminal_reason" where
  "finished_reason fs = (if fs = [] then TR_Passed else TR_Failed)"

definition cancelled_reason :: "nat option \<Rightarrow> terminal_reason" where
  "cancelled_reason superseded_by = (if superseded_by \<noteq> None then TR_Superseded else TR_Cancelled)"

definition opt_or_zero :: "nat option \<Rightarrow> nat" where
  "opt_or_zero x = (case x of Some n \<Rightarrow> n | None \<Rightarrow> 0)"

fun await_observe :: "event \<Rightarrow> await_inner \<Rightarrow> await_inner" where
  "await_observe (EvStarted st) i =
     (let i1 = i\<lparr>aw_latest_generation := max (aw_latest_generation i) (st_run_id st)\<rparr> in
      case st_batch st of Some b \<Rightarrow> i1\<lparr>aw_latest_batch := Some b\<rparr> | None \<Rightarrow> i1)"
| "await_observe (EvFinished run_id superseded_by elapsed fs) i =
     record_outcome \<lparr>tr_generation = run_id, tr_reason = finished_reason fs, tr_superseded_by = superseded_by\<rparr>
       (i\<lparr>aw_latest_generation :=
            max (max (aw_latest_generation i) run_id) (opt_or_zero superseded_by)\<rparr>)"
| "await_observe (EvCancelled run_id superseded_by) i =
     record_outcome \<lparr>tr_generation = run_id, tr_reason = cancelled_reason superseded_by,
                      tr_superseded_by = superseded_by\<rparr>
       (i\<lparr>aw_latest_generation :=
            max (max (aw_latest_generation i) run_id) (opt_or_zero superseded_by)\<rparr>)"
| "await_observe (EvTick t g) i = i"
| "await_observe (EvTaskTerminal r t) i = i"
| "await_observe (EvRecoveryPhase r j p oc) i = i"

definition note_batch :: "nat \<Rightarrow> await_inner \<Rightarrow> await_inner" where
  "note_batch batch_id i =
     i\<lparr>aw_latest_batch := Some batch_id, aw_pending := (aw_pending i)\<lparr>pw_debounce_active := True\<rparr>\<rparr>"

definition note_batch_complete :: "await_inner \<Rightarrow> await_inner" where
  "note_batch_complete i = i\<lparr>aw_pending := (aw_pending i)\<lparr>pw_debounce_active := False\<rparr>\<rparr>"

definition snapshot_facts :: "await_inner \<Rightarrow> nat \<times> nat option \<times> pending_work" where
  "snapshot_facts i = (aw_latest_generation i, aw_latest_batch i, aw_pending i)"

section \<open>Await\<close>

fun evaluate :: "await_inner \<Rightarrow> await_mode \<Rightarrow> (terminal_reason \<times> nat) option" where
  "evaluate i (Exact g) =
     map_option (\<lambda>r. (tr_reason r, tr_generation r))
       (find (\<lambda>r. tr_generation r = g) (rev (aw_terminal i)))"
| "evaluate i (After g) =
     map_option (\<lambda>r. (tr_reason r, tr_generation r))
       (find (\<lambda>r. tr_generation r > g) (rev (aw_terminal i)))"

definition is_terminal_state :: "watcher_execution_state \<Rightarrow> bool" where
  "is_terminal_state s \<longleftrightarrow> s = WS_Passed \<or> s = WS_Failed \<or> s = WS_Cancelled"

definition classify :: "watcher_state \<Rightarrow> nat \<Rightarrow> pending_work \<Rightarrow> freshness" where
  "classify snapshot latest_generation pending =
     (let terminal = is_terminal_state (ws_state snapshot);
          no_pending = pending_is_empty pending
      in if ws_generation snapshot = latest_generation \<and> terminal \<and> no_pending then Current
         else if latest_generation > ws_generation snapshot \<or> \<not> no_pending then Stale
         else Unknown)"

definition build_result ::
  "await_inner \<Rightarrow> watcher_state \<Rightarrow> terminal_reason \<Rightarrow> nat \<Rightarrow> output_registry option \<Rightarrow> string
   \<Rightarrow> 'w config_lifecycle option \<Rightarrow> await_result" where
  "build_result i snapshot reason generation outputs token lifecycle =
     \<lparr>ar_snapshot = snapshot, ar_terminal_reason = reason,
      ar_latest_generation = aw_latest_generation i, ar_latest_batch = aw_latest_batch i,
      ar_pending_work = aw_pending i,
      ar_freshness = classify snapshot (aw_latest_generation i) (aw_pending i),
      ar_failure_evidence =
        (if reason = TR_Failed
         then case outputs of
                None \<Rightarrow> None
              | Some r \<Rightarrow> failure_evidence r generation DEFAULT_FAILURE_EVIDENCE_LINES token
                            (failed_tasks snapshot)
         else None),
      ar_config_lifecycle = map_option lc_current lifecycle\<rparr>"

text \<open>One round of the loop; \<open>round_gone\<close> is the answer of the probe, when there is one.\<close>

record 'w await_round =
  round_inner :: await_inner
  round_snapshot :: watcher_state
  round_now :: duration
  round_woken :: await_inner
  round_woken_snapshot :: watcher_state
  round_gone :: "bool option"
  round_outputs :: "output_registry option"
  round_lifecycle :: "'w config_lifecycle option"

fun await_generation ::
  "await_mode \<Rightarrow> duration \<Rightarrow> string \<Rightarrow> 'w await_round list \<Rightarrow> await_result option" where
  "await_generation mode deadline token [] = None"
| "await_generation mode deadline token (r # rs) =
     (case evaluate (round_inner r) mode of
        Some (reason, generation) \<Rightarrow>
          Some (build_result (round_inner r) (round_snapshot r) reason generation (round_outputs r)
                  token (round_lifecycle r))
      | None \<Rightarrow>
          if round_now r \<ge> deadline
          then Some (build_result (round_inner r) (round_snapshot r) TR_Timeout 0 (round_outputs r)
                       token (round_lifecycle r))
          else if round_gone r = Some True
          then Some (build_result (round_woken r) (round_woken_snapshot r) TR_Disconnected 0
                       (round_outputs r) token (round_lifecycle r))
          else await_generation mode deadline token rs)"

section \<open>The coordinator is the log of terminal outcomes\<close>

interpretation outcomes: bounded_history record_outcome aw_terminal "\<lambda>_. True" TERMINAL_HISTORY_BOUND
  by unfold_locales
    (simp_all add: record_outcome_def pop_while_over_push TERMINAL_HISTORY_BOUND_def)

fun outcome_of :: "event \<Rightarrow> terminal_record list" where
  "outcome_of (EvFinished run_id superseded_by elapsed fs) =
     [\<lparr>tr_generation = run_id, tr_reason = finished_reason fs, tr_superseded_by = superseded_by\<rparr>]"
| "outcome_of (EvCancelled run_id superseded_by) =
     [\<lparr>tr_generation = run_id, tr_reason = cancelled_reason superseded_by, tr_superseded_by = superseded_by\<rparr>]"
| "outcome_of _ = []"

definition terminal_log :: "event list \<Rightarrow> terminal_record list" where
  "terminal_log es = concat (map outcome_of es)"

lemma terminal_observe: "aw_terminal (await_observe e i) = aw_terminal (fold record_outcome (outcome_of e) i)"
  by (cases e) (simp_all add: record_outcome_def Let_def split: option.split)

lemma terminal_push:
  "aw_terminal (await_observe e i) =
     fold (\<lambda>x xs. push_bounded TERMINAL_HISTORY_BOUND x xs) (outcome_of e) (aw_terminal i)"
  unfolding terminal_observe
  by (cases e) (simp_all add: outcomes.entries_record)

lemma terminal_fold:
  assumes "aw_terminal i = drop (length ys - TERMINAL_HISTORY_BOUND) ys"
  shows "aw_terminal (fold await_observe es i) =
           drop (length (ys @ terminal_log es) - TERMINAL_HISTORY_BOUND) (ys @ terminal_log es)"
  using assms
proof (induction es arbitrary: i ys)
  case Nil
  then show ?case by (simp add: terminal_log_def)
next
  case (Cons e es)
  have "aw_terminal (await_observe e i) =
      drop (length (ys @ outcome_of e) - TERMINAL_HISTORY_BOUND) (ys @ outcome_of e)"
    unfolding terminal_push using Cons.prems by (cases e) (simp_all add: push_bounded_drop)
  from Cons.IH [OF this] show ?case by (simp add: terminal_log_def)
qed

text \<open>The latest generation is the greatest one any event named.\<close>

definition named_generations :: "event list \<Rightarrow> nat list" where
  "named_generations es = concat (map event_generations es)"

lemma latest_observe: "aw_latest_generation (await_observe e i) = fold max (event_generations e) (aw_latest_generation i)"
  by (cases e) (auto simp: record_outcome_def Let_def opt_or_zero_def max.commute split: option.split)

lemma latest_fold:
  "aw_latest_generation (fold await_observe es i) = fold max (named_generations es) (aw_latest_generation i)"
  by (induction es arbitrary: i) (simp_all add: latest_observe named_generations_def)

lemma fold_max: "fold max xs (a::nat) \<ge> a" "x \<in> set xs \<Longrightarrow> x \<le> fold max xs a"
proof -
  show ge: "fold max xs a \<ge> a" for a :: nat and xs
  proof (induction xs arbitrary: a)
    case (Cons x xs)
    have "max x a \<le> fold max xs (max x a)" by (rule Cons.IH)
    then show ?case by simp
  qed simp
  show "x \<in> set xs \<Longrightarrow> x \<le> fold max xs a"
  proof (induction xs arbitrary: a)
    case (Cons y xs)
    have "max y a \<le> fold max xs (max y a)" by (rule ge)
    with Cons show ?case by auto
  qed simp
qed

definition coordinate :: "event list \<Rightarrow> await_inner" where
  "coordinate es = fold await_observe es await_inner_default"


section \<open>Exact awaits\<close>

lemma find_skip: "\<forall>v\<in>set vs. \<not> P v \<Longrightarrow> P x \<Longrightarrow> find P (vs @ x # us) = Some x"
  by (induction vs) auto

lemma find_rev_last: "P x \<Longrightarrow> \<forall>v\<in>set vs. \<not> P v \<Longrightarrow> find P (rev (us @ x # vs)) = Some x"
  using find_skip [of "rev vs" P x "rev us"] by simp

text \<open>
  An exact await answers the outcome of its generation: when generation \<open>g\<close> reached the
  outcome recorded by the event \<open>e\<close>, no later event ended \<open>g\<close> again, and fewer than 256 outcomes
  followed, evaluating the await returns exactly that outcome, whatever other generations did.
\<close>

theorem exact_await_answers_outcome:
  assumes "outcome_of e = [rec]" and "tr_generation rec = g"
    and "\<forall>r\<in>set (terminal_log later). tr_generation r \<noteq> g"
    and "length (terminal_log later) < TERMINAL_HISTORY_BOUND"
  shows "evaluate (coordinate (earlier @ e # later)) (Exact g) = Some (tr_reason rec, g)"
proof -
  let ?us = "terminal_log earlier" and ?vs = "terminal_log later"
  have log: "terminal_log (earlier @ e # later) = ?us @ rec # ?vs"
    using assms(1) by (simp add: terminal_log_def)
  define n where "n = length (?us @ rec # ?vs) - TERMINAL_HISTORY_BOUND"
  have n: "n \<le> length ?us" using assms(4) by (simp add: n_def)
  have "aw_terminal (coordinate (earlier @ e # later)) = drop n (?us @ rec # ?vs)"
    using terminal_fold [of await_inner_default "[]" "earlier @ e # later"]
    by (simp add: coordinate_def await_inner_default_def log n_def)
  also have "\<dots> = drop n ?us @ rec # ?vs" using n by simp
  finally have "find (\<lambda>r. tr_generation r = g) (rev (aw_terminal (coordinate (earlier @ e # later)))) = Some rec"
    using assms(2,3) by (simp only:) (rule find_rev_last, simp_all)
  then show ?thesis using assms(2) by simp
qed

lemma exact_await_answers_outcome_witness:
  "evaluate (coordinate [demo_started 1, EvCancelled 1 (Some 2), demo_started 2, EvFinished 2 None 5 []])
     (Exact 1) = Some (TR_Superseded, 1)"
proof -
  let ?rec = "\<lparr>tr_generation = 1, tr_reason = TR_Superseded, tr_superseded_by = Some 2\<rparr>"
  have e: "outcome_of (EvCancelled 1 (Some 2)) = [?rec]" by (simp add: cancelled_reason_def)
  have later: "\<forall>r\<in>set (terminal_log [demo_started 2, EvFinished 2 None 5 []]). tr_generation r \<noteq> 1"
    "length (terminal_log [demo_started 2, EvFinished 2 None 5 []]) < TERMINAL_HISTORY_BOUND"
    by (simp_all add: terminal_log_def demo_started_def TERMINAL_HISTORY_BOUND_def)
  from exact_await_answers_outcome [OF e _ later, of "[demo_started 1]"] show ?thesis by simp
qed

section \<open>The await loop\<close>

text \<open>A round at which the loop can answer.\<close>

definition answers :: "await_mode \<Rightarrow> duration \<Rightarrow> 'w await_round \<Rightarrow> bool" where
  "answers mode deadline r \<longleftrightarrow>
     evaluate (round_inner r) mode \<noteq> None \<or> round_now r \<ge> deadline \<or> round_gone r = Some True"

lemma await_generation_None: "await_generation mode dl token rs = None \<longleftrightarrow> (\<forall>r\<in>set rs. \<not> answers mode dl r)"
  by (induction rs) (auto simp: answers_def split: option.splits)

lemma await_generation_first:
  assumes "\<forall>r\<in>set rs. \<not> answers mode dl r"
  shows "await_generation mode dl token (rs @ r # rest) = await_generation mode dl token (r # rest)"
  using assms
proof (induction rs)
  case (Cons a rs)
  have "\<not> answers mode dl a" using Cons.prems by simp
  then have "evaluate (round_inner a) mode = None" "\<not> dl \<le> round_now a" "round_gone a \<noteq> Some True"
    unfolding answers_def by blast+
  with Cons show ?case by simp
qed simp

text \<open>
  C16. The await loop answers at the first round at which it can, and truthfully: it is still
  waiting only while no round had a matching outcome, reached the deadline or lost its client.
  The answer at that round is the matching outcome if there is one, in preference to a timeout;
  a timeout is reported only at or after the deadline and only when the observation has no
  matching outcome; and the answer is built from the observation of that round.
\<close>

theorem await_answers_first_round:
  assumes "\<forall>r\<in>set rs. \<not> answers mode dl r" and "answers mode dl r"
  shows "await_generation mode dl token rs = None \<and>
    (\<exists>res. await_generation mode dl token (rs @ r # rest) = Some res \<and>
     (case evaluate (round_inner r) mode of
        Some (reason, g) \<Rightarrow>
          res = build_result (round_inner r) (round_snapshot r) reason g (round_outputs r) token (round_lifecycle r)
      | None \<Rightarrow>
          if dl \<le> round_now r
          then ar_terminal_reason res = TR_Timeout \<and> ar_latest_generation res = aw_latest_generation (round_inner r)
          else ar_terminal_reason res = TR_Disconnected \<and> ar_latest_generation res = aw_latest_generation (round_woken r)))"
  unfolding await_generation_first [OF assms(1)]
  using assms await_generation_None [of mode dl token rs]
  by (auto simp: answers_def build_result_def split: option.split)

definition demo_round :: "event list \<Rightarrow> duration \<Rightarrow> unit await_round" where
  "demo_round es now =
     \<lparr>round_inner = coordinate es, round_snapshot = watch_events es, round_now = now,
      round_woken = coordinate es, round_woken_snapshot = watch_events es, round_gone = None,
      round_outputs = None, round_lifecycle = None\<rparr>"

lemma await_answers_first_round_witness:
  "\<exists>res. await_generation (Exact 1) 100 ''fz''
     [demo_round [demo_started 1] 10, demo_round [demo_started 1, EvFinished 1 None 5 []] 20] = Some res"
proof -
  have wait: "\<forall>r\<in>set [demo_round [demo_started 1] 10]. \<not> answers (Exact 1) 100 r"
    by (simp add: answers_def demo_round_def coordinate_def demo_started_def await_inner_default_def)
  have ans: "answers (Exact 1) 100 (demo_round [demo_started 1, EvFinished 1 None 5 []] 20)"
    by (simp add: answers_def demo_round_def coordinate_def demo_started_def await_inner_default_def
        record_outcome_def TERMINAL_HISTORY_BOUND_def)
  from await_answers_first_round [OF wait ans, of "''fz''" "[]"] show ?thesis
    unfolding append.simps by blast
qed

section \<open>Freshness\<close>

text \<open>
  Freshness never overclaims: when the view and the observation of the same event stream are
  classified as current, the view is terminal, no debounce work is pending, and no event of the
  whole stream named a generation newer than the one on view. A pending batch or a newer
  generation is always classified as stale.
\<close>

theorem freshness_never_overclaims:
  fixes es pending
  defines "fresh \<equiv> classify (watch_events es) (aw_latest_generation (coordinate es)) pending"
  shows "(fresh = Current \<longleftrightarrow>
           is_terminal_state (ws_state (watch_events es)) \<and> pending_is_empty pending \<and>
           ws_generation (watch_events es) = fold max (named_generations es) 0) \<and>
         (fresh = Current \<longrightarrow>
           (\<forall>g\<in>set (named_generations es). g \<le> ws_generation (watch_events es))) \<and>
         (\<not> pending_is_empty pending \<or>
           (\<exists>g\<in>set (named_generations es). ws_generation (watch_events es) < g) \<longrightarrow> fresh = Stale)"
proof -
  let ?latest = "fold max (named_generations es) 0"
  have latest: "aw_latest_generation (coordinate es) = ?latest"
    using latest_fold [of es await_inner_default] by (simp add: coordinate_def await_inner_default_def)
  have bound: "\<forall>g\<in>set (named_generations es). g \<le> ?latest" using fold_max(2) by blast
  have newer: "ws_generation (watch_events es) < ?latest"
    if "\<exists>g\<in>set (named_generations es). ws_generation (watch_events es) < g"
    using that bound by (meson order.strict_trans2)
  show ?thesis
    unfolding fresh_def latest using bound newer
    by (simp add: classify_def Let_def) (metis leD)
qed

lemma freshness_never_overclaims_witness:
  "classify (watch_events [demo_started 1, EvFinished 1 None 5 []])
     (aw_latest_generation (coordinate [demo_started 1, EvFinished 1 None 5 []]))
     \<lparr>pw_debounce_active = True, pw_queued_batches = 0\<rparr> = Stale"
  using freshness_never_overclaims [of "[demo_started 1, EvFinished 1 None 5 []]"
      "\<lparr>pw_debounce_active = True, pw_queued_batches = 0\<rparr>"]
  by (simp add: pending_is_empty_def)

end
