(* ===== verification/Ordered_Map.thy ===== *)
theory Ordered_Map
  imports Fzz_Prelude
begin

text \<open>
  The standard library's \<open>BTreeMap\<close>: an association list in strictly ascending key order, with the
  operations the sources use. Lookup after an update, and the order every operation keeps, are
  the laws the components rely on.
\<close>

type_synonym ('k, 'v) btree = "('k \<times> 'v) list"

definition bt_ok :: "('k::linorder, 'v) btree \<Rightarrow> bool" where
  "bt_ok m \<longleftrightarrow> sorted_wrt (<) (map fst m)"

definition bt_get :: "('k, 'v) btree \<Rightarrow> 'k \<Rightarrow> 'v option" where
  "bt_get m k = map_of m k"

fun bt_insert :: "'k::linorder \<Rightarrow> 'v \<Rightarrow> ('k, 'v) btree \<Rightarrow> ('k, 'v) btree" where
  "bt_insert k v [] = [(k, v)]"
| "bt_insert k v ((k', v') # m) =
     (if k < k' then (k, v) # (k', v') # m
      else if k = k' then (k, v) # m
      else (k', v') # bt_insert k v m)"

definition bt_remove :: "'k \<Rightarrow> ('k, 'v) btree \<Rightarrow> ('k, 'v) btree" where
  "bt_remove k m = filter (\<lambda>p. fst p \<noteq> k) m"

text \<open>\<open>pop_first\<close>: the entry with the least key, if any, and the rest.\<close>

definition bt_pop_first :: "('k, 'v) btree \<Rightarrow> ('k, 'v) btree" where
  "bt_pop_first m = tl m"

text \<open>\<open>entry(k).or_default()\<close> followed by an update of the entry.\<close>

definition bt_entry :: "'v \<Rightarrow> 'k::linorder \<Rightarrow> ('v \<Rightarrow> 'v) \<Rightarrow> ('k, 'v) btree \<Rightarrow> ('k, 'v) btree" where
  "bt_entry dflt k f m =
     bt_insert k (f (case bt_get m k of Some v \<Rightarrow> v | None \<Rightarrow> dflt)) m"

lemma bt_get_Nil [simp]: "bt_get [] k = None"
  by (simp add: bt_get_def)

lemma bt_get_Cons: "bt_get ((k', v) # m) k = (if k = k' then Some v else bt_get m k)"
  by (simp add: bt_get_def)

lemma keys_insert [simp]: "set (map fst (bt_insert k v m)) = insert k (fst ` set m)"
  by (induction k v m rule: bt_insert.induct) auto

lemma bt_ok_insert [simp, intro]: "bt_ok m \<Longrightarrow> bt_ok (bt_insert k v m)"
proof (induction k v m rule: bt_insert.induct)
  case (2 k v k' v' m)
  have keys: "fst ` set (bt_insert k v m) = insert k (fst ` set m)" using keys_insert by simp
  have "x < y" if "k' < k" "bt_ok ((k', v') # m)" "x = k'" "y \<in> fst ` set (bt_insert k v m)" for x y
    using that keys by (auto simp: bt_ok_def)
  with 2 show ?case by (auto simp: bt_ok_def not_less_iff_gr_or_eq)
qed (simp add: bt_ok_def)

lemma bt_get_less: "bt_ok ((k', v') # m) \<Longrightarrow> k < k' \<Longrightarrow> bt_get m k = None"
proof -
  assume ok: "bt_ok ((k', v') # m)" and less: "k < k'"
  have "k \<notin> fst ` set m" using ok less by (force simp: bt_ok_def)
  then show ?thesis by (simp add: bt_get_def map_of_eq_None_iff)
qed

lemma bt_get_insert: "bt_ok m \<Longrightarrow> bt_get (bt_insert k v m) j = (if j = k then Some v else bt_get m j)"
proof (induction k v m rule: bt_insert.induct)
  case (2 k v k' v' m)
  then have "bt_ok m" by (simp add: bt_ok_def)
  with 2 show ?case by (auto simp: bt_get_Cons)
qed (simp add: bt_get_Cons)

lemma bt_ok_Nil [simp]: "bt_ok []"
  by (simp add: bt_ok_def)

lemma bt_ok_remove [simp, intro]: "bt_ok m \<Longrightarrow> bt_ok (bt_remove k m)"
  by (induction m) (auto simp: bt_ok_def bt_remove_def)

lemma bt_get_remove: "bt_get (bt_remove k m) j = (if j = k then None else bt_get m j)"
  by (induction m) (auto simp: bt_get_def bt_remove_def)

lemma bt_ok_pop [simp, intro]: "bt_ok m \<Longrightarrow> bt_ok (bt_pop_first m)"
  by (cases m) (auto simp: bt_ok_def bt_pop_first_def)

lemma bt_ok_entry [simp, intro]: "bt_ok m \<Longrightarrow> bt_ok (bt_entry d k f m)"
  by (simp add: bt_entry_def)

lemma bt_get_entry:
  "bt_ok m \<Longrightarrow> bt_get (bt_entry d k f m) j =
     (if j = k then Some (f (case bt_get m k of Some v \<Rightarrow> v | None \<Rightarrow> d)) else bt_get m j)"
  by (simp add: bt_entry_def bt_get_insert)

lemma length_bt_insert: "length (bt_insert k v m) \<le> Suc (length m)"
  by (induction k v m rule: bt_insert.induct) auto

lemma length_bt_remove: "length (bt_remove k m) \<le> length m"
  by (simp add: bt_remove_def)

lemma length_bt_pop [simp]: "length (bt_pop_first m) = length m - 1"
  by (simp add: bt_pop_first_def)

lemma bt_get_pop: "bt_get (bt_pop_first m) j = Some v \<Longrightarrow> bt_ok m \<Longrightarrow> bt_get m j = Some v"
proof (cases m)
  case (Cons p ps)
  assume get: "bt_get (bt_pop_first m) j = Some v" and ok: "bt_ok m"
  from get Cons have "j \<in> fst ` set ps" by (force simp: bt_get_def bt_pop_first_def dest: map_of_SomeD)
  with ok Cons have "fst p < j" by (auto simp: bt_ok_def)
  then have "j \<noteq> fst p" by auto
  with get Cons show ?thesis by (simp add: bt_get_def bt_pop_first_def)
qed (simp add: bt_get_def bt_pop_first_def)

text \<open>Two ordered maps with the same lookups are equal.\<close>

lemma bt_append_insert:
  "bt_ok (m @ [(k, v)]) \<Longrightarrow> bt_insert k v m = m @ [(k, v)]"
proof (induction m)
  case (Cons p m)
  obtain k' v' where p: "p = (k', v')" by fastforce
  with Cons.prems have "k' < k" "bt_ok (m @ [(k, v)])" by (simp_all add: bt_ok_def sorted_wrt_append)
  with Cons.IH p show ?case by auto
qed simp

lemma bt_get_absent_last: "bt_ok (m @ [(k, v)]) \<Longrightarrow> bt_get m k = None"
proof -
  assume "bt_ok (m @ [(k, v)])"
  then have "k \<notin> fst ` set m" by (force simp: bt_ok_def sorted_wrt_append)
  then show ?thesis by (simp add: bt_get_def map_of_eq_None_iff)
qed

end
