(* ===== verification/Duration_History.thy ===== *)
theory Duration_History
  imports Ordered_Map
begin

text \<open>
  The bounded duration history and its estimator, \<open>src/src/duration_history.rs\<close>. Durations are
  64 bit words, so that the saturating margin of the recommendation is modelled at its width.

  Shown: an estimate depends on the last twenty successful runs of its signature and nothing
  else, the upper bound is the nearest-rank 90th percentile, the recommended timeout stays
  between ten seconds and fifteen minutes without overflow, and a snapshot is rebuilt exactly.
\<close>

section \<open>Data\<close>

definition SUCCESS_RETENTION :: nat where "SUCCESS_RETENTION = 20"
definition DEFAULT_FLOOR_MS :: u64 where "DEFAULT_FLOOR_MS = 10000"
definition SAFETY_MARGIN_ADDEND_MS :: u64 where "SAFETY_MARGIN_ADDEND_MS = 2000"
definition ABSOLUTE_CAP_MS :: u64 where "ABSOLUTE_CAP_MS = 15 * 60000"

datatype estimate_confidence = NoConfidence | LowConfidence | MediumConfidence | HighConfidence

datatype estimate_source = Measured | Configured

record run_estimate =
  re_typical_ms :: u64
  re_upper_ms :: u64
  re_recommended_timeout_ms :: u64
  re_samples :: nat
  re_confidence :: estimate_confidence
  re_source :: estimate_source

datatype excluded_kind = ExCancelled | ExSuperseded | ExTimedOut

record profile =
  pr_successes :: "u64 list"
  pr_failures :: "u64 list"
  pr_cancelled :: nat
  pr_superseded :: nat
  pr_timed_out :: nat

definition profile_default :: profile where
  "profile_default =
     \<lparr>pr_successes = [], pr_failures = [], pr_cancelled = 0, pr_superseded = 0, pr_timed_out = 0\<rparr>"

record profile_snapshot =
  ps_signature :: string
  ps_successes :: "u64 list"
  ps_failures :: "u64 list"
  ps_cancelled :: nat
  ps_superseded :: nat
  ps_timed_out :: nat

type_synonym duration_history = "(string, profile) btree"

section \<open>Recording\<close>

definition history_new :: duration_history where
  "history_new = []"

text \<open>\<open>push_back\<close>, then one \<open>pop_front\<close> when the deque is too long.\<close>

definition push_sample :: "u64 \<Rightarrow> u64 list \<Rightarrow> u64 list" where
  "push_sample d xs =
     (let ys = xs @ [d] in if length ys > SUCCESS_RETENTION then tl ys else ys)"

definition record_success :: "string \<Rightarrow> u64 \<Rightarrow> duration_history \<Rightarrow> duration_history" where
  "record_success sig d h =
     bt_entry profile_default sig (\<lambda>p. p\<lparr>pr_successes := push_sample d (pr_successes p)\<rparr>) h"

definition record_failure :: "string \<Rightarrow> u64 \<Rightarrow> duration_history \<Rightarrow> duration_history" where
  "record_failure sig d h =
     bt_entry profile_default sig (\<lambda>p. p\<lparr>pr_failures := push_sample d (pr_failures p)\<rparr>) h"

fun count_excluded :: "excluded_kind \<Rightarrow> profile \<Rightarrow> profile" where
  "count_excluded ExCancelled p = p\<lparr>pr_cancelled := pr_cancelled p + 1\<rparr>"
| "count_excluded ExSuperseded p = p\<lparr>pr_superseded := pr_superseded p + 1\<rparr>"
| "count_excluded ExTimedOut p = p\<lparr>pr_timed_out := pr_timed_out p + 1\<rparr>"

definition record_excluded :: "string \<Rightarrow> excluded_kind \<Rightarrow> duration_history \<Rightarrow> duration_history" where
  "record_excluded sig kind h = bt_entry profile_default sig (count_excluded kind) h"

definition success_samples :: "string \<Rightarrow> duration_history \<Rightarrow> nat" where
  "success_samples sig h = (case bt_get h sig of Some p \<Rightarrow> length (pr_successes p) | None \<Rightarrow> 0)"

definition failure_samples :: "string \<Rightarrow> duration_history \<Rightarrow> nat" where
  "failure_samples sig h = (case bt_get h sig of Some p \<Rightarrow> length (pr_failures p) | None \<Rightarrow> 0)"

definition excluded_counts :: "string \<Rightarrow> duration_history \<Rightarrow> nat \<times> nat \<times> nat" where
  "excluded_counts sig h =
     (case bt_get h sig of
        Some p \<Rightarrow> (pr_cancelled p, pr_superseded p, pr_timed_out p)
      | None \<Rightarrow> (0, 0, 0))"

section \<open>Snapshots\<close>

definition snapshot_of :: "string \<times> profile \<Rightarrow> profile_snapshot" where
  "snapshot_of e =
     \<lparr>ps_signature = fst e, ps_successes = pr_successes (snd e), ps_failures = pr_failures (snd e),
      ps_cancelled = pr_cancelled (snd e), ps_superseded = pr_superseded (snd e),
      ps_timed_out = pr_timed_out (snd e)\<rparr>"

definition history_snapshot :: "duration_history \<Rightarrow> profile_snapshot list" where
  "history_snapshot h = map snapshot_of h"

definition extend_profile :: "profile_snapshot \<Rightarrow> profile \<Rightarrow> profile" where
  "extend_profile s p =
     \<lparr>pr_successes = pr_successes p @ ps_successes s, pr_failures = pr_failures p @ ps_failures s,
      pr_cancelled = ps_cancelled s, pr_superseded = ps_superseded s,
      pr_timed_out = ps_timed_out s\<rparr>"

fun from_snapshot_loop :: "profile_snapshot list \<Rightarrow> duration_history \<Rightarrow> duration_history result" where
  "from_snapshot_loop [] h = Inr h"
| "from_snapshot_loop (s # ss) h =
     (if length (ps_successes s) > SUCCESS_RETENTION \<or> length (ps_failures s) > SUCCESS_RETENTION
      then Inl (''profile '' @ [CHR 0x27] @ ps_signature s @ [CHR 0x27]
                @ '' exceeds retention bound ('' @ show_nat SUCCESS_RETENTION @ '' samples)'')
      else from_snapshot_loop ss (bt_entry profile_default (ps_signature s) (extend_profile s) h))"

definition from_snapshot :: "profile_snapshot list \<Rightarrow> duration_history result" where
  "from_snapshot ss = from_snapshot_loop ss history_new"

section \<open>Estimation\<close>

text \<open>\<open>median\<close> and \<open>nearest_rank_p90\<close> of a sorted slice; the mean is taken at 128 bits.\<close>

definition median :: "u64 list \<Rightarrow> u64" where
  "median xs =
     (let n = length xs in
      if n = 0 then 0
      else if n mod 2 = 1 then xs ! (n div 2)
      else of_nat (min ((unat (xs ! (n div 2 - 1)) + unat (xs ! (n div 2))) div 2) (2 ^ 64 - 1)))"

definition div_ceil :: "nat \<Rightarrow> nat \<Rightarrow> nat" where
  "div_ceil a b = (a + b - 1) div b"

definition nearest_rank_p90 :: "u64 list \<Rightarrow> u64" where
  "nearest_rank_p90 xs =
     (let n = length xs in if n = 0 then 0 else xs ! (div_ceil (n * 9) 10 - 1))"

definition recommend_timeout :: "u64 \<Rightarrow> u64 option \<Rightarrow> u64" where
  "recommend_timeout upper_ms configured_floor_ms =
     (let margin = saturating_add (saturating_add upper_ms (upper_ms div 2)) SAFETY_MARGIN_ADDEND_MS;
          floor_ms = max (case configured_floor_ms of Some f \<Rightarrow> f | None \<Rightarrow> 0) DEFAULT_FLOOR_MS
      in min (max margin floor_ms) ABSOLUTE_CAP_MS)"

definition confidence :: "nat \<Rightarrow> estimate_confidence" where
  "confidence samples =
     (if samples = 0 then NoConfidence
      else if samples \<le> 2 then LowConfidence
      else if samples \<le> 9 then MediumConfidence else HighConfidence)"

definition estimate_samples :: "u64 list \<Rightarrow> u64 option \<Rightarrow> run_estimate option" where
  "estimate_samples successes configured_floor_ms =
     (if successes = [] then None
      else
        (let xs = sort successes in
         Some \<lparr>re_typical_ms = median xs, re_upper_ms = nearest_rank_p90 xs,
               re_recommended_timeout_ms = recommend_timeout (nearest_rank_p90 xs) configured_floor_ms,
               re_samples = length xs, re_confidence = confidence (length xs),
               re_source = Measured\<rparr>))"

definition estimate :: "duration_history \<Rightarrow> string \<Rightarrow> u64 option \<Rightarrow> run_estimate option" where
  "estimate h sig configured_floor_ms =
     (case bt_get h sig of
        None \<Rightarrow> None
      | Some p \<Rightarrow> estimate_samples (pr_successes p) configured_floor_ms)"

section \<open>Estimates depend on recent successes only\<close>

interpretation samples: bounded_history push_sample "\<lambda>xs. xs" "\<lambda>xs. length xs \<le> SUCCESS_RETENTION"
  SUCCESS_RETENTION
proof
  fix xs :: "u64 list" and x assume "length xs \<le> SUCCESS_RETENTION"
  then have "length xs < SUCCESS_RETENTION \<or> length xs = SUCCESS_RETENTION" by auto
  then show "push_sample x xs = push_bounded SUCCESS_RETENTION x xs"
    by (cases xs) (auto simp: push_sample_def push_bounded_def Let_def SUCCESS_RETENTION_def)
  then show "length (push_sample x xs) \<le> SUCCESS_RETENTION"
    by (simp add: length_push_bounded)
qed (simp add: SUCCESS_RETENTION_def)

datatype history_op =
    OpSuccess string u64
  | OpFailure string u64
  | OpExcluded string excluded_kind

fun apply_op :: "history_op \<Rightarrow> duration_history \<Rightarrow> duration_history" where
  "apply_op (OpSuccess sig d) h = record_success sig d h"
| "apply_op (OpFailure sig d) h = record_failure sig d h"
| "apply_op (OpExcluded sig k) h = record_excluded sig k h"

fun success_of :: "string \<Rightarrow> history_op \<Rightarrow> u64 list" where
  "success_of sig (OpSuccess s d) = (if s = sig then [d] else [])"
| "success_of sig _ = []"

definition successes_of :: "string \<Rightarrow> duration_history \<Rightarrow> u64 list" where
  "successes_of sig h = (case bt_get h sig of Some p \<Rightarrow> pr_successes p | None \<Rightarrow> [])"

lemma count_excluded_keeps [simp]:
  "pr_successes (count_excluded k p) = pr_successes p"
  "pr_failures (count_excluded k p) = pr_failures p"
  by (cases k; simp)+

lemma successes_apply:
  assumes "bt_ok h"
  shows "successes_of sig (apply_op x h) = fold push_sample (success_of sig x) (successes_of sig h)"
    and "bt_ok (apply_op x h)"
  using assms
  by (cases x; auto simp: successes_of_def record_success_def record_failure_def record_excluded_def
      bt_get_entry profile_default_def split: option.splits)+

lemma successes_fold:
  "bt_ok h \<Longrightarrow> successes_of sig (fold apply_op xs h) =
     fold push_sample (concat (map (success_of sig) xs)) (successes_of sig h)"
  by (induction xs arbitrary: h) (simp_all add: successes_apply)

lemma estimate_successes_of: "estimate h sig fl = estimate_samples (successes_of sig h) fl"
  by (simp add: estimate_def successes_of_def estimate_samples_def split: option.split)

text \<open>
  Whatever is recorded, in whatever order, the estimate for a signature is computed from the
  last twenty successful durations recorded for that signature: failures, cancelled, superseded
  and timed-out runs and the runs of other signatures never influence it.
\<close>

theorem estimate_from_recent_successes:
  "estimate (fold apply_op xs history_new) sig fl =
     estimate_samples
       (let ds = concat (map (success_of sig) xs) in drop (length ds - SUCCESS_RETENTION) ds) fl"
proof -
  let ?ds = "concat (map (success_of sig) xs)"
  have "successes_of sig (fold apply_op xs history_new) = fold push_sample ?ds []"
    using successes_fold [of history_new sig xs] by (simp add: history_new_def successes_of_def)
  also have "\<dots> = drop (length ?ds - SUCCESS_RETENTION) ?ds"
    using samples.entries_fold [of "[]" "[]" ?ds] by simp
  finally show ?thesis by (simp add: estimate_successes_of Let_def)
qed

section \<open>Order statistics\<close>

lemma sorted_nth_le: "sorted xs \<Longrightarrow> i \<le> j \<Longrightarrow> j < length xs \<Longrightarrow> xs ! i \<le> (xs ! j :: u64)"
  by (rule sorted_nth_mono)

lemma p90_index: "0 < n \<Longrightarrow> n div 2 \<le> div_ceil (n * 9) 10 - 1 \<and> div_ceil (n * 9) 10 - 1 < n"
  unfolding div_ceil_def by auto

lemma median_le_upper_middle:
  assumes "sorted xs" and "xs \<noteq> []"
  shows "median xs \<le> xs ! (length xs div 2)" and "xs ! 0 \<le> median xs"
proof -
  let ?n = "length xs"
  have n: "0 < ?n" "?n div 2 < ?n" using assms(2) by auto
  have "median xs \<le> xs ! (?n div 2) \<and> xs ! 0 \<le> median xs"
  proof (cases "?n mod 2 = 1")
    case True
    then show ?thesis using n sorted_nth_le [OF assms(1), of 0 "?n div 2"] by (simp add: median_def)
  next
    case False
    let ?a = "xs ! (?n div 2 - 1)" and ?b = "xs ! (?n div 2)"
    have ab: "unat ?a \<le> unat ?b" and za: "unat (xs ! 0) \<le> unat ?a"
      using sorted_nth_le [OF assms(1), of "?n div 2 - 1" "?n div 2"]
        sorted_nth_le [OF assms(1), of 0 "?n div 2 - 1"] n less_imp_diff_less [OF n(2), of 1]
      by (auto simp: word_le_nat_alt)
    have lt: "unat ?b < 2 ^ 64" by (rule unat_u64_less)
    let ?m = "(unat ?a + unat ?b) div 2"
    have m: "unat ?a \<le> ?m" "?m \<le> unat ?b" using ab by auto
    have "median xs = of_nat (min ?m (2 ^ 64 - 1))" using False n by (simp add: median_def Let_def)
    also have "min ?m (2 ^ 64 - 1) = ?m" using m(2) lt by simp
    finally have med: "median xs = of_nat ?m" .
    have "unat (of_nat ?m :: u64) = ?m" using m(2) lt by (simp add: unat_of_nat)
    with med m za show ?thesis by (simp add: word_le_nat_alt)
  qed
  then show "median xs \<le> xs ! (?n div 2)" "xs ! 0 \<le> median xs" by simp_all
qed

lemma count_le_nth:
  assumes "sorted xs" and "i < length xs"
  shows "Suc i \<le> length (filter (\<lambda>x. x \<le> xs ! i) xs)"
    and "length (filter (\<lambda>x. x < xs ! i) xs) \<le> i"
proof -
  have split: "xs = take (Suc i) xs @ drop (Suc i) xs" by simp
  have "\<forall>x\<in>set (take (Suc i) xs). x \<le> xs ! i"
    using assms by (auto simp: in_set_conv_nth less_Suc_eq_le sorted_nth_mono)
  then have "filter (\<lambda>x. x \<le> xs ! i) (take (Suc i) xs) = take (Suc i) xs" by simp
  then have "length (filter (\<lambda>x. x \<le> xs ! i) xs) =
      Suc i + length (filter (\<lambda>x. x \<le> xs ! i) (drop (Suc i) xs))"
    using assms(2) by (subst split, subst filter_append) (simp del: append_take_drop_id)
  then show "Suc i \<le> length (filter (\<lambda>x. x \<le> xs ! i) xs)" by simp
  have "\<forall>x\<in>set (drop i xs). \<not> x < xs ! i"
    using assms by (auto simp: in_set_conv_nth not_less sorted_nth_mono)
  then have none: "filter (\<lambda>x. x < xs ! i) (drop i xs) = []" by (simp add: filter_empty_conv)
  have "filter (\<lambda>x. x < xs ! i) xs = filter (\<lambda>x. x < xs ! i) (take i xs) @ filter (\<lambda>x. x < xs ! i) (drop i xs)"
    by (metis append_take_drop_id filter_append)
  moreover have "length (filter (\<lambda>x. x < xs ! i) (take i xs)) \<le> length (take i xs)"
    by (rule length_filter_le)
  ultimately show "length (filter (\<lambda>x. x < xs ! i) xs) \<le> i" using none by simp
qed

text \<open>The saturating 64 bit computation, read as a number, is the unbounded formula.\<close>

lemma unat_max: "unat (max a b :: u64) = max (unat a) (unat b)"
  and unat_min: "unat (min a b :: u64) = min (unat a) (unat b)"
  by (simp_all add: max_def min_def word_le_nat_alt)

lemma unat_recommend:
  "unat (recommend_timeout u fl) =
     min (max (unat u + unat u div 2 + 2000)
              (max (case fl of Some f \<Rightarrow> unat f | None \<Rightarrow> 0) 10000)) 900000"
proof -
  have limits: "unat SAFETY_MARGIN_ADDEND_MS = 2000" "unat DEFAULT_FLOOR_MS = 10000" "unat ABSOLUTE_CAP_MS = 900000"
    by (simp_all add: SAFETY_MARGIN_ADDEND_MS_def DEFAULT_FLOOR_MS_def ABSOLUTE_CAP_MS_def)
  have half: "unat (u div 2) = unat u div 2" by (simp add: unat_div)
  have fl: "unat (case fl of Some f \<Rightarrow> f | None \<Rightarrow> 0) = (case fl of Some f \<Rightarrow> unat f | None \<Rightarrow> 0)"
    by (simp split: option.split)
  show ?thesis
    unfolding recommend_timeout_def Let_def unat_min unat_max unat_saturating_add limits half fl
    by (simp add: min_def max_def)
qed

lemma sort_nonempty: "xs \<noteq> [] \<Longrightarrow> sort xs \<noteq> []"
  by (metis length_0_conv length_sort)

text \<open>
  Every estimate is sound as an order statistic: the typical duration lies between the
  shortest sample and the upper bound; the upper bound is one of the samples, at least 90% of
  the samples do not exceed it and fewer than 90% lie below it (nearest rank); the recommended
  timeout is one and a half times the upper bound plus two seconds, raised to the configured
  floor and to ten seconds and cut at fifteen minutes, as computed without any overflow.
\<close>

theorem estimate_order_statistics:
  assumes "estimate h sig fl = Some e"
  defines "xs \<equiv> successes_of sig h"
  shows "re_typical_ms e \<le> re_upper_ms e \<and>
    (\<exists>x\<in>set xs. x \<le> re_typical_ms e) \<and>
    re_upper_ms e \<in> set xs \<and>
    9 * length xs \<le> 10 * length (filter (\<lambda>x. x \<le> re_upper_ms e) xs) \<and>
    10 * length (filter (\<lambda>x. x < re_upper_ms e) xs) < 9 * length xs \<and>
    unat (re_recommended_timeout_ms e) =
      min (max (unat (re_upper_ms e) + unat (re_upper_ms e) div 2 + 2000)
               (max (case fl of Some f \<Rightarrow> unat f | None \<Rightarrow> 0) 10000)) 900000"
proof (intro conjI)
  have est: "estimate_samples xs fl = Some e"
    using assms(1) unfolding xs_def estimate_successes_of .
  then have ne: "xs \<noteq> []" by (auto simp: estimate_samples_def)
  define ys where "ys = sort xs"
  define r where "r = div_ceil (length ys * 9) 10 - 1"
  have ys: "sorted ys" "ys \<noteq> []" "length ys = length xs" "set ys = set xs"
    using ne by (simp_all add: ys_def sort_nonempty)
  have e: "re_typical_ms e = median ys" "re_upper_ms e = nearest_rank_p90 ys"
    "re_recommended_timeout_ms e = recommend_timeout (nearest_rank_p90 ys) fl"
    using est ne by (auto simp: estimate_samples_def Let_def ys_def)
  have r: "length ys div 2 \<le> r" "r < length ys" using p90_index [of "length ys"] ys(2) by (auto simp: r_def)
  have upper: "nearest_rank_p90 ys = ys ! r" using ys(2) by (simp add: nearest_rank_p90_def r_def)
  show "re_typical_ms e \<le> re_upper_ms e"
    using median_le_upper_middle(1) [OF ys(1,2)] sorted_nth_le [OF ys(1) r] e upper by simp
  show "\<exists>x\<in>set xs. x \<le> re_typical_ms e"
    using median_le_upper_middle(2) [OF ys(1,2)] e ys by (metis length_greater_0_conv nth_mem)
  show "re_upper_ms e \<in> set xs" using r(2) ys(4) e upper by (metis nth_mem)
  have cnt: "length (filter P xs) = length (filter P ys)" for P
    by (metis ys_def filter_sort length_sort)
  have rank: "9 * length ys \<le> 10 * Suc r" "10 * r < 9 * length ys"
    using ys(2) unfolding r_def div_ceil_def by (cases "length ys"; auto)+
  show "9 * length xs \<le> 10 * length (filter (\<lambda>x. x \<le> re_upper_ms e) xs)"
    using count_le_nth(1) [OF ys(1) r(2)] rank(1) e upper ys(3) cnt by simp
  show "10 * length (filter (\<lambda>x. x < re_upper_ms e) xs) < 9 * length xs"
    using count_le_nth(2) [OF ys(1) r(2)] rank(2) e upper ys(3) cnt by simp
  show "unat (re_recommended_timeout_ms e) =
      min (max (unat (re_upper_ms e) + unat (re_upper_ms e) div 2 + 2000)
               (max (case fl of Some f \<Rightarrow> unat f | None \<Rightarrow> 0) 10000)) 900000"
    unfolding e by (rule unat_recommend)
qed

definition demo_history :: duration_history where
  "demo_history = record_success ''s'' 3000 (record_success ''s'' 1000 history_new)"

lemma demo_history_eq:
  "demo_history = [(''s'', profile_default\<lparr>pr_successes := [1000, 3000]\<rparr>)]"
  by (simp add: demo_history_def record_success_def history_new_def bt_entry_def push_sample_def
      SUCCESS_RETENTION_def profile_default_def bt_get_def)

lemma estimate_order_statistics_witness:
  "\<exists>e. estimate demo_history ''s'' None = Some e \<and> re_typical_ms e \<le> re_upper_ms e \<and>
     unat (re_recommended_timeout_ms e) \<le> 900000"
proof -
  obtain e where e: "estimate demo_history ''s'' None = Some e"
    by (simp add: demo_history_eq estimate_def bt_get_def estimate_samples_def Let_def)
  from estimate_order_statistics [OF e] e
  show ?thesis by simp
qed

section \<open>Persistence snapshots\<close>

definition history_wf :: "duration_history \<Rightarrow> bool" where
  "history_wf h \<longleftrightarrow> bt_ok h \<and>
     (\<forall>(sig, p)\<in>set h. length (pr_successes p) \<le> SUCCESS_RETENTION \<and>
                        length (pr_failures p) \<le> SUCCESS_RETENTION)"

lemma push_sample_length: "length xs \<le> SUCCESS_RETENTION \<Longrightarrow> length (push_sample x xs) \<le> SUCCESS_RETENTION"
  using samples.length_bound [of xs x] by simp

lemma set_bt_insert: "set (bt_insert k v m) \<subseteq> insert (k, v) (set m)"
  by (induction k v m rule: bt_insert.induct) auto

lemma bt_get_in_set: "bt_get m k = Some v \<Longrightarrow> (k, v) \<in> set m"
  by (simp add: bt_get_def map_of_SomeD)

lemma history_wf_entry:
  assumes "history_wf h" and "\<And>p. length (pr_successes p) \<le> SUCCESS_RETENTION \<Longrightarrow>
      length (pr_failures p) \<le> SUCCESS_RETENTION \<Longrightarrow>
      length (pr_successes (f p)) \<le> SUCCESS_RETENTION \<and> length (pr_failures (f p)) \<le> SUCCESS_RETENTION"
  shows "history_wf (bt_entry profile_default sig f h)"
proof -
  let ?p = "case bt_get h sig of Some v \<Rightarrow> v | None \<Rightarrow> profile_default"
  have "length (pr_successes ?p) \<le> SUCCESS_RETENTION" "length (pr_failures ?p) \<le> SUCCESS_RETENTION"
    using assms(1) by (auto simp: history_wf_def profile_default_def dest!: bt_get_in_set split: option.split)
  note new = assms(2) [OF this]
  have "set (bt_entry profile_default sig f h) \<subseteq> insert (sig, f ?p) (set h)"
    unfolding bt_entry_def by (rule set_bt_insert)
  with new assms(1) show ?thesis unfolding history_wf_def by fastforce
qed

lemma history_wf_apply [fzz_inv]: "history_wf h \<Longrightarrow> history_wf (apply_op x h)"
  by (cases x) (auto simp: record_success_def record_failure_def record_excluded_def
      intro!: history_wf_entry push_sample_length)

interpretation history: event_observer apply_op history_wf
  by unfold_locales (rule history_wf_apply)

lemma extend_snapshot: "extend_profile (snapshot_of (sig, p)) profile_default = p"
  by (simp add: extend_profile_def snapshot_of_def profile_default_def)

lemma from_snapshot_append:
  assumes "history_wf (done @ todo)"
  shows "from_snapshot_loop (map snapshot_of todo) done = Inr (done @ todo)"
  using assms
proof (induction todo arbitrary: "done")
  case (Cons e todo)
  obtain sig p where e: "e = (sig, p)" by fastforce
  from Cons.prems have ok: "bt_ok (done @ [(sig, p)])"
    unfolding e history_wf_def by (simp add: bt_ok_def sorted_wrt_append)
  have "bt_entry profile_default sig (extend_profile (snapshot_of e)) done = done @ [(sig, p)]"
    using bt_append_insert [OF ok] bt_get_absent_last [OF ok] unfolding e
    by (simp add: bt_entry_def extend_snapshot)
  with Cons e show ?case by (auto simp: snapshot_of_def history_wf_def)
qed simp

text \<open>
  Every history the program can build by recording is rebuilt exactly from its persistence
  snapshot.
\<close>

theorem snapshot_roundtrip:
  "from_snapshot (history_snapshot (fold apply_op xs history_new)) =
     Inr (fold apply_op xs history_new)"
proof -
  have "history_wf (fold apply_op xs history_new)"
    by (rule history.fold_inv) (simp add: history_wf_def history_new_def)
  with from_snapshot_append [of "[]"] show ?thesis
    by (simp add: from_snapshot_def history_snapshot_def history_new_def)
qed

text \<open>
  The retention bound is checked per stored profile, not per rebuilt profile: two stored
  profiles with the same signature, each within the bound, are accepted and merged into one
  profile with more samples than are ever retained by recording, and recording further
  successes never brings it back within the bound.
\<close>

theorem duplicate_profiles_exceed_retention:
  assumes "length xs \<le> SUCCESS_RETENTION" and "length ys \<le> SUCCESS_RETENTION"
    and "SUCCESS_RETENTION < length xs + length ys"
    and "s = \<lparr>ps_signature = sig, ps_successes = xs, ps_failures = [], ps_cancelled = 0,
              ps_superseded = 0, ps_timed_out = 0\<rparr>"
    and "t = s\<lparr>ps_successes := ys\<rparr>"
  shows "\<exists>h. from_snapshot [s, t] = Inr h \<and>
           (\<forall>ds. SUCCESS_RETENTION < success_samples sig (fold (record_success sig) ds h))"
proof -
  define h where "h = bt_entry profile_default sig (extend_profile t)
      (bt_entry profile_default sig (extend_profile s) history_new)"
  have load: "from_snapshot [s, t] = Inr h"
    using assms by (simp add: from_snapshot_def h_def)
  have start: "bt_ok h" "successes_of sig h = xs @ ys"
    using assms(4,5) by (simp_all add: h_def history_new_def successes_of_def bt_get_entry
        extend_profile_def profile_default_def)
  have keep: "SUCCESS_RETENTION < length ws \<Longrightarrow> SUCCESS_RETENTION < length (push_sample d ws)" for d ws
    by (simp add: push_sample_def)
  have "SUCCESS_RETENTION < success_samples sig (fold (record_success sig) ds h')"
    if "bt_ok h'" "SUCCESS_RETENTION < length (successes_of sig h')" for ds h'
    using that
  proof (induction ds arbitrary: h')
    case (Cons d ds)
    have "bt_ok (record_success sig d h')" "successes_of sig (record_success sig d h') = push_sample d (successes_of sig h')"
      using successes_apply(1) [OF Cons.prems(1), of sig "OpSuccess sig d"]
        successes_apply(2) [OF Cons.prems(1), of "OpSuccess sig d"] by simp_all
    with Cons keep show ?case by simp
  qed (simp add: success_samples_def successes_of_def split: option.splits)
  with start assms(3) load show ?thesis by auto
qed

lemma duplicate_profiles_exceed_retention_witness:
  "\<exists>h. from_snapshot
     [\<lparr>ps_signature = ''s'', ps_successes = replicate 15 1, ps_failures = [], ps_cancelled = 0,
       ps_superseded = 0, ps_timed_out = 0\<rparr>,
      \<lparr>ps_signature = ''s'', ps_successes = replicate 15 2, ps_failures = [], ps_cancelled = 0,
       ps_superseded = 0, ps_timed_out = 0\<rparr>] = Inr h \<and>
     SUCCESS_RETENTION < success_samples ''s'' h"
proof -
  have len: "length (replicate 15 (1::u64)) \<le> SUCCESS_RETENTION" "length (replicate 15 (2::u64)) \<le> SUCCESS_RETENTION"
    "SUCCESS_RETENTION < length (replicate 15 (1::u64)) + length (replicate 15 (2::u64))"
    by (simp_all add: SUCCESS_RETENTION_def)
  from duplicate_profiles_exceed_retention [OF len refl refl, of "''s''"] obtain h
    where "from_snapshot
     [\<lparr>ps_signature = ''s'', ps_successes = replicate 15 1, ps_failures = [], ps_cancelled = 0,
       ps_superseded = 0, ps_timed_out = 0\<rparr>,
      \<lparr>ps_signature = ''s'', ps_successes = replicate 15 2, ps_failures = [], ps_cancelled = 0,
       ps_superseded = 0, ps_timed_out = 0\<rparr>] = Inr h"
      "\<forall>ds. SUCCESS_RETENTION < success_samples ''s'' (fold (record_success ''s'') ds h)"
    unfolding profile_snapshot.update_convs by blast
  then show ?thesis by (metis fold_simps(1))
qed

end
