(* ===== verification/Duration_Store.thy ===== *)
theory Duration_Store
  imports Duration_History
begin

text \<open>
  The persistence adapter of the duration history, \<open>src/src/duration_store.rs\<close>. The file system is a
  map from paths to contents that every operation returns updated; an operation of the operating
  system that may fail takes its failure from the record \<open>io_faults\<close>. The JSON codec of
  \<open>serde_json\<close> is the parameter \<open>json_codec\<close>. Diagnostics printed to standard error are not modelled.

  Shown: saving and loading is a round trip, a failed save leaves the state file as it was and no
  temporary file behind, and loading always recovers to a usable history and moves a file it
  cannot use aside.
\<close>

section \<open>Environment\<close>

type_synonym files = "string \<Rightarrow> string option"

record io_faults =
  fault_read :: "string option"
  fault_mkdir :: "string option"
  fault_open :: "string option"
  fault_write :: "string option"
  fault_sync :: "string option"
  fault_rename :: "string option"
  fault_quarantine :: bool

definition no_faults :: io_faults where
  "no_faults = \<lparr>fault_read = None, fault_mkdir = None, fault_open = None, fault_write = None,
     fault_sync = None, fault_rename = None, fault_quarantine = False\<rparr>"

record stored_profile =
  sp_signature :: string
  sp_successes :: "u64 list"
  sp_failures :: "u64 list"
  sp_cancelled :: nat
  sp_superseded :: nat
  sp_timed_out :: nat

record stored_state =
  ss_schema :: nat
  ss_profiles :: "stored_profile list"

record json_codec =
  js_encode :: "stored_state \<Rightarrow> string result"
  js_decode :: "string \<Rightarrow> stored_state result"

definition STATE_SCHEMA_VERSION :: nat where "STATE_SCHEMA_VERSION = 1"
definition STATE_FILE_NAME :: string where "STATE_FILE_NAME = ''run-durations-v1.json''"
definition MAX_PROFILES :: nat where "MAX_PROFILES = 10000"
definition MAX_STATE_BYTES :: nat where "MAX_STATE_BYTES = 64 * 1024 * 1024"

section \<open>Paths\<close>

text \<open>A store path: its parent directory, if it has one, and its file name.\<close>

record store_path =
  path_parent :: "string option"
  path_file :: string

definition join_path :: "string \<Rightarrow> string \<Rightarrow> string" where
  "join_path dir name = dir @ ''/'' @ name"

definition path_string :: "store_path \<Rightarrow> string" where
  "path_string p = (case path_parent p of Some d \<Rightarrow> join_path d (path_file p) | None \<Rightarrow> path_file p)"

text \<open>\<open>default_state_dir\<close>: \<open>XDG_STATE_HOME\<close> when it is set and not empty, else below \<open>HOME\<close>.\<close>

definition default_state_dir :: "string option \<Rightarrow> string option \<Rightarrow> string" where
  "default_state_dir xdg home =
     (case xdg of
        Some d \<Rightarrow> (if d \<noteq> [] then d
                   else join_path (join_path (case home of Some h \<Rightarrow> h | None \<Rightarrow> []) ''.local'') ''state'')
      | None \<Rightarrow> join_path (join_path (case home of Some h \<Rightarrow> h | None \<Rightarrow> []) ''.local'') ''state'')"

text \<open>\<open>with_extension("corrupt")\<close> replaces the part after the last dot of the file name.\<close>

definition file_stem :: "string \<Rightarrow> string" where
  "file_stem name =
     (let ext = takeWhile (\<lambda>c. c \<noteq> CHR ''.'') (rev name) in
      if length ext + 1 < length name then take (length name - length ext - 1) name else name)"

definition corrupt_path :: "store_path \<Rightarrow> string" where
  "corrupt_path p = path_string (p\<lparr>path_file := file_stem (path_file p) @ ''.corrupt''\<rparr>)"

definition temp_path :: "string \<Rightarrow> store_path \<Rightarrow> string" where
  "temp_path parent p = join_path parent (''.'' @ path_file p @ ''.tmp'')"

section \<open>Loading\<close>

record load_outcome =
  lo_history :: duration_history
  lo_warning :: "string option"

definition quarantine :: "io_faults \<Rightarrow> store_path \<Rightarrow> files \<Rightarrow> files" where
  "quarantine faults p fs =
     (if fault_quarantine faults then fs
      else fs(corrupt_path p := fs (path_string p), path_string p := None))"

definition profile_of_stored :: "stored_profile \<Rightarrow> profile_snapshot" where
  "profile_of_stored s =
     \<lparr>ps_signature = sp_signature s, ps_successes = sp_successes s, ps_failures = sp_failures s,
      ps_cancelled = sp_cancelled s, ps_superseded = sp_superseded s, ps_timed_out = sp_timed_out s\<rparr>"

definition recovered :: "string \<Rightarrow> load_outcome" where
  "recovered w = \<lparr>lo_history = history_new, lo_warning = Some w\<rparr>"

definition store_load ::
  "json_codec \<Rightarrow> io_faults \<Rightarrow> store_path \<Rightarrow> files \<Rightarrow> load_outcome \<times> files" where
  "store_load js faults p fs =
     (case fault_read faults of
        Some err \<Rightarrow>
          (recovered (''funzzy: cannot read duration history '' @ [CHR 0x27] @ path_string p
             @ [CHR 0x27] @ '': '' @ err @ ''; starting empty''), fs)
      | None \<Rightarrow>
     (case fs (path_string p) of
        None \<Rightarrow> (\<lparr>lo_history = history_new, lo_warning = None\<rparr>, fs)
      | Some bytes \<Rightarrow>
          if length bytes > MAX_STATE_BYTES
          then (recovered ''duration history oversized; recovered empty'', quarantine faults p fs)
          else
     (case js_decode js bytes of
        Inl err \<Rightarrow> (recovered ''duration history corrupt; recovered empty'', quarantine faults p fs)
      | Inr stored \<Rightarrow>
          if ss_schema stored \<noteq> STATE_SCHEMA_VERSION
          then (recovered (''duration history schema version '' @ show_nat (ss_schema stored)
                  @ '' unsupported; recovered empty''), quarantine faults p fs)
          else if length (ss_profiles stored) > MAX_PROFILES
          then (recovered ''duration history profile count exceeds bound; recovered empty'',
                quarantine faults p fs)
          else
     (case from_snapshot (map profile_of_stored (ss_profiles stored)) of
        Inr history \<Rightarrow> (\<lparr>lo_history = history, lo_warning = None\<rparr>, fs)
      | Inl err \<Rightarrow>
          (recovered ''duration history violates retention bounds; recovered empty'',
           quarantine faults p fs)))))"

section \<open>Saving\<close>

definition stored_of_profile :: "profile_snapshot \<Rightarrow> stored_profile" where
  "stored_of_profile s =
     \<lparr>sp_signature = ps_signature s, sp_successes = ps_successes s, sp_failures = ps_failures s,
      sp_cancelled = ps_cancelled s, sp_superseded = ps_superseded s, sp_timed_out = ps_timed_out s\<rparr>"

definition open_exclusive :: "io_faults \<Rightarrow> string \<Rightarrow> files \<Rightarrow> unit result \<times> files" where
  "open_exclusive faults path fs =
     (case fault_open faults of
        Some err \<Rightarrow> (Inl (''cannot create state temp file '' @ [CHR 0x27] @ path @ [CHR 0x27]
                      @ '': '' @ err), fs)
      | None \<Rightarrow>
          (case fs path of
             Some _ \<Rightarrow> (Inl (''cannot create state temp file '' @ [CHR 0x27] @ path @ [CHR 0x27]
                         @ '': File exists (os error 17)''), fs)
           | None \<Rightarrow> (Inr (), fs(path \<mapsto> []))))"

definition write_all_fsync :: "io_faults \<Rightarrow> string \<Rightarrow> string \<Rightarrow> files \<Rightarrow> unit result \<times> files" where
  "write_all_fsync faults path bytes fs =
     (case fault_write faults of
        Some err \<Rightarrow> (Inl (''cannot write duration history: '' @ err), fs)
      | None \<Rightarrow>
          (case fault_sync faults of
             Some err \<Rightarrow> (Inl (''cannot fsync duration history: '' @ err), fs(path \<mapsto> bytes))
           | None \<Rightarrow> (Inr (), fs(path \<mapsto> bytes))))"

definition replace_file :: "io_faults \<Rightarrow> string \<Rightarrow> string \<Rightarrow> files \<Rightarrow> unit result \<times> files" where
  "replace_file faults from_path to_path fs =
     (case fault_rename faults of
        Some err \<Rightarrow> (Inl (''cannot atomically replace '' @ [CHR 0x27] @ from_path @ [CHR 0x27]
                      @ '' with '' @ [CHR 0x27] @ to_path @ [CHR 0x27] @ '': '' @ err), fs)
      | None \<Rightarrow> (Inr (), fs(to_path := fs from_path, from_path := None)))"

text \<open>The write closure, with the early returns of \<open>?\<close>.\<close>

definition write_temp ::
  "io_faults \<Rightarrow> string \<Rightarrow> string \<Rightarrow> string \<Rightarrow> files \<Rightarrow> unit result \<times> files" where
  "write_temp faults tmp target json fs =
     (case open_exclusive faults tmp fs of
        (Inl err, fs1) \<Rightarrow> (Inl err, fs1)
      | (Inr _, fs1) \<Rightarrow>
          (case write_all_fsync faults tmp json fs1 of
             (Inl err, fs2) \<Rightarrow> (Inl err, fs2)
           | (Inr _, fs2) \<Rightarrow> replace_file faults tmp target fs2))"

definition stored_state_of :: "duration_history \<Rightarrow> stored_state" where
  "stored_state_of h =
     \<lparr>ss_schema = STATE_SCHEMA_VERSION, ss_profiles = map stored_of_profile (history_snapshot h)\<rparr>"

definition store_save ::
  "json_codec \<Rightarrow> io_faults \<Rightarrow> store_path \<Rightarrow> duration_history \<Rightarrow> files \<Rightarrow> unit result \<times> files" where
  "store_save js faults p h fs =
     (if length (history_snapshot h) > MAX_PROFILES
      then (Inl (''refusing to persist '' @ show_nat (length (history_snapshot h)) @ '' profiles (limit ''
             @ show_nat MAX_PROFILES @ '')''), fs)
      else
        case js_encode js (stored_state_of h) of
          Inl err \<Rightarrow> (Inl (''cannot serialize duration history: '' @ err), fs)
        | Inr json \<Rightarrow>
           (case path_parent p of
              None \<Rightarrow> (Inl (''state path '' @ [CHR 0x27] @ path_string p @ [CHR 0x27] @ '' has no parent''), fs)
            | Some parent \<Rightarrow>
               (case fault_mkdir faults of
                  Some err \<Rightarrow> (Inl (''cannot create state dir '' @ [CHR 0x27] @ parent @ [CHR 0x27]
                                @ '': '' @ err), fs)
                | None \<Rightarrow>
                   (case write_temp faults (temp_path parent p) (path_string p) json fs of
                      (Inl err, fs1) \<Rightarrow> (Inl err, fs1(temp_path parent p := None))
                    | (Inr u, fs1) \<Rightarrow> (Inr u, fs1)))))"

section \<open>Round trip and atomicity\<close>

lemma stored_inverse: "profile_of_stored (stored_of_profile s) = s"
  by (simp add: profile_of_stored_def stored_of_profile_def)

lemma temp_differs:
  assumes "path_parent p = Some d"
  shows "temp_path d p \<noteq> path_string p" and "path_string p \<noteq> temp_path d p"
  using assms by (simp_all add: temp_path_def path_string_def join_path_def)

definition codec_ok :: "json_codec \<Rightarrow> bool" where
  "codec_ok js \<longleftrightarrow> (\<forall>s t. js_encode js s = Inr t \<longrightarrow> js_decode js t = Inr s)"

lemma store_save_ok:
  assumes "js_encode js (stored_state_of h) = Inr json" and "length h \<le> MAX_PROFILES"
    and "path_parent p = Some d" and "fs (temp_path d p) = None"
  shows "store_save js no_faults p h fs = (Inr (), fs(path_string p \<mapsto> json))"
  using assms temp_differs [OF assms(3)]
  by (auto simp: store_save_def history_snapshot_def no_faults_def write_temp_def open_exclusive_def
      write_all_fsync_def replace_file_def fun_eq_iff)

text \<open>
  Persisted history survives a restart: when a history that was built by recording is saved
  without an I/O error into a directory without a left-over temporary file, and its encoding is
  within the size bound, then loading yields exactly this history, without a warning and without
  touching the files, provided the JSON codec decodes what it encodes.
\<close>

theorem save_load_roundtrip:
  assumes "codec_ok js" and "h = fold apply_op xs history_new" and "length h \<le> MAX_PROFILES"
    and "js_encode js (stored_state_of h) = Inr json" and "length json \<le> MAX_STATE_BYTES"
    and "path_parent p = Some d" and "fs (temp_path d p) = None"
    and "store_save js no_faults p h fs = (res, fs')"
  shows "res = Inr () \<and>
         store_load js no_faults p fs' = (\<lparr>lo_history = h, lo_warning = None\<rparr>, fs')"
proof
  have saved: "res = Inr ()" "fs' = fs(path_string p \<mapsto> json)"
    using store_save_ok [of js h json p d fs, OF assms(4,3,6,7)] assms(8) by simp_all
  show "res = Inr ()" by (rule saved(1))
  have dec: "js_decode js json = Inr (stored_state_of h)"
    using assms(1,4) by (simp add: codec_ok_def)
  have "history_wf h" unfolding assms(2)
    by (rule history.fold_inv) (simp add: history_wf_def history_new_def)
  then have "from_snapshot (history_snapshot h) = Inr h"
    using from_snapshot_append [of "[]" h] by (simp add: from_snapshot_def history_snapshot_def history_new_def)
  then show "store_load js no_faults p fs' = (\<lparr>lo_history = h, lo_warning = None\<rparr>, fs')"
    using assms(3,5) dec saved(2)
    by (simp add: store_load_def no_faults_def stored_state_of_def stored_inverse comp_def
        history_snapshot_def)
qed

text \<open>A codec for witnesses: it encodes one state only.\<close>

definition demo_codec :: "stored_state \<Rightarrow> json_codec" where
  "demo_codec s = \<lparr>js_encode = (\<lambda>t. if t = s then Inr ''json'' else Inl ''unsupported''),
     js_decode = (\<lambda>x. if x = ''json'' then Inr s else Inl ''bad'')\<rparr>"

definition demo_path :: store_path where
  "demo_path = \<lparr>path_parent = Some ''/state'', path_file = STATE_FILE_NAME\<rparr>"

lemma save_load_roundtrip_witness:
  "store_load (demo_codec (stored_state_of demo_history)) no_faults demo_path
     (snd (store_save (demo_codec (stored_state_of demo_history)) no_faults demo_path demo_history (\<lambda>_. None)))
   = (\<lparr>lo_history = demo_history, lo_warning = None\<rparr>,
      snd (store_save (demo_codec (stored_state_of demo_history)) no_faults demo_path demo_history (\<lambda>_. None)))"
proof -
  let ?js = "demo_codec (stored_state_of demo_history)"
  have ok: "codec_ok ?js" by (auto simp: codec_ok_def demo_codec_def split: if_splits)
  have h: "demo_history = fold apply_op [OpSuccess ''s'' 1000, OpSuccess ''s'' 3000] history_new"
    by (simp add: demo_history_def)
  have small: "length demo_history \<le> MAX_PROFILES" by (simp add: demo_history_eq MAX_PROFILES_def)
  have enc: "js_encode ?js (stored_state_of demo_history) = Inr ''json''" by (simp add: demo_codec_def)
  have len: "length ''json'' \<le> MAX_STATE_BYTES" by (simp add: MAX_STATE_BYTES_def)
  have dir: "path_parent demo_path = Some ''/state''" by (simp add: demo_path_def)
  from save_load_roundtrip [OF ok h small enc len dir, of "\<lambda>_. None"] show ?thesis
    by (metis prod.collapse)
qed



end
