(* ===== verification/Duration_Recorder.thy ===== *)
theory Duration_Recorder
  imports Duration_Store Execution_Events
begin

text \<open>
  The recorder, \<open>src/src/duration_recorder.rs\<close>: terminal events of target runs become samples of the
  duration history, which is persisted best-effort after each of them. The mutexes of the source
  guard single fields that one event closure uses in order, so an event is one state change.
  Warnings printed to the user are not modelled.

  Shown: the bounds of its maps over every event stream, that each started target run is recorded
  at most once and other runs never, and that the estimate shown for a run is the one frozen when
  it started.
\<close>

section \<open>State\<close>

definition MAX_ASSOCIATIONS :: nat where "MAX_ASSOCIATIONS = 64"
definition MAX_CAPTURED_ESTIMATES :: nat where "MAX_CAPTURED_ESTIMATES = 256"

text \<open>An association holds the signature of an in-flight run.\<close>

record duration_recorder =
  rd_history :: duration_history
  rd_store :: store_path
  rd_associations :: "(nat, string) btree"
  rd_captured :: "(nat, run_estimate) btree"
  rd_files :: files

section \<open>Operations\<close>

definition recorder_new :: "json_codec \<Rightarrow> io_faults \<Rightarrow> store_path \<Rightarrow> files \<Rightarrow> duration_recorder" where
  "recorder_new js faults p fs =
     (let (outcome, fs1) = store_load js faults p fs in
      \<lparr>rd_history = lo_history outcome, rd_store = p, rd_associations = [], rd_captured = [],
       rd_files = fs1\<rparr>)"

definition persist_best_effort :: "json_codec \<Rightarrow> io_faults \<Rightarrow> duration_recorder \<Rightarrow> duration_recorder" where
  "persist_best_effort js faults r =
     r\<lparr>rd_files := snd (store_save js faults (rd_store r) (rd_history r) (rd_files r))\<rparr>"

text \<open>\<open>as_millis() as u64\<close>, as a 64 bit word.\<close>

definition millis_word :: "duration \<Rightarrow> u64" where
  "millis_word d = of_nat (as_millis d)"

definition observe_started :: "nat \<Rightarrow> string \<Rightarrow> duration_recorder \<Rightarrow> duration_recorder" where
  "observe_started run_id sig r =
     (let assocs = (if length (rd_associations r) \<ge> MAX_ASSOCIATIONS
                    then bt_pop_first (rd_associations r) else rd_associations r);
          captured = (case estimate (rd_history r) sig None of
                        None \<Rightarrow> rd_captured r
                      | Some e \<Rightarrow>
                          bt_insert run_id e
                            (if length (rd_captured r) \<ge> MAX_CAPTURED_ESTIMATES
                             then bt_pop_first (rd_captured r) else rd_captured r))
      in r\<lparr>rd_captured := captured, rd_associations := bt_insert run_id sig assocs\<rparr>)"

text \<open>Removing the association and recording one outcome, with the early return when the run is
  unknown.\<close>

definition record_terminal ::
  "json_codec \<Rightarrow> io_faults \<Rightarrow> nat \<Rightarrow> (string \<Rightarrow> duration_history \<Rightarrow> duration_history)
   \<Rightarrow> duration_recorder \<Rightarrow> duration_recorder" where
  "record_terminal js faults run_id rec_outcome r =
     (case bt_get (rd_associations r) run_id of
        None \<Rightarrow> r
      | Some sig \<Rightarrow>
          persist_best_effort js faults
            (r\<lparr>rd_associations := bt_remove run_id (rd_associations r),
               rd_history := rec_outcome sig (rd_history r)\<rparr>))"

fun recorder_observe ::
  "json_codec \<Rightarrow> io_faults \<Rightarrow> event \<Rightarrow> duration_recorder \<Rightarrow> duration_recorder" where
  "recorder_observe js faults (EvStarted st) r =
     (case st_execution_signature st of
        Some sig \<Rightarrow> observe_started (st_run_id st) sig r
      | None \<Rightarrow> r)"
| "recorder_observe js faults (EvFinished run_id superseded_by elapsed fs) r =
     record_terminal js faults run_id
       (\<lambda>sig h. if superseded_by \<noteq> None then record_excluded sig ExSuperseded h
                else if fs = [] then record_success sig (millis_word elapsed) h
                else record_failure sig (millis_word elapsed) h) r"
| "recorder_observe js faults (EvCancelled run_id superseded_by) r =
     record_terminal js faults run_id
       (\<lambda>sig h. record_excluded sig (if superseded_by \<noteq> None then ExSuperseded else ExCancelled) h) r"
| "recorder_observe js faults _ r = r"

definition note_timeout :: "json_codec \<Rightarrow> io_faults \<Rightarrow> nat \<Rightarrow> duration_recorder \<Rightarrow> duration_recorder" where
  "note_timeout js faults run_id r =
     record_terminal js faults run_id (\<lambda>sig h. record_excluded sig ExTimedOut h) r"

definition recorder_estimate :: "duration_recorder \<Rightarrow> string \<Rightarrow> u64 option \<Rightarrow> run_estimate option" where
  "recorder_estimate r sig floor_ms = estimate (rd_history r) sig floor_ms"

definition estimate_at_start :: "duration_recorder \<Rightarrow> nat \<Rightarrow> run_estimate option" where
  "estimate_at_start r run_id = bt_get (rd_captured r) run_id"

definition in_flight :: "duration_recorder \<Rightarrow> nat" where
  "in_flight r = length (rd_associations r)"

section \<open>Bounds\<close>

definition recorder_inv :: "duration_recorder \<Rightarrow> bool" where
  "recorder_inv r \<longleftrightarrow>
     bt_ok (rd_associations r) \<and> length (rd_associations r) \<le> MAX_ASSOCIATIONS \<and>
     bt_ok (rd_captured r) \<and> length (rd_captured r) \<le> MAX_CAPTURED_ESTIMATES"

lemma persist_keeps [simp]:
  "rd_associations (persist_best_effort js f r) = rd_associations r"
  "rd_captured (persist_best_effort js f r) = rd_captured r"
  "rd_history (persist_best_effort js f r) = rd_history r"
  "rd_store (persist_best_effort js f r) = rd_store r"
  by (simp_all add: persist_best_effort_def)

lemma bounded_insert:
  assumes "length m \<le> b" and "0 < b"
  shows "length (bt_insert k v (if length m \<ge> b then bt_pop_first m else m)) \<le> b"
  using assms length_bt_insert [of k v "if length m \<ge> b then bt_pop_first m else m"] by auto

lemma recorder_inv_started [fzz_inv]: "recorder_inv r \<Longrightarrow> recorder_inv (observe_started run_id sig r)"
  using bounded_insert [of "rd_associations r" MAX_ASSOCIATIONS run_id sig]
    bounded_insert [of "rd_captured r" MAX_CAPTURED_ESTIMATES run_id]
  by (auto simp: recorder_inv_def observe_started_def Let_def MAX_ASSOCIATIONS_def
      MAX_CAPTURED_ESTIMATES_def split: option.splits)

lemma recorder_inv_terminal [fzz_inv]: "recorder_inv r \<Longrightarrow> recorder_inv (record_terminal js f run_id g r)"
  using length_bt_remove [of run_id "rd_associations r"]
  by (auto simp: recorder_inv_def record_terminal_def split: option.splits)

lemma recorder_inv_observe [fzz_inv]: "recorder_inv r \<Longrightarrow> recorder_inv (recorder_observe js f e r)"
  by (cases e) (auto simp: recorder_inv_started recorder_inv_terminal split: option.split)

text \<open>A stream of events, each with the I/O errors its persistence meets.\<close>

definition recorder_step ::
  "json_codec \<Rightarrow> io_faults \<times> event \<Rightarrow> duration_recorder \<Rightarrow> duration_recorder" where
  "recorder_step js x r = recorder_observe js (fst x) (snd x) r"

interpretation recorder: event_observer "recorder_step js" recorder_inv for js
  by unfold_locales (simp add: recorder_step_def recorder_inv_observe)

section \<open>Runs are recorded at most once\<close>

text \<open>A run is named by an event that ends it.\<close>

fun ends_run :: "nat \<Rightarrow> event \<Rightarrow> bool" where
  "ends_run g (EvFinished r s d fs) \<longleftrightarrow> r = g"
| "ends_run g (EvCancelled r s) \<longleftrightarrow> r = g"
| "ends_run g _ \<longleftrightarrow> False"

fun starts_target :: "nat \<Rightarrow> event \<Rightarrow> bool" where
  "starts_target g (EvStarted st) \<longleftrightarrow> st_run_id st = g \<and> st_execution_signature st \<noteq> None"
| "starts_target g _ \<longleftrightarrow> False"

lemma terminal_unknown: "bt_get (rd_associations r) g = None \<Longrightarrow> record_terminal js f g h r = r"
  by (simp add: record_terminal_def)

lemma unknown_ends_nothing:
  "bt_get (rd_associations r) g = None \<Longrightarrow> ends_run g e \<Longrightarrow> recorder_observe js f e r = r"
  by (cases e) (auto simp: terminal_unknown)

lemma bt_insert_other: "bt_ok m \<Longrightarrow> j \<noteq> k \<Longrightarrow> bt_get (bt_insert k v m) j = bt_get m j"
  by (simp add: bt_get_insert)

lemma bt_pop_None: "bt_ok m \<Longrightarrow> bt_get m j = None \<Longrightarrow> bt_get (bt_pop_first m) j = None"
  using bt_get_pop [of m j] by (cases "bt_get (bt_pop_first m) j") auto

lemma unknown_stays:
  assumes "recorder_inv r" and "bt_get (rd_associations r) g = None" and "\<not> starts_target g e"
  shows "bt_get (rd_associations (recorder_observe js f e r)) g = None"
  using assms
  by (cases e) (auto simp: recorder_inv_def observe_started_def record_terminal_def Let_def
      bt_insert_other bt_pop_None bt_get_remove split: option.splits)

text \<open>
  A target run contributes at most one outcome to the history: once a run is not in flight
  (it never started as a target run, or it already ended, or it was classified as timed out), no
  later event that ends it changes the recorder in any way, until the run identity is started
  again.
\<close>

theorem runs_recorded_at_most_once:
  assumes "recorder_inv r" and "bt_get (rd_associations r) g = None"
    and "\<forall>x\<in>set xs. \<not> starts_target g (snd x)" and "ends_run g e"
  shows "recorder_observe js f e (fold (recorder_step js) xs r) = fold (recorder_step js) xs r"
proof -
  have "bt_get (rd_associations (fold (recorder_step js) xs r)) g = None"
    using assms(1-3)
  proof (induction xs arbitrary: r)
    case (Cons x xs)
    then have "recorder_inv (recorder_step js x r)" "bt_get (rd_associations (recorder_step js x r)) g = None"
      by (simp_all add: recorder_step_def recorder_inv_observe unknown_stays)
    with Cons show ?case by simp
  qed simp
  then show ?thesis using assms(4) by (rule unknown_ends_nothing)
qed

section \<open>Frozen estimates\<close>

fun is_target_start :: "event \<Rightarrow> bool" where
  "is_target_start (EvStarted st) \<longleftrightarrow> st_execution_signature st \<noteq> None"
| "is_target_start _ \<longleftrightarrow> False"

lemma captured_unless_start:
  "\<not> is_target_start e \<Longrightarrow> rd_captured (recorder_observe js f e r) = rd_captured r"
  by (cases e) (auto simp: record_terminal_def split: option.splits)

lemma captured_kept:
  assumes "recorder_inv r" and "length (rd_captured r) < MAX_CAPTURED_ESTIMATES"
    and "bt_get (rd_captured r) g = Some est" and "\<not> starts_target g e"
  shows "bt_get (rd_captured (recorder_observe js f e r)) g = Some est"
    and "length (rd_captured (recorder_observe js f e r)) \<le> length (rd_captured r) + (if is_target_start e then 1 else 0)"
proof -
  have "bt_get (rd_captured (recorder_observe js f e r)) g = Some est \<and>
     length (rd_captured (recorder_observe js f e r)) \<le> length (rd_captured r) + (if is_target_start e then 1 else 0)"
  proof (cases "is_target_start e")
    case True
    then obtain st where "e = EvStarted st" by (cases e) auto
    then show ?thesis
      using assms length_bt_insert [of "st_run_id st" _ "rd_captured r"]
      by (auto simp: recorder_inv_def observe_started_def Let_def bt_insert_other split: option.splits)
  qed (simp add: assms(3) captured_unless_start)
  then show "bt_get (rd_captured (recorder_observe js f e r)) g = Some est"
    and "length (rd_captured (recorder_observe js f e r)) \<le> length (rd_captured r) + (if is_target_start e then 1 else 0)"
    by simp_all
qed

lemma captured_stays:
  assumes "recorder_inv r" and "bt_get (rd_captured r) g = Some est"
    and "\<forall>x\<in>set xs. \<not> starts_target g (snd x)"
    and "length (rd_captured r) + length (filter (\<lambda>x. is_target_start (snd x)) xs) < MAX_CAPTURED_ESTIMATES"
  shows "bt_get (rd_captured (fold (recorder_step js) xs r)) g = Some est"
  using assms
proof (induction xs arbitrary: r)
  case (Cons x xs)
  then have small: "length (rd_captured r) < MAX_CAPTURED_ESTIMATES" and no: "\<not> starts_target g (snd x)"
    by simp_all
  note kept = captured_kept [OF Cons.prems(1) small Cons.prems(2) no, of js "fst x"]
  show ?case
    using Cons.IH [of "recorder_step js x r"] Cons.prems kept
    by (simp add: recorder_step_def recorder_inv_observe split: if_splits)
qed simp

text \<open>
  The estimate shown for a target run is frozen at its start: whatever is recorded while it
  runs and after it ended, \<open>estimate_at_start\<close> answers the estimate derived from the history as it
  was when the run started, as long as fewer than 256 estimates are retained and the run identity
  is not started again.
\<close>

theorem run_estimate_frozen_at_start:
  assumes "recorder_inv r" and "estimate (rd_history r) sig None = Some est"
    and "st_execution_signature st = Some sig" and "st_run_id st = g"
    and "\<forall>x\<in>set xs. \<not> starts_target g (snd x)"
    and "length (rd_captured r) + 1 + length (filter (\<lambda>x. is_target_start (snd x)) xs) < MAX_CAPTURED_ESTIMATES"
  shows "estimate_at_start (fold (recorder_step js) xs (recorder_observe js f (EvStarted st) r)) g = Some est"
proof -
  let ?r = "recorder_observe js f (EvStarted st) r"
  have "rd_captured ?r = bt_insert g est (rd_captured r)"
    using assms by (simp add: observe_started_def)
  then have got: "bt_get (rd_captured ?r) g = Some est" "length (rd_captured ?r) \<le> Suc (length (rd_captured r))"
    using assms(1) length_bt_insert [of g est "rd_captured r"]
    by (simp_all add: recorder_inv_def bt_get_insert)
  have "length (rd_captured ?r) + length (filter (\<lambda>x. is_target_start (snd x)) xs) < MAX_CAPTURED_ESTIMATES"
    using got(2) assms(6) by simp
  then show ?thesis
    unfolding estimate_at_start_def
    by (rule captured_stays [OF recorder_inv_observe [OF assms(1)] got(1) assms(5)])
qed

definition demo_recorder :: duration_recorder where
  "demo_recorder =
     \<lparr>rd_history = demo_history, rd_store = demo_path, rd_associations = [], rd_captured = [],
      rd_files = (\<lambda>_. None)\<rparr>"

definition demo_target_start :: started_event where
  "demo_target_start =
     \<lparr>st_run_id = 4, st_trigger = ''control:t'', st_batch = None, st_predecessor = None,
      st_changed = [], st_commands = [''make''], st_target = Some ''t'',
      st_execution_signature = Some ''s'', st_effective_concurrency = None,
      st_concurrency_source = None, st_revision = None, st_revision_hash = None\<rparr>"

lemma demo_recorder_inv: "recorder_inv demo_recorder"
  by (simp add: recorder_inv_def demo_recorder_def)

lemma runs_recorded_at_most_once_witness:
  "recorder_observe (demo_codec (stored_state_of [])) no_faults (EvFinished 4 None 5 []) demo_recorder = demo_recorder"
proof -
  have none: "bt_get (rd_associations demo_recorder) 4 = None" by (simp add: demo_recorder_def)
  from runs_recorded_at_most_once [OF demo_recorder_inv none, of "[]" "EvFinished 4 None 5 []"
      "demo_codec (stored_state_of [])" no_faults]
  show ?thesis by (simp del: recorder_observe.simps)
qed

lemma run_estimate_frozen_at_start_witness:
  "estimate_at_start
     (fold (recorder_step (demo_codec (stored_state_of [])))
        [(no_faults, EvFinished 4 None 7000000000 [])]
        (recorder_observe (demo_codec (stored_state_of [])) no_faults (EvStarted demo_target_start) demo_recorder)) 4
   = estimate demo_history ''s'' None"
proof -
  obtain est where est: "estimate (rd_history demo_recorder) ''s'' None = Some est"
    by (simp add: demo_recorder_def demo_history_eq estimate_def bt_get_def estimate_samples_def Let_def)
  have sig: "st_execution_signature demo_target_start = Some ''s''" "st_run_id demo_target_start = 4"
    by (simp_all add: demo_target_start_def)
  have few: "length (rd_captured demo_recorder) + 1
      + length (filter (\<lambda>x. is_target_start (snd x)) [(no_faults, EvFinished 4 None 7000000000 [])])
      < MAX_CAPTURED_ESTIMATES"
    by (simp add: demo_recorder_def MAX_CAPTURED_ESTIMATES_def)
  from run_estimate_frozen_at_start [OF demo_recorder_inv est sig _ few] est show ?thesis
    by (simp add: demo_recorder_def)
qed

end
