(* ===== verification/Snapshot_Broker.thy ===== *)
theory Snapshot_Broker
  imports Awaiting Duration_Recorder
begin

text \<open>
  The correlated snapshot and the subscription broker, \<open>src/src/snapshot.rs\<close>. A subscriber is a
  bounded channel; the broker holds the sending ends (indices into the channel list), the
  receiving ends belong to the control connections.

  Shown: a subscriber that does not read receives exactly the distinct consecutive snapshots
  published since its subscription, in order, up to the buffer bound, and is disconnected when one
  more arrives; a snapshot is classified like an await of the same observation.
\<close>

section \<open>Data\<close>

definition SUBSCRIBER_BUFFER :: nat where "SUBSCRIBER_BUFFER = 16"

record correlated_snapshot =
  cs_instance :: watcher_instance
  cs_generation :: nat
  cs_batch_id :: string
  cs_state :: watcher_execution_state
  cs_trigger :: "string option"
  cs_commands :: "string list"
  cs_tasks :: "task_snapshot list"
  cs_pending :: nat
  cs_freshness :: freshness
  cs_duration_ms :: "nat option"
  cs_failures :: "string list"
  cs_paths :: "string list"
  cs_estimate :: "run_estimate option"
  cs_configured_concurrency :: nat
  cs_effective_concurrency :: nat
  cs_concurrency_source :: "string option"
  cs_revision :: "nat option"
  cs_revision_hash :: "string option"
  cs_config_lifecycle :: "config_transition option"
  cs_failure_evidence :: "evidence option"

text \<open>The shared sources a snapshot is built from.\<close>

record 'w snapshot_sources =
  src_state :: watcher_state
  src_coordinator :: await_inner
  src_outputs :: "output_registry option"
  src_estimates :: "(nat \<Rightarrow> run_estimate option) option"
  src_lifecycle :: "'w config_lifecycle option"

record channel =
  ch_buffer :: "correlated_snapshot list"
  ch_receiver_alive :: bool

record snapshot_broker =
  sb_instance :: watcher_instance
  sb_configured_concurrency :: nat
  sb_subscribers :: "nat list"
  sb_last :: "correlated_snapshot option"
  sb_channels :: "channel list"

section \<open>Operations\<close>

definition broker_build :: "snapshot_broker \<Rightarrow> 'w snapshot_sources \<Rightarrow> correlated_snapshot" where
  "broker_build b src =
     (let (latest_generation, _, pending) = snapshot_facts (src_coordinator src);
          s = src_state src
      in \<lparr>cs_instance = sb_instance b, cs_generation = ws_generation s,
          cs_batch_id = (case ws_batch s of Some batch \<Rightarrow> ''b-'' @ show_nat batch | None \<Rightarrow> []),
          cs_state = ws_state s, cs_trigger = ws_trigger s, cs_commands = ws_commands s,
          cs_tasks = ws_tasks s, cs_pending = pw_queued_batches pending,
          cs_freshness = classify s latest_generation pending,
          cs_duration_ms = ws_duration_ms s, cs_failures = ws_failures s, cs_paths = ws_changed s,
          cs_estimate = (case src_estimates src of None \<Rightarrow> None | Some lookup \<Rightarrow> lookup (ws_generation s)),
          cs_configured_concurrency = sb_configured_concurrency b,
          cs_effective_concurrency =
            (case ws_effective_concurrency s of Some n \<Rightarrow> n | None \<Rightarrow> sb_configured_concurrency b),
          cs_concurrency_source =
            Some (case ws_concurrency_source s of Some x \<Rightarrow> x | None \<Rightarrow> ''config''),
          cs_revision = ws_revision s, cs_revision_hash = ws_revision_hash s,
          cs_config_lifecycle = map_option lc_current (src_lifecycle src),
          cs_failure_evidence =
            (if ws_state s = WS_Failed
             then case src_outputs src of
                    None \<Rightarrow> None
                  | Some r \<Rightarrow> failure_evidence r (ws_generation s) DEFAULT_FAILURE_EVIDENCE_LINES
                                (wi_token (sb_instance b)) (failed_tasks s)
             else None)\<rparr>)"

definition broker_new :: "watcher_instance \<Rightarrow> nat \<Rightarrow> 'w snapshot_sources \<Rightarrow> snapshot_broker" where
  "broker_new inst concurrency src =
     (let b = \<lparr>sb_instance = inst, sb_configured_concurrency = concurrency, sb_subscribers = [],
               sb_last = None, sb_channels = []\<rparr>
      in b\<lparr>sb_last := Some (broker_build b src)\<rparr>)"

text \<open>\<open>try_send\<close> fails when the receiver is gone or the buffer is full.\<close>

definition try_send :: "correlated_snapshot \<Rightarrow> channel \<Rightarrow> channel option" where
  "try_send s c =
     (if ch_receiver_alive c \<and> length (ch_buffer c) < SUBSCRIBER_BUFFER
      then Some (c\<lparr>ch_buffer := ch_buffer c @ [s]\<rparr>) else None)"

text \<open>\<open>retain\<close>: each subscriber is sent the snapshot; those that cannot take it are dropped.\<close>

fun send_all :: "correlated_snapshot \<Rightarrow> nat list \<Rightarrow> channel list \<Rightarrow> nat list \<times> channel list" where
  "send_all s [] cs = ([], cs)"
| "send_all s (i # is) cs =
     (case try_send s (cs ! i) of
        Some c \<Rightarrow> (let (kept, cs') = send_all s is (cs[i := c]) in (i # kept, cs'))
      | None \<Rightarrow> send_all s is cs)"

text \<open>The part of \<open>publish\<close> under the broker lock, and the whole of it.\<close>

definition publish_snapshot :: "correlated_snapshot \<Rightarrow> snapshot_broker \<Rightarrow> snapshot_broker" where
  "publish_snapshot s b =
     (if sb_last b = Some s then b
      else (let (kept, cs) = send_all s (sb_subscribers b) (sb_channels b)
            in b\<lparr>sb_last := Some s, sb_subscribers := kept, sb_channels := cs\<rparr>))"

definition publish :: "'w snapshot_sources \<Rightarrow> snapshot_broker \<Rightarrow> snapshot_broker" where
  "publish src b = publish_snapshot (broker_build b src) b"

text \<open>\<open>subscribe\<close> answers the new channel and the last snapshot, which the constructor seeded.\<close>

definition subscribe :: "snapshot_broker \<Rightarrow> nat \<times> correlated_snapshot option \<times> snapshot_broker" where
  "subscribe b =
     (let i = length (sb_channels b)
      in (i, sb_last b,
          b\<lparr>sb_subscribers := sb_subscribers b @ [i],
            sb_channels := sb_channels b @ [\<lparr>ch_buffer = [], ch_receiver_alive = True\<rparr>]\<rparr>))"

definition receive_snapshot :: "nat \<Rightarrow> snapshot_broker \<Rightarrow> correlated_snapshot option \<times> snapshot_broker" where
  "receive_snapshot i b =
     (case ch_buffer (sb_channels b ! i) of
        [] \<Rightarrow> (None, b)
      | s # rest \<Rightarrow>
          (Some s, b\<lparr>sb_channels := (sb_channels b)[i := (sb_channels b ! i)\<lparr>ch_buffer := rest\<rparr>]\<rparr>))"

section \<open>Invariant\<close>

definition broker_inv :: "snapshot_broker \<Rightarrow> bool" where
  "broker_inv b \<longleftrightarrow>
     sb_last b \<noteq> None \<and> distinct (sb_subscribers b) \<and>
     (\<forall>i\<in>set (sb_subscribers b). i < length (sb_channels b)) \<and>
     (\<forall>c\<in>set (sb_channels b). length (ch_buffer c) \<le> SUBSCRIBER_BUFFER)"

lemma try_send_bound: "try_send s c = Some c' \<Longrightarrow> length (ch_buffer c') \<le> SUBSCRIBER_BUFFER"
  by (auto simp: try_send_def split: if_splits)

lemma send_all_shape:
  "send_all s is cs = (kept, cs') \<Longrightarrow> distinct is \<Longrightarrow>
   set kept \<subseteq> set is \<and> distinct kept \<and> length cs' = length cs"
proof (induction s "is" cs arbitrary: kept rule: send_all.induct)
  case (2 s i "is" cs)
  then show ?case by (fastforce split: option.splits prod.splits)
qed simp

lemma send_all_bounded:
  "send_all s is cs = (kept, cs') \<Longrightarrow> \<forall>c\<in>set cs. length (ch_buffer c) \<le> SUBSCRIBER_BUFFER \<Longrightarrow>
   \<forall>c\<in>set cs'. length (ch_buffer c) \<le> SUBSCRIBER_BUFFER"
proof (induction s "is" cs arbitrary: kept rule: send_all.induct)
  case (2 s i "is" cs)
  show ?case
  proof (cases "try_send s (cs ! i)")
    case (Some c)
    have "\<forall>x\<in>set (cs[i := c]). length (ch_buffer x) \<le> SUBSCRIBER_BUFFER"
      using "2.prems"(2) try_send_bound [OF Some] set_update_subset_insert [of cs i c] by blast
    with "2.IH"(2) [OF Some] "2.prems"(1) Some show ?thesis by (auto split: prod.splits)
  qed (use 2 in auto)
qed simp

lemma send_all_other:
  "send_all s is cs = (kept, cs') \<Longrightarrow> j \<notin> set is \<Longrightarrow> cs' ! j = cs ! j \<and> j \<notin> set kept"
proof (induction s "is" cs arbitrary: kept rule: send_all.induct)
  case (2 s i "is" cs)
  then show ?case by (auto split: option.splits prod.splits)
qed simp

lemma send_all_channel:
  "send_all s is cs = (kept, cs') \<Longrightarrow> distinct is \<Longrightarrow> j \<in> set is \<Longrightarrow> j < length cs \<Longrightarrow>
   (case try_send s (cs ! j) of
      Some c \<Rightarrow> j \<in> set kept \<and> cs' ! j = c | None \<Rightarrow> j \<notin> set kept \<and> cs' ! j = cs ! j)"
proof (induction s "is" cs arbitrary: kept rule: send_all.induct)
  case (2 s i "is" cs)
  show ?case
  proof (cases "try_send s (cs ! i)")
    case None
    show ?thesis
    proof (cases "j = i")
      case True
      with 2 None send_all_other [of s "is" cs kept cs' i] show ?thesis by simp
    qed (use 2 None in simp)
  next
    case (Some c)
    obtain kept1 where rec: "send_all s is (cs[i := c]) = (kept1, cs')" "kept = i # kept1"
      using "2.prems"(1) Some by (auto split: prod.splits)
    show ?thesis
    proof (cases "j = i")
      case True
      with "2.prems" Some rec send_all_other [OF rec(1), of i] show ?thesis by simp
    next
      case False
      with "2.IH"(2) [OF Some rec(1)] "2.prems" rec(2) show ?thesis by (simp split: option.splits)
    qed
  qed
qed simp

lemma broker_inv_publish [fzz_inv]: "broker_inv b \<Longrightarrow> broker_inv (publish_snapshot s b)"
proof -
  assume inv: "broker_inv b"
  obtain kept cs where send: "send_all s (sb_subscribers b) (sb_channels b) = (kept, cs)" by fastforce
  from inv send_all_shape [OF send] send_all_bounded [OF send] show ?thesis
    by (auto simp: broker_inv_def publish_snapshot_def send)
qed

lemma broker_inv_subscribe [fzz_inv]: "broker_inv b \<Longrightarrow> broker_inv (snd (snd (subscribe b)))"
  by (auto simp: broker_inv_def subscribe_def Let_def)

interpretation broker: event_observer publish_snapshot broker_inv
  by unfold_locales (rule broker_inv_publish)

section \<open>What a subscriber receives\<close>

text \<open>The snapshots that differ from their predecessor.\<close>

fun changes :: "'a \<Rightarrow> 'a list \<Rightarrow> 'a list" where
  "changes l [] = []"
| "changes l (x # xs) = (if x = l then changes l xs else x # changes x xs)"

text \<open>Channel \<open>i\<close> was sent \<open>ds\<close> since it was opened and nothing was read from it.\<close>

definition channel_sent :: "nat \<Rightarrow> correlated_snapshot list \<Rightarrow> snapshot_broker \<Rightarrow> bool" where
  "channel_sent i ds b \<longleftrightarrow>
     i < length (sb_channels b) \<and> ch_receiver_alive (sb_channels b ! i) \<and>
     ch_buffer (sb_channels b ! i) = take SUBSCRIBER_BUFFER ds \<and>
     (i \<in> set (sb_subscribers b) \<longleftrightarrow> length ds \<le> SUBSCRIBER_BUFFER)"

lemma publish_sends:
  assumes inv: "broker_inv b" and sent: "channel_sent i ds b" and new: "sb_last b \<noteq> Some s"
  shows "channel_sent i (ds @ [s]) (publish_snapshot s b)" and "sb_last (publish_snapshot s b) = Some s"
proof -
  obtain kept cs where send: "send_all s (sb_subscribers b) (sb_channels b) = (kept, cs)" by fastforce
  have pub: "publish_snapshot s b = b\<lparr>sb_last := Some s, sb_subscribers := kept, sb_channels := cs\<rparr>"
    using new by (simp add: publish_snapshot_def send)
  then show "sb_last (publish_snapshot s b) = Some s" by simp
  have dist: "distinct (sb_subscribers b)" "\<forall>i\<in>set (sb_subscribers b). i < length (sb_channels b)"
    using inv by (simp_all add: broker_inv_def)
  show "channel_sent i (ds @ [s]) (publish_snapshot s b)"
  proof (cases "i \<in> set (sb_subscribers b)")
    case False
    with sent send_all_other [OF send, of i] send_all_shape [OF send dist(1)] show ?thesis
      unfolding channel_sent_def pub by auto
  next
    case True
    with sent send_all_channel [OF send dist(1) True] send_all_shape [OF send dist(1)] show ?thesis
      unfolding channel_sent_def pub by (auto simp: try_send_def split: if_splits)
  qed
qed

lemma publish_all_sends:
  assumes "broker_inv b" and "channel_sent i ds b" and "sb_last b = Some l"
  shows "channel_sent i (ds @ changes l ss) (fold publish_snapshot ss b)"
  using assms
proof (induction ss arbitrary: b ds l)
  case (Cons s ss)
  show ?case
  proof (cases "s = l")
    case True
    with Cons show ?thesis by (simp add: publish_snapshot_def)
  next
    case False
    with Cons.prems(3) have new: "sb_last b \<noteq> Some s" by simp
    note step = publish_sends [OF Cons.prems(1,2) new]
    show ?thesis
      using Cons.IH [OF broker_inv_publish [OF Cons.prems(1)] step] False by simp
  qed
qed simp

lemma publish_snapshot_keeps [simp]:
  "sb_instance (publish_snapshot s b) = sb_instance b"
  "sb_configured_concurrency (publish_snapshot s b) = sb_configured_concurrency b"
  by (simp_all add: publish_snapshot_def split: prod.split)

lemma broker_build_cong:
  "sb_instance b = sb_instance b' \<Longrightarrow> sb_configured_concurrency b = sb_configured_concurrency b' \<Longrightarrow>
   broker_build b src = broker_build b' src"
  by (simp add: broker_build_def snapshot_facts_def Let_def split: option.split)

lemma publish_fold:
  "fold publish srcs b = fold publish_snapshot (map (broker_build b) srcs) b"
proof (induction srcs arbitrary: b)
  case (Cons src srcs)
  have "broker_build (publish_snapshot s b) = (broker_build b :: 'a snapshot_sources \<Rightarrow> _)" for s
    by (rule ext, rule broker_build_cong) simp_all
  moreover have "publish src b = publish_snapshot (broker_build b src) b" by (simp add: publish_def)
  ultimately show ?case using Cons.IH [of "publish src b"] by simp
qed simp

text \<open>
  A subscription loses no transition and repeats none: from the snapshot \<open>s\<close> the subscriber was
  handed, and as long as it reads nothing, its channel holds exactly the published snapshots
  that differ from their predecessor, starting from \<open>s\<close>, in order. When more than 16 of them
  accumulate, the channel keeps the first 16 and the subscriber is dropped; otherwise it stays
  subscribed.
\<close>

theorem subscriber_receives_changes:
  assumes "broker_inv b" and "subscribe b = (i, Some s, b1)"
  shows "ch_buffer (sb_channels (fold publish srcs b1) ! i) =
           take SUBSCRIBER_BUFFER (changes s (map (broker_build b) srcs)) \<and>
         (i \<in> set (sb_subscribers (fold publish srcs b1)) \<longleftrightarrow>
           length (changes s (map (broker_build b) srcs)) \<le> SUBSCRIBER_BUFFER)"
proof -
  have b1: "b1 = snd (snd (subscribe b))" "i = length (sb_channels b)" "sb_last b1 = Some s"
    using assms(2) by (auto simp: subscribe_def Let_def)
  have inv: "broker_inv b1" unfolding b1(1) using assms(1) by (rule broker_inv_subscribe)
  have sent: "channel_sent i [] b1" by (simp add: channel_sent_def b1(1,2) subscribe_def Let_def)
  have build: "broker_build b1 = (broker_build b :: 'a snapshot_sources \<Rightarrow> _)"
    by (rule ext, rule broker_build_cong) (simp_all add: b1(1) subscribe_def Let_def)
  have "channel_sent i (changes s (map (broker_build b) srcs)) (fold publish srcs b1)"
    using publish_all_sends [OF inv sent b1(3), of "map (broker_build b) srcs"]
    by (simp add: publish_fold build)
  then show ?thesis by (simp add: channel_sent_def)
qed

definition demo_sources :: "event list \<Rightarrow> unit snapshot_sources" where
  "demo_sources es =
     \<lparr>src_state = watch_events es, src_coordinator = coordinate es, src_outputs = None,
      src_estimates = None, src_lifecycle = None\<rparr>"

definition demo_broker :: snapshot_broker where
  "demo_broker = broker_new \<lparr>wi_token = ''fz'', wi_started_at_epoch_ms = 1\<rparr> 4 (demo_sources [])"

lemma subscriber_receives_changes_witness:
  "ch_buffer (sb_channels (fold publish [demo_sources [], demo_sources [demo_started 1]]
       (snd (snd (subscribe demo_broker)))) ! 0) =
     [broker_build demo_broker (demo_sources [demo_started 1])]"
proof -
  let ?s = "broker_build demo_broker (demo_sources [])"
  have inv: "broker_inv demo_broker" by (simp add: broker_inv_def demo_broker_def broker_new_def Let_def)
  have build: "broker_build \<lparr>sb_instance = sb_instance demo_broker,
      sb_configured_concurrency = sb_configured_concurrency demo_broker, sb_subscribers = [],
      sb_last = None, sb_channels = []\<rparr> (demo_sources []) = ?s"
    by (rule broker_build_cong) simp_all
  have last: "sb_last demo_broker = Some ?s"
    using build by (simp add: demo_broker_def broker_new_def Let_def)
  have sub: "subscribe demo_broker = (0, Some ?s, snd (snd (subscribe demo_broker)))"
    using last by (simp add: subscribe_def Let_def) (simp add: demo_broker_def broker_new_def Let_def)
  have "cs_state ?s = WS_Idle" "cs_state (broker_build demo_broker (demo_sources [demo_started 1])) = WS_Running"
    by (simp_all add: broker_build_def demo_sources_def watch_events_def watcher_state_default_def
        demo_started_def snapshot_facts_def)
  then have ne: "broker_build demo_broker (demo_sources [demo_started 1]) \<noteq> ?s" by auto
  from subscriber_receives_changes [OF inv sub, of "[demo_sources [], demo_sources [demo_started 1]]"] ne
  show ?thesis by (simp add: SUBSCRIBER_BUFFER_def)
qed

end
