(* ===== verification/Output_Paging.thy ===== *)
theory Output_Paging
  imports Output_Retrieval
begin

text \<open>
  Paged retrieval, \<open>retrieve_page\<close> of \<open>src/src/output.rs\<close>: the page plan, the validated cursor, the
  walk that fills a page up to a budget on its serialized size, and the binary search for the
  longest prefix that fits. The size of the serialized page, which \<open>serde_json\<close> computes, is the
  parameter \<open>ser_len\<close>. An index outside a vector panics in the source; there the model answers
  \<^const>\<open>None\<close>.

  Shown: the search never indexes out of range and finds the longest fitting prefix, every cursor
  a page hands out is accepted by the next request, and for captures that are valid UTF-8 the
  pages of a chain concatenate to exactly the retained output.
\<close>

section \<open>Data and helpers\<close>

definition DEFAULT_PAGE_CURSOR :: string where
  "DEFAULT_PAGE_CURSOR = ''cursor''"

definition stream_output_of :: "string \<Rightarrow> capture_buffer \<Rightarrow> stream_output" where
  "stream_output_of content buffer =
     \<lparr>so_content = content, so_lines = length (lines_of content),
      so_retained_bytes = retained_bytes buffer, so_observed_bytes = observed_bytes buffer,
      so_truncated = cb_truncated buffer\<rparr>"

definition put_stream :: "bool \<Rightarrow> stream_output \<Rightarrow> retrieved_task \<Rightarrow> retrieved_task" where
  "put_stream is_stderr s t =
     (if is_stderr then t\<lparr>rt_stderr := Some s\<rparr> else t\<lparr>rt_stdout := Some s\<rparr>)"

definition set_stream ::
  "string \<Rightarrow> bool \<Rightarrow> string \<Rightarrow> capture_buffer \<Rightarrow> retrieved_task list \<Rightarrow> retrieved_task list" where
  "set_stream task_id is_stderr content buffer tasks =
     (if task_id \<in> rt_id ` set tasks
      then update_first (\<lambda>t. rt_id t = task_id) (put_stream is_stderr (stream_output_of content buffer)) tasks
      else tasks @ [put_stream is_stderr (stream_output_of content buffer)
                      \<lparr>rt_id = task_id, rt_stdout = None, rt_stderr = None\<rparr>])"

text \<open>Task selection, as in tail retrieval.\<close>

definition page_tasks ::
  "string option \<Rightarrow> string list \<Rightarrow> retrieval_error + string option \<times> string list" where
  "page_tasks task ids =
     (case wanted_task task of
        None \<Rightarrow> Inr (None, ids)
      | Some wanted \<Rightarrow>
         (if wanted \<in> set ids then Inr (None, filter (\<lambda>i. i = wanted) ids)
          else case canonical_candidates wanted ids of
                 [single] \<Rightarrow> Inr (Some single, filter (\<lambda>i. i = single) ids)
               | [] \<Rightarrow> Inl (TaskNotFound wanted ids False)
               | c # d # cs \<Rightarrow> Inl (TaskNotFound wanted (c # d # cs) True)))"

definition page_plan :: "string option \<Rightarrow> string list \<Rightarrow> (string \<times> bool) list" where
  "page_plan stream ids =
     concat (map (\<lambda>i. map (\<lambda>is_stderr. (i, is_stderr))
                   (filter (\<lambda>is_stderr. case stream of
                        None \<Rightarrow> True | Some w \<Rightarrow> is_stderr = (w = ''stderr'')) [False, True]))
                (sort ids))"

definition plan_buffer :: "generation_output \<Rightarrow> string \<times> bool \<Rightarrow> capture_buffer option" where
  "plan_buffer e p =
     map_option (\<lambda>t. if snd p then to_stderr t else to_stdout t) (find_task (fst p) e)"

section \<open>Cursors\<close>

definition format_cursor :: "nat \<Rightarrow> nat \<Rightarrow> bool \<Rightarrow> nat \<Rightarrow> string" where
  "format_cursor generation plan_idx is_stderr offset =
     show_nat generation @ ''|'' @ show_nat plan_idx @ ''|''
     @ show_nat (if is_stderr then 1 else 0) @ ''|'' @ show_nat offset"

definition parse_cursor ::
  "nat \<Rightarrow> generation_output \<Rightarrow> (string \<times> bool) list \<Rightarrow> string
   \<Rightarrow> (retrieval_error + nat \<times> nat) option" where
  "parse_cursor generation e plan raw =
     (case str_split ''|'' raw of
        [a, b, c, d] \<Rightarrow>
          (case (parse_unsigned a, parse_unsigned b, parse_unsigned c, parse_unsigned d) of
             (Some gen, Some plan_idx, Some stream_idx, Some offset) \<Rightarrow>
               (if gen \<noteq> generation then Some (Inl (InvalidCursor (CursorGeneration gen generation)))
                else if plan_idx \<ge> length plan
                then Some (Inl (InvalidCursor (CursorPlanIndex plan_idx (length plan))))
                else if stream_idx \<noteq> (if snd (plan ! plan_idx) then 1 else 0)
                then Some (Inl (InvalidCursor (CursorStream stream_idx plan_idx)))
                else case plan_buffer e (plan ! plan_idx) of
                       None \<Rightarrow> None
                     | Some buffer \<Rightarrow>
                         (if offset > retained_bytes buffer
                          then Some (Inl (InvalidCursor (CursorOffset offset (retained_bytes buffer))))
                          else Some (Inr (plan_idx, offset))))
           | _ \<Rightarrow> Some (Inl (InvalidCursor (CursorNotNumeric raw))))
      | _ \<Rightarrow> Some (Inl (InvalidCursor (CursorShape raw))))"

section \<open>The walk\<close>

text \<open>The binary search over the character boundaries; \<^const>\<open>None\<close> where the source would index
  out of range.\<close>

function page_search :: "(nat \<Rightarrow> bool) \<Rightarrow> nat list \<Rightarrow> nat \<Rightarrow> nat \<Rightarrow> nat option" where
  "page_search fits boundaries lo hi =
     (if lo < hi then
        (let mid = (lo + hi + 1) div 2 in
         if mid \<ge> length boundaries then None
         else if fits (boundaries ! mid) then page_search fits boundaries mid hi
         else page_search fits boundaries lo (mid - 1))
      else if lo < length boundaries then Some (boundaries ! lo) else None)"
  by pat_completeness auto
termination
  by (relation "measure (\<lambda>(fits, boundaries, lo, hi). hi - lo)") auto

declare page_search.simps [simp del]

definition measured_page ::
  "nat \<Rightarrow> generation_output \<Rightarrow> string option \<Rightarrow> retrieved_task list \<Rightarrow> nat \<Rightarrow> retrieved_output" where
  "measured_page generation e resolved tasks returned =
     \<lparr>ro_generation = generation, ro_revision = go_revision e,
      ro_revision_hash = go_revision_hash e, ro_resolved_task = resolved, ro_tasks = tasks,
      ro_next_cursor = Some DEFAULT_PAGE_CURSOR, ro_returned_bytes = Some returned,
      ro_truncated = Some True\<rparr>"

text \<open>The \<open>'walk\<close> loop from plan position \<open>idx\<close> on: the tasks and bytes of the page and its
  continuation.\<close>

fun page_walk ::
  "(retrieved_output \<Rightarrow> nat) \<Rightarrow> nat \<Rightarrow> generation_output \<Rightarrow> string option \<Rightarrow> nat \<Rightarrow> nat \<times> nat
   \<Rightarrow> nat \<Rightarrow> (string \<times> bool) list \<Rightarrow> retrieved_task list \<Rightarrow> nat
   \<Rightarrow> (retrieved_task list \<times> nat \<times> string option) option" where
  "page_walk ser_len generation e resolved max_bytes start idx [] tasks returned =
     Some (tasks, returned, None)"
| "page_walk ser_len generation e resolved max_bytes start idx (p # plan) tasks returned =
     (if idx < fst start
      then page_walk ser_len generation e resolved max_bytes start (Suc idx) plan tasks returned
      else
        (let begin_at = (if idx = fst start then snd start else 0) in
         case plan_buffer e p of
           None \<Rightarrow> None
         | Some buffer \<Rightarrow>
             if begin_at \<ge> length (cb_bytes buffer)
             then page_walk ser_len generation e resolved max_bytes start (Suc idx) plan tasks returned
             else
               (let text = from_utf8_lossy (drop begin_at (cb_bytes buffer));
                    candidate = (\<lambda>keep. set_stream (fst p) (snd p) (take keep text) buffer tasks);
                    fits = (\<lambda>keep. ser_len (measured_page generation e resolved (candidate keep)
                                     (returned + keep)) \<le> max_bytes)
                in if fits (length text) \<or> text = []
                   then page_walk ser_len generation e resolved max_bytes start (Suc idx) plan
                          (candidate (length text)) (returned + length text)
                   else
                     (let boundaries = char_starts text @ [length text] in
                      case page_search fits boundaries 0 (length boundaries) of
                        None \<Rightarrow> None
                      | Some keep \<Rightarrow>
                          Some (if keep > 0 then candidate keep else tasks,
                                if keep > 0 then returned + keep else returned,
                                if keep > 0 \<or> begin_at + keep < length (cb_bytes buffer)
                                then Some (format_cursor generation idx (snd p) (begin_at + keep))
                                else None)))))"

definition retrieve_page ::
  "(retrieved_output \<Rightarrow> nat) \<Rightarrow> output_registry \<Rightarrow> nat \<Rightarrow> string option \<Rightarrow> string option \<Rightarrow> nat
   \<Rightarrow> string option \<Rightarrow> (retrieval_error + retrieved_output) option" where
  "retrieve_page ser_len r generation task stream max_bytes cursor =
     (case find_generation generation r of
        None \<Rightarrow> Some (Inl (GenerationNotFound (map go_generation (or_generations r))))
      | Some e \<Rightarrow>
         (case page_tasks task (map to_task (go_tasks e)) of
            Inl err \<Rightarrow> Some (Inl err)
          | Inr (resolved, ids) \<Rightarrow>
             (let plan = page_plan stream ids in
              case (case cursor of
                      None \<Rightarrow> Some (Inr (0, 0))
                    | Some raw \<Rightarrow> parse_cursor generation e plan raw) of
                None \<Rightarrow> None
              | Some (Inl err) \<Rightarrow> Some (Inl err)
              | Some (Inr start) \<Rightarrow>
                  (case page_walk ser_len generation e resolved max_bytes start 0 plan [] 0 of
                     None \<Rightarrow> None
                   | Some (tasks, returned, next) \<Rightarrow>
                       Some (Inr \<lparr>ro_generation = generation, ro_revision = go_revision e,
                         ro_revision_hash = go_revision_hash e, ro_resolved_task = resolved,
                         ro_tasks = tasks, ro_next_cursor = next,
                         ro_returned_bytes = Some returned,
                         ro_truncated = Some (next \<noteq> None)\<rparr>)))))"

declare page_walk.simps(2) [simp del]

section \<open>The binary search\<close>

lemma page_search_step:
  assumes "lo < hi" and "mid = (lo + hi + 1) div 2"
  shows "lo < mid \<and> mid \<le> hi \<and> page_search fits bs lo hi =
    (if mid \<ge> length bs then None
     else if fits (bs ! mid) then page_search fits bs mid hi
     else page_search fits bs lo (mid - 1))"
  using assms by (subst page_search.simps) (auto simp: Let_def)

text \<open>
  The search starts at \<open>hi = length bs\<close>, one past the last index. That index would be read only
  after the whole text had been found to fit, and the search is not entered then.
\<close>

lemma page_search_in_range:
  assumes "lo \<le> hi" and "hi \<le> length bs" and "hi = length bs \<longrightarrow> lo + 1 < length bs"
    and "lo < length bs" and "\<not> fits (last bs)"
  shows "\<exists>i < length bs. lo \<le> i \<and> page_search fits bs lo hi = Some (bs ! i) \<and> (i = lo \<or> fits (bs ! i))"
  using assms
proof (induction fits bs lo hi rule: page_search.induct)
  case (1 fits bs lo hi)
  show ?case
  proof (cases "lo < hi")
    case False
    with "1.prems" have "page_search fits bs lo hi = Some (bs ! lo)"
      by (subst page_search.simps) simp
    with "1.prems" show ?thesis by blast
  next
    case True
    define mid where "mid = (lo + hi + 1) div 2"
    note step = page_search_step [OF True mid_def, of fits bs, THEN conjunct1]
      page_search_step [OF True mid_def, of fits bs, THEN conjunct2, THEN conjunct1]
      page_search_step [OF True mid_def, of fits bs, THEN conjunct2, THEN conjunct2]
    have range: "mid < length bs" using "1.prems" True by (auto simp: mid_def)
    show ?thesis
    proof (cases "fits (bs ! mid)")
      case fit: True
      have "mid \<noteq> length bs - 1" using fit "1.prems"(5) range by (metis last_conv_nth list.size(3) not_less_zero)
      with range have "mid + 1 < length bs" by simp
      with range have "\<exists>i < length bs. mid \<le> i \<and> page_search fits bs mid hi = Some (bs ! i) \<and> (i = mid \<or> fits (bs ! i))"
        using "1.IH"(1) [OF True mid_def _ fit] "1.prems" step(2) by auto
      then show ?thesis using step(1,3) range fit by (metis le_trans less_imp_le_nat not_le)
    next
      case nofit: False
      have "\<exists>i < length bs. lo \<le> i \<and> page_search fits bs lo (mid - 1) = Some (bs ! i) \<and> (i = lo \<or> fits (bs ! i))"
        using "1.IH"(2) [OF True mid_def _ nofit] "1.prems" step(1,2) range by auto
      then show ?thesis using step(3) range nofit by simp
    qed
  qed
qed

text \<open>When a shorter prefix of a fitting prefix fits, the result is the longest fitting one.\<close>

lemma page_search_maximal:
  assumes "page_search fits bs lo hi = Some k" and "lo \<le> hi"
    and "\<And>i j. i \<le> j \<Longrightarrow> j < length bs \<Longrightarrow> fits (bs ! j) \<Longrightarrow> fits (bs ! i)"
    and "\<And>j. hi < j \<Longrightarrow> j < length bs \<Longrightarrow> \<not> fits (bs ! j)"
  shows "\<exists>i < length bs. k = bs ! i \<and> (\<forall>j. i < j \<and> j < length bs \<longrightarrow> \<not> fits (bs ! j))"
  using assms
proof (induction fits bs lo hi rule: page_search.induct)
  case (1 fits bs lo hi)
  show ?case
  proof (cases "lo < hi")
    case False
    with "1.prems"(1,2) have "lo = hi" "lo < length bs" "k = bs ! lo"
      by (auto simp: page_search.simps [of fits bs hi hi] split: if_splits)
    with "1.prems"(4) show ?thesis by blast
  next
    case True
    define mid where "mid = (lo + hi + 1) div 2"
    note step = page_search_step [OF True mid_def, of fits bs, THEN conjunct1]
      page_search_step [OF True mid_def, of fits bs, THEN conjunct2, THEN conjunct1]
      page_search_step [OF True mid_def, of fits bs, THEN conjunct2, THEN conjunct2]
    with "1.prems"(1) have range: "mid < length bs" by (auto split: if_splits)
    show ?thesis
    proof (cases "fits (bs ! mid)")
      case fit: True
      with step range "1.prems"(1) have "page_search fits bs mid hi = Some k" by simp
      then show ?thesis
        using "1.IH"(1) [OF True mid_def _ fit] "1.prems" step(2) range by simp
    next
      case nofit: False
      with step range "1.prems"(1) have found: "page_search fits bs lo (mid - 1) = Some k" by simp
      have above: "\<not> fits (bs ! j)" if "mid - 1 < j" "j < length bs" for j
      proof -
        have "mid \<le> j" using that(1) by simp
        with "1.prems"(3) [of mid j] that(2) nofit show ?thesis by blast
      qed
      show ?thesis
        using "1.IH"(2) [OF True mid_def _ nofit found _ "1.prems"(3) above] step(1,2) range by simp
    qed
  qed
qed

section \<open>Character boundaries of valid text\<close>

lemma cont_run_le: "cont_run n cs \<le> n" "cont_run n cs \<le> length cs"
  by (induction n cs rule: cont_run.induct) auto

lemma cont_run_all: "i < cont_run n cs \<Longrightarrow> is_cont (cs ! i)"
proof (induction n cs arbitrary: i rule: cont_run.induct)
  case (3 n c cs)
  then show ?case by (cases i) (auto split: if_splits)
qed simp_all

lemma second_ok_cont: "second_ok b (byte_of d) \<Longrightarrow> is_cont d"
  by (auto simp: second_ok_def is_cont_def split: if_splits)

lemma utf8_step_length: "utf8_step c cs = (n, ok) \<Longrightarrow> n \<le> Suc (length cs)"
  using cont_run_le by (auto simp: utf8_step_def Let_def split: if_splits list.splits)

lemma utf8_step_cont:
  assumes "utf8_step c cs = (n, ok)" and "0 < i" and "i < n"
  shows "is_cont ((c # cs) ! i)"
proof -
  from assms obtain d ds where cs: "cs = d # ds" and sec: "second_ok (byte_of c) (byte_of d)"
    and n: "n = 2 + cont_run (utf8_width (byte_of c) - 2) ds"
    by (auto simp: utf8_step_def Let_def split: if_splits list.splits)
  show ?thesis
  proof (cases "i = 1")
    case True
    with sec cs show ?thesis by (simp add: second_ok_cont)
  next
    case False
    with assms(2) obtain j where "i = Suc (Suc j)" by (metis One_nat_def gr0_conv_Suc old.nat.exhaust)
    with assms(3) n cs show ?thesis by (simp add: cont_run_all)
  qed
qed

lemma valid_utf8_drop:
  assumes "valid_utf8 s" and "i \<in> set (char_starts s @ [length s])"
  shows "valid_utf8 (drop i s)"
  using assms
proof (induction s arbitrary: i rule: valid_utf8.induct)
  case 1
  then show ?case by simp
next
  case (2 c cs)
  obtain n ok where step: "utf8_step c cs = (n, ok)" by fastforce
  with "2.prems" have rest: "valid_utf8 (drop n (c # cs))" by (simp add: valid_utf8.simps(2))
  show ?case
  proof (cases "i < n")
    case True
    from True utf8_step_length [OF step] "2.prems"(2) have "\<not> is_cont ((c # cs) ! i) \<or> i = length (c # cs)"
      by (auto simp: char_starts_def simp del: upt_Suc)
    with True utf8_step_length [OF step] utf8_step_cont [OF step, of i] have "i = 0"
      by (metis gr0I length_Cons not_less_eq_eq order_less_le_trans nat_less_le)
    with "2.prems"(1) show ?thesis by simp
  next
    case False
    then have "i - n \<in> set (char_starts (drop n (c # cs)) @ [length (drop n (c # cs))])"
      using "2.prems"(2) by (auto simp: char_starts_def simp del: upt_Suc)
    from "2.IH" [OF step [symmetric] rest this] False show ?thesis by simp
  qed
qed

section \<open>The text of a page\<close>

definition stream_text :: "stream_output option \<Rightarrow> string" where
  "stream_text s = (case s of None \<Rightarrow> [] | Some so \<Rightarrow> so_content so)"

definition page_text :: "retrieved_task list \<Rightarrow> string" where
  "page_text tasks = concat (map (\<lambda>t. stream_text (rt_stdout t) @ stream_text (rt_stderr t)) tasks)"

text \<open>In a plan the two streams of a task are neighbours, standard output first.\<close>

fun plan_ok :: "(string \<times> bool) list \<Rightarrow> bool" where
  "plan_ok [] = True"
| "plan_ok (p # ps) \<longleftrightarrow> plan_ok ps \<and>
     (fst p \<in> fst ` set ps \<longrightarrow>
        (\<exists>qs. ps = (fst p, True) # qs \<and> \<not> snd p \<and> fst p \<notin> fst ` set qs))"

lemma page_plan_Cons:
  "page_plan stream ids = concat (map (\<lambda>i. map (Pair i)
     (case stream of None \<Rightarrow> [False, True] | Some w \<Rightarrow> [w = ''stderr''])) (sort ids))"
  by (cases stream) (auto simp: page_plan_def)

lemma plan_ok_concat:
  assumes "distinct ids" and "bs \<in> {[False, True], [False], [True]}"
  shows "plan_ok (concat (map (\<lambda>i. map (Pair i) bs) ids))"
  using assms(1)
proof (induction ids)
  case (Cons i ids)
  then have "i \<notin> fst ` set (concat (map (\<lambda>i. map (Pair i) bs) ids))" by auto
  with Cons assms(2) show ?case by auto
qed simp

lemma plan_ok_page_plan: "distinct ids \<Longrightarrow> plan_ok (page_plan stream ids)"
  unfolding page_plan_Cons by (rule plan_ok_concat) (auto split: option.splits)

text \<open>What the page may already hold of the tasks that are still to come.\<close>

definition page_ready :: "retrieved_task list \<Rightarrow> (string \<times> bool) list \<Rightarrow> bool" where
  "page_ready tasks ps \<longleftrightarrow>
     (\<forall>i \<in> fst ` set ps. i \<in> rt_id ` set tasks \<longrightarrow>
        (\<exists>qs us t. ps = (i, True) # qs \<and> i \<notin> fst ` set qs \<and> tasks = us @ [t] \<and> rt_id t = i \<and>
           i \<notin> rt_id ` set us \<and> rt_stderr t = None))"

lemma page_ready_tl:
  assumes "page_ready tasks (p # ps)"
  shows "page_ready tasks ps" "\<forall>i \<in> fst ` set ps. i \<notin> rt_id ` set tasks"
  using assms by (force simp: page_ready_def)+

lemma update_first_last:
  "i \<notin> rt_id ` set us \<Longrightarrow> rt_id t = i \<Longrightarrow> update_first (\<lambda>t. rt_id t = i) f (us @ [t]) = us @ [f t]"
  by (induction us) auto

lemma set_stream_cases:
  assumes "page_ready tasks (p # ps)"
  obtains "fst p \<notin> rt_id ` set tasks"
      "set_stream (fst p) (snd p) c b tasks =
         tasks @ [put_stream (snd p) (stream_output_of c b) \<lparr>rt_id = fst p, rt_stdout = None, rt_stderr = None\<rparr>]"
  | us t where "tasks = us @ [t]" "snd p" "rt_id t = fst p" "rt_stderr t = None" "fst p \<notin> fst ` set ps"
      "set_stream (fst p) (snd p) c b tasks = us @ [t\<lparr>rt_stderr := Some (stream_output_of c b)\<rparr>]"
proof (cases "fst p \<in> rt_id ` set tasks")
  case True
  with assms obtain us t where "tasks = us @ [t]" "snd p" "rt_id t = fst p" "rt_stderr t = None"
    "fst p \<notin> fst ` set ps" "fst p \<notin> rt_id ` set us"
    by (force simp: page_ready_def)
  with True that(2) show thesis by (simp add: set_stream_def update_first_last put_stream_def)
next
  case False
  with that(1) show thesis by (simp add: set_stream_def)
qed

lemma page_text_append [simp]: "page_text (ts @ us) = page_text ts @ page_text us"
  by (simp add: page_text_def)

lemma set_stream_text:
  assumes "page_ready tasks (p # ps)"
  shows "page_text (set_stream (fst p) (snd p) c b tasks) = page_text tasks @ c"
  using assms
  by (cases rule: set_stream_cases [where c = c and b = b])
    (auto simp: page_text_def stream_text_def put_stream_def stream_output_of_def)

lemma set_stream_ready:
  assumes ready: "page_ready tasks (p # ps)" and ok: "plan_ok (p # ps)"
  shows "page_ready (set_stream (fst p) (snd p) c b tasks) ps"
  using ready
proof (cases rule: set_stream_cases [where c = c and b = b])
  case 1
  show ?thesis
    unfolding page_ready_def
  proof (intro ballI impI)
    fix i assume i: "i \<in> fst ` set ps" "i \<in> rt_id ` set (set_stream (fst p) (snd p) c b tasks)"
    have "rt_id (put_stream x y z) = rt_id z" for x y z by (simp add: put_stream_def)
    with i 1 page_ready_tl(2) [OF ready] have "i = fst p" by auto
    with ok i obtain qs where qs: "ps = (i, True) # qs" "\<not> snd p" "i \<notin> fst ` set qs" by auto
    let ?t = "put_stream (snd p) (stream_output_of c b) \<lparr>rt_id = fst p, rt_stdout = None, rt_stderr = None\<rparr>"
    have "set_stream (fst p) (snd p) c b tasks = tasks @ [?t]" "rt_id ?t = i" "rt_stderr ?t = None"
      "i \<notin> rt_id ` set tasks"
      using 1 qs \<open>i = fst p\<close> by (simp_all add: put_stream_def)
    with qs show "\<exists>qs us t. ps = (i, True) # qs \<and> i \<notin> fst ` set qs \<and>
        set_stream (fst p) (snd p) c b tasks = us @ [t] \<and> rt_id t = i \<and>
        i \<notin> rt_id ` set us \<and> rt_stderr t = None"
      by blast
  qed
next
  case (2 us t)
  then show ?thesis using page_ready_tl(2) [OF ready] by (auto simp: page_ready_def)
qed

section \<open>One page\<close>

definition plan_bytes :: "generation_output \<Rightarrow> string \<times> bool \<Rightarrow> string" where
  "plan_bytes e p = (case plan_buffer e p of Some b \<Rightarrow> cb_bytes b | None \<Rightarrow> [])"

text \<open>The output still to be delivered when the walk stands at plan position \<open>idx\<close>.\<close>

fun plan_rest :: "generation_output \<Rightarrow> nat \<times> nat \<Rightarrow> nat \<Rightarrow> (string \<times> bool) list \<Rightarrow> string" where
  "plan_rest e start idx [] = []"
| "plan_rest e start idx (p # ps) =
     (if idx < fst start then [] else drop (if idx = fst start then snd start else 0) (plan_bytes e p))
     @ plan_rest e start (Suc idx) ps"

definition plan_valid :: "generation_output \<Rightarrow> (string \<times> bool) list \<Rightarrow> bool" where
  "plan_valid e ps \<longleftrightarrow> (\<forall>p\<in>set ps. plan_buffer e p \<noteq> None \<and> valid_utf8 (plan_bytes e p))"

text \<open>A position of the plan at which a page may start: at most the end of its stream, between two
  characters.\<close>

definition good_start :: "generation_output \<Rightarrow> (string \<times> bool) list \<Rightarrow> nat \<times> nat \<Rightarrow> bool" where
  "good_start e plan start \<longleftrightarrow>
     fst start < length plan \<and> snd start \<le> length (plan_bytes e (plan ! fst start)) \<and>
     valid_utf8 (drop (snd start) (plan_bytes e (plan ! fst start)))"

lemma plan_rest_later: "fst start < idx \<Longrightarrow> plan_rest e start idx ps = concat (map (plan_bytes e) ps)"
  by (induction ps arbitrary: idx) auto

text \<open>Where a page stops, relative to the part \<open>ps\<close> of the plan that begins at \<open>idx\<close>.\<close>

definition stops_at ::
  "generation_output \<Rightarrow> nat \<Rightarrow> nat \<Rightarrow> (string \<times> bool) list \<Rightarrow> string \<Rightarrow> string option \<Rightarrow> bool" where
  "stops_at e g idx ps missing nxt \<longleftrightarrow>
     (case nxt of
        None \<Rightarrow> missing = []
      | Some c \<Rightarrow> \<exists>j off. c = format_cursor g (idx + j) (snd (ps ! j)) off \<and>
          good_start e ps (j, off) \<and>
          missing = drop off (plan_bytes e (ps ! j)) @ concat (map (plan_bytes e) (drop (Suc j) ps)))"

lemma stops_at_Cons:
  "stops_at e g (Suc idx) ps missing nxt \<Longrightarrow> stops_at e g idx (p # ps) missing nxt"
  unfolding stops_at_def
proof (cases nxt; clarsimp)
  fix j off assume "good_start e ps (j, off)"
  then show "\<exists>j' off'. format_cursor g (Suc (idx + j)) (snd (ps ! j)) off =
        format_cursor g (idx + j') (snd ((p # ps) ! j')) off' \<and>
      good_start e (p # ps) (j', off') \<and>
      drop off (plan_bytes e (ps ! j)) @ concat (map (plan_bytes e) (drop (Suc j) ps)) =
        drop off' (plan_bytes e ((p # ps) ! j')) @ concat (map (plan_bytes e) (drop j' ps))"
    by (intro exI [of _ "Suc j"] exI [of _ off]) (simp add: good_start_def)
qed

text \<open>One stream that does not fit: the search answers a character boundary and the page stops
  there.\<close>

lemma page_search_boundary:
  assumes "tx \<noteq> []" and "\<not> fits (length tx)" and "valid_utf8 tx"
  obtains k where "page_search fits (char_starts tx @ [length tx]) 0
      (length (char_starts tx @ [length tx])) = Some k"
    and "k \<le> length tx" and "valid_utf8 (drop k tx)"
proof -
  let ?bs = "char_starts tx @ [length tx]"
  obtain c cs where split: "tx = c # cs" using assms(1) by (cases tx) auto
  obtain n ok where step: "utf8_step c cs = (n, ok)" by fastforce
  have lead: "\<not> is_cont c"
  proof
    assume "is_cont c"
    then have "utf8_width (byte_of c) = 0" by (simp add: is_cont_def utf8_width_def)
    then have "utf8_step c cs = (1, False)" by (simp add: utf8_step_def)
    with assms(3) split show False by (simp add: valid_utf8.simps(2))
  qed
  then have "0 \<in> set (char_starts tx)" using split by (simp add: char_starts_def del: upt_Suc)
  then have len: "1 < length ?bs" by (cases "char_starts tx") auto
  obtain i where i: "i < length ?bs" "page_search fits ?bs 0 (length ?bs) = Some (?bs ! i)"
    using page_search_in_range [of 0 "length ?bs" ?bs fits] len assms(2) by auto
  have "?bs ! i \<in> set ?bs" using i(1) by (rule nth_mem)
  then have "valid_utf8 (drop (?bs ! i) tx)" "?bs ! i \<le> length tx"
    using valid_utf8_drop [OF assms(3)] char_starts_less by (auto simp: less_imp_le)
  with i(2) that show thesis by blast
qed

text \<open>The result of a walk delivers the wanted text up to where it stops.\<close>

definition delivers ::
  "generation_output \<Rightarrow> nat \<Rightarrow> nat \<Rightarrow> (string \<times> bool) list \<Rightarrow> string
   \<Rightarrow> (retrieved_task list \<times> nat \<times> string option) option \<Rightarrow> bool" where
  "delivers e g idx ps wanted res \<longleftrightarrow>
     (\<exists>ts ret nxt missing. res = Some (ts, ret, nxt) \<and> page_text ts @ missing = wanted \<and>
        stops_at e g idx ps missing nxt)"

lemma delivers_Cons: "delivers e g (Suc idx) ps wanted res \<Longrightarrow> delivers e g idx (p # ps) wanted res"
  unfolding delivers_def by (metis stops_at_Cons)

lemma page_stop_delivers:
  assumes ready: "page_ready tasks (p # ps)" and b: "plan_buffer e p = Some b"
    and off: "off < length (cb_bytes b)" and tx: "tx = drop off (cb_bytes b)"
    and k: "k \<le> length tx" "valid_utf8 (drop k tx)"
  shows "delivers e g idx (p # ps) (page_text tasks @ tx @ concat (map (plan_bytes e) ps))
    (Some (if k > 0 then set_stream (fst p) (snd p) (take k tx) b tasks else tasks, ret,
      if k > 0 \<or> off + k < length (cb_bytes b)
      then Some (format_cursor g idx (snd p) (off + k)) else None))"
proof -
  have bytes: "plan_bytes e p = cb_bytes b" using b by (simp add: plan_bytes_def)
  have page: "page_text (if k > 0 then set_stream (fst p) (snd p) (take k tx) b tasks else tasks)
      = page_text tasks @ take k tx"
    using set_stream_text [OF ready] by simp
  have cursor: "k > 0 \<or> off + k < length (cb_bytes b)" using off by auto
  have "good_start e (p # ps) (0, off + k)"
    using k tx off bytes by (simp add: good_start_def add.commute)
  then have stop: "stops_at e g idx (p # ps) (drop k tx @ concat (map (plan_bytes e) ps))
      (Some (format_cursor g idx (snd p) (off + k)))"
    unfolding stops_at_def option.case using bytes tx
    by (intro exI [of _ "0::nat"] exI [of _ "off + k"]) (simp add: add.commute)
  have "page_text tasks @ tx @ concat (map (plan_bytes e) ps) =
      (page_text tasks @ take k tx) @ drop k tx @ concat (map (plan_bytes e) ps)" by simp
  also have "\<dots> = page_text (if k > 0 then set_stream (fst p) (snd p) (take k tx) b tasks else tasks)
      @ drop k tx @ concat (map (plan_bytes e) ps)" unfolding page ..
  finally show ?thesis
    unfolding delivers_def if_P [OF cursor] using stop by (intro exI conjI) (rule refl, rule sym, assumption+)
qed

text \<open>One step of the walk at or after its starting position.\<close>

lemma page_walk_here:
  assumes "\<not> idx < fst start" and "plan_buffer e p = Some b"
    and "off = (if idx = fst start then snd start else 0)"
    and "tx = from_utf8_lossy (drop off (cb_bytes b))"
    and "fits = (\<lambda>k. ser_len (measured_page g e resolved
           (set_stream (fst p) (snd p) (take k tx) b tasks) (returned + k)) \<le> mx)"
  shows "page_walk ser_len g e resolved mx start idx (p # ps) tasks returned =
    (if off \<ge> length (cb_bytes b)
     then page_walk ser_len g e resolved mx start (Suc idx) ps tasks returned
     else if fits (length tx) \<or> tx = []
     then page_walk ser_len g e resolved mx start (Suc idx) ps
            (set_stream (fst p) (snd p) tx b tasks) (returned + length tx)
     else case page_search fits (char_starts tx @ [length tx]) 0 (length (char_starts tx @ [length tx])) of
            None \<Rightarrow> None
          | Some k \<Rightarrow> Some (if k > 0 then set_stream (fst p) (snd p) (take k tx) b tasks else tasks,
               if k > 0 then returned + k else returned,
               if k > 0 \<or> off + k < length (cb_bytes b)
               then Some (format_cursor g idx (snd p) (off + k)) else None))"
  using assms(1,2) unfolding assms(5)
  by (simp add: page_walk.simps(2) assms(3) [symmetric] assms(4) [symmetric] Let_def)

lemma page_walk_spec:
  assumes "plan_valid e ps" and "plan_ok ps" and "page_ready tasks ps"
    and "fst start \<ge> idx \<Longrightarrow> ps \<noteq> [] \<Longrightarrow> good_start e ps (fst start - idx, snd start)"
  shows "delivers e g idx ps (page_text tasks @ plan_rest e start idx ps)
    (page_walk ser_len g e resolved mx start idx ps tasks returned)"
  using assms
proof (induction ps arbitrary: idx tasks returned)
  case Nil
  then show ?case by (simp add: delivers_def stops_at_def)
next
  case (Cons p ps)
  have later: "fst start \<ge> Suc idx \<Longrightarrow> ps \<noteq> [] \<Longrightarrow> good_start e ps (fst start - Suc idx, snd start)"
    using Cons.prems(4) by (auto simp: good_start_def Suc_diff_Suc nth_Cons')
  have pv: "plan_valid e ps" and po: "plan_ok ps" and pr: "page_ready tasks ps"
    using Cons.prems page_ready_tl by (auto simp: plan_valid_def)
  have IH: "delivers e g idx (p # ps) (page_text ts @ plan_rest e start (Suc idx) ps)
      (page_walk ser_len g e resolved mx start (Suc idx) ps ts r)" if "page_ready ts ps" for ts r
    by (rule delivers_Cons, rule Cons.IH [OF pv po that later])
  show ?case
  proof (cases "idx < fst start")
    case True
    with IH [OF pr, of returned] show ?thesis by (simp add: page_walk.simps(2))
  next
    case False
    define off where "off = (if idx = fst start then snd start else 0)"
    obtain b where b: "plan_buffer e p = Some b" using Cons.prems(1) by (auto simp: plan_valid_def)
    then have bytes: "plan_bytes e p = cb_bytes b" by (simp add: plan_bytes_def)
    define tx where "tx = drop off (cb_bytes b)"
    have valid: "valid_utf8 tx"
      using Cons.prems(1,4) False bytes by (auto simp: off_def tx_def good_start_def plan_valid_def)
    have lossy: "tx = from_utf8_lossy (drop off (cb_bytes b))"
      using valid by (simp add: tx_def from_utf8_lossy_valid)
    have rest: "plan_rest e start idx (p # ps) = tx @ concat (map (plan_bytes e) ps)"
      "plan_rest e start (Suc idx) ps = concat (map (plan_bytes e) ps)"
      using False bytes by (simp_all add: off_def tx_def plan_rest_later)
    define fits where "fits = (\<lambda>k. ser_len (measured_page g e resolved
        (set_stream (fst p) (snd p) (take k tx) b tasks) (returned + k)) \<le> mx)"
    note walk = page_walk_here [OF False b off_def lossy fits_def]
    consider "off \<ge> length (cb_bytes b)" | "off < length (cb_bytes b)" "fits (length tx) \<or> tx = []"
      | "off < length (cb_bytes b)" "\<not> fits (length tx)" "tx \<noteq> []" by linarith
    then show ?thesis
    proof cases
      case 1
      then have "tx = []" by (simp add: tx_def)
      with 1 IH [OF pr, of returned] show ?thesis
        unfolding walk rest(1) by (simp add: rest(2))
    next
      case 2
      with IH [OF set_stream_ready [OF Cons.prems(3,2), of tx b], of "returned + length tx"]
      show ?thesis unfolding walk rest(1) by (simp add: rest(2) set_stream_text [OF Cons.prems(3)])
    next
      case 3
      obtain k where k: "page_search fits (char_starts tx @ [length tx]) 0
          (length (char_starts tx @ [length tx])) = Some k" "k \<le> length tx" "valid_utf8 (drop k tx)"
        using page_search_boundary [of tx fits, OF 3(3,2) valid] by blast
      from page_stop_delivers [OF Cons.prems(3) b 3(1) tx_def k(2,3)] 3 show ?thesis
        unfolding walk rest(1) k(1) by simp
    qed
  qed
qed

section \<open>Cursors are accepted back\<close>

lemma split_format_cursor:
  "str_split ''|'' (format_cursor g k b off) =
     [show_nat g, show_nat k, show_nat (if b then 1 else 0), show_nat off]"
  unfolding format_cursor_def
  by (simp add: str_split_plain [of "''|''", simplified] str_split_plain_end show_nat_no_bar)

lemma parse_format_cursor:
  assumes "plan_buffer e (plan ! k) = Some b" and "k < length plan" and "off \<le> length (cb_bytes b)"
    and "g < 2 ^ 64" and "length plan < 2 ^ 64" and "off < 2 ^ 64"
  shows "parse_cursor g e plan (format_cursor g k (snd (plan ! k)) off) = Some (Inr (k, off))"
proof -
  have "k < 2 ^ 64" using assms(2,5) by simp
  then show ?thesis
    using assms
    by (simp add: parse_cursor_def split_format_cursor parse_show_nat retained_bytes_def)
qed

section \<open>Chains of pages\<close>

text \<open>A client follows the continuation of each page until there is none.\<close>

inductive page_chain ::
  "(retrieved_output \<Rightarrow> nat) \<Rightarrow> output_registry \<Rightarrow> nat \<Rightarrow> string option \<Rightarrow> string option \<Rightarrow> nat
   \<Rightarrow> string option \<Rightarrow> retrieved_output list \<Rightarrow> bool"
  for ser_len r g task stream mx where
  last_page: "retrieve_page ser_len r g task stream mx cursor = Some (Inr out) \<Longrightarrow>
     ro_next_cursor out = None \<Longrightarrow> page_chain ser_len r g task stream mx cursor [out]"
| next_page: "retrieve_page ser_len r g task stream mx cursor = Some (Inr out) \<Longrightarrow>
     ro_next_cursor out = Some c \<Longrightarrow> page_chain ser_len r g task stream mx (Some c) outs \<Longrightarrow>
     page_chain ser_len r g task stream mx cursor (out # outs)"

definition chain_text :: "retrieved_output list \<Rightarrow> string" where
  "chain_text outs = concat (map (\<lambda>out. page_text (ro_tasks out)) outs)"

text \<open>The captures of a generation: every stream is valid UTF-8.\<close>

definition captures_valid :: "generation_output \<Rightarrow> bool" where
  "captures_valid e \<longleftrightarrow>
     (\<forall>t\<in>set (go_tasks e). valid_utf8 (cb_bytes (to_stdout t)) \<and> valid_utf8 (cb_bytes (to_stderr t)))"

lemma page_tasks_subset:
  "page_tasks task ids = Inr (resolved, sel) \<Longrightarrow> set sel \<subseteq> set ids"
  "page_tasks task ids = Inr (resolved, sel) \<Longrightarrow> distinct ids \<Longrightarrow> distinct sel"
  by (auto simp: page_tasks_def split: option.splits if_splits list.splits)

lemma page_plan_ids: "fst ` set (page_plan stream ids) \<subseteq> set ids"
  by (auto simp: page_plan_Cons split: option.splits)

lemma plan_valid_captures:
  assumes "captures_valid e" and "fst ` set plan \<subseteq> to_task ` set (go_tasks e)"
  shows "plan_valid e plan"
  unfolding plan_valid_def
proof
  fix p assume "p \<in> set plan"
  with assms(2) have "fst p \<in> to_task ` set (go_tasks e)" by blast
  then obtain t where t: "find_task (fst p) e = Some t"
    using find_task_None [of "fst p" e] by (cases "find_task (fst p) e") auto
  with assms(1) show "plan_buffer e p \<noteq> None \<and> valid_utf8 (plan_bytes e p)"
    by (auto simp: plan_buffer_def plan_bytes_def captures_valid_def dest: find_task_SomeD)
qed

lemma length_page_plan: "length (page_plan stream ids) \<le> 2 * length ids"
proof -
  have "length (page_plan stream ids) =
      length ids * length (case stream of None \<Rightarrow> [False, True] | Some w \<Rightarrow> [w = ''stderr''])"
    by (simp add: page_plan_Cons length_concat comp_def sum_list_triv)
  then show ?thesis by (simp split: option.splits)
qed

lemma plan_rest_at:
  "j < length ps \<Longrightarrow> plan_rest e (idx + j, off) idx ps =
     drop off (plan_bytes e (ps ! j)) @ concat (map (plan_bytes e) (drop (Suc j) ps))"
proof (induction ps arbitrary: idx j)
  case (Cons p ps)
  show ?case
  proof (cases j)
    case 0
    then show ?thesis by (simp add: plan_rest_later)
  next
    case (Suc i)
    with Cons.IH [of i "Suc idx"] Cons.prems show ?thesis by simp
  qed
qed simp

text \<open>What a cursor stands for in a plan.\<close>

definition cursor_at ::
  "generation_output \<Rightarrow> nat \<Rightarrow> (string \<times> bool) list \<Rightarrow> string option \<Rightarrow> nat \<times> nat \<Rightarrow> bool" where
  "cursor_at e g plan cursor start \<longleftrightarrow>
     cursor = None \<and> start = (0, 0) \<or>
     good_start e plan start \<and>
     cursor = Some (format_cursor g (fst start) (snd (plan ! fst start)) (snd start))"

lemma plan_bytes_bound:
  assumes "registry_inv r" and "find_generation g r = Some e"
  shows "length (plan_bytes e p) \<le> OUTPUT_RETENTION_BYTES"
proof (cases "find_task (fst p) e")
  case (Some t)
  then have t: "t \<in> set (go_tasks e)" by (simp add: find_task_SomeD)
  have e: "e \<in> set (or_generations r)" using assms(2) by (auto simp: find_generation_def find_Some_iff)
  then have "go_bytes e = sum_list (map task_retained_bytes (go_tasks e))"
    using assms(1) by (auto simp: registry_inv_def registry_ok_def entry_ok_def)
  then have "task_retained_bytes t \<le> go_bytes e" using t by (simp add: member_le_sum_list)
  also have "\<dots> \<le> or_total_bytes r"
    using e assms(1) by (simp add: registry_inv_def registry_ok_def member_le_sum_list)
  also have "\<dots> \<le> OUTPUT_RETENTION_BYTES" using assms(1) by (simp add: registry_inv_def registry_bounded_def)
  finally show ?thesis
    using Some by (simp add: plan_bytes_def plan_buffer_def task_retained_bytes_def retained_bytes_def)
qed (simp add: plan_bytes_def plan_buffer_def)

text \<open>The facts about a request that every page of its chain shares.\<close>

definition page_request ::
  "output_registry \<Rightarrow> nat \<Rightarrow> string option \<Rightarrow> string option \<Rightarrow> generation_output
   \<Rightarrow> (string \<times> bool) list \<Rightarrow> bool" where
  "page_request r g task stream e plan \<longleftrightarrow>
     registry_inv r \<and> find_generation g r = Some e \<and> captures_valid e \<and> g < 2 ^ 64 \<and>
     length (go_tasks e) < 2 ^ 63 \<and>
     (\<exists>resolved ids. page_tasks task (map to_task (go_tasks e)) = Inr (resolved, ids) \<and>
        plan = page_plan stream ids)"

lemma page_request_plan:
  assumes "page_request r g task stream e plan"
  shows "plan_ok plan" "plan_valid e plan" "length plan < 2 ^ 64"
proof -
  from assms obtain resolved ids where ids: "page_tasks task (map to_task (go_tasks e)) = Inr (resolved, ids)"
    and plan: "plan = page_plan stream ids" and few: "length (go_tasks e) < 2 ^ 63"
    and valid: "captures_valid e" by (auto simp: page_request_def)
  have "e \<in> set (or_generations r)"
    using assms by (auto simp: page_request_def find_generation_def find_Some_iff)
  then have "distinct (map to_task (go_tasks e))"
    using assms by (auto simp: page_request_def registry_inv_def registry_ok_def entry_ok_def)
  note sel = page_tasks_subset(1) [OF ids] page_tasks_subset(2) [OF ids this]
  show "plan_ok plan" unfolding plan by (rule plan_ok_page_plan) (rule sel(2))
  show "plan_valid e plan"
    using page_plan_ids [of stream ids] sel(1) by (intro plan_valid_captures [OF valid]) (auto simp: plan)
  have "length ids \<le> length (go_tasks e)"
    using sel by (metis distinct_card card_mono finite_set length_map card_length order_trans)
  with few length_page_plan [of stream ids] show "length plan < 2 ^ 64" by (simp add: plan)
qed

lemma cursor_at_start:
  assumes "page_request r g task stream e plan" and "cursor_at e g plan cursor start"
  shows "(case cursor of None \<Rightarrow> Some (Inr (0, 0)) | Some raw \<Rightarrow> parse_cursor g e plan raw)
           = Some (Inr start)"
    and "plan \<noteq> [] \<Longrightarrow> good_start e plan start"
proof -
  note plan = page_request_plan [OF assms(1)]
  show "plan \<noteq> [] \<Longrightarrow> good_start e plan start"
    using assms(2) plan(2) by (auto simp: cursor_at_def good_start_def plan_valid_def)
  show "(case cursor of None \<Rightarrow> Some (Inr (0, 0)) | Some raw \<Rightarrow> parse_cursor g e plan raw)
      = Some (Inr start)"
  proof (cases cursor)
    case (Some raw)
    with assms(2) have good: "good_start e plan start"
      and raw: "raw = format_cursor g (fst start) (snd (plan ! fst start)) (snd start)"
      by (auto simp: cursor_at_def)
    then have "plan ! fst start \<in> set plan" by (simp add: good_start_def)
    with plan(2) obtain b where b: "plan_buffer e (plan ! fst start) = Some b"
      by (auto simp: plan_valid_def)
    have off: "snd start \<le> length (cb_bytes b)" using good b by (simp add: good_start_def plan_bytes_def)
    also have "\<dots> \<le> OUTPUT_RETENTION_BYTES"
      using assms(1) plan_bytes_bound [of r g e "plan ! fst start"] b
      by (simp add: page_request_def plan_bytes_def)
    finally have "snd start < 2 ^ 64" by (simp add: OUTPUT_RETENTION_BYTES_def)
    with parse_format_cursor [OF b _ off _ plan(3)] good assms(1) raw Some show ?thesis
      by (simp add: good_start_def page_request_def)
  qed (use assms(2) in \<open>simp add: cursor_at_def\<close>)
qed

lemma retrieve_page_delivers:
  assumes req: "page_request r g task stream e plan" and cur: "cursor_at e g plan cursor start"
  shows "\<exists>out missing. retrieve_page ser_len r g task stream mx cursor = Some (Inr out) \<and>
    page_text (ro_tasks out) @ missing = plan_rest e start 0 plan \<and>
    stops_at e g 0 plan missing (ro_next_cursor out)"
proof -
  from req obtain resolved ids where e: "find_generation g r = Some e"
    and ids: "page_tasks task (map to_task (go_tasks e)) = Inr (resolved, ids)"
    and plan: "page_plan stream ids = plan" by (auto simp: page_request_def)
  have "delivers e g 0 plan (page_text [] @ plan_rest e start 0 plan)
      (page_walk ser_len g e resolved mx start 0 plan [] 0)"
    using page_request_plan [OF req] cursor_at_start(2) [OF req cur]
    by (intro page_walk_spec) (auto simp: page_ready_def)
  then obtain ts ret nxt missing where walk: "page_walk ser_len g e resolved mx start 0 plan [] 0 = Some (ts, ret, nxt)"
    and "page_text ts @ missing = plan_rest e start 0 plan" "stops_at e g 0 plan missing nxt"
    by (auto simp: delivers_def page_text_def)
  then show ?thesis
    by (auto simp: retrieve_page_def e ids plan cursor_at_start(1) [OF req cur])
qed

lemma stops_at_cursor:
  assumes "stops_at e g 0 plan missing (Some c)"
  obtains start where "cursor_at e g plan (Some c) start" "missing = plan_rest e start 0 plan"
proof -
  from assms obtain j off where c: "c = format_cursor g j (snd (plan ! j)) off"
    and good: "good_start e plan (j, off)"
    and m: "missing = drop off (plan_bytes e (plan ! j)) @ concat (map (plan_bytes e) (drop (Suc j) plan))"
    by (auto simp: stops_at_def)
  have "plan_rest e (j, off) 0 plan = missing"
    using plan_rest_at [of j plan e 0 off] good m by (simp add: good_start_def)
  then show thesis using that [of "(j, off)"] c good by (simp add: cursor_at_def)
qed

lemma page_chain_text:
  assumes req: "page_request r g task stream e plan"
    and "page_chain ser_len r g task stream mx cursor outs" and "cursor_at e g plan cursor start"
  shows "chain_text outs = plan_rest e start 0 plan"
  using assms(2,3)
proof (induction cursor outs arbitrary: start rule: page_chain.induct)
  case (last_page cursor out)
  from retrieve_page_delivers [OF req last_page.prems, of ser_len mx] last_page.hyps
  show ?case by (auto simp: chain_text_def stops_at_def)
next
  case (next_page cursor out c outs)
  from retrieve_page_delivers [OF req next_page.prems, of ser_len mx] next_page.hyps
  obtain missing where m: "page_text (ro_tasks out) @ missing = plan_rest e start 0 plan"
    and stop: "stops_at e g 0 plan missing (Some c)" by auto
  from stops_at_cursor [OF stop] obtain start' where "cursor_at e g plan (Some c) start'"
    "missing = plan_rest e start' 0 plan" by blast
  with next_page.IH m show ?case by (simp add: chain_text_def)
qed

text \<open>
  C13. Paging loses and repeats nothing: when the captures of a generation are valid UTF-8, the
  pages a client obtains by following the continuations from the first page on concatenate to
  exactly the retained output of the selected streams, ordered by task name with standard
  output before standard error, whatever page budget is used.
\<close>

theorem pages_reassemble_output:
  assumes "page_request r g task stream e plan"
    and "page_chain ser_len r g task stream mx None outs"
  shows "chain_text outs = concat (map (plan_bytes e) plan)"
proof -
  have "chain_text outs = plan_rest e (0, 0) 0 plan"
    by (rule page_chain_text [OF assms]) (simp add: cursor_at_def)
  then show ?thesis using plan_rest_at [of 0 plan e 0 0] by (cases plan) auto
qed

text \<open>A serializer that counts content bytes only, and two pages of two bytes each.\<close>

definition content_len :: "retrieved_output \<Rightarrow> nat" where
  "content_len out = length (page_text (ro_tasks out))"

definition demo_entry :: generation_output where
  "demo_entry =
     \<lparr>go_generation = 1, go_revision = None, go_revision_hash = None,
       go_tasks = [recorded_task ''build'' demo_capture, recorded_task ''test unit'' demo_capture],
       go_bytes = 4\<rparr>"

lemma demo_page_request:
  "page_request demo_registry 1 None None demo_entry (page_plan None [''build'', ''test unit''])"
proof -
  have "captures_valid demo_entry"
    by (simp add: captures_valid_def demo_entry_def recorded_task_def demo_capture_bytes
        valid_utf8_ascii byte_of_def)
  then show ?thesis
    unfolding page_request_def
    by (simp add: demo_registry_inv demo_registry_tasks [folded demo_entry_def, simplified])
      (simp add: demo_entry_def page_tasks_def wanted_task_def)
qed

lemma demo_plan:
  "page_plan None [''build'', ''test unit''] =
     [(''build'', False), (''build'', True), (''test unit'', False), (''test unit'', True)]"
  by code_simp

lemma demo_walks:
  "map_option snd (page_walk content_len 1 demo_entry None 2 (0, 0) 0
     [(''build'', False), (''build'', True), (''test unit'', False), (''test unit'', True)] [] 0)
     = Some (2, Some ''1|2|0|0'')"
  "map_option snd (page_walk content_len 1 demo_entry None 2 (2, 0) 0
     [(''build'', False), (''build'', True), (''test unit'', False), (''test unit'', True)] [] 0)
     = Some (2, None)"
  by code_simp+

lemma demo_cursor:
  "parse_cursor 1 demo_entry (page_plan None [''build'', ''test unit'']) ''1|2|0|0'' = Some (Inr (2, 0))"
proof -
  have cur: "''1|2|0|0'' = format_cursor 1 2 False 0" by code_simp
  obtain b where b: "plan_buffer demo_entry (''test unit'', False) = Some b"
    by (simp add: plan_buffer_def find_task_def demo_entry_def)
  show ?thesis
    using parse_format_cursor [of demo_entry "page_plan None [''build'', ''test unit'']" 2 b 0 1] b
    unfolding cur demo_plan by simp
qed

lemma demo_pages: "\<exists>a b. page_chain content_len demo_registry 1 None None 2 None [a, b]"
proof -
  note page = retrieve_page_def demo_registry_tasks [folded demo_entry_def]
  have tasks: "page_tasks None (map to_task (go_tasks demo_entry)) = Inr (None, [''build'', ''test unit''])"
    by (simp add: demo_entry_def page_tasks_def wanted_task_def)
  have "\<exists>a. retrieve_page content_len demo_registry 1 None None 2 None = Some (Inr a) \<and>
     ro_next_cursor a = Some ''1|2|0|0''"
    using demo_walks(1) unfolding page tasks by (auto simp: demo_plan tasks)
  moreover have "\<exists>b. retrieve_page content_len demo_registry 1 None None 2 (Some ''1|2|0|0'') = Some (Inr b) \<and>
     ro_next_cursor b = None"
    using demo_walks(2) demo_cursor unfolding page by (auto simp: demo_plan tasks)
  ultimately show ?thesis by (metis page_chain.intros)
qed

lemma pages_reassemble_output_witness:
  "\<exists>a b. page_chain content_len demo_registry 1 None None 2 None [a, b] \<and>
     chain_text [a, b] = ''okok''"
proof -
  obtain a b where chain: "page_chain content_len demo_registry 1 None None 2 None [a, b]"
    using demo_pages by blast
  have "concat (map (plan_bytes demo_entry)
      [(''build'', False), (''build'', True), (''test unit'', False), (''test unit'', True)]) = ''okok''"
    by code_simp
  with pages_reassemble_output [OF demo_page_request chain] chain show ?thesis
    unfolding demo_plan by metis
qed

section \<open>Paging never panics\<close>

lemma lossy_head_not_cont:
  assumes "s \<noteq> []"
  shows "from_utf8_lossy s \<noteq> [] \<and> \<not> is_cont (hd (from_utf8_lossy s))"
proof -
  obtain c cs where s: "s = c # cs" using assms by (cases s) auto
  obtain n ok where step: "utf8_step c cs = (n, ok)" by fastforce
  have "0 < n" using step by (rule utf8_step_pos)
  then have pre: "take n (c # cs) = c # take (n - 1) cs" by (cases n) auto
  have eq: "from_utf8_lossy s =
      (if ok then c # take (n - 1) cs else replacement_char) @ from_utf8_lossy (drop n (c # cs))"
    unfolding s from_utf8_lossy.simps(2) step pre [symmetric] by simp
  have lead: "\<not> is_cont c" if ok
    using step that by (auto simp: utf8_step_def utf8_width_def is_cont_def Let_def split: if_splits)
  have "replacement_char \<noteq> [] \<and> \<not> is_cont (hd replacement_char)"
    by (simp add: replacement_char_def is_cont_def byte_of_def)
  with lead show ?thesis unfolding eq by (cases ok) simp_all
qed

lemma page_search_total:
  assumes "s \<noteq> []" and "tx = from_utf8_lossy s" and "\<not> fits (length tx)"
  shows "page_search fits (char_starts tx @ [length tx]) 0 (length (char_starts tx @ [length tx])) \<noteq> None"
proof -
  let ?bs = "char_starts tx @ [length tx]"
  have "tx \<noteq> []" "\<not> is_cont (tx ! 0)"
    using lossy_head_not_cont [OF assms(1)] assms(2) by (auto simp: hd_conv_nth)
  then have "0 \<in> set (char_starts tx)" by (simp add: char_starts_def)
  then have "1 < length ?bs" by (cases "char_starts tx") auto
  then show ?thesis using page_search_in_range [of 0 "length ?bs" ?bs fits] assms(3) by auto
qed

lemma page_walk_total:
  assumes "\<forall>p\<in>set ps. plan_buffer e p \<noteq> None"
  shows "page_walk ser_len g e resolved mx start idx ps tasks returned \<noteq> None"
  using assms
proof (induction ps arbitrary: idx tasks returned)
  case (Cons p ps)
  then obtain b where b: "plan_buffer e p = Some b" by auto
  have IH: "page_walk ser_len g e resolved mx start i ps ts r \<noteq> None" for i ts r
    using Cons by simp
  show ?case
  proof (cases "idx < fst start")
    case False
    define off where "off = (if idx = fst start then snd start else 0)"
    define tx where "tx = from_utf8_lossy (drop off (cb_bytes b))"
    define fits where "fits = (\<lambda>k. ser_len (measured_page g e resolved
        (set_stream (fst p) (snd p) (take k tx) b tasks) (returned + k)) \<le> mx)"
    have "\<not> off \<ge> length (cb_bytes b) \<longrightarrow> \<not> fits (length tx) \<longrightarrow>
        page_search fits (char_starts tx @ [length tx]) 0 (length (char_starts tx @ [length tx])) \<noteq> None"
      by (intro impI page_search_total [OF _ tx_def]) auto
    then show ?thesis
      unfolding page_walk_here [OF False b off_def tx_def fits_def] using IH by (auto split: option.split)
  qed (use IH in \<open>simp add: page_walk.simps(2)\<close>)
qed simp

text \<open>
  Paged retrieval never panics: for every registry, selection, budget and cursor text the
  request is answered, so the binary search never reads past the character boundaries although
  it starts with the upper bound one past the last of them, and every \<open>expect\<close> holds.
\<close>

theorem retrieve_page_never_panics:
  "retrieve_page ser_len r g task stream mx cursor \<noteq> None"
proof (cases "find_generation g r")
  case (Some e)
  have buffers: "plan_buffer e p \<noteq> None"
    if "page_tasks task (map to_task (go_tasks e)) = Inr (resolved, ids)" "p \<in> set (page_plan stream ids)"
    for resolved ids p
  proof -
    have "fst p \<in> to_task ` set (go_tasks e)"
      using page_plan_ids [of stream ids] page_tasks_subset(1) [OF that(1)] that(2) by force
    then show ?thesis using find_task_None [of "fst p" e] by (auto simp: plan_buffer_def)
  qed
  have nth: "plan_buffer e (page_plan stream ids ! k) \<noteq> None"
    if "page_tasks task (map to_task (go_tasks e)) = Inr (resolved, ids)" "k < length (page_plan stream ids)"
    for resolved ids k
    using buffers [OF that(1) nth_mem [OF that(2)]] .
  show ?thesis
  proof (cases "page_tasks task (map to_task (go_tasks e))")
    case (Inr sel)
    obtain resolved ids where sel: "sel = (resolved, ids)" by fastforce
    let ?plan = "page_plan stream ids"
    have walk: "page_walk ser_len g e resolved mx start 0 ?plan [] 0 \<noteq> None" for start
      using buffers Inr sel by (intro page_walk_total) blast
    have parse: "parse_cursor g e ?plan raw \<noteq> None" for raw
    proof -
      have "\<forall>k < length ?plan. plan_buffer e (?plan ! k) \<noteq> None" using nth Inr sel by blast
      then show ?thesis
        by (simp add: parse_cursor_def not_le split: list.split option.split) fastforce
    qed
    obtain st where st: "(case cursor of None \<Rightarrow> Some (Inr (0, 0)) | Some raw \<Rightarrow> parse_cursor g e ?plan raw) = Some st"
      using parse by (cases cursor) auto
    note page = retrieve_page_def Some Inr sel st
    show ?thesis
    proof (cases st)
      case start: (Inr start)
      obtain ts ret nxt where "page_walk ser_len g e resolved mx start 0 ?plan [] 0 = Some (ts, ret, nxt)"
        using walk [of start] by auto
      then show ?thesis by (simp add: page start Let_def)
    qed (simp add: page Let_def)
  qed (simp add: retrieve_page_def Some)
qed (simp add: retrieve_page_def)

text \<open>
  The page search is optimal: when every shorter prefix of a fitting prefix fits, the prefix
  it keeps of a non-empty stream is the longest one that ends at a character boundary and fits
  the budget.
\<close>

theorem page_search_longest_prefix:
  assumes "page_search fits (char_starts tx @ [length tx]) 0 (length (char_starts tx @ [length tx])) = Some k"
    and "\<And>i j. i \<le> j \<Longrightarrow> fits j \<Longrightarrow> fits i"
    and "b \<in> set (char_starts tx @ [length tx])" and "k < b"
  shows "\<not> fits b"
proof -
  let ?bs = "char_starts tx @ [length tx]"
  have sorted: "sorted ?bs"
    using sorted_char_starts(1) char_starts_less by (auto simp: sorted_append less_imp_le)
  have down: "fits (?bs ! i)" if "i \<le> j" "j < length ?bs" "fits (?bs ! j)" for i j
    using sorted that by (intro assms(2) [OF _ that(3)]) (rule sorted_nth_mono)
  have "\<exists>i < length ?bs. k = ?bs ! i \<and> (\<forall>j. i < j \<and> j < length ?bs \<longrightarrow> \<not> fits (?bs ! j))"
    by (rule page_search_maximal [OF assms(1)]) (auto intro: down)
  then obtain i where i: "i < length ?bs" "k = ?bs ! i" "\<forall>j. i < j \<and> j < length ?bs \<longrightarrow> \<not> fits (?bs ! j)"
    by blast
  obtain j where j: "j < length ?bs" "b = ?bs ! j" using assms(3) by (metis in_set_conv_nth)
  have "i < j"
  proof (rule ccontr)
    assume "\<not> i < j"
    then have "?bs ! j \<le> ?bs ! i" using sorted i(1) by (simp add: sorted_nth_mono)
    with assms(4) i(2) j(2) show False by simp
  qed
  with i(3) j show ?thesis by simp
qed

lemma page_search_longest_prefix_witness:
  "page_search (\<lambda>k. k \<le> 3) (char_starts ''hello'' @ [length ''hello'']) 0
     (length (char_starts ''hello'' @ [length ''hello''])) = Some 3 \<and> \<not> (4::nat) \<le> 3"
proof -
  have found: "page_search (\<lambda>k. k \<le> 3) (char_starts ''hello'' @ [length ''hello'']) 0
      (length (char_starts ''hello'' @ [length ''hello''])) = Some 3" by code_simp
  have "(4::nat) \<in> set (char_starts ''hello'' @ [length ''hello''])" by code_simp
  from page_search_longest_prefix [OF found _ this] have "\<not> (4::nat) \<le> 3" by simp
  with found show ?thesis by blast
qed

section \<open>Captures that are not UTF-8\<close>

definition binary_capture :: capture_data where
  "binary_capture =
     handle_append (char_of (255::nat) # ''ab'') False
       \<lparr>cd_stdout = capture_new 8, cd_stderr = capture_new 8\<rparr>"

definition binary_entry :: generation_output where
  "binary_entry =
     \<lparr>go_generation = 1, go_revision = None, go_revision_hash = None,
      go_tasks = [recorded_task ''bin'' binary_capture], go_bytes = 3\<rparr>"

definition binary_registry :: output_registry where
  "binary_registry = record_output 1 ''bin'' binary_capture None None registry_new"

lemma binary_registry_entry: "find_generation 1 binary_registry = Some binary_entry"
  by (simp add: binary_registry_def record_output_def registry_new_def find_generation_def
      recorded_task_def binary_capture_def binary_entry_def handle_append_def capture_new_def
      buffer_append_def retained_bytes_def OUTPUT_RETENTION_BYTES_def OUTPUT_MAX_GENERATIONS_def)

lemma binary_walks:
  "map_option (\<lambda>(ts, x). (page_text ts, x)) (page_walk content_len 1 binary_entry None 3 (0, 0) 0
     [(''bin'', False), (''bin'', True)] [] 0)
     = Some (replacement_char, 3, Some ''1|0|0|3'')"
  "map_option (\<lambda>(ts, x). (page_text ts, x)) (page_walk content_len 1 binary_entry None 3 (0, 3) 0
     [(''bin'', False), (''bin'', True)] [] 0)
     = Some ([], 0, None)"
  by code_simp+

lemma binary_cursor:
  "parse_cursor 1 binary_entry [(''bin'', False), (''bin'', True)] ''1|0|0|3'' = Some (Inr (0, 3))"
proof -
  have cur: "''1|0|0|3'' = format_cursor 1 0 False 3" by code_simp
  obtain b where b: "plan_buffer binary_entry (''bin'', False) = Some b" "3 \<le> length (cb_bytes b)"
    by (simp add: plan_buffer_def find_task_def binary_entry_def recorded_task_def binary_capture_def
        handle_append_def capture_new_def buffer_append_def)
  show ?thesis
    using parse_format_cursor [of binary_entry "[(''bin'', False), (''bin'', True)]" 0 b 3 1] b
    unfolding cur by simp
qed

text \<open>
  Page offsets count bytes of the rendered text but are applied to the captured bytes. For a
  capture that is not valid UTF-8 (here one byte 255 before \<open>ab\<close>) and a budget that admits the
  replacement character only, the continuation skips the rest of the capture: the chain of
  pages ends without ever delivering \<open>ab\<close>, which unpaged retrieval shows.
\<close>

theorem paging_skips_after_invalid_utf8:
  "\<exists>a b. page_chain content_len binary_registry 1 None None 3 None [a, b] \<and>
     chain_text [a, b] = replacement_char \<and>
     from_utf8_lossy (plan_bytes binary_entry (''bin'', False)) = replacement_char @ ''ab''"
proof -
  have plan: "page_plan None [''bin''] = [(''bin'', False), (''bin'', True)]" by code_simp
  have tasks: "page_tasks None (map to_task (go_tasks binary_entry)) = Inr (None, [''bin''])"
    by (simp add: binary_entry_def page_tasks_def wanted_task_def)
  note page = retrieve_page_def binary_registry_entry
  obtain a where a: "retrieve_page content_len binary_registry 1 None None 3 None = Some (Inr a)"
    "ro_next_cursor a = Some ''1|0|0|3''" "page_text (ro_tasks a) = replacement_char"
    using binary_walks(1) unfolding page by (auto simp: plan tasks)
  obtain b where b: "retrieve_page content_len binary_registry 1 None None 3 (Some ''1|0|0|3'') = Some (Inr b)"
    "ro_next_cursor b = None" "page_text (ro_tasks b) = []"
    using binary_walks(2) binary_cursor unfolding page by (auto simp: plan tasks)
  have "page_chain content_len binary_registry 1 None None 3 None [a, b]"
    using a b by (metis page_chain.intros)
  moreover have "chain_text [a, b] = replacement_char" using a b by (simp add: chain_text_def)
  moreover have "from_utf8_lossy (plan_bytes binary_entry (''bin'', False)) = replacement_char @ ''ab''"
    by code_simp
  ultimately show ?thesis by blast
qed

end
