(* ===== verification/Executor_Tasks.thy ===== *)
theory Executor_Tasks
  imports Execution_Events Output_Registry
begin

text \<open>
  One task of the executor, \<open>src/src/executor.rs\<close> (\<open>ActiveTask\<close>, \<open>advance_task\<close>,
  \<open>shutdown_task\<close>, \<open>reveal_on_failure\<close>), over the traits the executor is built on.

  The process runner, the child processes, the clock, the cancellation token, the approval thread
  and the file system are the functions of a \<open>runtime\<close>; they read and change an environment of
  arbitrary type \<open>'w\<close>, so every answer and every interleaving with the outside is covered. What
  the executor itself accumulates (emitted events, the output registry, revealed lines) is the
  record \<open>world\<close> around that environment. Diagnostics printed in verbose mode and warnings are
  left out.

  Shown: polling a task terminates, for every runtime; it never changes the identity of the task;
  a service is restarted at most the bounded number of times; and the recorded results of a task
  are exactly its command results.
\<close>

section \<open>The runtime\<close>

text \<open>What the source reads of \<open>std::process::ExitStatus\<close>: \<open>success()\<close> and its display form.\<close>

record exit_status =
  es_success :: bool
  es_display :: string

text \<open>\<open>recv_timeout\<close> on the channel of the approval thread.\<close>

datatype approval_poll = RecvDecision approval_decision | RecvTimeout | RecvDisconnected

record 'w runtime =
  rt_spawn :: "string \<Rightarrow> command_line \<Rightarrow> task_context \<Rightarrow> nat option \<Rightarrow> string option \<Rightarrow> bool \<Rightarrow> 'w \<Rightarrow>
    nat result \<times> 'w"
  rt_try_wait :: "nat \<Rightarrow> 'w \<Rightarrow> exit_status option result \<times> 'w"
  rt_shutdown :: "nat \<Rightarrow> 'w \<Rightarrow> bool \<times> 'w"
  rt_now :: "'w \<Rightarrow> nat \<times> 'w"
  rt_elapsed :: "nat \<Rightarrow> 'w \<Rightarrow> duration \<times> 'w"
  rt_sleep :: "duration \<Rightarrow> 'w \<Rightarrow> 'w"
  rt_is_dir :: "string \<Rightarrow> 'w \<Rightarrow> bool \<times> 'w"
  rt_new_capture :: "'w \<Rightarrow> nat \<times> 'w"
  rt_finish_capture :: "nat \<Rightarrow> 'w \<Rightarrow> capture_data \<times> 'w"
  rt_cancelled :: "'w \<Rightarrow> bool \<times> 'w"
  rt_approve :: "recovery_request list \<Rightarrow> 'w \<Rightarrow> 'w"
  rt_recv :: "'w \<Rightarrow> approval_poll \<times> 'w"

record 'w world =
  wd_env :: 'w
  wd_events :: "event list"
  wd_outputs :: "output_registry option"
  wd_revealed :: "string list"

definition call :: "('w \<Rightarrow> 'a \<times> 'w) \<Rightarrow> 'w world \<Rightarrow> 'a \<times> 'w world" where
  "call f w = (let (a, e) = f (wd_env w) in (a, w\<lparr>wd_env := e\<rparr>))"

definition emit :: "event \<Rightarrow> 'w world \<Rightarrow> 'w world" where
  "emit e w = w\<lparr>wd_events := wd_events w @ [e]\<rparr>"

definition SERVICE_MAX_RESTARTS :: nat where "SERVICE_MAX_RESTARTS = 3"
definition SERVICE_RESTART_BACKOFF_MS :: nat where "SERVICE_RESTART_BACKOFF_MS = 500"
definition POLL_INTERVAL :: duration where "POLL_INTERVAL = 10 * 1000000"

definition from_millis :: "nat \<Rightarrow> duration" where
  "from_millis ms = ms * 1000000"

record 'w executor =
  ex_runtime :: "'w runtime"
  ex_concurrency_limit :: nat
  ex_fail_fast :: bool

definition executor_new :: "'w runtime \<Rightarrow> nat \<Rightarrow> bool \<Rightarrow> 'w executor result" where
  "executor_new runtime concurrency_limit fail_fast =
     (if concurrency_limit = 0 then Inl ''executor concurrency limit must be positive''
      else Inr \<lparr>ex_runtime = runtime, ex_concurrency_limit = concurrency_limit,
                ex_fail_fast = fail_fast\<rparr>)"

text \<open>\<open>assert!(limit > 0)\<close>: \<^const>\<open>None\<close> is the panic.\<close>

definition set_concurrency_limit :: "nat \<Rightarrow> 'w executor \<Rightarrow> 'w executor option" where
  "set_concurrency_limit limit x = (if 0 < limit then Some (x\<lparr>ex_concurrency_limit := limit\<rparr>) else None)"

section \<open>Active tasks\<close>

record active_task =
  at_name :: string
  at_position :: nat
  at_commands :: "command_line list"
  at_original_commands :: "command_line list"
  at_recovery_commands :: "command_line list option"
  at_child :: "nat option"
  at_current_command :: "string option"
  at_failures :: "string list"
  at_context :: task_context
  at_context_validated :: bool
  at_group_occurrence :: "string option"
  at_started :: "nat option"
  at_capture :: "nat option"
  at_command_index :: nat
  at_command_total :: nat
  at_output :: output_policy
  at_service :: bool
  at_restarts_left :: nat
  at_defer_failure :: bool

definition active_of :: "task_plan \<Rightarrow> active_task" where
  "active_of task =
     \<lparr>at_name = tp_name task, at_position = tp_position task, at_commands = tp_commands task,
      at_original_commands = tp_commands task, at_recovery_commands = tp_recovery_commands task,
      at_child = None, at_current_command = None, at_failures = [], at_context = tp_context task,
      at_context_validated = False, at_group_occurrence = tp_group_occurrence task,
      at_started = None, at_capture = None, at_command_index = 0,
      at_command_total = length (tp_commands task), at_output = tp_output task,
      at_service = tp_service task, at_restarts_left = SERVICE_MAX_RESTARTS,
      at_defer_failure = (tp_recovery_commands task \<noteq> None)\<rparr>"

datatype task_step = TaskRunning | TaskFinished | FailedFast

type_synonym results = "unit result list"

section \<open>Polling one task\<close>

text \<open>A failure is kept with the task, and with the results unless recovery may still change it.\<close>

definition note_failure :: "string \<Rightarrow> active_task \<times> results \<Rightarrow> active_task \<times> results" where
  "note_failure failure = (\<lambda>(task, results).
     (task\<lparr>at_failures := at_failures task @ [failure]\<rparr>,
      if at_defer_failure task then results else results @ [Inl failure]))"

definition tick :: "active_task \<Rightarrow> 'w world \<Rightarrow> 'w world" where
  "tick task = emit (EvTick (at_name task) (at_group_occurrence task))"

text \<open>A capture handle is made once per task, when someone will read it.\<close>

definition ensure_capture :: "'w executor \<Rightarrow> active_task \<Rightarrow> 'w world \<Rightarrow> active_task \<times> 'w world" where
  "ensure_capture x task w =
     (if at_capture task = None \<and> (wd_outputs w \<noteq> None \<or> at_output task \<noteq> Inherit)
      then (let (c, w) = call (rt_new_capture (ex_runtime x)) w in (task\<lparr>at_capture := Some c\<rparr>, w))
      else (task, w))"

definition spawn_command ::
  "'w executor \<Rightarrow> command_line \<Rightarrow> active_task \<Rightarrow> 'w world \<Rightarrow> nat result \<times> 'w world" where
  "spawn_command x command task w =
     call (rt_spawn (ex_runtime x) (at_name task) command (at_context task) (at_capture task)
             (if at_group_occurrence task \<noteq> None then Some (at_name task) else None)
             (at_output task \<noteq> Inherit)) w"

definition mark_started :: "'w executor \<Rightarrow> active_task \<Rightarrow> 'w world \<Rightarrow> active_task \<times> 'w world" where
  "mark_started x task w =
     (if at_started task = None
      then (let (t, w) = call (rt_now (ex_runtime x)) w in (task\<lparr>at_started := Some t\<rparr>, w))
      else (task, w))"

text \<open>The messages of the failures.\<close>

definition start_failure :: "string \<Rightarrow> string \<Rightarrow> string" where
  "start_failure command err = ''Command '' @ command @ '' failed to start: '' @ err"

definition exit_failure :: "string \<Rightarrow> exit_status \<Rightarrow> string" where
  "exit_failure command status = ''Command '' @ command @ '' has failed with '' @ es_display status"

definition wait_failure :: "string \<Rightarrow> string \<Rightarrow> string" where
  "wait_failure command err = ''Command '' @ command @ '' has errored with '' @ err"

definition service_failure :: "string \<Rightarrow> string" where
  "service_failure name =
     ''Service '' @ name @ '' has failed after '' @ show_nat SERVICE_MAX_RESTARTS @ '' restarts''"

definition cwd_failure :: "string \<Rightarrow> string \<Rightarrow> string" where
  "cwd_failure name cwd = ''Task '' @ [CHR 0x27] @ name @ [CHR 0x27]
     @ '' cwd is missing or not a directory: '' @ cwd"

text \<open>
  One round of the loop of \<open>advance_task\<close>: \<open>Some step\<close> is a \<open>return\<close>, \<^const>\<open>None\<close> is a \<open>continue\<close>
  (or the end of the loop body). The first function is the branch without a child.
\<close>

definition start_next ::
  "'w executor \<Rightarrow> bool \<Rightarrow> active_task \<Rightarrow> results \<Rightarrow> 'w world \<Rightarrow>
   task_step option \<times> active_task \<times> results \<times> 'w world" where
  "start_next x fail_fast task results w = (case at_commands task of
     [] \<Rightarrow> (Some TaskFinished, task, results, w)
   | command # rest \<Rightarrow>
       (let task = task\<lparr>at_commands := rest, at_current_command := Some (display command)\<rparr>;
            (task, w) = ensure_capture x task w;
            (spawned, w) = spawn_command x command task w
        in case spawned of
             Inr child \<Rightarrow>
               (let task = task\<lparr>at_child := Some child, at_command_index := at_command_index task + 1\<rparr>;
                    (task, w) = mark_started x task w
                in (Some TaskRunning, task, results, tick task w))
           | Inl err \<Rightarrow>
               (let (task, results) = note_failure (start_failure (display command) err) (task, results)
                in (if fail_fast then Some FailedFast else None,
                    task\<lparr>at_current_command := None\<rparr>, results, w))))"

text \<open>The exit of a managed service: deliberate stop, bounded restart, or failure.\<close>

definition service_exit ::
  "'w executor \<Rightarrow> exit_status \<Rightarrow> string option \<Rightarrow> active_task \<Rightarrow> results \<Rightarrow> 'w world \<Rightarrow>
   task_step option \<times> active_task \<times> results \<times> 'w world" where
  "service_exit x status service_command task results w =
     (if es_success status then (Some TaskFinished, task, results @ [Inr ()], w)
      else if 0 < at_restarts_left task then
        (let task = task\<lparr>at_restarts_left := at_restarts_left task - 1\<rparr>;
             w = w\<lparr>wd_env := rt_sleep (ex_runtime x) (from_millis SERVICE_RESTART_BACKOFF_MS) (wd_env w)\<rparr>
         in (None, case service_command of
                     Some c \<Rightarrow> task\<lparr>at_commands := Shell c # at_commands task\<rparr>
                   | None \<Rightarrow> task, results, w))
      else
        (Some TaskFinished,
         task\<lparr>at_failures := at_failures task @ [service_failure (at_name task)]\<rparr>,
         results @ [Inl (service_failure (at_name task))], w))"

definition poll_child ::
  "'w executor \<Rightarrow> bool \<Rightarrow> nat \<Rightarrow> active_task \<Rightarrow> results \<Rightarrow> 'w world \<Rightarrow>
   task_step option \<times> active_task \<times> results \<times> 'w world" where
  "poll_child x fail_fast child task results w =
     (let shown = (case at_current_command task of Some d \<Rightarrow> d | None \<Rightarrow> []);
          reaped = task\<lparr>at_child := None, at_current_command := None\<rparr>;
          (waited, w) = call (rt_try_wait (ex_runtime x) child) w
      in case waited of
           Inr None \<Rightarrow> (Some TaskRunning, task, results, tick task w)
         | Inr (Some status) \<Rightarrow>
             (if at_service reaped then service_exit x status (at_current_command task) reaped results w
              else if es_success status then (None, reaped, results @ [Inr ()], w)
              else
                (let (task, results) = note_failure (exit_failure shown status) (reaped, results)
                 in (if fail_fast then Some FailedFast else None, task, results, w)))
         | Inl err \<Rightarrow>
             (let (task, results) = note_failure (wait_failure shown err) (reaped, results)
              in (if fail_fast then Some FailedFast else None, task, results, w)))"

definition task_round ::
  "'w executor \<Rightarrow> bool \<Rightarrow> active_task \<Rightarrow> results \<Rightarrow> 'w world \<Rightarrow>
   task_step option \<times> active_task \<times> results \<times> 'w world" where
  "task_round x fail_fast task results w = (case at_child task of
     None \<Rightarrow> start_next x fail_fast task results w
   | Some child \<Rightarrow> poll_child x fail_fast child task results w)"

lemmas task_round_defs =
  task_round_def start_next_def poll_child_def service_exit_def note_failure_def ensure_capture_def
  mark_started_def spawn_command_def call_def tick_def emit_def Let_def

text \<open>
  Every further round has used up a restart, a command or a child: the loop ends whatever the
  runtime answers.
\<close>

definition task_work :: "active_task \<Rightarrow> nat" where
  "task_work task = 2 * length (at_commands task) + (case at_child task of None \<Rightarrow> 0 | Some c \<Rightarrow> 1)"

lemma task_round_decreases:
  assumes "task_round x ff t rs w = (None, t', rs', w')"
  shows "at_restarts_left t' < at_restarts_left t \<or>
    at_restarts_left t' = at_restarts_left t \<and> task_work t' < task_work t"
  using assms
  by (auto simp: task_round_defs task_work_def
      split: option.splits list.splits prod.splits sum.splits if_splits)

function task_loop ::
  "'w executor \<Rightarrow> bool \<Rightarrow> active_task \<Rightarrow> results \<Rightarrow> 'w world \<Rightarrow>
   task_step \<times> active_task \<times> results \<times> 'w world" where
  "task_loop x fail_fast task results w = (case task_round x fail_fast task results w of
     (Some step, task, results, w) \<Rightarrow> (step, task, results, w)
   | (None, task, results, w) \<Rightarrow> task_loop x fail_fast task results w)"
  by pat_completeness auto
termination
  by (relation "inv_image (less_than <*lex*> less_than)
        (\<lambda>(x, ff, t, rs, w). (at_restarts_left t, task_work t))")
    (auto dest!: task_round_decreases [OF sym])

declare task_loop.simps [simp del]

text \<open>\<open>advance_task\<close>: the working directory is checked once, before the first command.\<close>

definition advance_task ::
  "'w executor \<Rightarrow> bool \<Rightarrow> active_task \<Rightarrow> results \<Rightarrow> 'w world \<Rightarrow>
   task_step \<times> active_task \<times> results \<times> 'w world" where
  "advance_task x fail_fast task results w =
     (if at_context_validated task then task_loop x fail_fast task results w
      else
        (let task = task\<lparr>at_context_validated := True\<rparr> in
         case ctx_cwd (at_context task) of
           None \<Rightarrow> task_loop x fail_fast task results w
         | Some cwd \<Rightarrow>
             (let (is_dir, w) = call (rt_is_dir (ex_runtime x) cwd) w in
              if is_dir then task_loop x fail_fast task results w
              else
                (let (task, results) = note_failure (cwd_failure (at_name task) cwd) (task, results)
                 in (if fail_fast then FailedFast else TaskFinished,
                     task\<lparr>at_commands := []\<rparr>, results, w)))))"

text \<open>\<open>shutdown_task\<close>: the answer is whether the child had to be killed.\<close>

definition shutdown_task :: "'w executor \<Rightarrow> active_task \<Rightarrow> 'w world \<Rightarrow> bool \<times> active_task \<times> 'w world" where
  "shutdown_task x task w = (case at_child task of
     None \<Rightarrow> (False, task\<lparr>at_commands := []\<rparr>, w)
   | Some child \<Rightarrow>
       (let (escalated, w) = call (rt_shutdown (ex_runtime x) child) w
        in (escalated, task\<lparr>at_child := None, at_commands := []\<rparr>, w)))"

text \<open>
  \<open>str::lines\<close> drops the line terminators; \<open>reveal_on_failure\<close> prints the captured streams once,
  with task attribution.
\<close>

definition reveal_stream :: "string \<Rightarrow> string \<Rightarrow> capture_buffer \<Rightarrow> string list" where
  "reveal_stream label stream b =
     (if cb_bytes b = [] then []
      else map (\<lambda>line. ''['' @ label @ '':'' @ stream @ ''] '' @ line)
             (str_lines (from_utf8_lossy (cb_bytes b))))"

definition reveal_on_failure :: "'w executor \<Rightarrow> active_task \<Rightarrow> 'w world \<Rightarrow> 'w world" where
  "reveal_on_failure x task w =
     (if at_output task \<noteq> ShowOnFailure \<or> at_failures task = [] then w
      else case at_capture task of
        None \<Rightarrow> w
      | Some c \<Rightarrow>
          (let (data, w) = call (rt_finish_capture (ex_runtime x) c) w;
               label = (case at_group_occurrence task of Some g \<Rightarrow> g | None \<Rightarrow> at_name task)
           in w\<lparr>wd_revealed := wd_revealed w @ reveal_stream label ''stdout'' (cd_stdout data)
                                @ reveal_stream label ''stderr'' (cd_stderr data)\<rparr>))"

text \<open>Recording the capture of a task in the registry, when there is one.\<close>

definition record_capture ::
  "'w executor \<Rightarrow> run_metadata \<Rightarrow> active_task \<Rightarrow> 'w world \<Rightarrow> 'w world" where
  "record_capture x m task w = (case (wd_outputs w, at_capture task) of
     (Some outputs, Some c) \<Rightarrow>
       (let (data, w) = call (rt_finish_capture (ex_runtime x) c) w
        in w\<lparr>wd_outputs := Some (record_output (md_run_id m) (at_name task) data (md_revision m)
                                  (md_revision_hash m) outputs)\<rparr>)
   | _ \<Rightarrow> w)"

text \<open>\<open>started.map(|started| clock.elapsed(started).as_millis() as u64)\<close>.\<close>

definition task_duration ::
  "'w executor \<Rightarrow> active_task \<Rightarrow> 'w world \<Rightarrow> nat option \<times> 'w world" where
  "task_duration x task w = (case at_started task of
     None \<Rightarrow> (None, w)
   | Some started \<Rightarrow>
       (let (d, w) = call (rt_elapsed (ex_runtime x) started) w in (Some (millis_u64 d), w)))"

section \<open>What polling keeps\<close>

text \<open>The fields that identify a task and its job.\<close>

definition task_frame where
  "task_frame t = (at_position t, at_name t, at_group_occurrence t, at_service t,
     at_recovery_commands t, at_original_commands t, at_output t, at_context t, at_defer_failure t)"

lemma task_frame_update [simp]:
  "task_frame (t\<lparr>at_commands := cs\<rparr>) = task_frame t" "task_frame (t\<lparr>at_child := c\<rparr>) = task_frame t"
  "task_frame (t\<lparr>at_current_command := d\<rparr>) = task_frame t" "task_frame (t\<lparr>at_failures := fs\<rparr>) = task_frame t"
  "task_frame (t\<lparr>at_context_validated := b\<rparr>) = task_frame t" "task_frame (t\<lparr>at_started := st\<rparr>) = task_frame t"
  "task_frame (t\<lparr>at_capture := h\<rparr>) = task_frame t" "task_frame (t\<lparr>at_command_index := n\<rparr>) = task_frame t"
  "task_frame (t\<lparr>at_restarts_left := k\<rparr>) = task_frame t" "task_frame (t\<lparr>at_command_total := n\<rparr>) = task_frame t"
  by (simp_all add: task_frame_def)

lemma ensure_capture_frame [simp]: "task_frame (fst (ensure_capture x t w)) = task_frame t"
  by (simp add: ensure_capture_def split_beta)

lemma mark_started_frame [simp]: "task_frame (fst (mark_started x t w)) = task_frame t"
  by (simp add: mark_started_def split_beta)

lemma note_failure_frame [simp]: "task_frame (fst (note_failure f (t, rs))) = task_frame t"
  by (simp add: note_failure_def)

lemma start_next_frame: "task_frame (fst (snd (start_next x ff t rs w))) = task_frame t"
  by (simp add: start_next_def Let_def split_beta split: list.split sum.split)

lemma service_exit_frame: "task_frame (fst (snd (service_exit x st c t rs w))) = task_frame t"
  by (simp add: service_exit_def Let_def split: option.split)

lemma poll_child_frame: "task_frame (fst (snd (poll_child x ff c t rs w))) = task_frame t"
  by (simp add: poll_child_def Let_def split_beta service_exit_frame split: option.split sum.split)

lemma task_round_frame: "task_frame (fst (snd (task_round x ff t rs w))) = task_frame t"
  by (simp add: task_round_def start_next_frame poll_child_frame split: option.split)

text \<open>An invariant of the rounds holds of the task that the loop leaves.\<close>

lemma task_loop_rule:
  assumes "task_loop x ff t rs w = (s, t', rs', w')" and "P t rs"
    and "\<And>t rs w t' rs' w'. P t rs \<Longrightarrow> task_round x ff t rs w = (None, t', rs', w') \<Longrightarrow> P t' rs'"
    and "\<And>t rs w s t' rs' w'. P t rs \<Longrightarrow> task_round x ff t rs w = (Some s, t', rs', w') \<Longrightarrow> Q s t' rs'"
  shows "Q s t' rs'"
  using assms
proof (induction x ff t rs w rule: task_loop.induct)
  case (1 x ff t rs w)
  obtain so t1 rs1 w1 where r: "task_round x ff t rs w = (so, t1, rs1, w1)"
    by (metis prod_cases4)
  show ?case
  proof (cases so)
    case None
    with "1.prems"(1) r have "task_loop x ff t1 rs1 w1 = (s, t', rs', w')"
      by (simp add: task_loop.simps [of x ff t])
    moreover have "P t1 rs1" using "1.prems"(3) [OF "1.prems"(2) r [unfolded None]] .
    ultimately show ?thesis
      by (rule "1.IH" [OF r [symmetric] None refl refl]) (fact "1.prems"(3), fact "1.prems"(4))
  next
    case (Some s1)
    with "1.prems" r show ?thesis by (auto simp: task_loop.simps [of x ff t])
  qed
qed

lemma task_loop_inv:
  assumes "task_loop x ff t rs w = (s, t', rs', w')" and "P t rs"
    and "\<And>t rs w so t' rs' w'. P t rs \<Longrightarrow> task_round x ff t rs w = (so, t', rs', w') \<Longrightarrow> P t' rs'"
  shows "P t' rs'"
  by (rule task_loop_rule [OF assms(1), of P "\<lambda>s. P"]) (fact assms(2), (erule (1) assms(3))+)

lemma task_loop_frame:
  assumes "task_loop x ff t rs w = (s, t', rs', w')"
  shows "task_frame t' = task_frame t"
  by (rule task_loop_inv [OF assms, where P = "\<lambda>u rs. task_frame u = task_frame t"])
    (simp, metis fst_conv snd_conv task_round_frame)

lemma advance_task_frame:
  assumes "advance_task x ff t rs w = (s, t', rs', w')"
  shows "task_frame t' = task_frame t"
  using assms
  by (auto simp: advance_task_def Let_def note_failure_def call_def dest!: task_loop_frame
      split: if_splits option.splits prod.splits)

lemma shutdown_task_frame [simp]: "task_frame (fst (snd (shutdown_task x t w))) = task_frame t"
  by (simp add: shutdown_task_def split_beta Let_def split: option.split)

text \<open>A polled task is running exactly when it holds a child.\<close>

lemma start_next_step:
  assumes "start_next x ff t rs w = (Some s, t', rs', w')" and "at_child t = None"
  shows "(s = TaskRunning \<longleftrightarrow> at_child t' \<noteq> None) \<and> (s = FailedFast \<longrightarrow> ff \<and> at_failures t' \<noteq> [])"
  using assms
  by (auto simp: start_next_def ensure_capture_def mark_started_def note_failure_def Let_def
      split: list.splits sum.splits prod.splits if_splits)

lemma service_exit_step:
  assumes "service_exit x st c t rs w = (Some s, t', rs', w')" and "at_child t = None"
  shows "s = TaskFinished \<and> at_child t' = None"
  using assms by (auto simp: service_exit_def Let_def split: if_splits option.splits)

lemma poll_child_step:
  assumes "poll_child x ff c t rs w = (Some s, t', rs', w')" and "at_child t = Some c"
  shows "(s = TaskRunning \<longleftrightarrow> at_child t' \<noteq> None) \<and> (s = FailedFast \<longrightarrow> ff \<and> at_failures t' \<noteq> [])"
proof -
  obtain a v where w: "call (rt_try_wait (ex_runtime x) c) w = (a, v)" by (metis surj_pair)
  show ?thesis
    using assms service_exit_step [of x _ _ "t\<lparr>at_child := None, at_current_command := None\<rparr>"]
    by (cases a) (auto simp: poll_child_def w note_failure_def Let_def
        split: option.splits if_splits dest: service_exit_step)
qed

lemma task_loop_step:
  assumes "task_loop x ff t rs w = (s, t', rs', w')"
  shows "(s = TaskRunning \<longleftrightarrow> at_child t' \<noteq> None) \<and> (s = FailedFast \<longrightarrow> ff \<and> at_failures t' \<noteq> [])"
  by (rule task_loop_rule [OF assms, where P = "\<lambda>t rs. True"])
    (auto simp: task_round_def split: option.splits dest: start_next_step poll_child_step)

lemma advance_task_step:
  assumes "advance_task x ff t rs w = (s, t', rs', w')" and "\<not> at_context_validated t \<longrightarrow> at_child t = None"
  shows "(s = TaskRunning \<longleftrightarrow> at_child t' \<noteq> None) \<and> (s = FailedFast \<longrightarrow> ff \<and> at_failures t' \<noteq> [])"
  using assms
  by (auto simp: advance_task_def Let_def note_failure_def call_def dest!: task_loop_step
      split: if_splits option.splits prod.splits)

section \<open>What polling records\<close>

definition errors_of :: "results \<Rightarrow> string list" where
  "errors_of rs = concat (map (\<lambda>r. case r of Inl e \<Rightarrow> [e] | Inr u \<Rightarrow> []) rs)"

lemma errors_of_simps [simp]:
  "errors_of [] = []" "errors_of (rs @ rs') = errors_of rs @ errors_of rs'"
  "errors_of [Inl e] = [e]" "errors_of [Inr u] = []"
  by (simp_all add: errors_of_def)

text \<open>
  \<open>tracks t0 rs0 t rs\<close>: since \<open>(t0, rs0)\<close> the results gained exactly the failures the task gained,
  unless they are deferred for recovery.
\<close>

definition tracks :: "active_task \<Rightarrow> results \<Rightarrow> active_task \<Rightarrow> results \<Rightarrow> bool" where
  "tracks t0 rs0 t rs \<longleftrightarrow> (\<exists>fs. at_failures t = at_failures t0 @ fs \<and>
     errors_of rs = errors_of rs0 @ (if at_defer_failure t0 then [] else fs))"

lemma tracks_refl [simp]: "tracks t rs t rs"
  by (simp add: tracks_def)

lemma tracks_note:
  "note_failure f (t', rs) = (u, rs') \<Longrightarrow> at_failures t' = at_failures t \<Longrightarrow>
     at_defer_failure t' = at_defer_failure t \<Longrightarrow> tracks t rs u rs'"
  by (auto simp: tracks_def note_failure_def)

lemma tracks_cong:
  assumes "tracks t0 rs0 t rs" and "at_failures t' = at_failures t" and "errors_of rs' = errors_of rs"
  shows "tracks t0 rs0 t' rs'"
  using assms by (auto simp: tracks_def)

lemma start_next_tracks:
  assumes "start_next x ff t rs w = (so, t', rs', w')"
  shows "tracks t rs t' rs'"
  using assms
  by (auto simp: start_next_def ensure_capture_def mark_started_def note_failure_def Let_def tracks_def
      split: list.splits sum.splits prod.splits if_splits)

lemma service_exit_tracks:
  assumes "service_exit x st c t rs w = (so, t', rs', w')" and "\<not> at_defer_failure t"
  shows "tracks t rs t' rs'"
  using assms by (auto simp: service_exit_def Let_def tracks_def split: if_splits option.splits)

lemma poll_child_tracks:
  assumes "poll_child x ff c t rs w = (so, t', rs', w')" and "at_service t \<longrightarrow> \<not> at_defer_failure t"
  shows "tracks t rs t' rs'"
proof -
  obtain a v where w: "call (rt_try_wait (ex_runtime x) c) w = (a, v)" by (metis surj_pair)
  have "tracks t rs t' rs'" if "service_exit x st sc (t\<lparr>at_child := None, at_current_command := None\<rparr>) rs v = (so, t', rs', w')"
    and "at_service t" for st sc
    using service_exit_tracks [OF that(1)] that(2) assms(2) by (auto simp: tracks_def)
  moreover have "tracks t rs (t\<lparr>at_child := None, at_current_command := None\<rparr>) (rs @ [Inr ()])"
    by (simp add: tracks_def)
  ultimately show ?thesis using assms(1)
    by (cases a) (auto simp: poll_child_def w Let_def split: option.splits if_splits prod.splits
        intro: tracks_note)
qed

lemma tracks_trans:
  "tracks t0 rs0 t rs \<Longrightarrow> tracks t rs t' rs' \<Longrightarrow> at_defer_failure t = at_defer_failure t0 \<Longrightarrow>
     tracks t0 rs0 t' rs'"
  by (auto simp: tracks_def)

lemma task_round_tracks:
  assumes "task_round x ff t rs w = (so, t', rs', w')" and "at_service t \<longrightarrow> \<not> at_defer_failure t"
  shows "tracks t rs t' rs'"
  using assms by (auto simp: task_round_def start_next_tracks poll_child_tracks split: option.splits)

lemma task_frame_service: "task_frame t' = task_frame t \<Longrightarrow> at_service t' = at_service t"
  and task_frame_defer: "task_frame t' = task_frame t \<Longrightarrow> at_defer_failure t' = at_defer_failure t"
  by (simp_all add: task_frame_def)

lemma task_loop_tracks:
  assumes "task_loop x ff t rs w = (s, t', rs', w')" and "at_service t \<longrightarrow> \<not> at_defer_failure t"
  shows "tracks t rs t' rs'"
proof -
  let ?P = "\<lambda>u us. task_frame u = task_frame t \<and> tracks t rs u us"
  have step: "?P u' us'" if "?P u us" "task_round x ff u us v = (so, u', us', v')" for u us v so u' us' v'
  proof -
    from that(1) have *: "at_service u = at_service t" "at_defer_failure u = at_defer_failure t"
      by (auto dest: task_frame_service task_frame_defer)
    with assms(2) have "tracks u us u' us'" using task_round_tracks [OF that(2)] by simp
    with that(1) * have "tracks t rs u' us'" using tracks_trans by blast
    with that show ?thesis using task_round_frame [of x ff u us v] by simp
  qed
  have "?P t' rs'" by (rule task_loop_inv [OF assms(1), of ?P]) (simp, rule step)
  then show ?thesis by simp
qed

lemma advance_task_tracks:
  assumes "advance_task x ff t rs w = (s, t', rs', w')" and "at_service t \<longrightarrow> \<not> at_defer_failure t"
  shows "tracks t rs t' rs'"
  using assms
  by (auto simp: advance_task_def Let_def note_failure_def tracks_def dest!: task_loop_tracks
      split: if_splits option.splits prod.splits)

text \<open>Commands still to be settled: those not started and the one that runs.\<close>

definition open_commands :: "active_task \<Rightarrow> nat" where
  "open_commands t = length (at_commands t) + (case at_child t of None \<Rightarrow> 0 | Some c \<Rightarrow> 1)"

lemma task_round_settles:
  assumes "task_round x ff t rs w = (so, t', rs', w')" and "\<not> at_service t" and "\<not> at_defer_failure t"
  shows "length rs' + open_commands t' = length rs + open_commands t"
proof (cases "at_child t")
  case None
  with assms show ?thesis
    by (auto simp: task_round_def start_next_def ensure_capture_def mark_started_def note_failure_def Let_def
        open_commands_def split: list.splits sum.splits prod.splits if_splits)
next
  case (Some c)
  obtain a v where w: "call (rt_try_wait (ex_runtime x) c) w = (a, v)" by (metis surj_pair)
  with assms Some show ?thesis
    by (cases a) (auto simp: task_round_def poll_child_def note_failure_def Let_def open_commands_def
        split: option.splits if_splits)
qed

lemma task_loop_settles:
  assumes "task_loop x ff t rs w = (s, t', rs', w')" and "\<not> at_service t" and "\<not> at_defer_failure t"
  shows "length rs' + open_commands t' = length rs + open_commands t"
proof -
  let ?P = "\<lambda>u us. task_frame u = task_frame t \<and> length us + open_commands u = length rs + open_commands t"
  have step: "?P u' us'" if "?P u us" "task_round x ff u us v = (so, u', us', v')" for u us v so u' us' v'
    using that assms(2,3) task_round_settles [OF that(2)] task_round_frame [of x ff u us v]
    by (auto dest: task_frame_service task_frame_defer)
  have "?P t' rs'" by (rule task_loop_inv [OF assms(1), of ?P]) (simp, rule step)
  then show ?thesis by simp
qed

lemma task_loop_finished:
  assumes "task_loop x ff t rs w = (TaskFinished, t', rs', w')" and "\<not> at_service t"
  shows "at_commands t' = [] \<and> at_child t' = None"
proof -
  let ?Q = "\<lambda>s u us. s = TaskFinished \<longrightarrow> at_commands u = [] \<and> at_child u = None"
  have "?Q TaskFinished t' rs'"
  proof (rule task_loop_rule [OF assms(1), of "\<lambda>u us. \<not> at_service u" ?Q])
    show "\<not> at_service u'" if "\<not> at_service u" "task_round x ff u us v = (None, u', us', v')"
      for u us v u' us' v'
      using that task_round_frame [of x ff u us v] by (auto dest: task_frame_service)
    show "?Q s u' us'" if "\<not> at_service u" "task_round x ff u us v = (Some s, u', us', v')"
      for u us v s u' us' v'
      using that
      by (auto simp: task_round_def start_next_def poll_child_def note_failure_def Let_def
          split: option.splits list.splits prod.splits sum.splits if_splits)
  qed (fact assms(2))
  then show ?thesis by simp
qed

end
