(* ===== verification/Executor.thy ===== *)
theory Executor
  imports Executor_Tasks
begin

text \<open>
  The bounded execution engine, \<open>src/src/executor.rs\<close>: a run is a queue of stages, the tasks of the
  current stage, the tasks that are running, failed tasks that wait for recovery and background
  services. One definition per method: \<open>start\<close>, \<open>advance\<close>, \<open>resolve_recoveries\<close>,
  \<open>stop_after_failure\<close>, \<open>advance_services\<close>, \<open>finish\<close>, \<open>cancel\<close>, \<open>append_plan\<close>,
  \<open>reconcile_services\<close>, \<open>run_to_completion\<close>.

  Loops that wait for the outside (an approval, a recovery command, a hook, the end of a run) may
  wait forever; they are partial functions with an option result and \<^const>\<open>None\<close> says that the
  call does not return. Everything else terminates by proof.
\<close>

section \<open>State\<close>

record run =
  rn_stages :: "stage list"
  rn_queued :: "task_plan list"
  rn_active :: "active_task list"
  rn_pending :: "active_task list"
  rn_services :: "active_task list"
  rn_stage_limit :: nat
  rn_results :: results
  rn_outcomes :: "(nat \<times> string \<times> string option \<times> task_outcome) list"
  rn_snapshots :: "task_snapshot list"
  rn_metadata :: run_metadata
  rn_superseded_by :: "nat option"
  rn_started :: nat

record completed_run =
  cr_results :: results
  cr_elapsed :: duration
  cr_outcome :: run_outcome
  cr_tasks :: "task_snapshot list"

datatype step = Running | Finished

datatype cancel_disposition = Graceful | Escalated

definition run_id :: "run \<Rightarrow> nat" where
  "run_id run = md_run_id (rn_metadata run)"

text \<open>The revision a run was scheduled under, as \<open>Run::revision\<close> reports it.\<close>

definition run_revision :: "run \<Rightarrow> config_revision option" where
  "run_revision run =
     (case (md_revision (rn_metadata run), md_revision_hash (rn_metadata run)) of
        (Some number, Some hash) \<Rightarrow> Some \<lparr>rev_number = number, rev_hash = hash\<rparr>
      | _ \<Rightarrow> None)"

text \<open>\<open>Vec::remove\<close>.\<close>

definition remove_at :: "nat \<Rightarrow> 'a list \<Rightarrow> 'a list" where
  "remove_at i xs = take i xs @ drop (Suc i) xs"

section \<open>Starting\<close>

definition started_of :: "run_metadata \<Rightarrow> run_plan \<Rightarrow> started_event" where
  "started_of m plan =
     \<lparr>st_run_id = md_run_id m, st_trigger = md_trigger m, st_batch = md_batch m,
      st_predecessor = md_predecessor m, st_changed = md_changed m,
      st_commands = map display (plan_commands plan), st_target = md_target m,
      st_execution_signature = md_execution_signature m,
      st_effective_concurrency = md_effective_concurrency m,
      st_concurrency_source = md_concurrency_source m, st_revision = md_revision m,
      st_revision_hash = md_revision_hash m\<rparr>"

definition start :: "'w executor \<Rightarrow> run_metadata \<Rightarrow> run_plan \<Rightarrow> 'w world \<Rightarrow> run \<times> 'w world" where
  "start x m plan w =
     (let w = emit (EvStarted (started_of m plan)) w;
          (now, w) = call (rt_now (ex_runtime x)) w
      in (\<lparr>rn_stages = stages plan, rn_queued = [], rn_active = [], rn_pending = [], rn_services = [],
           rn_stage_limit = 0, rn_results = [], rn_outcomes = [], rn_snapshots = [],
           rn_metadata = m, rn_superseded_by = None, rn_started = now\<rparr>, w))"

section \<open>Recording\<close>

definition record_task_snapshot ::
  "nat \<Rightarrow> string \<Rightarrow> string option \<Rightarrow> task_state \<Rightarrow> nat option \<Rightarrow> run \<Rightarrow> 'w world \<Rightarrow> run \<times> 'w world" where
  "record_task_snapshot position name g state duration_ms run w =
     (let task = \<lparr>ts_position = position, ts_id = (case g of Some i \<Rightarrow> i | None \<Rightarrow> name),
                  ts_name = name, ts_state = state, ts_duration_ms = duration_ms\<rparr>
      in (run\<lparr>rn_snapshots := rn_snapshots run @ [task]\<rparr>, emit (EvTaskTerminal (run_id run) task) w))"

definition push_outcome ::
  "nat \<Rightarrow> string \<Rightarrow> string option \<Rightarrow> task_outcome \<Rightarrow> run \<Rightarrow> run" where
  "push_outcome position name g outcome run =
     run\<lparr>rn_outcomes := rn_outcomes run @ [(position, name, g, outcome)]\<rparr>"

definition record_task_outcome ::
  "'w executor \<Rightarrow> run \<Rightarrow> active_task \<Rightarrow> 'w world \<Rightarrow> run \<times> 'w world" where
  "record_task_outcome x run task w =
     (let w = reveal_on_failure x task w;
          w = record_capture x (rn_metadata run) task w;
          (duration_ms, w) = task_duration x task w;
          (state, outcome) = (if at_failures task = [] then (TS_Passed, Passed)
                              else (TS_Failed, Failed (at_failures task)));
          (run, w) = record_task_snapshot (at_position task) (at_name task) (at_group_occurrence task)
                       state duration_ms run w
      in (push_outcome (at_position task) (at_name task) (at_group_occurrence task) outcome run, w))"

definition phase :: "string \<Rightarrow> string option \<Rightarrow> run \<Rightarrow> active_task \<Rightarrow> 'w world \<Rightarrow> 'w world" where
  "phase p oc run task = emit (EvRecoveryPhase (run_id run) (at_name task) p oc)"

definition defer_or_record ::
  "'w executor \<Rightarrow> run \<Rightarrow> active_task \<Rightarrow> 'w world \<Rightarrow> run \<times> 'w world" where
  "defer_or_record x run task w =
     (if at_failures task \<noteq> [] \<and> at_recovery_commands task \<noteq> None
      then (run\<lparr>rn_pending := rn_pending run @ [task]\<rparr>, phase ''original_failed'' None run task w)
      else record_task_outcome x run task w)"

text \<open>
  Stopping one running task: shut its child down, record its capture, note it as cancelled. The
  answer is whether the child had to be killed.
\<close>

definition retire :: "'w executor \<Rightarrow> active_task \<Rightarrow> run \<Rightarrow> 'w world \<Rightarrow> bool \<times> run \<times> 'w world" where
  "retire x task run w =
     (let (escalated, task, w) = shutdown_task x task w;
          w = record_capture x (rn_metadata run) task w;
          (duration_ms, w) = task_duration x task w;
          (run, w) = record_task_snapshot (at_position task) (at_name task) (at_group_occurrence task)
                       TS_Cancelled duration_ms run w
      in (escalated, run, w))"

text \<open>A task that never started is reported as cancelled, without a duration.\<close>

definition skip_task :: "task_plan \<Rightarrow> run \<times> 'w world \<Rightarrow> run \<times> 'w world" where
  "skip_task task = (\<lambda>(run, w).
     record_task_snapshot (tp_position task) (tp_name task) (tp_group_occurrence task)
       TS_Cancelled None run w)"

definition skip_with_outcome :: "task_plan \<Rightarrow> run \<times> 'w world \<Rightarrow> run \<times> 'w world" where
  "skip_with_outcome task rw =
     (let (run, w) = skip_task task rw
      in (push_outcome (tp_position task) (tp_name task) (tp_group_occurrence task) Skipped run, w))"

fun stop_active :: "'w executor \<Rightarrow> active_task list \<Rightarrow> run \<Rightarrow> 'w world \<Rightarrow> run \<times> 'w world" where
  "stop_active x [] run w = (run, w)"
| "stop_active x (task # tasks) run w =
     (let (_, run, w) = retire x task run w
      in stop_active x tasks
           (push_outcome (at_position task) (at_name task) (at_group_occurrence task) Cancelled run) w)"

definition stop_after_failure :: "'w executor \<Rightarrow> run \<Rightarrow> 'w world \<Rightarrow> run \<times> 'w world" where
  "stop_after_failure x run w =
     (let active = rn_active run;
          (run, w) = stop_active x active (run\<lparr>rn_active := []\<rparr>) w;
          queued = rn_queued run;
          (run, w) = fold skip_with_outcome queued (run\<lparr>rn_queued := []\<rparr>, w);
          left = rn_stages run
      in fold skip_with_outcome (concat (map stage_tasks left)) (run\<lparr>rn_stages := []\<rparr>, w))"

section \<open>Background services\<close>

definition service_done ::
  "'w executor \<Rightarrow> active_task \<Rightarrow> task_state \<Rightarrow> task_outcome \<Rightarrow> run \<Rightarrow> 'w world \<Rightarrow> run \<times> 'w world" where
  "service_done x done state outcome run w =
     (let (duration_ms, w) = task_duration x done w;
          (run, w) = record_task_snapshot (at_position done) (at_name done) (at_group_occurrence done)
                       state duration_ms run w
      in (push_outcome (at_position done) (at_name done) (at_group_occurrence done) outcome run, w))"

definition service_failed ::
  "'w executor \<Rightarrow> active_task \<Rightarrow> string \<Rightarrow> run \<Rightarrow> 'w world \<Rightarrow> active_task option \<times> run \<times> 'w world" where
  "service_failed x service failure run w =
     (let service = service\<lparr>at_failures := at_failures service @ [failure]\<rparr>;
          run = run\<lparr>rn_results := rn_results run @ [Inl failure]\<rparr>
      in (None, service_done x service TS_Failed (Failed (at_failures service)) run w))"

definition respawn_failure :: "string \<Rightarrow> string \<Rightarrow> string" where
  "respawn_failure name err = ''Service '' @ name @ '' respawn failed: '' @ err"

text \<open>
  One service of the background pool is polled. The first component is the service that stays in
  the pool, or \<^const>\<open>None\<close> when it has been recorded and leaves it.
\<close>

definition advance_service ::
  "'w executor \<Rightarrow> active_task \<Rightarrow> run \<Rightarrow> 'w world \<Rightarrow> active_task option \<times> run \<times> 'w world" where
  "advance_service x service run w = (case at_child service of
     None \<Rightarrow>
       (case at_commands service of
          [] \<Rightarrow> (Some service, run, w)
        | command # rest \<Rightarrow>
            (let service = service\<lparr>at_commands := rest, at_current_command := Some (display command)\<rparr>;
                 (spawned, w) = spawn_command x command service w
             in case spawned of
                  Inr child \<Rightarrow>
                    (let (service, w) = mark_started x (service\<lparr>at_child := Some child\<rparr>) w
                     in (Some service, run, w))
                | Inl err \<Rightarrow> service_failed x service (respawn_failure (at_name service) err) run w))
   | Some child \<Rightarrow>
       (let (waited, w) = call (rt_try_wait (ex_runtime x) child) w
        in case waited of
             Inr None \<Rightarrow> (Some service, run, w)
           | Inr (Some status) \<Rightarrow>
               (let command = at_current_command service;
                    service = service\<lparr>at_child := None, at_current_command := None\<rparr>
                in if es_success status then (None, service_done x service TS_Passed Passed run w)
                   else if 0 < at_restarts_left service then
                     (let service = service\<lparr>at_restarts_left := at_restarts_left service - 1\<rparr>
                      in (Some (case command of
                                  Some c \<Rightarrow> service\<lparr>at_commands := Shell c # at_commands service\<rparr>
                                | None \<Rightarrow> service), run, w))
                   else service_failed x service (service_failure (at_name service)) run w)
           | Inl err \<Rightarrow> (Some service, run, w)))"

definition run_shape where
  "run_shape run = (rn_stages run, rn_queued run, rn_active run, rn_pending run, rn_stage_limit run,
     rn_metadata run)"

lemma run_shape_update [simp]:
  "run_shape (r\<lparr>rn_services := ss\<rparr>) = run_shape r" "run_shape (r\<lparr>rn_results := rs\<rparr>) = run_shape r"
  "run_shape (r\<lparr>rn_outcomes := ocs\<rparr>) = run_shape r" "run_shape (r\<lparr>rn_snapshots := sn\<rparr>) = run_shape r"
  by (simp_all add: run_shape_def)

lemma record_task_snapshot_simps [simp]:
  "run_shape (fst (record_task_snapshot p n g s d r w)) = run_shape r"
  "rn_services (fst (record_task_snapshot p n g s d r w)) = rn_services r"
  by (simp_all add: record_task_snapshot_def Let_def)

lemma push_outcome_simps [simp]:
  "run_shape (push_outcome p n g oc r) = run_shape r"
  "rn_services (push_outcome p n g oc r) = rn_services r"
  by (simp_all add: push_outcome_def)

lemma record_task_outcome_simps [simp]:
  "run_shape (fst (record_task_outcome x r t w)) = run_shape r"
  "rn_services (fst (record_task_outcome x r t w)) = rn_services r"
  by (simp_all add: record_task_outcome_def Let_def split_beta)

lemma service_done_simps [simp]:
  "run_shape (fst (service_done x t s oc r w)) = run_shape r"
  "rn_services (fst (service_done x t s oc r w)) = rn_services r"
  by (simp_all add: service_done_def Let_def split_beta)

lemma service_failed_simps [simp]:
  "run_shape (fst (snd (service_failed x t f r w))) = run_shape r"
  "rn_services (fst (snd (service_failed x t f r w))) = rn_services r"
  by (simp_all add: service_failed_def Let_def)

lemma advance_service_simps [simp]:
  "run_shape (fst (snd (advance_service x t r w))) = run_shape r"
  "rn_services (fst (snd (advance_service x t r w))) = rn_services r"
  by (simp_all add: advance_service_def Let_def split_beta split: option.split list.split sum.split)

lemma advance_service_services:
  "advance_service x t r w = (so, r', w') \<Longrightarrow> rn_services r' = rn_services r"
  using advance_service_simps(2) [of x t r w] by simp

lemma length_remove_at: "i < length xs \<Longrightarrow> length (remove_at i xs) = length xs - 1"
  by (simp add: remove_at_def)

text \<open>The loop over the pool; a service that leaves is removed and its index is polled again.\<close>

function advance_services_from ::
  "'w executor \<Rightarrow> nat \<Rightarrow> run \<Rightarrow> 'w world \<Rightarrow> run \<times> 'w world" where
  "advance_services_from x index run w =
     (if index < length (rn_services run) then
        (case advance_service x (rn_services run ! index) run w of
           (Some service, run, w) \<Rightarrow>
             advance_services_from x (Suc index)
               (run\<lparr>rn_services := (rn_services run)[index := service]\<rparr>) w
         | (None, run, w) \<Rightarrow>
             advance_services_from x index
               (run\<lparr>rn_services := remove_at index (rn_services run)\<rparr>) w)
      else (run, w))"
  by pat_completeness auto

termination
  by (relation "measure (\<lambda>(x, i, r, w). length (rn_services r) - i)")
    (auto simp: length_remove_at dest!: advance_service_services [OF sym])

declare advance_services_from.simps [simp del]

definition advance_services :: "'w executor \<Rightarrow> run \<Rightarrow> 'w world \<Rightarrow> run \<times> 'w world" where
  "advance_services x run w = advance_services_from x 0 run w"

section \<open>Recovery\<close>

definition recovery_request_of :: "run \<Rightarrow> active_task \<Rightarrow> recovery_request" where
  "recovery_request_of run task =
     \<lparr>rr_generation = run_id run, rr_revision = md_revision (rn_metadata run),
      rr_job_position = at_position task, rr_job = at_name task,
      rr_commands = (case at_recovery_commands task of None \<Rightarrow> [] | Some cs \<Rightarrow> map display cs)\<rparr>"

text \<open>
  Waiting for the approval thread: \<open>Some (None, w)\<close> when cancellation interrupts the wait,
  \<open>Some (Some d, w)\<close> for a decision, \<^const>\<open>None\<close> when neither ever happens.
\<close>

partial_function (option) await_decision ::
  "'w executor \<Rightarrow> 'w world \<Rightarrow> (approval_decision option \<times> 'w world) option" where
  "await_decision x w =
     (let (cancelled, w) = call (rt_cancelled (ex_runtime x)) w in
      if cancelled then Some (None, w)
      else
        (let (received, w) = call (rt_recv (ex_runtime x)) w in
         case received of
           RecvDecision decision \<Rightarrow> Some (Some decision, w)
         | RecvTimeout \<Rightarrow> await_decision x w
         | RecvDisconnected \<Rightarrow> Some (Some InvalidAnswer, w)))"

declare await_decision.simps [code]

text \<open>
  Running the commands of one task to their end, with fail-fast. The boolean is True when
  cancellation interrupted the task.
\<close>

partial_function (option) drive ::
  "'w executor \<Rightarrow> active_task \<Rightarrow> results \<Rightarrow> 'w world \<Rightarrow> (bool \<times> active_task \<times> 'w world) option" where
  "drive x task results w =
     (let (step, task, results, w) = advance_task x True task results w in
      if step = TaskRunning then
        (let (cancelled, w) = call (rt_cancelled (ex_runtime x)) w in
         if cancelled then Some (True, task, w)
         else drive x task results (w\<lparr>wd_env := rt_sleep (ex_runtime x) POLL_INTERVAL (wd_env w)\<rparr>))
      else Some (False, task, w))"

declare drive.simps [code]

text \<open>The reason shown for a pass that is not run; an approval never reaches it.\<close>

fun decline_reason :: "recovery_policy \<Rightarrow> approval_decision \<Rightarrow> string" where
  "decline_reason Skip _ = ''recovery_policy: skip''"
| "decline_reason Prompt NoTty = ''no TTY''"
| "decline_reason Prompt Eof = ''EOF''"
| "decline_reason Prompt InvalidAnswer = ''invalid answer''"
| "decline_reason Prompt Declined = ''declined''"
| "decline_reason Prompt ApprovalCancelled = ''cancelled''"
| "decline_reason Prompt Approved = []"

definition job_failed :: "active_task \<Rightarrow> string" where
  "job_failed task = (case at_failures task of
     f # fs \<Rightarrow> f
   | [] \<Rightarrow> ''Job '' @ [CHR 0x27] @ at_name task @ [CHR 0x27] @ '' failed'')"

definition last_failure :: "string \<Rightarrow> active_task \<Rightarrow> string" where
  "last_failure what task =
     (if at_failures task = [] then what @ '' failed for job '' @ [CHR 0x27] @ at_name task @ [CHR 0x27]
      else last (at_failures task))"

definition push_result :: "unit result \<Rightarrow> run \<Rightarrow> run" where
  "push_result r run = run\<lparr>rn_results := rn_results run @ [r]\<rparr>"

text \<open>A pending task is recorded with its original failure.\<close>

definition record_original ::
  "'w executor \<Rightarrow> active_task \<Rightarrow> run \<times> 'w world \<Rightarrow> run \<times> 'w world" where
  "record_original x task = (\<lambda>(run, w). record_task_outcome x (push_result (Inl (job_failed task)) run) task w)"

definition decline_task ::
  "'w executor \<Rightarrow> string \<Rightarrow> active_task \<Rightarrow> run \<times> 'w world \<Rightarrow> run \<times> 'w world" where
  "decline_task x reason task = (\<lambda>(run, w).
     record_original x task (run, phase ''approval_decided'' (Some reason) run task w))"

text \<open>The task is set up for a pass over the given commands.\<close>

definition rearm :: "command_line list \<Rightarrow> active_task \<Rightarrow> active_task" where
  "rearm commands task =
     task\<lparr>at_commands := commands, at_failures := [], at_current_command := None, at_child := None,
          at_command_index := 0, at_command_total := length commands, at_defer_failure := False\<rparr>"

definition verdict :: "active_task \<Rightarrow> string" where
  "verdict task = (if at_failures task = [] then ''passed'' else ''failed'')"

text \<open>
  Cancellation during a recovery or verification pass: the task is shut down and, with the tasks
  still waiting, kept for the cancel that follows.
\<close>

definition interrupted ::
  "'w executor \<Rightarrow> active_task \<Rightarrow> active_task list \<Rightarrow> run \<Rightarrow> 'w world \<Rightarrow> bool \<times> run \<times> 'w world" where
  "interrupted x task remaining run w =
     (let (_, task, w) = shutdown_task x task w
      in (True, run\<lparr>rn_pending := rn_pending run @ task # remaining\<rparr>, w))"

text \<open>
  One approved task: a recovery pass, and when it passes a verification pass over the original
  commands. \<open>Pass_Interrupted\<close> keeps the task, \<open>Recovery_Failed\<close> ends the whole pass.
\<close>

datatype recovery_end = Pass_Interrupted active_task | Recovery_Failed | Recovery_Done

definition verify_task ::
  "'w executor \<Rightarrow> active_task \<Rightarrow> run \<Rightarrow> 'w world \<Rightarrow> (recovery_end \<times> run \<times> 'w world) option" where
  "verify_task x task run w =
     (let w = phase ''verification_started'' None run task w;
          task = rearm (at_original_commands task) task
      in case drive x task [] w of
           None \<Rightarrow> None
         | Some (True, task, w) \<Rightarrow> Some (Pass_Interrupted task, run, w)
         | Some (False, task, w) \<Rightarrow>
             (let w = phase ''verification_finished'' (Some (verdict task)) run task w;
                  run = push_result (if at_failures task \<noteq> []
                           then Inl (last_failure ''Verification'' task) else Inr ()) run
              in Some (Recovery_Done, record_task_outcome x run task w)))"

definition recover_task ::
  "'w executor \<Rightarrow> active_task \<Rightarrow> run \<Rightarrow> 'w world \<Rightarrow> (recovery_end \<times> run \<times> 'w world) option" where
  "recover_task x task run w =
     (let w = phase ''approval_decided'' (Some ''approved'') run task w;
          original_failures = at_failures task
      in case at_recovery_commands task of
        None \<Rightarrow> Some (Recovery_Done, record_task_outcome x run task w)
      | Some recovery_commands \<Rightarrow>
          (let w = phase ''recovery_started'' None run task w;
               task = rearm recovery_commands (task\<lparr>at_recovery_commands := None\<rparr>)
           in case drive x task [] w of
             None \<Rightarrow> None
           | Some (True, task, w) \<Rightarrow> Some (Pass_Interrupted task, run, w)
           | Some (False, task, w) \<Rightarrow>
               (let w = phase ''recovery_finished'' (Some (verdict task)) run task w in
                if at_failures task \<noteq> [] then
                  (let task = task\<lparr>at_failures := original_failures @ at_failures task\<rparr>;
                       run = push_result (Inl (last_failure ''Recovery'' task)) run
                   in Some (Recovery_Failed, record_task_outcome x run task w))
                else verify_task x task run w)))"

fun recover_all ::
  "'w executor \<Rightarrow> active_task list \<Rightarrow> run \<Rightarrow> 'w world \<Rightarrow> (bool \<times> run \<times> 'w world) option" where
  "recover_all x [] run w = Some (False, run, w)"
| "recover_all x (task # remaining) run w = (case recover_task x task run w of
     None \<Rightarrow> None
   | Some (Pass_Interrupted task, run, w) \<Rightarrow> Some (interrupted x task remaining run w)
   | Some (Recovery_Failed, run, w) \<Rightarrow> Some (False, fold (record_original x) remaining (run, w))
   | Some (Recovery_Done, run, w) \<Rightarrow> recover_all x remaining run w)"

text \<open>The decision for a set of requests; a \<open>Skip\<close> policy declines without asking.\<close>

definition decide ::
  "'w executor \<Rightarrow> run \<Rightarrow> recovery_request list \<Rightarrow> 'w world \<Rightarrow> (approval_decision option \<times> 'w world) option" where
  "decide x run requests w =
     (if md_recovery_policy (rn_metadata run) = Prompt
      then await_decision x (w\<lparr>wd_env := rt_approve (ex_runtime x) requests (wd_env w)\<rparr>)
      else Some (Some Declined, w))"

definition request_phase :: "recovery_request \<Rightarrow> 'w world \<Rightarrow> 'w world" where
  "request_phase r = emit (EvRecoveryPhase (rr_generation r) (rr_job r) ''approval_requested'' None)"

text \<open>What follows the decision.\<close>

definition apply_decision ::
  "'w executor \<Rightarrow> approval_decision \<Rightarrow> active_task list \<Rightarrow> run \<Rightarrow> 'w world \<Rightarrow>
   (bool \<times> run \<times> 'w world) option" where
  "apply_decision x decision pending run w =
     (let (cancelled, w) = (if decision = ApprovalCancelled then (True, w)
                            else call (rt_cancelled (ex_runtime x)) w)
      in if cancelled then Some (True, run\<lparr>rn_pending := rn_pending run @ pending\<rparr>, w)
         else if decision \<noteq> Approved then
           Some (False, fold (decline_task x
                    (decline_reason (md_recovery_policy (rn_metadata run)) decision)) pending (run, w))
         else recover_all x pending run w)"

text \<open>
  \<open>resolve_recoveries\<close>: the boolean is True when cancellation interrupted the pass and the pending
  tasks are kept.
\<close>

definition resolve_recoveries ::
  "'w executor \<Rightarrow> run \<Rightarrow> 'w world \<Rightarrow> (bool \<times> run \<times> 'w world) option" where
  "resolve_recoveries x run w =
     (let pending = sort_key at_position (rn_pending run);
          run = run\<lparr>rn_pending := []\<rparr>;
          kept = run\<lparr>rn_pending := rn_pending run @ pending\<rparr>
      in if pending = [] then Some (False, run, w)
         else
           (let (cancelled, w) = call (rt_cancelled (ex_runtime x)) w in
            if cancelled then Some (True, kept, w)
            else
              (let requests = map (recovery_request_of run) pending in
               case decide x run requests (fold request_phase requests w) of
                 None \<Rightarrow> None
               | Some (None, w) \<Rightarrow> Some (True, kept, w)
               | Some (Some decision, w) \<Rightarrow> apply_decision x decision pending run w)))"

section \<open>Advancing a run\<close>

fun fill_slots ::
  "nat \<Rightarrow> active_task list \<Rightarrow> task_plan list \<Rightarrow> active_task list \<times> task_plan list" where
  "fill_slots limit active [] = (active, [])"
| "fill_slots limit active (task # queued) =
     (if length active < limit then fill_slots limit (active @ [active_of task]) queued
      else (active, task # queued))"

definition fill_available_slots :: "run \<Rightarrow> run" where
  "fill_available_slots run =
     (let (active, queued) = fill_slots (rn_stage_limit run) (rn_active run) (rn_queued run)
      in run\<lparr>rn_active := active, rn_queued := queued\<rparr>)"

definition enter_stage :: "'w executor \<Rightarrow> run \<Rightarrow> run" where
  "enter_stage x run = (case rn_stages run of
     [] \<Rightarrow> run
   | Serial task # rest \<Rightarrow>
       run\<lparr>rn_stages := rest, rn_stage_limit := 1, rn_queued := rn_queued run @ [task]\<rparr>
   | Parallel g tasks # rest \<Rightarrow>
       (let limit = (case md_effective_concurrency (rn_metadata run) of
                       Some n \<Rightarrow> n | None \<Rightarrow> ex_concurrency_limit x)
        in run\<lparr>rn_stages := rest, rn_stage_limit := min limit (length tasks),
               rn_queued := rn_queued run @ tasks\<rparr>))"

lemma defer_or_record_active [simp]: "rn_active (fst (defer_or_record x r t w)) = rn_active r"
  using record_task_outcome_simps(1) [of x r t w]
  by (auto simp: defer_or_record_def run_shape_def simp del: record_task_outcome_simps)

text \<open>The loop over the running tasks: \<open>Some b\<close> when it ran to its end, \<^const>\<open>None\<close> after a fail-fast.\<close>

function poll_active ::
  "'w executor \<Rightarrow> nat \<Rightarrow> bool \<Rightarrow> run \<Rightarrow> 'w world \<Rightarrow> bool option \<times> run \<times> 'w world" where
  "poll_active x index task_finished run w =
     (if index < length (rn_active run) then
        (case advance_task x (ex_fail_fast x) (rn_active run ! index) (rn_results run) w of
           (TaskRunning, task, results, w) \<Rightarrow>
             (let run = run\<lparr>rn_active := (rn_active run)[index := task], rn_results := results\<rparr> in
              if at_service task
              then poll_active x index task_finished
                     (run\<lparr>rn_active := remove_at index (rn_active run),
                          rn_services := rn_services run @ [task]\<rparr>) w
              else poll_active x (Suc index) task_finished run w)
         | (TaskFinished, task, results, w) \<Rightarrow>
             (let run = run\<lparr>rn_active := remove_at index (rn_active run), rn_results := results\<rparr>;
                  (run, w) = defer_or_record x run task w
              in poll_active x index True run w)
         | (FailedFast, task, results, w) \<Rightarrow>
             (let run = run\<lparr>rn_active := remove_at index (rn_active run), rn_results := results\<rparr>;
                  (run, w) = defer_or_record x run task w
              in (None, stop_after_failure x run w)))
      else (Some task_finished, run, w))"
  by pat_completeness auto

termination
  by (relation "measure (\<lambda>(x, i, f, r, w). length (rn_active r) - i)")
    (auto simp: length_remove_at split_beta)

declare poll_active.simps [simp del]

text \<open>What the recovery pass leaves alone.\<close>

definition run_flow where
  "run_flow run = (rn_stages run, rn_queued run, rn_active run, rn_services run, rn_stage_limit run,
     rn_metadata run)"

lemma run_flow_of_shape:
  "run_shape r' = run_shape r \<Longrightarrow> rn_services r' = rn_services r \<Longrightarrow> run_flow r' = run_flow r"
  by (simp add: run_flow_def run_shape_def)

lemma run_flow_update [simp]:
  "run_flow (r\<lparr>rn_results := rs\<rparr>) = run_flow r" "run_flow (r\<lparr>rn_outcomes := ocs\<rparr>) = run_flow r"
  "run_flow (r\<lparr>rn_snapshots := sn\<rparr>) = run_flow r" "run_flow (r\<lparr>rn_pending := ts\<rparr>) = run_flow r"
  "run_flow (push_result q r) = run_flow r"
  by (simp_all add: run_flow_def push_result_def)

lemma record_task_outcome_flow [simp]: "run_flow (fst (record_task_outcome x r t w)) = run_flow r"
  by (rule run_flow_of_shape) simp_all

lemma record_task_outcome_pending [simp]: "rn_pending (fst (record_task_outcome x r t w)) = rn_pending r"
  using record_task_outcome_simps(1) [of x r t w]
  by (simp add: run_shape_def del: record_task_outcome_simps)

lemma push_result_pending [simp]: "rn_pending (push_result q r) = rn_pending r"
  by (simp add: push_result_def)

lemma record_original_flow:
  "run_flow (fst (record_original x t rw)) = run_flow (fst rw)"
  "rn_pending (fst (record_original x t rw)) = rn_pending (fst rw)"
  by (simp_all add: record_original_def split_beta)

lemma fold_fst_keeps:
  assumes "\<And>t rw. t \<in> set ts \<Longrightarrow> g (fst (f t rw)) = g (fst rw)"
  shows "g (fst (fold f ts rw)) = g (fst rw)"
  using assms by (induction ts arbitrary: rw) auto

lemma decline_task_flow:
  "run_flow (fst (decline_task x s t rw)) = run_flow (fst rw)"
  "rn_pending (fst (decline_task x s t rw)) = rn_pending (fst rw)"
  by (simp_all add: decline_task_def record_original_flow split_beta)

lemma record_task_outcome_flowD:
  "record_task_outcome x r t w = (r', w') \<Longrightarrow> run_flow r' = run_flow r \<and> rn_pending r' = rn_pending r"
  using record_task_outcome_flow [of x r t w] record_task_outcome_pending [of x r t w] by simp

lemma fold_record_original_flow:
  "fold (record_original x) ts (r, w) = (r', w') \<Longrightarrow> run_flow r' = run_flow r"
  using fold_fst_keeps [of ts run_flow "record_original x" "(r, w)"] by (simp add: record_original_flow)

lemma fold_decline_task_flow:
  "fold (decline_task x s) ts (r, w) = (r', w') \<Longrightarrow> run_flow r' = run_flow r"
  using fold_fst_keeps [of ts run_flow "decline_task x s" "(r, w)"] by (simp add: decline_task_flow)

lemma verify_task_flow:
  "verify_task x t r w = Some (e, r', w') \<Longrightarrow> run_flow r' = run_flow r \<and> rn_pending r' = rn_pending r"
  by (auto simp: verify_task_def Let_def split: option.splits prod.splits bool.splits
      dest!: record_task_outcome_flowD)

lemma recover_task_flow:
  "recover_task x t r w = Some (e, r', w') \<Longrightarrow> run_flow r' = run_flow r \<and> rn_pending r' = rn_pending r"
  by (auto simp: recover_task_def Let_def split: option.splits prod.splits bool.splits if_splits
      dest: verify_task_flow dest!: record_task_outcome_flowD)

lemma recover_all_flow:
  "recover_all x ts r w = Some (b, r', w') \<Longrightarrow> run_flow r' = run_flow r"
proof (induction ts arbitrary: r w)
  case (Cons t ts)
  then show ?case
    by (auto simp: interrupted_def split: option.splits prod.splits recovery_end.splits
        dest!: recover_task_flow fold_record_original_flow)
qed simp

lemma apply_decision_flow:
  "apply_decision x d ts r w = Some (b, r', w') \<Longrightarrow> run_flow r' = run_flow r"
  by (auto simp: apply_decision_def split: prod.splits if_splits
      dest!: recover_all_flow fold_decline_task_flow)

lemma resolve_recoveries_flow:
  "resolve_recoveries x r w = Some (b, r', w') \<Longrightarrow> run_flow r' = run_flow r"
  by (auto simp: resolve_recoveries_def Let_def split: prod.splits if_splits option.splits
      dest!: apply_decision_flow)

lemma advance_services_from_shape:
  "run_shape (fst (advance_services_from x i r w)) = run_shape r"
proof (induction x i r w rule: advance_services_from.induct)
  case (1 x i r w)
  obtain so r1 w1 where s: "advance_service x (rn_services r ! i) r w = (so, r1, w1)"
    by (metis prod_cases3)
  have "run_shape r1 = run_shape r"
    using advance_service_simps(1) [of x "rn_services r ! i" r w] s by simp
  with 1 s show ?case
    by (cases so) (simp_all add: advance_services_from.simps [of x i r w])
qed

lemma advance_services_shape [simp]: "run_shape (fst (advance_services x r w)) = run_shape r"
  by (simp add: advance_services_def advance_services_from_shape)

definition poll_rest where
  "poll_rest run = (rn_stages run, rn_queued run, rn_stage_limit run, rn_metadata run)"

lemma poll_rest_update [simp]:
  "poll_rest (r\<lparr>rn_active := as\<rparr>) = poll_rest r" "poll_rest (r\<lparr>rn_results := rs\<rparr>) = poll_rest r"
  "poll_rest (r\<lparr>rn_services := ss\<rparr>) = poll_rest r" "poll_rest (r\<lparr>rn_pending := ps\<rparr>) = poll_rest r"
  by (simp_all add: poll_rest_def)

lemma record_task_outcome_rest [simp]: "poll_rest (fst (record_task_outcome x r t w)) = poll_rest r"
  using record_task_outcome_flow [of x r t w]
  by (simp add: run_flow_def poll_rest_def del: record_task_outcome_flow)

lemma defer_or_record_rest [simp]: "poll_rest (fst (defer_or_record x r t w)) = poll_rest r"
  by (simp add: defer_or_record_def)

lemma poll_active_rest:
  assumes "poll_active x i f r w = (Some f', r', w')"
  shows "poll_rest r' = poll_rest r \<and> length (rn_active r') \<le> length (rn_active r) \<and>
    (f' \<longrightarrow> f \<or> length (rn_active r') < length (rn_active r))"
  using assms
proof (induction x i f r w rule: poll_active.induct)
  case (1 x i f r w)
  obtain s t rs v where a: "advance_task x (ex_fail_fast x) (rn_active r ! i) (rn_results r) w = (s, t, rs, v)"
    by (metis prod_cases4)
  let ?r = "r\<lparr>rn_active := (rn_active r)[i := t], rn_results := rs\<rparr>"
  let ?q = "r\<lparr>rn_active := remove_at i (rn_active r), rn_results := rs\<rparr>"
  obtain q v' where d: "defer_or_record x ?q t v = (q, v')" by (metis surj_pair)
  have q: "rn_active q = remove_at i (rn_active r)" "poll_rest q = poll_rest r"
    using defer_or_record_active [of x ?q t v] defer_or_record_rest [of x ?q t v] by (simp_all add: d)
  note step = "1.prems" [unfolded poll_active.simps [of x i f r w]]
  show ?case
  proof (cases "i < length (rn_active r)")
    case i: True
    show ?thesis
    proof (cases s)
      case TaskRunning
      with i a step show ?thesis
        using "1.IH"(1) [OF i a [symmetric] TaskRunning refl refl refl] "1.IH"(2) [OF i a [symmetric] TaskRunning refl refl refl]
        by (auto simp: length_remove_at Let_def split: if_splits)
    next
      case TaskFinished
      with i a step d have p: "poll_active x i True q v' = (Some f', r', w')" by simp
      from "1.IH"(3) [OF i a [symmetric] TaskFinished refl refl refl d [symmetric] refl p] q i
      show ?thesis by (auto simp: length_remove_at)
    next
      case FailedFast
      with i a step d show ?thesis by (simp split: prod.splits)
    qed
  next
    case False
    with step show ?thesis by simp
  qed
qed


text \<open>
  An invariant of a run and its world that every single move keeps is kept by the whole loop over
  the running tasks.
\<close>

lemma poll_active_inv:
  assumes "poll_active x i f r w = (res, r', w')" and "I r w"
    and running: "\<And>r w i t rs v. I r w \<Longrightarrow> i < length (rn_active r) \<Longrightarrow>
      advance_task x (ex_fail_fast x) (rn_active r ! i) (rn_results r) w = (TaskRunning, t, rs, v) \<Longrightarrow>
      \<not> at_service t \<Longrightarrow> I (r\<lparr>rn_active := (rn_active r)[i := t], rn_results := rs\<rparr>) v"
    and service: "\<And>r w i t rs v. I r w \<Longrightarrow> i < length (rn_active r) \<Longrightarrow>
      advance_task x (ex_fail_fast x) (rn_active r ! i) (rn_results r) w = (TaskRunning, t, rs, v) \<Longrightarrow>
      at_service t \<Longrightarrow>
      I (r\<lparr>rn_results := rs, rn_active := remove_at i (rn_active r), rn_services := rn_services r @ [t]\<rparr>) v"
    and ended: "\<And>r w i s t rs v q v'. I r w \<Longrightarrow> i < length (rn_active r) \<Longrightarrow>
      advance_task x (ex_fail_fast x) (rn_active r ! i) (rn_results r) w = (s, t, rs, v) \<Longrightarrow>
      s \<noteq> TaskRunning \<Longrightarrow>
      defer_or_record x (r\<lparr>rn_active := remove_at i (rn_active r), rn_results := rs\<rparr>) t v = (q, v') \<Longrightarrow>
      I q v'"
    and stopped: "\<And>r w q v. I r w \<Longrightarrow> stop_after_failure x r w = (q, v) \<Longrightarrow> I q v"
  shows "I r' w'"
  using assms
proof (induction x i f r w rule: poll_active.induct)
  case (1 x i f r w)
  obtain s t rs v where a: "advance_task x (ex_fail_fast x) (rn_active r ! i) (rn_results r) w = (s, t, rs, v)"
    by (metis prod_cases4)
  obtain q v' where d: "defer_or_record x (r\<lparr>rn_active := remove_at i (rn_active r), rn_results := rs\<rparr>) t v = (q, v')"
    by (metis surj_pair)
  note step = "1.prems"(1) [unfolded poll_active.simps [of x i f r w]]
  show ?case
  proof (cases "i < length (rn_active r)")
    case i: True
    have upd: "remove_at i ((rn_active r)[i := t]) = remove_at i (rn_active r)"
      by (simp add: remove_at_def)
    have q: "I q v'" if "s \<noteq> TaskRunning" using "1.prems"(5) [OF "1.prems"(2) i a that d] .
    show ?thesis
    proof (cases s)
      case TaskRunning
      show ?thesis
      proof (cases "at_service t")
        case True
        let ?q = "r\<lparr>rn_active := (rn_active r)[i := t], rn_results := rs\<rparr>"
        let ?r = "?q\<lparr>rn_active := remove_at i (rn_active ?q), rn_services := rn_services ?q @ [t]\<rparr>"
        have p: "poll_active x i f ?r v = (res, r', w')"
          using step i a TaskRunning True by (simp add: Let_def)
        have "I ?r v"
          using "1.prems"(4) [OF "1.prems"(2) i a [unfolded TaskRunning] True] by (simp add: upd)
        then show ?thesis
          by (rule "1.IH"(1) [OF i a [symmetric] TaskRunning refl refl refl True p])
            (fact "1.prems"(3), fact "1.prems"(4), fact "1.prems"(5), fact "1.prems"(6))
      next
        case False
        let ?r = "r\<lparr>rn_active := (rn_active r)[i := t], rn_results := rs\<rparr>"
        have p: "poll_active x (Suc i) f ?r v = (res, r', w')"
          using step i a TaskRunning False by (simp add: Let_def)
        have "I ?r v" by (rule "1.prems"(3) [OF "1.prems"(2) i a [unfolded TaskRunning] False])
        then show ?thesis
          by (rule "1.IH"(2) [OF i a [symmetric] TaskRunning refl refl refl False p])
            (fact "1.prems"(3), fact "1.prems"(4), fact "1.prems"(5), fact "1.prems"(6))
      qed
    next
      case TaskFinished
      with i a step d have p: "poll_active x i True q v' = (res, r', w')" by simp
      from TaskFinished q have "I q v'" by simp
      then show ?thesis
        by (rule "1.IH"(3) [OF i a [symmetric] TaskFinished refl refl refl d [symmetric] refl p])
          (fact "1.prems"(3), fact "1.prems"(4), fact "1.prems"(5), fact "1.prems"(6))
    next
      case FailedFast
      with i a step d have "stop_after_failure x q v' = (r', w')" by simp
      moreover from FailedFast q have "I q v'" by simp
      ultimately show ?thesis by (rule "1.prems"(6) [rotated])
    qed
  next
    case False
    with step "1.prems"(2) show ?thesis by simp
  qed
qed

lemma fill_slots_total:
  "fill_slots n as qs = (as', qs') \<Longrightarrow> length as' + length qs' = length as + length qs"
  by (induction n as qs rule: fill_slots.induct) (auto split: if_splits)

lemma fill_available_slots_simps [simp]:
  "rn_stages (fill_available_slots r) = rn_stages r"
  "rn_stage_limit (fill_available_slots r) = rn_stage_limit r"
  "length (rn_active (fill_available_slots r)) + length (rn_queued (fill_available_slots r)) =
     length (rn_active r) + length (rn_queued r)"
  using fill_slots_total [of "rn_stage_limit r" "rn_active r" "rn_queued r"]
  by (auto simp: fill_available_slots_def split: prod.split)

text \<open>The background services are polled when there are any.\<close>

definition poll_services :: "'w executor \<Rightarrow> run \<Rightarrow> 'w world \<Rightarrow> run \<times> 'w world" where
  "poll_services x run w = (if rn_services run \<noteq> [] then advance_services x run w else (run, w))"

lemma poll_services_shape [simp]: "run_shape (fst (poll_services x r w)) = run_shape r"
  by (simp add: poll_services_def)

definition enter_when_idle :: "'w executor \<Rightarrow> run \<Rightarrow> run" where
  "enter_when_idle x run = (if rn_active run = [] \<and> rn_queued run = [] then enter_stage x run else run)"

text \<open>
  One round of the loop of \<open>advance\<close>, entered when there is work left: \<open>Some step\<close> is a \<open>return\<close>,
  \<^const>\<open>None\<close> in the first component is a \<open>continue\<close>.
\<close>

definition after_poll ::
  "'w executor \<Rightarrow> bool \<Rightarrow> run \<Rightarrow> 'w world \<Rightarrow> (step option \<times> run \<times> 'w world) option" where
  "after_poll x task_finished run w =
     (let (run, w) = poll_services x run w in
      if rn_active run = [] \<and> rn_queued run = [] then
        (if rn_pending run \<noteq> [] then
           (case resolve_recoveries x run w of
              None \<Rightarrow> None
            | Some (cancelled, run, w) \<Rightarrow> Some (if cancelled then Some Running else None, run, w))
         else Some (if rn_services run = [] then None else Some Running, run, w))
      else if task_finished \<and> length (rn_active run) < rn_stage_limit run \<and> rn_queued run \<noteq> []
      then Some (None, run, w)
      else Some (Some Running, run, w))"

definition advance_round ::
  "'w executor \<Rightarrow> run \<Rightarrow> 'w world \<Rightarrow> (step option \<times> run \<times> 'w world) option" where
  "advance_round x run w =
     (case poll_active x 0 False (fill_available_slots (enter_when_idle x run)) w of
        (None, run, w) \<Rightarrow>
          (if rn_pending run \<noteq> [] then
             (case resolve_recoveries x run w of
                None \<Rightarrow> None
              | Some (cancelled, run, w) \<Rightarrow> Some (Some (if cancelled then Running else Finished), run, w))
           else Some (Some Finished, run, w))
      | (Some task_finished, run, w) \<Rightarrow> after_poll x task_finished run w)"

lemma advance_round_cases:
  assumes "advance_round x r w = Some (so, r', w')"
  obtains (stopped) q v where
      "poll_active x 0 False (fill_available_slots (enter_when_idle x r)) w = (None, q, v)"
      "rn_pending q = []" "so = Some Finished" "r' = q" "w' = v"
    | (recovered) q v c where
      "poll_active x 0 False (fill_available_slots (enter_when_idle x r)) w = (None, q, v)"
      "rn_pending q \<noteq> []" "resolve_recoveries x q v = Some (c, r', w')"
      "so = Some (if c then Running else Finished)"
    | (polled) q v f where
      "poll_active x 0 False (fill_available_slots (enter_when_idle x r)) w = (Some f, q, v)"
      "after_poll x f q v = Some (so, r', w')"
proof -
  obtain res q v where p: "poll_active x 0 False (fill_available_slots (enter_when_idle x r)) w = (res, q, v)"
    by (metis prod_cases3)
  show thesis
  proof (cases res)
    case None
    show thesis
    proof (cases "rn_pending q = []")
      case True
      with None assms p show thesis by (intro stopped [of q v]) (simp_all add: advance_round_def)
    next
      case False
      with None assms p obtain c where "resolve_recoveries x q v = Some (c, r', w')"
        "so = Some (if c then Running else Finished)"
        by (auto simp: advance_round_def split: option.splits)
      with None False p show thesis by (intro recovered [of q v c]) simp_all
    qed
  next
    case (Some f)
    with assms p show thesis by (intro polled) (auto simp: advance_round_def)
  qed
qed

lemma after_poll_cases:
  assumes "after_poll x f q v = Some (so, r', w')"
  obtains (recovered) q1 v1 c where "poll_services x q v = (q1, v1)"
      "rn_active q1 = []" "rn_queued q1 = []" "rn_pending q1 \<noteq> []"
      "resolve_recoveries x q1 v1 = Some (c, r', w')" "so = (if c then Some Running else None)"
    | (idle) "poll_services x q v = (r', w')" "rn_active r' = []" "rn_queued r' = []" "rn_pending r' = []"
      "so = (if rn_services r' = [] then None else Some Running)"
    | (more) "poll_services x q v = (r', w')" "f" "rn_queued r' \<noteq> []" "so = None"
    | (running) "poll_services x q v = (r', w')" "rn_active r' \<noteq> [] \<or> rn_queued r' \<noteq> []" "so = Some Running"
      "\<not> (f \<and> length (rn_active r') < rn_stage_limit r' \<and> rn_queued r' \<noteq> [])"
proof -
  obtain q1 v1 where p: "poll_services x q v = (q1, v1)" by (metis surj_pair)
  consider "rn_active q1 = []" "rn_queued q1 = []" "rn_pending q1 \<noteq> []"
    | "rn_active q1 = []" "rn_queued q1 = []" "rn_pending q1 = []"
    | "rn_active q1 \<noteq> [] \<or> rn_queued q1 \<noteq> []" by blast
  then show thesis
  proof cases
    case 1
    with assms p obtain c where "resolve_recoveries x q1 v1 = Some (c, r', w')"
      "so = (if c then Some Running else None)"
      by (auto simp: after_poll_def split: option.splits)
    with 1 p show thesis by (intro recovered [of q1 v1 c])
  next
    case 2
    with assms p show thesis by (intro idle) (auto simp: after_poll_def)
  next
    case 3
    with assms p show thesis
      by (cases "f \<and> length (rn_active q1) < rn_stage_limit q1 \<and> rn_queued q1 \<noteq> []")
        (auto simp: after_poll_def intro: more running)
  qed
qed

definition work_left :: "run \<Rightarrow> bool" where
  "work_left run \<longleftrightarrow> rn_active run \<noteq> [] \<or> rn_queued run \<noteq> [] \<or> rn_stages run \<noteq> []"

lemma enter_stage_stages:
  "rn_stages r \<noteq> [] \<Longrightarrow> rn_stages (enter_stage x r) = tl (rn_stages r)"
  by (auto simp: enter_stage_def Let_def split: list.split stage.split)

lemma after_poll_continues:
  assumes "after_poll x f r w = Some (None, r', w')"
  shows "rn_stages r' = rn_stages r \<and> rn_active r' = rn_active r \<and> rn_queued r' = rn_queued r \<and>
    (rn_active r = [] \<and> rn_queued r = [] \<or> f)"
proof -
  obtain r1 w1 where p: "poll_services x r w = (r1, w1)" by (metis surj_pair)
  have "run_shape r1 = run_shape r" using poll_services_shape [of x r w] p by simp
  then have e: "rn_stages r1 = rn_stages r" "rn_active r1 = rn_active r" "rn_queued r1 = rn_queued r"
    by (simp_all add: run_shape_def)
  from assms show ?thesis
  proof (cases rule: after_poll_cases)
    case (recovered q1 v1 c)
    with p e resolve_recoveries_flow [OF recovered(5)] show ?thesis by (simp add: run_flow_def)
  qed (use p e in auto)
qed

lemma advance_round_decreases:
  assumes "advance_round x r w = Some (None, r', w')" and "work_left r"
  shows "length (rn_stages r') < length (rn_stages r) \<or>
    rn_stages r' = rn_stages r \<and>
    length (rn_active r') + length (rn_queued r') < length (rn_active r) + length (rn_queued r)"
  using assms(1)
proof (cases rule: advance_round_cases)
  case (polled q v f)
  note c = after_poll_continues [OF polled(2)]
  note p = poll_active_rest [OF polled(1)]
  have s: "rn_stages q = rn_stages (enter_when_idle x r)"
    "rn_queued q = rn_queued (fill_available_slots (enter_when_idle x r))"
    using p by (simp_all add: poll_rest_def)
  show ?thesis
  proof (cases "rn_active r = [] \<and> rn_queued r = []")
    case True
    with assms(2) have "rn_stages r \<noteq> []" by (simp add: work_left_def)
    with s(1) c True show ?thesis by (simp add: enter_when_idle_def enter_stage_stages)
  next
    case False
    then have e: "enter_when_idle x r = r" by (auto simp: enter_when_idle_def)
    have "length (rn_active q) + length (rn_queued q) < length (rn_active r) + length (rn_queued r)"
      using c p s(2) False fill_available_slots_simps(3) [of r] unfolding e
      by (auto simp del: fill_available_slots_simps(3))
    with s(1) c e show ?thesis by auto
  qed
qed simp_all

text \<open>The loop of \<open>advance\<close>. It is left when no stage remains, or by a return of a round.\<close>

function advance_loop ::
  "'w executor \<Rightarrow> run \<Rightarrow> 'w world \<Rightarrow> (step \<times> run \<times> 'w world) option" where
  "advance_loop x run w =
     (if \<not> work_left run then
        (if rn_services run \<noteq> [] then Some (Running, advance_services x run w)
         else Some (Finished, run, w))
      else (case advance_round x run w of
              None \<Rightarrow> None
            | Some (Some step, run, w) \<Rightarrow> Some (step, run, w)
            | Some (None, run, w) \<Rightarrow> advance_loop x run w))"
  by pat_completeness auto
termination
  by (relation "inv_image (less_than <*lex*> less_than)
        (\<lambda>(x, r, w). (length (rn_stages r), length (rn_active r) + length (rn_queued r)))")
    (auto dest!: advance_round_decreases)

declare advance_loop.simps [simp del]

definition advance :: "'w executor \<Rightarrow> run \<Rightarrow> 'w world \<Rightarrow> (step \<times> run \<times> 'w world) option" where
  "advance x run w =
     (let (cancelled, w) = call (rt_cancelled (ex_runtime x)) w
      in if cancelled then Some (Running, run, w) else advance_loop x run w)"

section \<open>Finishing\<close>

text \<open>The hook process is reaped before the run finishes; its result is only reported.\<close>

partial_function (option) hook_wait :: "'w executor \<Rightarrow> nat \<Rightarrow> 'w world \<Rightarrow> 'w world option" where
  "hook_wait x child w =
     (let (waited, w) = call (rt_try_wait (ex_runtime x) child) w in
      case waited of
        Inr None \<Rightarrow> hook_wait x child (w\<lparr>wd_env := rt_sleep (ex_runtime x) (from_millis 20) (wd_env w)\<rparr>)
      | Inr (Some status) \<Rightarrow> Some w
      | Inl err \<Rightarrow> Some w)"

declare hook_wait.simps [code]

definition run_terminal_hook ::
  "'w executor \<Rightarrow> run_metadata \<Rightarrow> run_outcome \<Rightarrow> 'w world \<Rightarrow> 'w world option" where
  "run_terminal_hook x m outcome w =
     (case (if is_success outcome then hook_success (md_hooks m) else hook_failure (md_hooks m)) of
        None \<Rightarrow> Some w
      | Some command \<Rightarrow>
          (let (spawned, w) = call (rt_spawn (ex_runtime x) ''hook'' (Shell command)
                                 \<lparr>ctx_cwd = None, ctx_environment = []\<rparr> None None False) w
           in case spawned of Inl err \<Rightarrow> Some w | Inr child \<Rightarrow> hook_wait x child w))"

definition final_outcome :: "run \<Rightarrow> run_outcome" where
  "final_outcome run = map (\<lambda>(position, name, g, outcome). (name, g, outcome)) (sort_key fst (rn_outcomes run))"

definition finish :: "'w executor \<Rightarrow> run \<Rightarrow> 'w world \<Rightarrow> (completed_run \<times> 'w world) option" where
  "finish x run w =
     (let (elapsed, w) = call (rt_elapsed (ex_runtime x) (rn_started run)) w;
          outcome = final_outcome run
      in case run_terminal_hook x (rn_metadata run) outcome w of
           None \<Rightarrow> None
         | Some w \<Rightarrow>
             Some (\<lparr>cr_results = rn_results run, cr_elapsed = elapsed, cr_outcome = outcome,
                    cr_tasks = sort_key ts_position (rn_snapshots run)\<rparr>,
                   emit (EvFinished (run_id run) (rn_superseded_by run) elapsed (failures outcome)) w))"

section \<open>Cancelling\<close>

fun retire_all :: "'w executor \<Rightarrow> active_task list \<Rightarrow> run \<Rightarrow> 'w world \<Rightarrow> bool \<times> run \<times> 'w world" where
  "retire_all x [] run w = (False, run, w)"
| "retire_all x (task # tasks) run w =
     (let (e, run, w) = retire x task run w;
          (e', run, w) = retire_all x tasks run w
      in (e \<or> e', run, w))"

text \<open>A task that waits for recovery: its capture is not recorded.\<close>

fun retire_pending :: "'w executor \<Rightarrow> active_task list \<Rightarrow> run \<Rightarrow> 'w world \<Rightarrow> bool \<times> run \<times> 'w world" where
  "retire_pending x [] run w = (False, run, w)"
| "retire_pending x (task # tasks) run w =
     (let (e, task, w) = shutdown_task x task w;
          (duration_ms, w) = task_duration x task w;
          (run, w) = record_task_snapshot (at_position task) (at_name task) (at_group_occurrence task)
                       TS_Cancelled duration_ms run w;
          (e', run, w) = retire_pending x tasks run w
      in (e \<or> e', run, w))"

definition cancel ::
  "'w executor \<Rightarrow> run \<Rightarrow> nat option \<Rightarrow> 'w world \<Rightarrow> cancel_disposition \<times> run \<times> 'w world" where
  "cancel x run superseded_by w =
     (let (e1, r, w) = retire_all x (rn_active run)
            (run\<lparr>rn_superseded_by := superseded_by, rn_active := []\<rparr>) w;
          (e2, r, w) = retire_all x (rn_services run) (r\<lparr>rn_services := []\<rparr>) w;
          (e3, r, w) = retire_pending x (rn_pending run) (r\<lparr>rn_pending := []\<rparr>) w;
          (r, w) = fold skip_task (rn_queued run) (r\<lparr>rn_queued := []\<rparr>, w);
          (r, w) = fold skip_task (concat (map stage_tasks (rn_stages run))) (r\<lparr>rn_stages := []\<rparr>, w)
      in (if e1 \<or> e2 \<or> e3 then Escalated else Graceful, r,
          emit (EvCancelled (run_id r) superseded_by) w))"

section \<open>Reload support and complete runs\<close>

definition append_plan :: "run \<Rightarrow> run_plan \<Rightarrow> run" where
  "append_plan run plan = run\<lparr>rn_stages := rn_stages run @ stages plan\<rparr>"

fun reconcile_from ::
  "'w executor \<Rightarrow> string list \<Rightarrow> active_task list \<Rightarrow> run \<Rightarrow> 'w world \<Rightarrow>
   active_task list \<times> run \<times> 'w world" where
  "reconcile_from x stop_names [] run w = ([], run, w)"
| "reconcile_from x stop_names (service # rest) run w =
     (if at_name service \<in> set stop_names then
        (let (_, removed, w) = shutdown_task x service w
         in reconcile_from x stop_names rest
              (push_outcome (at_position removed) (at_name removed) (at_group_occurrence removed)
                 Cancelled run) w)
      else
        (let (kept, run, w) = reconcile_from x stop_names rest run w
         in (service # kept, run, w)))"

definition reconcile_services ::
  "'w executor \<Rightarrow> run \<Rightarrow> string list \<Rightarrow> 'w world \<Rightarrow> string list \<times> run \<times> 'w world" where
  "reconcile_services x run stop_names w =
     (let (kept, run, w) = reconcile_from x stop_names (rn_services run) run w
      in (map at_name kept, run\<lparr>rn_services := kept\<rparr>, w))"

partial_function (option) run_loop ::
  "'w executor \<Rightarrow> run \<Rightarrow> 'w world \<Rightarrow> (completed_run \<times> 'w world) option" where
  "run_loop x run w = (case advance x run w of
     None \<Rightarrow> None
   | Some (s, run, w) \<Rightarrow>
       (if s = Finished then finish x run w
        else run_loop x run (w\<lparr>wd_env := rt_sleep (ex_runtime x) POLL_INTERVAL (wd_env w)\<rparr>)))"

declare run_loop.simps [code]

definition run_to_completion ::
  "'w executor \<Rightarrow> run_metadata \<Rightarrow> run_plan \<Rightarrow> 'w world \<Rightarrow> (completed_run \<times> 'w world) option" where
  "run_to_completion x m plan w = (let (run, w) = start x m plan w in run_loop x run w)"

end
