(* ===== verification/Executor_Accounting.thy ===== *)
theory Executor_Accounting
  imports Executor "HOL-Library.Multiset"
begin

text \<open>
  Accounting of the executor: where every planned task of a run is. A task is waiting in a stage,
  queued, running, waiting for recovery, a background service, or settled by exactly one terminal
  snapshot and one terminal event. Every operation of the executor moves tasks between these
  places and loses none, whatever the runtime answers.
\<close>

section \<open>Identities\<close>

type_synonym task_key = "nat \<times> string \<times> string"

definition key_of :: "nat \<Rightarrow> string \<Rightarrow> string option \<Rightarrow> task_key" where
  "key_of position name g = (position, case g of Some i \<Rightarrow> i | None \<Rightarrow> name, name)"

definition plan_key :: "task_plan \<Rightarrow> task_key" where
  "plan_key t = key_of (tp_position t) (tp_name t) (tp_group_occurrence t)"

definition active_key :: "active_task \<Rightarrow> task_key" where
  "active_key t = key_of (at_position t) (at_name t) (at_group_occurrence t)"

definition snap_key :: "task_snapshot \<Rightarrow> task_key" where
  "snap_key t = (ts_position t, ts_id t, ts_name t)"

lemma active_key_frame: "task_frame t' = task_frame t \<Longrightarrow> active_key t' = active_key t"
  by (simp add: task_frame_def active_key_def)

lemma active_key_of [simp]: "active_key (active_of t) = plan_key t"
  by (simp add: active_key_def active_of_def plan_key_def)

definition stage_keys :: "stage list \<Rightarrow> task_key multiset" where
  "stage_keys ss = mset (map plan_key (concat (map stage_tasks ss)))"

lemma stage_keys_simps [simp]:
  "stage_keys [] = {#}" "stage_keys (s # ss) = mset (map plan_key (stage_tasks s)) + stage_keys ss"
  "stage_keys (ss @ ss') = stage_keys ss + stage_keys ss'"
  by (simp_all add: stage_keys_def)

abbreviation active_keys :: "active_task list \<Rightarrow> task_key multiset" where
  "active_keys ts \<equiv> mset (map active_key ts)"

definition open_keys :: "run \<Rightarrow> task_key multiset" where
  "open_keys r = stage_keys (rn_stages r) + mset (map plan_key (rn_queued r)) + active_keys (rn_active r)
     + active_keys (rn_pending r) + active_keys (rn_services r)"

definition settled_keys :: "run \<Rightarrow> task_key multiset" where
  "settled_keys r = mset (map snap_key (rn_snapshots r))"

section \<open>Terminal events\<close>

definition terminals :: "nat \<Rightarrow> event list \<Rightarrow> task_snapshot list" where
  "terminals g es = concat (map (\<lambda>e. case e of
     EvTaskTerminal h t \<Rightarrow> if h = g then [t] else [] | _ \<Rightarrow> []) es)"

lemma terminals_simps [simp]:
  "terminals g [] = []" "terminals g (es @ es') = terminals g es @ terminals g es'"
  "terminals g [EvTaskTerminal h t] = (if h = g then [t] else [])"
  "terminals g [EvStarted st] = []" "terminals g [EvFinished a b c d] = []"
  "terminals g [EvCancelled a b] = []" "terminals g [EvTick n i] = []"
  "terminals g [EvRecoveryPhase a n p q] = []"
  by (simp_all add: terminals_def)

text \<open>
  The account of a run: \<open>P\<close> are the tasks planned so far, every one of them is open, settled or in
  the hands \<open>K\<close> of the operation that is under way, and the terminal events emitted for the run are
  its snapshots.
\<close>

definition held :: "task_key multiset \<Rightarrow> task_key multiset \<Rightarrow> run \<Rightarrow> 'w world \<Rightarrow> bool" where
  "held K P r w \<longleftrightarrow> K + open_keys r + settled_keys r = P \<and>
     terminals (run_id r) (wd_events w) = rn_snapshots r"

definition accounted :: "task_key multiset \<Rightarrow> run \<Rightarrow> 'w world \<Rightarrow> bool" where
  "accounted P r w \<longleftrightarrow> held {#} P r w"

section \<open>Events of the parts\<close>

lemma events_call [simp]: "wd_events (snd (call f w)) = wd_events w"
  by (simp add: call_def split_beta)

lemma events_emit [simp]: "wd_events (emit e w) = wd_events w @ [e]"
  by (simp add: emit_def)

lemma events_shutdown [simp]: "wd_events (snd (snd (shutdown_task x t w))) = wd_events w"
  by (simp add: shutdown_task_def Let_def split_beta split: option.split)

lemma events_capture [simp]: "wd_events (record_capture x m t w) = wd_events w"
  by (auto simp: record_capture_def Let_def split_beta split: option.split)

lemma events_reveal [simp]: "wd_events (reveal_on_failure x t w) = wd_events w"
  by (auto simp: reveal_on_failure_def Let_def split_beta split: option.split)

lemma events_duration [simp]: "wd_events (snd (task_duration x t w)) = wd_events w"
  by (simp add: task_duration_def Let_def split_beta split: option.split)

lemma events_ensure_capture [simp]: "wd_events (snd (ensure_capture x t w)) = wd_events w"
  by (simp add: ensure_capture_def Let_def split_beta)

lemma events_mark_started [simp]: "wd_events (snd (mark_started x t w)) = wd_events w"
  by (simp add: mark_started_def Let_def split_beta)

lemma events_spawn [simp]: "wd_events (snd (spawn_command x c t w)) = wd_events w"
  by (simp add: spawn_command_def)

lemma terminals_phase [simp]: "terminals g (wd_events (phase p oc r t w)) = terminals g (wd_events w)"
  by (simp add: phase_def)

lemma terminals_tick [simp]: "terminals g (wd_events (tick t w)) = terminals g (wd_events w)"
  by (simp add: tick_def)

lemma terminals_round:
  "terminals g (wd_events (snd (snd (snd (task_round x ff t rs w))))) = terminals g (wd_events w)"
  by (simp add: task_round_def start_next_def poll_child_def service_exit_def Let_def split_beta
      split: option.split list.split sum.split)

lemma terminals_loop:
  "task_loop x ff t rs w = (s, t', rs', w') \<Longrightarrow> terminals g (wd_events w') = terminals g (wd_events w)"
proof (induction x ff t rs w rule: task_loop.induct)
  case (1 x ff t rs w)
  obtain so t1 rs1 w1 where r: "task_round x ff t rs w = (so, t1, rs1, w1)" by (metis prod_cases4)
  from terminals_round [of g x ff t rs w] r have "terminals g (wd_events w1) = terminals g (wd_events w)" by simp
  with 1 r show ?case by (cases so) (auto simp: task_loop.simps [of x ff t])
qed

lemma events_callD: "call f w = (a, w') \<Longrightarrow> wd_events w' = wd_events w"
  using events_call [of f w] by simp

lemma terminals_advance_task:
  "advance_task x ff t rs w = (s, t', rs', w') \<Longrightarrow> terminals g (wd_events w') = terminals g (wd_events w)"
  by (auto simp: advance_task_def Let_def dest!: terminals_loop [where g = g] events_callD
      split: if_splits option.splits prod.splits)

section \<open>Moves\<close>

text \<open>A move that keeps the snapshots and the run identity only has to say where the tasks are.\<close>

lemma held_move:
  assumes "held K P r w"
    and "K' + open_keys r' = K + open_keys r" and "rn_snapshots r' = rn_snapshots r"
    and "rn_metadata r' = rn_metadata r"
    and "terminals (run_id r) (wd_events w') = terminals (run_id r) (wd_events w)"
  shows "held K' P r' w'"
  using assms by (simp add: held_def settled_keys_def run_id_def)

lemma held_quiet:
  "held K P r w \<Longrightarrow> wd_events w' = wd_events w \<Longrightarrow> held K P r w'"
  by (simp add: held_def)

lemma held_phase: "held K P r w \<Longrightarrow> held K P r (phase p oc r' t w)"
  by (simp add: held_def)

lemma held_results [simp]:
  "held K P (r\<lparr>rn_results := rs\<rparr>) w = held K P r w" "held K P (r\<lparr>rn_outcomes := ocs\<rparr>) w = held K P r w"
  "held K P (push_outcome p n g oc r) w = held K P r w" "held K P (push_result q r) w = held K P r w"
  by (simp_all add: held_def open_keys_def settled_keys_def run_id_def push_outcome_def push_result_def)

lemma held_snapshot:
  assumes "held (add_mset (key_of p n g) K) P r w"
  shows "case_prod (held K P) (record_task_snapshot p n g s d r w)"
  using assms
  by (simp add: held_def record_task_snapshot_def Let_def open_keys_def settled_keys_def run_id_def
      snap_key_def key_of_def)

lemma held_record:
  assumes "held (add_mset (active_key t) K) P r w"
  shows "case_prod (held K P) (record_task_outcome x r t w)"
proof -
  let ?w = "record_capture x (rn_metadata r) t (reveal_on_failure x t w)"
  have "held (add_mset (key_of (at_position t) (at_name t) (at_group_occurrence t)) K) P r (snd (task_duration x t ?w))"
    using assms by (auto intro: held_quiet simp: active_key_def)
  from held_snapshot [OF this] show ?thesis
    by (simp add: record_task_outcome_def Let_def split_beta)
qed

lemma held_defer_or_record:
  assumes "held (add_mset (active_key t) K) P r w"
  shows "case_prod (held K P) (defer_or_record x r t w)"
proof (cases "at_failures t \<noteq> [] \<and> at_recovery_commands t \<noteq> None")
  case True
  have "held K P (r\<lparr>rn_pending := rn_pending r @ [t]\<rparr>) (phase ''original_failed'' None r t w)"
    by (rule held_move [OF held_phase [OF assms]]) (simp_all add: open_keys_def)
  with True show ?thesis by (simp add: defer_or_record_def)
next
  case False
  with held_record [OF assms] show ?thesis by (simp only: defer_or_record_def if_False)
qed

lemma active_key_shutdown [simp]: "active_key (fst (snd (shutdown_task x t w))) = active_key t"
  by (rule active_key_frame) simp

lemma held_retire:
  assumes "held (add_mset (active_key t) K) P r w" and "retire x t r w = (e, r', w')"
  shows "held K P r' w'"
proof -
  obtain e1 u v where s: "shutdown_task x t w = (e1, u, v)" by (metis prod_cases3)
  let ?w = "record_capture x (rn_metadata r) u v"
  have u: "active_key u = active_key t" and v: "wd_events v = wd_events w"
    using active_key_shutdown [of x t w] events_shutdown [of x t w] s by simp_all
  have "held (add_mset (key_of (at_position u) (at_name u) (at_group_occurrence u)) K) P r (snd (task_duration x u ?w))"
    using assms(1) u v by (auto intro: held_quiet simp: active_key_def)
  from held_snapshot [OF this, of TS_Cancelled "fst (task_duration x u ?w)"] assms(2) s show ?thesis
    by (auto simp: retire_def Let_def split: prod.splits)
qed

lemma held_skip:
  assumes "held (add_mset (plan_key t) K) P r w"
  shows "case_prod (held K P) (skip_task t (r, w))"
  using held_snapshot [of "tp_position t" "tp_name t" "tp_group_occurrence t"] assms
  by (simp add: skip_task_def plan_key_def)

lemma held_skip_with_outcome:
  assumes "held (add_mset (plan_key t) K) P r w"
  shows "case_prod (held K P) (skip_with_outcome t (r, w))"
  using held_skip [OF assms] by (simp add: skip_with_outcome_def split_beta)

lemma held_fold:
  assumes step: "\<And>t K r w. held (add_mset (k t) K) P r w \<Longrightarrow> case_prod (held K P) (f t (r, w))"
    and "held (mset (map k ts) + K) P r w"
  shows "case_prod (held K P) (fold f ts (r, w))"
  using assms(2)
proof (induction ts arbitrary: r w)
  case (Cons t ts)
  then have "case_prod (held (mset (map k ts) + K) P) (f t (r, w))" by (intro step) simp
  then show ?case using Cons.IH by (cases "f t (r, w)") simp
qed simp

lemma held_fold_skip:
  "held (mset (map plan_key ts) + K) P r w \<Longrightarrow> case_prod (held K P) (fold skip_task ts (r, w))"
  by (rule held_fold) (rule held_skip)

lemma held_fold_skip_with_outcome:
  "held (mset (map plan_key ts) + K) P r w \<Longrightarrow> case_prod (held K P) (fold skip_with_outcome ts (r, w))"
  by (rule held_fold) (rule held_skip_with_outcome)

lemma held_stop_active:
  "held (active_keys ts + K) P r w \<Longrightarrow> case_prod (held K P) (stop_active x ts r w)"
proof (induction ts arbitrary: r w)
  case (Cons t ts)
  obtain e r1 w1 where r: "retire x t r w = (e, r1, w1)" by (metis prod_cases3)
  have "held (active_keys ts + K) P r1 w1" using held_retire [OF _ r] Cons.prems by simp
  with Cons.IH r show ?case by simp
qed simp

lemma held_stop_after_failure:
  assumes "held K P r w"
  shows "case_prod (held K P) (stop_after_failure x r w)"
proof -
  have "held (active_keys (rn_active r) + K) P (r\<lparr>rn_active := []\<rparr>) w"
    by (rule held_move [OF assms]) (simp_all add: open_keys_def)
  then obtain r1 w1 where 1: "stop_active x (rn_active r) (r\<lparr>rn_active := []\<rparr>) w = (r1, w1)" "held K P r1 w1"
    using held_stop_active by (cases "stop_active x (rn_active r) (r\<lparr>rn_active := []\<rparr>) w") fastforce
  have "held (mset (map plan_key (rn_queued r1)) + K) P (r1\<lparr>rn_queued := []\<rparr>) w1"
    by (rule held_move [OF 1(2)]) (simp_all add: open_keys_def)
  from held_fold_skip_with_outcome [OF this] obtain r2 w2
    where 2: "fold skip_with_outcome (rn_queued r1) (r1\<lparr>rn_queued := []\<rparr>, w1) = (r2, w2)" "held K P r2 w2"
    by (cases "fold skip_with_outcome (rn_queued r1) (r1\<lparr>rn_queued := []\<rparr>, w1)") auto
  have "held (mset (map plan_key (concat (map stage_tasks (rn_stages r2)))) + K) P (r2\<lparr>rn_stages := []\<rparr>) w2"
    by (rule held_move [OF 2(2)]) (simp_all add: open_keys_def stage_keys_def)
  from held_fold_skip_with_outcome [OF this] 1(1) 2(1) show ?thesis
    by (simp add: stop_after_failure_def Let_def)
qed

section \<open>Services\<close>

lemma held_add: "held (K + L) (P + L) r w \<longleftrightarrow> held K P r w"
  by (auto simp: held_def)

lemma held_service_done:
  assumes "held (add_mset (active_key t) K) P r w"
  shows "case_prod (held K P) (service_done x t s oc r w)"
proof -
  have "held (add_mset (key_of (at_position t) (at_name t) (at_group_occurrence t)) K) P r (snd (task_duration x t w))"
    using assms by (auto intro: held_quiet simp: active_key_def)
  from held_snapshot [OF this] show ?thesis
    by (simp add: service_done_def Let_def split_beta)
qed

lemma active_key_update [simp]:
  "active_key (t\<lparr>at_commands := cs\<rparr>) = active_key t" "active_key (t\<lparr>at_child := c\<rparr>) = active_key t"
  "active_key (t\<lparr>at_current_command := d\<rparr>) = active_key t" "active_key (t\<lparr>at_failures := fs\<rparr>) = active_key t"
  "active_key (t\<lparr>at_restarts_left := k\<rparr>) = active_key t" "active_key (rearm cs t) = active_key t"
  "active_key (t\<lparr>at_recovery_commands := rc\<rparr>) = active_key t"
  by (simp_all add: active_key_def rearm_def)

lemma mark_started_key [simp]: "active_key (fst (mark_started x t w)) = active_key t"
  by (rule active_key_frame) simp

lemma held_service_failed:
  assumes "held (add_mset (active_key t) K) P r w" and "service_failed x t f r w = (so, r', w')"
  shows "so = None \<and> held K P r' w'"
  using held_service_done [of "t\<lparr>at_failures := at_failures t @ [f]\<rparr>" K P "r\<lparr>rn_results := rn_results r @ [Inl f]\<rparr>" w x
      TS_Failed "Failed (at_failures t @ [f])"] assms
  by (auto simp: service_failed_def Let_def)

lemma held_advance_service:
  assumes "held (add_mset (active_key t) K) P r w" and "advance_service x t r w = (so, r', w')"
  shows "case so of Some t' \<Rightarrow> active_key t' = active_key t \<and> held (add_mset (active_key t) K) P r' w'
                  | None \<Rightarrow> held K P r' w'"
proof (cases "at_child t")
  case None
  show ?thesis
  proof (cases "at_commands t")
    case Nil
    with None assms show ?thesis by (auto simp: advance_service_def)
  next
    case (Cons c cs)
    let ?t = "t\<lparr>at_commands := cs, at_current_command := Some (display c)\<rparr>"
    obtain sp v where s: "spawn_command x c ?t w = (sp, v)" by (metis surj_pair)
    then have v: "wd_events v = wd_events w" using events_spawn [of x c ?t w] by simp
    have hv: "held (add_mset (active_key ?t) K) P r v" using assms(1) v by (auto intro: held_quiet)
    show ?thesis
    proof (cases sp)
      case (Inl err)
      with None Cons s assms(2) have "service_failed x ?t (respawn_failure (at_name ?t) err) r v = (so, r', w')"
        by (simp add: advance_service_def Let_def)
      from held_service_failed [OF hv this] show ?thesis by simp
    next
      case (Inr child)
      obtain u z where m: "mark_started x (?t\<lparr>at_child := Some child\<rparr>) v = (u, z)" by (metis surj_pair)
      then have "active_key u = active_key t" "wd_events z = wd_events v"
        using mark_started_key [of x "?t\<lparr>at_child := Some child\<rparr>" v]
          events_mark_started [of x "?t\<lparr>at_child := Some child\<rparr>" v] by simp_all
      with None Cons s Inr m assms(2) hv show ?thesis
        by (auto simp: advance_service_def Let_def intro: held_quiet)
    qed
  qed
next
  case (Some c)
  obtain a v where w: "call (rt_try_wait (ex_runtime x) c) w = (a, v)" by (metis surj_pair)
  let ?t = "t\<lparr>at_child := None, at_current_command := None\<rparr>"
  have hv: "held (add_mset (active_key ?t) K) P r v" using assms(1) events_callD [OF w] by (auto intro: held_quiet)
  show ?thesis
  proof (cases a)
    case (Inl err)
    with Some w assms(2) hv show ?thesis by (auto simp: advance_service_def)
  next
    case (Inr st)
    show ?thesis
    proof (cases st)
      case None
      with Inr Some w assms(2) hv show ?thesis by (auto simp: advance_service_def)
    next
      case (Some status)
      note e = assms(2) [unfolded advance_service_def \<open>at_child t = Some c\<close> option.case w Let_def
          prod.case Inr Some sum.case]
      consider "es_success status" | "\<not> es_success status" "0 < at_restarts_left t"
        | "\<not> es_success status" "at_restarts_left t = 0" by blast
      then show ?thesis
      proof cases
        case 1
        with e show ?thesis using held_service_done [OF hv, of x TS_Passed Passed] by auto
      next
        case 2
        with e hv show ?thesis by (auto split: option.splits)
      next
        case 3
        with e have "service_failed x ?t (service_failure (at_name ?t)) r v = (so, r', w')" by simp
        from held_service_failed [OF hv this] show ?thesis by simp
      qed
    qed
  qed
qed

lemma mset_remove_at: "i < length xs \<Longrightarrow> add_mset (xs ! i) (mset (remove_at i xs)) = mset xs"
  by (metis id_take_nth_drop mset.simps(2) mset_append remove_at_def union_mset_add_mset_right)

lemma map_remove_at: "map f (remove_at i xs) = remove_at i (map f xs)"
  by (simp add: remove_at_def take_map drop_map)

lemma active_keys_remove_at:
  "i < length ts \<Longrightarrow> add_mset (active_key (ts ! i)) (active_keys (remove_at i ts)) = active_keys ts"
  using mset_remove_at [of i "map active_key ts"] by (simp add: map_remove_at)

lemma active_keys_update:
  "i < length ts \<Longrightarrow> active_key t = active_key (ts ! i) \<Longrightarrow> active_keys (ts[i := t]) = active_keys ts"
  by (metis list_update_id map_update)

lemma held_advance_services_from:
  "held K P r w \<Longrightarrow> case_prod (held K P) (advance_services_from x i r w)"
proof (induction x i r w rule: advance_services_from.induct)
  case (1 x i r w)
  show ?case
  proof (cases "i < length (rn_services r)")
    case i: True
    let ?t = "rn_services r ! i"
    obtain so q v where s: "advance_service x ?t r w = (so, q, v)" by (metis prod_cases3)
    have q: "rn_services q = rn_services r"
      using advance_service_simps(2) [of x ?t r w] s by simp
    have "held (add_mset (active_key ?t) K) (add_mset (active_key ?t) P) r w"
      using "1.prems" held_add [of K "{#active_key ?t#}" P r w] by simp
    note step = held_advance_service [OF this s]
    show ?thesis
    proof (cases so)
      case None
      with step have "held K (P + {#active_key ?t#}) q v" by simp
      then have "held (K + {#active_key ?t#}) (P + {#active_key ?t#})
          (q\<lparr>rn_services := remove_at i (rn_services q)\<rparr>) v"
        by (rule held_move) (simp_all add: open_keys_def q active_keys_remove_at [OF i, simplified])
      then have "held K P (q\<lparr>rn_services := remove_at i (rn_services q)\<rparr>) v" unfolding held_add .
      with "1.IH"(1) [OF i s [symmetric] None refl] i s None show ?thesis
        by (simp add: advance_services_from.simps [of x i r w])
    next
      case (Some t)
      with step have t: "active_key t = active_key ?t"
        and "held (K + {#active_key ?t#}) (P + {#active_key ?t#}) q v" by simp_all
      then have "held K P q v" unfolding held_add by simp
      then have "held K P (q\<lparr>rn_services := (rn_services q)[i := t]\<rparr>) v"
        by (rule held_move) (simp_all add: open_keys_def q active_keys_update [OF i t, simplified])
      with "1.IH"(2) [OF i s [symmetric] Some refl] i s Some show ?thesis
        by (simp add: advance_services_from.simps [of x i r w])
    qed
  next
    case False
    with "1.prems" show ?thesis by (simp add: advance_services_from.simps)
  qed
qed

lemma held_poll_services: "held K P r w \<Longrightarrow> case_prod (held K P) (poll_services x r w)"
  by (simp add: poll_services_def advance_services_def held_advance_services_from)


section \<open>Recovery\<close>

lemma held_record_original:
  "held (add_mset (active_key t) K) P r w \<Longrightarrow> case_prod (held K P) (record_original x t (r, w))"
  by (simp add: record_original_def held_record)

lemma held_decline:
  "held (add_mset (active_key t) K) P r w \<Longrightarrow> case_prod (held K P) (decline_task x s t (r, w))"
  by (simp add: decline_task_def held_record_original held_phase)

lemma held_fold_record_original:
  "held (active_keys ts + K) P r w \<Longrightarrow> case_prod (held K P) (fold (record_original x) ts (r, w))"
  by (rule held_fold) (rule held_record_original)

lemma held_fold_decline:
  "held (active_keys ts + K) P r w \<Longrightarrow> case_prod (held K P) (fold (decline_task x s) ts (r, w))"
  by (rule held_fold) (rule held_decline)

text \<open>The wait loops return nothing but a quiet world, by induction on their computation.\<close>

lemma await_decision_events:
  assumes "await_decision x w = Some (d, w')"
  shows "wd_events w' = wd_events w"
proof (rule await_decision.raw_induct [where P = "\<lambda>x w r. wd_events (snd r) = wd_events w" and xa = "(x, w)" and y = "(d, w')", unfolded prod.case snd_conv, OF _ assms])
  fix f :: "'a executor \<Rightarrow> 'a world \<Rightarrow> (approval_decision option \<times> 'a world) option" and x w y
  assume IH: "\<And>x w y. f x w = Some y \<Longrightarrow> wd_events (snd y) = wd_events w"
    and eq: "(let (cancelled, w) = call (rt_cancelled (ex_runtime x)) w in
      if cancelled then Some (None, w)
      else (let (received, w) = call (rt_recv (ex_runtime x)) w in
         case received of RecvDecision decision \<Rightarrow> Some (Some decision, w)
         | RecvTimeout \<Rightarrow> f x w | RecvDisconnected \<Rightarrow> Some (Some InvalidAnswer, w))) = Some y"
  then show "wd_events (snd y) = wd_events w"
    by (auto split: prod.splits if_splits approval_poll.splits dest!: events_callD IH)
qed

definition drive_ok :: "active_task \<Rightarrow> 'w world \<Rightarrow> active_task \<Rightarrow> 'w world \<Rightarrow> bool" where
  "drive_ok t w t' w' \<longleftrightarrow> task_frame t' = task_frame t \<and>
     (\<forall>g. terminals g (wd_events w') = terminals g (wd_events w))"

lemma drive_keeps:
  assumes "drive x t rs w = Some (b, t', w')"
  shows "drive_ok t w t' w'"
proof (rule drive.raw_induct [where P = "\<lambda>x t rs w r. drive_ok t w (fst (snd r)) (snd (snd r))"
      and xa = "(((x, t), rs), w)" and y = "(b, t', w')", unfolded prod.case fst_conv snd_conv, OF _ assms])
  fix f :: "'a executor \<Rightarrow> active_task \<Rightarrow> results \<Rightarrow> 'a world \<Rightarrow> (bool \<times> active_task \<times> 'a world) option"
    and x t rs w y
  assume IH: "\<And>x t rs w y. f x t rs w = Some y \<Longrightarrow> drive_ok t w (fst (snd y)) (snd (snd y))"
    and eq: "(let (step, task, results, w) = advance_task x True t rs w in
      if step = TaskRunning then
        (let (cancelled, w) = call (rt_cancelled (ex_runtime x)) w in
         if cancelled then Some (True, task, w)
         else f x task results (w\<lparr>wd_env := rt_sleep (ex_runtime x) POLL_INTERVAL (wd_env w)\<rparr>))
      else Some (False, task, w)) = Some y"
  obtain s u rs1 v where a: "advance_task x True t rs w = (s, u, rs1, v)" by (metis prod_cases4)
  have u: "task_frame u = task_frame t" "\<And>g. terminals g (wd_events v) = terminals g (wd_events w)"
    using advance_task_frame [OF a] terminals_advance_task [OF a] by simp_all
  obtain c z where c: "call (rt_cancelled (ex_runtime x)) v = (c, z)" by (metis surj_pair)
  from eq a c u events_callD [OF c] show "drive_ok t w (fst (snd y)) (snd (snd y))"
    by (auto simp: drive_ok_def split: if_splits dest!: IH)
qed

definition pass_ok ::
  "active_task \<Rightarrow> task_key multiset \<Rightarrow> task_key multiset \<Rightarrow> recovery_end \<Rightarrow> run \<Rightarrow> 'w world \<Rightarrow> bool" where
  "pass_ok t K P e r w = (case e of
     Pass_Interrupted t' \<Rightarrow> active_key t' = active_key t \<and> held (add_mset (active_key t) K) P r w
   | _ \<Rightarrow> held K P r w)"

lemma held_drive:
  assumes "held (add_mset (active_key t) K) P r w" and "drive x t rs w = Some (b, t', w')"
  shows "active_key t' = active_key t \<and> held (add_mset (active_key t') K) P r w'"
  using drive_keeps [OF assms(2)] assms(1) active_key_frame [of t' t] by (simp add: drive_ok_def held_def)

lemma record_pass_ok:
  assumes "held (add_mset (active_key t) K) P r w" and "record_task_outcome x r t w = (r', w')"
    and "e = Recovery_Done \<or> e = Recovery_Failed"
  shows "pass_ok u K P e r' w'"
  using held_record [OF assms(1), of x] assms(2,3) by (auto simp: pass_ok_def)

lemma held_verify_task:
  assumes "held (add_mset (active_key t) K) P r w" and "verify_task x t r w = Some (e, r', w')"
  shows "pass_ok t K P e r' w'"
proof -
  let ?t = "rearm (at_original_commands t) t"
  let ?w = "phase ''verification_started'' None r t w"
  obtain b u v where d: "drive x ?t [] ?w = Some (b, u, v)"
    using assms(2) by (auto simp: verify_task_def Let_def split: option.splits)
  have h: "active_key u = active_key t" "held (add_mset (active_key u) K) P r v"
    using held_drive [OF _ d, of K P r] held_phase [OF assms(1), of "''verification_started''" None r t] by auto
  show ?thesis
  proof (cases b)
    case True
    with assms(2) d h show ?thesis by (auto simp: verify_task_def pass_ok_def)
  next
    case False
    let ?r = "push_result (if at_failures u \<noteq> [] then Inl (last_failure ''Verification'' u) else Inr ()) r"
    let ?v = "phase ''verification_finished'' (Some (verdict u)) r u v"
    have "e = Recovery_Done" "record_task_outcome x ?r u ?v = (r', w')"
      using assms(2) d False by (auto simp: verify_task_def Let_def)
    moreover have "held (add_mset (active_key u) K) P ?r ?v" using held_phase [OF h(2)] by simp
    ultimately show ?thesis using record_pass_ok by blast
  qed
qed

lemma held_recover_task:
  assumes "held (add_mset (active_key t) K) P r w" and "recover_task x t r w = Some (e, r', w')"
  shows "pass_ok t K P e r' w'"
proof (cases "at_recovery_commands t")
  case None
  then show ?thesis
    using assms(2) record_pass_ok [OF held_phase [OF assms(1)]] by (auto simp: recover_task_def Let_def)
next
  case (Some cs)
  let ?t = "rearm cs (t\<lparr>at_recovery_commands := None\<rparr>)"
  let ?w = "phase ''recovery_started'' None r t (phase ''approval_decided'' (Some ''approved'') r t w)"
  obtain b u v where d: "drive x ?t [] ?w = Some (b, u, v)"
    using assms(2) Some by (auto simp: recover_task_def Let_def split: option.splits)
  let ?v = "phase ''recovery_finished'' (Some (verdict u)) r u v"
  have "held (add_mset (active_key ?t) K) P r ?w" using assms(1) by (simp add: held_phase)
  from held_drive [OF this d] have h: "active_key u = active_key t" "held (add_mset (active_key u) K) P r ?v"
    and v: "held (add_mset (active_key u) K) P r v" by (auto intro: held_phase)
  consider (stop) b | (failed) "\<not> b" "at_failures u \<noteq> []" | (verify) "\<not> b" "at_failures u = []" by blast
  then show ?thesis
  proof cases
    case stop
    with assms(2) Some d h(1) v show ?thesis
      by (auto simp: recover_task_def Let_def pass_ok_def)
  next
    case failed
    let ?u = "u\<lparr>at_failures := at_failures t @ at_failures u\<rparr>"
    let ?r = "push_result (Inl (last_failure ''Recovery'' ?u)) r"
    have "e = Recovery_Failed" "record_task_outcome x ?r ?u ?v = (r', w')"
      using assms(2) Some d failed by (auto simp: recover_task_def Let_def)
    moreover have "held (add_mset (active_key ?u) K) P ?r ?v" using h(2) by simp
    ultimately show ?thesis using record_pass_ok by blast
  next
    case verify
    then have "verify_task x u r ?v = Some (e, r', w')"
      using assms(2) Some d by (auto simp: recover_task_def Let_def)
    from held_verify_task [OF h(2) this] show ?thesis by (cases e) (simp_all add: pass_ok_def h(1))
  qed
qed

lemma held_interrupted:
  assumes "held (active_keys (t # ts) + K) P r w" and "interrupted x t ts r w = (b, r', w')"
  shows "held K P r' w'"
proof -
  obtain e u v where s: "shutdown_task x t w = (e, u, v)" by (metis prod_cases3)
  have "active_key u = active_key t" "wd_events v = wd_events w"
    using active_key_shutdown [of x t w] events_shutdown [of x t w] s by simp_all
  with assms s show ?thesis by (auto simp: interrupted_def held_def open_keys_def settled_keys_def run_id_def)
qed

lemma held_recover_all:
  assumes "recover_all x ts r w = Some (b, r', w')" and "held (active_keys ts + K) P r w"
  shows "held K P r' w'"
  using assms
proof (induction ts arbitrary: r w)
  case (Cons t ts)
  obtain e q v where s: "recover_task x t r w = Some (e, q, v)"
    using Cons.prems(1) by (auto split: option.splits)
  have p: "pass_ok t (active_keys ts + K) P e q v"
    using held_recover_task [OF _ s] Cons.prems(2) by simp
  show ?case
  proof (cases e)
    case (Pass_Interrupted u)
    then show ?thesis
      using p s Cons.prems(1) held_interrupted [of u ts K P q v x b r' w'] by (auto simp: pass_ok_def)
  next
    case Recovery_Failed
    then show ?thesis
      using p s Cons.prems(1) held_fold_record_original [of ts K P q v x] by (auto simp: pass_ok_def)
  next
    case Recovery_Done
    then show ?thesis using p s Cons by (auto simp: pass_ok_def)
  qed
qed simp

lemma held_apply_decision:
  assumes "apply_decision x d ts r w = Some (b, r', w')" and "held (active_keys ts + K) P r w"
  shows "held K P r' w'"
proof -
  obtain c v where c: "(if d = ApprovalCancelled then (True, w) else call (rt_cancelled (ex_runtime x)) w) = (c, v)"
    by (metis surj_pair)
  then have "wd_events v = wd_events w" by (auto dest: events_callD split: if_splits)
  with assms(2) have h: "held (active_keys ts + K) P r v" by (auto intro: held_quiet)
  have "held K P (r\<lparr>rn_pending := rn_pending r @ ts\<rparr>) v"
    by (rule held_move [OF h]) (simp_all add: open_keys_def)
  with assms(1) c show ?thesis
    using held_fold_decline [OF h, of x "decline_reason (md_recovery_policy (rn_metadata r)) d"]
      held_recover_all [OF _ h]
    by (auto simp: apply_decision_def split: if_splits)
qed

lemma fold_request_phase: "terminals g (wd_events (fold request_phase rs w)) = terminals g (wd_events w)"
  by (induction rs arbitrary: w) (simp_all add: request_phase_def)

lemma decide_events: "decide x r rs w = Some (d, w') \<Longrightarrow> wd_events w' = wd_events w"
  by (auto simp: decide_def dest!: await_decision_events split: if_splits)

lemma sort_key_Nil [simp]: "sort_key f xs = [] \<longleftrightarrow> xs = []"
  by (metis length_0_conv length_sort)

lemma held_resolve:
  assumes "resolve_recoveries x r w = Some (b, r', w')" and "held K P r w"
  shows "held K P r' w'"
proof (cases "rn_pending r = []")
  case True
  with assms(1) have "r' = r\<lparr>rn_pending := []\<rparr>" "w' = w" by (simp_all add: resolve_recoveries_def)
  with True assms(2) show ?thesis by (simp add: held_def open_keys_def settled_keys_def run_id_def)
next
  case False
  let ?ts = "sort_key at_position (rn_pending r)"
  let ?r = "r\<lparr>rn_pending := []\<rparr>"
  obtain c v where c: "call (rt_cancelled (ex_runtime x)) w = (c, v)" by (metis surj_pair)
  let ?v = "fold request_phase (map (recovery_request_of ?r) ?ts) v"
  have v: "held (active_keys ?ts + K) P ?r ?v" "held (active_keys ?ts + K) P ?r v"
    by (rule held_move [OF assms(2)]; simp add: open_keys_def fold_request_phase events_callD [OF c])+
  have kept: "held K P (r\<lparr>rn_pending := ?ts\<rparr>) z" if "held (active_keys ?ts + K) P ?r z" for z :: "'a world"
    by (rule held_move [OF that]) (simp_all add: open_keys_def)
  show ?thesis
  proof (cases c)
    case True
    with assms(1) False c kept [OF v(2)] show ?thesis by (auto simp: resolve_recoveries_def Let_def)
  next
    case c': False
    with assms(1) False c obtain d z where d: "decide x ?r (map (recovery_request_of ?r) ?ts) ?v = Some (d, z)"
      by (auto simp: resolve_recoveries_def Let_def split: option.splits)
    have z: "held (active_keys ?ts + K) P ?r z" using v(1) decide_events [OF d] by (auto intro: held_quiet)
    from assms(1) False c c' d show ?thesis using kept [OF z]
      by (cases d) (auto simp: resolve_recoveries_def Let_def dest: held_apply_decision [OF _ z])
  qed
qed


section \<open>Polling, advancing, cancelling\<close>

lemma held_poll_active:
  assumes "poll_active x i f r w = (res, r', w')" and "held {#} P r w"
  shows "held {#} P r' w'"
proof (rule poll_active_inv [OF assms(1), where I = "held {#} P"])
  fix r w i t rs v
  assume h: "held {#} P r w" and i: "i < length (rn_active r)"
    and a: "advance_task x (ex_fail_fast x) (rn_active r ! i) (rn_results r) w = (TaskRunning, t, rs, v)"
  note k = active_key_frame [OF advance_task_frame [OF a]]
  show "held {#} P (r\<lparr>rn_active := (rn_active r)[i := t], rn_results := rs\<rparr>) v"
    by (rule held_move [OF h])
      (simp_all add: open_keys_def active_keys_update [OF i k, simplified] terminals_advance_task [OF a])
  show "held {#} P (r\<lparr>rn_results := rs, rn_active := remove_at i (rn_active r), rn_services := rn_services r @ [t]\<rparr>) v"
    by (rule held_move [OF h])
      (simp_all add: open_keys_def k terminals_advance_task [OF a]
        active_keys_remove_at [OF i, simplified, symmetric] del: image_mset_add_mset)
next
  fix r w i s t rs v q v'
  assume h: "held {#} P r w" and i: "i < length (rn_active r)"
    and a: "advance_task x (ex_fail_fast x) (rn_active r ! i) (rn_results r) w = (s, t, rs, v)"
    and d: "defer_or_record x (r\<lparr>rn_active := remove_at i (rn_active r), rn_results := rs\<rparr>) t v = (q, v')"
  note k = active_key_frame [OF advance_task_frame [OF a]]
  have "held {#active_key t#} P (r\<lparr>rn_active := remove_at i (rn_active r), rn_results := rs\<rparr>) v"
    by (rule held_move [OF h])
      (simp_all add: open_keys_def k terminals_advance_task [OF a] active_keys_remove_at [OF i, simplified])
  from held_defer_or_record [OF this, of x] d show "held {#} P q v'" by simp
next
  fix r w q v
  assume "held {#} P r w" "stop_after_failure x r w = (q, v)"
  with held_stop_after_failure [of "{#}" P r w x] show "held {#} P q v" by simp
qed (fact assms(2))

lemma fill_slots_keys:
  "fill_slots n as qs = (as', qs') \<Longrightarrow>
     active_keys as' + mset (map plan_key qs') = active_keys as + mset (map plan_key qs)"
  by (induction n as qs rule: fill_slots.induct) (auto split: if_splits)

lemma held_fill: "held K P r w \<Longrightarrow> held K P (fill_available_slots r) w"
  using fill_slots_keys [of "rn_stage_limit r" "rn_active r" "rn_queued r"]
  by (auto simp: fill_available_slots_def held_def open_keys_def settled_keys_def run_id_def ac_simps split: prod.splits)

lemma held_enter: "held K P r w \<Longrightarrow> held K P (enter_stage x r) w"
  by (erule held_move)
    (auto simp: enter_stage_def open_keys_def Let_def ac_simps split: list.splits stage.splits)

lemma held_after_poll:
  assumes "after_poll x f q v = Some (so, r', w')" and "held {#} P q v"
  shows "held {#} P r' w'"
  using assms(1)
proof (cases rule: after_poll_cases)
  case (recovered q1 v1 c)
  with held_poll_services [OF assms(2), of x] have "held {#} P q1 v1" by simp
  with recovered(5) show ?thesis by (rule held_resolve)
qed (use held_poll_services [OF assms(2), of x] in auto)

lemma held_advance_round:
  assumes "advance_round x r w = Some (so, r', w')" and "held {#} P r w"
  shows "held {#} P r' w'"
proof -
  have h: "held {#} P (fill_available_slots (enter_when_idle x r)) w"
    using assms(2) by (simp add: enter_when_idle_def held_fill held_enter)
  from assms(1) show ?thesis
  proof (cases rule: advance_round_cases)
    case (stopped q v)
    with held_poll_active [OF stopped(1) h] show ?thesis by simp
  next
    case (recovered q v c)
    from held_resolve [OF recovered(3) held_poll_active [OF recovered(1) h]] show ?thesis .
  next
    case (polled q v f)
    from held_after_poll [OF polled(2) held_poll_active [OF polled(1) h]] show ?thesis .
  qed
qed

lemma held_advance_loop:
  "advance_loop x r w = Some (s, r', w') \<Longrightarrow> held {#} P r w \<Longrightarrow> held {#} P r' w'"
proof (induction x r w rule: advance_loop.induct)
  case (1 x r w)
  show ?case
  proof (cases "work_left r")
    case False
    with 1 held_advance_services_from [OF "1.prems"(2), of x 0] show ?thesis
      by (auto simp: advance_loop.simps [of x r w] advance_services_def split: if_splits)
  next
    case True
    with "1.prems"(1) obtain so q v where a: "advance_round x r w = Some (so, q, v)"
      by (auto simp: advance_loop.simps [of x r w] split: option.splits)
    note h = held_advance_round [OF a "1.prems"(2)]
    show ?thesis
    proof (cases so)
      case None
      with True a "1.prems"(1) have "advance_loop x q v = Some (s, r', w')"
        by (simp add: advance_loop.simps [of x r w])
      with h True a None "1.IH" show ?thesis by blast
    next
      case (Some s1)
      with True a h "1.prems"(1) show ?thesis by (simp add: advance_loop.simps [of x r w])
    qed
  qed
qed

lemma held_advance:
  assumes "advance x r w = Some (s, r', w')" and "held {#} P r w"
  shows "held {#} P r' w'"
proof -
  obtain c v where c: "call (rt_cancelled (ex_runtime x)) w = (c, v)" by (metis surj_pair)
  have h: "held {#} P r v" using assms(2) events_callD [OF c] by (rule held_quiet)
  with assms(1) c show ?thesis using held_advance_loop [OF _ h] by (auto simp: advance_def split: if_splits)
qed

lemma held_retire_all:
  "held (active_keys ts + K) P r w \<Longrightarrow> retire_all x ts r w = (e, r', w') \<Longrightarrow> held K P r' w'"
proof (induction ts arbitrary: r w e)
  case (Cons t ts)
  obtain e1 q v where r: "retire x t r w = (e1, q, v)" by (metis prod_cases3)
  have "held (active_keys ts + K) P q v" using held_retire [OF _ r] Cons.prems(1) by simp
  with Cons.IH Cons.prems(2) r show ?case by (auto split: prod.splits)
qed simp

lemma held_retire_pending:
  "held (active_keys ts + K) P r w \<Longrightarrow> retire_pending x ts r w = (e, r', w') \<Longrightarrow> held K P r' w'"
proof (induction ts arbitrary: r w e)
  case (Cons t ts)
  obtain e1 u v where s: "shutdown_task x t w = (e1, u, v)" by (metis prod_cases3)
  obtain d z where d: "task_duration x u v = (d, z)" by (metis surj_pair)
  obtain q y where q: "record_task_snapshot (at_position u) (at_name u) (at_group_occurrence u) TS_Cancelled d r z = (q, y)"
    by (metis surj_pair)
  have "active_key u = active_key t" "wd_events z = wd_events w"
    using active_key_shutdown [of x t w] events_shutdown [of x t w] events_duration [of x u v] s d by simp_all
  then have "held (add_mset (active_key u) (active_keys ts + K)) P r z"
    using Cons.prems(1) by (simp add: held_def)
  then have "held (add_mset (key_of (at_position u) (at_name u) (at_group_occurrence u)) (active_keys ts + K)) P r z"
    unfolding active_key_def [of u] .
  from held_snapshot [OF this, of TS_Cancelled d] q have "held (active_keys ts + K) P q y" by simp
  with Cons.IH Cons.prems(2) s d q show ?case by (auto split: prod.splits)
qed simp

lemma retire_shape:
  "retire x t r w = (e, r', w') \<Longrightarrow> run_shape r' = run_shape r \<and> rn_services r' = rn_services r"
  by (auto simp: retire_def Let_def run_shape_def record_task_snapshot_def split: prod.splits)

lemma retire_all_shape:
  "retire_all x ts r w = (e, r', w') \<Longrightarrow> run_shape r' = run_shape r \<and> rn_services r' = rn_services r"
  by (induction ts arbitrary: r w e) (auto split: prod.splits dest!: retire_shape)

lemma retire_pending_shape:
  "retire_pending x ts r w = (e, r', w') \<Longrightarrow> run_shape r' = run_shape r \<and> rn_services r' = rn_services r"
  by (induction ts arbitrary: r w e)
    (auto simp: run_shape_def record_task_snapshot_def Let_def split: prod.splits)

lemma skip_task_shape:
  "run_shape (fst (skip_task t rw)) = run_shape (fst rw)"
  "rn_services (fst (skip_task t rw)) = rn_services (fst rw)"
  by (simp_all add: skip_task_def split_beta)

lemma fold_skip_shape:
  "fold skip_task ts (r, w) = (r', w') \<Longrightarrow> run_shape r' = run_shape r \<and> rn_services r' = rn_services r"
  using fold_fst_keeps [of ts run_shape skip_task "(r, w)"] fold_fst_keeps [of ts rn_services skip_task "(r, w)"]
  by (simp add: skip_task_shape)

lemma held_cancel:
  assumes "cancel x r sb w = (d, r', w')" and "held {#} P r w"
  shows "held {#} P r' w' \<and> open_keys r' = {#} \<and> run_id r' = run_id r"
proof -
  let ?r0 = "r\<lparr>rn_superseded_by := sb, rn_active := []\<rparr>"
  obtain e1 r1 w1 where 1: "retire_all x (rn_active r) ?r0 w = (e1, r1, w1)" by (metis prod_cases3)
  obtain e2 r2 w2 where 2: "retire_all x (rn_services r) (r1\<lparr>rn_services := []\<rparr>) w1 = (e2, r2, w2)" by (metis prod_cases3)
  obtain e3 r3 w3 where 3: "retire_pending x (rn_pending r) (r2\<lparr>rn_pending := []\<rparr>) w2 = (e3, r3, w3)" by (metis prod_cases3)
  obtain r4 w4 where 4: "fold skip_task (rn_queued r) (r3\<lparr>rn_queued := []\<rparr>, w3) = (r4, w4)" by (metis surj_pair)
  let ?ts = "concat (map stage_tasks (rn_stages r))"
  obtain r5 w5 where 5: "fold skip_task ?ts (r4\<lparr>rn_stages := []\<rparr>, w4) = (r5, w5)" by (metis surj_pair)
  have out: "r' = r5" "w' = emit (EvCancelled (run_id r5) sb) w5"
    using assms(1) 1 2 3 4 5 by (auto simp: cancel_def)
  note shapes = retire_all_shape [OF 1] retire_all_shape [OF 2] retire_pending_shape [OF 3]
    fold_skip_shape [OF 4] fold_skip_shape [OF 5]
  have s: "rn_active r5 = [] \<and> rn_services r5 = [] \<and> rn_pending r5 = [] \<and> rn_queued r5 = [] \<and>
      rn_stages r5 = [] \<and> rn_metadata r5 = rn_metadata r"
    and m: "rn_services r1 = rn_services r" "rn_pending r2 = rn_pending r" "rn_queued r3 = rn_queued r"
      "rn_stages r4 = rn_stages r"
    using shapes by (auto simp: run_shape_def)
  have "held (active_keys (rn_active r) + {#}) P ?r0 w"
    by (rule held_move [OF assms(2)]) (simp_all add: open_keys_def)
  note h1 = held_retire_all [OF this 1]
  have "held (active_keys (rn_services r) + {#}) P (r1\<lparr>rn_services := []\<rparr>) w1"
    by (rule held_move [OF h1]) (simp_all add: open_keys_def m)
  note h2 = held_retire_all [OF this 2]
  have "held (active_keys (rn_pending r) + {#}) P (r2\<lparr>rn_pending := []\<rparr>) w2"
    by (rule held_move [OF h2]) (simp_all add: open_keys_def m)
  note h3 = held_retire_pending [OF this 3]
  have "held (mset (map plan_key (rn_queued r)) + {#}) P (r3\<lparr>rn_queued := []\<rparr>) w3"
    by (rule held_move [OF h3]) (simp_all add: open_keys_def m)
  from held_fold_skip [OF this] 4 have h4: "held {#} P r4 w4" by simp
  have "held (mset (map plan_key ?ts) + {#}) P (r4\<lparr>rn_stages := []\<rparr>) w4"
    by (rule held_move [OF h4]) (simp_all add: open_keys_def stage_keys_def m)
  from held_fold_skip [OF this] 5 have "held {#} P r5 w5" by simp
  then have "held {#} P r' w'" unfolding out by (simp add: held_def)
  with out s show ?thesis by (simp add: open_keys_def run_id_def)
qed

end
