(* ===== verification/Executor_Properties.thy ===== *)
theory Executor_Properties
  imports Executor_Accounting Watcher_State
begin

text \<open>
  What the executor guarantees over the life of a run. The life cycle of a run is an inductive
  relation: a run is started, advanced any number of times under any runtime and any concurrency
  bound up to \<open>L\<close>, and extended by the plans a reload appends. Shown over every life cycle: each
  planned task gets exactly one terminal event once the run is cancelled or finished, no more than
  the bound run at the same time, tasks that run together belong to one stage, and stages are
  entered in plan order.
\<close>

section \<open>Life cycle\<close>

text \<open>
  \<open>lifecycle L Q r w\<close>: the stages \<open>Q\<close> have been planned so far for the run \<open>r\<close>. The environment may
  change between two calls.
\<close>

inductive lifecycle :: "nat \<Rightarrow> stage list \<Rightarrow> run \<Rightarrow> 'w world \<Rightarrow> bool" for L where
  started: "start x m plan w = (r, w') \<Longrightarrow> terminals (md_run_id m) (wd_events w) = [] \<Longrightarrow>
    lifecycle L (stages plan) r w'"
| advanced: "lifecycle L Q r w \<Longrightarrow> ex_concurrency_limit x \<le> L \<Longrightarrow> advance x r w = Some (s, r', w') \<Longrightarrow>
    lifecycle L Q r' w'"
| appended: "lifecycle L Q r w \<Longrightarrow> lifecycle L (Q @ stages plan) (append_plan r plan) w"
| elsewhere: "lifecycle L Q r w \<Longrightarrow> lifecycle L Q r (w\<lparr>wd_env := e\<rparr>)"

lemma lifecycle_held: "lifecycle L Q r w \<Longrightarrow> held {#} (stage_keys Q) r w"
proof (induction rule: lifecycle.induct)
  case (started x m plan w r w')
  then show ?case
    by (auto simp: start_def Let_def held_def open_keys_def settled_keys_def run_id_def split: prod.splits
        dest!: events_callD)
next
  case (advanced Q r w x s r' w')
  then show ?case using held_advance by blast
next
  case (appended Q r w plan)
  then show ?case by (simp add: append_plan_def held_def open_keys_def settled_keys_def run_id_def ac_simps)
next
  case (elsewhere Q r w e)
  then show ?case by (simp add: held_def)
qed

text \<open>The bound of a stage.\<close>

definition stage_bound :: "nat \<Rightarrow> run \<Rightarrow> nat" where
  "stage_bound L r = max 1 (case md_effective_concurrency (rn_metadata r) of Some n \<Rightarrow> n | None \<Rightarrow> L)"

definition within_limit :: "nat \<Rightarrow> run \<Rightarrow> bool" where
  "within_limit L r \<longleftrightarrow> length (rn_active r) \<le> rn_stage_limit r \<and> rn_stage_limit r \<le> stage_bound L r"

text \<open>
  The stage barrier: the stages not yet entered are a suffix of the plan, and the tasks that are
  queued or running belong to the stage entered last.
\<close>

definition last_keys :: "stage list \<Rightarrow> task_key multiset" where
  "last_keys entered = (if entered = [] then {#} else mset (map plan_key (stage_tasks (last entered))))"

definition stage_work :: "run \<Rightarrow> task_key multiset" where
  "stage_work r = active_keys (rn_active r) + mset (map plan_key (rn_queued r))"

definition barrier :: "stage list \<Rightarrow> run \<Rightarrow> bool" where
  "barrier Q r \<longleftrightarrow> (\<exists>entered. Q = entered @ rn_stages r \<and> stage_work r \<subseteq># last_keys entered)"

text \<open>Both are kept by what leaves the stages alone and only shrinks the work of the stage.\<close>

definition shrinks :: "run \<Rightarrow> run \<Rightarrow> bool" where
  "shrinks r r' \<longleftrightarrow> rn_stage_limit r' = rn_stage_limit r \<and> rn_metadata r' = rn_metadata r \<and>
     length (rn_active r') \<le> length (rn_active r) \<and> stage_work r' \<subseteq># stage_work r \<and>
     (rn_stages r' = rn_stages r \<or> rn_stages r' = [] \<and> stage_work r' = {#})"

lemma shrinks_refl [simp]: "shrinks r r"
  by (simp add: shrinks_def)

lemma shrinks_trans: "shrinks r r' \<Longrightarrow> shrinks r' r'' \<Longrightarrow> shrinks r r''"
  by (auto simp: shrinks_def)

lemma shrinks_shape: "run_shape r' = run_shape r \<Longrightarrow> shrinks r r'"
  by (simp add: run_shape_def shrinks_def stage_work_def)

lemma shrinks_flow: "run_flow r' = run_flow r \<Longrightarrow> shrinks r r'"
  by (simp add: run_flow_def shrinks_def stage_work_def)

lemma within_limit_shrinks: "within_limit L r \<Longrightarrow> shrinks r r' \<Longrightarrow> within_limit L r'"
  by (auto simp: within_limit_def shrinks_def stage_bound_def)

lemma barrier_shrinks:
  assumes "barrier Q r" and "shrinks r r'"
  shows "barrier Q r'"
proof -
  from assms(1) obtain entered where e: "Q = entered @ rn_stages r" "stage_work r \<subseteq># last_keys entered"
    by (auto simp: barrier_def)
  show ?thesis
  proof (cases "rn_stages r' = rn_stages r")
    case True
    with e assms(2) show ?thesis by (auto simp: barrier_def shrinks_def intro: subset_mset.order_trans)
  next
    case False
    with assms(2) show ?thesis by (auto simp: barrier_def shrinks_def)
  qed
qed

lemma stop_active_rest:
  "stop_active x ts r w = (r', w') \<Longrightarrow> run_shape r' = run_shape r"
  by (induction ts arbitrary: r w) (auto simp: Let_def split: prod.splits dest!: retire_shape)

lemma skip_with_outcome_shape: "run_shape (fst (skip_with_outcome t rw)) = run_shape (fst rw)"
  by (simp add: skip_with_outcome_def skip_task_shape split_beta)

lemma fold_skip_with_outcome_shape:
  "fold skip_with_outcome ts (r, w) = (r', w') \<Longrightarrow> run_shape r' = run_shape r"
  using fold_fst_keeps [of ts run_shape skip_with_outcome "(r, w)"] by (simp add: skip_with_outcome_shape)

lemma stop_after_failure_idle:
  assumes "stop_after_failure x r w = (r', w')"
  shows "rn_active r' = [] \<and> rn_queued r' = [] \<and> rn_stages r' = [] \<and> rn_pending r' = rn_pending r \<and>
    rn_stage_limit r' = rn_stage_limit r \<and> rn_metadata r' = rn_metadata r"
proof -
  obtain r1 w1 where 1: "stop_active x (rn_active r) (r\<lparr>rn_active := []\<rparr>) w = (r1, w1)" by (metis surj_pair)
  obtain r2 w2 where 2: "fold skip_with_outcome (rn_queued r1) (r1\<lparr>rn_queued := []\<rparr>, w1) = (r2, w2)"
    by (metis surj_pair)
  have 3: "fold skip_with_outcome (concat (map stage_tasks (rn_stages r2))) (r2\<lparr>rn_stages := []\<rparr>, w2) = (r', w')"
    using assms 1 2 by (simp add: stop_after_failure_def Let_def)
  from stop_active_rest [OF 1] fold_skip_with_outcome_shape [OF 2] fold_skip_with_outcome_shape [OF 3]
  show ?thesis by (simp add: run_shape_def)
qed

lemma remove_at_subset: "i < length ts \<Longrightarrow> active_keys (remove_at i ts) \<subseteq># active_keys ts"
  using active_keys_remove_at [of i ts] by (metis mset_subset_eq_add_right union_mset_add_mset_right add_mset_add_single union_commute)

lemma shrinks_poll_active:
  assumes "poll_active x i f r w = (res, r', w')"
  shows "shrinks r r'"
proof (rule poll_active_inv [OF assms, where I = "\<lambda>q v. shrinks r q"])
  fix q w i t rs v
  assume h: "shrinks r q" and i: "i < length (rn_active q)"
    and a: "advance_task x (ex_fail_fast x) (rn_active q ! i) (rn_results q) w = (TaskRunning, t, rs, v)"
  note k = active_key_frame [OF advance_task_frame [OF a]]
  have "shrinks q (q\<lparr>rn_active := (rn_active q)[i := t], rn_results := rs\<rparr>)"
    by (simp add: shrinks_def stage_work_def active_keys_update [OF i k, simplified])
  then show "shrinks r (q\<lparr>rn_active := (rn_active q)[i := t], rn_results := rs\<rparr>)"
    by (rule shrinks_trans [OF h])
  have "shrinks q (q\<lparr>rn_results := rs, rn_active := remove_at i (rn_active q), rn_services := rn_services q @ [t]\<rparr>)"
    using remove_at_subset [OF i] by (simp add: shrinks_def stage_work_def length_remove_at [OF i])
  then show "shrinks r (q\<lparr>rn_results := rs, rn_active := remove_at i (rn_active q), rn_services := rn_services q @ [t]\<rparr>)"
    by (rule shrinks_trans [OF h])
next
  fix q w i s t rs v p v'
  assume h: "shrinks r q" and i: "i < length (rn_active q)"
    and d: "defer_or_record x (q\<lparr>rn_active := remove_at i (rn_active q), rn_results := rs\<rparr>) t v = (p, v')"
  let ?q = "q\<lparr>rn_active := remove_at i (rn_active q), rn_results := rs\<rparr>"
  have "rn_active p = rn_active ?q" "poll_rest p = poll_rest ?q"
    using defer_or_record_active [of x ?q t v] defer_or_record_rest [of x ?q t v] d by simp_all
  then have "shrinks q p"
    using remove_at_subset [OF i] by (simp add: shrinks_def stage_work_def poll_rest_def length_remove_at [OF i])
  then show "shrinks r p" by (rule shrinks_trans [OF h])
next
  fix q w p v
  assume "shrinks r q" "stop_after_failure x q w = (p, v)"
  moreover from this(2) have "shrinks q p"
    using stop_after_failure_idle by (fastforce simp: shrinks_def stage_work_def)
  ultimately show "shrinks r p" using shrinks_trans by blast
qed simp

lemma fill_slots_bound:
  "fill_slots n as qs = (as', qs') \<Longrightarrow> length as \<le> n \<Longrightarrow> length as' \<le> n"
  by (induction n as qs rule: fill_slots.induct) (auto split: if_splits)

lemma fill_facts:
  assumes "within_limit L r" and "barrier Q r"
  shows "within_limit L (fill_available_slots r) \<and> barrier Q (fill_available_slots r)"
proof -
  obtain as qs where f: "fill_slots (rn_stage_limit r) (rn_active r) (rn_queued r) = (as, qs)" by (metis surj_pair)
  from fill_slots_keys [OF f] fill_slots_bound [OF f] assms f show ?thesis
    by (auto simp: fill_available_slots_def within_limit_def barrier_def stage_work_def stage_bound_def)
qed

lemma enter_facts:
  assumes "rn_active r = []" "rn_queued r = []" "rn_stages r \<noteq> []" and "ex_concurrency_limit x \<le> L"
    and "barrier Q r"
  shows "within_limit L (enter_stage x r) \<and> barrier Q (enter_stage x r)"
proof -
  from assms(3) obtain S rest where s: "rn_stages r = S # rest" by (cases "rn_stages r") auto
  from assms(5) obtain entered where e: "Q = entered @ S # rest" by (auto simp: barrier_def s)
  have "rn_stages (enter_stage x r) = rest" "stage_work (enter_stage x r) = last_keys (entered @ [S])"
    using assms(1,2) by (auto simp: enter_stage_def s stage_work_def last_keys_def Let_def split: stage.splits)
  then have "barrier Q (enter_stage x r)"
    unfolding barrier_def by (intro exI [of _ "entered @ [S]"]) (simp add: e)
  moreover have "within_limit L (enter_stage x r)"
    using assms(1,4) by (auto simp: enter_stage_def s within_limit_def stage_bound_def Let_def
        split: stage.splits option.splits)
  ultimately show ?thesis by simp
qed

lemma resolve_shrinks: "resolve_recoveries x r w = Some (b, r', w') \<Longrightarrow> shrinks r r'"
  by (rule shrinks_flow) (rule resolve_recoveries_flow)

lemma after_poll_shrinks:
  assumes "after_poll x f r w = Some (so, r', w')"
  shows "shrinks r r'"
proof -
  obtain q v where p: "poll_services x r w = (q, v)" by (metis surj_pair)
  have s: "shrinks r q" using poll_services_shape [of x r w] p by (simp add: shrinks_shape)
  from assms show ?thesis
  proof (cases rule: after_poll_cases)
    case (recovered q1 v1 c)
    with p s resolve_shrinks [OF recovered(5)] show ?thesis by (auto intro: shrinks_trans)
  qed (use p s in auto)
qed

lemma advance_round_facts:
  assumes "advance_round x r w = Some (so, r', w')" and "work_left r" and "ex_concurrency_limit x \<le> L"
    and "within_limit L r" and "barrier Q r"
  shows "within_limit L r' \<and> barrier Q r'"
proof -
  let ?r = "enter_when_idle x r"
  have "within_limit L ?r \<and> barrier Q ?r"
  proof (cases "rn_active r = [] \<and> rn_queued r = []")
    case True
    with assms(2) have "rn_stages r \<noteq> []" by (simp add: work_left_def)
    with True enter_facts [OF _ _ this assms(3,5)] show ?thesis by (simp add: enter_when_idle_def)
  next
    case False
    with assms(4,5) show ?thesis by (auto simp: enter_when_idle_def)
  qed
  then have f: "within_limit L (fill_available_slots ?r)" "barrier Q (fill_available_slots ?r)"
    using fill_facts by blast+
  have "shrinks (fill_available_slots ?r) r'"
    using assms(1)
  proof (cases rule: advance_round_cases)
    case (stopped q v)
    with shrinks_poll_active show ?thesis by simp
  next
    case (recovered q v c)
    with shrinks_poll_active resolve_shrinks shrinks_trans show ?thesis by blast
  next
    case (polled q v f)
    with shrinks_poll_active after_poll_shrinks shrinks_trans show ?thesis by blast
  qed
  with f show ?thesis using within_limit_shrinks barrier_shrinks by blast
qed

lemma advance_loop_facts:
  "advance_loop x r w = Some (s, r', w') \<Longrightarrow> ex_concurrency_limit x \<le> L \<Longrightarrow> within_limit L r \<Longrightarrow> barrier Q r \<Longrightarrow>
     within_limit L r' \<and> barrier Q r'"
proof (induction x r w rule: advance_loop.induct)
  case (1 x r w)
  show ?case
  proof (cases "work_left r")
    case False
    have "shrinks r r'"
      using "1.prems"(1) False shrinks_shape [OF advance_services_shape [of x r w]]
      by (auto simp: advance_loop.simps [of x r w] split: if_splits)
    with "1.prems" show ?thesis using within_limit_shrinks barrier_shrinks by blast
  next
    case True
    with "1.prems"(1) obtain so q v where a: "advance_round x r w = Some (so, q, v)"
      by (auto simp: advance_loop.simps [of x r w] split: option.splits)
    note f = advance_round_facts [OF a True "1.prems"(2-4)]
    show ?thesis
    proof (cases so)
      case None
      with True a "1.prems"(1) have "advance_loop x q v = Some (s, r', w')"
        by (simp add: advance_loop.simps [of x r w])
      with f True a None "1.IH" "1.prems"(2) show ?thesis by blast
    next
      case (Some s1)
      with True a f "1.prems"(1) show ?thesis by (simp add: advance_loop.simps [of x r w])
    qed
  qed
qed

lemma lifecycle_facts: "lifecycle L Q r w \<Longrightarrow> within_limit L r \<and> barrier Q r"
proof (induction rule: lifecycle.induct)
  case (started x m plan w r w')
  then have "rn_stages r = stages plan" "rn_active r = []" "rn_queued r = []" "rn_stage_limit r = 0"
    by (auto simp: start_def Let_def split: prod.splits)
  then show ?case by (simp add: within_limit_def barrier_def stage_work_def last_keys_def)
next
  case (advanced Q r w x s r' w')
  obtain c v where c: "call (rt_cancelled (ex_runtime x)) w = (c, v)" by (metis surj_pair)
  show ?case
  proof (cases c)
    case True
    with advanced c show ?thesis by (simp add: advance_def)
  next
    case False
    with advanced c have "advance_loop x r v = Some (s, r', w')" by (simp add: advance_def)
    from advance_loop_facts [OF this advanced.hyps(2)] advanced.IH show ?thesis by blast
  qed
next
  case (appended Q r w plan)
  then show ?case
    by (auto simp: append_plan_def within_limit_def barrier_def stage_work_def stage_bound_def)
qed

section \<open>Finished runs\<close>

text \<open>
  A run whose stage is worked off has no task that waits for recovery, unless a cancellation has
  interrupted the recovery pass.
\<close>

definition recovery_settled :: "run \<Rightarrow> bool" where
  "recovery_settled r \<longleftrightarrow> (rn_active r = [] \<and> rn_queued r = [] \<longrightarrow> rn_pending r = [])"

lemma recover_all_done:
  "recover_all x ts r w = Some (False, r', w') \<Longrightarrow> rn_pending r' = rn_pending r"
proof (induction ts arbitrary: r w)
  case (Cons t ts)
  have "rn_pending q' = rn_pending q" if "fold (record_original x) ts (q, v) = (q', v')" for q v q' v'
    using fold_fst_keeps [of ts rn_pending "record_original x" "(q, v)"] that
    by (simp add: record_original_flow)
  note rest = this
  obtain e q v where r: "recover_task x t r w = Some (e, q, v)"
    using Cons.prems by (auto split: option.splits)
  note q = recover_task_flow [OF r]
  show ?case
  proof (cases e)
    case (Pass_Interrupted u)
    with Cons.prems r show ?thesis by (simp add: interrupted_def split: prod.splits)
  next
    case Recovery_Failed
    with Cons.prems r have "fold (record_original x) ts (q, v) = (r', w')" by simp
    from rest [OF this] q show ?thesis by simp
  next
    case Recovery_Done
    with Cons.prems r have "recover_all x ts q v = Some (False, r', w')" by simp
    from Cons.IH [OF this] q show ?thesis by simp
  qed
qed simp

lemma resolve_done:
  assumes "resolve_recoveries x r w = Some (False, r', w')"
  shows "rn_pending r' = []"
proof -
  have "rn_pending q' = rn_pending q" if "fold (decline_task x s) ts (q, v) = (q', v')" for s ts q v q' v'
    using fold_fst_keeps [of ts rn_pending "decline_task x s" "(q, v)"] that
    by (simp add: decline_task_flow)
  with assms show ?thesis
    by (auto simp: resolve_recoveries_def apply_decision_def Let_def split: if_splits prod.splits option.splits
        dest!: recover_all_done)
qed

lemma advance_task_failed_fast:
  "advance_task x ff t rs w = (FailedFast, t', rs', w') \<Longrightarrow> ff"
  by (auto simp: advance_task_def Let_def dest!: task_loop_step split: if_splits option.splits prod.splits)

lemma poll_active_failed_fast:
  "poll_active x i f r w = (None, r', w') \<Longrightarrow> ex_fail_fast x \<and> \<not> work_left r'"
proof (induction x i f r w rule: poll_active.induct)
  case (1 x i f r w)
  obtain s t rs v where a: "advance_task x (ex_fail_fast x) (rn_active r ! i) (rn_results r) w = (s, t, rs, v)"
    by (metis prod_cases4)
  obtain q v' where d: "defer_or_record x (r\<lparr>rn_active := remove_at i (rn_active r), rn_results := rs\<rparr>) t v = (q, v')"
    by (metis surj_pair)
  note step = "1.prems"(1) [unfolded poll_active.simps [of x i f r w]]
  show ?case
  proof (cases "i < length (rn_active r)")
    case i: True
    show ?thesis
    proof (cases s)
      case TaskRunning
      with i a step show ?thesis
        using "1.IH"(1,2) [OF i a [symmetric] TaskRunning refl refl refl] by (auto simp: Let_def split: if_splits)
    next
      case TaskFinished
      with i a step d have "poll_active x i True q v' = (None, r', w')" by simp
      from "1.IH"(3) [OF i a [symmetric] TaskFinished refl refl refl d [symmetric] refl this] show ?thesis .
    next
      case FailedFast
      with i a step d have "stop_after_failure x q v' = (r', w')" by simp
      from stop_after_failure_idle [OF this] advance_task_failed_fast [of x "ex_fail_fast x"] a FailedFast show ?thesis
        by (auto simp: work_left_def)
    qed
  next
    case False
    with step show ?thesis by simp
  qed
qed

lemma work_left_flow: "run_flow r' = run_flow r \<Longrightarrow> work_left r' = work_left r"
  by (simp add: run_flow_def work_left_def)

lemma after_poll_not_finished: "after_poll x f q v \<noteq> Some (Some Finished, r', w')"
proof
  assume "after_poll x f q v = Some (Some Finished, r', w')"
  then show False by (cases rule: after_poll_cases) (auto split: if_splits)
qed

lemma advance_round_finished:
  assumes "advance_round x r w = Some (Some Finished, r', w')"
  shows "ex_fail_fast x \<and> \<not> work_left r' \<and> rn_pending r' = []"
  using assms
proof (cases rule: advance_round_cases)
  case (stopped q v)
  with poll_active_failed_fast [OF stopped(1)] show ?thesis by simp
next
  case (recovered q v c)
  then have "\<not> c" by (auto split: if_splits)
  with recovered poll_active_failed_fast [OF recovered(1)] show ?thesis
    using resolve_done work_left_flow [OF resolve_recoveries_flow [OF recovered(3)]] by simp
next
  case (polled q v f)
  with after_poll_not_finished show ?thesis by blast
qed

lemma advance_round_continues:
  assumes "advance_round x r w = Some (None, r', w')"
  shows "recovery_settled r'"
  using assms
proof (cases rule: advance_round_cases)
  case (polled q v f)
  from polled(2) show ?thesis
  proof (cases rule: after_poll_cases)
    case (recovered q1 v1 c)
    then have "\<not> c" by (auto split: if_splits)
    with resolve_done recovered(5) show ?thesis by (auto simp: recovery_settled_def)
  qed (auto simp: recovery_settled_def)
qed simp_all

lemma advance_loop_finished:
  "advance_loop x r w = Some (Finished, r', w') \<Longrightarrow> recovery_settled r \<Longrightarrow>
     \<not> work_left r' \<and> rn_pending r' = [] \<and> (rn_services r' \<noteq> [] \<longrightarrow> ex_fail_fast x)"
proof (induction x r w rule: advance_loop.induct)
  case (1 x r w)
  show ?case
  proof (cases "work_left r")
    case False
    with "1.prems" show ?thesis
      by (auto simp: advance_loop.simps [of x r w] recovery_settled_def work_left_def split: if_splits)
  next
    case True
    with "1.prems"(1) obtain so q v where a: "advance_round x r w = Some (so, q, v)"
      by (auto simp: advance_loop.simps [of x r w] split: option.splits)
    show ?thesis
    proof (cases so)
      case None
      with True a "1.prems"(1) have "advance_loop x q v = Some (Finished, r', w')"
        by (simp add: advance_loop.simps [of x r w])
      with True a None "1.IH" advance_round_continues [OF a [unfolded None]] show ?thesis by blast
    next
      case (Some s1)
      with True a "1.prems"(1) have "so = Some Finished" "q = r'" "v = w'" by (simp_all add: advance_loop.simps [of x r w])
      with advance_round_finished [of x r w] a show ?thesis by blast
    qed
  qed
qed

section \<open>Runs that nobody cancels\<close>

text \<open>
  In a finite run no one holds the cancellation token: it reads false, and the approval adapter,
  which answers \<open>Cancelled\<close> only for a cancelled token, never gives that answer.
\<close>

definition never_cancelled :: "'w executor \<Rightarrow> bool" where
  "never_cancelled x \<longleftrightarrow> (\<forall>e. \<not> fst (rt_cancelled (ex_runtime x) e)) \<and>
     (\<forall>e. fst (rt_recv (ex_runtime x) e) \<noteq> RecvDecision ApprovalCancelled)"

lemma never_cancelled_call:
  "never_cancelled x \<Longrightarrow> call (rt_cancelled (ex_runtime x)) w = (c, w') \<Longrightarrow> \<not> c"
  by (auto simp: never_cancelled_def call_def split: prod.splits) (metis fst_conv)

lemma never_cancelled_recv:
  "never_cancelled x \<Longrightarrow> call (rt_recv (ex_runtime x)) w = (p, w') \<Longrightarrow> p \<noteq> RecvDecision ApprovalCancelled"
  by (auto simp: never_cancelled_def call_def split: prod.splits) (metis fst_conv)

lemma await_decision_answers:
  assumes "await_decision x w = Some (d, w')" and "never_cancelled x"
  shows "d \<noteq> None \<and> d \<noteq> Some ApprovalCancelled"
proof (rule mp [OF _ assms(2)], rule await_decision.raw_induct [where P = "\<lambda>x w r. never_cancelled x \<longrightarrow> fst r \<noteq> None \<and> fst r \<noteq> Some ApprovalCancelled"
      and xa = "(x, w)" and y = "(d, w')", unfolded prod.case fst_conv, OF _ assms(1)])
  fix f :: "'a executor \<Rightarrow> 'a world \<Rightarrow> (approval_decision option \<times> 'a world) option" and x w y
  assume IH: "\<And>x w y. f x w = Some y \<Longrightarrow> never_cancelled x \<longrightarrow> fst y \<noteq> None \<and> fst y \<noteq> Some ApprovalCancelled"
    and eq: "(let (cancelled, w) = call (rt_cancelled (ex_runtime x)) w in
      if cancelled then Some (None, w)
      else (let (received, w) = call (rt_recv (ex_runtime x)) w in
         case received of RecvDecision decision \<Rightarrow> Some (Some decision, w)
         | RecvTimeout \<Rightarrow> f x w | RecvDisconnected \<Rightarrow> Some (Some InvalidAnswer, w))) = Some y"
  obtain c v where c: "call (rt_cancelled (ex_runtime x)) w = (c, v)" by (metis surj_pair)
  obtain p z where p: "call (rt_recv (ex_runtime x)) v = (p, z)" by (metis surj_pair)
  show "never_cancelled x \<longrightarrow> fst y \<noteq> None \<and> fst y \<noteq> Some ApprovalCancelled"
  proof
    assume n: "never_cancelled x"
    from eq c p never_cancelled_call [OF n c] never_cancelled_recv [OF n p] IH n
    show "fst y \<noteq> None \<and> fst y \<noteq> Some ApprovalCancelled"
      by (cases p) (auto split: if_splits)
  qed
qed

lemma drive_uninterrupted:
  assumes "drive x t rs w = Some (b, t', w')" and "never_cancelled x"
  shows "\<not> b"
proof (rule mp [OF _ assms(2)], rule drive.raw_induct [where P = "\<lambda>x t rs w r. never_cancelled x \<longrightarrow> \<not> fst r"
      and xa = "(((x, t), rs), w)" and y = "(b, t', w')", unfolded prod.case fst_conv snd_conv, OF _ assms(1)])
  fix f :: "'a executor \<Rightarrow> active_task \<Rightarrow> results \<Rightarrow> 'a world \<Rightarrow> (bool \<times> active_task \<times> 'a world) option"
    and x t rs w y
  assume IH: "\<And>x t rs w y. f x t rs w = Some y \<Longrightarrow> never_cancelled x \<longrightarrow> \<not> fst y"
    and eq: "(let (step, task, results, w) = advance_task x True t rs w in
      if step = TaskRunning then
        (let (cancelled, w) = call (rt_cancelled (ex_runtime x)) w in
         if cancelled then Some (True, task, w)
         else f x task results (w\<lparr>wd_env := rt_sleep (ex_runtime x) POLL_INTERVAL (wd_env w)\<rparr>))
      else Some (False, task, w)) = Some y"
  obtain s u rs1 v where a: "advance_task x True t rs w = (s, u, rs1, v)" by (metis prod_cases4)
  obtain c z where c: "call (rt_cancelled (ex_runtime x)) v = (c, z)" by (metis surj_pair)
  show "never_cancelled x \<longrightarrow> \<not> fst y"
  proof
    assume n: "never_cancelled x"
    from eq a c never_cancelled_call [OF n c] IH n show "\<not> fst y" by (auto split: if_splits)
  qed
qed

lemma recover_task_uninterrupted:
  assumes "never_cancelled x"
  shows "recover_task x t r w \<noteq> Some (Pass_Interrupted u, r', w')"
  using assms
  by (auto simp: recover_task_def verify_task_def Let_def split: option.splits bool.splits if_splits
      dest!: drive_uninterrupted)

lemma recover_all_uninterrupted:
  "recover_all x ts r w = Some (b, r', w') \<Longrightarrow> never_cancelled x \<Longrightarrow> \<not> b"
  by (induction ts arbitrary: r w)
    (auto simp: recover_task_uninterrupted split: option.splits recovery_end.splits)

lemma apply_decision_uninterrupted:
  assumes "apply_decision x d ts r w = Some (b, r', w')" and "never_cancelled x" and "d \<noteq> ApprovalCancelled"
  shows "\<not> b"
proof -
  obtain c v where c: "call (rt_cancelled (ex_runtime x)) w = (c, v)" by (metis surj_pair)
  from assms c never_cancelled_call [OF assms(2) c] show ?thesis
    by (auto simp: apply_decision_def split: if_splits dest: recover_all_uninterrupted)
qed

lemma resolve_uninterrupted:
  assumes "resolve_recoveries x r w = Some (b, r', w')" and "never_cancelled x"
  shows "\<not> b"
proof (cases "rn_pending r = []")
  case True
  with assms(1) show ?thesis by (simp add: resolve_recoveries_def)
next
  case False
  let ?ts = "sort_key at_position (rn_pending r)"
  let ?r = "r\<lparr>rn_pending := []\<rparr>"
  obtain c v where c: "call (rt_cancelled (ex_runtime x)) w = (c, v)" by (metis surj_pair)
  let ?rs = "map (recovery_request_of ?r) ?ts"
  note nc = never_cancelled_call [OF assms(2) c]
  from assms(1) False c nc obtain d z where d: "decide x ?r ?rs (fold request_phase ?rs v) = Some (d, z)"
    by (auto simp: resolve_recoveries_def Let_def split: option.splits)
  then have "d \<noteq> None \<and> d \<noteq> Some ApprovalCancelled"
    using await_decision_answers [OF _ assms(2)] by (auto simp: decide_def split: if_splits)
  with assms(1) False c nc d show ?thesis
    by (auto simp: resolve_recoveries_def Let_def dest: apply_decision_uninterrupted [OF _ assms(2)])
qed

lemma advance_round_settled:
  assumes "advance_round x r w = Some (so, r', w')" and "never_cancelled x"
  shows "recovery_settled r'"
  using assms(1)
proof (cases rule: advance_round_cases)
  case (stopped q v)
  then show ?thesis by (simp add: recovery_settled_def)
next
  case (recovered q v c)
  with resolve_uninterrupted [OF recovered(3) assms(2)] resolve_done show ?thesis
    by (auto simp: recovery_settled_def)
next
  case (polled q v f)
  from polled(2) show ?thesis
  proof (cases rule: after_poll_cases)
    case (recovered q1 v1 c)
    with resolve_uninterrupted [OF recovered(5) assms(2)] resolve_done show ?thesis
      by (auto simp: recovery_settled_def)
  qed (auto simp: recovery_settled_def)
qed

lemma advance_loop_settled:
  "advance_loop x r v = Some (s, r', w') \<Longrightarrow> never_cancelled x \<Longrightarrow> recovery_settled r \<Longrightarrow> recovery_settled r'"
proof (induction x r v rule: advance_loop.induct)
  case (1 x r w)
  show ?case
  proof (cases "work_left r")
    case False
    then have "rn_pending r = []" using "1.prems"(3) by (simp add: recovery_settled_def work_left_def)
    with False "1.prems"(1) advance_services_shape [of x r w] show ?thesis
      by (auto simp: advance_loop.simps [of x r w] recovery_settled_def run_shape_def split: if_splits
          simp del: advance_services_shape)
  next
    case True
    with "1.prems"(1) obtain so q v where a: "advance_round x r w = Some (so, q, v)"
      by (auto simp: advance_loop.simps [of x r w] split: option.splits)
    note q = advance_round_settled [OF a "1.prems"(2)]
    show ?thesis
    proof (cases so)
      case None
      with True a "1.prems"(1) have "advance_loop x q v = Some (s, r', w')"
        by (simp add: advance_loop.simps [of x r w])
      with True a None "1.IH" "1.prems"(2) q show ?thesis by blast
    next
      case (Some s1)
      with True a q "1.prems"(1) show ?thesis by (simp add: advance_loop.simps [of x r w])
    qed
  qed
qed

lemma advance_settled:
  assumes "advance x r w = Some (s, r', w')" and "never_cancelled x" and "recovery_settled r"
  shows "recovery_settled r' \<and> (s = Finished \<longrightarrow>
    \<not> work_left r' \<and> rn_pending r' = [] \<and> (rn_services r' \<noteq> [] \<longrightarrow> ex_fail_fast x))"
proof -
  obtain c v where c: "call (rt_cancelled (ex_runtime x)) w = (c, v)" by (metis surj_pair)
  with assms(1) never_cancelled_call [OF assms(2) c] have l: "advance_loop x r v = Some (s, r', w')"
    by (simp add: advance_def)
  from advance_loop_settled [OF l assms(2,3)] advance_loop_finished l assms(3) show ?thesis by blast
qed

end
