(* ===== verification/Executor_Liveness.thy ===== *)
theory Executor_Liveness
  imports Executor_Properties
begin

text \<open>
  A finite run comes to its end. The processes of a run and its approval end after finitely many
  polls: the environment has a budget, and an answer "still running" or "no decision yet" costs at
  least one unit of it, while no call adds to it. Under a runtime with a budget that nobody
  cancels, a plan without managed services runs to completion.
\<close>

section \<open>Runtimes with a budget\<close>

definition budgeted :: "'w executor \<Rightarrow> ('w \<Rightarrow> nat) \<Rightarrow> bool" where
  "budgeted x b \<longleftrightarrow>
     (\<forall>n c t h l q e. b (snd (rt_spawn (ex_runtime x) n c t h l q e)) \<le> b e) \<and>
     (\<forall>c e. b (snd (rt_try_wait (ex_runtime x) c e)) + (if fst (rt_try_wait (ex_runtime x) c e) = Inr None then 1 else 0) \<le> b e) \<and>
     (\<forall>c e. b (snd (rt_shutdown (ex_runtime x) c e)) \<le> b e) \<and>
     (\<forall>e. b (snd (rt_now (ex_runtime x) e)) \<le> b e) \<and>
     (\<forall>s e. b (snd (rt_elapsed (ex_runtime x) s e)) \<le> b e) \<and>
     (\<forall>d e. b (rt_sleep (ex_runtime x) d e) \<le> b e) \<and>
     (\<forall>p e. b (snd (rt_is_dir (ex_runtime x) p e)) \<le> b e) \<and>
     (\<forall>e. b (snd (rt_new_capture (ex_runtime x) e)) \<le> b e) \<and>
     (\<forall>h e. b (snd (rt_finish_capture (ex_runtime x) h e)) \<le> b e) \<and>
     (\<forall>e. b (snd (rt_cancelled (ex_runtime x) e)) \<le> b e) \<and>
     (\<forall>rs e. b (rt_approve (ex_runtime x) rs e) \<le> b e) \<and>
     (\<forall>e. b (snd (rt_recv (ex_runtime x) e)) + (if fst (rt_recv (ex_runtime x) e) = RecvTimeout then 1 else 0) \<le> b e)"

definition rank :: "('w \<Rightarrow> nat) \<Rightarrow> 'w world \<Rightarrow> nat" where
  "rank b w = b (wd_env w)"

lemma rank_emit [simp]: "rank b (emit e w) = rank b w" "rank b (tick t w) = rank b w" "rank b (phase p oc r u w) = rank b w"
  by (simp_all add: rank_def emit_def tick_def phase_def)

lemma rank_update [simp]:
  "rank b (w\<lparr>wd_events := es\<rparr>) = rank b w" "rank b (w\<lparr>wd_outputs := outs\<rparr>) = rank b w"
  "rank b (w\<lparr>wd_revealed := ls\<rparr>) = rank b w" "rank b (w\<lparr>wd_env := e\<rparr>) = b e"
  by (simp_all add: rank_def)

lemma rank_call: "rank b (snd (call f w)) = b (snd (f (wd_env w)))"
  by (simp add: call_def split_beta)

lemma fst_call: "fst (call f w) = fst (f (wd_env w))"
  by (simp add: call_def split_beta)

lemma budgeted_calls:
  assumes "budgeted x b"
  shows "rank b (snd (call (rt_spawn (ex_runtime x) n c t h l q) w)) \<le> rank b w"
    and "rank b (snd (call (rt_shutdown (ex_runtime x) i) w)) \<le> rank b w"
    and "rank b (snd (call (rt_now (ex_runtime x)) w)) \<le> rank b w"
    and "rank b (snd (call (rt_elapsed (ex_runtime x) i) w)) \<le> rank b w"
    and "rank b (snd (call (rt_is_dir (ex_runtime x) p) w)) \<le> rank b w"
    and "rank b (snd (call (rt_new_capture (ex_runtime x)) w)) \<le> rank b w"
    and "rank b (snd (call (rt_finish_capture (ex_runtime x) i) w)) \<le> rank b w"
    and "rank b (snd (call (rt_cancelled (ex_runtime x)) w)) \<le> rank b w"
    and "b (rt_sleep (ex_runtime x) d (wd_env w)) \<le> rank b w"
    and "b (rt_approve (ex_runtime x) rs (wd_env w)) \<le> rank b w"
  using assms by (simp_all add: budgeted_def rank_call) (simp_all add: rank_def)

lemma budgeted_wait:
  assumes "budgeted x b" and "call (rt_try_wait (ex_runtime x) c) w = (a, v)"
  shows "rank b v + (if a = Inr None then 1 else 0) \<le> rank b w"
proof -
  have "a = fst (rt_try_wait (ex_runtime x) c (wd_env w))" "rank b v = b (snd (rt_try_wait (ex_runtime x) c (wd_env w)))"
    using assms(2) fst_call [of "rt_try_wait (ex_runtime x) c" w] rank_call [of b "rt_try_wait (ex_runtime x) c" w] by simp_all
  with assms(1) show ?thesis by (simp add: budgeted_def rank_def)
qed

lemma budgeted_recv:
  assumes "budgeted x b" and "call (rt_recv (ex_runtime x)) w = (a, v)"
  shows "rank b v + (if a = RecvTimeout then 1 else 0) \<le> rank b w"
proof -
  have "a = fst (rt_recv (ex_runtime x) (wd_env w))" "rank b v = b (snd (rt_recv (ex_runtime x) (wd_env w)))"
    using assms(2) fst_call [of "rt_recv (ex_runtime x)" w] rank_call [of b "rt_recv (ex_runtime x)" w] by simp_all
  with assms(1) show ?thesis by (simp add: budgeted_def rank_def)
qed

lemma budgeted_parts:
  assumes "budgeted x b"
  shows "rank b (snd (ensure_capture x t w)) \<le> rank b w" "rank b (snd (mark_started x t w)) \<le> rank b w"
    "rank b (snd (spawn_command x c t w)) \<le> rank b w" "rank b (record_capture x m t w) \<le> rank b w"
    "rank b (reveal_on_failure x t w) \<le> rank b w" "rank b (snd (task_duration x t w)) \<le> rank b w"
    "rank b (snd (snd (shutdown_task x t w))) \<le> rank b w"
  using budgeted_calls [OF assms]
  by (auto simp: ensure_capture_def mark_started_def spawn_command_def record_capture_def
      reveal_on_failure_def task_duration_def shutdown_task_def Let_def split_beta split: option.split)

section \<open>Work of a task\<close>

definition work :: "('w \<Rightarrow> nat) \<Rightarrow> active_task \<Rightarrow> 'w world \<Rightarrow> nat" where
  "work b t w = length (at_commands t) + rank b w"

lemma start_next_work:
  assumes "budgeted x b" and "start_next x ff t rs w = (so, t', rs', w')"
  shows "work b t' w' + (if so = Some TaskRunning then 1 else 0) \<le> work b t w \<and> rank b w' \<le> rank b w"
proof (cases "at_commands t")
  case Nil
  with assms(2) show ?thesis by (auto simp: start_next_def)
next
  case (Cons c cs)
  let ?t = "t\<lparr>at_commands := cs, at_current_command := Some (display c)\<rparr>"
  obtain u v where e: "ensure_capture x ?t w = (u, v)" by (metis surj_pair)
  obtain sp z where s: "spawn_command x c u v = (sp, z)" by (metis surj_pair)
  have u: "at_commands u = cs" using e by (auto simp: ensure_capture_def split: if_splits prod.splits)
  have "rank b v \<le> rank b w" using budgeted_parts(1) [OF assms(1), of ?t w] e by simp
  moreover have "rank b z \<le> rank b v" using budgeted_parts(3) [OF assms(1), of c u v] s by simp
  ultimately have z: "rank b z \<le> rank b w" by simp
  show ?thesis
  proof (cases sp)
    case (Inl err)
    with assms(2) Cons e s u z show ?thesis by (auto simp: start_next_def note_failure_def work_def)
  next
    case (Inr child)
    obtain u' z' where m: "mark_started x (u\<lparr>at_child := Some child, at_command_index := at_command_index u + 1\<rparr>) z = (u', z')"
      by (metis surj_pair)
    have "at_commands u' = cs" using m u by (auto simp: mark_started_def split: if_splits prod.splits)
    moreover have "rank b z' \<le> rank b z"
      using budgeted_parts(2) [OF assms(1), of "u\<lparr>at_child := Some child, at_command_index := at_command_index u + 1\<rparr>" z] m by simp
    ultimately show ?thesis using assms(2) Cons e s Inr m z by (auto simp: start_next_def work_def)
  qed
qed

lemma poll_child_work:
  assumes "budgeted x b" and "poll_child x ff c t rs w = (so, t', rs', w')" and "\<not> at_service t"
  shows "work b t' w' + (if so = Some TaskRunning then 1 else 0) \<le> work b t w \<and> rank b w' \<le> rank b w"
proof -
  obtain a v where w: "call (rt_try_wait (ex_runtime x) c) w = (a, v)" by (metis surj_pair)
  note r = budgeted_wait [OF assms(1) w]
  show ?thesis
  proof (cases a)
    case (Inl err)
    with assms(2) w r show ?thesis
      by (auto simp: poll_child_def note_failure_def work_def Let_def split: if_splits)
  next
    case (Inr st)
    with assms(2,3) w r show ?thesis
      by (cases st) (auto simp: poll_child_def note_failure_def work_def Let_def split: if_splits)
  qed
qed

lemma task_round_work:
  assumes "budgeted x b" and "task_round x ff t rs w = (so, t', rs', w')" and "\<not> at_service t"
  shows "work b t' w' + (if so = Some TaskRunning then 1 else 0) \<le> work b t w \<and> rank b w' \<le> rank b w"
proof (cases "at_child t")
  case None
  with assms(2) have "start_next x ff t rs w = (so, t', rs', w')" by (simp add: task_round_def)
  then show ?thesis by (rule start_next_work [OF assms(1)])
next
  case (Some c)
  with assms(2) have "poll_child x ff c t rs w = (so, t', rs', w')" by (simp add: task_round_def)
  then show ?thesis using assms(3) by (rule poll_child_work [OF assms(1)])
qed

lemma task_loop_work:
  "task_loop x ff t rs w = (s, t', rs', w') \<Longrightarrow> budgeted x b \<Longrightarrow> \<not> at_service t \<Longrightarrow>
     work b t' w' + (if s = TaskRunning then 1 else 0) \<le> work b t w \<and> rank b w' \<le> rank b w"
proof (induction x ff t rs w rule: task_loop.induct)
  case (1 x ff t rs w)
  obtain so t1 rs1 w1 where r: "task_round x ff t rs w = (so, t1, rs1, w1)" by (metis prod_cases4)
  note k = task_round_work [OF "1.prems"(2) r "1.prems"(3)]
  show ?case
  proof (cases so)
    case None
    with "1.prems"(1) r have l: "task_loop x ff t1 rs1 w1 = (s, t', rs', w')"
      by (simp add: task_loop.simps [of x ff t])
    have "\<not> at_service t1"
      using task_round_frame [of x ff t rs w] r "1.prems"(3) by (auto dest: task_frame_service)
    from "1.IH" [OF r [symmetric] None refl refl l "1.prems"(2) this] k None show ?thesis by simp
  next
    case (Some s1)
    with "1.prems"(1) r k show ?thesis by (simp add: task_loop.simps [of x ff t])
  qed
qed

lemma advance_task_work:
  assumes "advance_task x ff t rs w = (s, t', rs', w')" and "budgeted x b" and "\<not> at_service t"
  shows "work b t' w' + (if s = TaskRunning then 1 else 0) \<le> work b t w \<and> rank b w' \<le> rank b w"
proof (cases "at_context_validated t")
  case True
  with assms(1) have "task_loop x ff t rs w = (s, t', rs', w')" by (simp add: advance_task_def)
  then show ?thesis using assms(2,3) by (rule task_loop_work)
next
  case False
  let ?t = "t\<lparr>at_context_validated := True\<rparr>"
  have wt: "work b ?t w = work b t w" and st: "\<not> at_service ?t" using assms(3) by (simp_all add: work_def)
  show ?thesis
  proof (cases "ctx_cwd (at_context t)")
    case None
    with False assms(1) have "task_loop x ff ?t rs w = (s, t', rs', w')" by (simp add: advance_task_def)
    from task_loop_work [OF this assms(2) st] wt show ?thesis by simp
  next
    case (Some cwd)
    obtain d v where c: "call (rt_is_dir (ex_runtime x) cwd) w = (d, v)" by (metis surj_pair)
    have v: "rank b v \<le> rank b w" using budgeted_calls(5) [OF assms(2), of cwd w] c by simp
    show ?thesis
    proof (cases d)
      case True
      with False Some c assms(1) have "task_loop x ff ?t rs v = (s, t', rs', w')" by (simp add: advance_task_def)
      from task_loop_work [OF this assms(2) st] v show ?thesis by (simp add: work_def)
    next
      case d: False
      with False Some c assms(1) v show ?thesis
        by (auto simp: advance_task_def note_failure_def work_def Let_def split: if_splits)
    qed
  qed
qed

section \<open>The wait loops return\<close>

lemma drive_returns:
  assumes "budgeted x b" and "\<not> at_service t"
  shows "\<exists>c t' w'. drive x t rs w = Some (c, t', w') \<and> rank b w' \<le> rank b w"
  using assms(2)
proof (induction "work b t w" arbitrary: t rs w rule: less_induct)
  case less
  obtain s u rs1 v where a: "advance_task x True t rs w = (s, u, rs1, v)" by (metis prod_cases4)
  note k = advance_task_work [OF a assms(1) less.prems]
  have u: "\<not> at_service u" using advance_task_frame [OF a] less.prems by (auto dest: task_frame_service)
  show ?case
  proof (cases "s = TaskRunning")
    case False
    with a have "drive x t rs w = Some (False, u, v)" by (subst drive.simps) simp
    with k False show ?thesis by auto
  next
    case True
    obtain c z where c: "call (rt_cancelled (ex_runtime x)) v = (c, z)" by (metis surj_pair)
    have z: "rank b z \<le> rank b v" using budgeted_calls(8) [OF assms(1), of v] c by simp
    let ?z = "z\<lparr>wd_env := rt_sleep (ex_runtime x) POLL_INTERVAL (wd_env z)\<rparr>"
    have z': "rank b ?z \<le> rank b z" using budgeted_calls(9) [OF assms(1), of POLL_INTERVAL z] by simp
    show ?thesis
    proof (cases c)
      case c': True
      with a True c have "drive x t rs w = Some (True, u, z)" by (subst drive.simps) simp
      with k z show ?thesis by auto
    next
      case False
      with a True c have d: "drive x t rs w = drive x u rs1 ?z" by (subst drive.simps) simp
      have "work b u ?z < work b t w" using k z z' True by (simp add: work_def)
      from less.hyps [OF this u, of rs1] d k z z' show ?thesis by fastforce
    qed
  qed
qed

lemma await_decision_returns:
  assumes "budgeted x b"
  shows "\<exists>d w'. await_decision x w = Some (d, w') \<and> rank b w' \<le> rank b w"
proof (induction "rank b w" arbitrary: w rule: less_induct)
  case less
  obtain c v where c: "call (rt_cancelled (ex_runtime x)) w = (c, v)" by (metis surj_pair)
  have v: "rank b v \<le> rank b w" using budgeted_calls(8) [OF assms, of w] c by simp
  obtain p z where p: "call (rt_recv (ex_runtime x)) v = (p, z)" by (metis surj_pair)
  note z = budgeted_recv [OF assms p]
  show ?case
  proof (cases "c \<or> p \<noteq> RecvTimeout")
    case True
    with c p v z show ?thesis by (subst await_decision.simps) (cases p; auto)
  next
    case False
    then have "await_decision x w = await_decision x z" using c p by (subst await_decision.simps) simp
    moreover have "rank b z < rank b w" using False v z by simp
    ultimately show ?thesis using less [of z] by fastforce
  qed
qed

lemma hook_wait_returns:
  assumes "budgeted x b"
  shows "\<exists>w'. hook_wait x c w = Some w'"
proof (induction "rank b w" arbitrary: w rule: less_induct)
  case less
  obtain a v where a: "call (rt_try_wait (ex_runtime x) c) w = (a, v)" by (metis surj_pair)
  note v = budgeted_wait [OF assms a]
  show ?case
  proof (cases "a = Inr None")
    case False
    with a show ?thesis by (subst hook_wait.simps) (auto split: sum.splits option.splits)
  next
    case True
    let ?v = "v\<lparr>wd_env := rt_sleep (ex_runtime x) (from_millis 20) (wd_env v)\<rparr>"
    have "hook_wait x c w = hook_wait x c ?v" using a True by (subst hook_wait.simps) simp
    moreover have "rank b ?v < rank b w"
      using v True budgeted_calls(9) [OF assms, of "from_millis 20" v] by simp
    ultimately show ?thesis using less [of ?v] by simp
  qed
qed

lemma finish_returns:
  assumes "budgeted x b"
  shows "\<exists>cr w'. finish x r w = Some (cr, w')"
proof -
  have "\<exists>w'. run_terminal_hook x m oc v = Some w'" for m oc v
    using hook_wait_returns [OF assms]
    by (auto simp: run_terminal_hook_def split_beta split: option.split sum.split)
  then obtain z where "run_terminal_hook x (rn_metadata r) (final_outcome r)
      (snd (call (rt_elapsed (ex_runtime x) (rn_started r)) w)) = Some z" by blast
  then show ?thesis by (simp add: finish_def Let_def split_beta)
qed

section \<open>Recovery returns\<close>

lemma record_task_outcome_rank:
  assumes "budgeted x b"
  shows "rank b (snd (record_task_outcome x r t w)) \<le> rank b w"
proof -
  have "rank b (snd (task_duration x t (record_capture x m t (reveal_on_failure x t w)))) \<le> rank b w" for m
    using budgeted_parts(4) [OF assms, of m t "reveal_on_failure x t w"] budgeted_parts(5) [OF assms, of t w]
      budgeted_parts(6) [OF assms, of t "record_capture x m t (reveal_on_failure x t w)"] by linarith
  then show ?thesis by (simp add: record_task_outcome_def record_task_snapshot_def Let_def split_beta)
qed

lemma verify_task_returns:
  assumes "budgeted x b" and "\<not> at_service t"
  shows "\<exists>e r' w'. verify_task x t r w = Some (e, r', w') \<and> rank b w' \<le> rank b w"
proof -
  let ?t = "rearm (at_original_commands t) t"
  have t: "\<not> at_service ?t" using assms(2) by (simp add: rearm_def)
  obtain c u v where d: "drive x ?t [] (phase ''verification_started'' None r t w) = Some (c, u, v)" "rank b v \<le> rank b w"
    using drive_returns [OF assms(1) t, of "[]" "phase ''verification_started'' None r t w"] by auto
  show ?thesis
  proof (cases c)
    case True
    with d show ?thesis by (auto simp: verify_task_def Let_def)
  next
    case False
    let ?v = "phase ''verification_finished'' (Some (verdict u)) r u v"
    let ?r = "push_result (if at_failures u \<noteq> [] then Inl (last_failure ''Verification'' u) else Inr ()) r"
    have "verify_task x t r w = Some (Recovery_Done, record_task_outcome x ?r u ?v)"
      using d(1) False by (simp add: verify_task_def Let_def)
    then show ?thesis
      using record_task_outcome_rank [OF assms(1), of ?r u ?v] d(2) by (cases "record_task_outcome x ?r u ?v") auto
  qed
qed

lemma recover_task_returns:
  assumes "budgeted x b" and "\<not> at_service t"
  shows "\<exists>e r' w'. recover_task x t r w = Some (e, r', w') \<and> rank b w' \<le> rank b w"
proof (cases "at_recovery_commands t")
  case None
  let ?w = "phase ''approval_decided'' (Some ''approved'') r t w"
  from None show ?thesis using record_task_outcome_rank [OF assms(1), of r t ?w]
    by (cases "record_task_outcome x r t ?w") (auto simp: recover_task_def Let_def)
next
  case (Some cs)
  let ?t = "rearm cs (t\<lparr>at_recovery_commands := None\<rparr>)"
  let ?w = "phase ''recovery_started'' None r t (phase ''approval_decided'' (Some ''approved'') r t w)"
  have t: "\<not> at_service ?t" using assms(2) by (simp add: rearm_def)
  obtain c u v where d: "drive x ?t [] ?w = Some (c, u, v)" "rank b v \<le> rank b w"
    using drive_returns [OF assms(1) t, of "[]" ?w] by auto
  let ?v = "phase ''recovery_finished'' (Some (verdict u)) r u v"
  have u: "\<not> at_service u" using drive_keeps [OF d(1)] t by (auto simp: drive_ok_def dest: task_frame_service)
  consider c | "\<not> c" "at_failures u \<noteq> []" | "\<not> c" "at_failures u = []" by blast
  then show ?thesis
  proof cases
    case 1
    with d Some show ?thesis by (auto simp: recover_task_def Let_def)
  next
    case 2
    let ?u = "u\<lparr>at_failures := at_failures t @ at_failures u\<rparr>"
    let ?r = "push_result (Inl (last_failure ''Recovery'' ?u)) r"
    have "recover_task x t r w = Some (Recovery_Failed, record_task_outcome x ?r ?u ?v)"
      using d(1) Some 2 by (simp add: recover_task_def Let_def)
    then show ?thesis
      using record_task_outcome_rank [OF assms(1), of ?r ?u ?v] d(2) by (cases "record_task_outcome x ?r ?u ?v") auto
  next
    case 3
    with d(1) Some have "recover_task x t r w = verify_task x u r ?v" by (simp add: recover_task_def Let_def)
    with verify_task_returns [OF assms(1) u, of r ?v] d(2) show ?thesis by fastforce
  qed
qed

lemma fold_rank:
  assumes "\<And>t rw. rank b (snd (f t rw)) \<le> rank b (snd rw)"
  shows "rank b (snd (fold f ts rw)) \<le> rank b (snd rw)"
proof (induction ts arbitrary: rw)
  case (Cons t ts)
  from Cons [of "f t rw"] assms [of t rw] show ?case by simp
qed simp

lemma record_original_rank:
  "budgeted x b \<Longrightarrow> rank b (snd (record_original x t rw)) \<le> rank b (snd rw)"
  by (simp add: record_original_def split_beta record_task_outcome_rank)

lemma decline_task_rank:
  "budgeted x b \<Longrightarrow> rank b (snd (decline_task x s t rw)) \<le> rank b (snd rw)"
  using record_original_rank [of x b t "(fst rw, phase ''approval_decided'' (Some s) (fst rw) t (snd rw))"]
  by (simp add: decline_task_def split_beta)

lemma recover_all_returns:
  assumes "budgeted x b"
  shows "\<forall>t\<in>set ts. \<not> at_service t \<Longrightarrow> \<exists>c r' w'. recover_all x ts r w = Some (c, r', w') \<and> rank b w' \<le> rank b w"
proof (induction ts arbitrary: r w)
  case (Cons t ts)
  obtain e q v where r: "recover_task x t r w = Some (e, q, v)" "rank b v \<le> rank b w"
    using recover_task_returns [OF assms, of t r w] Cons.prems by auto
  show ?case
  proof (cases e)
    case (Pass_Interrupted u)
    have "rank b (snd (snd (interrupted x u ts q v))) \<le> rank b v"
      using budgeted_parts(7) [OF assms, of u v] by (simp add: interrupted_def split_beta)
    with Pass_Interrupted r show ?thesis by (cases "interrupted x u ts q v") auto
  next
    case Recovery_Failed
    with r fold_rank [of b "record_original x" ts "(q, v)"] record_original_rank [OF assms] show ?thesis
      by (cases "fold (record_original x) ts (q, v)") fastforce
  next
    case Recovery_Done
    with r Cons.IH [of q v] Cons.prems show ?thesis by fastforce
  qed
qed auto

lemma apply_decision_returns:
  assumes "budgeted x b" and "\<forall>t\<in>set ts. \<not> at_service t"
  shows "\<exists>c r' w'. apply_decision x d ts r w = Some (c, r', w') \<and> rank b w' \<le> rank b w"
proof -
  obtain c v where c: "(if d = ApprovalCancelled then (True, w) else call (rt_cancelled (ex_runtime x)) w) = (c, v)"
    by (metis surj_pair)
  have v: "rank b v \<le> rank b w"
    using c budgeted_calls(8) [OF assms(1), of w] by (auto split: if_splits)
  let ?f = "fold (decline_task x (decline_reason (md_recovery_policy (rn_metadata r)) d)) ts (r, v)"
  have f: "rank b (snd ?f) \<le> rank b v"
    using fold_rank [of b _ ts "(r, v)"] decline_task_rank [OF assms(1)] by fastforce
  show ?thesis
  proof (cases "c \<or> d \<noteq> Approved")
    case True
    with c v f show ?thesis by (cases ?f) (auto simp: apply_decision_def)
  next
    case False
    with c have "apply_decision x d ts r w = recover_all x ts r v" by (auto simp: apply_decision_def)
    with recover_all_returns [OF assms, of r v] v show ?thesis by fastforce
  qed
qed

lemma fold_request_phase_rank [simp]: "rank b (fold request_phase rs w) = rank b w"
  by (induction rs arbitrary: w) (simp_all add: request_phase_def)

lemma decide_returns:
  assumes "budgeted x b"
  shows "\<exists>d z. decide x r rs w = Some (d, z) \<and> rank b z \<le> rank b w"
proof (cases "md_recovery_policy (rn_metadata r) = Prompt")
  case True
  let ?u = "w\<lparr>wd_env := rt_approve (ex_runtime x) rs (wd_env w)\<rparr>"
  from await_decision_returns [OF assms, of ?u] obtain d z
    where "await_decision x ?u = Some (d, z)" "rank b z \<le> rank b ?u" by blast
  moreover have "rank b ?u \<le> rank b w" using budgeted_calls(10) [OF assms] by simp
  ultimately have "decide x r rs w = Some (d, z) \<and> rank b z \<le> rank b w" using True by (simp add: decide_def)
  then show ?thesis by blast
next
  case False
  then show ?thesis by (simp add: decide_def)
qed

lemma resolve_returns:
  assumes "budgeted x b" and "\<forall>t\<in>set (rn_pending r). \<not> at_service t"
  shows "\<exists>c r' w'. resolve_recoveries x r w = Some (c, r', w') \<and> rank b w' \<le> rank b w"
proof (cases "rn_pending r = []")
  case True
  then show ?thesis by (auto simp: resolve_recoveries_def)
next
  case False
  let ?ts = "sort_key at_position (rn_pending r)"
  let ?r = "r\<lparr>rn_pending := []\<rparr>"
  let ?rs = "map (recovery_request_of ?r) ?ts"
  obtain c v where c: "call (rt_cancelled (ex_runtime x)) w = (c, v)" by (metis surj_pair)
  have v: "rank b v \<le> rank b w" using c budgeted_calls(8) [OF assms(1), of w] by simp
  let ?v = "fold request_phase ?rs v"
  obtain d z where d: "decide x ?r ?rs ?v = Some (d, z)" "rank b z \<le> rank b v"
    using decide_returns [OF assms(1), of ?r ?rs ?v] by auto
  show ?thesis
  proof (cases "c \<or> d = None")
    case True
    with False c d v show ?thesis by (auto simp: resolve_recoveries_def Let_def)
  next
    case n: False
    then obtain d' where d': "d = Some d'" by auto
    with n False c d have "resolve_recoveries x r w = apply_decision x d' ?ts ?r z"
      by (simp add: resolve_recoveries_def Let_def)
    with apply_decision_returns [OF assms(1), of ?ts d' ?r z] assms(2) d(2) v show ?thesis by fastforce
  qed
qed


section \<open>The run returns\<close>

text \<open>No managed service takes part, and a stage that has tasks has a slot.\<close>

definition service_free :: "run \<Rightarrow> bool" where
  "service_free r \<longleftrightarrow> rn_services r = [] \<and> (\<forall>t\<in>set (rn_active r @ rn_pending r). \<not> at_service t) \<and>
     (\<forall>t\<in>set (rn_queued r @ concat (map stage_tasks (rn_stages r))). \<not> tp_service t) \<and>
     (rn_queued r \<noteq> [] \<longrightarrow> 0 < rn_stage_limit r) \<and> md_effective_concurrency (rn_metadata r) \<noteq> Some 0"

definition run_work :: "('w \<Rightarrow> nat) \<Rightarrow> run \<Rightarrow> 'w world \<Rightarrow> nat" where
  "run_work b r w = rank b w + sum_list (map (length \<circ> at_commands) (rn_active r))
     + sum_list (map (length \<circ> tp_commands) (rn_queued r @ concat (map stage_tasks (rn_stages r))))"

lemma sum_list_remove_at:
  fixes f :: "'a \<Rightarrow> nat"
  assumes "i < length xs"
  shows "sum_list (map f (remove_at i xs)) + f (xs ! i) = sum_list (map f xs)"
proof -
  from assms have "xs = take i xs @ xs ! i # drop (Suc i) xs" by (rule id_take_nth_drop)
  then have "sum_list (map f xs) = sum_list (map f (take i xs @ xs ! i # drop (Suc i) xs))" by simp
  then show ?thesis by (simp add: remove_at_def)
qed

lemma sum_list_update:
  fixes f :: "'a \<Rightarrow> nat"
  assumes "i < length xs"
  shows "sum_list (map f (xs[i := y])) + f (xs ! i) = sum_list (map f xs) + f y"
proof -
  have r: "remove_at i (xs[i := y]) = remove_at i xs" by (simp add: remove_at_def)
  from sum_list_remove_at [of i "xs[i := y]" f] sum_list_remove_at [OF assms, of f] assms show ?thesis by (simp add: r)
qed

lemma set_remove_at: "set (remove_at i xs) \<subseteq> set xs"
  by (auto simp: remove_at_def dest: in_set_takeD in_set_dropD)

lemma defer_or_record_pending:
  "set (rn_pending (fst (defer_or_record x r t w))) \<subseteq> insert t (set (rn_pending r)) \<and>
   rn_services (fst (defer_or_record x r t w)) = rn_services r"
  by (auto simp: defer_or_record_def)

lemma defer_or_record_rank:
  "budgeted x b \<Longrightarrow> rank b (snd (defer_or_record x r t w)) \<le> rank b w"
  using record_task_outcome_rank by (auto simp: defer_or_record_def)

lemma poll_active_finished_flag: "poll_active x i True r w = (Some f', r', w') \<Longrightarrow> f'"
proof (induction x i "True" r w rule: poll_active.induct)
  case (1 x i r w)
  note step = "1.prems" [unfolded poll_active.simps [of x i True r w]]
  obtain s t rs v where a: "advance_task x (ex_fail_fast x) (rn_active r ! i) (rn_results r) w = (s, t, rs, v)"
    by (metis prod_cases4)
  obtain q v' where d: "defer_or_record x (r\<lparr>rn_active := remove_at i (rn_active r), rn_results := rs\<rparr>) t v = (q, v')"
    by (metis surj_pair)
  show ?case
  proof (cases "i < length (rn_active r)")
    case i: True
    show ?thesis
    proof (cases s)
      case TaskRunning
      with i a step show ?thesis
        using "1.hyps"(1,2) [OF i a [symmetric] TaskRunning refl refl refl] by (auto simp: Let_def split: if_splits)
    next
      case TaskFinished
      with i a step d have "poll_active x i True q v' = (Some f', r', w')" by simp
      from "1.hyps"(3) [OF i a [symmetric] TaskFinished refl refl refl d [symmetric] refl this] show ?thesis .
    next
      case FailedFast
      with i a step d show ?thesis by simp
    qed
  next
    case False
    with step show ?thesis by simp
  qed
qed

lemma stop_active_services: "stop_active x ts r w = (r', w') \<Longrightarrow> rn_services r' = rn_services r"
  by (induction ts arbitrary: r w) (auto simp: Let_def split: prod.splits dest!: retire_shape)

lemma fold_skip_services:
  "fold skip_with_outcome ts (r, w) = (r', w') \<Longrightarrow> rn_services r' = rn_services r"
  using fold_fst_keeps [of ts rn_services skip_with_outcome "(r, w)"]
  by (simp add: skip_with_outcome_def skip_task_shape split_beta)

lemma stop_after_failure_services:
  "stop_after_failure x r w = (r', w') \<Longrightarrow> rn_services r' = rn_services r"
  by (auto simp: stop_after_failure_def Let_def split: prod.splits
      dest!: stop_active_services fold_skip_services)

lemma poll_active_work:
  "poll_active x i f r w = (res, r', w') \<Longrightarrow> budgeted x b \<Longrightarrow> service_free r \<Longrightarrow>
     (\<forall>t\<in>set (rn_pending r'). \<not> at_service t) \<and> rn_services r' = [] \<and>
     (\<forall>f'. res = Some f' \<longrightarrow> service_free r' \<and>
        run_work b r' w' + (if i < length (rn_active r') then 1 else 0) \<le> run_work b r w \<and>
        (f' \<or> length (rn_active r') = length (rn_active r)))"
proof (induction x i f r w rule: poll_active.induct)
  case (1 x i f r w)
  obtain s t rs v where a: "advance_task x (ex_fail_fast x) (rn_active r ! i) (rn_results r) w = (s, t, rs, v)"
    by (metis prod_cases4)
  let ?q = "r\<lparr>rn_active := remove_at i (rn_active r), rn_results := rs\<rparr>"
  obtain q v' where d: "defer_or_record x ?q t v = (q, v')" by (metis surj_pair)
  note step = "1.prems"(1) [unfolded poll_active.simps [of x i f r w]]
  note sf = "1.prems"(3)
  show ?case
  proof (cases "i < length (rn_active r)")
    case i: True
    have ns: "\<not> at_service (rn_active r ! i)" using sf i by (auto simp: service_free_def)
    then have t: "\<not> at_service t" using advance_task_frame [OF a] by (auto dest: task_frame_service)
    note k = advance_task_work [OF a "1.prems"(2) ns]
    have q: "rn_active q = remove_at i (rn_active r)" "poll_rest q = poll_rest r"
        "set (rn_pending q) \<subseteq> insert t (set (rn_pending r))" "rn_services q = rn_services r" "rank b v' \<le> rank b v"
      using defer_or_record_active [of x ?q t v] defer_or_record_rest [of x ?q t v]
        defer_or_record_pending [of x ?q t v] defer_or_record_rank [OF "1.prems"(2), of ?q t v]
      by (simp_all add: d)
    have sq: "service_free q" using sf q t set_remove_at [of i "rn_active r"]
      by (auto simp: service_free_def poll_rest_def)
    show ?thesis
    proof (cases s)
      case TaskRunning
      let ?r = "r\<lparr>rn_active := (rn_active r)[i := t], rn_results := rs\<rparr>"
      have p: "poll_active x (Suc i) f ?r v = (res, r', w')"
        using step i a TaskRunning t by (simp add: Let_def)
      have sr: "service_free ?r" using sf t by (auto simp: service_free_def dest!: set_update_subset_insert [THEN subsetD])
      have wr: "run_work b ?r v + 1 \<le> run_work b r w"
        using sum_list_update [OF i, of "length \<circ> at_commands" t] k TaskRunning
        by (simp add: run_work_def work_def)
      from "1.IH"(2) [OF i a [symmetric] TaskRunning refl refl refl t p "1.prems"(2) sr] wr show ?thesis by auto
    next
      case TaskFinished
      have p: "poll_active x i True q v' = (res, r', w')" using step i a d TaskFinished by simp
      have wr: "run_work b q v' \<le> run_work b r w"
        using sum_list_remove_at [OF i, of "length \<circ> at_commands"] q k
        by (simp add: run_work_def work_def poll_rest_def)
      from "1.IH"(3) [OF i a [symmetric] TaskFinished refl refl refl d [symmetric] refl p "1.prems"(2) sq] wr
      show ?thesis using p poll_active_finished_flag by fastforce
    next
      case FailedFast
      have n: "res = None" and st: "stop_after_failure x q v' = (r', w')" using step i a d FailedFast by simp_all
      with stop_after_failure_idle [OF st] stop_after_failure_services [OF st] sq show ?thesis
        by (simp add: service_free_def)
    qed
  next
    case False
    with step sf show ?thesis by (auto simp: service_free_def)
  qed
qed

lemma fill_slots_members:
  "fill_slots n as qs = (as', qs') \<Longrightarrow>
     set as' \<subseteq> set as \<union> active_of ` set qs \<and> set qs' \<subseteq> set qs \<and>
     sum_list (map (length \<circ> at_commands) as') + sum_list (map (length \<circ> tp_commands) qs') =
       sum_list (map (length \<circ> at_commands) as) + sum_list (map (length \<circ> tp_commands) qs) \<and>
     (as' = [] \<longrightarrow> qs' \<noteq> [] \<longrightarrow> n = 0)"
  by (induction n as qs rule: fill_slots.induct) (auto simp: active_of_def split: if_splits)

lemma fill_work:
  assumes "service_free r"
  shows "service_free (fill_available_slots r) \<and> run_work b (fill_available_slots r) w = run_work b r w \<and>
    (rn_active (fill_available_slots r) = [] \<longrightarrow> rn_queued (fill_available_slots r) = [])"
proof -
  obtain as qs where f: "fill_slots (rn_stage_limit r) (rn_active r) (rn_queued r) = (as, qs)" by (metis surj_pair)
  have sv: "at_service (active_of t) = tp_service t" for t by (simp add: active_of_def)
  note m = fill_slots_members [OF f]
  have r: "fill_available_slots r = r\<lparr>rn_active := as, rn_queued := qs\<rparr>"
    by (simp add: fill_available_slots_def f)
  have "\<forall>t\<in>set as. \<not> at_service t" using m assms sv by (auto simp: service_free_def)
  moreover have "\<forall>t\<in>set qs. \<not> tp_service t" "qs \<noteq> [] \<longrightarrow> 0 < rn_stage_limit r"
    using m assms by (auto simp: service_free_def)
  ultimately have "service_free (r\<lparr>rn_active := as, rn_queued := qs\<rparr>)"
    using assms by (auto simp: service_free_def)
  moreover have "run_work b (r\<lparr>rn_active := as, rn_queued := qs\<rparr>) w = run_work b r w"
    using m by (simp add: run_work_def)
  moreover have "as = [] \<longrightarrow> qs = []"
    using m \<open>qs \<noteq> [] \<longrightarrow> 0 < rn_stage_limit r\<close> by auto
  ultimately show ?thesis by (simp add: r)
qed

lemma enter_work:
  assumes "service_free r" and "rn_active r = []" "rn_queued r = []" and "0 < ex_concurrency_limit x"
  shows "service_free (enter_stage x r) \<and> run_work b (enter_stage x r) w = run_work b r w"
  using assms
  by (auto simp: enter_stage_def service_free_def run_work_def Let_def split: list.split stage.split option.split)


lemma poll_services_none: "rn_services r = [] \<Longrightarrow> poll_services x r w = (r, w)"
  by (simp add: poll_services_def)

lemma service_free_flow:
  assumes "run_flow r' = run_flow r" and "service_free r" and "\<forall>t\<in>set (rn_pending r'). \<not> at_service t"
  shows "service_free r'"
  using assms by (auto simp: run_flow_def service_free_def)

lemma run_work_flow:
  "run_flow r' = run_flow r \<Longrightarrow> rank b w' \<le> rank b w \<Longrightarrow> run_work b r' w' \<le> run_work b r w"
  by (simp add: run_flow_def run_work_def)

text \<open>
  A round returns; when it lets the loop continue or answers \<open>Running\<close> the run is still free of
  services, and \<open>Running\<close> has cost work.
\<close>

lemma advance_round_returns:
  assumes "budgeted x b" and "never_cancelled x" and "0 < ex_concurrency_limit x"
    and "service_free r" and "work_left r"
  shows "\<exists>so r' w'. advance_round x r w = Some (so, r', w') \<and> rn_services r' = [] \<and>
    (so \<noteq> Some Finished \<longrightarrow> service_free r' \<and> run_work b r' w' + (if so = Some Running then 1 else 0) \<le> run_work b r w)"
proof -
  let ?e = "enter_when_idle x r" let ?r = "fill_available_slots ?e"
  have e: "service_free ?e \<and> run_work b ?e w = run_work b r w"
    using enter_work [OF assms(4) _ _ assms(3), of b w] assms(4) by (simp add: enter_when_idle_def)
  note fill = fill_work [OF conjunct1 [OF e], of b w]
  obtain res q v where p: "poll_active x 0 False ?r w = (res, q, v)" by (metis prod_cases3)
  note k = poll_active_work [OF p assms(1) conjunct1 [OF fill]]
  obtain c q1 v1 where rc: "resolve_recoveries x q v = Some (c, q1, v1)" "rank b v1 \<le> rank b v"
    using resolve_returns [OF assms(1), of q v] k by auto
  have nc: "\<not> c" by (rule resolve_uninterrupted [OF rc(1) assms(2)])
  have sv: "rn_services q = []" "rn_services q1 = []"
    using k resolve_recoveries_flow [OF rc(1)] by (simp_all add: run_flow_def)
  show ?thesis
  proof (cases res)
    case None
    with p rc nc sv show ?thesis by (auto simp: advance_round_def)
  next
    case (Some f)
    with k have sq: "service_free q" and wq: "run_work b q v + (if rn_active q \<noteq> [] then 1 else 0) \<le> run_work b r w"
      and fq: "f \<or> length (rn_active q) = length (rn_active ?r)" using fill e by auto
    have ps: "poll_services x q v = (q, v)" using sq by (simp add: poll_services_none service_free_def)
    have rest: "poll_rest q = poll_rest ?r" using poll_active_rest p Some by blast
    consider (recover) "rn_active q = []" "rn_queued q = []" "rn_pending q \<noteq> []"
      | (idle) "rn_active q = []" "rn_queued q = []" "rn_pending q = []"
      | (active) "rn_active q \<noteq> []" | (empty) "rn_active q = []" "rn_queued q \<noteq> []" by blast
    then show ?thesis
    proof cases
      case recover
      have "service_free q1"
        using service_free_flow [OF resolve_recoveries_flow [OF rc(1)] sq] resolve_done [of x q v q1 v1] rc(1) nc by auto
      moreover have "run_work b q1 v1 \<le> run_work b r w"
        using run_work_flow [OF resolve_recoveries_flow [OF rc(1)] rc(2)] wq by simp
      ultimately show ?thesis using recover p Some ps rc nc sv by (simp add: advance_round_def after_poll_def)
    next
      case idle
      with p Some ps sq wq show ?thesis by (simp add: advance_round_def after_poll_def service_free_def)
    next
      case active
      with p Some ps sq wq sv show ?thesis
        by (cases "f \<and> length (rn_active q) < rn_stage_limit q \<and> rn_queued q \<noteq> []")
          (auto simp: advance_round_def after_poll_def)
    next
      case empty
      have "f"
      proof (rule ccontr)
        assume "\<not> f"
        with fq empty fill have "rn_queued ?r = []" by simp
        with rest empty show False by (simp add: poll_rest_def)
      qed
      moreover have "0 < rn_stage_limit q" using sq empty by (simp add: service_free_def)
      ultimately show ?thesis using empty p Some ps sq wq sv by (simp add: advance_round_def after_poll_def)
    qed
  qed
qed

lemma advance_loop_returns:
  "budgeted x b \<Longrightarrow> never_cancelled x \<Longrightarrow> 0 < ex_concurrency_limit x \<Longrightarrow> service_free r \<Longrightarrow>
   \<exists>s r' w'. advance_loop x r w = Some (s, r', w') \<and> rn_services r' = [] \<and>
     (s = Running \<longrightarrow> service_free r' \<and> run_work b r' w' < run_work b r w)"
proof (induction x r w rule: advance_loop.induct)
  case (1 x r w)
  show ?case
  proof (cases "work_left r")
    case False
    with "1.prems"(4) show ?thesis by (simp add: advance_loop.simps [of x r w] service_free_def)
  next
    case True
    from advance_round_returns [OF "1.prems" True, of w] obtain so q v
      where a: "advance_round x r w = Some (so, q, v)" "rn_services q = []"
        and k: "so \<noteq> Some Finished \<longrightarrow> service_free q \<and> run_work b q v + (if so = Some Running then 1 else 0) \<le> run_work b r w"
      by blast
    show ?thesis
    proof (cases so)
      case None
      with True a have "advance_loop x r w = advance_loop x q v" by (simp add: advance_loop.simps [of x r w])
      with "1.IH" True a None "1.prems"(1-3) k show ?thesis by fastforce
    next
      case (Some s)
      with True a k show ?thesis by (cases s) (auto simp: advance_loop.simps [of x r w])
    qed
  qed
qed

text \<open>The whole run: it returns, and what it reports is the plan.\<close>

definition reports :: "stage list \<Rightarrow> completed_run \<Rightarrow> bool" where
  "reports Q cr \<longleftrightarrow> mset (map snap_key (cr_tasks cr)) = stage_keys Q \<and> sorted (map ts_position (cr_tasks cr))"

lemma finish_reports:
  assumes "budgeted x b" and "held {#} (stage_keys Q) r w" and "open_keys r = {#}"
  shows "\<exists>cr w'. finish x r w = Some (cr, w') \<and> reports Q cr"
proof -
  obtain cr w' where f: "finish x r w = Some (cr, w')" using finish_returns [OF assms(1)] by blast
  then have "cr_tasks cr = sort_key ts_position (rn_snapshots r)"
    by (auto simp: finish_def Let_def split: option.splits prod.splits)
  with assms(2,3) f show ?thesis by (simp add: reports_def held_def settled_keys_def)
qed

lemma run_loop_reports:
  assumes "budgeted x b" and "never_cancelled x" and "0 < ex_concurrency_limit x" and "service_free r"
    and "recovery_settled r" and "held {#} (stage_keys Q) r w"
  shows "\<exists>cr w'. run_loop x r w = Some (cr, w') \<and> reports Q cr"
  using assms(4-6)
proof (induction "run_work b r w" arbitrary: r w rule: less_induct)
  case less
  obtain c v where c: "call (rt_cancelled (ex_runtime x)) w = (c, v)" by (metis surj_pair)
  have v: "rank b v \<le> rank b w" using budgeted_calls(8) [OF assms(1), of w] c by simp
  have "\<not> c" by (rule never_cancelled_call [OF assms(2) c])
  with c have adv: "advance x r w = advance_loop x r v" by (simp add: advance_def)
  from advance_loop_returns [OF assms(1-3) less.prems(1), of v] obtain s q u
    where l: "advance_loop x r v = Some (s, q, u)" "rn_services q = []"
      "s = Running \<longrightarrow> service_free q \<and> run_work b q u < run_work b r v" by blast
  with adv have a: "advance x r w = Some (s, q, u)" by simp
  note q = advance_settled [OF a assms(2) less.prems(2)] held_advance [OF a less.prems(3)]
  show ?case
  proof (cases s)
    case Finished
    with q l(2) have "open_keys q = {#}" by (auto simp: open_keys_def work_left_def)
    moreover from a Finished have "run_loop x r w = finish x q u" by (subst run_loop.simps) simp
    ultimately show ?thesis using finish_reports [OF assms(1) q(2)] by simp
  next
    case Running
    let ?u = "u\<lparr>wd_env := rt_sleep (ex_runtime x) POLL_INTERVAL (wd_env u)\<rparr>"
    have "run_loop x r w = run_loop x q ?u" using a Running by (subst run_loop.simps) simp
    moreover have "run_work b q ?u < run_work b r w"
      using l Running v budgeted_calls(9) [OF assms(1), of POLL_INTERVAL u] by (simp add: run_work_def)
    moreover have "held {#} (stage_keys Q) q ?u" using q(2) by (simp add: held_def)
    ultimately show ?thesis using less.hyps [of q ?u] l(3) Running q(1) by simp
  qed
qed


section \<open>A scripted runtime\<close>

text \<open>
  A concrete runtime for the witnesses. The environment is the list of the commands spawned so far,
  a child is the position of its command there. \<open>false\<close> fails, \<open>test\<close> fails until \<open>fix\<close> has run,
  every other command succeeds at the first poll; recovery is approved.
\<close>

definition script_exit :: "string list \<Rightarrow> nat \<Rightarrow> exit_status option result" where
  "script_exit e c =
     (if c < length e then
        (if e ! c = ''false'' \<or> e ! c = ''test'' \<and> ''fix'' \<notin> set e
         then Inr (Some \<lparr>es_success = False, es_display = ''exit status: 1''\<rparr>)
         else Inr (Some \<lparr>es_success = True, es_display = ''exit status: 0''\<rparr>))
      else Inl ''no such child'')"

definition script_runtime :: "string list runtime" where
  "script_runtime =
     \<lparr>rt_spawn = (\<lambda>n c t h l q e. (Inr (length e), e @ [display c])),
      rt_try_wait = (\<lambda>c e. (script_exit e c, e)), rt_shutdown = (\<lambda>c e. (False, e)),
      rt_now = (\<lambda>e. (0, e)), rt_elapsed = (\<lambda>s e. (0, e)), rt_sleep = (\<lambda>d e. e),
      rt_is_dir = (\<lambda>p e. (True, e)), rt_new_capture = (\<lambda>e. (0, e)),
      rt_finish_capture = (\<lambda>h e. (capture_handle_new, e)), rt_cancelled = (\<lambda>e. (False, e)),
      rt_approve = (\<lambda>rs e. e), rt_recv = (\<lambda>e. (RecvDecision Approved, e))\<rparr>"

definition script_executor :: "bool \<Rightarrow> string list executor" where
  "script_executor fail_fast = \<lparr>ex_runtime = script_runtime, ex_concurrency_limit = 2, ex_fail_fast = fail_fast\<rparr>"

definition script_world :: "string list world" where
  "script_world = \<lparr>wd_env = [], wd_events = [], wd_outputs = None, wd_revealed = []\<rparr>"

definition script_task :: "nat \<Rightarrow> string \<Rightarrow> string list \<Rightarrow> string list option \<Rightarrow> task_plan" where
  "script_task position name commands recovery =
     \<lparr>tp_name = name, tp_position = position, tp_commands = map Shell commands,
      tp_recovery_commands = map_option (map Shell) recovery, tp_parallel = None,
      tp_group_occurrence = None, tp_rule = rules_new name commands [] [] False,
      tp_context = \<lparr>ctx_cwd = None, ctx_environment = []\<rparr>, tp_output = Inherit, tp_service = False\<rparr>"

definition script_plan :: run_plan where
  "script_plan = \<lparr>stages =
     [Parallel ''checks#0'' [script_task 0 ''lint'' [''lint''] None, script_task 1 ''unit'' [''test''] (Some [''fix''])],
      Serial (script_task 2 ''ship'' [''make'', ''install''] None)]\<rparr>"

lemma script_budgeted: "budgeted (script_executor ff) (\<lambda>e. 0)"
  by (simp add: budgeted_def script_executor_def script_runtime_def script_exit_def)

lemma script_never_cancelled: "never_cancelled (script_executor ff)"
  by (simp add: never_cancelled_def script_executor_def script_runtime_def)

lemma reported_run:
  assumes "budgeted x b" and "never_cancelled x" and "0 < ex_concurrency_limit x"
    and "md_effective_concurrency m \<noteq> Some 0" and "\<forall>t\<in>set (plan_tasks plan). \<not> tp_service t"
    and "terminals (md_run_id m) (wd_events w) = []"
  shows "\<exists>cr w'. run_to_completion x m plan w = Some (cr, w') \<and>
    mset (map snap_key (cr_tasks cr)) = mset (map plan_key (plan_tasks plan)) \<and> sorted (map ts_position (cr_tasks cr))"
proof -
  obtain r v where s: "start x m plan w = (r, v)" by (metis surj_pair)
  have "held {#} (stage_keys (stages plan)) r v" using s assms(6) by (intro lifecycle_held lifecycle.started)
  moreover have "service_free r" "recovery_settled r"
    using s assms(4,5) by (auto simp: start_def Let_def service_free_def recovery_settled_def plan_tasks_def split: prod.splits)
  ultimately show ?thesis
    using run_loop_reports [OF assms(1-3)] s by (fastforce simp: run_to_completion_def reports_def stage_keys_def plan_tasks_def)
qed

section \<open>Theorems\<close>



text \<open>Rewrite rules that run the executor on the scripted runtime.\<close>

lemmas script_defs = script_executor_def script_runtime_def script_exit_def script_world_def script_task_def
  script_plan_def metadata_new_def no_hooks_def

lemmas exec_rules = run_to_completion_def run_loop.simps start_def advance_def advance_loop.simps advance_round_def
  enter_when_idle_def enter_stage_def fill_available_slots_def poll_active.simps advance_task_def task_loop.simps
  task_round_def start_next_def poll_child_def service_exit_def note_failure_def ensure_capture_def mark_started_def
  spawn_command_def call_def tick_def emit_def after_poll_def poll_services_def resolve_recoveries_def apply_decision_def
  decide_def await_decision.simps recover_task_def verify_task_def drive.simps interrupted_def record_task_outcome_def
  reveal_on_failure_def record_capture_def task_duration_def record_task_snapshot_def push_outcome_def push_result_def
  stop_after_failure_def skip_with_outcome_def skip_task_def defer_or_record_def phase_def verdict_def rearm_def
  work_left_def run_id_def remove_at_def active_of_def request_phase_def recovery_request_of_def finish_def
  run_terminal_hook_def final_outcome_def Let_def


definition script_start :: "run \<times> string list world" where
  "script_start = start (script_executor False) (metadata_new 1 ''run'') script_plan script_world"



definition script_advanced :: "run \<times> string list world" where
  "script_advanced = snd (the (advance (script_executor False) (fst script_start) (snd script_start)))"

lemma script_advance:
  "advance (script_executor False) (fst script_start) (snd script_start) = Some (Running, script_advanced)"
  by (simp add: script_advanced_def script_start_def exec_rules script_defs)


text \<open>
  Under fail-fast a job that fails stops the plan even when its recovery is then approved, passes
  and verifies: the job counts as passed, the rest of the plan stays skipped, and since the finish
  event names no failure the watcher shows the generation as passed although its outcome is no
  success.
\<close>

definition skip_plan :: run_plan where
  "skip_plan = \<lparr>stages = [Serial (script_task 0 ''unit'' [''test''] (Some [''fix''])),
     Serial (script_task 1 ''ship'' [''make''] None)]\<rparr>"

theorem recovered_fail_fast_run_shown_passed:
  "(case run_to_completion (script_executor True) (metadata_new 1 ''run'') skip_plan script_world of
      Some (cr, w') \<Rightarrow> cr_outcome cr = [(''unit'', None, Passed), (''ship'', None, Skipped)] \<and>
        \<not> is_success (cr_outcome cr) \<and> ws_state (watch_events (wd_events w')) = WS_Passed
    | None \<Rightarrow> False)"
  by (simp add: exec_rules script_defs skip_plan_def watch_events_def failures_def is_success_def
      watcher_state_default_def)

lemma reconcile_from_facts:
  "reconcile_from x names ts r w = (kept, r', w') \<Longrightarrow>
     kept = filter (\<lambda>t. at_name t \<notin> set names) ts \<and> run_flow r' = run_flow r \<and>
     rn_snapshots r' = rn_snapshots r \<and> wd_events w' = wd_events w"
proof (induction ts arbitrary: r w kept)
  case (Cons t ts)
  obtain e u v where s: "shutdown_task x t w = (e, u, v)" by (metis prod_cases3)
  have v: "wd_events v = wd_events w" using events_shutdown [of x t w] s by simp
  obtain k q z where k: "reconcile_from x names ts r w = (k, q, z)" by (metis prod_cases3)
  show ?case
  proof (cases "at_name t \<in> set names")
    case True
    with Cons.prems s have "reconcile_from x names ts
        (push_outcome (at_position u) (at_name u) (at_group_occurrence u) Cancelled r) v = (kept, r', w')" by simp
    from Cons.IH [OF this] True v show ?thesis by (simp add: push_outcome_def)
  next
    case False
    with Cons.prems k have e: "q = r'" "z = w'" "kept = t # k" by simp_all
    from Cons.IH [OF k [unfolded e]] False e show ?thesis by simp
  qed
qed simp

text \<open>
  Reconciling the services of a running generation stops exactly the named ones and leaves every
  other service, the running tasks and the plan alone; the call answers the names still running.
  A stopped service leaves the run without a terminal snapshot or event: only its outcome is kept.
\<close>

theorem reconcile_keeps_other_services:
  "let (still_running, r', w') = reconcile_services x r stop_names w in
     rn_services r' = filter (\<lambda>t. at_name t \<notin> set stop_names) (rn_services r) \<and>
     still_running = map at_name (rn_services r') \<and>
     rn_active r' = rn_active r \<and> rn_queued r' = rn_queued r \<and> rn_stages r' = rn_stages r \<and>
     rn_snapshots r' = rn_snapshots r \<and> wd_events w' = wd_events w"
proof -
  obtain k q z where k: "reconcile_from x stop_names (rn_services r) r w = (k, q, z)" by (metis prod_cases3)
  from reconcile_from_facts [OF k] k show ?thesis by (simp add: reconcile_services_def run_flow_def)
qed

end
