(* ===== verification/Executor_Boundary.thy ===== *)
theory Executor_Boundary
  imports Executor_Liveness
begin

text \<open>
  The generation boundaries of the event stream (\<open>Started\<close>, \<open>Finished\<close>, \<open>Cancelled\<close> of
  \<open>src/src/executor.rs\<close>), which the scheduler, the await coordinator and the recorder rely on.
  Shown: \<open>start\<close> emits one \<open>Started\<close>, \<open>advance\<close> emits no boundary at all, \<open>finish\<close> emits one
  \<open>Finished\<close>, \<open>cancel\<close> one \<open>Cancelled\<close>; and none of them changes the identity of the run.
\<close>

fun is_boundary :: "event \<Rightarrow> bool" where
  "is_boundary (EvStarted st) = True"
| "is_boundary (EvFinished r s d fs) = True"
| "is_boundary (EvCancelled r s) = True"
| "is_boundary _ = False"

definition boundaries :: "'w world \<Rightarrow> event list" where
  "boundaries w = filter is_boundary (wd_events w)"

text \<open>Nothing but ticks, terminal tasks and recovery phases happened between two worlds.\<close>

definition inner :: "'w world \<Rightarrow> 'w world \<Rightarrow> bool" where
  "inner w w' \<longleftrightarrow> boundaries w' = boundaries w"

lemma inner_refl [simp, intro]: "inner w w"
  by (simp add: inner_def)

lemma inner_trans: "inner w w' \<Longrightarrow> inner w' w'' \<Longrightarrow> inner w w''"
  by (simp add: inner_def)

lemma inner_events: "wd_events w' = wd_events w \<Longrightarrow> inner w w'"
  by (simp add: inner_def boundaries_def)

lemma boundaries_emit [simp]:
  "boundaries (emit e w) = boundaries w @ (if is_boundary e then [e] else [])"
  by (simp add: boundaries_def)

lemma boundaries_update [simp]:
  "boundaries (w\<lparr>wd_env := e\<rparr>) = boundaries w" "boundaries (w\<lparr>wd_outputs := os\<rparr>) = boundaries w"
  "boundaries (w\<lparr>wd_revealed := ls\<rparr>) = boundaries w"
  by (simp_all add: boundaries_def)

lemma boundaries_parts [simp]:
  "boundaries (snd (call f w)) = boundaries w"
  "boundaries (snd (snd (shutdown_task x t w))) = boundaries w"
  "boundaries (record_capture x m t w) = boundaries w"
  "boundaries (reveal_on_failure x t w) = boundaries w"
  "boundaries (snd (task_duration x t w)) = boundaries w"
  "boundaries (snd (ensure_capture x t w)) = boundaries w"
  "boundaries (snd (mark_started x t w)) = boundaries w"
  "boundaries (snd (spawn_command x c t w)) = boundaries w"
  by (simp_all add: boundaries_def)

lemma boundaries_phase [simp]: "boundaries (phase p oc r t w) = boundaries w"
  by (simp add: phase_def)

lemma boundaries_tick [simp]: "boundaries (tick t w) = boundaries w"
  by (simp add: tick_def)

lemma boundaries_request_phase [simp]: "boundaries (fold request_phase rs w) = boundaries w"
  by (induction rs arbitrary: w) (simp_all add: request_phase_def)

lemma boundaries_snapshot [simp]: "boundaries (snd (record_task_snapshot p n g s d r w)) = boundaries w"
  by (simp add: record_task_snapshot_def Let_def)

lemma boundaries_record [simp]: "boundaries (snd (record_task_outcome x r t w)) = boundaries w"
  by (simp add: record_task_outcome_def Let_def split_beta)

lemma boundaries_defer [simp]: "boundaries (snd (defer_or_record x r t w)) = boundaries w"
  by (simp add: defer_or_record_def)

lemma boundaries_retire [simp]: "boundaries (snd (snd (retire x t r w))) = boundaries w"
  by (simp add: retire_def Let_def split_beta)

lemma boundaries_skip [simp]:
  "boundaries (snd (skip_task t rw)) = boundaries (snd rw)"
  "boundaries (snd (skip_with_outcome t rw)) = boundaries (snd rw)"
  by (simp_all add: skip_task_def skip_with_outcome_def split_beta)

lemma boundaries_stop_active [simp]: "boundaries (snd (stop_active x ts r w)) = boundaries w"
  by (induction ts arbitrary: r w) (simp_all add: Let_def split_beta)

lemma boundaries_fold:
  assumes "\<And>t rw. boundaries (snd (f t rw)) = boundaries (snd rw)"
  shows "boundaries (snd (fold f ts rw)) = boundaries (snd rw)"
  by (induction ts arbitrary: rw) (simp_all add: assms)

lemma boundaries_stop_after_failure [simp]: "boundaries (snd (stop_after_failure x r w)) = boundaries w"
  by (simp add: stop_after_failure_def Let_def split_beta boundaries_fold)

section \<open>Tasks and services\<close>

lemma boundaries_round:
  "boundaries (snd (snd (snd (task_round x ff t rs w)))) = boundaries w"
  by (simp add: task_round_def start_next_def poll_child_def service_exit_def Let_def split_beta
      split: option.split list.split sum.split)

lemma inner_task_loop: "task_loop x ff t rs w = (s, t', rs', w') \<Longrightarrow> inner w w'"
proof (induction x ff t rs w rule: task_loop.induct)
  case (1 x ff t rs w)
  obtain so t1 rs1 w1 where r: "task_round x ff t rs w = (so, t1, rs1, w1)" by (metis prod_cases4)
  from boundaries_round [of x ff t rs w] r have "inner w w1" by (simp add: inner_def)
  with 1 r show ?case by (cases so) (auto simp: task_loop.simps [of x ff t] intro: inner_trans)
qed

lemma inner_callD: "call f w = (a, w') \<Longrightarrow> inner w w'"
  using inner_events [OF events_callD] .

lemma inner_advance_task: "advance_task x ff t rs w = (s, t', rs', w') \<Longrightarrow> inner w w'"
  by (auto simp: advance_task_def Let_def dest!: inner_task_loop inner_callD intro: inner_trans
      split: if_splits option.splits prod.splits)

text \<open>The same facts for results that have been taken apart.\<close>

lemma inner_snd: "p = (a, w') \<Longrightarrow> boundaries (snd p) = boundaries w \<Longrightarrow> inner w w'"
  by (simp add: inner_def)

lemma inner_snd_snd: "p = (a, b, w') \<Longrightarrow> boundaries (snd (snd p)) = boundaries w \<Longrightarrow> inner w w'"
  by (simp add: inner_def)

lemmas inner_recordD = inner_snd [OF _ boundaries_record]
lemmas inner_shutdownD = inner_snd_snd [OF _ boundaries_parts(2)]
lemmas inner_stopD = inner_snd [OF _ boundaries_stop_after_failure]
lemmas inner_deferD = inner_snd [OF _ boundaries_defer]

lemma inner_phase: "inner w v \<Longrightarrow> inner w (phase p oc r t v)" "inner (phase p oc r t w) v \<Longrightarrow> inner w v"
  by (simp_all add: inner_def)

lemma boundaries_service_done [simp]: "boundaries (snd (service_done x t s oc r w)) = boundaries w"
  by (simp add: service_done_def Let_def split_beta)

lemma boundaries_advance_service [simp]: "boundaries (snd (snd (advance_service x t r w))) = boundaries w"
  by (simp add: advance_service_def service_failed_def Let_def split_beta
      split: option.split list.split sum.split)

lemma boundaries_services_from [simp]: "boundaries (snd (advance_services_from x i r w)) = boundaries w"
proof (induction x i r w rule: advance_services_from.induct)
  case (1 x i r w)
  obtain so q v where s: "advance_service x (rn_services r ! i) r w = (so, q, v)" by (metis prod_cases3)
  from boundaries_advance_service [of x "rn_services r ! i" r w] s have "boundaries v = boundaries w" by simp
  with 1 s show ?case by (cases so) (simp_all add: advance_services_from.simps [of x i r w])
qed

lemma boundaries_poll_services [simp]: "boundaries (snd (poll_services x r w)) = boundaries w"
  by (simp add: poll_services_def advance_services_def)

section \<open>Recovery\<close>

lemma inner_drive:
  assumes "drive x t rs w = Some (b, t', w')"
  shows "inner w w'"
proof (rule drive.raw_induct [where P = "\<lambda>x t rs w r. inner w (snd (snd r))"
      and xa = "(((x, t), rs), w)" and y = "(b, t', w')", unfolded prod.case fst_conv snd_conv, OF _ assms])
  fix f :: "'a executor \<Rightarrow> active_task \<Rightarrow> results \<Rightarrow> 'a world \<Rightarrow> (bool \<times> active_task \<times> 'a world) option"
    and x t rs w y
  assume IH: "\<And>x t rs w y. f x t rs w = Some y \<Longrightarrow> inner w (snd (snd y))"
    and eq: "(let (step, task, results, w) = advance_task x True t rs w in
      if step = TaskRunning then
        (let (cancelled, w) = call (rt_cancelled (ex_runtime x)) w in
         if cancelled then Some (True, task, w)
         else f x task results (w\<lparr>wd_env := rt_sleep (ex_runtime x) POLL_INTERVAL (wd_env w)\<rparr>))
      else Some (False, task, w)) = Some y"
  obtain s u rs1 v where a: "advance_task x True t rs w = (s, u, rs1, v)" by (metis prod_cases4)
  obtain c z where c: "call (rt_cancelled (ex_runtime x)) v = (c, z)" by (metis surj_pair)
  from eq a c inner_advance_task [OF a] inner_callD [OF c] show "inner w (snd (snd y))"
    by (auto simp: inner_def split: if_splits dest!: IH)
qed

lemma inner_verify:
  assumes "verify_task x t r w = Some (e, r', w')"
  shows "inner w w'"
proof -
  obtain b u v where d: "drive x (rearm (at_original_commands t) t) [] (phase ''verification_started'' None r t w) = Some (b, u, v)"
    using assms by (auto simp: verify_task_def Let_def split: option.splits)
  note v = inner_phase(2) [OF inner_drive [OF d]]
  show ?thesis
  proof (cases b)
    case True
    with assms d v show ?thesis by (simp add: verify_task_def)
  next
    case False
    let ?r = "push_result (if at_failures u \<noteq> [] then Inl (last_failure ''Verification'' u) else Inr ()) r"
    have "record_task_outcome x ?r u (phase ''verification_finished'' (Some (verdict u)) r u v) = (r', w')"
      using assms d False by (auto simp: verify_task_def Let_def)
    from inner_trans [OF inner_phase(1) [OF v] inner_recordD [OF this]] show ?thesis .
  qed
qed

lemma inner_recover_task:
  assumes "recover_task x t r w = Some (e, r', w')"
  shows "inner w w'"
proof (cases "at_recovery_commands t")
  case None
  with assms have "record_task_outcome x r t (phase ''approval_decided'' (Some ''approved'') r t w) = (r', w')"
    by (simp add: recover_task_def)
  from inner_phase(2) [OF inner_recordD [OF this]] show ?thesis .
next
  case (Some cs)
  let ?w = "phase ''recovery_started'' None r t (phase ''approval_decided'' (Some ''approved'') r t w)"
  obtain b u v where d: "drive x (rearm cs (t\<lparr>at_recovery_commands := None\<rparr>)) [] ?w = Some (b, u, v)"
    using assms Some by (auto simp: recover_task_def Let_def split: option.splits)
  note v = inner_phase(2) [OF inner_phase(2) [OF inner_drive [OF d]]]
  let ?v = "phase ''recovery_finished'' (Some (verdict u)) r u v"
  let ?u = "u\<lparr>at_failures := at_failures t @ at_failures u\<rparr>"
  consider b | "\<not> b" "at_failures u \<noteq> []" | "\<not> b" "at_failures u = []" by blast
  then show ?thesis
  proof cases
    case 1
    with assms Some d v show ?thesis by (simp add: recover_task_def)
  next
    case 2
    with assms Some d have "record_task_outcome x (push_result (Inl (last_failure ''Recovery'' ?u)) r) ?u ?v = (r', w')"
      by (simp add: recover_task_def Let_def)
    from inner_trans [OF inner_phase(1) [OF v] inner_recordD [OF this]] show ?thesis .
  next
    case 3
    with assms Some d have "verify_task x u r ?v = Some (e, r', w')" by (simp add: recover_task_def)
    from inner_trans [OF inner_phase(1) [OF v] inner_verify [OF this]] show ?thesis .
  qed
qed

lemma boundaries_originals [simp]:
  "boundaries (snd (record_original x t rw)) = boundaries (snd rw)"
  "boundaries (snd (decline_task x s t rw)) = boundaries (snd rw)"
  by (simp_all add: record_original_def decline_task_def split_beta)

lemma inner_recover_all: "recover_all x ts r w = Some (b, r', w') \<Longrightarrow> inner w w'"
proof (induction ts arbitrary: r w)
  case (Cons t ts)
  obtain e q v where s: "recover_task x t r w = Some (e, q, v)"
    using Cons.prems by (auto split: option.splits)
  note v = inner_recover_task [OF s]
  show ?case
  proof (cases e)
    case (Pass_Interrupted u)
    with s Cons.prems v show ?thesis
      by (auto simp: interrupted_def split: prod.splits dest!: inner_shutdownD intro: inner_trans)
  next
    case Recovery_Failed
    with s Cons.prems have "fold (record_original x) ts (q, v) = (r', w')" by simp
    from inner_trans [OF v inner_snd [OF this]] show ?thesis by (simp add: boundaries_fold)
  next
    case Recovery_Done
    with s Cons v show ?thesis by (auto intro: inner_trans)
  qed
qed simp

lemma inner_apply_decision:
  assumes "apply_decision x d ts r w = Some (b, r', w')"
  shows "inner w w'"
proof -
  obtain c v where c: "(if d = ApprovalCancelled then (True, w) else call (rt_cancelled (ex_runtime x)) w) = (c, v)"
    by (metis surj_pair)
  then have v: "inner w v" by (auto dest: inner_callD split: if_splits)
  have "inner v z" if "fold (decline_task x s) ts (r, v) = (q, z)" for s q z
    by (rule inner_snd [OF that]) (simp add: boundaries_fold)
  with assms c v show ?thesis
    by (auto simp: apply_decision_def split: if_splits intro: inner_trans dest!: inner_recover_all)
qed

lemma inner_resolve:
  assumes "resolve_recoveries x r w = Some (b, r', w')"
  shows "inner w w'"
proof -
  obtain c v where c: "call (rt_cancelled (ex_runtime x)) w = (c, v)" by (metis surj_pair)
  then have v: "inner w v" by (rule inner_callD)
  have f: "inner w (fold request_phase rs v)" for rs using v by (simp add: inner_def)
  have dec: "inner w z'" if "decide x q rs (fold request_phase rs v) = Some (d, z')" for q rs d z'
    using f [of rs] inner_events [OF decide_events [OF that]] by (rule inner_trans)
  from assms c v show ?thesis
    by (auto simp: resolve_recoveries_def Let_def split: if_splits option.splits
        dest!: inner_apply_decision dest: dec intro: inner_trans)
qed

section \<open>Advancing, finishing, cancelling\<close>

lemma inner_poll_active:
  assumes "poll_active x i f r w = (res, r', w')"
  shows "inner w w'"
proof (rule poll_active_inv [OF assms, where I = "\<lambda>q v. inner w v"])
  fix r' v i s t rs v' q v''
  assume "inner w v" "advance_task x (ex_fail_fast x) (rn_active r' ! i) (rn_results r') v = (s, t, rs, v')"
    "defer_or_record x (r'\<lparr>rn_active := remove_at i (rn_active r'), rn_results := rs\<rparr>) t v' = (q, v'')"
  then show "inner w v''" by (auto dest!: inner_advance_task inner_deferD intro: inner_trans)
qed (auto intro: inner_trans inner_advance_task dest!: inner_stopD)

lemma inner_after_poll:
  assumes "after_poll x f q v = Some (so, r', w')"
  shows "inner v w'"
  using assms
proof (cases rule: after_poll_cases)
  case (recovered q1 v1 c)
  with inner_resolve [OF recovered(5)] boundaries_poll_services [of x q v] show ?thesis by (simp add: inner_def)
qed (use boundaries_poll_services [of x q v] in \<open>simp_all add: inner_def\<close>)

lemma inner_advance_round:
  assumes "advance_round x r w = Some (so, r', w')"
  shows "inner w w'"
  using assms
proof (cases rule: advance_round_cases)
  case (stopped q v)
  then show ?thesis using inner_poll_active by blast
next
  case (recovered q v c)
  then show ?thesis using inner_poll_active inner_resolve inner_trans by blast
next
  case (polled q v f)
  then show ?thesis using inner_poll_active inner_after_poll inner_trans by blast
qed

lemma inner_advance_loop: "advance_loop x r w = Some (s, r', w') \<Longrightarrow> inner w w'"
proof (induction x r w rule: advance_loop.induct)
  case (1 x r w)
  show ?case
  proof (cases "work_left r")
    case False
    with 1 show ?thesis
      by (auto simp: advance_loop.simps [of x r w] advance_services_def split: if_splits
          dest!: inner_snd [OF _ boundaries_services_from])
  next
    case True
    with "1.prems"(1) obtain so q v where a: "advance_round x r w = Some (so, q, v)"
      by (auto simp: advance_loop.simps [of x r w] split: option.splits)
    note h = inner_advance_round [OF a]
    show ?thesis
    proof (cases so)
      case None
      with True a "1.prems"(1) have "advance_loop x q v = Some (s, r', w')"
        by (simp add: advance_loop.simps [of x r w])
      with h True a None "1.IH" inner_trans show ?thesis by blast
    next
      case (Some s1)
      with True a h "1.prems"(1) show ?thesis by (simp add: advance_loop.simps [of x r w])
    qed
  qed
qed

lemma boundaries_advance:
  assumes "advance x r w = Some (s, r', w')"
  shows "boundaries w' = boundaries w"
proof -
  obtain c v where c: "call (rt_cancelled (ex_runtime x)) w = (c, v)" by (metis surj_pair)
  with assms inner_callD [OF c] show ?thesis
    by (auto simp: advance_def inner_def split: if_splits dest!: inner_advance_loop)
qed

lemma boundaries_start:
  "start x m plan w = (r, w') \<Longrightarrow>
     boundaries w' = boundaries w @ [EvStarted (started_of m plan)] \<and> run_id r = md_run_id m"
  by (auto simp: start_def run_id_def Let_def inner_def split: prod.splits dest!: inner_callD)

lemma inner_hook_wait:
  assumes "hook_wait x c w = Some w'"
  shows "inner w w'"
proof (rule hook_wait.raw_induct [where P = "\<lambda>x c w r. inner w r" and xa = "((x, c), w)" and y = w',
      unfolded prod.case, OF _ assms])
  fix f :: "'a executor \<Rightarrow> nat \<Rightarrow> 'a world \<Rightarrow> 'a world option" and x c w y
  assume IH: "\<And>x c w y. f x c w = Some y \<Longrightarrow> inner w y"
    and eq: "(let (waited, w) = call (rt_try_wait (ex_runtime x) c) w in
      case waited of Inl err \<Rightarrow> Some w
      | Inr None \<Rightarrow> f x c (w\<lparr>wd_env := rt_sleep (ex_runtime x) (from_millis 20) (wd_env w)\<rparr>)
      | Inr (Some status) \<Rightarrow> Some w) = Some y"
  obtain a v where a: "call (rt_try_wait (ex_runtime x) c) w = (a, v)" by (metis surj_pair)
  from eq a inner_callD [OF a] show "inner w y"
    by (auto simp: inner_def split: sum.splits option.splits dest!: IH)
qed

lemma boundaries_finish:
  assumes "finish x r w = Some (c, w')"
  shows "\<exists>d fs. boundaries w' = boundaries w @ [EvFinished (run_id r) (rn_superseded_by r) d fs]"
proof -
  have hook: "inner v v'" if "run_terminal_hook x m oc v = Some v'" for m oc and v v' :: "'a world"
    using that by (auto simp: run_terminal_hook_def inner_def split: option.splits prod.splits sum.splits
        dest!: inner_callD inner_hook_wait)
  obtain d v where d: "call (rt_elapsed (ex_runtime x) (rn_started r)) w = (d, v)" by (metis surj_pair)
  with assms inner_callD [OF d] show ?thesis
    by (auto simp: finish_def inner_def Let_def split: option.splits dest!: hook)
qed

lemma boundaries_retire_all [simp]: "boundaries (snd (snd (retire_all x ts r w))) = boundaries w"
  by (induction ts arbitrary: r w) (simp_all add: Let_def split_beta)

lemma boundaries_retire_pending [simp]: "boundaries (snd (snd (retire_pending x ts r w))) = boundaries w"
  by (induction ts arbitrary: r w) (simp_all add: Let_def split_beta)

lemma boundaries_cancel:
  assumes "cancel x r sb w = (d, r', w')"
  shows "boundaries w' = boundaries w @ [EvCancelled (run_id r) sb] \<and> run_id r' = run_id r"
proof -
  let ?r0 = "r\<lparr>rn_superseded_by := sb, rn_active := []\<rparr>"
  obtain e1 r1 w1 where 1: "retire_all x (rn_active r) ?r0 w = (e1, r1, w1)" by (metis prod_cases3)
  obtain e2 r2 w2 where 2: "retire_all x (rn_services r) (r1\<lparr>rn_services := []\<rparr>) w1 = (e2, r2, w2)" by (metis prod_cases3)
  obtain e3 r3 w3 where 3: "retire_pending x (rn_pending r) (r2\<lparr>rn_pending := []\<rparr>) w2 = (e3, r3, w3)" by (metis prod_cases3)
  obtain r4 w4 where 4: "fold skip_task (rn_queued r) (r3\<lparr>rn_queued := []\<rparr>, w3) = (r4, w4)" by (metis surj_pair)
  obtain r5 w5 where 5: "fold skip_task (concat (map stage_tasks (rn_stages r))) (r4\<lparr>rn_stages := []\<rparr>, w4) = (r5, w5)"
    by (metis surj_pair)
  have "inner w w1" "inner w1 w2" "inner w2 w3" "inner w3 w4" "inner w4 w5"
    using inner_snd_snd [OF 1] inner_snd_snd [OF 2] inner_snd_snd [OF 3] inner_snd [OF 4] inner_snd [OF 5]
    by (simp_all add: boundaries_fold)
  then have "boundaries w5 = boundaries w" by (simp add: inner_def)
  moreover have "run_id r5 = run_id r"
    using retire_all_shape [OF 1] retire_all_shape [OF 2] retire_pending_shape [OF 3] fold_skip_shape [OF 4]
      fold_skip_shape [OF 5]
    by (simp add: run_shape_def run_id_def)
  ultimately show ?thesis using assms 1 2 3 4 5 by (auto simp: cancel_def Let_def)
qed

section \<open>The identity of a run\<close>

lemma enter_when_idle_metadata [simp]: "rn_metadata (fill_available_slots (enter_when_idle x r)) = rn_metadata r"
  by (simp add: fill_available_slots_def enter_when_idle_def enter_stage_def Let_def split_beta
      split: list.split stage.split)

lemma advance_round_metadata:
  assumes "advance_round x r w = Some (so, r', w')"
  shows "rn_metadata r' = rn_metadata r"
proof -
  let ?r = "fill_available_slots (enter_when_idle x r)"
  have "shrinks ?r r'"
    using assms
  proof (cases rule: advance_round_cases)
    case (stopped q v)
    with shrinks_poll_active show ?thesis by simp
  next
    case (recovered q v c)
    with shrinks_poll_active resolve_shrinks shrinks_trans show ?thesis by blast
  next
    case (polled q v f)
    with shrinks_poll_active after_poll_shrinks shrinks_trans show ?thesis by blast
  qed
  then show ?thesis by (simp add: shrinks_def)
qed

lemma advance_loop_metadata: "advance_loop x r w = Some (s, r', w') \<Longrightarrow> rn_metadata r' = rn_metadata r"
proof (induction x r w rule: advance_loop.induct)
  case (1 x r w)
  show ?case
  proof (cases "work_left r")
    case False
    with "1.prems" shrinks_shape [OF advance_services_shape [of x r w]] show ?thesis
      by (auto simp: advance_loop.simps [of x r w] shrinks_def split: if_splits)
  next
    case True
    with "1.prems"(1) obtain so q v where a: "advance_round x r w = Some (so, q, v)"
      by (auto simp: advance_loop.simps [of x r w] split: option.splits)
    with True "1.prems" "1.IH" advance_round_metadata [OF a] show ?thesis
      by (cases so) (simp_all add: advance_loop.simps [of x r w])
  qed
qed

lemma advance_run_id:
  assumes "advance x r w = Some (s, r', w')"
  shows "run_id r' = run_id r"
proof -
  obtain c v where "call (rt_cancelled (ex_runtime x)) w = (c, v)" by (metis surj_pair)
  with assms show ?thesis
    by (auto simp: advance_def run_id_def dest!: advance_loop_metadata split: if_splits)
qed

lemma reconcile_boundaries:
  assumes "reconcile_services x r names w = (still, r', w')"
  shows "boundaries w' = boundaries w \<and> run_id r' = run_id r"
proof -
  obtain k q v where k: "reconcile_from x names (rn_services r) r w = (k, q, v)" by (metis prod_cases3)
  from reconcile_from_facts [OF k] k assms show ?thesis
    by (auto simp: reconcile_services_def run_flow_def run_id_def boundaries_def)
qed

end
