(* ===== verification/Scheduler.thy ===== *)
theory Scheduler
  imports Executor_Boundary
begin

text \<open>
  The command queue between the producers (watch loop, control server, reload) and the consumer
  thread of a worker, \<open>Scheduler\<close> of \<open>src/src/workers.rs\<close>. One ordered stream carries runs, cancels
  and service commands; at most one run is queued, the newest wins, and a queued run that is
  replaced or cancelled gets its \<open>Cancelled\<close> event from the sender.

  A reply channel is a number; what is sent on it is kept in \<open>sc_replies\<close>. The cancellation token of
  a run is identified with the generation of the run.
\<close>

section \<open>Commands\<close>

record run_request =
  rq_run_id :: nat
  rq_plan :: run_plan
  rq_trigger :: string
  rq_batch :: "nat option"
  rq_changed :: "string list"
  rq_predecessor :: "nat option"
  rq_target :: "string option"
  rq_execution_signature :: "string option"
  rq_effective_concurrency :: "nat option"
  rq_concurrency_source :: "string option"
  rq_hooks :: generation_hooks
  rq_recovery_policy :: recovery_policy
  rq_revision :: "nat option"
  rq_revision_hash :: "string option"

datatype cancel_result = RunCancelled cancel_disposition "nat option" "string option" | Noop

datatype worker_command =
    RunCmd run_request
  | CancelCmd "nat option" "nat option"
  | ReconcileServices "string list" nat
  | StartServices nat run_plan "config_revision option"

datatype reply = CancelReply cancel_result | ReconcileReply "string list"

record scheduler =
  sc_queue :: "worker_command list"
  sc_closed :: bool
  sc_registered :: "nat list"
  sc_replies :: "(nat \<times> reply) list"

definition scheduler_new :: scheduler where
  "scheduler_new = \<lparr>sc_queue = [], sc_closed = False, sc_registered = [], sc_replies = []\<rparr>"

fun is_run :: "worker_command \<Rightarrow> bool" where
  "is_run (RunCmd req) = True"
| "is_run _ = False"

fun is_bare_cancel :: "worker_command \<Rightarrow> bool" where
  "is_bare_cancel (CancelCmd None reply) = True"
| "is_bare_cancel _ = False"

fun command_id :: "worker_command \<Rightarrow> nat option" where
  "command_id (RunCmd req) = Some (rq_run_id req)"
| "command_id _ = None"

text \<open>\<open>Iterator::position\<close> and \<open>rposition\<close>.\<close>

primrec position :: "('a \<Rightarrow> bool) \<Rightarrow> 'a list \<Rightarrow> nat option" where
  "position P [] = None"
| "position P (x # xs) = (if P x then Some 0 else map_option Suc (position P xs))"

primrec rposition :: "('a \<Rightarrow> bool) \<Rightarrow> 'a list \<Rightarrow> nat option" where
  "rposition P [] = None"
| "rposition P (x # xs) = (case rposition P xs of
     Some i \<Rightarrow> Some (Suc i) | None \<Rightarrow> if P x then Some 0 else None)"

lemma position_None: "position P xs = None \<longleftrightarrow> (\<forall>x\<in>set xs. \<not> P x)"
  by (induction xs) auto

lemma position_Some: "position P xs = Some i \<Longrightarrow> i < length xs \<and> P (xs ! i)"
  by (induction xs arbitrary: i) (auto split: if_splits)

lemma rposition_None: "rposition P xs = None \<longleftrightarrow> (\<forall>x\<in>set xs. \<not> P x)"
  by (induction xs) (auto split: option.splits)

lemma rposition_Some: "rposition P xs = Some i \<Longrightarrow> i < length xs \<and> P (xs ! i)"
  by (induction xs arbitrary: i) (auto split: if_splits option.splits)

section \<open>Cancellation tokens\<close>

definition register_active :: "nat \<Rightarrow> scheduler \<Rightarrow> scheduler" where
  "register_active g sc = sc\<lparr>sc_registered := List.insert g (sc_registered sc)\<rparr>"

definition unregister_active :: "nat \<Rightarrow> scheduler \<Rightarrow> scheduler" where
  "unregister_active g sc = sc\<lparr>sc_registered := removeAll g (sc_registered sc)\<rparr>"

text \<open>\<open>token g\<close> is what setting the token of generation \<open>g\<close> does to the environment.\<close>

definition cancel_active :: "(nat \<Rightarrow> 'w \<Rightarrow> 'w) \<Rightarrow> nat option \<Rightarrow> scheduler \<Rightarrow> 'w \<Rightarrow> 'w" where
  "cancel_active token generation sc e =
     (case generation of
        Some g \<Rightarrow> if g \<in> set (sc_registered sc) then token g e else e
      | None \<Rightarrow> fold token (sc_registered sc) e)"

definition signal :: "(nat \<Rightarrow> 'w \<Rightarrow> 'w) \<Rightarrow> worker_command \<Rightarrow> scheduler \<Rightarrow> 'w \<Rightarrow> 'w" where
  "signal token command sc e =
     (case command of
        RunCmd req \<Rightarrow> cancel_active token None sc e
      | CancelCmd generation reply \<Rightarrow> cancel_active token generation sc e
      | _ \<Rightarrow> e)"

section \<open>Sending\<close>

definition send_reply :: "nat option \<Rightarrow> reply \<Rightarrow> scheduler \<Rightarrow> scheduler" where
  "send_reply channel r sc =
     (case channel of None \<Rightarrow> sc | Some c \<Rightarrow> sc\<lparr>sc_replies := sc_replies sc @ [(c, r)]\<rparr>)"

definition drop_bare_cancels :: "worker_command list \<Rightarrow> worker_command list" where
  "drop_bare_cancels q = rev (dropWhile is_bare_cancel (rev q))"

definition enqueue_run :: "run_request \<Rightarrow> worker_command list \<Rightarrow> event list \<times> worker_command list" where
  "enqueue_run req queue =
     (let queue = drop_bare_cancels queue in
      case rposition is_run queue of
        None \<Rightarrow> ([], queue @ [RunCmd req])
      | Some pos \<Rightarrow> ([EvCancelled (the (command_id (queue ! pos))) (Some (rq_run_id req))],
                     queue[pos := RunCmd req]))"

text \<open>The loop that removes every queued run.\<close>

lemma remove_at_shorter: "position P q = Some pos \<Longrightarrow> length (remove_at pos q) < length q"
  by (auto dest!: position_Some simp: length_remove_at)

function cancel_queued_runs :: "worker_command list \<Rightarrow> event list \<times> worker_command list" where
  "cancel_queued_runs q =
     (case position is_run q of
        None \<Rightarrow> ([], q)
      | Some pos \<Rightarrow>
          (let (es, q') = cancel_queued_runs (remove_at pos q)
           in (EvCancelled (the (command_id (q ! pos))) None # es, q')))"
  by pat_completeness auto
termination
  by (relation "measure length") (simp_all add: remove_at_shorter)

declare cancel_queued_runs.simps [simp del]

text \<open>What \<open>send\<close> does under the lock of the queue: the events it emits and the new state.\<close>

definition enqueue :: "worker_command \<Rightarrow> scheduler \<Rightarrow> event list \<times> scheduler" where
  "enqueue command sc =
     (case command of
        RunCmd req \<Rightarrow>
          (let (es, q) = enqueue_run req (sc_queue sc) in (es, sc\<lparr>sc_queue := q\<rparr>))
      | CancelCmd (Some g) channel \<Rightarrow>
          (case position (\<lambda>c. command_id c = Some g) (sc_queue sc) of
             Some pos \<Rightarrow>
               ([EvCancelled g None],
                send_reply channel
                  (CancelReply (case sc_queue sc ! pos of
                     RunCmd queued \<Rightarrow> RunCancelled Graceful (rq_revision queued) (rq_revision_hash queued)
                   | _ \<Rightarrow> Noop))
                  (sc\<lparr>sc_queue := remove_at pos (sc_queue sc)\<rparr>))
           | None \<Rightarrow> ([], sc\<lparr>sc_queue := sc_queue sc @ [CancelCmd (Some g) channel]\<rparr>))
      | CancelCmd None channel \<Rightarrow>
          (let (es, q) = cancel_queued_runs (sc_queue sc)
           in (es, sc\<lparr>sc_queue := q @ [CancelCmd None channel]\<rparr>))
      | _ \<Rightarrow> ([], sc\<lparr>sc_queue := sc_queue sc @ [command]\<rparr>))"

definition try_recv :: "scheduler \<Rightarrow> (worker_command \<times> scheduler) option" where
  "try_recv sc = (case sc_queue sc of [] \<Rightarrow> None | c # q \<Rightarrow> Some (c, sc\<lparr>sc_queue := q\<rparr>))"

text \<open>\<open>receive\<close>: blocked, woken by a command, or woken by \<open>close\<close> with nothing left.\<close>

datatype received = Blocked | Woken worker_command scheduler | Closed

definition receive :: "scheduler \<Rightarrow> received" where
  "receive sc =
     (case sc_queue sc of
        [] \<Rightarrow> if sc_closed sc then Closed else Blocked
      | c # q \<Rightarrow> Woken c (sc\<lparr>sc_queue := q\<rparr>))"

definition close :: "scheduler \<Rightarrow> scheduler" where
  "close sc = sc\<lparr>sc_closed := True\<rparr>"

section \<open>Laws of the queue\<close>

definition command_ids :: "worker_command \<Rightarrow> nat multiset" where
  "command_ids c = (case command_id c of None \<Rightarrow> {#} | Some g \<Rightarrow> {#g#})"

definition queue_ids :: "worker_command list \<Rightarrow> nat multiset" where
  "queue_ids q = mset (List.map_filter command_id q)"

lemma queue_ids_simps [simp]:
  "queue_ids [] = {#}" "queue_ids (c # q) = command_ids c + queue_ids q"
  "queue_ids (q @ q') = queue_ids q + queue_ids q'"
  by (simp_all add: queue_ids_def command_ids_def map_filter_def split: option.split)

lemma command_ids_simps [simp]:
  "command_ids (RunCmd req) = {#rq_run_id req#}" "command_ids (CancelCmd g r) = {#}"
  "command_ids (ReconcileServices ns c) = {#}" "command_ids (StartServices g' p rv) = {#}"
  by (simp_all add: command_ids_def)

text \<open>The generations whose end a list of events reports.\<close>

fun ended :: "event \<Rightarrow> nat option" where
  "ended (EvFinished g s d fs) = Some g"
| "ended (EvCancelled g s) = Some g"
| "ended _ = None"

definition endings :: "event list \<Rightarrow> nat multiset" where
  "endings es = mset (List.map_filter ended es)"

lemma endings_simps [simp]:
  "endings [] = {#}" "endings (es @ es') = endings es + endings es'"
  "endings (EvCancelled g s # es) = add_mset g (endings es)"
  "endings (EvFinished g s d fs # es) = add_mset g (endings es)"
  "endings (EvStarted st # es) = endings es"
  by (simp_all add: endings_def map_filter_def)

lemma queue_ids_remove_at:
  "i < length q \<Longrightarrow> queue_ids q = command_ids (q ! i) + queue_ids (remove_at i q)"
  by (subst id_take_nth_drop [of i q]) (auto simp: remove_at_def)

lemma queue_ids_update:
  "i < length q \<Longrightarrow> command_ids (q ! i) + queue_ids (q[i := c]) = command_ids c + queue_ids q"
  using queue_ids_remove_at [of i q] queue_ids_remove_at [of i "q[i := c]"]
  by (simp add: remove_at_def ac_simps)

lemma is_run_ids: "is_run c \<longleftrightarrow> (\<exists>req. c = RunCmd req)"
  by (cases c) simp_all

lemma queue_ids_no_run: "\<forall>c\<in>set q. \<not> is_run c \<Longrightarrow> queue_ids q = {#}"
proof (induction q)
  case (Cons c q)
  then show ?case by (cases c) auto
qed simp

lemma drop_bare_cancels_append: "\<exists>cs. q = drop_bare_cancels q @ cs \<and> list_all is_bare_cancel cs"
  by (rule exI [of _ "rev (takeWhile is_bare_cancel (rev q))"])
    (auto simp: drop_bare_cancels_def list_all_iff simp flip: rev_append dest: set_takeWhileD)

lemma bare_cancel_ids: "list_all is_bare_cancel cs \<Longrightarrow> queue_ids cs = {#}"
  by (induction cs) (auto elim!: is_bare_cancel.elims)

lemma drop_bare_cancels_ids [simp]: "queue_ids (drop_bare_cancels q) = queue_ids q"
  by (metis drop_bare_cancels_append bare_cancel_ids queue_ids_simps(3) add.right_neutral)

lemma enqueue_run_accounts:
  "enqueue_run req q = (es, q') \<Longrightarrow> add_mset (rq_run_id req) (queue_ids q) = queue_ids q' + endings es"
  using queue_ids_update [of _ "drop_bare_cancels q" "RunCmd req"]
  by (force simp: enqueue_run_def Let_def is_run_ids split: option.splits dest!: rposition_Some)

lemma cancel_queued_runs_spec:
  "cancel_queued_runs q = (es, q') \<Longrightarrow>
     q' = filter (\<lambda>c. \<not> is_run c) q \<and> queue_ids q = endings es \<and> list_all (\<lambda>e. \<exists>g. e = EvCancelled g None) es"
proof (induction q arbitrary: es q' rule: cancel_queued_runs.induct)
  case (1 q)
  show ?case
  proof (cases "position is_run q")
    case None
    then have n: "\<forall>c\<in>set q. \<not> is_run c" by (simp add: position_None)
    with None 1(2) queue_ids_no_run [OF n] show ?thesis by (simp add: cancel_queued_runs.simps [of q])
  next
    case (Some pos)
    obtain es1 q1 where r: "cancel_queued_runs (remove_at pos q) = (es1, q1)" by (metis surj_pair)
    from position_Some [OF Some] obtain req where p: "pos < length q" "q ! pos = RunCmd req" by (auto simp: is_run_ids)
    have "filter (\<lambda>c. \<not> is_run c) (remove_at pos q) = filter (\<lambda>c. \<not> is_run c) q"
      using id_take_nth_drop [OF p(1)] p(2)
      by (metis filter.simps(2) filter_append is_run.simps(1) remove_at_def)
    with Some r p 1(2) "1.IH" [OF Some r] queue_ids_remove_at [OF p(1)] show ?thesis
      by (auto simp: cancel_queued_runs.simps [of q])
  qed
qed

lemma send_reply_queue [simp]:
  "sc_queue (send_reply c r sc) = sc_queue sc" "sc_closed (send_reply c r sc) = sc_closed sc"
  "sc_registered (send_reply c r sc) = sc_registered sc"
  by (simp_all add: send_reply_def split: option.split)

lemma enqueue_accounts:
  assumes "enqueue c sc = (es, sc')"
  shows "command_ids c + queue_ids (sc_queue sc) = queue_ids (sc_queue sc') + endings es"
proof (cases c)
  case (RunCmd req)
  with assms enqueue_run_accounts [of req "sc_queue sc"] show ?thesis
    by (auto simp: enqueue_def split: prod.splits)
next
  case (CancelCmd generation channel)
  show ?thesis
  proof (cases generation)
    case None
    with CancelCmd assms show ?thesis
      by (auto simp: enqueue_def queue_ids_no_run split: prod.splits dest!: cancel_queued_runs_spec)
  next
    case (Some g)
    with CancelCmd assms show ?thesis
      by (auto simp: enqueue_def split: option.splits dest!: position_Some)
        (simp add: queue_ids_remove_at command_ids_def)
  qed
qed (use assms in \<open>auto simp: enqueue_def\<close>)

text \<open>At most one run is queued.\<close>

definition single_run :: "worker_command list \<Rightarrow> bool" where
  "single_run q \<longleftrightarrow> length (filter is_run q) \<le> 1"

lemma single_run_bare_cancels: "single_run q \<Longrightarrow> single_run (drop_bare_cancels q)"
  by (metis drop_bare_cancels_append single_run_def filter_append length_append le_add1 order_trans)

lemma filter_run_update:
  "i < length q \<Longrightarrow> is_run (q ! i) \<Longrightarrow> length (filter is_run (q[i := RunCmd req])) = length (filter is_run q)"
  by (induction q arbitrary: i) (auto simp: nth_Cons' split: nat.splits)

lemma remove_at_runs: "length (filter is_run (remove_at i q)) \<le> length (filter is_run q)"
  by (metis remove_at_def append_take_drop_id filter_append length_append add_left_mono drop_drop
      nat_add_left_cancel_le le_add2 plus_1_eq_Suc)

lemma single_run_enqueue:
  assumes "enqueue c sc = (es, sc')" and "single_run (sc_queue sc)"
  shows "single_run (sc_queue sc')"
proof (cases c)
  case (RunCmd req)
  let ?q = "drop_bare_cancels (sc_queue sc)"
  show ?thesis
  proof (cases "rposition is_run ?q")
    case None
    then have "filter is_run ?q = []" by (simp add: rposition_None filter_empty_conv)
    with RunCmd None assms(1) show ?thesis by (auto simp: enqueue_def enqueue_run_def single_run_def)
  next
    case (Some i)
    with RunCmd assms(1) rposition_Some [OF Some] single_run_bare_cancels [OF assms(2)] show ?thesis
      by (auto simp: enqueue_def enqueue_run_def single_run_def filter_run_update Let_def)
  qed
next
  case (CancelCmd generation channel)
  with assms show ?thesis
    by (auto simp: enqueue_def single_run_def remove_at_runs [THEN order_trans] split: option.splits prod.splits
        dest!: cancel_queued_runs_spec)
qed (use assms in \<open>auto simp: enqueue_def single_run_def\<close>)

lemma try_recv_Some:
  "try_recv sc = Some (c, sc') \<longleftrightarrow> sc_queue sc = c # sc_queue sc' \<and> sc' = sc\<lparr>sc_queue := sc_queue sc'\<rparr>"
  by (cases sc, cases sc') (auto simp: try_recv_def split: list.split)

section \<open>The stream contract\<close>

text \<open>Any interleaving of senders and the receiver is a sequence of operations on the stream.\<close>

datatype 'c stream_op = Put 'c | Get

fun stream_run ::
  "('c \<Rightarrow> 's \<Rightarrow> event list \<times> 's) \<Rightarrow> ('s \<Rightarrow> ('c \<times> 's) option) \<Rightarrow> 'c stream_op list \<Rightarrow> 's \<Rightarrow>
   'c list \<times> event list \<times> 's" where
  "stream_run put get [] s = ([], [], s)"
| "stream_run put get (Put c # ops) s =
     (let (es, s) = put c s; (cs, es', s) = stream_run put get ops s in (cs, es @ es', s))"
| "stream_run put get (Get # ops) s =
     (case get s of
        None \<Rightarrow> stream_run put get ops s
      | Some (c, s) \<Rightarrow> (let (cs, es, s) = stream_run put get ops s in (c # cs, es, s)))"

fun sent :: "'c stream_op list \<Rightarrow> 'c list" where
  "sent [] = []"
| "sent (Put c # ops) = c # sent ops"
| "sent (Get # ops) = sent ops"

locale command_stream =
  fixes put :: "'c \<Rightarrow> 's \<Rightarrow> event list \<times> 's" and get :: "'s \<Rightarrow> ('c \<times> 's) option"
    and ids :: "'s \<Rightarrow> nat multiset" and cids :: "'c \<Rightarrow> nat multiset" and ok :: "'s \<Rightarrow> bool"
  assumes put_accounts: "put c s = (es, s') \<Longrightarrow> cids c + ids s = ids s' + endings es"
    and get_accounts: "get s = Some (c, s') \<Longrightarrow> ids s = cids c + ids s'"
    and put_ok: "put c s = (es, s') \<Longrightarrow> ok s \<Longrightarrow> ok s'"
    and get_ok: "get s = Some (c, s') \<Longrightarrow> ok s \<Longrightarrow> ok s'"
begin

lemma stream_accounts:
  "stream_run put get ops s = (cs, es, s') \<Longrightarrow> ok s \<Longrightarrow>
     sum_list (map cids (sent ops)) + ids s = sum_list (map cids cs) + ids s' + endings es \<and> ok s'"
proof (induction ops arbitrary: s cs es s')
  case (Cons op ops)
  show ?case
  proof (cases op)
    case (Put c)
    obtain es1 s1 where p: "put c s = (es1, s1)" by (metis surj_pair)
    obtain cs2 es2 s2 where r: "stream_run put get ops s1 = (cs2, es2, s2)" by (metis prod_cases3)
    from Cons.IH [OF r] put_ok [OF p] Cons.prems put_accounts [OF p] Put p r show ?thesis
      by (auto simp: ac_simps) (metis (no_types, lifting) add.assoc add.commute)
  next
    case Get
    show ?thesis
    proof (cases "get s")
      case None
      with Cons Get show ?thesis by simp
    next
      case (Some cs1)
      obtain c s1 where p: "get s = Some (c, s1)" using Some by (metis surj_pair)
      obtain cs2 es2 s2 where r: "stream_run put get ops s1 = (cs2, es2, s2)" by (metis prod_cases3)
      from Cons.IH [OF r] get_ok [OF p] Cons.prems get_accounts [OF p] Get p r show ?thesis
        by (auto simp: ac_simps)
    qed
  qed
qed simp

end

interpretation requests: command_stream enqueue try_recv "\<lambda>sc. queue_ids (sc_queue sc)" command_ids "\<lambda>sc. single_run (sc_queue sc)"
  by unfold_locales
    (auto simp: enqueue_accounts try_recv_Some single_run_def split: if_splits
      dest: single_run_enqueue [unfolded single_run_def])

text \<open>
  C17. Whatever the senders and the consumer do, in any interleaving, every run that is sent is exactly
  once handed to the consumer, still queued or reported as cancelled by its sender; and at most one
  run is queued. So a queued generation that is superseded never disappears from the event stream.
\<close>

theorem queued_runs_never_disappear:
  assumes "stream_run enqueue try_recv ops scheduler_new = (cs, es, sc)"
  shows "queue_ids (sent ops) = queue_ids cs + queue_ids (sc_queue sc) + endings es \<and> single_run (sc_queue sc)"
proof -
  have sum: "sum_list (map command_ids q) = queue_ids q" for q by (induction q) simp_all
  show ?thesis
    using requests.stream_accounts [OF assms] by (simp add: sum scheduler_new_def single_run_def)
qed

definition demo_request :: "nat \<Rightarrow> run_request" where
  "demo_request g =
     \<lparr>rq_run_id = g, rq_plan = \<lparr>stages = []\<rparr>, rq_trigger = ''src/main.rs'', rq_batch = None,
      rq_changed = [], rq_predecessor = None, rq_target = None, rq_execution_signature = None,
      rq_effective_concurrency = None, rq_concurrency_source = None, rq_hooks = no_hooks,
      rq_recovery_policy = Prompt, rq_revision = None, rq_revision_hash = None\<rparr>"

text \<open>Run 1 is handed over, run 2 is replaced by run 3, and run 3 stays queued.\<close>

theorem queued_runs_never_disappear_witness:
  "\<exists>sc. stream_run enqueue try_recv
          [Put (RunCmd (demo_request 1)), Get, Put (RunCmd (demo_request 2)), Put (RunCmd (demo_request 3))]
          scheduler_new = ([RunCmd (demo_request 1)], [EvCancelled 2 (Some 3)], sc) \<and>
        single_run (sc_queue sc) \<and> queue_ids (sc_queue sc) = {#3#}"
proof -
  have r: "stream_run enqueue try_recv
      [Put (RunCmd (demo_request 1)), Get, Put (RunCmd (demo_request 2)), Put (RunCmd (demo_request 3))] scheduler_new =
    ([RunCmd (demo_request 1)], [EvCancelled 2 (Some 3)], scheduler_new\<lparr>sc_queue := [RunCmd (demo_request 3)]\<rparr>)"
    by (simp add: enqueue_def enqueue_run_def drop_bare_cancels_def scheduler_new_def try_recv_def demo_request_def)
  show ?thesis using queued_runs_never_disappear [OF r] r by (auto simp: demo_request_def)
qed

end
