(* ===== verification/Workers.thy ===== *)
theory Workers
  imports Scheduler Awaiting
begin

text \<open>
  The worker of \<open>src/src/workers.rs\<close>: the scheduling operations that producers call (\<open>schedule_plan\<close>,
  \<open>schedule_target\<close>, \<open>cancel_generation\<close>, \<open>reconcile_services\<close>, \<open>start_services\<close>, the setters of a
  reload) and the consumer thread that owns the active run.

  The consumer is one definition per turn of its loop. A turn is cut where it reads the command
  queue, because producers may send between two reads: \<open>top_step\<close> is the part up to the end of
  \<open>advance\<close>, \<open>polled_step\<close> the handling of the command read after it, \<open>drain_step\<close> one turn of the
  burst drain. A turn that blocks or whose call never returns has no result. The presentation of
  the results on standard output is left out.
\<close>

section \<open>Producers\<close>

record worker =
  wk_open :: bool
  wk_next_run_id :: nat
  wk_root :: string
  wk_concurrency :: nat
  wk_fail_fast :: bool
  wk_recovery_policy :: recovery_policy
  wk_hooks :: generation_hooks
  wk_revision :: "config_revision option"

definition worker_new :: "string \<Rightarrow> nat \<Rightarrow> bool \<Rightarrow> worker" where
  "worker_new root concurrency fail_fast =
     \<lparr>wk_open = True, wk_next_run_id = 0, wk_root = root, wk_concurrency = concurrency,
      wk_fail_fast = fail_fast, wk_recovery_policy = Prompt, wk_hooks = no_hooks, wk_revision = None\<rparr>"

text \<open>\<open>assert!(concurrency > 0)\<close>: \<^const>\<open>None\<close> is the panic.\<close>

definition set_concurrency :: "nat \<Rightarrow> worker \<Rightarrow> worker option" where
  "set_concurrency n wk = (if 0 < n then Some (wk\<lparr>wk_concurrency := n\<rparr>) else None)"

definition set_recovery_policy :: "recovery_policy \<Rightarrow> worker \<Rightarrow> worker" where
  "set_recovery_policy policy wk = wk\<lparr>wk_recovery_policy := policy\<rparr>"

definition set_hooks :: "generation_hooks \<Rightarrow> worker \<Rightarrow> worker" where
  "set_hooks hooks wk = wk\<lparr>wk_hooks := hooks\<rparr>"

definition set_revision :: "config_revision \<Rightarrow> worker \<Rightarrow> worker" where
  "set_revision revision wk = wk\<lparr>wk_revision := Some revision\<rparr>"

definition next_id :: "worker \<Rightarrow> nat \<times> worker" where
  "next_id wk = (wk_next_run_id wk + 1, wk\<lparr>wk_next_run_id := wk_next_run_id wk + 1\<rparr>)"

text \<open>The warnings about unknown template variables are left out.\<close>

definition prepare_request ::
  "file_system \<Rightarrow> worker \<Rightarrow> run_plan \<Rightarrow> string \<Rightarrow> string option \<Rightarrow> nat option \<Rightarrow> string list \<Rightarrow>
   config_revision option \<Rightarrow> (run_request \<times> worker) result" where
  "prepare_request fs wk plan trigger filepath batch changed caller_revision =
     (case resolve_context fs (wk_root wk) plan of
        Inl err \<Rightarrow> Inl err
      | Inr plan \<Rightarrow>
          (let (plan, unknown) = expand_plan
                 \<lparr>opt_filepath = filepath, opt_paths = changed, opt_current_dir = wk_root wk\<rparr> plan;
               (run_id, wk) = next_id wk;
               revision = (case caller_revision of Some r \<Rightarrow> Some r | None \<Rightarrow> wk_revision wk)
           in Inr (\<lparr>rq_run_id = run_id, rq_plan = plan, rq_trigger = trigger, rq_batch = batch,
                    rq_changed = changed, rq_predecessor = None, rq_target = None,
                    rq_execution_signature = None, rq_effective_concurrency = None,
                    rq_concurrency_source = None, rq_hooks = wk_hooks wk,
                    rq_recovery_policy = wk_recovery_policy wk,
                    rq_revision = map_option rev_number revision,
                    rq_revision_hash = map_option rev_hash revision\<rparr>, wk)))"

definition target_request ::
  "(bytes \<Rightarrow> bytes) \<Rightarrow> worker \<Rightarrow> string \<Rightarrow> bool \<Rightarrow> run_request \<Rightarrow> run_request" where
  "target_request digest wk target sequential request =
     (let effective = (if sequential then 1 else wk_concurrency wk)
      in request\<lparr>rq_target := Some target,
           rq_execution_signature := Some (execution_signature digest (rq_plan request) effective (wk_fail_fast wk)),
           rq_effective_concurrency := Some effective,
           rq_concurrency_source := (if sequential then Some ''control'' else None),
           rq_hooks := wk_hooks wk\<rparr>)"

section \<open>The consumer\<close>

datatype phase = AtTop | Polled | Draining | Stopped

record 'w consumer =
  cs_scheduler :: scheduler
  cs_active :: "run option"
  cs_pending :: "run_request option"
  cs_phase :: phase
  cs_world :: "'w world"

definition consumer_new :: "'w world \<Rightarrow> 'w consumer" where
  "consumer_new w =
     \<lparr>cs_scheduler = scheduler_new, cs_active = None, cs_pending = None, cs_phase = AtTop, cs_world = w\<rparr>"

definition metadata_of :: "run_request \<Rightarrow> run_metadata" where
  "metadata_of req =
     with_revision (case rq_revision req of Some n \<Rightarrow> n | None \<Rightarrow> 0)
       (case rq_revision_hash req of Some h \<Rightarrow> h | None \<Rightarrow> [])
     (with_recovery_policy (rq_recovery_policy req)
     (with_hooks (rq_hooks req)
     (with_concurrency_source (rq_concurrency_source req)
     (with_effective_concurrency (rq_effective_concurrency req)
     (with_duration_profile (rq_target req) (rq_execution_signature req)
     (correlated (rq_run_id req) (rq_trigger req) (rq_batch req) (rq_predecessor req) (rq_changed req)))))))"

definition services_metadata :: "nat \<Rightarrow> config_revision option \<Rightarrow> run_metadata" where
  "services_metadata g revision =
     with_revision (case revision of Some r \<Rightarrow> rev_number r | None \<Rightarrow> 0)
       (case revision of Some r \<Rightarrow> rev_hash r | None \<Rightarrow> [])
     (correlated g ''reload:services'' None None [])"

definition on_scheduler :: "(scheduler \<Rightarrow> scheduler) \<Rightarrow> 'w consumer \<Rightarrow> 'w consumer" where
  "on_scheduler f s = s\<lparr>cs_scheduler := f (cs_scheduler s)\<rparr>"

definition answer :: "nat option \<Rightarrow> reply \<Rightarrow> 'w consumer \<Rightarrow> 'w consumer" where
  "answer channel r = on_scheduler (send_reply channel r)"

definition start_run :: "'w executor \<Rightarrow> run_metadata \<Rightarrow> run_plan \<Rightarrow> 'w consumer \<Rightarrow> 'w consumer" where
  "start_run x m plan s =
     (let (run, w) = start x m plan (cs_world s)
      in on_scheduler (register_active (run_id run)) (s\<lparr>cs_active := Some run, cs_world := w\<rparr>))"

definition stop_run :: "'w executor \<Rightarrow> run \<Rightarrow> nat option \<Rightarrow> 'w consumer \<Rightarrow> cancel_disposition \<times> run \<times> 'w consumer" where
  "stop_run x run superseded_by s =
     (let s = on_scheduler (unregister_active (run_id run)) (s\<lparr>cs_active := None\<rparr>);
          (disposition, run, w) = cancel x run superseded_by (cs_world s)
      in (disposition, run, s\<lparr>cs_world := w\<rparr>))"

text \<open>A command received while no run is active.\<close>

definition idle_command :: "'w executor \<Rightarrow> worker_command \<Rightarrow> 'w consumer \<Rightarrow> 'w consumer" where
  "idle_command x command s =
     (case command of
        RunCmd req \<Rightarrow> start_run x (metadata_of req) (rq_plan req) s
      | CancelCmd generation channel \<Rightarrow>
          (if generation \<noteq> None then answer channel (CancelReply Noop) s else s)
      | ReconcileServices stop_names channel \<Rightarrow> answer (Some channel) (ReconcileReply []) s
      | StartServices g plan revision \<Rightarrow> start_run x (services_metadata g revision) plan s)"

definition top_step :: "'w executor \<Rightarrow> 'w consumer \<Rightarrow> 'w consumer option" where
  "top_step x s =
     (case cs_active s of
        None \<Rightarrow>
          (case cs_pending s of
             Some req \<Rightarrow> Some (start_run x (metadata_of req) (rq_plan req) (s\<lparr>cs_pending := None\<rparr>))
           | None \<Rightarrow>
               (case receive (cs_scheduler s) of
                  Blocked \<Rightarrow> None
                | Closed \<Rightarrow> Some (s\<lparr>cs_phase := Stopped\<rparr>)
                | Woken command sc \<Rightarrow> Some (idle_command x command (s\<lparr>cs_scheduler := sc\<rparr>))))
      | Some run \<Rightarrow>
          (case advance x run (cs_world s) of
             None \<Rightarrow> None
           | Some (Running, run, w) \<Rightarrow>
               Some (s\<lparr>cs_active := Some run, cs_phase := Polled, cs_world := w\<rparr>)
           | Some (Finished, run, w) \<Rightarrow>
               (case finish x run w of
                  None \<Rightarrow> None
                | Some (completed, w) \<Rightarrow>
                    Some (on_scheduler (unregister_active (run_id run))
                      (s\<lparr>cs_active := None, cs_world := w\<rparr>)))))"

text \<open>A command read after an \<open>advance\<close> that left the run running.\<close>

definition running_command :: "'w executor \<Rightarrow> run \<Rightarrow> worker_command \<Rightarrow> 'w consumer \<Rightarrow> 'w consumer" where
  "running_command x run command s =
     (case command of
        RunCmd req \<Rightarrow>
          (let (_, _, s) = stop_run x run (Some (rq_run_id req)) s
           in s\<lparr>cs_pending := Some (req\<lparr>rq_predecessor := Some (run_id run)\<rparr>), cs_phase := Draining\<rparr>)
      | ReconcileServices stop_names channel \<Rightarrow>
          (let (still, run, w) = reconcile_services x run stop_names (cs_world s)
           in answer (Some channel) (ReconcileReply still)
                (s\<lparr>cs_active := Some run, cs_world := w, cs_phase := AtTop\<rparr>))
      | StartServices g plan revision \<Rightarrow>
          s\<lparr>cs_active := Some (append_plan run plan), cs_phase := AtTop\<rparr>
      | CancelCmd (Some g) channel \<Rightarrow>
          (if run_id run = g then
             (let (disposition, cancelled, s) = stop_run x run None s;
                  revision = run_revision cancelled
              in answer channel (CancelReply (RunCancelled disposition (map_option rev_number revision)
                   (map_option rev_hash revision))) (s\<lparr>cs_phase := AtTop\<rparr>))
           else answer channel (CancelReply Noop) (s\<lparr>cs_phase := AtTop\<rparr>))
      | CancelCmd None channel \<Rightarrow>
          (let (_, _, s) = stop_run x run None s in s\<lparr>cs_phase := AtTop\<rparr>))"

definition polled_step :: "'w executor \<Rightarrow> 'w consumer \<Rightarrow> 'w consumer option" where
  "polled_step x s =
     (case cs_active s of
        None \<Rightarrow> None
      | Some run \<Rightarrow>
          (case try_recv (cs_scheduler s) of
             None \<Rightarrow> Some (s\<lparr>cs_phase := AtTop\<rparr>)
           | Some (command, sc) \<Rightarrow> Some (running_command x run command (s\<lparr>cs_scheduler := sc\<rparr>))))"

text \<open>The burst drain; every other command ends it and has been taken from the queue.\<close>

definition pending_is :: "nat \<Rightarrow> 'w consumer \<Rightarrow> bool" where
  "pending_is g s \<longleftrightarrow> (case cs_pending s of None \<Rightarrow> False | Some req \<Rightarrow> rq_run_id req = g)"

definition drain_command :: "worker_command \<Rightarrow> 'w consumer \<Rightarrow> 'w consumer" where
  "drain_command command s =
     (case command of
        RunCmd later \<Rightarrow> s\<lparr>cs_pending := Some later\<rparr>
      | CancelCmd (Some g) channel \<Rightarrow>
          (case cs_pending s of
             Some req \<Rightarrow>
               (if rq_run_id req = g
                then answer channel (CancelReply (RunCancelled Graceful (rq_revision req) (rq_revision_hash req)))
                       (s\<lparr>cs_pending := None\<rparr>)
                else answer channel (CancelReply Noop) s)
           | None \<Rightarrow> answer channel (CancelReply Noop) s)
      | _ \<Rightarrow> s\<lparr>cs_phase := AtTop\<rparr>)"

definition drain_step :: "'w consumer \<Rightarrow> 'w consumer" where
  "drain_step s =
     (case try_recv (cs_scheduler s) of
        None \<Rightarrow> s\<lparr>cs_phase := AtTop\<rparr>
      | Some (command, sc) \<Rightarrow> drain_command command (s\<lparr>cs_scheduler := sc\<rparr>))"

definition consumer_step :: "'w executor \<Rightarrow> 'w consumer \<Rightarrow> 'w consumer option" where
  "consumer_step x s =
     (case cs_phase s of
        AtTop \<Rightarrow> top_step x s
      | Polled \<Rightarrow> polled_step x s
      | Draining \<Rightarrow> Some (drain_step s)
      | Stopped \<Rightarrow> None)"

section \<open>Sending through the scheduler\<close>

definition put_command :: "worker_command \<Rightarrow> 'w consumer \<Rightarrow> 'w consumer" where
  "put_command command s =
     (let (es, sc) = enqueue command (cs_scheduler s)
      in s\<lparr>cs_scheduler := sc, cs_world := fold emit es (cs_world s)\<rparr>)"

definition signal_command :: "(nat \<Rightarrow> 'w \<Rightarrow> 'w) \<Rightarrow> worker_command \<Rightarrow> 'w consumer \<Rightarrow> 'w consumer" where
  "signal_command token command s =
     s\<lparr>cs_world := (cs_world s)\<lparr>wd_env := signal token command (cs_scheduler s) (wd_env (cs_world s))\<rparr>\<rparr>"

text \<open>\<open>Scheduler::send\<close>: the tokens first, then the queue.\<close>

definition send :: "(nat \<Rightarrow> 'w \<Rightarrow> 'w) \<Rightarrow> worker_command \<Rightarrow> 'w consumer \<Rightarrow> 'w consumer" where
  "send token command s = put_command command (signal_command token command s)"

definition scheduler_unavailable :: string where
  "scheduler_unavailable = ''worker scheduler is unavailable''"

definition dispatch ::
  "(nat \<Rightarrow> 'w \<Rightarrow> 'w) \<Rightarrow> worker \<Rightarrow> run_request \<Rightarrow> 'w consumer \<Rightarrow> nat result \<times> 'w consumer" where
  "dispatch token wk request s =
     (if wk_open wk then (Inr (rq_run_id request), send token (RunCmd request) s)
      else (Inl scheduler_unavailable, s))"

definition schedule_plan_correlated ::
  "(nat \<Rightarrow> 'w \<Rightarrow> 'w) \<Rightarrow> file_system \<Rightarrow> run_plan \<Rightarrow> string \<Rightarrow> string option \<Rightarrow> nat option \<Rightarrow> string list \<Rightarrow>
   config_revision option \<Rightarrow> worker \<Rightarrow> 'w consumer \<Rightarrow> nat result \<times> worker \<times> 'w consumer" where
  "schedule_plan_correlated token fs plan trigger filepath batch changed revision wk s =
     (case prepare_request fs wk plan trigger filepath batch changed revision of
        Inl err \<Rightarrow> (Inl err, wk, s)
      | Inr (request, wk) \<Rightarrow> (let (r, s) = dispatch token wk request s in (r, wk, s)))"

definition schedule_plan_with_trigger where
  "schedule_plan_with_trigger token fs plan trigger filepath revision wk s =
     schedule_plan_correlated token fs plan trigger filepath None [] revision wk s"

definition schedule_plan where
  "schedule_plan token fs plan filepath revision wk s =
     schedule_plan_with_trigger token fs plan filepath (Some filepath) revision wk s"

definition schedule where
  "schedule token fs rs filepath wk s = schedule_plan token fs (from_rules rs) filepath None wk s"

definition schedule_target ::
  "(bytes \<Rightarrow> bytes) \<Rightarrow> (nat \<Rightarrow> 'w \<Rightarrow> 'w) \<Rightarrow> file_system \<Rightarrow> run_plan \<Rightarrow> string \<Rightarrow> bool \<Rightarrow>
   config_revision option \<Rightarrow> worker \<Rightarrow> 'w consumer \<Rightarrow> nat result \<times> worker \<times> 'w consumer" where
  "schedule_target digest token fs plan target sequential revision wk s =
     (case prepare_request fs wk plan (''control:'' @ target) None None [] revision of
        Inl err \<Rightarrow> (Inl err, wk, s)
      | Inr (request, wk) \<Rightarrow>
          (let (r, s) = dispatch token wk (target_request digest wk target sequential request) s
           in (r, wk, s)))"

definition cancel_running_tasks where
  "cancel_running_tasks token wk s = (if wk_open wk then send token (CancelCmd None None) s else s)"

text \<open>The caller's channel is fresh; the answer is what has arrived on it when the wait ends.\<close>

definition cancel_generation where
  "cancel_generation token g channel wk s =
     (if wk_open wk then Inr (send token (CancelCmd (Some g) (Some channel)) s)
      else Inl scheduler_unavailable)"

definition receipt :: "string \<Rightarrow> nat \<Rightarrow> 'w consumer \<Rightarrow> reply result" where
  "receipt timed_out channel s =
     (case map_of (sc_replies (cs_scheduler s)) channel of Some r \<Rightarrow> Inr r | None \<Rightarrow> Inl timed_out)"

definition send_reconcile where
  "send_reconcile token stop_names channel wk s =
     (if wk_open wk then Inr (send token (ReconcileServices stop_names channel) s)
      else Inl scheduler_unavailable)"

definition start_services where
  "start_services token plan wk s =
     (if wk_open wk then
        (let (run_id, wk) = next_id wk
         in (Inr run_id, wk, send token (StartServices run_id plan (wk_revision wk)) s))
      else (Inl scheduler_unavailable, wk, s))"

text \<open>\<open>Drop for Worker\<close>, up to the join of the consumer.\<close>

definition drop_worker where
  "drop_worker token wk s =
     (if wk_open wk
      then (wk\<lparr>wk_open := False\<rparr>, on_scheduler close (send token (CancelCmd None None) s))
      else (wk, s))"

end
