(* ===== verification/Worker_Properties.thy ===== *)
theory Worker_Properties
  imports Workers
begin

text \<open>
  What the worker promises about generations. The specification is a ledger: the generations that
  wait, the one that is active, the boundary events published so far and the generations that have
  left the worker without an event. The worker refines it step by step, under every runtime and
  every interleaving of producers and consumer; the properties of the ledger are proved by rule
  induction on its steps.
\<close>

section \<open>The ledger\<close>

record ledger =
  lg_waiting :: "nat multiset"
  lg_active :: "nat option"
  lg_events :: "event list"
  lg_accepted :: "nat multiset"
  lg_lost :: "nat multiset"

definition ledger_new :: ledger where
  "ledger_new = \<lparr>lg_waiting = {#}, lg_active = None, lg_events = [], lg_accepted = {#}, lg_lost = {#}\<rparr>"

inductive ledger_step :: "ledger \<Rightarrow> ledger \<Rightarrow> bool" where
  accept: "ledger_step l (l\<lparr>lg_waiting := add_mset g (lg_waiting l), lg_accepted := add_mset g (lg_accepted l)\<rparr>)"
| discard: "g \<in># lg_waiting l \<Longrightarrow>
    ledger_step l (l\<lparr>lg_waiting := lg_waiting l - {#g#}, lg_events := lg_events l @ [EvCancelled g sb]\<rparr>)"
| launch: "lg_active l = None \<Longrightarrow> st_run_id st \<in># lg_waiting l \<Longrightarrow>
    ledger_step l (l\<lparr>lg_waiting := lg_waiting l - {#st_run_id st#}, lg_active := Some (st_run_id st),
      lg_events := lg_events l @ [EvStarted st]\<rparr>)"
| conclude: "lg_active l = Some g \<Longrightarrow> ended e = Some g \<Longrightarrow>
    ledger_step l (l\<lparr>lg_active := None, lg_events := lg_events l @ [e]\<rparr>)"
| lose: "g \<in># lg_waiting l \<Longrightarrow>
    ledger_step l (l\<lparr>lg_waiting := lg_waiting l - {#g#}, lg_lost := add_mset g (lg_lost l)\<rparr>)"

text \<open>The life of a generation, read off the events that carry its identity.\<close>

datatype fate = Unseen | Begun | Settled | Broken

fun live :: "nat \<Rightarrow> event \<Rightarrow> fate \<Rightarrow> fate" where
  "live g (EvStarted st) f = (if st_run_id st = g then (if f = Unseen then Begun else Broken) else f)"
| "live g (EvFinished r s d fs) f = (if r = g then (if f = Begun then Settled else Broken) else f)"
| "live g (EvCancelled r s) f = (if r = g then (if f = Unseen \<or> f = Begun then Settled else Broken) else f)"
| "live g _ f = f"

definition fate_of :: "nat \<Rightarrow> event list \<Rightarrow> fate" where
  "fate_of g es = fold (live g) es Unseen"

lemma fate_of_snoc [simp]: "fate_of g (es @ [e]) = live g e (fate_of g es)" "fate_of g [] = Unseen"
  by (simp_all add: fate_of_def)

lemma fate_of_boundaries: "fate_of g (filter is_boundary es) = fate_of g es"
proof (induction es rule: rev_induct)
  case (snoc e es)
  then show ?case by (cases e) simp_all
qed simp

text \<open>Where a generation is, counted.\<close>

definition booked :: "nat \<Rightarrow> ledger \<Rightarrow> bool" where
  "booked g l \<longleftrightarrow>
     count (lg_waiting l) g + count (lg_lost l) g +
       (if fate_of g (lg_events l) = Unseen then 0 else 1) = count (lg_accepted l) g \<and>
     (lg_active l = Some g \<longleftrightarrow> fate_of g (lg_events l) = Begun) \<and> fate_of g (lg_events l) \<noteq> Broken"

lemma accepted_mono: "ledger_step l l' \<Longrightarrow> count (lg_accepted l) g \<le> count (lg_accepted l') g"
  by (induction rule: ledger_step.induct) auto

lemma waiting_Suc: "g \<in># M \<Longrightarrow> \<exists>n. count M g = Suc n"
  by (metis count_greater_zero_iff gr0_implies_Suc)

lemma booked_step:
  assumes "ledger_step l l'" and "booked g l" and "count (lg_accepted l') g \<le> 1"
  shows "booked g l'"
  using assms
proof (induction rule: ledger_step.induct)
  case (discard h l sb)
  then obtain n where "count (lg_waiting l) h = Suc n" by (auto dest: waiting_Suc)
  with discard show ?case by (cases "h = g") (auto simp: booked_def split: if_splits)
next
  case (launch l st)
  then obtain n where "count (lg_waiting l) (st_run_id st) = Suc n" by (auto dest: waiting_Suc)
  with launch show ?case by (cases "st_run_id st = g") (auto simp: booked_def split: if_splits)
next
  case (conclude l h e)
  then show ?case by (cases e) (auto simp: booked_def split: if_splits)
next
  case (lose h l)
  then obtain n where "count (lg_waiting l) h = Suc n" by (auto dest: waiting_Suc)
  with lose show ?case by (cases "h = g") (auto simp: booked_def split: if_splits)
qed (auto simp: booked_def split: if_splits)

lemma booked_steps:
  "ledger_step\<^sup>*\<^sup>* l l' \<Longrightarrow> booked g l \<Longrightarrow> count (lg_accepted l') g \<le> 1 \<Longrightarrow> booked g l'"
proof (induction rule: rtranclp_induct)
  case (step l' l'')
  then show ?case using accepted_mono [of l' l'' g] booked_step by fastforce
qed

section \<open>Executions of the worker\<close>

text \<open>Generations that a service plan opens when no run is active.\<close>

definition opened :: "'w consumer \<Rightarrow> nat multiset" where
  "opened s = (if cs_phase s = AtTop \<and> cs_active s = None \<and> cs_pending s = None then
     (case sc_queue (cs_scheduler s) of StartServices g plan revision # q \<Rightarrow> {#g#} | _ \<Rightarrow> {#}) else {#})"

text \<open>Generations that leave the pending slot in a drain, without an event.\<close>

definition pending_ids :: "'w consumer \<Rightarrow> nat multiset" where
  "pending_ids s = (case cs_pending s of None \<Rightarrow> {#} | Some req \<Rightarrow> {#rq_run_id req#})"

definition dropped :: "'w consumer \<Rightarrow> nat multiset" where
  "dropped s = (if cs_phase s = Draining then
     (case sc_queue (cs_scheduler s) of
        RunCmd later # q \<Rightarrow> pending_ids s
      | CancelCmd (Some g) channel # q \<Rightarrow> if pending_is g s then {#g#} else {#}
      | _ \<Rightarrow> {#}) else {#})"

text \<open>
  Any interleaving of sends, consumer turns and changes of the environment (which include the
  tokens that \<open>send\<close> sets). The first multiset holds the generations handed to the worker, the
  second those it dropped.
\<close>

inductive executes :: "nat multiset \<Rightarrow> nat multiset \<Rightarrow> 'w consumer \<Rightarrow> bool" where
  created: "boundaries w = [] \<Longrightarrow> executes {#} {#} (consumer_new w)"
| sent: "executes acc lost s \<Longrightarrow> executes (command_ids c + acc) lost (put_command c s)"
| closed: "executes acc lost s \<Longrightarrow> executes acc lost (on_scheduler close s)"
| stepped: "executes acc lost s \<Longrightarrow> consumer_step x s = Some s' \<Longrightarrow>
    executes (opened s + acc) (dropped s + lost) s'"
| elsewhere: "executes acc lost s \<Longrightarrow> executes acc lost (s\<lparr>cs_world := (cs_world s)\<lparr>wd_env := e\<rparr>\<rparr>)"

definition ledger_of :: "nat multiset \<Rightarrow> nat multiset \<Rightarrow> 'w consumer \<Rightarrow> ledger" where
  "ledger_of acc lost s =
     \<lparr>lg_waiting = queue_ids (sc_queue (cs_scheduler s)) + pending_ids s,
      lg_active = map_option run_id (cs_active s), lg_events = boundaries (cs_world s),
      lg_accepted = acc, lg_lost = lost\<rparr>"

subsection \<open>The parts of a turn on the ledger\<close>

lemma on_scheduler_simps [simp]:
  "cs_active (on_scheduler f s) = cs_active s" "cs_pending (on_scheduler f s) = cs_pending s"
  "cs_phase (on_scheduler f s) = cs_phase s" "cs_world (on_scheduler f s) = cs_world s"
  "cs_scheduler (on_scheduler f s) = f (cs_scheduler s)"
  by (simp_all add: on_scheduler_def)

lemma answer_simps [simp]:
  "cs_active (answer c r s) = cs_active s" "cs_pending (answer c r s) = cs_pending s"
  "cs_phase (answer c r s) = cs_phase s" "cs_world (answer c r s) = cs_world s"
  "sc_queue (cs_scheduler (answer c r s)) = sc_queue (cs_scheduler s)"
  by (simp_all add: answer_def)

lemma registry_simps [simp]:
  "sc_queue (register_active g sc) = sc_queue sc" "sc_queue (unregister_active g sc) = sc_queue sc"
  "sc_queue (close sc) = sc_queue sc"
  by (simp_all add: register_active_def unregister_active_def close_def)

lemma enqueue_cancels: "enqueue c sc = (es, sc') \<Longrightarrow> list_all (\<lambda>e. \<exists>g sb. e = EvCancelled g sb) es"
  by (auto simp: enqueue_def enqueue_run_def Let_def split: worker_command.splits option.splits prod.splits
      dest!: cancel_queued_runs_spec elim!: list.pred_mono_strong)

lemma discards:
  assumes "list_all (\<lambda>e. \<exists>g sb. e = EvCancelled g sb) es" and "lg_waiting l = W + endings es"
  shows "ledger_step\<^sup>*\<^sup>* l (l\<lparr>lg_waiting := W, lg_events := lg_events l @ es\<rparr>)"
  using assms
proof (induction es arbitrary: l)
  case (Cons e es)
  then obtain g sb where e: "e = EvCancelled g sb" by auto
  let ?l = "l\<lparr>lg_waiting := W + endings es, lg_events := lg_events l @ [EvCancelled g sb]\<rparr>"
  have "ledger_step l ?l"
    using ledger_step.discard [of g l sb] Cons.prems(2) by (simp add: e)
  moreover have "ledger_step\<^sup>*\<^sup>* ?l (?l\<lparr>lg_waiting := W, lg_events := lg_events ?l @ es\<rparr>)"
    by (rule Cons.IH) (use Cons.prems in simp_all)
  ultimately show ?case by (simp add: e converse_rtranclp_into_rtranclp)
qed clarsimp

lemma boundaries_cancels:
  "list_all (\<lambda>e. \<exists>g sb. e = EvCancelled g sb) es \<Longrightarrow> boundaries (fold emit es w) = boundaries w @ es"
  by (induction es arbitrary: w) auto

lemma accepts: "ledger_step\<^sup>*\<^sup>* l (l\<lparr>lg_waiting := command_ids c + lg_waiting l, lg_accepted := command_ids c + lg_accepted l\<rparr>)"
  using ledger_step.accept [of l] by (cases c) auto

lemma ledger_put: "ledger_step\<^sup>*\<^sup>* (ledger_of acc lost s) (ledger_of (command_ids c + acc) lost (put_command c s))"
proof -
  obtain es sc where e: "enqueue c (cs_scheduler s) = (es, sc)" by (metis surj_pair)
  let ?l = "(ledger_of acc lost s)\<lparr>lg_waiting := command_ids c + lg_waiting (ledger_of acc lost s),
    lg_accepted := command_ids c + lg_accepted (ledger_of acc lost s)\<rparr>"
  let ?W = "queue_ids (sc_queue sc) + pending_ids s"
  have w: "lg_waiting ?l = ?W + endings es"
    using enqueue_accounts [OF e] by (simp add: ledger_of_def ac_simps)
  have eq: "?l\<lparr>lg_waiting := ?W, lg_events := lg_events ?l @ es\<rparr> = ledger_of (command_ids c + acc) lost (put_command c s)"
    by (simp add: ledger_of_def put_command_def e pending_ids_def boundaries_cancels [OF enqueue_cancels [OF e]])
  show ?thesis
    using rtranclp_trans [OF accepts discards [OF enqueue_cancels [OF e] w]] unfolding eq .
qed

lemma start_run_ledger:
  assumes "cs_active s = None" and "queue_ids (sc_queue (cs_scheduler s)) + pending_ids s = W"
  shows "ledger_step\<^sup>*\<^sup>* ((ledger_of acc lost s)\<lparr>lg_waiting := add_mset (md_run_id m) W\<rparr>)
           (ledger_of acc lost (start_run x m plan s))"
proof -
  obtain r w where r: "start x m plan (cs_world s) = (r, w)" by (metis surj_pair)
  note b = boundaries_start [OF r]
  let ?l = "(ledger_of acc lost s)\<lparr>lg_waiting := add_mset (md_run_id m) W\<rparr>"
  have "ledger_step ?l (?l\<lparr>lg_waiting := lg_waiting ?l - {#st_run_id (started_of m plan)#},
      lg_active := Some (st_run_id (started_of m plan)), lg_events := lg_events ?l @ [EvStarted (started_of m plan)]\<rparr>)"
    by (rule ledger_step.launch) (simp_all add: ledger_of_def assms(1) started_of_def)
  moreover have "?l\<lparr>lg_waiting := lg_waiting ?l - {#st_run_id (started_of m plan)#},
      lg_active := Some (st_run_id (started_of m plan)), lg_events := lg_events ?l @ [EvStarted (started_of m plan)]\<rparr> =
      ledger_of acc lost (start_run x m plan s)"
    using b assms(2) by (simp add: ledger_of_def start_run_def r started_of_def pending_ids_def)
  ultimately show ?thesis by (metis r_into_rtranclp)
qed

lemma metadata_run_id [simp]:
  "md_run_id (metadata_of req) = rq_run_id req" "md_run_id (services_metadata g rv) = g"
  by (simp_all add: metadata_of_def services_metadata_def metadata_defs)

lemma start_run_from:
  assumes "cs_active s = None" and "ledger_of acc lost s0 = (ledger_of acc lost s)\<lparr>lg_waiting :=
      add_mset (md_run_id m) (queue_ids (sc_queue (cs_scheduler s)) + pending_ids s)\<rparr>"
  shows "ledger_step\<^sup>*\<^sup>* (ledger_of acc lost s0) (ledger_of acc lost (start_run x m plan s))"
  using start_run_ledger [OF assms(1) refl, where acc = acc and lost = lost and m = m and x = x and plan = plan] unfolding assms(2) .

lemma conclude_from:
  assumes "cs_active s = Some r" and "cs_active s' = None" and "ended e = Some (run_id r)"
    and "boundaries (cs_world s') = boundaries (cs_world s) @ [e]"
    and "queue_ids (sc_queue (cs_scheduler s')) + pending_ids s' = queue_ids (sc_queue (cs_scheduler s)) + pending_ids s"
  shows "ledger_step\<^sup>*\<^sup>* (ledger_of acc lost s) (ledger_of acc lost s')"
  using ledger_step.conclude [of "ledger_of acc lost s" "run_id r" e] assms
  by (simp add: ledger_of_def r_into_rtranclp)

lemma stop_run_facts:
  assumes "stop_run x r sb s = (d, r', s')"
  shows "cs_active s' = None \<and> cs_pending s' = cs_pending s \<and> cs_phase s' = cs_phase s \<and>
    sc_queue (cs_scheduler s') = sc_queue (cs_scheduler s) \<and>
    sc_replies (cs_scheduler s') = sc_replies (cs_scheduler s) \<and>
    boundaries (cs_world s') = boundaries (cs_world s) @ [EvCancelled (run_id r) sb]"
proof -
  obtain e q w where c: "cancel x r sb (cs_world s) = (e, q, w)" by (metis prod_cases3)
  with assms boundaries_cancel [OF c] show ?thesis by (auto simp: stop_run_def Let_def unregister_active_def)
qed

lemma idle_command_ledger:
  assumes "cs_active s = None" and "cs_pending s = None" and "cs_phase s = AtTop"
    and "sc_queue (cs_scheduler s) = c # q"
  shows "ledger_step\<^sup>*\<^sup>* (ledger_of acc lost s)
    (ledger_of (opened s + acc) lost (idle_command x c (s\<lparr>cs_scheduler := (cs_scheduler s)\<lparr>sc_queue := q\<rparr>\<rparr>)))"
proof (cases c)
  case (RunCmd req)
  then show ?thesis
    using assms start_run_from [of "s\<lparr>cs_scheduler := (cs_scheduler s)\<lparr>sc_queue := q\<rparr>\<rparr>" acc lost s "metadata_of req" x "rq_plan req"]
    by (simp add: idle_command_def opened_def ledger_of_def pending_ids_def)
next
  case (StartServices g plan revision)
  let ?s = "s\<lparr>cs_scheduler := (cs_scheduler s)\<lparr>sc_queue := q\<rparr>\<rparr>"
  let ?m = "services_metadata g revision"
  have "ledger_step (ledger_of acc lost s)
      ((ledger_of (add_mset g acc) lost ?s)\<lparr>lg_waiting := add_mset (md_run_id ?m) (queue_ids (sc_queue (cs_scheduler ?s)) + pending_ids ?s)\<rparr>)"
    using ledger_step.accept [of "ledger_of acc lost s" g] assms StartServices
    by (simp add: ledger_of_def pending_ids_def)
  moreover note start_run_ledger [where s = ?s and acc = "add_mset g acc" and lost = lost and m = ?m and x = x and plan = plan, OF _ refl]
  ultimately show ?thesis
    using assms StartServices by (simp add: idle_command_def opened_def converse_rtranclp_into_rtranclp)
qed (use assms in \<open>simp_all add: idle_command_def opened_def ledger_of_def pending_ids_def\<close>)

lemma receive_Woken: "receive sc = Woken c sc' \<longleftrightarrow> (\<exists>q. sc_queue sc = c # q \<and> sc' = sc\<lparr>sc_queue := q\<rparr>)"
  by (auto simp: receive_def split: list.splits)

lemma top_step_ledger:
  assumes "top_step x s = Some s'" and "cs_phase s = AtTop"
  shows "ledger_step\<^sup>*\<^sup>* (ledger_of acc lost s) (ledger_of (opened s + acc) lost s')"
proof (cases "cs_active s")
  case None
  show ?thesis
  proof (cases "cs_pending s")
    case pn: None
    show ?thesis
    proof (cases "receive (cs_scheduler s)")
      case (Woken c sc)
      then obtain q where "sc_queue (cs_scheduler s) = c # q" "sc = (cs_scheduler s)\<lparr>sc_queue := q\<rparr>"
        by (auto simp: receive_Woken)
      with assms None pn Woken idle_command_ledger [OF None pn assms(2), of c q] show ?thesis
        by (auto simp: top_step_def)
    qed (use assms None pn in \<open>auto simp: top_step_def receive_def opened_def ledger_of_def pending_ids_def split: list.splits if_splits\<close>)
  next
    case (Some req)
    with None assms start_run_from [of "s\<lparr>cs_pending := None\<rparr>" acc lost s "metadata_of req" x "rq_plan req"]
    show ?thesis by (simp add: top_step_def opened_def ledger_of_def pending_ids_def)
  qed
next
  case (Some r)
  then obtain st r1 w1 where a: "advance x r (cs_world s) = Some (st, r1, w1)"
    using assms(1) by (auto simp: top_step_def split: option.splits)
  note b = boundaries_advance [OF a] advance_run_id [OF a]
  show ?thesis
  proof (cases st)
    case Running
    with a b Some assms show ?thesis by (auto simp: top_step_def opened_def ledger_of_def pending_ids_def)
  next
    case Finished
    then obtain cr w2 where f: "finish x r1 w1 = Some (cr, w2)"
      using assms(1) Some a by (auto simp: top_step_def split: option.splits)
    obtain d fs where "boundaries w2 = boundaries w1 @ [EvFinished (run_id r1) (rn_superseded_by r1) d fs]"
      using boundaries_finish [OF f] by blast
    with b Finished f a Some assms show ?thesis
      by (intro conclude_from [of s r s' "EvFinished (run_id r1) (rn_superseded_by r1) d fs", THEN back_subst [of "\<lambda>l. ledger_step\<^sup>*\<^sup>* (ledger_of acc lost s) l"]])
        (auto simp: top_step_def pending_ids_def ledger_of_def opened_def)
  qed
qed

lemma running_command_ledger:
  assumes "cs_active s = Some r" and "cs_pending s = None" and "sc_queue (cs_scheduler s) = c # q"
  shows "ledger_step\<^sup>*\<^sup>* (ledger_of acc lost s)
    (ledger_of acc lost (running_command x r c (s\<lparr>cs_scheduler := (cs_scheduler s)\<lparr>sc_queue := q\<rparr>\<rparr>)))"
proof -
  let ?s = "s\<lparr>cs_scheduler := (cs_scheduler s)\<lparr>sc_queue := q\<rparr>\<rparr>"
  obtain d r1 s1 where stop: "stop_run x r None ?s = (d, r1, s1)" by (metis prod_cases3)
  note stop1 = stop_run_facts [OF stop]
  show ?thesis
  proof (cases c)
    case (RunCmd req)
    obtain d2 r2 s2 where sup: "stop_run x r (Some (rq_run_id req)) ?s = (d2, r2, s2)" by (metis prod_cases3)
    show ?thesis
      by (rule conclude_from [OF assms(1), where e = "EvCancelled (run_id r) (Some (rq_run_id req))"])
        (use stop_run_facts [OF sup] RunCmd assms in \<open>simp_all add: running_command_def sup pending_ids_def\<close>)
  next
    case (CancelCmd generation channel)
    show ?thesis
    proof (cases "generation = None \<or> generation = Some (run_id r)")
      case True
      then have eq: "\<exists>ch rp. running_command x r c ?s = s1\<lparr>cs_phase := AtTop\<rparr> \<or>
          running_command x r c ?s = answer ch rp (s1\<lparr>cs_phase := AtTop\<rparr>)"
        using CancelCmd by (auto simp: running_command_def stop Let_def) blast
      show ?thesis
        by (rule conclude_from [OF assms(1), where e = "EvCancelled (run_id r) None"])
          (use eq stop1 CancelCmd assms in \<open>auto simp: pending_ids_def\<close>)
    next
      case False
      then obtain g where "generation = Some g" "run_id r \<noteq> g" by auto
      with CancelCmd assms show ?thesis by (simp add: running_command_def ledger_of_def pending_ids_def)
    qed
  next
    case (ReconcileServices names channel)
    obtain still r2 w2 where rec: "reconcile_services x r names (cs_world s) = (still, r2, w2)" by (metis prod_cases3)
    from reconcile_boundaries [OF rec] rec ReconcileServices assms show ?thesis
      by (simp add: running_command_def ledger_of_def pending_ids_def)
  next
    case (StartServices g plan revision)
    with assms show ?thesis
      by (simp add: running_command_def ledger_of_def pending_ids_def append_plan_def run_id_def)
  qed
qed

lemma drain_ledger:
  assumes "cs_phase s = Draining"
  shows "ledger_step\<^sup>*\<^sup>* (ledger_of acc lost s) (ledger_of acc (dropped s + lost) (drain_step s))"
proof (cases "sc_queue (cs_scheduler s)")
  case Nil
  then show ?thesis by (simp add: drain_step_def try_recv_def dropped_def assms ledger_of_def pending_ids_def)
next
  case (Cons c q)
  note defs = drain_step_def try_recv_def drain_command_def dropped_def assms ledger_of_def pending_ids_def
    pending_is_def Cons
  have lose: "ledger_step (ledger_of acc lost s) ((ledger_of acc lost s)\<lparr>lg_waiting := lg_waiting (ledger_of acc lost s) - {#g#},
      lg_lost := add_mset g lost\<rparr>)" if "cs_pending s = Some req" "rq_run_id req = g" for g req
    using ledger_step.lose [of g "ledger_of acc lost s"] that by (simp add: ledger_of_def pending_ids_def)
  show ?thesis
  proof (cases c)
    case (RunCmd later)
    then show ?thesis
      using lose by (cases "cs_pending s") (auto simp: defs intro: r_into_rtranclp)
  next
    case (CancelCmd generation channel)
    then show ?thesis
      using lose by (cases generation; cases "cs_pending s") (auto simp: defs intro: r_into_rtranclp)
  qed (simp_all add: defs)
qed

section \<open>The invariant of the consumer\<close>

text \<open>
  At most one run is queued; the pending slot is only used while nothing is active; the drain finds
  no active run and the poll finds one (the \<open>expect\<close>s of the source never fail); the registered
  token is the one of the active run.
\<close>

definition consumer_inv :: "'w consumer \<Rightarrow> bool" where
  "consumer_inv s \<longleftrightarrow> single_run (sc_queue (cs_scheduler s)) \<and>
     (cs_active s \<noteq> None \<longrightarrow> cs_pending s = None) \<and>
     (cs_phase s = Draining \<longrightarrow> cs_active s = None) \<and> (cs_phase s = Polled \<longrightarrow> cs_active s \<noteq> None) \<and>
     sc_registered (cs_scheduler s) = (case cs_active s of None \<Rightarrow> [] | Some r \<Rightarrow> [run_id r])"

lemma enqueue_registered: "enqueue c sc = (es, sc') \<Longrightarrow> sc_registered sc' = sc_registered sc"
  by (auto simp: enqueue_def Let_def split: worker_command.splits option.splits prod.splits)

lemma consumer_inv_put: "consumer_inv s \<Longrightarrow> consumer_inv (put_command c s)"
  by (auto simp: consumer_inv_def put_command_def single_run_enqueue enqueue_registered split: prod.splits)

lemma single_run_tl: "single_run (c # q) \<Longrightarrow> single_run q"
  by (auto simp: single_run_def split: if_splits)

lemma start_run_inv:
  "cs_active s = None \<Longrightarrow> cs_pending s = None \<Longrightarrow> consumer_inv s \<Longrightarrow> cs_phase s = AtTop \<Longrightarrow>
     consumer_inv (start_run x m plan s)"
  by (auto simp: consumer_inv_def start_run_def register_active_def split: prod.splits)

lemma idle_command_inv:
  "cs_active s = None \<Longrightarrow> cs_pending s = None \<Longrightarrow> consumer_inv s \<Longrightarrow> cs_phase s = AtTop \<Longrightarrow>
     consumer_inv (idle_command x c s)"
  by (cases c) (auto simp: idle_command_def start_run_inv, auto simp: consumer_inv_def answer_def)

lemma stop_run_registered:
  "stop_run x r sb s = (d, r', s') \<Longrightarrow>
     sc_registered (cs_scheduler s') = removeAll (run_id r) (sc_registered (cs_scheduler s))"
  by (auto simp: stop_run_def unregister_active_def Let_def split: prod.splits)

lemma running_command_inv:
  assumes "consumer_inv s" and "cs_active s = Some r" and "cs_phase s = Polled"
  shows "consumer_inv (running_command x r c s)"
proof -
  have stop: "consumer_inv (s'\<lparr>cs_phase := AtTop\<rparr>) \<and> consumer_inv (s'\<lparr>cs_pending := p, cs_phase := Draining\<rparr>)"
    if "stop_run x r sb s = (d, r', s')" for d r' s' sb p
    using stop_run_facts [OF that] stop_run_registered [OF that] assms by (auto simp: consumer_inv_def)
  have ans: "consumer_inv (answer ch rp v)" if "consumer_inv v" for ch rp and v :: "'a consumer"
    using that by (auto simp: consumer_inv_def answer_def)
  have rec: "run_id r' = run_id r" if "reconcile_services x r ns (cs_world s) = (still, r', w')" for ns still r' w'
    using reconcile_boundaries [OF that] by simp
  have top: "consumer_inv (s\<lparr>cs_phase := AtTop\<rparr>)"
    and upd: "run_id q = run_id r \<Longrightarrow> consumer_inv (s\<lparr>cs_active := Some q, cs_world := w, cs_phase := AtTop\<rparr>)"
      "run_id q = run_id r \<Longrightarrow> consumer_inv (s\<lparr>cs_active := Some q, cs_phase := AtTop\<rparr>)" for q w
    using assms by (auto simp: consumer_inv_def)
  have app: "run_id (append_plan r plan) = run_id r" for plan by (simp add: append_plan_def run_id_def)
  show ?thesis
    by (auto simp: running_command_def Let_def top upd app rec intro!: ans dest: stop
        split: worker_command.split option.split prod.split)
qed

lemma consumer_inv_step:
  assumes "consumer_step x s = Some s'" and "consumer_inv s"
  shows "consumer_inv s'"
proof (cases "cs_phase s")
  case AtTop
  with assms(1) have t: "top_step x s = Some s'" by (simp add: consumer_step_def)
  show ?thesis
  proof (cases "cs_active s")
    case None
    with t AtTop assms(2) show ?thesis
      by (auto simp: top_step_def receive_Woken split: option.splits received.splits
          intro!: start_run_inv idle_command_inv)
        (auto simp: consumer_inv_def dest: single_run_tl)
  next
    case (Some r)
    with t AtTop assms(2) show ?thesis
      by (auto simp: top_step_def consumer_inv_def unregister_active_def split: option.splits step.splits
          dest!: advance_run_id)
  qed
next
  case Polled
  with assms have "consumer_inv (s\<lparr>cs_scheduler := sc\<rparr>)" if "try_recv (cs_scheduler s) = Some (c, sc)" for c sc
    using that by (auto simp: consumer_inv_def try_recv_def dest: single_run_tl split: list.splits)
  with Polled assms show ?thesis
    by (auto simp: consumer_step_def polled_step_def intro!: running_command_inv split: option.splits)
      (auto simp: consumer_inv_def)
next
  case Draining
  with assms have "s' = drain_step s" by (simp add: consumer_step_def)
  with Draining assms(2) show ?thesis
    by (auto simp: drain_step_def try_recv_def drain_command_def consumer_inv_def answer_def
        split: list.split worker_command.split option.split dest: single_run_tl)
qed (use assms in \<open>simp add: consumer_step_def\<close>)

lemma consumer_inv_executes: "executes acc lost s \<Longrightarrow> consumer_inv s"
proof (induction rule: executes.induct)
  case (created w)
  then show ?case by (simp add: consumer_inv_def consumer_new_def scheduler_new_def single_run_def)
next
  case (sent acc lost s c)
  then show ?case by (rule_tac consumer_inv_put)
next
  case (stepped acc lost s x s')
  then show ?case using consumer_inv_step by blast
qed (simp_all add: consumer_inv_def on_scheduler_def close_def)

lemma step_ledger:
  assumes "consumer_step x s = Some s'" and "consumer_inv s"
  shows "ledger_step\<^sup>*\<^sup>* (ledger_of acc lost s) (ledger_of (opened s + acc) (dropped s + lost) s')"
proof (cases "cs_phase s")
  case AtTop
  with assms(1) top_step_ledger [of x s s' acc lost] show ?thesis by (simp add: consumer_step_def dropped_def)
next
  case Polled
  with assms obtain r where r: "cs_active s = Some r" "cs_pending s = None" by (auto simp: consumer_inv_def)
  show ?thesis
  proof (cases "sc_queue (cs_scheduler s)")
    case Nil
    with Polled r assms(1) show ?thesis
      by (auto simp: consumer_step_def polled_step_def try_recv_def opened_def dropped_def ledger_of_def pending_ids_def)
  next
    case (Cons c q)
    with Polled r assms(1) running_command_ledger [OF r Cons, of acc lost x] show ?thesis
      by (auto simp: consumer_step_def polled_step_def try_recv_def opened_def dropped_def)
  qed
next
  case Draining
  with assms(1) drain_ledger [OF Draining, of acc lost] show ?thesis
    by (auto simp: consumer_step_def opened_def)
qed (use assms in \<open>simp add: consumer_step_def\<close>)

lemma executes_ledger: "executes acc lost s \<Longrightarrow> ledger_step\<^sup>*\<^sup>* ledger_new (ledger_of acc lost s)"
proof (induction rule: executes.induct)
  case (created w)
  then show ?case by (simp add: ledger_of_def ledger_new_def consumer_new_def scheduler_new_def pending_ids_def)
next
  case (sent acc lost s c)
  from sent.IH ledger_put show ?case by (rule rtranclp_trans)
next
  case (stepped acc lost s x s')
  from stepped.IH step_ledger [OF stepped.hyps(2) consumer_inv_executes [OF stepped.hyps(1)]]
  show ?case by (rule rtranclp_trans)
qed (simp_all add: ledger_of_def pending_ids_def on_scheduler_def close_def)

section \<open>Theorems\<close>

text \<open>
  C1. The worker refines the ledger: whatever the producers send and whatever the runtime answers, every
  execution of the consumer is a sequence of ledger steps, so that a generation is accepted, then
  discarded, dropped or launched, and once launched concluded, each with its event; and at most one
  generation is active.
\<close>

theorem worker_refines_ledger:
  assumes "executes acc lost s"
  shows "ledger_step\<^sup>*\<^sup>* ledger_new (ledger_of acc lost s)"
  using assms by (rule executes_ledger)

text \<open>
  In every state of the worker at most one run is queued, a pending run excludes an active one, the
  registered cancellation token is exactly the one of the active run, and the consumer finds an
  active run wherever it expects one.
\<close>

theorem worker_single_slot:
  assumes "executes acc lost s"
  shows "length (filter is_run (sc_queue (cs_scheduler s))) \<le> 1 \<and>
    (cs_pending s = None \<or> cs_active s = None) \<and> (cs_phase s = Polled \<longrightarrow> cs_active s \<noteq> None) \<and>
    sc_registered (cs_scheduler s) = (case cs_active s of None \<Rightarrow> [] | Some r \<Rightarrow> [run_id r])"
  using consumer_inv_executes [OF assms] by (auto simp: consumer_inv_def single_run_def)


end
