(* ===== verification/Worker_Scenarios.thy ===== *)
theory Worker_Scenarios
  imports Worker_Properties
begin

text \<open>
  Concrete executions of the worker: they show that the hypotheses of its theorems can hold, and
  what happens when producers race with the consumer. The environment is the cancellation token of
  the active run; a child once spawned keeps running.
\<close>

definition token_runtime :: "bool runtime" where
  "token_runtime =
     \<lparr>rt_spawn = (\<lambda>n c t h l q e. (Inr 1, e)), rt_try_wait = (\<lambda>c e. (Inr None, e)),
      rt_shutdown = (\<lambda>c e. (False, e)), rt_now = (\<lambda>e. (0, e)), rt_elapsed = (\<lambda>s e. (0, e)),
      rt_sleep = (\<lambda>d e. e), rt_is_dir = (\<lambda>p e. (True, e)), rt_new_capture = (\<lambda>e. (0, e)),
      rt_finish_capture = (\<lambda>h e. (capture_handle_new, e)), rt_cancelled = (\<lambda>e. (e, e)),
      rt_approve = (\<lambda>rs e. e), rt_recv = (\<lambda>e. (RecvTimeout, e))\<rparr>"

definition token_executor :: "bool executor" where
  "token_executor = \<lparr>ex_runtime = token_runtime, ex_concurrency_limit = 2, ex_fail_fast = False\<rparr>"

definition token_world :: "bool world" where
  "token_world = \<lparr>wd_env = False, wd_events = [], wd_outputs = None, wd_revealed = []\<rparr>"

definition set_token :: "nat \<Rightarrow> bool \<Rightarrow> bool" where
  "set_token g e = True"

definition busy :: "nat \<Rightarrow> run_request" where
  "busy g = (demo_request g)\<lparr>rq_plan := \<lparr>stages = [Serial (script_task 0 ''serve'' [''serve''] None)]\<rparr>\<rparr>"

lemma busy_id [simp]: "rq_run_id (busy g) = g"
  by (simp add: busy_def demo_request_def)

text \<open>Run 1 is sent, started and advanced once: its command runs.\<close>

definition running_1 :: "bool consumer" where
  "running_1 = the (Option.bind (consumer_step token_executor
       (send set_token (RunCmd (busy 1)) (consumer_new token_world))) (consumer_step token_executor))"

lemmas token_defs = token_runtime_def token_executor_def token_world_def set_token_def busy_def demo_request_def
  script_task_def no_hooks_def

lemmas worker_rules = consumer_step_def top_step_def polled_step_def drain_step_def drain_command_def
  idle_command_def running_command_def start_run_def stop_run_def send_def put_command_def signal_command_def signal_def
  cancel_active_def enqueue_def enqueue_run_def drop_bare_cancels_def on_scheduler_def answer_def send_reply_def
  try_recv_def receive_def register_active_def unregister_active_def consumer_new_def scheduler_new_def
  metadata_of_def services_metadata_def metadata_defs started_of_def plan_commands_def plan_tasks_def

lemmas cancel_rules = cancel_def retire_def shutdown_task_def

lemma executes_send:
  assumes "executes acc lost s"
  shows "executes (command_ids c + acc) lost (send token c s)"
  unfolding send_def signal_command_def by (rule executes.sent [OF executes.elsewhere [OF assms]])


primrec turns :: "'w executor \<Rightarrow> nat \<Rightarrow> 'w consumer \<Rightarrow> 'w consumer option" where
  "turns x 0 s = Some s"
| "turns x (Suc n) s = (case consumer_step x s of None \<Rightarrow> None | Some s' \<Rightarrow> turns x n s')"

lemma executes_turn:
  assumes "executes acc lost s" and "consumer_step x s = Some s'" and "opened s = {#}" and "dropped s = D"
  shows "executes acc (D + lost) s'"
  using executes.stepped [OF assms(1,2)] assms(3,4) by simp

definition started_1 :: "bool consumer" where
  "started_1 = the (consumer_step token_executor (send set_token (RunCmd (busy 1)) (consumer_new token_world)))"

lemma started_1:
  "consumer_step token_executor (send set_token (RunCmd (busy 1)) (consumer_new token_world)) = Some started_1"
  by (simp add: started_1_def worker_rules token_defs exec_rules)

lemma running_1: "consumer_step token_executor started_1 = Some running_1"
  by (simp add: running_1_def started_1_def worker_rules token_defs exec_rules)

lemma executes_running_1: "executes {#1#} {#} running_1"
proof -
  have "executes {#} {#} (consumer_new token_world)"
    by (rule executes.created) (simp add: token_world_def boundaries_def)
  then have "executes {#1#} {#} (send set_token (RunCmd (busy 1)) (consumer_new token_world))"
    using executes_send [of "{#}" "{#}" "consumer_new token_world" "RunCmd (busy 1)" set_token] by (simp add: add_mset_commute)
  from executes_turn [OF this started_1] have s: "executes {#1#} {#} started_1"
    by (simp add: opened_def dropped_def worker_rules token_defs)
  from executes_turn [OF this running_1] show ?thesis
    by (simp add: opened_def dropped_def started_1_def worker_rules token_defs exec_rules)
qed

section \<open>A stranded generation\<close>

text \<open>
  Run 2 is sent, which sets the token of run 1, and cancelled before the consumer has seen it.
\<close>

definition stranded :: "bool consumer" where
  "stranded = send set_token (CancelCmd (Some 2) (Some 7)) (send set_token (RunCmd (busy 2)) running_1)"

lemma stranded_executes: "executes {#1, 2#} {#} stranded"
proof -
  have "executes {#1, 2#} {#} (send set_token (RunCmd (busy 2)) running_1)"
    using executes_send [OF executes_running_1, of "RunCmd (busy 2)" set_token] by (simp add: add_mset_commute)
  from executes_send [OF this, of "CancelCmd (Some 2) (Some 7)" set_token] show ?thesis
    by (simp add: stranded_def)
qed

lemma stranded_turns:
  assumes "cs_active s = Some r" and "sc_queue (cs_scheduler s) = []" and "wd_env (cs_world s)"
    and "cs_phase s = AtTop \<or> cs_phase s = Polled"
  shows "\<exists>s'. turns token_executor n s = Some s' \<and> cs_active s' = Some r \<and> wd_events (cs_world s') = wd_events (cs_world s)"
  using assms
proof (induction n arbitrary: s)
  case (Suc n)
  have "\<exists>s'. consumer_step token_executor s = Some s' \<and> cs_active s' = Some r \<and> sc_queue (cs_scheduler s') = [] \<and>
      wd_env (cs_world s') \<and> wd_events (cs_world s') = wd_events (cs_world s) \<and> (cs_phase s' = AtTop \<or> cs_phase s' = Polled)"
    using Suc.prems
    by (auto simp: consumer_step_def top_step_def polled_step_def try_recv_def advance_def call_def
        token_executor_def token_runtime_def)
  then obtain s' where "consumer_step token_executor s = Some s'" "cs_active s' = Some r"
    "sc_queue (cs_scheduler s') = []" "wd_env (cs_world s')" "wd_events (cs_world s') = wd_events (cs_world s)"
    "cs_phase s' = AtTop \<or> cs_phase s' = Polled" by blast
  with Suc.IH [of s'] show ?case by simp
qed simp


section \<open>A dropped generation\<close>

definition turn :: "bool consumer \<Rightarrow> bool consumer" where
  "turn s = the (consumer_step token_executor s)"

definition draining :: "bool consumer" where
  "draining = turn (send set_token (RunCmd (busy 2)) running_1)"

definition burst :: "bool consumer" where
  "burst = turn (turn (turn (send set_token (RunCmd (busy 3)) draining)))"

lemma executes_turn':
  "executes acc lost s \<Longrightarrow> consumer_step token_executor s \<noteq> None \<Longrightarrow> opened s = {#} \<Longrightarrow> dropped s = D \<Longrightarrow>
     executes acc (D + lost) (turn s)"
  by (auto simp: turn_def intro: executes_turn)

lemmas burst_rules = draining_def turn_def running_1_def worker_rules token_defs exec_rules cancel_rules

lemma burst_executes: "executes {#1, 2, 3#} {#2#} burst"
proof -
  have "executes {#1, 2#} {#} (send set_token (RunCmd (busy 2)) running_1)"
    using executes_send [OF executes_running_1, of "RunCmd (busy 2)" set_token] by (simp add: add_mset_commute)
  then have "executes {#1, 2#} {#} draining"
    unfolding draining_def by (rule executes_turn' [where D = "{#}", simplified])
      (simp_all add: opened_def dropped_def burst_rules)
  then have "executes {#1, 2, 3#} {#} (send set_token (RunCmd (busy 3)) draining)"
    using executes_send [of "{#1, 2#}" "{#}" draining "RunCmd (busy 3)" set_token] by (simp add: add_mset_commute)
  then have "executes {#1, 2, 3#} {#2#} (turn (send set_token (RunCmd (busy 3)) draining))"
    by (rule executes_turn' [where D = "{#2#}", simplified])
      (simp_all add: opened_def dropped_def pending_ids_def burst_rules)
  then have "executes {#1, 2, 3#} {#2#} (turn (turn (send set_token (RunCmd (busy 3)) draining)))"
    by (rule executes_turn' [where D = "{#}", simplified])
      (simp_all add: opened_def dropped_def burst_rules)
  then show ?thesis unfolding burst_def
    by (rule executes_turn' [where D = "{#}", simplified])
      (simp_all add: opened_def dropped_def burst_rules)
qed

text \<open>
  A burst can drop a generation without a trace: run 2 has replaced run 1 and waits in the pending
  slot, run 3 arrives while the queue is drained. Run 2 never starts and never gets a \<open>Cancelled\<close>
  event, the end of run 1 names run 2 as its successor, and run 3 starts without a predecessor.
\<close>

theorem burst_drops_generation:
  "\<exists>s :: bool consumer. executes {#1, 2, 3#} {#2#} s \<and> fate_of 2 (wd_events (cs_world s)) = Unseen \<and>
     EvCancelled 1 (Some 2) \<in> set (wd_events (cs_world s)) \<and>
     (\<exists>r. cs_active s = Some r \<and> run_id r = 3 \<and> md_predecessor (rn_metadata r) = None) \<and>
     cs_pending s = None \<and> sc_queue (cs_scheduler s) = []"
  by (rule exI [of _ burst])
    (use burst_executes in \<open>simp add: add_mset_commute burst_def fate_of_def burst_rules\<close>)

section \<open>Replies and scheduling\<close>

lemma replies_simps [simp]:
  "sc_replies (cs_scheduler (answer (Some ch) r s)) = sc_replies (cs_scheduler s) @ [(ch, r)]"
  "sc_replies (register_active g sc) = sc_replies sc" "sc_replies (unregister_active g sc) = sc_replies sc"
  by (simp_all add: answer_def send_reply_def register_active_def unregister_active_def)

lemma running_cancel_answer:
  assumes "running_command x r (CancelCmd (Some g) (Some ch)) s = s'"
  shows "\<exists>res. sc_replies (cs_scheduler s') = sc_replies (cs_scheduler s) @ [(ch, CancelReply res)] \<and>
    (res = Noop \<longleftrightarrow> run_id r \<noteq> g)"
proof -
  obtain d r1 s1 where stop: "stop_run x r None s = (d, r1, s1)" by (metis prod_cases3)
  show ?thesis using assms stop_run_facts [OF stop] by (auto simp: running_command_def stop Let_def)
qed

lemma drain_cancel_answer:
  "drain_command (CancelCmd (Some g) (Some ch)) s = s' \<Longrightarrow>
     \<exists>res. sc_replies (cs_scheduler s') = sc_replies (cs_scheduler s) @ [(ch, CancelReply res)] \<and>
       (res = Noop \<longleftrightarrow> \<not> pending_is g s)"
  by (auto simp: drain_command_def pending_is_def split: option.splits)

lemma top_step_queue:
  assumes "top_step x s = Some s'" and "sc_queue (cs_scheduler s) = c # q" and "sc_queue (cs_scheduler s') = q"
  shows "cs_active s = None \<and> cs_pending s = None \<and>
    s' = idle_command x c (s\<lparr>cs_scheduler := (cs_scheduler s)\<lparr>sc_queue := q\<rparr>\<rparr>)"
  using assms
  by (auto simp: top_step_def receive_def start_run_def split: option.splits prod.splits step.splits)

text \<open>
  Every cancel of an exact generation is answered on its channel, once, by the turn of the consumer
  that takes it from the queue, in whatever phase; and the answer is a no-op exactly when the
  generation is neither the active run nor the pending one.
\<close>

theorem exact_cancel_answered:
  assumes "executes acc lost s" and "consumer_step x s = Some s'"
    and "sc_queue (cs_scheduler s) = CancelCmd (Some g) (Some ch) # q" and "sc_queue (cs_scheduler s') = q"
  shows "\<exists>res. sc_replies (cs_scheduler s') = sc_replies (cs_scheduler s) @ [(ch, CancelReply res)] \<and>
    (res = Noop \<longleftrightarrow> map_option run_id (cs_active s) \<noteq> Some g \<and> \<not> pending_is g s)"
proof -
  let ?s = "s\<lparr>cs_scheduler := (cs_scheduler s)\<lparr>sc_queue := q\<rparr>\<rparr>"
  have inv: "consumer_inv s" by (rule consumer_inv_executes [OF assms(1)])
  show ?thesis
  proof (cases "cs_phase s")
    case AtTop
    with assms(2) have "top_step x s = Some s'" by (simp add: consumer_step_def)
    from top_step_queue [OF this assms(3,4)] show ?thesis by (auto simp: idle_command_def pending_is_def)
  next
    case Polled
    with inv obtain r where r: "cs_active s = Some r" "cs_pending s = None" by (auto simp: consumer_inv_def)
    with Polled assms(2,3) have "running_command x r (CancelCmd (Some g) (Some ch)) ?s = s'"
      by (auto simp: consumer_step_def polled_step_def try_recv_def)
    from running_cancel_answer [OF this] r show ?thesis by (simp add: pending_is_def)
  next
    case Draining
    with assms(2,3) have "drain_command (CancelCmd (Some g) (Some ch)) ?s = s'"
      by (simp add: consumer_step_def drain_step_def try_recv_def)
    from drain_cancel_answer [OF this] Draining inv show ?thesis by (auto simp: pending_is_def consumer_inv_def)
  qed (use assms in \<open>simp add: consumer_step_def\<close>)
qed

text \<open>A cancel of run 1 while it is polled is answered with its revision.\<close>

definition cancelling :: "bool consumer" where
  "cancelling = send set_token (CancelCmd (Some 1) (Some 9)) running_1"

theorem exact_cancel_answered_witness:
  "\<exists>res. sc_replies (cs_scheduler (turn cancelling)) = [(9, CancelReply res)] \<and> res \<noteq> Noop"
proof -
  have e: "executes {#1#} {#} cancelling"
    using executes_send [OF executes_running_1, of "CancelCmd (Some 1) (Some 9)" set_token]
    by (simp add: cancelling_def)
  have s: "consumer_step token_executor cancelling = Some (turn cancelling)"
    by (simp add: cancelling_def burst_rules)
  have q: "sc_queue (cs_scheduler cancelling) = CancelCmd (Some 1) (Some 9) # []"
    "sc_queue (cs_scheduler (turn cancelling)) = []" "sc_replies (cs_scheduler cancelling) = []"
    "map_option run_id (cs_active cancelling) = Some 1"
    by (simp_all add: cancelling_def burst_rules)
  from exact_cancel_answered [OF e s q(1,2)] q(3,4) show ?thesis by simp
qed

text \<open>
  Scheduling a plan fails without any effect when its directories do not resolve, and with nothing
  sent when the worker is closed; otherwise the answer is a fresh generation number, above every
  number handed out before, and the run is in the queue, frozen under the revision of the caller
  or, without one, of the worker.
\<close>

theorem schedule_outcome:
  "case schedule_plan_correlated token fs plan trigger filepath batch changed revision wk s of
     (Inl err, wk', s') \<Rightarrow> s' = s \<and>
       (resolve_context fs (wk_root wk) plan = Inl err \<and> wk' = wk \<or> err = scheduler_unavailable \<and> \<not> wk_open wk)
   | (Inr g, wk', s') \<Rightarrow> g = wk_next_run_id wk + 1 \<and> wk' = wk\<lparr>wk_next_run_id := g\<rparr> \<and>
       (\<exists>req. RunCmd req \<in> set (sc_queue (cs_scheduler s')) \<and> rq_run_id req = g \<and> rq_batch req = batch \<and>
          rq_changed req = changed \<and>
          rq_revision req = map_option rev_number (if revision = None then wk_revision wk else revision))"
proof -
  have queued: "RunCmd req \<in> set (sc_queue (cs_scheduler (send token (RunCmd req) s)))" for req
    by (auto simp: send_def put_command_def signal_command_def enqueue_def enqueue_run_def Let_def
        split: option.splits dest!: rposition_Some intro: set_update_memI)
  show ?thesis
  proof (cases "resolve_context fs (wk_root wk) plan")
    case (Inl err)
    then show ?thesis by (simp add: schedule_plan_correlated_def prepare_request_def)
  next
    case (Inr p)
    show ?thesis
    proof (cases "wk_open wk")
      case False
      with Inr show ?thesis
        by (simp add: schedule_plan_correlated_def prepare_request_def next_id_def dispatch_def split_beta Let_def)
    next
      case True
      with Inr show ?thesis
        by (auto simp: schedule_plan_correlated_def prepare_request_def next_id_def dispatch_def Let_def
            intro!: bexI queued split: prod.splits option.split)
    qed
  qed
qed

section \<open>Witnesses\<close>

theorem worker_refines_ledger_witness:
  "ledger_step\<^sup>*\<^sup>* ledger_new (ledger_of {#1, 2, 3#} {#2#} burst) \<and> lg_active (ledger_of {#1, 2, 3#} {#2#} burst) = Some 3"
  using worker_refines_ledger [OF burst_executes]
  by (simp add: ledger_of_def burst_def burst_rules)


end
