(* ===== verification/Watches_Model.thy ===== *)
theory Watches_Model
  imports Config_Revision
begin

text \<open>
  The frozen watch configuration, \<open>src/src/watches.rs\<close>, with the gitignore matcher of
  \<open>src/src/gitignore.rs\<close> and the event batches of \<open>src/src/identity.rs\<close>: path normalization,
  the selection of tasks for a path or a target, the explanation of that selection and the minimal
  set of subscription roots.

  The file system and the \<open>ignore\<close> crate are the functions of a \<open>watch_env\<close>; a compiled set of
  gitignore rules is the predicate it decides. A matcher that panics (an invalid glob) gives an
  error result. Paths that the backend is asked to watch are kept as their components.
\<close>

section \<open>Batches\<close>

record batch =
  bt_id :: nat
  bt_changed :: "string list"

definition batch_normalized :: "nat \<Rightarrow> string list \<Rightarrow> batch" where
  "batch_normalized i paths = \<lparr>bt_id = i, bt_changed = remdups_adj (sort paths)\<rparr>"

definition batch_is_empty :: "batch \<Rightarrow> bool" where
  "batch_is_empty b \<longleftrightarrow> bt_changed b = []"

text \<open>The sequence of batch and generation identities: \<open>fetch_add\<close> wraps, the first value is one.\<close>

definition sequence_next :: "64 word \<Rightarrow> 64 word \<times> 64 word" where
  "sequence_next n = (n + 1, n + 1)"

section \<open>Environment\<close>

record watch_env =
  we_glob :: glob_lib
  we_exists :: "string \<Rightarrow> bool"
  we_is_dir :: "string \<Rightarrow> bool"
  we_modified :: "string \<Rightarrow> nat option"
  we_gitignore :: "string \<Rightarrow> string \<Rightarrow> bool"

section \<open>Gitignore\<close>

record gitignore_matcher =
  gm_root :: string
  gm_matcher :: "string \<Rightarrow> bool"
  gm_cache_key :: "nat option"

definition cache_key :: "watch_env \<Rightarrow> string \<Rightarrow> nat option" where
  "cache_key env root = we_modified env (path_join root ''.gitignore'')"

definition matcher_new :: "watch_env \<Rightarrow> string \<Rightarrow> gitignore_matcher" where
  "matcher_new env root =
     \<lparr>gm_root = root, gm_matcher = we_gitignore env root, gm_cache_key = cache_key env root\<rparr>"

definition needs_rebuild :: "watch_env \<Rightarrow> gitignore_matcher \<Rightarrow> bool" where
  "needs_rebuild env m \<longleftrightarrow> gm_cache_key m \<noteq> cache_key env (gm_root m)"

definition rebuild :: "watch_env \<Rightarrow> gitignore_matcher \<Rightarrow> gitignore_matcher" where
  "rebuild env m =
     m\<lparr>gm_matcher := we_gitignore env (gm_root m), gm_cache_key := cache_key env (gm_root m)\<rparr>"

definition refreshed :: "watch_env \<Rightarrow> gitignore_matcher \<Rightarrow> gitignore_matcher" where
  "refreshed env m = (if needs_rebuild env m then rebuild env m else m)"

section \<open>The watch configuration\<close>

record watches =
  wt_rules :: "rules list"
  wt_topology :: run_plan
  wt_root :: string
  wt_concurrency :: nat
  wt_debounce :: duration
  wt_backend :: watch_backend
  wt_respect_gitignore :: bool
  wt_recovery_policy :: recovery_policy
  wt_hooks :: generation_hooks
  wt_session_hooks :: session_hooks
  wt_revision :: "config_revision option"
  wt_gitignore :: "gitignore_matcher option"

text \<open>\<open>assert!(concurrency > 0)\<close>: \<^const>\<open>None\<close> is the panic.\<close>

definition with_root_and_concurrency :: "rules list \<Rightarrow> string \<Rightarrow> nat \<Rightarrow> watches option" where
  "with_root_and_concurrency rs root concurrency =
     (if 0 < concurrency then
        Some \<lparr>wt_rules = rs, wt_topology = from_rules rs, wt_root = root, wt_concurrency = concurrency,
              wt_debounce = 1000 * 1000000, wt_backend = Auto, wt_respect_gitignore = False,
              wt_recovery_policy = Prompt, wt_hooks = \<lparr>hook_success = None, hook_failure = None\<rparr>,
              wt_session_hooks = \<lparr>hook_close = None\<rparr>, wt_revision = None, wt_gitignore = None\<rparr>
      else None)"

definition with_debounce :: "duration \<Rightarrow> watches \<Rightarrow> watches" where
  "with_debounce d wt = wt\<lparr>wt_debounce := d\<rparr>"

definition with_backend :: "watch_backend \<Rightarrow> watches \<Rightarrow> watches" where
  "with_backend b wt = wt\<lparr>wt_backend := b\<rparr>"

definition with_gitignore :: "watch_env \<Rightarrow> bool \<Rightarrow> watches \<Rightarrow> watches" where
  "with_gitignore env respect wt =
     wt\<lparr>wt_respect_gitignore := respect,
        wt_gitignore := (if respect then Some (matcher_new env (wt_root wt)) else None)\<rparr>"

definition watches_with_recovery_policy :: "recovery_policy \<Rightarrow> watches \<Rightarrow> watches" where
  "watches_with_recovery_policy p wt = wt\<lparr>wt_recovery_policy := p\<rparr>"

definition watches_with_hooks :: "generation_hooks \<Rightarrow> watches \<Rightarrow> watches" where
  "watches_with_hooks h wt = wt\<lparr>wt_hooks := h\<rparr>"

definition with_session_hooks :: "session_hooks \<Rightarrow> watches \<Rightarrow> watches" where
  "with_session_hooks h wt = wt\<lparr>wt_session_hooks := h\<rparr>"

definition watches_with_revision :: "config_revision \<Rightarrow> watches \<Rightarrow> watches" where
  "watches_with_revision r wt = wt\<lparr>wt_revision := Some r\<rparr>"

definition gitignored :: "watch_env \<Rightarrow> watches \<Rightarrow> string \<Rightarrow> bool" where
  "gitignored env wt relative =
     (case wt_gitignore wt of None \<Rightarrow> False | Some m \<Rightarrow> gm_matcher (refreshed env m) relative)"

text \<open>The matcher that the call leaves behind the mutex.\<close>

definition after_gitignored :: "watch_env \<Rightarrow> watches \<Rightarrow> watches" where
  "after_gitignored env wt = wt\<lparr>wt_gitignore := map_option (refreshed env) (wt_gitignore wt)\<rparr>"

lemma gitignored_after [simp]: "gitignored env (after_gitignored env wt) = gitignored env wt"
  by (rule ext) (auto simp: gitignored_def after_gitignored_def refreshed_def needs_rebuild_def rebuild_def split: option.split)

definition select_target :: "string \<Rightarrow> watches \<Rightarrow> watches option" where
  "select_target target wt =
     (let rs = filter (\<lambda>r. str_contains target (rule_name r)) (wt_rules wt) in
      if rs = [] then None
      else Some (wt\<lparr>wt_rules := rs,
                    wt_topology := filter_plan (\<lambda>r. str_contains target (rule_name r)) (wt_topology wt)\<rparr>))"

section \<open>Path normalization\<close>

text \<open>
  \<open>Path::strip_prefix\<close>: the part of the path text after the components of the prefix, without the
  separators and \<open>.\<close> segments at its two ends.
\<close>

fun drop_reals :: "nat \<Rightarrow> string list \<Rightarrow> string list" where
  "drop_reals 0 segments = segments"
| "drop_reals (Suc n) [] = []"
| "drop_reals (Suc n) (s # segments) =
     (if component_of s = [] then drop_reals (Suc n) segments else drop_reals n segments)"

definition trim_segments :: "string list \<Rightarrow> string list" where
  "trim_segments segments =
     rev (dropWhile (\<lambda>s. component_of s = []) (rev (dropWhile (\<lambda>s. component_of s = []) segments)))"

definition strip_prefix :: "string \<Rightarrow> string \<Rightarrow> string option" where
  "strip_prefix path base =
     (if path_starts_with path base
      then Some (join_with ''/'' (trim_segments (drop_reals (length (path_body base)) (str_split ''/'' path))))
      else None)"

definition normalize_paths :: "watches \<Rightarrow> string \<Rightarrow> string \<times> string option" where
  "normalize_paths wt path =
     (let absolute_path = (if absolute_like path then path else path_join (wt_root wt) path)
      in (absolute_path, map_option (\<lambda>rel. CHR ''/'' # rel) (strip_prefix absolute_path (wt_root wt))))"

definition trim_slashes :: "string \<Rightarrow> string" where
  "trim_slashes s = dropWhile (\<lambda>c. c = CHR ''/'') s"

definition normalized_path :: "watches \<Rightarrow> string \<Rightarrow> string" where
  "normalized_path wt path =
     (case snd (normalize_paths wt path) of Some relative \<Rightarrow> trim_slashes relative | None \<Rightarrow> path)"

section \<open>Selection\<close>

definition target_rules :: "watches \<Rightarrow> string \<Rightarrow> rules list option" where
  "target_rules wt target =
     (let rs = filter (\<lambda>r. str_contains target (rule_name r)) (wt_rules wt)
      in if rs = [] then None else Some rs)"

datatype run_target_error = Missing string | Ambiguous string "string list"

definition run_target_plan :: "watches \<Rightarrow> string \<Rightarrow> run_target_error + run_plan" where
  "run_target_plan wt target =
     (let exact_matches = filter (\<lambda>r. rule_name r = target) (wt_rules wt);
          matching = filter (\<lambda>r. str_contains target (rule_name r)) (wt_rules wt)
      in if 1 < length exact_matches then Inl (Ambiguous target (map rule_name exact_matches))
         else if length exact_matches = 1 then Inr (filter_plan (\<lambda>r. rule_name r = target) (wt_topology wt))
         else if matching = [] then Inl (Missing target)
         else if 1 < length matching \<and> \<not> starts_with target ''@''
              then Inl (Ambiguous target (map rule_name matching))
         else Inr (filter_plan (\<lambda>r. str_contains target (rule_name r)) (wt_topology wt)))"

definition target_plan :: "watches \<Rightarrow> string \<Rightarrow> run_plan option" where
  "target_plan wt target =
     (let plan = filter_plan (\<lambda>r. str_contains target (rule_name r)) (wt_topology wt)
      in if plan_is_empty plan then None else Some plan)"

text \<open>Both sides of these disjunctions have been evaluated before they are combined.\<close>

definition both_result :: "bool result \<Rightarrow> bool result \<Rightarrow> bool result" where
  "both_result a b = (case a of Inl e \<Rightarrow> Inl e | Inr x \<Rightarrow> map_sum id (\<lambda>y. x \<or> y) b)"

definition on_relative :: "string option \<Rightarrow> (string \<Rightarrow> bool result) \<Rightarrow> bool result" where
  "on_relative rel f = (case rel of None \<Rightarrow> Inr False | Some r \<Rightarrow> f r)"

definition ignored_by :: "watch_env \<Rightarrow> string \<Rightarrow> string option \<Rightarrow> rules \<Rightarrow> bool result" where
  "ignored_by env absolute rel r =
     both_result (ignore_absolute (we_glob env) r absolute) (on_relative rel (ignore_relative (we_glob env) r))"

definition watched_by :: "watch_env \<Rightarrow> string \<Rightarrow> string option \<Rightarrow> rules \<Rightarrow> bool result" where
  "watched_by env absolute rel r =
     both_result (watch_absolute (we_glob env) r absolute) (on_relative rel (watch_relative (we_glob env) r))"

definition gitignored_relative :: "watch_env \<Rightarrow> watches \<Rightarrow> string option \<Rightarrow> bool" where
  "gitignored_relative env wt rel =
     (wt_respect_gitignore wt \<and> (case rel of None \<Rightarrow> False | Some r \<Rightarrow> gitignored env wt (trim_slashes r)))"

definition selects :: "watch_env \<Rightarrow> watches \<Rightarrow> string \<Rightarrow> rules \<Rightarrow> bool result" where
  "selects env wt path r =
     (let (absolute, rel) = normalize_paths wt path
      in case ignored_by env absolute rel r of
           Inl e \<Rightarrow> Inl e
         | Inr True \<Rightarrow> Inr False
         | Inr False \<Rightarrow>
             (if gitignored_relative env wt rel then Inr False else watched_by env absolute rel r))"

text \<open>\<open>RunPlan::filter\<close> with a predicate that may panic.\<close>

definition filter_plan_result :: "(rules \<Rightarrow> bool result) \<Rightarrow> run_plan \<Rightarrow> run_plan result" where
  "filter_plan_result p plan =
     (case filter_result p (map tp_rule (plan_tasks plan)) of
        Inl e \<Rightarrow> Inl e
      | Inr _ \<Rightarrow> Inr (filter_plan (\<lambda>r. p r = Inr True) plan))"

definition watch_plan :: "watch_env \<Rightarrow> watches \<Rightarrow> string \<Rightarrow> run_plan option result" where
  "watch_plan env wt path =
     map_sum id (\<lambda>plan. if plan_is_empty plan then None else Some plan)
       (filter_plan_result (selects env wt path) (wt_topology wt))"

fun first_plan :: "watch_env \<Rightarrow> watches \<Rightarrow> string list \<Rightarrow> (run_plan \<times> string) option result" where
  "first_plan env wt [] = Inr None"
| "first_plan env wt (path # paths) =
     (case watch_plan env wt path of
        Inl e \<Rightarrow> Inl e
      | Inr (Some plan) \<Rightarrow> Inr (Some (plan, path))
      | Inr None \<Rightarrow> first_plan env wt paths)"

definition watch_plan_batch :: "watch_env \<Rightarrow> watches \<Rightarrow> string list \<Rightarrow> (run_plan \<times> string) option result" where
  "watch_plan_batch env wt paths = first_plan env wt (sort paths)"

text \<open>The flat selection, without gitignore.\<close>

definition watch_rules :: "watch_env \<Rightarrow> watches \<Rightarrow> string \<Rightarrow> rules list option result" where
  "watch_rules env wt path =
     (let (absolute, rel) = normalize_paths wt path in
      map_sum id (\<lambda>rs. if rs = [] then None else Some rs)
        (filter_result (\<lambda>r. case ignored_by env absolute rel r of
             Inl e \<Rightarrow> Inl e
           | Inr True \<Rightarrow> Inr False
           | Inr False \<Rightarrow> watched_by env absolute rel r) (wt_rules wt)))"

definition run_on_init_plan :: "watches \<Rightarrow> run_plan option" where
  "run_on_init_plan wt =
     (let plan = filter_plan rule_run_on_init (wt_topology wt) in if plan_is_empty plan then None else Some plan)"

definition run_on_init :: "watches \<Rightarrow> rules list option" where
  "run_on_init wt =
     (let rs = filter rule_run_on_init (wt_rules wt) in if rs = [] then None else Some rs)"

section \<open>Explanations\<close>

record explain_rule =
  er_name :: string
  er_change_patterns :: "string list"
  er_ignore_patterns :: "string list"
  er_cwd :: string
  er_environment_keys :: "string list"
  er_recovery_available :: bool
  er_origin :: string

datatype plan_stage_preview = SerialPreview string | ParallelPreview string "string list"

record explain_result =
  ex_matched :: "explain_rule list"
  ex_ignored :: "explain_rule list"
  ex_plan_stages :: "plan_stage_preview list"

definition origin_for :: "rules \<Rightarrow> string option \<Rightarrow> string option \<Rightarrow> string" where
  "origin_for r change ig =
     (case (case change of Some p \<Rightarrow> Some p | None \<Rightarrow> ig) of
        Some p \<Rightarrow> if p \<in> set (rule_inherited r) then ''group'' else ''task''
      | None \<Rightarrow> ''task'')"

definition first_of :: "'a list \<Rightarrow> 'a option" where
  "first_of xs = (case xs of [] \<Rightarrow> None | x # _ \<Rightarrow> Some x)"

definition list_on_relative :: "string option \<Rightarrow> (string \<Rightarrow> string list result) \<Rightarrow> string list result" where
  "list_on_relative rel f = (case rel of None \<Rightarrow> Inr [] | Some r \<Rightarrow> f r)"

definition change_patterns :: "watch_env \<Rightarrow> string \<Rightarrow> string option \<Rightarrow> rules \<Rightarrow> string list result" where
  "change_patterns env absolute rel r =
     append_result (watch_absolute_patterns (we_glob env) r absolute)
       (list_on_relative rel (watch_relative_patterns (we_glob env) r))"

definition ignoring_patterns :: "watch_env \<Rightarrow> string \<Rightarrow> string option \<Rightarrow> rules \<Rightarrow> string list result" where
  "ignoring_patterns env absolute rel r =
     append_result (ignore_absolute_patterns (we_glob env) r absolute)
       (list_on_relative rel (ignore_relative_patterns (we_glob env) r))"

text \<open>One rule: nothing, a matched entry (\<^const>\<open>Inl\<close>) or an ignored entry (\<^const>\<open>Inr\<close>).\<close>

definition explain_one ::
  "watch_env \<Rightarrow> watches \<Rightarrow> string \<Rightarrow> string option \<Rightarrow> rules \<Rightarrow> (explain_rule + explain_rule) option result" where
  "explain_one env wt absolute rel r =
     (case change_patterns env absolute rel r of
        Inl e \<Rightarrow> Inl e
      | Inr [] \<Rightarrow> Inr None
      | Inr (c # cs) \<Rightarrow>
          (case ignoring_patterns env absolute rel r of
             Inl e \<Rightarrow> Inl e
           | Inr found \<Rightarrow>
               (let gitignored = (found = [] \<and> gitignored_relative env wt rel);
                    entry = (\<lambda>ignores origin.
                      \<lparr>er_name = rule_name r, er_change_patterns = c # cs, er_ignore_patterns = ignores,
                       er_cwd = (case rule_cwd r of Some cwd \<Rightarrow> path_join (wt_root wt) cwd | None \<Rightarrow> wt_root wt),
                       er_environment_keys = map fst (rule_environment r),
                       er_recovery_available = (rule_recovery r \<noteq> None), er_origin = origin\<rparr>)
                in if found = [] \<and> \<not> gitignored
                   then Inr (Some (Inl (entry [] (origin_for r (Some c) None))))
                   else (let effective = (if gitignored then found @ [''.gitignore''] else found)
                         in Inr (Some (Inr (entry effective (origin_for r None (first_of effective)))))))))"

fun explain_rules ::
  "watch_env \<Rightarrow> watches \<Rightarrow> string \<Rightarrow> string option \<Rightarrow> rules list \<Rightarrow> (explain_rule list \<times> explain_rule list) result" where
  "explain_rules env wt absolute rel [] = Inr ([], [])"
| "explain_rules env wt absolute rel (r # rs) =
     (case explain_one env wt absolute rel r of
        Inl e \<Rightarrow> Inl e
      | Inr decision \<Rightarrow>
          (case explain_rules env wt absolute rel rs of
             Inl e \<Rightarrow> Inl e
           | Inr (ms, igs) \<Rightarrow>
               Inr (case decision of
                      None \<Rightarrow> (ms, igs)
                    | Some (Inl m) \<Rightarrow> (m # ms, igs)
                    | Some (Inr i) \<Rightarrow> (ms, i # igs))))"

fun stage_preview :: "stage \<Rightarrow> plan_stage_preview" where
  "stage_preview (Serial task) = SerialPreview (tp_name task)"
| "stage_preview (Parallel g tasks) =
     ParallelPreview
       (case tasks of
          t # _ \<Rightarrow> (case tp_group_occurrence t of Some i \<Rightarrow> i | None \<Rightarrow> g)
        | [] \<Rightarrow> g)
       (map tp_name tasks)"

definition explain :: "watch_env \<Rightarrow> watches \<Rightarrow> string \<Rightarrow> explain_result result" where
  "explain env wt path =
     (let (absolute, rel) = normalize_paths wt path in
      case explain_rules env wt absolute rel (wt_rules wt) of
        Inl e \<Rightarrow> Inl e
      | Inr (ms, igs) \<Rightarrow>
          map_sum id (\<lambda>plan. \<lparr>ex_matched = ms, ex_ignored = igs,
             ex_plan_stages = (case plan of Some p \<Rightarrow> map stage_preview (stages p) | None \<Rightarrow> [])\<rparr>)
            (watch_plan env wt path))"

section \<open>Subscription roots\<close>

text \<open>\<open>Component\<close> is ordered by its variants, \<open>Normal\<close> by its text; \<open>PathBuf\<close> compares components.\<close>

fun component_rank :: "path_component \<Rightarrow> nat \<times> string" where
  "component_rank RootDir = (0, [])"
| "component_rank CurDir = (1, [])"
| "component_rank ParentDir = (2, [])"
| "component_rank (Normal s) = (3, s)"

definition rank_le :: "nat \<times> string \<Rightarrow> nat \<times> string \<Rightarrow> bool" where
  "rank_le a b \<longleftrightarrow> fst a < fst b \<or> fst a = fst b \<and> snd a \<le> snd b"

instantiation path_component :: linorder
begin

definition less_eq_path_component :: "path_component \<Rightarrow> path_component \<Rightarrow> bool" where
  "less_eq_path_component a b \<longleftrightarrow> rank_le (component_rank a) (component_rank b)"

definition less_path_component :: "path_component \<Rightarrow> path_component \<Rightarrow> bool" where
  "less_path_component a b \<longleftrightarrow> a \<le> b \<and> \<not> b \<le> (a :: path_component)"

instance
proof
  fix a b c :: path_component
  show "(a < b) = (a \<le> b \<and> \<not> b \<le> a)" by (simp add: less_path_component_def)
  show "a \<le> a" by (simp add: less_eq_path_component_def rank_le_def)
  show "a \<le> b \<Longrightarrow> b \<le> c \<Longrightarrow> a \<le> c" by (auto simp: less_eq_path_component_def rank_le_def)
  show "a \<le> b \<Longrightarrow> b \<le> a \<Longrightarrow> a = b"
    by (cases a; cases b) (auto simp: less_eq_path_component_def rank_le_def)
  show "a \<le> b \<or> b \<le> a" by (auto simp: less_eq_path_component_def rank_le_def)
qed

end

type_synonym path_buf = "path_component list"

fun component_text :: "path_component \<Rightarrow> string" where
  "component_text RootDir = []"
| "component_text CurDir = ''.''"
| "component_text ParentDir = ''..''"
| "component_text (Normal s) = s"

definition path_text :: "path_buf \<Rightarrow> string" where
  "path_text p = (if p = [RootDir] then ''/'' else join_with ''/'' (map component_text p))"

definition glob_segment :: "path_component \<Rightarrow> bool" where
  "glob_segment c = (case c of Normal s \<Rightarrow> set s \<inter> {CHR ''*'', CHR ''?'', CHR ''['', CHR ''{''} \<noteq> {} | _ \<Rightarrow> False)"

definition literal_prefix :: "string \<Rightarrow> path_buf" where
  "literal_prefix path =
     filter (\<lambda>c. c \<noteq> CurDir) (takeWhile (\<lambda>c. \<not> glob_segment c) (path_components path))"

text \<open>The walk up: the parent is tried until it exists, and never the file system root.\<close>

function walk_up :: "watch_env \<Rightarrow> path_buf \<Rightarrow> path_buf \<Rightarrow> path_buf" where
  "walk_up env path current =
     (if current = [] \<or> current = [RootDir] then path
      else
        (let parent = butlast current in
         if parent = [RootDir] then path
         else if we_exists env (path_text parent) then parent
         else walk_up env path parent))"
  by pat_completeness auto
termination
  by (relation "measure (\<lambda>(env, path, current). length current)") auto

declare walk_up.simps [simp del]

definition nearest_existing_ancestor_or_self :: "watch_env \<Rightarrow> path_buf \<Rightarrow> path_buf" where
  "nearest_existing_ancestor_or_self env path =
     (if we_exists env (path_text path) then
        (if we_is_dir env (path_text path) then path
         else if path = [] \<or> path = [RootDir] then path else butlast path)
      else walk_up env path path)"

definition absolute_pattern :: "watches \<Rightarrow> string \<Rightarrow> string" where
  "absolute_pattern wt pattern =
     (if absolute_like pattern then pattern else path_join (wt_root wt) pattern)"

definition root_for_pattern :: "watch_env \<Rightarrow> watches \<Rightarrow> string \<Rightarrow> path_buf" where
  "root_for_pattern env wt pattern =
     nearest_existing_ancestor_or_self env (literal_prefix (absolute_pattern wt pattern))"

definition add_candidate :: "path_buf \<Rightarrow> path_buf list \<Rightarrow> path_buf list" where
  "add_candidate c cs = (if c \<in> set cs then cs else cs @ [c])"

definition minimal_roots :: "path_buf list \<Rightarrow> path_buf list" where
  "minimal_roots cs =
     remdups_adj (sort (filter (\<lambda>c. \<not> (\<exists>other\<in>set cs. other \<noteq> c \<and> prefix other c)) cs))"

definition subscription_roots :: "watch_env \<Rightarrow> watches \<Rightarrow> path_buf list" where
  "subscription_roots env wt =
     minimal_roots (fold add_candidate
       (map (root_for_pattern env wt) (concat (map rule_watch_patterns (wt_rules wt)))) [])"

definition baseline_paths :: "watch_env \<Rightarrow> watches \<Rightarrow> path_buf list" where
  "baseline_paths env wt =
     minimal_roots (fold add_candidate
       (filter (\<lambda>p. we_exists env (path_text p))
         (map (\<lambda>pattern. literal_prefix (absolute_pattern wt pattern))
           (concat (map rule_watch_patterns (wt_rules wt))))) [])"

definition paths_to_watch :: "watch_env \<Rightarrow> watches \<Rightarrow> string list option" where
  "paths_to_watch env wt =
     (let roots = subscription_roots env wt in if roots = [] then None else Some (map path_text roots))"

definition covering_roots :: "watch_env \<Rightarrow> watches \<Rightarrow> string \<Rightarrow> string list" where
  "covering_roots env wt path =
     map path_text (filter (\<lambda>root. prefix root (path_components (fst (normalize_paths wt path))))
       (subscription_roots env wt))"

definition swap_config :: "watch_env \<Rightarrow> watches \<Rightarrow> watches \<Rightarrow> string list \<times> watches" where
  "swap_config env candidate wt =
     ((case paths_to_watch env wt of Some ps \<Rightarrow> ps | None \<Rightarrow> []), candidate)"

section \<open>Planning, the flat selection and the explanation agree\<close>

text \<open>The topology is a plan of the visible rules; constructors and target selection keep it so.\<close>

definition consistent :: "watches \<Rightarrow> bool" where
  "consistent wt \<longleftrightarrow> map tp_rule (plan_tasks (wt_topology wt)) = wt_rules wt \<and>
     (\<forall>t\<in>set (plan_tasks (wt_topology wt)). tp_name t = rule_name (tp_rule t))"

lemma tasks_from_rules: "map tp_rule (tasks_from i rs) = rs \<and> (\<forall>t\<in>set (tasks_from i rs). tp_name t = rule_name (tp_rule t))"
  by (induction i rs rule: tasks_from.induct) (auto simp: task_of_rule_def)

lemma map_erase_facts:
  "map erase ts = us \<Longrightarrow> map tp_rule ts = map tp_rule us \<and>
     ((\<forall>u\<in>set us. tp_name u = rule_name (tp_rule u)) \<longrightarrow> (\<forall>t\<in>set ts. tp_name t = rule_name (tp_rule t)))"
  by (auto simp: erase_def)

lemma from_rules_rules:
  "map tp_rule (plan_tasks (from_rules rs)) = rs \<and>
     (\<forall>t\<in>set (plan_tasks (from_rules rs)). tp_name t = rule_name (tp_rule t))"
  using map_erase_facts [OF map_erase_from_rules [of rs]] tasks_from_rules [of 0 rs] by simp

lemma consistent_new: "with_root_and_concurrency rs root n = Some wt \<Longrightarrow> consistent wt"
  using from_rules_rules [of rs] by (auto simp: with_root_and_concurrency_def consistent_def split: if_splits)

lemma filter_tasks_rules: "map tp_rule (filter (\<lambda>t. k (tp_rule t)) ts) = filter k (map tp_rule ts)"
  by (induction ts) simp_all

lemma consistent_select: "select_target target wt = Some wt' \<Longrightarrow> consistent wt \<Longrightarrow> consistent wt'"
  using filter_tasks_rules [of "\<lambda>r. str_contains target (rule_name r)" "plan_tasks (wt_topology wt)"]
  by (auto simp: select_target_def consistent_def Let_def plan_tasks_filter split: if_splits)

lemma filter_plan_empty: "plan_is_empty (filter_plan k p) \<longleftrightarrow> plan_tasks (filter_plan k p) = []"
proof -
  have "s \<in> set (filter_stage k t) \<Longrightarrow> stage_tasks s \<noteq> []" for s t
    by (cases t) (auto simp: Let_def split: if_splits)
  then show ?thesis by (auto simp: plan_is_empty_def filter_plan_def plan_tasks_def)
qed

lemma filter_result_plan:
  assumes "\<And>r. r \<in> set (map tp_rule (plan_tasks p)) \<Longrightarrow> f r = Inr (k r)"
  shows "filter_plan_result f p = Inr (filter_plan k p)"
proof -
  have "filter_stage (\<lambda>r. f r = Inr True) s = filter_stage k s" if "s \<in> set (stages p)" for s
  proof -
    have "f (tp_rule t) = Inr (k (tp_rule t))" if "t \<in> set (stage_tasks s)" for t
      using assms that \<open>s \<in> set (stages p)\<close> by (auto simp: plan_tasks_def)
    then have "filter (\<lambda>t. f (tp_rule t) = Inr True) (stage_tasks s) = filter (\<lambda>t. k (tp_rule t)) (stage_tasks s)"
      by (intro filter_cong) auto
    with \<open>\<And>t. t \<in> set (stage_tasks s) \<Longrightarrow> f (tp_rule t) = Inr (k (tp_rule t))\<close> show ?thesis by (cases s) auto
  qed
  then have "filter_plan (\<lambda>r. f r = Inr True) p = filter_plan k p"
    by (auto simp: filter_plan_def intro!: arg_cong [of _ _ concat])
  with filter_result_total [of "map tp_rule (plan_tasks p)" f k, OF assms] show ?thesis
    by (simp add: filter_plan_result_def)
qed

text \<open>What a rule answers for a path, when its patterns are valid.\<close>

definition accepts :: "watch_env \<Rightarrow> string \<Rightarrow> string option \<Rightarrow> string \<Rightarrow> bool" where
  "accepts env absolute rel p \<longleftrightarrow>
     (if absolute_like p then glob_matches (we_glob env) p absolute
      else (case rel of None \<Rightarrow> False | Some r \<Rightarrow> glob_matches (we_glob env) (relative_key p) (normalize_path r)))"

definition watched :: "watch_env \<Rightarrow> string \<Rightarrow> string option \<Rightarrow> rules \<Rightarrow> bool" where
  "watched env absolute rel r \<longleftrightarrow> (\<exists>p\<in>set (rule_watch_patterns r). accepts env absolute rel p)"

definition ignored :: "watch_env \<Rightarrow> string \<Rightarrow> string option \<Rightarrow> rules \<Rightarrow> bool" where
  "ignored env absolute rel r \<longleftrightarrow> (\<exists>p\<in>set (rule_ignore_patterns r). accepts env absolute rel p)"

lemma change_patterns_ok:
  assumes "glob_relative_ok (we_glob env)" and "patterns_ok (we_glob env) r"
  shows "\<exists>ps. change_patterns env absolute rel r = Inr ps \<and> (ps \<noteq> [] \<longleftrightarrow> watched env absolute rel r)"
  using assms
  by (auto simp: change_patterns_def append_result_def list_on_relative_def patterns_total watched_def accepts_def
      watch_absolute_paths_def watch_relative_paths_def filter_empty_conv split: option.split)

lemma ignoring_patterns_ok:
  assumes "glob_relative_ok (we_glob env)" and "patterns_ok (we_glob env) r"
  shows "\<exists>ps. ignoring_patterns env absolute rel r = Inr ps \<and> (ps \<noteq> [] \<longleftrightarrow> ignored env absolute rel r)"
  using assms
  by (auto simp: ignoring_patterns_def append_result_def list_on_relative_def patterns_total ignored_def accepts_def
      filter_empty_conv split: option.split)

lemma watched_by_ok:
  assumes "glob_relative_ok (we_glob env)" and "patterns_ok (we_glob env) r"
  shows "watched_by env absolute rel r = Inr (watched env absolute rel r)"
  using assms
  by (auto simp: watched_by_def both_result_def on_relative_def watch_absolute_def watch_relative_def nonempty_result_def
      patterns_total watched_def accepts_def watch_absolute_paths_def watch_relative_paths_def filter_empty_conv
      split: option.split)

lemma ignored_by_ok:
  assumes "glob_relative_ok (we_glob env)" and "patterns_ok (we_glob env) r"
  shows "ignored_by env absolute rel r = Inr (ignored env absolute rel r)"
  using assms
  by (auto simp: ignored_by_def both_result_def on_relative_def ignore_absolute_def ignore_relative_def nonempty_result_def
      patterns_total ignored_def accepts_def filter_empty_conv split: option.split)

definition runs_for :: "watch_env \<Rightarrow> watches \<Rightarrow> string \<Rightarrow> rules \<Rightarrow> bool" where
  "runs_for env wt path r \<longleftrightarrow>
     (let (absolute, rel) = normalize_paths wt path
      in watched env absolute rel r \<and> \<not> ignored env absolute rel r \<and> \<not> gitignored_relative env wt rel)"

lemma selects_ok:
  assumes "glob_relative_ok (we_glob env)" and "patterns_ok (we_glob env) r"
  shows "selects env wt path r = Inr (runs_for env wt path r)"
  using watched_by_ok [OF assms] ignored_by_ok [OF assms]
  by (auto simp: selects_def runs_for_def split: prod.split bool.split)

lemma watch_plan_ok:
  assumes "glob_relative_ok (we_glob env)" and "\<forall>r\<in>set (wt_rules wt). patterns_ok (we_glob env) r" and "consistent wt"
  shows "watch_plan env wt path =
    Inr (let plan = filter_plan (runs_for env wt path) (wt_topology wt) in if plan_is_empty plan then None else Some plan)"
proof -
  have "selects env wt path r = Inr (runs_for env wt path r)" if "r \<in> set (map tp_rule (plan_tasks (wt_topology wt)))" for r
    using selects_ok [OF assms(1)] assms(2,3) that by (auto simp: consistent_def)
  from filter_result_plan [OF this] show ?thesis by (simp add: watch_plan_def Let_def)
qed

lemma explain_one_ok:
  assumes "glob_relative_ok (we_glob env)" and "patterns_ok (we_glob env) r" and "normalize_paths wt path = (absolute, rel)"
  shows "\<exists>d. explain_one env wt absolute rel r = Inr d \<and>
    (runs_for env wt path r \<longrightarrow> (\<exists>m. d = Some (Inl m) \<and> er_name m = rule_name r)) \<and>
    (\<not> runs_for env wt path r \<longrightarrow> d = None \<or> (\<exists>i. d = Some (Inr i)))"
proof -
  obtain cs where c: "change_patterns env absolute rel r = Inr cs" "cs \<noteq> [] \<longleftrightarrow> watched env absolute rel r"
    using change_patterns_ok [OF assms(1,2)] by blast
  obtain ps where i: "ignoring_patterns env absolute rel r = Inr ps" "ps \<noteq> [] \<longleftrightarrow> ignored env absolute rel r"
    using ignoring_patterns_ok [OF assms(1,2)] by blast
  have run: "runs_for env wt path r \<longleftrightarrow> cs \<noteq> [] \<and> ps = [] \<and> \<not> gitignored_relative env wt rel"
    using c(2) i(2) assms(3) by (auto simp: runs_for_def)
  show ?thesis
    unfolding run using c(1) i(1) by (cases cs) (auto simp: explain_one_def Let_def)
qed

lemma explain_rules_ok:
  assumes "glob_relative_ok (we_glob env)" and "\<forall>r\<in>set rs. patterns_ok (we_glob env) r" and "normalize_paths wt path = (absolute, rel)"
  shows "\<exists>ms igs. explain_rules env wt absolute rel rs = Inr (ms, igs) \<and>
    map er_name ms = map rule_name (filter (runs_for env wt path) rs)"
  using assms(2)
proof (induction rs)
  case (Cons r rs)
  then obtain ms igs where ms: "explain_rules env wt absolute rel rs = Inr (ms, igs)"
    "map er_name ms = map rule_name (filter (runs_for env wt path) rs)" by auto
  from explain_one_ok [OF assms(1) _ assms(3), of r] Cons.prems ms show ?case by (auto split: option.split)
qed simp

lemma task_names_tasks: "task_names p = map tp_name (plan_tasks p)"
  by (auto simp: task_names_def plan_tasks_def map_concat split: stage.split intro!: arg_cong [of _ _ concat])

text \<open>
  C20. The explanation of a path cannot drift from what runs: over validated jobs and a consistent
  configuration, both return, the jobs reported as matched are exactly the tasks of the plan that a
  change of the path schedules, in the same order, and the preview shows exactly its stages.
\<close>

theorem explanation_agrees_with_plan:
  assumes "glob_relative_ok (we_glob env)" and "\<forall>r\<in>set (wt_rules wt). validate (we_glob env) r = Inr ()"
    and "consistent wt"
  shows "\<exists>ex plan. explain env wt path = Inr ex \<and> watch_plan env wt path = Inr plan \<and>
    map er_name (ex_matched ex) = (case plan of None \<Rightarrow> [] | Some p \<Rightarrow> task_names p) \<and>
    ex_plan_stages ex = (case plan of None \<Rightarrow> [] | Some p \<Rightarrow> map stage_preview (stages p))"
proof -
  have v: "\<forall>r\<in>set (wt_rules wt). patterns_ok (we_glob env) r" using assms(2) by (auto simp: validate_ok_iff)
  obtain absolute rel where n: "normalize_paths wt path = (absolute, rel)" by (metis surj_pair)
  let ?p = "filter_plan (runs_for env wt path) (wt_topology wt)"
  note plan = watch_plan_ok [OF assms(1) v assms(3), of path]
  obtain ms igs where ms: "explain_rules env wt absolute rel (wt_rules wt) = Inr (ms, igs)"
    "map er_name ms = map rule_name (filter (runs_for env wt path) (wt_rules wt))"
    using explain_rules_ok [OF assms(1) v n] by blast
  have "task_names ?p = map (\<lambda>t. rule_name (tp_rule t)) (plan_tasks ?p)"
    using assms(3) by (auto simp: task_names_tasks plan_tasks_filter consistent_def)
  also have "\<dots> = map rule_name (filter (runs_for env wt path) (wt_rules wt))"
    using assms(3) filter_tasks_rules [of "runs_for env wt path" "plan_tasks (wt_topology wt)"]
    by (simp add: plan_tasks_filter consistent_def flip: map_map [unfolded comp_def])
  finally have names: "task_names ?p = map er_name ms" using ms(2) by simp
  have "plan_is_empty ?p \<Longrightarrow> ms = []" using names by (simp add: filter_plan_empty task_names_tasks)
  with names plan ms(1) n show ?thesis by (auto simp: explain_def Let_def)
qed

definition demo_env :: watch_env where
  "demo_env = \<lparr>we_glob = demo_glob, we_exists = (\<lambda>p. p = ''/w''), we_is_dir = (\<lambda>p. p = ''/w''),
               we_modified = (\<lambda>p. None), we_gitignore = (\<lambda>root rel. False)\<rparr>"

definition demo_watches :: watches where
  "demo_watches = the (with_root_and_concurrency
     [rules_new ''unit'' [''make test''] [''./src/a''] [] False, rules_new ''docs'' [''make docs''] [''doc/b''] [] False]
     ''/w'' 2)"

lemma demo_watches: "with_root_and_concurrency
     [rules_new ''unit'' [''make test''] [''./src/a''] [] False, rules_new ''docs'' [''make docs''] [''doc/b''] [] False]
     ''/w'' 2 = Some demo_watches"
  by (simp add: demo_watches_def with_root_and_concurrency_def)

lemma demo_valid: "\<forall>r\<in>set (wt_rules demo_watches). validate (we_glob demo_env) r = Inr ()"
  by (simp add: demo_watches_def with_root_and_concurrency_def demo_env_def validate_ok_iff rules_new_def
      command_lines_def demo_glob_def)

theorem explanation_agrees_with_plan_witness:
  "\<exists>ex plan. explain demo_env demo_watches ''src/a'' = Inr ex \<and> watch_plan demo_env demo_watches ''src/a'' = Inr plan \<and>
    map er_name (ex_matched ex) = (case plan of None \<Rightarrow> [] | Some p \<Rightarrow> task_names p)"
  using explanation_agrees_with_plan [of demo_env demo_watches "''src/a''"] demo_valid consistent_new [OF demo_watches]
    demo_glob_relative_ok by (auto simp: demo_env_def)

section \<open>The subscription roots cover every path that can trigger a task\<close>

lemma str_split_parts_slash: "s \<in> set (split_str [c] acc x) \<Longrightarrow> c \<notin> set acc \<Longrightarrow> c \<notin> set s"
proof (induction "[c]" acc x arbitrary: s rule: split_str.induct)
  case (1 acc x)
  show ?case
  proof (cases x)
    case Nil
    with "1.prems" show ?thesis by (simp add: split_str_end)
  next
    case (Cons d ds)
    have m: "split_str [c] acc (c # ds) = rev acc # split_str [c] [] ds"
      using split_str_match [of "[c]" acc ds] by simp
    show ?thesis
    proof (cases "c = d")
      case True
      with 1 Cons m show ?thesis by (auto simp: starts_with_def)
    next
      case False
      with 1 Cons show ?thesis by (auto simp: split_str_skip starts_with_def)
    qed
  qed
qed

lemma path_body_segment: "CHR ''/'' \<notin> set s \<Longrightarrow> path_body s = component_of s"
proof -
  assume "CHR ''/'' \<notin> set s"
  then have "\<not> str_contains ''/'' s" by (auto simp: str_contains_iff)
  then show ?thesis by (simp add: path_body_def str_split_def split_str_no_match)
qed

lemma path_body_join:
  "\<forall>s\<in>set segs. CHR ''/'' \<notin> set s \<Longrightarrow> path_body (join_with ''/'' segs) = concat (map component_of segs)"
proof (induction segs rule: induct_list012)
  case (3 x y xs)
  then show ?case by (simp add: path_body_slash [of x, simplified] path_body_segment)
qed (auto simp: path_body_segment)

lemma drop_reals_components:
  "concat (map component_of (drop_reals n segs)) = drop n (concat (map component_of segs))"
  by (induction n segs rule: drop_reals.induct) (auto simp: component_of_def)

lemma trim_segments_components: "concat (map component_of (trim_segments segs)) = concat (map component_of segs)"
proof -
  have drop: "concat (map component_of (dropWhile (\<lambda>s. component_of s = []) xs)) = concat (map component_of xs)" for xs
    by (induction xs) auto
  have rev: "concat (map component_of (rev (dropWhile (\<lambda>s. component_of s = []) xs))) = concat (map component_of (rev xs))" for xs
    by (induction xs) auto
  show ?thesis by (simp add: trim_segments_def rev drop)
qed

lemma drop_reals_subset: "set (drop_reals n segs) \<subseteq> set segs"
  by (induction n segs rule: drop_reals.induct) auto

lemma trim_segments_subset: "set (trim_segments segs) \<subseteq> set segs"
  by (auto simp: trim_segments_def dest!: set_dropWhileD)

lemma strip_prefix_body:
  assumes "strip_prefix path base = Some rel" and "absolute_like path" and "absolute_like base"
  shows "path_body path = path_body base @ path_body rel"
proof -
  let ?n = "length (path_body base)"
  let ?segs = "trim_segments (drop_reals ?n (str_split ''/'' path))"
  have st: "path_starts_with path base" and rel: "rel = join_with ''/'' ?segs"
    using assms(1) by (auto simp: strip_prefix_def split: if_splits)
  have "set ?segs \<subseteq> set (str_split ''/'' path)" using trim_segments_subset drop_reals_subset by blast
  then have "\<forall>s\<in>set ?segs. CHR ''/'' \<notin> set s"
    using str_split_parts_slash [of _ "CHR ''/''" "[]" path] by (auto simp: str_split_def)
  then have "path_body rel = concat (map component_of ?segs)" by (simp only: rel path_body_join)
  then have "path_body rel = drop ?n (path_body path)"
    by (simp only: trim_segments_components drop_reals_components path_body_def [of path])
  moreover have "take ?n (path_body path) = path_body base"
    using st assms(2,3) by (simp add: path_starts_with_def path_components_absolute)
  ultimately show ?thesis by (metis append_take_drop_id)
qed

lemma body_no_curdir: "CurDir \<notin> set (path_body p)"
  by (auto simp: path_body_def component_of_def split: if_splits)

lemma literal_prefix_absolute:
  assumes "absolute_like p"
  shows "literal_prefix p = RootDir # takeWhile (\<lambda>c. \<not> glob_segment c) (path_body p)"
proof -
  have "filter (\<lambda>c. c \<noteq> CurDir) (takeWhile P (path_body p)) = takeWhile P (path_body p)" for P
    using body_no_curdir [of p] by (auto simp: filter_id_conv dest: set_takeWhileD)
  then show ?thesis by (simp add: literal_prefix_def path_components_absolute [OF assms] glob_segment_def)
qed

lemma trim_dot_slash_body: "path_body (trim_dot_slash p) = path_body p"
proof (induction p rule: trim_dot_slash.induct)
  case (1 a b s)
  show ?case
  proof (cases "a = CHR ''.'' \<and> b = CHR ''/''")
    case True
    with 1 path_body_slash [of "''.''" s] show ?thesis by (simp add: path_body_segment component_of_def)
  qed auto
qed simp_all

lemma relative_key_body: "path_body (relative_key p) = path_body p"
  using path_body_slash [of "[]" "trim_dot_slash p"] by (simp add: relative_key_def trim_dot_slash_body)

text \<open>
  What the roots rely on of the \<open>glob\<close> crate: a path that an anchored pattern accepts begins with
  the literal components of the pattern.
\<close>

definition glob_literal :: "glob_lib \<Rightarrow> bool" where
  "glob_literal g \<longleftrightarrow> (\<forall>p path. absolute_like p \<longrightarrow> absolute_like path \<longrightarrow> glob_matches g p path \<longrightarrow>
     prefix (literal_prefix p) (path_components path))"

lemma butlast_prefix: "prefix (butlast xs) xs"
  by (cases xs rule: rev_cases) simp_all

lemma walk_up_prefix: "prefix current path \<Longrightarrow> prefix (walk_up env path current) path"
proof (induction env path current rule: walk_up.induct)
  case (1 env path current)
  then have "prefix (butlast current) path" using butlast_prefix prefix_order.trans by blast
  with 1 show ?case by (subst walk_up.simps) (auto simp: Let_def)
qed

lemma nearest_prefix: "prefix (nearest_existing_ancestor_or_self env path) path"
  by (auto simp: nearest_existing_ancestor_or_self_def walk_up_prefix butlast_prefix)

lemma takeWhile_append_prefix: "prefix (takeWhile P ys) zs \<Longrightarrow> prefix (takeWhile P (xs @ ys)) (xs @ zs)"
  by (induction xs) simp_all

lemma accepted_under_root:
  assumes "glob_literal (we_glob env)" and "absolute_like (wt_root wt)"
    and "normalize_paths wt path = (absolute, rel)" and "accepts env absolute rel p"
  shows "prefix (root_for_pattern env wt p) (path_components absolute)"
proof -
  have abs: "absolute_like absolute"
    using assms(2,3) absolute_like_append [of "wt_root wt"]
    by (auto simp: normalize_paths_def Let_def path_join_def split: if_splits)
  have "prefix (literal_prefix (absolute_pattern wt p)) (path_components absolute)"
  proof (cases "absolute_like p")
    case True
    with assms(1,4) abs show ?thesis by (auto simp: accepts_def absolute_pattern_def glob_literal_def)
  next
    case False
    then obtain r where r: "rel = Some r" "glob_matches (we_glob env) (relative_key p) (normalize_path r)"
      using assms(4) by (auto simp: accepts_def split: option.splits)
    with assms(3) obtain q where q: "r = CHR ''/'' # q" "strip_prefix absolute (wt_root wt) = Some q"
      by (auto simp: normalize_paths_def Let_def)
    have k: "absolute_like (relative_key p)" "absolute_like r" "normalize_path r = r"
      by (simp_all add: relative_key_def absolute_like_def starts_with_def q(1) normalize_path_def)
    have "prefix (literal_prefix (relative_key p)) (path_components r)"
      using assms(1) r(2) k by (simp add: glob_literal_def)
    then have "prefix (takeWhile (\<lambda>c. \<not> glob_segment c) (path_body p)) (path_body q)"
      using path_body_slash [of "[]" q] k
      by (simp add: literal_prefix_absolute path_components_absolute relative_key_body q(1))
    then have "prefix (takeWhile (\<lambda>c. \<not> glob_segment c) (path_body (wt_root wt) @ path_body p))
        (path_body (wt_root wt) @ path_body q)"
      using takeWhile_append_prefix by blast
    moreover have "path_body absolute = path_body (wt_root wt) @ path_body q"
      by (rule strip_prefix_body [OF q(2) abs assms(2)])
    moreover have "absolute_like (path_join (wt_root wt) p)"
      using assms(2) False absolute_like_append [of "wt_root wt"] by (simp add: path_join_def)
    moreover have "path_components (path_join (wt_root wt) p) = path_components (wt_root wt) @ path_body p"
      by (rule path_join_components [OF assms(2) False])
    ultimately show ?thesis
      using False abs assms(2) by (simp add: absolute_pattern_def literal_prefix_absolute path_components_absolute)
  qed
  then show ?thesis
    using nearest_prefix prefix_order.trans unfolding root_for_pattern_def by blast
qed

lemma minimal_roots_cover: "c \<in> set cs \<Longrightarrow> \<exists>m\<in>set (minimal_roots cs). prefix m c"
proof (induction c rule: measure_induct_rule [of length])
  case (less c)
  show ?case
  proof (cases "\<exists>d\<in>set cs. d \<noteq> c \<and> prefix d c")
    case True
    then obtain d where d: "d \<in> set cs" "d \<noteq> c" "prefix d c" by blast
    then have "length d < length c" by (simp add: prefix_length_less strict_prefix_def)
    from less.IH [OF this d(1)] d(3) show ?thesis using prefix_order.trans by blast
  next
    case False
    with less.prems show ?thesis by (auto simp: minimal_roots_def)
  qed
qed

lemma add_candidates_set: "set (fold add_candidate xs cs) = set cs \<union> set xs"
  by (induction xs arbitrary: cs) (auto simp: add_candidate_def)

text \<open>
  C19. Nothing that would run is missed by the backend: when a change of a path selects a job, the path
  lies below one of the subscription roots that are watched. The roots are sorted, and none lies
  below another.
\<close>

theorem roots_cover_every_trigger:
  assumes "glob_literal (we_glob env)" and "glob_relative_ok (we_glob env)" and "absolute_like (wt_root wt)"
    and "r \<in> set (wt_rules wt)" and "validate (we_glob env) r = Inr ()" and "selects env wt path r = Inr True"
  shows "(\<exists>root\<in>set (subscription_roots env wt). prefix root (path_components (fst (normalize_paths wt path)))) \<and>
    sorted (subscription_roots env wt) \<and>
    (\<forall>a\<in>set (subscription_roots env wt). \<forall>b\<in>set (subscription_roots env wt). prefix a b \<longrightarrow> a = b)"
proof -
  obtain absolute rel where n: "normalize_paths wt path = (absolute, rel)" by (metis surj_pair)
  have "runs_for env wt path r"
    using selects_ok [OF assms(2), of r wt path] assms(5,6) by (auto simp: validate_ok_iff)
  then obtain p where p: "p \<in> set (rule_watch_patterns r)" "accepts env absolute rel p"
    using n by (auto simp: runs_for_def watched_def)
  let ?cs = "fold add_candidate (map (root_for_pattern env wt) (concat (map rule_watch_patterns (wt_rules wt)))) []"
  have "root_for_pattern env wt p \<in> set ?cs" using p(1) assms(4) by (auto simp: add_candidates_set)
  from minimal_roots_cover [OF this] accepted_under_root [OF assms(1,3) n p(2)]
  have "\<exists>root\<in>set (subscription_roots env wt). prefix root (path_components absolute)"
    using prefix_order.trans unfolding subscription_roots_def by blast
  moreover have "sorted (minimal_roots cs)" "a \<in> set (minimal_roots cs) \<Longrightarrow> b \<in> set (minimal_roots cs) \<Longrightarrow> prefix a b \<Longrightarrow> a = b" for cs a b
    by (auto simp: minimal_roots_def sorted_remdups_adj)
  ultimately show ?thesis using n by (auto simp: subscription_roots_def)
qed

lemma demo_glob_literal: "glob_literal demo_glob"
  by (auto simp: glob_literal_def demo_glob_def literal_prefix_absolute path_components_absolute takeWhile_is_prefix)

theorem roots_cover_every_trigger_witness:
  "\<exists>root\<in>set (subscription_roots demo_env demo_watches). prefix root [RootDir, Normal ''w'', Normal ''src'', Normal ''a'']"
proof -
  have w: "wt_root demo_watches = ''/w''"
    "wt_rules demo_watches = [rules_new ''unit'' [''make test''] [''./src/a''] [] False, rules_new ''docs'' [''make docs''] [''doc/b''] [] False]"
    "wt_respect_gitignore demo_watches = False"
    by (simp_all add: demo_watches_def with_root_and_concurrency_def)
  have n: "normalize_paths demo_watches ''/w/src/a'' = (''/w/src/a'', Some ''/src/a'')"
    by (simp add: normalize_paths_def w) code_simp
  have c: "path_components ''/w/src/a'' = [RootDir, Normal ''w'', Normal ''src'', Normal ''a'']" by code_simp
  let ?r = "rules_new ''unit'' [''make test''] [''./src/a''] [] False"
  have r: "?r \<in> set (wt_rules demo_watches)" by (simp add: w)
  have k: "relative_key ''./src/a'' = ''/src/a''" "normalize_path ''/src/a'' = ''/src/a''" by code_simp+
  have "watched demo_env ''/w/src/a'' (Some ''/src/a'') ?r"
    by (simp add: watched_def accepts_def rules_new_def demo_env_def demo_glob_def absolute_like_def starts_with_def k)
  then have "runs_for demo_env demo_watches ''/w/src/a'' ?r"
    by (simp add: runs_for_def n ignored_def rules_new_def gitignored_relative_def w(3))
  then have "selects demo_env demo_watches ''/w/src/a'' ?r = Inr True"
    using selects_ok [of demo_env ?r demo_watches "''/w/src/a''"] demo_glob_relative_ok demo_valid r
    by (auto simp: demo_env_def validate_ok_iff)
  with roots_cover_every_trigger [of demo_env demo_watches ?r "''/w/src/a''"] demo_glob_literal demo_glob_relative_ok
    demo_valid r n c w(1)
  show ?thesis by (auto simp: demo_env_def absolute_like_def starts_with_def)
qed

section \<open>Targets and the flat selection\<close>

text \<open>Without gitignore the plan of a path flattens to the rules that the flat selection returns.\<close>

lemma flat_selection_agrees:
  assumes "glob_relative_ok (we_glob env)" and "\<forall>r\<in>set (wt_rules wt). patterns_ok (we_glob env) r" and "consistent wt"
    and "\<not> wt_respect_gitignore wt"
  shows "\<exists>plan. watch_plan env wt path = Inr plan \<and>
    watch_rules env wt path = Inr (map_option (\<lambda>p. map tp_rule (plan_tasks p)) plan)"
proof -
  obtain absolute rel where n: "normalize_paths wt path = (absolute, rel)" by (metis surj_pair)
  let ?f = "\<lambda>r. case ignored_by env absolute rel r of Inl e \<Rightarrow> Inl e | Inr True \<Rightarrow> Inr False | Inr False \<Rightarrow> watched_by env absolute rel r"
  have f: "?f r = Inr (runs_for env wt path r)" if "r \<in> set (wt_rules wt)" for r
    using ignored_by_ok [OF assms(1), of r absolute rel] watched_by_ok [OF assms(1), of r absolute rel] assms(2,4) that n
    by (auto simp: runs_for_def gitignored_relative_def split: bool.split)
  have "watch_rules env wt path =
      Inr (if filter (runs_for env wt path) (wt_rules wt) = [] then None else Some (filter (runs_for env wt path) (wt_rules wt)))"
    using filter_result_total [of "wt_rules wt" ?f "runs_for env wt path", OF f] by (simp add: watch_rules_def n)
  moreover have "map tp_rule (plan_tasks (filter_plan (runs_for env wt path) (wt_topology wt))) = filter (runs_for env wt path) (wt_rules wt)"
    using assms(3) by (simp add: plan_tasks_filter filter_tasks_rules consistent_def)
  ultimately show ?thesis
    using watch_plan_ok [OF assms(1-3), of path] by (auto simp: Let_def filter_plan_empty)
qed

text \<open>
  A finite run never starts an accidental superset: a target either names one job (the exact name
  wins over other jobs that contain it) or is a tag; every other target is refused, and the refusal
  lists exactly the jobs that compete for it.
\<close>

theorem run_target_unambiguous:
  assumes "consistent wt"
  shows "case run_target_plan wt target of
      Inl (Missing t) \<Rightarrow> t = target \<and> (\<forall>r\<in>set (wt_rules wt). \<not> str_contains target (rule_name r))
    | Inl (Ambiguous t names) \<Rightarrow> t = target \<and> 2 \<le> length names \<and> (\<forall>n\<in>set names. str_contains target n \<and> n \<in> rule_name ` set (wt_rules wt))
    | Inr plan \<Rightarrow> plan_tasks plan \<noteq> [] \<and> (\<forall>t\<in>set (plan_tasks plan). str_contains target (tp_name t)) \<and>
        (length (plan_tasks plan) = 1 \<or> starts_with target ''@'') \<and>
        (target \<in> rule_name ` set (wt_rules wt) \<longrightarrow> map tp_name (plan_tasks plan) = [target])"
proof -
  have self: "str_contains target target" by (metis str_contains_iff append_Nil append_Nil2)
  let ?ts = "plan_tasks (wt_topology wt)"
  have t: "map tp_rule ?ts = wt_rules wt" "\<forall>t\<in>set ?ts. tp_name t = rule_name (tp_rule t)"
    using assms by (simp_all add: consistent_def)
  have len: "length (filter (\<lambda>t. k (tp_rule t)) ?ts) = length (filter k (wt_rules wt))" for k
    using filter_tasks_rules [of k ?ts] t(1) by (metis length_map)
  have exact: "map tp_name (plan_tasks (filter_plan (\<lambda>r. rule_name r = target) (wt_topology wt))) = [target]"
    if "length (filter (\<lambda>r. rule_name r = target) (wt_rules wt)) = 1"
  proof -
    let ?xs = "filter (\<lambda>t. rule_name (tp_rule t) = target) ?ts"
    have "length ?xs = 1" using len [of "\<lambda>r. rule_name r = target"] that by simp
    then obtain x where "?xs = [x]" by (auto simp: length_Suc_conv)
    moreover then have "x \<in> set ?xs" by simp
    then have "tp_name x = target" using t(2) by auto
    ultimately show ?thesis by (simp add: plan_tasks_filter)
  qed
  consider (many) "1 < length (filter (\<lambda>r. rule_name r = target) (wt_rules wt))"
    | (one) "length (filter (\<lambda>r. rule_name r = target) (wt_rules wt)) = 1"
    | (none) "filter (\<lambda>r. rule_name r = target) (wt_rules wt) = []" by (metis One_nat_def length_0_conv less_one nat_neq_iff)
  then show ?thesis
  proof cases
    case many
    then show ?thesis using self by (auto simp: run_target_plan_def Let_def)
  next
    case one
    with exact [OF one] have "plan_tasks (filter_plan (\<lambda>r. rule_name r = target) (wt_topology wt)) \<noteq> []" by auto
    with one exact [OF one] self show ?thesis
      by (auto simp: run_target_plan_def Let_def dest: arg_cong [of _ _ length])
  next
    case none
    let ?ms = "filter (\<lambda>r. str_contains target (rule_name r)) (wt_rules wt)"
    have n: "target \<notin> rule_name ` set (wt_rules wt)" using none by (auto simp: filter_empty_conv)
    have l: "length (plan_tasks (filter_plan (\<lambda>r. str_contains target (rule_name r)) (wt_topology wt))) = length ?ms"
      using len [of "\<lambda>r. str_contains target (rule_name r)"] by (simp add: plan_tasks_filter)
    consider "?ms = []" | "1 < length ?ms" "\<not> starts_with target ''@''" | "?ms \<noteq> []" "length ?ms = 1 \<or> starts_with target ''@''"
      by (metis One_nat_def length_0_conv less_one nat_neq_iff)
    then show ?thesis
    proof cases
      case 1
      with none show ?thesis by (auto simp: run_target_plan_def Let_def filter_empty_conv)
    next
      case 2
      with none show ?thesis by (auto simp: run_target_plan_def Let_def)
    next
      case 3
      with none have "run_target_plan wt target = Inr (filter_plan (\<lambda>r. str_contains target (rule_name r)) (wt_topology wt))"
        by (auto simp: run_target_plan_def Let_def)
      with 3 l n t(2) show ?thesis by (auto simp: plan_tasks_filter)
    qed
  qed
qed

theorem run_target_unambiguous_witness:
  "case run_target_plan demo_watches ''unit'' of Inr plan \<Rightarrow> map tp_name (plan_tasks plan) = [''unit''] | _ \<Rightarrow> False"
proof -
  have w: "wt_rules demo_watches = [rules_new ''unit'' [''make test''] [''./src/a''] [] False, rules_new ''docs'' [''make docs''] [''doc/b''] [] False]"
    by (simp add: demo_watches_def with_root_and_concurrency_def)
  then obtain plan where "run_target_plan demo_watches ''unit'' = Inr plan"
    by (simp add: run_target_plan_def rules_new_def)
  with run_target_unambiguous [OF consistent_new [OF demo_watches], of "''unit''"] w show ?thesis
    by (auto simp: rules_new_def)
qed

end
