(* ===== verification/Watch_Backend.thy ===== *)
theory Watch_Backend
  imports Watches_Model Utf8_Text "HOL-Library.Multiset_Order"
begin

text \<open>
  The event backends, \<open>src/src/watcher.rs\<close>: the normalization of a debounced window, the
  reconciliation of new directories, the walk over a directory tree, the polling scanner, live
  root swaps and one turn of each backend loop.

  The file system is a \<open>scan_fs\<close>: what \<open>read_dir\<close> lists, modification times (nanoseconds since the
  epoch, possibly negative) and file kinds. The native watcher of the \<open>notify\<close> crate is the set of
  the roots it has registered and a predicate that says which registrations succeed. A path is the
  list of its components.
\<close>

section \<open>Backends\<close>

record file_event =
  fe_path :: string
  fe_continuous :: bool

definition parse_backend :: "string option \<Rightarrow> duration option \<Rightarrow> watch_backend result" where
  "parse_backend backend poll_interval =
     (let backend = (case backend of Some b \<Rightarrow> b | None \<Rightarrow> ''auto'') in
      if backend = ''auto'' then Inr Auto
      else if backend = ''native'' then Inr Native
      else if backend = ''poll'' then
        Inr (Poll (case poll_interval of Some d \<Rightarrow> d | None \<Rightarrow> 500 * 1000000))
      else Inl (''invalid '' @ quoted ''on.watch_backend'' @ '' '' @ quoted backend @ '': expected native, poll, or auto''))"

section \<open>The file system\<close>

record dir_entry =
  de_name :: string
  de_is_dir :: bool
  de_is_symlink :: bool

record scan_fs =
  sf_read_dir :: "path_buf \<Rightarrow> dir_entry list option"
  sf_modified :: "path_buf \<Rightarrow> int option"
  sf_is_dir :: "path_buf \<Rightarrow> bool"
  sf_is_file :: "path_buf \<Rightarrow> bool"

definition child :: "path_buf \<Rightarrow> dir_entry \<Rightarrow> path_buf" where
  "child d e = d @ [Normal (de_name e)]"

definition walkable :: "dir_entry \<Rightarrow> bool" where
  "walkable e \<longleftrightarrow> de_is_dir e \<and> \<not> de_is_symlink e \<and> de_name e \<noteq> ''.git''"

definition entries :: "scan_fs \<Rightarrow> path_buf \<Rightarrow> dir_entry list" where
  "entries fs d = (case sf_read_dir fs d of None \<Rightarrow> [] | Some es \<Rightarrow> es)"

text \<open>The walk: the stack is a list whose end is the top. \<^const>\<open>None\<close> is a walk that never ends.\<close>

partial_function (option) walk :: "scan_fs \<Rightarrow> path_buf list \<Rightarrow> path_buf list \<Rightarrow> path_buf list option" where
  "walk fs stack paths =
     (if stack = [] then Some paths
      else
        (let dir = last stack; es = entries fs dir
         in walk fs (butlast stack @ map (child dir) (filter walkable es)) (paths @ map (child dir) es)))"

declare walk.simps [code]

definition walk_descendants :: "scan_fs \<Rightarrow> path_buf \<Rightarrow> path_buf list option" where
  "walk_descendants fs root = walk fs [root] []"

section \<open>The polling scanner\<close>

record poll_scanner =
  sn_watched :: "path_buf list"
  sn_previous :: "(path_buf \<times> nat option) list"
  sn_seeded :: bool

definition scanner_new :: "string list \<Rightarrow> poll_scanner" where
  "scanner_new roots = \<lparr>sn_watched = map path_components roots, sn_previous = [], sn_seeded = False\<rparr>"

text \<open>\<open>PollSnapshot::capture\<close>: whole milliseconds, a time before the epoch counts as the epoch.\<close>

definition poll_capture :: "scan_fs \<Rightarrow> path_buf \<Rightarrow> nat option" where
  "poll_capture fs p = map_option (\<lambda>t. if t < 0 then 0 else nat (t div 1000000) mod 2 ^ 64) (sf_modified fs p)"

fun collect_roots :: "scan_fs \<Rightarrow> path_buf list \<Rightarrow> path_buf list option" where
  "collect_roots fs [] = Some []"
| "collect_roots fs (r # rs) =
     (case walk_descendants fs r of
        None \<Rightarrow> None
      | Some ps \<Rightarrow> map_option (\<lambda>qs. r # ps @ qs) (collect_roots fs rs))"

definition collect_paths :: "scan_fs \<Rightarrow> poll_scanner \<Rightarrow> path_buf list option" where
  "collect_paths fs s = map_option (\<lambda>ps. remdups_adj (sort ps)) (collect_roots fs (sn_watched s))"

definition poll_event :: "path_buf \<Rightarrow> file_event" where
  "poll_event p = \<lparr>fe_path = path_text p, fe_continuous = False\<rparr>"

text \<open>The paths of a hash map have no order; removals are listed here in the order of the previous scan.\<close>

definition scan_changes :: "poll_scanner \<Rightarrow> (path_buf \<times> nat option) list \<Rightarrow> path_buf list" where
  "scan_changes s facts =
     (if sn_seeded s
      then map fst (filter (\<lambda>(p, m). map_of (sn_previous s) p \<noteq> Some m) facts)
           @ filter (\<lambda>p. map_of facts p = None) (map fst (sn_previous s))
      else [])"

definition scan :: "scan_fs \<Rightarrow> poll_scanner \<Rightarrow> (file_event list \<times> poll_scanner) option" where
  "scan fs s =
     (case collect_paths fs s of
        None \<Rightarrow> None
      | Some ps \<Rightarrow>
          (let facts = map (\<lambda>p. (p, poll_capture fs p)) ps
           in Some (map poll_event (scan_changes s facts), s\<lparr>sn_previous := facts, sn_seeded := True\<rparr>)))"

section \<open>Debounced windows\<close>

text \<open>\<open>dedup_by\<close> on the key of neighbours: the first of equal neighbours stays.\<close>

fun dedup_key :: "('a \<Rightarrow> 'b) \<Rightarrow> 'a list \<Rightarrow> 'a list" where
  "dedup_key f [] = []"
| "dedup_key f [x] = [x]"
| "dedup_key f (x # y # zs) = (if f x = f y then dedup_key f (x # zs) else x # dedup_key f (y # zs))"

definition sort_events :: "file_event list \<Rightarrow> file_event list" where
  "sort_events es = dedup_key fe_path (sort_key fe_path es)"

text \<open>A window of the debouncer: an error, or the paths with their kind.\<close>

definition normalize_batch :: "(string \<times> bool) list result \<Rightarrow> file_event list \<times> bool" where
  "normalize_batch debounced =
     (case debounced of
        Inl _ \<Rightarrow> ([], True)
      | Inr raw \<Rightarrow>
          (sort_events (map (\<lambda>(p, c). \<lparr>fe_path = p, fe_continuous = c\<rparr>) (filter (\<lambda>(p, c). valid_utf8 p) raw)), False))"

definition add_descendant :: "scan_fs \<Rightarrow> path_buf \<Rightarrow> string list \<times> file_event list \<Rightarrow> string list \<times> file_event list" where
  "add_descendant fs p = (\<lambda>(known, synthesized).
     (if sf_is_file fs p \<and> valid_utf8 (path_text p) \<and> path_text p \<notin> set known
      then (path_text p # known, synthesized @ [\<lparr>fe_path = path_text p, fe_continuous = False\<rparr>])
      else (known, synthesized)))"

fun reconcile_loop ::
  "scan_fs \<Rightarrow> string list \<Rightarrow> file_event list \<Rightarrow> string list \<times> file_event list \<times> string list \<Rightarrow>
   (string list \<times> file_event list \<times> string list) option" where
  "reconcile_loop fs roots [] st = Some st"
| "reconcile_loop fs roots (e # es) (known, synthesized, directories) =
     (let p = path_components (fe_path e) in
      if \<not> sf_is_dir fs p then reconcile_loop fs roots es (known, synthesized, directories)
      else if fe_continuous e \<or> fe_path e \<in> set roots
      then reconcile_loop fs roots es (known, synthesized, fe_path e # directories)
      else
        (case walk_descendants fs p of
           None \<Rightarrow> None
         | Some descendants \<Rightarrow>
             (let (known, synthesized) = fold (add_descendant fs) descendants (known, synthesized)
              in reconcile_loop fs roots es (known, synthesized, fe_path e # directories))))"

definition reconcile_new_directories :: "scan_fs \<Rightarrow> file_event list \<Rightarrow> string list \<Rightarrow> file_event list option" where
  "reconcile_new_directories fs events roots =
     map_option (\<lambda>(known, synthesized, directories).
         sort_events (filter (\<lambda>e. fe_path e \<notin> set directories) events @ synthesized))
       (reconcile_loop fs roots events (map fe_path events, [], []))"

section \<open>Root swaps and the backend loops\<close>

text \<open>
  The native watcher: the registered roots. \<open>ok\<close> says which registrations succeed; the result
  of a failed one is discarded, and the acknowledgement is always a success.
\<close>

definition apply_root_swap ::
  "(string \<Rightarrow> bool) \<Rightarrow> string list \<Rightarrow> string set \<times> string list \<Rightarrow> unit result \<times> string set \<times> string list" where
  "apply_root_swap ok roots = (\<lambda>(registered, current).
     (Inr (),
      (registered - {r\<in>set current. r \<notin> set roots}) \<union> {r\<in>set roots. r \<notin> set current \<and> ok r},
      roots))"

text \<open>\<open>RootSwapPublisher::swap\<close>; an answer of \<^const>\<open>None\<close> is a wait that has timed out.\<close>

datatype swap_channel = Disabled | Connected | Gone

definition publish_swap :: "swap_channel \<Rightarrow> unit result option \<Rightarrow> unit result" where
  "publish_swap channel acknowledgement =
     (case channel of
        Disabled \<Rightarrow> Inl ''backend started without reload support''
      | Gone \<Rightarrow> Inl ''root-swap channel closed''
      | Connected \<Rightarrow>
          (case acknowledgement of Some r \<Rightarrow> r | None \<Rightarrow> Inl ''root-swap acknowledgement timed out''))"

record native_backend =
  nb_registered :: "string set"
  nb_current :: "string list"
  nb_sequence :: "64 word"

text \<open>What a turn hears from the channel of the debouncer.\<close>

datatype window = Window "(string \<times> bool) list result" | Quiet | Disconnected

datatype 'b backend_turn = Backend_Stopped | Backend_Turn 'b "(64 word \<times> file_event list) option"

definition take_swaps :: "(string \<Rightarrow> bool) \<Rightarrow> string list list \<Rightarrow> native_backend \<Rightarrow> native_backend" where
  "take_swaps ok swaps b =
     fold (\<lambda>roots b. let (_, registered, current) = apply_root_swap ok roots (nb_registered b, nb_current b)
                     in b\<lparr>nb_registered := registered, nb_current := current\<rparr>) swaps b"

text \<open>One turn of the native loop: stop, or the batch that is handed to the handler, if any.\<close>

definition native_turn ::
  "scan_fs \<Rightarrow> (string \<Rightarrow> bool) \<Rightarrow> bool \<Rightarrow> string list list \<Rightarrow> window \<Rightarrow> native_backend \<Rightarrow> native_backend backend_turn option" where
  "native_turn fs ok shutdown swaps heard b =
     (if shutdown then Some Backend_Stopped
      else
        (let b = take_swaps ok swaps b in
         case heard of
           Window debounced \<Rightarrow>
             (case reconcile_new_directories fs (fst (normalize_batch debounced)) (nb_current b) of
                None \<Rightarrow> None
              | Some [] \<Rightarrow> Some (Backend_Turn b None)
              | Some (e # es) \<Rightarrow>
                  (let (batch_id, sequence) = sequence_next (nb_sequence b)
                   in Some (Backend_Turn (b\<lparr>nb_sequence := sequence\<rparr>) (Some (batch_id, e # es)))))
         | _ \<Rightarrow> Some (Backend_Turn b None)))"

record poll_backend =
  pb_scanner :: poll_scanner
  pb_sequence :: "64 word"

definition poll_turn :: "scan_fs \<Rightarrow> bool \<Rightarrow> string list list \<Rightarrow> poll_backend \<Rightarrow> poll_backend backend_turn option" where
  "poll_turn fs shutdown swaps b =
     (if shutdown then Some Backend_Stopped
      else
        (case scan fs (fold (\<lambda>roots _. scanner_new roots) swaps (pb_scanner b)) of
           None \<Rightarrow> None
         | Some ([], s) \<Rightarrow> Some (Backend_Turn (b\<lparr>pb_scanner := s\<rparr>) None)
         | Some (e # es, s) \<Rightarrow>
             (let (batch_id, sequence) = sequence_next (pb_sequence b)
              in Some (Backend_Turn (b\<lparr>pb_scanner := s, pb_sequence := sequence\<rparr>) (Some (batch_id, e # es))))))"

text \<open>\<open>events\<close>: which backend runs, given whether the native one can register every root.\<close>

datatype running_backend = Run_Native duration | Run_Poll duration

definition choose_backend :: "watch_backend \<Rightarrow> duration \<Rightarrow> bool \<Rightarrow> running_backend" where
  "choose_backend backend debounce native_available =
     (case backend of
        Native \<Rightarrow> Run_Native debounce
      | Poll interval \<Rightarrow> Run_Poll interval
      | Auto \<Rightarrow> if native_available then Run_Native debounce else Run_Poll (500 * 1000000))"

section \<open>The walk finds the tree\<close>

inductive walked :: "scan_fs \<Rightarrow> path_buf \<Rightarrow> path_buf \<Rightarrow> bool" for fs root where
  walked_root: "walked fs root root"
| walked_child: "walked fs root d \<Longrightarrow> e \<in> set (entries fs d) \<Longrightarrow> walkable e \<Longrightarrow> walked fs root (child d e)"

definition found :: "scan_fs \<Rightarrow> path_buf \<Rightarrow> path_buf set" where
  "found fs root = {child d e |d e. walked fs root d \<and> e \<in> set (entries fs d)}"

lemma walked_under: "walked fs (child d e) p \<Longrightarrow> e \<in> set (entries fs d) \<Longrightarrow> walkable e \<Longrightarrow> walked fs d p"
  by (induction rule: walked.induct) (auto intro: walked.intros)

lemma walked_cases: "walked fs d p \<Longrightarrow> p = d \<or> (\<exists>e\<in>set (entries fs d). walkable e \<and> walked fs (child d e) p)"
  by (induction rule: walked.induct) (auto intro: walked.intros)

lemma found_unfold:
  "found fs d = child d ` set (entries fs d) \<union> (\<Union>e\<in>{e\<in>set (entries fs d). walkable e}. found fs (child d e))"
proof (intro set_eqI iffI)
  fix p assume "p \<in> found fs d"
  then obtain q e where q: "walked fs d q" "e \<in> set (entries fs q)" "p = child q e" by (auto simp: found_def)
  from walked_cases [OF q(1)] show "p \<in> child d ` set (entries fs d) \<union> (\<Union>e\<in>{e\<in>set (entries fs d). walkable e}. found fs (child d e))"
    using q by (auto simp: found_def)
next
  fix p assume "p \<in> child d ` set (entries fs d) \<union> (\<Union>e\<in>{e\<in>set (entries fs d). walkable e}. found fs (child d e))"
  then show "p \<in> found fs d"
    by (auto simp: found_def intro: walked_root) (metis walked_under)
qed

text \<open>A finite tree: descending into a directory lowers its height.\<close>

definition finite_tree :: "scan_fs \<Rightarrow> (path_buf \<Rightarrow> nat) \<Rightarrow> bool" where
  "finite_tree fs height \<longleftrightarrow> (\<forall>d e. e \<in> set (entries fs d) \<longrightarrow> walkable e \<longrightarrow> height (child d e) < height d)"

lemma smaller_replacement:
  fixes h :: nat
  assumes "\<forall>k\<in>#K. k < h"
  shows "M + K < add_mset h M"
proof -
  have "(M + K, M + {#h#}) \<in> mult {(x, y). x < y}"
    using assms by (intro one_step_implies_mult) auto
  then show ?thesis by (simp add: less_multiset_def multp_def)
qed

lemma walk_complete:
  assumes "finite_tree fs height"
  shows "\<exists>ps. walk fs stack paths = Some ps \<and> set ps = set paths \<union> (\<Union>d\<in>set stack. found fs d)"
proof (induction "mset (map height stack)" arbitrary: stack paths rule: less_induct)
  case less
  show ?case
  proof (cases stack rule: rev_cases)
    case Nil
    then show ?thesis by (simp add: walk.simps [of fs "[]"])
  next
    case (snoc rest d)
    let ?stack = "rest @ map (child d) (filter walkable (entries fs d))"
    have "\<forall>k\<in>#mset (map height (map (child d) (filter walkable (entries fs d)))). k < height d"
      using assms by (auto simp: finite_tree_def)
    then have "mset (map height ?stack) < mset (map height stack)"
      using smaller_replacement [of _ "height d" "mset (map height rest)"] snoc by simp
    from less [OF this, of "paths @ map (child d) (entries fs d)"] obtain ps where
      ps: "walk fs ?stack (paths @ map (child d) (entries fs d)) = Some ps"
        "set ps = set (paths @ map (child d) (entries fs d)) \<union> (\<Union>d\<in>set ?stack. found fs d)" by blast
    have "walk fs stack paths = Some ps" using snoc ps(1) by (subst walk.simps) simp
    moreover have "set ps = set paths \<union> (\<Union>d\<in>set stack. found fs d)"
      using ps(2) snoc found_unfold [of fs d] by auto
    ultimately show ?thesis by blast
  qed
qed

lemma walk_descendants_complete:
  "finite_tree fs height \<Longrightarrow> \<exists>ps. walk_descendants fs root = Some ps \<and> set ps = found fs root"
  using walk_complete [of fs height "[root]" "[]"] by (simp add: walk_descendants_def)

definition tree :: "scan_fs \<Rightarrow> path_buf list \<Rightarrow> path_buf set" where
  "tree fs roots = set roots \<union> (\<Union>r\<in>set roots. found fs r)"

lemma collect_roots_complete:
  "finite_tree fs height \<Longrightarrow> \<exists>ps. collect_roots fs roots = Some ps \<and> set ps = tree fs roots"
proof (induction roots)
  case (Cons r roots)
  then show ?case using walk_descendants_complete [of fs height r] by (auto simp: tree_def)
qed (simp add: tree_def)

lemma collect_paths_complete:
  "finite_tree fs height \<Longrightarrow> \<exists>ps. collect_paths fs s = Some ps \<and> set ps = tree fs (sn_watched s) \<and> sorted ps"
  using collect_roots_complete [of fs height "sn_watched s"]
  by (auto simp: collect_paths_def sorted_remdups_adj)

text \<open>What a scan knows of a path: nothing outside the tree, else its modification time.\<close>

definition fact_of :: "scan_fs \<Rightarrow> path_buf list \<Rightarrow> path_buf \<Rightarrow> nat option option" where
  "fact_of fs roots p = (if p \<in> tree fs roots then Some (poll_capture fs p) else None)"

definition knows :: "scan_fs \<Rightarrow> poll_scanner \<Rightarrow> bool" where
  "knows fs s \<longleftrightarrow> sn_seeded s \<and> map_of (sn_previous s) = fact_of fs (sn_watched s)"

lemma map_of_facts: "map_of (map (\<lambda>p. (p, f p)) ps) = (\<lambda>p. if p \<in> set ps then Some (f p) else None)"
  by (induction ps) auto

lemma scan_result:
  assumes "finite_tree fs height"
  obtains ps where "scan fs s = Some (map poll_event (scan_changes s (map (\<lambda>p. (p, poll_capture fs p)) ps)),
      s\<lparr>sn_previous := map (\<lambda>p. (p, poll_capture fs p)) ps, sn_seeded := True\<rparr>)"
    and "set ps = tree fs (sn_watched s)"
  using collect_paths_complete [OF assms, of s] by (auto simp: scan_def Let_def)

lemma scan_knows: "finite_tree fs height \<Longrightarrow> \<exists>es s'. scan fs s = Some (es, s') \<and> knows fs s' \<and> sn_watched s' = sn_watched s \<and> (\<not> sn_seeded s \<longrightarrow> es = [])"
  by (rule scan_result [of fs height s]) (auto simp: knows_def map_of_facts fact_of_def fun_eq_iff scan_changes_def)

lemma scan_known:
  assumes "finite_tree fs' height" and "knows fs s"
  shows "\<exists>es s'. scan fs' s = Some (es, s') \<and> knows fs' s' \<and>
    fe_path ` set es = path_text ` {p. fact_of fs (sn_watched s) p \<noteq> fact_of fs' (sn_watched s) p}"
proof -
  obtain es s' where s': "scan fs' s = Some (es, s')" "knows fs' s'"
    using scan_knows [OF assms(1), of s] by blast
  obtain ps where ps: "es = map poll_event (scan_changes s (map (\<lambda>p. (p, poll_capture fs' p)) ps))"
    "set ps = tree fs' (sn_watched s)"
    using scan_result [OF assms(1), of s] s'(1) by (metis (lifting) option.inject prod.inject)
  have k: "sn_seeded s" "map_of (sn_previous s) = fact_of fs (sn_watched s)" using assms(2) by (auto simp: knows_def)
  have d: "fst ` set (sn_previous s) = {p. fact_of fs (sn_watched s) p \<noteq> None}"
    using k(2) by (metis dom_def dom_map_of_conv_image_fst)
  have "set (scan_changes s (map (\<lambda>p. (p, poll_capture fs' p)) ps)) =
      {p. fact_of fs (sn_watched s) p \<noteq> fact_of fs' (sn_watched s) p}"
    using k ps(2) d by (auto simp: scan_changes_def map_of_facts fact_of_def image_iff split: if_splits)
  then show ?thesis using s' ps by (auto simp: poll_event_def image_image)
qed

lemma first_scan:
  "finite_tree fs height \<Longrightarrow>
     \<exists>s. scan fs (scanner_new roots) = Some ([], s) \<and> knows fs s \<and> sn_watched s = map path_components roots"
  using scan_knows [of fs height "scanner_new roots"] by (auto simp: scanner_new_def)


section \<open>Batches hold files\<close>

lemma dedup_key_set: "f ` set (dedup_key f xs) = f ` set xs" "set (dedup_key f xs) \<subseteq> set xs"
  by (induction f xs rule: dedup_key.induct) auto

lemma dedup_key_sorted:
  fixes f :: "'a \<Rightarrow> 'b :: linorder"
  shows "sorted (map f xs) \<Longrightarrow> sorted_wrt (<) (map f (dedup_key f xs))"
proof (induction f xs rule: dedup_key.induct)
  case (3 f x y zs)
  show ?case
  proof (cases "f x = f y")
    case True
    with 3 show ?thesis by auto
  next
    case False
    with "3.prems" have "\<forall>z\<in>f ` set (y # zs). f x < z" by auto
    then show ?thesis
      using 3 False dedup_key_set(1) [of f "y # zs"] by auto
  qed
qed simp_all

lemma sort_events_props:
  "fe_path ` set (sort_events es) = fe_path ` set es" "set (sort_events es) \<subseteq> set es"
  "sorted_wrt (<) (map fe_path (sort_events es))"
  using dedup_key_set [of fe_path "sort_key fe_path es"] dedup_key_sorted [of fe_path "sort_key fe_path es"]
  by (auto simp: sort_events_def)

text \<open>Components that a path can be made of; the text of such an absolute path is read back.\<close>

definition proper :: "path_component \<Rightarrow> bool" where
  "proper c = (case c of Normal s \<Rightarrow> CHR ''/'' \<notin> set s \<and> s \<notin> {'''', ''.'', ''..''} | ParentDir \<Rightarrow> True | _ \<Rightarrow> False)"

definition absolute_path :: "path_buf \<Rightarrow> bool" where
  "absolute_path p \<longleftrightarrow> (case p of [] \<Rightarrow> False | c # q \<Rightarrow> c = RootDir \<and> (\<forall>d\<in>set q. proper d))"

lemma proper_component: "proper c \<Longrightarrow> component_of (component_text c) = [c] \<and> CHR ''/'' \<notin> set (component_text c)"
  by (cases c) (auto simp: proper_def component_of_def)

lemma path_text_components:
  assumes "absolute_path p"
  shows "path_components (path_text p) = p"
proof -
  obtain q where q: "p = RootDir # q" "\<forall>c\<in>set q. proper c"
    using assms by (auto simp: absolute_path_def split: list.splits)
  show ?thesis
  proof (cases q)
    case Nil
    then show ?thesis using q(1) by (simp add: path_text_def) code_simp
  next
    case (Cons c r)
    then have t: "path_text p = join_with ''/'' ([] # map component_text q)" using q(1) by (simp add: path_text_def)
    then have "absolute_like (path_text p)" using Cons by (simp add: absolute_like_def starts_with_def)
    moreover have "path_body (path_text p) = concat (map component_of ([] # map component_text q))"
      unfolding t using q(2) by (intro path_body_join) (auto dest: proper_component)
    moreover have "concat (map component_of (map component_text q)) = q"
      using q(2) by (induction q) (auto dest: proper_component)
    ultimately show ?thesis using q(1) by (simp add: path_components_absolute component_of_def)
  qed
qed

lemma component_of_proper: "CHR ''/'' \<notin> set s \<Longrightarrow> c \<in> set (component_of s) \<Longrightarrow> proper c"
  by (auto simp: component_of_def proper_def split: if_splits)

lemma absolute_components: "absolute_like s \<Longrightarrow> absolute_path (path_components s)"
  using str_split_parts_slash [of _ "CHR ''/''" "[]" s]
  by (auto simp: path_components_absolute absolute_path_def path_body_def str_split_def intro: component_of_proper)

definition proper_names :: "scan_fs \<Rightarrow> bool" where
  "proper_names fs \<longleftrightarrow> (\<forall>d e. e \<in> set (entries fs d) \<longrightarrow> proper (Normal (de_name e)))"

lemma absolute_child: "absolute_path d \<Longrightarrow> proper (Normal (de_name e)) \<Longrightarrow> absolute_path (child d e)"
  by (cases d) (auto simp: absolute_path_def child_def)

lemma walked_absolute: "walked fs d p \<Longrightarrow> proper_names fs \<Longrightarrow> absolute_path d \<Longrightarrow> absolute_path p"
  by (induction rule: walked.induct) (auto simp: proper_names_def intro: absolute_child)

lemma found_absolute: "proper_names fs \<Longrightarrow> absolute_path d \<Longrightarrow> p \<in> found fs d \<Longrightarrow> absolute_path p"
  unfolding found_def using walked_absolute absolute_child by (fastforce simp: proper_names_def)

text \<open>What a window discovers: the files below its new directories.\<close>

definition discovered :: "scan_fs \<Rightarrow> string list \<Rightarrow> file_event list \<Rightarrow> string set" where
  "discovered fs roots es = {path_text p |p e. e \<in> set es \<and> sf_is_dir fs (path_components (fe_path e)) \<and>
     \<not> fe_continuous e \<and> fe_path e \<notin> set roots \<and> p \<in> found fs (path_components (fe_path e)) \<and>
     sf_is_file fs p \<and> valid_utf8 (path_text p)}"

definition directory_paths :: "scan_fs \<Rightarrow> file_event list \<Rightarrow> string set" where
  "directory_paths fs es = {fe_path e |e. e \<in> set es \<and> sf_is_dir fs (path_components (fe_path e))}"

definition new_files :: "scan_fs \<Rightarrow> path_buf list \<Rightarrow> string set" where
  "new_files fs ps = {path_text p |p. p \<in> set ps \<and> sf_is_file fs p \<and> valid_utf8 (path_text p)}"

lemma add_descendants:
  assumes "fe_path ` set syn \<subseteq> set known" and "fold (add_descendant fs) ps (known, syn) = (known', syn')"
  shows "set known' = set known \<union> new_files fs ps \<and> fe_path ` set syn' = fe_path ` set syn \<union> (new_files fs ps - set known)
    \<and> fe_path ` set syn' \<subseteq> set known'"
  using assms
proof (induction ps arbitrary: known syn)
  case (Cons p ps)
  obtain k s where k: "add_descendant fs p (known, syn) = (k, s)" by (metis surj_pair)
  have "fe_path ` set s \<subseteq> set k"
    using k Cons.prems(1) by (auto simp: add_descendant_def image_subset_iff split: if_splits)
  from Cons.IH [OF this] Cons.prems(2) k have
    i: "set known' = set k \<union> new_files fs ps" "fe_path ` set syn' = fe_path ` set s \<union> (new_files fs ps - set k)" by simp_all
  have "new_files fs (p # ps) = new_files fs ps \<union> (if sf_is_file fs p \<and> valid_utf8 (path_text p) then {path_text p} else {})"
    by (auto simp: new_files_def)
  then have j: "set known' = set known \<union> new_files fs (p # ps)"
    "fe_path ` set syn' = fe_path ` set syn \<union> (new_files fs (p # ps) - set known)"
    using k i by (auto simp: add_descendant_def split: if_splits)
  with Cons.prems(1) show ?case by blast
qed (auto simp: new_files_def)

lemma discovered_Cons:
  "discovered fs roots (e # es) = discovered fs roots es \<union>
    (if sf_is_dir fs (path_components (fe_path e)) \<and> \<not> fe_continuous e \<and> fe_path e \<notin> set roots
     then {path_text p |p. p \<in> found fs (path_components (fe_path e)) \<and> sf_is_file fs p \<and> valid_utf8 (path_text p)} else {})"
  by (auto simp: discovered_def)

lemma reconcile_loop_collects:
  assumes "finite_tree fs height"
  shows "fe_path ` set syn \<subseteq> set known \<Longrightarrow>
    \<exists>known' syn' dirs'. reconcile_loop fs roots es (known, syn, dirs) = Some (known', syn', dirs') \<and>
      fe_path ` set syn' = fe_path ` set syn \<union> (discovered fs roots es - set known) \<and>
      set dirs' = set dirs \<union> directory_paths fs es"
proof (induction es arbitrary: known syn dirs)
  case Nil
  then show ?case by (simp add: discovered_def directory_paths_def)
next
  case (Cons e es)
  let ?p = "path_components (fe_path e)"
  have dp: "directory_paths fs (e # es) = directory_paths fs es \<union> (if sf_is_dir fs ?p then {fe_path e} else {})"
    by (auto simp: directory_paths_def)
  show ?case
  proof (cases "sf_is_dir fs ?p \<and> \<not> fe_continuous e \<and> fe_path e \<notin> set roots")
    case False
    then show ?thesis
      using Cons.IH [OF Cons.prems, of "if sf_is_dir fs ?p then fe_path e # dirs else dirs"]
      by (auto simp: discovered_Cons dp Let_def)
  next
    case True
    obtain ps where ps: "walk_descendants fs ?p = Some ps" "set ps = found fs ?p"
      using walk_descendants_complete [OF assms] by blast
    obtain k s where k: "fold (add_descendant fs) ps (known, syn) = (k, s)" by (metis surj_pair)
    note a = add_descendants [OF Cons.prems k]
    have n: "new_files fs ps = {path_text p |p. p \<in> found fs ?p \<and> sf_is_file fs p \<and> valid_utf8 (path_text p)}"
      using ps(2) by (auto simp: new_files_def)
    from Cons.IH [of s k "fe_path e # dirs"] a show ?thesis
      using True ps(1) k n by (auto simp: discovered_Cons dp Let_def)
  qed
qed

text \<open>
  A native batch holds files and nothing else: the events of a window that are not directories, and
  every file of the trees below its new directories, each once and in order. A touched directory or
  a watch root adds nothing.
\<close>

theorem reconciled_batch_holds_files:
  assumes "finite_tree fs height" and "proper_names fs" and "\<forall>e\<in>set events. absolute_like (fe_path e)"
    and "\<forall>p. sf_is_file fs p \<longrightarrow> \<not> sf_is_dir fs p"
  shows "\<exists>batch. reconcile_new_directories fs events roots = Some batch \<and> sorted_wrt (<) (map fe_path batch) \<and>
    set (map fe_path batch) = (fe_path ` set events - directory_paths fs events) \<union> discovered fs roots events \<and>
    (\<forall>e\<in>set batch. \<not> sf_is_dir fs (path_components (fe_path e)))"
proof -
  have d: "\<not> sf_is_dir fs (path_components s)" if "s \<in> discovered fs roots events" for s
  proof -
    from that obtain p e where p: "s = path_text p" "e \<in> set events" "p \<in> found fs (path_components (fe_path e))" "sf_is_file fs p"
      by (auto simp: discovered_def)
    then have "absolute_path p" using assms(2,3) found_absolute absolute_components by blast
    then show ?thesis using p(1,4) assms(4) path_text_components by metis
  qed
  have disj: "discovered fs roots events \<inter> directory_paths fs events = {}" using d by (auto simp: directory_paths_def)
  obtain known' syn' dirs' where l: "reconcile_loop fs roots events (map fe_path events, [], []) = Some (known', syn', dirs')"
    "fe_path ` set syn' = discovered fs roots events - fe_path ` set events" "set dirs' = directory_paths fs events"
    using reconcile_loop_collects [OF assms(1), of "[]" "map fe_path events" roots events "[]"] by auto
  let ?batch = "sort_events (filter (\<lambda>e. fe_path e \<notin> set dirs') events @ syn')"
  have b: "fe_path ` set ?batch = (fe_path ` set events - directory_paths fs events) \<union> discovered fs roots events"
  proof -
    have "fe_path ` set (filter (\<lambda>e. fe_path e \<notin> set dirs') events) = fe_path ` set events - directory_paths fs events"
      using l(3) by auto
    moreover have "X \<inter> D = {} \<Longrightarrow> (A - D) \<union> (X - A) = (A - D) \<union> X" for A D X :: "string set" by blast
    ultimately show ?thesis using disj unfolding sort_events_props(1) set_append image_Un l(2) by simp
  qed
  have "\<not> sf_is_dir fs (path_components (fe_path e))" if "e \<in> set ?batch" for e
  proof -
    have "fe_path e \<in> fe_path ` set ?batch" using that by blast
    then show ?thesis using b d by (auto simp: directory_paths_def)
  qed
  then show ?thesis using l(1) b sort_events_props(3) by (auto simp: reconcile_new_directories_def)
qed

section \<open>A concrete tree\<close>

text \<open>\<open>/w/sub\<close>, in which the file \<open>x\<close> appears.\<close>

definition w_dir :: path_buf where "w_dir = [RootDir, Normal ''w'']"
definition sub_dir :: path_buf where "sub_dir = w_dir @ [Normal ''sub'']"
definition x_file :: path_buf where "x_file = sub_dir @ [Normal ''x'']"

definition small_fs :: "bool \<Rightarrow> scan_fs" where
  "small_fs created =
     \<lparr>sf_read_dir = (\<lambda>d.
        if d = w_dir then Some [\<lparr>de_name = ''sub'', de_is_dir = True, de_is_symlink = False\<rparr>]
        else if d = sub_dir then Some (if created then [\<lparr>de_name = ''x'', de_is_dir = False, de_is_symlink = False\<rparr>] else [])
        else None),
      sf_modified = (\<lambda>p. if p = w_dir then Some 0 else if p = sub_dir then Some (if created then 2000000 else 1000000)
        else if p = x_file \<and> created then Some 2000000 else None),
      sf_is_dir = (\<lambda>p. p = w_dir \<or> p = sub_dir), sf_is_file = (\<lambda>p. p = x_file \<and> created)\<rparr>"

lemmas small_fs_defs = small_fs_def entries_def child_def walkable_def w_dir_def sub_dir_def x_file_def

lemma small_fs_finite: "finite_tree (small_fs b) (\<lambda>p. 4 - length p)"
  by (auto simp: finite_tree_def small_fs_defs split: if_splits)

lemma small_fs_names: "proper_names (small_fs b)"
  by (auto simp: proper_names_def proper_def small_fs_defs split: if_splits)

lemma small_components:
  "path_components ''/w'' = w_dir" "path_components ''/w/sub'' = sub_dir" "path_components ''/w/sub/x'' = x_file"
  "path_text w_dir = ''/w''" "path_text sub_dir = ''/w/sub''" "path_text x_file = ''/w/sub/x''"
  unfolding w_dir_def sub_dir_def x_file_def by code_simp+

lemma small_tree: "sub_dir \<in> tree (small_fs b) [w_dir]"
proof -
  have "sub_dir \<in> found (small_fs b) w_dir"
    unfolding found_unfold [of "small_fs b" w_dir] by (simp add: small_fs_defs)
  then show ?thesis by (simp add: tree_def)
qed

lemma small_capture: "poll_capture (small_fs b) sub_dir = Some (if b then 2 else 1)"
  by (simp add: poll_capture_def small_fs_defs)

lemma small_change: "path_text sub_dir \<in>
  path_text ` {p. fact_of (small_fs False) [w_dir] p \<noteq> fact_of (small_fs True) [w_dir] p}"
proof (intro imageI CollectI)
  show "fact_of (small_fs False) [w_dir] sub_dir \<noteq> fact_of (small_fs True) [w_dir] sub_dir"
    using small_tree by (simp add: fact_of_def small_capture)
qed


theorem reconciled_batch_holds_files_witness:
  "\<exists>batch. reconcile_new_directories (small_fs True) [\<lparr>fe_path = ''/w/sub'', fe_continuous = False\<rparr>] [''/w''] = Some batch \<and>
     set (map fe_path batch) = {''/w/sub/x''}"
proof -
  let ?es = "[\<lparr>fe_path = ''/w/sub'', fe_continuous = False\<rparr>]"
  have f: "found (small_fs True) sub_dir = {x_file}"
    unfolding found_unfold [of "small_fs True" sub_dir] by (auto simp: small_fs_defs)
  have k: "valid_utf8 ''/w/sub/x''" "sf_is_dir (small_fs True) sub_dir" "sf_is_file (small_fs True) x_file" by code_simp+
  have d: "discovered (small_fs True) [''/w''] ?es = {''/w/sub/x''}" "directory_paths (small_fs True) ?es = {''/w/sub''}"
    using k by (auto simp: discovered_def directory_paths_def small_components f)
  have "\<forall>p. sf_is_file (small_fs True) p \<longrightarrow> \<not> sf_is_dir (small_fs True) p" by (simp add: small_fs_defs)
  from reconciled_batch_holds_files [OF small_fs_finite small_fs_names _ this, of ?es "[''/w'']"] d show ?thesis
    by (auto simp: absolute_like_def starts_with_def)
qed

text \<open>
  The polling backend does report directories: creating a file changes the modification time of its
  directory, and the batch names the directory beside the file.
\<close>

theorem poll_reports_directories:
  "\<exists>fs fs' s1 es s2. scan fs (scanner_new [''/w'']) = Some ([], s1) \<and> scan fs' s1 = Some (es, s2) \<and>
     (\<exists>e\<in>set es. sf_is_dir fs' (path_components (fe_path e)))"
proof -
  obtain s1 where s1: "scan (small_fs False) (scanner_new [''/w'']) = Some ([], s1)" "knows (small_fs False) s1" "sn_watched s1 = [w_dir]"
    using first_scan [OF small_fs_finite [of False], of "[''/w'']"] by (auto simp: small_components)
  obtain es s2 where s2: "scan (small_fs True) s1 = Some (es, s2)" "path_text sub_dir \<in> fe_path ` set es"
    using scan_known [OF small_fs_finite [of True] s1(2)] small_change s1(3) by auto
  moreover have "sf_is_dir (small_fs True) sub_dir" by code_simp
  ultimately show ?thesis using s1(1) small_components by (metis imageE)
qed

end
