(* ===== verification/Watch_Loop.thy ===== *)
theory Watch_Loop
  imports Watch_Backend Workers
begin

text \<open>
  The watch loop, \<open>src/src/watch_loop.rs\<close>: the modification gate, the handling of a batch and of
  initial jobs, the two strategies (\<open>WorkflowRunner\<close> of \<open>src/src/workflow.rs\<close> for the blocking one,
  the worker for the cancellable one) and the runs and emitted paths that a control client requests.

  The record \<open>session\<close> holds what the loop shares with the worker, the reload transaction and the
  control server: the committed watch configuration, the gate, the worker with its consumer and the
  await coordinator. A matcher that panics gives an error result. Printed diagnostics are left out.
\<close>

section \<open>Initial jobs\<close>

datatype init_action = Init_Run run_plan | Init_Wait

definition init_action_of :: "run_plan option \<Rightarrow> bool \<Rightarrow> init_action" where
  "init_action_of plan enabled =
     (case plan of Some p \<Rightarrow> if enabled then Init_Run p else Init_Wait | None \<Rightarrow> Init_Wait)"

section \<open>The modification gate\<close>

text \<open>The last observed modification time of a path; \<open>Some None\<close> is an observed absence.\<close>

type_synonym gate = "string \<rightharpoonup> int option"

definition gate_new :: gate where "gate_new = Map.empty"

definition mtime_of :: "scan_fs \<Rightarrow> string \<Rightarrow> int option" where
  "mtime_of fs path = sf_modified fs (path_components path)"

definition fill :: "scan_fs \<Rightarrow> string \<Rightarrow> gate \<Rightarrow> gate" where
  "fill fs path g = (if g path = None then g(path \<mapsto> mtime_of fs path) else g)"

text \<open>
  \<open>seed\<close> with its recursion as a list of what is left to do: a path that was asked for, or an entry
  of a directory. \<^const>\<open>None\<close> is a recursion that never ends.
\<close>

datatype seed_task = Seed_Path path_buf | Seed_Entry path_buf

definition seed_path :: "scan_fs \<Rightarrow> path_buf \<Rightarrow> gate \<Rightarrow> seed_task list \<times> gate" where
  "seed_path fs p g =
     (if sf_is_file fs p then ([], if valid_utf8 (path_text p) then fill fs (path_text p) g else g)
      else (map (\<lambda>e. Seed_Entry (child p e)) (entries fs p), g))"

definition seed_entry :: "scan_fs \<Rightarrow> path_buf \<Rightarrow> gate \<Rightarrow> seed_task list \<times> gate" where
  "seed_entry fs p g =
     (if valid_utf8 (path_text p)
      then (if sf_is_dir fs p then [Seed_Path p] else [], fill fs (path_text p) g)
      else ([], g))"

fun seed_one :: "scan_fs \<Rightarrow> seed_task \<Rightarrow> gate \<Rightarrow> seed_task list \<times> gate" where
  "seed_one fs (Seed_Path p) g = seed_path fs p g"
| "seed_one fs (Seed_Entry p) g = seed_entry fs p g"

partial_function (option) seed_loop :: "scan_fs \<Rightarrow> seed_task list \<Rightarrow> gate \<Rightarrow> gate option" where
  "seed_loop fs tasks g =
     (case tasks of
        [] \<Rightarrow> Some g
      | t # rest \<Rightarrow> (case seed_one fs t g of (extra, g) \<Rightarrow> seed_loop fs (extra @ rest) g))"

declare seed_loop.simps [code]

definition seed :: "scan_fs \<Rightarrow> string list \<Rightarrow> gate \<Rightarrow> gate option" where
  "seed fs paths g = seed_loop fs (map (\<lambda>p. Seed_Path (path_components p)) paths) g"

definition gate_path :: "scan_fs \<Rightarrow> string \<Rightarrow> string list \<times> gate \<Rightarrow> string list \<times> gate" where
  "gate_path fs path = (\<lambda>(routed, g).
     (let current = mtime_of fs path; previous = g path
      in (case current of
            Some t \<Rightarrow> if previous \<noteq> Some (Some t) then routed @ [path]
                      else if previous = Some None then routed @ [path] else routed
          | None \<Rightarrow> routed,
          g(path \<mapsto> current))))"

definition gate_changed :: "scan_fs \<Rightarrow> string list \<Rightarrow> gate \<Rightarrow> string list \<times> gate" where
  "gate_changed fs paths g = fold (gate_path fs) paths ([], g)"

section \<open>The blocking strategy\<close>

record 'w workflow_runner =
  wr_root :: string
  wr_executor :: "'w executor"
  wr_concurrency :: nat
  wr_fail_fast :: bool
  wr_hooks :: generation_hooks
  wr_recovery_policy :: recovery_policy

text \<open>\<open>expect\<close> on the executor: \<^const>\<open>None\<close> is the panic.\<close>

definition workflow_new :: "'w runtime \<Rightarrow> string \<Rightarrow> bool \<Rightarrow> nat \<Rightarrow> 'w workflow_runner option" where
  "workflow_new rt root fail_fast concurrency =
     (case executor_new rt concurrency fail_fast of
        Inl _ \<Rightarrow> None
      | Inr x \<Rightarrow> Some \<lparr>wr_root = root, wr_executor = x, wr_concurrency = concurrency, wr_fail_fast = fail_fast,
                       wr_hooks = no_hooks, wr_recovery_policy = Prompt\<rparr>)"

definition workflow_with_hooks :: "generation_hooks \<Rightarrow> 'w workflow_runner \<Rightarrow> 'w workflow_runner" where
  "workflow_with_hooks h r = r\<lparr>wr_hooks := h\<rparr>"

definition workflow_with_recovery_policy :: "recovery_policy \<Rightarrow> 'w workflow_runner \<Rightarrow> 'w workflow_runner" where
  "workflow_with_recovery_policy p r = r\<lparr>wr_recovery_policy := p\<rparr>"

definition profiled :: "(bytes \<Rightarrow> bytes) \<Rightarrow> 'w workflow_runner \<Rightarrow> run_plan \<Rightarrow> run_metadata \<Rightarrow> run_metadata" where
  "profiled digest r plan m =
     (if md_target m \<noteq> None \<and> md_execution_signature m = None
      then m\<lparr>md_execution_signature := Some (execution_signature digest plan (wr_concurrency r) (wr_fail_fast r))\<rparr>
      else m)"

definition workflow_run ::
  "(bytes \<Rightarrow> bytes) \<Rightarrow> file_system \<Rightarrow> 'w workflow_runner \<Rightarrow> run_plan \<Rightarrow> run_metadata \<Rightarrow> string option \<Rightarrow> 'w world \<Rightarrow>
   (completed_run \<times> 'w world) option result" where
  "workflow_run digest fs r plan m filepath w =
     (case resolve_context fs (wr_root r) plan of
        Inl err \<Rightarrow> Inl err
      | Inr plan \<Rightarrow>
          (let (plan, unknown) = expand_plan \<lparr>opt_filepath = filepath, opt_paths = [], opt_current_dir = wr_root r\<rparr> plan;
               m = profiled digest r plan (with_recovery_policy (wr_recovery_policy r) (with_hooks (wr_hooks r) m))
           in Inr (run_to_completion (wr_executor r) m plan w)))"

definition blocking_run_init where
  "blocking_run_init digest fs r plan w = workflow_run digest fs r plan (metadata_new 0 ''init'') None w"

definition blocking_run_change where
  "blocking_run_change digest fs r plan filepath batch w =
     workflow_run digest fs r plan (correlated 0 filepath (Some (bt_id batch)) None (bt_changed batch)) (Some filepath) w"

section \<open>The cancellable strategy\<close>

record 'w session =
  ss_watches :: watches
  ss_gate :: gate
  ss_worker :: worker
  ss_consumer :: "'w consumer"
  ss_await :: "await_inner option"

text \<open>The outside of a session: matching, directories, files, tokens and the digest.\<close>

record 'w outside =
  os_env :: watch_env
  os_files :: file_system
  os_scan :: scan_fs
  os_token :: "nat \<Rightarrow> 'w \<Rightarrow> 'w"
  os_digest :: "bytes \<Rightarrow> bytes"

definition on_batch :: "batch \<Rightarrow> 'w session \<Rightarrow> 'w session" where
  "on_batch b s = s\<lparr>ss_await := map_option (note_batch (bt_id b)) (ss_await s)\<rparr>"

definition on_batch_complete :: "'w session \<Rightarrow> 'w session" where
  "on_batch_complete s = s\<lparr>ss_await := map_option note_batch_complete (ss_await s)\<rparr>"

definition session_cancel :: "'w outside \<Rightarrow> 'w session \<Rightarrow> 'w session" where
  "session_cancel w s = s\<lparr>ss_consumer := cancel_running_tasks (os_token w) (ss_worker s) (ss_consumer s)\<rparr>"

definition session_schedule ::
  "'w outside \<Rightarrow> run_plan \<Rightarrow> string \<Rightarrow> string option \<Rightarrow> nat option \<Rightarrow> string list \<Rightarrow> config_revision option \<Rightarrow>
   'w session \<Rightarrow> nat result \<times> 'w session" where
  "session_schedule w plan trigger filepath batch changed revision s =
     (let (r, wk, c) = schedule_plan_correlated (os_token w) (os_files w) plan trigger filepath batch changed revision
                         (ss_worker s) (ss_consumer s)
      in (r, s\<lparr>ss_worker := wk, ss_consumer := c\<rparr>))"

definition result_option :: "'a result \<Rightarrow> 'a option" where
  "result_option r = (case r of Inl _ \<Rightarrow> None | Inr x \<Rightarrow> Some x)"

definition run_change ::
  "'w outside \<Rightarrow> run_plan \<Rightarrow> string \<Rightarrow> batch \<Rightarrow> config_revision option \<Rightarrow> 'w session \<Rightarrow> nat option \<times> 'w session" where
  "run_change w plan filepath b revision s =
     (let (r, s) = session_schedule w plan filepath (Some filepath) (Some (bt_id b)) (bt_changed b) revision
                     (session_cancel w s)
      in (result_option r, s))"

definition run_init ::
  "'w outside \<Rightarrow> run_plan \<Rightarrow> config_revision option \<Rightarrow> 'w session \<Rightarrow> nat option \<times> 'w session" where
  "run_init w plan revision s =
     (let (r, wk, c) = schedule_plan (os_token w) (os_files w) plan '''' revision (ss_worker s) (ss_consumer s)
      in (result_option r, s\<lparr>ss_worker := wk, ss_consumer := c\<rparr>))"

text \<open>The part of \<open>on_ready\<close> after the readiness marks.\<close>

definition ready_init :: "'w outside \<Rightarrow> bool \<Rightarrow> 'w session \<Rightarrow> nat option \<times> 'w session" where
  "ready_init w enabled s =
     (case init_action_of (run_on_init_plan (ss_watches s)) enabled of
        Init_Run plan \<Rightarrow> run_init w plan (wt_revision (ss_watches s)) s
      | Init_Wait \<Rightarrow> (None, s))"

section \<open>Handling a batch\<close>

definition route_batch :: "'w outside \<Rightarrow> batch \<Rightarrow> 'w session \<Rightarrow> (nat option \<times> 'w session) result" where
  "route_batch w b s =
     (case watch_plan_batch (os_env w) (ss_watches s) (bt_changed b) of
        Inl err \<Rightarrow> Inl err
      | Inr (Some (plan, trigger)) \<Rightarrow> Inr (run_change w plan trigger b (wt_revision (ss_watches s)) s)
      | Inr None \<Rightarrow> Inr (None, s))"

definition handle_batch ::
  "'w outside \<Rightarrow> nat \<Rightarrow> file_event list \<Rightarrow> 'w session \<Rightarrow> (nat option \<times> 'w session) result" where
  "handle_batch w batch_id events s =
     (let b = batch_normalized batch_id (map fe_path events) in
      if batch_is_empty b then Inr (None, s)
      else
        (let s = on_batch b s;
             (changed, g) = gate_changed (os_scan w) (bt_changed b) (ss_gate s);
             s = s\<lparr>ss_gate := g\<rparr>
         in if changed = [] then Inr (None, s)
            else map_sum id (\<lambda>(generation, s). (generation, on_batch_complete s))
                   (route_batch w (batch_normalized (bt_id b) changed) s)))"

section \<open>Requests of a control client\<close>

record scheduled_run =
  sr_run_id :: nat
  sr_revision :: "nat option"
  sr_revision_hash :: "string option"

datatype control_run_error = TargetMissing string | Internal string

definition run_target ::
  "'w outside \<Rightarrow> string \<Rightarrow> bool \<Rightarrow> 'w session \<Rightarrow> (control_run_error + scheduled_run) \<times> 'w session" where
  "run_target w target sequential s =
     (case target_plan (ss_watches s) target of
        None \<Rightarrow> (Inl (TargetMissing target), s)
      | Some plan \<Rightarrow>
          (let revision = wt_revision (ss_watches s);
               s = session_cancel w s;
               (r, wk, c) = schedule_target (os_digest w) (os_token w) (os_files w) plan target sequential revision
                              (ss_worker s) (ss_consumer s);
               s = s\<lparr>ss_worker := wk, ss_consumer := c\<rparr>
           in case r of
                Inl err \<Rightarrow> (Inl (Internal err), s)
              | Inr generation \<Rightarrow>
                  (Inr \<lparr>sr_run_id = generation, sr_revision = map_option rev_number revision,
                        sr_revision_hash = map_option rev_hash revision\<rparr>, s)))"

record emit_outcome =
  em_matched :: "string list"
  em_run_id :: "nat option"
  em_outcome :: string
  em_revision :: "nat option"
  em_revision_hash :: "string option"

definition emit_scheduled_at :: "string list \<Rightarrow> nat \<Rightarrow> config_revision option \<Rightarrow> emit_outcome" where
  "emit_scheduled_at matched generation revision =
     \<lparr>em_matched = matched, em_run_id = Some generation, em_outcome = ''scheduled'',
      em_revision = map_option rev_number revision, em_revision_hash = map_option rev_hash revision\<rparr>"

definition emit_unmatched :: emit_outcome where
  "emit_unmatched =
     \<lparr>em_matched = [], em_run_id = None, em_outcome = ''unmatched'', em_revision = None, em_revision_hash = None\<rparr>"

definition emit_ignored :: emit_outcome where
  "emit_ignored =
     \<lparr>em_matched = [], em_run_id = None, em_outcome = ''ignored'', em_revision = None, em_revision_hash = None\<rparr>"

definition emit_path :: "'w outside \<Rightarrow> string \<Rightarrow> 'w session \<Rightarrow> emit_outcome result \<times> 'w session" where
  "emit_path w path s =
     (case watch_plan (os_env w) (ss_watches s) path of
        Inl err \<Rightarrow> (Inl err, s)
      | Inr None \<Rightarrow>
          (case explain (os_env w) (ss_watches s) path of
             Inl err \<Rightarrow> (Inl err, s)
           | Inr explained \<Rightarrow> (Inr (if ex_ignored explained = [] then emit_unmatched else emit_ignored), s))
      | Inr (Some plan) \<Rightarrow>
          (let revision = wt_revision (ss_watches s);
               (r, s) = session_schedule w plan path (Some path) None [] revision (session_cancel w s)
           in case r of
                Inl err \<Rightarrow> (Inl err, s)
              | Inr generation \<Rightarrow> (Inr (emit_scheduled_at (task_names plan) generation revision), s)))"

section \<open>The gate lets real writes through, once\<close>

definition really_changed :: "scan_fs \<Rightarrow> gate \<Rightarrow> string \<Rightarrow> bool" where
  "really_changed fs g path \<longleftrightarrow> mtime_of fs path \<noteq> None \<and> g path \<noteq> Some (mtime_of fs path)"

definition after_gate :: "scan_fs \<Rightarrow> string list \<Rightarrow> gate \<Rightarrow> gate" where
  "after_gate fs paths g = (\<lambda>p. if p \<in> set paths then Some (mtime_of fs p) else g p)"

lemma gate_path_eq:
  "gate_path fs path (routed, g) =
     (if really_changed fs g path then routed @ [path] else routed, g(path \<mapsto> mtime_of fs path))"
  by (auto simp: gate_path_def really_changed_def Let_def split: option.split)

lemma gate_changed_acc:
  "distinct paths \<Longrightarrow>
     fold (gate_path fs) paths (routed, g) = (routed @ filter (really_changed fs g) paths, after_gate fs paths g)"
proof (induction paths arbitrary: routed g)
  case (Cons p paths)
  have "filter (really_changed fs (g(p \<mapsto> mtime_of fs p))) paths = filter (really_changed fs g) paths"
    using Cons.prems by (intro filter_cong) (auto simp: really_changed_def)
  with Cons show ?case by (auto simp: gate_path_eq after_gate_def fun_eq_iff)
qed (simp add: after_gate_def)

lemma gate_changed_eq:
  "distinct paths \<Longrightarrow> gate_changed fs paths g = (filter (really_changed fs g) paths, after_gate fs paths g)"
  by (simp add: gate_changed_def gate_changed_acc)

lemma batch_normalized_simps [simp]:
  "bt_id (batch_normalized i ps) = i" "bt_changed (batch_normalized i ps) = remdups_adj (sort ps)"
  by (simp_all add: batch_normalized_def)

lemma distinct_remdups_sort [simp]: "distinct (remdups_adj (sort (ps :: 'a :: linorder list)))"
proof -
  have "sorted xs \<Longrightarrow> distinct (remdups_adj xs)" for xs :: "'a list"
    by (induction xs rule: remdups_adj.induct) auto
  then show ?thesis by simp
qed

lemma remdups_sort_id: "sorted ps \<Longrightarrow> distinct ps \<Longrightarrow> remdups_adj (sort ps) = ps"
  for ps :: "'a :: linorder list"
  by (simp add: sorted_sort_id remdups_adj_distinct)

section \<open>Seeding covers what was there\<close>

text \<open>What seeding reaches from a task, following symbolic links as \<open>Path::is_dir\<close> does.\<close>

inductive reached :: "scan_fs \<Rightarrow> seed_task \<Rightarrow> seed_task \<Rightarrow> bool" for fs t where
  reached_self: "reached fs t t"
| reached_more: "reached fs t u \<Longrightarrow> v \<in> set (fst (seed_one fs u Map.empty)) \<Longrightarrow> reached fs t v"

fun task_path :: "seed_task \<Rightarrow> path_buf" where
  "task_path (Seed_Path p) = p"
| "task_path (Seed_Entry p) = p"

fun fills :: "scan_fs \<Rightarrow> seed_task \<Rightarrow> bool" where
  "fills fs (Seed_Path p) \<longleftrightarrow> sf_is_file fs p \<and> valid_utf8 (path_text p)"
| "fills fs (Seed_Entry p) \<longleftrightarrow> valid_utf8 (path_text p)"

definition seeded :: "scan_fs \<Rightarrow> seed_task \<Rightarrow> string set" where
  "seeded fs t = {path_text (task_path u) |u. reached fs t u \<and> fills fs u}"

lemma seed_one_more: "fst (seed_one fs t g) = fst (seed_one fs t h)"
  by (cases t) (simp_all add: seed_path_def seed_entry_def)

lemma seed_one_gate: "snd (seed_one fs t g) = (if fills fs t then fill fs (path_text (task_path t)) g else g)"
  by (cases t) (simp_all add: seed_path_def seed_entry_def)

lemma reached_step: "reached fs u v \<Longrightarrow> u \<in> set (fst (seed_one fs t Map.empty)) \<Longrightarrow> reached fs t v"
  by (induction rule: reached.induct) (auto intro: reached.intros)

lemma reached_cases: "reached fs t v \<Longrightarrow> v = t \<or> (\<exists>u\<in>set (fst (seed_one fs t Map.empty)). reached fs u v)"
  by (induction rule: reached.induct) (auto intro: reached.intros)

lemma seeded_unfold:
  "seeded fs t = (if fills fs t then {path_text (task_path t)} else {}) \<union>
     (\<Union>u\<in>set (fst (seed_one fs t Map.empty)). seeded fs u)"
  by (auto simp: seeded_def intro: reached_self dest: reached_cases intro: reached_step)

definition seed_ends :: "scan_fs \<Rightarrow> (seed_task \<Rightarrow> nat) \<Rightarrow> bool" where
  "seed_ends fs height \<longleftrightarrow> (\<forall>t. \<forall>u\<in>set (fst (seed_one fs t Map.empty)). height u < height t)"

definition filled :: "scan_fs \<Rightarrow> string set \<Rightarrow> gate \<Rightarrow> gate" where
  "filled fs ps g = (\<lambda>p. if g p = None \<and> p \<in> ps then Some (mtime_of fs p) else g p)"

lemma seed_loop_fills:
  assumes "seed_ends fs height"
  shows "seed_loop fs tasks g = Some (filled fs (\<Union>t\<in>set tasks. seeded fs t) g)"
proof (induction "mset (map height tasks)" arbitrary: tasks g rule: less_induct)
  case less
  show ?case
  proof (cases tasks)
    case Nil
    then show ?thesis by (simp add: seed_loop.simps [of fs "[]"] filled_def fun_eq_iff)
  next
    case (Cons t rest)
    obtain extra g' where m: "seed_one fs t g = (extra, g')" by (metis surj_pair)
    then have extra: "extra = fst (seed_one fs t Map.empty)" and g': "g' = snd (seed_one fs t g)"
      using seed_one_more [of fs t g Map.empty] by simp_all
    have "\<forall>k\<in>#mset (map height extra). k < height t" using assms extra by (auto simp: seed_ends_def)
    then have "mset (map height (extra @ rest)) < mset (map height tasks)"
      using smaller_replacement [of "mset (map height extra)" "height t" "mset (map height rest)"] Cons by (simp add: add.commute)
    from less [OF this] have "seed_loop fs tasks g = Some (filled fs (\<Union>t\<in>set (extra @ rest). seeded fs t) g')"
      using Cons m by (simp add: seed_loop.simps [of fs "t # rest"])
    moreover have "filled fs (\<Union>t\<in>set (extra @ rest). seeded fs t) g' = filled fs (\<Union>t\<in>set tasks. seeded fs t) g"
      unfolding g' seed_one_gate using seeded_unfold [of fs t] Cons extra
      by (auto simp: filled_def fill_def fun_eq_iff)
    ultimately show ?thesis by simp
  qed
qed

text \<open>Where the modification time of a path was last looked at, over a sequence of batches.\<close>

definition deliver :: "scan_fs \<times> string list \<Rightarrow> gate \<Rightarrow> gate" where
  "deliver = (\<lambda>(fs, paths) g. snd (gate_changed fs paths g))"

definition last_observed :: "(scan_fs \<times> string list) list \<Rightarrow> gate \<Rightarrow> gate" where
  "last_observed ds g p =
     (case find (\<lambda>(fs, paths). p \<in> set paths) (rev ds) of Some (fs, paths) \<Rightarrow> Some (mtime_of fs p) | None \<Rightarrow> g p)"

lemma deliveries_observed:
  "\<forall>(fs, paths)\<in>set ds. distinct paths \<Longrightarrow> fold deliver ds g = last_observed ds g"
proof (induction ds rule: rev_induct)
  case (snoc d ds)
  obtain fs paths where d: "d = (fs, paths)" by (metis surj_pair)
  with snoc show ?case
    by (auto simp: deliver_def gate_changed_eq after_gate_def last_observed_def fun_eq_iff)
qed (simp add: last_observed_def fun_eq_iff)


section \<open>A batch becomes at most one run\<close>

lemma first_plan_Some:
  "first_plan env wt ps = Inr (Some (plan, trigger)) \<Longrightarrow> sorted ps \<Longrightarrow>
     trigger \<in> set ps \<and> watch_plan env wt trigger = Inr (Some plan) \<and> (\<forall>p\<in>set ps. p < trigger \<longrightarrow> watch_plan env wt p = Inr None)"
  by (induction env wt ps rule: first_plan.induct) (fastforce split: sum.splits option.splits)+

lemma handle_batch_eq:
  fixes s :: "'w session"
  defines "batch_paths \<equiv> \<lambda>events. remdups_adj (sort (map fe_path events))"
  assumes "events \<noteq> []"
  shows "handle_batch w i events s =
    (let changed = filter (really_changed (os_scan w) (ss_gate s)) (batch_paths events);
         s' = (on_batch (batch_normalized i (map fe_path events)) s)
                \<lparr>ss_gate := after_gate (os_scan w) (batch_paths events) (ss_gate s)\<rparr>
     in if changed = [] then Inr (None, s')
        else map_sum id (\<lambda>(generation, s). (generation, on_batch_complete s)) (route_batch w (batch_normalized i changed) s'))"
proof -
  have "batch_paths events \<noteq> []" using assms(2) by (simp add: batch_paths_def)
  then show ?thesis
    by (simp add: handle_batch_def batch_is_empty_def gate_changed_eq on_batch_def batch_paths_def Let_def)
qed

lemma changed_sorted: "remdups_adj (sort (filter P (remdups_adj (sort ps)))) = filter P (remdups_adj (sort (ps :: 'a :: linorder list)))"
  by (rule remdups_sort_id) (simp_all add: sorted_wrt_filter sorted_remdups_adj)

lemma cancel_leaves_no_run: "\<not> list_ex is_run (sc_queue (cs_scheduler (send token (CancelCmd None r) s)))"
proof -
  have "\<not> list_ex is_run (snd (cancel_queued_runs q))" for q
  proof (induction q rule: cancel_queued_runs.induct)
    case (1 q)
    then show ?case
      by (subst cancel_queued_runs.simps) (auto simp: position_None list_ex_iff split: option.split prod.split)
  qed
  then show ?thesis
    by (simp add: send_def put_command_def signal_command_def enqueue_def split: prod.split)
      (metis snd_conv)
qed

lemma send_run_queue:
  "\<not> list_ex is_run (sc_queue (cs_scheduler s)) \<Longrightarrow>
     filter is_run (sc_queue (cs_scheduler (send token (RunCmd req) s))) = [RunCmd req]"
proof -
  assume n: "\<not> list_ex is_run (sc_queue (cs_scheduler s))"
  have "set (drop_bare_cancels q) \<subseteq> set q" for q
    unfolding drop_bare_cancels_def by (metis set_dropWhileD set_rev subsetI)
  with n have m: "\<not> list_ex is_run (drop_bare_cancels (sc_queue (cs_scheduler s)))" by (auto simp: list_ex_iff)
  then have "rposition is_run (drop_bare_cancels (sc_queue (cs_scheduler s))) = None" by (simp add: rposition_None list_ex_iff)
  with m show ?thesis
    by (auto simp: send_def put_command_def signal_command_def enqueue_def enqueue_run_def filter_empty_conv list_ex_iff)
qed

definition request_of :: "worker \<Rightarrow> string \<Rightarrow> nat option \<Rightarrow> string list \<Rightarrow> config_revision option \<Rightarrow> run_request \<Rightarrow> bool" where
  "request_of wk trigger batch changed revision req \<longleftrightarrow>
     rq_run_id req = wk_next_run_id wk + 1 \<and> rq_trigger req = trigger \<and> rq_batch req = batch \<and> rq_changed req = changed \<and>
     rq_revision req = map_option rev_number (if revision = None then wk_revision wk else revision)"

lemma prepare_request_ok:
  assumes "resolve_context fs (wk_root wk) plan = Inr p"
  shows "\<exists>req. prepare_request fs wk plan trigger filepath batch changed revision =
      Inr (req, wk\<lparr>wk_next_run_id := wk_next_run_id wk + 1\<rparr>) \<and> request_of wk trigger batch changed revision req"
  using assms
  by (auto simp: prepare_request_def next_id_def request_of_def Let_def split: prod.split option.split)

lemma schedule_ok:
  assumes "resolve_context fs (wk_root wk) plan = Inr p" and "wk_open wk"
  shows "\<exists>req. schedule_plan_correlated token fs plan trigger filepath batch changed revision wk s =
      (Inr (rq_run_id req), wk\<lparr>wk_next_run_id := wk_next_run_id wk + 1\<rparr>, send token (RunCmd req) s) \<and>
    request_of wk trigger batch changed revision req"
  using prepare_request_ok [OF assms(1), of trigger filepath batch changed revision] assms(2)
  by (auto simp: schedule_plan_correlated_def dispatch_def)

text \<open>
  C23. A batch with a write that selects jobs becomes exactly one queued run: its trigger is the least
  really changed path that selects a job, and its plan is the plan of that path; it carries the batch, exactly the
  really changed paths and the revision of the configuration it was routed under; every run that was
  queued before is gone, and the open batch is noted as complete.
\<close>

theorem changed_batch_becomes_one_run:
  assumes "changed = filter (really_changed (os_scan w) (ss_gate s)) (remdups_adj (sort (map fe_path events)))"
    and "watch_plan_batch (os_env w) (ss_watches s) changed = Inr (Some (plan, trigger))"
    and "wk_open (ss_worker s)" and "resolve_context (os_files w) (wk_root (ss_worker s)) plan = Inr p"
  shows "\<exists>req s'. handle_batch w i events s = Inr (Some (rq_run_id req), s') \<and>
    request_of (ss_worker s) trigger (Some i) changed (wt_revision (ss_watches s)) req \<and>
    filter is_run (sc_queue (cs_scheduler (ss_consumer s'))) = [RunCmd req] \<and>
    trigger \<in> set changed \<and> watch_plan (os_env w) (ss_watches s) trigger = Inr (Some plan) \<and>
    (\<forall>path\<in>set changed. path < trigger \<longrightarrow> watch_plan (os_env w) (ss_watches s) path = Inr None) \<and>
    ss_watches s' = ss_watches s \<and> (\<forall>a. ss_await s' = Some a \<longrightarrow> \<not> pw_debounce_active (aw_pending a))"
proof -
  have sorted: "sorted changed" "remdups_adj (sort changed) = changed"
    unfolding assms(1) by (simp_all add: sorted_wrt_filter sorted_remdups_adj changed_sorted)
  have first: "trigger \<in> set changed \<and> watch_plan (os_env w) (ss_watches s) trigger = Inr (Some plan) \<and>
      (\<forall>path\<in>set changed. path < trigger \<longrightarrow> watch_plan (os_env w) (ss_watches s) path = Inr None)"
    using first_plan_Some [of "os_env w" "ss_watches s" changed plan trigger] assms(2) sorted
    by (simp add: watch_plan_batch_def sorted_sort_id)
  then have "changed \<noteq> []" by auto
  then have "events \<noteq> []" using assms(1) by auto
  let ?s = "(on_batch (batch_normalized i (map fe_path events)) s)
      \<lparr>ss_gate := after_gate (os_scan w) (remdups_adj (sort (map fe_path events))) (ss_gate s)\<rparr>"
  let ?c = "session_cancel w ?s"
  have f: "ss_watches ?s = ss_watches s" "ss_worker ?c = ss_worker s" "ss_worker ?s = ss_worker s"
    by (simp_all add: on_batch_def session_cancel_def)
  obtain req where req: "schedule_plan_correlated (os_token w) (os_files w) plan trigger (Some trigger) (Some i) changed
      (wt_revision (ss_watches s)) (ss_worker s) (ss_consumer ?c) =
      (Inr (rq_run_id req), (ss_worker s)\<lparr>wk_next_run_id := wk_next_run_id (ss_worker s) + 1\<rparr>, send (os_token w) (RunCmd req) (ss_consumer ?c))"
    "request_of (ss_worker s) trigger (Some i) changed (wt_revision (ss_watches s)) req"
    using schedule_ok [OF assms(4,3)] by blast
  have q: "filter is_run (sc_queue (cs_scheduler (send (os_token w) (RunCmd req) (ss_consumer ?c)))) = [RunCmd req]"
    using send_run_queue [OF cancel_leaves_no_run] assms(3)
    by (simp add: session_cancel_def cancel_running_tasks_def on_batch_def)
  let ?s' = "on_batch_complete (?c\<lparr>ss_worker := (ss_worker s)\<lparr>wk_next_run_id := wk_next_run_id (ss_worker s) + 1\<rparr>,
      ss_consumer := send (os_token w) (RunCmd req) (ss_consumer ?c)\<rparr>)"
  have "handle_batch w i events s = Inr (Some (rq_run_id req), ?s')"
    using handle_batch_eq [OF \<open>events \<noteq> []\<close>, of w i s] \<open>changed \<noteq> []\<close> assms(2) req(1) f sorted
    by (simp add: assms(1) [symmetric] route_batch_def run_change_def session_schedule_def result_option_def Let_def)
  moreover have "ss_watches ?s' = ss_watches s" "ss_consumer ?s' = send (os_token w) (RunCmd req) (ss_consumer ?c)"
    "\<forall>a. ss_await ?s' = Some a \<longrightarrow> \<not> pw_debounce_active (aw_pending a)"
    by (auto simp: on_batch_complete_def session_cancel_def on_batch_def note_batch_complete_def)
  ultimately show ?thesis using req(2) q first by metis
qed


section \<open>Requests of a control client\<close>

lemma explain_ignored:
  assumes "glob_relative_ok (we_glob env)" and "\<forall>r\<in>set rs. patterns_ok (we_glob env) r" and "normalize_paths wt path = (absolute, rel)"
    and "explain_rules env wt absolute rel rs = Inr (ms, igs)" and "\<forall>r\<in>set rs. \<not> runs_for env wt path r"
  shows "igs = [] \<longleftrightarrow> (\<forall>r\<in>set rs. \<not> watched env absolute rel r)"
  using assms(2,4,5)
proof (induction rs arbitrary: ms igs)
  case (Cons r rs)
  obtain cs where c: "change_patterns env absolute rel r = Inr cs" "cs \<noteq> [] \<longleftrightarrow> watched env absolute rel r"
    using change_patterns_ok [OF assms(1), of r absolute rel] Cons.prems(1) by auto
  obtain ps where i: "ignoring_patterns env absolute rel r = Inr ps" "ps \<noteq> [] \<longleftrightarrow> ignored env absolute rel r"
    using ignoring_patterns_ok [OF assms(1), of r absolute rel] Cons.prems(1) by auto
  have "cs = [] \<or> ps \<noteq> [] \<or> gitignored_relative env wt rel"
    using Cons.prems(3) c(2) i(2) assms(3) by (auto simp: runs_for_def)
  with c(1) i(1) have one: "explain_one env wt absolute rel r = Inr None \<and> cs = [] \<or> (\<exists>e. explain_one env wt absolute rel r = Inr (Some (Inr e)) \<and> cs \<noteq> [])"
    by (cases cs) (auto simp: explain_one_def Let_def)
  with Cons.prems(2) obtain ms' igs' where rest: "explain_rules env wt absolute rel rs = Inr (ms', igs')"
    by (auto split: sum.splits)
  from Cons.IH [OF _ rest] Cons.prems one rest c(2) show ?case by auto
qed simp

text \<open>
  The answer to an emitted path is truthful: over validated jobs it is "scheduled" exactly when a
  native change of the path would run a job, and then it names exactly the jobs that run and the
  generation that was queued; otherwise the session is untouched, and "ignored" is answered exactly
  when some job watches the path.
\<close>

theorem emit_answer_truthful:
  assumes "glob_relative_ok (we_glob (os_env w))" and "\<forall>r\<in>set (wt_rules (ss_watches s)). validate (we_glob (os_env w)) r = Inr ()"
    and "consistent (ss_watches s)" and "normalize_paths (ss_watches s) path = (absolute, rel)"
    and "emit_path w path s = (Inr res, s')"
  shows "if \<exists>r\<in>set (wt_rules (ss_watches s)). runs_for (os_env w) (ss_watches s) path r
    then em_outcome res = ''scheduled'' \<and>
      em_matched res = map rule_name (filter (runs_for (os_env w) (ss_watches s) path) (wt_rules (ss_watches s))) \<and>
      em_run_id res = Some (wk_next_run_id (ss_worker s) + 1)
    else s' = s \<and> em_run_id res = None \<and>
      em_outcome res = (if \<exists>r\<in>set (wt_rules (ss_watches s)). watched (os_env w) absolute rel r then ''ignored'' else ''unmatched'')"
proof -
  let ?wt = "ss_watches s" and ?env = "os_env w"
  let ?plan = "filter_plan (runs_for ?env ?wt path) (wt_topology ?wt)"
  have v: "\<forall>r\<in>set (wt_rules ?wt). patterns_ok (we_glob ?env) r" using assms(2) by (auto simp: validate_ok_iff)
  note plan = watch_plan_ok [OF assms(1) v assms(3), of path]
  have names: "task_names ?plan = map rule_name (filter (runs_for ?env ?wt path) (wt_rules ?wt))"
  proof -
    have "task_names ?plan = map (\<lambda>t. rule_name (tp_rule t)) (plan_tasks ?plan)"
      using assms(3) by (auto simp: task_names_tasks plan_tasks_filter consistent_def)
    then show ?thesis
      using assms(3) filter_tasks_rules [of "runs_for ?env ?wt path" "plan_tasks (wt_topology ?wt)"]
      by (simp add: plan_tasks_filter consistent_def flip: map_map [unfolded comp_def])
  qed
  have empty: "plan_is_empty ?plan \<longleftrightarrow> (\<forall>r\<in>set (wt_rules ?wt). \<not> runs_for ?env ?wt path r)"
    using arg_cong [OF names, of "\<lambda>xs. xs = []"]
    by (simp add: filter_plan_empty task_names_tasks filter_empty_conv)
  show ?thesis
  proof (cases "plan_is_empty ?plan")
    case True
    obtain ms igs where ms: "explain_rules ?env ?wt absolute rel (wt_rules ?wt) = Inr (ms, igs)"
      using explain_rules_ok [OF assms(1) v assms(4)] by blast
    have n: "\<forall>r\<in>set (wt_rules ?wt). \<not> runs_for ?env ?wt path r" using True empty by blast
    have "igs = [] \<longleftrightarrow> (\<forall>r\<in>set (wt_rules ?wt). \<not> watched ?env absolute rel r)"
      by (rule explain_ignored [OF assms(1) v assms(4) ms n])
    with True n plan ms assms(4,5) show ?thesis
      by (auto simp: emit_path_def explain_def emit_unmatched_def emit_ignored_def Let_def split: if_splits)
  next
    case False
    then have "\<exists>r\<in>set (wt_rules ?wt). runs_for ?env ?wt path r" using empty by blast
    moreover obtain g where "res = emit_scheduled_at (task_names ?plan) g (wt_revision ?wt)" "g = wk_next_run_id (ss_worker s) + 1"
      using assms(5) plan False
      by (auto simp: emit_path_def session_schedule_def session_cancel_def schedule_plan_correlated_def prepare_request_def
          next_id_def dispatch_def Let_def split: sum.splits prod.splits if_splits)
    ultimately show ?thesis using names by (simp add: emit_scheduled_at_def)
  qed
qed

section \<open>A concrete session\<close>

definition quiet_world :: "unit world" where
  "quiet_world = \<lparr>wd_env = (), wd_events = [], wd_outputs = None, wd_revealed = []\<rparr>"

definition demo_session :: "unit session" where
  "demo_session = \<lparr>ss_watches = demo_watches, ss_gate = gate_new, ss_worker = worker_new ''/w'' 1 False,
     ss_consumer = consumer_new quiet_world, ss_await = Some await_inner_default\<rparr>"

definition demo_outside :: "unit outside" where
  "demo_outside = \<lparr>os_env = demo_env, os_files = \<lparr>fs_exists = (\<lambda>_. True), fs_canonicalize = Inr\<rparr>,
     os_scan = \<lparr>sf_read_dir = (\<lambda>_. None), sf_modified = (\<lambda>p. Some 5), sf_is_dir = (\<lambda>_. False), sf_is_file = (\<lambda>_. True)\<rparr>,
     os_token = (\<lambda>_ w. w), os_digest = (\<lambda>b. b)\<rparr>"

definition demo_events :: "file_event list" where
  "demo_events = [\<lparr>fe_path = ''/w/src/a'', fe_continuous = False\<rparr>]"

lemma demo_changed:
  "filter (really_changed (os_scan demo_outside) (ss_gate demo_session)) (remdups_adj (sort (map fe_path demo_events))) = [''/w/src/a'']"
  by (simp add: demo_events_def really_changed_def mtime_of_def demo_outside_def demo_session_def gate_new_def)

lemma demo_normalize: "normalize_paths demo_watches ''/w/src/a'' = (''/w/src/a'', Some ''/src/a'')"
proof -
  have w: "wt_root demo_watches = ''/w''" by (simp add: demo_watches_def with_root_and_concurrency_def)
  show ?thesis by (simp add: normalize_paths_def w) code_simp
qed

lemma demo_runs: "filter (runs_for demo_env demo_watches ''/w/src/a'') (wt_rules demo_watches) \<noteq> []"
proof -
  let ?r = "rules_new ''unit'' [''make test''] [''./src/a''] [] False"
  have w: "?r \<in> set (wt_rules demo_watches)" "\<not> wt_respect_gitignore demo_watches"
    by (simp_all add: demo_watches_def with_root_and_concurrency_def)
  have k: "relative_key ''./src/a'' = ''/src/a''" "normalize_path ''/src/a'' = ''/src/a''" by code_simp+
  have "watched demo_env ''/w/src/a'' (Some ''/src/a'') ?r"
    by (simp add: watched_def accepts_def rules_new_def demo_env_def demo_glob_def absolute_like_def starts_with_def k)
  then have "runs_for demo_env demo_watches ''/w/src/a'' ?r"
    using w(2) by (simp add: runs_for_def demo_normalize ignored_def rules_new_def gitignored_relative_def)
  with w(1) show ?thesis by (auto simp: filter_empty_conv)
qed

lemma resolve_plain:
  assumes "\<forall>t\<in>set (plan_tasks p). ctx_cwd (tp_context t) = None"
  shows "\<exists>p'. resolve_context fs root p = Inr p'"
proof -
  have m: "(\<forall>x\<in>set xs. \<exists>y. f x = Inr y) \<Longrightarrow> \<exists>ys. map_result f xs = Inr ys" for f :: "'a \<Rightarrow> 'b result" and xs
    by (induction xs) auto
  have t: "\<forall>t\<in>set (plan_tasks p). \<exists>t'. resolve_task fs root t = Inr t'" using assms by (simp add: resolve_task_def)
  have "\<exists>s'. resolve_stage fs root s = Inr s'" if "s \<in> set (stages p)" for s
  proof (cases s)
    case (Serial task)
    with t that show ?thesis by (fastforce simp: plan_tasks_def)
  next
    case (Parallel g tasks)
    with t that have "\<forall>t\<in>set tasks. \<exists>t'. resolve_task fs root t = Inr t'" by (fastforce simp: plan_tasks_def)
    from m [OF this] Parallel show ?thesis by auto
  qed
  then show ?thesis using m [of "stages p" "resolve_stage fs root"] by (auto simp: resolve_context_def)
qed

lemma demo_batch_plan:
  obtains plan p where "watch_plan_batch demo_env demo_watches [''/w/src/a''] = Inr (Some (plan, ''/w/src/a''))"
    and "resolve_context (os_files demo_outside) ''/w'' plan = Inr p"
proof -
  let ?plan = "filter_plan (runs_for demo_env demo_watches ''/w/src/a'') (wt_topology demo_watches)"
  have c: "consistent demo_watches" by (rule consistent_new [OF demo_watches])
  have t: "map tp_rule (plan_tasks ?plan) = filter (runs_for demo_env demo_watches ''/w/src/a'') (wt_rules demo_watches)"
    using c filter_tasks_rules [of "runs_for demo_env demo_watches ''/w/src/a''" "plan_tasks (wt_topology demo_watches)"]
    by (simp add: plan_tasks_filter consistent_def)
  then have "\<not> plan_is_empty ?plan" using demo_runs by (auto simp: filter_plan_empty)
  moreover have "\<forall>r\<in>set (wt_rules demo_watches). patterns_ok (we_glob demo_env) r" "glob_relative_ok (we_glob demo_env)"
    using demo_valid demo_glob_relative_ok by (auto simp: validate_ok_iff demo_env_def)
  ultimately have "watch_plan demo_env demo_watches ''/w/src/a'' = Inr (Some ?plan)"
    using watch_plan_ok [of demo_env demo_watches "''/w/src/a''"] c by simp
  moreover have "\<forall>t\<in>set (plan_tasks (wt_topology demo_watches)). ctx_cwd (tp_context t) = None"
    by (simp add: demo_watches_def with_root_and_concurrency_def from_rules_def from_rules_loop.simps
        close_open_def task_of_rule_def rules_new_def plan_tasks_def)
  then have "\<forall>t\<in>set (plan_tasks ?plan). ctx_cwd (tp_context t) = None" by (simp add: plan_tasks_filter)
  then obtain p where "resolve_context (os_files demo_outside) ''/w'' ?plan = Inr p" using resolve_plain by blast
  ultimately show thesis using that by (simp add: watch_plan_batch_def)
qed

theorem changed_batch_becomes_one_run_witness:
  "\<exists>req s'. handle_batch demo_outside 7 demo_events demo_session = Inr (Some (rq_run_id req), s') \<and>
     rq_run_id req = 1 \<and> rq_changed req = [''/w/src/a''] \<and> filter is_run (sc_queue (cs_scheduler (ss_consumer s'))) = [RunCmd req]"
proof -
  obtain plan p where p: "watch_plan_batch demo_env demo_watches [''/w/src/a''] = Inr (Some (plan, ''/w/src/a''))"
    "resolve_context (os_files demo_outside) ''/w'' plan = Inr p" by (rule demo_batch_plan)
  have f: "os_env demo_outside = demo_env" "ss_watches demo_session = demo_watches" "wk_open (ss_worker demo_session)"
    "wk_root (ss_worker demo_session) = ''/w''" "wk_next_run_id (ss_worker demo_session) = 0"
    by (simp_all add: demo_outside_def demo_session_def worker_new_def)
  from changed_batch_becomes_one_run [OF demo_changed [symmetric], of plan "''/w/src/a''" p 7] p f show ?thesis
    by (auto simp: request_of_def)
qed



theorem emit_answer_truthful_witness:
  "\<exists>res s'. emit_path demo_outside ''/w/src/a'' demo_session = (Inr res, s') \<and> em_outcome res = ''scheduled'' \<and> em_run_id res = Some 1"
proof -
  have f: "os_env demo_outside = demo_env" "ss_watches demo_session = demo_watches" "wk_open (ss_worker demo_session)"
    "wk_root (ss_worker demo_session) = ''/w''" "wk_next_run_id (ss_worker demo_session) = 0"
    by (simp_all add: demo_outside_def demo_session_def worker_new_def)
  obtain plan p where p: "watch_plan_batch demo_env demo_watches [''/w/src/a''] = Inr (Some (plan, ''/w/src/a''))"
    "resolve_context (os_files demo_outside) ''/w'' plan = Inr p" by (rule demo_batch_plan)
  then have "watch_plan demo_env demo_watches ''/w/src/a'' = Inr (Some plan)"
    by (auto simp: watch_plan_batch_def split: sum.splits option.splits)
  moreover obtain req where "schedule_plan_correlated (os_token demo_outside) (os_files demo_outside) plan ''/w/src/a'' (Some ''/w/src/a'') None []
      (wt_revision demo_watches) (ss_worker demo_session) (ss_consumer (session_cancel demo_outside demo_session)) =
      (Inr (rq_run_id req), (ss_worker demo_session)\<lparr>wk_next_run_id := wk_next_run_id (ss_worker demo_session) + 1\<rparr>,
       send (os_token demo_outside) (RunCmd req) (ss_consumer (session_cancel demo_outside demo_session)))"
    using schedule_ok [of "os_files demo_outside" "ss_worker demo_session" plan p] p(2) f by metis
  ultimately obtain res s' where r: "emit_path demo_outside ''/w/src/a'' demo_session = (Inr res, s')"
    using f by (simp add: emit_path_def session_schedule_def session_cancel_def)
  have "\<exists>r\<in>set (wt_rules demo_watches). runs_for demo_env demo_watches ''/w/src/a'' r"
    using demo_runs by (auto simp: filter_empty_conv)
  with emit_answer_truthful [OF _ _ _ _ r] f demo_valid demo_normalize demo_glob_relative_ok consistent_new [OF demo_watches] r show ?thesis
    by (auto simp: demo_env_def)
qed

end
