(* ===== verification/Shutdown_Model.thy ===== *)
theory Shutdown_Model
  imports Executor_Tasks Config_Revision
begin

text \<open>
  The shutdown coordinator of a watching process, \<open>src/src/shutdown.rs\<close>. It is shared by the
  thread that handles signals, the thread that reloads the configuration and the main thread, so
  the model is a set of threads that take turns: one turn is the code between two points where
  another thread can interfere (a critical section of the state mutex, the exchange of the reap
  flag, one effect on the outside, one round of the loop that waits for the close hook).

  The process runner and the clock are the \<open>runtime\<close> of the executor; the process reaper is a
  function on the same environment. The environment may change between any two turns. What the
  coordinator does to the outside is kept in a log.
\<close>

section \<open>Data\<close>

datatype shutdown_reason =
    Reason_Normal
  | Reason_Signal string int
  | Reason_FatalConfig string int
  | Reason_Operational string int

fun reason_exit_code :: "shutdown_reason \<Rightarrow> int" where
  "reason_exit_code Reason_Normal = 0"
| "reason_exit_code (Reason_Signal _ code) = code"
| "reason_exit_code (Reason_FatalConfig _ code) = code"
| "reason_exit_code (Reason_Operational _ code) = code"

fun reason_label :: "shutdown_reason \<Rightarrow> string" where
  "reason_label Reason_Normal = ''normal''"
| "reason_label (Reason_Signal name _) = name"
| "reason_label (Reason_FatalConfig detail _) = ''configInvalid: '' @ detail"
| "reason_label (Reason_Operational detail _) = ''operational: '' @ detail"

datatype close_hook_outcome =
  NotConfigured | SkippedBeforeReady | HookPassed | HookFailed string | HookTimedOut | HookCancelled

record shutdown_completion =
  sc_reason :: shutdown_reason
  sc_hook :: close_hook_outcome

record requested =
  rq_reason :: shutdown_reason
  rq_hook :: "string option"

datatype shutdown_phase =
  PhRunning | PhRequested requested | PhFinishing | PhFinished shutdown_completion

record shutdown_state =
  sh_phase :: shutdown_phase
  sh_ready :: bool
  sh_committed_hooks :: session_hooks
  sh_cleanup_paths :: "string list"
  sh_requested :: bool
  sh_reaped :: bool
  sh_accelerate :: bool

record 'w coordinator =
  co_root :: string
  co_runtime :: "'w runtime"
  co_reaper :: "'w \<Rightarrow> 'w"
  co_remove_file :: "string \<Rightarrow> 'w \<Rightarrow> 'w"
  co_hook_timeout :: duration

definition shutdown_new :: "session_hooks \<Rightarrow> shutdown_state" where
  "shutdown_new hooks =
     \<lparr>sh_phase = PhRunning, sh_ready = False, sh_committed_hooks = hooks, sh_cleanup_paths = [],
      sh_requested = False, sh_reaped = False, sh_accelerate = False\<rparr>"

section \<open>Critical sections\<close>

definition mark_ready :: "shutdown_state \<Rightarrow> shutdown_state" where
  "mark_ready s = (if sh_phase s = PhRunning then s\<lparr>sh_ready := True\<rparr> else s)"

definition update_hooks :: "session_hooks \<Rightarrow> shutdown_state \<Rightarrow> shutdown_state" where
  "update_hooks hooks s = (if sh_phase s = PhRunning then s\<lparr>sh_committed_hooks := hooks\<rparr> else s)"

definition set_cleanup_paths :: "string list \<Rightarrow> shutdown_state \<Rightarrow> shutdown_state" where
  "set_cleanup_paths paths s = s\<lparr>sh_cleanup_paths := paths\<rparr>"

definition ready_hook :: "shutdown_state \<Rightarrow> string option" where
  "ready_hook s = (if sh_ready s then hook_close (sh_committed_hooks s) else None)"

definition is_signal :: "shutdown_reason \<Rightarrow> bool" where
  "is_signal r = (case r of Reason_Signal _ _ \<Rightarrow> True | _ \<Rightarrow> False)"

text \<open>The locked part of \<open>request\<close>: whether this request is the first.\<close>

definition request_claim :: "shutdown_reason \<Rightarrow> shutdown_state \<Rightarrow> bool \<times> shutdown_state" where
  "request_claim reason s =
     (if sh_phase s = PhRunning
      then (True, s\<lparr>sh_phase := PhRequested \<lparr>rq_reason = reason, rq_hook = ready_hook s\<rparr>, sh_requested := True\<rparr>)
      else (False, if is_signal reason then s\<lparr>sh_accelerate := True\<rparr> else s))"

text \<open>The exchange of \<open>reap_once\<close>: whether the caller has to reap.\<close>

definition reap_exchange :: "shutdown_state \<Rightarrow> bool \<times> shutdown_state" where
  "reap_exchange s = (\<not> sh_reaped s, s\<lparr>sh_reaped := True\<rparr>)"

record finish_claim =
  fc_requested :: requested
  fc_paths :: "string list"
  fc_skipped :: bool

definition skipped_before_ready :: "shutdown_state \<Rightarrow> bool" where
  "skipped_before_ready s \<longleftrightarrow> \<not> sh_ready s \<and> hook_close (sh_committed_hooks s) \<noteq> None"

datatype finish_entry = Claimed finish_claim | Must_Wait | Already shutdown_completion

definition finish_enter :: "shutdown_state \<Rightarrow> finish_entry \<times> shutdown_state" where
  "finish_enter s =
     (case sh_phase s of
        PhRunning \<Rightarrow>
          (Claimed \<lparr>fc_requested = \<lparr>rq_reason = Reason_Normal, rq_hook = ready_hook s\<rparr>,
                    fc_paths = sh_cleanup_paths s, fc_skipped = skipped_before_ready s\<rparr>,
           s\<lparr>sh_phase := PhFinishing, sh_requested := True\<rparr>)
      | PhRequested q \<Rightarrow>
          (Claimed \<lparr>fc_requested = q, fc_paths = sh_cleanup_paths s, fc_skipped = skipped_before_ready s\<rparr>,
           s\<lparr>sh_phase := PhFinishing\<rparr>)
      | PhFinishing \<Rightarrow> (Must_Wait, s)
      | PhFinished c \<Rightarrow> (Already c, s))"

section \<open>The close hook\<close>

definition hook_context :: "'w coordinator \<Rightarrow> task_context" where
  "hook_context x = \<lparr>ctx_cwd = Some (co_root x), ctx_environment = []\<rparr>"

definition spawn_hook :: "'w coordinator \<Rightarrow> string \<Rightarrow> 'w \<Rightarrow> nat result \<times> 'w" where
  "spawn_hook x command =
     rt_spawn (co_runtime x) ''close hook'' (Shell command) (hook_context x) None (Some ''close hook'') False"

text \<open>One round of the wait: the outcome that ends it, and the environment after the round.\<close>

definition hook_round ::
  "'w coordinator \<Rightarrow> nat \<Rightarrow> nat \<Rightarrow> bool \<Rightarrow> 'w \<Rightarrow> close_hook_outcome option \<times> 'w" where
  "hook_round x child deadline accelerate w =
     (if accelerate then (Some HookCancelled, snd (rt_shutdown (co_runtime x) child w))
      else
        (case rt_try_wait (co_runtime x) child w of
           (Inr (Some status), w) \<Rightarrow>
             (Some (if es_success status then HookPassed else HookFailed (es_display status)), w)
         | (Inl err, w) \<Rightarrow> (Some (HookFailed err), w)
         | (Inr None, w) \<Rightarrow>
             (let (t, w) = rt_now (co_runtime x) w in
              if deadline \<le> t then (Some HookTimedOut, snd (rt_shutdown (co_runtime x) child w))
              else (None, rt_sleep (co_runtime x) (from_millis 10) w))))"

section \<open>Threads\<close>

text \<open>Where a thread stands in a call of \<open>request\<close> or \<open>finish\<close>, or what the call returned.\<close>

datatype turn =
    T_Idle
  | T_Request_Reap
  | T_Request_Reaping
  | T_Answered bool
  | T_Waiting
  | T_Reap finish_claim
  | T_Reaping finish_claim
  | T_Clean finish_claim
  | T_Hook finish_claim
  | T_Poll finish_claim nat nat
  | T_Publish shutdown_completion
  | T_Done shutdown_completion

datatype shutdown_effect =
  Reap_Begin | Reap_End | Remove_File string | Hook_Spawn string | Hook_Outcome close_hook_outcome

record 'w shutdown_system =
  sy_state :: shutdown_state
  sy_turn :: "nat \<Rightarrow> turn"
  sy_env :: 'w
  sy_log :: "shutdown_effect list"

definition system_new :: "session_hooks \<Rightarrow> 'w \<Rightarrow> 'w shutdown_system" where
  "system_new hooks w = \<lparr>sy_state = shutdown_new hooks, sy_turn = (\<lambda>_. T_Idle), sy_env = w, sy_log = []\<rparr>"

definition goto :: "nat \<Rightarrow> turn \<Rightarrow> 'w shutdown_system \<Rightarrow> 'w shutdown_system" where
  "goto t pc s = s\<lparr>sy_turn := (sy_turn s)(t := pc)\<rparr>"

definition log_effects :: "shutdown_effect list \<Rightarrow> 'w \<Rightarrow> 'w shutdown_system \<Rightarrow> 'w shutdown_system" where
  "log_effects es w s = s\<lparr>sy_log := sy_log s @ es, sy_env := w\<rparr>"

definition completed :: "finish_claim \<Rightarrow> close_hook_outcome \<Rightarrow> shutdown_completion" where
  "completed c outcome = \<lparr>sc_reason = rq_reason (fc_requested c), sc_hook = outcome\<rparr>"

text \<open>\<open>reap_once\<close> up to the call of the reaper; \<open>won\<close> and \<open>lost\<close> are the points that follow.\<close>

definition reap_turn :: "nat \<Rightarrow> turn \<Rightarrow> turn \<Rightarrow> 'w shutdown_system \<Rightarrow> 'w shutdown_system" where
  "reap_turn t won lost s =
     (let (first, st) = reap_exchange (sy_state s);
          s = s\<lparr>sy_state := st\<rparr>
      in if first then log_effects [Reap_Begin] (sy_env s) (goto t won s) else goto t lost s)"

definition reaped_turn :: "'w coordinator \<Rightarrow> nat \<Rightarrow> turn \<Rightarrow> 'w shutdown_system \<Rightarrow> 'w shutdown_system" where
  "reaped_turn x t pc s = log_effects [Reap_End] (co_reaper x (sy_env s)) (goto t pc s)"

definition hook_turn :: "'w coordinator \<Rightarrow> nat \<Rightarrow> finish_claim \<Rightarrow> 'w shutdown_system \<Rightarrow> 'w shutdown_system" where
  "hook_turn x t c s =
     (if fc_skipped c then goto t (T_Publish (completed c SkippedBeforeReady)) s
      else
        (case rq_hook (fc_requested c) of
           None \<Rightarrow> goto t (T_Publish (completed c NotConfigured)) s
         | Some command \<Rightarrow>
             (case spawn_hook x command (sy_env s) of
                (Inl err, w) \<Rightarrow>
                  log_effects [Hook_Spawn command] w (goto t (T_Publish (completed c (HookFailed err))) s)
              | (Inr child, w) \<Rightarrow>
                  (let (now, w) = rt_now (co_runtime x) w
                   in log_effects [Hook_Spawn command] w (goto t (T_Poll c child (now + co_hook_timeout x)) s)))))"

definition poll_turn ::
  "'w coordinator \<Rightarrow> nat \<Rightarrow> finish_claim \<Rightarrow> nat \<Rightarrow> nat \<Rightarrow> 'w shutdown_system \<Rightarrow> 'w shutdown_system" where
  "poll_turn x t c child deadline s =
     (case hook_round x child deadline (sh_accelerate (sy_state s)) (sy_env s) of
        (None, w) \<Rightarrow> log_effects [] w s
      | (Some outcome, w) \<Rightarrow> log_effects [Hook_Outcome outcome] w (goto t (T_Publish (completed c outcome)) s))"

text \<open>The next turn of a thread; \<^const>\<open>None\<close> when it is blocked or has no call to continue.\<close>

definition proceed :: "'w coordinator \<Rightarrow> nat \<Rightarrow> 'w shutdown_system \<Rightarrow> 'w shutdown_system option" where
  "proceed x t s =
     (case sy_turn s t of
        T_Request_Reap \<Rightarrow> Some (reap_turn t T_Request_Reaping (T_Answered True) s)
      | T_Request_Reaping \<Rightarrow> Some (reaped_turn x t (T_Answered True) s)
      | T_Waiting \<Rightarrow>
          (case sh_phase (sy_state s) of PhFinished c \<Rightarrow> Some (goto t (T_Done c) s) | _ \<Rightarrow> None)
      | T_Reap c \<Rightarrow> Some (reap_turn t (T_Reaping c) (T_Clean c) s)
      | T_Reaping c \<Rightarrow> Some (reaped_turn x t (T_Clean c) s)
      | T_Clean c \<Rightarrow>
          Some (log_effects (map Remove_File (fc_paths c)) (fold (co_remove_file x) (fc_paths c) (sy_env s))
                  (goto t (T_Hook c) s))
      | T_Hook c \<Rightarrow> Some (hook_turn x t c s)
      | T_Poll c child deadline \<Rightarrow> Some (poll_turn x t c child deadline s)
      | T_Publish c \<Rightarrow>
          Some (goto t (T_Done c) (s\<lparr>sy_state := (sy_state s)\<lparr>sh_phase := PhFinished c\<rparr>\<rparr>))
      | _ \<Rightarrow> None)"

definition at_rest :: "turn \<Rightarrow> bool" where
  "at_rest pc = (case pc of T_Idle \<Rightarrow> True | T_Answered _ \<Rightarrow> True | T_Done _ \<Rightarrow> True | _ \<Rightarrow> False)"

definition call_request :: "nat \<Rightarrow> shutdown_reason \<Rightarrow> 'w shutdown_system \<Rightarrow> 'w shutdown_system" where
  "call_request t reason s =
     (let (first, st) = request_claim reason (sy_state s)
      in goto t (if first then T_Request_Reap else T_Answered False) (s\<lparr>sy_state := st\<rparr>))"

definition call_finish :: "nat \<Rightarrow> 'w shutdown_system \<Rightarrow> 'w shutdown_system" where
  "call_finish t s =
     (let (entry, st) = finish_enter (sy_state s)
      in goto t (case entry of Claimed c \<Rightarrow> T_Reap c | Must_Wait \<Rightarrow> T_Waiting | Already c \<Rightarrow> T_Done c)
           (s\<lparr>sy_state := st\<rparr>))"

datatype 'w shutdown_action =
    Mark_Ready
  | Update_Hooks session_hooks
  | Set_Cleanup "string list"
  | Call_Request nat shutdown_reason
  | Call_Finish nat
  | Turn nat
  | Outside 'w

definition with_state ::
  "(shutdown_state \<Rightarrow> shutdown_state) \<Rightarrow> 'w shutdown_system \<Rightarrow> 'w shutdown_system" where
  "with_state f s = s\<lparr>sy_state := f (sy_state s)\<rparr>"

fun act :: "'w coordinator \<Rightarrow> 'w shutdown_action \<Rightarrow> 'w shutdown_system \<Rightarrow> 'w shutdown_system option" where
  "act x Mark_Ready s = Some (with_state mark_ready s)"
| "act x (Update_Hooks hooks) s = Some (with_state (update_hooks hooks) s)"
| "act x (Set_Cleanup paths) s = Some (with_state (set_cleanup_paths paths) s)"
| "act x (Call_Request t reason) s = (if at_rest (sy_turn s t) then Some (call_request t reason s) else None)"
| "act x (Call_Finish t) s = (if at_rest (sy_turn s t) then Some (call_finish t s) else None)"
| "act x (Turn t) s = proceed x t s"
| "act x (Outside w) s = Some (s\<lparr>sy_env := w\<rparr>)"

inductive shutdown_steps :: "'w coordinator \<Rightarrow> 'w shutdown_system \<Rightarrow> 'w shutdown_action list \<Rightarrow> 'w shutdown_system \<Rightarrow> bool"
  for x where
  steps_none: "shutdown_steps x s [] s"
| steps_more: "act x a s = Some s' \<Longrightarrow> shutdown_steps x s' as s'' \<Longrightarrow> shutdown_steps x s (a # as) s''"

inductive_cases shutdown_steps_ConsE: "shutdown_steps x s (a # as) s''"
inductive_simps shutdown_steps_Nil [simp]: "shutdown_steps x s [] s''"

lemma shutdown_steps_Cons: "shutdown_steps x s (a # as) s'' \<longleftrightarrow> (\<exists>s'. act x a s = Some s' \<and> shutdown_steps x s' as s'')"
  by (auto elim: shutdown_steps_ConsE intro: steps_more)

lemma shutdown_steps_append:
  "shutdown_steps x s as s' \<Longrightarrow> shutdown_steps x s' bs s'' \<Longrightarrow> shutdown_steps x s (as @ bs) s''"
  by (induction rule: shutdown_steps.induct) (auto intro: steps_more)

section \<open>One shutdown, whatever the interleaving\<close>

definition hook_spawns :: "shutdown_effect list \<Rightarrow> string list" where
  "hook_spawns es = concat (map (\<lambda>e. case e of Hook_Spawn c \<Rightarrow> [c] | _ \<Rightarrow> []) es)"

definition reaps :: "shutdown_effect list \<Rightarrow> nat" where
  "reaps es = length (filter (\<lambda>e. e = Reap_Begin) es)"

lemma hook_spawns_simps [simp]:
  "hook_spawns [] = []"
  "hook_spawns (as @ bs) = hook_spawns as @ hook_spawns bs"
  "hook_spawns (Hook_Spawn c # es) = c # hook_spawns es"
  "hook_spawns (Reap_Begin # es) = hook_spawns es"
  "hook_spawns (Reap_End # es) = hook_spawns es"
  "hook_spawns (Remove_File p # es) = hook_spawns es"
  "hook_spawns (Hook_Outcome r # es) = hook_spawns es"
  "hook_spawns (map Remove_File ps) = []"
  by (simp_all add: hook_spawns_def)

lemma reaps_simps [simp]:
  "reaps [] = 0"
  "reaps (as @ bs) = reaps as + reaps bs"
  "reaps (e # es) = (if e = Reap_Begin then 1 else 0) + reaps es"
  "reaps (map Remove_File ps) = 0"
  by (simp_all add: reaps_def filter_empty_conv)

definition finishing :: "turn \<Rightarrow> bool" where
  "finishing pc = (case pc of
     T_Reap _ \<Rightarrow> True | T_Reaping _ \<Rightarrow> True | T_Clean _ \<Rightarrow> True | T_Hook _ \<Rightarrow> True | T_Poll _ _ _ \<Rightarrow> True
   | T_Publish _ \<Rightarrow> True | _ \<Rightarrow> False)"

text \<open>What a thread may hold once the claim \<open>q\<close> is fixed, given the hooks started so far.\<close>

definition claim_fits :: "requested \<Rightarrow> shutdown_state \<Rightarrow> finish_claim \<Rightarrow> bool" where
  "claim_fits q st c \<longleftrightarrow> fc_requested c = q \<and> fc_skipped c = skipped_before_ready st"

definition hook_list :: "requested \<Rightarrow> string list" where
  "hook_list q = (case rq_hook q of None \<Rightarrow> [] | Some h \<Rightarrow> [h])"

definition turn_fits :: "requested \<Rightarrow> shutdown_state \<Rightarrow> shutdown_effect list \<Rightarrow> turn \<Rightarrow> bool" where
  "turn_fits q st es pc = (case pc of
     T_Reap c \<Rightarrow> claim_fits q st c \<and> hook_spawns es = []
   | T_Reaping c \<Rightarrow> claim_fits q st c \<and> hook_spawns es = []
   | T_Clean c \<Rightarrow> claim_fits q st c \<and> hook_spawns es = []
   | T_Hook c \<Rightarrow> claim_fits q st c \<and> hook_spawns es = []
   | T_Poll c _ _ \<Rightarrow> claim_fits q st c \<and> hook_spawns es = hook_list q
   | T_Publish c \<Rightarrow> sc_reason c = rq_reason q \<and> hook_spawns es = hook_list q
   | T_Done c \<Rightarrow> sh_phase st = PhFinished c
   | _ \<Rightarrow> True)"

definition phase_fits :: "requested \<Rightarrow> 'w shutdown_system \<Rightarrow> bool" where
  "phase_fits q s = (case sh_phase (sy_state s) of
     PhRunning \<Rightarrow> False
   | PhRequested q' \<Rightarrow> q' = q \<and> (\<forall>t. \<not> finishing (sy_turn s t)) \<and> hook_spawns (sy_log s) = []
   | PhFinishing \<Rightarrow> (\<exists>t. finishing (sy_turn s t) \<and> (\<forall>u. finishing (sy_turn s u) \<longrightarrow> u = t))
   | PhFinished c \<Rightarrow> sc_reason c = rq_reason q \<and> (\<forall>t. \<not> finishing (sy_turn s t)) \<and> hook_spawns (sy_log s) = hook_list q)"

definition settled :: "requested \<Rightarrow> 'w shutdown_system \<Rightarrow> bool" where
  "settled q s \<longleftrightarrow> phase_fits q s \<and> (\<forall>t. turn_fits q (sy_state s) (sy_log s) (sy_turn s t)) \<and>
     rq_hook q = ready_hook (sy_state s) \<and> reaps (sy_log s) = (if sh_reaped (sy_state s) then 1 else 0)"

definition untouched :: "'w shutdown_system \<Rightarrow> bool" where
  "untouched s \<longleftrightarrow> sh_phase (sy_state s) = PhRunning \<and> (\<forall>t. sy_turn s t = T_Idle) \<and> sy_log s = [] \<and>
     \<not> sh_reaped (sy_state s)"

definition claimed_by :: "'w shutdown_action \<Rightarrow> shutdown_state \<Rightarrow> requested" where
  "claimed_by a st =
     \<lparr>rq_reason = (case a of Call_Request _ r \<Rightarrow> r | _ \<Rightarrow> Reason_Normal), rq_hook = ready_hook st\<rparr>"

lemmas shutdown_defs =
  mark_ready_def update_hooks_def set_cleanup_paths_def request_claim_def reap_exchange_def finish_enter_def
  with_state_def call_request_def call_finish_def goto_def log_effects_def

lemma untouched_new: "untouched (system_new hooks w)"
  by (simp add: untouched_def system_new_def shutdown_new_def)

lemma act_untouched:
  assumes "untouched s" and "act x a s = Some s'"
  shows "untouched s' \<or> settled (claimed_by a (sy_state s)) s'"
  using assms
  by (cases a)
    (auto simp: untouched_def settled_def phase_fits_def turn_fits_def claimed_by_def shutdown_defs finishing_def
      claim_fits_def proceed_def ready_hook_def skipped_before_ready_def split: if_splits option.splits)

lemma settled_finisher:
  assumes "settled q s" and "finishing (sy_turn s t)"
  shows "sh_phase (sy_state s) = PhFinishing \<and> (\<forall>u. finishing (sy_turn s u) \<longrightarrow> u = t)"
  using assms by (auto simp: settled_def phase_fits_def split: shutdown_phase.splits)

lemma turn_fits_other:
  assumes "turn_fits q st es pc" and "\<not> finishing pc" and "sh_phase st' = sh_phase st"
  shows "turn_fits q st' es' pc"
  using assms by (auto simp: turn_fits_def finishing_def split: turn.splits)

lemma turn_fits_cong:
  assumes "turn_fits q st es pc" and "sh_phase st' = sh_phase st" and "hook_spawns es' = hook_spawns es"
    and "sh_ready st' = sh_ready st" and "sh_committed_hooks st' = sh_committed_hooks st"
  shows "turn_fits q st' es' pc"
  using assms by (auto simp: turn_fits_def claim_fits_def skipped_before_ready_def split: turn.splits)

text \<open>One thread moves and stays a finisher, or stays none.\<close>

lemma settled_move:
  assumes s: "settled q s"
    and s': "sy_turn s' = (sy_turn s)(t := pc)" "finishing pc = finishing (sy_turn s t)"
    and st: "sh_phase (sy_state s') = sh_phase (sy_state s)" "sh_ready (sy_state s') = sh_ready (sy_state s)"
      "sh_committed_hooks (sy_state s') = sh_committed_hooks (sy_state s)"
    and fits: "turn_fits q (sy_state s') (sy_log s') pc"
    and spawns: "hook_spawns (sy_log s') = hook_spawns (sy_log s) \<or> finishing pc"
    and reaps: "reaps (sy_log s') = (if sh_reaped (sy_state s') then 1 else 0)"
  shows "settled q s'"
proof -
  have here: "turn_fits q (sy_state s) (sy_log s) (sy_turn s u)" for u using s by (simp add: settled_def)
  have others: "turn_fits q (sy_state s') (sy_log s') (sy_turn s u)" if "u \<noteq> t" for u
  proof (cases "finishing (sy_turn s u)")
    case True
    with settled_finisher [OF s, of t] settled_finisher [OF s, of u] that s'(2) spawns
    have "hook_spawns (sy_log s') = hook_spawns (sy_log s)" by blast
    then show ?thesis using turn_fits_cong [OF here st(1) _ st(2,3)] by simp
  next
    case False
    then show ?thesis by (rule turn_fits_other [OF here _ st(1)])
  qed
  have "finishing (sy_turn s' u) = finishing (sy_turn s u)" for u using s' by simp
  moreover have "finishing (sy_turn s t) \<Longrightarrow> sh_phase (sy_state s) = PhFinishing"
    using settled_finisher [OF s] by blast
  ultimately have "phase_fits q s'"
    using s st(1) spawns s'(2) unfolding settled_def phase_fits_def by (auto split: shutdown_phase.splits)
  moreover have "ready_hook (sy_state s') = ready_hook (sy_state s)" using st by (simp add: ready_hook_def)
  ultimately show ?thesis using s others fits reaps s'(1) by (auto simp: settled_def)
qed

lemma settled_reaps: "settled q s \<Longrightarrow> reaps (sy_log s) = (if sh_reaped (sy_state s) then 1 else 0)"
  by (simp add: settled_def)

lemma settled_fits: "settled q s \<Longrightarrow> turn_fits q (sy_state s) (sy_log s) (sy_turn s t)"
  by (simp add: settled_def)

lemma settled_with_state:
  assumes "settled q s" and "sh_phase (f (sy_state s)) = sh_phase (sy_state s)"
    and "sh_ready (f (sy_state s)) = sh_ready (sy_state s)"
    and "sh_committed_hooks (f (sy_state s)) = sh_committed_hooks (sy_state s)"
    and "sh_reaped (f (sy_state s)) = sh_reaped (sy_state s)"
  shows "settled q (with_state f s)"
  using assms turn_fits_cong [OF settled_fits [OF assms(1)], of "f (sy_state s)" "sy_log s" undefined] settled_reaps [OF assms(1)]
  by - (rule settled_move [of q s _ undefined "sy_turn s undefined"], simp_all add: with_state_def)

lemma settled_not_running: "settled q s \<Longrightarrow> sh_phase (sy_state s) \<noteq> PhRunning"
  by (auto simp: settled_def phase_fits_def)

lemma settled_reap:
  assumes "settled q s" and "finishing won = finishing (sy_turn s t)" and "finishing lost = finishing (sy_turn s t)"
    and "turn_fits q (sy_state s) (sy_log s) won" and "turn_fits q (sy_state s) (sy_log s) lost"
  shows "settled q (reap_turn t won lost s)"
proof -
  let ?s = "reap_turn t won lost s"
  let ?pc = "if sh_reaped (sy_state s) then lost else won"
  have s: "sy_turn ?s = (sy_turn s)(t := ?pc)" "sy_state ?s = (sy_state s)\<lparr>sh_reaped := True\<rparr>"
    "sy_log ?s = sy_log s @ (if sh_reaped (sy_state s) then [] else [Reap_Begin])"
    by (simp_all add: reap_turn_def shutdown_defs Let_def)
  have "turn_fits q (sy_state ?s) (sy_log ?s) ?pc"
    using assms(4,5) s(2,3) by (auto intro: turn_fits_cong)
  then show ?thesis
    using assms(1-3) settled_reaps [OF assms(1)] s by - (rule settled_move [of q s ?s t ?pc], simp_all)
qed

lemma settled_effects:
  assumes "settled q s" and "finishing pc = finishing (sy_turn s t)" and "reaps es = 0"
    and "turn_fits q (sy_state s) (sy_log s @ es) pc" and "hook_spawns es = [] \<or> finishing pc"
  shows "settled q (log_effects es w (goto t pc s))"
  using assms settled_reaps [OF assms(1)] by - (rule settled_move [of q s _ t pc], simp_all add: log_effects_def goto_def)

lemma settled_goto:
  assumes "settled q s" and "finishing pc = finishing (sy_turn s t)" and "turn_fits q (sy_state s) (sy_log s) pc"
  shows "settled q (goto t pc s)"
  using assms settled_reaps [OF assms(1)] by - (rule settled_move [of q s _ t pc], simp_all add: goto_def)

lemma completed_simps [simp]: "sc_reason (completed c r) = rq_reason (fc_requested c)" "sc_hook (completed c r) = r"
  by (simp_all add: completed_def)

lemma settled_hook_turn:
  assumes s: "settled q s" and t: "sy_turn s t = T_Hook c"
  shows "settled q (hook_turn x t c s)"
proof -
  have f: "finishing (sy_turn s t)" using t by (simp add: finishing_def)
  have c: "claim_fits q (sy_state s) c" "hook_spawns (sy_log s) = []"
    using settled_fits [OF s, of t] t by (simp_all add: turn_fits_def)
  have h: "rq_hook q = ready_hook (sy_state s)" using s by (simp add: settled_def)
  then have skip: "fc_skipped c \<Longrightarrow> hook_list q = []"
    using c(1) by (auto simp: claim_fits_def skipped_before_ready_def ready_hook_def hook_list_def)
  show ?thesis
    using s f c skip unfolding hook_turn_def
    by (auto simp: finishing_def turn_fits_def claim_fits_def hook_list_def Let_def split: option.split sum.split prod.split
        intro!: settled_goto settled_effects)
qed

lemma settled_env: "settled q (s\<lparr>sy_env := w\<rparr>) = settled q s"
  by (simp add: settled_def phase_fits_def cong: shutdown_phase.case_cong)

lemma settled_poll_turn:
  assumes s: "settled q s" and t: "sy_turn s t = T_Poll c child deadline"
  shows "settled q (poll_turn x t c child deadline s)"
proof -
  have f: "finishing (sy_turn s t)" using t by (simp add: finishing_def)
  have c: "claim_fits q (sy_state s) c" "hook_spawns (sy_log s) = hook_list q"
    using settled_fits [OF s, of t] t by (simp_all add: turn_fits_def)
  have "settled q (log_effects [] w s)" for w using s by (simp add: log_effects_def settled_env)
  moreover have "settled q (log_effects [Hook_Outcome r] w (goto t (T_Publish (completed c r)) s))" for r w
    using s f c by - (rule settled_effects, auto simp: finishing_def turn_fits_def claim_fits_def)
  ultimately show ?thesis unfolding poll_turn_def by (auto split: option.split prod.split)
qed

lemma settled_publish:
  assumes s: "settled q s" and t: "sy_turn s t = T_Publish c"
  shows "settled q (goto t (T_Done c) (s\<lparr>sy_state := (sy_state s)\<lparr>sh_phase := PhFinished c\<rparr>\<rparr>))"
proof -
  have f: "finishing (sy_turn s u) \<Longrightarrow> u = t" for u
    using settled_finisher [OF s, of t] t by (simp add: finishing_def)
  have ph: "sh_phase (sy_state s) = PhFinishing" using settled_finisher [OF s, of t] t by (simp add: finishing_def)
  have c: "sc_reason c = rq_reason q" "hook_spawns (sy_log s) = hook_list q"
    using settled_fits [OF s, of t] t by (simp_all add: turn_fits_def)
  have "turn_fits q ((sy_state s)\<lparr>sh_phase := PhFinished c\<rparr>) (sy_log s) (sy_turn s u)" if "u \<noteq> t" for u
    using settled_fits [OF s, of u] f [of u] that ph by (auto simp: turn_fits_def finishing_def split: turn.splits)
  then show ?thesis
    using s c f by (auto simp: settled_def phase_fits_def goto_def turn_fits_def finishing_def ready_hook_def)
qed

lemma settled_proceed:
  assumes s: "settled q s" and p: "proceed x t s = Some s'"
  shows "settled q s'"
proof -
  note fits = settled_fits [OF s, of t]
  show ?thesis
  proof (cases "sy_turn s t")
    case T_Request_Reap
    with s p show ?thesis by (auto simp: proceed_def finishing_def turn_fits_def intro!: settled_reap)
  next
    case T_Request_Reaping
    with s p show ?thesis by (auto simp: proceed_def reaped_turn_def finishing_def turn_fits_def intro!: settled_effects)
  next
    case T_Waiting
    with s p show ?thesis
      by (auto simp: proceed_def finishing_def turn_fits_def split: shutdown_phase.splits intro!: settled_goto)
  next
    case (T_Reap c)
    with s p fits show ?thesis by (auto simp: proceed_def finishing_def turn_fits_def intro!: settled_reap)
  next
    case (T_Reaping c)
    with s p fits show ?thesis by (auto simp: proceed_def reaped_turn_def finishing_def turn_fits_def intro!: settled_effects)
  next
    case (T_Clean c)
    with s p fits show ?thesis by (auto simp: proceed_def finishing_def turn_fits_def intro!: settled_effects)
  next
    case (T_Hook c)
    with s p show ?thesis by (auto simp: proceed_def intro: settled_hook_turn)
  next
    case (T_Poll c child deadline)
    with s p show ?thesis by (auto simp: proceed_def intro: settled_poll_turn)
  next
    case (T_Publish c)
    with s p show ?thesis by (auto simp: proceed_def intro: settled_publish)
  qed (use p in \<open>simp_all add: proceed_def\<close>)
qed

lemma settled_call_request:
  assumes s: "settled q s" and r: "at_rest (sy_turn s t)"
  shows "settled q (call_request t reason s)"
proof -
  have "\<not> finishing (sy_turn s t)" using r by (auto simp: at_rest_def finishing_def split: turn.splits)
  moreover have "settled q (with_state (\<lambda>st. snd (request_claim reason st)) s)"
    using s settled_not_running [OF s] by (intro settled_with_state) (auto simp: request_claim_def)
  ultimately show ?thesis
    using settled_goto [of q "with_state (\<lambda>st. snd (request_claim reason st)) s" "T_Answered False" t] settled_not_running [OF s]
    by (simp add: call_request_def with_state_def request_claim_def finishing_def turn_fits_def)
qed

lemma settled_call_finish:
  assumes s: "settled q s" and r: "at_rest (sy_turn s t)"
  shows "settled q (call_finish t s)"
proof -
  have n: "\<not> finishing (sy_turn s t)" using r by (auto simp: at_rest_def finishing_def split: turn.splits)
  show ?thesis
  proof (cases "sh_phase (sy_state s)")
    case PhRunning
    then show ?thesis using settled_not_running [OF s] by simp
  next
    case (PhRequested q')
    then have q: "q' = q" "\<not> finishing (sy_turn s u)" "hook_spawns (sy_log s) = []" for u
      using s by (auto simp: settled_def phase_fits_def)
    have "turn_fits q ((sy_state s)\<lparr>sh_phase := PhFinishing\<rparr>) (sy_log s) (sy_turn s u)" for u
      using settled_fits [OF s, of u] q(2) [of u] PhRequested by (auto simp: turn_fits_def finishing_def split: turn.splits)
    moreover have "finishing (T_Reap c)" for c by (simp add: finishing_def)
    ultimately show ?thesis
      using s PhRequested q
      by (auto simp: call_finish_def finish_enter_def goto_def settled_def phase_fits_def ready_hook_def turn_fits_def
          claim_fits_def skipped_before_ready_def)
  next
    case PhFinishing
    with s n show ?thesis
      by (auto simp: call_finish_def finish_enter_def finishing_def turn_fits_def intro!: settled_goto)
  next
    case (PhFinished c)
    with s n show ?thesis
      by (auto simp: call_finish_def finish_enter_def finishing_def turn_fits_def intro!: settled_goto)
  qed
qed

lemma act_settled:
  assumes "settled q s" and "act x a s = Some s'"
  shows "settled q s'"
  using assms settled_not_running [OF assms(1)]
  by (cases a)
    (auto simp: mark_ready_def update_hooks_def set_cleanup_paths_def settled_env intro: settled_proceed
      intro!: settled_with_state settled_call_request settled_call_finish split: if_splits)

lemma steps_settled: "shutdown_steps x s as s' \<Longrightarrow> settled q s \<Longrightarrow> settled q s'"
  by (induction rule: shutdown_steps.induct) (auto intro: act_settled)

lemma untouched_running: "untouched s \<Longrightarrow> sh_phase (sy_state s) = PhRunning"
  by (simp add: untouched_def)

lemma steps_untouched:
  "shutdown_steps x s as s' \<Longrightarrow> untouched s \<Longrightarrow> untouched s' \<or> (\<exists>q. settled q s')"
  by (induction rule: shutdown_steps.induct) (auto dest: act_untouched intro: steps_settled)

text \<open>
  C21. One shutdown. Whatever the number of threads that request or finish it and however they
  interleave with each other and with reloads: the first call that claims it fixes the reason, the
  exit code and the close hook (the hook committed at that moment, if the watcher was ready); owned
  work is reaped at most once; no other hook ever runs, and by the time a call of \<open>finish\<close> has
  returned, the hook has been started exactly once; all calls return the same completion.
\<close>

theorem one_shutdown:
  assumes "shutdown_steps x (system_new hooks w) as s" and "sh_phase (sy_state s) = PhRunning"
    and "act x a s = Some s'" and "sh_phase (sy_state s') \<noteq> PhRunning" and "shutdown_steps x s' bs s''"
  shows "reaps (sy_log s'') \<le> 1 \<and>
    (hook_spawns (sy_log s'') = [] \<or> hook_spawns (sy_log s'') = hook_list (claimed_by a (sy_state s))) \<and>
    (\<forall>t c. sy_turn s'' t = T_Done c \<longrightarrow>
       hook_spawns (sy_log s'') = hook_list (claimed_by a (sy_state s)) \<and>
       sh_phase (sy_state s'') = PhFinished c \<and> sc_reason c = rq_reason (claimed_by a (sy_state s)))"
proof -
  let ?q = "claimed_by a (sy_state s)"
  have "untouched s" using steps_untouched [OF assms(1) untouched_new] assms(2) settled_not_running by blast
  then have "settled ?q s'" using act_untouched assms(3,4) untouched_running by blast
  with assms(5) have s: "settled ?q s''" by (rule steps_settled)
  have "hook_spawns (sy_log s'') = [] \<or> hook_spawns (sy_log s'') = hook_list ?q"
  proof (cases "sh_phase (sy_state s'')")
    case PhFinishing
    then obtain t where "finishing (sy_turn s'' t)" using s by (auto simp: settled_def phase_fits_def)
    with settled_fits [OF s, of t] show ?thesis by (auto simp: turn_fits_def finishing_def split: turn.splits)
  qed (use s in \<open>auto simp: settled_def phase_fits_def\<close>)
  moreover have "hook_spawns (sy_log s'') = hook_list ?q \<and> sh_phase (sy_state s'') = PhFinished c \<and> sc_reason c = rq_reason ?q"
    if "sy_turn s'' t = T_Done c" for t c
    using settled_fits [OF s, of t] that s by (auto simp: turn_fits_def settled_def phase_fits_def)
  ultimately show ?thesis using settled_reaps [OF s] by auto
qed

section \<open>The wait for the hook ends\<close>

text \<open>
  \<open>run_close_hook\<close> as the finishing thread runs it; \<open>accel\<close> reads the flag that a repeated signal
  sets. \<^const>\<open>None\<close> is a wait that never ends.
\<close>

partial_function (option) hook_loop ::
  "'w coordinator \<Rightarrow> ('w \<Rightarrow> bool) \<Rightarrow> nat \<Rightarrow> nat \<Rightarrow> 'w \<Rightarrow> (close_hook_outcome \<times> 'w) option" where
  "hook_loop x accel child deadline w =
     (case hook_round x child deadline (accel w) w of
        (Some outcome, w') \<Rightarrow> Some (outcome, w')
      | (None, w') \<Rightarrow> hook_loop x accel child deadline w')"

declare hook_loop.simps [code]

definition run_close_hook ::
  "'w coordinator \<Rightarrow> ('w \<Rightarrow> bool) \<Rightarrow> string option \<Rightarrow> 'w \<Rightarrow> (close_hook_outcome \<times> 'w) option" where
  "run_close_hook x accel command w =
     (case command of
        None \<Rightarrow> Some (NotConfigured, w)
      | Some command \<Rightarrow>
          (case spawn_hook x command w of
             (Inl err, w) \<Rightarrow> Some (HookFailed err, w)
           | (Inr child, w) \<Rightarrow>
               (let (now, w) = rt_now (co_runtime x) w
                in hook_loop x accel child (now + co_hook_timeout x) w)))"

text \<open>A monotonic clock: nothing turns it back, and a sleep takes at least its duration.\<close>

definition clock_runs :: "'w runtime \<Rightarrow> ('w \<Rightarrow> nat) \<Rightarrow> bool" where
  "clock_runs r clock \<longleftrightarrow>
     (\<forall>w. clock w \<le> fst (rt_now r w) \<and> fst (rt_now r w) \<le> clock (snd (rt_now r w))) \<and>
     (\<forall>d w. clock w + d \<le> clock (rt_sleep r d w)) \<and>
     (\<forall>child w. clock w \<le> clock (snd (rt_try_wait r child w)))"

lemma hook_round_advances:
  assumes "clock_runs (co_runtime x) clock" and "hook_round x child deadline a w = (None, w')"
  shows "clock w < deadline \<and> clock w + from_millis 10 \<le> clock w'"
proof -
  obtain v where v: "rt_try_wait (co_runtime x) child w = (Inr None, v)"
    and a: "\<not> a" using assms(2) by (auto simp: hook_round_def split: if_splits prod.splits sum.splits option.splits)
  obtain t u where t: "rt_now (co_runtime x) v = (t, u)" by (metis surj_pair)
  have "t < deadline" "w' = rt_sleep (co_runtime x) (from_millis 10) u"
    using assms(2) v t a by (auto simp: hook_round_def split: if_splits)
  moreover have "clock w \<le> clock v" using assms(1) v unfolding clock_runs_def by (metis snd_conv)
  moreover have "clock v \<le> t" "t \<le> clock u" using assms(1) t unfolding clock_runs_def by (metis fst_conv snd_conv)+
  moreover have "clock u + from_millis 10 \<le> clock (rt_sleep (co_runtime x) (from_millis 10) u)"
    using assms(1) unfolding clock_runs_def by blast
  ultimately show ?thesis by simp
qed

lemma hook_round_outcome: "hook_round x child deadline a w = (Some outcome, w') \<Longrightarrow> outcome \<noteq> NotConfigured"
  by (auto simp: hook_round_def split: prod.splits option.splits if_splits sum.splits)

lemma hook_loop_ends:
  assumes "clock_runs (co_runtime x) clock"
  shows "\<exists>outcome w'. hook_loop x accel child deadline w = Some (outcome, w') \<and> outcome \<noteq> NotConfigured"
proof (induction "deadline - clock w" arbitrary: w rule: less_induct)
  case less
  obtain r w' where r: "hook_round x child deadline (accel w) w = (r, w')" by (metis surj_pair)
  show ?case
  proof (cases r)
    case None
    with r hook_round_advances [OF assms] have "clock w < deadline \<and> clock w + from_millis 10 \<le> clock w'" by blast
    moreover have "0 < from_millis 10" by (simp add: from_millis_def)
    ultimately have "deadline - clock w' < deadline - clock w" by linarith
    from less [OF this] r None show ?thesis by (simp add: hook_loop.simps [of x accel child deadline w])
  next
    case (Some outcome)
    with r hook_round_outcome [of x child deadline "accel w" w] show ?thesis
      by (simp add: hook_loop.simps [of x accel child deadline w])
  qed
qed

text \<open>
  A close hook cannot hold up the exit: under a monotonic clock the wait always ends, with an
  outcome that says whether a hook was configured.
\<close>

theorem close_hook_ends:
  assumes "clock_runs (co_runtime x) clock"
  shows "\<exists>outcome w'. run_close_hook x accel command w = Some (outcome, w') \<and>
    (outcome = NotConfigured \<longleftrightarrow> command = None)"
proof (cases command)
  case None
  then show ?thesis by (simp add: run_close_hook_def)
next
  case (Some c)
  obtain a v where v: "spawn_hook x c w = (a, v)" by (metis surj_pair)
  obtain now u where u: "rt_now (co_runtime x) v = (now, u)" by (metis surj_pair)
  from hook_loop_ends [OF assms] show ?thesis
    using Some v u by (cases a) (fastforce simp: run_close_hook_def)+
qed

section \<open>Concrete threads\<close>

text \<open>A runtime whose environment is the clock, and whose children exit at once.\<close>

definition prompt_runtime :: "nat runtime" where
  "prompt_runtime =
     \<lparr>rt_spawn = (\<lambda>_ _ _ _ _ _ w. (Inr 0, w)), rt_try_wait = (\<lambda>_ w. (Inr (Some \<lparr>es_success = True, es_display = ''0''\<rparr>), w)),
      rt_shutdown = (\<lambda>_ w. (False, w)), rt_now = (\<lambda>w. (w, w)), rt_elapsed = (\<lambda>t w. (w - t, w)), rt_sleep = (\<lambda>d w. w + d),
      rt_is_dir = (\<lambda>_ w. (True, w)), rt_new_capture = (\<lambda>w. (0, w)),
      rt_finish_capture = (\<lambda>_ w. (capture_handle_new, w)), rt_cancelled = (\<lambda>w. (False, w)),
      rt_approve = (\<lambda>_ w. w), rt_recv = (\<lambda>w. (RecvTimeout, w))\<rparr>"

definition prompt_coordinator :: "nat coordinator" where
  "prompt_coordinator =
     \<lparr>co_root = ''/w'', co_runtime = prompt_runtime, co_reaper = (\<lambda>w. w + 20), co_remove_file = (\<lambda>_ w. w), co_hook_timeout = 5\<rparr>"

definition bye :: session_hooks where "bye = \<lparr>hook_close = Some ''bye''\<rparr>"

definition interrupted_session :: "nat shutdown_action list" where
  "interrupted_session = [Turn 0, Call_Finish 1, Turn 1, Turn 1, Turn 1, Turn 1, Turn 1]"

lemmas shutdown_run =
  shutdown_steps_Cons system_new_def shutdown_new_def shutdown_defs at_rest_def proceed_def reap_turn_def reaped_turn_def
  hook_turn_def poll_turn_def hook_round_def spawn_hook_def prompt_coordinator_def prompt_runtime_def bye_def ready_hook_def
  skipped_before_ready_def completed_def is_signal_def

theorem one_shutdown_witness:
  "\<exists>s. shutdown_steps prompt_coordinator (system_new bye 0) ([Mark_Ready, Call_Request 0 (Reason_Signal ''SIGINT'' 130)] @ interrupted_session) s \<and>
     hook_spawns (sy_log s) = [''bye''] \<and> reaps (sy_log s) \<le> 1 \<and>
     (\<exists>c. sy_turn s 1 = T_Done c \<and> reason_exit_code (sc_reason c) = 130)"
proof -
  obtain s0 where s0: "shutdown_steps prompt_coordinator (system_new bye 0) [Mark_Ready] s0"
    "sh_phase (sy_state s0) = PhRunning" "ready_hook (sy_state s0) = Some ''bye''"
    by (simp add: shutdown_run)
  obtain s1 where s1: "act prompt_coordinator (Call_Request 0 (Reason_Signal ''SIGINT'' 130)) s0 = Some s1"
    "sh_phase (sy_state s1) \<noteq> PhRunning"
    using s0(1) by (auto simp: shutdown_run)
  obtain s2 c where s2: "shutdown_steps prompt_coordinator s1 interrupted_session s2" "sy_turn s2 1 = T_Done c"
    using s0(1) s1(1) by (auto simp: shutdown_run interrupted_session_def)
  note one_shutdown [OF s0(1,2) s1 s2(1)]
  with s2(2) s0(3) have "hook_spawns (sy_log s2) = [''bye''] \<and> reaps (sy_log s2) \<le> 1 \<and> reason_exit_code (sc_reason c) = 130"
    by (auto simp: claimed_by_def hook_list_def)
  moreover have "shutdown_steps prompt_coordinator (system_new bye 0)
      ([Mark_Ready, Call_Request 0 (Reason_Signal ''SIGINT'' 130)] @ interrupted_session) s2"
    using shutdown_steps_append [OF s0(1) steps_more [OF s1(1) s2(1)]] by simp
  ultimately show ?thesis using s2(2) by blast
qed

text \<open>
  The sequence is not an order between threads: when a signal thread has claimed the reaping, a
  \<open>finish\<close> on the main thread finds the reap flag set and does not wait for it. It removes the
  socket files, runs the close hook and returns its completion, after which the process exits, while
  the reaping of the owned process groups has begun and not ended.
\<close>

theorem finish_overtakes_reaping:
  "\<exists>s c. shutdown_steps prompt_coordinator (system_new bye 0) ([Mark_Ready, Call_Request 0 (Reason_Signal ''SIGINT'' 130)] @ interrupted_session) s \<and>
     sy_turn s 1 = T_Done c \<and> sc_hook c = HookPassed \<and> hook_spawns (sy_log s) = [''bye''] \<and>
     Reap_Begin \<in> set (sy_log s) \<and> Reap_End \<notin> set (sy_log s)"
  by (simp add: shutdown_run interrupted_session_def)

theorem close_hook_ends_witness:
  "\<exists>outcome w'. run_close_hook prompt_coordinator (\<lambda>_. False) (Some ''bye'') 3 = Some (outcome, w') \<and> outcome \<noteq> NotConfigured"
proof -
  have "clock_runs (co_runtime prompt_coordinator) (\<lambda>w. w)"
    by (simp add: clock_runs_def prompt_coordinator_def prompt_runtime_def)
  from close_hook_ends [OF this, of "\<lambda>_. False" "Some ''bye''" 3] show ?thesis by auto
qed

end
