(* ===== verification/Process_Owner.thy ===== *)
theory Process_Owner
  imports Fzz_Prelude
begin

text \<open>
  Ownership of child process groups, \<open>src/src/process_owner.rs\<close>: the registry of owned groups,
  the shutdown of every owned group with its grace period and escalation, and the shutdown policy
  read from the environment variables.

  \<open>kill\<close>, the clock and the sleep are the functions of an \<open>owner_env\<close> over an environment of
  arbitrary type; the signals sent are kept in a log. Diagnostics printed in verbose mode are left
  out.
\<close>

section \<open>The registry\<close>

type_synonym pgid = int

definition register :: "pgid \<Rightarrow> pgid list \<Rightarrow> pgid list" where
  "register p groups = (if p \<in> set groups then groups else groups @ [p])"

definition unregister :: "pgid \<Rightarrow> pgid list \<Rightarrow> pgid list" where
  "unregister p groups = filter (\<lambda>g. g \<noteq> p) groups"

lemma register_distinct [simp]: "distinct groups \<Longrightarrow> distinct (register p groups)"
  by (simp add: register_def)

lemma unregister_distinct [simp]: "distinct groups \<Longrightarrow> distinct (unregister p groups)"
  by (simp add: unregister_def)

lemma set_register [simp]: "set (register p groups) = insert p (set groups)"
  by (auto simp: register_def)

lemma set_unregister [simp]: "set (unregister p groups) = set groups - {p}"
  by (auto simp: unregister_def)

section \<open>Shutting everything down\<close>

datatype signal = SIGTERM | SIGINT | SIGHUP | SIGQUIT | SIGKILL

datatype kill_result = Kill_Ok | Kill_ESRCH | Kill_Error

record 'w owner_env =
  oe_kill :: "int \<Rightarrow> signal option \<Rightarrow> 'w \<Rightarrow> kill_result \<times> 'w"
  oe_now :: "'w \<Rightarrow> nat \<times> 'w"
  oe_sleep :: "nat \<Rightarrow> 'w \<Rightarrow> 'w"

record shutdown_tally =
  ta_signaled :: nat
  ta_force_killed :: nat

text \<open>What happened to a group: a signal sent to it, or a probe that found it alive or gone.\<close>

datatype group_event = Sent pgid signal | Seen_Alive pgid | Seen_Gone pgid

definition group_alive :: "'w owner_env \<Rightarrow> pgid \<Rightarrow> 'w \<Rightarrow> bool \<times> 'w" where
  "group_alive e p w =
     (case oe_kill e (- p) None w of (r, w) \<Rightarrow> (case r of Kill_Ok \<Rightarrow> True | Kill_ESRCH \<Rightarrow> False | Kill_Error \<Rightarrow> True, w))"

fun signal_groups ::
  "'w owner_env \<Rightarrow> signal \<Rightarrow> pgid list \<Rightarrow> 'w \<times> group_event list \<Rightarrow> 'w \<times> group_event list" where
  "signal_groups e sig [] st = st"
| "signal_groups e sig (p # ps) (w, evs) =
     signal_groups e sig ps (snd (oe_kill e (- p) (Some sig) w), evs @ [Sent p sig])"

fun retain_alive ::
  "'w owner_env \<Rightarrow> pgid list \<Rightarrow> 'w \<times> group_event list \<Rightarrow> pgid list \<times> 'w \<times> group_event list" where
  "retain_alive e [] st = ([], st)"
| "retain_alive e (p # ps) (w, evs) =
     (let (alive, w) = group_alive e p w;
          (kept, st) = retain_alive e ps (w, evs @ [if alive then Seen_Alive p else Seen_Gone p])
      in (if alive then p # kept else kept, st))"

partial_function (option) wait_groups ::
  "'w owner_env \<Rightarrow> nat \<Rightarrow> pgid list \<Rightarrow> 'w \<times> group_event list \<Rightarrow> (pgid list \<times> 'w \<times> group_event list) option" where
  "wait_groups e deadline pending st =
     (let (t, w) = oe_now e (fst st) in
      if t < deadline \<and> pending \<noteq> []
      then (case retain_alive e pending (oe_sleep e 20000000 w, snd st) of
              (pending, st) \<Rightarrow> wait_groups e deadline pending st)
      else Some (pending, w, snd st))"

declare wait_groups.simps [code]

definition shutdown_all ::
  "'w owner_env \<Rightarrow> signal \<Rightarrow> nat \<Rightarrow> pgid list \<Rightarrow> 'w \<Rightarrow> (shutdown_tally \<times> 'w \<times> group_event list) option" where
  "shutdown_all e sig grace groups w =
     (if groups = [] then Some (\<lparr>ta_signaled = 0, ta_force_killed = 0\<rparr>, w, [])
      else
        (let (w, evs) = signal_groups e sig groups (w, []);
             (t, w) = oe_now e w
         in case wait_groups e (t + grace) groups (w, evs) of
              None \<Rightarrow> None
            | Some (pending, st) \<Rightarrow>
                Some (\<lparr>ta_signaled = length groups - length pending, ta_force_killed = length pending\<rparr>,
                      signal_groups e SIGKILL pending st)))"

section \<open>Policy\<close>

definition shutdown_signal :: "string option \<Rightarrow> signal" where
  "shutdown_signal v =
     (case map_option (\<lambda>s. map ascii_upper (str_trim s)) v of
        Some name \<Rightarrow>
          (if name = ''INT'' \<or> name = ''SIGINT'' then SIGINT
           else if name = ''HUP'' \<or> name = ''SIGHUP'' then SIGHUP
           else if name = ''QUIT'' \<or> name = ''SIGQUIT'' then SIGQUIT
           else SIGTERM)
      | None \<Rightarrow> SIGTERM)"

text \<open>The signal and the grace period in nanoseconds, from the two environment variables.\<close>

definition shutdown_policy :: "string option \<Rightarrow> string option \<Rightarrow> signal \<times> nat" where
  "shutdown_policy cancel_signal cancel_grace =
     (shutdown_signal cancel_signal,
      (case Option.bind cancel_grace parse_unsigned of Some ms \<Rightarrow> ms | None \<Rightarrow> 5000) * 1000000)"

section \<open>No owned group survives unnoticed\<close>

definition owner_clock :: "'w owner_env \<Rightarrow> ('w \<Rightarrow> nat) \<Rightarrow> bool" where
  "owner_clock e clock \<longleftrightarrow>
     (\<forall>w. clock w \<le> fst (oe_now e w) \<and> fst (oe_now e w) \<le> clock (snd (oe_now e w))) \<and>
     (\<forall>d w. clock w + d \<le> clock (oe_sleep e d w)) \<and>
     (\<forall>p s w. clock w \<le> clock (snd (oe_kill e p s w)))"

lemma retain_alive_clock:
  "owner_clock e clock \<Longrightarrow> retain_alive e ps (w, evs) = (kept, w', evs') \<Longrightarrow> clock w \<le> clock w'"
proof (induction ps arbitrary: w evs kept)
  case (Cons p ps)
  obtain alive v where v: "group_alive e p w = (alive, v)" by (metis surj_pair)
  obtain k st where k: "retain_alive e ps (v, evs @ [if alive then Seen_Alive p else Seen_Gone p]) = (k, st)" by (metis surj_pair)
  have "clock w \<le> clock v"
    using v Cons.prems(1) unfolding owner_clock_def group_alive_def by (metis (no_types, lifting) prod.case_eq_if snd_conv)
  moreover have "clock v \<le> clock w'" using Cons.IH [OF Cons.prems(1)] Cons.prems(2) v k by simp
  ultimately show ?case by simp
qed simp

text \<open>Groups only leave the pending list when a probe has seen them gone, and the log only grows.\<close>

lemma retain_alive_sees:
  "retain_alive e ps (w, evs) = (kept, w', evs') \<Longrightarrow>
     set kept \<subseteq> set ps \<and> length kept \<le> length ps \<and> (\<exists>new. evs' = evs @ new \<and> (\<forall>p\<in>set ps. p \<in> set kept \<or> Seen_Gone p \<in> set new))"
proof (induction ps arbitrary: w evs kept)
  case (Cons p ps)
  obtain alive v where v: "group_alive e p w = (alive, v)" by (metis surj_pair)
  obtain k st where k: "retain_alive e ps (v, evs @ [if alive then Seen_Alive p else Seen_Gone p]) = (k, st)" by (metis surj_pair)
  with Cons.prems v have st: "st = (w', evs')" "kept = (if alive then p # k else k)" by (auto split: if_splits)
  from Cons.IH [of v _ k] k st(1) obtain new where
    "set k \<subseteq> set ps" "length k \<le> length ps" "evs' = (evs @ [if alive then Seen_Alive p else Seen_Gone p]) @ new"
    "\<forall>q\<in>set ps. q \<in> set k \<or> Seen_Gone q \<in> set new" by blast
  with st(2) show ?case by auto
qed simp

lemma wait_groups_ends:
  assumes "owner_clock e clock"
  shows "\<exists>left w' new. wait_groups e deadline pending (w, evs) = Some (left, w', evs @ new) \<and>
    set left \<subseteq> set pending \<and> length left \<le> length pending \<and> (\<forall>p\<in>set pending. p \<in> set left \<or> Seen_Gone p \<in> set new)"
proof (induction "deadline - clock w" arbitrary: w evs pending rule: less_induct)
  case less
  obtain t v where t: "oe_now e w = (t, v)" by (metis surj_pair)
  then have tv: "clock w \<le> t" "t \<le> clock v" using assms unfolding owner_clock_def by (metis fst_conv snd_conv)+
  obtain kept u evs' where r: "retain_alive e pending (oe_sleep e 20000000 v, evs) = (kept, u, evs')" by (metis surj_pair)
  have "clock v + 20000000 \<le> clock (oe_sleep e 20000000 v)" using assms unfolding owner_clock_def by blast
  with retain_alive_clock [OF assms r] tv have u: "t + 20000000 \<le> clock u" by linarith
  show ?case
  proof (cases "t < deadline \<and> pending \<noteq> []")
    case True
    then have "deadline - clock u < deadline - clock w" using u tv by linarith
    from less [OF this, of kept evs'] obtain left w' new where
      l: "wait_groups e deadline kept (u, evs') = Some (left, w', evs' @ new)" "set left \<subseteq> set kept"
      "length left \<le> length kept" "\<forall>p\<in>set kept. p \<in> set left \<or> Seen_Gone p \<in> set new" by blast
    moreover obtain new' where "evs' = evs @ new'" "\<forall>p\<in>set pending. p \<in> set kept \<or> Seen_Gone p \<in> set new'"
      "set kept \<subseteq> set pending" "length kept \<le> length pending"
      using retain_alive_sees [OF r] by blast
    ultimately show ?thesis
      using True t r by (subst wait_groups.simps) (auto intro!: exI [of _ "new' @ new"])
  next
    case False
    then show ?thesis using t by (subst wait_groups.simps) (auto simp: Let_def)
  qed
qed

lemma signal_groups_log: "snd (signal_groups e sig ps (w, evs)) = evs @ map (\<lambda>p. Sent p sig) ps"
  by (induction ps arbitrary: w evs) simp_all

text \<open>
  C22. The shutdown of all owned groups returns, for every behaviour of the processes: each owned group
  gets the configured signal, and afterwards it either has been seen gone or is killed. The tally
  accounts for every group.
\<close>

theorem shutdown_all_reaches_every_group:
  assumes "owner_clock e clock"
  shows "\<exists>tally w' evs. shutdown_all e sig grace groups w = Some (tally, w', evs) \<and>
    ta_signaled tally + ta_force_killed tally = length groups \<and>
    (\<forall>p\<in>set groups. Sent p sig \<in> set evs \<and> (Seen_Gone p \<in> set evs \<or> Sent p SIGKILL \<in> set evs))"
proof (cases "groups = []")
  case True
  then show ?thesis by (simp add: shutdown_all_def)
next
  case False
  obtain w1 where s1: "signal_groups e sig groups (w, []) = (w1, map (\<lambda>p. Sent p sig) groups)"
    using signal_groups_log [of e sig groups w "[]"] by (metis append_Nil prod.collapse)
  obtain t w2 where t: "oe_now e w1 = (t, w2)" by (metis surj_pair)
  from wait_groups_ends [OF assms] obtain left w3 new where
    l: "wait_groups e (t + grace) groups (w2, map (\<lambda>p. Sent p sig) groups) = Some (left, w3, map (\<lambda>p. Sent p sig) groups @ new)"
    "length left \<le> length groups" "\<forall>p\<in>set groups. p \<in> set left \<or> Seen_Gone p \<in> set new" by blast
  obtain w4 where "signal_groups e SIGKILL left (w3, map (\<lambda>p. Sent p sig) groups @ new) =
      (w4, (map (\<lambda>p. Sent p sig) groups @ new) @ map (\<lambda>p. Sent p SIGKILL) left)"
    using signal_groups_log [of e SIGKILL left w3] by (metis prod.collapse)
  with False s1 t l show ?thesis by (auto simp: shutdown_all_def)
qed

text \<open>A group that ignores the signal for three rounds of the clock, and one that never goes away.\<close>

definition stubborn_env :: "nat owner_env" where
  "stubborn_env =
     \<lparr>oe_kill = (\<lambda>p s w. (if p = -7 \<and> 60000000 \<le> w then Kill_ESRCH else Kill_Ok, w)),
      oe_now = (\<lambda>w. (w, w)), oe_sleep = (\<lambda>d w. w + d)\<rparr>"

theorem shutdown_all_reaches_every_group_witness:
  "\<exists>tally w' evs. shutdown_all stubborn_env SIGTERM 100000000 [7, 9] 0 = Some (tally, w', evs) \<and>
     ta_signaled tally + ta_force_killed tally = 2 \<and> Sent 9 SIGTERM \<in> set evs"
proof -
  have "owner_clock stubborn_env (\<lambda>w. w)" by (simp add: owner_clock_def stubborn_env_def)
  from shutdown_all_reaches_every_group [OF this, of SIGTERM 100000000 "[7, 9]" 0] show ?thesis by auto
qed

end
