(* ===== verification/Approval.thy ===== *)
theory Approval
  imports Execution_Events
begin

text \<open>
  The terminal adapter that asks for the approval of recovery commands, \<open>src/src/approval.rs\<close>. The
  terminal, \<open>poll\<close> and the cancellation token are functions over an environment; the text of the
  question is not modelled.
\<close>

datatype poll_result = Poll_Ready | Poll_Timeout | Poll_Interrupted | Poll_Failed

record 'w terminal =
  tm_is_terminal :: bool
  tm_cancelled :: "'w \<Rightarrow> bool \<times> 'w"
  tm_poll :: "'w \<Rightarrow> poll_result \<times> 'w"
  tm_read_line :: "'w \<Rightarrow> string result \<times> 'w"

definition decision_of :: "string \<Rightarrow> approval_decision" where
  "decision_of line =
     (let a = map ascii_lower (str_trim line) in
      if a = ''y'' \<or> a = ''yes'' then Approved
      else if a = [] then Eof
      else if a = ''n'' \<or> a = ''no'' then Declined
      else InvalidAnswer)"

text \<open>One round of the wait: \<^const>\<open>None\<close> to wait on, else the decision that ends the question, if any.\<close>

definition input_round :: "'w terminal \<Rightarrow> 'w \<Rightarrow> approval_decision option option \<times> 'w" where
  "input_round t w =
     (let (cancelled, w) = tm_cancelled t w in
      if cancelled then (Some (Some ApprovalCancelled), w)
      else
        (let (r, w) = tm_poll t w
         in (case r of
               Poll_Interrupted \<Rightarrow> None
             | Poll_Failed \<Rightarrow> Some (Some Eof)
             | Poll_Timeout \<Rightarrow> None
             | Poll_Ready \<Rightarrow> Some None, w)))"

text \<open>\<^const>\<open>None\<close> is a wait without end.\<close>

partial_function (option) poll_input :: "'w terminal \<Rightarrow> 'w \<Rightarrow> (approval_decision option \<times> 'w) option" where
  "poll_input t w =
     (case input_round t w of
        (None, w) \<Rightarrow> poll_input t w
      | (Some r, w) \<Rightarrow> Some (r, w))"

declare poll_input.simps [code]

definition approve :: "'w terminal \<Rightarrow> 'w \<Rightarrow> (approval_decision \<times> 'w) option" where
  "approve t w =
     (if \<not> tm_is_terminal t then Some (NoTty, w)
      else
        (case poll_input t w of
           None \<Rightarrow> None
         | Some (Some decision, w) \<Rightarrow> Some (decision, w)
         | Some (None, w) \<Rightarrow>
             (case tm_read_line t w of
                (Inl err, w) \<Rightarrow> Some (Eof, w)
              | (Inr line, w) \<Rightarrow> Some (decision_of line, w))))"

lemma decision_of_approved: "decision_of line = Approved \<longleftrightarrow> map ascii_lower (str_trim line) \<in> {''y'', ''yes''}"
  by (auto simp: decision_of_def Let_def)

text \<open>Recovery is denied by default: only a typed yes approves, and a headless caller never blocks.\<close>

lemma approve_only_on_yes:
  assumes "approve t w = Some (Approved, w')"
  shows "tm_is_terminal t \<and> (\<exists>v line. tm_read_line t v = (Inr line, w') \<and> map ascii_lower (str_trim line) \<in> {''y'', ''yes''})"
proof -
  have "fst y \<noteq> Some Approved" if "poll_input t w = Some y" for w and y :: "approval_decision option \<times> 'a"
    using that
    by (rule poll_input.raw_induct [of "\<lambda>t w y. fst y \<noteq> Some Approved", rotated])
      (auto simp: input_round_def Let_def split: prod.splits option.splits if_splits poll_result.splits)
  then have input: "poll_input t w \<noteq> Some (Some Approved, v)" for w v by force
  show ?thesis
    unfolding decision_of_approved [symmetric] using assms input
    by (auto simp: approve_def split: if_splits option.splits prod.splits sum.splits)
qed

end
