(* ===== verification/Yaml_Access.thy ===== *)
theory Yaml_Access
  imports Plan_Model Ordered_Map Utf8_Text
begin

text \<open>
  Errors (\<open>src/src/errors.rs\<close>) and typed access to YAML nodes (\<open>src/src/yaml.rs\<close>).

  The \<open>yaml_rust2\<close> crate is not part of the repository. The constructors of its \<open>Yaml\<close> enum, which
  the sources match on, are a datatype; loading a text, indexing a node by a key, \<open>as_str\<close> and the
  debug rendering are the functions of the record \<open>yaml_lib\<close>. What the crate documents of them is the
  predicate \<open>yaml_documented\<close>, a hypothesis of the properties that need it.
\<close>

section \<open>Errors\<close>

datatype io_error_kind = NotFound | PermissionDenied | OtherKind

record io_error =
  io_kind :: io_error_kind
  io_text :: string

record scan_error =
  se_line :: nat
  se_text :: string

datatype fzz_error =
  IoConfigError string "io_error option"
| IoStdinError string "string option"
| InvalidConfigError string "scan_error option" "string option"
| PathError string "string option" "string option"
| PathPatternError string "string option"
| GenericError string

definition BLUE :: string where
  "BLUE = [CHR 0x1B] @ ''[34m''"

definition RESET :: string where
  "RESET = [CHR 0x1B] @ ''[0m''"

definition hint_formatter :: "bool \<Rightarrow> string \<Rightarrow> string" where
  "hint_formatter colored hint =
     (if colored then BLUE @ ''Hint'' @ RESET @ '': '' @ hint else ''Hint: '' @ hint)"

definition with_hint :: "bool \<Rightarrow> string \<Rightarrow> string option \<Rightarrow> string" where
  "with_hint colored msg hint =
     (case hint of None \<Rightarrow> msg | Some h \<Rightarrow> msg @ [newline] @ hint_formatter colored h)"

definition with_reason :: "string \<Rightarrow> string \<Rightarrow> string" where
  "with_reason msg e = msg @ [newline] @ ''Reason: '' @ e"

text \<open>\<open>Display for FzzError\<close>, with the answer of \<open>stdout::is_colored\<close>.\<close>

fun error_text :: "bool \<Rightarrow> fzz_error \<Rightarrow> string" where
  "error_text colored (IoConfigError msg None) = msg"
| "error_text colored (IoConfigError msg (Some err)) =
     (case io_kind err of
        NotFound \<Rightarrow>
          with_hint colored (with_reason msg (io_text err))
            (Some ''Check if the file exists and if the path is correct. Try `fzz init` to create a new configuration file'')
      | PermissionDenied \<Rightarrow>
          with_hint colored (with_reason msg (io_text err))
            (Some ''Check if you have permission to write in the current folder'')
      | OtherKind \<Rightarrow> with_reason msg (io_text err))"
| "error_text colored (IoStdinError err hint) = with_hint colored (''Reason: '' @ err) hint"
| "error_text colored (InvalidConfigError msg err hint) =
     with_hint colored (case err of Some e \<Rightarrow> with_reason msg (se_text e) | None \<Rightarrow> msg) hint"
| "error_text colored (PathPatternError msg hint) = with_hint colored msg hint"
| "error_text colored (PathError msg err hint) =
     with_hint colored (case err of Some e \<Rightarrow> with_reason msg e | None \<Rightarrow> msg) hint"
| "error_text colored (GenericError e) = ''Reason: '' @ e"

fun error_source :: "fzz_error \<Rightarrow> string option" where
  "error_source (IoConfigError msg (Some e)) = Some (io_text e)"
| "error_source (PathError msg (Some e) hint) = Some e"
| "error_source e = None"

type_synonym 'a fzz_result = "fzz_error + 'a"

section \<open>YAML nodes\<close>

datatype yaml =
  YReal string | YInteger int | YString string | YBoolean bool | YArray "yaml list"
| YHash "(yaml \<times> yaml) list" | YAlias nat | YNull | YBadValue

record yaml_lib =
  yl_load :: "string \<Rightarrow> scan_error + yaml list"
  yl_index :: "yaml \<Rightarrow> string \<Rightarrow> yaml"
  yl_as_str :: "yaml \<Rightarrow> string option"
  yl_debug :: "yaml \<Rightarrow> string"

text \<open>
  The documented behaviour: indexing answers the value stored under the string key of a hash and
  \<open>BadValue\<close> otherwise; \<open>as_str\<close> answers on strings only.
\<close>

definition yaml_documented :: "yaml_lib \<Rightarrow> bool" where
  "yaml_documented Y \<longleftrightarrow>
     (\<forall>h k. yl_index Y (YHash h) k = (case map_of h (YString k) of Some v \<Rightarrow> v | None \<Rightarrow> YBadValue)) \<and>
     (\<forall>y k. (\<forall>h. y \<noteq> YHash h) \<longrightarrow> yl_index Y y k = YBadValue) \<and>
     (\<forall>y. yl_as_str Y y = (case y of YString s \<Rightarrow> Some s | _ \<Rightarrow> None))"

fun get_type :: "yaml \<Rightarrow> string" where
  "get_type (YHash h) = ''Hash''"
| "get_type (YArray xs) = ''Array''"
| "get_type (YString s) = ''String''"
| "get_type (YBoolean b) = ''Boolean''"
| "get_type (YInteger i) = ''Integer''"
| "get_type (YReal r) = ''Real''"
| "get_type y = ''Unknown''"

definition show_int :: "int \<Rightarrow> string" where
  "show_int i = (if i < 0 then ''-'' @ show_nat (nat (- i)) else show_nat (nat i))"

definition show_bool :: "bool \<Rightarrow> string" where
  "show_bool b = (if b then ''true'' else ''false'')"

definition strip_newline :: "string \<Rightarrow> string" where
  "strip_newline s = (if s \<noteq> [] \<and> last s = newline then butlast s else s)"

text \<open>An item of a list that is a hash: its first line after the dash, the others indented below it.\<close>

definition hash_item :: "string \<Rightarrow> string \<Rightarrow> string" where
  "hash_item spaces hash_str =
     (let hash_lines = str_split [newline] hash_str;
          first_line = (case hash_lines of [] \<Rightarrow> [] | l # _ \<Rightarrow> l);
          same = join_with [newline]
                   (filter (\<lambda>l. l \<noteq> []) (map (\<lambda>l. ''  '' @ spaces @ l) (drop 1 hash_lines)))
      in if same = [] then spaces @ ''- '' @ first_line @ [newline]
         else spaces @ ''- '' @ first_line @ [newline] @ same @ [newline])"

fun is_hash :: "yaml \<Rightarrow> bool" where
  "is_hash (YHash h) = True"
| "is_hash y = False"

fun is_nested :: "yaml \<Rightarrow> bool" where
  "is_nested (YHash h) = True"
| "is_nested (YArray xs) = True"
| "is_nested y = False"

text \<open>
  The indentation is a \<open>u8\<close>; its product and its successor wrap around, as they do in the release
  profile.
\<close>

fun yaml_to_string :: "yaml_lib \<Rightarrow> yaml \<Rightarrow> 8 word \<Rightarrow> string" where
  "yaml_to_string Y (YHash hash) identation =
     (let spaces = replicate (unat (identation * 2)) CHR '' '' in
      strip_newline (concat (map (\<lambda>(key, value).
        if is_nested value
        then spaces @ yaml_to_string Y key (identation + 1) @ '':'' @ [newline]
             @ yaml_to_string Y value (identation + 1)
        else spaces @ yaml_to_string Y key (identation + 1) @ '': ''
             @ yaml_to_string Y value (identation + 1) @ [newline]) hash)))"
| "yaml_to_string Y (YArray items) identation =
     (let spaces = replicate (unat (identation * 2)) CHR '' '' in
      concat (map (\<lambda>item.
        if is_hash item then hash_item spaces (yaml_to_string Y item 0)
        else spaces @ ''- '' @ yaml_to_string Y item identation @ [newline]) items))"
| "yaml_to_string Y (YString item) identation = item"
| "yaml_to_string Y (YBoolean item) identation = show_bool item"
| "yaml_to_string Y (YInteger item) identation = show_int item"
| "yaml_to_string Y (YReal item) identation = item"
| "yaml_to_string Y unknown identation = yl_debug Y unknown"

section \<open>Extraction\<close>

definition fenced :: "string \<Rightarrow> yaml_lib \<Rightarrow> yaml \<Rightarrow> string" where
  "fenced lang Y y =
     [newline] @ ''```'' @ lang @ [newline] @ yaml_to_string Y y 0 @ [newline] @ ''```''"

definition missing_property :: "yaml_lib \<Rightarrow> yaml \<Rightarrow> string \<Rightarrow> fzz_error" where
  "missing_property Y y prop =
     InvalidConfigError (''Missing '' @ quoted prop @ '' in rule'' @ fenced ''yaml'' Y y) None
       (Some ''Check for typos or wrong identation'')"

definition type_hint :: string where
  "type_hint = ''Check if the property is defined, with the right type and identation''"

definition extract_list :: "yaml_lib \<Rightarrow> yaml \<Rightarrow> string \<Rightarrow> string list fzz_result" where
  "extract_list Y y prop = (case yl_index Y y prop of
     YArray items \<Rightarrow>
       Inr (map (\<lambda>i. case yl_as_str Y i of Some s \<Rightarrow> s | None \<Rightarrow> ''_invalid_value_'') items)
   | YString item \<Rightarrow> Inr [item]
   | YBadValue \<Rightarrow> Inl (missing_property Y y prop)
   | unknown \<Rightarrow>
       Inl (InvalidConfigError
         (''Invalid property '' @ quoted prop @ '' in rule below'' @ [newline]
          @ ''Expected a list (Array) but got: '' @ get_type unknown @ fenced ''yaml'' Y y)
         None (Some type_hint)))"

definition extract_string :: "yaml_lib \<Rightarrow> yaml \<Rightarrow> string \<Rightarrow> string fzz_result" where
  \<open>extract_string Y y prop = (case yl_index Y y prop of
     YString item \<Rightarrow> Inr item
   | YBadValue \<Rightarrow> Inl (missing_property Y y prop)
   | unknown \<Rightarrow>
       Inl (InvalidConfigError
         (''Invalid property '' @ quoted prop @ '' in rule below'' @ [newline]
          @ ''Expected '' @ quoted ''String'' @ '' but got: '' @ ''"'' @ get_type unknown @ ''"''
          @ fenced '''' Y y)
         None (Some type_hint)))\<close>

fun read_env_entries ::
  "yaml_lib \<Rightarrow> string \<Rightarrow> (yaml \<times> yaml) list \<Rightarrow> (string, string) btree \<Rightarrow> (string, string) btree fzz_result" where
  "read_env_entries Y prop [] vals = Inr vals"
| "read_env_entries Y prop ((name, value) # items) vals = (case yl_as_str Y name of
     None \<Rightarrow> Inl (InvalidConfigError
       (''Property '' @ quoted prop @ '' environment names must be strings'') None None)
   | Some name \<Rightarrow>
       if str_trim name = [] then
         Inl (InvalidConfigError ''Environment variable name cannot be empty'' None None)
       else (case yl_as_str Y value of
         None \<Rightarrow> Inl (InvalidConfigError
           (''Environment value for '' @ quoted name @ '' must be a string'') None None)
       | Some value \<Rightarrow> read_env_entries Y prop items (bt_insert name value vals)))"

definition extract_optional_string_map ::
  "yaml_lib \<Rightarrow> yaml \<Rightarrow> string \<Rightarrow> (string, string) btree fzz_result" where
  "extract_optional_string_map Y y prop = (case yl_index Y y prop of
     YBadValue \<Rightarrow> Inr []
   | YHash items \<Rightarrow> read_env_entries Y prop items []
   | unknown \<Rightarrow>
       Inl (InvalidConfigError
         (''Property '' @ quoted prop @ '' must be a string-to-string object, got '' @ get_type unknown)
         None None))"

definition extract_optional_string :: "yaml_lib \<Rightarrow> yaml \<Rightarrow> string \<Rightarrow> string option fzz_result" where
  "extract_optional_string Y y prop = (case yl_index Y y prop of
     YBadValue \<Rightarrow> Inr None
   | YString item \<Rightarrow>
       if str_trim item = [] then
         Inl (InvalidConfigError
           (''Property '' @ quoted prop @ '' cannot be empty'' @ fenced ''yaml'' Y y) None
           (Some ''Provide a non-empty value''))
       else Inr (Some item)
   | unknown \<Rightarrow>
       Inl (InvalidConfigError
         (''Invalid property '' @ quoted prop @ '' in rule below'' @ [newline]
          @ ''Expected '' @ quoted ''String'' @ '' but got: '' @ get_type unknown @ fenced '''' Y y)
         None (Some type_hint)))"

definition extract_bool :: "yaml_lib \<Rightarrow> yaml \<Rightarrow> string \<Rightarrow> bool" where
  "extract_bool Y y prop = (case yl_index Y y prop of YBoolean item \<Rightarrow> item | _ \<Rightarrow> False)"

section \<open>Lemmas\<close>

lemma read_env_entries_ok:
  "read_env_entries Y prop items vals = Inr m \<Longrightarrow> bt_ok vals \<Longrightarrow>
     bt_ok m \<and> (\<forall>k v. (k, v) \<in> set m \<longrightarrow> (k, v) \<in> set vals \<or> str_trim k \<noteq> [])"
proof (induction items arbitrary: vals)
  case (Cons e items)
  obtain y z where e: "e = (y, z)" by (cases e)
  from Cons.prems(1) obtain name val where step:
      "str_trim name \<noteq> []" "read_env_entries Y prop items (bt_insert name val vals) = Inr m"
    by (auto simp: e split: option.splits if_splits)
  have keys: "k = name \<or> (k, v) \<in> set vals" if "(k, v) \<in> set (bt_insert name val vals)" for k v
    using that by (induction name val vals rule: bt_insert.induct) (auto split: if_splits)
  from Cons.IH [OF step(2) bt_ok_insert [OF Cons.prems(2)]] keys step(1) show ?case by blast
qed simp

text \<open>An environment overlay read from a node is in key order and has no blank name.\<close>

lemma extract_optional_string_map_ok:
  assumes "extract_optional_string_map Y y prop = Inr m"
  shows "bt_ok m \<and> (\<forall>(k, v)\<in>set m. str_trim k \<noteq> [])"
proof (cases "yl_index Y y prop")
  case (YHash items)
  then have read: "read_env_entries Y prop items [] = Inr m"
    using assms by (simp add: extract_optional_string_map_def)
  have "bt_ok ([] :: (string, string) btree)" by (simp add: bt_ok_def)
  with read_env_entries_ok [OF read] show ?thesis by auto
qed (use assms in \<open>simp_all add: extract_optional_string_map_def bt_ok_def\<close>)

lemma extract_optional_string_nonblank:
  "extract_optional_string Y y prop = Inr (Some s) \<Longrightarrow> str_trim s \<noteq> []"
  by (auto simp: extract_optional_string_def split: yaml.splits if_splits)

end
