(* ===== verification/Option_Catalog.thy ===== *)
theory Option_Catalog
  imports Ordered_Map
begin

text \<open>
  The catalog of configuration properties, \<open>src/src/option_catalog.rs\<close>: one table per section
  with the name, default, help text, allowed values and example of every legal property. The
  parser's allowlists, the JSON schema and the starter template are computed from these tables.
\<close>

section \<open>Data\<close>

datatype owner = OwnRoot | OwnOn | OwnExecution | OwnHooks | OwnJob

datatype spec_kind =
  KBool | KInt | KString | KStringList | KDuration | KEnum "string list" | KStringMap

record option_spec =
  spec_name :: string
  spec_owner :: owner
  spec_required :: bool
  spec_default :: "string option"
  spec_help :: string
  spec_values :: "string option"
  spec_example :: "string list"
  spec_kind :: spec_kind

abbreviation option_spec ::
  "string \<Rightarrow> owner \<Rightarrow> bool \<Rightarrow> string option \<Rightarrow> string \<Rightarrow> string option \<Rightarrow> string list \<Rightarrow> spec_kind
   \<Rightarrow> option_spec" where
  "option_spec name own required dflt help vals example kind \<equiv>
     \<lparr>spec_name = name, spec_owner = own, spec_required = required, spec_default = dflt,
      spec_help = help, spec_values = vals, spec_example = example, spec_kind = kind\<rparr>"

definition OUTPUT_VALUES :: "string list" where
  "OUTPUT_VALUES = [''inherit'', ''quiet'', ''capture'', ''show-on-failure'']"

definition BACKEND_VALUES :: "string list" where
  "BACKEND_VALUES = [''native'', ''poll'', ''auto'']"

definition RECOVERY_POLICY_VALUES :: "string list" where
  "RECOVERY_POLICY_VALUES = [''prompt'', ''skip'']"

section \<open>Tables\<close>

definition ON_SPECS :: "option_spec list" where
  \<open>ON_SPECS =
    [option_spec ''change'' OwnOn False
       None
       ''Common change globs applied to every job (inherited, merged first).''
       None
       [''change: "**/*"''] KStringList,
     option_spec ''ignore'' OwnOn False
       None
       ''Common ignore globs; explicit config ignore wins over gitignore.''
       None
       [''ignore: "**/*.log"''] KStringList,
     option_spec ''socket'' OwnOn False
       None
       ''Control socket path; enables the control surface (`fzz control`).''
       None
       [''socket: .tmp/funzzy/control.sock''] KString,
     option_spec ''debounce'' OwnOn False
       (Some ''1s'')
       ''Filesystem batch debounce window.''
       None
       [''debounce: 500ms''] KDuration,
     option_spec ''watch_backend'' OwnOn False
       (Some ''auto'')
       ''Watch backend: native first, then poll when native is unavailable.''
       (Some ''native | poll | auto'')
       [''watch_backend: poll''] (KEnum BACKEND_VALUES),
     option_spec ''poll_interval'' OwnOn False
       (Some ''500ms'')
       ''Poll backend interval (only meaningful with `watch_backend: poll`).''
       None
       [''poll_interval: 200ms''] KDuration,
     option_spec ''respect_gitignore'' OwnOn False
       (Some ''false'')
       ''Respect workspace .gitignore rules.''
       None
       [''respect_gitignore: true''] KBool]\<close>

definition EXECUTION_SPECS :: "option_spec list" where
  \<open>EXECUTION_SPECS =
    [option_spec ''concurrency'' OwnExecution False
       (Some ''machine parallelism'')
       ''Global cap on simultaneously active tasks.''
       None
       [''concurrency: 2''] KInt,
     option_spec ''output'' OwnExecution False
       (Some ''inherit'')
       ''Default output policy for every job.''
       (Some ''inherit | quiet | capture | show-on-failure'')
       [''output: quiet''] (KEnum OUTPUT_VALUES),
     option_spec ''recovery_policy'' OwnExecution False
       (Some ''prompt'')
       ''Recovery approval policy for failed jobs with a recovery command; missing TTY safely skips.''
       (Some ''prompt | skip'')
       [''recovery_policy: prompt''] (KEnum RECOVERY_POLICY_VALUES)]\<close>

definition HOOK_SPECS :: "option_spec list" where
  \<open>HOOK_SPECS =
    [option_spec ''success'' OwnHooks False
       None
       ''Hook command run after a successful generation.''
       None
       [''success: echo ok > .fzz-success''] KString,
     option_spec ''failure'' OwnHooks False
       None
       ''Hook command run after a failed generation.''
       None
       [''failure: echo failed > .fzz-failed''] KString,
     option_spec ''close'' OwnHooks False
       None
       ''Finite hook command run once when a ready watcher closes.''
       None
       [''close: echo closed > .fzz-closed''] KString]\<close>

definition JOB_SPECS :: "option_spec list" where
  \<open>JOB_SPECS =
    [option_spec ''name'' OwnJob True
       None
       ''Stable job identity; also the runtime task name. Must be unique.''
       None
       [''name: reference''] KString,
     option_spec ''run'' OwnJob True
       None
       ''Command(s): a shell string or an argv list. Template variables: {{filepath}}, {{paths}}, {{relative_filepath}}.''
       None
       [''run: ["echo", "{{filepath}}", "{{paths}}"]''] KStringList,
     option_spec ''recovery'' OwnJob False
       None
       ''Optional ordered shell commands offered for one approved recovery after this job fails; declaration never authorizes execution.''
       None
       [''recovery: cargo fmt --all''] KStringList,
     option_spec ''change'' OwnJob False
       None
       ''Globs that trigger this job (appended to on.change).''
       None
       [''change: ["**/*.rs", "**/*.md"]''] KStringList,
     option_spec ''ignore'' OwnJob False
       None
       ''Globs that suppress a match; strongest precedence.''
       None
       [''ignore: ["**/*.log"]''] KStringList,
     option_spec ''run_on_init'' OwnJob False
       (Some ''false'')
       ''Run this job when the watcher starts.''
       None
       [''run_on_init: true''] KBool,
     option_spec ''parallel'' OwnJob False
       None
       ''Named contiguous group; members run concurrently within the concurrency cap.''
       None
       [''parallel: checks''] KString,
     option_spec ''cwd'' OwnJob False
       None
       ''Working directory for this job, relative to the workspace root.''
       None
       [''cwd: scripts''] KString,
     option_spec ''env'' OwnJob False
       None
       ''Per-job environment; values are never echoed or generated.''
       None
       [''env:'', ''  FOO: bar''] KStringMap,
     option_spec ''service'' OwnJob False
       (Some ''false'')
       ''Managed long-running service: started on init, restarted on change, stopped on exit.''
       None
       [''service: true''] KBool,
     option_spec ''output'' OwnJob False
       None
       ''Job output policy override; inherits execution.output when absent.''
       (Some ''inherit | quiet | capture | show-on-failure'')
       [''output: show-on-failure''] (KEnum OUTPUT_VALUES)]\<close>

definition ROOT_SPECS :: "option_spec list" where
  \<open>ROOT_SPECS =
    [option_spec ''on'' OwnRoot False
       None
       ''Shared settings merged into every job.''
       None
       [''on:''] KStringMap,
     option_spec ''execution'' OwnRoot False
       None
       ''Scheduling and output policy.''
       None
       [''execution:''] KStringMap,
     option_spec ''hooks'' OwnRoot False
       None
       ''Generation and watcher lifecycle reactions.''
       None
       [''hooks:''] KStringMap,
     option_spec ''jobs'' OwnRoot True
       None
       ''Ordered list of configured jobs; declaration order and contiguous parallel groups are semantic.''
       None
       [''jobs:''] KStringList]\<close>

section \<open>Lookup\<close>

fun specs_of :: "owner \<Rightarrow> option_spec list" where
  "specs_of OwnOn = ON_SPECS"
| "specs_of OwnExecution = EXECUTION_SPECS"
| "specs_of OwnHooks = HOOK_SPECS"
| "specs_of OwnJob = JOB_SPECS"
| "specs_of OwnRoot = ROOT_SPECS"

definition property_names :: "owner \<Rightarrow> string list" where
  "property_names own = map spec_name (specs_of own)"

definition find_spec :: "string \<Rightarrow> option_spec option" where
  "find_spec name =
     find (\<lambda>s. spec_name s = name)
       (ON_SPECS @ EXECUTION_SPECS @ HOOK_SPECS @ JOB_SPECS @ ROOT_SPECS)"

definition is_optional :: "option_spec \<Rightarrow> bool" where
  "is_optional s \<longleftrightarrow> \<not> spec_required s"

lemmas spec_tables = ON_SPECS_def EXECUTION_SPECS_def HOOK_SPECS_def JOB_SPECS_def ROOT_SPECS_def

lemma property_names_simps [simp]:
  "property_names OwnOn =
     [''change'', ''ignore'', ''socket'', ''debounce'', ''watch_backend'', ''poll_interval'',
      ''respect_gitignore'']"
  "property_names OwnExecution = [''concurrency'', ''output'', ''recovery_policy'']"
  "property_names OwnHooks = [''success'', ''failure'', ''close'']"
  "property_names OwnJob =
     [''name'', ''run'', ''recovery'', ''change'', ''ignore'', ''run_on_init'', ''parallel'', ''cwd'',
      ''env'', ''service'', ''output'']"
  "property_names OwnRoot = [''on'', ''execution'', ''hooks'', ''jobs'']"
  by (simp_all add: property_names_def spec_tables)

lemma specs_owned: "s \<in> set (specs_of own) \<Longrightarrow> spec_owner s = own"
  by (cases own) (auto simp: spec_tables)

text \<open>A lookup by bare name meets the first table that has it: \<open>change\<close> and \<open>ignore\<close> answer with the
  entry of the \<open>on\<close> section, \<open>output\<close> with that of the \<open>execution\<close> section.\<close>

lemma find_spec_owner:
  "map_option spec_owner (find_spec ''change'') = Some OwnOn"
  "map_option spec_owner (find_spec ''ignore'') = Some OwnOn"
  "map_option spec_owner (find_spec ''output'') = Some OwnExecution"
  by (simp_all add: find_spec_def spec_tables)

end
