(* ===== verification/Config_Model.thy ===== *)
theory Config_Model
  imports Yaml_Access Option_Catalog Watch_Backend
begin

text \<open>
  Reading a configuration, \<open>src/src/config.rs\<close>: the legacy list, the grouped \<open>tasks\<close> form and the
  preferred \<open>jobs\<close> form become job values; the policy readers extract the socket, concurrency,
  debounce, backend, gitignore, recovery and hook settings of the same text.

  Every early return is an error value with the message of the source; an index out of bounds is
  the panic \<^const>\<open>None\<close>.
\<close>

section \<open>Sequencing\<close>

text \<open>The \<open>?\<close> operator.\<close>

definition and_then :: "'e + 'a \<Rightarrow> ('a \<Rightarrow> 'e + 'b) \<Rightarrow> 'e + 'b" where
  "and_then r f = (case r of Inl e \<Rightarrow> Inl e | Inr a \<Rightarrow> f a)"

lemma and_then_simps [simp]: "and_then (Inl e) f = Inl e" "and_then (Inr a) f = f a"
  by (simp_all add: and_then_def)

lemma and_then_eq_Inr: "and_then r f = Inr b \<longleftrightarrow> (\<exists>a. r = Inr a \<and> f a = Inr b)"
  by (cases r) auto

lemma and_then_Inr [elim]:
  "and_then r f = Inr b \<Longrightarrow> (\<And>a. r = Inr a \<Longrightarrow> f a = Inr b \<Longrightarrow> thesis) \<Longrightarrow> thesis"
  by (cases r) auto

definition or_default :: "'e + 'a list \<Rightarrow> 'a list" where
  "or_default r = (case r of Inl _ \<Rightarrow> [] | Inr xs \<Rightarrow> xs)"

abbreviation invalid_config :: "string \<Rightarrow> string option \<Rightarrow> fzz_error" where
  "invalid_config msg hint \<equiv> InvalidConfigError msg None hint"

section \<open>Patterns\<close>

fun has_lua :: "string \<Rightarrow> bool" where
  "has_lua pattern =
     (let trimmed = trim_front white_space pattern in trimmed = '':lua'' \<or> starts_with trimmed '':lua '')"

definition ensure_glob_only :: "string list \<Rightarrow> string \<Rightarrow> string list fzz_result" where
  "ensure_glob_only patterns field_name =
     (if list_ex has_lua patterns then
        Inl (invalid_config
          (''Property '' @ quoted field_name @ '' no longer accepts '' @ quoted '':lua''
           @ '' entries. Only glob patterns are supported.'')
          (Some (''Remove '' @ quoted '':lua'' @ '' entries and use plain glob patterns instead.'')))
      else Inr patterns)"

fun merge_patterns :: "string list \<Rightarrow> string list \<Rightarrow> string list" where
  "merge_patterns merged [] = merged"
| "merge_patterns merged (pattern # task) =
     merge_patterns (if pattern \<in> set merged then merged else merged @ [pattern]) task"

record common_rules =
  common_change :: "string list"
  common_ignore :: "string list"
  common_output :: output_policy

definition inherited_patterns :: "common_rules \<Rightarrow> string list" where
  "inherited_patterns common = merge_patterns (common_change common) (common_ignore common)"

section \<open>One job\<close>

definition with_parallel_option :: "string option \<Rightarrow> rules \<Rightarrow> rules" where
  "with_parallel_option grp r = (case grp of Some g \<Rightarrow> with_parallel g r | None \<Rightarrow> r)"

definition legacy_recovery_error :: "string \<Rightarrow> fzz_error" where
  "legacy_recovery_error hint =
     invalid_config (''Property '' @ quoted ''recovery'' @ '' is supported only in preferred V2 jobs'')
       (Some hint)"

definition rule_from :: "yaml_lib \<Rightarrow> yaml \<Rightarrow> rules fzz_result" where
  "rule_from Y y =
     (if yl_index Y y ''recovery'' \<noteq> YBadValue then
        Inl (legacy_recovery_error
          ''Move this task into a `jobs:` configuration before adding recovery.'')
      else
        and_then (extract_string Y y ''name'') (\<lambda>name.
        and_then (extract_list Y y ''run'') (\<lambda>commands.
        and_then (ensure_glob_only (or_default (extract_list Y y ''change'')) ''change'') (\<lambda>watch_patterns.
        and_then (ensure_glob_only (or_default (extract_list Y y ''ignore'')) ''ignore'') (\<lambda>ignore_patterns.
        let run_on_init = extract_bool Y y ''run_on_init'' in
        and_then (extract_optional_string Y y ''parallel'') (\<lambda>grp.
        and_then (extract_optional_string Y y ''cwd'') (\<lambda>cwd.
        and_then (extract_optional_string_map Y y ''env'') (\<lambda>environment.
        Inr (with_parallel_option grp
          (with_execution_context cwd environment
            (rules_new name commands watch_patterns ignore_patterns run_on_init)))))))))))"

fun recovery_list :: "yaml_lib \<Rightarrow> string \<Rightarrow> nat \<Rightarrow> yaml list \<Rightarrow> string list fzz_result" where
  "recovery_list Y name index [] = Inr []"
| "recovery_list Y name index (command # rest) = (case yl_as_str Y command of
     None \<Rightarrow> Inl (invalid_config
       (''Job '' @ quoted name @ '' recovery command '' @ show_nat (index + 1) @ '' must be a string'') None)
   | Some command \<Rightarrow>
       if str_trim command = [] then
         Inl (invalid_config
           (''Job '' @ quoted name @ '' recovery command '' @ show_nat (index + 1) @ '' must be non-empty'') None)
       else and_then (recovery_list Y name (index + 1) rest) (\<lambda>parsed. Inr (command # parsed)))"

definition recovery_commands_from_yaml :: "yaml_lib \<Rightarrow> yaml \<Rightarrow> string \<Rightarrow> string list option fzz_result" where
  "recovery_commands_from_yaml Y y name = (case yl_index Y y ''recovery'' of
     YBadValue \<Rightarrow> Inr None
   | YString command \<Rightarrow>
       if str_trim command = [] then
         Inl (invalid_config (''Job '' @ quoted name @ '' recovery must be a non-empty command'') None)
       else Inr (Some [command])
   | YArray commands \<Rightarrow>
       if commands = [] then
         Inl (invalid_config (''Job '' @ quoted name @ '' recovery must contain at least one command'') None)
       else and_then (recovery_list Y name 0 commands) (\<lambda>parsed. Inr (Some parsed))
   | _ \<Rightarrow>
       Inl (invalid_config
         (''Job '' @ quoted name @ '' recovery must be a command string or ordered string list'') None))"

fun output_of_text :: "string \<Rightarrow> output_policy option" where
  "output_of_text raw =
     (if raw = ''inherit'' then Some Inherit
      else if raw = ''quiet'' then Some output_policy.Quiet
      else if raw = ''capture'' then Some Capture
      else if raw = ''show-on-failure'' then Some ShowOnFailure
      else None)"

text \<open>The first string key of the node that is not in the allowlist, if any.\<close>

fun first_unknown :: "string list \<Rightarrow> (yaml \<times> yaml) list \<Rightarrow> string option" where
  "first_unknown allowed [] = None"
| "first_unknown allowed ((key, _) # properties) = (case key of
     YString k \<Rightarrow> if k \<in> set allowed then first_unknown allowed properties else Some k
   | _ \<Rightarrow> first_unknown allowed properties)"

definition job_allowlist :: "yaml_lib \<Rightarrow> yaml \<Rightarrow> unit fzz_result" where
  "job_allowlist Y y = (case y of
     YHash hash \<Rightarrow>
       (case first_unknown (property_names OwnJob) hash of
          None \<Rightarrow> Inr ()
        | Some key \<Rightarrow>
            Inl (invalid_config
              (''Invalid property '' @ quoted key @ '' in job ''
               @ quoted (case extract_string Y y ''name'' of Inr n \<Rightarrow> n | Inl _ \<Rightarrow> ''?'')
               @ ''. Only '' @ join_with '', '' (property_names OwnJob) @ '' are allowed.'')
              (Some ''Each job needs a unique name and a run command; check the property spelling'')))
   | _ \<Rightarrow> Inr ())"

definition service_from :: "yaml_lib \<Rightarrow> yaml \<Rightarrow> string \<Rightarrow> bool fzz_result" where
  "service_from Y y name = (case yl_index Y y ''service'' of
     YBadValue \<Rightarrow> Inr False
   | YBoolean v \<Rightarrow> Inr v
   | _ \<Rightarrow> Inl (invalid_config
       (''Invalid '' @ quoted ''service'' @ '' value for job '' @ quoted name @ '': must be a boolean'') None))"

definition output_from :: "yaml_lib \<Rightarrow> yaml \<Rightarrow> string \<Rightarrow> common_rules \<Rightarrow> output_policy fzz_result" where
  "output_from Y y name common =
     and_then (extract_optional_string Y y ''output'') (\<lambda>output.
       case output of
         None \<Rightarrow> Inr (common_output common)
       | Some raw \<Rightarrow>
           (case output_of_text raw of
              Some policy \<Rightarrow> Inr policy
            | None \<Rightarrow> Inl (invalid_config
                (''Invalid output policy '' @ quoted raw @ '' for job '' @ quoted name
                 @ '': expected inherit, quiet, capture, or show-on-failure'') None)))"

definition rule_from_with_common :: "yaml_lib \<Rightarrow> yaml \<Rightarrow> common_rules \<Rightarrow> rules fzz_result" where
  "rule_from_with_common Y y common =
     and_then (job_allowlist Y y) (\<lambda>_.
     and_then (extract_string Y y ''name'') (\<lambda>name.
     and_then (extract_list Y y ''run'') (\<lambda>commands.
     let task_change = or_default (extract_list Y y ''change'');
         task_ignore = or_default (extract_list Y y ''ignore'') in
     and_then (ensure_glob_only (merge_patterns (common_change common) task_change) ''change'') (\<lambda>watch_patterns.
     and_then (ensure_glob_only (merge_patterns (common_ignore common) task_ignore) ''ignore'') (\<lambda>ignore_patterns.
     let run_on_init = extract_bool Y y ''run_on_init'' in
     and_then (extract_optional_string Y y ''parallel'') (\<lambda>grp.
     and_then (extract_optional_string Y y ''cwd'') (\<lambda>cwd.
     and_then (extract_optional_string_map Y y ''env'') (\<lambda>environment.
     and_then (recovery_commands_from_yaml Y y name) (\<lambda>recovery.
     and_then (service_from Y y name) (\<lambda>service.
     if service \<and> recovery \<noteq> None then
       Inl (invalid_config (''Job '' @ quoted name @ '' cannot declare recovery when service is true'')
         (Some ''A service has no finite verification boundary; remove `recovery` or `service`.''))
     else
     and_then (output_from Y y name common) (\<lambda>output.
     let rule = with_service service
                  (with_output output
                    (with_inherited_patterns (inherited_patterns common)
                      (with_execution_context cwd environment
                        (rules_new name commands watch_patterns ignore_patterns run_on_init))));
         rule = (case recovery of Some commands \<Rightarrow> with_recovery commands rule | None \<Rightarrow> rule)
     in Inr (with_parallel_option grp rule))))))))))))"

section \<open>Sections\<close>

definition legacy_on_keys :: "string list" where
  "legacy_on_keys = [''concurrency'', ''output'', ''success'', ''failure'', ''close'']"

definition section_allowed :: "yaml_lib \<Rightarrow> yaml \<Rightarrow> owner \<Rightarrow> string list" where
  "section_allowed Y root own =
     property_names own
     @ (if own = OwnOn \<and> yl_index Y root ''tasks'' \<noteq> YBadValue then legacy_on_keys else [])"

definition validate_section :: "yaml_lib \<Rightarrow> yaml \<Rightarrow> string \<Rightarrow> owner \<Rightarrow> unit fzz_result" where
  "validate_section Y root name own =
     (let allowed = section_allowed Y root own in
      case yl_index Y root name of
        YBadValue \<Rightarrow> Inr ()
      | YHash properties \<Rightarrow>
          (case first_unknown allowed properties of
             None \<Rightarrow> Inr ()
           | Some key \<Rightarrow>
               Inl (invalid_config
                 (''Invalid property '' @ quoted (name @ ''.'' @ key) @ ''. Only ''
                  @ join_with '', '' allowed @ '' are allowed.'') None))
      | _ \<Rightarrow> Inl (invalid_config (''Property '' @ quoted name @ '' must be an object'') None))"

definition root_allowed :: "string list" where
  "root_allowed = property_names OwnRoot @ [''tasks'']"

definition validate_v2_sections :: "yaml_lib \<Rightarrow> yaml \<Rightarrow> unit fzz_result" where
  "validate_v2_sections Y root = (case root of
     YHash properties \<Rightarrow>
       (case first_unknown root_allowed properties of
          Some key \<Rightarrow>
            Inl (invalid_config
              (''Invalid property '' @ quoted key @ '' at configuration root. Only ''
               @ join_with '', '' root_allowed @ '' are allowed.'') None)
        | None \<Rightarrow>
            and_then (validate_section Y root ''on'' OwnOn) (\<lambda>_.
            and_then (validate_section Y root ''execution'' OwnExecution) (\<lambda>_.
            validate_section Y root ''hooks'' OwnHooks)))
   | _ \<Rightarrow> Inr ())"

text \<open>The owner of execution policy: \<open>execution\<close>, or \<open>on\<close> for the legacy \<open>tasks\<close> form without it.\<close>

definition policy_section :: "yaml_lib \<Rightarrow> yaml \<Rightarrow> string \<Rightarrow> yaml" where
  "policy_section Y root name =
     (if yl_index Y root name = YBadValue \<and> yl_index Y root ''tasks'' \<noteq> YBadValue
      then yl_index Y root ''on'' else yl_index Y root name)"

definition output_policy_from_root :: "yaml_lib \<Rightarrow> yaml \<Rightarrow> output_policy fzz_result" where
  "output_policy_from_root Y root =
     (let policy = policy_section Y root ''execution'' in
      if policy = YBadValue then Inr Inherit
      else case yl_index Y policy ''output'' of
        YBadValue \<Rightarrow> Inr Inherit
      | YString raw \<Rightarrow>
          (case output_of_text raw of
             Some p \<Rightarrow> Inr p
           | None \<Rightarrow> Inl (invalid_config
               (''Property '' @ quoted ''execution.output'' @ '' has invalid value '' @ quoted raw
                @ '': expected inherit, quiet, capture, or show-on-failure'') None))
      | _ \<Rightarrow> Inl (invalid_config (''Property '' @ quoted ''execution.output'' @ '' must be a string'') None))"

definition recovery_policy_from_root :: "yaml_lib \<Rightarrow> yaml \<Rightarrow> recovery_policy result" where
  "recovery_policy_from_root Y root =
     (let execution = yl_index Y root ''execution'' in
      if execution = YBadValue then Inr Prompt
      else if yl_index Y root ''tasks'' \<noteq> YBadValue \<and> yl_index Y execution ''recovery_policy'' \<noteq> YBadValue then
        Inl (''Property '' @ quoted ''execution.recovery_policy'' @ '' is supported only in preferred V2 jobs'')
      else if \<not> is_hash execution then
        Inl (''Property '' @ quoted ''execution'' @ '' must be an object'')
      else case yl_index Y execution ''recovery_policy'' of
        YBadValue \<Rightarrow> Inr Prompt
      | YString v \<Rightarrow>
          if v = ''prompt'' then Inr Prompt
          else if v = ''skip'' then Inr Skip
          else Inl (''Property '' @ quoted ''execution.recovery_policy'' @ '' has invalid value '' @ quoted v
                    @ '': expected prompt or skip'')
      | _ \<Rightarrow> Inl (''Property '' @ quoted ''execution.recovery_policy'' @ '' must be prompt or skip''))"

section \<open>A grouped configuration\<close>

definition on_hint :: string where
  \<open>on_hint =
     ''Example:'' @ [newline] @ ''on:'' @ [newline] @ ''  change: ["src/**"]'' @ [newline]
     @ ''  ignore: ["**/*.log"]''\<close>

definition jobs_hint :: string where
  \<open>jobs_hint =
     ''Example:'' @ [newline] @ ''on:'' @ [newline] @ ''  change: ["src/**"]'' @ [newline]
     @ ''jobs:'' @ [newline] @ ''  - name: build'' @ [newline] @ ''    run: cargo build''\<close>

definition extract_common_rules :: "yaml_lib \<Rightarrow> yaml \<Rightarrow> common_rules fzz_result" where
  "extract_common_rules Y y = (case y of
     YBadValue \<Rightarrow> Inr \<lparr>common_change = [], common_ignore = [], common_output = Inherit\<rparr>
   | YHash _ \<Rightarrow>
       and_then (ensure_glob_only (or_default (extract_list Y y ''change'')) ''on.change'') (\<lambda>change.
       and_then (ensure_glob_only (or_default (extract_list Y y ''ignore'')) ''on.ignore'') (\<lambda>ignores.
       Inr \<lparr>common_change = change, common_ignore = ignores, common_output = Inherit\<rparr>))
   | _ \<Rightarrow>
       Inl (invalid_config
         (''Configuration file is invalid. '' @ quoted ''on'' @ '' must be a Hash/Object, got: ''
          @ get_type y @ fenced ''yaml'' Y y) (Some on_hint)))"

definition trim_end_s :: "string \<Rightarrow> string" where
  "trim_end_s s = rev (dropWhile (\<lambda>c. c = CHR ''s'') (rev s))"

fun parse_jobs ::
  "yaml_lib \<Rightarrow> string \<Rightarrow> bool \<Rightarrow> common_rules \<Rightarrow> string set \<Rightarrow> yaml list \<Rightarrow> rules list fzz_result" where
  "parse_jobs Y key has_tasks common seen [] = Inr []"
| "parse_jobs Y key has_tasks common seen (task_yaml # rest) =
     (if has_tasks \<and> yl_index Y task_yaml ''recovery'' \<noteq> YBadValue then
        Inl (legacy_recovery_error
          (''Rename '' @ quoted ''tasks'' @ '' to '' @ quoted ''jobs'' @ '' before declaring a recovery.''))
      else
        and_then (rule_from_with_common Y task_yaml common) (\<lambda>rule.
        if rule_name rule \<in> seen then
          Inl (invalid_config
            (''Configuration file is invalid. Duplicate '' @ trim_end_s key @ '' name ''
             @ quoted (rule_name rule))
            (Some ''Each job needs a unique name; rename one of the duplicates''))
        else
          and_then (parse_jobs Y key has_tasks common (insert (rule_name rule) seen) rest) (\<lambda>rs.
          Inr (rule # rs))))"

definition jobs_array :: "yaml_lib \<Rightarrow> yaml \<Rightarrow> string \<Rightarrow> yaml list fzz_result" where
  "jobs_array Y y key = (case yl_index Y y key of
     YArray items \<Rightarrow> Inr items
   | YBadValue \<Rightarrow>
       Inl (invalid_config
         (''Configuration file is invalid. When using the '' @ quoted ''on'' @ '' format, you must provide a ''
          @ quoted key @ '' array'') (Some jobs_hint))
   | YHash _ \<Rightarrow>
       Inl (invalid_config
         (''Configuration file is invalid. '' @ quoted key @ '' must be an ordered list, not a mapping ''
          @ [CHR 0xE2, CHR 0x80, CHR 0x94]
          @ '' Funzzy job order is semantic (barriers and group occurrences derive from declaration order)'')
         (Some jobs_hint))
   | other \<Rightarrow>
       Inl (invalid_config
         (''Configuration file is invalid. '' @ quoted key @ '' must be an Array/List, got: ''
          @ get_type other @ fenced ''yaml'' Y other)
         (Some (''Make sure '' @ quoted ''{}'' @ '' is defined as a list of job objects''))))"

definition parse_hash_format :: "yaml_lib \<Rightarrow> yaml \<Rightarrow> bool \<Rightarrow> rules list fzz_result" where
  "parse_hash_format Y y allow_empty =
     (let has_jobs = (yl_index Y y ''jobs'' \<noteq> YBadValue);
          has_tasks = (yl_index Y y ''tasks'' \<noteq> YBadValue);
          key = (if has_jobs then ''jobs'' else ''tasks'') in
      if has_jobs \<and> has_tasks then
        Inl (invalid_config
          (''Configuration file is invalid: use exactly one of '' @ quoted ''jobs'' @ '' (preferred) or ''
           @ quoted ''tasks'' @ '' (compatibility), not both'') (Some jobs_hint))
      else if has_tasks \<and> yl_index Y (yl_index Y y ''execution'') ''recovery_policy'' \<noteq> YBadValue then
        Inl (invalid_config
          (''Property '' @ quoted ''execution.recovery_policy'' @ '' is supported only in preferred V2 jobs'')
          (Some (''Rename '' @ quoted ''tasks'' @ '' to '' @ quoted ''jobs'' @ '' before configuring recovery policy.'')))
      else
        and_then (jobs_array Y y key) (\<lambda>tasks_array.
        if tasks_array = [] \<and> \<not> allow_empty then
          Inl (invalid_config (''Configuration file is invalid. '' @ quoted key @ '' cannot be empty'')
            (Some ''Add at least one job with a name and run command''))
        else
          and_then (validate_v2_sections Y y) (\<lambda>_.
          and_then (case recovery_policy_from_root Y y of
              Inl e \<Rightarrow> Inl (invalid_config e None) | Inr p \<Rightarrow> Inr p) (\<lambda>_.
          and_then (extract_common_rules Y (yl_index Y y ''on'')) (\<lambda>common.
          and_then (output_policy_from_root Y y) (\<lambda>policy.
          parse_jobs Y key has_tasks (common\<lparr>common_output := policy\<rparr>) {} tasks_array))))))"

section \<open>A whole configuration\<close>

definition nth_opt :: "'a list \<Rightarrow> nat \<Rightarrow> 'a option" where
  "nth_opt xs i = (if i < length xs then Some (xs ! i) else None)"

text \<open>
  The report of a syntax error quotes the marked line and its neighbours. The marker counts from
  one; an index outside of the text's lines (or an underflow at line zero) panics.
\<close>

definition scan_report :: "string \<Rightarrow> scan_error \<Rightarrow> fzz_error option" where
  "scan_report file_content err =
     (let lines = str_lines file_content;
          marker = se_line err;
          line_before = (if 1 < marker then nth_opt lines (marker - 2) else Some []);
          error_line =
            (if length lines < marker
             then (if lines = [] then None else nth_opt lines (length lines - 1))
             else (if marker = 0 then None else nth_opt lines (marker - 1)));
          line_after = (if marker < length lines then nth_opt lines marker else Some [])
      in case (line_before, error_line, line_after) of
           (Some before, Some line, Some after) \<Rightarrow>
             Some (InvalidConfigError
               (''Failed to load configuration at line:'' @ [newline] @ ''| '' @ before @ [newline]
                @ ''|>'' @ line @ [newline] @ ''| '' @ after)
               (Some err)
               (Some ''Check for wrong types, any missing quotes for glob pattern or incorrect identation''))
         | _ \<Rightarrow> None)"

fun parse_items :: "yaml_lib \<Rightarrow> yaml list \<Rightarrow> rules list fzz_result" where
  "parse_items Y [] = Inr []"
| "parse_items Y (item # items) =
     (if is_hash item \<and> yl_index Y item ''tasks'' \<noteq> YBadValue then
        and_then (parse_hash_format Y item True) (\<lambda>group_rules.
        and_then (parse_items Y items) (\<lambda>rs. Inr (group_rules @ rs)))
      else
        and_then (rule_from Y item) (\<lambda>rule.
        and_then (parse_items Y items) (\<lambda>rs. Inr (rule # rs))))"

definition from_documents :: "yaml_lib \<Rightarrow> yaml list \<Rightarrow> rules list fzz_result" where
  "from_documents Y items = (case items of
     [] \<Rightarrow>
       Inl (invalid_config ''Configuration file is invalid! There are no rules to watch''
         (Some ''Make sure to declare at least one rule. Try to run `fzz init` to generate a new configuration from scratch''))
   | root # _ \<Rightarrow>
       (case root of
          YArray items \<Rightarrow> parse_items Y items
        | YHash _ \<Rightarrow> parse_hash_format Y root False
        | other \<Rightarrow>
            Inl (invalid_config
              (''Configuration file is invalid. Expected an Array/List of rules got: '' @ get_type other
               @ fenced ''yaml'' Y other)
              (Some ''Make sure to declare the rules as a list without any root property''))))"

definition from_yaml :: "yaml_lib \<Rightarrow> string \<Rightarrow> rules list fzz_result option" where
  "from_yaml Y file_content = (case yl_load Y file_content of
     Inr items \<Rightarrow> Some (from_documents Y items)
   | Inl err \<Rightarrow> map_option Inl (scan_report file_content err))"

section \<open>Policy readers\<close>

definition first_document :: "yaml_lib \<Rightarrow> string \<Rightarrow> yaml result" where
  "first_document Y content = (case yl_load Y content of
     Inl err \<Rightarrow> Inl (se_text err)
   | Inr [] \<Rightarrow> Inl ''Configuration file is empty''
   | Inr (root # _) \<Rightarrow> Inr root)"

definition must_be_object :: "string \<Rightarrow> string" where
  "must_be_object name = ''Property '' @ quoted name @ '' must be an object''"

definition control_socket_from_yaml :: "yaml_lib \<Rightarrow> string \<Rightarrow> string option result" where
  "control_socket_from_yaml Y content =
     and_then (first_document Y content) (\<lambda>root.
     let on = yl_index Y root ''on'' in
     if on = YBadValue then Inr None
     else if \<not> is_hash on then Inl (must_be_object ''on'')
     else case yl_index Y on ''socket'' of
       YBadValue \<Rightarrow> Inr None
     | YString path \<Rightarrow>
         if str_trim path \<noteq> [] then Inr (Some path)
         else Inl (''Property '' @ quoted ''on.socket'' @ '' cannot be empty'')
     | _ \<Rightarrow> Inl (''Property '' @ quoted ''on.socket'' @ '' must be a string''))"

definition recovery_policy_from_yaml_with_default ::
  "yaml_lib \<Rightarrow> string \<Rightarrow> recovery_policy \<Rightarrow> recovery_policy result" where
  "recovery_policy_from_yaml_with_default Y content dflt =
     and_then (first_document Y content) (\<lambda>root.
     if yl_index Y root ''execution'' = YBadValue
        \<or> yl_index Y (yl_index Y root ''execution'') ''recovery_policy'' = YBadValue
     then Inr dflt
     else recovery_policy_from_root Y root)"

definition recovery_policy_from_yaml :: "yaml_lib \<Rightarrow> string \<Rightarrow> recovery_policy result" where
  "recovery_policy_from_yaml Y content = recovery_policy_from_yaml_with_default Y content Prompt"

text \<open>The \<open>i64\<close> of the YAML integer is positive here, so the cast to \<open>usize\<close> keeps its value.\<close>

definition concurrency_from_yaml :: "yaml_lib \<Rightarrow> string \<Rightarrow> nat option result" where
  "concurrency_from_yaml Y content =
     and_then (first_document Y content) (\<lambda>root.
     let policy = policy_section Y root ''execution'' in
     if policy = YBadValue then Inr None
     else if \<not> is_hash policy then Inl (must_be_object ''execution'')
     else case yl_index Y policy ''concurrency'' of
       YBadValue \<Rightarrow> Inr None
     | YInteger v \<Rightarrow>
         if 0 < v then Inr (Some (nat v))
         else Inl (''Property '' @ quoted ''execution.concurrency''
                   @ '' must be a positive integer (got zero or negative)'')
     | _ \<Rightarrow> Inl (''Property '' @ quoted ''execution.concurrency'' @ '' must be a positive integer''))"

definition strip_suffix :: "string \<Rightarrow> string \<Rightarrow> string option" where
  "strip_suffix s suf =
     (if length suf \<le> length s \<and> drop (length s - length suf) s = suf
      then Some (take (length s - length suf) s) else None)"

definition millis :: "nat \<Rightarrow> duration" where
  "millis n = n * 1000000"

definition split_unit :: "string \<Rightarrow> string \<times> nat" where
  "split_unit raw =
     (case strip_suffix raw ''ms'' of Some stripped \<Rightarrow> (stripped, 1)
      | None \<Rightarrow> (case strip_suffix raw ''s'' of Some stripped \<Rightarrow> (stripped, 1000)
      | None \<Rightarrow> (case strip_suffix raw ''m'' of Some stripped \<Rightarrow> (stripped, 60000)
      | None \<Rightarrow> (raw, 1000))))"

definition parse_debounce :: "string \<Rightarrow> duration option result" where
  "parse_debounce input =
     (let raw = str_trim input;
          (digits, multiplier) = split_unit raw;
          bad = ''invalid '' @ quoted ''on.debounce'' @ '' duration '' @ quoted raw
      in case parse_unsigned (str_trim digits) of
           None \<Rightarrow> Inl (bad @ '': expected <number> with optional ms/s/m suffix (bare number = seconds)'')
         | Some v \<Rightarrow>
             if v = 0 then Inl (bad @ '': must be positive'')
             else if v * multiplier < 2 ^ 64 then Inr (Some (millis (v * multiplier)))
             else Inl (bad @ '': too large''))"

definition debounce_from_yaml :: "yaml_lib \<Rightarrow> string \<Rightarrow> duration option result" where
  "debounce_from_yaml Y content =
     and_then (first_document Y content) (\<lambda>root.
     let on = yl_index Y root ''on'' in
     if on = YBadValue then Inr None
     else if \<not> is_hash on then Inl (must_be_object ''on'')
     else case yl_index Y on ''debounce'' of
       YBadValue \<Rightarrow> Inr None
     | YInteger v \<Rightarrow> parse_debounce (show_int v)
     | YString v \<Rightarrow> parse_debounce v
     | _ \<Rightarrow> Inl (''Property '' @ quoted ''on.debounce'' @ '' must be a duration string or number''))"

definition poll_interval_from :: "yaml_lib \<Rightarrow> yaml \<Rightarrow> duration option result" where
  "poll_interval_from Y on =
     and_then (case yl_index Y on ''poll_interval'' of
         YBadValue \<Rightarrow> Inr None
       | YInteger v \<Rightarrow> Inr (Some (show_int v))
       | YString v \<Rightarrow> Inr (Some v)
       | _ \<Rightarrow> Inl (''Property '' @ quoted ''on.poll_interval'' @ '' must be a duration'')) (\<lambda>interval.
     case interval of
       None \<Rightarrow> Inr None
     | Some raw \<Rightarrow> and_then (parse_debounce raw) (\<lambda>d. Inr (map_option (max (millis 20)) d)))"

definition watch_backend_from_yaml :: "yaml_lib \<Rightarrow> string \<Rightarrow> watch_backend option result" where
  "watch_backend_from_yaml Y content =
     and_then (first_document Y content) (\<lambda>root.
     let on = yl_index Y root ''on'' in
     if on = YBadValue then Inr None
     else if \<not> is_hash on then Inl (must_be_object ''on'')
     else case yl_index Y on ''watch_backend'' of
       YBadValue \<Rightarrow> Inr None
     | YString backend \<Rightarrow>
         and_then (poll_interval_from Y on) (\<lambda>interval.
         and_then (parse_backend (Some backend) interval) (\<lambda>b. Inr (Some b)))
     | _ \<Rightarrow> Inl (''Property '' @ quoted ''on.watch_backend'' @ '' must be a string''))"

definition respect_gitignore_from_yaml :: "yaml_lib \<Rightarrow> string \<Rightarrow> bool result" where
  "respect_gitignore_from_yaml Y content =
     and_then (first_document Y content) (\<lambda>root.
     let on = yl_index Y root ''on'' in
     if on = YBadValue \<or> yl_index Y on ''respect_gitignore'' = YBadValue then Inr False
     else case yl_index Y on ''respect_gitignore'' of
       YBoolean v \<Rightarrow> Inr v
     | _ \<Rightarrow> Inl (''Property '' @ quoted ''on.respect_gitignore'' @ '' must be a boolean''))"

definition read_hook :: "yaml_lib \<Rightarrow> yaml \<Rightarrow> string \<Rightarrow> string option result" where
  "read_hook Y hooks key = (case yl_index Y hooks key of
     YBadValue \<Rightarrow> Inr None
   | YString v \<Rightarrow> Inr (Some v)
   | _ \<Rightarrow> Inl (''Property '' @ quoted (''hooks.'' @ key) @ '' must be a command string''))"

definition generation_hooks_from_yaml :: "yaml_lib \<Rightarrow> string \<Rightarrow> generation_hooks result" where
  "generation_hooks_from_yaml Y content =
     and_then (first_document Y content) (\<lambda>root.
     let hooks = policy_section Y root ''hooks'' in
     if hooks = YBadValue then Inr \<lparr>hook_success = None, hook_failure = None\<rparr>
     else if \<not> is_hash hooks then Inl (must_be_object ''hooks'')
     else
       and_then (read_hook Y hooks ''success'') (\<lambda>success.
       and_then (read_hook Y hooks ''failure'') (\<lambda>failure.
       Inr \<lparr>hook_success = success, hook_failure = failure\<rparr>)))"

definition trigger_templates :: "string list" where
  "trigger_templates =
     [''{{filepath}}'', ''{{absolute_path}}'', ''{{relative_filepath}}'', ''{{relative_path}}'', ''{{paths}}'']"

definition close_hook_from :: "yaml_lib \<Rightarrow> yaml \<Rightarrow> string option result" where
  "close_hook_from Y hooks = (case yl_index Y hooks ''close'' of
     YBadValue \<Rightarrow> Inr None
   | YString v \<Rightarrow>
       if str_trim v = [] then
         Inl (''Property '' @ quoted ''hooks.close'' @ '' must be a non-empty command string'')
       else Inr (Some v)
   | _ \<Rightarrow> Inl (''Property '' @ quoted ''hooks.close'' @ '' must be a command string''))"

definition session_hooks_from_yaml :: "yaml_lib \<Rightarrow> string \<Rightarrow> session_hooks result" where
  "session_hooks_from_yaml Y content =
     and_then (first_document Y content) (\<lambda>root.
     let hooks = policy_section Y root ''hooks'' in
     if hooks = YBadValue then Inr \<lparr>hook_close = None\<rparr>
     else if \<not> is_hash hooks then Inl (must_be_object ''hooks'')
     else
       and_then (close_hook_from Y hooks) (\<lambda>close.
       case close of
         None \<Rightarrow> Inr \<lparr>hook_close = None\<rparr>
       | Some command \<Rightarrow>
           (case find (\<lambda>t. str_contains t command) trigger_templates of
              Some t \<Rightarrow> Inl (''Property '' @ quoted ''hooks.close'' @ '' cannot use '' @ t
                            @ '': close has no trigger path'')
            | None \<Rightarrow> Inr \<lparr>hook_close = Some command\<rparr>)))"

definition output_policy_from_yaml :: "bool \<Rightarrow> yaml_lib \<Rightarrow> string \<Rightarrow> output_policy result" where
  "output_policy_from_yaml colored Y content =
     and_then (first_document Y content) (\<lambda>root.
     case output_policy_from_root Y root of
       Inr p \<Rightarrow> Inr p
     | Inl (InvalidConfigError message _ _) \<Rightarrow> Inl message
     | Inl other \<Rightarrow> Inl (error_text colored other))"

section \<open>Files and arguments\<close>

text \<open>
  The file system as the readers see it: opening a file fails or answers what reading it gives;
  the working directory, directories and canonical paths.
\<close>

record config_os =
  co_open :: "string \<Rightarrow> io_error + (io_error + string)"
  co_current_dir :: "io_error + string"
  co_is_dir :: "string \<Rightarrow> bool"
  co_canonicalize :: "string \<Rightarrow> io_error + string"

definition read_to_string :: "config_os \<Rightarrow> string \<Rightarrow> string result" where
  "read_to_string os filename = (case co_open os filename of
     Inl err \<Rightarrow> Inl (io_text err)
   | Inr (Inl err) \<Rightarrow> Inl (io_text err)
   | Inr (Inr content) \<Rightarrow> Inr content)"

definition control_socket_from_file :: "yaml_lib \<Rightarrow> config_os \<Rightarrow> string \<Rightarrow> string option result" where
  "control_socket_from_file Y os filename = and_then (read_to_string os filename) (control_socket_from_yaml Y)"

definition recovery_policy_from_file :: "yaml_lib \<Rightarrow> config_os \<Rightarrow> string \<Rightarrow> recovery_policy result" where
  "recovery_policy_from_file Y os filename = and_then (read_to_string os filename) (recovery_policy_from_yaml Y)"

definition concurrency_from_file :: "yaml_lib \<Rightarrow> config_os \<Rightarrow> string \<Rightarrow> nat option result" where
  "concurrency_from_file Y os filename = and_then (read_to_string os filename) (concurrency_from_yaml Y)"

definition debounce_from_file :: "yaml_lib \<Rightarrow> config_os \<Rightarrow> string \<Rightarrow> duration option result" where
  "debounce_from_file Y os filename = and_then (read_to_string os filename) (debounce_from_yaml Y)"

definition watch_backend_from_file :: "yaml_lib \<Rightarrow> config_os \<Rightarrow> string \<Rightarrow> watch_backend option result" where
  "watch_backend_from_file Y os filename = and_then (read_to_string os filename) (watch_backend_from_yaml Y)"

definition respect_gitignore_from_file :: "yaml_lib \<Rightarrow> config_os \<Rightarrow> string \<Rightarrow> bool result" where
  "respect_gitignore_from_file Y os filename = and_then (read_to_string os filename) (respect_gitignore_from_yaml Y)"

definition generation_hooks_from_file :: "yaml_lib \<Rightarrow> config_os \<Rightarrow> string \<Rightarrow> generation_hooks result" where
  "generation_hooks_from_file Y os filename = and_then (read_to_string os filename) (generation_hooks_from_yaml Y)"

definition session_hooks_from_file :: "yaml_lib \<Rightarrow> config_os \<Rightarrow> string \<Rightarrow> session_hooks result" where
  "session_hooks_from_file Y os filename = and_then (read_to_string os filename) (session_hooks_from_yaml Y)"

definition from_file :: "yaml_lib \<Rightarrow> config_os \<Rightarrow> string \<Rightarrow> rules list fzz_result option" where
  "from_file Y os filename = (case co_open os filename of
     Inl err \<Rightarrow> Some (Inl (IoConfigError (''Couldn'' @ [quote_char] @ ''t open configuration file: '' @ quoted filename) (Some err)))
   | Inr (Inl err) \<Rightarrow> Some (Inl (IoConfigError (''Couldn'' @ [quote_char] @ ''t read configuration file: '' @ quoted filename) (Some err)))
   | Inr (Inr content) \<Rightarrow> from_yaml Y content)"

definition DEFAULT_FILENAME :: string where
  "DEFAULT_FILENAME = ''.watch.yaml''"

definition from_default_file_config :: "yaml_lib \<Rightarrow> config_os \<Rightarrow> rules list fzz_result option" where
  "from_default_file_config Y os = (case from_file Y os DEFAULT_FILENAME of
     None \<Rightarrow> None
   | Some (Inr rs) \<Rightarrow> Some (Inr rs)
   | Some (Inl err) \<Rightarrow>
       (case from_file Y os (str_replace ''.yaml'' ''.yml'' DEFAULT_FILENAME) of
          None \<Rightarrow> None
        | Some (Inr rs) \<Rightarrow> Some (Inr rs)
        | Some (Inl _) \<Rightarrow> Some (Inl err)))"

text \<open>\<open>Path::to_str\<close> answers for paths that are valid UTF-8.\<close>

definition path_to_str :: "string \<Rightarrow> string option" where
  "path_to_str p = (if valid_utf8 p then Some p else None)"

definition prepare_as_glob_pattern :: "(string \<Rightarrow> string) \<Rightarrow> config_os \<Rightarrow> string \<Rightarrow> string fzz_result" where
  "prepare_as_glob_pattern path_debug os line = (case co_current_dir os of
     Inl err \<Rightarrow> Inl (IoConfigError ''Failed to get current directory'' (Some err))
   | Inr current_dir \<Rightarrow>
       (let full_path =
              (if path_starts_with line ''.'' then
                 (if length line = 1 then path_join current_dir [] else path_join current_dir (drop 2 line))
               else path_join current_dir line)
        in if co_is_dir os full_path then
             (case path_to_str (path_join full_path ''**'') of
                Some v \<Rightarrow> Inr v
              | None \<Rightarrow> Inl (PathPatternError
                  (''Failed to convert path '' @ quoted (path_debug full_path)
                   @ '' to a recursive glob pattern.'') None))
           else
             (case path_to_str full_path of
                Some v \<Rightarrow> Inr v
              | None \<Rightarrow> Inl (PathPatternError
                  (''Failed to convert path '' @ quoted (path_debug full_path) @ '' to string.'') None))))"

definition stdin_hint :: string where
  "stdin_hint =
     ''When using stdin, make sure to provide a list of valid files or directories.'' @ [newline]
     @ ''The output of command `find` is a good example''"

fun extract_lines :: "config_os \<Rightarrow> nat \<Rightarrow> string list \<Rightarrow> string list fzz_result option" where
  "extract_lines os line_number [] = Some (Inr [])"
| "extract_lines os line_number (pathline # rest) = (case co_canonicalize os pathline of
     Inr path \<Rightarrow>
       (case path_to_str path of
          None \<Rightarrow> None
        | Some p \<Rightarrow> map_option (\<lambda>r. and_then r (\<lambda>ps. Inr (p # ps))) (extract_lines os (line_number + 1) rest))
   | Inl err \<Rightarrow>
       Some (Inl (PathError
         (''Unknown path '' @ quoted pathline @ '' at line '' @ show_nat (line_number + 1))
         (Some (io_text err)) (Some stdin_hint))))"

definition extract_paths :: "config_os \<Rightarrow> string \<Rightarrow> string list fzz_result option" where
  "extract_paths os stdinput = extract_lines os 0 (str_lines stdinput)"

fun prepare_all :: "(string \<Rightarrow> string) \<Rightarrow> config_os \<Rightarrow> string list \<Rightarrow> string list fzz_result" where
  "prepare_all path_debug os [] = Inr []"
| "prepare_all path_debug os (p # ps) =
     and_then (prepare_as_glob_pattern path_debug os p) (\<lambda>q.
     and_then (prepare_all path_debug os ps) (\<lambda>qs. Inr (q # qs)))"

definition rules_from_argv ::
  "(string \<Rightarrow> string) \<Rightarrow> config_os \<Rightarrow> string list \<Rightarrow> string list \<Rightarrow> rules list fzz_result" where
  "rules_from_argv path_debug os patterns argv =
     and_then (prepare_all path_debug os patterns) (\<lambda>watches.
     Inr [from_argv ''unnamed'' argv watches [] True])"

section \<open>Presentation\<close>

definition render_scalar_or_list :: "string \<Rightarrow> string list \<Rightarrow> string" where
  "render_scalar_or_list prop vals =
     (if length vals = 1 then prop @ '': '' @ hd vals
      else prop @ '':'' @ [newline] @ join_with [newline] (map (\<lambda>v. ''  - '' @ v) vals))"

definition rule_as_yaml :: "rules \<Rightarrow> string" where
  "rule_as_yaml rule = join_with [newline]
     ([''name: '' @ rule_name rule, render_scalar_or_list ''run'' (commands_of rule)]
      @ (case rule_recovery rule of Some r \<Rightarrow> [render_scalar_or_list ''recovery'' r] | None \<Rightarrow> [])
      @ (if rule_watch_patterns rule = [] then []
         else [render_scalar_or_list ''change'' (rule_watch_patterns rule)])
      @ (if rule_ignore_patterns rule = [] then []
         else [render_scalar_or_list ''ignore'' (rule_ignore_patterns rule)])
      @ (if rule_run_on_init rule then [''run_on_init: true''] else []))"

definition format_rules :: "rules list \<Rightarrow> string" where
  "format_rules rs = concat (map (\<lambda>r. rule_as_yaml r @ [newline]) rs)"

end
