(* ===== verification/Reload_Model.thy ===== *)
theory Reload_Model
  imports Watch_Loop Config_Model Config_Lifecycle Shutdown_Model
begin

text \<open>
  Live reload of the configuration: the decision on a candidate (\<open>src/src/reload.rs\<close>), the
  transaction over the shared configuration, the worker, the backend and the control socket
  (\<open>src/src/reload_coordinator.rs\<close>, the socket handoff of \<open>watch_loop.rs\<close> and the binding of
  \<open>control.rs\<close>), and the handler of a batch of file events (\<open>src/src/reload_session.rs\<close>).

  One batch is one function: the reload thread is the only writer of what it changes. The answers it
  receives from the backend, the worker, the file system and the clock are fields of \<open>reload_input\<close>;
  a panic is \<^const>\<open>None\<close>.
\<close>

section \<open>Validation\<close>

datatype validation_gate = Syntactic | Schema | Semantic | Operational

record config_error =
  ce_gate :: validation_gate
  ce_reason :: string

record policy_defaults =
  pd_concurrency :: nat
  pd_debounce :: duration
  pd_backend :: watch_backend
  pd_gitignore :: bool
  pd_recovery_policy :: recovery_policy
  pd_hooks :: generation_hooks
  pd_session_hooks :: session_hooks

record reload_lib =
  lb_yaml :: yaml_lib
  lb_env :: watch_env
  lb_hash :: hash_env
  lb_colored :: bool

definition gate_error :: "validation_gate \<Rightarrow> string + 'a \<Rightarrow> config_error + 'a" where
  "gate_error g r = (case r of Inl reason \<Rightarrow> Inl \<lparr>ce_gate = g, ce_reason = reason\<rparr> | Inr a \<Rightarrow> Inr a)"

definition unwrap_or :: "'a \<Rightarrow> 'a option \<Rightarrow> 'a" where
  "unwrap_or dflt x = (case x of Some a \<Rightarrow> a | None \<Rightarrow> dflt)"

definition candidate_config ::
  "reload_lib \<Rightarrow> string \<Rightarrow> string \<Rightarrow> policy_defaults \<Rightarrow> rules list \<Rightarrow> config_error + runtime_config" where
  "candidate_config L content root dflt rs =
     (let Y = lb_yaml L in
      and_then (gate_error Semantic (validate_rules (we_glob (lb_env L)) rs)) (\<lambda>_.
      and_then (gate_error Semantic (concurrency_from_yaml Y content)) (\<lambda>concurrency.
      and_then (gate_error Semantic (debounce_from_yaml Y content)) (\<lambda>debounce.
      and_then (gate_error Semantic (watch_backend_from_yaml Y content)) (\<lambda>backend.
      and_then (gate_error Semantic (respect_gitignore_from_yaml Y content)) (\<lambda>respect.
      and_then (gate_error Semantic
        (recovery_policy_from_yaml_with_default Y content (pd_recovery_policy dflt))) (\<lambda>policy.
      and_then (gate_error Semantic (generation_hooks_from_yaml Y content)) (\<lambda>hooks.
      and_then (gate_error Semantic (session_hooks_from_yaml Y content)) (\<lambda>session.
      and_then (gate_error Semantic (control_socket_from_yaml Y content)) (\<lambda>socket.
      Inr (capture root rs (unwrap_or (pd_concurrency dflt) concurrency)
             (unwrap_or (pd_debounce dflt) debounce) (unwrap_or (pd_backend dflt) backend)
             respect policy hooks session socket)))))))))))"

definition validate_candidate ::
  "reload_lib \<Rightarrow> string \<Rightarrow> string \<Rightarrow> policy_defaults \<Rightarrow> (config_error + runtime_config) option" where
  "validate_candidate L content root dflt = (case from_yaml (lb_yaml L) content of
     None \<Rightarrow> None
   | Some (Inl err) \<Rightarrow> Some (Inl \<lparr>ce_gate = Syntactic, ce_reason = error_text (lb_colored L) err\<rparr>)
   | Some (Inr rs) \<Rightarrow> Some (candidate_config L content root dflt rs))"

datatype reload_decision = Commit config_revision | Reload_NoOp | Fatal config_error

definition decide ::
  "reload_lib \<Rightarrow> revision_tracker \<Rightarrow> string \<Rightarrow> string \<Rightarrow> policy_defaults
   \<Rightarrow> (reload_decision \<times> revision_tracker) option" where
  "decide L tracker content root dflt = (case validate_candidate L content root dflt of
     None \<Rightarrow> None
   | Some (Inl err) \<Rightarrow> Some (Fatal err, tracker)
   | Some (Inr config) \<Rightarrow>
       (case tracker_observe (lb_hash L) tracker config of
          (New revision, t) \<Rightarrow> Some (Commit revision, t)
        | (RevNoOp, t) \<Rightarrow> Some (Reload_NoOp, t)))"

record root_diff =
  added_roots :: "string list"
  removed_roots :: "string list"

definition diff_roots :: "string list \<Rightarrow> string list \<Rightarrow> root_diff" where
  "diff_roots old_roots new_roots =
     \<lparr>added_roots = filter (\<lambda>r. r \<notin> set old_roots) new_roots,
      removed_roots = filter (\<lambda>r. r \<notin> set new_roots) old_roots\<rparr>"

section \<open>Control sockets\<close>

text \<open>
  A server is known by the path it is bound to. The system answers whether directories can be made,
  whether something exists or listens at a path, and whether removing, binding and setting the mode
  succeed.
\<close>

record socket_os =
  so_create_dirs :: "string \<Rightarrow> unit result"
  so_exists :: "string \<Rightarrow> bool"
  so_connects :: "string \<Rightarrow> bool"
  so_remove :: "string \<Rightarrow> unit result"
  so_bind :: "string \<Rightarrow> unit result"
  so_restrict :: "string \<Rightarrow> unit result"
  so_nonblocking :: "unit result"
  so_parent :: "string \<Rightarrow> string option"

definition prepare_socket_path :: "socket_os \<Rightarrow> string \<Rightarrow> unit result" where
  "prepare_socket_path os path =
     and_then (case so_parent os path of
         Some parent \<Rightarrow> if parent \<noteq> [] then so_create_dirs os parent else Inr ()
       | None \<Rightarrow> Inr ()) (\<lambda>_.
     if \<not> so_exists os path then Inr ()
     else if so_connects os path then Inl (''control socket is already in use: '' @ path)
     else so_remove os path)"

text \<open>\<open>ControlServer::bind\<close> up to the start of its thread; \<open>valid\<close> is the answer of \<open>ControlApi::validate\<close>.\<close>

definition server_bind :: "socket_os \<Rightarrow> unit result \<Rightarrow> string \<Rightarrow> string result" where
  "server_bind os valid path =
     and_then valid (\<lambda>_.
     and_then (prepare_socket_path os path) (\<lambda>_.
     and_then (so_bind os path) (\<lambda>_.
     and_then (so_restrict os path) (\<lambda>_.
     and_then (so_nonblocking os) (\<lambda>_. Inr path)))))"

record socket_strategy =
  st_server :: "string option"
  st_old_server :: "string option"
  st_dropped :: "string list"

definition prepare_socket_swap ::
  "socket_os \<Rightarrow> unit result \<Rightarrow> string \<Rightarrow> socket_strategy \<Rightarrow> unit result \<times> socket_strategy" where
  "prepare_socket_swap os valid new_path s = (case server_bind os valid new_path of
     Inl err \<Rightarrow> (Inl err, s)
   | Inr server \<Rightarrow>
       (Inr (), s\<lparr>st_server := Some server, st_old_server := st_server s,
                  st_dropped := st_dropped s @ (case st_old_server s of Some p \<Rightarrow> [p] | None \<Rightarrow> [])\<rparr>))"

definition retire_socket_swap :: "socket_strategy \<Rightarrow> socket_strategy" where
  "retire_socket_swap s = (case st_old_server s of
     Some old \<Rightarrow> s\<lparr>st_old_server := None, st_dropped := st_dropped s @ [old]\<rparr>
   | None \<Rightarrow> s)"

section \<open>The coordinator\<close>

record 'w reload =
  rl_session :: "'w session"
  rl_worker :: bool
  rl_publisher :: "swap_channel option"
  rl_swapper :: bool
  rl_strategy :: socket_strategy
  rl_socket_pending :: bool
  rl_pending_path :: "string option"
  rl_active_socket :: "string option"
  rl_lifecycle :: "unit config_lifecycle"
  rl_tracker :: revision_tracker
  rl_shutdown :: shutdown_state
  rl_baselines :: "string \<rightharpoonup> nat"
  rl_published :: "string list list"
  rl_printed :: "string list"

definition set_active_socket :: "string option \<Rightarrow> 'w reload \<Rightarrow> 'w reload" where
  "set_active_socket path s = s\<lparr>rl_active_socket := path\<rparr>"

definition socket_paths_to_cleanup :: "'w reload \<Rightarrow> string list" where
  "socket_paths_to_cleanup s =
     (let paths = (case rl_active_socket s of Some p \<Rightarrow> [p] | None \<Rightarrow> []) in
      case rl_pending_path s of
        Some pending \<Rightarrow>
          if list_ex (\<lambda>p. path_components p = path_components pending) paths then paths else paths @ [pending]
      | None \<Rightarrow> paths)"

definition current_roots :: "watch_env \<Rightarrow> watches \<Rightarrow> string list" where
  "current_roots env wt = (case paths_to_watch env wt of Some ps \<Rightarrow> ps | None \<Rightarrow> [])"

record reload_transaction =
  tx_revision :: config_revision
  tx_candidate :: watches
  tx_added_roots :: "string list"
  tx_removed_roots :: "string list"
  tx_old_services :: "(string \<times> string) list"
  tx_new_services :: "(string \<times> string) list"
  tx_candidate_socket :: "string option"

definition services_of :: "hash_env \<Rightarrow> watches \<Rightarrow> string option \<Rightarrow> (string \<times> string) list" where
  "services_of h wt socket =
     services h (capture (wt_root wt) (wt_rules wt) (wt_concurrency wt) (wt_debounce wt) (wt_backend wt)
       (wt_respect_gitignore wt) (wt_recovery_policy wt) (wt_hooks wt) (wt_session_hooks wt) socket)"

definition say :: "string \<Rightarrow> 'w reload \<Rightarrow> 'w reload" where
  "say msg s = s\<lparr>rl_printed := rl_printed s @ [msg]\<rparr>"

definition publish ::
  "string list \<Rightarrow> string \<Rightarrow> unit result option \<Rightarrow> 'w reload \<Rightarrow> unit result \<times> 'w reload" where
  "publish roots notice ack s = (case rl_publisher s of
     None \<Rightarrow> (Inr (), say notice s)
   | Some channel \<Rightarrow>
       (publish_swap channel ack, if channel = Connected then s\<lparr>rl_published := rl_published s @ [roots]\<rparr> else s))"

fun add_missing :: "string list \<Rightarrow> string list \<Rightarrow> string list" where
  "add_missing roots [] = roots"
| "add_missing roots (a # as) = add_missing (if a \<in> set roots then roots else roots @ [a]) as"

definition transaction_of ::
  "reload_lib \<Rightarrow> config_revision \<Rightarrow> watches \<Rightarrow> string option \<Rightarrow> watches \<Rightarrow> reload_transaction" where
  "transaction_of L revision candidate candidate_socket wt =
     (let diff = diff_roots (current_roots (lb_env L) wt) (current_roots (lb_env L) candidate)
      in \<lparr>tx_revision = revision, tx_candidate = candidate, tx_added_roots = added_roots diff,
          tx_removed_roots = removed_roots diff,
          tx_old_services = services_of (lb_hash L) wt None,
          tx_new_services = services_of (lb_hash L) candidate candidate_socket,
          tx_candidate_socket = candidate_socket\<rparr>)"

definition preparing_notice :: "string list \<Rightarrow> string" where
  "preparing_notice added =
     ''backend without live root swap; preparing '' @ show_nat (length added) @ '' added root(s)''"

definition begin_reload ::
  "reload_lib \<Rightarrow> unit result option \<Rightarrow> config_revision \<Rightarrow> watches \<Rightarrow> string option \<Rightarrow> 'w reload
   \<Rightarrow> reload_transaction result \<times> 'w reload" where
  "begin_reload L ack revision candidate candidate_socket s =
     (let wt = ss_watches (rl_session s);
          tx = transaction_of L revision candidate candidate_socket wt;
          added = tx_added_roots tx
      in if added = [] then (Inr tx, s)
         else
           (let (r, s) = publish (add_missing (current_roots (lb_env L) wt) added) (preparing_notice added) ack s
            in (and_then r (\<lambda>_. Inr tx), s)))"

definition prepare_socket ::
  "socket_os \<Rightarrow> unit result \<Rightarrow> string \<Rightarrow> 'w reload \<Rightarrow> unit result \<times> 'w reload" where
  "prepare_socket os valid new_path s =
     (if rl_swapper s then
        (case prepare_socket_swap os valid new_path (rl_strategy s) of
           (Inl err, st) \<Rightarrow> (Inl err, s\<lparr>rl_strategy := st\<rparr>)
         | (Inr _, st) \<Rightarrow>
             (Inr (), (say (''Control socket rebinding to '' @ new_path @ '' (old socket retired after commit).'') s)
                        \<lparr>rl_strategy := st, rl_socket_pending := True, rl_pending_path := Some new_path\<rparr>))
      else (Inl ''control socket rebind requested but no swapper installed'', s))"

definition retire_socket :: "'w reload \<Rightarrow> 'w reload" where
  "retire_socket s =
     (if rl_socket_pending s then
        s\<lparr>rl_strategy := (if rl_swapper s then retire_socket_swap (rl_strategy s) else rl_strategy s),
          rl_socket_pending := False, rl_pending_path := None\<rparr>
      else s)"

text \<open>
  The hash maps of the service sets hold the last signature of a name; the order in which the names
  to stop leave the map is not specified and is the function \<open>order\<close>.
\<close>

definition signature_map :: "(string \<times> string) list \<Rightarrow> string \<rightharpoonup> string" where
  "signature_map specs = map_of (rev specs)"

definition stop_names :: "(string list \<Rightarrow> string list) \<Rightarrow> reload_transaction \<Rightarrow> string list" where
  "stop_names order tx =
     (let old = signature_map (tx_old_services tx); new = signature_map (tx_new_services tx)
      in order (filter (\<lambda>n. new n \<noteq> old n) (remdups (map fst (tx_old_services tx)))))"

definition names_to_start :: "string list \<Rightarrow> reload_transaction \<Rightarrow> string list" where
  "names_to_start still_running tx =
     (let old = signature_map (tx_old_services tx)
      in map fst (filter (\<lambda>(name, _). name \<notin> set still_running)
           (filter (\<lambda>(name, signature). old name \<noteq> Some signature) (tx_new_services tx))))"

definition service_plan :: "string list \<Rightarrow> watches \<Rightarrow> run_plan" where
  "service_plan to_start candidate =
     from_rules (filter (\<lambda>r. rule_service r \<and> rule_name r \<in> set to_start) (wt_rules candidate))"

record reload_input =
  ri_order :: "string list \<Rightarrow> string list"
  ri_channel :: nat
  ri_still_running :: "string list result"
  ri_ack_prepare :: "unit result option"
  ri_ack_retire :: "unit result option"
  ri_socket_os :: socket_os
  ri_api_valid :: "unit result"
  ri_modified :: "string \<Rightarrow> nat option"
  ri_read :: "string \<Rightarrow> string result"
  ri_canonical :: "string \<Rightarrow> string option"
  ri_truncate :: "unit result"
  ri_now :: nat
  ri_later :: nat

definition reconcile ::
  "(nat \<Rightarrow> 'w \<Rightarrow> 'w) \<Rightarrow> reload_input \<Rightarrow> reload_transaction \<Rightarrow> 'w session \<Rightarrow> 'w session" where
  "reconcile token I tx ss =
     (case send_reconcile token (stop_names (ri_order I) tx) (ri_channel I) (ss_worker ss) (ss_consumer ss) of
        Inl _ \<Rightarrow> ss
      | Inr c \<Rightarrow>
          (let ss = ss\<lparr>ss_consumer := c\<rparr> in
           case ri_still_running I of
             Inl _ \<Rightarrow> ss
           | Inr still_running \<Rightarrow>
               (let to_start = names_to_start still_running tx in
                if to_start = [] then ss
                else
                  (let (_, wk, c) = start_services token (service_plan to_start (tx_candidate tx)) (ss_worker ss) (ss_consumer ss)
                   in ss\<lparr>ss_worker := wk, ss_consumer := c\<rparr>))))"

definition commit_reload ::
  "(nat \<Rightarrow> 'w \<Rightarrow> 'w) \<Rightarrow> reload_input \<Rightarrow> reload_transaction \<Rightarrow> 'w reload \<Rightarrow> 'w reload option" where
  "commit_reload token I tx s =
     (let candidate = tx_candidate tx;
          ss = (rl_session s)\<lparr>ss_watches := candidate\<rparr>
      in if \<not> rl_worker s then Some (s\<lparr>rl_session := ss\<rparr>)
         else case set_concurrency (wt_concurrency candidate) (set_revision (tx_revision tx) (ss_worker ss)) of
           None \<Rightarrow> None
         | Some wk \<Rightarrow>
             (let wk = set_recovery_policy (wt_recovery_policy candidate) (set_hooks (wt_hooks candidate) wk)
              in Some (s\<lparr>rl_session := reconcile token I tx (ss\<lparr>ss_worker := wk\<rparr>)\<rparr>)))"

definition retiring_notice :: "string list \<Rightarrow> string" where
  "retiring_notice removed =
     ''backend without live root swap; retiring '' @ show_nat (length removed) @ '' obsolete root(s)''"

definition retire_roots ::
  "watch_env \<Rightarrow> unit result option \<Rightarrow> reload_transaction \<Rightarrow> 'w reload \<Rightarrow> unit result \<times> 'w reload" where
  "retire_roots env ack tx s =
     (if tx_removed_roots tx = [] then (Inr (), s)
      else publish (current_roots env (ss_watches (rl_session s))) (retiring_notice (tx_removed_roots tx)) ack s)"

section \<open>The session\<close>

record reload_settings =
  rs_config_paths :: "string list"
  rs_truncate :: bool
  rs_current_socket :: "string option"
  rs_root :: string
  rs_defaults :: policy_defaults

definition parent_dirs :: "(string \<Rightarrow> string option) \<Rightarrow> string list \<Rightarrow> string list" where
  "parent_dirs parent paths =
     map path_text (remdups_adj (sort (map path_components
       (concat (map (\<lambda>p. case parent p of Some d \<Rightarrow> if d \<noteq> [] then [d] else [] | None \<Rightarrow> []) paths)))))"

definition changed_config_path ::
  "(string \<Rightarrow> string option) \<Rightarrow> file_event list \<Rightarrow> string list \<Rightarrow> string" where
  "changed_config_path canonical events config_paths =
     unwrap_or [] (find (\<lambda>path. list_ex (\<lambda>candidate.
         path = candidate \<or> strip_suffix path candidate \<noteq> None \<or> canonical path = Some candidate) config_paths)
       (map fe_path events))"

definition fatal_reload :: "nat \<Rightarrow> string \<Rightarrow> 'w reload \<Rightarrow> 'w reload" where
  "fatal_reload now reason s =
     (let current = ss_watches (rl_session s);
          s = say (''Fatal configuration error; terminating watcher.'' @ [newline] @ ''Workspace: '' @ wt_root current
                   @ [newline] @ ''Reason: '' @ reason) s
      in s\<lparr>rl_lifecycle := snd (snd (lifecycle_invalid now (wt_revision current) reason (rl_lifecycle s))),
           rl_shutdown := snd (request_claim (Reason_FatalConfig reason 1)
                            (set_cleanup_paths (socket_paths_to_cleanup s) (rl_shutdown s)))\<rparr>)"

text \<open>
  The candidate's watch configuration, built from the same text a second time.
\<close>

definition build_watches ::
  "reload_lib \<Rightarrow> string \<Rightarrow> string \<Rightarrow> policy_defaults \<Rightarrow> config_revision \<Rightarrow> rules list \<Rightarrow> watches option result" where
  "build_watches L content root dflt revision rs =
     (let Y = lb_yaml L in
      and_then (validate_rules (we_glob (lb_env L)) rs) (\<lambda>_.
      and_then (concurrency_from_yaml Y content) (\<lambda>concurrency.
      and_then (debounce_from_yaml Y content) (\<lambda>debounce.
      and_then (watch_backend_from_yaml Y content) (\<lambda>backend.
      and_then (respect_gitignore_from_yaml Y content) (\<lambda>respect.
      and_then (recovery_policy_from_yaml_with_default Y content (pd_recovery_policy dflt)) (\<lambda>policy.
      and_then (generation_hooks_from_yaml Y content) (\<lambda>hooks.
      and_then (session_hooks_from_yaml Y content) (\<lambda>session.
      Inr (map_option (\<lambda>wt.
             watches_with_revision revision (with_session_hooks session (watches_with_hooks hooks
               (watches_with_recovery_policy policy (with_gitignore (lb_env L) respect
                 (with_backend (unwrap_or (pd_backend dflt) backend)
                   (with_debounce (unwrap_or (pd_debounce dflt) debounce) wt)))))))
             (with_root_and_concurrency rs root (unwrap_or (pd_concurrency dflt) concurrency))))))))))))"

definition build_watches_from_content ::
  "reload_lib \<Rightarrow> string \<Rightarrow> string \<Rightarrow> policy_defaults \<Rightarrow> config_revision \<Rightarrow> watches result option" where
  "build_watches_from_content L content root dflt revision = (case from_yaml (lb_yaml L) content of
     None \<Rightarrow> None
   | Some (Inl err) \<Rightarrow> Some (Inl (error_text (lb_colored L) err))
   | Some (Inr rs) \<Rightarrow>
       (case build_watches L content root dflt revision rs of
          Inl err \<Rightarrow> Some (Inl err)
        | Inr None \<Rightarrow> None
        | Inr (Some wt) \<Rightarrow> Some (Inr wt)))"

definition socket_changed :: "string option \<Rightarrow> string option \<Rightarrow> bool" where
  "socket_changed current candidate = (case (current, candidate) of
     (Some a, Some b) \<Rightarrow> path_components a \<noteq> path_components b
   | (None, Some _) \<Rightarrow> True
   | (Some _, None) \<Rightarrow> True
   | (None, None) \<Rightarrow> False)"

text \<open>After the commit: the close hook, the log, the obsolete roots and the old socket, the notice.\<close>

definition truncate_log :: "reload_settings \<Rightarrow> reload_input \<Rightarrow> 'w reload \<Rightarrow> 'w reload" where
  "truncate_log S I s =
     (if rs_truncate S
      then say (case ri_truncate I of
          Inr _ \<Rightarrow> ''Log file truncated before reloading configuration.''
        | Inl err \<Rightarrow> ''Failed to truncate log file: '' @ err) s
      else s)"

definition warn_retire :: "unit result \<Rightarrow> 'w reload \<Rightarrow> 'w reload" where
  "warn_retire r s = (case r of Inl err \<Rightarrow> say (''reload retire warning: '' @ err) s | Inr _ \<Rightarrow> s)"

definition cleanup_sockets :: "'w reload \<Rightarrow> 'w reload" where
  "cleanup_sockets s = s\<lparr>rl_shutdown := set_cleanup_paths (socket_paths_to_cleanup s) (rl_shutdown s)\<rparr>"

definition announce :: "nat \<Rightarrow> config_revision \<Rightarrow> 'w reload \<Rightarrow> 'w reload" where
  "announce now revision s =
     (let s = say (''Config change is valid; hot-reloading to revision '' @ show_nat (rev_number revision) @ ''.'') s
      in s\<lparr>rl_lifecycle := snd (snd (reloaded now revision (rl_lifecycle s)))\<rparr>)"

definition finish_reload ::
  "reload_lib \<Rightarrow> reload_settings \<Rightarrow> reload_input \<Rightarrow> reload_transaction \<Rightarrow> 'w reload \<Rightarrow> 'w reload" where
  "finish_reload L S I tx s =
     (let s = truncate_log S I (s\<lparr>rl_shutdown := update_hooks (wt_session_hooks (tx_candidate tx)) (rl_shutdown s)\<rparr>);
          (r, s) = retire_roots (lb_env L) (ri_ack_retire I) tx s
      in announce (ri_later I) (tx_revision tx) (cleanup_sockets (retire_socket (warn_retire r s))))"

definition commit_candidate ::
  "reload_lib \<Rightarrow> (nat \<Rightarrow> 'w \<Rightarrow> 'w) \<Rightarrow> reload_settings \<Rightarrow> reload_input \<Rightarrow> config_revision \<Rightarrow> watches
   \<Rightarrow> string option \<Rightarrow> 'w reload \<Rightarrow> 'w reload option" where
  "commit_candidate L token S I revision candidate candidate_socket s =
     (let (bound, s) =
            (case candidate_socket of
               Some new_path \<Rightarrow>
                 if socket_changed (rs_current_socket S) candidate_socket
                 then prepare_socket (ri_socket_os I) (ri_api_valid I) new_path s else (Inr (), s)
             | None \<Rightarrow> (Inr (), s))
      in case bound of
           Inl err \<Rightarrow> Some (fatal_reload (ri_later I) (''control socket rebind failed: '' @ err) s)
         | Inr _ \<Rightarrow>
             (case begin_reload L (ri_ack_prepare I) revision candidate candidate_socket s of
                (Inl err, s) \<Rightarrow> Some (fatal_reload (ri_later I) (''reload prepare failed: '' @ err) s)
              | (Inr tx, s) \<Rightarrow> map_option (finish_reload L S I tx) (commit_reload token I tx s)))"

fun gate_label :: "validation_gate \<Rightarrow> string" where
  "gate_label Syntactic = ''syntax''"
| "gate_label Schema = ''schema''"
| "gate_label Semantic = ''semantics''"
| "gate_label Operational = ''operational''"

text \<open>What a readable candidate does.\<close>

definition handle_candidate ::
  "reload_lib \<Rightarrow> (nat \<Rightarrow> 'w \<Rightarrow> 'w) \<Rightarrow> reload_settings \<Rightarrow> reload_input \<Rightarrow> string \<Rightarrow> 'w reload \<Rightarrow> 'w reload option" where
  "handle_candidate L token S I content s =
     (let (candidate_socket, s) =
            (case control_socket_from_yaml (lb_yaml L) content of
               Inr path \<Rightarrow> (path, s)
             | Inl err \<Rightarrow> (None, say (''Cannot read socket from candidate: '' @ err) s))
      in case decide L (rl_tracker s) content (rs_root S) (rs_defaults S) of
           None \<Rightarrow> None
         | Some (decision, tracker) \<Rightarrow>
             (let s = s\<lparr>rl_tracker := tracker\<rparr> in
              case decision of
                Reload_NoOp \<Rightarrow> Some (say ''Config save has no semantic change; nothing to reload.'' s)
              | Fatal err \<Rightarrow>
                  Some (fatal_reload (ri_later I)
                    (''invalid config ('' @ gate_label (ce_gate err) @ ''): '' @ ce_reason err) s)
              | Commit revision \<Rightarrow>
                  (let s = s\<lparr>rl_lifecycle := snd (snd (reloading (ri_now I) (Some revision) (rl_lifecycle s)))\<rparr> in
                   case build_watches_from_content L content (rs_root S) (rs_defaults S) revision of
                     None \<Rightarrow> None
                   | Some (Inl err) \<Rightarrow> Some (fatal_reload (ri_later I) err s)
                   | Some (Inr candidate) \<Rightarrow>
                       commit_candidate L token S I revision candidate candidate_socket s)))"

definition really_modified :: "nat option \<Rightarrow> nat option \<Rightarrow> bool" where
  "really_modified current baseline = (case (current, baseline) of
     (Some c, Some b) \<Rightarrow> c \<noteq> b | _ \<Rightarrow> True)"

definition reload_batch ::
  "reload_lib \<Rightarrow> (nat \<Rightarrow> 'w \<Rightarrow> 'w) \<Rightarrow> reload_settings \<Rightarrow> reload_input \<Rightarrow> file_event list \<Rightarrow> 'w reload
   \<Rightarrow> 'w reload option" where
  "reload_batch L token S I events s =
     (let file_changed = changed_config_path (ri_canonical I) events (rs_config_paths S);
          current = ri_modified I file_changed
      in if file_changed = [] then Some s
         else if \<not> really_modified current (rl_baselines s file_changed) then Some s
         else
           (let s = (case current of Some c \<Rightarrow> s\<lparr>rl_baselines := (rl_baselines s)(file_changed \<mapsto> c)\<rparr> | None \<Rightarrow> s)
            in case ri_read I file_changed of
                 Inl err \<Rightarrow> Some (fatal_reload (ri_later I) (''config unreadable after change: '' @ err) s)
               | Inr content \<Rightarrow> handle_candidate L token S I content s))"

end
