(* ===== verification/Config_Properties.thy ===== *)
theory Config_Properties
  imports Config_Model
begin

text \<open>
  Properties of configuration reading (\<open>src/src/config.rs\<close>, \<open>src/src/yaml.rs\<close>,
  \<open>src/src/option_catalog.rs\<close>): every job of an accepted configuration is well formed and carries
  the shared patterns, job names are unique, unknown properties are rejected, durations are read
  back, and what the report of a syntax error needs of the parser's position.
\<close>

section \<open>Merging of patterns\<close>

lemma merge_patterns_prefix: "take (length common) (merge_patterns common task) = common"
proof (induction common task rule: merge_patterns.induct)
  case (2 merged pattern task)
  let ?m = "if pattern \<in> set merged then merged else merged @ [pattern]"
  have "take (length merged) (merge_patterns merged (pattern # task))
          = take (length merged) (take (length ?m) (merge_patterns ?m task))"
    by simp
  also have "\<dots> = take (length merged) ?m" using "2.IH" by simp
  finally show ?case by simp
qed simp

lemma set_merge_patterns: "set (merge_patterns common task) = set common \<union> set task"
  by (induction common task rule: merge_patterns.induct) auto

lemma distinct_merge_patterns: "distinct common \<Longrightarrow> distinct (merge_patterns common task)"
  by (induction common task rule: merge_patterns.induct) auto

lemma ensure_glob_only_ok: "ensure_glob_only ps field = Inr qs \<longleftrightarrow> qs = ps \<and> \<not> list_ex has_lua ps"
  by (auto simp: ensure_glob_only_def)

section \<open>Well-formed jobs\<close>

text \<open>What the parser promises of a job: no recovery for a service, recovery commands that are not
  blank, a name order of the environment without blank names, no blank group or directory.\<close>

definition job_ok :: "rules \<Rightarrow> bool" where
  "job_ok r \<longleftrightarrow>
     \<not> (rule_service r \<and> rule_recovery r \<noteq> None) \<and>
     (\<forall>cs. rule_recovery r = Some cs \<longrightarrow> cs \<noteq> [] \<and> (\<forall>c\<in>set cs. str_trim c \<noteq> [])) \<and>
     bt_ok (rule_environment r) \<and> (\<forall>(k, v)\<in>set (rule_environment r). str_trim k \<noteq> []) \<and>
     (\<forall>g. rule_parallel r = Some g \<longrightarrow> str_trim g \<noteq> []) \<and>
     (\<forall>d. rule_cwd r = Some d \<longrightarrow> str_trim d \<noteq> []) \<and>
     rule_argv r = None \<and>
     \<not> list_ex has_lua (rule_watch_patterns r) \<and> \<not> list_ex has_lua (rule_ignore_patterns r)"

lemma recovery_list_ok:
  "recovery_list Y name i ys = Inr cs \<Longrightarrow> length cs = length ys \<and> (\<forall>c\<in>set cs. str_trim c \<noteq> [])"
proof (induction Y name i ys arbitrary: cs rule: recovery_list.induct)
  case (2 Y name i command rest)
  then obtain c ds where "yl_as_str Y command = Some c" "str_trim c \<noteq> []"
      "recovery_list Y name (i + 1) rest = Inr ds" "cs = c # ds"
    by (auto simp: and_then_eq_Inr split: option.splits if_splits)
  with "2.IH" show ?case by simp
qed simp

lemma recovery_commands_ok:
  assumes "recovery_commands_from_yaml Y y name = Inr (Some cs)"
  shows "cs \<noteq> [] \<and> (\<forall>c\<in>set cs. str_trim c \<noteq> [])"
proof (cases "yl_index Y y ''recovery''")
  case (YArray ys)
  with assms have "ys \<noteq> []" "recovery_list Y name 0 ys = Inr cs"
    by (auto simp: recovery_commands_from_yaml_def and_then_eq_Inr split: if_splits)
  with recovery_list_ok show ?thesis by fastforce
qed (use assms in \<open>auto simp: recovery_commands_from_yaml_def split: if_splits\<close>)

lemmas rule_builders =
  rules_new_def with_execution_context_def with_inherited_patterns_def with_output_def with_service_def
  with_recovery_def with_parallel_option_def with_parallel_def

lemma rule_from_ok:
  assumes "rule_from Y y = Inr r"
  shows "job_ok r"
proof -
  from assms obtain name commands ws gs g d env where parts:
    "extract_optional_string Y y ''parallel'' = Inr g" "extract_optional_string Y y ''cwd'' = Inr d"
    "extract_optional_string_map Y y ''env'' = Inr env"
    "ensure_glob_only (or_default (extract_list Y y ''change'')) ''change'' = Inr ws"
    "ensure_glob_only (or_default (extract_list Y y ''ignore'')) ''ignore'' = Inr gs"
    "r = with_parallel_option g (with_execution_context d env
           (rules_new name commands ws gs (extract_bool Y y ''run_on_init'')))"
    by (auto simp: rule_from_def Let_def and_then_eq_Inr split: if_splits)
  show ?thesis
    using extract_optional_string_nonblank [of Y y "''parallel''"] extract_optional_string_nonblank [of Y y "''cwd''"]
      extract_optional_string_map_ok [OF parts(3)] parts
    by (cases g) (auto simp: job_ok_def rule_builders ensure_glob_only_ok)
qed

lemma rule_from_with_common_parts:
  assumes "rule_from_with_common Y y common = Inr r"
  obtains name commands g d env recovery service outp where
    "extract_string Y y ''name'' = Inr name" "extract_list Y y ''run'' = Inr commands"
    "extract_optional_string Y y ''parallel'' = Inr g" "extract_optional_string Y y ''cwd'' = Inr d"
    "extract_optional_string_map Y y ''env'' = Inr env"
    "recovery_commands_from_yaml Y y name = Inr recovery" "\<not> (service \<and> recovery \<noteq> None)"
    "\<not> list_ex has_lua (merge_patterns (common_change common) (or_default (extract_list Y y ''change'')))"
    "\<not> list_ex has_lua (merge_patterns (common_ignore common) (or_default (extract_list Y y ''ignore'')))"
    "r = \<lparr>rule_name = name, rule_commands = commands, rule_recovery = recovery, rule_argv = None,
      rule_watch_patterns = merge_patterns (common_change common) (or_default (extract_list Y y ''change'')),
      rule_ignore_patterns = merge_patterns (common_ignore common) (or_default (extract_list Y y ''ignore'')),
      rule_run_on_init = extract_bool Y y ''run_on_init'', rule_parallel = g, rule_cwd = d,
      rule_environment = env, rule_inherited = inherited_patterns common, rule_output = outp,
      rule_service = service\<rparr>"
    "output_from Y y name common = Inr outp" "service_from Y y name = Inr service"
    "job_allowlist Y y = Inr ()"
proof -
  from assms obtain name commands g d env recovery service outp where parts:
    "job_allowlist Y y = Inr ()"
    "extract_string Y y ''name'' = Inr name" "extract_list Y y ''run'' = Inr commands"
    "extract_optional_string Y y ''parallel'' = Inr g" "extract_optional_string Y y ''cwd'' = Inr d"
    "extract_optional_string_map Y y ''env'' = Inr env"
    "recovery_commands_from_yaml Y y name = Inr recovery" "service_from Y y name = Inr service"
    "\<not> (service \<and> recovery \<noteq> None)" "output_from Y y name common = Inr outp"
    "\<not> list_ex has_lua (merge_patterns (common_change common) (or_default (extract_list Y y ''change'')))"
    "\<not> list_ex has_lua (merge_patterns (common_ignore common) (or_default (extract_list Y y ''ignore'')))"
    "r = with_parallel_option g
           (let rule = with_service service (with_output outp
              (with_inherited_patterns (inherited_patterns common) (with_execution_context d env
              (rules_new name commands
                 (merge_patterns (common_change common) (or_default (extract_list Y y ''change'')))
                 (merge_patterns (common_ignore common) (or_default (extract_list Y y ''ignore'')))
                 (extract_bool Y y ''run_on_init'')))))
            in case recovery of Some commands \<Rightarrow> with_recovery commands rule | None \<Rightarrow> rule)"
    unfolding rule_from_with_common_def Let_def and_then_eq_Inr ensure_glob_only_ok
    by (auto simp: and_then_eq_Inr ensure_glob_only_ok split: if_splits)
  moreover have "r = \<lparr>rule_name = name, rule_commands = commands, rule_recovery = recovery, rule_argv = None,
      rule_watch_patterns = merge_patterns (common_change common) (or_default (extract_list Y y ''change'')),
      rule_ignore_patterns = merge_patterns (common_ignore common) (or_default (extract_list Y y ''ignore'')),
      rule_run_on_init = extract_bool Y y ''run_on_init'', rule_parallel = g, rule_cwd = d,
      rule_environment = env, rule_inherited = inherited_patterns common, rule_output = outp,
      rule_service = service\<rparr>"
    using parts(13) by (simp add: rule_builders Let_def split: option.splits)
  ultimately show thesis using that by blast
qed

lemma rule_from_with_common_ok:
  assumes "rule_from_with_common Y y common = Inr r"
  shows "job_ok r"
  using assms
proof (rule rule_from_with_common_parts)
  fix name commands g d env recovery service outp
  assume parts: "extract_optional_string Y y ''parallel'' = Inr g" "extract_optional_string Y y ''cwd'' = Inr d"
    "extract_optional_string_map Y y ''env'' = Inr env"
    "recovery_commands_from_yaml Y y name = Inr recovery" "\<not> (service \<and> recovery \<noteq> None)"
    "\<not> list_ex has_lua (merge_patterns (common_change common) (or_default (extract_list Y y ''change'')))"
    "\<not> list_ex has_lua (merge_patterns (common_ignore common) (or_default (extract_list Y y ''ignore'')))"
    "r = \<lparr>rule_name = name, rule_commands = commands, rule_recovery = recovery, rule_argv = None,
      rule_watch_patterns = merge_patterns (common_change common) (or_default (extract_list Y y ''change'')),
      rule_ignore_patterns = merge_patterns (common_ignore common) (or_default (extract_list Y y ''ignore'')),
      rule_run_on_init = extract_bool Y y ''run_on_init'', rule_parallel = g, rule_cwd = d,
      rule_environment = env, rule_inherited = inherited_patterns common, rule_output = outp,
      rule_service = service\<rparr>"
  have "recovery = Some cs \<Longrightarrow> cs \<noteq> [] \<and> (\<forall>c\<in>set cs. str_trim c \<noteq> [])" for cs
    using recovery_commands_ok parts(4) by simp
  moreover note extract_optional_string_map_ok [OF parts(3)]
  moreover have "g = Some s \<Longrightarrow> str_trim s \<noteq> []" "d = Some s \<Longrightarrow> str_trim s \<noteq> []" for s
    using extract_optional_string_nonblank parts(1,2) by simp_all
  ultimately show ?thesis using parts(5-8) by (simp add: job_ok_def)
qed

lemma parse_jobs_ok:
  assumes "parse_jobs Y key has_tasks common seen ys = Inr rs"
  shows "list_all2 (\<lambda>y r. rule_from_with_common Y y common = Inr r) ys rs"
    and "distinct (map rule_name rs)" and "rule_name ` set rs \<inter> seen = {}"
  using assms
proof (induction Y key has_tasks common seen ys arbitrary: rs rule: parse_jobs.induct)
  case (2 Y key has_tasks common seen y rest)
  {
    case 1
    then show ?case using "2.IH"(1) by (fastforce simp: and_then_eq_Inr split: if_splits)
  next
    case 2
    then show ?case using "2.IH"(2,3) by (fastforce simp: and_then_eq_Inr split: if_splits)
  next
    case 3
    then show ?case using "2.IH"(3) by (fastforce simp: and_then_eq_Inr split: if_splits)
  }
qed simp_all

definition jobs_key :: "yaml_lib \<Rightarrow> yaml \<Rightarrow> string" where
  "jobs_key Y y = (if yl_index Y y ''jobs'' \<noteq> YBadValue then ''jobs'' else ''tasks'')"

lemma jobs_array_ok: "jobs_array Y y key = Inr items \<Longrightarrow> yl_index Y y key = YArray items"
  by (auto simp: jobs_array_def split: yaml.splits)

lemma parse_hash_format_parts:
  assumes "parse_hash_format Y y allow_empty = Inr rs"
  obtains items common policy where
    "yl_index Y y (jobs_key Y y) = YArray items" "items = [] \<longrightarrow> allow_empty"
    "validate_v2_sections Y y = Inr ()"
    "extract_common_rules Y (yl_index Y y ''on'') = Inr common" "output_policy_from_root Y y = Inr policy"
    "parse_jobs Y (jobs_key Y y) (yl_index Y y ''tasks'' \<noteq> YBadValue)
       (common\<lparr>common_output := policy\<rparr>) {} items = Inr rs"
    "yl_index Y y ''jobs'' = YBadValue \<or> yl_index Y y ''tasks'' = YBadValue"
proof -
  from assms obtain items where items: "jobs_array Y y (jobs_key Y y) = Inr items" "items = [] \<longrightarrow> allow_empty"
      "yl_index Y y ''jobs'' = YBadValue \<or> yl_index Y y ''tasks'' = YBadValue" and
    rest: "and_then (validate_v2_sections Y y) (\<lambda>_.
          and_then (case recovery_policy_from_root Y y of
              Inl e \<Rightarrow> Inl (invalid_config e None) | Inr p \<Rightarrow> Inr p) (\<lambda>_.
          and_then (extract_common_rules Y (yl_index Y y ''on'')) (\<lambda>common.
          and_then (output_policy_from_root Y y) (\<lambda>policy.
          parse_jobs Y (jobs_key Y y) (yl_index Y y ''tasks'' \<noteq> YBadValue)
            (common\<lparr>common_output := policy\<rparr>) {} items)))) = Inr rs"
    unfolding parse_hash_format_def Let_def jobs_key_def
    by (auto simp: and_then_eq_Inr split: if_splits)
  from rest show thesis
    using that [OF jobs_array_ok [OF items(1)] items(2)] items(3) by (auto simp: and_then_eq_Inr)
qed

lemma parse_hash_format_job_ok:
  assumes "parse_hash_format Y y allow_empty = Inr rs" and "r \<in> set rs"
  shows "job_ok r"
  using assms(1)
proof (rule parse_hash_format_parts)
  fix items common policy key has_tasks
  assume "parse_jobs Y (jobs_key Y y) (yl_index Y y ''tasks'' \<noteq> YBadValue)
            (common\<lparr>common_output := policy\<rparr>) {} items = Inr rs"
  from parse_jobs_ok(1) [OF this] assms(2) obtain t where
      "rule_from_with_common Y t (common\<lparr>common_output := policy\<rparr>) = Inr r"
    by (auto simp: list_all2_conv_all_nth in_set_conv_nth)
  then show "job_ok r" by (rule rule_from_with_common_ok)
qed

lemma parse_items_job_ok: "parse_items Y items = Inr rs \<Longrightarrow> r \<in> set rs \<Longrightarrow> job_ok r"
  by (induction Y items arbitrary: rs rule: parse_items.induct)
     (auto simp: and_then_eq_Inr split: if_splits dest: rule_from_ok parse_hash_format_job_ok)

text \<open>
  C29. Every job of an accepted configuration, in any of the three forms, is well formed.
\<close>

lemma accepted_jobs_well_formed:
  assumes accepted: "from_yaml Y content = Some (Inr rs)" and job: "r \<in> set rs"
  shows "\<not> (rule_service r \<and> rule_recovery r \<noteq> None) \<and>
     (\<forall>cs. rule_recovery r = Some cs \<longrightarrow> cs \<noteq> [] \<and> (\<forall>c\<in>set cs. str_trim c \<noteq> [])) \<and>
     bt_ok (rule_environment r) \<and> (\<forall>(k, v)\<in>set (rule_environment r). str_trim k \<noteq> []) \<and>
     (\<forall>g. rule_parallel r = Some g \<longrightarrow> str_trim g \<noteq> []) \<and>
     (\<forall>d. rule_cwd r = Some d \<longrightarrow> str_trim d \<noteq> []) \<and>
     rule_argv r = None \<and>
     \<not> list_ex has_lua (rule_watch_patterns r @ rule_ignore_patterns r)"
proof -
  have "job_ok r"
  proof (cases "yl_load Y content")
    case (Inr docs)
    with accepted obtain root rest where docs: "docs = root # rest" and parsed: "from_documents Y docs = Inr rs"
      by (cases docs) (auto simp: from_yaml_def from_documents_def)
    from parsed job show ?thesis
      by (cases root) (auto simp: docs from_documents_def dest: parse_items_job_ok parse_hash_format_job_ok)
  qed (use accepted in \<open>simp add: from_yaml_def\<close>)
  then show ?thesis by (simp add: job_ok_def)
qed

text \<open>
  A grouped configuration keeps its jobs: one value per element of the list, in the order of
  declaration, with distinct names. The patterns of the \<open>on\<close> section come first in every job and are
  never replaced; a job adds its own.
\<close>

lemma grouped_jobs_keep_order_and_shared_patterns:
  assumes loaded: "yl_load Y content = Inr (YHash h # docs)"
    and accepted: "from_yaml Y content = Some (Inr rs)"
  shows "\<exists>items common. yl_index Y (YHash h) (jobs_key Y (YHash h)) = YArray items \<and>
     extract_common_rules Y (yl_index Y (YHash h) ''on'') = Inr common \<and>
     rs \<noteq> [] \<and> length rs = length items \<and> distinct (map rule_name rs) \<and>
     (\<forall>i<length items.
        extract_string Y (items ! i) ''name'' = Inr (rule_name (rs ! i)) \<and>
        extract_list Y (items ! i) ''run'' = Inr (rule_commands (rs ! i)) \<and>
        take (length (common_change common)) (rule_watch_patterns (rs ! i)) = common_change common \<and>
        take (length (common_ignore common)) (rule_ignore_patterns (rs ! i)) = common_ignore common \<and>
        set (rule_watch_patterns (rs ! i))
          = set (common_change common) \<union> set (or_default (extract_list Y (items ! i) ''change'')) \<and>
        set (rule_ignore_patterns (rs ! i))
          = set (common_ignore common) \<union> set (or_default (extract_list Y (items ! i) ''ignore'')))"
proof -
  from loaded accepted have "parse_hash_format Y (YHash h) False = Inr rs"
    by (simp add: from_yaml_def from_documents_def)
  then show ?thesis
  proof (rule parse_hash_format_parts)
    fix items common policy
    assume parts: "yl_index Y (YHash h) (jobs_key Y (YHash h)) = YArray items" "items = [] \<longrightarrow> False"
      "extract_common_rules Y (yl_index Y (YHash h) ''on'') = Inr common" and
      jobs: "parse_jobs Y (jobs_key Y (YHash h)) (yl_index Y (YHash h) ''tasks'' \<noteq> YBadValue)
            (common\<lparr>common_output := policy\<rparr>) {} items = Inr rs"
    note all = parse_jobs_ok(1) [OF jobs]
    have "extract_string Y y ''name'' = Inr (rule_name r) \<and> extract_list Y y ''run'' = Inr (rule_commands r) \<and>
        rule_watch_patterns r = merge_patterns (common_change common) (or_default (extract_list Y y ''change'')) \<and>
        rule_ignore_patterns r = merge_patterns (common_ignore common) (or_default (extract_list Y y ''ignore''))"
      if "rule_from_with_common Y y (common\<lparr>common_output := policy\<rparr>) = Inr r" for y r
      using that by (rule rule_from_with_common_parts) simp
    with all parts parse_jobs_ok(2) [OF jobs] list_all2_lengthD [OF all] show ?thesis
      by (intro exI [of _ items] exI [of _ common])
         (auto simp: list_all2_conv_all_nth merge_patterns_prefix set_merge_patterns)
  qed
qed

section \<open>Durations\<close>

lemma trim_front_id: "(\<And>w. w \<in> set ws \<Longrightarrow> w \<noteq> [] \<Longrightarrow> hd w \<noteq> hd s) \<Longrightarrow> trim_front ws s = s"
proof -
  assume no: "\<And>w. w \<in> set ws \<Longrightarrow> w \<noteq> [] \<Longrightarrow> hd w \<noteq> hd s"
  have "\<not> (w \<noteq> [] \<and> starts_with s w)" if "w \<in> set ws" for w
    using no [OF that] by (cases w) (auto simp: starts_with_iff)
  then have "find (\<lambda>w. w \<noteq> [] \<and> starts_with s w) ws = None" by (auto simp: find_None_iff)
  then show ?thesis by (subst trim_front.simps) simp
qed

definition solid :: "char \<Rightarrow> bool" where
  "solid c \<longleftrightarrow> (\<forall>w\<in>set white_space. c \<noteq> hd w \<and> c \<noteq> last w)"

lemma str_trim_solid:
  assumes "s \<noteq> []" "solid (hd s)" "solid (last s)"
  shows "str_trim s = s"
proof -
  have "trim_front white_space s = s" using assms by (intro trim_front_id) (auto simp: solid_def)
  moreover have "trim_front (map rev white_space) (rev s) = rev s"
    using assms by (intro trim_front_id) (auto simp: solid_def hd_rev)
  ultimately show ?thesis by (simp add: str_trim_def)
qed

lemma solid_digit: "is_digit c \<Longrightarrow> solid c"
  by (auto simp: solid_def is_digit_def white_space_def)

lemma solid_unit: "solid CHR ''s''" "solid CHR ''m''"
  by (simp_all add: solid_def white_space_def)

lemma show_nat_is_digit: "c \<in> set (show_nat n) \<Longrightarrow> is_digit c"
  using show_nat_digits by (auto simp: is_digit_def)

lemma show_nat_ends: "is_digit (hd (show_nat n))" "is_digit (last (show_nat n))"
  using show_nat_is_digit [of "hd (show_nat n)" n] show_nat_is_digit [of "last (show_nat n)" n] by simp_all

lemma strip_suffix_append [simp]: "strip_suffix (s @ suf) suf = Some s"
  by (simp add: strip_suffix_def)

lemma strip_suffix_last: "s \<noteq> [] \<Longrightarrow> suf \<noteq> [] \<Longrightarrow> last s \<noteq> last suf \<Longrightarrow> strip_suffix s suf = None"
  unfolding strip_suffix_def by (metis append_take_drop_id last_appendR)

text \<open>The four spellings of a duration, with the milliseconds of one unit.\<close>

definition units :: "(string \<times> nat) list" where
  "units = [(''ms'', 1), (''s'', 1000), (''m'', 60000), ([], 1000)]"

lemma split_unit_units:
  assumes "(u, k) \<in> set units"
  shows "split_unit (show_nat n @ u) = (show_nat n, k)"
proof -
  have digit: "last (show_nat n) \<noteq> CHR ''s''" "last (show_nat n) \<noteq> CHR ''m''"
    using show_nat_ends(2) [of n] by (auto simp: is_digit_def)
  have s: "strip_suffix (show_nat n @ ''s'') ''ms'' = None"
  proof -
    have "drop (length (show_nat n) - 1) (show_nat n) = [last (show_nat n)]"
      by (metis append_butlast_last_id append_eq_conv_conj length_butlast show_nat_nonempty)
    with digit show ?thesis by (simp add: strip_suffix_def)
  qed
  have m: "strip_suffix (show_nat n @ ''m'') suf = None" if "suf = ''ms'' \<or> suf = ''s''" for suf
    using that by (intro strip_suffix_last) auto
  have plain: "strip_suffix (show_nat n) suf = None" if "suf \<in> {''ms'', ''s'', ''m''}" for suf
    using that digit by (intro strip_suffix_last) auto
  from assms consider "u = ''ms''" "k = 1" | "u = ''s''" "k = 1000" | "u = ''m''" "k = 60000" | "u = []" "k = 1000"
    unfolding units_def by auto
  then show ?thesis
    by cases (simp_all add: split_unit_def s m plain)
qed

text \<open>
  A duration is read back: the decimal form of a positive number with any of the four units gives
  that many milliseconds, as long as they fit into 64 bits; and whatever is accepted is a positive
  whole number of milliseconds below the bound.
\<close>

lemma debounce_round_trip:
  assumes "(u, k) \<in> set units" and "0 < n" and "n * k < 2 ^ 64"
  shows "parse_debounce (show_nat n @ u) = Inr (Some (millis (n * k)))"
proof -
  have "solid (last (show_nat n @ u))"
    using assms(1) solid_digit [OF show_nat_ends(2)] by (auto simp: units_def solid_unit)
  moreover have "solid (hd (show_nat n @ u))" using solid_digit [OF show_nat_ends(1)] by simp
  ultimately have outer: "str_trim (show_nat n @ u) = show_nat n @ u" by (intro str_trim_solid) simp_all
  have inner: "str_trim (show_nat n) = show_nat n"
    using show_nat_ends solid_digit by (intro str_trim_solid) simp_all
  have "1 \<le> k" using assms(1) by (auto simp: units_def)
  then have "n * 1 \<le> n * k" by (rule mult_le_mono2)
  with assms(3) have "n < 2 ^ 64" unfolding mult_1_right by (rule order.strict_trans1 [rotated])
  then have "parse_unsigned (show_nat n) = Some n" by (rule parse_show_nat)
  with outer inner split_unit_units [OF assms(1)] assms(2,3) show ?thesis
    by (simp add: parse_debounce_def Let_def)
qed

lemma debounce_sound:
  assumes "parse_debounce raw = Inr r"
  shows "\<exists>ms. r = Some (millis ms) \<and> 0 < ms \<and> ms < 2 ^ 64"
proof -
  have "0 < k" if "split_unit s = (d, k)" for s d k
    using that by (auto simp: split_unit_def split: option.splits)
  with assms show ?thesis
    by (fastforce simp: parse_debounce_def Let_def split: prod.splits option.splits if_splits)
qed

section \<open>Position of a syntax error\<close>

text \<open>
  The report of a syntax error panics exactly when the position lies outside of the text's lines
  and the line after the last one, or the text has no line at all.
\<close>

lemma syntax_report_panics_iff:
  "scan_report content err = None \<longleftrightarrow>
     str_lines content = [] \<or> se_line err = 0 \<or> length (str_lines content) + 1 < se_line err"
proof -
  let ?n = "length (str_lines content)"
  consider "str_lines content = []" | "se_line err = 0" "str_lines content \<noteq> []"
    | "1 \<le> se_line err" "se_line err \<le> ?n" "str_lines content \<noteq> []"
    | "se_line err = ?n + 1" "str_lines content \<noteq> []" | "?n + 1 < se_line err" "str_lines content \<noteq> []"
    by linarith
  then show ?thesis
    by cases (auto simp: scan_report_def Let_def nth_opt_def split: option.splits if_splits)
qed

section \<open>Unknown properties\<close>

lemma first_unknown_None:
  "first_unknown allowed ps = None \<longleftrightarrow> (\<forall>k v. (YString k, v) \<in> set ps \<longrightarrow> k \<in> set allowed)"
  by (induction allowed ps rule: first_unknown.induct) (auto split: yaml.splits)

lemma validate_section_ok:
  assumes "validate_section Y root name own = Inr ()" and "yl_index Y root name = YHash ps"
    and "(YString k, v) \<in> set ps"
  shows "k \<in> set (section_allowed Y root own)"
proof -
  from assms(1,2) have "first_unknown (section_allowed Y root own) ps = None"
    by (simp add: validate_section_def Let_def split: option.splits)
  with assms(3) show ?thesis unfolding first_unknown_None by blast
qed

lemma validate_v2_ok:
  assumes "validate_v2_sections Y (YHash h) = Inr ()"
  shows "first_unknown root_allowed h = None \<and> validate_section Y (YHash h) ''on'' OwnOn = Inr ()
    \<and> validate_section Y (YHash h) ''execution'' OwnExecution = Inr ()
    \<and> validate_section Y (YHash h) ''hooks'' OwnHooks = Inr ()"
  using assms by (auto simp: validate_v2_sections_def and_then_eq_Inr split: option.splits)

lemma job_allowlist_ok:
  "job_allowlist Y (YHash job) = Inr () \<Longrightarrow> first_unknown (property_names OwnJob) job = None"
  by (simp add: job_allowlist_def del: property_names_simps split: option.splits)

text \<open>
  In an accepted grouped configuration every property of the root, of the three sections and of every
  job is in the catalog; the legacy \<open>tasks\<close> form has its key and the historical keys of \<open>on\<close> besides.
\<close>

lemma only_catalogued_properties:
  assumes loaded: "yl_load Y content = Inr (YHash h # docs)"
    and accepted: "from_yaml Y content = Some (Inr rs)"
  shows "(\<forall>k v. (YString k, v) \<in> set h \<longrightarrow> k \<in> set (property_names OwnRoot) \<union> {''tasks''}) \<and>
    (\<forall>(name, own)\<in>set [(''on'', OwnOn), (''execution'', OwnExecution), (''hooks'', OwnHooks)].
       \<forall>ps k v. yl_index Y (YHash h) name = YHash ps \<longrightarrow> (YString k, v) \<in> set ps \<longrightarrow>
         k \<in> set (property_names own) \<or>
         own = OwnOn \<and> yl_index Y (YHash h) ''tasks'' \<noteq> YBadValue \<and> k \<in> set legacy_on_keys) \<and>
    (\<forall>items job k v. yl_index Y (YHash h) (jobs_key Y (YHash h)) = YArray items \<longrightarrow> YHash job \<in> set items \<longrightarrow>
       (YString k, v) \<in> set job \<longrightarrow> k \<in> set (property_names OwnJob))"
proof -
  from loaded accepted have "parse_hash_format Y (YHash h) False = Inr rs"
    by (simp add: from_yaml_def from_documents_def)
  then obtain items common policy where
    items: "yl_index Y (YHash h) (jobs_key Y (YHash h)) = YArray items" and
    v2: "validate_v2_sections Y (YHash h) = Inr ()" and
    jobs: "parse_jobs Y (jobs_key Y (YHash h)) (yl_index Y (YHash h) ''tasks'' \<noteq> YBadValue)
       (common\<lparr>common_output := policy\<rparr>) {} items = Inr rs"
    by (rule parse_hash_format_parts) blast
  note v2 = validate_v2_ok [OF v2]
  have root: "\<forall>k v. (YString k, v) \<in> set h \<longrightarrow> k \<in> set (property_names OwnRoot) \<union> {''tasks''}"
    using v2 [THEN conjunct1] unfolding first_unknown_None root_allowed_def set_append by auto
  have sections: "k \<in> set (property_names own) \<or>
       own = OwnOn \<and> yl_index Y (YHash h) ''tasks'' \<noteq> YBadValue \<and> k \<in> set legacy_on_keys"
    if "(name, own) \<in> set [(''on'', OwnOn), (''execution'', OwnExecution), (''hooks'', OwnHooks)]"
       "yl_index Y (YHash h) name = YHash ps" "(YString k, v) \<in> set ps" for name own ps k v
  proof -
    have "validate_section Y (YHash h) name own = Inr ()" using that(1) v2 by auto
    from validate_section_ok [OF this that(2,3)] show ?thesis
      by (auto simp: section_allowed_def simp del: property_names_simps split: if_splits)
  qed
  have job: "k \<in> set (property_names OwnJob)" if member: "YHash job \<in> set items" and key: "(YString k, v) \<in> set job" for job k v
  proof -
    obtain r where "rule_from_with_common Y (YHash job) (common\<lparr>common_output := policy\<rparr>) = Inr r"
      using parse_jobs_ok(1) [OF jobs] member by (auto simp: list_all2_conv_all_nth in_set_conv_nth)
    then have "job_allowlist Y (YHash job) = Inr ()" by (rule rule_from_with_common_parts)
    from job_allowlist_ok [OF this] key show ?thesis unfolding first_unknown_None by blast
  qed
  show ?thesis
  proof (intro conjI)
    show "\<forall>(name, own)\<in>set [(''on'', OwnOn), (''execution'', OwnExecution), (''hooks'', OwnHooks)].
       \<forall>ps k v. yl_index Y (YHash h) name = YHash ps \<longrightarrow> (YString k, v) \<in> set ps \<longrightarrow>
         k \<in> set (property_names own) \<or>
         own = OwnOn \<and> yl_index Y (YHash h) ''tasks'' \<noteq> YBadValue \<and> k \<in> set legacy_on_keys"
      using sections by blast
    show "\<forall>items job k v. yl_index Y (YHash h) (jobs_key Y (YHash h)) = YArray items \<longrightarrow> YHash job \<in> set items \<longrightarrow>
       (YString k, v) \<in> set job \<longrightarrow> k \<in> set (property_names OwnJob)"
      using job items by (metis yaml.inject(5))
  qed (rule root)
qed

section \<open>What a list under \<open>run\<close> means\<close>

text \<open>
  A list under \<open>run\<close> is a sequence of shell commands, one per item: its items never become the
  arguments of one command.
\<close>

lemma run_list_is_a_command_sequence:
  assumes documented: "yaml_documented Y"
    and run: "yl_index Y y ''run'' = YArray (map YString commands)"
    and parsed: "rule_from_with_common Y y common = Inr r"
  shows "command_lines r = map Shell commands"
proof -
  have "extract_list Y y ''run'' = Inr commands"
    using documented run by (simp add: extract_list_def yaml_documented_def comp_def)
  moreover have "extract_list Y y ''run'' = Inr (rule_commands r) \<and> rule_argv r = None"
    using parsed by (rule rule_from_with_common_parts) simp
  ultimately show ?thesis by (simp add: command_lines_def)
qed

section \<open>A configuration\<close>

definition demo_yaml :: "yaml list \<Rightarrow> yaml_lib" where
  "demo_yaml docs =
     \<lparr>yl_load = (\<lambda>_. Inr docs),
      yl_index = (\<lambda>y k. case y of
        YHash h \<Rightarrow> (case map_of h (YString k) of Some v \<Rightarrow> v | None \<Rightarrow> YBadValue) | _ \<Rightarrow> YBadValue),
      yl_as_str = (\<lambda>y. case y of YString s \<Rightarrow> Some s | _ \<Rightarrow> None),
      yl_debug = (\<lambda>_. ''Null'')\<rparr>"

definition demo_hash :: "(yaml \<times> yaml) list" where
  "demo_hash =
     [(YString ''on'', YHash [(YString ''change'', YString ''src/**'')]),
      (YString ''jobs'', YArray
        [YHash [(YString ''name'', YString ''lint''), (YString ''run'', YArray [YString ''echo'', YString ''{{filepath}}'']),
                (YString ''change'', YArray [YString ''src/**'', YString ''*.md'']),
                (YString ''recovery'', YString ''fix'')],
         YHash [(YString ''name'', YString ''serve''), (YString ''run'', YString ''serve''),
                (YString ''env'', YHash [(YString ''B'', YString ''2''), (YString ''A'', YString ''1'')]),
                (YString ''service'', YBoolean True)]])]"

definition demo_rules :: "rules list" where
  "demo_rules =
     [(rules_new ''lint'' [''echo'', ''{{filepath}}''] [''src/**'', ''*.md''] [] False)
        \<lparr>rule_recovery := Some [''fix''], rule_inherited := [''src/**'']\<rparr>,
      (rules_new ''serve'' [''serve''] [''src/**''] [] False)
        \<lparr>rule_environment := [(''A'', ''1''), (''B'', ''2'')], rule_inherited := [''src/**''], rule_service := True\<rparr>]"

lemma demo_yaml_documented: "yaml_documented (demo_yaml docs)"
  by (auto simp: yaml_documented_def demo_yaml_def split: yaml.split)

lemma demo_parsed: "from_yaml (demo_yaml [YHash demo_hash]) [] = Some (Inr demo_rules)"
  by code_simp

lemma accepted_jobs_well_formed_witness:
  "from_yaml (demo_yaml [YHash demo_hash]) [] = Some (Inr demo_rules) \<and>
   bt_ok (rule_environment (demo_rules ! 1)) \<and> rule_recovery (demo_rules ! 1) = None"
proof -
  have serve: "demo_rules ! 1 \<in> set demo_rules" "rule_service (demo_rules ! 1)"
    by (simp_all add: demo_rules_def)
  from accepted_jobs_well_formed [OF demo_parsed serve(1)] serve(2) demo_parsed show ?thesis by simp
qed

lemma demo_loaded: "yl_load (demo_yaml [YHash demo_hash]) [] = Inr [YHash demo_hash]"
  by (simp add: demo_yaml_def)

lemma grouped_jobs_keep_order_and_shared_patterns_witness:
  "distinct (map rule_name demo_rules) \<and> take 1 (rule_watch_patterns (demo_rules ! 1)) = [''src/**'']"
  using grouped_jobs_keep_order_and_shared_patterns [OF demo_loaded demo_parsed]
proof (elim exE conjE)
  let ?Y = "demo_yaml [YHash demo_hash]"
  fix items common
  assume common: "extract_common_rules ?Y (yl_index ?Y (YHash demo_hash) ''on'') = Inr common"
    and len: "length demo_rules = length items" and names: "distinct (map rule_name demo_rules)"
    and jobs: "\<forall>i<length items.
        extract_string ?Y (items ! i) ''name'' = Inr (rule_name (demo_rules ! i)) \<and>
        extract_list ?Y (items ! i) ''run'' = Inr (rule_commands (demo_rules ! i)) \<and>
        take (length (common_change common)) (rule_watch_patterns (demo_rules ! i)) = common_change common \<and>
        take (length (common_ignore common)) (rule_ignore_patterns (demo_rules ! i)) = common_ignore common \<and>
        set (rule_watch_patterns (demo_rules ! i))
          = set (common_change common) \<union> set (or_default (extract_list ?Y (items ! i) ''change'')) \<and>
        set (rule_ignore_patterns (demo_rules ! i))
          = set (common_ignore common) \<union> set (or_default (extract_list ?Y (items ! i) ''ignore''))"
  have "extract_common_rules ?Y (yl_index ?Y (YHash demo_hash) ''on'')
      = Inr \<lparr>common_change = [''src/**''], common_ignore = [], common_output = Inherit\<rparr>"
    by code_simp
  with common have change: "common_change common = [''src/**'']" by auto
  have "1 < length items" using len by (simp add: demo_rules_def)
  with jobs have "take (length (common_change common)) (rule_watch_patterns (demo_rules ! 1)) = common_change common"
    by blast
  with change names show ?thesis by simp
qed

lemma only_catalogued_properties_witness:
  "''jobs'' \<in> set (property_names OwnRoot) \<union> {''tasks''} \<and>
   from_yaml (demo_yaml [YHash demo_hash]) [] = Some (Inr demo_rules)"
proof -
  have "\<exists>v. (YString ''jobs'', v) \<in> set demo_hash" by (auto simp: demo_hash_def)
  with only_catalogued_properties [OF demo_loaded demo_parsed] demo_parsed show ?thesis by blast
qed

lemma run_list_is_a_command_sequence_witness:
  "\<exists>r. command_lines r = [Shell ''echo'', Shell ''{{filepath}}'']"
proof -
  let ?Y = "demo_yaml []"
  let ?y = "YHash [(YString ''name'', YString ''n''), (YString ''run'', YArray [YString ''echo'', YString ''{{filepath}}''])]"
  let ?c = "\<lparr>common_change = [], common_ignore = [], common_output = Inherit\<rparr>"
  have "yl_index ?Y ?y ''run'' = YArray (map YString [''echo'', ''{{filepath}}''])" by code_simp
  moreover have "rule_from_with_common ?Y ?y ?c = Inr (rules_new ''n'' [''echo'', ''{{filepath}}''] [] [] False)"
    by code_simp
  ultimately have "command_lines (rules_new ''n'' [''echo'', ''{{filepath}}''] [] [] False)
      = map Shell [''echo'', ''{{filepath}}'']"
    by (rule run_list_is_a_command_sequence [OF demo_yaml_documented])
  then show ?thesis by auto
qed

lemma debounce_round_trip_witness:
  "parse_debounce (show_nat 250 @ ''ms'') = Inr (Some (millis (250 * 1)))"
  by (rule debounce_round_trip) (simp_all add: units_def)

end
