(* ===== verification/Reload_Properties.thy ===== *)
theory Reload_Properties
  imports Reload_Model Config_Properties
begin

text \<open>
  Properties of live reload: a batch either changes nothing, or requests the shutdown with the old
  configuration still in place, or commits one configuration everywhere; the backend covers old and
  new roots from before the commit on; services with an unchanged signature are neither stopped nor
  started; and what the code does with a control socket that has moved.
\<close>

section \<open>Validation and construction agree\<close>

lemma gate_error_simps [simp]:
  "gate_error g r = Inr a \<longleftrightarrow> r = Inr a"
  by (cases r) (auto simp: gate_error_def)

lemma concurrency_positive: "concurrency_from_yaml Y content = Inr (Some n) \<Longrightarrow> 0 < n"
  by (auto simp: concurrency_from_yaml_def and_then_eq_Inr Let_def split: if_splits yaml.splits)

definition same_policy :: "runtime_config \<Rightarrow> watches \<Rightarrow> bool" where
  "same_policy c wt \<longleftrightarrow>
     wt_root wt = rc_root c \<and> wt_rules wt = rc_rules c \<and> wt_concurrency wt = rc_concurrency c \<and>
     wt_debounce wt = rc_debounce c \<and> wt_backend wt = rc_backend c \<and>
     wt_respect_gitignore wt = rc_respect_gitignore c \<and> wt_recovery_policy wt = rc_recovery_policy c \<and>
     wt_hooks wt = rc_hooks c \<and> wt_session_hooks wt = rc_session_hooks c"

lemma candidate_config_parts:
  assumes "candidate_config L content root dflt rs = Inr c"
  obtains concurrency debounce backend respect policy hooks session socket where
    "validate_rules (we_glob (lb_env L)) rs = Inr ()"
    "concurrency_from_yaml (lb_yaml L) content = Inr concurrency"
    "debounce_from_yaml (lb_yaml L) content = Inr debounce"
    "watch_backend_from_yaml (lb_yaml L) content = Inr backend"
    "respect_gitignore_from_yaml (lb_yaml L) content = Inr respect"
    "recovery_policy_from_yaml_with_default (lb_yaml L) content (pd_recovery_policy dflt) = Inr policy"
    "generation_hooks_from_yaml (lb_yaml L) content = Inr hooks"
    "session_hooks_from_yaml (lb_yaml L) content = Inr session"
    "control_socket_from_yaml (lb_yaml L) content = Inr socket"
    "c = capture root rs (unwrap_or (pd_concurrency dflt) concurrency)
           (unwrap_or (pd_debounce dflt) debounce) (unwrap_or (pd_backend dflt) backend)
           respect policy hooks session socket"
  using assms unfolding candidate_config_def Let_def by (auto simp: and_then_eq_Inr)

text \<open>
  A candidate that passes validation is built: the second reading of the text neither fails nor
  panics, and the watch configuration carries exactly the validated policy and the new revision.
\<close>

lemma validated_candidate_is_built:
  assumes valid: "validate_candidate L content root dflt = Some (Inr c)" and pos: "0 < pd_concurrency dflt"
  shows "\<exists>wt. build_watches_from_content L content root dflt revision = Some (Inr wt) \<and>
     same_policy c wt \<and> wt_revision wt = Some revision \<and> 0 < wt_concurrency wt"
proof -
  obtain rs where rs: "from_yaml (lb_yaml L) content = Some (Inr rs)" and c: "candidate_config L content root dflt rs = Inr c"
    using valid by (auto simp: validate_candidate_def split: option.splits sum.splits)
  from c show ?thesis
  proof (rule candidate_config_parts)
    fix concurrency debounce backend respect policy hooks session socket
    assume parts: "validate_rules (we_glob (lb_env L)) rs = Inr ()"
      "concurrency_from_yaml (lb_yaml L) content = Inr concurrency"
      "debounce_from_yaml (lb_yaml L) content = Inr debounce"
      "watch_backend_from_yaml (lb_yaml L) content = Inr backend"
      "respect_gitignore_from_yaml (lb_yaml L) content = Inr respect"
      "recovery_policy_from_yaml_with_default (lb_yaml L) content (pd_recovery_policy dflt) = Inr policy"
      "generation_hooks_from_yaml (lb_yaml L) content = Inr hooks"
      "session_hooks_from_yaml (lb_yaml L) content = Inr session"
      "c = capture root rs (unwrap_or (pd_concurrency dflt) concurrency)
           (unwrap_or (pd_debounce dflt) debounce) (unwrap_or (pd_backend dflt) backend)
           respect policy hooks session socket"
    have "0 < unwrap_or (pd_concurrency dflt) concurrency"
      using pos concurrency_positive parts(2) by (cases concurrency) (auto simp: unwrap_or_def)
    with parts rs show ?thesis
      by (simp add: build_watches_from_content_def build_watches_def with_root_and_concurrency_def same_policy_def
          capture_def with_debounce_def with_backend_def with_gitignore_def watches_with_recovery_policy_def
          watches_with_hooks_def with_session_hooks_def watches_with_revision_def)
  qed
qed

section \<open>Outcomes of a batch\<close>

definition reload_kept :: "'w reload \<Rightarrow> 'w reload \<Rightarrow> bool" where
  "reload_kept s s' \<longleftrightarrow>
     rl_session s' = rl_session s \<and> rl_shutdown s' = rl_shutdown s \<and> rl_lifecycle s' = rl_lifecycle s \<and>
     rl_tracker s' = rl_tracker s \<and> rl_strategy s' = rl_strategy s \<and> rl_published s' = rl_published s"

definition reload_refused :: "'w reload \<Rightarrow> 'w reload \<Rightarrow> bool" where
  "reload_refused s s' \<longleftrightarrow>
     rl_session s' = rl_session s \<and> sh_phase (rl_shutdown s') \<noteq> PhRunning \<and>
     ct_phase (lc_current (rl_lifecycle s')) = ConfigInvalid"

definition reload_committed :: "'w reload \<Rightarrow> 'w reload \<Rightarrow> bool" where
  "reload_committed s s' \<longleftrightarrow>
     (\<exists>revision. let wt = ss_watches (rl_session s'); wk = ss_worker (rl_session s') in
        rl_tracker s' = Some revision \<and> wt_revision wt = Some revision \<and>
        rev_number revision = Suc (case rl_tracker s of Some r \<Rightarrow> rev_number r | None \<Rightarrow> 0) \<and>
        (rl_worker s \<longrightarrow> wk_revision wk = Some revision \<and> wk_concurrency wk = wt_concurrency wt \<and>
           wk_hooks wk = wt_hooks wt \<and> wk_recovery_policy wk = wt_recovery_policy wt) \<and>
        (sh_phase (rl_shutdown s) = PhRunning \<longrightarrow> sh_committed_hooks (rl_shutdown s') = wt_session_hooks wt) \<and>
        sh_phase (rl_shutdown s') = sh_phase (rl_shutdown s) \<and>
        ct_phase (lc_current (rl_lifecycle s')) = ConfigReloaded \<and>
        ct_revision (lc_current (rl_lifecycle s')) = Some (rev_number revision))"

lemma say_fields [simp]:
  "rl_session (say m s) = rl_session s" "rl_shutdown (say m s) = rl_shutdown s" "rl_lifecycle (say m s) = rl_lifecycle s"
  "rl_tracker (say m s) = rl_tracker s" "rl_strategy (say m s) = rl_strategy s" "rl_published (say m s) = rl_published s"
  "rl_worker (say m s) = rl_worker s" "rl_publisher (say m s) = rl_publisher s" "rl_swapper (say m s) = rl_swapper s"
  "rl_socket_pending (say m s) = rl_socket_pending s" "rl_pending_path (say m s) = rl_pending_path s"
  "rl_active_socket (say m s) = rl_active_socket s"
  by (simp_all add: say_def)

lemma publish_fields [simp]:
  "rl_session (snd (publish roots m ack s)) = rl_session s" "rl_shutdown (snd (publish roots m ack s)) = rl_shutdown s"
  "rl_lifecycle (snd (publish roots m ack s)) = rl_lifecycle s" "rl_tracker (snd (publish roots m ack s)) = rl_tracker s"
  "rl_strategy (snd (publish roots m ack s)) = rl_strategy s" "rl_worker (snd (publish roots m ack s)) = rl_worker s"
  "rl_publisher (snd (publish roots m ack s)) = rl_publisher s" "rl_swapper (snd (publish roots m ack s)) = rl_swapper s"
  "rl_socket_pending (snd (publish roots m ack s)) = rl_socket_pending s"
  "rl_pending_path (snd (publish roots m ack s)) = rl_pending_path s"
  "rl_active_socket (snd (publish roots m ack s)) = rl_active_socket s"
  by (simp_all add: publish_def split: option.split)

lemma fatal_reload_refused: "rl_session s = rl_session s0 \<Longrightarrow> reload_refused s0 (fatal_reload now reason s)"
  by (simp add: reload_refused_def fatal_reload_def Let_def request_claim_def lifecycle_invalid_def
      lifecycle_transition_def lifecycle_push_def transition_new_def set_cleanup_paths_def)

lemma begin_reload_cases:
  assumes "begin_reload L ack revision candidate sock s = (r, s1)"
  obtains "s1 = s" "r = Inr (transaction_of L revision candidate sock (ss_watches (rl_session s)))"
      "tx_added_roots (transaction_of L revision candidate sock (ss_watches (rl_session s))) = []"
    | p where "publish (add_missing (current_roots (lb_env L) (ss_watches (rl_session s)))
          (tx_added_roots (transaction_of L revision candidate sock (ss_watches (rl_session s)))))
          (preparing_notice (tx_added_roots (transaction_of L revision candidate sock (ss_watches (rl_session s))))) ack s
        = (p, s1)"
      "r = and_then p (\<lambda>_. Inr (transaction_of L revision candidate sock (ss_watches (rl_session s))))"
      "tx_added_roots (transaction_of L revision candidate sock (ss_watches (rl_session s))) \<noteq> []"
  using assms unfolding begin_reload_def Let_def by (auto split: if_splits prod.splits)

lemma begin_reload_fields:
  assumes "begin_reload L ack revision candidate sock s = (r, s1)"
  shows "rl_session s1 = rl_session s \<and> rl_shutdown s1 = rl_shutdown s \<and> rl_lifecycle s1 = rl_lifecycle s \<and>
      rl_tracker s1 = rl_tracker s \<and> rl_strategy s1 = rl_strategy s \<and> rl_worker s1 = rl_worker s \<and>
      rl_publisher s1 = rl_publisher s \<and> rl_swapper s1 = rl_swapper s \<and>
      rl_socket_pending s1 = rl_socket_pending s \<and> rl_pending_path s1 = rl_pending_path s \<and>
      rl_active_socket s1 = rl_active_socket s"
  using assms by (rule begin_reload_cases) (simp, metis publish_fields snd_conv)

lemma begin_reload_tx:
  assumes "begin_reload L ack revision candidate sock s = (Inr tx, s1)"
  shows "tx = transaction_of L revision candidate sock (ss_watches (rl_session s))"
  using assms by (rule begin_reload_cases) (auto simp: and_then_def split: sum.splits)

lemma transaction_fields [simp]:
  "tx_revision (transaction_of L revision candidate sock wt) = revision"
  "tx_candidate (transaction_of L revision candidate sock wt) = candidate"
  "tx_added_roots (transaction_of L revision candidate sock wt)
     = filter (\<lambda>r. r \<notin> set (current_roots (lb_env L) wt)) (current_roots (lb_env L) candidate)"
  "tx_removed_roots (transaction_of L revision candidate sock wt)
     = filter (\<lambda>r. r \<notin> set (current_roots (lb_env L) candidate)) (current_roots (lb_env L) wt)"
  by (simp_all add: transaction_of_def Let_def diff_roots_def)

lemma reconcile_fields [simp]:
  "ss_watches (reconcile token I tx ss) = ss_watches ss"
  "wk_revision (ss_worker (reconcile token I tx ss)) = wk_revision (ss_worker ss)"
  "wk_concurrency (ss_worker (reconcile token I tx ss)) = wk_concurrency (ss_worker ss)"
  "wk_hooks (ss_worker (reconcile token I tx ss)) = wk_hooks (ss_worker ss)"
  "wk_recovery_policy (ss_worker (reconcile token I tx ss)) = wk_recovery_policy (ss_worker ss)"
  by (simp_all add: reconcile_def start_services_def next_id_def Let_def split: sum.split)

lemma commit_reload_ok:
  assumes "0 < wt_concurrency (tx_candidate tx)"
  shows "\<exists>ss. commit_reload token I tx s = Some (s\<lparr>rl_session := ss\<rparr>) \<and> ss_watches ss = tx_candidate tx \<and>
     (rl_worker s \<longrightarrow> wk_revision (ss_worker ss) = Some (tx_revision tx) \<and>
        wk_concurrency (ss_worker ss) = wt_concurrency (tx_candidate tx) \<and>
        wk_hooks (ss_worker ss) = wt_hooks (tx_candidate tx) \<and>
        wk_recovery_policy (ss_worker ss) = wt_recovery_policy (tx_candidate tx))"
  using assms
  by (auto simp: commit_reload_def Let_def set_concurrency_def set_revision_def set_hooks_def set_recovery_policy_def)

lemma retire_socket_fields [simp]:
  "rl_session (retire_socket s) = rl_session s" "rl_shutdown (retire_socket s) = rl_shutdown s"
  "rl_lifecycle (retire_socket s) = rl_lifecycle s" "rl_tracker (retire_socket s) = rl_tracker s"
  "rl_active_socket (retire_socket s) = rl_active_socket s" "rl_published (retire_socket s) = rl_published s"
  by (simp_all add: retire_socket_def)

lemma truncate_log_fields [simp]:
  "rl_session (truncate_log S I s) = rl_session s" "rl_shutdown (truncate_log S I s) = rl_shutdown s"
  "rl_lifecycle (truncate_log S I s) = rl_lifecycle s" "rl_tracker (truncate_log S I s) = rl_tracker s"
  "rl_strategy (truncate_log S I s) = rl_strategy s" "rl_published (truncate_log S I s) = rl_published s"
  "rl_publisher (truncate_log S I s) = rl_publisher s" "rl_swapper (truncate_log S I s) = rl_swapper s"
  "rl_socket_pending (truncate_log S I s) = rl_socket_pending s"
  "rl_pending_path (truncate_log S I s) = rl_pending_path s"
  "rl_active_socket (truncate_log S I s) = rl_active_socket s"
  by (simp_all add: truncate_log_def)

lemma warn_retire_fields [simp]:
  "rl_session (warn_retire r s) = rl_session s" "rl_shutdown (warn_retire r s) = rl_shutdown s"
  "rl_lifecycle (warn_retire r s) = rl_lifecycle s" "rl_tracker (warn_retire r s) = rl_tracker s"
  "rl_strategy (warn_retire r s) = rl_strategy s" "rl_published (warn_retire r s) = rl_published s"
  "rl_swapper (warn_retire r s) = rl_swapper s" "rl_socket_pending (warn_retire r s) = rl_socket_pending s"
  "rl_pending_path (warn_retire r s) = rl_pending_path s" "rl_active_socket (warn_retire r s) = rl_active_socket s"
  by (simp_all add: warn_retire_def split: sum.split)

lemma cleanup_sockets_fields [simp]:
  "rl_session (cleanup_sockets s) = rl_session s" "rl_lifecycle (cleanup_sockets s) = rl_lifecycle s"
  "rl_tracker (cleanup_sockets s) = rl_tracker s" "rl_strategy (cleanup_sockets s) = rl_strategy s"
  "rl_published (cleanup_sockets s) = rl_published s"
  "rl_shutdown (cleanup_sockets s) = set_cleanup_paths (socket_paths_to_cleanup s) (rl_shutdown s)"
  by (simp_all add: cleanup_sockets_def)

lemma announce_fields [simp]:
  "rl_session (announce now r s) = rl_session s" "rl_shutdown (announce now r s) = rl_shutdown s"
  "rl_tracker (announce now r s) = rl_tracker s" "rl_strategy (announce now r s) = rl_strategy s"
  "rl_published (announce now r s) = rl_published s"
  "ct_phase (lc_current (rl_lifecycle (announce now r s))) = ConfigReloaded"
  "ct_revision (lc_current (rl_lifecycle (announce now r s))) = Some (rev_number r)"
  by (simp_all add: announce_def Let_def reloaded_def lifecycle_transition_def lifecycle_push_def transition_new_def)

lemma retire_roots_fields [simp]:
  "rl_session (snd (retire_roots env ack tx s)) = rl_session s" "rl_shutdown (snd (retire_roots env ack tx s)) = rl_shutdown s"
  "rl_tracker (snd (retire_roots env ack tx s)) = rl_tracker s" "rl_strategy (snd (retire_roots env ack tx s)) = rl_strategy s"
  "rl_swapper (snd (retire_roots env ack tx s)) = rl_swapper s"
  "rl_socket_pending (snd (retire_roots env ack tx s)) = rl_socket_pending s"
  "rl_pending_path (snd (retire_roots env ack tx s)) = rl_pending_path s"
  "rl_active_socket (snd (retire_roots env ack tx s)) = rl_active_socket s"
  by (simp_all add: retire_roots_def)

lemma finish_reload_fields:
  "rl_session (finish_reload L S I tx s) = rl_session s"
  "rl_tracker (finish_reload L S I tx s) = rl_tracker s"
  "sh_phase (rl_shutdown (finish_reload L S I tx s)) = sh_phase (rl_shutdown s)"
  "sh_phase (rl_shutdown s) = PhRunning \<Longrightarrow>
     sh_committed_hooks (rl_shutdown (finish_reload L S I tx s)) = wt_session_hooks (tx_candidate tx)"
  "ct_phase (lc_current (rl_lifecycle (finish_reload L S I tx s))) = ConfigReloaded"
  "ct_revision (lc_current (rl_lifecycle (finish_reload L S I tx s))) = Some (rev_number (tx_revision tx))"
  by (simp_all add: finish_reload_def Let_def case_prod_beta update_hooks_def set_cleanup_paths_def)

lemma prepare_socket_fields:
  assumes "prepare_socket os valid p s = (r, s1)"
  shows "rl_session s1 = rl_session s \<and> rl_shutdown s1 = rl_shutdown s \<and> rl_lifecycle s1 = rl_lifecycle s \<and>
      rl_tracker s1 = rl_tracker s \<and> rl_worker s1 = rl_worker s \<and> rl_publisher s1 = rl_publisher s \<and>
      rl_swapper s1 = rl_swapper s \<and> rl_active_socket s1 = rl_active_socket s \<and> rl_published s1 = rl_published s"
  using assms by (auto simp: prepare_socket_def split: prod.splits sum.splits if_splits)

lemma observe_number:
  "tracker_observe h t c = (New r, t') \<Longrightarrow>
     t' = Some r \<and> rev_number r = Suc (case t of Some x \<Rightarrow> rev_number x | None \<Rightarrow> 0)"
  by (auto simp: tracker_observe_def Let_def split: if_splits)

text \<open>The part of a candidate's commit after the socket is bound.\<close>

lemma commit_candidate_outcome:
  assumes cand: "wt_revision candidate = Some revision" "0 < wt_concurrency candidate"
  shows "\<exists>s'. commit_candidate L token S I revision candidate sock s = Some s' \<and>
    (reload_refused s s' \<or>
     ss_watches (rl_session s') = candidate \<and> rl_tracker s' = rl_tracker s \<and>
     (rl_worker s \<longrightarrow> wk_revision (ss_worker (rl_session s')) = Some revision \<and>
        wk_concurrency (ss_worker (rl_session s')) = wt_concurrency candidate \<and>
        wk_hooks (ss_worker (rl_session s')) = wt_hooks candidate \<and>
        wk_recovery_policy (ss_worker (rl_session s')) = wt_recovery_policy candidate) \<and>
     (sh_phase (rl_shutdown s) = PhRunning \<longrightarrow> sh_committed_hooks (rl_shutdown s') = wt_session_hooks candidate) \<and>
     sh_phase (rl_shutdown s') = sh_phase (rl_shutdown s) \<and>
     ct_phase (lc_current (rl_lifecycle s')) = ConfigReloaded \<and>
     ct_revision (lc_current (rl_lifecycle s')) = Some (rev_number revision))"
proof -
  define bound where "bound = (case sock of
               Some new_path \<Rightarrow>
                 if socket_changed (rs_current_socket S) sock
                 then prepare_socket (ri_socket_os I) (ri_api_valid I) new_path s else (Inr (), s)
             | None \<Rightarrow> (Inr (), s))"
  obtain b s1 where b: "bound = (b, s1)" by (cases bound)
  have s1: "rl_session s1 = rl_session s \<and> rl_shutdown s1 = rl_shutdown s \<and> rl_lifecycle s1 = rl_lifecycle s \<and>
      rl_tracker s1 = rl_tracker s \<and> rl_worker s1 = rl_worker s"
    using b prepare_socket_fields unfolding bound_def by (fastforce split: option.splits if_splits)
  obtain r s2 where begun: "begin_reload L (ri_ack_prepare I) revision candidate sock s1 = (r, s2)" by fastforce
  note s2 = begin_reload_fields [OF begun]
  show ?thesis
  proof (cases b)
    case (Inl err)
    have "commit_candidate L token S I revision candidate sock s
        = Some (fatal_reload (ri_later I) (''control socket rebind failed: '' @ err) s1)"
      unfolding commit_candidate_def bound_def [symmetric] b by (simp add: Inl)
    with fatal_reload_refused s1 show ?thesis by blast
  next
    case (Inr u)
    note left = this
    show ?thesis
    proof (cases r)
      case (Inl err)
      have "commit_candidate L token S I revision candidate sock s
          = Some (fatal_reload (ri_later I) (''reload prepare failed: '' @ err) s2)"
        unfolding commit_candidate_def bound_def [symmetric] b by (simp add: left begun Inl)
      moreover have "rl_session s2 = rl_session s" using s1 s2 by simp
      ultimately show ?thesis using fatal_reload_refused by blast
    next
      case (Inr tx)
      from begin_reload_tx [OF begun [unfolded Inr]] have tx: "tx_revision tx = revision" "tx_candidate tx = candidate" by simp_all
      with cand commit_reload_ok [of tx token I s2] obtain ss where ss:
        "commit_reload token I tx s2 = Some (s2\<lparr>rl_session := ss\<rparr>)" "ss_watches ss = candidate"
        "rl_worker s2 \<longrightarrow> wk_revision (ss_worker ss) = Some revision \<and>
          wk_concurrency (ss_worker ss) = wt_concurrency candidate \<and>
          wk_hooks (ss_worker ss) = wt_hooks candidate \<and>
          wk_recovery_policy (ss_worker ss) = wt_recovery_policy candidate"
        by auto
      have "commit_candidate L token S I revision candidate sock s
          = Some (finish_reload L S I tx (s2\<lparr>rl_session := ss\<rparr>))"
        unfolding commit_candidate_def bound_def [symmetric] b by (simp add: left begun Inr ss(1))
      with ss(2,3) s1 s2 tx show ?thesis by (simp add: finish_reload_fields)
    qed
  qed
qed

lemma reload_refused_cong:
  "rl_session s = rl_session s0 \<Longrightarrow> reload_refused s s' \<Longrightarrow> reload_refused s0 s'"
  by (simp add: reload_refused_def)

lemma handle_candidate_outcome:
  assumes parses: "from_yaml (lb_yaml L) content \<noteq> None" and pos: "0 < pd_concurrency (rs_defaults S)"
  shows "\<exists>s'. handle_candidate L token S I content s = Some s' \<and>
    (reload_kept s s' \<or> reload_refused s s' \<or> reload_committed s s')"
proof -
  define cs where "cs = (case control_socket_from_yaml (lb_yaml L) content of
               Inr path \<Rightarrow> (path, s)
             | Inl err \<Rightarrow> (None, say (''Cannot read socket from candidate: '' @ err) s))"
  obtain sock s1 where cs_eq: "cs = (sock, s1)" by (cases cs)
  have s1: "rl_session s1 = rl_session s" "rl_shutdown s1 = rl_shutdown s" "rl_lifecycle s1 = rl_lifecycle s"
      "rl_tracker s1 = rl_tracker s" "rl_strategy s1 = rl_strategy s" "rl_published s1 = rl_published s" "rl_worker s1 = rl_worker s"
    using cs_eq unfolding cs_def by (auto split: sum.splits)
  note unfold = handle_candidate_def cs_def [symmetric] cs_eq prod.case Let_def
  have "validate_candidate L content (rs_root S) (rs_defaults S) \<noteq> None"
    using parses by (simp add: validate_candidate_def split: option.split sum.split)
  then obtain v where v: "validate_candidate L content (rs_root S) (rs_defaults S) = Some v" by blast
  show ?thesis
  proof (cases v)
    case (Inl err)
    have "handle_candidate L token S I content s = Some (fatal_reload (ri_later I)
        (''invalid config ('' @ gate_label (ce_gate err) @ ''): '' @ ce_reason err) (s1\<lparr>rl_tracker := rl_tracker s1\<rparr>))"
      unfolding unfold by (simp add: decide_def v Inl)
    then show ?thesis using fatal_reload_refused [of "s1\<lparr>rl_tracker := rl_tracker s1\<rparr>" s] s1(1) by auto
  next
    case (Inr config)
    obtain d t where obs: "tracker_observe (lb_hash L) (rl_tracker s1) config = (d, t)" by fastforce
    show ?thesis
    proof (cases d)
      case RevNoOp
      have t: "t = rl_tracker s1" using obs RevNoOp by (simp add: tracker_observe_def Let_def split: if_splits)
      have "handle_candidate L token S I content s
          = Some (say ''Config save has no semantic change; nothing to reload.'' (s1\<lparr>rl_tracker := t\<rparr>))"
        unfolding unfold by (simp add: decide_def v Inr obs RevNoOp)
      with s1 t show ?thesis by (simp add: reload_kept_def)
    next
      case (New revision)
      from observe_number [OF obs [unfolded New]] have t: "t = Some revision"
          "rev_number revision = Suc (case rl_tracker s of Some x \<Rightarrow> rev_number x | None \<Rightarrow> 0)"
        using s1(4) by simp_all
      from validated_candidate_is_built [OF v [unfolded Inr] pos, of revision] obtain wt where wt:
        "build_watches_from_content L content (rs_root S) (rs_defaults S) revision = Some (Inr wt)"
        "wt_revision wt = Some revision" "0 < wt_concurrency wt" by auto
      define s2 where "s2 = s1\<lparr>rl_tracker := t,
        rl_lifecycle := snd (snd (reloading (ri_now I) (Some revision) (rl_lifecycle s1)))\<rparr>"
      have handled: "handle_candidate L token S I content s = commit_candidate L token S I revision wt sock s2"
        unfolding unfold by (simp add: decide_def v Inr obs New wt(1) s2_def)
      have s2: "rl_session s2 = rl_session s" "rl_worker s2 = rl_worker s" "rl_tracker s2 = Some revision"
          "rl_shutdown s2 = rl_shutdown s"
        using s1 t(1) by (simp_all add: s2_def)
      from commit_candidate_outcome [OF wt(2,3), of L token S I sock s2] obtain s' where s':
        "commit_candidate L token S I revision wt sock s2 = Some s'"
        "reload_refused s2 s' \<or> reload_committed s s'"
        unfolding reload_committed_def Let_def using s2 t(2) wt(2) by auto
      then show ?thesis using handled reload_refused_cong [OF s2(1)] by auto
    qed
  qed
qed


section \<open>The committed path\<close>

lemma fatal_reload_invalid: "ct_phase (lc_current (rl_lifecycle (fatal_reload now reason s))) = ConfigInvalid"
  using fatal_reload_refused [of s s] by (simp add: reload_refused_def)

definition bind_step ::
  "reload_settings \<Rightarrow> reload_input \<Rightarrow> string option \<Rightarrow> 'w reload \<Rightarrow> unit result \<times> 'w reload" where
  "bind_step S I sock s = (case sock of
     Some new_path \<Rightarrow>
       if socket_changed (rs_current_socket S) sock
       then prepare_socket (ri_socket_os I) (ri_api_valid I) new_path s else (Inr (), s)
   | None \<Rightarrow> (Inr (), s))"

lemma commit_candidate_unfold:
  "commit_candidate L token S I revision candidate sock s =
     (case bind_step S I sock s of
        (Inl err, s1) \<Rightarrow> Some (fatal_reload (ri_later I) (''control socket rebind failed: '' @ err) s1)
      | (Inr _, s1) \<Rightarrow>
          (case begin_reload L (ri_ack_prepare I) revision candidate sock s1 of
             (Inl err, s2) \<Rightarrow> Some (fatal_reload (ri_later I) (''reload prepare failed: '' @ err) s2)
           | (Inr tx, s2) \<Rightarrow> map_option (finish_reload L S I tx) (commit_reload token I tx s2)))"
  unfolding commit_candidate_def bind_step_def [symmetric] Let_def by (simp split: prod.split sum.split)

lemma commit_candidate_committed:
  assumes "commit_candidate L token S I revision candidate sock s = Some s'"
    and "ct_phase (lc_current (rl_lifecycle s')) = ConfigReloaded"
  obtains s1 s2 ss where "bind_step S I sock s = (Inr (), s1)"
    "begin_reload L (ri_ack_prepare I) revision candidate sock s1
       = (Inr (transaction_of L revision candidate sock (ss_watches (rl_session s1))), s2)"
    "ss_watches ss = candidate"
    "s' = finish_reload L S I (transaction_of L revision candidate sock (ss_watches (rl_session s1)))
            (s2\<lparr>rl_session := ss\<rparr>)"
proof -
  obtain b s1 where b: "bind_step S I sock s = (b, s1)" by fastforce
  obtain r s2 where r: "begin_reload L (ri_ack_prepare I) revision candidate sock s1 = (r, s2)" by fastforce
  note unfolded = assms(1) [unfolded commit_candidate_unfold b prod.case]
  from unfolded assms(2) obtain u where u: "b = Inr u" by (cases b) (auto simp: fatal_reload_invalid)
  from unfolded assms(2) obtain tx where tx: "r = Inr tx" by (cases r) (auto simp: u r fatal_reload_invalid)
  note tx_eq = begin_reload_tx [OF r [unfolded tx]]
  from unfolded obtain s3 where s3: "commit_reload token I tx s2 = Some s3" "s' = finish_reload L S I tx s3"
    by (auto simp: u r tx)
  from s3(1) have "0 < wt_concurrency (tx_candidate tx) \<or> \<not> rl_worker s2"
    by (auto simp: commit_reload_def Let_def set_concurrency_def split: if_splits)
  then obtain ss where "s3 = s2\<lparr>rl_session := ss\<rparr>" "ss_watches ss = candidate"
  proof
    assume "0 < wt_concurrency (tx_candidate tx)"
    from commit_reload_ok [OF this, of token I s2] s3(1) tx_eq show thesis by (auto intro: that)
  next
    assume "\<not> rl_worker s2"
    with s3(1) tx_eq show thesis by (auto simp: commit_reload_def Let_def intro: that)
  qed
  with that b u r tx tx_eq s3(2) show thesis by simp
qed

lemma bind_step_fields:
  assumes "bind_step S I sock s = (b, s1)"
  shows "rl_session s1 = rl_session s \<and> rl_publisher s1 = rl_publisher s \<and> rl_published s1 = rl_published s \<and>
    rl_swapper s1 = rl_swapper s \<and> rl_active_socket s1 = rl_active_socket s \<and> rl_shutdown s1 = rl_shutdown s"
  using assms prepare_socket_fields unfolding bind_step_def by (fastforce split: option.splits if_splits)

section \<open>Watch roots\<close>

lemma set_add_missing: "set (add_missing roots as) = set roots \<union> set as"
  by (induction roots as rule: add_missing.induct) auto

lemma publish_connected:
  "rl_publisher s = Some Connected \<Longrightarrow> rl_published (snd (publish roots m ack s)) = rl_published s @ [roots]"
  by (simp add: publish_def)

lemma begin_reload_published:
  assumes "begin_reload L ack revision candidate sock s = (r, s1)" and "rl_publisher s = Some Connected"
  shows "rl_published s1 = rl_published s @
    (if tx_added_roots (transaction_of L revision candidate sock (ss_watches (rl_session s))) = [] then []
     else [add_missing (current_roots (lb_env L) (ss_watches (rl_session s)))
            (tx_added_roots (transaction_of L revision candidate sock (ss_watches (rl_session s))))])"
  using assms(1)
proof (rule begin_reload_cases)
  fix p
  assume "publish (add_missing (current_roots (lb_env L) (ss_watches (rl_session s)))
          (tx_added_roots (transaction_of L revision candidate sock (ss_watches (rl_session s)))))
          (preparing_notice (tx_added_roots (transaction_of L revision candidate sock (ss_watches (rl_session s))))) ack s
        = (p, s1)" and added: "tx_added_roots (transaction_of L revision candidate sock (ss_watches (rl_session s))) \<noteq> []"
  then have "rl_published s1 = rl_published s @ [add_missing (current_roots (lb_env L) (ss_watches (rl_session s)))
          (tx_added_roots (transaction_of L revision candidate sock (ss_watches (rl_session s))))]"
    using publish_connected [OF assms(2)] by (metis snd_conv)
  with added show ?thesis by (simp del: transaction_fields)
qed simp

lemma finish_reload_published:
  assumes "rl_publisher s = Some Connected"
  shows "rl_published (finish_reload L S I tx s) = rl_published s @
    (if tx_removed_roots tx = [] then [] else [current_roots (lb_env L) (ss_watches (rl_session s))])"
  using assms by (simp add: finish_reload_def Let_def case_prod_beta retire_roots_def publish_connected)

text \<open>
  Around a commit the live backend is told at most two root sets. Each keeps every root that old and
  new configuration share; the first, sent before the commit when roots are added, covers both
  configurations; the last one holds exactly the new roots.
\<close>

lemma reload_covers_roots:
  fixes s :: "'a reload"
  assumes connected: "rl_publisher s = Some Connected"
    and committed: "commit_candidate L token S I revision candidate sock s = Some s'"
      "ct_phase (lc_current (rl_lifecycle s')) = ConfigReloaded"
  shows "\<exists>sent. rl_published s' = rl_published s @ sent \<and> length sent \<le> 2 \<and>
    (\<forall>roots\<in>set sent. set (current_roots (lb_env L) (ss_watches (rl_session s)))
       \<inter> set (current_roots (lb_env L) candidate) \<subseteq> set roots) \<and>
    (sent \<noteq> [] \<longrightarrow> set (last sent) = set (current_roots (lb_env L) candidate)) \<and>
    (sent = [] \<longrightarrow> set (current_roots (lb_env L) (ss_watches (rl_session s))) = set (current_roots (lb_env L) candidate)) \<and>
    (\<not> set (current_roots (lb_env L) candidate) \<subseteq> set (current_roots (lb_env L) (ss_watches (rl_session s))) \<longrightarrow>
       set (hd sent) = set (current_roots (lb_env L) (ss_watches (rl_session s)))
                       \<union> set (current_roots (lb_env L) candidate))"
  using committed
proof (rule commit_candidate_committed)
  fix s1 s2 :: "'a reload" and ss
  let ?tx = "transaction_of L revision candidate sock (ss_watches (rl_session s1))"
  let ?old = "current_roots (lb_env L) (ss_watches (rl_session s))" and ?new = "current_roots (lb_env L) candidate"
  assume bound: "bind_step S I sock s = (Inr (), s1)"
    and begun: "begin_reload L (ri_ack_prepare I) revision candidate sock s1 = (Inr ?tx, s2)"
    and ss: "ss_watches ss = candidate" and s': "s' = finish_reload L S I ?tx (s2\<lparr>rl_session := ss\<rparr>)"
  note s1 = bind_step_fields [OF bound]
  have s2: "rl_publisher s2 = Some Connected"
    using begin_reload_fields [OF begun] s1 connected by simp
  let ?first = "if filter (\<lambda>r. r \<notin> set ?old) ?new = [] then [] else [add_missing ?old (filter (\<lambda>r. r \<notin> set ?old) ?new)]"
  let ?second = "if filter (\<lambda>r. r \<notin> set ?new) ?old = [] then [] else [?new]"
  have "rl_published s' = rl_published s @ ?first @ ?second"
    using begin_reload_published [OF begun] finish_reload_published [of "s2\<lparr>rl_session := ss\<rparr>"] s1 s2 connected
    by (simp add: s' ss)
  moreover have "filter (\<lambda>r. r \<notin> set ?old) ?new = [] \<longleftrightarrow> set ?new \<subseteq> set ?old"
    "filter (\<lambda>r. r \<notin> set ?new) ?old = [] \<longleftrightarrow> set ?old \<subseteq> set ?new"
    by (auto simp: filter_empty_conv)
  moreover have "set (add_missing ?old (filter (\<lambda>r. r \<notin> set ?old) ?new)) = set ?old \<union> set ?new"
    by (auto simp: set_add_missing)
  ultimately show ?thesis
    by (intro exI [of _ "?first @ ?second"]) auto
qed

section \<open>Services\<close>

text \<open>
  The reconciliation stops exactly the services whose signature the new configuration does not
  have, and starts exactly those that are new or changed and do not still run: a service with an
  unchanged signature is neither stopped nor started.
\<close>

lemma unchanged_services_are_untouched:
  assumes order: "\<And>xs. set (order xs) = set xs"
    and names: "distinct (map fst (tx_new_services tx))"
  shows "(n \<in> set (stop_names order tx) \<longleftrightarrow>
      signature_map (tx_old_services tx) n \<noteq> None \<and>
      signature_map (tx_new_services tx) n \<noteq> signature_map (tx_old_services tx) n) \<and>
    (n \<in> set (names_to_start still_running tx) \<longleftrightarrow>
      n \<notin> set still_running \<and> signature_map (tx_new_services tx) n \<noteq> None \<and>
      signature_map (tx_new_services tx) n \<noteq> signature_map (tx_old_services tx) n)"
proof
  have dom: "n \<in> fst ` set specs \<longleftrightarrow> signature_map specs n \<noteq> None" for specs
    by (simp add: signature_map_def map_of_eq_None_iff)
  show "n \<in> set (stop_names order tx) \<longleftrightarrow>
      signature_map (tx_old_services tx) n \<noteq> None \<and>
      signature_map (tx_new_services tx) n \<noteq> signature_map (tx_old_services tx) n"
    using dom [of "tx_old_services tx"] by (simp add: stop_names_def Let_def order)
  have new: "(n, sig) \<in> set (tx_new_services tx) \<longleftrightarrow> signature_map (tx_new_services tx) n = Some sig" for sig
    using names by (simp add: signature_map_def rev_map [symmetric])
  show "n \<in> set (names_to_start still_running tx) \<longleftrightarrow>
      n \<notin> set still_running \<and> signature_map (tx_new_services tx) n \<noteq> None \<and>
      signature_map (tx_new_services tx) n \<noteq> signature_map (tx_old_services tx) n"
    by (auto simp: names_to_start_def Let_def new image_iff)
qed

section \<open>A control socket that moves\<close>

lemma prepare_socket_ok:
  assumes "prepare_socket os valid p s = (Inr u, s1)"
  shows "rl_swapper s1 \<and> rl_socket_pending s1 \<and> st_server (rl_strategy s1) = Some p"
  using assms
  by (auto simp: prepare_socket_def prepare_socket_swap_def server_bind_def and_then_eq_Inr
      split: if_splits prod.splits sum.splits)

lemma retire_socket_pending:
  "rl_socket_pending s \<Longrightarrow> rl_pending_path (retire_socket s) = None"
  "st_server (rl_strategy (retire_socket s)) = st_server (rl_strategy s)"
  "rl_swapper (retire_socket s) = rl_swapper s"
  by (simp_all add: retire_socket_def retire_socket_swap_def split: option.split)

lemma finish_reload_sockets:
  "st_server (rl_strategy (finish_reload L S I tx s)) = st_server (rl_strategy s)"
  "rl_socket_pending s \<Longrightarrow> rl_active_socket s = Some a \<Longrightarrow>
     sh_cleanup_paths (rl_shutdown (finish_reload L S I tx s)) = [a]"
  by (simp_all add: finish_reload_def Let_def case_prod_beta retire_socket_pending set_cleanup_paths_def
      socket_paths_to_cleanup_def)

lemma live_socket_refused:
  assumes "so_exists os p" "so_connects os p"
  shows "\<exists>e. server_bind os valid p = Inl e"
proof -
  have "\<exists>e. prepare_socket_path os p = Inl e"
    using assms by (simp add: prepare_socket_path_def and_then_def split: sum.split option.split)
  then show ?thesis by (auto simp: server_bind_def and_then_def split: sum.split)
qed

lemma live_socket_not_prepared:
  assumes "so_exists os p" "so_connects os p"
  shows "\<exists>e s1. prepare_socket os valid p s = (Inl e, s1)"
  using live_socket_refused [OF assms, of valid] by (auto simp: prepare_socket_def prepare_socket_swap_def)

text \<open>
  C28. The session compares the socket of every candidate with the one of its start. After a committed
  move the server listens at the new path; the paths a shutdown removes name only the old one; and
  the next candidate that commits anything else under the same socket tries to bind the live socket
  again and is refused: the watcher shuts down.
\<close>

lemma moved_socket_is_lost:
  fixes s :: "'a reload"
  assumes moved: "socket_changed (rs_current_socket S) (Some p)"
    and committed: "commit_candidate L token S I revision candidate (Some p) s = Some s'"
      "ct_phase (lc_current (rl_lifecycle s')) = ConfigReloaded"
    and active: "rl_active_socket s = Some a"
    and live: "\<And>q. st_server (rl_strategy s') = Some q \<Longrightarrow>
      so_exists (ri_socket_os I') q \<and> so_connects (ri_socket_os I') q"
  shows "st_server (rl_strategy s') = Some p \<and> sh_cleanup_paths (rl_shutdown s') = [a] \<and>
    (\<exists>s''. commit_candidate L token S I' revision' candidate' (Some p) s' = Some s'' \<and> reload_refused s' s'')"
  using committed
proof (rule commit_candidate_committed)
  fix s1 s2 :: "'a reload" and ss
  let ?tx = "transaction_of L revision candidate (Some p) (ss_watches (rl_session s1))"
  assume bound: "bind_step S I (Some p) s = (Inr (), s1)"
    and begun: "begin_reload L (ri_ack_prepare I) revision candidate (Some p) s1 = (Inr ?tx, s2)"
    and s': "s' = finish_reload L S I ?tx (s2\<lparr>rl_session := ss\<rparr>)"
  from bound moved have "prepare_socket (ri_socket_os I) (ri_api_valid I) p s = (Inr (), s1)"
    by (simp add: bind_step_def)
  from prepare_socket_ok [OF this] begin_reload_fields [OF begun] bind_step_fields [OF bound] active
  have s2: "rl_socket_pending s2" "st_server (rl_strategy s2) = Some p" "rl_active_socket s2 = Some a" by simp_all
  have server: "st_server (rl_strategy s') = Some p" using s2 by (simp add: s' finish_reload_sockets)
  moreover have "sh_cleanup_paths (rl_shutdown s') = [a]"
    unfolding s' by (rule finish_reload_sockets) (simp_all add: s2)
  moreover have "\<exists>s''. commit_candidate L token S I' revision' candidate' (Some p) s' = Some s'' \<and> reload_refused s' s''"
  proof -
    from live [OF server] obtain e s1' where again: "prepare_socket (ri_socket_os I') (ri_api_valid I') p s' = (Inl e, s1')"
      using live_socket_not_prepared by blast
    then have "commit_candidate L token S I' revision' candidate' (Some p) s'
        = Some (fatal_reload (ri_later I') (''control socket rebind failed: '' @ e) s1')"
      using moved by (simp add: commit_candidate_unfold bind_step_def)
    moreover have "rl_session s1' = rl_session s'" using prepare_socket_fields [OF again] by simp
    ultimately show ?thesis using fatal_reload_refused by blast
  qed
  ultimately show ?thesis by blast
qed

text \<open>A candidate whose socket is bound and whose roots the backend acknowledges is committed.\<close>

lemma acknowledged_candidate_commits:
  assumes bound: "bind_step S I sock s = (Inr (), s1)"
    and ack: "rl_publisher s = Some Connected" "ri_ack_prepare I = Some (Inr ())"
    and pos: "0 < wt_concurrency candidate"
  shows "\<exists>s'. commit_candidate L token S I revision candidate sock s = Some s' \<and>
    ct_phase (lc_current (rl_lifecycle s')) = ConfigReloaded"
proof -
  let ?tx = "transaction_of L revision candidate sock (ss_watches (rl_session s1))"
  have pub: "rl_publisher s1 = Some Connected" using bind_step_fields [OF bound] ack(1) by simp
  have "publish roots m (ri_ack_prepare I) s1 = (Inr (), s1\<lparr>rl_published := rl_published s1 @ [roots]\<rparr>)" for roots m
    using pub ack(2) by (simp add: publish_def publish_swap_def)
  then obtain s2 where begun: "begin_reload L (ri_ack_prepare I) revision candidate sock s1 = (Inr ?tx, s2)"
    unfolding begin_reload_def Let_def by (cases "tx_added_roots ?tx = []") (auto simp del: transaction_fields)
  from commit_reload_ok [of ?tx token I s2] pos obtain ss where
    "commit_reload token I ?tx s2 = Some (s2\<lparr>rl_session := ss\<rparr>)" by auto
  with bound begun show ?thesis by (simp add: commit_candidate_unfold finish_reload_fields)
qed

section \<open>Examples\<close>

definition demo_lib :: reload_lib where
  "demo_lib = \<lparr>lb_yaml = demo_yaml [YHash demo_hash], lb_env = Watches_Model.demo_env,
     lb_hash = Config_Revision.demo_env, lb_colored = False\<rparr>"

definition demo_settings :: reload_settings where
  "demo_settings = \<lparr>rs_config_paths = [''/w/.watch.yaml''], rs_truncate = True, rs_current_socket = Some ''a.sock'',
     rs_root = ''/w'', rs_defaults = \<lparr>pd_concurrency = 2, pd_debounce = 0, pd_backend = Auto, pd_gitignore = False,
       pd_recovery_policy = Prompt, pd_hooks = no_hooks, pd_session_hooks = \<lparr>hook_close = None\<rparr>\<rparr>\<rparr>"

definition demo_sockets :: "bool \<Rightarrow> socket_os" where
  "demo_sockets live = \<lparr>so_create_dirs = (\<lambda>_. Inr ()), so_exists = (\<lambda>_. live), so_connects = (\<lambda>_. live),
     so_remove = (\<lambda>_. Inr ()), so_bind = (\<lambda>_. Inr ()), so_restrict = (\<lambda>_. Inr ()), so_nonblocking = Inr (),
     so_parent = (\<lambda>_. None)\<rparr>"

definition demo_input :: "bool \<Rightarrow> reload_input" where
  "demo_input live = \<lparr>ri_order = (\<lambda>xs. xs), ri_channel = 0, ri_still_running = Inr [], ri_ack_prepare = Some (Inr ()),
     ri_ack_retire = Some (Inr ()), ri_socket_os = demo_sockets live, ri_api_valid = Inr (),
     ri_modified = (\<lambda>_. Some 1), ri_read = (\<lambda>_. Inr []), ri_canonical = Some, ri_truncate = Inr (),
     ri_now = 1, ri_later = 2\<rparr>"

definition demo_reload :: "unit reload" where
  "demo_reload = \<lparr>rl_session = demo_session, rl_worker = True, rl_publisher = Some Connected, rl_swapper = True,
     rl_strategy = \<lparr>st_server = Some ''a.sock'', st_old_server = None, st_dropped = []\<rparr>, rl_socket_pending = False,
     rl_pending_path = None, rl_active_socket = Some ''a.sock'', rl_lifecycle = lifecycle_new 0, rl_tracker = None,
     rl_shutdown = shutdown_new \<lparr>hook_close = None\<rparr>, rl_baselines = Map.empty, rl_published = [], rl_printed = []\<rparr>"

definition demo_candidate :: watches where
  "demo_candidate = demo_watches\<lparr>wt_rules := [], wt_topology := from_rules []\<rparr>"

lemma demo_lib_parses: "from_yaml (lb_yaml demo_lib) content \<noteq> None"
  by (simp add: demo_lib_def demo_yaml_def from_yaml_def)


lemma demo_moved: "socket_changed (rs_current_socket demo_settings) (Some ''b.sock'')"
proof -
  have "path_components ''a.sock'' \<noteq> path_components ''b.sock''" by code_simp
  then show ?thesis by (simp add: demo_settings_def socket_changed_def)
qed

lemma demo_commits:
  "\<exists>s'. commit_candidate demo_lib (\<lambda>_ w. w) demo_settings (demo_input False) \<lparr>rev_number = 1, rev_hash = ''h''\<rparr>
          demo_candidate (Some ''b.sock'') demo_reload = Some s' \<and>
        ct_phase (lc_current (rl_lifecycle s')) = ConfigReloaded"
proof -
  have "\<exists>s1. bind_step demo_settings (demo_input False) (Some ''b.sock'') demo_reload = (Inr (), s1)"
    using demo_moved
    by (simp add: bind_step_def prepare_socket_def prepare_socket_swap_def server_bind_def prepare_socket_path_def
        demo_reload_def demo_input_def demo_sockets_def)
  moreover have "0 < wt_concurrency demo_candidate"
    by (simp add: demo_candidate_def demo_watches_def with_root_and_concurrency_def)
  moreover have "rl_publisher demo_reload = Some Connected" "ri_ack_prepare (demo_input False) = Some (Inr ())"
    by (simp_all add: demo_reload_def demo_input_def)
  ultimately show ?thesis using acknowledged_candidate_commits by blast
qed

lemma moved_socket_is_lost_witness:
  "\<exists>(s' :: unit reload) s''. st_server (rl_strategy s') = Some ''b.sock'' \<and> sh_cleanup_paths (rl_shutdown s') = [''a.sock''] \<and>
     commit_candidate demo_lib (\<lambda>_ w. w) demo_settings (demo_input True) \<lparr>rev_number = 2, rev_hash = ''g''\<rparr>
       demo_watches (Some ''b.sock'') s' = Some s'' \<and> reload_refused s' s''"
proof -
  from demo_commits obtain s' where s':
    "commit_candidate demo_lib (\<lambda>_ w. w) demo_settings (demo_input False) \<lparr>rev_number = 1, rev_hash = ''h''\<rparr>
          demo_candidate (Some ''b.sock'') demo_reload = Some s'"
    "ct_phase (lc_current (rl_lifecycle s')) = ConfigReloaded" by blast
  have active: "rl_active_socket demo_reload = Some ''a.sock''" by (simp add: demo_reload_def)
  have "so_exists (ri_socket_os (demo_input True)) q \<and> so_connects (ri_socket_os (demo_input True)) q" for q
    by (simp add: demo_input_def demo_sockets_def)
  from moved_socket_is_lost [OF demo_moved s' active this, of "\<lparr>rev_number = 2, rev_hash = ''g''\<rparr>" demo_watches]
  show ?thesis by - (rule exI [of _ s'], elim conjE exE, intro exI conjI, assumption+)
qed

lemma reload_covers_roots_witness:
  "\<exists>(s' :: unit reload) sent. rl_published s' = sent \<and> length sent \<le> 2 \<and>
    (sent \<noteq> [] \<longrightarrow> set (last sent) = set (current_roots (lb_env demo_lib) demo_candidate))"
proof -
  from demo_commits obtain s' where s':
    "commit_candidate demo_lib (\<lambda>_ w. w) demo_settings (demo_input False) \<lparr>rev_number = 1, rev_hash = ''h''\<rparr>
          demo_candidate (Some ''b.sock'') demo_reload = Some s'"
    "ct_phase (lc_current (rl_lifecycle s')) = ConfigReloaded" by blast
  have "rl_publisher demo_reload = Some Connected" "rl_published demo_reload = []" by (simp_all add: demo_reload_def)
  with reload_covers_roots [OF this(1) s'] obtain sent where "rl_published s' = sent" "length sent \<le> 2"
      "sent \<noteq> [] \<longrightarrow> set (last sent) = set (current_roots (lb_env demo_lib) demo_candidate)"
    unfolding append_Nil by (elim exE conjE) simp
  then show ?thesis by blast
qed

definition demo_tx :: reload_transaction where
  "demo_tx = (transaction_of demo_lib \<lparr>rev_number = 1, rev_hash = ''h''\<rparr> demo_watches None demo_watches)
     \<lparr>tx_old_services := [(''kept'', ''1''), (''gone'', ''2''), (''changed'', ''3'')],
      tx_new_services := [(''kept'', ''1''), (''changed'', ''4'')]\<rparr>"

lemma unchanged_services_are_untouched_witness:
  "''kept'' \<notin> set (stop_names (\<lambda>xs. xs) demo_tx) \<and> ''gone'' \<in> set (stop_names (\<lambda>xs. xs) demo_tx) \<and>
   ''kept'' \<notin> set (names_to_start [] demo_tx) \<and> ''changed'' \<in> set (names_to_start [] demo_tx)"
proof -
  have "distinct (map fst (tx_new_services demo_tx))" by (simp add: demo_tx_def)
  note touched = unchanged_services_are_untouched [of "\<lambda>xs. xs", OF refl this]
  show ?thesis
    using touched [of "''kept''" "[]"] touched [of "''gone''" "[]"] touched [of "''changed''" "[]"]
    by (simp add: demo_tx_def signature_map_def)
qed

end
