(* ===== verification/Cli_Templates.thy ===== *)
theory Cli_Templates
  imports Option_Catalog Yaml_Access Config_Model
begin

text \<open>
  The starter configurations, \<open>src/src/cli/templates.rs\<close> and \<open>src/src/cli/init.rs\<close>: the named
  profiles, the commented template rendered from the option catalog, and the command that writes a
  profile to a file.
\<close>

section \<open>Text\<close>

definition text_lines :: "string list \<Rightarrow> string" where
  "text_lines ls = concat (map (\<lambda>l. l @ [newline]) ls)"

definition trim_end_chars :: "char set \<Rightarrow> string \<Rightarrow> string" where
  "trim_end_chars cs s = rev (dropWhile (\<lambda>c. c \<in> cs) (rev s))"

section \<open>Profiles\<close>

datatype profile = Comprehensive | Minimal | Parallel_Profile | Agent

definition profile_names :: "string list" where
  "profile_names = [''comprehensive'', ''minimal'', ''parallel'', ''agent'']"

definition profile_parse :: "string \<Rightarrow> profile option" where
  "profile_parse raw =
     (if raw = ''comprehensive'' then Some Comprehensive
      else if raw = ''minimal'' then Some Minimal
      else if raw = ''parallel'' then Some Parallel_Profile
      else if raw = ''agent'' then Some Agent
      else None)"

fun profile_name :: "profile \<Rightarrow> string" where
  "profile_name Comprehensive = ''comprehensive''"
| "profile_name Minimal = ''minimal''"
| "profile_name Parallel_Profile = ''parallel''"
| "profile_name Agent = ''agent''"

definition minimal_yaml :: string where
  \<open>minimal_yaml = text_lines
    [''on:'',
     ''  change: "**/*"'',
     [],
     ''jobs:'',
     ''  - name: build'',
     ''    run: "cargo build"'']\<close>

definition parallel_yaml :: string where
  \<open>parallel_yaml = text_lines
    [''on:'',
     ''  change: "src/**"'',
     [],
     ''execution:'',
     ''  concurrency: 2'',
     [],
     ''jobs:'',
     ''  - name: lint'',
     ''    parallel: checks'',
     ''    run: "cargo clippy"'',
     [],
     ''  - name: test'',
     ''    parallel: checks'',
     ''    run: "cargo test"'',
     [],
     ''  - name: package'',
     ''    run: "cargo build"'']\<close>

definition agent_yaml :: string where
  \<open>agent_yaml = text_lines
    [''# Agent loop example: control socket + a verify-style job.'',
     ''# Next commands:'',
     ''#   fzz check          # validate this config'',
     ''#   fzz list           # see the targets'',
     ''#   fzz run verify     # run once locally'',
     ''#   fzz watch          # start the watcher + control socket'',
     ''on:'',
     ''  change: "**/*"'',
     ''  socket: .tmp/funzzy/control.sock'',
     [],
     ''execution:'',
     ''  concurrency: 2'',
     ''  recovery_policy: prompt'',
     [],
     ''jobs:'',
     ''  - name: verify @agent-final'',
     ''    run: "cargo test"'',
     ''    change: "src/**"'',
     ''    ignore: "target/**"'',
     [],
     ''  - name: lint @quick'',
     ''    run: "cargo fmt -- --check"'',
     ''    recovery: "cargo fmt --"'',
     ''    change: "src/**"'',
     ''    run_on_init: true'']\<close>

section \<open>The commented template\<close>

definition comment_for :: "option_spec \<Rightarrow> string \<Rightarrow> string" where
  "comment_for spec indent =
     indent @ ''# '' @ spec_name spec @ '': '' @ trim_end_chars {CHR ''.'', CHR '' ''} (spec_help spec)
     @ (case spec_default spec of Some d \<Rightarrow> '' (default: '' @ d @ '')'' | None \<Rightarrow> [])
     @ (case spec_values spec of Some v \<Rightarrow> '' values: '' @ v | None \<Rightarrow> [])"

definition find_in :: "owner \<Rightarrow> string \<Rightarrow> option_spec option" where
  "find_in own name = find (\<lambda>s. spec_name s = name) (specs_of own)"

definition init_header :: string where
  \<open>init_header = text_lines
    [''## Funzzy events file '' @ [CHR 0xE2] @ [CHR 0x80] @ [CHR 0x94] @ '' .watch.yaml'',
     ''# Comprehensive commented starter: small active setup, every supported'',
     ''# option documented in comments. Full reference: `fzz config schema`.'',
     ''#'',
     ''# Next commands:'',
     ''#   fzz check                  validate this file (no watcher)'',
     ''#   fzz list                   show configured jobs'',
     ''#   fzz run <name>             run one job once'',
     ''#   fzz / fzz watch            start watching'',
     ''#   fzz control status         talk to the running watcher'',
     ''#   fzz config example minimal tiny machine-copyable starter'',
     [],
     ''on:'']\<close>

definition example_lines :: "string \<Rightarrow> option_spec \<Rightarrow> string" where
  "example_lines indent spec = text_lines (map (\<lambda>l. indent @ l) (spec_example spec))"

definition on_block :: string where
  "on_block = concat (map (\<lambda>spec.
     comment_for spec ''  '' @ [newline]
     @ (if spec_name spec = ''socket'' then ''  socket: .tmp/funzzy/control.sock'' @ [newline]
        else example_lines ''  # '' spec)) ON_SPECS)"

definition policy_block :: "string \<Rightarrow> owner \<Rightarrow> string" where
  \<open>policy_block name own =
     [newline] @ name @ '':'' @ [newline]
     @ concat (map (\<lambda>spec.
         comment_for spec ''  '' @ [newline]
         @ (if own = OwnExecution \<and> spec_name spec = ''concurrency'' then ''  concurrency: 2'' @ [newline]
            else if own = OwnHooks \<and> spec_name spec = ''success''
            then ''  success: echo "Funzzy generation succeeded"'' @ [newline]
            else example_lines ''  # '' spec)) (specs_of own))\<close>

definition jobs_block :: string where
  "jobs_block =
     [newline] @ ''jobs:'' @ [newline]
     @ ''  # Optional job properties '' @ [CHR 0xE2, CHR 0x80, CHR 0x94]
     @ '' uncomment the reference job to activate:'' @ [newline]
     @ ''  #'' @ [newline]
     @ concat (map (\<lambda>spec. comment_for spec ''  '' @ [newline])
         (filter (\<lambda>spec. spec_name spec \<notin> {''change'', ''ignore'', ''run_on_init''}) JOB_SPECS))
     @ ''  #'' @ [newline]
     @ ''  # - name: reference'' @ [newline]
     @ concat (map (example_lines ''  #   '')
         (filter (\<lambda>spec. spec_name spec \<notin> {''name'', ''run_on_init''}) JOB_SPECS))"

text \<open>\<open>expect\<close> on the lookup of a job property: \<^const>\<open>None\<close> is the panic.\<close>

definition starter_block :: "string option" where
  \<open>starter_block = (case (find_in OwnJob ''run_on_init'', find_in OwnJob ''change'', find_in OwnJob ''ignore'') of
     (Some init, Some change, Some ign) \<Rightarrow>
       Some ([newline] @ ''  - name: hello world'' @ [newline]
         @ comment_for init ''    '' @ [newline] @ ''    run_on_init: true'' @ [newline]
         @ ''    run: echo "Funzzy hello world! Next step, add rules into .watch.yaml"'' @ [newline]
         @ [newline] @ ''  - name: list files'' @ [newline]
         @ comment_for change ''    '' @ [newline] @ ''    change: '' @ quoted ''**/*.txt'' @ [newline]
         @ comment_for ign ''    '' @ [newline] @ ''    ignore: '' @ quoted ''**/*.log'' @ [newline]
         @ ''    run: '' @ quoted ''ls -a'' @ [newline])
   | _ \<Rightarrow> None)\<close>

definition render_init_template :: "string option" where
  "render_init_template = map_option (\<lambda>starter.
     init_header @ on_block @ policy_block ''execution'' OwnExecution @ policy_block ''hooks'' OwnHooks
     @ jobs_block @ starter) starter_block"

fun render :: "profile \<Rightarrow> string option" where
  "render Comprehensive = render_init_template"
| "render Minimal = Some minimal_yaml"
| "render Parallel_Profile = Some parallel_yaml"
| "render Agent = Some agent_yaml"

definition render_profile :: "string \<Rightarrow> string fzz_result option" where
  "render_profile raw = (case profile_parse raw of
     Some p \<Rightarrow> map_option Inr (render p)
   | None \<Rightarrow> Some (Inl (GenericError (''unknown template profile: '' @ raw))))"

section \<open>The init command\<close>

text \<open>
  The files the command sees, with what opening, creating and writing answers; a write that fails
  leaves a part of the text.
\<close>

record init_os =
  io_readable :: "string \<Rightarrow> bool"
  io_create :: "string \<Rightarrow> io_error option"
  io_write :: "string \<Rightarrow> (io_error \<times> nat) option"

type_synonym disk = "string \<rightharpoonup> string"

definition init_execute ::
  "init_os \<Rightarrow> string \<Rightarrow> profile \<Rightarrow> disk \<Rightarrow> (string fzz_result \<times> disk) option" where
  "init_execute os file prof d =
     (if file \<in> dom d \<and> io_readable os file then
        Some (Inl (IoConfigError ''Configuration file already exists (.watch.yaml)'' None), d)
      else case io_create os file of
        Some err \<Rightarrow> Some (Inl (IoConfigError ''Failed to create the configuration file'' (Some err)), d)
      | None \<Rightarrow>
          (case render prof of
             None \<Rightarrow> None
           | Some text \<Rightarrow>
               (case io_write os text of
                  Some (err, n) \<Rightarrow>
                    Some (Inl (IoConfigError ''Failed to write into configuration file'' (Some err)), d(file \<mapsto> take n text))
                | None \<Rightarrow>
                    Some (Inr ''Configuration file created successfully! To start run `fzz`'', d(file \<mapsto> text)))))"

section \<open>Properties\<close>

lemma profile_round_trip: "profile_parse (profile_name p) = Some p"
  by (cases p) (simp_all add: profile_parse_def)

lemma starter_total: "starter_block \<noteq> None"
  by (simp add: starter_block_def find_in_def JOB_SPECS_def)

lemma render_total: "render p \<noteq> None"
  using starter_total by (cases p) (simp_all add: render_init_template_def)

text \<open>
  The file a template is written to holds exactly the bytes the example command prints for the
  same name, an existing configuration is never replaced, and rendering never panics.
\<close>

lemma init_writes_what_the_example_prints:
  "\<exists>r d'. init_execute os file p d = Some (r, d') \<and>
     (\<forall>msg. r = Inr msg \<longrightarrow> (\<exists>text. render_profile (profile_name p) = Some (Inr text) \<and> d' = d(file \<mapsto> text))) \<and>
     (file \<in> dom d \<and> io_readable os file \<longrightarrow> d' = d)"
proof -
  from render_total [of p] obtain body where body: "render p = Some body" by blast
  have "render_profile (profile_name p) = Some (Inr body)"
    by (simp add: render_profile_def profile_round_trip body)
  then show ?thesis
    by (cases "io_create os file"; cases "io_write os body") (auto simp: init_execute_def body)
qed

end
