(* ===== verification/Cli_Migrate.thy ===== *)
theory Cli_Migrate
  imports Config_Model
begin

text \<open>
  The rewrite of a legacy configuration into the preferred form, \<open>src/src/cli/migrate.rs\<close>: the pure
  transformation of the text, and the command that validates the candidate and replaces the file
  through a temporary one.
\<close>

section \<open>The transformation\<close>

definition ends_with_newline :: "string \<Rightarrow> bool" where
  "ends_with_newline s \<longleftrightarrow> s \<noteq> [] \<and> last s = newline"

definition rename_line :: "string \<Rightarrow> string \<Rightarrow> string \<Rightarrow> string" where
  "rename_line old_key new_key line =
     (let trimmed = trim_front white_space line in
      if trimmed = old_key @ '':'' \<and> starts_with line trimmed
      then take (length line - length trimmed) line @ new_key @ '':''
      else line)"

definition rename_root_key :: "string \<Rightarrow> string \<Rightarrow> string \<Rightarrow> string" where
  "rename_root_key content old_key new_key =
     join_with [newline] (map (rename_line old_key new_key) (str_lines content))
     @ (if ends_with_newline content then [newline] else [])"

fun index_of :: "('a \<Rightarrow> bool) \<Rightarrow> 'a list \<Rightarrow> nat option" where
  "index_of p [] = None"
| "index_of p (x # xs) = (if p x then Some 0 else map_option Suc (index_of p xs))"

definition starts_task :: "string \<Rightarrow> bool" where
  "starts_task line =
     (let line = trim_front white_space line in line = ''-'' \<or> starts_with line ''- '' \<and> line \<noteq> ''---'')"

definition indent_line :: "string \<Rightarrow> string" where
  "indent_line line = (if str_trim line = [] then line else ''  '' @ line)"

definition wrap_tasks :: "nat \<Rightarrow> string \<Rightarrow> string" where
  "wrap_tasks task_start legacy =
     (let lines = lines_of legacy in
      concat (take task_start lines) @ ''jobs:'' @ [newline] @ concat (map indent_line (drop task_start lines)))"

definition migrate_content :: "yaml_lib \<Rightarrow> string \<Rightarrow> string fzz_result" where
  "migrate_content Y legacy = (case yl_load Y legacy of
     Inl err \<Rightarrow>
       Inl (InvalidConfigError ''Invalid legacy .watch.yaml'' (Some err)
         (Some ''Fix the YAML syntax before running `fzz migrate`''))
   | Inr documents \<Rightarrow>
       if length documents \<noteq> 1 then
         Inl (GenericError ''Legacy .watch.yaml must contain exactly one YAML document'')
       else
         (let wrapped =
                (case index_of starts_task (str_lines legacy) of
                   None \<Rightarrow> Inl (GenericError ''Legacy .watch.yaml does not contain any tasks to migrate'')
                 | Some task_start \<Rightarrow> Inr (wrap_tasks task_start legacy))
          in case hd documents of
               YArray _ \<Rightarrow> wrapped
             | document \<Rightarrow>
                 if yl_index Y document ''jobs'' \<noteq> YBadValue then Inr legacy
                 else if yl_index Y document ''tasks'' \<noteq> YBadValue then
                   Inr (rename_root_key legacy ''tasks'' ''jobs'')
                 else Inl (GenericError ''Legacy .watch.yaml root must be a task list'')))"

section \<open>The command\<close>

text \<open>
  The files as a map; reading, staging and renaming may fail. Staging writes the sibling file; a
  failed write leaves a part of it.
\<close>

record migrate_os =
  mo_read :: "io_error option"
  mo_stage :: "(io_error \<times> nat) option"
  mo_rename :: "io_error option"

definition backup_name :: "string \<Rightarrow> string" where
  "backup_name file = file @ ''.fzz-migrate-tmp''"

definition migrate_execute ::
  "yaml_lib \<Rightarrow> bool \<Rightarrow> migrate_os \<Rightarrow> string \<Rightarrow> (string \<rightharpoonup> string) \<Rightarrow> (string fzz_result \<times> (string \<rightharpoonup> string)) option" where
  "migrate_execute Y colored os file d =
     (case (mo_read os, d file) of
        (Some err, _) \<Rightarrow> Some (Inl (IoConfigError (''Failed to read '' @ file) (Some err)), d)
      | (None, None) \<Rightarrow>
          Some (Inl (IoConfigError (''Failed to read '' @ file) (Some \<lparr>io_kind = NotFound, io_text = ''entity not found''\<rparr>)), d)
      | (None, Some legacy) \<Rightarrow>
          (case migrate_content Y legacy of
             Inl err \<Rightarrow> Some (Inl err, d)
           | Inr migrated \<Rightarrow>
               (case from_yaml Y migrated of
                  None \<Rightarrow> None
                | Some (Inl err) \<Rightarrow>
                    Some (Inl (GenericError (''Migrated '' @ file @ '' would be invalid: '' @ error_text colored err
                      @ ''. This is a bug in fzz migrate; the original file was not changed'')), d)
                | Some (Inr _) \<Rightarrow>
                    if migrated = legacy then
                      Some (Inr (file @ '' is already in the preferred jobs: form''), d)
                    else
                      (case mo_stage os of
                         Some (err, n) \<Rightarrow>
                           Some (Inl (IoConfigError (''Failed to stage migrated '' @ file) (Some err)),
                             d(backup_name file \<mapsto> take n migrated))
                       | None \<Rightarrow>
                           (case mo_rename os of
                              Some err \<Rightarrow>
                                Some (Inl (IoConfigError (''Failed to replace '' @ file) (Some err)),
                                  d(backup_name file := None))
                            | None \<Rightarrow>
                                Some (Inr (file @ '' migrated to the jobs: form''),
                                  d(file \<mapsto> migrated, backup_name file := None)))))))"

section \<open>Properties\<close>

lemma backup_name_other [simp]: "backup_name file \<noteq> file" "file \<noteq> backup_name file"
  by (simp_all add: backup_name_def)

text \<open>
  Under every combination of failures the file is either untouched, or holds a complete text that the
  parser of the watcher accepts; it changes only when the command reports success.
\<close>

lemma migration_is_atomic:
  assumes "migrate_execute Y colored os file d = Some (r, d')"
  shows "d' file = d file \<or>
    (\<exists>legacy migrated rs. d file = Some legacy \<and> migrate_content Y legacy = Inr migrated \<and>
       from_yaml Y migrated = Some (Inr rs) \<and> d' file = Some migrated \<and>
       r = Inr (file @ '' migrated to the jobs: form''))"
  using assms
  by (auto simp: migrate_execute_def split: option.splits sum.splits if_splits prod.splits)

lemma split_inclusive_lines:
  "CHR 0x0D \<notin> set s \<Longrightarrow>
     join_with [newline] (map strip_line (split_inclusive newline s)) @ (if ends_with_newline s then [newline] else []) = s"
proof (induction s)
  case (Cons c s)
  let ?ls = "split_inclusive newline s"
  from Cons have IH: "join_with [newline] (map strip_line ?ls) @ (if ends_with_newline s then [newline] else []) = s" by simp
  have no: "CHR 0x0D \<notin> set l" if "l \<in> set ?ls" for l
  proof -
    have "set l \<subseteq> set (concat ?ls)" using that unfolding set_concat by blast
    with Cons.prems show ?thesis by auto
  qed
  have strip: "strip_line l = (if l \<noteq> [] \<and> last l = newline then butlast l else l)" if "CHR 0x0D \<notin> set l" for l
  proof -
    have "last (butlast l) \<noteq> CHR 0x0D" if "butlast l \<noteq> []"
      using that \<open>CHR 0x0D \<notin> set l\<close> in_set_butlastD last_in_set by metis
    then show ?thesis by (auto simp: strip_line_def Let_def)
  qed
  show ?case
  proof (cases ?ls)
    case Nil
    then have "s = []" using concat_split_inclusive [of newline s] by simp
    then show ?thesis using Cons.prems by (auto simp: strip_line_def ends_with_newline_def)
  next
    case (Cons l ls)
    have l: "l \<noteq> []" using split_inclusive_nonempty [of l newline s] Cons by simp
    have s: "s \<noteq> []" using Cons by auto
    have ends: "ends_with_newline (c # s) = ends_with_newline s" using s by (simp add: ends_with_newline_def)
    show ?thesis
    proof (cases "c = newline")
      case True
      then have "split_inclusive newline (c # s) = [c] # ?ls" by simp
      moreover have "strip_line [newline] = []" by (simp add: strip_line_def)
      moreover have "join_with [newline] ([] # map strip_line ?ls) = newline # join_with [newline] (map strip_line ?ls)"
        using Cons by (simp add: join_with_Cons)
      ultimately show ?thesis using IH ends True by simp
    next
      case False
      then have split: "split_inclusive newline (c # s) = (c # l) # ls" using Cons by simp
      have c: "c \<noteq> CHR 0x0D" using Cons.prems by auto
      have "strip_line (c # l) = c # strip_line l"
        using strip [of l] strip [of "c # l"] no [of l] l c by (simp add: Cons)
      then have "join_with [newline] (map strip_line ((c # l) # ls)) = c # join_with [newline] (map strip_line (l # ls))"
        by (cases ls) simp_all
      with IH show ?thesis unfolding split ends Cons by simp
    qed
  qed
qed (simp add: ends_with_newline_def)

lemma join_str_lines:
  "CHR 0x0D \<notin> set s \<Longrightarrow>
     join_with [newline] (str_lines s) @ (if ends_with_newline s then [newline] else []) = s"
  using split_inclusive_lines by (simp add: str_lines_def lines_of_def)

lemma rename_without_key:
  assumes "CHR 0x0D \<notin> set content" and "\<forall>line\<in>set (str_lines content). trim_front white_space line \<noteq> ''tasks:''"
  shows "rename_root_key content ''tasks'' ''jobs'' = content"
proof -
  have "map (rename_line ''tasks'' ''jobs'') (str_lines content) = str_lines content"
    using assms(2) by (intro map_idI) (simp add: rename_line_def)
  with join_str_lines [OF assms(1)] show ?thesis by (simp add: rename_root_key_def)
qed

text \<open>
  A grouped legacy configuration whose root key does not stand alone on its line, as in a line that
  ends with a comment, is not rewritten: the text stays as it is, and the command reports that it is
  already in the preferred form.
\<close>

lemma commented_tasks_key_is_not_migrated:
  assumes content: "d path = Some content" "CHR 0x0D \<notin> set content"
      "\<forall>line\<in>set (str_lines content). trim_front white_space line \<noteq> ''tasks:''"
    and legacy: "yl_load Y content = Inr [YHash h]" "yl_index Y (YHash h) ''jobs'' = YBadValue"
      "yl_index Y (YHash h) ''tasks'' \<noteq> YBadValue" "from_yaml Y content = Some (Inr rs)"
    and readable: "mo_read os = None"
  shows "migrate_content Y content = Inr content \<and>
    migrate_execute Y colored os path d = Some (Inr (path @ '' is already in the preferred jobs: form''), d)"
proof -
  have "migrate_content Y content = Inr content"
    using legacy rename_without_key [OF content(2,3)] by (simp add: migrate_content_def)
  with content(1) legacy(4) readable show ?thesis by (simp add: migrate_execute_def)
qed

section \<open>An example\<close>

definition tasks_yaml :: yaml_lib where
  "tasks_yaml =
     \<lparr>yl_load = (\<lambda>_. Inr [YHash [(YString ''tasks'', YArray [YHash [(YString ''name'', YString ''a''), (YString ''run'', YString ''b'')]])]]),
      yl_index = (\<lambda>y k. case y of
        YHash h \<Rightarrow> (case map_of h (YString k) of Some v \<Rightarrow> v | None \<Rightarrow> YBadValue) | _ \<Rightarrow> YBadValue),
      yl_as_str = (\<lambda>y. case y of YString s \<Rightarrow> Some s | _ \<Rightarrow> None),
      yl_debug = (\<lambda>_. [])\<rparr>"

definition commented :: string where
  "commented = ''tasks: # mine'' @ [newline] @ ''  - {name: a, run: b}'' @ [newline]"

lemma commented_lines: "str_lines commented = [''tasks: # mine'', ''  - {name: a, run: b}'']"
  by code_simp

lemma commented_parses: "from_yaml tasks_yaml commented = Some (Inr [rules_new ''a'' [''b''] [] [] False])"
  by code_simp

lemma commented_tasks_key_is_not_migrated_witness:
  "migrate_content tasks_yaml commented = Inr commented \<and>
   migrate_execute tasks_yaml False \<lparr>mo_read = None, mo_stage = None, mo_rename = None\<rparr> ''f'' [''f'' \<mapsto> commented]
     = Some (Inr ''f is already in the preferred jobs: form'', [''f'' \<mapsto> commented])"
proof -
  let ?h = "[(YString ''tasks'', YArray [YHash [(YString ''name'', YString ''a''), (YString ''run'', YString ''b'')]])]"
  have "trim_front white_space ''tasks: # mine'' \<noteq> ''tasks:''" "trim_front white_space ''  - {name: a, run: b}'' \<noteq> ''tasks:''"
    by code_simp+
  then have plain: "\<forall>line\<in>set (str_lines commented). trim_front white_space line \<noteq> ''tasks:''"
    by (simp add: commented_lines)
  have cr: "CHR 0x0D \<notin> set commented" by (simp add: commented_def newline_def char_of_def)
  have root: "yl_load tasks_yaml commented = Inr [YHash ?h]" "yl_index tasks_yaml (YHash ?h) ''jobs'' = YBadValue"
    "yl_index tasks_yaml (YHash ?h) ''tasks'' \<noteq> YBadValue"
    by (simp_all add: tasks_yaml_def)
  have "[''f'' \<mapsto> commented] ''f'' = Some commented" by simp
  from commented_tasks_key_is_not_migrated [where d = "[''f'' \<mapsto> commented]" and path = "''f''"
      and os = "\<lparr>mo_read = None, mo_stage = None, mo_rename = None\<rparr>", OF this cr plain root commented_parses]
  show ?thesis by simp
qed

lemma migration_is_atomic_witness:
  "\<exists>r d'. migrate_execute tasks_yaml False \<lparr>mo_read = None, mo_stage = None, mo_rename = None\<rparr> ''f'' [''f'' \<mapsto> ''x''] = Some (r, d') \<and>
     (d' ''f'' = Some ''x'' \<or> (\<exists>legacy migrated rs. [''f'' \<mapsto> ''x''] ''f'' = Some legacy \<and> migrate_content tasks_yaml legacy = Inr migrated \<and>
       from_yaml tasks_yaml migrated = Some (Inr rs) \<and> d' ''f'' = Some migrated \<and>
       r = Inr (''f'' @ '' migrated to the jobs: form'')))"
proof -
  let ?e = "migrate_execute tasks_yaml False \<lparr>mo_read = None, mo_stage = None, mo_rename = None\<rparr> ''f'' [''f'' \<mapsto> ''x'']"
  have parses: "from_yaml tasks_yaml content = None \<longleftrightarrow> False" for content by (simp add: from_yaml_def tasks_yaml_def)
  then have "?e \<noteq> None"
    by (auto simp: migrate_execute_def parses split: sum.split option.split if_split)
  then obtain r d' where e: "?e = Some (r, d')" by (metis option.exhaust surj_pair)
  from migration_is_atomic [OF e] e show ?thesis by auto
qed

end
