(* ===== verification/Json_Value.thy ===== *)
theory Json_Value
  imports Ordered_Map Yaml_Access
begin

text \<open>
  JSON documents as the sources build and read them. The constructors of \<open>serde_json::Value\<close> are a
  datatype whose objects are ordered maps (the crate's default \<open>Map\<close>); a number is an integer of
  64 bits or a float, kept as its text. Lookup, indexing, assignment to a member, the reading of a
  number and the text encodings are the functions of the record \<open>json_lib\<close>, with their documented
  behaviour as the predicate \<open>json_documented\<close>.
\<close>

datatype json =
  JNull | JBool bool | JInt int | JFloat string | JStr string | JArr "json list" | JObj "(string \<times> json) list"

record json_lib =
  jl_parse :: "string \<Rightarrow> string + json"
  jl_get :: "json \<Rightarrow> string \<Rightarrow> json option"
  jl_as_u64 :: "json \<Rightarrow> nat option"
  jl_as_i64 :: "json \<Rightarrow> int option"
  jl_index :: "json \<Rightarrow> string \<Rightarrow> json"
  jl_set :: "string \<Rightarrow> json \<Rightarrow> json \<Rightarrow> json"
  jl_compact :: "json \<Rightarrow> string"
  jl_pretty :: "json \<Rightarrow> string"
  jl_toon :: "json \<Rightarrow> string"

definition json_documented :: "json_lib \<Rightarrow> bool" where
  "json_documented J \<longleftrightarrow>
     (\<forall>j k. jl_get J j k = (case j of JObj m \<Rightarrow> bt_get m k | _ \<Rightarrow> None)) \<and>
     (\<forall>j. jl_as_u64 J j = (case j of JInt n \<Rightarrow> if 0 \<le> n \<and> n < 2 ^ 64 then Some (nat n) else None | _ \<Rightarrow> None)) \<and>
     (\<forall>j. jl_as_i64 J j = (case j of JInt n \<Rightarrow> if - (2 ^ 63) \<le> n \<and> n < 2 ^ 63 then Some n else None | _ \<Rightarrow> None)) \<and>
     (\<forall>m k. jl_index J (JObj m) k = (case bt_get m k of Some v \<Rightarrow> v | None \<Rightarrow> JNull)) \<and>
     (\<forall>m k v. jl_set J k v (JObj m) = JObj (bt_insert k v m))"

text \<open>An object literal: its members are inserted one after the other.\<close>

definition members :: "(string \<times> json) list \<Rightarrow> (string, json) btree" where
  "members kvs = foldl (\<lambda>m (k, v). bt_insert k v m) [] kvs"

definition jobject :: "(string \<times> json) list \<Rightarrow> json" where
  "jobject kvs = JObj (members kvs)"

definition jstrings :: "string list \<Rightarrow> json" where
  "jstrings ss = JArr (map JStr ss)"

definition joption :: "('a \<Rightarrow> json) \<Rightarrow> 'a option \<Rightarrow> json" where
  "joption f x = (case x of Some a \<Rightarrow> f a | None \<Rightarrow> JNull)"

text \<open>A member that is written only when there is a value.\<close>

definition jset_some :: "json_lib \<Rightarrow> string \<Rightarrow> json option \<Rightarrow> json \<Rightarrow> json" where
  "jset_some J k x doc = (case x of Some v \<Rightarrow> jl_set J k v doc | None \<Rightarrow> doc)"

text \<open>
  \<open>to_value\<close> of a struct with a derived \<open>Serialize\<close>: one member per field, without the fields that
  \<open>skip_serializing_if\<close> leaves out.
\<close>

fun jfields :: "(string \<times> json option) list \<Rightarrow> (string \<times> json) list" where
  "jfields [] = []"
| "jfields ((k, Some v) # fs) = (k, v) # jfields fs"
| "jfields ((k, None) # fs) = jfields fs"

definition jrecord :: "(string \<times> json option) list \<Rightarrow> json" where
  "jrecord fs = jobject (jfields fs)"

text \<open>The variant tests and projections of a value.\<close>

fun as_str :: "json \<Rightarrow> string option" where
  "as_str (JStr s) = Some s"
| "as_str _ = None"

fun as_bool :: "json \<Rightarrow> bool option" where
  "as_bool (JBool b) = Some b"
| "as_bool _ = None"

fun is_object :: "json \<Rightarrow> bool" where
  "is_object (JObj _) = True"
| "is_object _ = False"

fun is_array :: "json \<Rightarrow> bool" where
  "is_array (JArr _) = True"
| "is_array _ = False"

fun as_array :: "json \<Rightarrow> json list option" where
  "as_array (JArr js) = Some js"
| "as_array _ = None"

definition as_object :: "json \<Rightarrow> json option" where
  "as_object j = (if is_object j then Some j else None)"

fun is_id :: "json \<Rightarrow> bool" where
  "is_id JNull = True"
| "is_id (JStr _) = True"
| "is_id (JInt _) = True"
| "is_id (JFloat _) = True"
| "is_id _ = False"

definition jnat :: "nat \<Rightarrow> json" where
  "jnat n = JInt (int n)"

lemma members_snoc [simp]: "members (kvs @ [(k, v)]) = bt_insert k v (members kvs)"
  by (simp add: members_def)

lemma fold_members_keys:
  "fst ` set (foldl (\<lambda>m (k, v). bt_insert k v m) m0 kvs) = fst ` set m0 \<union> fst ` set kvs"
proof (induction kvs arbitrary: m0)
  case (Cons kv kvs)
  obtain k v where "kv = (k, v)" by (cases kv)
  moreover have "fst ` set (bt_insert k v m0) = insert k (fst ` set m0)" using keys_insert [of k v m0] by simp
  ultimately show ?case using Cons by auto
qed simp

lemma members_keys: "fst ` set (members kvs) = fst ` set kvs"
  using fold_members_keys [of "[]"] by (simp add: members_def)

lemma bt_ok_members: "bt_ok (members kvs)"
proof -
  have "bt_ok m0 \<Longrightarrow> bt_ok (foldl (\<lambda>m (k, v). bt_insert k v m) m0 kvs)" for m0
    by (induction kvs arbitrary: m0) auto
  then show ?thesis by (simp add: members_def bt_ok_def)
qed

definition demo_json :: json_lib where
  "demo_json =
     \<lparr>jl_parse = (\<lambda>_. Inl []),
      jl_get = (\<lambda>j k. case j of JObj m \<Rightarrow> bt_get m k | _ \<Rightarrow> None),
      jl_as_u64 = (\<lambda>j. case j of JInt n \<Rightarrow> if 0 \<le> n \<and> n < 2 ^ 64 then Some (nat n) else None | _ \<Rightarrow> None),
      jl_as_i64 = (\<lambda>j. case j of JInt n \<Rightarrow> if - (2 ^ 63) \<le> n \<and> n < 2 ^ 63 then Some n else None | _ \<Rightarrow> None),
      jl_index = (\<lambda>j k. case j of JObj m \<Rightarrow> (case bt_get m k of Some v \<Rightarrow> v | None \<Rightarrow> JNull) | _ \<Rightarrow> JNull),
      jl_set = (\<lambda>k v j. case j of JObj m \<Rightarrow> JObj (bt_insert k v m) | _ \<Rightarrow> j),
      jl_compact = (\<lambda>_. []), jl_pretty = (\<lambda>_. []), jl_toon = (\<lambda>_. [])\<rparr>"

lemma demo_json_documented: "json_documented demo_json"
  by (simp add: json_documented_def demo_json_def)

end
