(* ===== verification/Config_Schema.thy ===== *)
theory Config_Schema
  imports Json_Value Option_Catalog Config_Model
begin

text \<open>
  The JSON schema of a configuration, \<open>src/src/cli/config.rs\<close>, computed from the option catalog, and
  its agreement with the allowlists of the parser.
\<close>

definition SECTIONS :: "string list" where
  "SECTIONS = [''on'', ''execution'', ''hooks'', ''job'', ''matching'', ''parallel'', ''control'']"

definition described :: "string \<Rightarrow> string \<Rightarrow> (string \<times> json) list" where
  "described typ text = [(''type'', JStr typ), (''description'', JStr text)]"

section \<open>Properties of a section\<close>

fun kind_schema :: "spec_kind \<Rightarrow> json" where
  "kind_schema KBool = jobject [(''type'', JStr ''boolean'')]"
| "kind_schema KInt = jobject [(''type'', JStr ''integer''), (''minimum'', JInt 1)]"
| "kind_schema KString = jobject [(''type'', JStr ''string'')]"
| "kind_schema KStringList =
     jobject [(''type'', jstrings [''string'', ''array'']), (''items'', jobject [(''type'', JStr ''string'')])]"
| "kind_schema KDuration = jobject [(''type'', JStr ''string''), (''pattern'', JStr ''^[0-9]+(ms|s|m)?$'')]"
| "kind_schema (KEnum vals) = jobject [(''type'', JStr ''string''), (''enum'', jstrings vals)]"
| "kind_schema KStringMap =
     jobject [(''type'', JStr ''object''), (''additionalProperties'', jobject [(''type'', JStr ''string'')])]"

definition schema_property :: "json_lib \<Rightarrow> option_spec \<Rightarrow> json" where
  "schema_property J spec =
     (let prop = jl_set J ''description'' (JStr (spec_help spec)) (kind_schema (spec_kind spec)) in
      case spec_default spec of
        None \<Rightarrow> prop
      | Some d \<Rightarrow>
          (case spec_kind spec of
             KBool \<Rightarrow> jl_set J ''default'' (JBool (d = ''true'')) prop
           | KEnum _ \<Rightarrow> jl_set J ''default'' (JStr d) prop
           | KString \<Rightarrow> jl_set J ''default'' (JStr d) prop
           | KDuration \<Rightarrow> jl_set J ''default'' (JStr d) prop
           | _ \<Rightarrow> prop))"

definition section_properties :: "json_lib \<Rightarrow> owner \<Rightarrow> json" where
  "section_properties J own = jobject (map (\<lambda>spec. (spec_name spec, schema_property J spec)) (specs_of own))"

section \<open>Sections\<close>

definition section_on :: "json_lib \<Rightarrow> json" where
  "section_on J = jobject
     [(''type'', JStr ''object''), (''title'', JStr ''on''),
      (''description'', JStr ''Common watch settings shared by every job.''),
      (''properties'', section_properties J OwnOn), (''additionalProperties'', JBool False)]"

definition section_job :: "json_lib \<Rightarrow> json" where
  "section_job J =
     (let schema = jobject
        [(''type'', JStr ''object''), (''title'', JStr ''job''),
         (''description'', JStr ''One configured workflow unit. Runs as a task in each generation.''),
         (''required'', jstrings [''name'', ''run'']),
         (''properties'', section_properties J OwnJob), (''additionalProperties'', JBool False)]
      in jl_set J ''allOf''
           (JArr [jobject [(''not'', jobject
              [(''required'', jstrings [''service'', ''recovery'']),
               (''properties'', jobject [(''service'', jobject [(''const'', JBool True)])])])]]) schema)"

definition section_matching :: json where
  "section_matching = jobject
     [(''title'', JStr ''matching''),
      (''description'', JStr ''Change/ignore matching semantics (GITIGNORE-CONTRACT).''),
      (''properties'', jobject
        [(''change_globs'', jobject
           [(''type'', JStr ''array''), (''items'', jobject [(''type'', JStr ''string'')]),
            (''description'', JStr ''Glob patterns; relative and absolute forms both supported.'')]),
         (''ignore_precedence'', jobject
           [(''type'', JStr ''string''), (''enum'', jstrings [''config-ignore-wins'', ''gitignore'']),
            (''description'', JStr ''Explicit config ignore wins over gitignore; gitignore applies only when respect_gitignore is true.'')]),
         (''filepath_template'', jobject
           [(''type'', JStr ''string''), (''enum'', jstrings [''{{filepath}}'', ''{{paths}}'', ''{{relative_filepath}}'']),
            (''description'', JStr ''Template variables available in run commands.'')])])]"

definition section_execution :: "json_lib \<Rightarrow> json" where
  "section_execution J = jobject
     [(''type'', JStr ''object''), (''title'', JStr ''execution''),
      (''description'', JStr ''Configuration execution policy.''),
      (''properties'', section_properties J OwnExecution), (''additionalProperties'', JBool False)]"

definition section_hooks :: "json_lib \<Rightarrow> json" where
  "section_hooks J = jobject
     [(''type'', JStr ''object''), (''title'', JStr ''hooks''),
      (''description'', JStr ''Generation and watcher-session lifecycle hooks.''),
      (''properties'', section_properties J OwnHooks), (''additionalProperties'', JBool False)]"

definition section_parallel :: json where
  "section_parallel = jobject
     [(''title'', JStr ''parallel''),
      (''description'', JStr ''Named contiguous groups and barriers (PARALLEL-EXECUTION-CONTRACT).''),
      (''properties'', jobject
        [(''group'', jobject (described ''string'' (''A job'' @ [quote_char] @ ''s parallel group name.''))),
         (''concurrency'', jobject
           [(''type'', JStr ''integer''), (''minimum'', JInt 1), (''description'', JStr ''Scheduler bound (on.concurrency).'')]),
         (''occurrence'', jobject
           (described ''string'' ''Runtime identity name#N; order inside a group is unspecified.''))])]"

definition section_control :: json where
  "section_control = jobject
     [(''title'', JStr ''control''),
      (''description'', JStr ''Control socket and protocol (AGENT-FEEDBACK-CONTRACT).''),
      (''properties'', jobject
        [(''socket'', jobject (described ''string'' ''on.socket path.'')),
         (''cli_alias'', jobject
           [(''type'', JStr ''string''), (''enum'', jstrings [''control'', ''ctl'']),
            (''description'', JStr ''control and ctl are interchangeable.'')]),
         (''methods'', jobject
           [(''type'', JStr ''array''), (''items'', jobject [(''type'', JStr ''string'')]),
            (''description'', JStr ''status, targets, run, emit, await, cancel, output, capabilities, subscribe.'')])])]"

definition schema_refs :: "(string \<times> json) list" where
  "schema_refs =
     [(''on'', jobject [(''$ref'', JStr ''#/$defs/on'')]),
      (''execution'', jobject [(''$ref'', JStr ''#/$defs/execution'')]),
      (''hooks'', jobject [(''$ref'', JStr ''#/$defs/hooks'')]),
      (''jobs'', jobject
        [(''type'', JStr ''array''), (''minItems'', JInt 1), (''items'', jobject [(''$ref'', JStr ''#/$defs/job'')]),
         (''description'', JStr ''Ordered list of configured jobs. Declaration order and contiguous parallel groups are semantic; jobs do not form a DAG (JOBS-CONFIG-CONTRACT).'')])]"

definition schema_defs :: "json_lib \<Rightarrow> (string \<times> json) list" where
  "schema_defs J =
     [(''on'', section_on J), (''job'', section_job J), (''matching'', section_matching),
      (''execution'', section_execution J), (''hooks'', section_hooks J), (''parallel'', section_parallel),
      (''control'', section_control)]"

definition full_schema :: "json_lib \<Rightarrow> json" where
  "full_schema J = jobject
     [(''$schema'', JStr ''https://json-schema.org/draft/2020-12/schema''),
      (''$id'', JStr ''funzzy://config/schema/v2''),
      (''title'', JStr ''Funzzy .watch.yaml V2''),
      (''description'', JStr ''Agent-discoverable V2 configuration schema. Semantic checks are delegated to `fzz check`.''),
      (''type'', JStr ''object''), (''additionalProperties'', JBool False),
      (''required'', jstrings [''jobs'']),
      (''properties'', jobject schema_refs), (''$defs'', jobject (schema_defs J))]"

definition section_identity :: "string \<Rightarrow> json" where
  "section_identity sec = jobject
     [(''section'', JStr sec), (''fullSchemaCommand'', JStr ''fzz config schema''),
      (''description'', JStr (''Bounded self-contained schema for the '' @ quoted sec @ '' section.''))]"

definition schema_document :: "json_lib \<Rightarrow> string option \<Rightarrow> json" where
  "schema_document J sec = (case sec of
     None \<Rightarrow> full_schema J
   | Some name \<Rightarrow>
       (let body = jl_index J (jl_index J (full_schema J) ''$defs'') name;
            doc = jobject
              [(''$schema'', JStr ''https://json-schema.org/draft/2020-12/schema''),
               (''$id'', JStr (''funzzy://config/schema/v2/sections/'' @ name)),
               (''type'', JStr ''object''), (''properties'', jobject [(name, body)]),
               (''description'', JStr ''Section of the Funzzy .watch.yaml schema. See fullSchemaCommand for the complete schema.'')];
            identity = section_identity name
        in jl_set J ''fullSchemaCommand'' (jl_index J identity ''fullSchemaCommand'')
             (jl_set J ''section'' (jl_index J identity ''section'') doc)))"

section \<open>Agreement with the parser\<close>

fun section_of :: "owner \<Rightarrow> json_lib \<Rightarrow> json" where
  "section_of OwnOn = section_on"
| "section_of OwnExecution = section_execution"
| "section_of OwnHooks = section_hooks"
| "section_of OwnJob = section_job"
| "section_of OwnRoot = full_schema"

text \<open>What the schema says about the property names of a section.\<close>

definition closed_over :: "json_lib \<Rightarrow> json \<Rightarrow> string set \<Rightarrow> bool" where
  "closed_over J s names \<longleftrightarrow>
     jl_index J s ''additionalProperties'' = JBool False \<and>
     (\<exists>m. jl_index J s ''properties'' = JObj m \<and> fst ` set m = names)"

lemma bt_get_members_last: "bt_get (members (kvs @ [(k, v)])) j = (if j = k then Some v else bt_get (members kvs) j)"
  by (simp add: bt_get_insert bt_ok_members)

lemma bt_get_members_Nil [simp]: "bt_get (members []) j = None"
  by (simp add: members_def)

lemma bt_get_members:
  "bt_get (members kvs) j = map_of (rev kvs) j"
proof (induction kvs rule: rev_induct)
  case (snoc kv kvs)
  obtain k v where kv: "kv = (k, v)" by (cases kv)
  show ?case unfolding kv bt_get_members_last by (simp add: snoc)
qed simp

lemma index_jobject: "json_documented J \<Longrightarrow> jl_index J (jobject kvs) k = (case map_of (rev kvs) k of Some v \<Rightarrow> v | None \<Rightarrow> JNull)"
  by (simp add: json_documented_def jobject_def bt_get_members)

lemma index_set_jobject:
  "json_documented J \<Longrightarrow> jl_index J (jl_set J k v (jobject kvs)) j = (if j = k then v else jl_index J (jobject kvs) j)"
  by (simp add: json_documented_def jobject_def bt_get_insert bt_ok_members)

lemma section_properties_names:
  "\<exists>m. section_properties J own = JObj m \<and> fst ` set m = set (property_names own)"
  by (simp add: section_properties_def jobject_def members_keys property_names_def image_image comp_def
      del: property_names_simps)

text \<open>
  For every section the schema forbids additional properties and names exactly the properties that
  the parser's allowlist accepts in a configuration of the preferred form.
\<close>

lemma schema_agrees_with_allowlist:
  assumes "json_documented J"
  shows "closed_over J (section_of own J) (set (property_names own))"
proof -
  have closed: "closed_over J s (set (property_names own))"
    if "jl_index J s ''additionalProperties'' = JBool False" "jl_index J s ''properties'' = section_properties J own" for s own
    using that section_properties_names [of J own] by (simp add: closed_over_def del: property_names_simps)
  note index = index_jobject [OF assms] index_set_jobject [OF assms]
  show ?thesis
  proof (cases own)
    case OwnRoot
    have "fst ` set (members schema_refs) = set (property_names OwnRoot)"
      unfolding members_keys by (auto simp: schema_refs_def)
    moreover have "jl_index J (full_schema J) ''additionalProperties'' = JBool False"
      "jl_index J (full_schema J) ''properties'' = JObj (members schema_refs)"
      by (simp_all add: full_schema_def index) (simp add: jobject_def)
    ultimately show ?thesis unfolding OwnRoot section_of.simps closed_over_def by blast
  next
    case OwnOn
    show ?thesis unfolding OwnOn section_of.simps by (rule closed) (simp_all add: section_on_def index)
  next
    case OwnExecution
    show ?thesis unfolding OwnExecution section_of.simps by (rule closed) (simp_all add: section_execution_def index)
  next
    case OwnHooks
    show ?thesis unfolding OwnHooks section_of.simps by (rule closed) (simp_all add: section_hooks_def index)
  next
    case OwnJob
    show ?thesis unfolding OwnJob section_of.simps by (rule closed) (simp_all add: section_job_def Let_def index)
  qed
qed

lemma schema_agrees_with_allowlist_witness:
  "closed_over demo_json (section_of OwnOn demo_json) (set (property_names OwnOn))"
  by (rule schema_agrees_with_allowlist [OF demo_json_documented])

end
