(* ===== verification/Wire_Format.thy ===== *)
theory Wire_Format
  imports Json_Value Snapshot_Broker Output_Paging Watch_Loop
begin

text \<open>
  The documents of the control wire: what the derived \<open>Serialize\<close> of each answer type writes. Field
  names are in camel case, enumerations in the case their attribute names, an absent optional field
  is null unless the source skips it. None of these types has a map with keys that are not strings
  or a hand-written serializer, so \<open>to_value\<close> never fails on them.
\<close>

section \<open>Enumerations\<close>

fun json_execution_state :: "watcher_execution_state \<Rightarrow> json" where
  "json_execution_state WS_Idle = JStr ''idle''"
| "json_execution_state WS_Running = JStr ''running''"
| "json_execution_state WS_Passed = JStr ''passed''"
| "json_execution_state WS_Failed = JStr ''failed''"
| "json_execution_state WS_Cancelled = JStr ''cancelled''"

fun json_task_state :: "task_state \<Rightarrow> json" where
  "json_task_state TS_Passed = JStr ''passed''"
| "json_task_state TS_Failed = JStr ''failed''"
| "json_task_state TS_Cancelled = JStr ''cancelled''"

fun json_terminal_reason :: "terminal_reason \<Rightarrow> json" where
  "json_terminal_reason TR_Passed = JStr ''passed''"
| "json_terminal_reason TR_Failed = JStr ''failed''"
| "json_terminal_reason TR_Cancelled = JStr ''cancelled''"
| "json_terminal_reason TR_Superseded = JStr ''superseded''"
| "json_terminal_reason TR_Timeout = JStr ''timeout''"
| "json_terminal_reason TR_Disconnected = JStr ''disconnected''"
| "json_terminal_reason TR_Restarted = JStr ''restarted''"

fun json_freshness :: "freshness \<Rightarrow> json" where
  "json_freshness Current = JStr ''current''"
| "json_freshness Stale = JStr ''stale''"
| "json_freshness freshness.Unknown = JStr ''unknown''"

fun json_phase :: "config_phase \<Rightarrow> json" where
  "json_phase PhaseIdle = JStr ''idle''"
| "json_phase ConfigReloading = JStr ''configReloading''"
| "json_phase ConfigReloaded = JStr ''configReloaded''"
| "json_phase ConfigInvalid = JStr ''configInvalid''"

fun json_confidence :: "estimate_confidence \<Rightarrow> json" where
  "json_confidence NoConfidence = JStr ''none''"
| "json_confidence LowConfidence = JStr ''low''"
| "json_confidence MediumConfidence = JStr ''medium''"
| "json_confidence HighConfidence = JStr ''high''"

fun json_source :: "estimate_source \<Rightarrow> json" where
  "json_source Measured = JStr ''measured''"
| "json_source Configured = JStr ''configured''"

section \<open>Structures\<close>

definition json_instance :: "watcher_instance \<Rightarrow> json" where
  "json_instance i = jrecord
     [(''token'', Some (JStr (wi_token i))),
      (''startedAtEpochMs'', Some (jnat (wi_started_at_epoch_ms i)))]"

definition json_task :: "task_snapshot \<Rightarrow> json" where
  "json_task t = jrecord
     [(''id'', Some (JStr (ts_id t))),
      (''name'', Some (JStr (ts_name t))),
      (''state'', Some (json_task_state (ts_state t))),
      (''durationMs'', Some (joption jnat (ts_duration_ms t)))]"

definition json_watcher_state :: "watcher_state \<Rightarrow> json" where
  "json_watcher_state w = jrecord
     [(''generation'', Some (jnat (ws_generation w))),
      (''state'', Some (json_execution_state (ws_state w))),
      (''trigger'', Some (joption JStr (ws_trigger w))),
      (''commands'', Some (jstrings (ws_commands w))),
      (''durationMs'', Some (joption jnat (ws_duration_ms w))),
      (''failures'', Some (jstrings (ws_failures w))),
      (''batch'', Some (joption jnat (ws_batch w))),
      (''changed'', Some (jstrings (ws_changed w))),
      (''predecessor'', Some (joption jnat (ws_predecessor w))),
      (''supersededBy'', Some (joption jnat (ws_superseded_by w))),
      (''tasks'', Some (JArr (map json_task (ws_tasks w)))),
      (''effectiveConcurrency'', Some (joption jnat (ws_effective_concurrency w))),
      (''concurrencySource'', Some (joption JStr (ws_concurrency_source w))),
      (''revision'', Some (joption jnat (ws_revision w))),
      (''revisionHash'', Some (joption JStr (ws_revision_hash w)))]"

definition json_pending :: "pending_work \<Rightarrow> json" where
  "json_pending p = jrecord
     [(''debounceActive'', Some (JBool (pw_debounce_active p))),
      (''queuedBatches'', Some (jnat (pw_queued_batches p)))]"

definition json_transition :: "config_transition \<Rightarrow> json" where
  "json_transition t = jrecord
     [(''phase'', Some (json_phase (ct_phase t))),
      (''revision'', Some (joption jnat (ct_revision t))),
      (''revisionHash'', Some (joption JStr (ct_revision_hash t))),
      (''reason'', map_option JStr (ct_reason t)),
      (''ordinal'', Some (jnat (ct_ordinal t))),
      (''atEpochMs'', Some (jnat (ct_at_epoch_ms t)))]"

definition json_estimate :: "run_estimate \<Rightarrow> json" where
  "json_estimate e = jrecord
     [(''typicalMs'', Some (jnat (unat (re_typical_ms e)))),
      (''upperMs'', Some (jnat (unat (re_upper_ms e)))),
      (''recommendedTimeoutMs'', Some (jnat (unat (re_recommended_timeout_ms e)))),
      (''samples'', Some (jnat (re_samples e))),
      (''confidence'', Some (json_confidence (re_confidence e))),
      (''source'', Some (json_source (re_source e)))]"

definition json_output_ref :: "output_ref \<Rightarrow> json" where
  "json_output_ref r = jrecord
     [(''instanceToken'', Some (JStr (ref_instance_token r))),
      (''generation'', Some (jnat (ref_generation r))),
      (''task'', Some (JStr (ref_task r))),
      (''mode'', Some (JStr (ref_mode r))),
      (''tail'', Some (jnat (ref_tail r))),
      (''maxBytes'', Some (jnat (ref_max_bytes r))),
      (''retrieve'', Some (JStr (ref_retrieve r)))]"

definition json_evidence :: "evidence \<Rightarrow> json" where
  "json_evidence e = jrecord
     [(''excerpt'', Some (JStr (fe_excerpt e))),
      (''lines'', Some (jnat (fe_lines e))),
      (''truncated'', Some (JBool (fe_truncated e))),
      (''totalObservedBytes'', Some (jnat (fe_total_observed_bytes e))),
      (''retainedBytes'', Some (jnat (fe_retained_bytes e))),
      (''retrieve'', Some (JStr (fe_retrieve e))),
      (''outputRef'', map_option json_output_ref (fe_output_ref e)),
      (''additionalFailedTasks'', Some (jnat (fe_additional_failed_tasks e)))]"

definition json_await_result :: "await_result \<Rightarrow> json" where
  "json_await_result r = jrecord
     [(''snapshot'', Some (json_watcher_state (ar_snapshot r))),
      (''terminalReason'', Some (json_terminal_reason (ar_terminal_reason r))),
      (''latestGeneration'', Some (jnat (ar_latest_generation r))),
      (''latestBatch'', Some (joption jnat (ar_latest_batch r))),
      (''pendingWork'', Some (json_pending (ar_pending_work r))),
      (''freshness'', Some (json_freshness (ar_freshness r))),
      (''failureEvidence'', map_option json_evidence (ar_failure_evidence r)),
      (''configLifecycle'', map_option json_transition (ar_config_lifecycle r))]"

definition json_snapshot :: "correlated_snapshot \<Rightarrow> json" where
  "json_snapshot c = jrecord
     [(''instance'', Some (json_instance (cs_instance c))),
      (''generation'', Some (jnat (cs_generation c))),
      (''batchId'', Some (JStr (cs_batch_id c))),
      (''state'', Some (json_execution_state (cs_state c))),
      (''trigger'', Some (joption JStr (cs_trigger c))),
      (''commands'', Some (jstrings (cs_commands c))),
      (''tasks'', Some (JArr (map json_task (cs_tasks c)))),
      (''pending'', Some (jnat (correlated_snapshot.cs_pending c))),
      (''freshness'', Some (json_freshness (cs_freshness c))),
      (''durationMs'', Some (joption jnat (cs_duration_ms c))),
      (''failures'', Some (jstrings (cs_failures c))),
      (''paths'', Some (jstrings (cs_paths c))),
      (''estimate'', map_option json_estimate (cs_estimate c)),
      (''configuredConcurrency'', Some (jnat (cs_configured_concurrency c))),
      (''effectiveConcurrency'', Some (jnat (cs_effective_concurrency c))),
      (''concurrencySource'', map_option JStr (cs_concurrency_source c)),
      (''revision'', map_option jnat (cs_revision c)),
      (''revisionHash'', map_option JStr (cs_revision_hash c)),
      (''configLifecycle'', map_option json_transition (cs_config_lifecycle c)),
      (''failureEvidence'', map_option json_evidence (cs_failure_evidence c))]"

definition json_stream :: "stream_output \<Rightarrow> json" where
  "json_stream s = jrecord
     [(''content'', Some (JStr (so_content s))),
      (''lines'', Some (jnat (so_lines s))),
      (''retainedBytes'', Some (jnat (so_retained_bytes s))),
      (''observedBytes'', Some (jnat (so_observed_bytes s))),
      (''truncated'', Some (JBool (so_truncated s)))]"

definition json_retrieved_task :: "retrieved_task \<Rightarrow> json" where
  "json_retrieved_task t = jrecord
     [(''id'', Some (JStr (rt_id t))),
      (''stdout'', Some (joption json_stream (rt_stdout t))),
      (''stderr'', Some (joption json_stream (rt_stderr t)))]"

definition json_retrieved :: "retrieved_output \<Rightarrow> json" where
  "json_retrieved r = jrecord
     [(''generation'', Some (jnat (ro_generation r))),
      (''revision'', map_option jnat (ro_revision r)),
      (''revisionHash'', map_option JStr (ro_revision_hash r)),
      (''resolvedTask'', map_option JStr (ro_resolved_task r)),
      (''tasks'', Some (JArr (map json_retrieved_task (ro_tasks r)))),
      (''nextCursor'', map_option JStr (ro_next_cursor r)),
      (''returnedBytes'', map_option jnat (ro_returned_bytes r)),
      (''truncated'', map_option JBool (ro_truncated r))]"

definition json_scheduled :: "scheduled_run \<Rightarrow> json" where
  "json_scheduled r = jrecord
     [(''runId'', Some (jnat (sr_run_id r))),
      (''revision'', map_option jnat (sr_revision r)),
      (''revisionHash'', map_option JStr (sr_revision_hash r))]"

definition json_emit :: "emit_outcome \<Rightarrow> json" where
  "json_emit e = jrecord
     [(''matched'', Some (jstrings (em_matched e))),
      (''runId'', Some (joption jnat (em_run_id e))),
      (''outcome'', Some (JStr (em_outcome e))),
      (''revision'', map_option jnat (em_revision e)),
      (''revisionHash'', map_option JStr (em_revision_hash e))]"

section \<open>What a member of a document is\<close>

lemma bt_get_foldl:
  "bt_ok m0 \<Longrightarrow> distinct (map fst kvs) \<Longrightarrow>
   bt_get (foldl (\<lambda>m (k, v). bt_insert k v m) m0 kvs) k =
     (case map_of kvs k of Some v \<Rightarrow> Some v | None \<Rightarrow> bt_get m0 k)"
proof (induction kvs arbitrary: m0)
  case (Cons kv kvs)
  obtain k' v where kv: "kv = (k', v)" by (cases kv)
  have rest: "k' \<notin> fst ` set kvs" using Cons.prems(2) kv by simp
  have step: "bt_get (foldl (\<lambda>m (k, v). bt_insert k v m) (bt_insert k' v m0) kvs) k =
      (case map_of kvs k of Some v \<Rightarrow> Some v | None \<Rightarrow> bt_get (bt_insert k' v m0) k)"
    using Cons by auto
  have "map_of kvs k' = None" using rest by (simp add: map_of_eq_None_iff)
  with step show ?case using Cons.prems(1) kv by (auto simp: bt_get_insert split: option.splits)
qed simp

lemma jobject_get:
  assumes "json_documented J" and "distinct (map fst kvs)"
  shows "jl_get J (jobject kvs) k = map_of kvs k"
proof -
  have "bt_get (members kvs) k = map_of kvs k"
    unfolding members_def using bt_get_foldl [of "[]" kvs k] assms(2)
    by (cases "map_of kvs k") (simp_all add: bt_ok_def)
  then show ?thesis using assms(1) by (simp add: json_documented_def jobject_def)
qed

end
