(* ===== verification/Control_Protocol.thy ===== *)
theory Control_Protocol
  imports Wire_Format
begin

text \<open>
  The control server, \<open>src/src/control.rs\<close>: the capabilities an API object is built from, the
  validation of a request, the dispatcher, the handlers of every method and the loop that serves one
  connection.

  The handlers that the watch loop injects (run, emit, cancel, targets, estimates) are fields of the
  API, as they are in the source, and act on the state \<open>'s\<close> of the process. A connection is the
  list of results of its \<open>read\<close> calls; what other threads do between two requests is part of the
  environment of a turn. A panic of the client thread is \<^const>\<open>None\<close>.
\<close>

section \<open>The API object\<close>

record control_target =
  tg_name :: string
  tg_commands :: "string list"

definition MAX_RESPONSE_BYTES :: nat where "MAX_RESPONSE_BYTES = 65536"

definition MAX_CLIENT_THREADS :: nat where "MAX_CLIENT_THREADS = 64"

definition OUTPUT_PAGE_MAX_BYTES :: nat where "OUTPUT_PAGE_MAX_BYTES = 32 * 1024"

type_synonym rpc_failure = "int \<times> string \<times> json option"
type_synonym rpc_result = "rpc_failure + json"

fun to_rpc :: "control_run_error \<Rightarrow> rpc_failure" where
  "to_rpc (TargetMissing target) =
     (-32016, ''target_not_found'',
      Some (jobject [(''target'', JStr target), (''action'', JStr ''reobserve-targets'')]))"
| "to_rpc (Internal message) = (-32000, ''Server error'', Some (JStr message))"

text \<open>The broker is shared state, so its field is a reader and a writer of it.\<close>

record ('s, 'w) control_api =
  ca_state :: "'s \<Rightarrow> watcher_state"
  ca_targets :: "control_target list"
  ca_targets_provider :: "('s \<Rightarrow> control_target list) option"
  ca_run_target :: "(string \<Rightarrow> bool \<Rightarrow> 's \<Rightarrow> (control_run_error + scheduled_run) \<times> 's) option"
  ca_emit_path :: "(string \<Rightarrow> 's \<Rightarrow> emit_outcome result \<times> 's) option"
  ca_coordinator :: "('s \<Rightarrow> await_inner) option"
  ca_outputs :: "('s \<Rightarrow> output_registry) option"
  ca_cancel_generation :: "(nat \<Rightarrow> 's \<Rightarrow> cancel_result result \<times> 's) option"
  ca_instance :: watcher_instance
  ca_broker :: "(('s \<Rightarrow> snapshot_broker) \<times> (snapshot_broker \<Rightarrow> 's \<Rightarrow> 's)) option"
  ca_broker_instance :: watcher_instance
  ca_estimates :: "('s \<Rightarrow> control_target \<Rightarrow> run_estimate option) option"
  ca_lifecycle :: "('s \<Rightarrow> 'w config_lifecycle) option"

definition api_new :: "watcher_instance \<Rightarrow> ('s \<Rightarrow> watcher_state) \<Rightarrow> ('s, 'w) control_api" where
  "api_new fresh state =
     \<lparr>ca_state = state, ca_targets = [], ca_targets_provider = None, ca_run_target = None,
      ca_emit_path = None, ca_coordinator = None, ca_outputs = None, ca_cancel_generation = None,
      ca_instance = fresh, ca_broker = None, ca_broker_instance = fresh, ca_estimates = None,
      ca_lifecycle = None\<rparr>"

definition with_targets :: "control_target list \<Rightarrow> ('s, 'w) control_api \<Rightarrow> ('s, 'w) control_api" where
  "with_targets targets api = api\<lparr>ca_targets := targets\<rparr>"

definition with_targets_provider ::
  "('s \<Rightarrow> control_target list) \<Rightarrow> ('s, 'w) control_api \<Rightarrow> ('s, 'w) control_api" where
  "with_targets_provider provider api = api\<lparr>ca_targets_provider := Some provider\<rparr>"

definition with_run ::
  "(string \<Rightarrow> bool \<Rightarrow> 's \<Rightarrow> (control_run_error + scheduled_run) \<times> 's) \<Rightarrow> ('s, 'w) control_api \<Rightarrow>
   ('s, 'w) control_api" where
  "with_run handler api = api\<lparr>ca_run_target := Some handler\<rparr>"

definition with_emit ::
  "(string \<Rightarrow> 's \<Rightarrow> emit_outcome result \<times> 's) \<Rightarrow> ('s, 'w) control_api \<Rightarrow> ('s, 'w) control_api" where
  "with_emit handler api = api\<lparr>ca_emit_path := Some handler\<rparr>"

definition with_awaiting :: "('s \<Rightarrow> await_inner) \<Rightarrow> ('s, 'w) control_api \<Rightarrow> ('s, 'w) control_api" where
  "with_awaiting coordinator api = api\<lparr>ca_coordinator := Some coordinator\<rparr>"

definition with_outputs :: "('s \<Rightarrow> output_registry) \<Rightarrow> ('s, 'w) control_api \<Rightarrow> ('s, 'w) control_api" where
  "with_outputs outputs api = api\<lparr>ca_outputs := Some outputs\<rparr>"

definition with_cancel ::
  "(nat \<Rightarrow> 's \<Rightarrow> cancel_result result \<times> 's) \<Rightarrow> ('s, 'w) control_api \<Rightarrow> ('s, 'w) control_api" where
  "with_cancel handler api = api\<lparr>ca_cancel_generation := Some handler\<rparr>"

definition with_instance :: "watcher_instance \<Rightarrow> ('s, 'w) control_api \<Rightarrow> ('s, 'w) control_api" where
  "with_instance i api = api\<lparr>ca_instance := i\<rparr>"

definition with_snapshots ::
  "watcher_instance \<Rightarrow> ('s \<Rightarrow> snapshot_broker) \<Rightarrow> (snapshot_broker \<Rightarrow> 's \<Rightarrow> 's) \<Rightarrow>
   ('s, 'w) control_api \<Rightarrow> ('s, 'w) control_api" where
  "with_snapshots i rd wr api = api\<lparr>ca_broker := Some (rd, wr), ca_broker_instance := i\<rparr>"

definition with_estimates ::
  "('s \<Rightarrow> control_target \<Rightarrow> run_estimate option) \<Rightarrow> ('s, 'w) control_api \<Rightarrow> ('s, 'w) control_api" where
  "with_estimates provider api = api\<lparr>ca_estimates := Some provider\<rparr>"

definition with_lifecycle ::
  "('s \<Rightarrow> 'w config_lifecycle) \<Rightarrow> ('s, 'w) control_api \<Rightarrow> ('s, 'w) control_api" where
  "with_lifecycle lc api = api\<lparr>ca_lifecycle := Some lc\<rparr>"

definition api_validate :: "('s, 'w) control_api \<Rightarrow> unit result" where
  "api_validate api =
     (if ca_broker api \<noteq> None \<and> ca_coordinator api = None
      then Inl ''snapshot subscription requires await coordinator''
      else if ca_emit_path api \<noteq> None \<and> ca_run_target api = None
      then Inl ''emit capability requires run capability''
      else if ca_cancel_generation api \<noteq> None \<and> ca_run_target api = None
      then Inl ''cancel capability requires run capability''
      else if ca_broker api \<noteq> None \<and> wi_token (ca_broker_instance api) \<noteq> wi_token (ca_instance api)
      then Inl ''snapshot broker and control API must share watcher instance''
      else Inr ())"

section \<open>Answers\<close>

definition rpc_error :: "json \<Rightarrow> int \<Rightarrow> string \<Rightarrow> json option \<Rightarrow> json" where
  "rpc_error i code message data =
     jobject [(''jsonrpc'', JStr ''2.0''), (''id'', i),
       (''error'', jrecord [(''code'', Some (JInt code)), (''message'', Some (JStr message)), (''data'', data)])]"

definition rpc_ok :: "json \<Rightarrow> json \<Rightarrow> json" where
  "rpc_ok i res = jobject [(''jsonrpc'', JStr ''2.0''), (''id'', i), (''result'', res)]"

definition rpc_answer :: "json \<Rightarrow> rpc_result \<Rightarrow> json" where
  "rpc_answer i r = (case r of Inr v \<Rightarrow> rpc_ok i v | Inl (code, message, data) \<Rightarrow> rpc_error i code message data)"

definition request_id :: "json_lib \<Rightarrow> json \<Rightarrow> json" where
  "request_id J request =
     (case jl_get J request ''id'' of Some i \<Rightarrow> if is_id i then i else JNull | None \<Rightarrow> JNull)"

definition invalid_params :: "string \<Rightarrow> rpc_failure" where
  "invalid_params reason = (-32602, ''Invalid params'', Some (JStr reason))"

definition server_error :: "string \<Rightarrow> rpc_failure" where
  "server_error reason = (-32000, ''Server error'', Some (JStr reason))"

text \<open>\<open>params.get(k)\<close> on parameters that are an object, and on any value.\<close>

definition opt_bind :: "('a \<Rightarrow> 'b option) \<Rightarrow> 'a option \<Rightarrow> 'b option" where
  "opt_bind f x = (case x of Some a \<Rightarrow> f a | None \<Rightarrow> None)"

definition opt_filter :: "('a \<Rightarrow> bool) \<Rightarrow> 'a option \<Rightarrow> 'a option" where
  "opt_filter p x = (case x of Some a \<Rightarrow> if p a then Some a else None | None \<Rightarrow> None)"

definition object_params :: "json_lib \<Rightarrow> json \<Rightarrow> json option" where
  "object_params J request = opt_bind as_object (jl_get J request ''params'')"

definition param :: "json_lib \<Rightarrow> json \<Rightarrow> string \<Rightarrow> json option" where
  "param J request k = opt_bind (\<lambda>p. jl_get J p k) (object_params J request)"

definition raw_param :: "json_lib \<Rightarrow> json \<Rightarrow> string \<Rightarrow> json option" where
  "raw_param J request k = opt_bind (\<lambda>p. jl_get J p k) (jl_get J request ''params'')"

section \<open>Read-only methods\<close>

definition advertised_methods :: "bool \<Rightarrow> bool \<Rightarrow> string list" where
  "advertised_methods subscription config_lifecycle =
     [''status'', ''targets'', ''run'', ''emit'', ''await'', ''output'', ''cancel'', ''capabilities'']
     @ (if subscription then [''subscribe''] else []) @ (if config_lifecycle then [''config''] else [])"

definition capabilities_result ::
  "string \<Rightarrow> watcher_instance \<Rightarrow> bool \<Rightarrow> bool \<Rightarrow> bool \<Rightarrow> bool \<Rightarrow> json" where
  "capabilities_result version inst subscription duration_estimates config_lifecycle sequential_override =
     jobject
      [(''protocolVersion'', JStr ''1.0''),
       (''schemaVersion'', JInt 1),
       (''watcherVersion'', JStr version),
       (''instance'', jobject [(''token'', JStr (wi_token inst)), (''startedAtEpochMs'', jnat (wi_started_at_epoch_ms inst))]),
       (''methods'', jstrings (advertised_methods subscription config_lifecycle)),
       (''optionalFields'', jstrings
          [''batch'', ''changed'', ''predecessor'', ''supersededBy'', ''failureEvidence'', ''estimate'']),
       (''outputFormats'', jstrings [''toon'', ''json'']),
       (''limits'', jrecord
          [(''outputRetentionBytes'', Some (jnat OUTPUT_RETENTION_BYTES)),
           (''maxResponseBytes'', Some (jnat MAX_RESPONSE_BYTES)),
           (''maxEvidenceLines'', Some (jnat DEFAULT_FAILURE_EVIDENCE_LINES)),
           (''outputSchemaVersion'', Some (JInt 2)),
           (''outputModes'', Some (jstrings [''tail'', ''page''])),
           (''outputPageSizeMax'', Some (jnat OUTPUT_PAGE_MAX_BYTES)),
           (''outputMaxBytesEffective'', Some (jnat DEFAULT_PAGE_BYTES)),
           (''durationEstimateLimits'',
              if duration_estimates
              then Some (jobject [(''maxSamples'', jnat SUCCESS_RETENTION),
                                  (''floorMs'', jnat (unat DEFAULT_FLOOR_MS)),
                                  (''capMs'', jnat (unat ABSOLUTE_CAP_MS))])
              else None)]),
       (''features'', jobject
          [(''atomicAwait'', JBool True), (''subscription'', JBool subscription),
           (''correlatedSnapshots'', JBool False), (''outputRetrieval'', JBool True),
           (''pendingWork'', JBool False), (''durationEstimates'', JBool duration_estimates),
           (''sequentialOverride'', JBool sequential_override)])]"

definition config_result :: "json_lib \<Rightarrow> 'w config_lifecycle option \<Rightarrow> rpc_result" where
  "config_result J lc_opt =
     (case lc_opt of
        None \<Rightarrow> Inl (-32017, ''config_lifecycle_unavailable'',
                     Some (jobject [(''feature'', JStr ''configLifecycle'')]))
      | Some lc \<Rightarrow> Inr (jl_set J ''history'' (JArr (map json_transition (lc_history lc)))
                         (json_transition (lc_current lc))))"

definition json_target :: "control_target \<Rightarrow> json" where
  "json_target t = jrecord [(''name'', Some (JStr (tg_name t))), (''commands'', Some (jstrings (tg_commands t)))]"

definition targets_result ::
  "json_lib \<Rightarrow> control_target list \<Rightarrow> (control_target \<Rightarrow> run_estimate option) option \<Rightarrow> json" where
  "targets_result J targets estimates =
     JArr (map (\<lambda>t. jset_some J ''estimate''
                      (map_option json_estimate (opt_bind (\<lambda>provider. provider t) estimates)) (json_target t)) targets)"

definition status_result :: "json_lib \<Rightarrow> watcher_state \<Rightarrow> output_registry option \<Rightarrow> watcher_instance \<Rightarrow> rpc_result" where
  "status_result J snapshot outputs inst =
     Inr (if ws_state snapshot = WS_Failed
          then jset_some J ''failureEvidence''
                 (map_option json_evidence
                    (opt_bind (\<lambda>r. failure_evidence r (ws_generation snapshot) DEFAULT_FAILURE_EVIDENCE_LINES
                                     (wi_token inst) (failed_tasks snapshot)) outputs))
                 (json_watcher_state snapshot)
          else json_watcher_state snapshot)"

section \<open>Output retrieval\<close>

text \<open>The reason texts of an invalid cursor; \<open>dbg\<close> is the quoted form \<open>{:?}\<close> of a string.\<close>

fun cursor_reason :: "(string \<Rightarrow> string) \<Rightarrow> cursor_fault \<Rightarrow> string" where
  "cursor_reason dbg (CursorShape raw) =
     ''cursor must be '' @ quoted ''<gen>|<plan>|<stream>|<offset>'' @ '', got '' @ dbg raw"
| "cursor_reason dbg (CursorNotNumeric raw) = ''cursor is not numeric: '' @ dbg raw"
| "cursor_reason dbg (CursorGeneration gen generation) =
     ''cursor generation '' @ show_nat gen @ '' does not match requested generation '' @ show_nat generation"
| "cursor_reason dbg (CursorPlanIndex i n) =
     ''cursor plan index '' @ show_nat i @ '' out of range ('' @ show_nat n @ '' positions)''"
| "cursor_reason dbg (CursorStream s i) =
     ''cursor stream index '' @ show_nat s @ '' does not match position '' @ show_nat i"
| "cursor_reason dbg (CursorOffset offset n) =
     ''cursor byte offset '' @ show_nat offset @ '' beyond retained '' @ show_nat n @ '' bytes''"

fun typed_output_error :: "(string \<Rightarrow> string) \<Rightarrow> nat \<Rightarrow> retrieval_error \<Rightarrow> rpc_failure" where
  "typed_output_error dbg generation (GenerationNotFound retained) =
     (-32010, ''generation_not_found'',
      Some (jobject [(''generation'', jnat generation), (''retained'', JArr (map jnat retained)),
                     (''action'', JStr ''reobserve'')]))"
| "typed_output_error dbg generation (TaskNotFound task candidates ambiguous) =
     (-32011, ''task_not_found'',
      Some (jobject [(''generation'', jnat generation), (''task'', JStr task),
                     (''candidates'', jstrings candidates), (''ambiguous'', JBool ambiguous),
                     (''action'', JStr ''reobserve-or-copy-exact'')]))"
| "typed_output_error dbg generation (InvalidCursor fault) =
     (-32013, ''invalid_options'',
      Some (jobject [(''field'', JStr ''cursor''), (''reason'', JStr (cursor_reason dbg fault)),
                     (''action'', JStr ''restart-paging-from-first-page'')]))"

definition invalid_options :: "string \<Rightarrow> string \<Rightarrow> string list \<Rightarrow> rpc_failure" where
  "invalid_options field reason valid =
     (-32013, ''invalid_options'',
      Some (jobject [(''field'', JStr field), (''reason'', JStr reason), (''valid'', jstrings valid)]))"

definition non_blank :: "string \<Rightarrow> bool" where
  "non_blank s \<longleftrightarrow> str_trim s \<noteq> []"

text \<open>The parameters of a retrieval, as \<open>output_retrieval\<close> reads them.\<close>

record output_query =
  oq_task :: "string option"
  oq_stream :: "string option"
  oq_mode :: "string option"
  oq_tail :: "nat option"
  oq_full :: bool
  oq_max_bytes :: "nat option"
  oq_cursor :: "string option"

definition output_query_of :: "json_lib \<Rightarrow> json \<Rightarrow> output_query" where
  "output_query_of J request =
     \<lparr>oq_task = opt_filter non_blank (opt_bind as_str (param J request ''task'')),
      oq_stream = opt_filter (\<lambda>s. s = ''stdout'' \<or> s = ''stderr'') (opt_bind as_str (param J request ''stream'')),
      oq_mode = opt_filter (\<lambda>m. m \<noteq> []) (map_option str_trim (opt_bind as_str (param J request ''mode''))),
      oq_tail = opt_filter (\<lambda>n. n > 0) (opt_bind (jl_as_u64 J) (param J request ''tail'')),
      oq_full = (case opt_bind as_bool (param J request ''full'') of Some b \<Rightarrow> b | None \<Rightarrow> False),
      oq_max_bytes = opt_filter (\<lambda>n. n > 0) (opt_bind (jl_as_u64 J) (param J request ''maxBytes'')),
      oq_cursor = opt_filter non_blank (opt_bind as_str (param J request ''cursor''))\<rparr>"

definition is_page :: "output_query \<Rightarrow> bool" where
  "is_page q \<longleftrightarrow> oq_mode q = Some ''page'' \<or> oq_full q"

definition query_rejected :: "output_query \<Rightarrow> rpc_failure option" where
  "query_rejected q =
     (case opt_filter (\<lambda>m. m \<noteq> ''tail'' \<and> m \<noteq> ''page'') (oq_mode q) of
        Some mode \<Rightarrow>
          Some (invalid_options ''mode''
            (''output mode must be '' @ quoted ''tail'' @ '' or '' @ quoted ''page'' @ '', got '' @ quoted mode)
            [''tail'', ''page''])
      | None \<Rightarrow>
          if oq_mode q = Some ''tail'' \<and> (is_page q \<or> oq_cursor q \<noteq> None)
          then Some (invalid_options ''mode/tail'' ''tail mode cannot carry page/full or cursor options'' [''tail'', ''page''])
          else if \<not> is_page q \<and> oq_cursor q \<noteq> None
          then Some (invalid_options ''cursor'' ''cursor requires page mode'' [''page''])
          else if is_page q \<and> oq_tail q \<noteq> None
          then Some (invalid_options ''tail/page'' ''page mode cannot carry params.tail'' [''page'', ''tail''])
          else None)"

definition page_budget :: "output_query \<Rightarrow> nat" where
  "page_budget q = min (case oq_max_bytes q of Some n \<Rightarrow> n | None \<Rightarrow> DEFAULT_PAGE_BYTES) OUTPUT_PAGE_MAX_BYTES"

definition serialized_length :: "json_lib \<Rightarrow> retrieved_output \<Rightarrow> nat" where
  "serialized_length J out = length (jl_compact J (json_retrieved out))"

definition query_answer ::
  "json_lib \<Rightarrow> output_registry \<Rightarrow> nat \<Rightarrow> output_query \<Rightarrow> (retrieval_error + retrieved_output) option" where
  "query_answer J r generation q =
     (if is_page q
      then retrieve_page (serialized_length J) r generation (oq_task q) (oq_stream q) (page_budget q) (oq_cursor q)
      else Some (retrieve r generation (oq_task q) (oq_stream q) (oq_tail q) False))"

definition output_retrieval ::
  "json_lib \<Rightarrow> (string \<Rightarrow> string) \<Rightarrow> json \<Rightarrow> output_registry option \<Rightarrow> watcher_instance \<Rightarrow> rpc_result option" where
  "output_retrieval J dbg request outputs inst =
     (case outputs of
        None \<Rightarrow> Some (Inl (-32014, ''output_unavailable'',
                  Some (jobject [(''feature'', JStr ''outputRetrieval'')])))
      | Some r \<Rightarrow>
          (case opt_bind (jl_as_u64 J) (param J request ''generation'') of
             None \<Rightarrow> Some (Inl (invalid_params ''output requires a numeric params.generation''))
           | Some generation \<Rightarrow>
               (case opt_filter (\<lambda>t. t \<noteq> wi_token inst) (opt_bind as_str (param J request ''instanceToken'')) of
                  Some token \<Rightarrow>
                    Some (Inl (-32012, ''instance_mismatch'',
                      Some (jobject [(''instance'', JStr token), (''activeInstance'', JStr (wi_token inst)),
                                     (''action'', JStr ''restart-or-reobserve'')])))
                | None \<Rightarrow>
                    (case query_rejected (output_query_of J request) of
                       Some failure \<Rightarrow> Some (Inl failure)
                     | None \<Rightarrow>
                         map_option (map_sum (typed_output_error dbg generation) json_retrieved)
                           (query_answer J r generation (output_query_of J request))))))"

section \<open>Methods that act\<close>

definition run_requested_target ::
  "json_lib \<Rightarrow> json \<Rightarrow> (string \<Rightarrow> bool \<Rightarrow> 's \<Rightarrow> (control_run_error + scheduled_run) \<times> 's) option \<Rightarrow> 's \<Rightarrow>
   rpc_result \<times> 's" where
  "run_requested_target J request handler s =
     (case opt_filter non_blank (opt_bind as_str (raw_param J request ''target'')) of
        None \<Rightarrow> (Inl (invalid_params ''run requires a non-empty params.target''), s)
      | Some target \<Rightarrow>
          (case (case raw_param J request ''sequential'' of None \<Rightarrow> Some False | Some v \<Rightarrow> as_bool v) of
             None \<Rightarrow> (Inl (invalid_params ''run params.sequential must be a boolean when present''), s)
           | Some sequential \<Rightarrow>
               (case handler of
                  None \<Rightarrow> (Inl (server_error ''target execution is unavailable''), s)
                | Some run \<Rightarrow> apfst (map_sum to_rpc json_scheduled) (run target sequential s))))"

definition not_cancelled :: "nat \<Rightarrow> json" where
  "not_cancelled generation = jobject [(''cancelled'', JBool False), (''generation'', jnat generation)]"

fun cancel_answer :: "nat \<Rightarrow> cancel_result result \<Rightarrow> rpc_result" where
  "cancel_answer generation (Inr (RunCancelled Graceful revision revision_hash)) =
     Inr (jrecord [(''cancelled'', Some (JBool True)), (''generation'', Some (jnat generation)),
                   (''revision'', map_option jnat revision), (''revisionHash'', map_option JStr revision_hash)])"
| "cancel_answer generation (Inr (RunCancelled Escalated revision revision_hash)) =
     Inl (-32021, ''Cancellation escalated'',
          Some (jobject [(''escalation'', JBool True), (''generation'', jnat generation)]))"
| "cancel_answer generation (Inr Noop) = Inr (not_cancelled generation)"
| "cancel_answer generation (Inl err) = Inl (server_error err)"

definition cancel_requested_generation ::
  "json_lib \<Rightarrow> json \<Rightarrow> (nat \<Rightarrow> 's \<Rightarrow> cancel_result result \<times> 's) option \<Rightarrow> watcher_instance \<Rightarrow> 's \<Rightarrow>
   rpc_result \<times> 's" where
  "cancel_requested_generation J request handler inst s =
     (case opt_bind (jl_as_u64 J) (param J request ''generation'') of
        None \<Rightarrow> (Inl (invalid_params ''cancel requires a numeric params.generation''), s)
      | Some generation \<Rightarrow>
          (if opt_filter (\<lambda>t. t \<noteq> wi_token inst) (opt_bind as_str (param J request ''instanceToken'')) \<noteq> None
           then (Inr (not_cancelled generation), s)
           else case handler of
                  None \<Rightarrow> (Inl (server_error ''cancellation is unavailable''), s)
                | Some cancel_run \<Rightarrow> apfst (cancel_answer generation) (cancel_run generation s)))"

definition emit_requested_path ::
  "json_lib \<Rightarrow> json \<Rightarrow> (string \<Rightarrow> 's \<Rightarrow> emit_outcome result \<times> 's) option \<Rightarrow> 's \<Rightarrow> rpc_result \<times> 's" where
  "emit_requested_path J request handler s =
     (case opt_filter (\<lambda>p. CHR 0x00 \<notin> set p) (opt_filter non_blank (opt_bind as_str (raw_param J request ''path''))) of
        None \<Rightarrow> (Inl (invalid_params ''emit requires a non-empty params.path without NUL bytes''), s)
      | Some path \<Rightarrow>
          (case handler of
             None \<Rightarrow> (Inl (server_error ''path emission is unavailable''), s)
           | Some route \<Rightarrow> apfst (map_sum server_error json_emit) (route path s)))"

section \<open>The dispatcher\<close>

text \<open>The fixed facts of a server: the JSON library, the quoted form of a string, the version.\<close>

record server_env =
  se_json :: json_lib
  se_dbg :: "string \<Rightarrow> string"
  se_version :: string

definition read_only :: "rpc_result \<Rightarrow> 's \<Rightarrow> (rpc_result \<times> 's) option" where
  "read_only r s = Some (r, s)"

definition api_targets :: "('s, 'w) control_api \<Rightarrow> 's \<Rightarrow> control_target list" where
  "api_targets api s = (case ca_targets_provider api of Some provider \<Rightarrow> provider s | None \<Rightarrow> ca_targets api)"

definition dispatch_method ::
  "server_env \<Rightarrow> ('s, 'w) control_api \<Rightarrow> string \<Rightarrow> json \<Rightarrow> 's \<Rightarrow> (rpc_result \<times> 's) option" where
  "dispatch_method e api verb request s =
     (let J = se_json e; outputs = map_option (\<lambda>f. f s) (ca_outputs api) in
      if verb = ''status'' then read_only (status_result J (ca_state api s) outputs (ca_instance api)) s
      else if verb = ''targets''
      then read_only (Inr (targets_result J (api_targets api s) (map_option (\<lambda>f. f s) (ca_estimates api)))) s
      else if verb = ''run'' then Some (run_requested_target J request (ca_run_target api) s)
      else if verb = ''emit'' then Some (emit_requested_path J request (ca_emit_path api) s)
      else if verb = ''cancel''
      then Some (cancel_requested_generation J request (ca_cancel_generation api) (ca_instance api) s)
      else if verb = ''output''
      then map_option (\<lambda>r. (r, s)) (output_retrieval J (se_dbg e) request outputs (ca_instance api))
      else if verb = ''config'' then read_only (config_result J (map_option (\<lambda>f. f s) (ca_lifecycle api))) s
      else if verb = ''capabilities''
      then read_only (Inr (capabilities_result (se_version e) (ca_instance api) (ca_broker api \<noteq> None)
                         (ca_estimates api \<noteq> None) (ca_lifecycle api \<noteq> None) (ca_run_target api \<noteq> None))) s
      else read_only (Inl (-32601, ''Method not found'', None)) s)"

text \<open>The answer to a request that is not a valid call, and the method of one that is.\<close>

definition check_request :: "json_lib \<Rightarrow> json \<Rightarrow> json + string" where
  "check_request J request =
     (if \<not> is_object request then Inl (rpc_error (request_id J request) (-32600) ''Invalid Request'' None)
      else case opt_bind as_str (jl_get J request ''method'') of
             None \<Rightarrow> Inl (rpc_error (request_id J request) (-32600) ''Invalid Request'' None)
           | Some verb \<Rightarrow>
               (if jl_get J request ''jsonrpc'' \<noteq> Some (JStr ''2.0'')
                then Inl (rpc_error (request_id J request) (-32600) ''Invalid Request'' None)
                else if opt_filter (\<lambda>p. \<not> is_object p \<and> \<not> is_array p) (jl_get J request ''params'') \<noteq> None
                then Inl (rpc_error (request_id J request) (-32602) ''Invalid params'' None)
                else Inr verb))"

definition process_request ::
  "server_env \<Rightarrow> ('s, 'w) control_api \<Rightarrow> json \<Rightarrow> 's \<Rightarrow> (json option \<times> 's) option" where
  "process_request e api request s =
     (case check_request (se_json e) request of
        Inl response \<Rightarrow> Some (Some response, s)
      | Inr verb \<Rightarrow>
          map_option
            (\<lambda>(r, s). (if jl_get (se_json e) request ''id'' = None then None
                       else Some (rpc_answer (request_id (se_json e) request) r), s))
            (dispatch_method e api verb request s))"

fun process_all ::
  "server_env \<Rightarrow> ('s, 'w) control_api \<Rightarrow> json list \<Rightarrow> 's \<Rightarrow> (json list \<times> 's) option" where
  "process_all e api [] s = Some ([], s)"
| "process_all e api (request # requests) s =
     (case process_request e api request s of
        None \<Rightarrow> None
      | Some (response, s) \<Rightarrow>
          map_option (\<lambda>(responses, s). (case response of Some r \<Rightarrow> r # responses | None \<Rightarrow> responses, s))
            (process_all e api requests s))"

definition process_payload ::
  "server_env \<Rightarrow> ('s, 'w) control_api \<Rightarrow> json \<Rightarrow> 's \<Rightarrow> (json option \<times> 's) option" where
  "process_payload e api request s =
     (case request of
        JArr requests \<Rightarrow>
          (if requests = [] then Some (Some (rpc_error JNull (-32600) ''Invalid Request'' None), s)
           else map_option (\<lambda>(responses, s). (if responses = [] then None else Some (JArr responses), s))
                  (process_all e api requests s))
      | _ \<Rightarrow> process_request e api request s)"

section \<open>Await and subscribe\<close>

definition await_params :: "json_lib \<Rightarrow> json \<Rightarrow> string + await_mode \<times> nat" where
  "await_params J request =
     (let after = opt_bind (jl_as_u64 J) (param J request ''after'');
          generation = opt_bind (jl_as_u64 J) (param J request ''generation'');
          timeout_ms = opt_filter (\<lambda>t. t > 0) (opt_bind (jl_as_u64 J) (param J request ''timeoutMs''))
      in case (after, generation, timeout_ms) of
           (Some a, None, Some t) \<Rightarrow> Inr (After a, t)
         | (None, Some g, Some t) \<Rightarrow> Inr (Exact g, t)
         | (Some _, Some _, _) \<Rightarrow> Inl ''await requires exactly one of params.after or params.generation''
         | (_, _, None) \<Rightarrow> Inl ''await requires a positive numeric params.timeoutMs''
         | _ \<Rightarrow> Inl ''await requires exactly one of params.after or params.generation and a positive params.timeoutMs'')"

text \<open>
  What a \<open>read\<close> of the connection answers, and the probe of a waiting client: a read that would
  block is a client that is still there; the end of the stream, data and an error are not.
\<close>

datatype read_event = ReadBytes string | ReadEof | ReadWouldBlock | ReadFailed

definition probe :: "read_event \<Rightarrow> bool" where
  "probe r \<longleftrightarrow> r \<noteq> ReadWouldBlock"

text \<open>
  The environment of one turn of a connection: what other threads do before the request is handled,
  the time then, the rounds of a wait with what its probe reads, and for a subscription what other
  threads do before each snapshot is received and whether its line can be written.
\<close>

record ('s, 'w) turn =
  tn_meanwhile :: "'s \<Rightarrow> 's"
  tn_now :: duration
  tn_rounds :: "('w await_round \<times> read_event) list"
  tn_stream :: "(('s \<Rightarrow> 's) \<times> bool) list"

definition probed_rounds :: "('w await_round \<times> read_event) list \<Rightarrow> 'w await_round list" where
  "probed_rounds rounds = map (\<lambda>(r, rd). r\<lparr>round_gone := Some (probe rd)\<rparr>) rounds"

text \<open>\<open>handle_await\<close> answers nothing while the wait goes on.\<close>

definition handle_await ::
  "server_env \<Rightarrow> ('s, 'w) control_api \<Rightarrow> ('s, 'w) turn \<Rightarrow> json \<Rightarrow> json option" where
  "handle_await e api t request =
     (let J = se_json e; i = request_id J request in
      if jl_get J request ''jsonrpc'' \<noteq> Some (JStr ''2.0'')
      then Some (rpc_error i (-32600) ''Invalid Request'' None)
      else if ca_coordinator api = None
      then Some (rpc_error i (-32000) ''Server error'' (Some (JStr ''await is unavailable'')))
      else case await_params J request of
             Inl data \<Rightarrow> Some (rpc_error i (-32602) ''Invalid params'' (Some (JStr data)))
           | Inr (mode, timeout_ms) \<Rightarrow>
               map_option (\<lambda>r. rpc_ok i (json_await_result r))
                 (await_generation mode (tn_now t + from_millis timeout_ms) (wi_token (ca_instance api))
                    (probed_rounds (tn_rounds t))))"

definition snapshot_notification :: "correlated_snapshot \<Rightarrow> json" where
  "snapshot_notification c =
     jobject [(''jsonrpc'', JStr ''2.0''), (''method'', JStr ''snapshot''), (''params'', json_snapshot c)]"

fun stream_snapshots ::
  "('s \<Rightarrow> snapshot_broker) \<Rightarrow> (snapshot_broker \<Rightarrow> 's \<Rightarrow> 's) \<Rightarrow> nat \<Rightarrow> (('s \<Rightarrow> 's) \<times> bool) list \<Rightarrow> 's \<Rightarrow>
   json list \<times> 's" where
  "stream_snapshots rd wr c [] s = ([], s)"
| "stream_snapshots rd wr c ((meanwhile, written) # steps) s =
     (let s = meanwhile s in
      case receive_snapshot c (rd s) of
        (None, b) \<Rightarrow> ([], s)
      | (Some snapshot, b) \<Rightarrow>
          (if written
           then apfst ((#) (snapshot_notification snapshot)) (stream_snapshots rd wr c steps (wr b s))
           else ([], wr b s)))"

definition handle_subscribe ::
  "server_env \<Rightarrow> ('s, 'w) control_api \<Rightarrow> ('s, 'w) turn \<Rightarrow> json \<Rightarrow> 's \<Rightarrow> json list \<times> 's" where
  "handle_subscribe e api t request s =
     (let J = se_json e; i = request_id J request in
      if jl_get J request ''jsonrpc'' \<noteq> Some (JStr ''2.0'')
      then ([rpc_error i (-32600) ''Invalid Request'' None], s)
      else case ca_broker api of
             None \<Rightarrow> ([rpc_error i (-32000) ''Server error'' (Some (JStr ''subscription is unavailable''))], s)
           | Some (rd, wr) \<Rightarrow>
               (case subscribe (rd s) of
                  (_, None, _) \<Rightarrow> ([], s)
                | (c, Some snapshot, b) \<Rightarrow>
                    apfst ((#) (rpc_ok i (json_snapshot snapshot)))
                      (stream_snapshots rd wr c (tn_stream t) (wr b s))))"

section \<open>A connection\<close>

text \<open>
  \<open>read_line\<close> on a reader that is made for one request: it reads until a chunk holds a line feed and
  is then dropped with what it has buffered after it. \<open>Blocked\<close> is a reader that still waits.
\<close>

datatype line_read = Line string | Closed | Blocked

definition line_feed :: char where "line_feed = CHR 0x0A"

definition line_of :: "string \<Rightarrow> line_read" where
  "line_of l = (if valid_utf8 l then Line l else Closed)"

fun read_line :: "string \<Rightarrow> read_event list \<Rightarrow> line_read \<times> read_event list" where
  "read_line buffered [] = (Blocked, [])"
| "read_line buffered (ReadBytes chunk # reads) =
     (if line_feed \<in> set chunk
      then (line_of (buffered @ takeWhile (\<lambda>c. c \<noteq> line_feed) chunk @ [line_feed]), reads)
      else read_line (buffered @ chunk) reads)"
| "read_line buffered (ReadEof # reads) = (if buffered = [] then Closed else line_of buffered, ReadEof # reads)"
| "read_line buffered (ReadFailed # reads) = (Closed, reads)"
| "read_line buffered (ReadWouldBlock # reads) = (Closed, reads)"

datatype client_next = Keep_Serving | Hang_Up

text \<open>One request line: what is written, and whether the loop goes on.\<close>

definition serve_line ::
  "server_env \<Rightarrow> ('s, 'w) control_api \<Rightarrow> ('s, 'w) turn \<Rightarrow> string \<Rightarrow> 's \<Rightarrow> json list \<times> client_next \<times> 's" where
  "serve_line e api t l s =
     (case jl_parse (se_json e) l of
        Inl err \<Rightarrow> ([rpc_error JNull (-32700) ''Parse error'' (Some (JStr err))], Hang_Up, s)
      | Inr request \<Rightarrow>
          (let verb = opt_bind as_str (jl_get (se_json e) request ''method'') in
           if verb = Some ''subscribe''
           then (let (out, s) = handle_subscribe e api t request s in (out, Hang_Up, s))
           else if verb = Some ''await'' \<and> object_params (se_json e) request \<noteq> None
           then (case handle_await e api t request of
                   Some response \<Rightarrow> ([response], Keep_Serving, s)
                 | None \<Rightarrow> ([], Hang_Up, s))
           else case process_payload e api request s of
                  None \<Rightarrow> ([], Hang_Up, s)
                | Some (Some response, s) \<Rightarrow> ([response], Keep_Serving, s)
                | Some (None, s) \<Rightarrow> ([], Keep_Serving, s)))"

text \<open>The loop of one client over its turns: the documents it writes and the state it leaves.\<close>

fun handle_client ::
  "server_env \<Rightarrow> ('s, 'w) control_api \<Rightarrow> ('s, 'w) turn list \<Rightarrow> read_event list \<Rightarrow> 's \<Rightarrow> json list \<times> 's" where
  "handle_client e api [] reads s = ([], s)"
| "handle_client e api (t # ts) reads s =
     (case read_line [] reads of
        (Line l, rest) \<Rightarrow>
          (case serve_line e api t l (tn_meanwhile t s) of
             (out, Keep_Serving, s) \<Rightarrow> apfst ((@) out) (handle_client e api ts rest s)
           | (out, Hang_Up, s) \<Rightarrow> (out, s))
      | _ \<Rightarrow> ([], s))"

section \<open>Accepting clients\<close>

datatype accept_event = Accepted | Client_Done | Accept_Idle | Accept_Pressure | Accept_Broken

datatype accept_effect = Served | Refused json

record acceptor =
  ac_active :: nat
  ac_open :: bool

definition too_many_clients :: json where
  "too_many_clients =
     rpc_error JNull (-32000) ''Server error'' (Some (JStr ''too many concurrent control clients''))"

text \<open>One turn of the accept loop, or the end of a client thread.\<close>

fun accept_step :: "accept_event \<Rightarrow> acceptor \<Rightarrow> accept_effect option \<times> acceptor" where
  "accept_step Accepted a =
     (if ac_active a + 1 > MAX_CLIENT_THREADS then (Some (Refused too_many_clients), a)
      else (Some Served, a\<lparr>ac_active := ac_active a + 1\<rparr>))"
| "accept_step Client_Done a = (None, a\<lparr>ac_active := ac_active a - 1\<rparr>)"
| "accept_step Accept_Idle a = (None, a)"
| "accept_step Accept_Pressure a = (None, a)"
| "accept_step Accept_Broken a = (None, a\<lparr>ac_open := False\<rparr>)"

end
