(* ===== verification/Control_Properties.thy ===== *)
theory Control_Properties
  imports Control_Protocol
begin

text \<open>
  What the control server guarantees: every call with an identity is answered once, under that
  identity, and no request makes the server panic; a request that is refused changes nothing; a
  stale instance token reads no output and cancels nothing; a batch is its requests one after the
  other. And what it does not: a line that arrives in the same read as the one before it is lost.
\<close>

section \<open>Helpers\<close>

text \<open>A server that holds one count of calls, and a call of a method with parameters.\<close>

definition demo_server :: server_env where
  "demo_server = \<lparr>se_json = demo_json, se_dbg = (\<lambda>s. s), se_version = ''2.0.0''\<rparr>"

definition demo_instance :: watcher_instance where
  "demo_instance = \<lparr>wi_token = ''fz-1'', wi_started_at_epoch_ms = 7\<rparr>"

definition demo_api :: "(nat, unit) control_api" where
  "demo_api =
     (api_new demo_instance (\<lambda>_. watcher_state_default))
       \<lparr>ca_run_target := Some (\<lambda>target sequential n.
           (Inr \<lparr>sr_run_id = n, sr_revision = None, sr_revision_hash = None\<rparr>, Suc n)),
        ca_cancel_generation := Some (\<lambda>g n. (Inr Noop, Suc n)),
        ca_outputs := Some (\<lambda>_. registry_new)\<rparr>"

definition demo_call :: "string \<Rightarrow> (string \<times> json) list \<Rightarrow> json" where
  "demo_call verb params =
     JObj [(''id'', JInt 5), (''jsonrpc'', JStr ''2.0''), (''method'', JStr verb), (''params'', JObj params)]"

lemma demo_server_documented: "json_documented (se_json demo_server)"
  using demo_json_documented by (simp add: demo_server_def)


lemma opt_bind_simps [simp]:
  "opt_bind f None = None" "opt_bind f (Some x) = f x"
  by (simp_all add: opt_bind_def)

lemma opt_filter_simps [simp]:
  "opt_filter p None = None" "opt_filter p (Some x) = (if p x then Some x else None)"
  by (simp_all add: opt_filter_def)

lemma opt_filter_Some_iff: "opt_filter p x = Some y \<longleftrightarrow> x = Some y \<and> p y"
  by (cases x) auto

lemma opt_filter_None_iff: "opt_filter p x = None \<longleftrightarrow> (\<forall>y. x = Some y \<longrightarrow> \<not> p y)"
  by (cases x) auto

lemma rpc_ok_get:
  assumes "json_documented J"
  shows "jl_get J (rpc_ok i v) k =
    (if k = ''jsonrpc'' then Some (JStr ''2.0'') else if k = ''id'' then Some i
     else if k = ''result'' then Some v else None)"
  unfolding rpc_ok_def by (subst jobject_get [OF assms]) simp_all

lemma rpc_error_get:
  assumes "json_documented J"
  shows "jl_get J (rpc_error i c m d) k =
    (if k = ''jsonrpc'' then Some (JStr ''2.0'') else if k = ''id'' then Some i
     else if k = ''error''
     then Some (jrecord [(''code'', Some (JInt c)), (''message'', Some (JStr m)), (''data'', d)]) else None)"
  unfolding rpc_error_def by (subst jobject_get [OF assms]) simp_all

text \<open>A response of the protocol: the version, an identity and one of a result and an error.\<close>

definition response_for :: "json_lib \<Rightarrow> json \<Rightarrow> json \<Rightarrow> bool" where
  "response_for J i r \<longleftrightarrow>
     jl_get J r ''jsonrpc'' = Some (JStr ''2.0'') \<and> jl_get J r ''id'' = Some i \<and>
     (jl_get J r ''result'' = None \<longleftrightarrow> jl_get J r ''error'' \<noteq> None)"

definition error_code :: "json_lib \<Rightarrow> json \<Rightarrow> json option" where
  "error_code J r = opt_bind (\<lambda>x. jl_get J x ''code'') (jl_get J r ''error'')"

lemma response_for_ok [simp]: "json_documented J \<Longrightarrow> response_for J i (rpc_ok i v)"
  by (simp add: response_for_def rpc_ok_get)

lemma response_for_error [simp]: "json_documented J \<Longrightarrow> response_for J i (rpc_error i c m d)"
  by (simp add: response_for_def rpc_error_get)

lemma response_for_answer [simp]: "json_documented J \<Longrightarrow> response_for J i (rpc_answer i r)"
  by (simp add: rpc_answer_def split: sum.split prod.split)

lemma jrecord_code:
  assumes "json_documented J"
  shows "jl_get J (jrecord [(''code'', Some (JInt c)), (''message'', Some m), (''data'', d)]) ''code'' = Some (JInt c)"
  unfolding jrecord_def by (cases d) (simp_all add: jobject_get [OF assms])

lemma error_code_error [simp]: "json_documented J \<Longrightarrow> error_code J (rpc_error i c m d) = Some (JInt c)"
  by (simp add: error_code_def rpc_error_get jrecord_code)

lemma error_code_ok [simp]: "json_documented J \<Longrightarrow> error_code J (rpc_ok i v) = None"
  by (simp add: error_code_def rpc_ok_get)

lemma check_request_response:
  "json_documented J \<Longrightarrow> check_request J request = Inl r \<Longrightarrow> response_for J (request_id J request) r"
  by (auto simp: check_request_def split: if_splits option.splits)

section \<open>The dispatcher is total\<close>

lemma query_answer_total: "query_answer J r g q \<noteq> None"
  unfolding query_answer_def using retrieve_page_never_panics by (cases "is_page q") simp_all

lemma output_retrieval_total: "output_retrieval J dbg request outputs inst \<noteq> None"
  using query_answer_total unfolding output_retrieval_def
  by (auto simp del: not_None_eq split: option.split)

lemma dispatch_total: "dispatch_method e api verb request s \<noteq> None"
  using output_retrieval_total by (simp add: dispatch_method_def Let_def read_only_def)

lemma process_request_total: "process_request e api request s \<noteq> None"
proof (cases "check_request (se_json e) request")
  case (Inr verb)
  obtain x where "dispatch_method e api verb request s = Some x" using dispatch_total [of e api verb request s] by auto
  with Inr show ?thesis by (simp add: process_request_def)
qed (simp add: process_request_def)

lemma process_all_total: "process_all e api requests s \<noteq> None"
proof (induction requests arbitrary: s)
  case (Cons request requests)
  obtain response s' where "process_request e api request s = Some (response, s')"
    using process_request_total by fastforce
  with Cons show ?case by simp
qed simp



section \<open>A batch\<close>

text \<open>The requests of a batch one after the other, each on the state the one before it left.\<close>

fun run_requests ::
  "server_env \<Rightarrow> ('s, 'w) control_api \<Rightarrow> json list \<Rightarrow> 's \<Rightarrow> json option list \<times> 's" where
  "run_requests e api [] s = ([], s)"
| "run_requests e api (request # requests) s =
     (case process_request e api request s of
        Some (out, s) \<Rightarrow> apfst ((#) out) (run_requests e api requests s)
      | None \<Rightarrow> ([], s))"

lemma run_requests_length: "length (fst (run_requests e api requests s)) = length requests"
proof (induction requests arbitrary: s)
  case (Cons request requests)
  obtain out s' where "process_request e api request s = Some (out, s')"
    using process_request_total by fastforce
  with Cons show ?case by (simp add: case_prod_beta)
qed simp

lemma process_all_runs:
  "process_all e api requests s =
     Some (map the (filter (\<lambda>r. r \<noteq> None) (fst (run_requests e api requests s))), snd (run_requests e api requests s))"
proof (induction requests arbitrary: s)
  case (Cons request requests)
  obtain out s' where "process_request e api request s = Some (out, s')"
    using process_request_total by fastforce
  with Cons show ?case by (cases out) simp_all
qed simp

text \<open>
  A batch is its requests in order. A non-empty batch runs every request on the state the one
  before it left and answers the array of their responses in that order, without the notifications;
  when all are notifications nothing is written.
\<close>

theorem batch_is_sequential:
  assumes "requests \<noteq> []"
  shows "process_payload e api (JArr requests) s =
    (let (outs, s') = run_requests e api requests s;
         responses = map the (filter (\<lambda>r. r \<noteq> None) outs)
     in Some (if responses = [] then None else Some (JArr responses), s'))
    \<and> length (fst (run_requests e api requests s)) = length requests"
  using assms by (simp add: process_payload_def process_all_runs run_requests_length case_prod_beta Let_def)

theorem batch_is_sequential_witness:
  "length (fst (run_requests demo_server demo_api [demo_call ''status'' [], JNull] 3)) = 2"
  using batch_is_sequential [of "[demo_call ''status'' [], JNull]" demo_server demo_api 3] by simp

section \<open>A refused request changes nothing\<close>

text \<open>The codes of a failure that is found before any handler is called.\<close>

definition refusal_codes :: "int set" where
  "refusal_codes = {-32600, -32601, -32602, -32010, -32011, -32012, -32013, -32014, -32017}"

lemma to_rpc_not_refusal: "fst (to_rpc x) \<notin> refusal_codes"
  by (cases x) (simp_all add: refusal_codes_def)

lemma cancel_answer_not_refusal: "cancel_answer g r = Inl f \<Longrightarrow> fst f \<notin> refusal_codes"
  by (induction g r rule: cancel_answer.induct) (auto simp: server_error_def refusal_codes_def)

lemma map_sum_Inl: "map_sum f g x = Inl y \<Longrightarrow> \<exists>z. x = Inl z \<and> y = f z"
  by (cases x) auto

lemma run_refused_unchanged:
  "run_requested_target J request h s = (Inl f, s') \<Longrightarrow> fst f \<in> refusal_codes \<Longrightarrow> s' = s"
  using to_rpc_not_refusal
  by (auto simp: run_requested_target_def apfst_def map_prod_def case_prod_beta split: option.splits dest!: map_sum_Inl)

lemma emit_refused_unchanged:
  "emit_requested_path J request h s = (Inl f, s') \<Longrightarrow> fst f \<in> refusal_codes \<Longrightarrow> s' = s"
  by (auto simp: emit_requested_path_def apfst_def map_prod_def case_prod_beta server_error_def refusal_codes_def
      split: option.splits dest!: map_sum_Inl)

lemma cancel_refused_unchanged:
  "cancel_requested_generation J request h inst s = (Inl f, s') \<Longrightarrow> fst f \<in> refusal_codes \<Longrightarrow> s' = s"
  by (auto simp: cancel_requested_generation_def apfst_def map_prod_def case_prod_beta
      split: option.splits if_splits dest: cancel_answer_not_refusal)

lemma dispatch_refused_unchanged:
  assumes "dispatch_method e api verb request s = Some (Inl f, s')" and "fst f \<in> refusal_codes"
  shows "s' = s"
  using assms(1) run_refused_unchanged [OF _ assms(2)] emit_refused_unchanged [OF _ assms(2)]
    cancel_refused_unchanged [OF _ assms(2)]
  by (auto simp: dispatch_method_def Let_def read_only_def split: if_splits)

text \<open>
  C32. A refused request has no effect. Whatever the handlers do, a response whose error code is one
  of the codes for a malformed request, an unknown method, bad parameters, a missing generation or
  task, a stale instance or contradictory options leaves the state of the process as it was: the
  request was refused before a handler ran.
\<close>

theorem refused_requests_change_nothing:
  assumes "json_documented (se_json e)"
    and "process_request e api request s = Some (Some r, s')"
    and "error_code (se_json e) r = Some (JInt c)" and "c \<in> refusal_codes"
  shows "s' = s"
proof (cases "check_request (se_json e) request")
  case (Inr verb)
  obtain res t where d: "dispatch_method e api verb request s = Some (res, t)" using dispatch_total by fastforce
  with Inr assms(2) have r: "r = rpc_answer (request_id (se_json e) request) res" and t: "s' = t"
    by (auto simp: process_request_def split: if_splits)
  obtain f where f: "res = Inl f" "fst f = c"
    using assms(1,3) by (cases res) (auto simp: r rpc_answer_def split: prod.splits)
  then show ?thesis using dispatch_refused_unchanged [of e api verb request s f t] d t assms(4) by simp
qed (use assms(2) in \<open>simp add: process_request_def\<close>)

definition demo_untyped_run :: json where
  "demo_untyped_run = demo_call ''run'' [(''sequential'', JStr ''yes''), (''target'', JStr ''build'')]"

lemma demo_untyped_run_refused:
  "process_request demo_server demo_api demo_untyped_run 3 =
     Some (Some (rpc_error (JInt 5) (-32602) ''Invalid params''
       (Some (JStr ''run params.sequential must be a boolean when present''))), 3)"
  by code_simp

theorem refused_requests_change_nothing_witness:
  "\<exists>r s'. process_request demo_server demo_api demo_untyped_run (3 :: nat) = Some (Some r, s') \<and> s' = 3"
  using refused_requests_change_nothing [OF demo_server_documented demo_untyped_run_refused, of "-32602"]
    demo_untyped_run_refused demo_server_documented
  by (simp add: refusal_codes_def)

section \<open>Instance identity\<close>

lemma stale_cancel_ignored:
  assumes "opt_bind as_str (param J request ''instanceToken'') = Some token" and "token \<noteq> wi_token inst"
  shows "snd (cancel_requested_generation J request handler inst s) = s \<and>
    (\<forall>g. opt_bind (jl_as_u64 J) (param J request ''generation'') = Some g \<longrightarrow>
      fst (cancel_requested_generation J request handler inst s) = Inr (not_cancelled g))"
  using assms by (auto simp: cancel_requested_generation_def split: option.splits)

text \<open>
  A stale instance token is harmless. A cancel or an output request whose \<open>instanceToken\<close> names
  another watcher process changes nothing and calls no handler: its answer is the same for every
  registry the server holds and for every cancel handler, namely that nothing was cancelled, or the
  typed mismatch that names both instances.
\<close>

theorem stale_instance_is_harmless:
  assumes token: "opt_bind as_str (param (se_json e) request ''instanceToken'') = Some token"
    and stale: "token \<noteq> wi_token (ca_instance api)"
    and generation: "opt_bind (jl_as_u64 (se_json e)) (param (se_json e) request ''generation'') = Some g"
    and outputs: "ca_outputs api = Some outputs"
  shows "dispatch_method e api ''cancel'' request s = Some (Inr (not_cancelled g), s) \<and>
    dispatch_method e api ''output'' request s =
      Some (Inl (-32012, ''instance_mismatch'',
        Some (jobject [(''instance'', JStr token), (''activeInstance'', JStr (wi_token (ca_instance api))),
                       (''action'', JStr ''restart-or-reobserve'')])), s)"
  using assms
  by (simp add: dispatch_method_def Let_def cancel_requested_generation_def output_retrieval_def)

definition demo_stale :: json where
  "demo_stale = demo_call ''cancel'' [(''generation'', JInt 2), (''instanceToken'', JStr ''fz-0'')]"

theorem stale_instance_is_harmless_witness:
  "dispatch_method demo_server demo_api ''cancel'' demo_stale 3 = Some (Inr (not_cancelled 2), 3)"
proof -
  have token: "opt_bind as_str (param (se_json demo_server) demo_stale ''instanceToken'') = Some ''fz-0''" by code_simp
  have stale: "''fz-0'' \<noteq> wi_token (ca_instance demo_api)"
    by (simp add: demo_api_def api_new_def demo_instance_def)
  have g: "opt_bind (jl_as_u64 (se_json demo_server)) (param (se_json demo_server) demo_stale ''generation'') = Some 2"
    by code_simp
  have outputs: "ca_outputs demo_api = Some (\<lambda>_. registry_new)" by (simp add: demo_api_def)
  show ?thesis by (rule conjunct1 [OF stale_instance_is_harmless [OF token stale g outputs]])
qed

section \<open>Retrieval options\<close>

text \<open>Option combinations for which there is no one retrieval.\<close>

definition contradictory :: "output_query \<Rightarrow> bool" where
  "contradictory q \<longleftrightarrow>
     (oq_mode q \<noteq> None \<and> oq_mode q \<notin> {Some ''tail'', Some ''page''}) \<or>
     (oq_mode q = Some ''tail'' \<and> oq_full q) \<or>
     (oq_cursor q \<noteq> None \<and> \<not> is_page q) \<or> (oq_tail q \<noteq> None \<and> is_page q)"

lemma rejected_iff_contradictory: "query_rejected q \<noteq> None \<longleftrightarrow> contradictory q"
  by (cases "oq_mode q") (auto simp: query_rejected_def contradictory_def is_page_def invalid_options_def)

lemma rejected_code: "query_rejected q = Some f \<Longrightarrow> fst f = -32013"
  by (auto simp: query_rejected_def invalid_options_def split: option.splits if_splits)

text \<open>
  Contradictory retrieval options are refused, never resolved by a guess. A request for output
  that names an unknown mode, asks for tail and page at once, gives a cursor without paging or a
  line count with paging is refused with the typed code for invalid options. Every other request
  reads a tail without a cursor, or one page without a line count and with a budget of at most the
  advertised maximum.
\<close>

theorem retrieval_options_are_exclusive:
  "case query_rejected q of
     Some f \<Rightarrow> contradictory q \<and> fst f = -32013
   | None \<Rightarrow>
       \<not> contradictory q \<and>
       (if is_page q
        then oq_tail q = None \<and> page_budget q \<le> OUTPUT_PAGE_MAX_BYTES \<and>
          query_answer J r g q =
            retrieve_page (serialized_length J) r g (oq_task q) (oq_stream q) (page_budget q) (oq_cursor q)
        else oq_cursor q = None \<and>
          query_answer J r g q = Some (retrieve r g (oq_task q) (oq_stream q) (oq_tail q) False))"
proof (cases "query_rejected q")
  case None
  then have ok: "\<not> contradictory q" using rejected_iff_contradictory by blast
  moreover have "is_page q \<Longrightarrow> oq_tail q = None" "\<not> is_page q \<Longrightarrow> oq_cursor q = None"
    using ok by (auto simp: contradictory_def)
  ultimately show ?thesis by (simp add: None query_answer_def page_budget_def)
next
  case (Some f)
  then show ?thesis using rejected_iff_contradictory [of q] rejected_code by simp
qed

section \<open>Connections\<close>

lemma takeWhile_line: "line_feed \<notin> set l \<Longrightarrow> takeWhile (\<lambda>c. c \<noteq> line_feed) (l @ line_feed # tail_bytes) = l"
  by (induction l) auto

lemma read_line_drops_the_rest:
  "line_feed \<notin> set l \<Longrightarrow>
   read_line [] (ReadBytes (l @ line_feed # tail_bytes) # reads) = (line_of (l @ [line_feed]), reads)"
  by (simp add: takeWhile_line)

text \<open>
  A pipelined request is lost. The connection loop makes a new buffered reader for every request
  and drops it after one line, so whatever arrived in the same read after the line feed is never
  served: the documents written and the state reached are those of a client that never sent it.
\<close>

theorem pipelined_requests_are_lost:
  assumes "line_feed \<notin> set l"
  shows "handle_client e api ts (ReadBytes (l @ line_feed # pipelined) # reads) s =
         handle_client e api ts (ReadBytes (l @ [line_feed]) # reads) s"
  using read_line_drops_the_rest [OF assms, of pipelined reads] read_line_drops_the_rest [OF assms, of "[]" reads]
  by (cases ts) (simp_all del: read_line.simps)

definition demo_turn :: "(nat, unit) turn" where
  "demo_turn = \<lparr>tn_meanwhile = Suc, tn_now = 0, tn_rounds = [], tn_stream = []\<rparr>"

theorem pipelined_requests_are_lost_witness:
  "handle_client demo_server demo_api [demo_turn, demo_turn] [ReadBytes (''{}'' @ line_feed # ''[]''), ReadEof] 3 =
   handle_client demo_server demo_api [demo_turn, demo_turn] [ReadBytes (''{}'' @ [line_feed]), ReadEof] 3"
  using pipelined_requests_are_lost [of "''{}''" demo_server demo_api "[demo_turn, demo_turn]" "''[]''" "[ReadEof]" 3]
  by (simp add: line_feed_def)

text \<open>Requests that arrive one line per read are all served, in order.\<close>

fun serve_all ::
  "server_env \<Rightarrow> ('s, 'w) control_api \<Rightarrow> ('s, 'w) turn list \<Rightarrow> string list \<Rightarrow> 's \<Rightarrow> json list \<times> 's" where
  "serve_all e api (t # ts) (l # ls) s =
     (case serve_line e api t l (tn_meanwhile t s) of
        (out, Keep_Serving, s) \<Rightarrow> apfst ((@) out) (serve_all e api ts ls s)
      | (out, Hang_Up, s) \<Rightarrow> (out, s))"
| "serve_all e api ts ls s = ([], s)"

definition is_line :: "string \<Rightarrow> bool" where
  "is_line l \<longleftrightarrow> valid_utf8 l \<and> (\<exists>body. l = body @ [line_feed] \<and> line_feed \<notin> set body)"

lemma read_line_whole: "is_line l \<Longrightarrow> read_line [] (ReadBytes l # reads) = (Line l, reads)"
  using read_line_drops_the_rest [of _ "[]"] by (auto simp: is_line_def line_of_def simp del: read_line.simps)

lemma handle_client_lines:
  assumes "\<forall>l\<in>set ls. is_line l"
  shows "handle_client e api ts (map ReadBytes ls) s = serve_all e api ts ls s"
  using assms
proof (induction ls arbitrary: ts s)
  case Nil
  then show ?case by (cases ts) simp_all
next
  case (Cons l ls)
  then show ?case
    by (cases ts) (auto simp: read_line_whole simp del: read_line.simps split: prod.split client_next.split)
qed

section \<open>Waiting\<close>

text \<open>
  A wait never outlives its bound without a reason, and a client that writes while it waits is
  taken for gone. As long as no awaited generation is terminal and the time has not come, a probe
  that reads data ends the wait with the reason \<open>disconnected\<close>, exactly as one that reads the end
  of the stream; only a read that would block keeps the client waiting.
\<close>

theorem data_while_waiting_is_a_disconnect:
  assumes "evaluate (round_inner r) mode = None" and "round_now r < deadline"
  shows "await_generation mode deadline token (probed_rounds ((r, ReadBytes bytes) # rounds)) =
         await_generation mode deadline token (probed_rounds ((r, ReadEof) # rounds)) \<and>
    (\<exists>res. await_generation mode deadline token (probed_rounds ((r, ReadBytes bytes) # rounds)) = Some res \<and>
       ar_terminal_reason res = TR_Disconnected) \<and>
    await_generation mode deadline token (probed_rounds ((r, ReadWouldBlock) # rounds)) =
      await_generation mode deadline token (probed_rounds rounds)"
  using assms by (simp add: probed_rounds_def probe_def build_result_def not_le)

theorem data_while_waiting_is_a_disconnect_witness:
  "\<exists>res. await_generation (Exact 9) 5 ''fz-1'' (probed_rounds [(demo_round [] 0, ReadBytes ''x'')]) = Some res \<and>
     ar_terminal_reason res = TR_Disconnected"
proof -
  have "evaluate (round_inner (demo_round [] 0)) (Exact 9) = None"
    by (simp add: demo_round_def coordinate_def await_inner_default_def)
  moreover have "round_now (demo_round [] 0) < (5 :: duration)" by (simp add: demo_round_def)
  ultimately show ?thesis
    using data_while_waiting_is_a_disconnect [of "demo_round [] 0" "Exact 9" 5 "''fz-1''" "''x''" "[]"] by blast
qed

text \<open>A wait that the server accepts names exactly one of the two kinds of target.\<close>

lemma await_params_exclusive:
  "await_params J request = Inr (mode, t) \<Longrightarrow>
   0 < t \<and>
   (case mode of
      After g \<Rightarrow> opt_bind (jl_as_u64 J) (param J request ''after'') = Some g \<and>
                 opt_bind (jl_as_u64 J) (param J request ''generation'') = None
    | Exact g \<Rightarrow> opt_bind (jl_as_u64 J) (param J request ''generation'') = Some g \<and>
                 opt_bind (jl_as_u64 J) (param J request ''after'') = None)"
  by (auto simp: await_params_def Let_def opt_filter_Some_iff split: option.splits)

lemma capabilities_methods:
  assumes "json_documented J"
  shows "jl_get J (capabilities_result v i sub est lc sq) ''methods'' = Some (jstrings (advertised_methods sub lc))"
  unfolding capabilities_result_def by (subst jobject_get [OF assms]) simp_all

text \<open>What a server answers that was built with nothing but a state.\<close>

lemma bare_handlers:
  "\<exists>f. run_requested_target J request None s = (Inl f, s)"
  "\<exists>f. emit_requested_path J request None s = (Inl f, s)"
  "opt_bind as_str (param J request ''instanceToken'') \<in> {None, Some (wi_token i)} \<Longrightarrow>
   \<exists>f. cancel_requested_generation J request None i s = (Inl f, s)"
  "\<exists>f. output_retrieval J dbg request None i = Some (Inl f)"
  by (auto simp: run_requested_target_def emit_requested_path_def cancel_requested_generation_def
      output_retrieval_def invalid_params_def server_error_def split: option.split)

lemma bare_dispatch:
  assumes "verb \<in> {''run'', ''emit'', ''cancel'', ''output'', ''await''}"
    and "opt_bind as_str (param (se_json e) request ''instanceToken'') \<in> {None, Some (wi_token i)}"
  shows "\<exists>f. dispatch_method e (api_new i state) verb request s = Some (Inl f, s) \<and>
    (verb = ''await'' \<longrightarrow> fst f = -32601)"
  using assms bare_handlers(1) [of "se_json e" request s] bare_handlers(2) [of "se_json e" request s]
    bare_handlers(3) [OF assms(2), of s] bare_handlers(4) [of "se_json e" "se_dbg e" request i]
  by (elim insertE emptyE) (auto simp: dispatch_method_def Let_def api_new_def read_only_def)

text \<open>
  The profile advertises more than the server implements. Every server lists \<open>run\<close>, \<open>emit\<close>,
  \<open>cancel\<close>, \<open>output\<close> and \<open>await\<close>; one that was built with nothing but a state answers each of them
  with an error, and a call of \<open>await\<close> that reaches the dispatcher, because its parameters are not
  an object, is answered as an unknown method.
\<close>

theorem profile_overstates_methods:
  assumes J: "json_documented (se_json e)"
    and verb: "verb \<in> {''run'', ''emit'', ''cancel'', ''output'', ''await''}"
    and current: "opt_bind as_str (param (se_json e) request ''instanceToken'') \<in> {None, Some (wi_token i)}"
  shows "jl_get (se_json e) (capabilities_result v i sub est lc sq) ''methods'' = Some (jstrings (advertised_methods sub lc)) \<and>
    verb \<in> set (advertised_methods sub lc) \<and>
    (\<exists>f. dispatch_method e (api_new i state) verb request s = Some (Inl f, s) \<and>
         (verb = ''await'' \<longrightarrow> fst f = -32601))"
proof (intro conjI)
  show "verb \<in> set (advertised_methods sub lc)" using verb by (auto simp: advertised_methods_def)
qed (rule capabilities_methods [OF J], rule bare_dispatch [OF verb current])

theorem profile_overstates_methods_witness:
  "\<exists>f. dispatch_method demo_server (api_new demo_instance (\<lambda>_. watcher_state_default) :: (nat, unit) control_api)
         ''await'' (demo_call ''await'' []) 3 = Some (Inl f, 3) \<and> fst f = -32601"
proof -
  have "opt_bind as_str (param (se_json demo_server) (demo_call ''await'' []) ''instanceToken'') \<in> {None, Some (wi_token demo_instance)}"
    by code_simp
  then have "\<exists>f. dispatch_method demo_server (api_new demo_instance (\<lambda>_. watcher_state_default) :: (nat, unit) control_api)
         ''await'' (demo_call ''await'' []) 3 = Some (Inl f, 3) \<and> (''await'' = ''await'' \<longrightarrow> fst f = -32601)"
    by (rule conjunct2 [OF conjunct2 [OF profile_overstates_methods [OF demo_server_documented]], rotated]) simp
  then show ?thesis by simp
qed

section \<open>Accepting\<close>

lemma accept_step_bounded:
  "ac_active a \<le> MAX_CLIENT_THREADS \<Longrightarrow> ac_active (snd (accept_step ev a)) \<le> MAX_CLIENT_THREADS"
  by (cases ev) auto

text \<open>However clients come and go, at most the bound is served at once, and one more is told so.\<close>

lemma clients_stay_bounded:
  "ac_active (foldl (\<lambda>a ev. snd (accept_step ev a)) \<lparr>ac_active = 0, ac_open = True\<rparr> evs) \<le> MAX_CLIENT_THREADS"
  by (induction evs rule: rev_induct) (simp_all add: accept_step_bounded)

end
