(* ===== verification/Control_Wiring.thy ===== *)
theory Control_Wiring
  imports Control_Properties Duration_Recorder
begin

text \<open>
  The control server of a running watcher: the API that \<open>NonBlockStrategy::build_control_server\<close> of
  \<open>src/src/watch_loop.rs\<close> builds from the session, the observer that
  \<open>WatchNonBlockCommand::execute\<close> of \<open>src/src/cli/watch_non_block.rs\<close> installs in the worker, and the
  shared state both act on.

  Shown: the API always passes the server's validation; a status request answers the state that the
  event log determines; a target that left the configuration is refused with its typed code and
  nothing is cancelled; and the estimate of a target is looked up under the bound on parallel tasks
  that was in force when the server was built, which a reload can change.
\<close>

section \<open>The shared state of a process\<close>

record 'w process =
  pc_session :: "'w session"
  pc_state :: watcher_state
  pc_outputs :: "output_registry option"
  pc_broker :: "snapshot_broker option"
  pc_recorder :: "duration_recorder option"
  pc_lifecycle :: "unit config_lifecycle option"

text \<open>
  What the strategy fixes: its instance, the outside of the session, the fresh channel of a cancel
  request and what the worker does until the wait for its receipt ends.
\<close>

record 'w strategy =
  sy_instance :: watcher_instance
  sy_outside :: "'w outside"
  sy_channel :: nat
  sy_worker_turns :: "'w consumer \<Rightarrow> 'w consumer"

definition process_run ::
  "'w strategy \<Rightarrow> string \<Rightarrow> bool \<Rightarrow> 'w process \<Rightarrow> (control_run_error + scheduled_run) \<times> 'w process" where
  "process_run y target sequential p =
     (let (r, s) = run_target (sy_outside y) target sequential (pc_session p) in (r, p\<lparr>pc_session := s\<rparr>))"

definition process_emit :: "'w strategy \<Rightarrow> string \<Rightarrow> 'w process \<Rightarrow> emit_outcome result \<times> 'w process" where
  "process_emit y path p =
     (let (r, s) = emit_path (sy_outside y) path (pc_session p) in (r, p\<lparr>pc_session := s\<rparr>))"

definition cancel_receipt :: "nat \<Rightarrow> 'w consumer \<Rightarrow> cancel_result result" where
  "cancel_receipt channel c =
     (case receipt ''cancellation acknowledgement timed out'' channel c of
        Inr (CancelReply r) \<Rightarrow> Inr r
      | Inr (ReconcileReply _) \<Rightarrow> Inl ''cancellation acknowledgement timed out''
      | Inl err \<Rightarrow> Inl err)"

definition process_cancel :: "'w strategy \<Rightarrow> nat \<Rightarrow> 'w process \<Rightarrow> cancel_result result \<times> 'w process" where
  "process_cancel y g p =
     (let s = pc_session p in
      case cancel_generation (os_token (sy_outside y)) g (sy_channel y) (ss_worker s) (ss_consumer s) of
        Inl err \<Rightarrow> (Inl err, p)
      | Inr c \<Rightarrow>
          (let c = sy_worker_turns y c
           in (cancel_receipt (sy_channel y) c, p\<lparr>pc_session := s\<lparr>ss_consumer := c\<rparr>\<rparr>)))"

definition control_targets :: "watches \<Rightarrow> control_target list" where
  "control_targets wt = map (\<lambda>r. \<lparr>tg_name = rule_name r, tg_commands = commands_of r\<rparr>) (wt_rules wt)"

text \<open>
  The estimate of a target: root, bound and policy are those the server was built with, the plan is
  that of the live configuration.
\<close>

definition target_estimate ::
  "'w strategy \<Rightarrow> string \<Rightarrow> nat \<Rightarrow> bool \<Rightarrow> duration_recorder \<Rightarrow> watches \<Rightarrow> control_target \<Rightarrow> run_estimate option" where
  "target_estimate y root concurrency fail_fast recorder wt t =
     (case target_plan wt (tg_name t) of
        None \<Rightarrow> None
      | Some plan \<Rightarrow>
          (case resolve_context (os_files (sy_outside y)) root plan of
             Inl _ \<Rightarrow> None
           | Inr plan \<Rightarrow>
               recorder_estimate recorder
                 (execution_signature (os_digest (sy_outside y)) plan concurrency fail_fast) None))"

definition with_optional :: "('a \<Rightarrow> 'b \<Rightarrow> 'b) \<Rightarrow> 'a option \<Rightarrow> 'b \<Rightarrow> 'b" where
  "with_optional f x api = (case x of Some a \<Rightarrow> f a api | None \<Rightarrow> api)"

definition base_api :: "'w strategy \<Rightarrow> 'w process \<Rightarrow> ('w process, unit) control_api" where
  "base_api y p =
     with_instance (sy_instance y) (with_cancel (process_cancel y) (with_emit (process_emit y)
       (with_run (process_run y) (with_targets (control_targets (ss_watches (pc_session p)))
         (api_new (sy_instance y) pc_state)))))"

definition build_control_api :: "'w strategy \<Rightarrow> 'w process \<Rightarrow> ('w process, unit) control_api" where
  "build_control_api y p =
     (let root = wt_root (ss_watches (pc_session p));
          wk = ss_worker (pc_session p);
          api = with_optional (\<lambda>_. with_awaiting (\<lambda>p. the (ss_await (pc_session p)))) (ss_await (pc_session p)) (base_api y p);
          api = with_optional (\<lambda>_. with_outputs (\<lambda>p. the (pc_outputs p))) (pc_outputs p) api;
          api = with_optional (\<lambda>b. with_snapshots (sb_instance b) (\<lambda>p. the (pc_broker p)) (\<lambda>b p. p\<lparr>pc_broker := Some b\<rparr>))
                  (pc_broker p) api;
          api = with_optional (\<lambda>_. with_estimates (\<lambda>p. target_estimate y root (wk_concurrency wk) (wk_fail_fast wk)
                  (the (pc_recorder p)) (ss_watches (pc_session p)))) (pc_recorder p) api
      in with_optional (\<lambda>_ api. with_lifecycle (\<lambda>p. the (pc_lifecycle p))
            (with_targets_provider (\<lambda>p. control_targets (ss_watches (pc_session p))) api)) (pc_lifecycle p) api)"

section \<open>The observer of the worker\<close>

definition process_sources :: "'w process \<Rightarrow> unit snapshot_sources" where
  "process_sources p =
     \<lparr>src_state = pc_state p,
      src_coordinator = (case ss_await (pc_session p) of Some i \<Rightarrow> i | None \<Rightarrow> await_inner_default),
      src_outputs = pc_outputs p,
      src_estimates = map_option estimate_at_start (pc_recorder p),
      src_lifecycle = pc_lifecycle p\<rparr>"

text \<open>Recorder, coordinator, state, broker: in the order in which the closure calls them.\<close>

definition observe_event :: "json_codec \<Rightarrow> io_faults \<Rightarrow> event \<Rightarrow> 'w process \<Rightarrow> 'w process" where
  "observe_event js faults ev p =
     (let p = p\<lparr>pc_recorder := map_option (recorder_observe js faults ev) (pc_recorder p)\<rparr>;
          p = p\<lparr>pc_session := (pc_session p)\<lparr>ss_await := map_option (await_observe ev) (ss_await (pc_session p))\<rparr>\<rparr>;
          p = p\<lparr>pc_state := apply_event ev (pc_state p)\<rparr>
      in p\<lparr>pc_broker := map_option (publish (process_sources p)) (pc_broker p)\<rparr>)"

section \<open>The wiring is valid\<close>

lemma with_optional_simps [simp]:
  "with_optional f None api = api" "with_optional f (Some x) api = f x api"
  by (simp_all add: with_optional_def)

lemmas wiring_defs = with_instance_def with_cancel_def with_emit_def with_run_def with_targets_def api_new_def
  with_awaiting_def with_outputs_def with_snapshots_def with_estimates_def with_lifecycle_def
  with_targets_provider_def

lemma build_api_fields:
  "ca_run_target (build_control_api y p) = Some (process_run y)"
  "ca_emit_path (build_control_api y p) = Some (process_emit y)"
  "ca_cancel_generation (build_control_api y p) = Some (process_cancel y)"
  "ca_instance (build_control_api y p) = sy_instance y"
  "ca_state (build_control_api y p) = pc_state"
  "ca_coordinator (build_control_api y p) = None \<longleftrightarrow> ss_await (pc_session p) = None"
  "ca_broker (build_control_api y p) = None \<longleftrightarrow> pc_broker p = None"
  "pc_broker p = Some b \<Longrightarrow> ca_broker_instance (build_control_api y p) = sb_instance b"
  unfolding build_control_api_def base_api_def Let_def
  by (cases "ss_await (pc_session p)"; cases "pc_outputs p"; cases "pc_broker p"; cases "pc_recorder p";
      cases "pc_lifecycle p"; simp add: wiring_defs)+

text \<open>The state that \<open>execute\<close> sets up, with the lifecycle of an attached reload coordinator.\<close>

definition process_new ::
  "'w strategy \<Rightarrow> watches \<Rightarrow> 'w session \<Rightarrow> duration_recorder \<Rightarrow> unit config_lifecycle option \<Rightarrow> 'w process" where
  "process_new y wt s recorder lc =
     (let s = s\<lparr>ss_watches := wt, ss_await := Some await_inner_default\<rparr>;
          p = \<lparr>pc_session = s, pc_state = watcher_state_default, pc_outputs = Some registry_new, pc_broker = None,
               pc_recorder = Some recorder, pc_lifecycle = None\<rparr>
      in p\<lparr>pc_broker := Some (broker_new (sy_instance y) (wt_concurrency wt) (process_sources p)), pc_lifecycle := lc\<rparr>)"

lemma process_new_fields [simp]:
  "pc_state (process_new y wt s recorder lc) = watcher_state_default"
  "ss_await (pc_session (process_new y wt s recorder lc)) = Some await_inner_default"
  "ss_watches (pc_session (process_new y wt s recorder lc)) = wt"
  "ss_worker (pc_session (process_new y wt s recorder lc)) = ss_worker s"
  by (simp_all add: process_new_def Let_def broker_new_def)

lemma process_new_broker:
  "\<exists>b. pc_broker (process_new y wt s recorder lc) = Some b \<and> sb_instance b = sy_instance y"
  by (simp add: process_new_def Let_def broker_new_def)

text \<open>What the observer does to each part.\<close>

lemma observe_event_fields [simp]:
  "pc_state (observe_event js f ev p) = apply_event ev (pc_state p)"
  "ss_await (pc_session (observe_event js f ev p)) = map_option (await_observe ev) (ss_await (pc_session p))"
  "ss_watches (pc_session (observe_event js f ev p)) = ss_watches (pc_session p)"
  by (simp_all add: observe_event_def Let_def)

lemma publish_last:
  "sb_last (publish src b) = Some (broker_build b src) \<and> sb_instance (publish src b) = sb_instance b \<and>
   sb_configured_concurrency (publish src b) = sb_configured_concurrency b"
  by (simp add: publish_def publish_snapshot_def Let_def case_prod_beta)

lemma observe_event_broker [simp]: "pc_broker (observe_event js f ev p) = None \<longleftrightarrow> pc_broker p = None"
  by (simp add: observe_event_def Let_def)

definition observe_all :: "json_codec \<Rightarrow> (event \<times> io_faults) list \<Rightarrow> 'w process \<Rightarrow> 'w process" where
  "observe_all js log p = foldl (\<lambda>p (ev, f). observe_event js f ev p) p log"

lemma observe_all_state:
  "pc_state (observe_all js log p) = foldl (\<lambda>w ev. apply_event ev w) (pc_state p) (map fst log)"
  by (induction log arbitrary: p) (auto simp: observe_all_def)

lemma observe_all_broker: "pc_broker (observe_all js log p) = None \<longleftrightarrow> pc_broker p = None"
  by (induction log arbitrary: p) (simp_all add: observe_all_def case_prod_beta del: not_None_eq)

lemma observe_all_await:
  "ss_await (pc_session (observe_all js log p)) =
     map_option (\<lambda>i. foldl (\<lambda>i ev. await_observe ev i) i (map fst log)) (ss_await (pc_session p))"
  by (induction log arbitrary: p) (auto simp: observe_all_def option.map_comp comp_def map_option.identity)

text \<open>
  The control surface of a new watcher is valid and complete. Whatever the configuration, the
  API that a watcher builds for its socket passes the server's own validation, so binding fails only
  for a reason of the socket; and every method that the profile advertises has its handler.
\<close>

theorem watcher_api_is_valid:
  "api_validate (build_control_api y (process_new y wt s recorder lc)) = Inr ()"
proof -
  obtain b where "pc_broker (process_new y wt s recorder lc) = Some b" "sb_instance b = sy_instance y"
    using process_new_broker by blast
  then show ?thesis by (simp add: api_validate_def build_api_fields)
qed


definition demo_strategy :: "unit strategy" where
  "demo_strategy = \<lparr>sy_instance = demo_instance, sy_outside = demo_outside, sy_channel = 1, sy_worker_turns = id\<rparr>"

definition demo_recorder :: duration_recorder where
  "demo_recorder = \<lparr>rd_history = demo_history, rd_store = demo_path, rd_associations = [], rd_captured = [],
     rd_files = Map.empty\<rparr>"

definition demo_process :: "unit process" where
  "demo_process = process_new demo_strategy demo_watches demo_session demo_recorder None"


section \<open>Targets after a reload\<close>

lemma run_target_missing:
  "target_plan (ss_watches s) target = None \<Longrightarrow> run_target w target sequential s = (Inl (TargetMissing target), s)"
  by (simp add: run_target_def)

text \<open>
  A target that is not in the live configuration is refused by name and nothing is disturbed.
  Whatever server the API was built for and however the configuration was swapped since, a run
  request for a target no live rule has is answered with the typed code \<open>target_not_found\<close>, and the
  whole process is as before: no run is cancelled and no generation is used up.
\<close>

theorem missing_target_disturbs_nothing:
  assumes "raw_param (se_json e) request ''target'' = Some (JStr target)" and "non_blank target"
    and "raw_param (se_json e) request ''sequential'' \<in> {None, Some (JBool sequential)}"
    and "target_plan (ss_watches (pc_session p)) target = None"
  shows "dispatch_method e (build_control_api y built) ''run'' request p =
    Some (Inl (-32016, ''target_not_found'',
      Some (jobject [(''target'', JStr target), (''action'', JStr ''reobserve-targets'')])), p)"
proof -
  have "process_run y target sq p = (Inl (TargetMissing target), p)" for sq
    using run_target_missing [OF assms(4)] by (simp add: process_run_def)
  then have "run_requested_target (se_json e) request (Some (process_run y)) p =
      (Inl (to_rpc (TargetMissing target)), p)"
    using assms(1-3) by (auto simp: run_requested_target_def)
  then show ?thesis by (simp add: dispatch_method_def Let_def build_api_fields)
qed

definition demo_missing_run :: json where
  "demo_missing_run = demo_call ''run'' [(''target'', JStr ''nope'')]"

text \<open>A process whose configuration was replaced by one with the given jobs since.\<close>

definition reloaded_with :: "rules list \<Rightarrow> nat \<Rightarrow> unit process" where
  "reloaded_with rs concurrency =
     (let s = pc_session demo_process in
      demo_process\<lparr>pc_session := s
        \<lparr>ss_watches := (ss_watches s)\<lparr>wt_rules := rs, wt_topology := \<lparr>stages = map (\<lambda>r. Serial (task_of_rule 0 r)) rs\<rparr>\<rparr>,
         ss_worker := (ss_worker s)\<lparr>wk_concurrency := concurrency\<rparr>\<rparr>\<rparr>)"

theorem missing_target_disturbs_nothing_witness:
  "dispatch_method demo_server (build_control_api demo_strategy demo_process) ''run'' demo_missing_run (reloaded_with [] 1) =
    Some (Inl (-32016, ''target_not_found'',
      Some (jobject [(''target'', JStr ''nope''), (''action'', JStr ''reobserve-targets'')])), reloaded_with [] 1)"
proof (rule missing_target_disturbs_nothing)
  show "raw_param (se_json demo_server) demo_missing_run ''target'' = Some (JStr ''nope'')" by code_simp
  show "non_blank ''nope''" by code_simp
  show "raw_param (se_json demo_server) demo_missing_run ''sequential'' \<in> {None, Some (JBool False)}" by code_simp
  show "target_plan (ss_watches (pc_session (reloaded_with [] 1))) ''nope'' = None"
    by (simp add: reloaded_with_def Let_def target_plan_def filter_plan_def plan_is_empty_def)
qed

section \<open>Estimates\<close>

lemma build_api_estimates:
  "pc_recorder built \<noteq> None \<Longrightarrow>
   ca_estimates (build_control_api y built) =
     Some (\<lambda>p. target_estimate y (wt_root (ss_watches (pc_session built))) (wk_concurrency (ss_worker (pc_session built)))
             (wk_fail_fast (ss_worker (pc_session built))) (the (pc_recorder p)) (ss_watches (pc_session p)))"
  unfolding build_control_api_def base_api_def Let_def
  by (cases "ss_await (pc_session built)"; cases "pc_outputs built"; cases "pc_broker built"; cases "pc_recorder built";
      cases "pc_lifecycle built"; simp add: wiring_defs)

lemma signature_fixes_bound:
  assumes "plan_fits p jobs" and "plan_fits q jobs'" and "jobs \<noteq> jobs'"
  shows "execution_signature dg p jobs ff \<noteq> execution_signature dg q jobs' ff' \<or>
    collision dg (signature_bytes p jobs ff SIGNATURE_SCHEMA_VERSION) (signature_bytes q jobs' ff' SIGNATURE_SCHEMA_VERSION)"
proof -
  have v: "fits SIGNATURE_SCHEMA_VERSION" by (simp add: fits_def SIGNATURE_SCHEMA_VERSION_def)
  have "signature_bytes p jobs ff SIGNATURE_SCHEMA_VERSION \<noteq> signature_bytes q jobs' ff' SIGNATURE_SCHEMA_VERSION"
    using signature_bytes_inject [OF assms(1,2) v v] assms(3) by blast
  then show ?thesis
    using hex_inject by (auto simp: execution_signature_def execution_signature_for_def collision_def)
qed

text \<open>
  After a reload that changes the bound on parallel tasks, the estimates of the running server
  are those of another execution. The provider keeps the bound the worker had when the server was
  built. For a target whose plan resolves, it looks the history up under a signature with that bound,
  and this differs from the signature under which a run of the same target is recorded now, unless
  the two encodings are a collision of the digest.
\<close>

theorem estimates_keep_the_old_bound:
  fixes y :: "'w strategy" and p built :: "'w process"
  defines "digest \<equiv> os_digest (sy_outside y)" and "wk \<equiv> ss_worker (pc_session p)"
    and "old \<equiv> ss_worker (pc_session built)"
  assumes recorder: "pc_recorder built \<noteq> None" "pc_recorder p = Some r"
    and changed: "wk_concurrency old \<noteq> wk_concurrency wk"
    and plan: "target_plan (ss_watches (pc_session p)) (tg_name t) = Some plan"
    and resolved: "resolve_context (os_files (sy_outside y)) (wt_root (ss_watches (pc_session built))) plan = Inr rp"
    and request: "rq_execution_signature (target_request digest wk (tg_name t) False rq) = Some recorded"
    and fits: "plan_fits rp (wk_concurrency old)" "plan_fits (rq_plan rq) (wk_concurrency wk)"
  shows "\<exists>provider asked. ca_estimates (build_control_api y built) = Some provider \<and>
    provider p t = recorder_estimate r asked None \<and>
    (asked \<noteq> recorded \<or>
     collision digest (signature_bytes rp (wk_concurrency old) (wk_fail_fast old) SIGNATURE_SCHEMA_VERSION)
       (signature_bytes (rq_plan rq) (wk_concurrency wk) (wk_fail_fast wk) SIGNATURE_SCHEMA_VERSION))"
proof (intro exI conjI)
  let ?asked = "execution_signature digest rp (wk_concurrency old) (wk_fail_fast old)"
  show "ca_estimates (build_control_api y built) = Some (\<lambda>p. target_estimate y (wt_root (ss_watches (pc_session built)))
      (wk_concurrency old) (wk_fail_fast old) (the (pc_recorder p)) (ss_watches (pc_session p)))"
    using build_api_estimates [OF recorder(1)] by (simp add: old_def)
  show "target_estimate y (wt_root (ss_watches (pc_session built))) (wk_concurrency old) (wk_fail_fast old)
      (the (pc_recorder p)) (ss_watches (pc_session p)) t = recorder_estimate r ?asked None"
    using recorder(2) plan resolved by (simp add: target_estimate_def digest_def)
  have rec: "recorded = execution_signature digest (rq_plan rq) (wk_concurrency wk) (wk_fail_fast wk)"
    using request by (simp add: target_request_def Let_def)
  show "?asked \<noteq> recorded \<or>
     collision digest (signature_bytes rp (wk_concurrency old) (wk_fail_fast old) SIGNATURE_SCHEMA_VERSION)
       (signature_bytes (rq_plan rq) (wk_concurrency wk) (wk_fail_fast wk) SIGNATURE_SCHEMA_VERSION)"
    unfolding rec by (rule signature_fixes_bound [OF fits changed])
qed

definition demo_unit :: rules where
  "demo_unit = rules_new ''unit'' [''make''] [''src''] [] False"

definition demo_resolved :: run_plan where
  "demo_resolved = \<lparr>stages = [Serial ((task_of_rule 0 demo_unit)
     \<lparr>tp_context := (tp_context (task_of_rule 0 demo_unit))\<lparr>ctx_cwd := Some ''/w''\<rparr>\<rparr>)]\<rparr>"

theorem estimates_keep_the_old_bound_witness:
  "\<exists>provider asked. ca_estimates (build_control_api demo_strategy demo_process) = Some provider \<and>
     provider (reloaded_with [demo_unit] 4) \<lparr>tg_name = ''unit'', tg_commands = []\<rparr> = recorder_estimate demo_recorder asked None \<and>
     asked \<noteq> execution_signature (\<lambda>b. b) demo_resolved 4 False"
proof -
  let ?p = "reloaded_with [demo_unit] 4" and ?t = "\<lparr>tg_name = ''unit'', tg_commands = []\<rparr>"
  let ?rq = "(demo_request 1)\<lparr>rq_plan := demo_resolved\<rparr>"
  have small: "fits n" if "n < 10" for n using that by (simp add: fits_def)
  have fits: "plan_fits demo_resolved 1" "plan_fits demo_resolved 4"
    by (simp_all add: plan_fits_def task_fits_def small demo_resolved_def task_of_rule_def demo_unit_def
        rules_new_def command_lines_def recovery_command_lines_def)
  have rec: "pc_recorder demo_process \<noteq> None" "pc_recorder ?p = Some demo_recorder"
    by (simp_all add: reloaded_with_def demo_process_def process_new_def Let_def)
  have wk: "wk_concurrency (ss_worker (pc_session demo_process)) = 1" "wk_concurrency (ss_worker (pc_session ?p)) = 4"
    "wk_fail_fast (ss_worker (pc_session ?p)) = False" "wt_root (ss_watches (pc_session demo_process)) = ''/w''"
    by (simp_all add: reloaded_with_def demo_process_def Let_def demo_session_def worker_new_def demo_watches_def
        with_root_and_concurrency_def)
  have "str_contains ''unit'' ''unit''" by code_simp
  then have plan: "target_plan (ss_watches (pc_session ?p)) (tg_name ?t) = Some \<lparr>stages = [Serial (task_of_rule 0 demo_unit)]\<rparr>"
    by (simp add: reloaded_with_def Let_def target_plan_def filter_plan_def plan_is_empty_def task_of_rule_def
        demo_unit_def rules_new_def)
  have resolved: "resolve_context (os_files (sy_outside demo_strategy)) ''/w'' \<lparr>stages = [Serial (task_of_rule 0 demo_unit)]\<rparr> = Inr demo_resolved"
    by (simp add: resolve_context_def resolve_task_def demo_resolved_def task_of_rule_def demo_unit_def rules_new_def)
  have digest: "os_digest (sy_outside demo_strategy) = (\<lambda>b. b)" by (simp add: demo_strategy_def demo_outside_def)
  have sig: "rq_execution_signature (target_request (os_digest (sy_outside demo_strategy)) (ss_worker (pc_session ?p)) ''unit'' False ?rq) =
      Some (execution_signature (\<lambda>b. b) demo_resolved 4 False)"
    by (simp add: target_request_def Let_def wk digest)
  have "\<not> collision (\<lambda>b. b) x y" for x y by (simp add: collision_def)
  moreover have "wk_concurrency (ss_worker (pc_session demo_process)) \<noteq> wk_concurrency (ss_worker (pc_session ?p))"
    using wk by simp
  ultimately show ?thesis
    using estimates_keep_the_old_bound [where y = demo_strategy and rp = demo_resolved and rq = ?rq and
        recorded = "execution_signature (\<lambda>b. b) demo_resolved 4 False", OF rec _ plan]
      resolved sig fits wk digest by auto
qed

end
