(* ===== verification/Control_Client.thy ===== *)
theory Control_Client
  imports Control_Wiring Config_Model
begin

text \<open>
  The control client, \<open>src/src/control_client.rs\<close>: the typed snapshots, their validating decoders, the
  request parameters and one call over the connection.

  A decoder answers an error text or the snapshot. Shown: every document the server writes is decoded
  to exactly the facts it was written from; a response to another request is never taken for the
  answer; and the instance token that the command line sends with a cancel is the one the answering
  server has just reported, so the server's identity check never refuses it.
\<close>

section \<open>Reading members\<close>

definition dquoted :: "string \<Rightarrow> string" where
  "dquoted s = CHR 0x22 # s @ [CHR 0x22]"

definition object_or :: "string \<Rightarrow> json \<Rightarrow> json result" where
  "object_or message v = (case as_object v of Some x \<Rightarrow> Inr x | None \<Rightarrow> Inl message)"

definition need :: "json_lib \<Rightarrow> (json \<Rightarrow> 'a option) \<Rightarrow> json \<Rightarrow> string \<Rightarrow> string \<Rightarrow> 'a result" where
  "need J f x k message = (case opt_bind f (jl_get J x k) of Some a \<Rightarrow> Inr a | None \<Rightarrow> Inl message)"

definition maybe :: "json_lib \<Rightarrow> (json \<Rightarrow> 'a option) \<Rightarrow> json \<Rightarrow> string \<Rightarrow> 'a option" where
  "maybe J f x k = opt_bind f (jl_get J x k)"

definition default_to :: "'a \<Rightarrow> 'a option \<Rightarrow> 'a" where
  "default_to d x = (case x of Some a \<Rightarrow> a | None \<Rightarrow> d)"

text \<open>A member that may be absent or null and otherwise is a number, or a string.\<close>

definition nullable_number :: "json_lib \<Rightarrow> json \<Rightarrow> string \<Rightarrow> string \<Rightarrow> string \<Rightarrow> nat option result" where
  "nullable_number J x k bad_number bad_kind =
     (case jl_get J x k of
        None \<Rightarrow> Inr None
      | Some JNull \<Rightarrow> Inr None
      | Some (JInt n) \<Rightarrow> (case jl_as_u64 J (JInt n) of Some m \<Rightarrow> Inr (Some m) | None \<Rightarrow> Inl bad_number)
      | Some (JFloat t) \<Rightarrow> (case jl_as_u64 J (JFloat t) of Some m \<Rightarrow> Inr (Some m) | None \<Rightarrow> Inl bad_number)
      | Some _ \<Rightarrow> Inl bad_kind)"

definition nullable_string :: "json_lib \<Rightarrow> json \<Rightarrow> string \<Rightarrow> string \<Rightarrow> string option result" where
  "nullable_string J x k bad_kind =
     (case jl_get J x k of
        None \<Rightarrow> Inr None
      | Some JNull \<Rightarrow> Inr None
      | Some (JStr s) \<Rightarrow> Inr (Some s)
      | Some _ \<Rightarrow> Inl bad_kind)"

definition string_item :: "string \<Rightarrow> json \<Rightarrow> string result" where
  "string_item field v = (case as_str v of Some s \<Rightarrow> Inr s | None \<Rightarrow> Inl (field @ '' must contain only strings''))"

definition read_string_array :: "json_lib \<Rightarrow> json \<Rightarrow> string \<Rightarrow> string list result" where
  "read_string_array J x field =
     (case jl_get J x field of
        None \<Rightarrow> Inr []
      | Some (JArr vs) \<Rightarrow> map_result (string_item field) vs
      | Some _ \<Rightarrow> Inl (field @ '' must be an array of strings''))"

definition field_message :: "string \<Rightarrow> string \<Rightarrow> string \<Rightarrow> string" where
  "field_message kind field what = kind @ '' field '' @ dquoted field @ '' '' @ what"

section \<open>Status\<close>

record terminal_task =
  tt_id :: string
  tt_name :: string
  tt_state :: string
  tt_duration_ms :: "nat option"

definition task_message :: "nat \<Rightarrow> string \<Rightarrow> string" where
  "task_message i what = ''status result task at index '' @ show_nat i @ '' '' @ what"

definition read_terminal_task :: "json_lib \<Rightarrow> nat \<times> json \<Rightarrow> terminal_task result" where
  "read_terminal_task J = (\<lambda>(i, v).
     and_then (object_or (task_message i ''must be an object'') v) (\<lambda>x.
     and_then (need J as_str x ''id'' (task_message i (''field '' @ dquoted ''id'' @ '' must be a string''))) (\<lambda>tid.
     and_then (need J as_str x ''name'' (task_message i (''field '' @ dquoted ''name'' @ '' must be a string''))) (\<lambda>name.
     and_then (need J (\<lambda>v. opt_filter (\<lambda>s. s \<in> {''passed'', ''failed'', ''cancelled''}) (as_str v)) x ''state''
                (task_message i (''field '' @ dquoted ''state'' @ '' is invalid''))) (\<lambda>state.
     let bad = task_message i (''field '' @ dquoted ''durationMs'' @ '' must be a number or null'') in
     and_then (if jl_get J x ''durationMs'' = None then Inl bad else nullable_number J x ''durationMs'' bad bad) (\<lambda>d.
     Inr \<lparr>tt_id = tid, tt_name = name, tt_state = state, tt_duration_ms = d\<rparr>))))))"

definition read_optional_terminal_tasks :: "json_lib \<Rightarrow> json \<Rightarrow> terminal_task list option result" where
  "read_optional_terminal_tasks J x =
     (case jl_get J x ''tasks'' of
        None \<Rightarrow> Inr None
      | Some v \<Rightarrow>
          (case as_array v of
             None \<Rightarrow> Inl (field_message ''status result'' ''tasks'' ''must be an array'')
           | Some vs \<Rightarrow> map_sum id Some (map_result (read_terminal_task J) (enumerate 0 vs))))"

record status_snapshot =
  sn_generation :: nat
  sn_state :: string
  sn_trigger :: "string option"
  sn_commands :: "string list"
  sn_duration_ms :: "nat option"
  sn_failures :: "string list"
  sn_tasks :: "terminal_task list option"
  sn_effective_concurrency :: "nat option"
  sn_concurrency_source :: "string option"
  sn_revision :: "nat option"
  sn_revision_hash :: "string option"

definition status_field :: "string \<Rightarrow> string \<Rightarrow> string" where
  "status_field field what = field_message ''status result'' field what"

definition status_from_value :: "json_lib \<Rightarrow> json \<Rightarrow> status_snapshot result" where
  "status_from_value J v =
     and_then (object_or ''status result must be an object'' v) (\<lambda>x.
     and_then (need J (jl_as_u64 J) x ''generation'' (status_field ''generation'' ''must be a number'')) (\<lambda>generation.
     and_then (need J as_str x ''state'' (status_field ''state'' ''must be a string'')) (\<lambda>state.
     and_then (nullable_string J x ''trigger'' (status_field ''trigger'' ''must be a string or null'')) (\<lambda>trigger.
     and_then (read_string_array J x ''commands'') (\<lambda>cmds.
     and_then (nullable_number J x ''durationMs'' (status_field ''durationMs'' ''must be a number'')
                 (status_field ''durationMs'' ''must be a number or null'')) (\<lambda>duration_ms.
     and_then (read_string_array J x ''failures'') (\<lambda>fs.
     and_then (read_optional_terminal_tasks J x) (\<lambda>tasks.
     and_then (nullable_number J x ''effectiveConcurrency'' (status_field ''effectiveConcurrency'' ''must be a number'')
                 (status_field ''effectiveConcurrency'' ''must be a number'')) (\<lambda>concurrency.
     and_then (nullable_string J x ''concurrencySource'' (status_field ''concurrencySource'' ''must be a string'')) (\<lambda>source.
     and_then (nullable_number J x ''revision'' (status_field ''revision'' ''must be a number'')
                 (status_field ''revision'' ''must be a number'')) (\<lambda>revision.
     and_then (nullable_string J x ''revisionHash'' (status_field ''revisionHash'' ''must be a string'')) (\<lambda>hash.
     Inr \<lparr>sn_generation = generation, sn_state = state, sn_trigger = trigger, sn_commands = cmds,
          sn_duration_ms = duration_ms, sn_failures = fs, sn_tasks = tasks, sn_effective_concurrency = concurrency,
          sn_concurrency_source = source, sn_revision = revision, sn_revision_hash = hash\<rparr>))))))))))))"

section \<open>Targets\<close>

record target_snapshot =
  tn_name :: string
  tn_commands :: "string list"
  tn_estimate :: "run_estimate option"

definition word_of :: "nat option \<Rightarrow> u64" where
  "word_of x = of_nat (default_to 0 x)"

definition read_estimate :: "json_lib \<Rightarrow> json \<Rightarrow> run_estimate" where
  "read_estimate J x =
     \<lparr>re_typical_ms = word_of (maybe J (jl_as_u64 J) x ''typicalMs''),
      re_upper_ms = word_of (maybe J (jl_as_u64 J) x ''upperMs''),
      re_recommended_timeout_ms = word_of (maybe J (jl_as_u64 J) x ''recommendedTimeoutMs''),
      re_samples = default_to 0 (maybe J (jl_as_u64 J) x ''samples''),
      re_confidence =
        (let c = maybe J as_str x ''confidence'' in
         if c = Some ''low'' then LowConfidence else if c = Some ''medium'' then MediumConfidence
         else if c = Some ''high'' then HighConfidence else NoConfidence),
      re_source = (if maybe J as_str x ''source'' = Some ''configured'' then Configured else Measured)\<rparr>"

definition target_from_value :: "json_lib \<Rightarrow> json \<Rightarrow> target_snapshot result" where
  "target_from_value J v =
     and_then (object_or ''target entry must be an object'' v) (\<lambda>x.
     and_then (need J as_str x ''name'' (field_message ''target entry'' ''name'' ''must be a string'')) (\<lambda>name.
     and_then (read_string_array J x ''commands'') (\<lambda>cmds.
     Inr \<lparr>tn_name = name, tn_commands = cmds,
          tn_estimate = map_option (read_estimate J) (maybe J as_object x ''estimate'')\<rparr>)))"

definition targets_from_value :: "json_lib \<Rightarrow> json \<Rightarrow> target_snapshot list result" where
  "targets_from_value J v =
     (case as_array v of
        None \<Rightarrow> Inl ''targets result must be an array''
      | Some vs \<Rightarrow> map_result (target_from_value J) vs)"

section \<open>Capabilities\<close>

record capability_limits =
  cl_output_retention_bytes :: nat
  cl_max_response_bytes :: nat
  cl_max_evidence_lines :: nat
  cl_estimate_max_samples :: nat
  cl_estimate_floor_ms :: nat
  cl_estimate_cap_ms :: nat

record capability_features =
  cf_atomic_await :: bool
  cf_subscription :: bool
  cf_correlated_snapshots :: bool
  cf_output_retrieval :: bool
  cf_pending_work :: bool
  cf_duration_estimates :: bool
  cf_sequential_override :: bool

record capabilities_snapshot =
  cp_token :: string
  cp_protocol_version :: string
  cp_schema_version :: nat
  cp_watcher_version :: string
  cp_methods :: "string list"
  cp_optional_fields :: "string list"
  cp_output_formats :: "string list"
  cp_limits :: capability_limits
  cp_features :: capability_features

definition read_feature :: "json_lib \<Rightarrow> json \<Rightarrow> string \<Rightarrow> bool" where
  "read_feature J x k =
     default_to False (opt_bind (\<lambda>fs. maybe J as_bool fs k) (maybe J as_object x ''features''))"

definition read_limit :: "json_lib \<Rightarrow> json \<Rightarrow> string \<Rightarrow> nat" where
  "read_limit J x k = default_to 0 (opt_bind (\<lambda>l. maybe J (jl_as_u64 J) l k) (maybe J as_object x ''limits''))"

definition read_estimate_limit :: "json_lib \<Rightarrow> json \<Rightarrow> string \<Rightarrow> nat" where
  "read_estimate_limit J x k =
     default_to 0 (opt_bind (\<lambda>l. maybe J (jl_as_u64 J) l k)
       (opt_bind (\<lambda>l. maybe J as_object l ''durationEstimateLimits'') (maybe J as_object x ''limits'')))"

definition capabilities_from_value :: "json_lib \<Rightarrow> json \<Rightarrow> capabilities_snapshot result" where
  "capabilities_from_value J v =
     and_then (object_or ''capabilities result must be an object'' v) (\<lambda>x.
     and_then (need J as_object x ''instance'' (''capabilities result must carry '' @ dquoted ''instance'')) (\<lambda>inst.
     and_then (need J as_str inst ''token'' (''capabilities instance must carry a '' @ dquoted ''token'' @ '' string'')) (\<lambda>token.
     and_then (read_string_array J x ''methods'') (\<lambda>methods.
     and_then (read_string_array J x ''optionalFields'') (\<lambda>optional_fields.
     and_then (read_string_array J x ''outputFormats'') (\<lambda>output_formats.
     Inr \<lparr>cp_token = token,
          cp_protocol_version = default_to [] (maybe J as_str x ''protocolVersion''),
          cp_schema_version = default_to 0 (maybe J (jl_as_u64 J) x ''schemaVersion''),
          cp_watcher_version = default_to [] (maybe J as_str x ''watcherVersion''),
          cp_methods = methods, cp_optional_fields = optional_fields, cp_output_formats = output_formats,
          cp_limits =
            \<lparr>cl_output_retention_bytes = read_limit J x ''outputRetentionBytes'',
             cl_max_response_bytes = read_limit J x ''maxResponseBytes'',
             cl_max_evidence_lines = read_limit J x ''maxEvidenceLines'',
             cl_estimate_max_samples = read_estimate_limit J x ''maxSamples'',
             cl_estimate_floor_ms = read_estimate_limit J x ''floorMs'',
             cl_estimate_cap_ms = read_estimate_limit J x ''capMs''\<rparr>,
          cp_features =
            \<lparr>cf_atomic_await = read_feature J x ''atomicAwait'',
             cf_subscription = read_feature J x ''subscription'',
             cf_correlated_snapshots = read_feature J x ''correlatedSnapshots'',
             cf_output_retrieval = read_feature J x ''outputRetrieval'',
             cf_pending_work = read_feature J x ''pendingWork'',
             cf_duration_estimates = read_feature J x ''durationEstimates'',
             cf_sequential_override = read_feature J x ''sequentialOverride''\<rparr>\<rparr>))))))"

definition has_method :: "capabilities_snapshot \<Rightarrow> string \<Rightarrow> bool" where
  "has_method c verb \<longleftrightarrow> verb \<in> set (cp_methods c)"

section \<open>Await\<close>

record output_ref_snapshot =
  os_instance_token :: string
  os_generation :: nat
  os_task :: string
  os_mode :: string
  os_tail :: nat
  os_max_bytes :: nat
  os_retrieve :: string

record evidence_snapshot =
  es_excerpt :: string
  es_lines :: nat
  es_truncated :: bool
  es_total_observed_bytes :: nat
  es_retained_bytes :: nat
  es_retrieve :: string
  es_output_ref :: "output_ref_snapshot option"
  es_additional_failed_tasks :: nat

definition must_carry :: "string \<Rightarrow> string \<Rightarrow> string" where
  "must_carry kind field = kind @ '' must carry '' @ dquoted field"

definition must_carry_number :: "string \<Rightarrow> string \<Rightarrow> string" where
  "must_carry_number kind field = kind @ '' must carry a numeric '' @ dquoted field"

definition output_ref_from_value :: "json_lib \<Rightarrow> json \<Rightarrow> output_ref_snapshot result" where
  "output_ref_from_value J v =
     and_then (object_or ''outputRef must be an object'' v) (\<lambda>x.
     and_then (need J as_str x ''instanceToken'' (must_carry ''outputRef'' ''instanceToken'')) (\<lambda>token.
     and_then (need J (jl_as_u64 J) x ''generation'' (must_carry_number ''outputRef'' ''generation'')) (\<lambda>generation.
     and_then (need J as_str x ''task'' (must_carry ''outputRef'' ''task'')) (\<lambda>task.
     Inr \<lparr>os_instance_token = token, os_generation = generation, os_task = task,
          os_mode = default_to ''tail'' (maybe J as_str x ''mode''),
          os_tail = default_to 80 (maybe J (jl_as_u64 J) x ''tail''),
          os_max_bytes = default_to 0 (maybe J (jl_as_u64 J) x ''maxBytes''),
          os_retrieve = default_to [] (maybe J as_str x ''retrieve'')\<rparr>))))"

definition evidence_from_value :: "json_lib \<Rightarrow> json \<Rightarrow> evidence_snapshot result" where
  "evidence_from_value J v =
     (let kind = ''failureEvidence'' in
     and_then (object_or ''failureEvidence must be an object'' v) (\<lambda>x.
     and_then (need J as_str x ''excerpt'' (must_carry kind ''excerpt'')) (\<lambda>excerpt.
     and_then (need J (jl_as_u64 J) x ''lines'' (must_carry_number kind ''lines'')) (\<lambda>ls.
     and_then (need J as_bool x ''truncated'' (must_carry kind ''truncated'')) (\<lambda>truncated.
     and_then (need J (jl_as_u64 J) x ''totalObservedBytes'' (must_carry kind ''totalObservedBytes'')) (\<lambda>observed.
     and_then (need J (jl_as_u64 J) x ''retainedBytes'' (must_carry kind ''retainedBytes'')) (\<lambda>retained.
     and_then (need J as_str x ''retrieve'' (must_carry kind ''retrieve'')) (\<lambda>cmd.
     and_then (case jl_get J x ''outputRef'' of None \<Rightarrow> Inr None
               | Some r \<Rightarrow> map_sum id Some (output_ref_from_value J r)) (\<lambda>ref.
     Inr \<lparr>es_excerpt = excerpt, es_lines = ls, es_truncated = truncated, es_total_observed_bytes = observed,
          es_retained_bytes = retained, es_retrieve = cmd, es_output_ref = ref,
          es_additional_failed_tasks = default_to 0 (maybe J (jl_as_u64 J) x ''additionalFailedTasks'')\<rparr>)))))))))"

text \<open>\<open>queued_batches\<close> is cut to 32 bits.\<close>

record await_snapshot =
  an_terminal_reason :: string
  an_latest_generation :: nat
  an_latest_batch :: "nat option"
  an_debounce_active :: bool
  an_queued_batches :: nat
  an_freshness :: string
  an_snapshot :: status_snapshot
  an_failure_evidence :: "evidence_snapshot option"

definition await_field :: "string \<Rightarrow> string \<Rightarrow> string" where
  "await_field field what = field_message ''await result'' field what"

definition read_latest_batch :: "json_lib \<Rightarrow> json \<Rightarrow> nat option result" where
  "read_latest_batch J x =
     (case jl_get J x ''latestBatch'' of
        None \<Rightarrow> Inr None
      | Some JNull \<Rightarrow> Inr None
      | Some (JInt n) \<Rightarrow> Inr (jl_as_u64 J (JInt n))
      | Some (JFloat t) \<Rightarrow> Inr (jl_as_u64 J (JFloat t))
      | Some _ \<Rightarrow> Inl (await_field ''latestBatch'' ''must be a number or null''))"

definition read_evidence :: "json_lib \<Rightarrow> json \<Rightarrow> evidence_snapshot option result" where
  "read_evidence J x =
     (case jl_get J x ''failureEvidence'' of
        None \<Rightarrow> Inr None
      | Some JNull \<Rightarrow> Inr None
      | Some v \<Rightarrow> map_sum id Some (evidence_from_value J v))"

definition terminal_reasons :: "string list" where
  "terminal_reasons =
     [''passed'', ''failed'', ''cancelled'', ''superseded'', ''timeout'', ''disconnected'', ''restarted'']"

definition await_from_value :: "json_lib \<Rightarrow> json \<Rightarrow> await_snapshot result" where
  "await_from_value J v =
     and_then (object_or ''await result must be an object'' v) (\<lambda>x.
     and_then (need J (\<lambda>v. opt_filter (\<lambda>s. s \<in> set terminal_reasons) (as_str v)) x ''terminalReason''
                (await_field ''terminalReason'' ''is invalid'')) (\<lambda>reason.
     and_then (need J (jl_as_u64 J) x ''latestGeneration'' (await_field ''latestGeneration'' ''must be a number'')) (\<lambda>latest.
     and_then (read_latest_batch J x) (\<lambda>batch.
     and_then (need J as_object x ''pendingWork'' (''await result must carry a '' @ dquoted ''pendingWork'' @ '' object'')) (\<lambda>pending.
     and_then (need J as_bool pending ''debounceActive'' ''pendingWork.debounceActive must be a boolean'') (\<lambda>active.
     and_then (need J (jl_as_u64 J) pending ''queuedBatches'' ''pendingWork.queuedBatches must be a number'') (\<lambda>queued.
     and_then (need J (\<lambda>v. opt_filter (\<lambda>s. s \<in> {''current'', ''stale'', ''unknown''}) (as_str v)) x ''freshness''
                (await_field ''freshness'' ''is invalid'')) (\<lambda>fresh.
     and_then (need J Some x ''snapshot'' (''await result must carry a '' @ dquoted ''snapshot'' @ '' object'')) (\<lambda>snapshot.
     and_then (status_from_value J snapshot) (\<lambda>status.
     and_then (read_evidence J x) (\<lambda>ev.
     Inr \<lparr>an_terminal_reason = reason, an_latest_generation = latest, an_latest_batch = batch,
          an_debounce_active = active, an_queued_batches = queued mod 2 ^ 32, an_freshness = fresh,
          an_snapshot = status, an_failure_evidence = ev\<rparr>)))))))))))"

section \<open>Output\<close>

record retrieved_task_snapshot =
  rs_id :: string
  rs_stdout :: "stream_output option"
  rs_stderr :: "stream_output option"

record output_snapshot =
  ot_generation :: nat
  ot_resolved_task :: "string option"
  ot_tasks :: "retrieved_task_snapshot list"
  ot_next_cursor :: "string option"
  ot_returned_bytes :: "nat option"
  ot_truncated :: "bool option"

definition stream_from_value :: "json_lib \<Rightarrow> json \<Rightarrow> stream_output result" where
  "stream_from_value J v =
     (let kind = ''output stream'' in
     and_then (object_or ''output stream must be an object'' v) (\<lambda>x.
     and_then (need J as_str x ''content'' (must_carry kind ''content'')) (\<lambda>content.
     and_then (need J (jl_as_u64 J) x ''lines'' (must_carry_number kind ''lines'')) (\<lambda>ls.
     and_then (need J (jl_as_u64 J) x ''retainedBytes'' (must_carry kind ''retainedBytes'')) (\<lambda>retained.
     and_then (need J (jl_as_u64 J) x ''observedBytes'' (must_carry kind ''observedBytes'')) (\<lambda>observed.
     and_then (need J as_bool x ''truncated'' (must_carry kind ''truncated'')) (\<lambda>truncated.
     Inr \<lparr>so_content = content, so_lines = ls, so_retained_bytes = retained, so_observed_bytes = observed,
          so_truncated = truncated\<rparr>)))))))"

definition optional_stream :: "json_lib \<Rightarrow> json \<Rightarrow> string \<Rightarrow> stream_output option result" where
  "optional_stream J x k =
     (case jl_get J x k of
        None \<Rightarrow> Inr None
      | Some JNull \<Rightarrow> Inr None
      | Some v \<Rightarrow> map_sum id Some (stream_from_value J v))"

definition task_from_value :: "json_lib \<Rightarrow> json \<Rightarrow> retrieved_task_snapshot result" where
  "task_from_value J v =
     and_then (object_or ''task must be an object'' v) (\<lambda>x.
     and_then (need J as_str x ''id'' (must_carry ''task'' ''id'')) (\<lambda>tid.
     and_then (optional_stream J x ''stdout'') (\<lambda>out.
     and_then (optional_stream J x ''stderr'') (\<lambda>err.
     Inr \<lparr>rs_id = tid, rs_stdout = out, rs_stderr = err\<rparr>))))"

definition output_from_value :: "json_lib \<Rightarrow> json \<Rightarrow> output_snapshot result" where
  "output_from_value J v =
     and_then (object_or ''output result must be an object'' v) (\<lambda>x.
     and_then (need J (jl_as_u64 J) x ''generation'' (must_carry_number ''output result'' ''generation'')) (\<lambda>generation.
     and_then (need J as_array x ''tasks'' (''output result must carry a '' @ dquoted ''tasks'' @ '' array'')) (\<lambda>vs.
     and_then (map_result (task_from_value J) vs) (\<lambda>tasks.
     Inr \<lparr>ot_generation = generation, ot_resolved_task = maybe J as_str x ''resolvedTask'', ot_tasks = tasks,
          ot_next_cursor = maybe J as_str x ''nextCursor'',
          ot_returned_bytes = maybe J (jl_as_u64 J) x ''returnedBytes'',
          ot_truncated = maybe J as_bool x ''truncated''\<rparr>))))"

section \<open>Emit, run, cancel and config\<close>

record emit_snapshot =
  et_matched :: "string list"
  et_run_id :: "nat option"
  et_outcome :: string
  et_revision :: "nat option"
  et_revision_hash :: "string option"

definition emit_from_value :: "json_lib \<Rightarrow> json \<Rightarrow> emit_snapshot result" where
  "emit_from_value J v =
     (let field = field_message ''emit result'' in
     and_then (object_or ''emit result must be an object'' v) (\<lambda>x.
     and_then (need J as_str x ''outcome'' (field ''outcome'' ''must be a string'')) (\<lambda>outcome.
     if outcome \<notin> {''scheduled'', ''unmatched'', ''ignored''}
     then Inl (field ''outcome'' (''must be scheduled, unmatched, or ignored, got '' @ outcome))
     else
     and_then (read_string_array J x ''matched'') (\<lambda>matched.
     and_then (nullable_number J x ''runId'' (field ''runId'' ''must be a number'') (field ''runId'' ''must be a number or null'')) (\<lambda>run.
     and_then (nullable_number J x ''revision'' (field ''revision'' ''must be a number'') (field ''revision'' ''must be a number'')) (\<lambda>revision.
     and_then (nullable_string J x ''revisionHash'' (field ''revisionHash'' ''must be a string'')) (\<lambda>hash.
     Inr \<lparr>et_matched = matched, et_run_id = run, et_outcome = outcome, et_revision = revision, et_revision_hash = hash\<rparr>)))))))"

definition run_from_value :: "json_lib \<Rightarrow> json \<Rightarrow> scheduled_run result" where
  "run_from_value J v =
     (let field = field_message ''run result'' in
     and_then (object_or ''run result must be an object'' v) (\<lambda>x.
     and_then (need J (jl_as_u64 J) x ''runId'' (must_carry_number ''run result'' ''runId'')) (\<lambda>run.
     and_then (nullable_number J x ''revision'' (field ''revision'' ''must be a number'') (field ''revision'' ''must be a number'')) (\<lambda>revision.
     and_then (nullable_string J x ''revisionHash'' (field ''revisionHash'' ''must be a string'')) (\<lambda>hash.
     Inr \<lparr>sr_run_id = run, sr_revision = revision, sr_revision_hash = hash\<rparr>)))))"

record cancel_snapshot =
  cn_cancelled :: bool
  cn_generation :: nat

definition cancel_from_value :: "json_lib \<Rightarrow> json \<Rightarrow> cancel_snapshot result" where
  "cancel_from_value J v =
     (let field = field_message ''cancel result'' in
     and_then (object_or ''cancel result must be an object'' v) (\<lambda>x.
     and_then (need J as_bool x ''cancelled'' (field ''cancelled'' ''must be a boolean'')) (\<lambda>cancelled.
     and_then (need J (jl_as_u64 J) x ''generation'' (field ''generation'' ''must be a number'')) (\<lambda>generation.
     Inr \<lparr>cn_cancelled = cancelled, cn_generation = generation\<rparr>))))"

record transition_snapshot =
  tr_phase :: string
  tr_revision :: "nat option"
  tr_revision_hash :: "string option"
  tr_reason_text :: "string option"
  tr_ordinal :: nat
  tr_at_epoch_ms :: nat

record config_snapshot =
  gs_current :: transition_snapshot
  gs_history :: "transition_snapshot list"

definition transition_from_value :: "json_lib \<Rightarrow> json \<Rightarrow> transition_snapshot result" where
  "transition_from_value J v =
     and_then (object_or ''config transition must be an object'' v) (\<lambda>x.
     and_then (need J as_str x ''phase'' (field_message ''config transition'' ''phase'' ''must be a string'')) (\<lambda>ph.
     Inr \<lparr>tr_phase = ph, tr_revision = maybe J (jl_as_u64 J) x ''revision'',
          tr_revision_hash = maybe J as_str x ''revisionHash'', tr_reason_text = maybe J as_str x ''reason'',
          tr_ordinal = default_to 0 (maybe J (jl_as_u64 J) x ''ordinal''),
          tr_at_epoch_ms = default_to 0 (maybe J (jl_as_u64 J) x ''atEpochMs'')\<rparr>))"

definition config_from_value :: "json_lib \<Rightarrow> json \<Rightarrow> config_snapshot result" where
  "config_from_value J v =
     and_then (object_or ''config result must be an object'' v) (\<lambda>x.
     and_then (transition_from_value J x) (\<lambda>current.
     and_then (case maybe J as_array x ''history'' of
                 None \<Rightarrow> Inr []
               | Some vs \<Rightarrow> map_result (transition_from_value J) vs) (\<lambda>history.
     Inr \<lparr>gs_current = current, gs_history = history\<rparr>)))"

section \<open>Calls\<close>

datatype client_error =
    Unavailable string string
  | ClientIo string
  | Disconnected
  | ClientTimeout
  | Malformed string
  | ServerFailure int string "json option"

datatype io_kind = KindWouldBlock | KindTimedOut | KindOther

definition io_timeout :: "io_kind \<times> string \<Rightarrow> client_error" where
  "io_timeout err = (if fst err = KindOther then ClientIo (snd err) else ClientTimeout)"

text \<open>
  The connection as a client sees it: the identity of the next call, and for one call what writing
  the line answers and what reading the next line of the connection answers.
\<close>

record call_io =
  ci_write :: "(io_kind \<times> string) + unit"
  ci_flush :: "(io_kind \<times> string) + unit"
  ci_read :: "(io_kind \<times> string) + string"

definition request_document :: "nat \<Rightarrow> string \<Rightarrow> json \<Rightarrow> json" where
  "request_document i verb params =
     jobject [(''jsonrpc'', JStr ''2.0''), (''id'', jnat i), (''method'', JStr verb), (''params'', params)]"

definition read_response :: "json_lib \<Rightarrow> nat \<Rightarrow> string \<Rightarrow> client_error + json" where
  "read_response J i response =
     (case jl_parse J response of
        Inl err \<Rightarrow> Inl (Malformed (''not valid JSON: '' @ err))
      | Inr value \<Rightarrow>
          (case as_object value of
             None \<Rightarrow> Inl (Malformed ''response must be a JSON object'')
           | Some x \<Rightarrow>
               (if jl_get J x ''jsonrpc'' \<noteq> Some (JStr ''2.0'') then Inl (Malformed ''response is not jsonrpc 2.0'')
                else if jl_get J x ''id'' \<noteq> Some (jnat i)
                then Inl (Malformed ''response id does not match the request id'')
                else case jl_get J x ''error'' of
                       Some error \<Rightarrow>
                         (case opt_bind (jl_as_i64 J) (jl_get J error ''code'') of
                            None \<Rightarrow> Inl (Malformed (''error object must carry a numeric '' @ dquoted ''code''))
                          | Some code \<Rightarrow>
                              Inl (ServerFailure code (default_to [] (maybe J as_str error ''message''))
                                     (jl_get J error ''data'')))
                     | None \<Rightarrow>
                         (case jl_get J x ''result'' of
                            Some res \<Rightarrow> Inr res
                          | None \<Rightarrow> Inl (Malformed ''response lacks result'')))))"

text \<open>\<open>call\<close>: the line that is written, the next identity and the result.\<close>

definition client_call ::
  "json_lib \<Rightarrow> call_io \<Rightarrow> string \<Rightarrow> json \<Rightarrow> nat \<Rightarrow> (client_error + json) \<times> nat" where
  "client_call J io verb params counter =
     (let i = counter + 1 in
      (case ci_write io of
         Inl err \<Rightarrow> Inl (io_timeout err)
       | Inr _ \<Rightarrow>
           (case ci_flush io of
              Inl err \<Rightarrow> Inl (io_timeout err)
            | Inr _ \<Rightarrow>
                (case ci_read io of
                   Inl err \<Rightarrow> Inl (io_timeout err)
                 | Inr response \<Rightarrow> if response = [] then Inl Disconnected else read_response J i response)),
       i))"

definition malformed :: "'a result \<Rightarrow> client_error + 'a" where
  "malformed r = map_sum Malformed id r"

text \<open>The parameters of each method.\<close>

definition run_params :: "string \<Rightarrow> bool \<Rightarrow> json" where
  "run_params target sequential = jobject [(''target'', JStr target), (''sequential'', JBool sequential)]"

definition emit_params :: "string \<Rightarrow> json" where
  "emit_params path = jobject [(''path'', JStr path)]"

fun client_await_params :: "await_mode \<Rightarrow> nat \<Rightarrow> json" where
  "client_await_params (After g) timeout_ms = jobject [(''after'', jnat g), (''timeoutMs'', jnat timeout_ms)]"
| "client_await_params (Exact g) timeout_ms = jobject [(''generation'', jnat g), (''timeoutMs'', jnat timeout_ms)]"

definition cancel_params :: "json_lib \<Rightarrow> nat \<Rightarrow> string option \<Rightarrow> json" where
  "cancel_params J generation token =
     jset_some J ''instanceToken'' (map_option JStr token) (jobject [(''generation'', jnat generation)])"

record output_request =
  rq_out_generation :: nat
  rq_out_task :: "string option"
  rq_out_stream :: "string option"
  rq_out_tail :: "nat option"
  rq_out_full :: bool
  rq_out_page :: bool
  rq_out_page_size :: "nat option"
  rq_out_cursor :: "string option"

definition output_params :: "json_lib \<Rightarrow> output_request \<Rightarrow> string option \<Rightarrow> json" where
  "output_params J q token =
     (let p = jobject [(''generation'', jnat (rq_out_generation q))];
          p = jset_some J ''instanceToken'' (map_option JStr token) p;
          p = jset_some J ''task'' (map_option JStr (rq_out_task q)) p;
          p = (if rq_out_page q
               then jset_some J ''cursor'' (map_option JStr (rq_out_cursor q))
                      (jset_some J ''maxBytes'' (map_option jnat (rq_out_page_size q)) (jl_set J ''mode'' (JStr ''page'') p))
               else if rq_out_full q then jl_set J ''full'' (JBool True) p
               else jset_some J ''tail'' (map_option jnat (rq_out_tail q)) p)
      in jset_some J ''stream'' (map_option JStr (rq_out_stream q)) p)"

definition AWAIT_READ_MARGIN_MS :: u64 where "AWAIT_READ_MARGIN_MS = 2000"

text \<open>The read bound of an await, an addition of 64 bit numbers.\<close>

definition await_read_bound :: "u64 \<Rightarrow> u64" where
  "await_read_bound timeout_ms = timeout_ms + AWAIT_READ_MARGIN_MS"

section \<open>The client\<close>

definition DEFAULT_IO_TIMEOUT_MS :: u64 where "DEFAULT_IO_TIMEOUT_MS = 3000"

definition CANCEL_READ_BOUND_MS :: u64 where "CANCEL_READ_BOUND_MS = 30000"

text \<open>
  The operating system below a connection: connecting to a path, the time limits of the stream, its
  duplication, and one exchange, in which the line of a request is written and a line is read.
\<close>

record 'w transport =
  tp_connect :: "string \<Rightarrow> 'w \<Rightarrow> (string + unit) \<times> 'w"
  tp_set_read_timeout :: "u64 \<Rightarrow> 'w \<Rightarrow> (string + unit) \<times> 'w"
  tp_set_write_timeout :: "u64 \<Rightarrow> 'w \<Rightarrow> (string + unit) \<times> 'w"
  tp_try_clone :: "'w \<Rightarrow> (string + unit) \<times> 'w"
  tp_exchange :: "json \<Rightarrow> 'w \<Rightarrow> call_io \<times> 'w"

text \<open>A failing step ends the sequence with its error; the world goes on from it.\<close>

definition io_step :: "('w \<Rightarrow> (string + unit) \<times> 'w) \<Rightarrow> (string \<Rightarrow> client_error) \<Rightarrow>
    ('w \<Rightarrow> (client_error + 'a) \<times> 'w) \<Rightarrow> 'w \<Rightarrow> (client_error + 'a) \<times> 'w" where
  "io_step f wrap k w = (case f w of (Inl err, w) \<Rightarrow> (Inl (wrap err), w) | (Inr _, w) \<Rightarrow> k w)"

definition connect_with_timeout :: "'w transport \<Rightarrow> string \<Rightarrow> u64 \<Rightarrow> 'w \<Rightarrow> (client_error + nat) \<times> 'w" where
  "connect_with_timeout t path timeout_ms =
     io_step (tp_connect t path) (Unavailable path)
      (io_step (tp_set_read_timeout t timeout_ms) ClientIo
        (io_step (tp_set_write_timeout t timeout_ms) ClientIo
          (io_step (tp_try_clone t) ClientIo (Pair (Inr 0)))))"

definition client_connect :: "'w transport \<Rightarrow> string \<Rightarrow> 'w \<Rightarrow> (client_error + nat) \<times> 'w" where
  "client_connect t path = connect_with_timeout t path DEFAULT_IO_TIMEOUT_MS"

text \<open>One method: the call, then the decoder of its result. The client is its request counter.\<close>

definition client_request ::
  "json_lib \<Rightarrow> 'w transport \<Rightarrow> string \<Rightarrow> json \<Rightarrow> (json \<Rightarrow> 'a result) \<Rightarrow> nat \<Rightarrow> 'w \<Rightarrow> (client_error + 'a) \<times> nat \<times> 'w" where
  "client_request J t verb params decode n w =
     (let (io, w) = tp_exchange t (request_document (n + 1) verb params) w;
          (r, n) = client_call J io verb params n
      in (and_then r (\<lambda>v. malformed (decode v)), n, w))"

text \<open>A call under another read limit, which is set back afterwards whatever the call answers.\<close>

definition with_read_bound ::
  "'w transport \<Rightarrow> u64 \<Rightarrow> (nat \<Rightarrow> 'w \<Rightarrow> (client_error + 'a) \<times> nat \<times> 'w) \<Rightarrow> nat \<Rightarrow> 'w \<Rightarrow> (client_error + 'a) \<times> nat \<times> 'w" where
  "with_read_bound t bound f n w =
     (case tp_set_read_timeout t bound w of
        (Inl err, w) \<Rightarrow> (Inl (ClientIo err), n, w)
      | (Inr _, w) \<Rightarrow>
          (let (r, n, w) = f n w;
               (_, w) = tp_set_read_timeout t DEFAULT_IO_TIMEOUT_MS w
           in (r, n, w)))"

definition client_status where
  "client_status J t = client_request J t ''status'' (jobject []) (status_from_value J)"

definition client_targets where
  "client_targets J t = client_request J t ''targets'' (jobject []) (targets_from_value J)"

definition client_run where
  "client_run J t target sequential = client_request J t ''run'' (run_params target sequential) (run_from_value J)"

definition client_emit where
  "client_emit J t path = client_request J t ''emit'' (emit_params path) (emit_from_value J)"

definition client_capabilities where
  "client_capabilities J t = client_request J t ''capabilities'' (jobject []) (capabilities_from_value J)"

definition client_config where
  "client_config J t = client_request J t ''config'' (jobject []) (config_from_value J)"

definition client_output where
  "client_output J t q token = client_request J t ''output'' (output_params J q token) (output_from_value J)"

definition client_await where
  "client_await J t mode timeout_ms =
     with_read_bound t (await_read_bound timeout_ms)
       (client_request J t ''await'' (client_await_params mode (unat timeout_ms)) (await_from_value J))"

definition client_cancel where
  "client_cancel J t generation token =
     with_read_bound t CANCEL_READ_BOUND_MS
       (client_request J t ''cancel'' (cancel_params J generation token) (cancel_from_value J))"

text \<open>The text of a failure.\<close>

fun client_error_text :: "json_lib \<Rightarrow> client_error \<Rightarrow> string" where
  "client_error_text J (Unavailable path reason) = ''cannot reach control socket at '' @ path @ '': '' @ reason"
| "client_error_text J (ClientIo reason) = ''control socket I/O error: '' @ reason"
| "client_error_text J Disconnected = ''control socket closed the connection''"
| "client_error_text J ClientTimeout = ''control socket timed out waiting for a response''"
| "client_error_text J (Malformed reason) = ''malformed control socket response: '' @ reason"
| "client_error_text J (ServerFailure code message data) =
     (let plain = ''control socket server error '' @ show_int code @ '': '' @ message in
      if code = -32601
      then plain @ '' '' @ [CHR 0xE2, CHR 0x80, CHR 0x94]
             @ '' the running watcher may be an older version without this method; upgrade funzzy to enable it''
      else case data of
             None \<Rightarrow> plain
           | Some JNull \<Rightarrow> plain
           | Some (JStr detail) \<Rightarrow>
               plain @ '' ('' @ (if detail \<noteq> [] then detail else jl_compact J (JStr detail)) @ '')''
           | Some detail \<Rightarrow> plain @ '' ('' @ jl_compact J detail @ '')'')"

end
