(* ===== verification/Client_Properties.thy ===== *)
theory Client_Properties
  imports Control_Client
begin

text \<open>
  What the control client and the server agree on: every document that the server writes is decoded
  to the facts it was written from, the parameters that the client sends are read as they were meant,
  and a call answers only what the server answered to it.
\<close>

section \<open>Members of a record\<close>

lemma jfields_map_of: "distinct (map fst fs) \<Longrightarrow> map_of (jfields fs) k = opt_bind id (map_of fs k)"
  by (induction fs rule: jfields.induct) (auto simp: opt_bind_def image_iff split: option.splits)

lemma jfields_keys: "fst ` set (jfields fs) \<subseteq> fst ` set fs"
  by (induction fs rule: jfields.induct) auto

lemma jfields_distinct: "distinct (map fst fs) \<Longrightarrow> distinct (map fst (jfields fs))"
proof (induction fs rule: jfields.induct)
  case (2 k v fs)
  then show ?case using jfields_keys [of fs] by auto
qed auto

lemma jrecord_get:
  assumes "json_documented J" and "distinct (map fst fs)"
  shows "jl_get J (jrecord fs) k = opt_bind id (map_of fs k)"
  unfolding jrecord_def using jobject_get [OF assms(1) jfields_distinct [OF assms(2)]] jfields_map_of [OF assms(2)]
  by simp

lemma object_jobject [simp]: "object_or m (jobject kvs) = Inr (jobject kvs)" "as_object (jobject kvs) = Some (jobject kvs)"
  by (simp_all add: object_or_def as_object_def jobject_def)

lemma object_jrecord [simp]: "object_or m (jrecord fs) = Inr (jrecord fs)" "as_object (jrecord fs) = Some (jrecord fs)"
  by (simp_all add: jrecord_def)

lemma u64_jnat: "json_documented J \<Longrightarrow> n < 2 ^ 64 \<Longrightarrow> jl_as_u64 J (jnat n) = Some n"
  by (simp add: json_documented_def jnat_def)

lemma default_to_simps [simp]: "default_to d None = d" "default_to d (Some a) = a"
  by (simp_all add: default_to_def)

text \<open>Optional numbers that the wire can carry.\<close>

definition small :: "nat option \<Rightarrow> bool" where
  "small x \<longleftrightarrow> (case x of Some n \<Rightarrow> n < 2 ^ 64 | None \<Rightarrow> True)"

lemma small_simps [simp]: "small None" "small (Some n) \<longleftrightarrow> n < 2 ^ 64"
  by (simp_all add: small_def)

lemma need_u64:
  "json_documented J \<Longrightarrow> n < 2 ^ 64 \<Longrightarrow> jl_get J x k = Some (jnat n) \<Longrightarrow> need J (jl_as_u64 J) x k m = Inr n"
  by (simp add: need_def u64_jnat)

lemma need_str: "jl_get J x k = Some (JStr s) \<Longrightarrow> need J as_str x k m = Inr s"
  by (simp add: need_def)

lemma need_bool: "jl_get J x k = Some (JBool b) \<Longrightarrow> need J as_bool x k m = Inr b"
  by (simp add: need_def)

lemma maybe_get: "jl_get J x k = Some v \<Longrightarrow> maybe J f x k = f v" "jl_get J x k = None \<Longrightarrow> maybe J f x k = None"
  by (simp_all add: maybe_def)

lemma nullable_number_member:
  "json_documented J \<Longrightarrow> small n \<Longrightarrow> jl_get J x k = Some (joption jnat n) \<Longrightarrow> nullable_number J x k m m' = Inr n"
  by (cases n) (simp_all add: nullable_number_def joption_def jnat_def u64_jnat [unfolded jnat_def])

lemma nullable_number_skipped:
  "json_documented J \<Longrightarrow> small n \<Longrightarrow> jl_get J x k = map_option jnat n \<Longrightarrow> nullable_number J x k m m' = Inr n"
  by (cases n) (simp_all add: nullable_number_def jnat_def u64_jnat [unfolded jnat_def])

lemma nullable_string_member: "jl_get J x k = Some (joption JStr s) \<Longrightarrow> nullable_string J x k m = Inr s"
  by (cases s) (simp_all add: nullable_string_def joption_def)

lemma nullable_string_skipped: "jl_get J x k = map_option JStr s \<Longrightarrow> nullable_string J x k m = Inr s"
  by (cases s) (simp_all add: nullable_string_def)

lemma map_result_strings: "map_result (string_item field) (map JStr ss) = Inr ss"
  by (induction ss) (simp_all add: string_item_def)

lemma read_strings_member: "jl_get J x field = Some (jstrings ss) \<Longrightarrow> read_string_array J x field = Inr ss"
  by (simp add: read_string_array_def jstrings_def map_result_strings)

lemma map_result_map: "(\<forall>x\<in>set xs. f (g x) = Inr (h x)) \<Longrightarrow> map_result f (map g xs) = Inr (map h xs)"
  by (induction xs) simp_all

lemmas member_reads = need_str need_bool nullable_string_member nullable_string_skipped read_strings_member

section \<open>Documents\<close>

definition json_text :: "json \<Rightarrow> string" where
  "json_text j = (case j of JStr s \<Rightarrow> s | _ \<Rightarrow> [])"

lemma run_document:
  assumes J: "json_documented J" and n: "sr_run_id r < 2 ^ 64" "small (sr_revision r)"
  shows "run_from_value J (json_scheduled r) = Inr r"
proof -
  let ?x = "json_scheduled r"
  have g: "jl_get J ?x ''runId'' = Some (jnat (sr_run_id r))" "jl_get J ?x ''revision'' = map_option jnat (sr_revision r)"
    "jl_get J ?x ''revisionHash'' = map_option JStr (sr_revision_hash r)"
    by (simp_all add: json_scheduled_def jrecord_get [OF J])
  have "object_or m ?x = Inr ?x" for m by (simp add: json_scheduled_def)
  then show ?thesis
    by (simp add: run_from_value_def Let_def need_u64 [OF J n(1) g(1)]
        nullable_number_skipped [OF J n(2) g(2)] nullable_string_skipped [OF g(3)])
qed

lemma emit_document:
  assumes J: "json_documented J" and n: "small (em_run_id r)" "small (em_revision r)"
    and outcome: "em_outcome r \<in> {''scheduled'', ''unmatched'', ''ignored''}"
  shows "emit_from_value J (json_emit r) =
    Inr \<lparr>et_matched = em_matched r, et_run_id = em_run_id r, et_outcome = em_outcome r,
         et_revision = em_revision r, et_revision_hash = em_revision_hash r\<rparr>"
proof -
  let ?x = "json_emit r"
  have g: "jl_get J ?x ''runId'' = Some (joption jnat (em_run_id r))" "jl_get J ?x ''revision'' = map_option jnat (em_revision r)"
    "jl_get J ?x ''revisionHash'' = map_option JStr (em_revision_hash r)"
    "jl_get J ?x ''outcome'' = Some (JStr (em_outcome r))" "jl_get J ?x ''matched'' = Some (jstrings (em_matched r))"
    by (simp_all add: json_emit_def jrecord_get [OF J])
  have "object_or m ?x = Inr ?x" for m by (simp add: json_emit_def)
  then show ?thesis
    using outcome
    by (simp add: emit_from_value_def Let_def need_str [OF g(4)] read_strings_member [OF g(5)]
        nullable_number_member [OF J n(1) g(1)] nullable_number_skipped [OF J n(2) g(2)] nullable_string_skipped [OF g(3)])
qed

lemma cancel_document:
  assumes J: "json_documented J" and n: "g < 2 ^ 64" and ok: "cancel_answer g r = Inr v"
  shows "cancel_from_value J v = Inr \<lparr>cn_cancelled = (r \<noteq> Inr Noop), cn_generation = g\<rparr>"
proof -
  have x: "jl_get J v ''cancelled'' = Some (JBool (r \<noteq> Inr Noop))" "jl_get J v ''generation'' = Some (jnat g)"
    "object_or m v = Inr v" for m
    using ok by (induction g r rule: cancel_answer.induct)
      (auto simp: not_cancelled_def jrecord_get [OF J] jobject_get [OF J])
  then show ?thesis
    by (simp add: cancel_from_value_def Let_def need_bool [OF x(1)] need_u64 [OF J n x(2)])
qed

lemma estimate_document:
  assumes J: "json_documented J" and n: "re_samples e < 2 ^ 64"
  shows "read_estimate J (json_estimate e) = e"
proof -
  let ?x = "json_estimate e"
  have g: "jl_get J ?x ''typicalMs'' = Some (jnat (unat (re_typical_ms e)))"
    "jl_get J ?x ''upperMs'' = Some (jnat (unat (re_upper_ms e)))"
    "jl_get J ?x ''recommendedTimeoutMs'' = Some (jnat (unat (re_recommended_timeout_ms e)))"
    "jl_get J ?x ''samples'' = Some (jnat (re_samples e))"
    "jl_get J ?x ''confidence'' = Some (json_confidence (re_confidence e))"
    "jl_get J ?x ''source'' = Some (json_source (re_source e))"
    by (simp_all add: json_estimate_def jrecord_get [OF J])
  have w: "word_of (maybe J (jl_as_u64 J) ?x k) = w" if "jl_get J ?x k = Some (jnat (unat w))" for k and w :: u64
    using that u64_jnat [OF J unat_u64_less [of w]] by (simp add: word_of_def maybe_def)
  show ?thesis
    unfolding read_estimate_def w [OF g(1)] w [OF g(2)] w [OF g(3)]
    using u64_jnat [OF J n] g(4-6)
    by (cases e; cases "re_confidence e"; cases "re_source e") (simp_all add: maybe_def)
qed

lemma target_document:
  assumes J: "json_documented J" and est: "\<forall>e. est = Some e \<longrightarrow> re_samples e < 2 ^ 64"
  shows "target_from_value J (jset_some J ''estimate'' (map_option json_estimate est) (json_target t)) =
    Inr \<lparr>tn_name = tg_name t, tn_commands = tg_commands t, tn_estimate = est\<rparr>"
proof -
  let ?kvs = "[(''name'', JStr (tg_name t)), (''commands'', jstrings (tg_commands t))]"
  define x where "x = jset_some J ''estimate'' (map_option json_estimate est) (json_target t)"
  have obj: "x = jobject (case est of None \<Rightarrow> ?kvs | Some e \<Rightarrow> ?kvs @ [(''estimate'', json_estimate e)])"
    using J unfolding x_def
    by (cases est) (simp_all add: jset_some_def json_target_def jrecord_def jobject_def json_documented_def members_def)
  have g: "jl_get J x ''name'' = Some (JStr (tg_name t))" "jl_get J x ''commands'' = Some (jstrings (tg_commands t))"
    "jl_get J x ''estimate'' = map_option json_estimate est"
    unfolding obj by (cases est; simp add: jobject_get [OF J])+
  have e: "map_option (read_estimate J) (maybe J as_object x ''estimate'') = est"
    using g(3) est estimate_document [OF J] by (cases est) (simp_all add: maybe_def json_estimate_def)
  have "object_or m x = Inr x" for m by (simp add: obj)
  then show ?thesis
    unfolding x_def [symmetric] using e
    by (simp add: target_from_value_def need_str [OF g(1)] read_strings_member [OF g(2)])
qed

text \<open>The status that a client reads of a watcher state.\<close>

definition terminal_task_of :: "task_snapshot \<Rightarrow> terminal_task" where
  "terminal_task_of t =
     \<lparr>tt_id = ts_id t, tt_name = ts_name t, tt_state = json_text (json_task_state (ts_state t)),
      tt_duration_ms = ts_duration_ms t\<rparr>"

definition status_of :: "watcher_state \<Rightarrow> status_snapshot" where
  "status_of w =
     \<lparr>sn_generation = ws_generation w, sn_state = json_text (json_execution_state (ws_state w)),
      sn_trigger = ws_trigger w, sn_commands = ws_commands w, sn_duration_ms = ws_duration_ms w,
      sn_failures = ws_failures w, sn_tasks = Some (map terminal_task_of (ws_tasks w)),
      sn_effective_concurrency = ws_effective_concurrency w, sn_concurrency_source = ws_concurrency_source w,
      sn_revision = ws_revision w, sn_revision_hash = ws_revision_hash w\<rparr>"

definition wire_state :: "watcher_state \<Rightarrow> bool" where
  "wire_state w \<longleftrightarrow> ws_generation w < 2 ^ 64 \<and> small (ws_duration_ms w) \<and> small (ws_effective_concurrency w) \<and>
     small (ws_revision w) \<and> (\<forall>t\<in>set (ws_tasks w). small (ts_duration_ms t))"

lemma json_text_states:
  "json_execution_state s = JStr (json_text (json_execution_state s))"
  "json_task_state t = JStr (json_text (json_task_state t))"
  "json_terminal_reason r = JStr (json_text (json_terminal_reason r))"
  "json_freshness f = JStr (json_text (json_freshness f))"
  "json_phase p = JStr (json_text (json_phase p))"
  by ((cases s; simp add: json_text_def), (cases t; simp add: json_text_def), (cases r; simp add: json_text_def),
      (cases f; simp add: json_text_def), (cases p; simp add: json_text_def))

lemma task_document:
  assumes J: "json_documented J" and n: "small (ts_duration_ms t)"
  shows "read_terminal_task J (i, json_task t) = Inr (terminal_task_of t)"
proof -
  let ?x = "json_task t"
  have g: "jl_get J ?x ''id'' = Some (JStr (ts_id t))" "jl_get J ?x ''name'' = Some (JStr (ts_name t))"
    "jl_get J ?x ''state'' = Some (JStr (json_text (json_task_state (ts_state t))))"
    "jl_get J ?x ''durationMs'' = Some (joption jnat (ts_duration_ms t))"
    using json_text_states(2) by (simp_all add: json_task_def jrecord_get [OF J])
  have st: "json_text (json_task_state (ts_state t)) \<in> {''passed'', ''failed'', ''cancelled''}"
    by (cases "ts_state t") (simp_all add: json_text_def)
  have "object_or m ?x = Inr ?x" for m by (simp add: json_task_def)
  then show ?thesis
    using st by (simp add: read_terminal_task_def Let_def need_def g
        nullable_number_member [OF J n g(4)] terminal_task_of_def)
qed

lemma tasks_document:
  assumes "json_documented J" and "\<forall>t\<in>set ts. small (ts_duration_ms t)"
  shows "map_result (read_terminal_task J) (enumerate n (map json_task ts)) = Inr (map terminal_task_of ts)"
  using assms by (induction ts arbitrary: n) (simp_all add: task_document)

text \<open>A document whose members are those of a watcher state, and possibly more.\<close>

definition shows_state :: "json_lib \<Rightarrow> watcher_state \<Rightarrow> json \<Rightarrow> bool" where
  "shows_state J w x \<longleftrightarrow> is_object x \<and>
     jl_get J x ''generation'' = Some (jnat (ws_generation w)) \<and>
     jl_get J x ''state'' = Some (json_execution_state (ws_state w)) \<and>
     jl_get J x ''trigger'' = Some (joption JStr (ws_trigger w)) \<and>
     jl_get J x ''commands'' = Some (jstrings (ws_commands w)) \<and>
     jl_get J x ''durationMs'' = Some (joption jnat (ws_duration_ms w)) \<and>
     jl_get J x ''failures'' = Some (jstrings (ws_failures w)) \<and>
     jl_get J x ''tasks'' = Some (JArr (map json_task (ws_tasks w))) \<and>
     jl_get J x ''effectiveConcurrency'' = Some (joption jnat (ws_effective_concurrency w)) \<and>
     jl_get J x ''concurrencySource'' = Some (joption JStr (ws_concurrency_source w)) \<and>
     jl_get J x ''revision'' = Some (joption jnat (ws_revision w)) \<and>
     jl_get J x ''revisionHash'' = Some (joption JStr (ws_revision_hash w))"

lemma state_document_shows:
  assumes J: "json_documented J"
  shows "shows_state J w (json_watcher_state w)"
  by (simp add: shows_state_def json_watcher_state_def jrecord_get [OF J]) (simp add: jrecord_def jobject_def)

lemma set_member_get:
  assumes "json_documented J" and "x = JObj m" and "bt_ok m"
  shows "jl_get J (jl_set J k v x) j = (if j = k then Some v else jl_get J x j)"
    and "is_object (jl_set J k v x)"
  using assms by (simp_all add: json_documented_def bt_get_insert)

lemma jrecord_ok: "\<exists>m. jrecord fs = JObj m \<and> bt_ok m"
  by (simp add: jrecord_def jobject_def bt_ok_members)

lemma state_document_extended:
  assumes J: "json_documented J"
  shows "shows_state J w (jset_some J ''failureEvidence'' x (json_watcher_state w))"
proof (cases x)
  case (Some v)
  obtain m where m: "json_watcher_state w = JObj m" "bt_ok m"
    using jrecord_ok unfolding json_watcher_state_def by blast
  show ?thesis
    using state_document_shows [OF J, of w] set_member_get [OF J m]
    by (simp add: Some jset_some_def shows_state_def)
qed (simp add: jset_some_def state_document_shows [OF J])

lemma status_shown:
  assumes J: "json_documented J" and w: "wire_state w" and x: "shows_state J w x"
  shows "status_from_value J x = Inr (status_of w)"
proof -
  have n: "ws_generation w < 2 ^ 64" "small (ws_duration_ms w)" "small (ws_effective_concurrency w)"
    "small (ws_revision w)" "\<forall>t\<in>set (ws_tasks w). small (ts_duration_ms t)"
    using w by (auto simp: wire_state_def)
  have g: "jl_get J x ''generation'' = Some (jnat (ws_generation w))"
    "jl_get J x ''state'' = Some (JStr (json_text (json_execution_state (ws_state w))))"
    "jl_get J x ''trigger'' = Some (joption JStr (ws_trigger w))"
    "jl_get J x ''commands'' = Some (jstrings (ws_commands w))"
    "jl_get J x ''durationMs'' = Some (joption jnat (ws_duration_ms w))"
    "jl_get J x ''failures'' = Some (jstrings (ws_failures w))"
    "jl_get J x ''effectiveConcurrency'' = Some (joption jnat (ws_effective_concurrency w))"
    "jl_get J x ''concurrencySource'' = Some (joption JStr (ws_concurrency_source w))"
    "jl_get J x ''revision'' = Some (joption jnat (ws_revision w))"
    "jl_get J x ''revisionHash'' = Some (joption JStr (ws_revision_hash w))"
    using x json_text_states(1) by (simp_all add: shows_state_def)
  have tasks: "read_optional_terminal_tasks J x = Inr (Some (map terminal_task_of (ws_tasks w)))"
    using x tasks_document [OF J n(5)] by (simp add: read_optional_terminal_tasks_def shows_state_def)
  have obj: "object_or m x = Inr x" for m using x by (simp add: object_or_def as_object_def shows_state_def)
  show ?thesis
    by (simp add: status_from_value_def obj tasks need_u64 [OF J n(1) g(1)] need_str [OF g(2)]
        nullable_string_member [OF g(3)] read_strings_member [OF g(4)] nullable_number_member [OF J n(2) g(5)]
        read_strings_member [OF g(6)] nullable_number_member [OF J n(3) g(7)] nullable_string_member [OF g(8)]
        nullable_number_member [OF J n(4) g(9)] nullable_string_member [OF g(10)] status_of_def)
qed

text \<open>
  C34. The status round trip: whatever state the watcher is in, with or without failure evidence, the
  result of a status request is decoded to exactly that state: generation, state, trigger, commands,
  duration, failures, every task with its outcome and duration, concurrency and revision.
\<close>

theorem status_round_trip:
  assumes "json_documented J" and "wire_state w"
  shows "\<exists>v. status_result J w outputs inst = Inr v \<and> status_from_value J v = Inr (status_of w)"
proof -
  have "status_from_value J (json_watcher_state w) = Inr (status_of w)"
    by (rule status_shown [OF assms state_document_shows [OF assms(1)]])
  moreover have "status_from_value J (jset_some J ''failureEvidence'' x (json_watcher_state w)) = Inr (status_of w)" for x
    by (rule status_shown [OF assms state_document_extended [OF assms(1)]])
  ultimately show ?thesis by (simp add: status_result_def)
qed

theorem status_round_trip_witness:
  "\<exists>v. status_result demo_json (watch_events [demo_started 1]) None demo_instance = Inr v \<and>
     status_from_value demo_json v = Inr (status_of (watch_events [demo_started 1]))"
proof (rule status_round_trip [OF demo_json_documented])
  show "wire_state (watch_events [demo_started 1])"
    by (simp add: wire_state_def watch_events_def demo_started_def watcher_state_default_def)
qed

section \<open>Awaiting\<close>

definition output_ref_of_evidence :: "output_ref \<Rightarrow> output_ref_snapshot" where
  "output_ref_of_evidence r =
     \<lparr>os_instance_token = ref_instance_token r, os_generation = ref_generation r, os_task = ref_task r,
      os_mode = ref_mode r, os_tail = ref_tail r, os_max_bytes = ref_max_bytes r, os_retrieve = ref_retrieve r\<rparr>"

definition evidence_of :: "evidence \<Rightarrow> evidence_snapshot" where
  "evidence_of e =
     \<lparr>es_excerpt = fe_excerpt e, es_lines = fe_lines e, es_truncated = fe_truncated e,
      es_total_observed_bytes = fe_total_observed_bytes e, es_retained_bytes = fe_retained_bytes e,
      es_retrieve = fe_retrieve e, es_output_ref = map_option output_ref_of_evidence (fe_output_ref e),
      es_additional_failed_tasks = fe_additional_failed_tasks e\<rparr>"

definition wire_ref :: "output_ref \<Rightarrow> bool" where
  "wire_ref r \<longleftrightarrow> ref_generation r < 2 ^ 64 \<and> ref_tail r < 2 ^ 64 \<and> ref_max_bytes r < 2 ^ 64"

definition wire_evidence :: "evidence \<Rightarrow> bool" where
  "wire_evidence e \<longleftrightarrow> fe_lines e < 2 ^ 64 \<and> fe_total_observed_bytes e < 2 ^ 64 \<and> fe_retained_bytes e < 2 ^ 64 \<and>
     fe_additional_failed_tasks e < 2 ^ 64 \<and> (\<forall>r. fe_output_ref e = Some r \<longrightarrow> wire_ref r)"

lemma maybe_u64:
  "json_documented J \<Longrightarrow> n < 2 ^ 64 \<Longrightarrow> jl_get J x k = Some (jnat n) \<Longrightarrow> maybe J (jl_as_u64 J) x k = Some n"
  by (simp add: maybe_def u64_jnat)

lemma output_ref_document:
  assumes J: "json_documented J" and r: "wire_ref r"
  shows "output_ref_from_value J (json_output_ref r) = Inr (output_ref_of_evidence r)"
proof -
  let ?x = "json_output_ref r"
  have n: "ref_generation r < 2 ^ 64" "ref_tail r < 2 ^ 64" "ref_max_bytes r < 2 ^ 64" using r by (auto simp: wire_ref_def)
  have g: "jl_get J ?x ''instanceToken'' = Some (JStr (ref_instance_token r))"
    "jl_get J ?x ''generation'' = Some (jnat (ref_generation r))" "jl_get J ?x ''task'' = Some (JStr (ref_task r))"
    "jl_get J ?x ''mode'' = Some (JStr (ref_mode r))" "jl_get J ?x ''tail'' = Some (jnat (ref_tail r))"
    "jl_get J ?x ''maxBytes'' = Some (jnat (ref_max_bytes r))" "jl_get J ?x ''retrieve'' = Some (JStr (ref_retrieve r))"
    by (simp_all add: json_output_ref_def jrecord_get [OF J])
  have "object_or m ?x = Inr ?x" for m by (simp add: json_output_ref_def)
  then show ?thesis
    by (simp add: output_ref_from_value_def need_str [OF g(1)] need_u64 [OF J n(1) g(2)] need_str [OF g(3)]
        maybe_get(1) [OF g(4)] maybe_u64 [OF J n(2) g(5)] maybe_u64 [OF J n(3) g(6)] maybe_get(1) [OF g(7)]
        output_ref_of_evidence_def)
qed

lemma evidence_document:
  assumes J: "json_documented J" and e: "wire_evidence e"
  shows "evidence_from_value J (json_evidence e) = Inr (evidence_of e)"
proof -
  let ?x = "json_evidence e"
  have n: "fe_lines e < 2 ^ 64" "fe_total_observed_bytes e < 2 ^ 64" "fe_retained_bytes e < 2 ^ 64"
    "fe_additional_failed_tasks e < 2 ^ 64" using e by (auto simp: wire_evidence_def)
  have g: "jl_get J ?x ''excerpt'' = Some (JStr (fe_excerpt e))" "jl_get J ?x ''lines'' = Some (jnat (fe_lines e))"
    "jl_get J ?x ''truncated'' = Some (JBool (fe_truncated e))"
    "jl_get J ?x ''totalObservedBytes'' = Some (jnat (fe_total_observed_bytes e))"
    "jl_get J ?x ''retainedBytes'' = Some (jnat (fe_retained_bytes e))"
    "jl_get J ?x ''retrieve'' = Some (JStr (fe_retrieve e))"
    "jl_get J ?x ''outputRef'' = map_option json_output_ref (fe_output_ref e)"
    "jl_get J ?x ''additionalFailedTasks'' = Some (jnat (fe_additional_failed_tasks e))"
    by (simp_all add: json_evidence_def jrecord_get [OF J])
  have ref: "(case jl_get J ?x ''outputRef'' of None \<Rightarrow> Inr None | Some r \<Rightarrow> map_sum id Some (output_ref_from_value J r)) =
      Inr (map_option output_ref_of_evidence (fe_output_ref e))"
    using e output_ref_document [OF J] by (cases "fe_output_ref e") (simp_all add: g(7) wire_evidence_def)
  have "object_or m ?x = Inr ?x" for m by (simp add: json_evidence_def)
  then show ?thesis
    by (simp add: evidence_from_value_def Let_def need_str [OF g(1)] need_u64 [OF J n(1) g(2)] need_bool [OF g(3)]
        need_u64 [OF J n(2) g(4)] need_u64 [OF J n(3) g(5)] need_str [OF g(6)] ref maybe_u64 [OF J n(4) g(8)]
        evidence_of_def)
qed

definition await_of :: "await_result \<Rightarrow> await_snapshot" where
  "await_of r =
     \<lparr>an_terminal_reason = json_text (json_terminal_reason (ar_terminal_reason r)),
      an_latest_generation = ar_latest_generation r, an_latest_batch = ar_latest_batch r,
      an_debounce_active = pw_debounce_active (ar_pending_work r),
      an_queued_batches = pw_queued_batches (ar_pending_work r) mod 2 ^ 32,
      an_freshness = json_text (json_freshness (ar_freshness r)), an_snapshot = status_of (ar_snapshot r),
      an_failure_evidence = map_option evidence_of (ar_failure_evidence r)\<rparr>"

definition wire_await :: "await_result \<Rightarrow> bool" where
  "wire_await r \<longleftrightarrow> ar_latest_generation r < 2 ^ 64 \<and> small (ar_latest_batch r) \<and>
     pw_queued_batches (ar_pending_work r) < 2 ^ 64 \<and> wire_state (ar_snapshot r) \<and>
     (\<forall>e. ar_failure_evidence r = Some e \<longrightarrow> wire_evidence e)"

lemma pending_document:
  assumes J: "json_documented J" and n: "pw_queued_batches p < 2 ^ 64"
  shows "need J as_bool (json_pending p) ''debounceActive'' m = Inr (pw_debounce_active p)"
    "need J (jl_as_u64 J) (json_pending p) ''queuedBatches'' m = Inr (pw_queued_batches p)"
  using n by (simp_all add: need_def json_pending_def jrecord_get [OF J] u64_jnat [OF J])

lemma await_round_trip_main:
  assumes J: "json_documented J" and r: "wire_await r"
  shows "await_from_value J (json_await_result r) = Inr (await_of r)"
proof -
  let ?x = "json_await_result r"
  have n: "ar_latest_generation r < 2 ^ 64" "pw_queued_batches (ar_pending_work r) < 2 ^ 64" "wire_state (ar_snapshot r)"
    using r by (auto simp: wire_await_def)
  have g: "jl_get J ?x ''terminalReason'' = Some (JStr (json_text (json_terminal_reason (ar_terminal_reason r))))"
    "jl_get J ?x ''latestGeneration'' = Some (jnat (ar_latest_generation r))"
    "jl_get J ?x ''latestBatch'' = Some (joption jnat (ar_latest_batch r))"
    "jl_get J ?x ''pendingWork'' = Some (json_pending (ar_pending_work r))"
    "jl_get J ?x ''freshness'' = Some (JStr (json_text (json_freshness (ar_freshness r))))"
    "jl_get J ?x ''snapshot'' = Some (json_watcher_state (ar_snapshot r))"
    "jl_get J ?x ''failureEvidence'' = map_option json_evidence (ar_failure_evidence r)"
    using json_text_states(3,4) by (simp_all add: json_await_result_def jrecord_get [OF J])
  have reason: "json_text (json_terminal_reason (ar_terminal_reason r)) \<in> set terminal_reasons"
    by (cases "ar_terminal_reason r") (simp_all add: json_text_def terminal_reasons_def)
  have fresh: "json_text (json_freshness (ar_freshness r)) \<in> {''current'', ''stale'', ''unknown''}"
    by (cases "ar_freshness r") (simp_all add: json_text_def)
  have batch: "read_latest_batch J ?x = Inr (ar_latest_batch r)"
    using r u64_jnat [OF J] by (cases "ar_latest_batch r")
      (simp_all add: read_latest_batch_def g(3) joption_def jnat_def wire_await_def)
  have ev: "read_evidence J ?x = Inr (map_option evidence_of (ar_failure_evidence r))"
    using r evidence_document [OF J] by (cases "ar_failure_evidence r")
      (simp_all add: read_evidence_def g(7) wire_await_def json_evidence_def jrecord_def jobject_def)
  have pend: "as_object (json_pending p) = Some (json_pending p)" for p by (simp add: json_pending_def)
  have obj: "object_or m ?x = Inr ?x" for m by (simp add: json_await_result_def)
  show ?thesis
    using reason fresh
    by (simp add: await_from_value_def obj need_u64 [OF J n(1) g(2)] batch ev need_def [of J as_object] need_def [of J Some]
        need_def [of J "\<lambda>v. opt_filter p (as_str v)" for p] g(1,4,5,6) pend pending_document [OF J n(2)]
        status_shown [OF J n(3) state_document_shows [OF J]] await_of_def)
qed

text \<open>
  The await round trip: the observation that ends a wait is decoded to exactly what the coordinator
  built: the reason, the freshness, the pending work, the snapshot and, for a failure, the evidence
  with the exact reference to retrieve its output.
\<close>

theorem await_round_trip:
  assumes "json_documented J" and "wire_await r"
  shows "await_from_value J (json_await_result r) = Inr (await_of r)"
  using assms by (rule await_round_trip_main)

definition demo_await :: await_result where
  "demo_await = build_result (coordinate [demo_started 1, EvFinished 1 None 5 []]) (watch_events [demo_started 1])
     TR_Passed 1 None ''fz-1'' (None :: unit config_lifecycle option)"

lemma demo_await_wire: "wire_await demo_await"
  by (simp add: wire_await_def demo_await_def build_result_def wire_state_def watch_events_def demo_started_def
      watcher_state_default_def coordinate_def await_inner_default_def record_outcome_def TERMINAL_HISTORY_BOUND_def opt_or_zero_def)

theorem await_round_trip_witness: "await_from_value demo_json (json_await_result demo_await) = Inr (await_of demo_await)"
  by (rule await_round_trip [OF demo_json_documented demo_await_wire])

section \<open>Retrieved output\<close>

definition wire_stream :: "stream_output option \<Rightarrow> bool" where
  "wire_stream s \<longleftrightarrow> (case s of None \<Rightarrow> True
     | Some x \<Rightarrow> so_lines x < 2 ^ 64 \<and> so_retained_bytes x < 2 ^ 64 \<and> so_observed_bytes x < 2 ^ 64)"

definition output_of :: "retrieved_output \<Rightarrow> output_snapshot" where
  "output_of r =
     \<lparr>ot_generation = ro_generation r, ot_resolved_task = ro_resolved_task r,
      ot_tasks = map (\<lambda>t. \<lparr>rs_id = rt_id t, rs_stdout = rt_stdout t, rs_stderr = rt_stderr t\<rparr>) (ro_tasks r),
      ot_next_cursor = ro_next_cursor r, ot_returned_bytes = ro_returned_bytes r, ot_truncated = ro_truncated r\<rparr>"

definition wire_output :: "retrieved_output \<Rightarrow> bool" where
  "wire_output r \<longleftrightarrow> ro_generation r < 2 ^ 64 \<and> small (ro_returned_bytes r) \<and>
     (\<forall>t\<in>set (ro_tasks r). wire_stream (rt_stdout t) \<and> wire_stream (rt_stderr t))"

lemma stream_document:
  assumes J: "json_documented J" and s: "wire_stream (Some s)"
  shows "stream_from_value J (json_stream s) = Inr s"
proof -
  let ?x = "json_stream s"
  have n: "so_lines s < 2 ^ 64" "so_retained_bytes s < 2 ^ 64" "so_observed_bytes s < 2 ^ 64"
    using s by (auto simp: wire_stream_def)
  have g: "jl_get J ?x ''content'' = Some (JStr (so_content s))" "jl_get J ?x ''lines'' = Some (jnat (so_lines s))"
    "jl_get J ?x ''retainedBytes'' = Some (jnat (so_retained_bytes s))"
    "jl_get J ?x ''observedBytes'' = Some (jnat (so_observed_bytes s))"
    "jl_get J ?x ''truncated'' = Some (JBool (so_truncated s))"
    by (simp_all add: json_stream_def jrecord_get [OF J])
  have "object_or m ?x = Inr ?x" for m by (simp add: json_stream_def)
  then show ?thesis
    by (simp add: stream_from_value_def Let_def need_str [OF g(1)] need_u64 [OF J n(1) g(2)] need_u64 [OF J n(2) g(3)]
        need_u64 [OF J n(3) g(4)] need_bool [OF g(5)])
qed

lemma optional_stream_document:
  assumes J: "json_documented J" and s: "wire_stream s" and g: "jl_get J x k = Some (joption json_stream s)"
  shows "optional_stream J x k = Inr s"
proof (cases s)
  case (Some y)
  then show ?thesis
    using s stream_document [OF J, of y]
    by (simp add: optional_stream_def g joption_def json_stream_def jrecord_def jobject_def)
qed (simp add: optional_stream_def g joption_def)

lemma retrieved_task_document:
  assumes J: "json_documented J" and t: "wire_stream (rt_stdout t)" "wire_stream (rt_stderr t)"
  shows "task_from_value J (json_retrieved_task t) = Inr \<lparr>rs_id = rt_id t, rs_stdout = rt_stdout t, rs_stderr = rt_stderr t\<rparr>"
proof -
  let ?x = "json_retrieved_task t"
  have g: "jl_get J ?x ''id'' = Some (JStr (rt_id t))" "jl_get J ?x ''stdout'' = Some (joption json_stream (rt_stdout t))"
    "jl_get J ?x ''stderr'' = Some (joption json_stream (rt_stderr t))"
    by (simp_all add: json_retrieved_task_def jrecord_get [OF J])
  have "object_or m ?x = Inr ?x" for m by (simp add: json_retrieved_task_def)
  then show ?thesis
    by (simp add: task_from_value_def need_str [OF g(1)] optional_stream_document [OF J t(1) g(2)]
        optional_stream_document [OF J t(2) g(3)])
qed

text \<open>
  The output round trip: a page or a tail of captured output is decoded to its exact text, task by
  task and stream by stream, with its bounds and the cursor for the next page.
\<close>

theorem output_round_trip:
  assumes J: "json_documented J" and r: "wire_output r"
  shows "output_from_value J (json_retrieved r) = Inr (output_of r)"
proof -
  let ?x = "json_retrieved r"
  have n: "ro_generation r < 2 ^ 64" using r by (simp add: wire_output_def)
  have g: "jl_get J ?x ''generation'' = Some (jnat (ro_generation r))"
    "jl_get J ?x ''resolvedTask'' = map_option JStr (ro_resolved_task r)"
    "jl_get J ?x ''tasks'' = Some (JArr (map json_retrieved_task (ro_tasks r)))"
    "jl_get J ?x ''nextCursor'' = map_option JStr (ro_next_cursor r)"
    "jl_get J ?x ''returnedBytes'' = map_option jnat (ro_returned_bytes r)"
    "jl_get J ?x ''truncated'' = map_option JBool (ro_truncated r)"
    by (simp_all add: json_retrieved_def jrecord_get [OF J])
  have tasks: "map_result (task_from_value J) (map json_retrieved_task (ro_tasks r)) =
      Inr (map (\<lambda>t. \<lparr>rs_id = rt_id t, rs_stdout = rt_stdout t, rs_stderr = rt_stderr t\<rparr>) (ro_tasks r))"
    using r retrieved_task_document [OF J] by (intro map_result_map) (simp add: wire_output_def)
  have opts: "maybe J as_str ?x ''resolvedTask'' = ro_resolved_task r" "maybe J as_str ?x ''nextCursor'' = ro_next_cursor r"
    "maybe J as_bool ?x ''truncated'' = ro_truncated r" "maybe J (jl_as_u64 J) ?x ''returnedBytes'' = ro_returned_bytes r"
    using r u64_jnat [OF J]
    by (cases "ro_resolved_task r"; cases "ro_next_cursor r"; cases "ro_truncated r"; cases "ro_returned_bytes r";
        simp add: maybe_def g wire_output_def)+
  have "object_or m ?x = Inr ?x" for m by (simp add: json_retrieved_def)
  then show ?thesis
    by (simp add: output_from_value_def need_u64 [OF J n g(1)] need_def [of J as_array] g(3) tasks opts output_of_def)
qed

definition demo_output :: retrieved_output where
  "demo_output =
     \<lparr>ro_generation = 7, ro_revision = None, ro_revision_hash = None, ro_resolved_task = Some ''unit'',
      ro_tasks = [\<lparr>rt_id = ''unit'', rt_stdout = Some \<lparr>so_content = ''ok'', so_lines = 1, so_retained_bytes = 2,
        so_observed_bytes = 2, so_truncated = False\<rparr>, rt_stderr = None\<rparr>],
      ro_next_cursor = Some ''7|0|0|2'', ro_returned_bytes = Some 2, ro_truncated = Some True\<rparr>"

theorem output_round_trip_witness: "output_from_value demo_json (json_retrieved demo_output) = Inr (output_of demo_output)"
proof (rule output_round_trip [OF demo_json_documented])
  show "wire_output demo_output" by (simp add: wire_output_def demo_output_def wire_stream_def)
qed

section \<open>Configuration lifecycle\<close>

definition transition_of_config :: "config_transition \<Rightarrow> transition_snapshot" where
  "transition_of_config t =
     \<lparr>tr_phase = json_text (json_phase (ct_phase t)), tr_revision = ct_revision t, tr_revision_hash = ct_revision_hash t,
      tr_reason_text = ct_reason t, tr_ordinal = ct_ordinal t, tr_at_epoch_ms = ct_at_epoch_ms t\<rparr>"

definition wire_transition :: "config_transition \<Rightarrow> bool" where
  "wire_transition t \<longleftrightarrow> small (ct_revision t) \<and> ct_ordinal t < 2 ^ 64 \<and> ct_at_epoch_ms t < 2 ^ 64"

definition shows_transition :: "json_lib \<Rightarrow> config_transition \<Rightarrow> json \<Rightarrow> bool" where
  "shows_transition J t x \<longleftrightarrow> is_object x \<and>
     jl_get J x ''phase'' = Some (json_phase (ct_phase t)) \<and>
     jl_get J x ''revision'' = Some (joption jnat (ct_revision t)) \<and>
     jl_get J x ''revisionHash'' = Some (joption JStr (ct_revision_hash t)) \<and>
     jl_get J x ''reason'' = map_option JStr (ct_reason t) \<and>
     jl_get J x ''ordinal'' = Some (jnat (ct_ordinal t)) \<and>
     jl_get J x ''atEpochMs'' = Some (jnat (ct_at_epoch_ms t))"

lemma transition_document_shows: "json_documented J \<Longrightarrow> shows_transition J t (json_transition t)"
  by (simp add: shows_transition_def json_transition_def jrecord_get) (simp add: jrecord_def jobject_def)

lemma transition_shown:
  assumes J: "json_documented J" and t: "wire_transition t" and x: "shows_transition J t x"
  shows "transition_from_value J x = Inr (transition_of_config t)"
proof -
  have n: "ct_ordinal t < 2 ^ 64" "ct_at_epoch_ms t < 2 ^ 64" using t by (auto simp: wire_transition_def)
  have g: "jl_get J x ''phase'' = Some (JStr (json_text (json_phase (ct_phase t))))"
    "jl_get J x ''ordinal'' = Some (jnat (ct_ordinal t))" "jl_get J x ''atEpochMs'' = Some (jnat (ct_at_epoch_ms t))"
    using x json_text_states(5) by (simp_all add: shows_transition_def)
  have opts: "maybe J (jl_as_u64 J) x ''revision'' = ct_revision t" "maybe J as_str x ''revisionHash'' = ct_revision_hash t"
    "maybe J as_str x ''reason'' = ct_reason t"
    using x t u64_jnat [OF J] J
    by (cases "ct_revision t"; cases "ct_revision_hash t"; cases "ct_reason t";
        simp add: maybe_def shows_transition_def joption_def wire_transition_def json_documented_def)+
  have "object_or m x = Inr x" for m using x by (simp add: object_or_def as_object_def shows_transition_def)
  then show ?thesis
    by (simp add: transition_from_value_def need_str [OF g(1)] opts maybe_u64 [OF J n(1) g(2)] maybe_u64 [OF J n(2) g(3)]
        transition_of_config_def)
qed

lemma config_document:
  assumes J: "json_documented J" and lc: "wire_transition (lc_current lc)" "\<forall>t\<in>set (lc_history lc). wire_transition t"
  shows "\<exists>v. config_result J (Some lc) = Inr v \<and>
    config_from_value J v =
      Inr \<lparr>gs_current = transition_of_config (lc_current lc), gs_history = map transition_of_config (lc_history lc)\<rparr>"
proof -
  let ?h = "JArr (map json_transition (lc_history lc))" and ?c = "json_transition (lc_current lc)"
  obtain m where m: "?c = JObj m" "bt_ok m" using jrecord_ok unfolding json_transition_def by blast
  have get: "jl_get J (jl_set J ''history'' ?h ?c) k = (if k = ''history'' then Some ?h else jl_get J ?c k)" for k
    using set_member_get(1) [OF J m] by simp
  have shows': "shows_transition J (lc_current lc) (jl_set J ''history'' ?h ?c)"
    using transition_document_shows [OF J, of "lc_current lc"] set_member_get(2) [OF J m]
    by (simp add: shows_transition_def get)
  have hist: "map_result (transition_from_value J) (map json_transition (lc_history lc)) =
      Inr (map transition_of_config (lc_history lc))"
    using lc(2) transition_shown [OF J _ transition_document_shows [OF J]] by (intro map_result_map) blast
  have "object_or msg (jl_set J ''history'' ?h ?c) = Inr (jl_set J ''history'' ?h ?c)" for msg
    using set_member_get(2) [OF J m] by (simp add: object_or_def as_object_def)
  then show ?thesis
    by (simp add: config_result_def config_from_value_def transition_shown [OF J lc(1) shows'] maybe_def get hist)
qed

section \<open>Calls\<close>

lemma request_get:
  assumes "json_documented J"
  shows "jl_get J (request_document i verb params) ''method'' = Some (JStr verb)"
    "jl_get J (request_document i verb params) ''params'' = Some params"
    "jl_get J (request_document i verb params) ''id'' = Some (jnat i)"
    "jl_get J (request_document i verb params) ''jsonrpc'' = Some (JStr ''2.0'')"
  unfolding request_document_def by (simp_all add: jobject_get [OF assms])

lemma request_checked:
  assumes J: "json_documented J" and p: "is_object params"
  shows "check_request J (request_document i verb params) = Inr verb"
    and "request_id J (request_document i verb params) = jnat i"
proof -
  have "is_object (request_document i verb params)" by (simp add: request_document_def jobject_def)
  then show "check_request J (request_document i verb params) = Inr verb"
    using p by (simp add: check_request_def request_get [OF J])
  show "request_id J (request_document i verb params) = jnat i" by (simp add: request_id_def request_get [OF J] jnat_def)
qed

lemma as_object_rpc [simp]:
  "as_object (rpc_ok i v) = Some (rpc_ok i v)" "as_object (rpc_error i c m d) = Some (rpc_error i c m d)"
  by (simp_all add: as_object_def rpc_ok_def rpc_error_def jobject_def)

lemma as_object_answer: "as_object (rpc_answer i r) = Some (rpc_answer i r)"
  by (simp add: rpc_answer_def split: sum.split prod.split)

lemma read_response_answer:
  assumes J: "json_documented J" and parse: "jl_parse J response = Inr (rpc_answer (jnat i) r)"
    and codes: "\<forall>f. r = Inl f \<longrightarrow> - (2 ^ 63) \<le> fst f \<and> fst f < 2 ^ 63"
  shows "read_response J i response =
    (case r of Inr v \<Rightarrow> Inr v | Inl (code, message, data) \<Rightarrow> Inl (ServerFailure code message data))"
proof (cases r)
  case (Inl f)
  obtain code message data where f: "f = (code, message, data)" by (cases f)
  let ?e = "jrecord [(''code'', Some (JInt code)), (''message'', Some (JStr message)), (''data'', data)]"
  have e: "jl_get J ?e ''code'' = Some (JInt code)" "jl_get J ?e ''message'' = Some (JStr message)" "jl_get J ?e ''data'' = data"
    by (simp_all add: jrecord_get [OF J])
  have "jl_as_i64 J (JInt code) = Some code" using J codes Inl f by (simp add: json_documented_def)
  then show ?thesis
    using parse e Inl f
    by (simp add: read_response_def rpc_answer_def rpc_error_get [OF J] maybe_def)
next
  case (Inr v)
  then show ?thesis
    using parse by (simp add: read_response_def rpc_answer_def rpc_ok_get [OF J])
qed

lemma request_answered:
  assumes J: "json_documented (se_json e)" and p: "is_object params"
    and server: "dispatch_method e api verb (request_document i verb params) s = Some (r, s')"
  shows "process_request e api (request_document i verb params) s = Some (Some (rpc_answer (jnat i) r), s')"
  using server by (simp add: process_request_def request_checked [OF J p] request_get [OF J])

text \<open>
  C33. A call gets the server's answer to it and nothing else. For every method, parameters and server,
  when the line that comes back is the server's response to this very request, the client's result
  is the result or the error the server computed; and when it is the response to any other request,
  the call fails as malformed, so an answer that arrives late is never taken for a later one.
\<close>

theorem call_returns_its_own_answer:
  assumes J: "json_documented (se_json e)" and params: "is_object params"
    and io: "ci_write io = Inr ()" "ci_flush io = Inr ()" "ci_read io = Inr response" "response \<noteq> []"
    and server: "dispatch_method e api verb (request_document (n + 1) verb params) s = Some (r, s')"
    and codes: "\<forall>f. r = Inl f \<longrightarrow> - (2 ^ 63) \<le> fst f \<and> fst f < 2 ^ 63"
  shows "\<exists>answer. process_request e api (request_document (n + 1) verb params) s = Some (Some answer, s') \<and>
    (jl_parse (se_json e) response = Inr answer \<longrightarrow>
       client_call (se_json e) io verb params n =
         (case r of Inr v \<Rightarrow> Inr v | Inl (code, message, data) \<Rightarrow> Inl (ServerFailure code message data), n + 1)) \<and>
    (\<forall>m res. m \<noteq> n + 1 \<longrightarrow> jl_parse (se_json e) response = Inr (rpc_answer (jnat m) res) \<longrightarrow>
       (\<exists>reason. client_call (se_json e) io verb params n = (Inl (Malformed reason), n + 1)))"
proof (intro exI conjI allI impI)
  let ?J = "se_json e"
  show "process_request e api (request_document (n + 1) verb params) s = Some (Some (rpc_answer (jnat (n + 1)) r), s')"
    by (rule request_answered [OF J params server])
  show "client_call ?J io verb params n =
      (case r of Inr v \<Rightarrow> Inr v | Inl (code, message, data) \<Rightarrow> Inl (ServerFailure code message data), n + 1)"
    if "jl_parse ?J response = Inr (rpc_answer (jnat (n + 1)) r)"
    using read_response_answer [OF J that codes] io by (simp add: client_call_def Let_def)
  fix m :: nat and res
  assume m: "m \<noteq> n + 1" and parse: "jl_parse ?J response = Inr (rpc_answer (jnat m) res)"
  let ?a = "rpc_answer (jnat m) res"
  have "response_for ?J (jnat m) ?a" using J by simp
  then have ids: "jl_get ?J ?a ''jsonrpc'' = Some (JStr ''2.0'')" "jl_get ?J ?a ''id'' \<noteq> Some (jnat (n + 1))"
    using m by (auto simp: response_for_def jnat_def)
  have "as_object ?a = Some ?a" by (rule as_object_answer)
  then show "client_call ?J io verb params n = (Inl (Malformed ''response id does not match the request id''), n + 1)"
    using io parse ids by (simp add: client_call_def Let_def read_response_def)
qed

text \<open>A library whose parser knows one line only.\<close>

definition one_line_json :: "json \<Rightarrow> json_lib" where
  "one_line_json resp = demo_json\<lparr>jl_parse := (\<lambda>_. Inr resp)\<rparr>"

lemma one_line_documented: "json_documented (one_line_json resp)"
  using demo_json_documented by (simp add: json_documented_def one_line_json_def)

theorem call_returns_its_own_answer_witness:
  "client_call (one_line_json (rpc_answer (jnat 1) (Inl (-32601, ''Method not found'', None))))
     \<lparr>ci_write = Inr (), ci_flush = Inr (), ci_read = Inr ''x''\<rparr> ''ping'' (jobject []) 0 =
   (Inl (ServerFailure (-32601) ''Method not found'' None), 1)"
proof -
  let ?J = "one_line_json (rpc_answer (jnat 1) (Inl (-32601, ''Method not found'', None)))"
  let ?e = "demo_server\<lparr>se_json := ?J\<rparr>" and ?r = "Inl (-32601, ''Method not found'', None) :: rpc_result"
  have J: "json_documented (se_json ?e)" using one_line_documented by simp
  have p: "is_object (jobject [])" by (simp add: jobject_def)
  have d: "dispatch_method ?e demo_api ''ping'' (request_document (0 + 1) ''ping'' (jobject [])) 3 = Some (?r, 3)"
    by (simp add: dispatch_method_def Let_def read_only_def)
  obtain a where a: "process_request ?e demo_api (request_document (0 + 1) ''ping'' (jobject [])) 3 = Some (Some a, 3)"
    and c: "jl_parse (se_json ?e) ''x'' = Inr a \<longrightarrow>
      client_call (se_json ?e) \<lparr>ci_write = Inr (), ci_flush = Inr (), ci_read = Inr ''x''\<rparr> ''ping'' (jobject []) 0 =
        (Inl (ServerFailure (-32601) ''Method not found'' None), 0 + 1)"
    using call_returns_its_own_answer [OF J p _ _ _ _ d, of "\<lparr>ci_write = Inr (), ci_flush = Inr (), ci_read = Inr ''x''\<rparr>" "''x''"]
    by auto
  have "a = rpc_answer (jnat 1) ?r"
    using a request_answered [OF J p d] by simp
  with c show ?thesis by (simp add: one_line_json_def)
qed

section \<open>The instance token of a cancel\<close>

text \<open>The profile a server reports is always read, with the token of that server.\<close>

lemma profile_decodes:
  assumes J: "json_documented J"
  shows "\<exists>c. capabilities_from_value J (capabilities_result v i sub est lc sq) = Inr c \<and> cp_token c = wi_token i"
proof -
  let ?x = "capabilities_result v i sub est lc sq"
  let ?i = "jobject [(''token'', JStr (wi_token i)), (''startedAtEpochMs'', jnat (wi_started_at_epoch_ms i))]"
  have g: "jl_get J ?x ''instance'' = Some ?i"
    "\<exists>ss. jl_get J ?x ''methods'' = Some (jstrings ss)"
    "\<exists>ss. jl_get J ?x ''optionalFields'' = Some (jstrings ss)"
    "\<exists>ss. jl_get J ?x ''outputFormats'' = Some (jstrings ss)"
    unfolding capabilities_result_def by ((subst jobject_get [OF J])?, simp, (rule exI, rule refl)?)+
  then have "\<exists>ss. read_string_array J ?x ''methods'' = Inr ss" "\<exists>ss. read_string_array J ?x ''optionalFields'' = Inr ss"
    "\<exists>ss. read_string_array J ?x ''outputFormats'' = Inr ss"
    by (auto dest: read_strings_member)
  moreover have "jl_get J ?i ''token'' = Some (JStr (wi_token i))" by (subst jobject_get [OF J]) simp_all
  moreover have "object_or m ?x = Inr ?x" for m by (simp add: capabilities_result_def)
  moreover have "need J as_object ?x ''instance'' m = Inr ?i" for m by (simp add: need_def g(1))
  ultimately show ?thesis by (auto simp: capabilities_from_value_def need_str and_then_def)
qed

lemma cancel_params_get:
  assumes J: "json_documented J"
  shows "param J (request_document n ''cancel'' (cancel_params J g (Some token))) ''generation'' = Some (jnat g)"
    and "param J (request_document n ''cancel'' (cancel_params J g (Some token))) ''instanceToken'' = Some (JStr token)"
proof -
  have p: "cancel_params J g (Some token) = jobject [(''generation'', jnat g), (''instanceToken'', JStr token)]"
    using J by (simp add: cancel_params_def jset_some_def jobject_def members_def json_documented_def)
  show "param J (request_document n ''cancel'' (cancel_params J g (Some token))) ''generation'' = Some (jnat g)"
    "param J (request_document n ''cancel'' (cancel_params J g (Some token))) ''instanceToken'' = Some (JStr token)"
    by (simp_all add: param_def object_params_def request_get [OF J] p jobject_get [OF J])
qed

text \<open>
  The identity check of \<open>fzz control cancel\<close> never refuses. The command asks the server that will
  answer it for its instance token and sends that token back with the generation number the user
  typed. Whatever server answers, and wherever the number came from, the token matches: the handler is
  called, so a number remembered from a watcher that has since been replaced cancels the run of the
  new watcher that happens to have the same number.
\<close>

theorem negotiated_token_never_refuses:
  assumes J: "json_documented (se_json e)" and g: "g < 2 ^ 64"
    and profile: "dispatch_method e api ''capabilities'' request s = Some (Inr v, s)"
      "capabilities_from_value (se_json e) v = Inr c"
    and handler: "ca_cancel_generation api = Some h"
  shows "dispatch_method e api ''cancel'' (request_document n ''cancel'' (cancel_params (se_json e) g (Some (cp_token c)))) s =
    Some (apfst (cancel_answer g) (h g s))"
proof -
  have "cp_token c = wi_token (ca_instance api)"
  proof -
    obtain v' sub est lc sq where "v = capabilities_result v' (ca_instance api) sub est lc sq"
      using profile(1) by (auto simp: dispatch_method_def Let_def read_only_def)
    with profile(2) profile_decodes [OF J, of v' "ca_instance api" sub est lc sq] show ?thesis by auto
  qed
  then show ?thesis
    using handler u64_jnat [OF J g]
    by (simp add: dispatch_method_def Let_def cancel_requested_generation_def cancel_params_get [OF J])
qed

theorem negotiated_token_never_refuses_witness:
  "\<exists>c :: capabilities_snapshot. dispatch_method demo_server demo_api ''cancel''
     (request_document 2 ''cancel'' (cancel_params (se_json demo_server) 4 (Some (cp_token c)))) 3 = Some (Inr (not_cancelled 4), 4)"
proof -
  let ?v = "capabilities_result ''2.0.0'' demo_instance False False False True"
  obtain c where c: "capabilities_from_value (se_json demo_server) ?v = Inr c"
    using profile_decodes [OF demo_server_documented] by blast
  have p: "dispatch_method demo_server demo_api ''capabilities'' JNull 3 = Some (Inr ?v, 3)"
    by (simp add: dispatch_method_def Let_def read_only_def demo_server_def demo_api_def api_new_def)
  have h: "ca_cancel_generation demo_api = Some (\<lambda>g n. (Inr Noop, Suc n))" by (simp add: demo_api_def)
  have "(4 :: nat) < 2 ^ 64" by simp
  note main = negotiated_token_never_refuses [OF demo_server_documented this p c h, of 2]
  show ?thesis by (rule exI [of _ c]) (use main in simp)
qed

section \<open>The bound of a wait\<close>

lemma wrap_covers:
  "x < M \<Longrightarrow> 0 < k \<Longrightarrow> k < M \<Longrightarrow> x \<le> (x + k) mod M \<longleftrightarrow> x + k < (M :: nat)"
proof (cases "x + k < M")
  case False
  assume "x < M" "0 < k" "k < M"
  with False have "(x + k) mod M = x + k - M" by (simp add: mod_if)
  with False \<open>k < M\<close> \<open>x < M\<close> show ?thesis by linarith
qed simp

text \<open>
  The read bound of an await covers the wait exactly when adding the margin does not wrap. A bound
  within two seconds of the largest 64 bit number of milliseconds, which the command line accepts,
  wraps to less than the margin: the client gives up long before the wait it asked for ends.
\<close>

theorem await_bound_covers_the_wait:
  "timeout_ms \<le> await_read_bound timeout_ms \<longleftrightarrow> timeout_ms \<le> - AWAIT_READ_MARGIN_MS - 1"
proof -
  have "unat timeout_ms < 18446744073709551616" using unsigned_less [of timeout_ms] by simp
  from wrap_covers [OF this, of 2000]
  have "unat timeout_ms \<le> (unat timeout_ms + 2000) mod 18446744073709551616 \<longleftrightarrow>
      unat timeout_ms \<le> 18446744073709549615"
    by linarith
  then show ?thesis
    by (simp add: await_read_bound_def AWAIT_READ_MARGIN_MS_def word_le_nat_alt unat_word_ariths)
qed

end
