(* ===== verification/Cli_Format.thy ===== *)
theory Cli_Format
  imports Client_Properties
begin

text \<open>
  The structured output of \<open>fzz control\<close>, \<open>src/src/cli/format.rs\<close>: one document per response, printed
  as TOON or JSON.

  Shown: the document of a status, a scheduled run, an emit, a cancel and the targets is again a
  result that the client's decoder accepts and reads as the snapshot it was made from, so an agent
  that reads the printed JSON knows exactly what the client knew. The document of an await is not: it
  leaves out the pending work.
\<close>

section \<open>Documents\<close>

datatype output_format = Human | Toon | Json

definition render_document :: "json_lib \<Rightarrow> output_format \<Rightarrow> json \<Rightarrow> string" where
  "render_document J format doc =
     (case format of
        Human \<Rightarrow> jl_pretty J doc
      | Json \<Rightarrow> jl_compact J doc @ [newline]
      | Toon \<Rightarrow> jl_toon J doc @ [newline])"

definition render_error :: "json_lib \<Rightarrow> output_format \<Rightarrow> int \<Rightarrow> string \<Rightarrow> string" where
  "render_error J format code message =
     render_document J format (jobject [(''error'', jobject [(''code'', JInt code), (''message'', JStr message)])])"

definition server_error_document :: "json_lib \<Rightarrow> int \<Rightarrow> string \<Rightarrow> json option \<Rightarrow> json" where
  "server_error_document J code message data =
     jobject [(''error'', jset_some J ''data'' data (jobject [(''code'', JInt code), (''message'', JStr message)]))]"

definition render_server_error :: "json_lib \<Rightarrow> output_format \<Rightarrow> int \<Rightarrow> string \<Rightarrow> json option \<Rightarrow> string" where
  "render_server_error J format code message data = render_document J format (server_error_document J code message data)"

definition task_document_of :: "terminal_task \<Rightarrow> json" where
  "task_document_of t =
     jobject [(''id'', JStr (tt_id t)), (''name'', JStr (tt_name t)), (''state'', JStr (tt_state t)),
              (''durationMs'', joption jnat (tt_duration_ms t))]"

definition status_document :: "json_lib \<Rightarrow> status_snapshot \<Rightarrow> json" where
  "status_document J s =
     (let doc = jobject
        [(''generation'', jnat (sn_generation s)), (''state'', JStr (sn_state s)),
         (''trigger'', joption JStr (sn_trigger s)), (''durationMs'', joption jnat (sn_duration_ms s)),
         (''commands'', jstrings (sn_commands s)), (''failures'', jstrings (sn_failures s)),
         (''effectiveConcurrency'', joption jnat (sn_effective_concurrency s)),
         (''concurrencySource'', joption JStr (sn_concurrency_source s))];
          doc = jset_some J ''tasks'' (map_option (\<lambda>ts. JArr (map task_document_of ts)) (sn_tasks s)) doc;
          doc = jset_some J ''revision'' (map_option jnat (sn_revision s)) doc
      in jset_some J ''revisionHash'' (map_option JStr (sn_revision_hash s)) doc)"

definition target_document_of :: "json_lib \<Rightarrow> target_snapshot \<Rightarrow> json" where
  "target_document_of J t =
     jset_some J ''estimate'' (map_option json_estimate (tn_estimate t))
       (jobject [(''name'', JStr (tn_name t)), (''commands'', jstrings (tn_commands t))])"

definition targets_document :: "json_lib \<Rightarrow> target_snapshot list \<Rightarrow> json" where
  "targets_document J ts = jobject [(''targets'', JArr (map (target_document_of J) ts))]"

definition capabilities_document :: "capabilities_snapshot \<Rightarrow> json" where
  "capabilities_document c =
     (let l = cp_limits c; f = cp_features c in
      jobject
       [(''protocolVersion'', JStr (cp_protocol_version c)), (''schemaVersion'', jnat (cp_schema_version c)),
        (''watcherVersion'', JStr (cp_watcher_version c)), (''instance'', jobject [(''token'', JStr (cp_token c))]),
        (''methods'', jstrings (cp_methods c)), (''optionalFields'', jstrings (cp_optional_fields c)),
        (''outputFormats'', jstrings (cp_output_formats c)),
        (''limits'', jobject
           [(''outputRetentionBytes'', jnat (cl_output_retention_bytes l)),
            (''maxResponseBytes'', jnat (cl_max_response_bytes l)),
            (''maxEvidenceLines'', jnat (cl_max_evidence_lines l)),
            (''durationEstimateLimits'', jobject
               [(''maxSamples'', jnat (cl_estimate_max_samples l)), (''floorMs'', jnat (cl_estimate_floor_ms l)),
                (''capMs'', jnat (cl_estimate_cap_ms l))])]),
        (''features'', jobject
           [(''atomicAwait'', JBool (cf_atomic_await f)), (''subscription'', JBool (cf_subscription f)),
            (''correlatedSnapshots'', JBool (cf_correlated_snapshots f)),
            (''outputRetrieval'', JBool (cf_output_retrieval f)), (''pendingWork'', JBool (cf_pending_work f)),
            (''durationEstimates'', JBool (cf_duration_estimates f)),
            (''sequentialOverride'', JBool (cf_sequential_override f))])])"

text \<open>The revision facts a document carries only when the server sent them.\<close>

definition with_revision :: "json_lib \<Rightarrow> nat option \<Rightarrow> string option \<Rightarrow> json \<Rightarrow> json" where
  "with_revision J revision hash doc =
     jset_some J ''revisionHash'' (map_option JStr hash) (jset_some J ''revision'' (map_option jnat revision) doc)"

definition run_document_of :: "json_lib \<Rightarrow> scheduled_run \<Rightarrow> json" where
  "run_document_of J r = with_revision J (sr_revision r) (sr_revision_hash r) (jobject [(''runId'', jnat (sr_run_id r))])"

definition emit_document_of :: "json_lib \<Rightarrow> emit_snapshot \<Rightarrow> json" where
  "emit_document_of J m =
     with_revision J (et_revision m) (et_revision_hash m)
       (jobject [(''outcome'', JStr (et_outcome m)), (''matched'', jstrings (et_matched m)),
                 (''runId'', joption jnat (et_run_id m))])"

definition cancel_document_of :: "cancel_snapshot \<Rightarrow> json" where
  "cancel_document_of c = jobject [(''cancelled'', JBool (cn_cancelled c)), (''generation'', jnat (cn_generation c))]"

definition transition_document_of :: "json_lib \<Rightarrow> transition_snapshot \<Rightarrow> json" where
  "transition_document_of J t =
     jset_some J ''reason'' (map_option JStr (tr_reason_text t))
      (with_revision J (tr_revision t) (tr_revision_hash t)
        (jobject [(''phase'', JStr (tr_phase t)), (''ordinal'', jnat (tr_ordinal t)),
                  (''atEpochMs'', jnat (tr_at_epoch_ms t))]))"

definition config_document_of :: "json_lib \<Rightarrow> config_snapshot \<Rightarrow> json" where
  "config_document_of J c =
     (let t = gs_current c in
      jset_some J ''reason'' (map_option JStr (tr_reason_text t))
       (with_revision J (tr_revision t) (tr_revision_hash t)
         (jobject [(''current'', transition_document_of J t),
                   (''history'', JArr (map (transition_document_of J) (gs_history c)))])))"

definition stream_document_of :: "stream_output \<Rightarrow> json" where
  "stream_document_of s =
     jobject [(''content'', JStr (so_content s)), (''truncated'', JBool (so_truncated s)),
              (''totalObservedBytes'', jnat (so_observed_bytes s)), (''retainedBytes'', jnat (so_retained_bytes s))]"

definition retrieved_document_of :: "json_lib \<Rightarrow> retrieved_task_snapshot \<Rightarrow> json" where
  "retrieved_document_of J t =
     jset_some J ''stderr'' (map_option stream_document_of (rs_stderr t))
      (jset_some J ''stdout'' (map_option stream_document_of (rs_stdout t)) (jobject [(''id'', JStr (rs_id t))]))"

definition output_document_of :: "json_lib \<Rightarrow> output_snapshot \<Rightarrow> json" where
  "output_document_of J x =
     jset_some J ''truncated'' (map_option JBool (ot_truncated x))
      (jset_some J ''returnedBytes'' (map_option jnat (ot_returned_bytes x))
       (jset_some J ''nextCursor'' (map_option JStr (ot_next_cursor x))
        (jset_some J ''resolvedTask'' (map_option JStr (ot_resolved_task x))
          (jobject [(''generation'', jnat (ot_generation x)),
                    (''tasks'', JArr (map (retrieved_document_of J) (ot_tasks x)))]))))"

definition output_ref_document_of :: "output_ref_snapshot \<Rightarrow> json" where
  "output_ref_document_of r =
     jobject [(''instanceToken'', JStr (os_instance_token r)), (''generation'', jnat (os_generation r)),
              (''task'', JStr (os_task r)), (''mode'', JStr (os_mode r)), (''tail'', jnat (os_tail r)),
              (''maxBytes'', jnat (os_max_bytes r)), (''retrieve'', JStr (os_retrieve r))]"

definition evidence_document_of :: "json_lib \<Rightarrow> evidence_snapshot \<Rightarrow> json" where
  "evidence_document_of J ev =
     jset_some J ''outputRef'' (map_option output_ref_document_of (es_output_ref ev))
       (jobject [(''excerpt'', JStr (es_excerpt ev)), (''lines'', jnat (es_lines ev)),
                 (''truncated'', JBool (es_truncated ev)), (''totalObservedBytes'', jnat (es_total_observed_bytes ev)),
                 (''retainedBytes'', jnat (es_retained_bytes ev)), (''retrieve'', JStr (es_retrieve ev)),
                 (''additionalFailedTasks'', jnat (es_additional_failed_tasks ev))])"

definition await_document_of :: "json_lib \<Rightarrow> await_snapshot \<Rightarrow> json" where
  "await_document_of J a =
     jset_some J ''failureEvidence'' (map_option (evidence_document_of J) (an_failure_evidence a))
       (jobject [(''terminalReason'', JStr (an_terminal_reason a)), (''latestGeneration'', jnat (an_latest_generation a)),
                 (''latestBatch'', joption jnat (an_latest_batch a)), (''freshness'', JStr (an_freshness a)),
                 (''snapshot'', status_document J (an_snapshot a))])"

section \<open>Reading documents back\<close>

text \<open>A document is an object with ordered members; optional members keep it one.\<close>

definition document :: "json \<Rightarrow> bool" where
  "document x \<longleftrightarrow> (\<exists>m. x = JObj m \<and> bt_ok m)"

lemma document_jobject [simp]: "document (jobject kvs)"
  by (simp add: document_def jobject_def bt_ok_members)

lemma document_object [simp]: "document x \<Longrightarrow> object_or m x = Inr x" "document x \<Longrightarrow> as_object x = Some x"
  by (auto simp: document_def object_or_def as_object_def)

lemma document_jset_some [simp]:
  "json_documented J \<Longrightarrow> document x \<Longrightarrow> document (jset_some J k v x)"
  by (cases v) (auto simp: document_def jset_some_def json_documented_def)

lemma jset_some_get:
  assumes "json_documented J" and "document x"
  shows "jl_get J (jset_some J k v x) j = (if j = k \<and> v \<noteq> None then v else jl_get J x j)"
proof (cases v)
  case (Some a)
  obtain m where m: "x = JObj m" "bt_ok m" using assms(2) by (auto simp: document_def)
  show ?thesis using set_member_get(1) [OF assms(1) m] by (simp add: Some jset_some_def)
qed (simp add: jset_some_def)

lemma with_revision_get:
  assumes "json_documented J" and "document x"
  shows "document (with_revision J r h x)"
    and "jl_get J (with_revision J r h x) j =
      (if j = ''revisionHash'' \<and> h \<noteq> None then map_option JStr h
       else if j = ''revision'' \<and> r \<noteq> None then map_option jnat r else jl_get J x j)"
  using assms by (auto simp: with_revision_def jset_some_get)

text \<open>What the decoders accept of a snapshot: numbers of 64 bits, the known task states and outcomes.\<close>

definition wire_task :: "terminal_task \<Rightarrow> bool" where
  "wire_task t \<longleftrightarrow> small (tt_duration_ms t) \<and> tt_state t \<in> {''passed'', ''failed'', ''cancelled''}"

definition wire_status :: "status_snapshot \<Rightarrow> bool" where
  "wire_status s \<longleftrightarrow> sn_generation s < 2 ^ 64 \<and> small (sn_duration_ms s) \<and> small (sn_effective_concurrency s) \<and>
     small (sn_revision s) \<and> (\<forall>ts. sn_tasks s = Some ts \<longrightarrow> (\<forall>t\<in>set ts. wire_task t))"

lemma task_read_back:
  assumes J: "json_documented J" and t: "wire_task t"
  shows "read_terminal_task J (i, task_document_of t) = Inr t"
proof -
  let ?x = "task_document_of t"
  have g: "jl_get J ?x ''id'' = Some (JStr (tt_id t))" "jl_get J ?x ''name'' = Some (JStr (tt_name t))"
    "jl_get J ?x ''state'' = Some (JStr (tt_state t))" "jl_get J ?x ''durationMs'' = Some (joption jnat (tt_duration_ms t))"
    by (simp_all add: task_document_of_def jobject_get [OF J])
  have x: "document ?x" by (simp add: task_document_of_def)
  have s: "need J (\<lambda>v. opt_filter (\<lambda>s. s \<in> {''passed'', ''failed'', ''cancelled''}) (as_str v)) ?x ''state'' m = Inr (tt_state t)" for m
    using t by (auto simp: need_def g(3) wire_task_def)
  have d: "nullable_number J ?x ''durationMs'' a b = Inr (tt_duration_ms t)" for a b
    using nullable_number_member [OF J _ g(4)] t by (simp add: wire_task_def)
  show ?thesis
    by (simp add: read_terminal_task_def x need_str [OF g(1)] need_str [OF g(2)] s [simplified] d g(4) Let_def)
qed

lemma tasks_read_back:
  assumes J: "json_documented J" and "\<forall>t\<in>set ts. wire_task t"
  shows "map_result (read_terminal_task J) (enumerate n (map task_document_of ts)) = Inr ts"
  using assms(2) by (induction ts arbitrary: n) (simp_all add: task_read_back [OF J])

text \<open>
  The printed status is the status. The document that \<open>fzz control status\<close> prints is itself a status
  result: the decoder reads it back as the snapshot it was made from, whatever optional facts the
  snapshot has or lacks.
\<close>

theorem status_document_reads_back:
  assumes J: "json_documented J" and s: "wire_status s"
  shows "status_from_value J (status_document J s) = Inr s"
proof -
  let ?x = "status_document J s"
  have n: "sn_generation s < 2 ^ 64" "small (sn_duration_ms s)" "small (sn_effective_concurrency s)" "small (sn_revision s)"
    and ts: "\<And>ts. sn_tasks s = Some ts \<Longrightarrow> \<forall>t\<in>set ts. wire_task t"
    using s by (auto simp: wire_status_def)
  have g: "jl_get J ?x ''generation'' = Some (jnat (sn_generation s))" "jl_get J ?x ''state'' = Some (JStr (sn_state s))"
    "jl_get J ?x ''trigger'' = Some (joption JStr (sn_trigger s))" "jl_get J ?x ''commands'' = Some (jstrings (sn_commands s))"
    "jl_get J ?x ''durationMs'' = Some (joption jnat (sn_duration_ms s))"
    "jl_get J ?x ''failures'' = Some (jstrings (sn_failures s))"
    "jl_get J ?x ''effectiveConcurrency'' = Some (joption jnat (sn_effective_concurrency s))"
    "jl_get J ?x ''concurrencySource'' = Some (joption JStr (sn_concurrency_source s))"
    by (simp_all add: status_document_def Let_def jset_some_get J jobject_get [OF J])
  have o: "jl_get J ?x ''revision'' = map_option jnat (sn_revision s)"
    "jl_get J ?x ''revisionHash'' = map_option JStr (sn_revision_hash s)"
    "jl_get J ?x ''tasks'' = map_option (\<lambda>ts. JArr (map task_document_of ts)) (sn_tasks s)"
    by (auto simp: status_document_def Let_def jset_some_get J jobject_get [OF J])
  have x: "document ?x" by (simp add: status_document_def Let_def J)
  have "read_optional_terminal_tasks J ?x = Inr (sn_tasks s)"
    using ts tasks_read_back [OF J] by (cases "sn_tasks s") (simp_all add: read_optional_terminal_tasks_def o(3))
  then show ?thesis
    by (simp add: status_from_value_def x need_u64 [OF J n(1) g(1)] need_str [OF g(2)] nullable_string_member [OF g(3)]
        read_strings_member [OF g(4)] nullable_number_member [OF J n(2) g(5)] read_strings_member [OF g(6)]
        nullable_number_member [OF J n(3) g(7)] nullable_string_member [OF g(8)]
        nullable_number_skipped [OF J n(4) o(1)] nullable_string_skipped [OF o(2)])
qed

definition demo_status :: status_snapshot where
  "demo_status = \<lparr>sn_generation = 7, sn_state = ''failed'', sn_trigger = None, sn_commands = [''make''],
     sn_duration_ms = Some 1250, sn_failures = [''make''],
     sn_tasks = Some [\<lparr>tt_id = ''build'', tt_name = ''build'', tt_state = ''failed'', tt_duration_ms = Some 1250\<rparr>],
     sn_effective_concurrency = None, sn_concurrency_source = None, sn_revision = Some 2, sn_revision_hash = None\<rparr>"

theorem status_document_reads_back_witness:
  "status_from_value demo_json (status_document demo_json demo_status) = Inr demo_status"
  by (rule status_document_reads_back [OF demo_json_documented]) (simp add: wire_status_def wire_task_def demo_status_def)

text \<open>
  The other answers that carry an identity to act on (a scheduled run, an emit, a cancel) are read
  back from their documents as well.
\<close>

theorem receipts_read_back:
  assumes J: "json_documented J"
    and r: "sr_run_id r < 2 ^ 64" "small (sr_revision r)"
    and m: "small (et_run_id m)" "small (et_revision m)" "et_outcome m \<in> {''scheduled'', ''unmatched'', ''ignored''}"
    and c: "cn_generation c < 2 ^ 64"
  shows "run_from_value J (run_document_of J r) = Inr r \<and> emit_from_value J (emit_document_of J m) = Inr m \<and>
    cancel_from_value J (cancel_document_of c) = Inr c"
proof (intro conjI)
  let ?r = "run_document_of J r" and ?m = "emit_document_of J m" and ?c = "cancel_document_of c"
  have x: "document ?r" "document ?m" "document ?c"
    by (simp_all add: run_document_of_def emit_document_of_def cancel_document_of_def with_revision_get J)
  have gr: "jl_get J ?r ''runId'' = Some (jnat (sr_run_id r))" "jl_get J ?r ''revision'' = map_option jnat (sr_revision r)"
    "jl_get J ?r ''revisionHash'' = map_option JStr (sr_revision_hash r)"
    by (auto simp: run_document_of_def with_revision_get J jobject_get [OF J])
  show "run_from_value J ?r = Inr r"
    by (simp add: run_from_value_def x Let_def need_u64 [OF J r(1) gr(1)] nullable_number_skipped [OF J r(2) gr(2)]
        nullable_string_skipped [OF gr(3)])
  have gm: "jl_get J ?m ''outcome'' = Some (JStr (et_outcome m))" "jl_get J ?m ''matched'' = Some (jstrings (et_matched m))"
    "jl_get J ?m ''runId'' = Some (joption jnat (et_run_id m))" "jl_get J ?m ''revision'' = map_option jnat (et_revision m)"
    "jl_get J ?m ''revisionHash'' = map_option JStr (et_revision_hash m)"
    by (auto simp: emit_document_of_def with_revision_get J jobject_get [OF J])
  show "emit_from_value J ?m = Inr m"
    using m(3) by (auto simp: emit_from_value_def x Let_def need_str [OF gm(1)] read_strings_member [OF gm(2)]
        nullable_number_member [OF J m(1) gm(3)] nullable_number_skipped [OF J m(2) gm(4)] nullable_string_skipped [OF gm(5)])
  have gc: "jl_get J ?c ''cancelled'' = Some (JBool (cn_cancelled c))" "jl_get J ?c ''generation'' = Some (jnat (cn_generation c))"
    by (simp_all add: cancel_document_of_def jobject_get [OF J])
  show "cancel_from_value J ?c = Inr c"
    by (simp add: cancel_from_value_def x Let_def need_bool [OF gc(1)] need_u64 [OF J c gc(2)])
qed

text \<open>
  The printed await has lost the pending work. Whatever the observation, its document has no
  \<open>pendingWork\<close> member: no reader of the structured output can tell a quiet watcher from one whose
  debounce is still running, and the decoder refuses the document.
\<close>

theorem await_document_loses_pending_work:
  assumes J: "json_documented J"
  shows "jl_get J (await_document_of J a) ''pendingWork'' = None \<and>
    (\<exists>reason. await_from_value J (await_document_of J a) = Inl reason)"
proof -
  let ?x = "await_document_of J a"
  have g: "jl_get J ?x ''pendingWork'' = None"
    by (simp add: await_document_of_def jset_some_get J jobject_get [OF J])
  then have "need J as_object ?x ''pendingWork'' m = Inl m" for m by (simp add: need_def)
  moreover have "object_or m ?x = Inr ?x" for m by (simp add: await_document_of_def J)
  ultimately have "\<exists>reason. await_from_value J ?x = Inl reason"
    by (auto simp: await_from_value_def and_then_def split: sum.split)
  with g show ?thesis ..
qed

theorem await_document_loses_pending_work_witness:
  "jl_get demo_json (await_document_of demo_json (await_of demo_await)) ''pendingWork'' = None"
  using await_document_loses_pending_work [OF demo_json_documented] by blast

section \<open>Output requests\<close>

lemma output_params_get:
  fixes q :: output_request and token :: "string option"
  assumes J: "json_documented J"
  defines "p \<equiv> output_params J q token"
  shows "is_object p"
    and "jl_get J p ''mode'' = (if rq_out_page q then Some (JStr ''page'') else None)"
    and "jl_get J p ''cursor'' = (if rq_out_page q then map_option JStr (rq_out_cursor q) else None)"
    and "jl_get J p ''full'' = (if \<not> rq_out_page q \<and> rq_out_full q then Some (JBool True) else None)"
    and "jl_get J p ''tail'' = (if \<not> rq_out_page q \<and> \<not> rq_out_full q then map_option jnat (rq_out_tail q) else None)"
proof -
  have set: "jl_set J k v x = jset_some J k (Some v) x" for k v x by (simp add: jset_some_def)
  have doc: "document p" unfolding p_def output_params_def Let_def set by (simp add: J)
  then show "is_object p" by (auto simp: document_def)
  show "jl_get J p ''mode'' = (if rq_out_page q then Some (JStr ''page'') else None)"
    "jl_get J p ''cursor'' = (if rq_out_page q then map_option JStr (rq_out_cursor q) else None)"
    "jl_get J p ''full'' = (if \<not> rq_out_page q \<and> rq_out_full q then Some (JBool True) else None)"
    "jl_get J p ''tail'' = (if \<not> rq_out_page q \<and> \<not> rq_out_full q then map_option jnat (rq_out_tail q) else None)"
    unfolding p_def output_params_def Let_def set by (auto simp: jset_some_get J jobject_get [OF J])
qed

text \<open>
  The client never asks for exclusive options. Whatever flags an output request was made from, its
  parameters pass the server's check of exclusive options: a cursor comes only with page mode, and a
  tail never comes with a page or with everything.
\<close>

theorem client_output_requests_are_accepted:
  assumes J: "json_documented J"
  shows "query_rejected (output_query_of J (request_document n ''output'' (output_params J q token))) = None"
proof -
  let ?r = "request_document n ''output'' (output_params J q token)"
  have p: "param J ?r k = jl_get J (output_params J q token) k" for k
    using output_params_get(1) [OF J, of q token] by (simp add: param_def object_params_def as_object_def request_get [OF J])
  have trim: "str_trim ''page'' = ''page''" by code_simp
  show ?thesis
    by (simp add: query_rejected_def is_page_def output_query_of_def p output_params_get(2-) [OF J] trim)
qed

theorem client_output_requests_are_accepted_witness:
  "query_rejected (output_query_of demo_json (request_document 1 ''output'' (output_params demo_json
     \<lparr>rq_out_generation = 3, rq_out_task = None, rq_out_stream = None, rq_out_tail = Some 5, rq_out_full = True,
      rq_out_page = True, rq_out_page_size = None, rq_out_cursor = Some ''c''\<rparr> None))) = None"
  by (rule client_output_requests_are_accepted [OF demo_json_documented])

end
