(* ===== verification/Cli_Render.thy ===== *)
theory Cli_Render
  imports Cli_Format
begin

text \<open>
  The human output of \<open>fzz control\<close>, the renderers of \<open>src/src/cli/control.rs\<close>, and its duration
  arguments.

  The seconds of \<open>format_duration\<close> are a division of 64 bit floating point numbers printed with one
  digit: the quotient is rounded to 53 significant bits and the exact value of the result to tenths,
  both to even. Shown: the printed tenths are never more than 50 milliseconds off, so the two
  roundings together lose nothing that one exact rounding would keep.
\<close>

section \<open>Durations\<close>

text \<open>\<open>parse_duration\<close>, in milliseconds.\<close>

definition parse_duration :: "string \<Rightarrow> nat result" where
  "parse_duration input =
     (let raw = str_trim input;
          (digits, multiplier) = split_unit raw;
          bad = ''invalid duration '' @ quoted raw
      in case parse_unsigned (str_trim digits) of
           None \<Rightarrow> Inl (bad @ '': expected <number> with optional ms/s/m suffix (bare number = seconds)'')
         | Some v \<Rightarrow>
             if v = 0 then Inl (bad @ '': must be positive'')
             else if v * multiplier < 2 ^ 64 then Inr (v * multiplier)
             else Inl (bad @ '': bound is too large''))"

definition round_half_even :: "nat \<Rightarrow> nat \<Rightarrow> nat" where
  "round_half_even a b =
     (let q = a div b; r = a mod b in
      if 2 * r < b then q else if 2 * r > b then q + 1 else if even q then q else q + 1)"

text \<open>
  A quotient \<open>ms / 1000\<close> between 1 and 64 as a floating point number with 53 significant bits: the
  number of fraction bits and the scaled value.
\<close>

definition fraction_bits :: "nat \<Rightarrow> nat" where
  "fraction_bits ms =
     (if ms < 2000 then 52 else if ms < 4000 then 51 else if ms < 8000 then 50
      else if ms < 16000 then 49 else if ms < 32000 then 48 else 47)"

definition float_seconds :: "nat \<Rightarrow> nat" where
  "float_seconds ms = round_half_even (ms * 2 ^ fraction_bits ms) 1000"

text \<open>The tenths of a second that \<open>{:.1}\<close> prints.\<close>

definition float_tenths :: "nat \<Rightarrow> nat" where
  "float_tenths ms = round_half_even (float_seconds ms * 10) (2 ^ fraction_bits ms)"

definition format_duration :: "nat \<Rightarrow> string" where
  "format_duration ms =
     (if ms < 1000 then show_nat ms @ ''ms''
      else if ms < 60000
      then show_nat (float_tenths ms div 10) @ ''.'' @ show_nat (float_tenths ms mod 10) @ ''s''
      else if ms < 3600000 then show_nat (ms div 60000) @ ''m'' @ show_nat (ms mod 60000 div 1000)
      else show_nat (ms div 3600000) @ ''h'' @ show_nat (ms mod 3600000 div 60000) @ ''m'')"

section \<open>Text\<close>

definition text_line :: "string \<Rightarrow> string" where
  "text_line s = s @ [newline]"

definition option_line :: "string \<Rightarrow> ('a \<Rightarrow> string) \<Rightarrow> 'a option \<Rightarrow> string" where
  "option_line label f x = (case x of Some a \<Rightarrow> text_line (label @ f a) | None \<Rightarrow> [])"

definition item_lines :: "string \<Rightarrow> string list \<Rightarrow> string" where
  "item_lines indent xs = concat (map (\<lambda>x. text_line (indent @ x)) xs)"

definition listed :: "string \<Rightarrow> string list \<Rightarrow> string" where
  "listed label xs =
     (if xs = [] then text_line (label @ '': (none)'') else text_line (label @ '':'') @ item_lines ''  - '' xs)"

text \<open>\<open>{:<width$}\<close> counts characters; the widths are computed from byte lengths.\<close>

definition char_count :: "string \<Rightarrow> nat" where
  "char_count s = length (filter (\<lambda>c. \<not> is_cont c) s)"

definition pad_right :: "nat \<Rightarrow> string \<Rightarrow> string" where
  "pad_right width s = s @ replicate (width - char_count s) CHR '' ''"

definition max_of :: "nat \<Rightarrow> nat list \<Rightarrow> nat" where
  "max_of least ns = fold max ns least"

definition job_identity :: "terminal_task \<Rightarrow> string" where
  "job_identity t = (if tt_id t = tt_name t then tt_name t else ''['' @ tt_id t @ ''] '' @ tt_name t)"

definition job_duration :: "terminal_task \<Rightarrow> string" where
  "job_duration t = (case tt_duration_ms t of Some ms \<Rightarrow> format_duration ms | None \<Rightarrow> ''-'')"

definition render_job_timing_rows :: "terminal_task list \<Rightarrow> string" where
  "render_job_timing_rows ts =
     (if ts = [] then []
      else
        let name_width = max_of (length ''JOB'') (map (length \<circ> job_identity) ts);
            state_width = max_of (length ''RESULT'') (map (length \<circ> tt_state) ts)
        in text_line ''jobs:''
           @ text_line (''  '' @ pad_right name_width ''JOB'' @ ''  '' @ pad_right state_width ''RESULT'' @ ''  DURATION'')
           @ concat (map (\<lambda>t. text_line (''  '' @ pad_right name_width (job_identity t) @ ''  ''
                               @ pad_right state_width (tt_state t) @ ''  '' @ job_duration t)) ts))"

definition render_status :: "status_snapshot \<Rightarrow> string" where
  "render_status s =
     text_line (''generation: '' @ show_nat (sn_generation s)) @ text_line (''state: '' @ sn_state s)
     @ (case sn_effective_concurrency s of
          None \<Rightarrow> []
        | Some n \<Rightarrow> text_line (''effectiveConcurrency: '' @ show_nat n)
                    @ option_line ''concurrencySource: '' id (sn_concurrency_source s))
     @ option_line ''revision: '' show_nat (sn_revision s)
     @ option_line ''trigger: '' id (sn_trigger s)
     @ option_line ''duration_ms: '' show_nat (sn_duration_ms s)
     @ listed ''commands'' (sn_commands s) @ listed ''failures'' (sn_failures s)
     @ render_job_timing_rows (default_to [] (sn_tasks s))"

definition render_capabilities :: "capabilities_snapshot \<Rightarrow> string" where
  "render_capabilities c =
     (let l = cp_limits c; f = cp_features c in
      text_line (''protocol version: '' @ cp_protocol_version c)
      @ text_line (''schema version: '' @ show_nat (cp_schema_version c))
      @ text_line (''watcher version: '' @ cp_watcher_version c)
      @ text_line (''instance token: '' @ cp_token c)
      @ text_line ''methods:'' @ item_lines ''  - '' (cp_methods c)
      @ text_line ''output formats:'' @ item_lines ''  - '' (cp_output_formats c)
      @ text_line ''optional fields:'' @ item_lines ''  - '' (cp_optional_fields c)
      @ text_line ''limits:''
      @ text_line (''  output retention bytes: '' @ show_nat (cl_output_retention_bytes l))
      @ text_line (''  max response bytes: '' @ show_nat (cl_max_response_bytes l))
      @ text_line (''  max evidence lines: '' @ show_nat (cl_max_evidence_lines l))
      @ (if cf_duration_estimates f
         then text_line (''  estimate max samples: '' @ show_nat (cl_estimate_max_samples l))
              @ text_line (''  estimate floor ms: '' @ show_nat (cl_estimate_floor_ms l))
              @ text_line (''  estimate cap ms: '' @ show_nat (cl_estimate_cap_ms l))
         else [])
      @ text_line ''features:''
      @ text_line (''  atomic await: '' @ show_bool (cf_atomic_await f))
      @ text_line (''  subscription: '' @ show_bool (cf_subscription f))
      @ text_line (''  correlated snapshots: '' @ show_bool (cf_correlated_snapshots f))
      @ text_line (''  output retrieval: '' @ show_bool (cf_output_retrieval f))
      @ text_line (''  pending work: '' @ show_bool (cf_pending_work f))
      @ text_line (''  duration estimates: '' @ show_bool (cf_duration_estimates f)))"

definition render_config :: "config_snapshot \<Rightarrow> string" where
  "render_config c =
     (let t = gs_current c in
      text_line (''phase: '' @ tr_phase t) @ option_line ''revision: '' show_nat (tr_revision t)
      @ option_line ''revision hash: '' id (tr_revision_hash t) @ option_line ''reason: '' id (tr_reason_text t)
      @ text_line (''ordinal: '' @ show_nat (tr_ordinal t))
      @ (if gs_history c = [] then []
         else text_line ''history:''
              @ concat (map (\<lambda>h. text_line (''  - '' @ tr_phase h
                    @ (case tr_revision h of Some n \<Rightarrow> '' revision '' @ show_nat n | None \<Rightarrow> []))) (gs_history c))))"

definition confidence_label :: "estimate_confidence \<Rightarrow> string" where
  "confidence_label c =
     (case c of NoConfidence \<Rightarrow> ''none'' | LowConfidence \<Rightarrow> ''low'' | MediumConfidence \<Rightarrow> ''medium'' | HighConfidence \<Rightarrow> ''high'')"

definition source_label :: "estimate_source \<Rightarrow> string" where
  "source_label s = (case s of Measured \<Rightarrow> ''measured'' | Configured \<Rightarrow> ''configured'')"

definition render_estimate :: "run_estimate \<Rightarrow> string" where
  "render_estimate x =
     ''estimate: typical='' @ format_duration (unat (re_typical_ms x))
     @ '' upper='' @ format_duration (unat (re_upper_ms x))
     @ '' timeout='' @ format_duration (unat (re_recommended_timeout_ms x))
     @ '' confidence='' @ confidence_label (re_confidence x)
     @ '' n='' @ show_nat (re_samples x) @ '' source='' @ source_label (re_source x)"

definition render_targets :: "target_snapshot list \<Rightarrow> string" where
  "render_targets ts =
     (if ts = [] then text_line ''targets: (none)''
      else text_line (''targets ('' @ show_nat (length ts) @ ''):'')
           @ concat (map (\<lambda>t. text_line (''  - '' @ tn_name t) @ item_lines ''      '' (tn_commands t)
                              @ option_line ''      '' render_estimate (tn_estimate t)) ts))"

definition render_run :: "scheduled_run \<Rightarrow> string" where
  "render_run r =
     text_line (''scheduled generation: '' @ show_nat (sr_run_id r)) @ option_line ''revision: '' show_nat (sr_revision r)"

definition render_evidence :: "evidence_snapshot \<Rightarrow> string" where
  "render_evidence ev =
     text_line ''failure evidence:'' @ text_line (''  truncated: '' @ show_bool (es_truncated ev))
     @ text_line (''  observed_bytes: '' @ show_nat (es_total_observed_bytes ev))
     @ text_line (''  retained_bytes: '' @ show_nat (es_retained_bytes ev))
     @ (case es_output_ref ev of
          None \<Rightarrow> []
        | Some r \<Rightarrow> text_line (''  instance: '' @ os_instance_token r) @ text_line (''  task: '' @ os_task r))
     @ (if 0 < es_additional_failed_tasks ev
        then text_line (''  additional_failed_tasks: '' @ show_nat (es_additional_failed_tasks ev)) else [])
     @ text_line (''  retrieve: '' @ es_retrieve ev) @ text_line ''  excerpt:''
     @ item_lines ''    '' (str_lines (es_excerpt ev))"

definition render_await :: "await_snapshot \<Rightarrow> string" where
  "render_await a =
     text_line (''terminal reason: '' @ an_terminal_reason a) @ text_line (''freshness: '' @ an_freshness a)
     @ text_line (''latest generation: '' @ show_nat (an_latest_generation a))
     @ option_line ''latest batch: '' show_nat (an_latest_batch a)
     @ text_line (''pending debounce: '' @ show_bool (an_debounce_active a))
     @ text_line (''queued batches: '' @ show_nat (an_queued_batches a))
     @ text_line ''snapshot:'' @ render_status (an_snapshot a)
     @ (case an_failure_evidence a of Some ev \<Rightarrow> render_evidence ev | None \<Rightarrow> [])"

definition render_stream :: "string \<Rightarrow> stream_output option \<Rightarrow> string" where
  "render_stream name x =
     (case x of
        None \<Rightarrow> []
      | Some s \<Rightarrow>
          text_line (''  '' @ name @ '': '' @ show_nat (so_lines s) @ '' lines, retained '' @ show_nat (so_retained_bytes s)
                     @ '' bytes, observed '' @ show_nat (so_observed_bytes s) @ '' bytes''
                     @ (if so_truncated s then '' (truncated)'' else []) @ '':'')
          @ text_line ''  ---'' @ item_lines ''  '' (str_lines (so_content s))
          @ (if so_content s \<noteq> [] \<and> last (so_content s) \<noteq> newline then [newline] else []))"

definition render_output :: "output_snapshot \<Rightarrow> string" where
  "render_output x =
     text_line (''output: generation '' @ show_nat (ot_generation x))
     @ option_line ''resolved task: '' id (ot_resolved_task x)
     @ option_line ''returned bytes: '' show_nat (ot_returned_bytes x)
     @ option_line ''next cursor: '' id (ot_next_cursor x)
     @ option_line ''truncated: '' show_bool (ot_truncated x)
     @ (if ot_tasks x = [] then text_line ''tasks: (none)''
        else concat (map (\<lambda>t. text_line (''task: '' @ rs_id t) @ render_stream ''stdout'' (rs_stdout t)
                                @ render_stream ''stderr'' (rs_stderr t)) (ot_tasks x)))"

definition render_cancel :: "cancel_snapshot \<Rightarrow> string" where
  "render_cancel c =
     text_line (''generation: '' @ show_nat (cn_generation c))
     @ text_line (''outcome: '' @ (if cn_cancelled c then ''cancelled'' else ''not-running''))"

definition render_emit :: "emit_snapshot \<Rightarrow> string" where
  "render_emit m =
     text_line (''outcome: '' @ et_outcome m)
     @ (if et_matched m = [] then text_line ''matched: (none)''
        else text_line (''matched ('' @ show_nat (length (et_matched m)) @ ''):'') @ item_lines ''  - '' (et_matched m))
     @ option_line ''scheduled generation: '' show_nat (et_run_id m)
     @ option_line ''revision: '' show_nat (et_revision m)"

section \<open>The printed seconds\<close>

lemma round_half_even_near:
  assumes "0 < b"
  shows "2 * (round_half_even a b * b) \<le> 2 * a + b" and "2 * a \<le> 2 * (round_half_even a b * b) + b"
proof -
  have a: "a = a div b * b + a mod b" by simp
  define q r where "q = a div b" and "r = a mod b"
  have r: "r < b" and qr: "a = q * b + r" using assms a by (simp_all add: q_def r_def)
  have "round_half_even a b = q \<and> 2 * r \<le> b \<or> round_half_even a b = q + 1 \<and> b \<le> 2 * r"
    by (auto simp: round_half_even_def Let_def q_def [symmetric] r_def [symmetric])
  then show "2 * (round_half_even a b * b) \<le> 2 * a + b" "2 * a \<le> 2 * (round_half_even a b * b) + b"
    using r unfolding qr by (auto simp: algebra_simps)
qed

text \<open>
  The seconds of a report are right to the printed digit. Although the quotient is first rounded to a
  floating point number and then to a tenth, the tenths that are printed differ from the duration by
  at most half a tenth.
\<close>

theorem printed_tenths_are_nearest:
  "100 * float_tenths ms \<le> ms + 50 \<and> ms \<le> 100 * float_tenths ms + 50"
proof -
  define n t N where "n = float_seconds ms" and "t = float_tenths ms" and "N = (2 :: nat) ^ fraction_bits ms"
  have N: "1000 < N" by (simp add: N_def fraction_bits_def)
  have "0 < N" by (simp add: N_def)
  have n: "2 * (n * 1000) \<le> 2 * (ms * N) + 1000" "2 * (ms * N) \<le> 2 * (n * 1000) + 1000"
    using round_half_even_near [of 1000 "ms * N"] by (simp_all add: n_def float_seconds_def N_def)
  have t: "2 * (t * N) \<le> 2 * (n * 10) + N" "2 * (n * 10) \<le> 2 * (t * N) + N"
    using round_half_even_near [OF \<open>0 < N\<close>, of "n * 10"] by (simp_all add: t_def float_tenths_def n_def N_def)
  have "100 * t \<le> ms + 50"
  proof (rule ccontr)
    assume "\<not> ?thesis"
    then have "(ms + 51) * N \<le> 100 * t * N" by (intro mult_le_mono1) simp
    with n t N show False by (simp add: algebra_simps)
  qed
  moreover have "ms \<le> 100 * t + 50"
  proof (rule ccontr)
    assume "\<not> ?thesis"
    then have "(100 * t + 51) * N \<le> ms * N" by (intro mult_le_mono1) simp
    with n t N show False by (simp add: algebra_simps)
  qed
  ultimately have "100 * t \<le> ms + 50 \<and> ms \<le> 100 * t + 50" ..
  then show ?thesis by (simp add: t_def)
qed

end
