(* ===== verification/Cli_Control.thy ===== *)
theory Cli_Control
  imports Cli_Render
begin

text \<open>
  The command \<open>fzz control\<close>, \<open>src/src/cli/control.rs\<close>: the choice of the socket, one action over one
  connection, the wait that may follow it, and the result that becomes the exit code.

  A run of the command yields its result, the text it printed and the world after it. The result is
  an error or nothing; \<open>None\<close> stands for a panic. Shown: with a wait, the command succeeds exactly
  when the watcher observed a passed or cancelled generation; a sequential run is never scheduled on a
  watcher that does not offer it; the precedence of the socket sources; the wait ends.
\<close>

section \<open>Actions\<close>

datatype control_action =
    ActStatus | ActList | ActCapabilities | ActConfig
  | ActRun string bool "u64 option" bool
  | ActEmit string bool "u64 option"
  | ActAwait "nat option" "nat option" u64
  | ActCancel nat bool "u64 option"
  | ActOutput output_request

record control_command =
  cc_action :: control_action
  cc_socket_override :: "string option"
  cc_global_socket :: "string option"
  cc_config :: "string option"
  cc_format :: output_format

definition with_format ::
  "control_action \<Rightarrow> string option \<Rightarrow> string option \<Rightarrow> string option \<Rightarrow> output_format \<Rightarrow> control_command" where
  "with_format action socket_override global_socket config format =
     \<lparr>cc_action = action, cc_socket_override = socket_override, cc_global_socket = global_socket,
      cc_config = config, cc_format = format\<rparr>"

definition command_new :: "control_action \<Rightarrow> string option \<Rightarrow> string option \<Rightarrow> string option \<Rightarrow> control_command" where
  "command_new action socket_override global_socket config =
     with_format action socket_override global_socket config Human"

text \<open>What the command uses of the host: files, the two libraries, the sockets and the clock.\<close>

record 'w control_host =
  ch_yaml :: yaml_lib
  ch_os :: config_os
  ch_exists :: "string \<Rightarrow> bool"
  ch_json :: json_lib
  ch_transport :: "'w transport"
  ch_sleep :: "'w \<Rightarrow> 'w"

section \<open>The socket\<close>

definition given :: "string option \<Rightarrow> string option" where
  "given x = opt_filter (\<lambda>s. str_trim s \<noteq> []) x"

definition config_candidates :: "'w control_host \<Rightarrow> string option \<Rightarrow> string list" where
  "config_candidates h config =
     (case config of
        Some path \<Rightarrow> [path]
      | None \<Rightarrow>
          (let alternative = str_replace ''yaml'' ''yml'' DEFAULT_FILENAME in
           (if ch_exists h DEFAULT_FILENAME then [DEFAULT_FILENAME] else [])
           @ (if alternative \<noteq> DEFAULT_FILENAME \<and> ch_exists h alternative then [alternative] else [])))"

definition no_socket :: string where
  "no_socket = ''no control socket configured: provide `--socket <PATH>`, `--control-socket <PATH>`, or set `on.socket` in the config file''"

fun first_socket :: "'w control_host \<Rightarrow> string list \<Rightarrow> string result" where
  "first_socket h [] = Inl no_socket"
| "first_socket h (candidate # candidates) =
     (if \<not> ch_exists h candidate then Inl (''config file not found: '' @ candidate)
      else case control_socket_from_file (ch_yaml h) (ch_os h) candidate of
             Inl err \<Rightarrow> Inl (''invalid control socket config in '' @ candidate @ '': '' @ err)
           | Inr (Some socket) \<Rightarrow> Inr socket
           | Inr None \<Rightarrow> first_socket h candidates)"

definition resolve_socket :: "'w control_host \<Rightarrow> control_command \<Rightarrow> string result" where
  "resolve_socket h c =
     (case given (cc_socket_override c) of
        Some path \<Rightarrow> Inr path
      | None \<Rightarrow>
          (case given (cc_global_socket c) of
             Some path \<Rightarrow> Inr path
           | None \<Rightarrow> first_socket h (config_candidates h (cc_config c))))"

section \<open>Running an action\<close>

type_synonym 'w command_run = "(fzz_error + unit) option \<times> string \<times> 'w"

definition failed_with :: "string \<Rightarrow> 'w \<Rightarrow> 'w command_run" where
  "failed_with message w = (Some (Inl (GenericError message)), [], w)"

definition succeeded :: "'w \<Rightarrow> 'w command_run" where
  "succeeded w = (Some (Inr ()), [], w)"

definition print_response ::
  "'w control_host \<Rightarrow> output_format \<Rightarrow> json \<Rightarrow> string \<Rightarrow> 'w command_run \<Rightarrow> 'w command_run" where
  "print_response h format doc human r =
     (case r of (result, out, w) \<Rightarrow>
        (result, (case format of Human \<Rightarrow> human | _ \<Rightarrow> render_document (ch_json h) format doc) @ out, w))"

text \<open>A failing request ends the command with its text.\<close>

definition checked ::
  "'w control_host \<Rightarrow> (client_error + 'a) \<times> nat \<times> 'w \<Rightarrow> ('a \<Rightarrow> nat \<Rightarrow> 'w \<Rightarrow> 'w command_run) \<Rightarrow> 'w command_run" where
  "checked h r k =
     (case r of
        (Inl err, n, w) \<Rightarrow> failed_with (client_error_text (ch_json h) err) w
      | (Inr a, n, w) \<Rightarrow> k a n w)"

fun renegotiate :: "'w control_host \<Rightarrow> string \<Rightarrow> string \<Rightarrow> nat \<Rightarrow> 'w \<Rightarrow> bool \<times> 'w" where
  "renegotiate h path before 0 w = (False, w)"
| "renegotiate h path before (Suc k) w =
     (case client_connect (ch_transport h) path w of
        (Inl _, w) \<Rightarrow> renegotiate h path before k (ch_sleep h w)
      | (Inr n, w) \<Rightarrow>
          (case client_capabilities (ch_json h) (ch_transport h) n w of
             (Inl _, _, w) \<Rightarrow> renegotiate h path before k (ch_sleep h w)
           | (Inr caps, _, w) \<Rightarrow> (cp_token caps \<noteq> before, w)))"

fun lost_connection :: "client_error \<Rightarrow> bool" where
  "lost_connection (Unavailable _ _) = True"
| "lost_connection (ClientIo _) = True"
| "lost_connection ClientTimeout = True"
| "lost_connection Disconnected = True"
| "lost_connection _ = False"

definition token_of :: "(client_error + capabilities_snapshot) \<Rightarrow> string option" where
  "token_of r = (case r of Inr caps \<Rightarrow> Some (cp_token caps) | Inl _ \<Rightarrow> None)"

definition finish_await ::
  "'w control_host \<Rightarrow> output_format \<Rightarrow> nat \<Rightarrow> string \<Rightarrow> await_mode \<Rightarrow> u64 \<Rightarrow> 'w \<Rightarrow> 'w command_run" where
  "finish_await h format n path mode timeout_ms w =
     (let J = ch_json h; t = ch_transport h;
          (caps, n, w) = client_capabilities J t n w;
          before = token_of caps;
          (observed, n, w) = client_await J t mode timeout_ms n w
      in case observed of
           Inr observation \<Rightarrow>
             print_response h format (await_document_of J observation) (render_await observation)
               (if an_terminal_reason observation \<in> {''passed'', ''cancelled''} then succeeded w
                else failed_with (''await: generation '' @ show_nat (sn_generation (an_snapshot observation))
                                  @ '' '' @ an_terminal_reason observation) w)
         | Inl err \<Rightarrow>
             if lost_connection err
             then
               (let (restarted, w) = (case before of None \<Rightarrow> (False, w) | Some token \<Rightarrow> renegotiate h path token 20 w)
                in failed_with (''await: watcher '' @ (if restarted then ''restarted'' else ''disconnected'')
                                @ '' while waiting'') w)
             else failed_with (client_error_text J err) w)"

text \<open>A requested wait; the panic is the missing bound, which the argument parser rules out.\<close>

definition then_wait ::
  "'w control_host \<Rightarrow> output_format \<Rightarrow> bool \<Rightarrow> nat option \<Rightarrow> u64 option \<Rightarrow> string \<Rightarrow> nat \<Rightarrow> 'w \<Rightarrow> 'w command_run" where
  "then_wait h format wait generation timeout path n w =
     (if \<not> wait then succeeded w
      else case generation of
             None \<Rightarrow> succeeded w
           | Some g \<Rightarrow>
               (case timeout of
                  None \<Rightarrow> (None, [], w)
                | Some bound \<Rightarrow> finish_await h format n path (Exact g) bound w))"

definition sequential_refusal :: string where
  "sequential_refusal = ''the running watcher does not support --sequential (sequentialOverride capability missing); upgrade funzzy or drop the flag''"

definition schedule_run ::
  "'w control_host \<Rightarrow> output_format \<Rightarrow> string \<Rightarrow> string \<Rightarrow> bool \<Rightarrow> u64 option \<Rightarrow> bool \<Rightarrow> nat \<Rightarrow> 'w \<Rightarrow> 'w command_run" where
  "schedule_run h format path target wait timeout sequential n w =
     checked h (client_run (ch_json h) (ch_transport h) target sequential n w)
       (\<lambda>scheduled n w. print_response h format (run_document_of (ch_json h) scheduled) (render_run scheduled)
          (then_wait h format wait (Some (sr_run_id scheduled)) timeout path n w))"

definition execute_run ::
  "'w control_host \<Rightarrow> output_format \<Rightarrow> string \<Rightarrow> string \<Rightarrow> bool \<Rightarrow> u64 option \<Rightarrow> bool \<Rightarrow> nat \<Rightarrow> 'w \<Rightarrow> 'w command_run" where
  "execute_run h format path target wait timeout sequential n w =
     (if sequential
      then checked h (client_capabilities (ch_json h) (ch_transport h) n w)
             (\<lambda>caps n w. if \<not> cf_sequential_override (cp_features caps) then failed_with sequential_refusal w
                          else schedule_run h format path target wait timeout sequential n w)
      else schedule_run h format path target wait timeout sequential n w)"

definition execute_emit ::
  "'w control_host \<Rightarrow> output_format \<Rightarrow> string \<Rightarrow> string \<Rightarrow> bool \<Rightarrow> u64 option \<Rightarrow> nat \<Rightarrow> 'w \<Rightarrow> 'w command_run" where
  "execute_emit h format path emitted wait timeout n w =
     checked h (client_emit (ch_json h) (ch_transport h) emitted n w)
       (\<lambda>m n w. print_response h format (emit_document_of (ch_json h) m) (render_emit m)
          (then_wait h format wait (et_run_id m) timeout path n w))"

definition execute_cancel ::
  "'w control_host \<Rightarrow> output_format \<Rightarrow> string \<Rightarrow> nat \<Rightarrow> bool \<Rightarrow> u64 option \<Rightarrow> nat \<Rightarrow> 'w \<Rightarrow> 'w command_run" where
  "execute_cancel h format path generation wait timeout n w =
     (let J = ch_json h; t = ch_transport h;
          (caps, n, w) = client_capabilities J t n w
      in checked h (client_cancel J t generation (token_of caps) n w)
           (\<lambda>c n w. print_response h format (cancel_document_of c) (render_cancel c)
              (then_wait h format wait (Some generation) timeout path n w)))"

definition execute_output :: "'w control_host \<Rightarrow> output_format \<Rightarrow> output_request \<Rightarrow> nat \<Rightarrow> 'w \<Rightarrow> 'w command_run" where
  "execute_output h format q n w =
     (let J = ch_json h; t = ch_transport h;
          (caps, n, w) = client_capabilities J t n w;
          (r, n, w) = client_output J t q (token_of caps) n w
      in case r of
           Inr retrieved \<Rightarrow> print_response h format (output_document_of J retrieved) (render_output retrieved) (succeeded w)
         | Inl (ServerFailure code message data) \<Rightarrow>
             (let plain = ''output failed: '' @ message @ '' ('' @ show_int code @ '')'';
                  human = (case data of
                             Some (JObj m) \<Rightarrow> plain @ '' '' @ [CHR 0xE2, CHR 0x80, CHR 0x94] @ '' '' @ jl_compact J (JObj m)
                           | _ \<Rightarrow> plain)
              in print_response h format (server_error_document J code message data) human (failed_with plain w))
         | Inl err \<Rightarrow> failed_with (client_error_text J err) w)"

definition execute_action :: "'w control_host \<Rightarrow> control_command \<Rightarrow> string \<Rightarrow> nat \<Rightarrow> 'w \<Rightarrow> 'w command_run" where
  "execute_action h c path n w =
     (let J = ch_json h; t = ch_transport h; format = cc_format c in
      case cc_action c of
        ActStatus \<Rightarrow>
          checked h (client_status J t n w)
            (\<lambda>s n w. print_response h format (status_document J s) (render_status s) (succeeded w))
      | ActList \<Rightarrow>
          checked h (client_targets J t n w)
            (\<lambda>ts n w. print_response h format (targets_document J ts) (render_targets ts) (succeeded w))
      | ActCapabilities \<Rightarrow>
          checked h (client_capabilities J t n w)
            (\<lambda>caps n w. print_response h format (capabilities_document caps) (render_capabilities caps) (succeeded w))
      | ActConfig \<Rightarrow>
          checked h (client_config J t n w)
            (\<lambda>g n w. print_response h format (config_document_of J g) (render_config g) (succeeded w))
      | ActRun target wait timeout sequential \<Rightarrow> execute_run h format path target wait timeout sequential n w
      | ActEmit emitted wait timeout \<Rightarrow> execute_emit h format path emitted wait timeout n w
      | ActAwait after generation timeout \<Rightarrow>
          (case (after, generation) of
             (Some g, None) \<Rightarrow> finish_await h format n path (After g) timeout w
           | (None, Some g) \<Rightarrow> finish_await h format n path (Exact g) timeout w
           | _ \<Rightarrow> (None, [], w))
      | ActCancel generation wait timeout \<Rightarrow> execute_cancel h format path generation wait timeout n w
      | ActOutput q \<Rightarrow> execute_output h format q n w)"

definition execute_control :: "'w control_host \<Rightarrow> control_command \<Rightarrow> 'w \<Rightarrow> 'w command_run" where
  "execute_control h c w =
     (case resolve_socket h c of
        Inl err \<Rightarrow> failed_with err w
      | Inr path \<Rightarrow>
          (case client_connect (ch_transport h) path w of
             (Inl err, w) \<Rightarrow> failed_with (client_error_text (ch_json h) err) w
           | (Inr n, w) \<Rightarrow> execute_action h c path n w))"

section \<open>What a command sends\<close>

text \<open>
  A host that keeps a record of the requests. The world is the record and the world of the host below
  it; connecting, time limits and sleeping leave the record alone.
\<close>

definition below :: "('w \<Rightarrow> 'a \<times> 'w) \<Rightarrow> json list \<times> 'w \<Rightarrow> 'a \<times> json list \<times> 'w" where
  "below f = (\<lambda>(log, w). (case f w of (a, w) \<Rightarrow> (a, log, w)))"

definition recorded :: "'w transport \<Rightarrow> (json list \<times> 'w) transport" where
  "recorded t =
     \<lparr>tp_connect = (\<lambda>path. below (tp_connect t path)),
      tp_set_read_timeout = (\<lambda>ms. below (tp_set_read_timeout t ms)),
      tp_set_write_timeout = (\<lambda>ms. below (tp_set_write_timeout t ms)),
      tp_try_clone = below (tp_try_clone t),
      tp_exchange = (\<lambda>request (log, w). below (tp_exchange t request) (log @ [request], w))\<rparr>"

definition watched_host :: "'w control_host \<Rightarrow> (json list \<times> 'w) control_host" where
  "watched_host h =
     \<lparr>ch_yaml = ch_yaml h, ch_os = ch_os h, ch_exists = ch_exists h, ch_json = ch_json h,
      ch_transport = recorded (ch_transport h), ch_sleep = (\<lambda>(log, w). (log, ch_sleep h w))\<rparr>"

lemma watched_host_simps [simp]:
  "ch_yaml (watched_host h) = ch_yaml h" "ch_os (watched_host h) = ch_os h" "ch_exists (watched_host h) = ch_exists h"
  "ch_json (watched_host h) = ch_json h" "ch_transport (watched_host h) = recorded (ch_transport h)"
  "fst (ch_sleep (watched_host h) lw) = fst lw"
  by (simp_all add: watched_host_def split: prod.split)

text \<open>The requests that change something, and how many of them a record holds.\<close>

definition changes_something :: "json_lib \<Rightarrow> json \<Rightarrow> bool" where
  "changes_something J request \<longleftrightarrow> opt_bind as_str (jl_get J request ''method'') \<in> {Some ''run'', Some ''emit'', Some ''cancel''}"

definition change_count :: "json_lib \<Rightarrow> json list \<times> 'w \<Rightarrow> nat" where
  "change_count J lw = length (filter (changes_something J) (fst lw))"

lemma below_log: "below f lw = (a, lw') \<Longrightarrow> fst lw' = fst lw"
  by (auto simp: below_def split: prod.splits)

lemma io_step_log:
  assumes "io_step f wrap k lw = (r, lw')" and "\<And>lw a lw'. f lw = (a, lw') \<Longrightarrow> fst lw' = fst lw"
    and "\<And>lw r lw'. k lw = (r, lw') \<Longrightarrow> fst lw' = fst lw"
  shows "fst lw' = fst lw"
proof -
  obtain a v where Pair: "f lw = (a, v)" by (rule prod.exhaust)
  with assms(2) have v: "fst v = fst lw" by blast
  show ?thesis
  proof (cases a)
    case Inl
    with assms(1) Pair v show ?thesis by (auto simp: io_step_def)
  next
    case Inr
    with assms(1) Pair have "k v = (r, lw')" by (auto simp: io_step_def)
    with assms(3) v show ?thesis by metis
  qed
qed

lemma connect_log:
  assumes "client_connect (recorded t) path lw = (r, lw')"
  shows "fst lw' = fst lw"
  using assms unfolding client_connect_def connect_with_timeout_def recorded_def
  by simp (erule io_step_log, erule below_log, erule io_step_log, erule below_log, erule io_step_log, erule below_log,
      erule io_step_log, erule below_log, simp)

lemma request_log:
  assumes "json_documented J" and "client_request J (recorded t) verb params decode n lw = (r, n', lw')"
  shows "change_count J lw' = change_count J lw + (if verb \<in> {''run'', ''emit'', ''cancel''} then 1 else 0)"
proof -
  obtain log w where lw: "lw = (log, w)" by (cases lw)
  from assms(2) have "fst lw' = log @ [request_document (n + 1) verb params]"
    by (auto simp: lw client_request_def recorded_def below_def Let_def split: prod.splits)
  then show ?thesis
    using assms(1) by (auto simp: lw change_count_def changes_something_def request_get)
qed

lemma bound_log:
  assumes "with_read_bound (recorded t) b f n lw = (r, n', lw')"
    and "\<And>n lw r n' lw'. f n lw = (r, n', lw') \<Longrightarrow> change_count J lw' \<le> change_count J lw + k"
  shows "change_count J lw' \<le> change_count J lw + k"
proof -
  obtain a v where v: "tp_set_read_timeout (recorded t) b lw = (a, v)" by (rule prod.exhaust)
  then have fv: "change_count J v = change_count J lw" by (auto simp: recorded_def change_count_def dest: below_log)
  show ?thesis
  proof (cases a)
    case Inl
    with assms(1) v fv show ?thesis by (auto simp: with_read_bound_def)
  next
    case Inr
    obtain r1 n1 v1 where f: "f n v = (r1, n1, v1)" by (metis prod_cases3)
    obtain a2 v2 where s: "tp_set_read_timeout (recorded t) DEFAULT_IO_TIMEOUT_MS v1 = (a2, v2)" by (rule prod.exhaust)
    then have "change_count J v2 = change_count J v1" by (auto simp: recorded_def change_count_def dest: below_log)
    moreover have "lw' = v2" using assms(1) v Inr f s by (auto simp: with_read_bound_def)
    ultimately show ?thesis using assms(2) [OF f] fv by simp
  qed
qed

text \<open>A run of a command that sends at most so many changes, started in any world.\<close>

definition world_after :: "'w command_run \<Rightarrow> 'w" where
  "world_after r = snd (snd r)"

lemma world_after_simps [simp]:
  "world_after (failed_with m w) = w" "world_after (succeeded w) = w" "world_after (a, out, w) = w"
  "world_after (print_response h f d s r) = world_after r"
  by (simp_all add: world_after_def failed_with_def succeeded_def print_response_def split: prod.split)

lemma checked_world:
  assumes "\<And>x n lw'. r = (x, n, lw') \<Longrightarrow> change_count J lw' \<le> c"
    and "\<And>a n lw. change_count J (world_after (k a n lw)) \<le> change_count J lw + m"
  shows "change_count J (world_after (checked h r k)) \<le> c + m"
proof -
  obtain x n v where r: "r = (x, n, v)" by (rule prod_cases3)
  with assms(1) have "change_count J v \<le> c" by blast
  then have "change_count J (world_after (k b n v)) \<le> c + m" for b
    using assms(2) [of b n v] by linarith
  with \<open>change_count J v \<le> c\<close> show ?thesis by (cases x) (simp_all add: checked_def r)
qed

lemmas one_request = client_status_def client_targets_def client_run_def client_emit_def client_capabilities_def
  client_config_def client_output_def

lemma reading_log:
  assumes "json_documented J"
  shows "client_capabilities J (recorded t) n lw = (r, n', lw') \<Longrightarrow> change_count J lw' = change_count J lw"
    and "client_status J (recorded t) n lw = (r2, n', lw') \<Longrightarrow> change_count J lw' = change_count J lw"
    and "client_targets J (recorded t) n lw = (r3, n', lw') \<Longrightarrow> change_count J lw' = change_count J lw"
    and "client_config J (recorded t) n lw = (r4, n', lw') \<Longrightarrow> change_count J lw' = change_count J lw"
    and "client_output J (recorded t) q token n lw = (r5, n', lw') \<Longrightarrow> change_count J lw' = change_count J lw"
    and "client_await J (recorded t) mode bound n lw = (r6, n', lw') \<Longrightarrow> change_count J lw' \<le> change_count J lw"
proof -
  show "client_await J (recorded t) mode bound n lw = (r6, n', lw') \<Longrightarrow> change_count J lw' \<le> change_count J lw"
    unfolding client_await_def by (drule bound_log [where J = J and k = 0]) (auto dest: request_log [OF assms])
qed (auto simp: one_request dest: request_log [OF assms])

lemma changing_log:
  assumes "json_documented J"
  shows "client_run J (recorded t) target sequential n lw = (r, n', lw') \<Longrightarrow> change_count J lw' \<le> change_count J lw + 1"
    and "client_emit J (recorded t) path n lw = (r2, n', lw') \<Longrightarrow> change_count J lw' \<le> change_count J lw + 1"
    and "client_cancel J (recorded t) g token n lw = (r3, n', lw') \<Longrightarrow> change_count J lw' \<le> change_count J lw + 1"
proof -
  show "client_cancel J (recorded t) g token n lw = (r3, n', lw') \<Longrightarrow> change_count J lw' \<le> change_count J lw + 1"
    unfolding client_cancel_def by (drule bound_log [where J = J and k = 1]) (auto dest: request_log [OF assms])
qed (auto simp: one_request dest: request_log [OF assms])

lemma renegotiate_log:
  assumes "json_documented (ch_json h)"
  shows "change_count (ch_json h) (snd (renegotiate (watched_host h) path before k lw)) = change_count (ch_json h) lw"
proof (induction k arbitrary: lw)
  case (Suc k)
  let ?J = "ch_json h" and ?t = "recorded (ch_transport h)"
  obtain x v where c: "client_connect ?t path lw = (x, v)" by (rule prod.exhaust)
  then have v: "change_count ?J v = change_count ?J lw" by (auto simp: change_count_def dest: connect_log)
  have sleep: "change_count ?J (ch_sleep (watched_host h) u) = change_count ?J u" for u by (simp add: change_count_def)
  show ?case
  proof (cases x)
    case Inl
    then show ?thesis using Suc sleep v by (simp add: c)
  next
    case (Inr n)
    obtain y n' u where y: "client_capabilities ?J ?t n v = (y, n', u)" by (rule prod_cases3)
    with reading_log(1) [OF assms] have "change_count ?J u = change_count ?J v" by blast
    then show ?thesis using Suc sleep v by (cases y) (simp_all add: c Inr y)
  qed
qed simp

lemma finish_await_log:
  assumes "json_documented (ch_json h)"
  shows "change_count (ch_json h) (world_after (finish_await (watched_host h) f n path mode bound lw)) \<le> change_count (ch_json h) lw"
proof -
  let ?J = "ch_json h" and ?t = "recorded (ch_transport h)"
  obtain caps n1 v where c: "client_capabilities ?J ?t n lw = (caps, n1, v)" by (rule prod_cases3)
  obtain obs n2 u where o: "client_await ?J ?t mode bound n1 v = (obs, n2, u)" by (rule prod_cases3)
  have u: "change_count ?J u \<le> change_count ?J lw"
    using reading_log(1) [OF assms c] reading_log(6) [OF assms o] by simp
  have g: "change_count ?J (snd (renegotiate (watched_host h) path token 20 u)) \<le> change_count ?J lw" for token
    using renegotiate_log [OF assms] u by simp
  show ?thesis
  proof (cases obs)
    case (Inr x)
    then show ?thesis using u by (simp add: finish_await_def c o)
  next
    case (Inl err)
    obtain a where a: "(case token_of caps of None \<Rightarrow> (False, u) | Some token \<Rightarrow> renegotiate (watched_host h) path token 20 u) = a"
      by blast
    then have "change_count ?J (snd a) \<le> change_count ?J lw" using g u by (auto split: option.splits)
    then show ?thesis using u by (cases a) (simp add: finish_await_def c o Inl a del: renegotiate.simps)
  qed
qed

lemma then_wait_log:
  assumes "json_documented (ch_json h)"
  shows "change_count (ch_json h) (world_after (then_wait (watched_host h) f wait g timeout path n lw)) \<le> change_count (ch_json h) lw"
  using finish_await_log [OF assms] by (cases g; cases timeout) (simp_all add: then_wait_def)

lemma schedule_run_log:
  assumes J: "json_documented (ch_json h)"
  shows "change_count (ch_json h) (world_after (schedule_run (watched_host h) f path target wait timeout sequential n lw))
    \<le> (change_count (ch_json h) lw + 1) + 0"
  unfolding schedule_run_def
  by (rule checked_world) (auto simp: then_wait_log [OF J] dest: changing_log(1) [OF J])

lemma execute_run_log:
  assumes J: "json_documented (ch_json h)"
  shows "change_count (ch_json h) (world_after (execute_run (watched_host h) f path target wait timeout sequential n lw))
    \<le> change_count (ch_json h) lw + 1"
proof (cases sequential)
  case True
  then show ?thesis
    using schedule_run_log [OF J] unfolding execute_run_def
    by simp (intro checked_world [where m = 1, simplified]; auto dest: reading_log(1) [OF J])
qed (use schedule_run_log [OF J] in \<open>simp add: execute_run_def\<close>)

lemma execute_emit_log:
  assumes J: "json_documented (ch_json h)"
  shows "change_count (ch_json h) (world_after (execute_emit (watched_host h) f path emitted wait timeout n lw))
    \<le> (change_count (ch_json h) lw + 1) + 0"
  unfolding execute_emit_def
  by (rule checked_world) (auto simp: then_wait_log [OF J] dest: changing_log(2) [OF J])

lemma execute_cancel_log:
  assumes J: "json_documented (ch_json h)"
  shows "change_count (ch_json h) (world_after (execute_cancel (watched_host h) f path g wait timeout n lw))
    \<le> (change_count (ch_json h) lw + 1) + 0"
proof -
  obtain caps n1 v where c: "client_capabilities (ch_json h) (recorded (ch_transport h)) n lw = (caps, n1, v)" by (rule prod_cases3)
  have "change_count (ch_json h) v = change_count (ch_json h) lw" by (rule reading_log(1) [OF J c])
  then show ?thesis
    unfolding execute_cancel_def Let_def watched_host_simps c prod.case
    by (intro checked_world) (auto simp: then_wait_log [OF J] dest: changing_log(3) [OF J])
qed

lemma execute_output_log:
  assumes J: "json_documented (ch_json h)"
  shows "change_count (ch_json h) (world_after (execute_output (watched_host h) f q n lw)) = change_count (ch_json h) lw"
proof -
  let ?J = "ch_json h" and ?t = "recorded (ch_transport h)"
  obtain caps n1 v where c: "client_capabilities ?J ?t n lw = (caps, n1, v)" by (rule prod_cases3)
  obtain r n2 u where o: "client_output ?J ?t q (token_of caps) n1 v = (r, n2, u)" by (rule prod_cases3)
  have "change_count ?J u = change_count ?J lw" using reading_log(1) [OF J c] reading_log(5) [OF J o] by simp
  moreover have "world_after (execute_output (watched_host h) f q n lw) = u"
    by (simp add: execute_output_def c o Let_def split: sum.split client_error.split)
  ultimately show ?thesis by simp
qed

definition change_budget :: "control_action \<Rightarrow> nat" where
  "change_budget a = (case a of ActRun _ _ _ _ \<Rightarrow> 1 | ActEmit _ _ _ \<Rightarrow> 1 | ActCancel _ _ _ \<Rightarrow> 1 | _ \<Rightarrow> 0)"

lemma execute_action_log:
  assumes J: "json_documented (ch_json h)"
  shows "change_count (ch_json h) (world_after (execute_action (watched_host h) c path n lw))
    \<le> change_count (ch_json h) lw + change_budget (cc_action c)"
proof (cases "cc_action c")
  case (ActRun target wait timeout sequential)
  then show ?thesis using execute_run_log [OF J] by (simp add: execute_action_def change_budget_def)
next
  case (ActEmit emitted wait timeout)
  then show ?thesis using execute_emit_log [OF J] by (simp add: execute_action_def change_budget_def)
next
  case (ActCancel generation wait timeout)
  then show ?thesis using execute_cancel_log [OF J] by (simp add: execute_action_def change_budget_def)
next
  case (ActAwait after generation bound)
  then show ?thesis
    using finish_await_log [OF J] by (simp add: execute_action_def Let_def change_budget_def split: option.split)
next
  case (ActOutput q)
  then show ?thesis using execute_output_log [OF J] by (simp add: execute_action_def change_budget_def)
next
  case ActStatus
  then show ?thesis
    by (simp add: execute_action_def change_budget_def Let_def)
      (rule checked_world [where m = 0, simplified]; auto dest: reading_log(2) [OF J])
next
  case ActList
  then show ?thesis
    by (simp add: execute_action_def change_budget_def Let_def)
      (rule checked_world [where m = 0, simplified]; auto dest: reading_log(3) [OF J])
next
  case ActCapabilities
  then show ?thesis
    by (simp add: execute_action_def change_budget_def Let_def)
      (rule checked_world [where m = 0, simplified]; auto dest: reading_log(1) [OF J])
next
  case ActConfig
  then show ?thesis
    by (simp add: execute_action_def change_budget_def Let_def)
      (rule checked_world [where m = 0, simplified]; auto dest: reading_log(4) [OF J])
qed

text \<open>
  C35. A command acts at most once. Whatever the watcher, the network and the files do, one run of
  \<open>fzz control\<close> sends at most one request that changes something (run, emit or cancel), and none at all
  for the actions that only look: a lost connection, a timed out wait or the attempts to find a
  restarted watcher never schedule, emit or cancel a second time.
\<close>

theorem control_acts_at_most_once:
  assumes J: "json_documented (ch_json h)"
    and run: "execute_control (watched_host h) c ([], w) = (result, out, log, w')"
  shows "length (filter (changes_something (ch_json h)) log) \<le> change_budget (cc_action c)"
proof -
  let ?h = "watched_host h"
  have "change_count (ch_json h) (world_after (execute_control ?h c ([], w))) \<le> change_budget (cc_action c)"
  proof (cases "resolve_socket ?h c")
    case (Inr path)
    obtain x v where x: "client_connect (recorded (ch_transport h)) path ([], w) = (x, v)" by (rule prod.exhaust)
    then have "change_count (ch_json h) v = 0" by (auto simp: change_count_def dest: connect_log)
    then show ?thesis
      using execute_action_log [OF J, of c path _ v] by (cases x) (simp_all add: execute_control_def Inr x)
  qed (simp add: execute_control_def change_count_def)
  then show ?thesis by (simp add: run change_count_def)
qed

text \<open>A host whose watcher answers every request with one line.\<close>

definition one_line_host :: "json \<Rightarrow> unit control_host" where
  "one_line_host resp =
     \<lparr>ch_yaml = \<lparr>yl_load = (\<lambda>_. Inr []), yl_index = (\<lambda>_ _. YBadValue), yl_as_str = (\<lambda>_. None), yl_debug = (\<lambda>_. [])\<rparr>,
      ch_os = \<lparr>co_open = (\<lambda>_. Inr (Inr [])), co_current_dir = Inr [], co_is_dir = (\<lambda>_. False), co_canonicalize = Inr\<rparr>,
      ch_exists = (\<lambda>_. True), ch_json = one_line_json resp,
      ch_transport =
        \<lparr>tp_connect = (\<lambda>_ w. (Inr (), w)), tp_set_read_timeout = (\<lambda>_ w. (Inr (), w)),
         tp_set_write_timeout = (\<lambda>_ w. (Inr (), w)), tp_try_clone = (\<lambda>w. (Inr (), w)),
         tp_exchange = (\<lambda>_ w. (\<lparr>ci_write = Inr (), ci_flush = Inr (), ci_read = Inr ''x''\<rparr>, w))\<rparr>,
      ch_sleep = id\<rparr>"

definition demo_run_command :: control_command where
  "demo_run_command = command_new (ActRun ''build'' True (Some 500) False) (Some ''/tmp/fzz.sock'') None None"

theorem control_acts_at_most_once_witness:
  "length (filter (changes_something (one_line_json JNull))
     (fst (snd (snd (execute_control (watched_host (one_line_host JNull)) demo_run_command ([], ())))))) \<le> 1"
proof -
  obtain result out log w' where r: "execute_control (watched_host (one_line_host JNull)) demo_run_command ([], ()) = (result, out, log, w')"
    by (rule prod_cases4)
  have "json_documented (ch_json (one_line_host JNull))" by (simp add: one_line_host_def one_line_documented)
  note main = control_acts_at_most_once [OF this r]
  have "change_budget (cc_action demo_run_command) = 1" "ch_json (one_line_host JNull) = one_line_json JNull"
    by (simp_all add: change_budget_def demo_run_command_def command_new_def with_format_def one_line_host_def)
  with main show ?thesis by (simp add: r)
qed

section \<open>What a wait reports\<close>

text \<open>
  The exit code of a wait tells what the watcher observed. When the watcher answers the wait with the
  coordinator's result, the command succeeds exactly if that result is a passed or a cancelled
  generation, and otherwise fails with the reason; nothing that went wrong on the way is reported as a
  success.
\<close>

theorem wait_succeeds_iff_observed:
  fixes h :: "'w control_host"
  assumes J: "json_documented (ch_json h)" and r: "wire_await r"
    and caps: "client_capabilities (ch_json h) (ch_transport h) n w = (caps, n1, w1)"
    and bound: "tp_set_read_timeout (ch_transport h) (await_read_bound timeout_ms) w1 = (Inr (), w2)"
    and sent: "tp_exchange (ch_transport h)
        (request_document (n1 + 1) ''await'' (client_await_params mode (unat timeout_ms))) w2 = (io, w3)"
      "ci_write io = Inr ()" "ci_flush io = Inr ()" "ci_read io = Inr line" "line \<noteq> []"
    and answered: "jl_parse (ch_json h) line = Inr (rpc_answer (jnat (n1 + 1)) (Inr (json_await_result r)))"
  shows "fst (finish_await h format n path mode timeout_ms w) =
    (if ar_terminal_reason r \<in> {TR_Passed, TR_Cancelled} then Some (Inr ())
     else Some (Inl (GenericError (''await: generation '' @ show_nat (ws_generation (ar_snapshot r)) @ '' ''
                     @ json_text (json_terminal_reason (ar_terminal_reason r))))))"
proof -
  have "fst (client_await (ch_json h) (ch_transport h) mode timeout_ms n1 w1) = Inr (await_of r)"
    using bound sent read_response_answer [OF J answered] await_round_trip_main [OF J r]
    by (simp add: client_await_def with_read_bound_def client_request_def client_call_def malformed_def Let_def
        split: prod.split)
  then obtain n2 w4 where a: "client_await (ch_json h) (ch_transport h) mode timeout_ms n1 w1 = (Inr (await_of r), n2, w4)"
    by (metis fst_conv prod_cases3)
  have "an_terminal_reason (await_of r) \<in> {''passed'', ''cancelled''} \<longleftrightarrow> ar_terminal_reason r \<in> {TR_Passed, TR_Cancelled}"
    by (cases "ar_terminal_reason r") (simp_all add: await_of_def json_text_def)
  then show ?thesis
    by (simp add: finish_await_def Let_def caps a print_response_def succeeded_def failed_with_def)
      (simp add: await_of_def status_of_def)
qed

theorem wait_succeeds_iff_observed_witness:
  "fst (finish_await (one_line_host (rpc_answer (jnat 2) (Inr (json_await_result demo_await)))) Json 0 ''s'' (Exact 1) 500 ()) =
   Some (Inr ())"
proof -
  let ?resp = "rpc_answer (jnat 2) (Inr (json_await_result demo_await))"
  let ?h = "one_line_host ?resp"
  have J: "json_documented (ch_json ?h)" by (simp add: one_line_host_def one_line_documented)
  obtain caps n1 w1 where c: "client_capabilities (ch_json ?h) (ch_transport ?h) 0 () = (caps, n1, w1)" by (rule prod_cases3)
  then have n1: "n1 = 1"
    by (simp add: client_capabilities_def client_request_def client_call_def one_line_host_def Let_def)
  have t: "tp_set_read_timeout (ch_transport ?h) b w = (Inr (), ())"
    "tp_exchange (ch_transport ?h) q w = (\<lparr>ci_write = Inr (), ci_flush = Inr (), ci_read = Inr ''x''\<rparr>, ())" for b q w
    by (simp_all add: one_line_host_def)
  have p: "jl_parse (ch_json ?h) ''x'' = Inr (rpc_answer (jnat (n1 + 1)) (Inr (json_await_result demo_await)))"
    using n1 by (simp add: one_line_host_def one_line_json_def numeral_2_eq_2)
  have "ar_terminal_reason demo_await = TR_Passed" by (simp add: demo_await_def build_result_def)
  then show ?thesis
    using wait_succeeds_iff_observed [OF J demo_await_wire c t(1) t(2) _ _ _ _ p, of Json "''s''"] by simp
qed

end
