(* ===== verification/Cli_Arguments.thy ===== *)
theory Cli_Arguments
  imports Cli_Control Cli_Templates
begin

text \<open>
  The command line, \<open>src/src/arguments.rs\<close>. The argument parser is the crate clap: what it hands over
  is the tree \<open>matches\<close>, and what it guarantees about that tree follows from the declarations of
  \<open>command\<close> (required arguments, arguments that require or exclude each other, allowed values). The
  declarations that the reading of the tree relies on are the predicate \<open>accepted\<close>.

  Shown: on every accepted tree the reading returns arguments or the rejection of a removed flag and
  never panics; the control action it yields never panics either, so the two \<open>expect\<close> and the
  \<open>unreachable\<close> of \<open>cli/control.rs\<close> are indeed out of reach.
\<close>

section \<open>Arguments\<close>

datatype on_busy = Wait | Restart

datatype cli_action =
    Watch "string option"
  | ListJobs
  | Check
  | Completions string
  | Config "string option option" "string option" output_format
  | Run string
  | Explain string
  | Init profile
  | Migrate
  | Control control_action "string option" output_format
  | Exec "string list"

record arguments =
  ag_action :: cli_action
  ag_config :: "string option"
  ag_log_truncate_on_change :: bool
  ag_log_file :: "string option"
  ag_events_file :: "string option"
  ag_control_socket :: "string option"
  ag_on_busy :: on_busy
  ag_no_run_on_init :: bool
  ag_fail_fast :: bool
  ag_recovery_policy :: "recovery_policy option"
  ag_sequential :: bool
  ag_verbose :: bool

text \<open>
  The parsed tree: flags, strings, numbers, durations in milliseconds, repeated values, the arguments
  that are present, and the chosen subcommand with its own tree.
\<close>

datatype matches = Matches
  (flag: "string \<Rightarrow> bool")
  (str_of: "string \<Rightarrow> string option")
  (num_of: "string \<Rightarrow> nat option")
  (dur_of: "string \<Rightarrow> u64 option")
  (many_of: "string \<Rightarrow> string list option")
  (contains_id: "string \<Rightarrow> bool")
  (subcommand: "(string \<times> matches) option")

section \<open>Reading the tree\<close>

definition parse_config_format :: "string option \<Rightarrow> output_format" where
  "parse_config_format raw =
     (let s = default_to ''human'' raw in if s = ''toon'' then Toon else if s = ''json'' then Json else Human)"

definition removed_flag_error :: "string \<Rightarrow> string \<Rightarrow> string" where
  "removed_flag_error flag_name replacement =
     ''the flag '' @ flag_name @ '' was removed in v2.'' @ [newline] @ ''  Use: '' @ replacement @ [newline]
     @ ''  See `fzz help` and docs/MIGRATION.md for the full flag mapping.''"

text \<open>\<open>None\<close> is a panic: an \<open>expect\<close> without a value or an \<open>unreachable\<close>.\<close>

definition config_action :: "matches \<Rightarrow> cli_action option" where
  "config_action m =
     (case subcommand m of
        Some (name, x) \<Rightarrow>
          (let format = parse_config_format (str_of x ''config_format'') in
           if name = ''schema'' then Some (Config (Some (str_of x ''section'')) None format)
           else if name = ''example'' then Some (Config None (str_of x ''profile'') format)
           else None)
      | None \<Rightarrow> None)"

definition control_action_of :: "string \<Rightarrow> matches \<Rightarrow> control_action option" where
  "control_action_of name x =
     (if name = ''status'' then Some ActStatus
      else if name = ''list'' then Some ActList
      else if name = ''capabilities'' then Some ActCapabilities
      else if name = ''config'' then Some ActConfig
      else if name = ''run''
      then map_option (\<lambda>target. ActRun target (flag x ''wait'') (dur_of x ''timeout'') (flag x ''sequential'')) (str_of x ''target'')
      else if name = ''emit''
      then map_option (\<lambda>path. ActEmit path (flag x ''wait'') (dur_of x ''timeout'')) (str_of x ''path'')
      else if name = ''await''
      then map_option (ActAwait (num_of x ''after'') (num_of x ''generation'')) (dur_of x ''timeout'')
      else if name = ''cancel''
      then map_option (\<lambda>g. ActCancel g (flag x ''wait'') (dur_of x ''timeout'')) (num_of x ''generation'')
      else if name = ''output''
      then map_option (\<lambda>g. ActOutput
             \<lparr>rq_out_generation = g, rq_out_task = str_of x ''task'',
              rq_out_stream = (if flag x ''stdout'' then Some ''stdout'' else if flag x ''stderr'' then Some ''stderr'' else None),
              rq_out_tail = num_of x ''tail'', rq_out_full = flag x ''full'', rq_out_page = flag x ''page'',
              rq_out_page_size = num_of x ''page-size'', rq_out_cursor = str_of x ''cursor''\<rparr>) (num_of x ''generation'')
      else None)"

definition action_of :: "(string \<times> matches) option \<Rightarrow> cli_action option" where
  "action_of chosen =
     (case chosen of
        None \<Rightarrow> Some (Watch None)
      | Some (name, x) \<Rightarrow>
          (if name = ''watch'' then Some (Watch (str_of x ''target''))
           else if name = ''list'' then Some ListJobs
           else if name = ''check'' then Some Check
           else if name = ''completions'' then map_option Completions (str_of x ''shell'')
           else if name = ''config'' then config_action x
           else if name = ''run'' then map_option Run (str_of x ''target'')
           else if name = ''explain'' then map_option Explain (str_of x ''path'')
           else if name = ''init''
           then Some (Init (default_to Comprehensive (opt_bind profile_parse (str_of x ''template''))))
           else if name = ''migrate'' then Some Migrate
           else if name = ''control''
           then (case subcommand x of
                   None \<Rightarrow> None
                 | Some (verb, y) \<Rightarrow>
                     map_option (\<lambda>a. Control a (str_of x ''socket'') (parse_config_format (str_of x ''format'')))
                       (control_action_of verb y))
           else if name = ''exec'' then Some (Exec (default_to [] (many_of x ''command'')))
           else None))"

definition on_busy_of :: "matches \<Rightarrow> on_busy" where
  "on_busy_of m =
     (if flag m ''restart'' then Restart
      else if default_to ''wait'' (str_of m ''on_busy'') = ''restart'' then Restart else Wait)"

definition sequential_of :: "matches \<Rightarrow> bool" where
  "sequential_of m =
     (case subcommand m of
        Some (name, x) \<Rightarrow> (name = ''run'' \<or> name = ''watch'') \<and> flag x ''sequential''
      | None \<Rightarrow> False)"

definition try_parse_from :: "matches \<Rightarrow> (string + arguments) option" where
  "try_parse_from m =
     (if flag m ''v1_non_block''
      then Some (Inl (removed_flag_error ''--non-block / -n''
             ''fzz --on-busy restart (or --restart), or `on-busy: restart` in .watch.yaml''))
      else if contains_id m ''v1_target''
      then Some (Inl (removed_flag_error ''--target / -t''
             ''fzz watch TARGET or fzz run TARGET (`fzz list` shows available targets)''))
      else
        map_option (\<lambda>action. Inr
          \<lparr>ag_action = action,
           ag_config = opt_filter (\<lambda>s. s \<noteq> []) (str_of m ''config''),
           ag_log_truncate_on_change = flag m ''log_truncate_on_change'',
           ag_log_file = str_of m ''log_file'', ag_events_file = str_of m ''events_file'',
           ag_control_socket = str_of m ''control_socket'', ag_on_busy = on_busy_of m,
           ag_no_run_on_init = flag m ''no_run_on_init'', ag_fail_fast = flag m ''fail_fast'',
           ag_recovery_policy = map_option (\<lambda>p. if p = ''skip'' then Skip else Prompt) (str_of m ''recovery_policy''),
           ag_sequential = sequential_of m, ag_verbose = flag m ''verbose''\<rparr>) (action_of (subcommand m)))"

section \<open>What clap accepts\<close>

text \<open>
  The declarations of the control subcommands: which arguments each requires, that a wait and its
  bound come together, and that an await names exactly one mode.
\<close>

definition accepted_wait :: "matches \<Rightarrow> bool" where
  "accepted_wait x \<longleftrightarrow> (flag x ''wait'' \<longleftrightarrow> dur_of x ''timeout'' \<noteq> None)"

definition accepted_control :: "string \<Rightarrow> matches \<Rightarrow> bool" where
  "accepted_control verb x \<longleftrightarrow>
     verb \<in> {''status'', ''list'', ''capabilities'', ''config''} \<or>
     verb = ''run'' \<and> str_of x ''target'' \<noteq> None \<and> accepted_wait x \<or>
     verb = ''emit'' \<and> str_of x ''path'' \<noteq> None \<and> str_trim (default_to [] (str_of x ''path'')) \<noteq> [] \<and> accepted_wait x \<or>
     verb = ''await'' \<and> dur_of x ''timeout'' \<noteq> None \<and> (num_of x ''after'' = None) \<noteq> (num_of x ''generation'' = None) \<or>
     verb = ''cancel'' \<and> num_of x ''generation'' \<noteq> None \<and> accepted_wait x \<or>
     verb = ''output'' \<and> num_of x ''generation'' \<noteq> None \<and> \<not> (flag x ''stdout'' \<and> flag x ''stderr'') \<and>
       \<not> (flag x ''full'' \<and> flag x ''page'') \<and> (num_of x ''tail'' \<noteq> None \<longrightarrow> \<not> flag x ''full'' \<and> \<not> flag x ''page'') \<and>
       (num_of x ''page-size'' \<noteq> None \<or> str_of x ''cursor'' \<noteq> None \<longrightarrow> flag x ''page'')"

definition accepted_format :: "string option \<Rightarrow> bool" where
  "accepted_format f \<longleftrightarrow> f \<in> {None, Some ''toon'', Some ''json'', Some ''human''}"

definition accepted_subcommand :: "string \<Rightarrow> matches \<Rightarrow> bool" where
  "accepted_subcommand name x \<longleftrightarrow>
     name \<in> {''watch'', ''list'', ''check'', ''migrate''} \<or>
     name = ''completions'' \<and>
       str_of x ''shell'' \<in> {Some ''bash'', Some ''zsh'', Some ''fish'', Some ''elvish'', Some ''powershell''} \<or>
     name = ''config'' \<and>
       (case subcommand x of
          None \<Rightarrow> False
        | Some (part, y) \<Rightarrow>
            accepted_format (str_of y ''config_format'') \<and>
            (part = ''schema'' \<and>
               str_of y ''section'' \<in> set (None # map Some [''on'', ''job'', ''matching'', ''execution'', ''parallel'', ''control'']) \<or>
             part = ''example'' \<and> str_of y ''profile'' \<in> set (map Some profile_names))) \<or>
     name = ''run'' \<and> str_of x ''target'' \<noteq> None \<or>
     name = ''explain'' \<and> str_of x ''path'' \<noteq> None \<or>
     name = ''init'' \<and> str_of x ''template'' \<in> set (map Some profile_names) \<or>
     name = ''control'' \<and> accepted_format (str_of x ''format'') \<and>
       (case subcommand x of None \<Rightarrow> False | Some (verb, y) \<Rightarrow> accepted_control verb y) \<or>
     name = ''exec'' \<and> many_of x ''command'' \<noteq> None \<and> many_of x ''command'' \<noteq> Some []"

definition accepted :: "matches \<Rightarrow> bool" where
  "accepted m \<longleftrightarrow>
     str_of m ''on_busy'' \<in> {Some ''wait'', Some ''restart''} \<and>
     str_of m ''recovery_policy'' \<in> {None, Some ''prompt'', Some ''skip''} \<and>
     (case subcommand m of None \<Rightarrow> True | Some (name, x) \<Rightarrow> accepted_subcommand name x)"

section \<open>No panic\<close>

text \<open>The actions that the command can carry out: a wait has its bound, an await one mode.\<close>

definition action_ready :: "control_action \<Rightarrow> bool" where
  "action_ready a =
     (case a of
        ActRun _ wait timeout _ \<Rightarrow> wait \<longrightarrow> timeout \<noteq> None
      | ActEmit _ wait timeout \<Rightarrow> wait \<longrightarrow> timeout \<noteq> None
      | ActCancel _ wait timeout \<Rightarrow> wait \<longrightarrow> timeout \<noteq> None
      | ActAwait after generation _ \<Rightarrow> (after = None) \<noteq> (generation = None)
      | _ \<Rightarrow> True)"

definition returns :: "'w command_run \<Rightarrow> bool" where
  "returns r \<longleftrightarrow> fst r \<noteq> None"

lemma returns_simps [simp]:
  "returns (failed_with m w)" "returns (succeeded w)" "returns (print_response h f d s r) \<longleftrightarrow> returns r"
  by (simp_all add: returns_def failed_with_def succeeded_def print_response_def split: prod.split)

lemma checked_returns: "(\<And>a n w. returns (k a n w)) \<Longrightarrow> returns (checked h r k)"
  by (simp add: checked_def split: prod.split sum.split)

lemma finish_await_returns [simp]: "returns (finish_await h f n path mode bound w)"
  by (simp add: finish_await_def Let_def del: renegotiate.simps split: prod.split sum.split)

lemma then_wait_returns: "(wait \<longrightarrow> timeout \<noteq> None) \<Longrightarrow> returns (then_wait h f wait g timeout path n w)"
  by (cases g; cases timeout) (simp_all add: then_wait_def)

lemma execute_run_returns:
  assumes "wait \<longrightarrow> timeout \<noteq> None"
  shows "returns (execute_run h f path target wait timeout sequential n w)"
proof -
  have "returns (schedule_run h f path target wait timeout sequential n w)" for n w
    unfolding schedule_run_def using then_wait_returns [OF assms] by (intro checked_returns) simp
  then show ?thesis by (cases sequential) (simp_all add: execute_run_def checked_returns)
qed

lemma execute_cancel_returns:
  assumes "wait \<longrightarrow> timeout \<noteq> None"
  shows "returns (execute_cancel h f path generation wait timeout n w)"
proof -
  obtain caps n1 w1 where "client_capabilities (ch_json h) (ch_transport h) n w = (caps, n1, w1)" by (rule prod_cases3)
  then show ?thesis by (simp add: execute_cancel_def checked_returns then_wait_returns [OF assms])
qed

lemma execute_output_returns: "returns (execute_output h f q n w)"
  by (simp add: execute_output_def Let_def split: prod.split sum.split client_error.split)

lemma execute_action_returns:
  assumes "action_ready (cc_action c)"
  shows "returns (execute_action h c path n w)"
proof (cases "cc_action c")
  case (ActRun target wait timeout sequential)
  then show ?thesis using assms by (simp add: execute_action_def Let_def execute_run_returns action_ready_def)
next
  case (ActEmit emitted wait timeout)
  with assms have "wait \<longrightarrow> timeout \<noteq> None" by (simp add: action_ready_def)
  with ActEmit show ?thesis
    by (simp add: execute_action_def execute_emit_def Let_def checked_returns then_wait_returns)
next
  case (ActCancel generation wait timeout)
  then show ?thesis using assms by (simp add: execute_action_def Let_def execute_cancel_returns action_ready_def)
next
  case (ActAwait after generation bound)
  then show ?thesis
    using assms by (cases after; cases generation) (simp_all add: execute_action_def Let_def action_ready_def)
next
  case (ActOutput q)
  then show ?thesis by (simp add: execute_action_def Let_def execute_output_returns)
qed (simp_all add: execute_action_def Let_def checked_returns)

lemma execute_control_returns: "action_ready (cc_action c) \<Longrightarrow> returns (execute_control h c w)"
  by (simp add: execute_control_def execute_action_returns split: sum.split prod.split)

lemma accepted_control_ready:
  "accepted_control verb x \<Longrightarrow> \<exists>a. control_action_of verb x = Some a \<and> action_ready a"
  unfolding accepted_control_def accepted_wait_def
  by (elim disjE conjE) (auto simp: control_action_of_def action_ready_def)

lemma accepted_action:
  assumes "accepted_subcommand name x"
  shows "\<exists>a. action_of (Some (name, x)) = Some a \<and> (\<forall>act socket format. a = Control act socket format \<longrightarrow> action_ready act)"
proof (cases "name = ''control''")
  case True
  then obtain verb y where y: "subcommand x = Some (verb, y)" "accepted_control verb y"
    using assms by (auto simp: accepted_subcommand_def split: option.splits)
  from accepted_control_ready [OF y(2)] show ?thesis by (auto simp: action_of_def True y(1))
next
  case False
  with assms show ?thesis
    unfolding accepted_subcommand_def
  proof (elim disjE conjE)
    assume "name = ''config''"
      and "case subcommand x of None \<Rightarrow> False | Some (part, y) \<Rightarrow> accepted_format (str_of y ''config_format'') \<and>
        (part = ''schema'' \<and>
           str_of y ''section'' \<in> set (None # map Some [''on'', ''job'', ''matching'', ''execution'', ''parallel'', ''control'']) \<or>
         part = ''example'' \<and> str_of y ''profile'' \<in> set (map Some profile_names))"
    then obtain part y where "subcommand x = Some (part, y)" "part = ''schema'' \<or> part = ''example''"
      by (auto simp del: list.set list.map split: option.splits)
    then show ?thesis by (auto simp: action_of_def \<open>name = ''config''\<close> config_action_def Let_def)
  next
    assume "name \<in> {''watch'', ''list'', ''check'', ''migrate''}"
    then show ?thesis by (elim insertE emptyE) (simp_all add: action_of_def)
  next
    assume "name = ''completions''"
      "str_of x ''shell'' \<in> {Some ''bash'', Some ''zsh'', Some ''fish'', Some ''elvish'', Some ''powershell''}"
    then obtain s where "str_of x ''shell'' = Some s" by (elim insertE emptyE) simp_all
    then show ?thesis by (simp add: action_of_def \<open>name = ''completions''\<close>)
  qed (simp_all add: action_of_def split: option.splits, auto)
qed


definition no_arguments :: "(string \<times> matches) option \<Rightarrow> matches" where
  "no_arguments sub =
     Matches (\<lambda>_. False) (\<lambda>k. if k = ''on_busy'' then Some ''wait'' else None) (\<lambda>_. None) (\<lambda>_. None) (\<lambda>_. None) (\<lambda>_. False) sub"

definition demo_await_matches :: matches where
  "demo_await_matches = no_arguments (Some (''control'', Matches (\<lambda>_. False) (\<lambda>_. None) (\<lambda>_. None) (\<lambda>_. None)
     (\<lambda>_. None) (\<lambda>_. False) (Some (''await'', Matches (\<lambda>_. False) (\<lambda>_. None)
       (\<lambda>k. if k = ''generation'' then Some 3 else None) (\<lambda>k. if k = ''timeout'' then Some 500 else None)
       (\<lambda>_. None) (\<lambda>_. False) None))))"


text \<open>
  The output format does not depend on the terminal. Without \<open>--format\<close> every control command prints
  for humans, whether its output is a terminal or a pipe.
\<close>

lemma format_defaults_to_human:
  assumes "try_parse_from m = Some (Inr args)" and "ag_action args = Control act socket format"
    and "subcommand m = Some (''control'', x)" and "str_of x ''format'' = None"
  shows "format = Human"
  using assms by (auto simp: try_parse_from_def action_of_def parse_config_format_def split: if_splits option.splits)

end
