(* ===== verification/App_Startup.thy ===== *)
theory App_Startup
  imports Reload_Properties Cli_Arguments Shutdown_Model
begin

text \<open>
  The start of the program, \<open>src/src/app.rs\<close>: which file each setting is read from, the configuration a
  watcher starts with and its first revision, the actions that end at once (\<open>check\<close>, \<open>list\<close>,
  \<open>explain\<close>), the choice between the two watch modes and the reading of standard input.

  A step of the start answers a value, a failure (the heading and the text that are printed before the
  process ends with an error) or, as \<open>None\<close>, a panic. The files do not change during the start.

  Shown: a watcher that was started without overriding flags regards a save that changes only the
  format as no change at all; a socket given by \<open>--control-socket\<close> is lost on the first save of an
  unchanged file; which failures of the start a successful \<open>fzz check\<close> excludes; that the first signal
  decides the exit code; and that \<open>exec\<close> keeps its argument vector.
\<close>

section \<open>Settings and their files\<close>

record app_env =
  ap_lib :: reload_lib
  ap_os :: config_os
  ap_exists :: "string \<Rightarrow> bool"
  ap_parallelism :: nat
  ap_variable :: "string \<Rightarrow> string option"
  ap_root :: string
  ap_duration_debug :: "duration \<Rightarrow> string"

type_synonym 'a start = "((string \<times> string) + 'a) option"

definition start_then :: "'a start \<Rightarrow> ('a \<Rightarrow> 'b start) \<Rightarrow> 'b start" where
  "start_then s f = (case s of None \<Rightarrow> None | Some (Inl failure) \<Rightarrow> Some (Inl failure) | Some (Inr a) \<Rightarrow> f a)"

definition or_failure :: "string \<Rightarrow> 'a result \<Rightarrow> 'a start" where
  "or_failure heading r = Some (map_sum (Pair heading) id r)"

definition or_panic :: "'a option \<Rightarrow> 'a start" where
  "or_panic x = map_option Inr x"

definition is_enabled :: "app_env \<Rightarrow> string \<Rightarrow> bool" where
  "is_enabled e name = (let v = default_to ''0'' (ap_variable e name) in v = ''1'' \<or> v = ''true'')"

definition ap_yaml :: "app_env \<Rightarrow> yaml_lib" where
  "ap_yaml e = lb_yaml (ap_lib e)"

definition shown_error :: "app_env \<Rightarrow> 'a fzz_result \<Rightarrow> 'a result" where
  "shown_error e r = map_sum (error_text (lb_colored (ap_lib e))) id r"

definition load_rules :: "app_env \<Rightarrow> string option \<Rightarrow> rules list start" where
  "load_rules e config =
     (case config of
        None \<Rightarrow> start_then (or_panic (from_default_file_config (ap_yaml e) (ap_os e)))
                  (\<lambda>r. or_failure ''Failed to read default config file'' (shown_error e r))
      | Some file \<Rightarrow> start_then (or_panic (from_file (ap_yaml e) (ap_os e) file))
                  (\<lambda>r. or_failure ''Failed to read config file'' (shown_error e r)))"

text \<open>The file of every single setting: the named one, or the first default file that exists.\<close>

definition policy_path :: "app_env \<Rightarrow> string option \<Rightarrow> string option" where
  "policy_path e config =
     (case config of
        Some path \<Rightarrow> Some path
      | None \<Rightarrow>
          if ap_exists e DEFAULT_FILENAME then Some DEFAULT_FILENAME
          else let yml = str_replace ''.yaml'' ''.yml'' DEFAULT_FILENAME in
               if ap_exists e yml then Some yml else None)"

definition load_policy :: "app_env \<Rightarrow> string \<Rightarrow> (string \<Rightarrow> 'a result) \<Rightarrow> 'a \<Rightarrow> string option \<Rightarrow> 'a start" where
  "load_policy e heading read dflt config =
     (case policy_path e config of None \<Rightarrow> Some (Inr dflt) | Some path \<Rightarrow> or_failure heading (read path))"

definition load_debounce :: "app_env \<Rightarrow> string option \<Rightarrow> duration start" where
  "load_debounce e = load_policy e ''Invalid debounce config''
     (\<lambda>path. map_sum id (default_to (millis 1000)) (debounce_from_file (ap_yaml e) (ap_os e) path)) (millis 1000)"

definition load_watch_backend :: "app_env \<Rightarrow> string option \<Rightarrow> watch_backend start" where
  "load_watch_backend e = load_policy e ''Invalid watch backend config''
     (\<lambda>path. map_sum id (default_to Auto) (watch_backend_from_file (ap_yaml e) (ap_os e) path)) Auto"

definition load_hooks :: "app_env \<Rightarrow> string option \<Rightarrow> generation_hooks start" where
  "load_hooks e = load_policy e ''Invalid hooks config''
     (generation_hooks_from_file (ap_yaml e) (ap_os e)) \<lparr>hook_success = None, hook_failure = None\<rparr>"

definition load_session_hooks :: "app_env \<Rightarrow> string option \<Rightarrow> session_hooks start" where
  "load_session_hooks e = load_policy e ''Invalid session hooks config''
     (session_hooks_from_file (ap_yaml e) (ap_os e)) \<lparr>hook_close = None\<rparr>"

definition load_respect_gitignore :: "app_env \<Rightarrow> string option \<Rightarrow> bool start" where
  "load_respect_gitignore e = load_policy e ''Invalid gitignore config''
     (respect_gitignore_from_file (ap_yaml e) (ap_os e)) False"

definition load_recovery_policy :: "app_env \<Rightarrow> string option \<Rightarrow> recovery_policy start" where
  "load_recovery_policy e = load_policy e ''Invalid recovery policy config''
     (recovery_policy_from_file (ap_yaml e) (ap_os e)) Prompt"

definition load_concurrency :: "app_env \<Rightarrow> string option \<Rightarrow> nat start" where
  "load_concurrency e = load_policy e ''Invalid concurrency config''
     (\<lambda>path. map_sum id (default_to (ap_parallelism e)) (concurrency_from_file (ap_yaml e) (ap_os e) path))
     (ap_parallelism e)"

definition effective_concurrency :: "app_env \<Rightarrow> arguments \<Rightarrow> nat start" where
  "effective_concurrency e args = (if ag_sequential args then Some (Inr 1) else load_concurrency e (ag_config args))"

definition effective_recovery_policy :: "app_env \<Rightarrow> arguments \<Rightarrow> recovery_policy start" where
  "effective_recovery_policy e args =
     (case ag_recovery_policy args of Some p \<Rightarrow> Some (Inr p) | None \<Rightarrow> load_recovery_policy e (ag_config args))"

definition possible_config_paths :: "string option \<Rightarrow> string \<Rightarrow> string list" where
  "possible_config_paths config root =
     (case config of
        None \<Rightarrow> [path_join root DEFAULT_FILENAME, path_join root (str_replace ''yaml'' ''yml'' DEFAULT_FILENAME)]
      | Some file \<Rightarrow> [file])"

definition config_control_socket :: "app_env \<Rightarrow> string option \<Rightarrow> string \<Rightarrow> string option start" where
  "config_control_socket e config root =
     (case List.find (ap_exists e) (possible_config_paths config root) of
        None \<Rightarrow> Some (Inr None)
      | Some path \<Rightarrow> or_failure ''Invalid control socket config'' (control_socket_from_file (ap_yaml e) (ap_os e) path))"

definition selected_socket :: "app_env \<Rightarrow> arguments \<Rightarrow> string option start" where
  "selected_socket e args =
     (case ag_control_socket args of
        Some socket \<Rightarrow> Some (Inr (Some socket))
      | None \<Rightarrow> config_control_socket e (ag_config args) (ap_root e))"

section \<open>Starting a watcher\<close>

definition start_config :: "app_env \<Rightarrow> arguments \<Rightarrow> (runtime_config \<times> watches) start" where
  "start_config e args =
     (let config = ag_config args; env = lb_env (ap_lib e) in
      start_then (load_rules e config) (\<lambda>rs.
      start_then (effective_concurrency e args) (\<lambda>concurrency.
      start_then (load_debounce e config) (\<lambda>debounce.
      start_then (load_watch_backend e config) (\<lambda>backend.
      start_then (or_failure ''Invalid config file.'' (validate_rules (we_glob env) rs)) (\<lambda>_.
      start_then (or_panic (with_root_and_concurrency rs (ap_root e) concurrency)) (\<lambda>wt.
      start_then (load_respect_gitignore e config) (\<lambda>respect.
      start_then (effective_recovery_policy e args) (\<lambda>policy.
      start_then (load_hooks e config) (\<lambda>hooks.
      start_then (load_session_hooks e config) (\<lambda>session.
      start_then (selected_socket e args) (\<lambda>socket.
      Some (Inr (capture (ap_root e) rs concurrency debounce backend respect policy hooks session socket,
                 with_session_hooks session (watches_with_hooks hooks (watches_with_recovery_policy policy
                   (with_gitignore env respect (with_backend backend (with_debounce debounce wt)))))))))))))))))))"

text \<open>The first revision is the one a new tracker gives to the captured configuration.\<close>

definition start_watches :: "app_env \<Rightarrow> arguments \<Rightarrow> watches start" where
  "start_watches e args =
     start_then (start_config e args) (\<lambda>(runtime, wt).
       Some (Inr (case tracker_observe (lb_hash (ap_lib e)) tracker_new runtime of
                    (New revision, _) \<Rightarrow> watches_with_revision revision wt
                  | (RevNoOp, _) \<Rightarrow> wt)))"

definition watch_action :: "app_env \<Rightarrow> arguments \<Rightarrow> string option \<Rightarrow> watches start" where
  "watch_action e args wanted =
     start_then (start_watches e args) (\<lambda>wt.
       case wanted of
         None \<Rightarrow> Some (Inr wt)
       | Some target \<Rightarrow>
           (case select_target target wt of
              Some selected \<Rightarrow> Some (Inr selected)
            | None \<Rightarrow> Some (Inl (''No target found for '' @ quoted target, available_targets (wt_rules wt)))))"

text \<open>What the watch command derives from the arguments and hands to the reload session.\<close>

record watch_session =
  se_config_paths :: "string list"
  se_socket :: "string option"
  se_non_block :: bool
  se_fail_fast :: bool
  se_run_on_init :: bool
  se_settings :: reload_settings
  se_tracker :: revision_tracker
  se_cleanup :: "string list"

definition defaults_of :: "watches \<Rightarrow> duration \<Rightarrow> policy_defaults" where
  "defaults_of wt debounce =
     \<lparr>pd_concurrency = wt_concurrency wt, pd_debounce = debounce, pd_backend = wt_backend wt,
      pd_gitignore = wt_respect_gitignore wt, pd_recovery_policy = wt_recovery_policy wt,
      pd_hooks = wt_hooks wt, pd_session_hooks = wt_session_hooks wt\<rparr>"

definition watch_session :: "app_env \<Rightarrow> arguments \<Rightarrow> watches \<Rightarrow> watch_session start" where
  "watch_session e args wt =
     start_then (load_debounce e (ag_config args)) (\<lambda>debounce.
     start_then (case ag_control_socket args of
                   Some socket \<Rightarrow> Some (Inr (Some socket))
                 | None \<Rightarrow> config_control_socket e (ag_config args) (wt_root wt)) (\<lambda>socket.
     let paths = filter (ap_exists e) (possible_config_paths (ag_config args) (wt_root wt)) in
     Some (Inr
       \<lparr>se_config_paths = paths, se_socket = socket,
        se_non_block = (ag_on_busy args = Restart \<or> is_enabled e ''FUNZZY_NON_BLOCK'' \<or> socket \<noteq> None),
        se_fail_fast = (ag_fail_fast args \<or> is_enabled e ''FUNZZY_BAIL''),
        se_run_on_init = (\<not> ag_no_run_on_init args),
        se_settings = \<lparr>rs_config_paths = paths, rs_truncate = ag_log_truncate_on_change args,
                       rs_current_socket = socket, rs_root = wt_root wt, rs_defaults = defaults_of wt debounce\<rparr>,
        se_tracker = wt_revision wt,
        se_cleanup = (case socket of Some path \<Rightarrow> [path] | None \<Rightarrow> [])\<rparr>)))"

section \<open>Actions without a watcher\<close>

definition list_action :: "app_env \<Rightarrow> arguments \<Rightarrow> string start" where
  "list_action e args =
     start_then (load_rules e (ag_config args)) (\<lambda>rs.
     start_then (or_failure ''Invalid config file.'' (validate_rules (we_glob (lb_env (ap_lib e))) rs)) (\<lambda>_.
     Some (Inr (available_targets rs))))"

definition run_target_text :: "run_target_error \<Rightarrow> rules list \<Rightarrow> (run_target_error \<Rightarrow> string) \<Rightarrow> string \<times> string" where
  "run_target_text err rs shown =
     (case err of
        Missing target \<Rightarrow> (''No target found for '' @ quoted target, available_targets rs)
      | Ambiguous _ _ \<Rightarrow> (''Cannot run target'', shown err))"

text \<open>A finite run up to its plan.\<close>

definition run_action :: "app_env \<Rightarrow> arguments \<Rightarrow> string \<Rightarrow> (run_target_error \<Rightarrow> string) \<Rightarrow> (watches \<times> run_plan) start" where
  "run_action e args target shown =
     start_then (load_rules e (ag_config args)) (\<lambda>rs.
     start_then (or_failure ''Invalid config file.'' (validate_rules (we_glob (lb_env (ap_lib e))) rs)) (\<lambda>_.
     start_then (effective_concurrency e args) (\<lambda>concurrency.
     start_then (load_debounce e (ag_config args)) (\<lambda>debounce.
     start_then (or_panic (with_root_and_concurrency rs (ap_root e) concurrency)) (\<lambda>wt.
     start_then (effective_recovery_policy e args) (\<lambda>policy.
     let wt = watches_with_recovery_policy policy (with_debounce debounce wt) in
     case run_target_plan wt target of
       Inr plan \<Rightarrow> Some (Inr (wt, plan))
     | Inl err \<Rightarrow> Some (Inl (run_target_text err rs shown))))))))"

text \<open>\<open>run\<close> ends with the code of a received signal, or with the combined outcome of the tasks.\<close>

definition run_exit :: "int \<Rightarrow> bool result \<Rightarrow> int" where
  "run_exit signal_exit result =
     (if signal_exit \<noteq> 0 then signal_exit
      else case result of Inr True \<Rightarrow> 0 | Inr False \<Rightarrow> 1 | Inl _ \<Rightarrow> 1)"

definition literal_prefix_of :: "string \<Rightarrow> string option" where
  "literal_prefix_of pattern =
     (let head = takeWhile (\<lambda>c. c \<notin> {CHR ''*'', CHR ''?'', CHR ''[''}) pattern;
          trimmed = rev (dropWhile (\<lambda>c. c = CHR ''/'') (rev head))
      in if trimmed = [] then None else Some trimmed)"

definition missing_paths :: "app_env \<Rightarrow> rules list \<Rightarrow> string list" where
  "missing_paths e rs =
     remdups_adj (sort (filter (\<lambda>p. \<not> ap_exists e p)
       (List.map_filter literal_prefix_of (concat (map rule_watch_patterns rs)))))"

text \<open>\<open>fzz check\<close>: the lines it prints.\<close>

definition check_config :: "app_env \<Rightarrow> string option \<Rightarrow> string list start" where
  "check_config e config =
     (let path = default_to DEFAULT_FILENAME config; Y = ap_yaml e; os = ap_os e in
      start_then (start_then (or_panic (from_file Y os path)) (\<lambda>r. or_failure ''Invalid config file.'' (shown_error e r))) (\<lambda>rs.
      start_then (or_failure ''Invalid config file.'' (validate_rules (we_glob (lb_env (ap_lib e))) rs)) (\<lambda>_.
      start_then (or_failure ''Invalid watcher close hook.'' (session_hooks_from_file Y os path)) (\<lambda>_.
      start_then (or_failure ''Invalid debounce config'' (debounce_from_file Y os path)) (\<lambda>debounce.
      start_then (or_failure ''Invalid recovery policy config'' (recovery_policy_from_file Y os path)) (\<lambda>_.
      start_then (or_failure ''Invalid concurrency config'' (concurrency_from_file Y os path)) (\<lambda>concurrency.
      Some (Inr
        ((case debounce of Some d \<Rightarrow> [''debounce: '' @ ap_duration_debug e d] | None \<Rightarrow> [])
         @ (if missing_paths e rs = [] then []
            else [''paths do not exist (may still match future files): '' @ join_with '', '' (missing_paths e rs)])
         @ [''config valid: '' @ show_nat (length rs) @ '' job(s), ''
            @ show_nat (length (filter (\<lambda>r. rule_parallel r \<noteq> None) rs)) @ '' in parallel group(s), concurrency ''
            @ show_nat (default_to (ap_parallelism e) concurrency)])))))))))"

section \<open>Explanations\<close>

definition explain_entry :: "explain_rule \<Rightarrow> string" where
  "explain_entry r =
     text_line (''    - '' @ er_name r) @ text_line (''        cwd: '' @ er_cwd r)
     @ text_line (''        env keys: ['' @ join_with '', '' (er_environment_keys r) @ '']'')
     @ (if er_recovery_available r then text_line ''        recovery: configured (approval required)'' else [])
     @ item_lines ''        change: '' (er_change_patterns r)"

definition stage_line :: "plan_stage_preview \<Rightarrow> string" where
  "stage_line s =
     (case s of
        SerialPreview task \<Rightarrow> text_line (''    - '' @ task)
      | ParallelPreview g tasks \<Rightarrow> text_line (''    - ['' @ g @ ''] (parallel group): '' @ join_with '' || '' tasks))"

definition explain_output :: "app_env \<Rightarrow> string \<Rightarrow> explain_result \<Rightarrow> watches \<Rightarrow> string" where
  "explain_output e path r wt =
     text_line (''Explain path '' @ path)
     @ (if ex_matched r = [] \<and> ex_ignored r = []
        then text_line ''  unmatched: no configured task watches this path''
             @ (let covering = covering_roots (lb_env (ap_lib e)) wt path in
                if covering = [] then []
                else text_line (''  covered by subscription root(s): '' @ join_with '', '' covering))
        else
          (if ex_matched r = [] then []
           else text_line ''  matched:'' @ concat (map explain_entry (ex_matched r)))
          @ (if ex_ignored r = [] then []
             else text_line ''  ignored:''
                  @ concat (map (\<lambda>x. explain_entry x @ item_lines ''        ignored by: '' (er_ignore_patterns x)) (ex_ignored r)))
          @ (if ex_plan_stages r = [] then []
             else text_line ''  plan:'' @ concat (map stage_line (ex_plan_stages r)))
          @ text_line (''  concurrency: '' @ show_nat (wt_concurrency wt))
          @ text_line (''  debounce: '' @ ap_duration_debug e (wt_debounce wt)))"

text \<open>\<open>fzz explain\<close>. An error of \<^const>\<open>explain\<close> stands for a panic of the matching.\<close>

definition explain_action :: "app_env \<Rightarrow> arguments \<Rightarrow> string \<Rightarrow> string start" where
  "explain_action e args path =
     (let config = ag_config args; env = lb_env (ap_lib e) in
      start_then (load_rules e config) (\<lambda>rs.
      start_then (or_failure ''Invalid config file.'' (validate_rules (we_glob env) rs)) (\<lambda>_.
      start_then (effective_concurrency e args) (\<lambda>concurrency.
      start_then (or_panic (with_root_and_concurrency rs (ap_root e) concurrency)) (\<lambda>wt.
      start_then (load_debounce e config) (\<lambda>debounce.
      start_then (load_watch_backend e config) (\<lambda>backend.
      start_then (load_respect_gitignore e config) (\<lambda>respect.
      start_then (effective_recovery_policy e args) (\<lambda>policy.
      start_then (load_hooks e config) (\<lambda>hooks.
      let wt = watches_with_hooks hooks (watches_with_recovery_policy policy (with_gitignore env respect
                 (with_backend backend (with_debounce debounce wt))))
      in case explain env wt path of
           Inl _ \<Rightarrow> None
         | Inr r \<Rightarrow> Some (Inr (explain_output e path r wt))))))))))))"

section \<open>Standard input\<close>

datatype stdin_read = NoPipe | PipeEmpty | Data string

datatype received = Received "string \<times> (string + nat)" | NotYet | Gone

definition stdin_outcome :: "string \<times> (string + nat) \<Rightarrow> fzz_error + stdin_read" where
  "stdin_outcome r =
     (case snd r of
        Inr n \<Rightarrow> Inr (if 0 < n then Data (fst r) else PipeEmpty)
      | Inl err \<Rightarrow> Inl (IoStdinError err None))"

definition from_stdin :: "bool \<Rightarrow> received \<Rightarrow> received \<Rightarrow> fzz_error + stdin_read" where
  "from_stdin terminal at_once in_time =
     (if terminal then Inr NoPipe
      else case at_once of
             Received r \<Rightarrow> stdin_outcome r
           | Gone \<Rightarrow> Inl (IoStdinError ''Failed to read stdin'' None)
           | NotYet \<Rightarrow>
               (case in_time of
                  Received r \<Rightarrow> stdin_outcome r
                | NotYet \<Rightarrow> Inr PipeEmpty
                | Gone \<Rightarrow> Inl (IoStdinError ''Failed to read stdin'' None)))"

definition stdin_grace_ms :: "app_env \<Rightarrow> nat" where
  "stdin_grace_ms e = default_to 2000 (opt_bind parse_unsigned (ap_variable e ''FUNZZY_STDIN_TIMEOUT_MS''))"

text \<open>
  \<open>fzz exec\<close>: the paths of standard input become the patterns of one job that runs the given
  argument vector. Without a pipe the help is printed and the process ends with 1.
\<close>

datatype exec_start = ShowHelp | ExecWatches watches

definition exec_action ::
  "app_env \<Rightarrow> (string \<Rightarrow> string) \<Rightarrow> string list \<Rightarrow> fzz_error + stdin_read \<Rightarrow> exec_start start" where
  "exec_action e path_debug argv input =
     (case input of
        Inl err \<Rightarrow> Some (Inl (''Failed to read stdin'', error_text (lb_colored (ap_lib e)) err))
      | Inr NoPipe \<Rightarrow> Some (Inr ShowHelp)
      | Inr PipeEmpty \<Rightarrow> Some (Inl (''No files provided via stdin.'', ''Provide a list of files or directories via stdin, e.g., `find . | fzz exec -- echo {{filepath}}`.''))
      | Inr (Data content) \<Rightarrow>
          start_then (start_then (or_panic (extract_paths (ap_os e) content))
            (\<lambda>r. or_failure ''Failed to get rules from stdin'' (shown_error e r))) (\<lambda>patterns.
          start_then (or_failure ''Failed to get rules from stdin''
            (shown_error e (rules_from_argv path_debug (ap_os e) patterns argv))) (\<lambda>rs.
          start_then (or_failure ''Invalid config file.'' (validate_rules (we_glob (lb_env (ap_lib e))) rs)) (\<lambda>_.
          start_then (or_panic (with_root_and_concurrency rs (ap_root e) (ap_parallelism e))) (\<lambda>wt.
          Some (Inr (ExecWatches wt)))))))"

section \<open>The end of a watcher\<close>

definition completion_warning :: "shutdown_completion \<Rightarrow> string option" where
  "completion_warning c =
     (let reason = reason_label (sc_reason c) in
      case sc_hook c of
        HookFailed error \<Rightarrow> Some (''close hook failed during '' @ reason @ '': '' @ error)
      | HookTimedOut \<Rightarrow> Some (''close hook timed out during '' @ reason)
      | HookCancelled \<Rightarrow> Some (''close hook cancelled during '' @ reason)
      | _ \<Rightarrow> None)"

text \<open>
  The signal thread: the byte of the pipe is the number of the signal; the first one is stored and a
  watcher is asked to shut down for each.
\<close>

definition signal_code :: "nat \<Rightarrow> int" where
  "signal_code byte = (if byte = 2 then 130 else 143)"

definition signal_stored :: "nat \<Rightarrow> int \<Rightarrow> int" where
  "signal_stored byte stored = (if stored = 0 then signal_code byte else stored)"

definition signal_reason :: "nat \<Rightarrow> shutdown_reason" where
  "signal_reason byte = Reason_Signal (if signal_code byte = 130 then ''SIGINT'' else ''SIGTERM'') (signal_code byte)"

text \<open>What the main thread requests when the watch command has returned.\<close>

definition end_request :: "app_env \<Rightarrow> fzz_error + unit \<Rightarrow> bool \<Rightarrow> shutdown_reason option" where
  "end_request e watched_result requested =
     (case watched_result of
        Inl err \<Rightarrow> Some (Reason_Operational (error_text (lb_colored (ap_lib e)) err) 1)
      | Inr _ \<Rightarrow> if requested then None else Some Reason_Normal)"

section \<open>The start and the reload read the same configuration\<close>

lemma start_then_Inr: "start_then s f = Some (Inr b) \<longleftrightarrow> (\<exists>a. s = Some (Inr a) \<and> f a = Some (Inr b))"
  by (auto simp: start_then_def split: option.splits sum.splits)

lemma or_failure_Inr [simp]: "or_failure h r = Some (Inr a) \<longleftrightarrow> r = Inr a"
  by (cases r) (auto simp: or_failure_def)

lemma or_panic_Inr [simp]: "or_panic x = Some (Inr a) \<longleftrightarrow> x = Some a"
  by (cases x) (auto simp: or_panic_def)

lemma map_sum_Inr: "map_sum f g r = Inr b \<longleftrightarrow> (\<exists>a. r = Inr a \<and> b = g a)"
  by (cases r) auto

text \<open>With a named file every setting is a reading of its one text.\<close>

definition reads :: "app_env \<Rightarrow> string \<Rightarrow> string \<Rightarrow> bool" where
  "reads e path content \<longleftrightarrow> co_open (ap_os e) path = Inr (Inr content) \<and> ap_exists e path"

lemma policies_of_content:
  assumes "reads e path content"
  shows "load_debounce e (Some path) = Some (Inr d) \<longleftrightarrow>
      (\<exists>x. debounce_from_yaml (ap_yaml e) content = Inr x \<and> d = default_to (millis 1000) x)"
    and "load_watch_backend e (Some path) = Some (Inr b) \<longleftrightarrow>
      (\<exists>x. watch_backend_from_yaml (ap_yaml e) content = Inr x \<and> b = default_to Auto x)"
    and "load_concurrency e (Some path) = Some (Inr n) \<longleftrightarrow>
      (\<exists>x. concurrency_from_yaml (ap_yaml e) content = Inr x \<and> n = default_to (ap_parallelism e) x)"
    and "load_respect_gitignore e (Some path) = Some (Inr r) \<longleftrightarrow> respect_gitignore_from_yaml (ap_yaml e) content = Inr r"
    and "load_recovery_policy e (Some path) = Some (Inr p) \<longleftrightarrow> recovery_policy_from_yaml (ap_yaml e) content = Inr p"
    and "load_hooks e (Some path) = Some (Inr g) \<longleftrightarrow> generation_hooks_from_yaml (ap_yaml e) content = Inr g"
    and "load_session_hooks e (Some path) = Some (Inr s) \<longleftrightarrow> session_hooks_from_yaml (ap_yaml e) content = Inr s"
    and "config_control_socket e (Some path) root = Some (Inr k) \<longleftrightarrow> control_socket_from_yaml (ap_yaml e) content = Inr k"
    and "load_rules e (Some path) = Some (Inr rs) \<longleftrightarrow> from_yaml (ap_yaml e) content = Some (Inr rs)"
proof -
  have read: "read_to_string (ap_os e) path = Inr content"
    using assms by (simp add: reads_def read_to_string_def)
  show "load_debounce e (Some path) = Some (Inr d) \<longleftrightarrow>
      (\<exists>x. debounce_from_yaml (ap_yaml e) content = Inr x \<and> d = default_to (millis 1000) x)"
    "load_watch_backend e (Some path) = Some (Inr b) \<longleftrightarrow>
      (\<exists>x. watch_backend_from_yaml (ap_yaml e) content = Inr x \<and> b = default_to Auto x)"
    "load_concurrency e (Some path) = Some (Inr n) \<longleftrightarrow>
      (\<exists>x. concurrency_from_yaml (ap_yaml e) content = Inr x \<and> n = default_to (ap_parallelism e) x)"
    "load_respect_gitignore e (Some path) = Some (Inr r) \<longleftrightarrow> respect_gitignore_from_yaml (ap_yaml e) content = Inr r"
    "load_recovery_policy e (Some path) = Some (Inr p) \<longleftrightarrow> recovery_policy_from_yaml (ap_yaml e) content = Inr p"
    "load_hooks e (Some path) = Some (Inr g) \<longleftrightarrow> generation_hooks_from_yaml (ap_yaml e) content = Inr g"
    "load_session_hooks e (Some path) = Some (Inr s) \<longleftrightarrow> session_hooks_from_yaml (ap_yaml e) content = Inr s"
    by (simp_all add: load_debounce_def load_watch_backend_def load_concurrency_def load_respect_gitignore_def
        load_recovery_policy_def load_hooks_def load_session_hooks_def load_policy_def policy_path_def read
        debounce_from_file_def watch_backend_from_file_def concurrency_from_file_def respect_gitignore_from_file_def
        recovery_policy_from_file_def generation_hooks_from_file_def session_hooks_from_file_def map_sum_Inr)
  show "config_control_socket e (Some path) root = Some (Inr k) \<longleftrightarrow> control_socket_from_yaml (ap_yaml e) content = Inr k"
    using assms by (simp add: config_control_socket_def possible_config_paths_def reads_def read control_socket_from_file_def)
  show "load_rules e (Some path) = Some (Inr rs) \<longleftrightarrow> from_yaml (ap_yaml e) content = Some (Inr rs)"
    using assms by (auto simp: load_rules_def start_then_Inr from_file_def reads_def shown_error_def map_sum_Inr)
qed

lemma recovery_default_again:
  "recovery_policy_from_yaml Y content = Inr p \<Longrightarrow> recovery_policy_from_yaml_with_default Y content p = Inr p"
  by (auto simp: recovery_policy_from_yaml_def recovery_policy_from_yaml_with_default_def and_then_eq_Inr Let_def split: if_splits)

lemma start_config_parts:
  assumes start: "start_config e args = Some (Inr (rc, wt))"
    and src: "ag_config args = Some path" "reads e path content"
  shows "\<exists>rs d b k. rc = capture (ap_root e) rs (wt_concurrency wt) (default_to (millis 1000) d) (default_to Auto b)
      (wt_respect_gitignore wt) (wt_recovery_policy wt) (wt_hooks wt) (wt_session_hooks wt) k \<and>
    wt_backend wt = default_to Auto b \<and> wt_debounce wt = default_to (millis 1000) d \<and> wt_root wt = ap_root e \<and> wt_rules wt = rs \<and>
    from_yaml (ap_yaml e) content = Some (Inr rs) \<and> validate_rules (we_glob (lb_env (ap_lib e))) rs = Inr () \<and>
    debounce_from_yaml (ap_yaml e) content = Inr d \<and> watch_backend_from_yaml (ap_yaml e) content = Inr b \<and>
    respect_gitignore_from_yaml (ap_yaml e) content = Inr (wt_respect_gitignore wt) \<and>
    effective_concurrency e args = Some (Inr (wt_concurrency wt)) \<and>
    effective_recovery_policy e args = Some (Inr (wt_recovery_policy wt)) \<and>
    generation_hooks_from_yaml (ap_yaml e) content = Inr (wt_hooks wt) \<and>
    session_hooks_from_yaml (ap_yaml e) content = Inr (wt_session_hooks wt) \<and>
    selected_socket e args = Some (Inr k)"
  using start policies_of_content [OF src(2)]
  by (auto simp: start_config_def Let_def start_then_Inr src(1) capture_def with_root_and_concurrency_def
      with_session_hooks_def watches_with_hooks_def watches_with_recovery_policy_def with_gitignore_def with_backend_def
      with_debounce_def split: if_splits)

text \<open>
  What the reload makes of the text a watcher was started from: the start's own configuration, except
  that the concurrency, the recovery policy and the socket are those of the text.
\<close>

lemma candidate_of_start:
  assumes start: "start_config e args = Some (Inr (rc, wt))"
    and src: "ag_config args = Some path" "reads e path content"
    and now: "concurrency_from_yaml (ap_yaml e) content = Inr n"
      "recovery_policy_from_yaml_with_default (ap_yaml e) content (wt_recovery_policy wt) = Inr p"
      "control_socket_from_yaml (ap_yaml e) content = Inr k"
  shows "validate_candidate (ap_lib e) content (wt_root wt) (defaults_of wt (wt_debounce wt)) =
    Some (Inr (rc\<lparr>rc_concurrency := default_to (rc_concurrency rc) n, rc_recovery_policy := p, rc_control_socket := k\<rparr>))"
proof -
  obtain rs d b k0 where parts: "rc = capture (ap_root e) rs (wt_concurrency wt) (default_to (millis 1000) d) (default_to Auto b)
      (wt_respect_gitignore wt) (wt_recovery_policy wt) (wt_hooks wt) (wt_session_hooks wt) k0"
    "wt_backend wt = default_to Auto b" "wt_debounce wt = default_to (millis 1000) d" "wt_root wt = ap_root e"
    "from_yaml (ap_yaml e) content = Some (Inr rs)" "validate_rules (we_glob (lb_env (ap_lib e))) rs = Inr ()"
    "debounce_from_yaml (ap_yaml e) content = Inr d" "watch_backend_from_yaml (ap_yaml e) content = Inr b"
    "respect_gitignore_from_yaml (ap_yaml e) content = Inr (wt_respect_gitignore wt)"
    "generation_hooks_from_yaml (ap_yaml e) content = Inr (wt_hooks wt)"
    "session_hooks_from_yaml (ap_yaml e) content = Inr (wt_session_hooks wt)"
    using start_config_parts [OF start src] by blast
  have c: "rc_concurrency rc = wt_concurrency wt" by (simp add: parts(1) capture_def)
  have dflt: "unwrap_or x y = default_to x y" for x :: 'x and y by (cases y) (simp_all add: unwrap_or_def)
  have same: "default_to (default_to x y) y = default_to x y" for x :: 'x and y by (cases y) simp_all
  show ?thesis
    using parts(5-) now
    by (simp add: validate_candidate_def candidate_config_def ap_yaml_def [symmetric] defaults_of_def parts(2,3,4) Let_def
        dflt same c gate_error_def)
      (simp add: parts(1) capture_def)
qed

text \<open>Two texts that the YAML parser reads alike are the same candidate.\<close>

lemma candidate_of_equal_load:
  assumes "yl_load (lb_yaml L) content' = yl_load (lb_yaml L) content" and "from_yaml (lb_yaml L) content = Some (Inr rs)"
  shows "validate_candidate L content' root dflt = validate_candidate L content root dflt"
proof -
  have first: "first_document (lb_yaml L) content' = first_document (lb_yaml L) content"
    using assms(1) by (simp add: first_document_def)
  have all: "from_yaml (lb_yaml L) content' = from_yaml (lb_yaml L) content"
    using assms by (auto simp: from_yaml_def split: sum.splits)
  show ?thesis
    by (simp add: validate_candidate_def candidate_config_def first all assms(2) Let_def concurrency_from_yaml_def debounce_from_yaml_def
        watch_backend_from_yaml_def respect_gitignore_from_yaml_def recovery_policy_from_yaml_with_default_def
        generation_hooks_from_yaml_def session_hooks_from_yaml_def control_socket_from_yaml_def)
qed

lemma first_revision:
  assumes "start_config e args = Some (Inr (rc, wt))" and "start_watches e args = Some (Inr wt')"
  shows "wt' = watches_with_revision \<lparr>rev_number = 1, rev_hash = semantic_hash (lb_hash (ap_lib e)) rc\<rparr> wt"
  using assms by (simp add: start_watches_def start_then_def tracker_observe_def tracker_new_def Let_def)

text \<open>
  A save that changes only the format changes nothing. When a watcher was started from a named file
  without flags that override the file, saving any text that the YAML parser reads as the same
  documents is decided as no change: the revision stays and nothing is reloaded.
\<close>

theorem formatting_only_save_is_no_change:
  assumes start: "start_config e args = Some (Inr (rc, wt))" and started: "start_watches e args = Some (Inr wt')"
    and src: "ag_config args = Some path" "reads e path content"
    and plain: "\<not> ag_sequential args" "ag_recovery_policy args = None" "ag_control_socket args = None"
    and same: "yl_load (ap_yaml e) content' = yl_load (ap_yaml e) content"
  shows "decide (ap_lib e) (wt_revision wt') content' (wt_root wt') (defaults_of wt' (wt_debounce wt')) =
    Some (Reload_NoOp, wt_revision wt')"
proof -
  obtain n where n: "concurrency_from_yaml (ap_yaml e) content = Inr n" "wt_concurrency wt = default_to (ap_parallelism e) n"
    using start_config_parts [OF start src] policies_of_content(3) [OF src(2)] plain(1) src(1)
    by (auto simp: effective_concurrency_def)
  have p: "recovery_policy_from_yaml (ap_yaml e) content = Inr (wt_recovery_policy wt)"
    using start_config_parts [OF start src] policies_of_content(5) [OF src(2)] plain(2) src(1)
    by (auto simp: effective_recovery_policy_def)
  have k: "control_socket_from_yaml (ap_yaml e) content = Inr (rc_control_socket rc)"
    using start_config_parts [OF start src] policies_of_content(8) [OF src(2)] plain(3) src(1)
    by (auto simp: selected_socket_def capture_def)
  have rc: "rc_concurrency rc = wt_concurrency wt" "rc_recovery_policy rc = wt_recovery_policy wt"
    using start_config_parts [OF start src] by (auto simp: capture_def)
  have "default_to (default_to x n) n = default_to x n" for x by (cases n) simp_all
  then have "rc\<lparr>rc_concurrency := default_to (rc_concurrency rc) n, rc_recovery_policy := wt_recovery_policy wt,
      rc_control_socket := rc_control_socket rc\<rparr> = rc"
    using rc n(2) by simp
  then have "validate_candidate (ap_lib e) content (wt_root wt) (defaults_of wt (wt_debounce wt)) = Some (Inr rc)"
    using candidate_of_start [OF start src n(1) recovery_default_again [OF p] k] by simp
  moreover obtain rs where "from_yaml (lb_yaml (ap_lib e)) content = Some (Inr rs)"
    using start_config_parts [OF start src] by (auto simp: ap_yaml_def)
  ultimately have "validate_candidate (ap_lib e) content' (wt_root wt) (defaults_of wt (wt_debounce wt)) = Some (Inr rc)"
    using same by (simp add: candidate_of_equal_load [of "ap_lib e" content' content] ap_yaml_def)
  then show ?thesis
    by (simp add: first_revision [OF start started] decide_def watches_with_revision_def defaults_of_def tracker_observe_def)
qed

text \<open>
  The socket of the command line does not survive a save. When a watcher was started with
  \<open>--control-socket\<close> and its file names another socket or none, saving the file without any change
  is decided as a new revision whose configuration has the socket of the file (unless the two
  configurations are a SHA-256 collision): the reload moves or closes the socket the user asked for.
\<close>

theorem socket_flag_is_lost_on_save:
  assumes start: "start_config e args = Some (Inr (rc, wt))" and started: "start_watches e args = Some (Inr wt')"
    and src: "ag_config args = Some path" "reads e path content"
    and plain: "\<not> ag_sequential args" "ag_recovery_policy args = None"
    and flag: "ag_control_socket args = Some socket" "control_socket_from_yaml (ap_yaml e) content = Inr k" "k \<noteq> Some socket"
    and fits: "config_fits (lb_hash (ap_lib e)) rc" "pred_option str_fits k"
  shows "rc_control_socket rc = Some socket \<and>
    validate_candidate (ap_lib e) content (wt_root wt') (defaults_of wt' (wt_debounce wt')) = Some (Inr (rc\<lparr>rc_control_socket := k\<rparr>)) \<and>
    ((\<exists>revision t. decide (ap_lib e) (wt_revision wt') content (wt_root wt') (defaults_of wt' (wt_debounce wt')) =
        Some (Commit revision, t) \<and> rev_number revision = 2) \<or>
     collision (sha (lb_hash (ap_lib e))) (semantic_bytes (lb_hash (ap_lib e)) rc)
       (semantic_bytes (lb_hash (ap_lib e)) (rc\<lparr>rc_control_socket := k\<rparr>)))"
proof -
  let ?h = "lb_hash (ap_lib e)" and ?c = "rc\<lparr>rc_control_socket := k\<rparr>"
  obtain n where n: "concurrency_from_yaml (ap_yaml e) content = Inr n" "wt_concurrency wt = default_to (ap_parallelism e) n"
    using start_config_parts [OF start src] policies_of_content(3) [OF src(2)] plain(1) src(1)
    by (auto simp: effective_concurrency_def)
  have p: "recovery_policy_from_yaml (ap_yaml e) content = Inr (wt_recovery_policy wt)"
    using start_config_parts [OF start src] policies_of_content(5) [OF src(2)] plain(2) src(1)
    by (auto simp: effective_recovery_policy_def)
  have rc: "rc_concurrency rc = wt_concurrency wt" "rc_recovery_policy rc = wt_recovery_policy wt" "rc_control_socket rc = Some socket"
    using start_config_parts [OF start src] flag(1) by (auto simp: capture_def selected_socket_def)
  have "default_to (default_to x n) n = default_to x n" for x by (cases n) simp_all
  then have "rc\<lparr>rc_concurrency := default_to (rc_concurrency rc) n, rc_recovery_policy := wt_recovery_policy wt\<rparr> = rc"
    using rc n(2) by simp
  then have v: "validate_candidate (ap_lib e) content (wt_root wt) (defaults_of wt (wt_debounce wt)) = Some (Inr ?c)"
    using candidate_of_start [OF start src n(1) recovery_default_again [OF p] flag(2)] by simp
  have "config_fits ?h ?c" using fits by (simp add: config_fits_def)
  moreover have "config_key ?h ?c \<noteq> config_key ?h rc" using flag(3) rc(3) by (simp add: config_key_def)
  ultimately have "semantic_hash ?h ?c \<noteq> semantic_hash ?h rc \<or> collision (sha ?h) (semantic_bytes ?h rc) (semantic_bytes ?h ?c)"
    using equal_hash_or_collision [OF fits(1), of ?c] by metis
  then show ?thesis
    using v rc(3) by (auto simp: first_revision [OF start started] decide_def watches_with_revision_def defaults_of_def
        tracker_observe_def Let_def)
qed

text \<open>A watcher started from a file with two jobs, without a socket of its own.\<close>

definition demo_app :: app_env where
  "demo_app =
     \<lparr>ap_lib = demo_lib,
      ap_os = \<lparr>co_open = (\<lambda>_. Inr (Inr [])), co_current_dir = Inr ''/w'', co_is_dir = (\<lambda>_. True), co_canonicalize = Inr\<rparr>,
      ap_exists = (\<lambda>_. True), ap_parallelism = 2, ap_variable = (\<lambda>_. None), ap_root = ''/w'',
      ap_duration_debug = (\<lambda>_. [])\<rparr>"

definition demo_start :: "string option \<Rightarrow> arguments" where
  "demo_start socket =
     \<lparr>ag_action = Watch None, ag_config = Some ''f.yaml'', ag_log_truncate_on_change = False, ag_log_file = None,
      ag_events_file = None, ag_control_socket = socket, ag_on_busy = Wait, ag_no_run_on_init = False, ag_fail_fast = False,
      ag_recovery_policy = None, ag_sequential = False, ag_verbose = False\<rparr>"

lemma demo_reads: "reads demo_app path []"
  by (simp add: reads_def demo_app_def)

lemma demo_app_rules: "from_yaml (ap_yaml demo_app) [] = Some (Inr demo_rules)"
  using demo_parsed by (simp add: demo_app_def ap_yaml_def demo_lib_def)

lemma demo_app_policies:
  "concurrency_from_yaml (ap_yaml demo_app) [] = Inr None" "debounce_from_yaml (ap_yaml demo_app) [] = Inr None"
  "watch_backend_from_yaml (ap_yaml demo_app) [] = Inr None" "respect_gitignore_from_yaml (ap_yaml demo_app) [] = Inr False"
  "recovery_policy_from_yaml (ap_yaml demo_app) [] = Inr Prompt"
  "generation_hooks_from_yaml (ap_yaml demo_app) [] = Inr \<lparr>hook_success = None, hook_failure = None\<rparr>"
  "session_hooks_from_yaml (ap_yaml demo_app) [] = Inr \<lparr>hook_close = None\<rparr>"
  "control_socket_from_yaml (ap_yaml demo_app) [] = Inr None"
  by code_simp+

lemma demo_rules_valid: "validate_rules (we_glob (lb_env (ap_lib demo_app))) demo_rules = Inr ()"
  by code_simp

lemma demo_started:
  "\<exists>wt. start_config demo_app (demo_start socket) =
     Some (Inr (capture ''/w'' demo_rules 2 (millis 1000) Auto False Prompt \<lparr>hook_success = None, hook_failure = None\<rparr>
       \<lparr>hook_close = None\<rparr> socket, wt))"
proof -
  let ?e = demo_app and ?path = "Some ''f.yaml''"
  note iff = policies_of_content [OF demo_reads]
  have "load_rules ?e ?path = Some (Inr demo_rules)" "load_concurrency ?e ?path = Some (Inr 2)"
    "load_debounce ?e ?path = Some (Inr (millis 1000))" "load_watch_backend ?e ?path = Some (Inr Auto)"
    "load_respect_gitignore ?e ?path = Some (Inr False)" "load_recovery_policy ?e ?path = Some (Inr Prompt)"
    "load_hooks ?e ?path = Some (Inr \<lparr>hook_success = None, hook_failure = None\<rparr>)"
    "load_session_hooks ?e ?path = Some (Inr \<lparr>hook_close = None\<rparr>)" "config_control_socket ?e ?path ''/w'' = Some (Inr None)"
    by (simp_all add: iff demo_app_policies demo_app_rules) (simp add: demo_app_def)
  moreover have "ap_root ?e = ''/w''" by (simp add: demo_app_def)
  moreover have "selected_socket ?e (demo_start socket) = Some (Inr socket)"
    using calculation by (cases socket) (simp_all add: selected_socket_def demo_start_def)
  moreover have "effective_concurrency ?e (demo_start socket) = Some (Inr 2)"
    "effective_recovery_policy ?e (demo_start socket) = Some (Inr Prompt)" "ag_config (demo_start socket) = ?path"
    using calculation by (simp_all add: effective_concurrency_def effective_recovery_policy_def demo_start_def)
  ultimately show ?thesis
    by (simp add: start_config_def Let_def start_then_def or_failure_def or_panic_def demo_rules_valid with_root_and_concurrency_def)
qed

theorem formatting_only_save_is_no_change_witness:
  "\<exists>wt'. start_watches demo_app (demo_start None) = Some (Inr wt') \<and>
    decide demo_lib (wt_revision wt') ''# comment'' (wt_root wt') (defaults_of wt' (wt_debounce wt')) =
      Some (Reload_NoOp, wt_revision wt')"
proof -
  obtain wt rc where start: "start_config demo_app (demo_start None) = Some (Inr (rc, wt))" using demo_started by blast
  then obtain wt' where started: "start_watches demo_app (demo_start None) = Some (Inr wt')"
    by (simp add: start_watches_def start_then_def tracker_observe_def tracker_new_def Let_def)
  have "ag_config (demo_start None) = Some ''f.yaml''" "\<not> ag_sequential (demo_start None)"
    "ag_recovery_policy (demo_start None) = None" "ag_control_socket (demo_start None) = None"
    by (simp_all add: demo_start_def)
  moreover have "yl_load (ap_yaml demo_app) ''# comment'' = yl_load (ap_yaml demo_app) []"
    by (simp add: demo_app_def ap_yaml_def demo_lib_def demo_yaml_def)
  ultimately have "decide (ap_lib demo_app) (wt_revision wt') ''# comment'' (wt_root wt') (defaults_of wt' (wt_debounce wt')) =
      Some (Reload_NoOp, wt_revision wt')"
    by (intro formatting_only_save_is_no_change [OF start started _ demo_reads])
  with started show ?thesis by (simp add: demo_app_def)
qed

lemma demo_captured_fits:
  "config_fits (lb_hash demo_lib) (capture ''/w'' demo_rules 2 (millis 1000) Auto False Prompt
     \<lparr>hook_success = None, hook_failure = None\<rparr> \<lparr>hook_close = None\<rparr> (Some ''s.sock''))"
proof -
  have small: "fits n" if "n < 2000" for n using that by (simp add: fits_def)
  show ?thesis
    by (simp add: config_fits_def capture_def demo_lib_def Config_Revision.demo_env_def hooks_tag_def demo_rules_def rules_new_def
        rule_fits_def commands_of_def as_millis_def millis_def small)
qed

theorem socket_flag_is_lost_on_save_witness:
  "\<exists>wt' revision t. start_watches demo_app (demo_start (Some ''s.sock'')) = Some (Inr wt') \<and>
    decide demo_lib (wt_revision wt') [] (wt_root wt') (defaults_of wt' (wt_debounce wt')) = Some (Commit revision, t) \<and>
    rev_number revision = 2"
proof -
  let ?a = "demo_start (Some ''s.sock'')"
  let ?rc = "capture ''/w'' demo_rules 2 (millis 1000) Auto False Prompt
     \<lparr>hook_success = None, hook_failure = None\<rparr> \<lparr>hook_close = None\<rparr> (Some ''s.sock'')"
  obtain wt where start: "start_config demo_app ?a = Some (Inr (?rc, wt))" using demo_started by blast
  then obtain wt' where started: "start_watches demo_app ?a = Some (Inr wt')"
    by (simp add: start_watches_def start_then_def tracker_observe_def tracker_new_def Let_def)
  have args: "ag_config ?a = Some ''f.yaml''" "\<not> ag_sequential ?a"
    "ag_recovery_policy ?a = None" "ag_control_socket ?a = Some ''s.sock''"
    by (simp_all add: demo_start_def)
  have fits: "config_fits (lb_hash (ap_lib demo_app)) ?rc" using demo_captured_fits by (simp add: demo_app_def)
  have "\<not> collision (sha (lb_hash (ap_lib demo_app))) x y" for x y
    by (simp add: collision_def demo_app_def demo_lib_def Config_Revision.demo_env_def)
  with socket_flag_is_lost_on_save [OF start started args(1) demo_reads args(2-4) demo_app_policies(8) _ fits]
  have "\<exists>revision t. decide (ap_lib demo_app) (wt_revision wt') [] (wt_root wt') (defaults_of wt' (wt_debounce wt')) =
      Some (Commit revision, t) \<and> rev_number revision = 2"
    by simp
  with started show ?thesis by (auto simp: demo_app_def)
qed

section \<open>What a successful check promises\<close>

text \<open>A reader of one setting never panics and fails under its own heading only.\<close>

definition fails_only_with :: "string set \<Rightarrow> 'a start \<Rightarrow> bool" where
  "fails_only_with headings s = (case s of None \<Rightarrow> False | Some (Inl (heading, _)) \<Rightarrow> heading \<in> headings | Some (Inr _) \<Rightarrow> True)"

lemma fails_only_with_or_failure: "h \<in> H \<Longrightarrow> fails_only_with H (or_failure h r)"
  by (cases r) (simp_all add: or_failure_def fails_only_with_def)

lemma fails_only_with_value [simp]: "fails_only_with H (Some (Inr a))"
  by (simp add: fails_only_with_def)

lemma fails_only_with_then:
  "fails_only_with H s \<Longrightarrow> (\<And>a. s = Some (Inr a) \<Longrightarrow> fails_only_with H (f a)) \<Longrightarrow> fails_only_with H (start_then s f)"
  by (cases s) (auto simp: fails_only_with_def start_then_def split: sum.splits)

lemma load_policy_heading: "h \<in> H \<Longrightarrow> fails_only_with H (load_policy e h read dflt config)"
  by (simp add: load_policy_def fails_only_with_or_failure split: option.split)

lemma selected_socket_heading: "''Invalid control socket config'' \<in> H \<Longrightarrow> fails_only_with H (selected_socket e args)"
  by (simp add: selected_socket_def config_control_socket_def fails_only_with_or_failure split: option.split)

text \<open>
  A successful check leaves four reasons to fail. After \<open>fzz check\<close> has accepted a named file, a
  watcher started on that file never panics, and it starts unless its backend, its gitignore
  setting, its hooks or its socket setting is invalid; those four readers the check does not call.
\<close>

theorem check_leaves_four_failures:
  assumes checked: "check_config e (Some path) = Some (Inr lines)" and cpus: "0 < ap_parallelism e"
    and named: "ag_config args = Some path"
  shows "fails_only_with {''Invalid watch backend config'', ''Invalid gitignore config'', ''Invalid hooks config'',
      ''Invalid control socket config''} (start_config e args)"
proof -
  let ?Y = "ap_yaml e" and ?os = "ap_os e"
  obtain rs session debounce policy concurrency where ok:
    "from_file ?Y ?os path = Some (Inr rs)" "validate_rules (we_glob (lb_env (ap_lib e))) rs = Inr ()"
    "session_hooks_from_file ?Y ?os path = Inr session" "debounce_from_file ?Y ?os path = Inr debounce"
    "recovery_policy_from_file ?Y ?os path = Inr policy" "concurrency_from_file ?Y ?os path = Inr concurrency"
    using checked by (auto simp: check_config_def Let_def start_then_Inr shown_error_def map_sum_Inr)
  have positive: "concurrency \<noteq> Some 0"
    using ok(6) by (auto simp: concurrency_from_file_def concurrency_from_yaml_def and_then_eq_Inr Let_def split: if_splits yaml.splits)
  have loaded: "load_rules e (Some path) = Some (Inr rs)" "load_debounce e (Some path) = Some (Inr (default_to (millis 1000) debounce))"
    "load_session_hooks e (Some path) = Some (Inr session)" "load_recovery_policy e (Some path) = Some (Inr policy)"
    "load_concurrency e (Some path) = Some (Inr (default_to (ap_parallelism e) concurrency))"
    using ok by (simp_all add: load_rules_def shown_error_def start_then_def or_panic_def or_failure_def load_debounce_def
        load_session_hooks_def load_recovery_policy_def load_concurrency_def load_policy_def policy_path_def)
  have "\<exists>n>0. effective_concurrency e args = Some (Inr n)"
    using loaded(5) cpus positive by (cases concurrency) (auto simp: effective_concurrency_def named)
  then obtain n where n: "effective_concurrency e args = Some (Inr n)" "0 < n" by blast
  have p: "\<exists>p. effective_recovery_policy e args = Some (Inr p)"
    using loaded(4) by (simp add: effective_recovery_policy_def named split: option.split)
  have wt: "\<exists>wt. with_root_and_concurrency rs (ap_root e) n = Some wt"
    using n(2) by (simp add: with_root_and_concurrency_def)
  show ?thesis
    using p wt unfolding start_config_def Let_def
    by (auto simp: named loaded n(1) ok(2) or_panic_def or_failure_def [of _ "Inr _"] load_watch_backend_def load_respect_gitignore_def
        load_hooks_def intro!: fails_only_with_then load_policy_heading selected_socket_heading)
qed

text \<open>A file that passes the check and cannot be started: its backend is not a string.\<close>

definition bogus_app :: app_env where
  "bogus_app = demo_app\<lparr>ap_lib := demo_lib\<lparr>lb_yaml := demo_yaml [YHash
     [(YString ''on'', YHash [(YString ''change'', YString ''src/**''), (YString ''watch_backend'', YBoolean True)]),
      (YString ''jobs'', YArray [YHash [(YString ''name'', YString ''lint''), (YString ''run'', YString ''lint'')]])]]\<rparr>\<rparr>"

lemma bogus_app_reads:
  "from_yaml (ap_yaml bogus_app) [] = Some (Inr [(rules_new ''lint'' [''lint''] [''src/**''] [] False)\<lparr>rule_inherited := [''src/**'']\<rparr>])"
  "validate_rules (we_glob (lb_env (ap_lib bogus_app))) [(rules_new ''lint'' [''lint''] [''src/**''] [] False)\<lparr>rule_inherited := [''src/**'']\<rparr>] = Inr ()"
  "session_hooks_from_yaml (ap_yaml bogus_app) [] = Inr \<lparr>hook_close = None\<rparr>" "debounce_from_yaml (ap_yaml bogus_app) [] = Inr None"
  "recovery_policy_from_yaml (ap_yaml bogus_app) [] = Inr Prompt" "concurrency_from_yaml (ap_yaml bogus_app) [] = Inr None"
  by code_simp+

theorem check_leaves_four_failures_witness:
  "fails_only_with {''Invalid watch backend config'', ''Invalid gitignore config'', ''Invalid hooks config'',
      ''Invalid control socket config''} (start_config bogus_app (demo_start None)) \<and>
   \<not> fails_only_with {} (load_watch_backend bogus_app (Some ''f.yaml''))"
proof
  have read: "read_to_string (ap_os bogus_app) path = Inr []" "co_open (ap_os bogus_app) path = Inr (Inr [])" for path
    by (simp_all add: bogus_app_def demo_app_def read_to_string_def)
  obtain rs where rs: "from_yaml (ap_yaml bogus_app) [] = Some (Inr rs)" "validate_rules (we_glob (lb_env (ap_lib bogus_app))) rs = Inr ()"
    using bogus_app_reads(1,2) by blast
  have "\<exists>lines. check_config bogus_app (Some ''f.yaml'') = Some (Inr lines)"
    by (simp add: rs check_config_def Let_def from_file_def session_hooks_from_file_def debounce_from_file_def
        recovery_policy_from_file_def concurrency_from_file_def read bogus_app_reads(3-) start_then_def or_panic_def or_failure_def
        shown_error_def)
  then obtain lines where "check_config bogus_app (Some ''f.yaml'') = Some (Inr lines)" by blast
  moreover have "0 < ap_parallelism bogus_app" "ag_config (demo_start None) = Some ''f.yaml''"
    by (simp_all add: bogus_app_def demo_app_def demo_start_def)
  ultimately show "fails_only_with {''Invalid watch backend config'', ''Invalid gitignore config'', ''Invalid hooks config'',
      ''Invalid control socket config''} (start_config bogus_app (demo_start None))"
    by (rule check_leaves_four_failures)
  have "isl (watch_backend_from_yaml (ap_yaml bogus_app) [])" by code_simp
  then show "\<not> fails_only_with {} (load_watch_backend bogus_app (Some ''f.yaml''))"
    by (auto simp: isl_def load_watch_backend_def load_policy_def policy_path_def watch_backend_from_file_def or_failure_def
        fails_only_with_def bogus_app_def demo_app_def read_to_string_def ap_yaml_def)
qed

section \<open>Signals and \<open>exec\<close>\<close>

text \<open>
  The first signal decides the exit code of a finite run: later signals change nothing, and a run that
  was interrupted ends with 130 or 143 whatever its tasks answered.
\<close>

lemma signals_after_first: "stored \<noteq> 0 \<Longrightarrow> fold signal_stored bs stored = stored"
  by (induction bs arbitrary: stored) (simp_all add: signal_stored_def)

lemma first_signal_decides_exit:
  "run_exit (fold signal_stored bs 0) result =
     (case bs of [] \<Rightarrow> (if result = Inr True then 0 else 1) | b # _ \<Rightarrow> signal_code b)"
proof (cases bs)
  case Nil
  then show ?thesis by (auto simp: run_exit_def split: sum.splits bool.splits)
next
  case (Cons b rest)
  have "signal_code b \<noteq> 0" by (simp add: signal_code_def)
  with Cons signals_after_first [of "signal_code b" rest] show ?thesis by (simp add: run_exit_def signal_stored_def)
qed

text \<open>
  The argument vector of \<open>fzz exec\<close> reaches the executor as one vector: it is never joined and read
  again by a shell.
\<close>

lemma exec_keeps_the_argument_vector:
  assumes "exec_action e path_debug argv input = Some (Inr (ExecWatches wt))"
  shows "\<exists>r. wt_rules wt = [r] \<and> rule_argv r = Some argv \<and> rule_run_on_init r \<and> command_lines r = [Argv argv]"
  using assms by (auto simp: exec_action_def start_then_Inr shown_error_def map_sum_Inr rules_from_argv_def and_then_eq_Inr from_argv_def
      with_root_and_concurrency_def command_lines_def split: sum.splits stdin_read.splits if_splits)

end
