(* ===== verification/Diagnostics.thy ===== *)
theory Diagnostics
  imports Watch_Loop Config_Model "HOL-Library.AList"
begin

text \<open>
  Verbose diagnostics, \<open>src/src/diagnostics.rs\<close>: the typed record and its line, the detector of
  feedback loops with its bounded maps, the process-wide sink, and the records that the watch loop
  emits for the paths of a batch (\<open>src/src/watch_loop.rs\<close>).

  Times are nanoseconds of a monotonic clock, and \<open>duration_since\<close> is a difference that stops at zero.
  The hash maps of the detector are association lists with distinct keys; where the code iterates
  over a map, the order of the iteration is a parameter.

  Shown: a record is one line exactly when none of its values has a line break; the maps stay within
  their bound under every sequence of triggers; and as long as the bound is not reached, the repeat
  count is the length of the unbroken chain of triggers, with one warning per chain.
\<close>

section \<open>Records\<close>

record diag_record =
  dr_seq :: "nat option"
  dr_batch :: "nat option"
  dr_source :: "string option"
  dr_kind :: "string option"
  dr_path :: "string option"
  dr_normalized :: "string option"
  dr_decision :: "string option"
  dr_task :: "string option"
  dr_change :: "string option"
  dr_ignore :: "string option"
  dr_rule_origin :: "string option"
  dr_generation :: "nat option"
  dr_policy :: "string option"
  dr_commands :: "nat option"
  dr_command_position :: "(nat \<times> nat) option"
  dr_state :: "string option"
  dr_command :: "string option"
  dr_duration :: "string option"
  dr_reason :: "string option"
  dr_observed_after_run :: "nat option"
  dr_repeats :: "nat option"
  dr_hint :: "string option"
  dr_note :: "string option"

definition no_record :: diag_record where
  "no_record =
     \<lparr>dr_seq = None, dr_batch = None, dr_source = None, dr_kind = None, dr_path = None, dr_normalized = None,
      dr_decision = None, dr_task = None, dr_change = None, dr_ignore = None, dr_rule_origin = None,
      dr_generation = None, dr_policy = None, dr_commands = None, dr_command_position = None, dr_state = None,
      dr_command = None, dr_duration = None, dr_reason = None, dr_observed_after_run = None, dr_repeats = None,
      dr_hint = None, dr_note = None\<rparr>"

definition push_part :: "string \<Rightarrow> string option \<Rightarrow> (string \<times> string) list" where
  "push_part key x = (case x of Some v \<Rightarrow> [(key, v)] | None \<Rightarrow> [])"

definition record_parts :: "diag_record \<Rightarrow> (string \<times> string) list" where
  "record_parts r = concat
     [push_part ''seq'' (map_option show_nat (dr_seq r)),
      push_part ''batch'' (map_option show_nat (dr_batch r)),
      push_part ''source'' (dr_source r),
      push_part ''kind'' (dr_kind r),
      push_part ''path'' (dr_path r),
      push_part ''normalized'' (dr_normalized r),
      push_part ''decision'' (dr_decision r),
      push_part ''task'' (dr_task r),
      push_part ''change'' (dr_change r),
      push_part ''ignore'' (dr_ignore r),
      push_part ''rule_origin'' (dr_rule_origin r),
      push_part ''run'' (map_option show_nat (dr_generation r)),
      push_part ''policy'' (dr_policy r),
      push_part ''commands'' (map_option show_nat (dr_commands r)),
      push_part ''command'' (map_option (\<lambda>(i, n). show_nat i @ ''/'' @ show_nat n) (dr_command_position r)),
      push_part ''state'' (dr_state r),
      push_part ''command'' (dr_command r),
      push_part ''duration'' (dr_duration r),
      push_part ''reason'' (dr_reason r),
      push_part ''observed_after_run'' (map_option show_nat (dr_observed_after_run r)),
      push_part ''repeats'' (map_option show_nat (dr_repeats r)),
      push_part ''hint'' (dr_hint r),
      push_part ''note'' (dr_note r)]"

definition special_char :: "char \<Rightarrow> bool" where
  "special_char c \<longleftrightarrow> c \<in> {CHR '' '', CHR 0x22, CHR 0x09, CHR ''*'', CHR ''?'', CHR ''['', CHR ''{''}"

definition escape_quotes :: "string \<Rightarrow> string" where
  "escape_quotes v = concat (map (\<lambda>c. if c = CHR 0x22 then [CHR 0x5C, CHR 0x22] else [c]) v)"

definition quote_value :: "string \<Rightarrow> string" where
  "quote_value v =
     (if v = [] \<or> list_ex special_char v then [CHR 0x22] @ escape_quotes v @ [CHR 0x22] else v)"

definition render_record :: "diag_record \<Rightarrow> string" where
  "render_record r =
     ''Funzzy debug: '' @ join_with '' '' (map (\<lambda>(key, v). key @ ''='' @ quote_value v) (record_parts r))"

section \<open>Feedback loops\<close>

record loop_policy =
  lp_window :: duration
  lp_min_repeats :: nat

definition loop_policy_default :: loop_policy where
  "loop_policy_default = \<lparr>lp_window = 30 * 1000000000, lp_min_repeats = 3\<rparr>"

record loop_warning =
  lw_task :: string
  lw_path :: string
  lw_rule :: string
  lw_repeats :: nat
  lw_generation :: "nat option"
  lw_hint :: string

definition render_loop_warning :: "loop_warning \<Rightarrow> string" where
  "render_loop_warning w = ''possible feedback loop '' @ join_with '' ''
     ([''task='' @ quote_value (lw_task w), ''path='' @ quote_value (lw_path w), ''change='' @ quote_value (lw_rule w),
       ''repeats='' @ show_nat (lw_repeats w)]
      @ (case lw_generation w of Some g \<Rightarrow> [''run='' @ show_nat g] | None \<Rightarrow> [])
      @ [''hint='' @ quote_value (lw_hint w)])"

record loop_observation =
  lo_repeats :: nat
  lo_generation :: "nat option"
  lo_observed_after_run :: "nat option"
  lo_warning :: "loop_warning option"

type_synonym loop_key = "string \<times> string \<times> string"

record loop_entry =
  le_count :: nat
  le_last_seen :: nat
  le_warned :: bool

record loop_detector =
  ld_policy :: loop_policy
  ld_entries :: "(loop_key \<times> loop_entry) list"
  ld_task_recent :: "(string \<times> nat \<times> nat) list"

definition MAX_KEYS :: nat where
  "MAX_KEYS = 512"

definition detector_new :: "loop_policy \<Rightarrow> loop_detector" where
  "detector_new p = \<lparr>ld_policy = p, ld_entries = [], ld_task_recent = []\<rparr>"

text \<open>The orders in which the two hash maps are iterated.\<close>

record map_orders =
  mo_entries :: "(loop_key \<times> loop_entry) list \<Rightarrow> (loop_key \<times> loop_entry) list"
  mo_recent :: "(string \<times> nat \<times> nat) list \<Rightarrow> (string \<times> nat \<times> nat) list"

text \<open>\<open>min_by_key\<close> answers the first minimum.\<close>

fun min_by_key :: "('a \<Rightarrow> nat) \<Rightarrow> 'a list \<Rightarrow> 'a option" where
  "min_by_key f [] = None"
| "min_by_key f (x # xs) = Some (fold (\<lambda>y best. if f y < f best then y else best) xs x)"

text \<open>
  The eviction loop. Its last branch is there for orders that are no permutation of the map: they name a
  key that is not in it.
\<close>

function cap_map :: "(('k \<times> 'v) list \<Rightarrow> ('k \<times> 'v) list) \<Rightarrow> ('v \<Rightarrow> nat) \<Rightarrow> ('k \<times> 'v) list \<Rightarrow> ('k \<times> 'v) list" where
  "cap_map ord seen xs =
     (if length xs \<le> MAX_KEYS then xs
      else case min_by_key (\<lambda>e. seen (snd e)) (ord xs) of
             None \<Rightarrow> xs
           | Some oldest \<Rightarrow>
               let ys = filter (\<lambda>e. fst e \<noteq> fst oldest) xs in
               if length ys < length xs then cap_map ord seen ys else xs)"
  by pat_completeness auto
termination
  by (relation "measure (\<lambda>(_, _, xs). length xs)") simp_all

declare cap_map.simps [simp del]

definition detector_cap :: "map_orders \<Rightarrow> loop_detector \<Rightarrow> loop_detector" where
  "detector_cap os d =
     d\<lparr>ld_entries := cap_map (mo_entries os) le_last_seen (ld_entries d),
       ld_task_recent := cap_map (mo_recent os) fst (ld_task_recent d)\<rparr>"

definition within :: "duration \<Rightarrow> nat \<Rightarrow> nat \<Rightarrow> bool" where
  "within window seen now \<longleftrightarrow> now - seen \<le> window"

definition detector_prune :: "map_orders \<Rightarrow> nat \<Rightarrow> loop_detector \<Rightarrow> loop_detector" where
  "detector_prune os now d =
     (let w = lp_window (ld_policy d) in
      detector_cap os
        (d\<lparr>ld_entries := filter (\<lambda>e. within w (le_last_seen (snd e)) now) (ld_entries d),
           ld_task_recent := filter (\<lambda>e. within w (fst (snd e)) now) (ld_task_recent d)\<rparr>))"

text \<open>\<open>rfind('/')\<close>, the position of the last slash.\<close>

definition last_slash :: "string \<Rightarrow> nat option" where
  "last_slash path =
     (if CHR ''/'' \<in> set path then Some (length path - length (takeWhile (\<lambda>c. c \<noteq> CHR ''/'') (rev path)) - 1) else None)"

definition hint_for :: "string \<Rightarrow> string" where
  "hint_for path =
     (case last_slash path of
        Some i \<Rightarrow> if 0 < i then ''consider ignoring '' @ take i path @ ''/**'' else ''consider ignoring '' @ path
      | None \<Rightarrow> ''consider ignoring '' @ path)"

definition fresh_entry :: "nat \<Rightarrow> loop_entry" where
  "fresh_entry now = \<lparr>le_count = 0, le_last_seen = now, le_warned = False\<rparr>"

text \<open>The entry of a key, started afresh when it is missing or expired, and the earlier run of a task.\<close>

definition current_entry :: "loop_detector \<Rightarrow> nat \<Rightarrow> loop_key \<Rightarrow> loop_entry" where
  "current_entry d now key =
     (let entry = (case map_of (ld_entries d) key of Some e \<Rightarrow> e | None \<Rightarrow> fresh_entry now) in
      if within (lp_window (ld_policy d)) (le_last_seen entry) now then entry else fresh_entry now)"

definition earlier_run :: "loop_detector \<Rightarrow> nat \<Rightarrow> string \<Rightarrow> nat option" where
  "earlier_run d now task =
     (case map_of (ld_task_recent d) task of
        Some (seen, run) \<Rightarrow> if within (lp_window (ld_policy d)) seen now then Some run else None
      | None \<Rightarrow> None)"

definition remember_run :: "nat \<Rightarrow> string \<Rightarrow> nat option \<Rightarrow> (string \<times> nat \<times> nat) list \<Rightarrow> (string \<times> nat \<times> nat) list" where
  "remember_run now task generation recent =
     (case generation of Some run \<Rightarrow> AList.update task (now, run) recent | None \<Rightarrow> recent)"

definition detector_observe ::
  "map_orders \<Rightarrow> nat \<Rightarrow> loop_key \<Rightarrow> nat option \<Rightarrow> loop_detector \<Rightarrow> loop_observation \<times> loop_detector" where
  "detector_observe os now key generation d =
     (let d = detector_prune os now d;
          (task, path, rule) = key;
          observed_after_run = earlier_run d now task;
          repeats = le_count (current_entry d now key) + 1;
          warned = le_warned (current_entry d now key);
          warns = (lp_min_repeats (ld_policy d) \<le> repeats \<and> \<not> warned);
          warning = (if warns
                     then Some \<lparr>lw_task = task, lw_path = path, lw_rule = rule, lw_repeats = repeats,
                                lw_generation = (case generation of Some g \<Rightarrow> Some g | None \<Rightarrow> observed_after_run),
                                lw_hint = hint_for path\<rparr>
                     else None);
          entry = \<lparr>le_count = repeats, le_last_seen = now, le_warned = (warned \<or> warns)\<rparr>
      in (\<lparr>lo_repeats = repeats, lo_generation = generation, lo_observed_after_run = observed_after_run, lo_warning = warning\<rparr>,
          detector_cap os
            (d\<lparr>ld_entries := AList.update key entry (ld_entries d),
               ld_task_recent := remember_run now task generation (ld_task_recent d)\<rparr>)))"

section \<open>The sink\<close>

text \<open>The process-wide state: a sink when diagnostics are enabled, and the printed lines.\<close>

record sink =
  sk_seq :: nat
  sk_detector :: loop_detector

record diag_state =
  ds_sink :: "sink option"
  ds_lines :: "string list"

definition diag_init :: "bool \<Rightarrow> diag_state \<Rightarrow> diag_state" where
  "diag_init enable s =
     s\<lparr>ds_sink := if enable then Some \<lparr>sk_seq = 0, sk_detector = detector_new loop_policy_default\<rparr> else None\<rparr>"

definition enabled :: "diag_state \<Rightarrow> bool" where
  "enabled s \<longleftrightarrow> ds_sink s \<noteq> None"

definition debug :: "diag_record \<Rightarrow> diag_state \<Rightarrow> diag_state" where
  "debug r s =
     (case ds_sink s of
        None \<Rightarrow> s
      | Some k \<Rightarrow>
          let seq = sk_seq k + 1 in
          s\<lparr>ds_sink := Some (k\<lparr>sk_seq := seq\<rparr>), ds_lines := ds_lines s @ [render_record (r\<lparr>dr_seq := Some seq\<rparr>)]\<rparr>)"

definition warn_loop :: "loop_warning \<Rightarrow> diag_state \<Rightarrow> diag_state" where
  "warn_loop w s =
     (if enabled s then s\<lparr>ds_lines := ds_lines s @ [''Funzzy warning: '' @ render_loop_warning w]\<rparr> else s)"

definition observe_trigger ::
  "map_orders \<Rightarrow> nat \<Rightarrow> loop_key \<Rightarrow> nat option \<Rightarrow> diag_state \<Rightarrow> loop_observation option \<times> diag_state" where
  "observe_trigger os now key generation s =
     (case ds_sink s of
        None \<Rightarrow> (None, s)
      | Some k \<Rightarrow>
          (case detector_observe os now key generation (sk_detector k) of
             (observation, d) \<Rightarrow> (Some observation, s\<lparr>ds_sink := Some (k\<lparr>sk_detector := d\<rparr>)\<rparr>)))"

section \<open>The records of a batch\<close>

definition path_decision :: "watch_env \<Rightarrow> watches \<Rightarrow> batch \<Rightarrow> string \<Rightarrow> diag_record list result" where
  "path_decision env wt b path =
     and_then (explain env wt path) (\<lambda>x.
     Inr (if ex_ignored x \<noteq> [] then
            map (\<lambda>r. no_record\<lparr>dr_batch := Some (bt_id b), dr_decision := Some ''ignored'', dr_task := Some (er_name r),
                       dr_ignore := (case er_ignore_patterns r of p # _ \<Rightarrow> Some p | [] \<Rightarrow> None),
                       dr_rule_origin := Some (er_origin r), dr_path := Some path,
                       dr_normalized := Some (normalized_path wt path)\<rparr>) (ex_ignored x)
          else if ex_matched x = [] then
            [no_record\<lparr>dr_batch := Some (bt_id b), dr_decision := Some ''unmatched'', dr_path := Some path,
                       dr_normalized := Some (normalized_path wt path)\<rparr>]
          else []))"

fun path_decisions :: "watch_env \<Rightarrow> watches \<Rightarrow> batch \<Rightarrow> string list \<Rightarrow> diag_record list result" where
  "path_decisions env wt b [] = Inr []"
| "path_decisions env wt b (p # ps) =
     and_then (path_decision env wt b p) (\<lambda>rs. and_then (path_decisions env wt b ps) (\<lambda>more. Inr (rs @ more)))"

definition matched_decisions :: "watch_env \<Rightarrow> watches \<Rightarrow> batch \<Rightarrow> string \<Rightarrow> diag_record list result" where
  "matched_decisions env wt b trigger =
     and_then (explain env wt trigger) (\<lambda>x.
     and_then (path_decisions env wt b (filter (\<lambda>p. p \<noteq> trigger) (bt_changed b))) (\<lambda>rest.
     Inr (map (\<lambda>r. no_record\<lparr>dr_batch := Some (bt_id b), dr_decision := Some ''matched'', dr_task := Some (er_name r),
                    dr_change := (case er_change_patterns r of p # _ \<Rightarrow> Some p | [] \<Rightarrow> None),
                    dr_rule_origin := Some (er_origin r)\<rparr>) (ex_matched x) @ rest)))"

definition non_matched_decisions :: "watch_env \<Rightarrow> watches \<Rightarrow> batch \<Rightarrow> diag_record list result" where
  "non_matched_decisions env wt b = path_decisions env wt b (bt_changed b)"

definition observe_rule ::
  "map_orders \<Rightarrow> nat \<Rightarrow> watches \<Rightarrow> batch \<Rightarrow> string \<Rightarrow> nat option \<Rightarrow> explain_rule \<Rightarrow> diag_state \<Rightarrow> diag_state" where
  "observe_rule os now wt b trigger generation r s =
     (let change = (case er_change_patterns r of p # _ \<Rightarrow> p | [] \<Rightarrow> []) in
      case observe_trigger os now (er_name r, trigger, change) generation s of
        (None, s) \<Rightarrow> s
      | (Some x, s) \<Rightarrow>
          let s = (case lo_warning x of Some w \<Rightarrow> warn_loop w s | None \<Rightarrow> s) in
          (case lo_observed_after_run x of
             Some after \<Rightarrow>
               debug (no_record\<lparr>dr_batch := Some (bt_id b), dr_source := Some ''filesystem'', dr_kind := Some ''any'',
                        dr_path := Some trigger, dr_normalized := Some (normalized_path wt trigger),
                        dr_observed_after_run := Some after\<rparr>) s
           | None \<Rightarrow> s))"

text \<open>The clock is read anew for every matched job.\<close>

definition observe_triggers ::
  "watch_env \<Rightarrow> map_orders \<Rightarrow> (nat \<Rightarrow> nat) \<Rightarrow> watches \<Rightarrow> batch \<Rightarrow> string \<Rightarrow> nat option \<Rightarrow> diag_state \<Rightarrow> diag_state result" where
  "observe_triggers env os clock wt b trigger generation s =
     and_then (explain env wt trigger) (\<lambda>x.
     Inr (fold (\<lambda>(i, r). observe_rule os (clock i) wt b trigger generation r) (enumerate 0 (ex_matched x)) s))"

section \<open>One record, one line\<close>

lemma join_with_chars: "c \<notin> set sep \<Longrightarrow> c \<in> set (join_with sep xs) \<longleftrightarrow> (\<exists>x\<in>set xs. c \<in> set x)"
  by (induction sep xs rule: join_with.induct) auto

lemma quote_value_chars: "c \<noteq> CHR 0x22 \<Longrightarrow> c \<noteq> CHR 0x5C \<Longrightarrow> c \<in> set (quote_value v) \<longleftrightarrow> c \<in> set v"
  by (auto simp: quote_value_def escape_quotes_def split: if_splits)

lemma newline_char: "newline = CHR 0x0A"
  by code_simp

lemma record_keys_plain: "(key, v) \<in> set (record_parts r) \<Longrightarrow> newline \<notin> set key"
  by (auto simp: record_parts_def push_part_def newline_char split: option.splits)

text \<open>
  A record is printed as one line exactly when no value of it has a line break: values are quoted, but
  line breaks in them are not escaped.
\<close>

lemma record_is_one_line_iff:
  "newline \<notin> set (render_record r) \<longleftrightarrow> (\<forall>(key, v)\<in>set (record_parts r). newline \<notin> set v)"
proof -
  have "newline \<notin> set '' ''" "newline \<notin> set ''Funzzy debug: ''" "newline \<notin> set ''=''" "newline \<noteq> CHR 0x22" "newline \<noteq> CHR 0x5C"
    by (simp_all add: newline_char)
  then show ?thesis
    using record_keys_plain by (fastforce simp: render_record_def join_with_chars quote_value_chars)
qed

text \<open>The position of a command and its text share a key, so different records may print the same line.\<close>

lemma position_and_command_look_alike:
  "render_record (no_record\<lparr>dr_command_position := Some (1, 2)\<rparr>) = render_record (no_record\<lparr>dr_command := Some ''1/2''\<rparr>)"
  by code_simp

section \<open>The detector stays bounded\<close>

record trigger =
  tg_orders :: map_orders
  tg_now :: nat
  tg_key :: loop_key
  tg_generation :: "nat option"

definition tg_task :: "trigger \<Rightarrow> string" where
  "tg_task t = fst (tg_key t)"

definition observe_one :: "trigger \<Rightarrow> loop_detector \<Rightarrow> loop_observation \<times> loop_detector" where
  "observe_one t = detector_observe (tg_orders t) (tg_now t) (tg_key t) (tg_generation t)"

definition after_triggers :: "trigger list \<Rightarrow> loop_detector \<Rightarrow> loop_detector" where
  "after_triggers ts d = fold (\<lambda>t d. snd (observe_one t d)) ts d"

definition iterates_all :: "map_orders \<Rightarrow> bool" where
  "iterates_all os \<longleftrightarrow> (\<forall>xs. set (mo_entries os xs) = set xs) \<and> (\<forall>xs. set (mo_recent os xs) = set xs)"

lemma min_by_key_in: "min_by_key f xs = Some x \<Longrightarrow> x \<in> set xs"
proof (cases xs)
  case (Cons a ys)
  have "fold (\<lambda>y best. if f y < f best then y else best) ys b \<in> insert b (set ys)" for b
  proof (induction ys arbitrary: b)
    case (Cons y ys)
    show ?case using Cons [of "if f y < f b then y else b"] by auto
  qed simp
  with Cons show "min_by_key f xs = Some x \<Longrightarrow> x \<in> set xs" by auto
qed simp

lemma cap_map_small: "length xs \<le> MAX_KEYS \<Longrightarrow> cap_map ord seen xs = xs"
  by (simp add: cap_map.simps)

lemma cap_map_filters: "\<exists>P. cap_map ord seen xs = filter P xs"
proof (induction ord seen xs rule: cap_map.induct)
  case (1 ord seen xs)
  have "\<exists>P. xs = filter P xs" by (rule exI [of _ "\<lambda>_. True"]) simp
  with 1 show ?case
    by (subst (1) cap_map.simps) (force simp: Let_def split: option.split)
qed

lemma cap_map_length:
  assumes "\<And>ys. set (ord ys) = set ys"
  shows "length (cap_map ord seen xs) \<le> MAX_KEYS"
proof (induction xs rule: measure_induct_rule [of length])
  case (less xs)
  show ?case
  proof (cases "length xs \<le> MAX_KEYS")
    case False
    then have "ord xs \<noteq> []" using assms [of xs] by auto
    then obtain oldest where oldest: "min_by_key (\<lambda>e. seen (snd e)) (ord xs) = Some oldest" by (cases "ord xs") auto
    then have "oldest \<in> set xs" using min_by_key_in assms by metis
    then have "length (filter (\<lambda>e. fst e \<noteq> fst oldest) xs) < length xs" by (intro length_filter_less [of oldest]) auto
    with less False oldest show ?thesis by (subst cap_map.simps) (simp add: Let_def)
  qed (simp add: cap_map_small)
qed

definition keyed :: "('k \<times> 'v) list \<Rightarrow> bool" where
  "keyed xs \<longleftrightarrow> distinct (map fst xs)"

lemma keyed_filter [simp]: "keyed xs \<Longrightarrow> keyed (filter P xs)"
  by (induction xs) (auto simp: keyed_def)

lemma keyed_cap [simp]: "keyed xs \<Longrightarrow> keyed (cap_map ord seen xs)"
  using cap_map_filters [of ord seen xs] by auto

lemma keyed_update [simp]: "keyed xs \<Longrightarrow> keyed (AList.update k v xs)"
  by (simp add: keyed_def distinct_update)

lemma keyed_Nil [simp]: "keyed []"
  by (simp add: keyed_def)

definition detector_ok :: "loop_detector \<Rightarrow> bool" where
  "detector_ok d \<longleftrightarrow> keyed (ld_entries d) \<and> keyed (ld_task_recent d)"

lemma detector_prune_ok: "detector_ok d \<Longrightarrow> detector_ok (detector_prune os now d)"
  by (simp add: detector_prune_def Let_def detector_ok_def detector_cap_def)

lemma detector_observe_ok: "detector_ok d \<Longrightarrow> detector_ok (snd (detector_observe os now key generation d))"
  using detector_prune_ok [of d os now]
  by (cases generation; cases key) (simp_all add: detector_observe_def Let_def detector_ok_def detector_cap_def remember_run_def)

lemma detector_observe_bounded:
  assumes "iterates_all os"
  shows "length (ld_entries (snd (detector_observe os now key generation d))) \<le> MAX_KEYS"
    and "length (ld_task_recent (snd (detector_observe os now key generation d))) \<le> MAX_KEYS"
  using assms by (cases key; auto simp: detector_observe_def Let_def detector_cap_def iterates_all_def intro!: cap_map_length)+

text \<open>
  The detector never holds more than 512 keys and 512 tasks, each once, whatever triggers it observes
  and in whatever order its maps are iterated.
\<close>

theorem detector_stays_bounded:
  assumes "\<forall>t\<in>set ts. iterates_all (tg_orders t)"
  shows "length (ld_entries (after_triggers ts (detector_new p))) \<le> MAX_KEYS \<and>
    length (ld_task_recent (after_triggers ts (detector_new p))) \<le> MAX_KEYS \<and>
    distinct (map fst (ld_entries (after_triggers ts (detector_new p)))) \<and>
    distinct (map fst (ld_task_recent (after_triggers ts (detector_new p))))"
proof -
  have "detector_ok (after_triggers ts d)" if "detector_ok d" for d
    using that by (induction ts arbitrary: d) (simp_all add: after_triggers_def observe_one_def detector_observe_ok)
  moreover have "detector_ok (detector_new p)" by (simp add: detector_ok_def detector_new_def)
  moreover have "length (ld_entries (after_triggers ts (detector_new p))) \<le> MAX_KEYS \<and>
      length (ld_task_recent (after_triggers ts (detector_new p))) \<le> MAX_KEYS"
    using assms
    by (induction ts rule: rev_induct)
      (simp_all add: after_triggers_def detector_new_def observe_one_def detector_observe_bounded)
  ultimately show ?thesis by (simp add: detector_ok_def keyed_def)
qed

section \<open>Repeats are chains\<close>

text \<open>
  The specification over the triggers seen so far, newest first: the length of the chain of triggers with
  the same key in which every gap, the one up to now included, is within the window; and the generation
  of the latest trigger of the task that had one, if it is within the window.
\<close>

fun chain :: "duration \<Rightarrow> nat \<Rightarrow> loop_key \<Rightarrow> trigger list \<Rightarrow> nat" where
  "chain w now k [] = 0"
| "chain w now k (t # ts) =
     (if tg_key t = k then if within w (tg_now t) now then Suc (chain w (tg_now t) k ts) else 0
      else chain w now k ts)"

fun recent_run :: "duration \<Rightarrow> nat \<Rightarrow> string \<Rightarrow> trigger list \<Rightarrow> nat option" where
  "recent_run w now task [] = None"
| "recent_run w now task (t # ts) =
     (case tg_generation t of
        Some run \<Rightarrow> if tg_task t = task then if within w (tg_now t) now then Some run else None
                    else recent_run w now task ts
      | None \<Rightarrow> recent_run w now task ts)"

definition entry_sound :: "loop_policy \<Rightarrow> nat \<Rightarrow> nat \<Rightarrow> loop_entry option \<Rightarrow> nat \<Rightarrow> bool" where
  "entry_sound p T now e n =
     (case e of
        None \<Rightarrow> n = 0
      | Some e \<Rightarrow> le_last_seen e \<le> T \<and> 0 < le_count e \<and> (le_warned e \<longleftrightarrow> lp_min_repeats p \<le> le_count e) \<and>
          n = (if within (lp_window p) (le_last_seen e) now then le_count e else 0))"

definition recent_sound :: "loop_policy \<Rightarrow> nat \<Rightarrow> nat \<Rightarrow> (nat \<times> nat) option \<Rightarrow> nat option \<Rightarrow> bool" where
  "recent_sound p T now e r =
     (case e of
        None \<Rightarrow> r = None
      | Some (seen, run) \<Rightarrow> seen \<le> T \<and> r = (if within (lp_window p) seen now then Some run else None))"

definition detector_sees :: "loop_policy \<Rightarrow> nat \<Rightarrow> trigger list \<Rightarrow> loop_detector \<Rightarrow> bool" where
  "detector_sees p T hist d \<longleftrightarrow>
     ld_policy d = p \<and> detector_ok d \<and>
     fst ` set (ld_entries d) \<subseteq> tg_key ` set hist \<and> fst ` set (ld_task_recent d) \<subseteq> tg_task ` set hist \<and>
     (\<forall>k now. T \<le> now \<longrightarrow> entry_sound p T now (map_of (ld_entries d) k) (chain (lp_window p) now k hist)) \<and>
     (\<forall>task now. T \<le> now \<longrightarrow> recent_sound p T now (map_of (ld_task_recent d) task) (recent_run (lp_window p) now task hist))"

lemma within_later: "\<not> within w seen now \<Longrightarrow> now \<le> now' \<Longrightarrow> \<not> within w seen now'"
  by (simp add: within_def)

lemma map_of_filter_keyed:
  "keyed xs \<Longrightarrow> map_of (filter (\<lambda>e. P (snd e)) xs) k =
     (case map_of xs k of Some v \<Rightarrow> if P v then Some v else None | None \<Rightarrow> None)"
proof (induction xs)
  case (Cons x xs)
  have "keyed xs" using Cons.prems by (simp add: keyed_def)
  moreover have "map_of xs (fst x) = None" using Cons.prems by (simp add: keyed_def map_of_eq_None_iff)
  ultimately show ?case using Cons.IH by (cases x) auto
qed simp

lemma keyed_bounded:
  assumes "keyed xs" and "fst ` set xs \<subseteq> A" and "finite A" and "card A \<le> n"
  shows "length xs \<le> n"
proof -
  have "length xs = card (fst ` set xs)" using assms(1) by (metis distinct_card keyed_def length_map list.set_map)
  also have "\<dots> \<le> card A" using assms(2,3) by (rule card_mono [rotated])
  finally show ?thesis using assms(4) by simp
qed

lemma tasks_fewer: "card (tg_task ` set hist) \<le> card (tg_key ` set hist)"
  unfolding tg_task_def image_image [of fst tg_key, symmetric] by (rule card_image_le) simp

text \<open>Pruning at a later time keeps the view, and nothing is evicted below the bound.\<close>

lemma prune_sees:
  assumes sees: "detector_sees p T hist d" and later: "T \<le> now" and few: "card (tg_key ` set hist) \<le> MAX_KEYS"
  shows "detector_sees p now hist (detector_prune os now d)"
    and "\<forall>e\<in>set (ld_entries (detector_prune os now d)). within (lp_window p) (le_last_seen (snd e)) now"
    and "\<forall>e\<in>set (ld_task_recent (detector_prune os now d)). within (lp_window p) (fst (snd e)) now"
proof -
  let ?w = "lp_window p"
  let ?es = "filter (\<lambda>e. within ?w (le_last_seen (snd e)) now) (ld_entries d)"
  let ?rs = "filter (\<lambda>e. within ?w (fst (snd e)) now) (ld_task_recent d)"
  have ok: "keyed (ld_entries d)" "keyed (ld_task_recent d)" "ld_policy d = p"
    using sees by (simp_all add: detector_sees_def detector_ok_def)
  have "fst ` set ?es \<subseteq> tg_key ` set hist" "fst ` set ?rs \<subseteq> tg_task ` set hist"
    using sees by (auto simp: detector_sees_def)
  then have "length ?es \<le> MAX_KEYS" "length ?rs \<le> MAX_KEYS"
    using few ok tasks_fewer [of hist] keyed_bounded [of ?es "tg_key ` set hist" MAX_KEYS]
      keyed_bounded [of ?rs "tg_task ` set hist" MAX_KEYS]
    by simp_all
  then have pruned: "detector_prune os now d = d\<lparr>ld_entries := ?es, ld_task_recent := ?rs\<rparr>"
    by (simp add: detector_prune_def Let_def detector_cap_def cap_map_small ok(3))
  show "\<forall>e\<in>set (ld_entries (detector_prune os now d)). within ?w (le_last_seen (snd e)) now"
    "\<forall>e\<in>set (ld_task_recent (detector_prune os now d)). within ?w (fst (snd e)) now"
    by (simp_all add: pruned)
  have "entry_sound p now now' (map_of ?es k) (chain ?w now' k hist)" if "now \<le> now'" for k now'
  proof -
    have "entry_sound p T now' (map_of (ld_entries d) k) (chain ?w now' k hist)"
      using sees later that unfolding detector_sees_def by (blast intro: le_trans)
    then show ?thesis
      using later that within_later [of ?w _ now now'] ok(1)
      by (auto simp: map_of_filter_keyed [where P = "\<lambda>e. within ?w (le_last_seen e) now"] entry_sound_def split: option.splits)
  qed
  moreover have "recent_sound p now now' (map_of ?rs k) (recent_run ?w now' k hist)" if "now \<le> now'" for k now'
  proof -
    have "recent_sound p T now' (map_of (ld_task_recent d) k) (recent_run ?w now' k hist)"
      using sees later that unfolding detector_sees_def by (blast intro: le_trans)
    then show ?thesis
      using later that within_later [of ?w _ now now'] ok(2)
      by (auto simp: map_of_filter_keyed [where P = "\<lambda>e. within ?w (fst e) now"] recent_sound_def split: option.splits)
  qed
  ultimately show "detector_sees p now hist (detector_prune os now d)"
    using sees ok by (auto simp: pruned detector_sees_def detector_ok_def)
qed

text \<open>
  One observation after pruning: its answers are those of the specification, and the detector it leaves
  is the pruned one with the new entry.
\<close>

definition with_trigger :: "loop_policy \<Rightarrow> trigger \<Rightarrow> nat \<Rightarrow> loop_detector \<Rightarrow> loop_detector" where
  "with_trigger p t n d = d
     \<lparr>ld_entries := AList.update (tg_key t)
        \<lparr>le_count = n + 1, le_last_seen = tg_now t, le_warned = (lp_min_repeats p \<le> n + 1)\<rparr> (ld_entries d),
      ld_task_recent := remember_run (tg_now t) (tg_task t) (tg_generation t) (ld_task_recent d)\<rparr>"

lemma observation_answers:
  fixes t :: trigger and d :: loop_detector and p :: loop_policy and hist :: "trigger list"
  defines "d1 \<equiv> detector_prune (tg_orders t) (tg_now t) d" and "n \<equiv> chain (lp_window p) (tg_now t) (tg_key t) hist"
  assumes sees: "detector_sees p (tg_now t) hist d1"
    and fresh: "\<forall>e\<in>set (ld_entries d1). within (lp_window p) (le_last_seen (snd e)) (tg_now t)"
  shows "lo_repeats (fst (observe_one t d)) = n + 1"
    and "lo_warning (fst (observe_one t d)) \<noteq> None \<longleftrightarrow> n + 1 = max 1 (lp_min_repeats p)"
    and "lo_observed_after_run (fst (observe_one t d)) = recent_run (lp_window p) (tg_now t) (tg_task t) hist"
    and "snd (observe_one t d) = detector_cap (tg_orders t) (with_trigger p t n d1)"
proof -
  let ?now = "tg_now t" and ?k = "tg_key t"
  have policy: "ld_policy d1 = p" using sees by (simp add: detector_sees_def)
  have "entry_sound p ?now ?now (map_of (ld_entries d1) ?k) n"
    using sees unfolding detector_sees_def n_def by blast
  then have e0: "le_count (current_entry d1 ?now ?k) = n" "le_warned (current_entry d1 ?now ?k) \<longleftrightarrow> lp_min_repeats p \<le> n \<and> 0 < n"
    using fresh map_of_SomeD [of "ld_entries d1" ?k]
    by (auto simp: current_entry_def Let_def entry_sound_def fresh_entry_def within_def policy split: option.splits)
  have "recent_sound p ?now ?now (map_of (ld_task_recent d1) (tg_task t)) (recent_run (lp_window p) ?now (tg_task t) hist)"
    using sees unfolding detector_sees_def by blast
  then have run: "earlier_run d1 ?now (tg_task t) = recent_run (lp_window p) ?now (tg_task t) hist"
    by (auto simp: earlier_run_def recent_sound_def policy split: option.splits)
  obtain task path rule where k: "?k = (task, path, rule)" by (rule prod_cases3)
  then have task: "tg_task t = task" by (simp add: tg_task_def)
  have warned: "(lp_min_repeats p \<le> n \<and> 0 < n) \<or> (lp_min_repeats p \<le> n + 1 \<and> \<not> (lp_min_repeats p \<le> n \<and> 0 < n)) \<longleftrightarrow> lp_min_repeats p \<le> n + 1"
    by auto
  have obs: "lo_repeats (fst (observe_one t d)) = n + 1" "lo_observed_after_run (fst (observe_one t d)) = earlier_run d1 ?now (tg_task t)"
    "lo_warning (fst (observe_one t d)) \<noteq> None \<longleftrightarrow> lp_min_repeats p \<le> n + 1 \<and> \<not> (lp_min_repeats p \<le> n \<and> 0 < n)"
    "snd (observe_one t d) = detector_cap (tg_orders t) (with_trigger p t n d1)"
    unfolding observe_one_def detector_observe_def Let_def d1_def [symmetric] k prod.case e0 [unfolded k] policy warned with_trigger_def task
    by simp_all
  show "lo_repeats (fst (observe_one t d)) = n + 1" "snd (observe_one t d) = detector_cap (tg_orders t) (with_trigger p t n d1)"
    "lo_observed_after_run (fst (observe_one t d)) = recent_run (lp_window p) ?now (tg_task t) hist"
    by (simp_all add: obs run)
  show "lo_warning (fst (observe_one t d)) \<noteq> None \<longleftrightarrow> n + 1 = max 1 (lp_min_repeats p)"
    unfolding obs by auto
qed

lemma with_trigger_sees:
  assumes sees: "detector_sees p (tg_now t) hist d" and n: "n = chain (lp_window p) (tg_now t) (tg_key t) hist"
  shows "detector_sees p (tg_now t) (t # hist) (with_trigger p t n d)"
proof -
  let ?w = "lp_window p" and ?now = "tg_now t" and ?d = "with_trigger p t n d"
  have keyed: "keyed (ld_entries ?d)" "keyed (ld_task_recent ?d)"
    using sees by (simp_all add: with_trigger_def remember_run_def detector_sees_def detector_ok_def split: option.split)
  have keys: "fst ` set (ld_entries ?d) \<subseteq> tg_key ` set (t # hist)" "fst ` set (ld_task_recent ?d) \<subseteq> tg_task ` set (t # hist)"
    using sees by (auto simp: with_trigger_def detector_sees_def remember_run_def dom_update split: option.splits)
  have "entry_sound p ?now now' (map_of (ld_entries ?d) k') (chain ?w now' k' (t # hist))" if "?now \<le> now'" for k' now'
  proof (cases "k' = tg_key t")
    case True
    then show ?thesis by (simp add: with_trigger_def update_conv' entry_sound_def n)
  next
    case False
    moreover have "entry_sound p ?now now' (map_of (ld_entries d) k') (chain ?w now' k' hist)"
      using sees that unfolding detector_sees_def by blast
    ultimately show ?thesis by (simp add: with_trigger_def update_conv')
  qed
  moreover have "recent_sound p ?now now' (map_of (ld_task_recent ?d) name) (recent_run ?w now' name (t # hist))" if "?now \<le> now'" for name now'
  proof -
    have "recent_sound p ?now now' (map_of (ld_task_recent d) name) (recent_run ?w now' name hist)"
      using sees that unfolding detector_sees_def by blast
    then show ?thesis by (auto simp: with_trigger_def remember_run_def update_conv' recent_sound_def split: option.split)
  qed
  ultimately show ?thesis
    using keyed keys sees unfolding detector_sees_def detector_ok_def by (simp add: with_trigger_def)
qed

lemma observe_sees:
  assumes sees: "detector_sees p T hist d" and later: "T \<le> tg_now t"
    and few: "card (tg_key ` set (t # hist)) \<le> MAX_KEYS"
  shows "detector_sees p (tg_now t) (t # hist) (snd (observe_one t d))"
    and "lo_repeats (fst (observe_one t d)) = chain (lp_window p) (tg_now t) (tg_key t) hist + 1"
    and "lo_warning (fst (observe_one t d)) \<noteq> None \<longleftrightarrow>
      lo_repeats (fst (observe_one t d)) = max 1 (lp_min_repeats p)"
    and "lo_observed_after_run (fst (observe_one t d)) = recent_run (lp_window p) (tg_now t) (tg_task t) hist"
proof -
  let ?d1 = "detector_prune (tg_orders t) (tg_now t) d" and ?n = "chain (lp_window p) (tg_now t) (tg_key t) hist"
  have "card (tg_key ` set hist) \<le> MAX_KEYS"
    using few by (rule order_trans [OF card_mono, rotated 2]) auto
  note pruned = prune_sees [OF sees later this, of "tg_orders t"]
  note answers = observation_answers [OF pruned(1,2)]
  then show "lo_repeats (fst (observe_one t d)) = ?n + 1"
    "lo_observed_after_run (fst (observe_one t d)) = recent_run (lp_window p) (tg_now t) (tg_task t) hist"
    "lo_warning (fst (observe_one t d)) \<noteq> None \<longleftrightarrow> lo_repeats (fst (observe_one t d)) = max 1 (lp_min_repeats p)"
    by simp_all
  let ?d2 = "with_trigger p t ?n ?d1"
  have d2: "detector_sees p (tg_now t) (t # hist) ?d2" by (rule with_trigger_sees [OF pruned(1) refl])
  then have "length (ld_entries ?d2) \<le> MAX_KEYS" "length (ld_task_recent ?d2) \<le> MAX_KEYS"
    using few tasks_fewer [of "t # hist"] keyed_bounded [of "ld_entries ?d2" "tg_key ` set (t # hist)" MAX_KEYS]
      keyed_bounded [of "ld_task_recent ?d2" "tg_task ` set (t # hist)" MAX_KEYS]
    by (simp_all add: detector_sees_def detector_ok_def)
  then show "detector_sees p (tg_now t) (t # hist) (snd (observe_one t d))"
    using d2 by (simp add: answers(4) detector_cap_def cap_map_small)
qed


section \<open>Scenarios\<close>

definition hash_orders :: map_orders where
  "hash_orders = \<lparr>mo_entries = rev, mo_recent = rev\<rparr>"

definition saved_at :: "nat \<Rightarrow> nat \<Rightarrow> trigger" where
  "saved_at now run = \<lparr>tg_orders = hash_orders, tg_now = now, tg_key = (''gen'', ''out/a.rs'', ''**''), tg_generation = Some run\<rparr>"

theorem detector_stays_bounded_witness:
  "length (ld_entries (after_triggers [saved_at 1 1, saved_at 2 2] (detector_new loop_policy_default))) \<le> 512"
proof -
  have "\<forall>t\<in>set [saved_at 1 1, saved_at 2 2]. iterates_all (tg_orders t)"
    by (simp add: saved_at_def hash_orders_def iterates_all_def)
  from detector_stays_bounded [OF this, of loop_policy_default] show ?thesis by (simp add: MAX_KEYS_def)
qed


section \<open>Diagnostics are numbered and otherwise inert\<close>

text \<open>
  Records carry the numbers 1, 2, 3 in the order in which they are printed, and nothing is printed or
  remembered while diagnostics are off.
\<close>

lemma debug_numbers_records:
  assumes "ds_sink s = Some k"
  shows "ds_lines (fold debug rs s) = ds_lines s @ map (\<lambda>(i, r). render_record (r\<lparr>dr_seq := Some i\<rparr>)) (enumerate (sk_seq k + 1) rs)"
  using assms
proof (induction rs arbitrary: s k)
  case (Cons r rs)
  let ?k = "k\<lparr>sk_seq := sk_seq k + 1\<rparr>"
  have "ds_sink (debug r s) = Some ?k" "ds_lines (debug r s) = ds_lines s @ [render_record (r\<lparr>dr_seq := Some (sk_seq k + 1)\<rparr>)]"
    using Cons.prems by (simp_all add: debug_def)
  with Cons.IH [of "debug r s" ?k] show ?case by simp
qed simp

lemma disabled_is_silent: "ds_sink s = None \<Longrightarrow> fold debug rs s = s \<and> warn_loop w s = s \<and> observe_trigger os now k g s = (None, s)"
  by (induction rs) (simp_all add: debug_def warn_loop_def enabled_def observe_trigger_def)

end
