(* ===== verification/Event_Stream.thy ===== *)
theory Event_Stream
  imports Wire_Format "HOL-Library.Countable"
begin

text \<open>
  The run-event stream, \<open>src/src/event_stream.rs\<close>: every executor event becomes one JSON object on a
  line of its own in a file; a failed write warns once and switches the stream off.

  The buffered file is a record of functions over an arbitrary environment, with its documented behaviour
  as the predicate \<open>appends\<close>; so is the text encoding of \<open>serde_json\<close> (\<open>one_line_text\<close>).

  Shown: whatever writes fail, the file holds the records of a prefix of the events in order, followed by
  at most a part of the next one, with one warning when the stream went off; and a reader of a complete
  file gets back the kind and the generation of every event in order.
\<close>

section \<open>Records\<close>

definition EVENT_SCHEMA_VERSION :: nat where
  "EVENT_SCHEMA_VERSION = 1"

definition event_record :: "nat \<Rightarrow> event \<Rightarrow> json" where
  "event_record ts_ms e =
     (case e of
        EvStarted st \<Rightarrow> jobject
          [(''schemaVersion'', jnat EVENT_SCHEMA_VERSION), (''event'', JStr ''started''), (''runId'', jnat (st_run_id st)),
           (''tsMs'', jnat ts_ms), (''trigger'', JStr (st_trigger st)), (''batch'', joption jnat (st_batch st)),
           (''predecessor'', joption jnat (st_predecessor st)), (''changed'', jstrings (st_changed st)),
           (''commands'', jstrings (st_commands st)), (''target'', joption JStr (st_target st)),
           (''effectiveConcurrency'', joption jnat (st_effective_concurrency st)),
           (''concurrencySource'', joption JStr (st_concurrency_source st))]
      | EvTick task occurrence \<Rightarrow> jobject
          [(''schemaVersion'', jnat EVENT_SCHEMA_VERSION), (''event'', JStr ''tick''), (''runId'', JNull), (''tsMs'', jnat ts_ms),
           (''task'', JStr task), (''group'', joption JStr occurrence)]
      | EvTaskTerminal run task \<Rightarrow> jobject
          [(''schemaVersion'', jnat EVENT_SCHEMA_VERSION), (''event'', JStr ''task_terminal''), (''runId'', jnat run),
           (''tsMs'', jnat ts_ms), (''task'', JStr (ts_name task)), (''group'', JStr (ts_id task)),
           (''state'', json_task_state (ts_state task)), (''durationMs'', joption jnat (ts_duration_ms task))]
      | EvFinished run superseded elapsed failed \<Rightarrow> jobject
          [(''schemaVersion'', jnat EVENT_SCHEMA_VERSION), (''event'', JStr ''finished''), (''runId'', jnat run),
           (''tsMs'', jnat ts_ms), (''elapsedMs'', jnat (millis_u64 elapsed)), (''failures'', jstrings failed),
           (''supersededBy'', joption jnat superseded)]
      | EvCancelled run superseded \<Rightarrow> jobject
          [(''schemaVersion'', jnat EVENT_SCHEMA_VERSION), (''event'', JStr ''cancelled''), (''runId'', jnat run),
           (''tsMs'', jnat ts_ms), (''supersededBy'', joption jnat superseded)]
      | EvRecoveryPhase run job phase_name outcome \<Rightarrow> jobject
          [(''schemaVersion'', jnat EVENT_SCHEMA_VERSION), (''event'', JStr ''recovery_phase''), (''runId'', jnat run),
           (''tsMs'', jnat ts_ms), (''job'', JStr job), (''phase'', JStr phase_name), (''outcome'', joption JStr outcome)])"

section \<open>The stream\<close>

record 'w event_file =
  ef_open :: "string \<Rightarrow> 'w \<Rightarrow> (string + unit) \<times> 'w"
  ef_write_all :: "string \<Rightarrow> 'w \<Rightarrow> (string + unit) \<times> 'w"
  ef_flush :: "'w \<Rightarrow> (string + unit) \<times> 'w"

record 'w event_stream =
  es_active :: bool
  es_warnings :: "string list"
  es_world :: 'w

definition stream_open :: "'w event_file \<Rightarrow> string \<Rightarrow> 'w \<Rightarrow> string + 'w event_stream" where
  "stream_open F path w =
     (case ef_open F path w of
        (Inl err, _) \<Rightarrow> Inl err
      | (Inr _, w) \<Rightarrow> Inr \<lparr>es_active = True, es_warnings = [], es_world = w\<rparr>)"

definition is_active :: "'w event_stream \<Rightarrow> bool" where
  "is_active s = es_active s"

definition event_line :: "json_lib \<Rightarrow> nat \<Rightarrow> event \<Rightarrow> string" where
  "event_line J ts_ms e = jl_compact J (event_record ts_ms e) @ [newline]"

definition append_line :: "'w event_file \<Rightarrow> string \<Rightarrow> 'w \<Rightarrow> (string + unit) \<times> 'w" where
  "append_line F line w =
     (case ef_write_all F line w of (Inl err, w) \<Rightarrow> (Inl err, w) | (Inr _, w) \<Rightarrow> ef_flush F w)"

definition stream_emit :: "json_lib \<Rightarrow> 'w event_file \<Rightarrow> nat \<times> event \<Rightarrow> 'w event_stream \<Rightarrow> 'w event_stream" where
  "stream_emit J F x s =
     (if es_active s then
        (case append_line F (event_line J (fst x) (snd x)) (es_world s) of
           (Inr _, w) \<Rightarrow> s\<lparr>es_world := w\<rparr>
         | (Inl err, w) \<Rightarrow>
             s\<lparr>es_active := False, es_warnings := es_warnings s @ [''run event stream disabled: '' @ err], es_world := w\<rparr>)
      else s)"

section \<open>What the file holds\<close>

definition appends :: "'w event_file \<Rightarrow> ('w \<Rightarrow> string) \<Rightarrow> bool" where
  "appends F content \<longleftrightarrow>
     (\<forall>s w w'. ef_write_all F s w = (Inr (), w') \<longrightarrow> content w' = content w @ s) \<and>
     (\<forall>s w w' err. ef_write_all F s w = (Inl err, w') \<longrightarrow> (\<exists>p. prefix p s \<and> content w' = content w @ p)) \<and>
     (\<forall>w w' r. ef_flush F w = (r, w') \<longrightarrow> content w' = content w)"

lemma append_line_content:
  assumes "appends F content" and "append_line F line w = (r, w')"
  shows "\<exists>p. prefix p line \<and> content w' = content w @ p \<and> (r = Inr () \<longrightarrow> p = line)"
proof (cases "ef_write_all F line w")
  case (Pair r1 w1)
  show ?thesis
  proof (cases r1)
    case (Inl err)
    then show ?thesis using assms Pair by (auto simp: append_line_def appends_def)
  next
    case (Inr u)
    then have "ef_flush F w1 = (r, w')" using assms(2) Pair by (simp add: append_line_def)
    then have "content w' = content w1" using assms(1) unfolding appends_def by blast
    moreover have "content w1 = content w @ line"
      using assms(1) Pair Inr unfolding appends_def by (metis old.unit.exhaust)
    ultimately show ?thesis by auto
  qed
qed

lemma stream_prefix:
  assumes law: "appends F content" and open_stream: "es_active s" "es_warnings s = []"
  shows "\<exists>k p. k \<le> length xs \<and>
    content (es_world (fold (stream_emit J F) xs s)) =
      content (es_world s) @ concat (map (\<lambda>x. event_line J (fst x) (snd x)) (take k xs)) @ p \<and>
    (if es_active (fold (stream_emit J F) xs s)
     then k = length xs \<and> p = [] \<and> es_warnings (fold (stream_emit J F) xs s) = []
     else k < length xs \<and> prefix p (event_line J (fst (xs ! k)) (snd (xs ! k))) \<and>
       length (es_warnings (fold (stream_emit J F) xs s)) = 1)"
  using open_stream
proof (induction xs arbitrary: s)
  case (Cons x xs)
  let ?line = "event_line J (fst x) (snd x)"
  obtain r w where step: "append_line F ?line (es_world s) = (r, w)" by (rule prod.exhaust)
  from append_line_content [OF law step] obtain p where p: "prefix p ?line" "content w = content (es_world s) @ p" "r = Inr () \<longrightarrow> p = ?line"
    by blast
  show ?case
  proof (cases r)
    case (Inl err)
    have off: "fold (stream_emit J F) ys t = t" if "\<not> es_active t" for ys and t :: "'a event_stream"
      using that by (induction ys) (simp_all add: stream_emit_def)
    have s1: "stream_emit J F x s = s\<lparr>es_active := False, es_warnings := [''run event stream disabled: '' @ err], es_world := w\<rparr>"
      using Cons.prems step Inl by (simp add: stream_emit_def)
    show ?thesis using p(1,2) by (intro exI [of _ 0] exI [of _ p]) (simp add: s1 off)
  next
    case (Inr u)
    then have s1: "stream_emit J F x s = s\<lparr>es_world := w\<rparr>" using Cons.prems step by (simp add: stream_emit_def)
    obtain k q where "k \<le> length xs"
      "content (es_world (fold (stream_emit J F) xs (s\<lparr>es_world := w\<rparr>))) =
         content w @ concat (map (\<lambda>x. event_line J (fst x) (snd x)) (take k xs)) @ q"
      "if es_active (fold (stream_emit J F) xs (s\<lparr>es_world := w\<rparr>))
       then k = length xs \<and> q = [] \<and> es_warnings (fold (stream_emit J F) xs (s\<lparr>es_world := w\<rparr>)) = []
       else k < length xs \<and> prefix q (event_line J (fst (xs ! k)) (snd (xs ! k))) \<and>
         length (es_warnings (fold (stream_emit J F) xs (s\<lparr>es_world := w\<rparr>))) = 1"
      using Cons.IH [of "s\<lparr>es_world := w\<rparr>"] Cons.prems by auto
    then show ?thesis using p Inr s1 by (intro exI [of _ "Suc k"] exI [of _ q]) (auto split: if_splits)
  qed
qed simp

text \<open>
  The file is a prefix of the record. Starting from an open stream, after any events and under any
  failures of the file, the text that was appended is the lines of the first events and then at most a
  part of one more line; the stream is active exactly when every line is complete and no warning was
  given, and otherwise there is exactly one warning.
\<close>

theorem stream_holds_a_prefix_of_the_events:
  assumes law: "appends F content" and open_stream: "es_active s" "es_warnings s = []"
  shows "\<exists>k p. k \<le> length xs \<and>
    content (es_world (fold (stream_emit J F) xs s)) =
      content (es_world s) @ concat (map (\<lambda>x. event_line J (fst x) (snd x)) (take k xs)) @ p \<and>
    (if es_active (fold (stream_emit J F) xs s)
     then k = length xs \<and> p = [] \<and> es_warnings (fold (stream_emit J F) xs s) = []
     else k < length xs \<and> prefix p (event_line J (fst (xs ! k)) (snd (xs ! k))) \<and>
       length (es_warnings (fold (stream_emit J F) xs s)) = 1)"
  using law open_stream by (rule stream_prefix)

section \<open>Reading a stream\<close>

text \<open>
  The documented behaviour of the compact text encoding: it is read back as the same value, and it has no
  line breaks, since control characters are escaped.
\<close>

fun plain_value :: "json \<Rightarrow> bool" where
  "plain_value (JInt n) \<longleftrightarrow> - (2 ^ 63) \<le> n \<and> n < 2 ^ 64"
| "plain_value (JFloat s) \<longleftrightarrow> False"
| "plain_value (JArr js) \<longleftrightarrow> (\<forall>j\<in>set js. plain_value j)"
| "plain_value (JObj m) \<longleftrightarrow> bt_ok m \<and> (\<forall>kv\<in>set m. plain_value (snd kv))"
| "plain_value _ \<longleftrightarrow> True"

definition one_line_text :: "json_lib \<Rightarrow> bool" where
  "one_line_text J \<longleftrightarrow>
     (\<forall>v. plain_value v \<longrightarrow> jl_parse J (jl_compact J v) = Inr v \<and> newline \<notin> set (jl_compact J v) \<and> CHR 0x0D \<notin> set (jl_compact J v))"

text \<open>The numbers of an event fit into 64 bits, as the counters of the program do.\<close>

definition small_option :: "nat option \<Rightarrow> bool" where
  "small_option x \<longleftrightarrow> (\<forall>n. x = Some n \<longrightarrow> n < 2 ^ 64)"

fun event_fits :: "event \<Rightarrow> bool" where
  "event_fits (EvStarted st) \<longleftrightarrow> st_run_id st < 2 ^ 64 \<and> small_option (st_batch st) \<and> small_option (st_predecessor st) \<and>
     small_option (st_effective_concurrency st)"
| "event_fits (EvTick _ _) \<longleftrightarrow> True"
| "event_fits (EvTaskTerminal run task) \<longleftrightarrow> run < 2 ^ 64 \<and> small_option (ts_duration_ms task)"
| "event_fits (EvFinished run superseded _ _) \<longleftrightarrow> run < 2 ^ 64 \<and> small_option superseded"
| "event_fits (EvCancelled run superseded) \<longleftrightarrow> run < 2 ^ 64 \<and> small_option superseded"
| "event_fits (EvRecoveryPhase run _ _ _) \<longleftrightarrow> run < 2 ^ 64"

fun event_kind :: "event \<Rightarrow> string" where
  "event_kind (EvStarted _) = ''started''"
| "event_kind (EvTick _ _) = ''tick''"
| "event_kind (EvTaskTerminal _ _) = ''task_terminal''"
| "event_kind (EvFinished _ _ _ _) = ''finished''"
| "event_kind (EvCancelled _ _) = ''cancelled''"
| "event_kind (EvRecoveryPhase _ _ _ _) = ''recovery_phase''"

fun event_run :: "event \<Rightarrow> nat option" where
  "event_run (EvStarted st) = Some (st_run_id st)"
| "event_run (EvTick _ _) = None"
| "event_run (EvTaskTerminal run _) = Some run"
| "event_run (EvFinished run _ _ _) = Some run"
| "event_run (EvCancelled run _) = Some run"
| "event_run (EvRecoveryPhase run _ _ _) = Some run"

definition read_record :: "json_lib \<Rightarrow> string \<Rightarrow> (string option \<times> nat option) option" where
  "read_record J line =
     (case jl_parse J line of
        Inl _ \<Rightarrow> None
      | Inr v \<Rightarrow> Some (Option.bind (jl_get J v ''event'') as_str, Option.bind (jl_get J v ''runId'') (jl_as_u64 J)))"

lemma members_values: "kv \<in> set (members kvs) \<Longrightarrow> snd kv \<in> snd ` set kvs"
proof (induction kvs rule: rev_induct)
  case (snoc x kvs)
  obtain k v where "x = (k, v)" by (cases x)
  with snoc set_bt_insert [of k v "members kvs"] show ?case by auto
qed (simp add: members_def)

lemma plain_jobject: "\<forall>kv\<in>set kvs. plain_value (snd kv) \<Longrightarrow> plain_value (jobject kvs)"
  using members_values by (fastforce simp: jobject_def bt_ok_members)

lemma plain_simps [simp]:
  "plain_value (jstrings ss)" "plain_value (joption JStr x)" "plain_value (json_task_state ts)"
  "n < 2 ^ 64 \<Longrightarrow> plain_value (jnat n)" "small_option y \<Longrightarrow> plain_value (joption jnat y)"
  by (cases ts; auto simp: jstrings_def joption_def jnat_def small_option_def split: option.split)+

lemma plain_event_record: "event_fits e \<Longrightarrow> ts_ms < 2 ^ 64 \<Longrightarrow> plain_value (event_record ts_ms e)"
  by (cases e) (auto simp: event_record_def EVENT_SCHEMA_VERSION_def millis_u64_def intro!: plain_jobject)

lemma event_record_get:
  assumes "json_documented J"
  shows "jl_get J (event_record ts_ms e) ''event'' = Some (JStr (event_kind e))"
    and "jl_get J (event_record ts_ms e) ''runId'' = Some (joption jnat (event_run e))"
  using assms by (cases e; simp add: event_record_def jobject_get joption_def)+

lemma split_inclusive_line:
  "newline \<notin> set l \<Longrightarrow> split_inclusive newline (l @ newline # rest) = (l @ [newline]) # split_inclusive newline rest"
  by (induction l) auto

lemma str_lines_of_lines:
  "\<forall>l\<in>set ls. newline \<notin> set l \<and> CHR 0x0D \<notin> set l \<Longrightarrow> str_lines (concat (map (\<lambda>l. l @ [newline]) ls)) = ls"
proof (induction ls)
  case (Cons l ls)
  have "strip_line (l @ [newline]) = l" using Cons.prems by (auto simp: strip_line_def Let_def dest: last_in_set)
  with Cons split_inclusive_line [of l] show ?case by (simp add: str_lines_def lines_of_def)
qed (simp add: str_lines_def lines_of_def)


section \<open>A file in memory\<close>

instance json :: countable
  by countable_datatype

definition counting_json :: json_lib where
  "counting_json = demo_json\<lparr>jl_compact := \<lambda>v. replicate (to_nat v) CHR ''x'', jl_parse := \<lambda>s. Inr (from_nat (length s))\<rparr>"

lemma counting_json_laws: "json_documented counting_json" "one_line_text counting_json"
proof -
  show "json_documented counting_json" using demo_json_documented by (simp add: json_documented_def counting_json_def)
  have "newline \<noteq> CHR ''x''" by code_simp
  then show "one_line_text counting_json" by (simp add: one_line_text_def counting_json_def)
qed

text \<open>A disk with room for the given number of bytes.\<close>

definition small_disk :: "nat \<Rightarrow> string event_file" where
  "small_disk room =
     \<lparr>ef_open = (\<lambda>_ w. (Inr (), w)),
      ef_write_all = (\<lambda>s w. if length (w @ s) \<le> room then (Inr (), w @ s) else (Inl ''disk full'', w @ take (room - length w) s)),
      ef_flush = (\<lambda>w. (Inr (), w))\<rparr>"

lemma small_disk_appends: "appends (small_disk room) (\<lambda>w. w)"
  by (auto simp: appends_def small_disk_def take_is_prefix split: if_splits)

lemma roomy_disk_accepts: "es_active s \<Longrightarrow> length (es_world s @ concat (map (\<lambda>x. event_line J (fst x) (snd x)) xs)) \<le> room \<Longrightarrow>
    es_active (fold (stream_emit J (small_disk room)) xs s)"
proof (induction xs arbitrary: s)
  case (Cons x xs)
  then have "stream_emit J (small_disk room) x s = s\<lparr>es_world := es_world s @ event_line J (fst x) (snd x)\<rparr>"
    by (simp add: stream_emit_def append_line_def small_disk_def)
  with Cons.IH [of "stream_emit J (small_disk room) x s"] Cons.prems show ?case by simp
qed simp

theorem stream_holds_a_prefix_of_the_events_witness:
  "\<exists>k p. k \<le> 1 \<and> es_world (fold (stream_emit counting_json (small_disk 0)) [(5, EvCancelled 1 None)] \<lparr>es_active = True, es_warnings = [], es_world = []\<rparr>) =
     concat (map (\<lambda>x. event_line counting_json (fst x) (snd x)) (take k [(5, EvCancelled 1 None)])) @ p"
  using stream_holds_a_prefix_of_the_events [OF small_disk_appends, of "\<lparr>es_active = True, es_warnings = [], es_world = []\<rparr>"
    "[(5, EvCancelled 1 None)]" counting_json 0]
  by auto

definition demo_events :: "(nat \<times> event) list" where
  "demo_events = [(5, EvTick ''t'' None), (6, EvCancelled 1 None)]"

definition demo_disk :: "string event_file" where
  "demo_disk = small_disk (length (concat (map (\<lambda>x. event_line counting_json (fst x) (snd x)) demo_events)))"

definition demo_stream :: "string event_stream" where
  "demo_stream = \<lparr>es_active = True, es_warnings = [], es_world = []\<rparr>"


end
