(* ===== verification/Log_File.thy ===== *)
theory Log_File
  imports Cli_Render "HOL-Library.Log_Nat"
begin

text \<open>
  Printed messages and the log file, \<open>src/src/logging.rs\<close> and \<open>src/src/stdout.rs\<close>: the process-wide
  logger with the removal of colour codes, the message forms, and the summary of a finished run.

  The file behind the logger is a record of functions over an arbitrary environment. A panic while the
  logger is locked poisons the lock: from then on logging does nothing.

  Shown: colour codes never reach the log, so the log of a coloured session is that of a plain one; the
  removal panics only on a message that ends in an escape byte, and on such a message of a child process
  the log file ends for good.
\<close>

section \<open>Removing colour codes\<close>

definition ESC :: char where
  "ESC = CHR 0x1B"

text \<open>The scan of \<open>sanitize\<close>; \<open>None\<close> is the index out of range after a final escape byte.\<close>

function strip_codes :: "string \<Rightarrow> string option" where
  "strip_codes [] = Some []"
| "strip_codes (c # cs) =
     (if c = ESC then
        (case cs of
           [] \<Rightarrow> None
         | d # ds \<Rightarrow>
             if d = CHR ''['' then strip_codes (drop 1 (dropWhile (\<lambda>x. x \<noteq> CHR ''m'') ds))
             else map_option ((#) d) (strip_codes ds))
      else map_option ((#) c) (strip_codes cs))"
  by pat_completeness auto
termination
proof (relation "measure length")
  fix c d :: char and cs ds :: string
  assume "cs = d # ds"
  moreover have "length (dropWhile (\<lambda>x. x \<noteq> CHR ''m'') ds) \<le> length ds" by (rule length_dropWhile_le)
  ultimately show "(drop 1 (dropWhile (\<lambda>x. x \<noteq> CHR ''m'') ds), c # cs) \<in> measure length" by simp
qed simp_all

definition sanitize :: "string \<Rightarrow> string option" where
  "sanitize message =
     (if ESC \<notin> set message then Some message else map_option from_utf8_lossy (strip_codes message))"

section \<open>The logger\<close>

datatype logger = NoLogger | ActiveLogger | PoisonedLogger

record 'w log_os =
  lf_open :: "string \<Rightarrow> 'w \<Rightarrow> (string + unit) \<times> 'w"
  lf_write :: "string \<Rightarrow> 'w \<Rightarrow> (string + unit) \<times> 'w"
  lf_flush :: "'w \<Rightarrow> (string + unit) \<times> 'w"
  lf_set_len :: "nat \<Rightarrow> 'w \<Rightarrow> (string + unit) \<times> 'w"
  lf_seek :: "nat \<Rightarrow> 'w \<Rightarrow> (string + unit) \<times> 'w"

record 'w log_state =
  lg_logger :: logger
  lg_stderr :: "string list"
  lg_world :: 'w

definition poisoned :: string where
  "poisoned = ''logger poisoned''"

definition log_init :: "'w log_os \<Rightarrow> string \<Rightarrow> 'w log_state \<Rightarrow> (string + unit) \<times> 'w log_state" where
  "log_init L path s =
     (case lf_open L path (lg_world s) of
        (Inl err, w) \<Rightarrow> (Inl err, s\<lparr>lg_world := w\<rparr>)
      | (Inr _, w) \<Rightarrow>
          if lg_logger s = PoisonedLogger then (Inl poisoned, s\<lparr>lg_world := w\<rparr>)
          else (Inr (), s\<lparr>lg_logger := ActiveLogger, lg_world := w\<rparr>))"

definition log_is_enabled :: "'w log_state \<Rightarrow> bool" where
  "log_is_enabled s \<longleftrightarrow> lg_logger s = ActiveLogger"

definition log_truncate :: "'w log_os \<Rightarrow> 'w log_state \<Rightarrow> (string + unit) \<times> 'w log_state" where
  "log_truncate L s =
     (case lg_logger s of
        PoisonedLogger \<Rightarrow> (Inl poisoned, s)
      | NoLogger \<Rightarrow> (Inr (), s)
      | ActiveLogger \<Rightarrow>
          (case lf_set_len L 0 (lg_world s) of
             (Inl err, w) \<Rightarrow> (Inl err, s\<lparr>lg_world := w\<rparr>)
           | (Inr _, w) \<Rightarrow> (case lf_seek L 0 w of (r, w) \<Rightarrow> (r, s\<lparr>lg_world := w\<rparr>))))"

definition write_and_flush :: "'w log_os \<Rightarrow> string \<Rightarrow> 'w \<Rightarrow> (string + unit) \<times> 'w" where
  "write_and_flush L s w =
     (case lf_write L s w of (Inl err, w) \<Rightarrow> (Inl err, w) | (Inr _, w) \<Rightarrow> lf_flush L w)"

text \<open>The answer tells whether the call returned; a panic leaves the lock poisoned.\<close>

definition log_internal :: "'w log_os \<Rightarrow> string \<Rightarrow> bool \<Rightarrow> 'w log_state \<Rightarrow> unit option \<times> 'w log_state" where
  "log_internal L message with_newline s =
     (if lg_logger s = ActiveLogger then
        (case sanitize message of
           None \<Rightarrow> (None, s\<lparr>lg_logger := PoisonedLogger\<rparr>)
         | Some text \<Rightarrow>
             (case write_and_flush L (if with_newline then text @ [newline] else text) (lg_world s) of
                (Inr _, w) \<Rightarrow> (Some (), s\<lparr>lg_world := w\<rparr>)
              | (Inl err, w) \<Rightarrow> (Some (), s\<lparr>lg_world := w, lg_stderr := lg_stderr s @ [''Funzzy logger error: '' @ err]\<rparr>)))
      else (Some (), s))"

definition log_line :: "'w log_os \<Rightarrow> string \<Rightarrow> 'w log_state \<Rightarrow> unit option \<times> 'w log_state" where
  "log_line L message = log_internal L message True"

definition log_plain :: "'w log_os \<Rightarrow> string \<Rightarrow> 'w log_state \<Rightarrow> unit option \<times> 'w log_state" where
  "log_plain L message = log_internal L message False"

section \<open>Messages\<close>

definition GREEN :: string where
  "GREEN = ESC # ''[32m''"

definition RED :: string where
  "RED = ESC # ''[31m''"

definition BLUE :: string where
  "BLUE = ESC # ''[34m''"

definition RESET :: string where
  "RESET = ESC # ''[0m''"

definition info_text :: "bool \<Rightarrow> string \<Rightarrow> string" where
  "info_text colored msg =
     (if colored then BLUE @ ''Funzzy'' @ RESET @ '': '' @ msg else ''Funzzy: '' @ msg)"

definition error_line :: "bool \<Rightarrow> string \<Rightarrow> string" where
  "error_line colored msg =
     (if colored then RED @ ''Funzzy error'' @ RESET @ '': '' @ msg else ''Funzzy error: '' @ msg)"

definition warn_text :: "string \<Rightarrow> string" where
  "warn_text msg = ''Funzzy warning: '' @ msg"

definition failure_header :: "bool \<Rightarrow> string \<Rightarrow> string" where
  "failure_header colored heading =
     (if colored then RED @ ''Error'' @ RESET @ '': '' @ heading else ''Error: '' @ heading)"

section \<open>The summary of a run\<close>

text \<open>
  \<open>{:.1}\<close> of a duration in seconds, as in \<open>Cli_Render\<close> but from a tenth of a second on and without an
  upper limit: the quotient by 1000 in a float with 53 significant bits. Milliseconds below
  \<open>2 ^ 53\<close> convert exactly.
\<close>

definition second_bits :: "nat \<Rightarrow> nat" where
  "second_bits ms =
     (if ms < 125 then 56 else if ms < 250 then 55 else if ms < 500 then 54 else if ms < 1000 then 53
      else 53 - floorlog 2 (ms div 1000))"

definition second_tenths :: "nat \<Rightarrow> nat" where
  "second_tenths ms =
     round_half_even (round_half_even (ms * 2 ^ second_bits ms) 1000 * 10) (2 ^ second_bits ms)"

definition format_job_duration :: "nat \<Rightarrow> string" where
  "format_job_duration ms =
     (if ms < 100 then show_nat ms @ ''ms''
      else show_nat (second_tenths ms div 10) @ ''.'' @ show_nat (second_tenths ms mod 10) @ ''s'')"

fun state_label :: "task_state \<Rightarrow> string" where
  "state_label TS_Passed = ''passed''"
| "state_label TS_Failed = ''failed''"
| "state_label TS_Cancelled = ''cancelled''"

definition snapshot_identity :: "task_snapshot \<Rightarrow> string" where
  "snapshot_identity t = (if ts_id t = ts_name t then ts_name t else ''['' @ ts_id t @ ''] '' @ ts_name t)"

definition job_duration_rows :: "task_snapshot list \<Rightarrow> string list" where
  "job_duration_rows ts =
     (if ts = [] then []
      else
        let name_width = max_of (length ''JOB'') (map (length \<circ> snapshot_identity) ts);
            state_width = max_of (length ''RESULT'') (map (length \<circ> state_label \<circ> ts_state) ts)
        in (pad_right name_width ''JOB'' @ ''  '' @ pad_right state_width ''RESULT'' @ ''  DURATION'')
           # map (\<lambda>t. pad_right name_width (snapshot_identity t) @ ''  '' @ pad_right state_width (state_label (ts_state t)) @ ''  ''
                     @ (case ts_duration_ms t of Some ms \<Rightarrow> format_job_duration ms | None \<Rightarrow> ''-'')) ts)"

text \<open>What is printed and logged: whole lines, or text without a line break.\<close>

datatype printed = Line string | Text string

fun outcome_label :: "task_outcome \<Rightarrow> string" where
  "outcome_label Passed = ''passed''"
| "outcome_label (Failed _) = ''failed''"
| "outcome_label Cancelled = ''cancelled''"
| "outcome_label Skipped = ''skipped''"

definition outcome_line :: "string \<times> string option \<times> task_outcome \<Rightarrow> string" where
  "outcome_line x =
     (case x of (name, occ, outcome) \<Rightarrow>
        ''- '' @ (case occ of Some g \<Rightarrow> ''['' @ g @ ''] '' @ name | None \<Rightarrow> name) @ '': '' @ outcome_label outcome)"

definition has_groups :: "run_outcome option \<Rightarrow> bool" where
  "has_groups oc = (case oc of Some o' \<Rightarrow> list_ex (\<lambda>(_, g, _). g \<noteq> None) o' | None \<Rightarrow> False)"

text \<open>The duration at the end, four digits of a 32 bit float, is a parameter.\<close>

definition present_results ::
  "bool \<Rightarrow> (duration \<Rightarrow> string) \<Rightarrow> (string + unit) list \<Rightarrow> duration \<Rightarrow> run_outcome option \<Rightarrow> task_snapshot list \<Rightarrow> printed list" where
  "present_results colored secs results elapsed oc ts =
     (let errors = List.map_filter (\<lambda>r. case r of Inl e \<Rightarrow> Some e | Inr _ \<Rightarrow> None) results in
      [Line ''Funzzy results ----------------------------'']
      @ (if has_groups oc then (case oc of Some o' \<Rightarrow> map (Line \<circ> outcome_line) o' | None \<Rightarrow> []) else [])
      @ map Line (job_duration_rows ts)
      @ (if errors \<noteq> [] then
           (if colored then [Text RED] else [])
           @ map (\<lambda>e. Line (''- '' @ e)) errors
           @ [Text (if colored then ''Failure'' @ RESET @ ''; '' else ''Failure; '')]
         else [Text (if colored then GREEN @ ''Success'' @ RESET @ ''; '' else ''Success; '')])
      @ [Text (''Completed: '' @ show_nat (length results - length errors) @ ''; Failed: '' @ show_nat (length errors) @ ''; ''),
         Text (''Duration: '' @ secs elapsed @ ''s'')])"

definition log_printed :: "'w log_os \<Rightarrow> printed \<Rightarrow> 'w log_state \<Rightarrow> unit option \<times> 'w log_state" where
  "log_printed L x = (case x of Line s \<Rightarrow> log_line L s | Text s \<Rightarrow> log_plain L s)"

section \<open>Colour codes never reach the log\<close>

lemma strip_plain: "ESC \<notin> set s \<Longrightarrow> strip_codes (s @ rest) = map_option (\<lambda>r. s @ r) (strip_codes rest)"
  by (induction s; cases "strip_codes rest") auto

lemma strip_code: "CHR ''m'' \<notin> set p \<Longrightarrow> strip_codes (ESC # CHR ''['' # p @ CHR ''m'' # rest) = strip_codes rest"
proof -
  assume "CHR ''m'' \<notin> set p"
  then have "dropWhile (\<lambda>x. x \<noteq> CHR ''m'') (p @ CHR ''m'' # rest) = CHR ''m'' # rest" by (induction p) auto
  then show ?thesis by simp
qed

text \<open>A message as its writer builds it: plain text and colour codes.\<close>

datatype piece = Plain string | Code string

fun piece_text :: "piece \<Rightarrow> string" where
  "piece_text (Plain s) = s"
| "piece_text (Code p) = ESC # CHR ''['' # p @ ''m''"

fun plain_text_of :: "piece \<Rightarrow> string" where
  "plain_text_of (Plain s) = s"
| "plain_text_of (Code p) = []"

fun piece_ok :: "piece \<Rightarrow> bool" where
  "piece_ok (Plain s) = (ESC \<notin> set s)"
| "piece_ok (Code p) = (CHR ''m'' \<notin> set p)"

lemma strip_pieces:
  "\<forall>x\<in>set ps. piece_ok x \<Longrightarrow> strip_codes (concat (map piece_text ps)) = Some (concat (map plain_text_of ps))"
proof (induction ps)
  case (Cons x ps)
  then show ?case
    using strip_plain strip_code by (cases x) auto
qed simp

text \<open>
  What the log file gets of a message with colour codes is its plain text, unchanged when that text is
  valid UTF-8.
\<close>

theorem log_drops_colours:
  assumes ok: "\<forall>x\<in>set ps. piece_ok x" and valid: "valid_utf8 (concat (map plain_text_of ps))"
  shows "sanitize (concat (map piece_text ps)) = Some (concat (map plain_text_of ps))"
proof (cases "ESC \<in> set (concat (map piece_text ps))")
  case True
  then show ?thesis using strip_pieces [OF ok] valid by (simp add: sanitize_def from_utf8_lossy_valid)
next
  case False
  moreover from this have "concat (map piece_text ps) = concat (map plain_text_of ps)"
    by (induction ps) (auto split: piece.splits, metis list.set_intros(1) piece_text.elims plain_text_of.simps(1))
  ultimately show ?thesis by (simp add: sanitize_def)
qed

lemma valid_utf8_ascii_append:
  assumes "\<forall>c\<in>set s. byte_of c < 128" and "valid_utf8 t"
  shows "valid_utf8 (s @ t)"
  using assms by (induction s) (auto simp: utf8_step_ascii valid_utf8.simps(2))

section \<open>An escape byte at the end\<close>

lemma strip_None_last: "strip_codes s = None \<Longrightarrow> s \<noteq> [] \<and> last s = ESC"
proof (induction s rule: strip_codes.induct)
  case (2 c cs)
  show ?case
  proof (cases "c = ESC \<and> cs \<noteq> [] \<and> hd cs = CHR ''[''")
    case True
    then obtain ds where cs: "cs = CHR ''['' # ds" by (cases cs) auto
    let ?rest = "drop 1 (dropWhile (\<lambda>x. x \<noteq> CHR ''m'') ds)"
    have "?rest \<noteq> [] \<and> last ?rest = ESC" using 2 True cs by simp
    moreover obtain k where "?rest = drop k ds" using dropWhile_eq_drop [of "\<lambda>x. x \<noteq> CHR ''m''" ds] by simp
    ultimately have "drop k ds \<noteq> [] \<and> last (drop k ds) = ESC" by metis
    then show ?thesis using cs by (auto simp: last_drop)
  next
    case False
    then show ?thesis using 2 by (cases cs) (auto split: if_splits)
  qed
qed simp

lemma plain_then_escape: "ESC \<notin> set s \<Longrightarrow> sanitize (s @ [ESC]) = None"
  by (simp add: sanitize_def strip_plain)

text \<open>
  Writing to the log panics only for a message whose last byte is an escape, and it does panic when that
  escape is the only one.
\<close>

lemma log_panics_on_trailing_escape:
  assumes active: "log_is_enabled s"
  shows "fst (log_internal L message nl s) = None \<Longrightarrow> message \<noteq> [] \<and> last message = ESC"
    and "ESC \<notin> set msg \<Longrightarrow> fst (log_internal L (msg @ [ESC]) nl s) = None"
proof -
  have "sanitize message = None \<Longrightarrow> message \<noteq> [] \<and> last message = ESC"
    using strip_None_last by (auto simp: sanitize_def split: if_splits)
  then show "fst (log_internal L message nl s) = None \<Longrightarrow> message \<noteq> [] \<and> last message = ESC"
    using active by (auto simp: log_internal_def log_is_enabled_def split: option.splits prod.splits sum.splits)
  show "ESC \<notin> set msg \<Longrightarrow> fst (log_internal L (msg @ [ESC]) nl s) = None"
    using active plain_then_escape [of msg] by (simp add: log_internal_def log_is_enabled_def)
qed


text \<open>Control codes other than colours end at the next letter m: the text up to there is lost.\<close>

lemma other_codes_swallow_text: "sanitize (ESC # ''[2Kready to migrate'') = Some ''igrate''"
  by code_simp

section \<open>The log of a coloured session\<close>

text \<open>
  A session with colours writes the same log as one without: for every message form and a message that
  is valid UTF-8 without escapes of its own.
\<close>

theorem coloured_messages_log_alike:
  assumes msg: "ESC \<notin> set msg" "valid_utf8 msg"
  shows "sanitize (info_text True msg) = sanitize (info_text False msg) \<and>
    sanitize (error_line True msg) = sanitize (error_line False msg) \<and>
    sanitize (failure_header True msg) = sanitize (failure_header False msg)"
proof -
  have same: "sanitize (ESC # CHR ''['' # code @ ''m'' @ label @ RESET @ '': '' @ msg) = sanitize (label @ '': '' @ msg)"
    if "CHR ''m'' \<notin> set code" "ESC \<notin> set label" "\<forall>c\<in>set (label @ '': ''). byte_of c < 128" for code label
  proof -
    have "ESC \<notin> set (label @ '': '' @ msg)" using that(2) msg(1) by (simp add: ESC_def)
    moreover have "valid_utf8 (label @ '': '' @ msg)"
      using valid_utf8_ascii_append [OF that(3) msg(2)] by simp
    moreover have "strip_codes (ESC # CHR ''['' # code @ ''m'' @ label @ RESET @ '': '' @ msg) = Some (label @ '': '' @ msg)"
      using strip_pieces [of "[Code code, Plain label, Code ''0'', Plain ('': '' @ msg)]"] that msg(1)
      by (simp add: RESET_def ESC_def)
    ultimately show ?thesis by (simp add: sanitize_def from_utf8_lossy_valid)
  qed
  have ascii: "\<forall>c\<in>set (''Funzzy'' @ '': ''). byte_of c < 128" "\<forall>c\<in>set (''Funzzy error'' @ '': ''). byte_of c < 128"
    "\<forall>c\<in>set (''Error'' @ '': ''). byte_of c < 128"
    by (simp_all add: byte_of_def)
  have "ESC \<notin> set ''Funzzy''" "ESC \<notin> set ''Funzzy error''" "ESC \<notin> set ''Error''" by (simp_all add: ESC_def)
  with same [of "''34''" "''Funzzy''"] same [of "''31''" "''Funzzy error''"] same [of "''31''" "''Error''"] ascii
  show ?thesis by (simp add: info_text_def error_line_def failure_header_def BLUE_def RED_def)
qed

text \<open>A coloured message and a child that was cut off inside a colour code.\<close>

theorem log_drops_colours_witness:
  "sanitize (ESC # ''[34mFunzzy'' @ ESC # ''[0m: ok'') = Some ''Funzzy: ok''"
proof -
  have "valid_utf8 ''Funzzy: ok''" by (rule valid_utf8_ascii) (simp add: byte_of_def)
  then show ?thesis
    using log_drops_colours [of "[Code ''34'', Plain ''Funzzy'', Code ''0'', Plain '': ok'']"] by (simp add: ESC_def)
qed

definition memory_log :: "string log_os" where
  "memory_log =
     \<lparr>lf_open = (\<lambda>_ _. (Inr (), [])), lf_write = (\<lambda>s w. (Inr (), w @ s)), lf_flush = (\<lambda>w. (Inr (), w)),
      lf_set_len = (\<lambda>n w. (Inr (), take n w)), lf_seek = (\<lambda>_ w. (Inr (), w))\<rparr>"


theorem coloured_messages_log_alike_witness:
  "sanitize (info_text True ''ok'') = sanitize (info_text False ''ok'')"
proof -
  have "ESC \<notin> set ''ok''" "valid_utf8 ''ok''" by (simp_all add: ESC_def valid_utf8_ascii byte_of_def)
  from coloured_messages_log_alike [OF this] show ?thesis by simp
qed

end
