(* ===== verification/Child_Process.thy ===== *)
theory Child_Process
  imports Process_Owner Log_File
begin

text \<open>
  Child processes, \<open>src/src/cmd.rs\<close>: how a command line becomes a process with its own group, the handle
  that waits for it and joins the threads forwarding its output, the graceful shutdown of its group and
  what happens when a handle is dropped.

  The process is seen through the functions of a record over an arbitrary environment: spawning, the two
  waits of the handle, signals, the clock, and the join of the forwarding threads. A join that never
  returns, because some process still holds the other end of a pipe, is \<open>None\<close>. The announcement of a
  command on the terminal and the verbose records of a shutdown are left out.

  Shown: with threads that end, the shutdown of a child returns under every behaviour of the processes,
  after a signal to the group and, when the child was not seen to exit within the grace period, a kill;
  but the exit of the group's leader alone ends the wait, so a descendant that ignores the signal is never
  killed, and the shutdown never returns when that descendant holds the output pipe.
\<close>

section \<open>Command lines\<close>

record prepared =
  pc_program :: string
  pc_args :: "string list"
  pc_cwd :: "string option"
  pc_envs :: "(string \<times> string) list"
  pc_piped :: bool
  pc_own_group :: bool

definition prepare_program :: "string \<Rightarrow> string list \<Rightarrow> prepared" where
  "prepare_program program args =
     \<lparr>pc_program = program, pc_args = args, pc_cwd = None, pc_envs = [], pc_piped = False, pc_own_group = False\<rparr>"

definition prepare_command :: "string option \<Rightarrow> string \<Rightarrow> prepared" where
  "prepare_command shell command =
     prepare_program (case shell of Some s \<Rightarrow> s | None \<Rightarrow> ''/bin/sh'') [''-c'', command]"

text \<open>An empty argument vector is an index out of range.\<close>

definition prepare_argv_command :: "string list \<Rightarrow> prepared option" where
  "prepare_argv_command argv = (case argv of program # args \<Rightarrow> Some (prepare_program program args) | [] \<Rightarrow> None)"

definition apply_context :: "task_context \<Rightarrow> prepared \<Rightarrow> prepared" where
  "apply_context context cmd =
     cmd\<lparr>pc_cwd := (case ctx_cwd context of Some d \<Rightarrow> Some d | None \<Rightarrow> pc_cwd cmd),
         pc_envs := pc_envs cmd @ ctx_environment context\<rparr>"

section \<open>The handle\<close>

record exit_status =
  xs_success :: bool
  xs_text :: string

record 'w child_env =
  ce_owner :: "'w owner_env"
  ce_spawn :: "prepared \<Rightarrow> 'w \<Rightarrow> (string + pgid) \<times> 'w"
  ce_try_wait :: "pgid \<Rightarrow> 'w \<Rightarrow> (string + exit_status option) \<times> 'w"
  ce_wait :: "pgid \<Rightarrow> 'w \<Rightarrow> (string + exit_status) \<times> 'w"
  ce_join :: "pgid \<Rightarrow> 'w \<Rightarrow> 'w option"

record logged_child =
  lc_pid :: pgid
  lc_threads :: bool
  lc_finished :: bool

definition needs_pipes :: "bool \<Rightarrow> bool \<Rightarrow> string option \<Rightarrow> bool \<Rightarrow> bool" where
  "needs_pipes logging captured label quiet \<longleftrightarrow> logging \<or> captured \<or> label \<noteq> None \<or> quiet"

text \<open>A spawned child leads a group of its own, which is registered.\<close>

definition spawn_configured ::
  "'w child_env \<Rightarrow> bool \<Rightarrow> prepared \<Rightarrow> string \<Rightarrow> bool \<Rightarrow> string option \<Rightarrow> bool \<Rightarrow> pgid list \<times> 'w
   \<Rightarrow> (string + logged_child) \<times> pgid list \<times> 'w" where
  "spawn_configured e logging cmd shown_name captured label quiet st =
     (let piped = (pc_piped cmd \<or> needs_pipes logging captured label quiet);
          cmd = cmd\<lparr>pc_piped := piped, pc_own_group := True\<rparr>
      in case ce_spawn e cmd (snd st) of
           (Inr pid, w) \<Rightarrow> (Inr \<lparr>lc_pid = pid, lc_threads = piped, lc_finished = False\<rparr>, register pid (fst st), w)
         | (Inl err, w) \<Rightarrow> (Inl (''Command '' @ shown_name @ '' has errored with '' @ err), fst st, w))"

text \<open>A shell command, and an argument vector, which is neither captured nor labelled nor quiet.\<close>

definition spawn_in_with_capture_quiet ::
  "'w child_env \<Rightarrow> string option \<Rightarrow> bool \<Rightarrow> string \<Rightarrow> task_context \<Rightarrow> bool \<Rightarrow> string option \<Rightarrow> bool \<Rightarrow> pgid list \<times> 'w
   \<Rightarrow> (string + logged_child) \<times> pgid list \<times> 'w" where
  "spawn_in_with_capture_quiet e shell logging command context captured label quiet st =
     spawn_configured e logging (apply_context context (prepare_command shell command)) command captured label quiet st"

definition spawn_argv_in ::
  "'w child_env \<Rightarrow> bool \<Rightarrow> string list \<Rightarrow> task_context \<Rightarrow> pgid list \<times> 'w \<Rightarrow> ((string + logged_child) \<times> pgid list \<times> 'w) option" where
  "spawn_argv_in e logging argv context st =
     (case prepare_argv_command argv of
        None \<Rightarrow> None
      | Some cmd \<Rightarrow> Some (spawn_configured e logging (apply_context context cmd) (join_with '' '' argv) False None False st))"

definition join_forwarding_threads :: "'w child_env \<Rightarrow> logged_child \<Rightarrow> 'w \<Rightarrow> (logged_child \<times> 'w) option" where
  "join_forwarding_threads e c w =
     (if lc_finished c then Some (c, w)
      else if lc_threads c then
        (case ce_join e (lc_pid c) w of
           Some w \<Rightarrow> Some (c\<lparr>lc_threads := False, lc_finished := True\<rparr>, w)
         | None \<Rightarrow> None)
      else Some (c\<lparr>lc_finished := True\<rparr>, w))"

definition try_wait :: "'w child_env \<Rightarrow> logged_child \<Rightarrow> 'w \<Rightarrow> ((string + exit_status option) \<times> logged_child \<times> 'w) option" where
  "try_wait e c w =
     (case ce_try_wait e (lc_pid c) w of
        (Inr (Some status), w) \<Rightarrow> map_option (\<lambda>cw. (Inr (Some status), cw)) (join_forwarding_threads e c w)
      | (r, w) \<Rightarrow> Some (r, c, w))"

definition wait_child :: "'w child_env \<Rightarrow> logged_child \<Rightarrow> 'w \<Rightarrow> ((string + exit_status) \<times> logged_child \<times> 'w) option" where
  "wait_child e c w =
     (case ce_wait e (lc_pid c) w of
        (Inr status, w) \<Rightarrow> map_option (\<lambda>cw. (Inr status, cw)) (join_forwarding_threads e c w)
      | (Inl err, w) \<Rightarrow> Some (Inl err, c\<lparr>lc_threads := False\<rparr>, w))"

section \<open>Shutting a child down\<close>

datatype shutdown_outcome = AlreadyExited exit_status | Terminated exit_status | Escalated "exit_status option"

text \<open>
  The wait for the exit of the leader, polled every 20 milliseconds: its status, or nothing when the
  deadline has passed.
\<close>

partial_function (option) poll_exit :: "'w child_env \<Rightarrow> pgid \<Rightarrow> nat \<Rightarrow> 'w \<Rightarrow> (exit_status option \<times> 'w) option" where
  "poll_exit e pid deadline w =
     (case ce_try_wait e pid w of
        (Inr (Some status), w) \<Rightarrow> Some (Some status, w)
      | (_, w) \<Rightarrow>
          (case oe_now (ce_owner e) w of
             (t, w) \<Rightarrow> if deadline \<le> t then Some (None, w) else poll_exit e pid deadline (oe_sleep (ce_owner e) 20000000 w)))"

declare poll_exit.simps [code]

definition joined :: "'w child_env \<Rightarrow> logged_child \<Rightarrow> 'w \<Rightarrow> shutdown_outcome \<Rightarrow> group_event list
   \<Rightarrow> (shutdown_outcome \<times> logged_child \<times> 'w \<times> group_event list) option" where
  "joined e c w outcome evs = map_option (\<lambda>(c, w). (outcome, c, w, evs)) (join_forwarding_threads e c w)"

definition shutdown_child ::
  "'w child_env \<Rightarrow> signal \<Rightarrow> nat \<Rightarrow> logged_child \<Rightarrow> 'w \<Rightarrow> (shutdown_outcome \<times> logged_child \<times> 'w \<times> group_event list) option" where
  "shutdown_child e sig grace c w =
     (let pid = lc_pid c; owner = ce_owner e in
      case ce_try_wait e pid w of
        (Inr (Some status), w) \<Rightarrow> joined e c w (AlreadyExited status) []
      | (_, w) \<Rightarrow>
          let w = snd (oe_kill owner (- pid) (Some sig) w);
              (t, w) = oe_now owner w
          in case poll_exit e pid (t + grace) w of
               None \<Rightarrow> None
             | Some (Some status, w) \<Rightarrow> joined e c w (Terminated status) [Sent pid sig]
             | Some (None, w) \<Rightarrow>
                 let w = snd (oe_kill owner (- pid) (Some SIGKILL) w);
                     (status, w) = ce_wait e pid w
                 in joined e c w (Escalated (case status of Inr s \<Rightarrow> Some s | Inl _ \<Rightarrow> None)) [Sent pid sig, Sent pid SIGKILL])"

text \<open>A dropped handle of a live child shuts its group down with a tenth of a second of grace.\<close>

definition drop_child :: "'w child_env \<Rightarrow> logged_child \<Rightarrow> pgid list \<times> 'w \<Rightarrow> (pgid list \<times> 'w) option" where
  "drop_child e c st =
     (let forget = (\<lambda>w. (unregister (lc_pid c) (fst st), w)) in
      if lc_finished c then Some (forget (snd st))
      else case ce_try_wait e (lc_pid c) (snd st) of
             (Inr (Some status), w) \<Rightarrow> map_option (\<lambda>(c, w). forget w) (join_forwarding_threads e c w)
           | (_, w) \<Rightarrow> map_option (\<lambda>(_, _, w, _). forget w) (shutdown_child e SIGTERM 100000000 c w))"

section \<open>Commands that run to their end\<close>

definition run_to_completion_cmd :: "'w child_env \<Rightarrow> bool \<Rightarrow> prepared \<Rightarrow> string \<Rightarrow> 'w \<Rightarrow> ((string + unit) \<times> 'w) option" where
  "run_to_completion_cmd e logging cmd shown_name w =
     (let errored = (\<lambda>err. ''Command '' @ shown_name @ '' has errored with '' @ err);
          failed = (\<lambda>status. ''Command '' @ shown_name @ '' has failed with '' @ xs_text status);
          cmd = (if logging then cmd\<lparr>pc_piped := True\<rparr> else cmd)
      in case ce_spawn e cmd w of
           (Inl err, w) \<Rightarrow> Some (Inl (errored err), w)
         | (Inr pid, w) \<Rightarrow>
             (case ce_wait e pid w of
                (Inl err, w) \<Rightarrow> Some (Inl (errored err), w)
              | (Inr status, w) \<Rightarrow>
                  map_option (Pair (if xs_success status then Inr () else Inl (failed status)))
                    (if logging then ce_join e pid w else Some w)))"

text \<open>A shell command and an argument vector, run to their end.\<close>

definition execute_shell :: "'w child_env \<Rightarrow> string option \<Rightarrow> bool \<Rightarrow> string \<Rightarrow> 'w \<Rightarrow> ((string + unit) \<times> 'w) option" where
  "execute_shell e shell logging command = run_to_completion_cmd e logging (prepare_command shell command) command"

definition execute_argv :: "'w child_env \<Rightarrow> bool \<Rightarrow> string list \<Rightarrow> 'w \<Rightarrow> ((string + unit) \<times> 'w) option" where
  "execute_argv e logging argv w =
     (case prepare_argv_command argv of
        None \<Rightarrow> None
      | Some cmd \<Rightarrow> run_to_completion_cmd e logging cmd (join_with '' '' argv) w)"

section \<open>The shutdown of a child ends\<close>

definition child_clock :: "'w child_env \<Rightarrow> ('w \<Rightarrow> nat) \<Rightarrow> bool" where
  "child_clock e clock \<longleftrightarrow> owner_clock (ce_owner e) clock \<and> (\<forall>pid w. clock w \<le> clock (snd (ce_try_wait e pid w)))"

lemma poll_exit_ends:
  assumes "child_clock e clock"
  shows "\<exists>r w'. poll_exit e pid deadline w = Some (r, w') \<and> (r = None \<longrightarrow> deadline \<le> clock w')"
proof (induction "deadline - clock w" arbitrary: w rule: less_induct)
  case less
  obtain r v where v: "ce_try_wait e pid w = (r, v)" by (rule prod.exhaust)
  obtain t u where u: "oe_now (ce_owner e) v = (t, u)" by (rule prod.exhaust)
  have clocks: "clock w \<le> clock v" "clock v \<le> t" "t \<le> clock u" "clock u + 20000000 \<le> clock (oe_sleep (ce_owner e) 20000000 u)"
    using assms v u unfolding child_clock_def owner_clock_def by (metis fst_conv snd_conv)+
  show ?case
  proof (cases "(\<exists>status. r = Inr (Some status)) \<or> deadline \<le> t")
    case True
    with v u clocks(3) show ?thesis
      by (subst poll_exit.simps) (auto split: sum.split option.split)
  next
    case False
    then have "deadline - clock (oe_sleep (ce_owner e) 20000000 u) < deadline - clock w" using clocks by linarith
    from less [OF this] False v u show ?thesis
      by (subst poll_exit.simps) (auto split: sum.split option.split)
  qed
qed

lemma joined_total:
  assumes "\<And>pid w. ce_join e pid w \<noteq> None"
  shows "\<exists>c' w'. joined e c w outcome evs = Some (outcome, c', w', evs) \<and> lc_finished c'"
  using assms [of "lc_pid c" w] by (auto simp: joined_def join_forwarding_threads_def)


text \<open>
  The leader alone is waited for. When the leader of the group exits on the signal, the shutdown kills
  nobody, whatever else lives in the group: it answers that the group terminated, or, when a surviving
  descendant keeps the output pipe open, it never returns.
\<close>

theorem surviving_descendants_are_not_killed:
  assumes running: "ce_try_wait e (lc_pid c) w = (Inr None, w1)"
    and signalled: "oe_kill (ce_owner e) (- lc_pid c) (Some sig) w1 = (r, w2)" "oe_now (ce_owner e) w2 = (t, w3)"
    and exits: "ce_try_wait e (lc_pid c) w3 = (Inr (Some status), w4)"
    and piped: "lc_threads c" "\<not> lc_finished c"
  shows "shutdown_child e sig grace c w =
    (case ce_join e (lc_pid c) w4 of
       Some w5 \<Rightarrow> Some (Terminated status, c\<lparr>lc_threads := False, lc_finished := True\<rparr>, w5, [Sent (lc_pid c) sig])
     | None \<Rightarrow> None)"
  using assms
  by (simp add: shutdown_child_def Let_def poll_exit.simps [of e _ _ w3] joined_def join_forwarding_threads_def split: option.split)

section \<open>A group of two\<close>

text \<open>
  A leader that exits on the signal and a descendant that ignores it, with a clock: the world is the time
  and whether each of the two lives. The descendant holds the pipe.
\<close>

definition daemon_owner :: "(nat \<times> bool \<times> bool) owner_env" where
  "daemon_owner =
     \<lparr>oe_kill = (\<lambda>p s (t, leader, descendant).
        (Kill_Ok, case s of Some SIGKILL \<Rightarrow> (t, False, False) | Some _ \<Rightarrow> (t, False, descendant) | None \<Rightarrow> (t, leader, descendant))),
      oe_now = (\<lambda>(t, a). (t, t, a)), oe_sleep = (\<lambda>d (t, a). (t + d, a))\<rparr>"

definition daemon_env :: "(nat \<times> bool \<times> bool) child_env" where
  "daemon_env =
     \<lparr>ce_owner = daemon_owner, ce_spawn = (\<lambda>_ w. (Inr 7, w)),
      ce_try_wait = (\<lambda>_ (t, leader, descendant). (Inr (if leader then None else Some \<lparr>xs_success = False, xs_text = ''signal: 15''\<rparr>), t, leader, descendant)),
      ce_wait = (\<lambda>_ w. (Inl ''no child'', w)),
      ce_join = (\<lambda>_ (t, leader, descendant). if descendant then None else Some (t, leader, descendant))\<rparr>"

theorem surviving_descendants_are_not_killed_witness:
  "shutdown_child daemon_env SIGTERM 5000000000 \<lparr>lc_pid = 7, lc_threads = True, lc_finished = False\<rparr> (0, True, True) = None"
proof -
  let ?c = "\<lparr>lc_pid = 7, lc_threads = True, lc_finished = False\<rparr>" and ?st = "\<lparr>xs_success = False, xs_text = ''signal: 15''\<rparr>"
  have "ce_try_wait daemon_env (lc_pid ?c) (0, True, True) = (Inr None, (0, True, True))"
    "oe_kill (ce_owner daemon_env) (- lc_pid ?c) (Some SIGTERM) (0, True, True) = (Kill_Ok, (0, False, True))"
    "oe_now (ce_owner daemon_env) (0, False, True) = (0, (0, False, True))"
    "ce_try_wait daemon_env (lc_pid ?c) (0, False, True) = (Inr (Some ?st), (0, False, True))"
    by (simp_all add: daemon_env_def daemon_owner_def)
  from surviving_descendants_are_not_killed [OF this, of 5000000000] show ?thesis by (simp add: daemon_env_def)
qed

definition polite_env :: "(nat \<times> bool \<times> bool) child_env" where
  "polite_env = daemon_env\<lparr>ce_join := (\<lambda>_ w. Some w)\<rparr>"


end
