(* ===== verification/Finite_Run.thy ===== *)
theory Finite_Run
  imports App_Startup Executor_Liveness Log_File
begin

text \<open>
  The finite run of a target, \<open>src/src/cli/run.rs\<close> with the \<open>Run\<close> branch of \<open>src/src/app.rs\<close>: the
  workflow runner executes the plan of the target to its end, the summary is printed and the process
  exits with the combined outcome.

  Shown: a run of a plan without services comes to its end and its printed table has one row for every
  planned task, in plan order; and a fail-fast run whose failed job recovers prints success and exits
  with failure.
\<close>

section \<open>The command\<close>

definition target_metadata :: "string \<Rightarrow> run_metadata" where
  "target_metadata target = with_duration_profile (Some target) None (metadata_new 0 (''target:'' @ target))"

record 'w finished_run =
  fr_succeeded :: bool
  fr_printed :: "printed list"
  fr_world :: "'w world"

text \<open>The inner \<^const>\<open>None\<close> is a run that does not end.\<close>

definition run_command_execute ::
  "(bytes \<Rightarrow> bytes) \<Rightarrow> file_system \<Rightarrow> bool \<Rightarrow> (duration \<Rightarrow> string) \<Rightarrow> 'w workflow_runner \<Rightarrow> run_plan \<Rightarrow> string \<Rightarrow> 'w world
   \<Rightarrow> 'w finished_run option result" where
  "run_command_execute digest fs colored secs r plan target w =
     map_sum id (map_option (\<lambda>(completed, w).
       \<lparr>fr_succeeded = is_success (cr_outcome completed),
        fr_printed = present_results colored secs (cr_results completed) (cr_elapsed completed) (Some (cr_outcome completed)) (cr_tasks completed),
        fr_world = w\<rparr>))
       (workflow_run digest fs r plan (target_metadata target) None w)"

text \<open>The runner of the command line, with the hooks and the recovery policy of the configuration.\<close>

definition target_runner :: "app_env \<Rightarrow> 'w runtime \<Rightarrow> arguments \<Rightarrow> watches \<Rightarrow> 'w workflow_runner start" where
  "target_runner e rt args wt =
     start_then (or_panic (workflow_new rt (ap_root e) (ag_fail_fast args \<or> is_enabled e ''FUNZZY_BAIL'') (wt_concurrency wt))) (\<lambda>r.
     start_then (load_hooks e (ag_config args)) (\<lambda>hooks.
     start_then (effective_recovery_policy e args) (\<lambda>policy.
     Some (Inr (workflow_with_recovery_policy policy (workflow_with_hooks hooks r))))))"

text \<open>
  \<open>fzz run TARGET\<close>: the exit code with the printed summary, or a failure that is printed. The code of a
  signal is read after the run.
\<close>

definition run_target_command ::
  "app_env \<Rightarrow> 'w runtime \<Rightarrow> file_system \<Rightarrow> bool \<Rightarrow> (duration \<Rightarrow> string) \<Rightarrow> (run_target_error \<Rightarrow> string) \<Rightarrow> ('w world \<Rightarrow> int)
   \<Rightarrow> arguments \<Rightarrow> string \<Rightarrow> 'w world \<Rightarrow> (int \<times> printed list \<times> 'w world) start" where
  "run_target_command e rt fs colored secs shown received args target w =
     start_then (run_action e args target shown) (\<lambda>(wt, plan).
     start_then (target_runner e rt args wt) (\<lambda>r.
     case run_command_execute (sha (lb_hash (ap_lib e))) fs colored secs r plan target w of
       Inl err \<Rightarrow> if received w \<noteq> 0 then Some (Inr (received w, [], w)) else Some (Inl (''Configured run failed'', err))
     | Inr None \<Rightarrow> None
     | Inr (Some x) \<Rightarrow> Some (Inr (run_exit (received (fr_world x)) (Inr (fr_succeeded x)), fr_printed x, fr_world x))))"

section \<open>The run ends and its table is complete\<close>

lemma resolve_task_keeps: "resolve_task fs ws t = Inr t' \<Longrightarrow> plan_key t' = plan_key t \<and> tp_service t' = tp_service t"
  by (auto simp: resolve_task_def Let_def plan_key_def split: option.splits if_splits sum.splits)

lemma expand_plan_tasks: "plan_tasks (fst (expand_plan opts p)) = map (expanded_task opts) (plan_tasks p)"
proof -
  have "stage_tasks (expand_stage opts s) = map (expanded_task opts) (stage_tasks s)" for s by (cases s) simp_all
  then show ?thesis by (simp add: expand_plan_def plan_tasks_def map_concat comp_def)
qed

lemma expanded_task_keeps: "plan_key (expanded_task opts t) = plan_key t" "tp_service (expanded_task opts t) = tp_service t"
  by (simp_all add: expanded_task_def plan_key_def split: prod.split)

lemma resolved_expanded_tasks:
  assumes "resolve_context fs ws plan = Inr plan'"
  shows "map plan_key (plan_tasks (fst (expand_plan opts plan'))) = map plan_key (plan_tasks plan)"
    and "map tp_service (plan_tasks (fst (expand_plan opts plan'))) = map tp_service (plan_tasks plan)"
proof -
  have "list_all2 (\<lambda>t t'. resolve_task fs ws t = Inr t') (plan_tasks plan) (plan_tasks plan')"
    using assms by (rule resolve_context_tasks)
  then have "map plan_key (plan_tasks plan') = map plan_key (plan_tasks plan) \<and> map tp_service (plan_tasks plan') = map tp_service (plan_tasks plan)"
    by (induction rule: list_all2_induct) (simp_all add: resolve_task_keeps)
  then show "map plan_key (plan_tasks (fst (expand_plan opts plan'))) = map plan_key (plan_tasks plan)"
    "map tp_service (plan_tasks (fst (expand_plan opts plan'))) = map tp_service (plan_tasks plan)"
    by (simp_all add: expand_plan_tasks comp_def expanded_task_keeps)
qed

lemma summary_has_table:
  "\<exists>front back. present_results colored secs results elapsed oc ts = front @ map Line (job_duration_rows ts) @ back"
  unfolding present_results_def Let_def by (metis append.assoc)

text \<open>
  The run of a target ends, and its summary is complete. When the directories of the plan resolve, no
  task is a service and the processes answer "still running" only finitely often, the command returns,
  and the printed table is that of a list of task records with exactly one record for every planned
  task, in plan order.
\<close>

theorem target_run_reports_every_task:
  assumes runtime: "budgeted (wr_executor r) b" "never_cancelled (wr_executor r)" "0 < ex_concurrency_limit (wr_executor r)"
    and resolves: "resolve_context fs (wr_root r) plan = Inr plan'"
    and finite_tasks: "\<forall>t\<in>set (plan_tasks plan). \<not> tp_service t" and fresh: "terminals 0 (wd_events w) = []"
  shows "\<exists>x ts front back. run_command_execute digest fs colored secs r plan target w = Inr (Some x) \<and>
    fr_printed x = front @ map Line (job_duration_rows ts) @ back \<and>
    mset (map snap_key ts) = mset (map plan_key (plan_tasks plan)) \<and> sorted (map ts_position ts)"
proof -
  let ?opts = "\<lparr>opt_filepath = None, opt_paths = [], opt_current_dir = wr_root r\<rparr>"
  let ?plan = "fst (expand_plan ?opts plan')"
  let ?m = "profiled digest r ?plan (with_recovery_policy (wr_recovery_policy r) (with_hooks (wr_hooks r) (target_metadata target)))"
  have m: "md_run_id ?m = 0" "md_effective_concurrency ?m = None"
    by (simp_all add: profiled_def target_metadata_def with_duration_profile_def metadata_new_def with_recovery_policy_def with_hooks_def)
  have "\<forall>t\<in>set (plan_tasks ?plan). \<not> tp_service t"
    using resolved_expanded_tasks(2) [OF resolves, of ?opts] finite_tasks by (metis (no_types, lifting) image_iff list.set_map)
  then obtain cr w' where cr: "run_to_completion (wr_executor r) ?m ?plan w = Some (cr, w')"
    "mset (map snap_key (cr_tasks cr)) = mset (map plan_key (plan_tasks ?plan))" "sorted (map ts_position (cr_tasks cr))"
    using reported_run [OF runtime, of ?m ?plan w] m fresh by auto
  have "workflow_run digest fs r plan (target_metadata target) None w = Inr (Some (cr, w'))"
    using resolves cr(1) by (simp add: workflow_run_def Let_def case_prod_beta)
  then show ?thesis
    using cr(2,3) resolved_expanded_tasks(1) [OF resolves, of ?opts]
      summary_has_table [of colored secs "cr_results cr" "cr_elapsed cr" "Some (cr_outcome cr)" "cr_tasks cr"]
    by (auto simp: run_command_execute_def)
qed

section \<open>A recovered run that fails and reports success\<close>

definition script_runner :: "bool \<Rightarrow> string list workflow_runner" where
  "script_runner fail_fast =
     \<lparr>wr_root = ''/w'', wr_executor = script_executor fail_fast, wr_concurrency = 2, wr_fail_fast = fail_fast,
      wr_hooks = no_hooks, wr_recovery_policy = Prompt\<rparr>"

definition any_files :: file_system where
  "any_files = \<lparr>fs_exists = (\<lambda>_. True), fs_canonicalize = Inr\<rparr>"

definition located :: "run_plan \<Rightarrow> run_plan" where
  "located p = \<lparr>stages = map (\<lambda>s. case s of Serial t \<Rightarrow> Serial (t\<lparr>tp_context := (tp_context t)\<lparr>ctx_cwd := Some ''/w''\<rparr>\<rparr>) | x \<Rightarrow> x) (stages p)\<rparr>"

lemma skip_prepared:
  "resolve_context any_files ''/w'' skip_plan = Inr (located skip_plan)"
  "expand_plan \<lparr>opt_filepath = None, opt_paths = [], opt_current_dir = ''/w''\<rparr> (located skip_plan) = (located skip_plan, [])"
  by code_simp+

lemma skip_run:
  "\<exists>w' ts. run_to_completion (script_executor True)
     ((metadata_new 0 trigger)\<lparr>md_target := target, md_execution_signature := signature\<rparr>) (located skip_plan) script_world =
     Some (\<lparr>cr_results = [Inr ()], cr_elapsed = 0, cr_outcome = [(''unit'', None, Passed), (''ship'', None, Skipped)], cr_tasks = ts\<rparr>, w')"
  by (simp add: located_def skip_plan_def exec_rules script_defs)

lemma summary_lines:
  defines "errors rs \<equiv> List.map_filter (\<lambda>r. case r of Inl e \<Rightarrow> Some e | Inr _ \<Rightarrow> None) rs"
  shows "Text (''Completed: '' @ show_nat (length results - length (errors results)) @ ''; Failed: '' @ show_nat (length (errors results)) @ ''; '')
      \<in> set (present_results colored secs results elapsed oc ts)"
    and "errors results = [] \<Longrightarrow> Text ''Success; '' \<in> set (present_results False secs results elapsed oc ts)"
proof -
  have "\<exists>front verdict. present_results colored secs results elapsed oc ts = front @ verdict @
      [Text (''Completed: '' @ show_nat (length results - length (errors results)) @ ''; Failed: '' @ show_nat (length (errors results)) @ ''; ''),
       Text (''Duration: '' @ secs elapsed @ ''s'')] \<and> (errors results = [] \<and> \<not> colored \<longrightarrow> verdict = [Text ''Success; ''])" for colored
    unfolding present_results_def Let_def errors_def [symmetric]
    by (rule exI, rule exI, rule conjI, simp only: append.assoc [symmetric], auto)
  then show "Text (''Completed: '' @ show_nat (length results - length (errors results)) @ ''; Failed: '' @ show_nat (length (errors results)) @ ''; '')
      \<in> set (present_results colored secs results elapsed oc ts)"
    and "errors results = [] \<Longrightarrow> Text ''Success; '' \<in> set (present_results False secs results elapsed oc ts)"
    by (metis (no_types, lifting) Un_iff list.set_intros(1) set_append)+
qed

lemma errors_of_success: "List.map_filter (\<lambda>r. case r of Inl e \<Rightarrow> Some e | Inr _ \<Rightarrow> None) [Inr ()] = []"
  by (simp add: List.map_filter_def)

text \<open>
  A fail-fast run whose first job fails and recovers skips the second job. The summary prints success
  with no failure, and the process exits with 1.
\<close>

lemma recovered_run_prints_success_and_exits_1:
  "\<exists>x. run_command_execute id any_files False (\<lambda>_. ''0.0000'') (script_runner True) skip_plan ''ship'' script_world = Inr (Some x) \<and>
     Text ''Success; '' \<in> set (fr_printed x) \<and> Text ''Completed: 1; Failed: 0; '' \<in> set (fr_printed x) \<and>
     run_exit 0 (Inr (fr_succeeded x)) = 1"
proof -
  let ?sig = "Some (execution_signature id (located skip_plan) 2 True)"
  let ?m = "with_recovery_policy Prompt (with_hooks no_hooks (target_metadata ''ship''))"
  have m: "profiled id (script_runner True) (located skip_plan) ?m =
      (metadata_new 0 ''target:ship'')\<lparr>md_target := Some ''ship'', md_execution_signature := ?sig\<rparr>"
    by (simp add: profiled_def target_metadata_def with_duration_profile_def with_recovery_policy_def with_hooks_def script_runner_def
        metadata_new_def no_hooks_def)
  obtain w' ts where run: "run_to_completion (script_executor True)
      ((metadata_new 0 ''target:ship'')\<lparr>md_target := Some ''ship'', md_execution_signature := ?sig\<rparr>) (located skip_plan) script_world =
      Some (\<lparr>cr_results = [Inr ()], cr_elapsed = 0, cr_outcome = [(''unit'', None, Passed), (''ship'', None, Skipped)], cr_tasks = ts\<rparr>, w')"
    using skip_run by blast
  have digits: "show_nat 0 = ''0''" "show_nat (Suc 0) = ''1''" by code_simp+
  have r: "wr_root (script_runner True) = ''/w''" "wr_executor (script_runner True) = script_executor True"
    "wr_hooks (script_runner True) = no_hooks" "wr_recovery_policy (script_runner True) = Prompt"
    by (simp_all add: script_runner_def)
  have "workflow_run id any_files (script_runner True) skip_plan (target_metadata ''ship'') None script_world =
      Inr (Some (\<lparr>cr_results = [Inr ()], cr_elapsed = 0, cr_outcome = [(''unit'', None, Passed), (''ship'', None, Skipped)], cr_tasks = ts\<rparr>, w'))"
    by (simp add: workflow_run_def r skip_prepared m run)
  moreover have "Text ''Success; '' \<in> set (present_results False (\<lambda>_. ''0.0000'') [Inr ()] 0 oc ts)" for oc
    using summary_lines(2) [of "[Inr ()]"] by (simp add: errors_of_success)
  moreover have "Text ''Completed: 1; Failed: 0; '' \<in> set (present_results False (\<lambda>_. ''0.0000'') [Inr ()] 0 oc ts)" for oc
    using summary_lines(1) [of "[Inr ()]" False "\<lambda>_. ''0.0000''" 0 oc ts] by (simp add: errors_of_success digits)
  moreover have "run_exit 0 (Inr (is_success [(''unit'', None, Passed), (''ship'', None, Skipped)])) = 1"
    by (simp add: run_exit_def is_success_def)
  ultimately show ?thesis by (simp add: run_command_execute_def)
qed

theorem target_run_reports_every_task_witness:
  "\<exists>x ts. run_command_execute id any_files False (\<lambda>_. ''0.0000'') (script_runner False) script_plan ''ship'' script_world = Inr (Some x) \<and>
     mset (map snap_key ts) = mset (map plan_key (plan_tasks script_plan))"
proof -
  have "resolve_context any_files (wr_root (script_runner False)) script_plan \<noteq> Inl err" for err
    by (auto simp: resolve_context_def script_plan_def script_task_def any_files_def script_runner_def resolve_task_def Let_def)
  then obtain plan' where "resolve_context any_files (wr_root (script_runner False)) script_plan = Inr plan'"
    by (cases "resolve_context any_files (wr_root (script_runner False)) script_plan") auto
  moreover have "wr_executor (script_runner False) = script_executor False" by (simp add: script_runner_def)
  moreover have "\<forall>t\<in>set (plan_tasks script_plan). \<not> tp_service t" "terminals 0 (wd_events script_world) = []"
    "0 < ex_concurrency_limit (script_executor False)"
    by (simp_all add: script_plan_def script_task_def plan_tasks_def script_world_def script_executor_def)
  ultimately show ?thesis
    using target_run_reports_every_task [of "script_runner False" "\<lambda>_. 0"] script_budgeted script_never_cancelled by metis
qed

end
