(* ===== verification/Spec2Isabelle.thy ===== *)
theory Spec2Isabelle
  imports Snapshot_Broker Output_Paging Worker_Scenarios Watch_Loop Shutdown_Model Process_Owner Approval Reload_Properties Cli_Templates Cli_Migrate Config_Schema Control_Wiring Client_Properties App_Startup Diagnostics Event_Stream Child_Process Finite_Run
begin

text \<open>
  A verification development of funzzy, a file watcher that runs the jobs of a workflow
  configuration when files change (all paths below are under \<open>src/src/\<close>).

  \<^bold>\<open>The program.\<close> A configuration is a list of jobs (\<open>rules.rs\<close>). Its frozen form
  (\<open>watches.rs\<close>) selects, for a batch of changed paths or for a target, a staged plan of tasks
  (\<open>plan.rs\<close>). The worker (\<open>workers.rs\<close>) gives every scheduled plan a generation number and
  puts it into a queue with one slot; its consumer thread drives the executor (\<open>executor.rs\<close>),
  which runs the stages, restarts services, offers recovery and emits events. The observers of the
  events are the view of the latest generation (\<open>watcher_state.rs\<close>), the await coordinator
  (\<open>awaiting.rs\<close>), the retained output (\<open>output.rs\<close>), the duration history
  (\<open>duration_history.rs\<close>, \<open>duration_store.rs\<close>, \<open>duration_recorder.rs\<close>) and the snapshot
  broker (\<open>snapshot.rs\<close>). Revisions (\<open>config_revision.rs\<close>) and the lifecycle log
  (\<open>config_lifecycle.rs\<close>) name the configuration a generation ran under; \<open>shutdown.rs\<close> and
  \<open>process_owner.rs\<close> end the session.
  The watch loop (\<open>watch_loop.rs\<close>) turns the batches of a backend (\<open>watcher.rs\<close>) into runs and
  hands changes of the configuration file to the reload (\<open>reload.rs\<close>, \<open>reload_coordinator.rs\<close>),
  which reads it with \<open>config.rs\<close>. A control server (\<open>control.rs\<close>) answers requests of the client
  (\<open>control_client.rs\<close>, \<open>cli/control.rs\<close>) from the observers and schedules through the worker.
  Children are spawned and ended by \<open>cmd.rs\<close>; \<open>diagnostics.rs\<close>, \<open>logging.rs\<close>, \<open>stdout.rs\<close> and
  \<open>event_stream.rs\<close> report. \<open>arguments.rs\<close> and \<open>app.rs\<close> start it all.

  \<^bold>\<open>Theories.\<close>
  \<^item> \<open>Fzz_Prelude\<close>, \<open>Utf8_Text\<close>, \<open>Ordered_Map\<close>, \<open>Canonical_Encoding\<close>: the Rust string, number
    and \<open>BTreeMap\<close> operations the sources use, lossy decoding, and the injective encoder shared
    by plan signatures and configuration hashes.
  \<^item> \<open>Rules_Model\<close>, \<open>Template_Model\<close>, \<open>Plan_Model\<close>, \<open>Watches_Model\<close>: jobs and pattern matching,
    placeholder expansion and quoting, plans with their stages, directory resolution and
    signatures, and the watch configuration with gitignore, selection, explanation and subscription
    roots. Shown: matching of validated jobs is total, quoting is read back by a shell, filtering
    keeps jobs and occurrences, resolved directories stay inside the workspace, signatures identify
    plans, the explanation agrees with the plan, and every triggering path lies below a root.
  \<^item> \<open>Config_Revision\<close>, \<open>Config_Lifecycle\<close>: semantic hashes and revision numbers; the bounded,
    gap-free transition history.
  \<^item> \<open>Execution_Events\<close>, \<open>Executor_Tasks\<close>, \<open>Executor\<close>: the executor. \<open>Executor_Accounting\<close>,
    \<open>Executor_Boundary\<close>, \<open>Executor_Properties\<close>, \<open>Executor_Liveness\<close>: every planned task is settled
    by exactly one terminal event, stages run in order and within the concurrency bound, a
    generation has one start and one end, and a finite run comes to its end.
  \<^item> \<open>Scheduler\<close>, \<open>Workers\<close>, \<open>Worker_Properties\<close>, \<open>Worker_Scenarios\<close>: the queue (as an
    interpretation of the locale \<open>command_stream\<close>), the producers and the consumer as interleaved
    turns, their refinement of a ledger of generations, and scenarios that the code handles badly.
  \<^item> \<open>Watcher_State\<close>, \<open>Awaiting\<close>, \<open>Output_Registry\<close>, \<open>Output_Retrieval\<close>, \<open>Output_Paging\<close>,
    \<open>Duration_History\<close>, \<open>Duration_Store\<close>, \<open>Duration_Recorder\<close>, \<open>Snapshot_Broker\<close>: the observers;
    exactness of the view, bounds of what is retained, retrieval and paging round trips, atomic
    saves, estimates as order statistics, awaits that answer as soon as they can.
  \<^item> \<open>Shutdown_Model\<close>, \<open>Process_Owner\<close>: the shutdown coordinator as interleaved threads, and the
    shutdown of owned process groups.
  \<^item> \<open>Watch_Backend\<close>, \<open>Watch_Loop\<close>, \<open>Approval\<close>: the polling and native backends (\<open>watcher.rs\<close>), the
    batches of the watch loop with the gate on modification times (\<open>watch_loop.rs\<close>,
    \<open>identity.rs\<close>), and the prompt that asks for a recovery. Shown: a scan reports exactly the
    changed paths, the gate routes exactly the writes, and a batch that selects jobs becomes one run.
  \<^item> \<open>Yaml_Access\<close>, \<open>Option_Catalog\<close>, \<open>Config_Model\<close>, \<open>Config_Properties\<close>, \<open>Config_Schema\<close>: the
    reading of the three configuration forms, their catalog of options and the JSON schema. Shown:
    accepted jobs are well formed, only catalogued properties are accepted, and the schema is closed
    over the same names.
  \<^item> \<open>Reload_Model\<close>, \<open>Reload_Properties\<close>: the hot reload (\<open>reload.rs\<close>, \<open>reload_coordinator.rs\<close>,
    \<open>reload_session.rs\<close>), all or nothing, with the roots covered throughout.
  \<^item> \<open>Json_Value\<close>, \<open>Wire_Format\<close>, \<open>Control_Protocol\<close>, \<open>Control_Properties\<close>, \<open>Control_Wiring\<close>: JSON
    values, the documents of the wire, the control server with every method, the connection loop, and
    the API a watcher builds for it. Shown: one answer per call, refused requests change nothing, and
    status, await and subscription tell one story.
  \<^item> \<open>Control_Client\<close>, \<open>Client_Properties\<close>: the client library and its decoders. Shown: a call returns
    its own answer and no other, and the decoders invert the server's documents.
  \<^item> \<open>Cli_Templates\<close>, \<open>Cli_Migrate\<close>, \<open>Cli_Format\<close>, \<open>Cli_Render\<close>, \<open>Cli_Control\<close>, \<open>Cli_Arguments\<close>,
    \<open>App_Startup\<close>: the starter file, the migration, the structured and the printed answers, the control
    command with its wait and renegotiation, the reading of the arguments, and the start of the program
    (\<open>app.rs\<close>). Shown: an accepted command line never panics, a control command acts at most once, and
    saving an unchanged file is a no-op exactly as far as no flag overrides it.
  \<^item> \<open>Diagnostics\<close>, \<open>Log_File\<close>, \<open>Event_Stream\<close>, \<open>Child_Process\<close>: verbose records and the detector of
    feedback loops, the log file and the printed summary, the stream of run events, and child processes
    with their graceful shutdown.
  \<^item> \<open>Finite_Run\<close>: the run of a target from the arguments to the printed summary and the exit code; it
    ends and its table has a row for every planned task.

  \<^bold>\<open>Conventions.\<close> A struct is a record, an enum a datatype, an error a value of a sum; a panic is
  \<^const>\<open>None\<close> or an error value. Strings are the byte lists of their UTF-8 form. Durations are
  nanoseconds. Code that is not part of the program (the \<open>glob\<close>, \<open>ignore\<close>, YAML and JSON
  crates, SHA-256, the file system, processes and the clock) is a parameter: a record of functions
  over an environment of arbitrary type, so that every answer and every change of the outside is
  covered; what a property relies on is a named hypothesis with a witness.

  \<^bold>\<open>Loops.\<close> Loops that may wait forever are \<^theory_text>\<open>partial_function (option)\<close>. The executor
  ends under a budget: an environment in which every answer "still running" costs one unit; the
  waits of the shutdown end under a monotonic clock.

  \<^bold>\<open>Not modelled.\<close> The creation of threads, sleeping and the accept loop of the socket; the
  installation of the signal handler (what a signal stores and requests is modelled); the preparation
  of the log file and of the event stream and the shell completions in \<open>app.rs\<close>; the parsing, help
  and version texts of clap (the tree it delivers is the input of \<open>Cli_Arguments\<close>); the compiled
  rules of the ignore crate in \<open>gitignore.rs\<close>; the module declarations and binaries (\<open>lib.rs\<close>,
  \<open>main.rs\<close>, \<open>fzz.rs\<close>, \<open>cli/mod.rs\<close>) and \<open>cli/watch.rs\<close>, which only composes
  parts that are modelled; the four digits of the 32 bit float at the end of a run summary; constructors
  and accessors that only name a field; and the tests.
\<close>

end
